(* ===== verification/Prelude.thy ===== *)
theory Prelude
  imports Main "HOL-Library.Code_Target_Nat" "HOL-Library.Char_ord" "HOL-Library.List_Lexorder" "HOL-Library.AList" "HOL-Library.Word"
begin

text \<open>
  Shared ground of the development: Go's error values, the byte strings and the functions of
  the packages \<open>strings\<close>, \<open>sort\<close> and \<open>slices\<close> that the program calls, and a
  state-and-error monad with a small weakest-precondition calculus in which the stateful
  components are written.

  A Go \<open>string\<close> is a byte sequence, modelled by \<open>string\<close> (one \<open>char\<close> per byte); a
  Go \<open>[]byte\<close> is \<open>bytes\<close>.  A nil slice or map and an empty one are identified, which the
  program does too (it only ever asks for \<open>len\<close>).
\<close>

named_theorems wp \<open>weakest-precondition rules of the state-and-error monad\<close>
named_theorems go_str \<open>evaluation rules of the string helpers\<close>

type_synonym bytes = "8 word list"

section \<open>Errors\<close>

text \<open>
  The sentinels of \<open>state.go\<close> and \<open>manager.go\<close>, the two sentinels of the standard library
  the code tests for, formatted errors (format string and arguments), errors that wrap another
  one with \<open>%w\<close>, the HTTP errors of \<open>translate.go\<close> and the Connect errors of
  \<open>connect.go\<close>.
\<close>

datatype arg = S string | N int

datatype err =
    ErrRetiredOwner | ErrCredentialMismatch | ErrStateLeaseHeld | ErrStatePending
  | ErrPendingAmbiguous | ErrToolResultConflict
  | ErrSessionActive | ErrSessionPending | ErrSessionNotPending
  | ErrMixedToolFollowUp | ErrCallerToolsDisabled
  | ErrNotExist | ErrCanceled | ErrDeadlineExceeded
  | OsError string
  | Errorf string "arg list"
  | Wrap string err
  | RequestError nat string
  | ConnectError string string

text \<open>\<open>errors.Is\<close>: follow the chain of wrapped errors.\<close>

fun errIs :: "err \<Rightarrow> err \<Rightarrow> bool" where
  "errIs (Wrap s e) t = (Wrap s e = t \<or> errIs e t)"
| "errIs e t = (e = t)"

lemma errIs_refl [simp]: "errIs e e"
  by (cases e) auto

type_synonym 'a res = "err + 'a"

section \<open>Byte strings\<close>

subsection \<open>\<open>strings.TrimSpace\<close>\<close>

text \<open>
  \<open>unicode.IsSpace\<close> at the level of UTF-8: the ASCII blanks, the two-byte encodings of U+0085
  and U+00A0 and the three-byte encodings of the remaining White_Space runes.
\<close>

definition space1 :: "char \<Rightarrow> bool" where
  "space1 a = (a \<in> {CHR 0x09, CHR 0x0A, CHR 0x0B, CHR 0x0C, CHR 0x0D, CHR 0x20})"

definition space2 :: "char \<Rightarrow> char \<Rightarrow> bool" where
  "space2 a b = (a = CHR 0xC2 \<and> b \<in> {CHR 0x85, CHR 0xA0})"

definition space3 :: "char \<Rightarrow> char \<Rightarrow> char \<Rightarrow> bool" where
  "space3 a b c =
    ((a = CHR 0xE1 \<and> b = CHR 0x9A \<and> c = CHR 0x80)
   \<or> (a = CHR 0xE2 \<and> b = CHR 0x80
        \<and> c \<in> {CHR 0x80, CHR 0x81, CHR 0x82, CHR 0x83, CHR 0x84, CHR 0x85, CHR 0x86, CHR 0x87,
               CHR 0x88, CHR 0x89, CHR 0x8A, CHR 0xA8, CHR 0xA9, CHR 0xAF})
   \<or> (a = CHR 0xE2 \<and> b = CHR 0x81 \<and> c = CHR 0x9F)
   \<or> (a = CHR 0xE3 \<and> b = CHR 0x80 \<and> c = CHR 0x80))"

fun trimWith ::
  "('a \<Rightarrow> bool) \<Rightarrow> ('a \<Rightarrow> 'a \<Rightarrow> bool) \<Rightarrow> ('a \<Rightarrow> 'a \<Rightarrow> 'a \<Rightarrow> bool) \<Rightarrow> 'a list \<Rightarrow> 'a list" where
  "trimWith p q r [] = []"
| "trimWith p q r [a] = (if p a then [] else [a])"
| "trimWith p q r [a, b] =
     (if p a then trimWith p q r [b] else if q a b then [] else [a, b])"
| "trimWith p q r (a # b # c # s) =
     (if p a then trimWith p q r (b # c # s)
      else if q a b then trimWith p q r (c # s)
      else if r a b c then trimWith p q r s
      else a # b # c # s)"

definition trimLeft :: "string \<Rightarrow> string" where
  "trimLeft = trimWith space1 space2 space3"

definition trimRight :: "string \<Rightarrow> string" where
  "trimRight s = rev (trimWith space1 (\<lambda>b a. space2 a b) (\<lambda>c b a. space3 a b c) (rev s))"

definition trimSpace :: "string \<Rightarrow> string" where
  "trimSpace s = trimRight (trimLeft s)"

fun startsWith3 ::
  "('a \<Rightarrow> bool) \<Rightarrow> ('a \<Rightarrow> 'a \<Rightarrow> bool) \<Rightarrow> ('a \<Rightarrow> 'a \<Rightarrow> 'a \<Rightarrow> bool) \<Rightarrow> 'a list \<Rightarrow> bool" where
  "startsWith3 p q r [] = False"
| "startsWith3 p q r [a] = p a"
| "startsWith3 p q r [a, b] = (p a \<or> q a b)"
| "startsWith3 p q r (a # b # c # s) = (p a \<or> q a b \<or> r a b c)"

lemma trimWith_id: "\<not> startsWith3 p q r s \<Longrightarrow> trimWith p q r s = s"
  by (cases "(p, q, r, s)" rule: trimWith.cases) auto

lemma trimWith_clean: "\<not> startsWith3 p q r (trimWith p q r s)"
  by (induction p q r s rule: trimWith.induct) auto

lemma startsWith3_append: "startsWith3 p q r s \<Longrightarrow> startsWith3 p q r (s @ t)"
proof (cases "(p, q, r, s)" rule: startsWith3.cases)
  case (2 p' q' r' a)
  assume "startsWith3 p q r s"
  with 2 show ?thesis by (cases t; cases "tl t") auto
next
  case (3 p' q' r' a b)
  assume "startsWith3 p q r s"
  with 3 show ?thesis by (cases t) auto
qed auto

lemma trimWith_suffix: "\<exists>u. s = u @ trimWith p q r s"
proof (induction p q r s rule: trimWith.induct)
  case (4 p q r a b c s)
  then show ?case by (auto; (metis append_Cons append_Nil)?)
qed (auto intro: exI [of _ "[]"])

lemma trimRight_prefix: "\<exists>u. s = trimRight s @ u"
proof -
  obtain u where "rev s = u @ trimWith space1 (\<lambda>b a. space2 a b) (\<lambda>c b a. space3 a b c) (rev s)"
    using trimWith_suffix by blast
  then have "s = trimRight s @ rev u"
    by (metis rev_append rev_rev_ident trimRight_def)
  then show ?thesis ..
qed

lemma trimRight_idem: "trimRight (trimRight s) = trimRight s"
  unfolding trimRight_def by (simp add: trimWith_id trimWith_clean)

lemma trimSpace_idem [simp]: "trimSpace (trimSpace s) = trimSpace s"
proof -
  obtain u where u: "trimLeft s = trimRight (trimLeft s) @ u"
    using trimRight_prefix by blast
  have "\<not> startsWith3 space1 space2 space3 (trimLeft s)"
    by (simp add: trimLeft_def trimWith_clean)
  then have "\<not> startsWith3 space1 space2 space3 (trimRight (trimLeft s))"
    using u startsWith3_append by metis
  then have "trimLeft (trimRight (trimLeft s)) = trimRight (trimLeft s)"
    by (simp add: trimLeft_def trimWith_id)
  then show ?thesis
    by (simp add: trimSpace_def trimRight_idem)
qed

lemma trimSpace_Nil [simp]: "trimSpace [] = []"
  by (simp add: trimSpace_def trimLeft_def trimRight_def)

lemma length_trimSpace: "length (trimSpace s) \<le> length s"
proof -
  obtain u where "trimLeft s = trimSpace s @ u"
    using trimRight_prefix [of "trimLeft s"] by (auto simp: trimSpace_def)
  then have "length (trimSpace s) \<le> length (trimLeft s)"
    by simp
  moreover obtain v where "s = v @ trimLeft s"
    using trimWith_suffix [of s space1 space2 space3] by (auto simp: trimLeft_def)
  then have "length (trimLeft s) \<le> length s"
    by (metis length_append le_add2)
  ultimately show ?thesis by simp
qed

lemmas trim_eval [go_str] =
  trimSpace_def trimLeft_def trimRight_def space1_def space2_def space3_def

subsection \<open>Prefixes, suffixes, joining and case\<close>

fun stripPrefix :: "'a list \<Rightarrow> 'a list \<Rightarrow> 'a list option" where
  "stripPrefix [] s = Some s"
| "stripPrefix (p # ps) [] = None"
| "stripPrefix (p # ps) (c # s) = (if p = c then stripPrefix ps s else None)"

definition hasPrefix :: "string \<Rightarrow> string \<Rightarrow> bool" where
  "hasPrefix s p = (stripPrefix p s \<noteq> None)"

definition trimPrefix :: "string \<Rightarrow> string \<Rightarrow> string" where
  "trimPrefix s p = (case stripPrefix p s of None \<Rightarrow> s | Some t \<Rightarrow> t)"

definition hasSuffix :: "string \<Rightarrow> string \<Rightarrow> bool" where
  "hasSuffix s p = (stripPrefix (rev p) (rev s) \<noteq> None)"

definition trimSuffix :: "string \<Rightarrow> string \<Rightarrow> string" where
  "trimSuffix s p = (case stripPrefix (rev p) (rev s) of None \<Rightarrow> s | Some t \<Rightarrow> rev t)"

lemma stripPrefix_Some_iff: "stripPrefix p s = Some t \<longleftrightarrow> s = p @ t"
  by (induction p s rule: stripPrefix.induct) auto

lemma hasPrefix_iff: "hasPrefix s p \<longleftrightarrow> (\<exists>t. s = p @ t)"
  by (auto simp: hasPrefix_def stripPrefix_Some_iff)

lemma hasSuffix_iff: "hasSuffix s p \<longleftrightarrow> (\<exists>t. s = t @ p)"
proof -
  have "hasSuffix s p \<longleftrightarrow> (\<exists>t. rev s = rev p @ t)"
    by (auto simp: hasSuffix_def stripPrefix_Some_iff)
  also have "\<dots> \<longleftrightarrow> (\<exists>t. s = t @ p)"
    by (metis rev_append rev_rev_ident)
  finally show ?thesis .
qed

text \<open>\<open>strings.Join\<close> and \<open>strings.Cut\<close> at a one-byte separator.\<close>

fun join :: "string \<Rightarrow> string list \<Rightarrow> string" where
  "join sep [] = []"
| "join sep [x] = x"
| "join sep (x # y # zs) = x @ sep @ join sep (y # zs)"

definition cutAt :: "char \<Rightarrow> string \<Rightarrow> string \<times> string" where
  "cutAt c s = (takeWhile (\<lambda>x. x \<noteq> c) s, tl (dropWhile (\<lambda>x. x \<noteq> c) s))"

text \<open>
  \<open>strings.ToLower\<close>.  The program lowers strings only to compare them with ASCII text, so the
  model lowers the ASCII letters and the two runes whose lower case is ASCII (U+0130 and
  U+212A) and keeps every other byte: whether the result equals an ASCII string is then what Go
  answers.
\<close>

definition lowerByte :: "char \<Rightarrow> char" where
  "lowerByte c = (let n = of_char c :: nat in if 65 \<le> n \<and> n \<le> 90 then char_of (n + 32) else c)"

fun toLower :: "string \<Rightarrow> string" where
  "toLower (a # b # c # s) =
     (if a = CHR 0xC4 \<and> b = CHR 0xB0 then CHR 0x69 # toLower (c # s)
      else if a = CHR 0xE2 \<and> b = CHR 0x84 \<and> c = CHR 0xAA then CHR 0x6B # toLower s
      else lowerByte a # toLower (b # c # s))"
| "toLower [a, b] = (if a = CHR 0xC4 \<and> b = CHR 0xB0 then [CHR 0x69] else [lowerByte a, lowerByte b])"
| "toLower [a] = [lowerByte a]"
| "toLower [] = []"

lemmas str_eval [go_str] =
  hasPrefix_def hasSuffix_def trimPrefix_def trimSuffix_def cutAt_def lowerByte_def Let_def

text \<open>The NUL byte that separates the parts of every hashed identity.\<close>

definition NUL :: string where
  "NUL = [CHR 0x00]"

section \<open>Results and a state-and-error monad\<close>

text \<open>
  A Go function that mutates state and may return an error is a function from the state to the
  returned \<open>(value, error)\<close> pair and the new state.  Unlike an exception, an error keeps
  every mutation made before it.
\<close>

type_synonym ('s, 'a) io = "'s \<Rightarrow> 'a res \<times> 's"

definition ret :: "'a \<Rightarrow> ('s, 'a) io" where
  "ret x s = (Inr x, s)"

definition raise :: "err \<Rightarrow> ('s, 'a) io" where
  "raise e s = (Inl e, s)"

text \<open>\<open>x, err := m(); if err != nil { return err }; f(x)\<close>\<close>

definition bnd :: "('s, 'a) io \<Rightarrow> ('a \<Rightarrow> ('s, 'b) io) \<Rightarrow> ('s, 'b) io" where
  "bnd m f s = (case m s of (Inl e, s') \<Rightarrow> (Inl e, s') | (Inr x, s') \<Rightarrow> f x s')"

text \<open>\<open>x, err := m()\<close> with the error inspected by what follows.\<close>

definition attempt :: "('s, 'a) io \<Rightarrow> ('s, 'a res) io" where
  "attempt m s = (case m s of (r, s') \<Rightarrow> (Inr r, s'))"

text \<open>\<open>defer c()\<close>, the result of \<open>c\<close> being dropped.\<close>

definition ensuring :: "('s, 'a) io \<Rightarrow> ('s, 'b) io \<Rightarrow> ('s, 'a) io" where
  "ensuring m c s = (case m s of (r, s') \<Rightarrow> (r, snd (c s')))"

definition gets :: "('s \<Rightarrow> 'a) \<Rightarrow> ('s, 'a) io" where
  "gets f s = (Inr (f s), s)"

definition modify :: "('s \<Rightarrow> 's) \<Rightarrow> ('s, unit) io" where
  "modify f s = (Inr (), f s)"

definition lift :: "'a res \<Rightarrow> ('s, 'a) io" where
  "lift r s = (r, s)"

primrec forE :: "'a list \<Rightarrow> ('a \<Rightarrow> ('s, unit) io) \<Rightarrow> ('s, unit) io" where
  "forE [] f = ret ()"
| "forE (x # xs) f = bnd (f x) (\<lambda>_. forE xs f)"

text \<open>\<open>sat m Q s\<close>: running \<open>m\<close> from \<open>s\<close> gives a result and a state that satisfy \<open>Q\<close>.\<close>

definition sat :: "('s, 'a) io \<Rightarrow> ('a res \<Rightarrow> 's \<Rightarrow> bool) \<Rightarrow> 's \<Rightarrow> bool" where
  "sat m Q s = (case m s of (r, s') \<Rightarrow> Q r s')"

lemma sat_ret [wp]: "sat (ret x) Q s = Q (Inr x) s"
  by (simp add: sat_def ret_def)

lemma sat_raise [wp]: "sat (raise e) Q s = Q (Inl e) s"
  by (simp add: sat_def raise_def)

lemma sat_bnd [wp]:
  "sat (bnd m f) Q s = sat m (\<lambda>r s'. case r of Inl e \<Rightarrow> Q (Inl e) s' | Inr x \<Rightarrow> sat (f x) Q s') s"
  by (simp add: sat_def bnd_def split: prod.splits sum.splits)

lemma sat_attempt [wp]: "sat (attempt m) Q s = sat m (\<lambda>r s'. Q (Inr r) s') s"
  by (simp add: sat_def attempt_def split: prod.splits)

lemma sat_ensuring [wp]:
  "sat (ensuring m c) Q s = sat m (\<lambda>r s'. sat c (\<lambda>_ s''. Q r s'') s') s"
  by (simp add: sat_def ensuring_def split: prod.splits)

lemma sat_gets [wp]: "sat (gets f) Q s = Q (Inr (f s)) s"
  by (simp add: sat_def gets_def)

lemma sat_modify [wp]: "sat (modify f) Q s = Q (Inr ()) (f s)"
  by (simp add: sat_def modify_def)

lemma sat_lift [wp]: "sat (lift r) Q s = Q r s"
  by (simp add: sat_def lift_def)

lemma sat_mono: "sat m Q s \<Longrightarrow> (\<And>r s'. Q r s' \<Longrightarrow> R r s') \<Longrightarrow> sat m R s"
  by (auto simp: sat_def split: prod.splits)

lemma sat_conj: "sat m (\<lambda>r s'. Q r s' \<and> R r s') s \<longleftrightarrow> sat m Q s \<and> sat m R s"
  by (auto simp: sat_def split: prod.splits)

lemma satD: "sat m Q s \<Longrightarrow> m s = (r, s') \<Longrightarrow> Q r s'"
  by (simp add: sat_def)

lemma satI: "(\<And>r s'. m s = (r, s') \<Longrightarrow> Q r s') \<Longrightarrow> sat m Q s"
  by (auto simp: sat_def split: prod.splits)

text \<open>An invariant of a loop's body is an invariant of the loop.\<close>

lemma sat_forE:
  assumes "\<And>x s. x \<in> set xs \<Longrightarrow> I s \<Longrightarrow> sat (f x) (\<lambda>_. I) s" and "I s"
  shows "sat (forE xs f) (\<lambda>_. I) s"
  using assms
proof (induction xs arbitrary: s)
  case Nil
  then show ?case by (simp add: wp)
next
  case (Cons x xs)
  have x: "sat (f x) (\<lambda>_. I) s" using Cons.prems by simp
  have "sat (forE xs f) (\<lambda>_. I) s'" if "I s'" for s'
    using Cons.prems(1) that by (intro Cons.IH) auto
  then have "sat (f x) (\<lambda>r s'. case r of Inl e \<Rightarrow> I s' | Inr _ \<Rightarrow> sat (forE xs f) (\<lambda>_. I) s') s"
    by (intro sat_mono [OF x]) (simp split: sum.split)
  then show ?case by (simp add: wp)
qed

section \<open>Lists and association lists\<close>

text \<open>A Go map with enumerable keys is an association list with distinct keys.\<close>

definition wf_map :: "('k \<times> 'v) list \<Rightarrow> bool" where
  "wf_map m = distinct (map fst m)"

lemma wf_map_Nil [simp]: "wf_map []"
  by (simp add: wf_map_def)

lemma wf_map_update [simp]: "wf_map m \<Longrightarrow> wf_map (AList.update k v m)"
  by (simp add: wf_map_def distinct_update)

lemma wf_map_delete [simp]: "wf_map m \<Longrightarrow> wf_map (AList.delete k m)"
  by (simp add: wf_map_def distinct_delete)

lemma map_of_update [simp]: "map_of (AList.update k v m) = (map_of m)(k \<mapsto> v)"
  by (rule update_conv')

lemma map_of_delete [simp]: "map_of (AList.delete k m) = (map_of m)(k := None)"
  by (rule delete_conv')

lemma length_update_new: "map_of m k = None \<Longrightarrow> length (AList.update k v m) = Suc (length m)"
  by (induction m) (auto split: if_splits)

lemma length_update_old: "map_of m k = Some w \<Longrightarrow> length (AList.update k v m) = length m"
  by (induction m) (auto split: if_splits)

lemma length_update_le: "length (AList.update k v m) \<le> Suc (length m)"
  by (cases "map_of m k") (auto simp: length_update_new length_update_old)

lemma length_delete_alist_le: "length (AList.delete k m) \<le> length m"
  by (rule length_delete_le)

lemma set_update_subset: "set (AList.update k v m) \<subseteq> insert (k, v) (set m)"
  by (induction m) auto

lemma set_delete_subset: "set (AList.delete k m) \<subseteq> set m"
  by (induction m) auto

lemma fst_set_delete: "fst ` set (AList.delete k m) = fst ` set m - {k}"
  by (induction m) auto

lemma fst_set_update: "fst ` set (AList.update k v m) = insert k (fst ` set m)"
  by (induction m) auto

lemma delete_absent: "k \<notin> fst ` set m \<Longrightarrow> AList.delete k m = m"
  by (induction m) auto

end
