(* ===== verification/Connect.thy ===== *)
theory Connect
  imports Prelude
begin

text \<open>
  \<open>connect.go\<close>: the framing of the Connect protocol (one flag byte, a big-endian 32-bit length,
  the payload), the size limit on both directions, the end-of-stream trailer and the HTTP status
  of a Connect error.  The buffer loop of \<open>Runner.Run\<close> that peels frames off the byte stream
  is here too, behind the interface \<open>frame_parser\<close>.
\<close>

unbundle bit_operations_syntax

section \<open>Constants and errors\<close>

definition connectCompressionFlag :: "8 word" where "connectCompressionFlag = 1"
definition connectEndStreamFlag :: "8 word" where "connectEndStreamFlag = 2"
definition connectHeaderSize :: nat where "connectHeaderSize = 5"
definition maxConnectPayloadSize :: nat where "maxConnectPayloadSize = 16 * 2 ^ 20"

definition connectLimitMiB :: nat where
  "connectLimitMiB = maxConnectPayloadSize div 2 ^ 20"

definition errExceedsConnectLimit :: "string \<Rightarrow> err" where
  "errExceedsConnectLimit kind = Errorf ''%s exceeds %d MiB'' [S kind, N (int connectLimitMiB)]"

definition errExceedsConnectLimitSize :: "string \<Rightarrow> 32 word \<Rightarrow> err" where
  "errExceedsConnectLimitSize kind n =
     Errorf ''%s exceeds %d MiB: %d'' [S kind, N (int connectLimitMiB), N (uint n)]"

text \<open>\<open>(*connectError).StatusCode\<close>, \<open>None\<close> being the nil receiver.\<close>

definition connectStatusCode :: "string option \<Rightarrow> nat" where
  "connectStatusCode c = (case c of
     None \<Rightarrow> 502
   | Some code \<Rightarrow>
       if code = ''unauthenticated'' then 401
       else if code = ''permission_denied'' then 403
       else if code \<in> {''invalid_argument'', ''failed_precondition'', ''out_of_range''} then 400
       else if code = ''resource_exhausted'' then 429
       else if code = ''unavailable'' then 503
       else 502)"

section \<open>Framing\<close>

definition putUint32 :: "32 word \<Rightarrow> bytes" where
  "putUint32 w = [ucast (drop_bit 24 w), ucast (drop_bit 16 w), ucast (drop_bit 8 w), ucast w]"

definition getUint32 :: "bytes \<Rightarrow> 32 word" where
  "getUint32 b = push_bit 24 (ucast (b ! 0)) OR push_bit 16 (ucast (b ! 1))
                 OR push_bit 8 (ucast (b ! 2)) OR ucast (b ! 3)"

definition frameConnectWithFlags :: "bytes \<Rightarrow> 8 word \<Rightarrow> bytes" where
  "frameConnectWithFlags payload flags =
     flags # putUint32 (word_of_nat (length payload)) @ payload"

definition frameConnect :: "bytes \<Rightarrow> bytes" where
  "frameConnect payload = frameConnectWithFlags payload 0"

text \<open>
  \<open>writeConnectPayload\<close>: the stream's \<open>Write\<close> is a parameter, because the transport is
  outside the model.
\<close>

definition writeConnectPayload :: "(bytes \<Rightarrow> ('s, unit) io) \<Rightarrow> bytes \<Rightarrow> ('s, unit) io" where
  "writeConnectPayload write payload =
     (if length payload > maxConnectPayloadSize
      then raise (errExceedsConnectLimit ''Cursor Agent v1 outbound Connect payload'')
      else write (frameConnect payload))"

text \<open>
  \<open>parseConnectFrame\<close>: an error, \<open>None\<close> when the buffer holds no complete frame yet
  (\<open>ok = false\<close>), or the flags, the payload and the number of bytes consumed.  \<open>int\<close> has
  64 bits, as on every platform the plugin is built for.
\<close>

definition headerLength :: "bytes \<Rightarrow> 32 word" where
  "headerLength buffer = getUint32 (take 4 (drop 1 buffer))"

definition parseConnectFrame :: "bytes \<Rightarrow> (8 word \<times> bytes \<times> nat) option res" where
  "parseConnectFrame buffer =
     (if length buffer < connectHeaderSize then Inr None
      else let len = headerLength buffer in
        if unat len > maxConnectPayloadSize
        then Inl (errExceedsConnectLimitSize ''cursor Agent v1 Connect frame'' len)
        else if unat len > (2 ^ 63 - 1) - connectHeaderSize
        then Inl (Errorf ''cursor Agent v1 Connect frame length overflows int: %d'' [N (uint len)])
        else let total = connectHeaderSize + unat len in
          if length buffer < total then Inr None
          else Inr (Some (buffer ! 0, drop connectHeaderSize (take total buffer), total)))"

text \<open>
  \<open>parseConnectEndStream\<close>.  \<open>decode\<close> is \<open>json.Unmarshal\<close> into the trailer struct: an
  error, or the code and message of the \<open>error\<close> member if there is one.
\<close>

definition parseConnectEndStream ::
  "(bytes \<Rightarrow> (string \<times> string) option res) \<Rightarrow> bytes \<Rightarrow> unit res" where
  "parseConnectEndStream decode payload =
     (if payload = [] then Inr ()
      else case decode payload of
        Inl e \<Rightarrow> Inl (Wrap ''parse cursor Agent v1 Connect end stream: %w'' e)
      | Inr None \<Rightarrow> Inr ()
      | Inr (Some (code, message)) \<Rightarrow>
          Inl (ConnectError (if code = [] then ''unknown'' else code)
                            (if message = [] then ''unknown error'' else message)))"

subsection \<open>Round trip\<close>

lemma putUint32_length [simp]: "length (putUint32 w) = 4"
  by (simp add: putUint32_def)

lemma bit_getUint32:
  "bit (getUint32 b) n \<longleftrightarrow>
     (if n < 8 then bit (b ! 3) n
      else if n < 16 then bit (b ! 2) (n - 8)
      else if n < 24 then bit (b ! 1) (n - 16)
      else n < 32 \<and> bit (b ! 0) (n - 24))"
  unfolding getUint32_def
  by (auto simp: bit_or_iff bit_push_bit_iff bit_ucast_iff not_less not_le
      dest: bit_imp_le_length)

lemma get_putUint32: "getUint32 (putUint32 w) = w"
  by (rule bit_word_eqI)
     (auto simp: bit_getUint32 putUint32_def bit_ucast_iff bit_drop_bit_eq not_less)

lemma length_frame: "length (frameConnectWithFlags p f) = connectHeaderSize + length p"
  by (simp add: frameConnectWithFlags_def connectHeaderSize_def)

lemma unat_small_length:
  "length p \<le> maxConnectPayloadSize \<Longrightarrow> unat (word_of_nat (length p) :: 32 word) = length p"
  by (simp add: maxConnectPayloadSize_def unat_of_nat)

lemma headerLength_frame: "headerLength (frameConnectWithFlags p f @ rest) = word_of_nat (length p)"
  by (simp add: headerLength_def frameConnectWithFlags_def get_putUint32)

lemma headerLength_take:
  "connectHeaderSize \<le> n \<Longrightarrow> headerLength (take n b) = headerLength b"
  by (simp add: headerLength_def connectHeaderSize_def take_drop min_def)

lemma headerLength_extend:
  "connectHeaderSize \<le> length b \<Longrightarrow> headerLength (b @ c) = headerLength b"
  by (simp add: headerLength_def connectHeaderSize_def)

lemma parseConnectFrame_short: "length b < connectHeaderSize \<Longrightarrow> parseConnectFrame b = Inr None"
  by (simp add: parseConnectFrame_def)

lemma parseConnectFrame_complete:
  assumes "connectHeaderSize \<le> length b" and "unat (headerLength b) \<le> maxConnectPayloadSize"
  shows "parseConnectFrame b =
    (let total = connectHeaderSize + unat (headerLength b) in
      if length b < total then Inr None
      else Inr (Some (b ! 0, drop connectHeaderSize (take total b), total)))"
  using assms
  by (simp add: parseConnectFrame_def Let_def maxConnectPayloadSize_def connectHeaderSize_def)

lemma parseConnectFrame_toolong:
  assumes "connectHeaderSize \<le> length b" and "maxConnectPayloadSize < unat (headerLength b)"
  shows "parseConnectFrame b
    = Inl (errExceedsConnectLimitSize ''cursor Agent v1 Connect frame'' (headerLength b))"
  using assms by (simp add: parseConnectFrame_def)

lemma frame_payload:
  "drop connectHeaderSize (take (connectHeaderSize + length p) (frameConnectWithFlags p f @ rest)) = p"
proof -
  have h: "drop 5 (take (5 + length p) (h @ p @ rest)) = p" if "length h = 5" for h :: bytes
    using that by simp
  show ?thesis
    using h [of "f # putUint32 (word_of_nat (length p))"]
    by (simp add: connectHeaderSize_def frameConnectWithFlags_def)
qed

lemma parse_frame:
  assumes "length p \<le> maxConnectPayloadSize"
  shows "parseConnectFrame (frameConnectWithFlags p f @ rest)
         = Inr (Some (f, p, connectHeaderSize + length p))"
proof -
  let ?b = "frameConnectWithFlags p f @ rest"
  have "unat (headerLength ?b) = length p"
    by (simp only: headerLength_frame unat_small_length [OF assms])
  moreover have "?b ! 0 = f" by (simp add: frameConnectWithFlags_def)
  ultimately show ?thesis
    using assms frame_payload [of p f rest]
    by (simp add: parseConnectFrame_complete length_frame Let_def)
qed

lemma parse_frame_prefix:
  assumes "length p \<le> maxConnectPayloadSize" and "n < length (frameConnectWithFlags p f)"
  shows "parseConnectFrame (take n (frameConnectWithFlags p f)) = Inr None"
proof (cases "n < connectHeaderSize")
  case True
  then show ?thesis by (intro parseConnectFrame_short) simp
next
  case False
  let ?b = "take n (frameConnectWithFlags p f)"
  have "headerLength (frameConnectWithFlags p f) = word_of_nat (length p)"
    using headerLength_frame [of p f "[]"] by simp
  then have "unat (headerLength ?b) = length p"
    using False by (simp add: headerLength_take unat_small_length [OF assms(1)])
  then show ?thesis
    using assms False
    by (simp add: parseConnectFrame_complete length_frame Let_def)
qed

section \<open>The frame loop\<close>

text \<open>
  \<open>Runner.Run\<close> appends every chunk of the HTTP/2 body to a buffer and then peels complete
  frames off its front until a frame is incomplete or malformed.  The result is the frames, the
  error that stopped the loop if there is one, and the bytes that stay buffered.
\<close>

lemma parseConnectFrame_Some:
  "parseConnectFrame b = Inr (Some (f, p, n)) \<Longrightarrow> 0 < n \<and> n \<le> length b"
  by (auto simp: parseConnectFrame_def Let_def connectHeaderSize_def split: if_splits)

function drainFrames :: "bytes \<Rightarrow> (8 word \<times> bytes) list \<times> err option \<times> bytes" where
  "drainFrames buffer = (case parseConnectFrame buffer of
     Inl e \<Rightarrow> ([], Some e, buffer)
   | Inr None \<Rightarrow> ([], None, buffer)
   | Inr (Some (f, p, n)) \<Rightarrow>
       (case drainFrames (drop n buffer) of (fs, e, rest) \<Rightarrow> ((f, p) # fs, e, rest)))"
  by pat_completeness auto
termination
  by (relation "measure length") (auto dest!: parseConnectFrame_Some)

declare drainFrames.simps [simp del]

text \<open>
  What a byte-stream parser promises its buffer loop: a parsed message consumes a positive number
  of buffered bytes, and a verdict (message or error) is not changed by bytes that arrive later.
\<close>

locale frame_parser =
  fixes parse :: "'b list \<Rightarrow> ('f \<times> 'p \<times> nat) option res"
    and drain :: "'b list \<Rightarrow> ('f \<times> 'p) list \<times> err option \<times> 'b list"
  assumes progress: "parse b = Inr (Some (f, p, n)) \<Longrightarrow> 0 < n \<and> n \<le> length b"
    and extend_some: "parse b = Inr (Some x) \<Longrightarrow> parse (b @ c) = Inr (Some x)"
    and extend_err: "parse b = Inl e \<Longrightarrow> parse (b @ c) = Inl e"
    and drain_unfold: "drain b = (case parse b of
        Inl e \<Rightarrow> ([], Some e, b)
      | Inr None \<Rightarrow> ([], None, b)
      | Inr (Some (f, p, n)) \<Rightarrow>
          (case drain (drop n b) of (fs, e, rest) \<Rightarrow> ((f, p) # fs, e, rest)))"
begin

lemma drain_append:
  "drain (b @ c) = (case drain b of
     (fs, Some e, rest) \<Rightarrow> (fs, Some e, rest @ c)
   | (fs, None, rest) \<Rightarrow> (case drain (rest @ c) of (gs, e, r) \<Rightarrow> (fs @ gs, e, r)))"
proof (induction b rule: measure_induct_rule [where f = length])
  case (less b)
  show ?case
  proof (cases "parse b")
    case (Inl e)
    then show ?thesis
      by (simp add: drain_unfold [of b] drain_unfold [of "b @ c"] extend_err)
  next
    case (Inr m)
    show ?thesis
    proof (cases m)
      case None
      with Inr show ?thesis
        by (simp add: drain_unfold [of b] split: prod.split)
    next
      case (Some x)
      obtain f p n where x: "x = (f, p, n)" by (cases x)
      have n: "0 < n" "n \<le> length b" using progress Inr Some x by blast+
      then have "length (drop n b) < length b" by simp
      from less.IH [OF this] n Inr Some x show ?thesis
        by (simp add: drain_unfold [of b] drain_unfold [of "b @ c"] extend_some
            split: prod.splits option.splits)
    qed
  qed
qed

text \<open>Feeding chunk after chunk, as the receive loop does.\<close>

lemma drain_chunks:
  assumes "drain b = (fs, None, rest)"
  shows "drain (b @ concat cs) = (case drain (rest @ concat cs) of (gs, e, r) \<Rightarrow> (fs @ gs, e, r))"
  using assms drain_append [of b "concat cs"] by simp

lemma drain_rest_stuck: "drain b = (fs, None, rest) \<Longrightarrow> parse rest = Inr None"
proof (induction b arbitrary: fs rule: measure_induct_rule [where f = length])
  case (less b)
  show ?case
  proof (cases "\<exists>f p n. parse b = Inr (Some (f, p, n))")
    case True
    then obtain f p n where b: "parse b = Inr (Some (f, p, n))" by blast
    then have "length (drop n b) < length b" using progress [OF b] by (simp add: length_drop) linarith
    from less.IH [OF this] less.prems b show ?thesis
      by (auto simp: drain_unfold [of b] split: prod.splits)
  next
    case False
    then show ?thesis
      using less.prems by (auto simp: drain_unfold [of b] split: sum.splits option.splits prod.splits)
  qed
qed

end

lemma parseConnectFrame_extend_some:
  assumes "parseConnectFrame b = Inr (Some x)"
  shows "parseConnectFrame (b @ c) = Inr (Some x)"
proof -
  have h: "connectHeaderSize \<le> length b"
    using assms parseConnectFrame_short [of b] by (cases "length b < connectHeaderSize") auto
  have l: "unat (headerLength b) \<le> maxConnectPayloadSize"
    using assms parseConnectFrame_toolong [OF h] by fastforce
  have "b \<noteq> []" using h by (auto simp: connectHeaderSize_def)
  with assms h l show ?thesis
    by (simp add: parseConnectFrame_complete headerLength_extend Let_def nth_append split: if_splits)
qed

lemma parseConnectFrame_extend_err:
  assumes "parseConnectFrame b = Inl e"
  shows "parseConnectFrame (b @ c) = Inl e"
proof -
  have h: "connectHeaderSize \<le> length b"
    using assms parseConnectFrame_short [of b] by (cases "length b < connectHeaderSize") auto
  have l: "maxConnectPayloadSize < unat (headerLength b)"
    using assms parseConnectFrame_complete [OF h] by (fastforce simp: Let_def split: if_splits)
  show ?thesis
    using assms h l parseConnectFrame_toolong [of b] parseConnectFrame_toolong [of "b @ c"]
    by (simp add: headerLength_extend)
qed

interpretation connect: frame_parser parseConnectFrame drainFrames
proof
  fix b f p n
  assume "parseConnectFrame b = Inr (Some (f, p, n))"
  then show "0 < n \<and> n \<le> length b" by (rule parseConnectFrame_Some)
qed (simp_all add: parseConnectFrame_extend_some parseConnectFrame_extend_err drainFrames.simps [symmetric])

section \<open>Properties\<close>

abbreviation frameOf :: "8 word \<times> bytes \<Rightarrow> bytes" where
  "frameOf f \<equiv> frameConnectWithFlags (snd f) (fst f)"

lemma drain_frames:
  "\<forall>f \<in> set fs. length (snd f) \<le> maxConnectPayloadSize \<Longrightarrow>
     drainFrames (concat (map frameOf fs) @ rest) = (case drainFrames rest of (gs, e, r) \<Rightarrow> (fs @ gs, e, r))"
proof (induction fs)
  case (Cons f fs)
  let ?tail = "concat (map frameOf fs) @ rest"
  have "parseConnectFrame (frameOf f @ ?tail) = Inr (Some (fst f, snd f, length (frameOf f)))"
    using Cons.prems by (simp add: parse_frame length_frame)
  then have "drainFrames (frameOf f @ ?tail)
      = (case drainFrames ?tail of (gs, e, r) \<Rightarrow> ((fst f, snd f) # gs, e, r))"
    by (simp add: drainFrames.simps [of "frameOf f @ ?tail"])
  then show ?case using Cons by (simp split: prod.splits)
qed (simp split: prod.split)

text \<open>
  C23: Framing round trip: any sequence of frames within the payload limit, written one after the other
  and followed by a proper prefix of one more frame, is parsed back to exactly those frames, flags and
  payloads unchanged, with the incomplete frame left in the buffer and no error.
\<close>

theorem frames_roundtrip:
  assumes "\<forall>f \<in> set (fs @ [g]). length (snd f) \<le> maxConnectPayloadSize" and "n < length (frameOf g)"
  shows "drainFrames (concat (map frameOf fs) @ take n (frameOf g)) = (fs, None, take n (frameOf g))"
proof -
  have "parseConnectFrame (take n (frameOf g)) = Inr None"
    using assms by (intro parse_frame_prefix) simp_all
  then have "drainFrames (take n (frameOf g)) = ([], None, take n (frameOf g))"
    by (simp add: drainFrames.simps [of "take n (frameOf g)"])
  then show ?thesis using assms(1) by (simp add: drain_frames)
qed

lemma frames_roundtrip_witness:
  "drainFrames (concat (map frameOf [(0, [1, 2]), (2, [])]) @ take 6 (frameOf (0, [7, 8])))
     = ([(0, [1, 2]), (2, [])], None, take 6 (frameOf (0, [7, 8])))"
  by (rule frames_roundtrip) (simp_all add: maxConnectPayloadSize_def length_frame connectHeaderSize_def)

end
