(* ===== verification/Frames.thy ===== *)
theory Frames
  imports Connect
begin

text \<open>
  The receive loop that \<open>Runner.Run\<close> and \<open>consumeInferenceStream\<close> share: append a chunk to the
  buffer, peel complete Connect frames off it, and handle each one, which may end the run.  The
  handler is a parameter here; the two runners supply theirs.

  A handler returns \<open>True\<close> when the run returns nil, \<open>False\<close> when it goes on, and raises when the
  run returns an error.
\<close>

section \<open>Compressed payloads\<close>

text \<open>
  \<open>decompressConnectPayload\<close>.  \<open>gunzip n payload\<close> is what \<open>gzip\<close> yields: the error of \<open>gzip.NewReader\<close>, or
  what reading at most \<open>n\<close> bytes of its reader gives, bytes or an error.
\<close>

type_synonym gzipReader = "nat \<Rightarrow> bytes \<Rightarrow> bytes res res"

definition decompressConnectPayload :: "gzipReader \<Rightarrow> bytes \<Rightarrow> bytes res" where
  "decompressConnectPayload gunzip payload = (case gunzip (maxConnectPayloadSize + 1) payload of
     Inl e \<Rightarrow> Inl (Wrap ''open Cursor Agent v1 compressed frame: %w'' e)
   | Inr (Inl e) \<Rightarrow> Inl (Wrap ''decompress Cursor Agent v1 frame: %w'' e)
   | Inr (Inr decoded) \<Rightarrow>
       if length decoded > maxConnectPayloadSize
       then Inl (errExceedsConnectLimit ''decompressed Cursor Agent v1 frame'')
       else Inr decoded)"

definition inflate :: "gzipReader \<Rightarrow> 8 word \<Rightarrow> bytes \<Rightarrow> bytes res" where
  "inflate gunzip flags payload =
     (if flags AND connectCompressionFlag \<noteq> 0 then decompressConnectPayload gunzip payload
      else Inr payload)"

section \<open>The loop\<close>

text \<open>\<open>Some rest\<close>: wait for more bytes with \<open>rest\<close> buffered; \<open>None\<close>: the run returned nil.\<close>

function framesLoop :: "(8 word \<Rightarrow> bytes \<Rightarrow> ('s, bool) io) \<Rightarrow> bytes \<Rightarrow> ('s, bytes option) io" where
  "framesLoop handle buffer = (case parseConnectFrame buffer of
     Inl e \<Rightarrow> raise e
   | Inr None \<Rightarrow> ret (Some buffer)
   | Inr (Some (flags, payload, consumed)) \<Rightarrow>
       bnd (handle flags payload) (\<lambda>stop.
         if stop then ret None else framesLoop handle (drop consumed buffer)))"
  by pat_completeness auto
termination
  by (relation "measure (\<lambda>(h, b). length b)") (auto dest!: parseConnectFrame_Some)

declare framesLoop.simps [simp del]

primrec feedChunks ::
  "(8 word \<Rightarrow> bytes \<Rightarrow> ('s, bool) io) \<Rightarrow> bytes \<Rightarrow> bytes list \<Rightarrow> ('s, bytes option) io" where
  "feedChunks handle buffer [] = ret (Some buffer)"
| "feedChunks handle buffer (c # cs) = bnd (framesLoop handle (buffer @ c)) (\<lambda>r.
     case r of None \<Rightarrow> ret None | Some rest \<Rightarrow> feedChunks handle rest cs)"

text \<open>The frames of the buffer, handled in order.\<close>

primrec handleFrames ::
  "(8 word \<Rightarrow> bytes \<Rightarrow> ('s, bool) io) \<Rightarrow> (8 word \<times> bytes) list \<Rightarrow> ('s, bool) io" where
  "handleFrames handle [] = ret False"
| "handleFrames handle (f # fs) = bnd (handle (fst f) (snd f)) (\<lambda>stop.
     if stop then ret True else handleFrames handle fs)"

definition finishFrames :: "bool \<Rightarrow> err option \<Rightarrow> bytes \<Rightarrow> ('s, bytes option) io" where
  "finishFrames stop e rest =
     (if stop then ret None else case e of Some x \<Rightarrow> raise x | None \<Rightarrow> ret (Some rest))"

lemma bnd_assoc: "bnd (bnd m f) g = bnd m (\<lambda>x. bnd (f x) g)"
  by (rule ext) (simp add: bnd_def split: prod.split sum.split)

lemma bnd_ret [simp]: "bnd (ret x) f = f x"
  by (rule ext) (simp add: bnd_def ret_def)

lemma bnd_raise [simp]: "bnd (raise e) f = raise e"
  by (rule ext) (simp add: bnd_def raise_def)

lemma bnd_cong: "(\<And>x. f x = g x) \<Longrightarrow> bnd m f = bnd m g"
  by (rule arg_cong [where f = "bnd m"]) (rule ext)

lemma framesLoop_frames:
  "framesLoop handle b = (case drainFrames b of (fs, e, rest) \<Rightarrow>
     bnd (handleFrames handle fs) (\<lambda>stop. finishFrames stop e rest))"
proof (induction handle b rule: framesLoop.induct)
  case (1 handle b)
  show ?case
  proof (cases "parseConnectFrame b")
    case (Inl e)
    then show ?thesis
      by (simp add: framesLoop.simps [of handle b] drainFrames.simps [of b] finishFrames_def)
  next
    case (Inr m)
    show ?thesis
    proof (cases m)
      case None
      with Inr show ?thesis
        by (simp add: framesLoop.simps [of handle b] drainFrames.simps [of b] finishFrames_def)
    next
      case (Some x)
      obtain f p n where x: "x = (f, p, n)" by (cases x)
      obtain fs e rest where d: "drainFrames (drop n b) = (fs, e, rest)"
        by (cases "drainFrames (drop n b)")
      have IH: "framesLoop handle (drop n b)
          = bnd (handleFrames handle fs) (\<lambda>stop. finishFrames stop e rest)"
        using 1 [OF Inr Some, of f "(p, n)" p n False] x d by simp
      have "framesLoop handle b = bnd (handle f p) (\<lambda>stop. if stop then ret None
          else bnd (handleFrames handle fs) (\<lambda>stop. finishFrames stop e rest))"
        using Inr Some x IH by (simp add: framesLoop.simps [of handle b] cong: if_cong)
      also have "\<dots> = bnd (handleFrames handle ((f, p) # fs)) (\<lambda>stop. finishFrames stop e rest)"
        by (auto simp: bnd_assoc finishFrames_def intro!: bnd_cong)
      finally show ?thesis
        using Inr Some x d by (simp add: drainFrames.simps [of b])
    qed
  qed
qed

lemma handleFrames_append:
  "handleFrames handle (fs @ gs) = bnd (handleFrames handle fs) (\<lambda>stop.
     if stop then ret True else handleFrames handle gs)"
  by (induction fs) (auto simp: bnd_assoc intro!: bnd_cong)

text \<open>The cut of the byte stream into chunks is invisible to the run.\<close>

lemma framesLoop_append:
  "framesLoop handle (b @ c) = bnd (framesLoop handle b) (\<lambda>r.
     case r of None \<Rightarrow> ret None | Some rest \<Rightarrow> framesLoop handle (rest @ c))"
proof -
  obtain fs e rest where d: "drainFrames b = (fs, e, rest)" by (cases "drainFrames b")
  show ?thesis
  proof (cases e)
    case (Some x)
    then show ?thesis
      using d by (simp add: framesLoop_frames connect.drain_append bnd_assoc finishFrames_def)
         (auto intro!: bnd_cong)
  next
    case None
    obtain gs e' r where d': "drainFrames (rest @ c) = (gs, e', r)" by (cases "drainFrames (rest @ c)")
    show ?thesis
      using d None d'
      by (simp add: framesLoop_frames connect.drain_append [of b c] bnd_assoc finishFrames_def handleFrames_append)
         (auto simp: bnd_assoc finishFrames_def framesLoop_frames intro!: bnd_cong)
  qed
qed

lemma framesLoop_stuck: "parseConnectFrame b = Inr None \<Longrightarrow> framesLoop handle b = ret (Some b)"
  by (simp add: framesLoop.simps)

lemma feedChunks_concat:
  assumes "parseConnectFrame b = Inr None"
  shows "feedChunks handle b cs = framesLoop handle (b @ concat cs)"
  using assms
proof (induction cs arbitrary: b)
  case Nil
  then show ?case by (simp add: framesLoop_stuck)
next
  case (Cons c cs)
  obtain fs e rest where d: "drainFrames (b @ c) = (fs, e, rest)" by (cases "drainFrames (b @ c)")
  have loop: "framesLoop handle (b @ c) = bnd (handleFrames handle fs) (\<lambda>stop. finishFrames stop e rest)"
    using d by (simp add: framesLoop_frames)
  have "feedChunks handle b (c # cs) = bnd (handleFrames handle fs) (\<lambda>stop. bnd (finishFrames stop e rest)
      (\<lambda>r. case r of None \<Rightarrow> ret None | Some r' \<Rightarrow> feedChunks handle r' cs))"
    by (simp add: loop bnd_assoc)
  also have "\<dots> = bnd (handleFrames handle fs) (\<lambda>stop. bnd (finishFrames stop e rest)
      (\<lambda>r. case r of None \<Rightarrow> ret None | Some r' \<Rightarrow> framesLoop handle (r' @ concat cs)))"
  proof (rule bnd_cong)
    fix stop
    show "bnd (finishFrames stop e rest) (\<lambda>r. case r of None \<Rightarrow> ret None | Some r' \<Rightarrow> feedChunks handle r' cs)
      = bnd (finishFrames stop e rest) (\<lambda>r. case r of None \<Rightarrow> ret None | Some r' \<Rightarrow> framesLoop handle (r' @ concat cs))"
      using connect.drain_rest_stuck [of "b @ c" fs rest] d Cons.IH [of rest]
      by (auto simp: finishFrames_def split: option.split)
  qed
  also have "\<dots> = framesLoop handle ((b @ c) @ concat cs)"
    by (simp only: framesLoop_append [of handle "b @ c"] loop bnd_assoc)
  finally show ?case by simp
qed

text \<open>
  What every handler step keeps, the loop keeps: \<open>I\<close> while the run goes on, \<open>D\<close> when it has
  returned nil, \<open>E\<close> when it has returned an error.
\<close>

definition runPost :: "('s \<Rightarrow> bool) \<Rightarrow> ('s \<Rightarrow> bool) \<Rightarrow> (err \<Rightarrow> 's \<Rightarrow> bool) \<Rightarrow> bool res \<Rightarrow> 's \<Rightarrow> bool" where
  "runPost I D E r s = (case r of Inl e \<Rightarrow> E e s | Inr stop \<Rightarrow> if stop then D s else I s)"

definition loopPost :: "('s \<Rightarrow> bool) \<Rightarrow> ('s \<Rightarrow> bool) \<Rightarrow> (err \<Rightarrow> 's \<Rightarrow> bool) \<Rightarrow> bytes option res \<Rightarrow> 's \<Rightarrow> bool" where
  "loopPost I D E r s = (case r of Inl e \<Rightarrow> E e s | Inr None \<Rightarrow> D s | Inr (Some rest) \<Rightarrow> I s)"

lemma runPost_simps [simp]:
  "runPost I D E (Inl e) s = E e s" "runPost I D E (Inr True) s = D s" "runPost I D E (Inr False) s = I s"
  by (simp_all add: runPost_def)

lemma loopPost_simps [simp]:
  "loopPost I D E (Inl e) s = E e s" "loopPost I D E (Inr None) s = D s"
  "loopPost I D E (Inr (Some rest)) s = I s"
  by (simp_all add: loopPost_def)

lemma sat_handleFrames:
  assumes step: "\<And>f p s. I s \<Longrightarrow> sat (handle f p) (runPost I D E) s" and "I s"
  shows "sat (handleFrames handle fs) (runPost I D E) s"
  using assms(2)
proof (induction fs arbitrary: s)
  case Nil
  then show ?case by (simp add: wp)
next
  case (Cons f fs)
  have "sat (handle (fst f) (snd f)) (\<lambda>r s'. case r of Inl e \<Rightarrow> runPost I D E (Inl e) s'
      | Inr stop \<Rightarrow> sat (if stop then ret True else handleFrames handle fs) (runPost I D E) s') s"
  proof (rule sat_mono [OF step [OF Cons.prems]])
    fix r s'
    assume post: "runPost I D E r s'"
    show "case r of Inl e \<Rightarrow> runPost I D E (Inl e) s'
      | Inr stop \<Rightarrow> sat (if stop then ret True else handleFrames handle fs) (runPost I D E) s'"
    proof (cases r)
      case (Inl e)
      then show ?thesis using post by simp
    next
      case (Inr stop)
      then show ?thesis using post Cons.IH [of s'] by (cases stop) (simp_all add: wp)
    qed
  qed
  then show ?case by (simp add: wp)
qed

lemma sat_framesLoop:
  assumes "\<And>f p s. I s \<Longrightarrow> sat (handle f p) (runPost I D E) s"
    and err: "\<And>e s. I s \<Longrightarrow> E e s" and "I s"
  shows "sat (framesLoop handle b) (loopPost I D E) s"
proof -
  obtain fs x rest where d: "drainFrames b = (fs, x, rest)" by (cases "drainFrames b")
  have "sat (handleFrames handle fs) (\<lambda>r s'. case r of Inl e \<Rightarrow> loopPost I D E (Inl e) s'
      | Inr stop \<Rightarrow> sat (finishFrames stop x rest) (loopPost I D E) s') s"
  proof (rule sat_mono [OF sat_handleFrames [OF assms(1,3)]])
    fix r s'
    assume "runPost I D E r s'"
    then show "case r of Inl e \<Rightarrow> loopPost I D E (Inl e) s'
      | Inr stop \<Rightarrow> sat (finishFrames stop x rest) (loopPost I D E) s'"
      using err [of s'] by (cases r) (auto simp: runPost_def finishFrames_def wp split: option.split)
  qed
  then show ?thesis by (simp add: framesLoop_frames d wp)
qed

lemma sat_feedChunks:
  assumes "\<And>f p s. I s \<Longrightarrow> sat (handle f p) (runPost I D E) s"
    and "\<And>e s. I s \<Longrightarrow> E e s" and "I s"
  shows "sat (feedChunks handle b cs) (loopPost I D E) s"
  using assms(3)
proof (induction cs arbitrary: b s)
  case Nil
  then show ?case by (simp add: wp)
next
  case (Cons c cs)
  have "sat (framesLoop handle (b @ c)) (\<lambda>r s'. case r of Inl e \<Rightarrow> loopPost I D E (Inl e) s'
      | Inr x \<Rightarrow> sat (case x of None \<Rightarrow> ret None | Some rest \<Rightarrow> feedChunks handle rest cs) (loopPost I D E) s') s"
  proof (rule sat_mono [OF sat_framesLoop [OF assms(1,2) Cons.prems]])
    fix r s'
    assume "loopPost I D E r s'"
    then show "case r of Inl e \<Rightarrow> loopPost I D E (Inl e) s'
      | Inr x \<Rightarrow> sat (case x of None \<Rightarrow> ret None | Some rest \<Rightarrow> feedChunks handle rest cs) (loopPost I D E) s'"
      using Cons.IH by (cases r) (auto simp: wp split: option.split)
  qed
  then show ?case by (simp add: wp)
qed

end
