(* ===== verification/Events.thy ===== *)
theory Events
  imports Connect
begin

text \<open>
  The data every component exchanges: the events of a run, tool calls and results, hosted
  searches and usage counters (\<open>runner.go\<close>, \<open>usage_observation.go\<close>, \<open>media.go\<close>), the run
  request, and the pure helpers on them.  A Go pointer to a struct is an \<open>option\<close>; because the
  model has value semantics, the \<open>clone\<close> functions that only copy memory are identities and are
  not repeated, \<open>cloneEvent\<close>, which drops fields, is.
\<close>

section \<open>64-bit integers\<close>

definition maxInt64 :: int where "maxInt64 = 2 ^ 63 - 1"

definition wrap64 :: "int \<Rightarrow> int" where
  "wrap64 x = (x + 2 ^ 63) mod 2 ^ 64 - 2 ^ 63"

definition isInt64 :: "int \<Rightarrow> bool" where
  "isInt64 x = (- (2 ^ 63) \<le> x \<and> x \<le> maxInt64)"

lemma wrap64_id: "isInt64 x \<Longrightarrow> wrap64 x = x"
  by (simp add: isInt64_def maxInt64_def wrap64_def)

lemma isInt64_wrap64: "isInt64 (wrap64 x)"
proof -
  have "0 \<le> (x + 2 ^ 63) mod 2 ^ 64" "(x + 2 ^ 63) mod 2 ^ 64 < 2 ^ 64" by simp_all
  then show ?thesis by (simp add: isInt64_def maxInt64_def wrap64_def)
qed

section \<open>Usage counters\<close>

datatype UsageKind = UsageKindUnknown | UsageKindTokenDelta | UsageKindTurnEnded

record ObservedCount =
  oc_Present :: bool
  oc_Invalid :: bool
  oc_Value :: int

record UsageObservation =
  uo_Carried :: bool
  uo_Kind :: UsageKind
  uo_TokenDelta :: ObservedCount
  uo_Input :: ObservedCount
  uo_Output :: ObservedCount
  uo_CacheRead :: ObservedCount
  uo_CacheWrite :: ObservedCount
  uo_Reasoning :: ObservedCount

definition noCount :: ObservedCount where
  "noCount = \<lparr>oc_Present = False, oc_Invalid = False, oc_Value = 0\<rparr>"

definition noUsage :: "UsageKind \<Rightarrow> UsageObservation" where
  "noUsage k = \<lparr>uo_Carried = False, uo_Kind = k, uo_TokenDelta = noCount, uo_Input = noCount,
     uo_Output = noCount, uo_CacheRead = noCount, uo_CacheWrite = noCount, uo_Reasoning = noCount\<rparr>"

section \<open>Tools and hosted searches\<close>

record MediaPart =
  mp_Kind :: string
  mp_MimeType :: string
  mp_Data :: string
  mp_Filename :: string

record HostedSearchReference =
  hr_Title :: string
  hr_URL :: string
  hr_Chunk :: string

definition HostedSearchKindWebSearch :: string where "HostedSearchKindWebSearch = ''web_search''"
definition HostedSearchKindWebFetch :: string where "HostedSearchKindWebFetch = ''web_fetch''"
definition HostedSearchKindExaSearch :: string where "HostedSearchKindExaSearch = ''exa_search''"
definition HostedSearchKindExaFetch :: string where "HostedSearchKindExaFetch = ''exa_fetch''"

lemmas hosted_kinds [simp] =
  HostedSearchKindWebSearch_def HostedSearchKindWebFetch_def
  HostedSearchKindExaSearch_def HostedSearchKindExaFetch_def

record HostedSearch =
  hs_CallID :: string
  hs_Kind :: string
  hs_Query :: string
  hs_URL :: string
  hs_ArgsJSON :: string
  hs_References :: "HostedSearchReference list"
  hs_Content :: string
  hs_Error :: string

record ToolDefinition =
  td_Name :: string
  td_Description :: string
  td_InputSchema :: bytes

record ToolCall =
  tc_MessageID :: "32 word"
  tc_ExecID :: string
  tc_ToolCallID :: string
  tc_Name :: string
  tc_Arguments :: string

record ToolResult =
  tr_ToolCallID :: string
  tr_Content :: string
  tr_IsError :: bool
  tr_Media :: "MediaPart list"

section \<open>Events\<close>

text \<open>\<open>EventZero\<close> is the zero value of the type, which no live event has.\<close>

datatype EventType =
    EventZero | EventText | EventThinking | EventUsage | EventCheckpoint | EventToolCall
  | EventToolResultAccepted | EventTurnEnded | EventHostedSearchCall | EventDone
  | EventHostedSearchStarted | EventHostedSearchCompleted | EventThinkingCompleted
  | EventUsageObservation

type_synonym blobs = "(string \<times> bytes) list"

record Event =
  ev_Type :: EventType
  ev_Text :: string
  ev_Signature :: string
  ev_ProgressEvents :: int
  ev_Tokens :: int
  ev_Usage :: "UsageObservation option"
  ev_Checkpoint :: bytes
  ev_Blobs :: blobs
  ev_ToolCall :: "ToolCall option"
  ev_ToolResult :: "ToolResult option"
  ev_HostedSearch :: "HostedSearch option"

definition newEvent :: "EventType \<Rightarrow> Event" where
  "newEvent t = \<lparr>ev_Type = t, ev_Text = [], ev_Signature = [], ev_ProgressEvents = 0, ev_Tokens = 0,
     ev_Usage = None, ev_Checkpoint = [], ev_Blobs = [], ev_ToolCall = None, ev_ToolResult = None,
     ev_HostedSearch = None\<rparr>"

definition cloneEvent :: "Event \<Rightarrow> Event" where
  "cloneEvent e = e\<lparr>ev_Checkpoint := [], ev_Blobs := []\<rparr>"

lemma cloneEvent_simps [simp]:
  "ev_Type (cloneEvent e) = ev_Type e"
  "ev_Text (cloneEvent e) = ev_Text e"
  "ev_Signature (cloneEvent e) = ev_Signature e"
  "ev_ProgressEvents (cloneEvent e) = ev_ProgressEvents e"
  "ev_Tokens (cloneEvent e) = ev_Tokens e"
  "ev_Usage (cloneEvent e) = ev_Usage e"
  "ev_ToolCall (cloneEvent e) = ev_ToolCall e"
  "ev_ToolResult (cloneEvent e) = ev_ToolResult e"
  "ev_HostedSearch (cloneEvent e) = ev_HostedSearch e"
  "ev_Checkpoint (cloneEvent e) = []"
  "ev_Blobs (cloneEvent e) = []"
  "cloneEvent (cloneEvent e) = cloneEvent e"
  by (simp_all add: cloneEvent_def)

section \<open>Hosted searches\<close>

definition hostedKindIsSearch :: "HostedSearch option \<Rightarrow> bool" where
  "hostedKindIsSearch s = (case s of None \<Rightarrow> False
     | Some h \<Rightarrow> hs_Kind h \<in> {HostedSearchKindWebSearch, HostedSearchKindExaSearch})"

definition hostedKindIsFetch :: "HostedSearch option \<Rightarrow> bool" where
  "hostedKindIsFetch s = (case s of None \<Rightarrow> False
     | Some h \<Rightarrow> hs_Kind h \<in> {HostedSearchKindWebFetch, HostedSearchKindExaFetch})"

lemma hostedKind_exclusive: "\<not> (hostedKindIsSearch s \<and> hostedKindIsFetch s)"
  by (auto simp: hostedKindIsSearch_def hostedKindIsFetch_def split: option.splits)

definition hostedSearchArgsReady :: "HostedSearch option \<Rightarrow> bool" where
  "hostedSearchArgsReady s = (case s of None \<Rightarrow> False
     | Some h \<Rightarrow>
         if hs_Kind h \<in> {HostedSearchKindWebFetch, HostedSearchKindExaFetch}
         then trimSpace (hs_URL h) \<noteq> [] \<or> trimSpace (hs_Query h) \<noteq> []
         else trimSpace (hs_Query h) \<noteq> [])"

text \<open>\<open>mergeHostedSearch\<close>: the newer frame's fields win where they are set.\<close>

definition mergeHostedSearch :: "HostedSearch \<Rightarrow> HostedSearch option \<Rightarrow> HostedSearch" where
  "mergeHostedSearch current next = (case next of None \<Rightarrow> current
     | Some n \<Rightarrow> current\<lparr>
         hs_Kind := (if hs_Kind n \<noteq> [] then hs_Kind n else hs_Kind current),
         hs_Query := (if hs_Query n \<noteq> [] then hs_Query n else hs_Query current),
         hs_URL := (if hs_URL n \<noteq> [] then hs_URL n else hs_URL current),
         hs_ArgsJSON := (if hs_ArgsJSON n \<noteq> [] then hs_ArgsJSON n else hs_ArgsJSON current),
         hs_Content := (if hs_Content n \<noteq> [] then hs_Content n else hs_Content current),
         hs_Error := (if hs_Error n \<noteq> [] then hs_Error n else hs_Error current),
         hs_References := (if hs_References n \<noteq> [] then hs_References n else hs_References current)\<rparr>)"

lemma mergeHostedSearch_CallID [simp]: "hs_CallID (mergeHostedSearch c n) = hs_CallID c"
  by (simp add: mergeHostedSearch_def split: option.split)

section \<open>Tool definitions\<close>

definition catalogHasTool :: "ToolDefinition list \<Rightarrow> string \<Rightarrow> bool" where
  "catalogHasTool tools name = (\<exists>t \<in> set tools. td_Name t = name)"

definition defaultSchema :: string where
  "defaultSchema = ''{\"type\":\"object\",\"properties\":{}}''"

definition bytesOf :: "string \<Rightarrow> bytes" where
  "bytesOf s = map of_char s"

text \<open>
  \<open>normalizeToolDefinitions\<close>.  \<open>canon\<close> is \<open>json.Unmarshal\<close> into a JSON object followed by
  \<open>json.Marshal\<close>: \<open>None\<close> when the schema is not a JSON object.
\<close>

fun normalizeToolsLoop ::
  "(bytes \<Rightarrow> bytes option) \<Rightarrow> string list \<Rightarrow> ToolDefinition list \<Rightarrow> ToolDefinition list res" where
  "normalizeToolsLoop canon seen [] = Inr []"
| "normalizeToolsLoop canon seen (tool # tools) =
     (let name = trimSpace (td_Name tool) in
      if name = [] then Inl (Errorf ''Cursor Agent v1 tool name is required'' [])
      else if name \<in> set seen then Inl (Errorf ''Cursor Agent v1 duplicate tool %q'' [S name])
      else let schema = (if td_InputSchema tool = [] then bytesOf defaultSchema else td_InputSchema tool) in
        case canon schema of
          None \<Rightarrow> Inl (Errorf ''Cursor Agent v1 tool %q input schema must be a JSON object'' [S name])
        | Some canonical \<Rightarrow>
            (case normalizeToolsLoop canon (name # seen) tools of
               Inl e \<Rightarrow> Inl e
             | Inr rest \<Rightarrow> Inr (\<lparr>td_Name = name, td_Description = td_Description tool,
                                td_InputSchema = canonical\<rparr> # rest)))"

definition normalizeToolDefinitions ::
  "(bytes \<Rightarrow> bytes option) \<Rightarrow> ToolDefinition list \<Rightarrow> ToolDefinition list res" where
  "normalizeToolDefinitions canon tools = normalizeToolsLoop canon [] tools"

lemma normalizeToolsLoop_Cons:
  assumes "normalizeToolsLoop canon seen (tool # tools) = Inr out"
  obtains c rest where "trimSpace (td_Name tool) \<noteq> []" "trimSpace (td_Name tool) \<notin> set seen"
    "normalizeToolsLoop canon (trimSpace (td_Name tool) # seen) tools = Inr rest"
    "out = \<lparr>td_Name = trimSpace (td_Name tool), td_Description = td_Description tool,
            td_InputSchema = c\<rparr> # rest"
  using assms by (auto simp: Let_def split: if_splits option.splits sum.splits)

lemma normalizeToolsLoop_map:
  "normalizeToolsLoop canon seen tools = Inr out \<Longrightarrow>
     map td_Name out = map (\<lambda>t. trimSpace (td_Name t)) tools"
proof (induction tools arbitrary: seen out)
  case (Cons tool tools)
  show ?case
    by (rule normalizeToolsLoop_Cons [OF Cons.prems]) (simp add: Cons.IH)
qed simp

lemma normalizeToolsLoop_names:
  "normalizeToolsLoop canon seen tools = Inr out \<Longrightarrow>
     distinct (map td_Name out) \<and> (\<forall>n \<in> set (map td_Name out). n \<noteq> [] \<and> n \<notin> set seen)"
proof (induction tools arbitrary: seen out)
  case (Cons tool tools)
  show ?case
    by (rule normalizeToolsLoop_Cons [OF Cons.prems], drule Cons.IH) auto
qed simp

section \<open>Run requests\<close>

text \<open>The domain lists of a hosted tool (\<open>hosted_policy.go\<close>).\<close>

record hostedDomainPolicy =
  dp_Allowed :: "string list"
  dp_Blocked :: "string list"

definition noDomains :: hostedDomainPolicy where
  "noDomains = \<lparr>dp_Allowed = [], dp_Blocked = []\<rparr>"

text \<open>\<open>rr_ToolResults\<close> says whether the request has a channel of tool results.\<close>

record RunRequest =
  rr_RuntimeProfile :: string
  rr_HistoryRequestKey :: string
  rr_BaseURL :: string
  rr_ProxyURL :: string
  rr_AccessToken :: string
  rr_ClientVersion :: string
  rr_RouteChannelID :: int
  rr_RouteUserID :: int
  rr_Model :: string
  rr_ConversationID :: string
  rr_UserText :: string
  rr_UserMedia :: "MediaPart list"
  rr_ThinkingEnabled :: bool
  rr_ReasoningEffort :: string
  rr_InferenceContext :: string
  rr_InferenceThinking :: "bool option"
  rr_dropReasoningSignatures :: bool
  rr_SystemText :: string
  rr_Tools :: "ToolDefinition list"
  rr_HistoryMessages :: "bytes list"
  rr_AllowHostedSearch :: bool
  rr_AllowHostedFetch :: bool
  rr_RequireHostedSearch :: bool
  rr_RequireHostedFetch :: bool
  rr_RequireHostedTool :: bool
  rr_HostedSearchMaxUses :: "int option"
  rr_HostedFetchMaxUses :: "int option"
  rr_HostedSearchDomains :: hostedDomainPolicy
  rr_HostedFetchDomains :: hostedDomainPolicy
  rr_RequireToolCall :: bool
  rr_MaxParallelTools :: int
  rr_DeleteCompletedState :: bool
  rr_FollowUpText :: string
  rr_InitialCheckpoint :: bytes
  rr_InitialBlobs :: blobs
  rr_Resume :: bool
  rr_ToolResults :: bool

text \<open>The zero value of the struct.\<close>

definition newRunRequest :: RunRequest where
  "newRunRequest = \<lparr>rr_RuntimeProfile = [], rr_HistoryRequestKey = [], rr_BaseURL = [],
     rr_ProxyURL = [], rr_AccessToken = [], rr_ClientVersion = [], rr_RouteChannelID = 0,
     rr_RouteUserID = 0, rr_Model = [], rr_ConversationID = [], rr_UserText = [], rr_UserMedia = [],
     rr_ThinkingEnabled = False, rr_ReasoningEffort = [], rr_InferenceContext = [],
     rr_InferenceThinking = None, rr_dropReasoningSignatures = False, rr_SystemText = [],
     rr_Tools = [], rr_HistoryMessages = [], rr_AllowHostedSearch = False, rr_AllowHostedFetch = False,
     rr_RequireHostedSearch = False, rr_RequireHostedFetch = False, rr_RequireHostedTool = False,
     rr_HostedSearchMaxUses = None, rr_HostedFetchMaxUses = None, rr_HostedSearchDomains = noDomains,
     rr_HostedFetchDomains = noDomains, rr_RequireToolCall = False,
     rr_MaxParallelTools = 0, rr_DeleteCompletedState = False, rr_FollowUpText = [],
     rr_InitialCheckpoint = [], rr_InitialBlobs = [], rr_Resume = False, rr_ToolResults = False\<rparr>"

end
