(* ===== verification/Hosted.thy ===== *)
theory Hosted
  imports Events "HOL-Library.Multiset"
begin

text \<open>
  Hosted web search and fetch.  The first half is \<open>hosted_policy.go\<close>: how a server tool declared
  by the caller becomes a policy, how policies combine and which URLs a domain policy permits.
  The second half is the runtime side of \<open>runner.go\<close> and \<open>inference_web.go\<close>: the trackers that
  enforce \<open>max_uses\<close>, the answer to an interaction query and the tracking of open searches.

  A decoded JSON value is a \<open>json\<close>; an object is an association list in the order in which a
  range loop visits it.  Parameters: \<open>lower\<close> is \<open>strings.ToLower\<close> on text that need not be
  ASCII, \<open>parseURL\<close> is \<open>url.Parse\<close> giving the host name and escaped path, and \<open>f2i\<close> is the
  conversion \<open>int64(f)\<close> of a float outside the range of the type, which Go leaves to the
  platform.
\<close>

section \<open>JSON values\<close>

text \<open>A float is NaN, an infinity or \<open>m * 2^e\<close>; a \<open>json.Number\<close> keeps its text.\<close>

datatype float64 = Fin int int | NaN | Inf bool

datatype number = GoInt int | GoFloat float64 | JsonNumber string

datatype json =
    JNull | JBool bool | JNum number | JStr string | JArr "json list" | JObj "(string \<times> json) list"

text \<open>\<open>stringValue\<close> of \<open>translate.go\<close>.\<close>

definition stringValue :: "json option \<Rightarrow> string" where
  "stringValue v = (case v of Some (JStr s) \<Rightarrow> trimSpace s | _ \<Rightarrow> [])"

text \<open>The integer a float is, if it is one (\<open>math.Trunc(f) == f\<close>).\<close>

fun floatInt :: "float64 \<Rightarrow> int option" where
  "floatInt (Fin m e) =
     (if 0 \<le> e then Some (m * 2 ^ nat e)
      else if m mod 2 ^ nat (- e) = 0 then Some (m div 2 ^ nat (- e)) else None)"
| "floatInt NaN = None"
| "floatInt (Inf neg) = None"

text \<open>\<open>strconv.ParseInt(s, 10, 64)\<close>.\<close>

definition digitValue :: "char \<Rightarrow> int option" where
  "digitValue c = (let n = of_char c :: nat in if 48 \<le> n \<and> n \<le> 57 then Some (int n - 48) else None)"

fun parseDigits :: "int \<Rightarrow> string \<Rightarrow> int option" where
  "parseDigits acc [] = Some acc"
| "parseDigits acc (c # s) = (case digitValue c of None \<Rightarrow> None | Some d \<Rightarrow> parseDigits (acc * 10 + d) s)"

definition parseNat :: "string \<Rightarrow> int option" where
  "parseNat s = (if s = [] then None else parseDigits 0 s)"

definition parseInt64 :: "string \<Rightarrow> int option" where
  "parseInt64 s = (case (case s of
       c # t \<Rightarrow> if c = CHR ''-'' then map_option uminus (parseNat t)
                else if c = CHR ''+'' then parseNat t else parseNat s
     | [] \<Rightarrow> None) of
     None \<Rightarrow> None | Some n \<Rightarrow> if isInt64 n then Some n else None)"

definition errHostedMaxUses :: err where
  "errHostedMaxUses = Errorf ''hosted max_uses must be a non-negative integer'' []"

definition maxIntCheck :: "int \<Rightarrow> int option res" where
  "maxIntCheck n = (if n < 0 \<or> n > maxInt64 then Inl errHostedMaxUses else Inr (Some n))"

definition nonNegativeIntFromJSON :: "(int \<Rightarrow> int) \<Rightarrow> json \<Rightarrow> int option res" where
  "nonNegativeIntFromJSON f2i v = (case v of
     JNull \<Rightarrow> Inr None
   | JNum (GoInt n) \<Rightarrow> maxIntCheck n
   | JNum (GoFloat f) \<Rightarrow>
       (case floatInt f of
          None \<Rightarrow> Inl errHostedMaxUses
        | Some n \<Rightarrow> if n < 0 \<or> n > 2 ^ 63 then Inl errHostedMaxUses
                    else maxIntCheck (if isInt64 n then n else f2i n))
   | JNum (JsonNumber s) \<Rightarrow>
       (case parseInt64 s of None \<Rightarrow> Inl errHostedMaxUses | Some n \<Rightarrow> maxIntCheck n)
   | _ \<Rightarrow> Inl errHostedMaxUses)"

fun domainStrings :: "json list \<Rightarrow> string list option" where
  "domainStrings [] = Some []"
| "domainStrings (JStr s # items) = (case domainStrings items of None \<Rightarrow> None
     | Some ds \<Rightarrow> Some (if trimSpace s \<noteq> [] then trimSpace s # ds else ds))"
| "domainStrings (_ # items) = None"

definition domainListFromJSON :: "json \<Rightarrow> string list option" where
  "domainListFromJSON v = (case v of JNull \<Rightarrow> Some [] | JArr items \<Rightarrow> domainStrings items | _ \<Rightarrow> None)"

lemma nonNegativeIntFromJSON_bounds:
  "nonNegativeIntFromJSON f2i v = Inr (Some n) \<Longrightarrow> 0 \<le> n \<and> n \<le> maxInt64"
  by (auto simp: nonNegativeIntFromJSON_def maxIntCheck_def
      split: json.splits number.splits option.splits if_splits)

lemma domainStrings_trimmed:
  "domainStrings items = Some ds \<Longrightarrow> \<forall>d \<in> set ds. trimSpace d = d \<and> d \<noteq> []"
  by (induction items arbitrary: ds rule: domainStrings.induct) (auto split: option.splits if_splits)

lemma domainListFromJSON_trimmed:
  "domainListFromJSON v = Some ds \<Longrightarrow> \<forall>d \<in> set ds. trimSpace d = d \<and> d \<noteq> []"
  by (auto simp: domainListFromJSON_def dest: domainStrings_trimmed split: json.splits)

section \<open>Domain policies\<close>

definition domainRestricts :: "hostedDomainPolicy \<Rightarrow> bool" where
  "domainRestricts p = (dp_Allowed p \<noteq> [] \<or> dp_Blocked p \<noteq> [])"

text \<open>The closure \<open>matches\<close> of \<open>permits\<close>.\<close>

definition ruleMatches :: "(string \<Rightarrow> string) \<Rightarrow> string \<Rightarrow> string \<Rightarrow> string \<Rightarrow> bool" where
  "ruleMatches lower host path rule0 =
     (let rule = trimPrefix (trimPrefix (lower (trimSpace rule0)) ''https://'') ''http://'';
          (ruleHost0, rulePath) = cutAt (CHR ''/'') rule;
          ruleHost = trimPrefix ruleHost0 ''www.'';
          candidate = trimPrefix host ''www.'' in
      if ruleHost = [] then False
      else if candidate \<noteq> ruleHost \<and> \<not> hasSuffix candidate (''.'' @ ruleHost) then False
      else if rulePath = [] then True
      else hasPrefix (trimPrefix path ''/'') (trimSuffix rulePath ''/''))"

definition permits ::
  "(string \<Rightarrow> string) \<Rightarrow> (string \<Rightarrow> (string \<times> string) option) \<Rightarrow> hostedDomainPolicy \<Rightarrow> string \<Rightarrow> bool" where
  "permits lower parseURL p rawURL =
     (if \<not> domainRestricts p then True
      else case parseURL (trimSpace rawURL) of
        None \<Rightarrow> False
      | Some (hostname, path) \<Rightarrow>
          if hostname = [] then False
          else let host = lower hostname in
            if list_ex (ruleMatches lower host path) (dp_Blocked p) then False
            else if dp_Allowed p = [] then True
            else list_ex (ruleMatches lower host path) (dp_Allowed p))"

fun appendUniqueStrings :: "string list \<Rightarrow> string list \<Rightarrow> string list" where
  "appendUniqueStrings base [] = base"
| "appendUniqueStrings base (v # vs) =
     (let t = trimSpace v in
      if t = [] then appendUniqueStrings base vs
      else if t \<in> set base then appendUniqueStrings base vs
      else appendUniqueStrings (base @ [t]) vs)"

definition domainMerge :: "hostedDomainPolicy \<Rightarrow> hostedDomainPolicy \<Rightarrow> hostedDomainPolicy" where
  "domainMerge p next = \<lparr>dp_Allowed = appendUniqueStrings (dp_Allowed p) (dp_Allowed next),
                         dp_Blocked = appendUniqueStrings (dp_Blocked p) (dp_Blocked next)\<rparr>"

definition trimmed :: "string list \<Rightarrow> bool" where
  "trimmed ds = (\<forall>d \<in> set ds. trimSpace d = d \<and> d \<noteq> [])"

lemma set_appendUnique:
  "set (appendUniqueStrings base vs) = set base \<union> (trimSpace ` set vs - {[]})"
  by (induction base vs rule: appendUniqueStrings.induct) (auto simp: Let_def)

lemma distinct_appendUnique: "distinct base \<Longrightarrow> distinct (appendUniqueStrings base vs)"
  by (induction base vs rule: appendUniqueStrings.induct) (auto simp: Let_def)

lemma set_appendUnique_trimmed:
  "trimmed vs \<Longrightarrow> set (appendUniqueStrings base vs) = set base \<union> set vs"
  by (auto simp: set_appendUnique trimmed_def image_iff)

lemma set_empty_iff: "set xs = A \<Longrightarrow> xs = [] \<longleftrightarrow> A = {}"
  by auto

lemma domainMerge_lists:
  assumes "trimmed (dp_Allowed q)" "trimmed (dp_Blocked q)"
  shows "set (dp_Allowed (domainMerge p q)) = set (dp_Allowed p) \<union> set (dp_Allowed q)"
    and "set (dp_Blocked (domainMerge p q)) = set (dp_Blocked p) \<union> set (dp_Blocked q)"
  using assms by (simp_all add: domainMerge_def set_appendUnique_trimmed)

text \<open>What \<open>permits\<close> decides, as a predicate on the two rule sets.\<close>

lemma permits_iff:
  "permits lower parseURL p u \<longleftrightarrow>
     (domainRestricts p \<longrightarrow> (\<exists>h path. parseURL (trimSpace u) = Some (h, path) \<and> h \<noteq> []
        \<and> (\<forall>r \<in> set (dp_Blocked p). \<not> ruleMatches lower (lower h) path r)
        \<and> (dp_Allowed p \<noteq> [] \<longrightarrow> (\<exists>r \<in> set (dp_Allowed p). ruleMatches lower (lower h) path r))))"
  by (auto simp: permits_def Let_def list_ex_iff split: option.splits if_splits)

lemma merge_block_lists:
  assumes "dp_Allowed p = []" "dp_Allowed q = []" "trimmed (dp_Blocked q)"
  shows "permits lower parseURL (domainMerge p q) u
     \<longleftrightarrow> permits lower parseURL p u \<and> permits lower parseURL q u"
proof -
  have m: "set (dp_Blocked (domainMerge p q)) = set (dp_Blocked p) \<union> set (dp_Blocked q)"
    "dp_Allowed (domainMerge p q) = []"
    using assms domainMerge_lists [of q p] by (simp_all add: trimmed_def domainMerge_def)
  then have "dp_Blocked (domainMerge p q) = [] \<longleftrightarrow> dp_Blocked p = [] \<and> dp_Blocked q = []"
    by (simp add: set_empty_iff [OF m(1)])
  then show ?thesis
    using assms m by (auto simp: permits_iff domainRestricts_def)
qed

lemma merge_allow_lists:
  assumes "dp_Blocked p = []" "dp_Blocked q = []" "dp_Allowed p \<noteq> []" "dp_Allowed q \<noteq> []"
    and "trimmed (dp_Allowed q)"
  shows "permits lower parseURL (domainMerge p q) u
     \<longleftrightarrow> permits lower parseURL p u \<or> permits lower parseURL q u"
proof -
  have m: "set (dp_Allowed (domainMerge p q)) = set (dp_Allowed p) \<union> set (dp_Allowed q)"
    "dp_Blocked (domainMerge p q) = []"
    using assms domainMerge_lists [of q p] by (simp_all add: trimmed_def domainMerge_def)
  then have "dp_Allowed (domainMerge p q) \<noteq> []"
    using assms(3) by (auto simp: set_empty_iff [OF m(1)])
  then show ?thesis
    using assms m by (auto simp: permits_iff domainRestricts_def)
qed

text \<open>A rule that is a bare, lower-case host matches that host and its subdomains and nothing else.\<close>

definition bareHost :: "(string \<Rightarrow> string) \<Rightarrow> string \<Rightarrow> bool" where
  "bareHost lower d = (d \<noteq> [] \<and> trimSpace d = d \<and> lower d = d \<and> CHR ''/'' \<notin> set d \<and> \<not> hasPrefix d ''www.'')"

lemma trimPrefix_none: "\<not> hasPrefix s p \<Longrightarrow> trimPrefix s p = s"
  by (auto simp: trimPrefix_def hasPrefix_def split: option.splits)

lemma cutAt_absent: "c \<notin> set s \<Longrightarrow> cutAt c s = (s, [])"
  by (induction s) (auto simp: cutAt_def)

lemma ruleMatches_bare:
  assumes "bareHost lower d"
  shows "ruleMatches lower host path d \<longleftrightarrow>
    (let h = trimPrefix host ''www.'' in h = d \<or> (\<exists>sub. h = sub @ ''.'' @ d))"
proof -
  have "\<not> hasPrefix d ''https://''" "\<not> hasPrefix d ''http://''"
    using assms by (auto simp: bareHost_def hasPrefix_iff)
  then have r: "trimPrefix (trimPrefix d ''https://'') ''http://'' = d"
    by (simp add: trimPrefix_none)
  have c: "cutAt (CHR ''/'') d = (d, [])" using assms by (simp add: bareHost_def cutAt_absent)
  have w: "trimPrefix d ''www.'' = d" using assms by (simp add: bareHost_def trimPrefix_none)
  show ?thesis
    using assms unfolding bareHost_def ruleMatches_def Let_def
    by (simp add: r c w hasSuffix_iff)
qed

section \<open>Declared server tools\<close>

record hostedDeclaredTool =
  dt_Kind :: string
  dt_Name :: string
  dt_MaxUses :: "int option"
  dt_Domains :: hostedDomainPolicy

definition unprocessable :: "string \<Rightarrow> err" where
  "unprocessable text = RequestError 422 text"

definition knownServerWebKind :: "string \<Rightarrow> string" where
  "knownServerWebKind typeName =
     (let t = toLower (trimSpace typeName) in
      if hasPrefix t ''web_search_'' then ''search''
      else if hasPrefix t ''web_fetch_'' then ''fetch'' else [])"

text \<open>
  One iteration of the loop over the tool's members: members without meaning here, hints that
  have no equivalent, the use limit and the two domain lists.
\<close>

definition ignoredKeys :: "string set" where
  "ignoredKeys = {''type'', ''name'', ''input_schema'', ''cache_control''}"

definition hintKeys :: "string set" where
  "hintKeys = {''user_location'', ''citations'', ''max_content_tokens''}"

definition declaredField ::
  "(int \<Rightarrow> int) \<Rightarrow> string \<Rightarrow> json \<Rightarrow> hostedDeclaredTool \<Rightarrow> hostedDeclaredTool res" where
  "declaredField f2i key v d =
     (if key \<in> ignoredKeys then Inr d
      else if key \<in> hintKeys then Inr d
      else if key = ''max_uses''
      then (case nonNegativeIntFromJSON f2i v of
          Inl _ \<Rightarrow> Inl (unprocessable ''Cursor Agent v1 hosted search max_uses must be a non-negative integer'')
        | Inr n \<Rightarrow> Inr (d\<lparr>dt_MaxUses := n\<rparr>))
      else if key = ''allowed_domains'' \<or> key = ''blocked_domains''
      then (case domainListFromJSON v of
          None \<Rightarrow> Inl (unprocessable (''Cursor Agent v1 hosted search '' @ key @ '' must be a list of domains''))
        | Some ds \<Rightarrow>
            if key = ''allowed_domains'' then Inr (d\<lparr>dt_Domains := (dt_Domains d)\<lparr>dp_Allowed := ds\<rparr>\<rparr>)
            else Inr (d\<lparr>dt_Domains := (dt_Domains d)\<lparr>dp_Blocked := ds\<rparr>\<rparr>))
      else Inl (unprocessable ''Cursor Agent v1 hosted search cannot faithfully apply extra server-tool fields''))"

fun declaredLoop ::
  "(int \<Rightarrow> int) \<Rightarrow> (string \<times> json) list \<Rightarrow> hostedDeclaredTool \<Rightarrow> hostedDeclaredTool res" where
  "declaredLoop f2i [] d = Inr d"
| "declaredLoop f2i ((key, v) # members) d =
     (case declaredField f2i key v d of Inl e \<Rightarrow> Inl e | Inr d' \<Rightarrow> declaredLoop f2i members d')"

definition parseHostedDeclaredTool ::
  "(int \<Rightarrow> int) \<Rightarrow> (string \<times> json) list \<Rightarrow> string \<Rightarrow> hostedDeclaredTool res" where
  "parseHostedDeclaredTool f2i tool kind =
     (let name0 = stringValue (map_of tool ''name'');
          name = (if name0 = [] then (if kind = ''search'' then ''web_search'' else ''web_fetch'') else name0)
      in case declaredLoop f2i tool \<lparr>dt_Kind = kind, dt_Name = name, dt_MaxUses = None, dt_Domains = noDomains\<rparr> of
        Inl e \<Rightarrow> Inl e
      | Inr d \<Rightarrow>
          if dp_Allowed (dt_Domains d) \<noteq> [] \<and> dp_Blocked (dt_Domains d) \<noteq> []
          then Inl (unprocessable ''Cursor Agent v1 hosted search cannot combine allowed_domains and blocked_domains'')
          else Inr d)"

text \<open>
  Whether a member is accepted does not depend on the tool built so far, and two members with
  different keys set different fields; hence the parse does not depend on Go's random map order.
\<close>

datatype fieldEffect = NoEffect | SetMax "int option" | SetAllowed "string list" | SetBlocked "string list"

fun applyEffect :: "fieldEffect \<Rightarrow> hostedDeclaredTool \<Rightarrow> hostedDeclaredTool" where
  "applyEffect NoEffect d = d"
| "applyEffect (SetMax n) d = d\<lparr>dt_MaxUses := n\<rparr>"
| "applyEffect (SetAllowed ds) d = d\<lparr>dt_Domains := (dt_Domains d)\<lparr>dp_Allowed := ds\<rparr>\<rparr>"
| "applyEffect (SetBlocked ds) d = d\<lparr>dt_Domains := (dt_Domains d)\<lparr>dp_Blocked := ds\<rparr>\<rparr>"

definition effectOf :: "(int \<Rightarrow> int) \<Rightarrow> string \<Rightarrow> json \<Rightarrow> fieldEffect option" where
  "effectOf f2i key v =
     (if key \<in> ignoredKeys \<or> key \<in> hintKeys then Some NoEffect
      else if key = ''max_uses''
      then (case nonNegativeIntFromJSON f2i v of Inl _ \<Rightarrow> None | Inr n \<Rightarrow> Some (SetMax n))
      else if key = ''allowed_domains'' then map_option SetAllowed (domainListFromJSON v)
      else if key = ''blocked_domains'' then map_option SetBlocked (domainListFromJSON v)
      else None)"

lemma special_keys:
  "''max_uses'' \<notin> ignoredKeys" "''max_uses'' \<notin> hintKeys"
  "''allowed_domains'' \<notin> ignoredKeys" "''allowed_domains'' \<notin> hintKeys"
  "''blocked_domains'' \<notin> ignoredKeys" "''blocked_domains'' \<notin> hintKeys"
  by (simp_all add: ignoredKeys_def hintKeys_def)

lemma declaredField_Inr:
  "declaredField f2i key v d = Inr d' \<longleftrightarrow> (\<exists>e. effectOf f2i key v = Some e \<and> d' = applyEffect e d)"
proof -
  consider "key \<in> ignoredKeys \<or> key \<in> hintKeys"
    | "key = ''max_uses''" | "key = ''allowed_domains''" | "key = ''blocked_domains''"
    | "key \<notin> ignoredKeys" "key \<notin> hintKeys"
      "key \<noteq> ''max_uses''" "key \<noteq> ''allowed_domains''" "key \<noteq> ''blocked_domains''"
    by argo
  then show ?thesis
  proof cases
    case 1
    then show ?thesis by (auto simp: declaredField_def effectOf_def)
  next
    case 2
    then show ?thesis
      by (cases "nonNegativeIntFromJSON f2i v") (auto simp: declaredField_def effectOf_def special_keys)
  next
    case 3
    then show ?thesis
      by (cases "domainListFromJSON v") (auto simp: declaredField_def effectOf_def special_keys)
  next
    case 4
    then show ?thesis
      by (cases "domainListFromJSON v") (auto simp: declaredField_def effectOf_def special_keys)
  next
    case 5
    then show ?thesis by (simp add: declaredField_def effectOf_def)
  qed
qed

text \<open>The key an effect belongs to; ignored members have none.\<close>

fun effectKey :: "fieldEffect \<Rightarrow> string option" where
  "effectKey NoEffect = None"
| "effectKey (SetMax n) = Some ''max_uses''"
| "effectKey (SetAllowed ds) = Some ''allowed_domains''"
| "effectKey (SetBlocked ds) = Some ''blocked_domains''"

lemma effectOf_key: "effectOf f2i key v = Some e \<Longrightarrow> effectKey e \<in> {None, Some key}"
  by (auto simp: effectOf_def split: if_splits sum.splits)

lemma applyEffect_commute:
  "effectKey e1 = None \<or> effectKey e2 = None \<or> effectKey e1 \<noteq> effectKey e2 \<Longrightarrow>
     applyEffect e1 (applyEffect e2 d) = applyEffect e2 (applyEffect e1 d)"
  by (cases e1; cases e2; simp)

lemma declaredField_swap:
  assumes "k1 \<noteq> k2" and "declaredField f2i k1 v1 d = Inr d1" and "declaredField f2i k2 v2 d1 = Inr d2"
  shows "\<exists>d1'. declaredField f2i k2 v2 d = Inr d1' \<and> declaredField f2i k1 v1 d1' = Inr d2"
proof -
  from assms(2,3) obtain e1 e2 where e: "effectOf f2i k1 v1 = Some e1" "effectOf f2i k2 v2 = Some e2"
    and d2: "d2 = applyEffect e2 (applyEffect e1 d)"
    by (auto simp: declaredField_Inr)
  have "effectKey e1 = None \<or> effectKey e2 = None \<or> effectKey e1 \<noteq> effectKey e2"
    using effectOf_key [OF e(1)] effectOf_key [OF e(2)] assms(1) by auto
  then show ?thesis using e d2 applyEffect_commute by (auto simp: declaredField_Inr)
qed

lemma declaredLoop_insert:
  assumes "declaredLoop f2i (xs @ (k, v) # ys) d = Inr out" and "k \<notin> fst ` set xs"
  shows "declaredLoop f2i ((k, v) # xs @ ys) d = Inr out"
  using assms
proof (induction xs arbitrary: d)
  case (Cons x xs)
  obtain k1 v1 where x: "x = (k1, v1)" by (cases x)
  from Cons.prems(1) x obtain d1 where d1: "declaredField f2i k1 v1 d = Inr d1"
    "declaredLoop f2i (xs @ (k, v) # ys) d1 = Inr out"
    by (auto split: sum.splits)
  from Cons.IH [OF d1(2)] Cons.prems(2) have "declaredLoop f2i ((k, v) # xs @ ys) d1 = Inr out" by simp
  then obtain d2 where d2: "declaredField f2i k v d1 = Inr d2" "declaredLoop f2i (xs @ ys) d2 = Inr out"
    by (auto split: sum.splits)
  from declaredField_swap [OF _ d1(1) d2(1)] Cons.prems(2) x
  obtain d1' where "declaredField f2i k v d = Inr d1'" "declaredField f2i k1 v1 d1' = Inr d2" by auto
  with d2(2) x show ?case by simp
qed simp

lemma declaredLoop_perm:
  "declaredLoop f2i tool d = Inr out \<Longrightarrow> wf_map tool \<Longrightarrow> mset tool' = mset tool \<Longrightarrow>
     declaredLoop f2i tool' d = Inr out"
proof (induction tool' arbitrary: tool d)
  case (Cons x tool')
  obtain k v where x: "x = (k, v)" by (cases x)
  from Cons.prems(3) have "x \<in> set tool" by (metis list.set_intros(1) mset_eq_setD)
  then obtain xs ys where t: "tool = xs @ x # ys" by (meson split_list)
  have k: "k \<notin> fst ` set xs" using Cons.prems(2) t x by (auto simp: wf_map_def)
  have "declaredLoop f2i ((k, v) # xs @ ys) d = Inr out"
    using declaredLoop_insert [OF _ k] Cons.prems(1) t x by simp
  then obtain d1 where d1: "declaredField f2i k v d = Inr d1" "declaredLoop f2i (xs @ ys) d1 = Inr out"
    by (auto split: sum.splits)
  have "mset tool' = mset (xs @ ys)" using Cons.prems(3) t by simp
  moreover have "wf_map (xs @ ys)" using Cons.prems(2) t by (simp add: wf_map_def)
  ultimately have "declaredLoop f2i tool' d1 = Inr out" using Cons.IH d1(2) by blast
  with d1(1) x show ?case by simp
qed simp

lemma map_of_mset:
  assumes "wf_map m" and "mset m' = mset m"
  shows "map_of m' = map_of m"
proof -
  have "distinct (map fst m')" "distinct (map fst m)"
    using assms mset_eq_imp_distinct_iff [of "map fst m'" "map fst m"] by (simp_all add: wf_map_def)
  then show ?thesis using map_of_inject_set mset_eq_setD [OF assms(2)] by blast
qed

lemma parse_order_independent:
  assumes "parseHostedDeclaredTool f2i tool kind = Inr d" and "wf_map tool" and "mset tool' = mset tool"
  shows "parseHostedDeclaredTool f2i tool' kind = Inr d"
proof -
  have m: "map_of tool' = map_of tool" using map_of_mset assms(2,3) by blast
  define d0 where "d0 = \<lparr>dt_Kind = kind, dt_Name =
      (if stringValue (map_of tool ''name'') = [] then (if kind = ''search'' then ''web_search'' else ''web_fetch'')
       else stringValue (map_of tool ''name'')), dt_MaxUses = None, dt_Domains = noDomains\<rparr>"
  obtain d1 where d1: "declaredLoop f2i tool d0 = Inr d1"
    using assms(1) unfolding parseHostedDeclaredTool_def Let_def d0_def [symmetric]
    by (cases "declaredLoop f2i tool d0") simp_all
  from declaredLoop_perm [OF this assms(2,3)] d1 assms(1) show ?thesis
    unfolding parseHostedDeclaredTool_def Let_def m d0_def [symmetric] by simp
qed

section \<open>The policy of a run\<close>

record hostedRunPolicy =
  hp_AllowSearch :: bool
  hp_AllowFetch :: bool
  hp_RequireSearch :: bool
  hp_RequireFetch :: bool
  hp_RequireAny :: bool
  hp_SearchMaxUses :: "int option"
  hp_FetchMaxUses :: "int option"
  hp_SearchDomains :: hostedDomainPolicy
  hp_FetchDomains :: hostedDomainPolicy

definition noHostedPolicy :: hostedRunPolicy where
  "noHostedPolicy = \<lparr>hp_AllowSearch = False, hp_AllowFetch = False, hp_RequireSearch = False,
     hp_RequireFetch = False, hp_RequireAny = False, hp_SearchMaxUses = None, hp_FetchMaxUses = None,
     hp_SearchDomains = noDomains, hp_FetchDomains = noDomains\<rparr>"

definition hostedEnabled :: "hostedRunPolicy \<Rightarrow> bool" where
  "hostedEnabled p = (hp_AllowSearch p \<or> hp_AllowFetch p)"

definition hostedRestrictsDomains :: "hostedRunPolicy \<Rightarrow> bool" where
  "hostedRestrictsDomains p = (domainRestricts (hp_SearchDomains p) \<or> domainRestricts (hp_FetchDomains p))"

definition minMaxUses :: "int option \<Rightarrow> int option \<Rightarrow> int option" where
  "minMaxUses current next = (case next of None \<Rightarrow> current
     | Some n \<Rightarrow> (case current of None \<Rightarrow> Some n | Some c \<Rightarrow> if n < c then Some n else current))"

text \<open>The loop state: the policy, with the two maxima in it, and the two counters.\<close>

definition summarizeTool ::
  "hostedRunPolicy \<times> nat \<times> nat \<Rightarrow> hostedDeclaredTool \<Rightarrow> hostedRunPolicy \<times> nat \<times> nat" where
  "summarizeTool st tool = (case st of (p, searchCount, fetchCount) \<Rightarrow>
     if dt_Kind tool = ''search''
     then (p\<lparr>hp_AllowSearch := True, hp_SearchMaxUses := minMaxUses (hp_SearchMaxUses p) (dt_MaxUses tool),
             hp_SearchDomains := domainMerge (hp_SearchDomains p) (dt_Domains tool)\<rparr>,
           Suc searchCount, fetchCount)
     else if dt_Kind tool = ''fetch''
     then (p\<lparr>hp_AllowFetch := True, hp_FetchMaxUses := minMaxUses (hp_FetchMaxUses p) (dt_MaxUses tool),
             hp_FetchDomains := domainMerge (hp_FetchDomains p) (dt_Domains tool)\<rparr>,
           searchCount, Suc fetchCount)
     else st)"

definition summarizeHostedPolicy :: "hostedDeclaredTool list \<Rightarrow> bool \<Rightarrow> hostedRunPolicy" where
  "summarizeHostedPolicy tools requireDeclared =
     (case foldl summarizeTool (noHostedPolicy, 0, 0) tools of (p, searchCount, fetchCount) \<Rightarrow>
       if \<not> requireDeclared then p
       else if searchCount > 0 \<and> fetchCount = 0 then p\<lparr>hp_RequireSearch := True\<rparr>
       else if fetchCount > 0 \<and> searchCount = 0 then p\<lparr>hp_RequireFetch := True\<rparr>
       else if searchCount > 0 \<and> fetchCount > 0 then p\<lparr>hp_RequireAny := True\<rparr>
       else p)"

definition declaredMaxima :: "string \<Rightarrow> hostedDeclaredTool list \<Rightarrow> int set" where
  "declaredMaxima kind tools = {n. \<exists>t \<in> set tools. dt_Kind t = kind \<and> dt_MaxUses t = Some n}"

definition isMinimum :: "int option \<Rightarrow> int set \<Rightarrow> bool" where
  "isMinimum m A = (case m of None \<Rightarrow> A = {} | Some n \<Rightarrow> n \<in> A \<and> (\<forall>a \<in> A. n \<le> a))"

lemma isMinimum_min:
  "isMinimum m A \<Longrightarrow> isMinimum (minMaxUses m x) (A \<union> (case x of None \<Rightarrow> {} | Some n \<Rightarrow> {n}))"
  by (fastforce simp: isMinimum_def minMaxUses_def split: option.splits)

lemma declaredMaxima_snoc:
  "declaredMaxima kind (ts @ [t]) = declaredMaxima kind ts
     \<union> (if dt_Kind t = kind then (case dt_MaxUses t of None \<Rightarrow> {} | Some n \<Rightarrow> {n}) else {})"
  by (auto simp: declaredMaxima_def split: option.splits)

text \<open>What the loop has established after the declared tools \<open>tools\<close>.\<close>

definition summarized :: "hostedDeclaredTool list \<Rightarrow> hostedRunPolicy \<times> nat \<times> nat \<Rightarrow> bool" where
  "summarized tools st = (case st of (p, sc, fc) \<Rightarrow>
     sc = length (filter (\<lambda>t. dt_Kind t = ''search'') tools)
   \<and> fc = length (filter (\<lambda>t. dt_Kind t = ''fetch'') tools)
   \<and> hp_AllowSearch p = (sc > 0) \<and> hp_AllowFetch p = (fc > 0)
   \<and> isMinimum (hp_SearchMaxUses p) (declaredMaxima ''search'' tools)
   \<and> isMinimum (hp_FetchMaxUses p) (declaredMaxima ''fetch'' tools)
   \<and> \<not> hp_RequireSearch p \<and> \<not> hp_RequireFetch p \<and> \<not> hp_RequireAny p)"

lemma summarizeTool_step:
  assumes "summarized tools (p, sc, fc)"
  shows "summarized (tools @ [t]) (summarizeTool (p, sc, fc) t)"
proof -
  note min = isMinimum_min [of "hp_SearchMaxUses p" "declaredMaxima ''search'' tools" "dt_MaxUses t"]
    isMinimum_min [of "hp_FetchMaxUses p" "declaredMaxima ''fetch'' tools" "dt_MaxUses t"]
  consider "dt_Kind t = ''search''" | "dt_Kind t = ''fetch''"
    | "dt_Kind t \<noteq> ''search''" "dt_Kind t \<noteq> ''fetch''" by blast
  then show ?thesis
    by cases (use assms min in \<open>simp_all add: summarized_def summarizeTool_def declaredMaxima_snoc\<close>)
qed

lemma summarize_loop: "summarized tools (foldl summarizeTool (noHostedPolicy, 0, 0) tools)"
proof (induction tools rule: rev_induct)
  case Nil
  then show ?case by (simp add: summarized_def noHostedPolicy_def isMinimum_def declaredMaxima_def)
next
  case (snoc t tools)
  then show ?case
    by (cases "foldl summarizeTool (noHostedPolicy, 0, 0) tools") (simp add: summarizeTool_step)
qed

section \<open>Properties\<close>

text \<open>
  Parsing a declared server tool does not depend on Go's random map order: a declaration accepted
  with its members in one order is accepted with the same result in every other order.
\<close>

theorem declared_tool_order_independent:
  assumes "parseHostedDeclaredTool f2i tool kind = Inr d" and "wf_map tool" and "mset tool' = mset tool"
  shows "parseHostedDeclaredTool f2i tool' kind = Inr d"
  by (rule parse_order_independent [OF assms])

definition exampleTool :: "(string \<times> json) list" where
  "exampleTool = [(''type'', JStr ''web_search_20250305''), (''max_uses'', JNum (JsonNumber ''3'')),
     (''allowed_domains'', JArr [JStr '' example.com'', JStr []])]"

definition exampleDeclared :: hostedDeclaredTool where
  "exampleDeclared = \<lparr>dt_Kind = ''search'', dt_Name = ''web_search'', dt_MaxUses = Some 3,
     dt_Domains = \<lparr>dp_Allowed = [''example.com''], dp_Blocked = []\<rparr>\<rparr>"

lemma declared_tool_order_independent_witness:
  "parseHostedDeclaredTool id (rev exampleTool) ''search'' = Inr exampleDeclared"
proof -
  have "parseHostedDeclaredTool id exampleTool ''search'' = Inr exampleDeclared" by code_simp
  from declared_tool_order_independent [OF this, of "rev exampleTool"] show ?thesis
    by (simp add: wf_map_def exampleTool_def)
qed

text \<open>
  The hosted policy of a request is the conjunction of its declarations: a family is allowed exactly
  when a tool of it is declared, its maximum is the least declared maximum (none if none was declared),
  and at most one requirement is set, only on request, and only for a family that is allowed.
\<close>

theorem policy_is_summary:
  "hp_AllowSearch (summarizeHostedPolicy tools req) = (\<exists>t \<in> set tools. dt_Kind t = ''search'')
   \<and> hp_AllowFetch (summarizeHostedPolicy tools req) = (\<exists>t \<in> set tools. dt_Kind t = ''fetch'')
   \<and> isMinimum (hp_SearchMaxUses (summarizeHostedPolicy tools req)) (declaredMaxima ''search'' tools)
   \<and> isMinimum (hp_FetchMaxUses (summarizeHostedPolicy tools req)) (declaredMaxima ''fetch'' tools)
   \<and> hp_RequireSearch (summarizeHostedPolicy tools req) =
       (req \<and> (\<exists>t \<in> set tools. dt_Kind t = ''search'') \<and> \<not> (\<exists>t \<in> set tools. dt_Kind t = ''fetch''))
   \<and> hp_RequireFetch (summarizeHostedPolicy tools req) =
       (req \<and> (\<exists>t \<in> set tools. dt_Kind t = ''fetch'') \<and> \<not> (\<exists>t \<in> set tools. dt_Kind t = ''search''))
   \<and> hp_RequireAny (summarizeHostedPolicy tools req) =
       (req \<and> (\<exists>t \<in> set tools. dt_Kind t = ''search'') \<and> (\<exists>t \<in> set tools. dt_Kind t = ''fetch''))"
proof -
  obtain p sc fc where st: "foldl summarizeTool (noHostedPolicy, 0, 0) tools = (p, sc, fc)"
    by (cases "foldl summarizeTool (noHostedPolicy, 0, 0) tools")
  have "summarized tools (p, sc, fc)" using summarize_loop [of tools] st by simp
  then have f: "sc = length (filter (\<lambda>t. dt_Kind t = ''search'') tools)"
    "fc = length (filter (\<lambda>t. dt_Kind t = ''fetch'') tools)"
    "hp_AllowSearch p = (sc > 0)" "hp_AllowFetch p = (fc > 0)"
    "isMinimum (hp_SearchMaxUses p) (declaredMaxima ''search'' tools)"
    "isMinimum (hp_FetchMaxUses p) (declaredMaxima ''fetch'' tools)"
    "\<not> hp_RequireSearch p" "\<not> hp_RequireFetch p" "\<not> hp_RequireAny p"
    by (simp_all add: summarized_def)
  have c: "(sc > 0) = (\<exists>t \<in> set tools. dt_Kind t = ''search'')" "(fc > 0) = (\<exists>t \<in> set tools. dt_Kind t = ''fetch'')"
    unfolding f(1,2) length_greater_0_conv filter_empty_conv by blast+
  show ?thesis
    unfolding summarizeHostedPolicy_def st prod.case c [symmetric]
    using f(3-9) by (simp add: not_less)
qed

text \<open>
  Merging declarations never widens a block list nor narrows an allow list: a merged block-only
  policy permits a URL exactly when both parts do, a merged allow-only policy exactly when one of them
  does.
\<close>

theorem merged_policies:
  assumes "trimmed (dp_Allowed q)" and "trimmed (dp_Blocked q)"
  shows "(dp_Allowed p = [] \<and> dp_Allowed q = [] \<longrightarrow>
       permits lower parseURL (domainMerge p q) u = (permits lower parseURL p u \<and> permits lower parseURL q u))
   \<and> (dp_Blocked p = [] \<and> dp_Blocked q = [] \<and> dp_Allowed p \<noteq> [] \<and> dp_Allowed q \<noteq> [] \<longrightarrow>
       permits lower parseURL (domainMerge p q) u = (permits lower parseURL p u \<or> permits lower parseURL q u))"
  using assms merge_block_lists merge_allow_lists by blast

definition exampleURL :: "string \<Rightarrow> (string \<times> string) option" where
  "exampleURL u = (case stripPrefix ''https://'' u of None \<Rightarrow> None
     | Some r \<Rightarrow> Some (fst (cutAt (CHR ''/'') r), ''/'' @ snd (cutAt (CHR ''/'') r)))"

lemma merged_policies_witness:
  "permits toLower exampleURL (domainMerge \<lparr>dp_Allowed = [''a.com''], dp_Blocked = []\<rparr>
      \<lparr>dp_Allowed = [''b.org''], dp_Blocked = []\<rparr>) ''https://docs.b.org/x''"
proof -
  have t: "trimmed (dp_Allowed \<lparr>dp_Allowed = [''b.org''], dp_Blocked = []\<rparr>)"
    "trimmed (dp_Blocked \<lparr>dp_Allowed = [''b.org''], dp_Blocked = []\<rparr>)" by code_simp+
  have "permits toLower exampleURL \<lparr>dp_Allowed = [''b.org''], dp_Blocked = []\<rparr> ''https://docs.b.org/x''"
    by code_simp
  with merged_policies [OF t, of "\<lparr>dp_Allowed = [''a.com''], dp_Blocked = []\<rparr>" toLower exampleURL "''https://docs.b.org/x''"]
  show ?thesis by simp
qed

text \<open>
  A rule that is a bare lower-case host restricts exactly to that host, with or without
  \<open>www.\<close>, and its subdomains: it never matches another registrable name that merely ends in it.
\<close>

theorem bare_host_rule:
  assumes "bareHost lower d"
  shows "ruleMatches lower host path d \<longleftrightarrow>
    (let h = trimPrefix host ''www.'' in h = d \<or> (\<exists>sub. h = sub @ ''.'' @ d))"
  by (rule ruleMatches_bare [OF assms])

lemma bare_host_rule_witness:
  "\<not> ruleMatches toLower ''notexample.com'' [] ''example.com'' \<and> ruleMatches toLower ''www.example.com'' [] ''example.com''"
proof -
  have b: "bareHost toLower ''example.com''" by code_simp
  have t: "trimPrefix ''notexample.com'' ''www.'' = ''notexample.com''"
    "trimPrefix ''www.example.com'' ''www.'' = ''example.com''" by code_simp+
  have "\<not> (\<exists>sub. ''notexample.com'' = sub @ ''.'' @ ''example.com'')"
  proof
    assume "\<exists>sub. ''notexample.com'' = sub @ ''.'' @ ''example.com''"
    then have "hasSuffix ''notexample.com'' (''.'' @ ''example.com'')" by (auto simp: hasSuffix_iff)
    then show False by code_simp
  qed
  with bare_host_rule [OF b] t show ?thesis by (simp add: Let_def)
qed

end
