(* ===== verification/Interaction.thy ===== *)
theory Interaction
  imports Hosted
begin

text \<open>
  Decoded server messages (\<open>wire.go\<close>) and what a run does with the hosted ones: the use
  trackers of both runtimes behind the interface \<open>quota\<close>, the answer to an interaction query,
  the table of open hosted searches, the table of announced caller tools (\<open>runner.go\<close>), and the
  hosted tools of the Sand runtime (\<open>inference_web.go\<close>).
\<close>

section \<open>Messages\<close>

datatype wireMessageType =
    wireUnknown | wireTextDelta | wireThinkingDelta | wireTokenDelta | wireTurnEnded
  | wireCheckpoint | wireKVGet | wireKVSet | wireRequestContext | wireMCP | wireShell
  | wireShellStream | wireBackgroundShell | wireRead | wireWrite | wireDelete | wireGrep
  | wireList | wireFetch | wireDiagnostics | wireInteractionQuery | wireUnsupportedExec
  | wireIgnored | wireStreamMCP | wireToolCallStarted | wireToolCallDelta
  | wireToolCallCompleted | wireThinkingCompleted | wireAllowlistPrecheck | wireExecAbort

record decodedWireMessage =
  dm_Type :: wireMessageType
  dm_Text :: string
  dm_TokenDelta :: int
  dm_Usage :: "UsageObservation option"
  dm_Checkpoint :: bytes
  dm_ID :: "32 word"
  dm_ExecID :: string
  dm_BlobID :: bytes
  dm_BlobData :: bytes
  dm_InteractionKind :: int
  dm_ToolCallID :: string
  dm_ToolName :: string
  dm_ToolArguments :: string
  dm_CallID :: string
  dm_AllowlistKind :: string
  dm_HostedSearch :: "HostedSearch option"

definition newMessage :: "wireMessageType \<Rightarrow> decodedWireMessage" where
  "newMessage t = \<lparr>dm_Type = t, dm_Text = [], dm_TokenDelta = 0, dm_Usage = None, dm_Checkpoint = [],
     dm_ID = 0, dm_ExecID = [], dm_BlobID = [], dm_BlobData = [], dm_InteractionKind = 0,
     dm_ToolCallID = [], dm_ToolName = [], dm_ToolArguments = [], dm_CallID = [],
     dm_AllowlistKind = [], dm_HostedSearch = None\<rparr>"

definition wireReplyRequired :: "wireMessageType \<Rightarrow> bool" where
  "wireReplyRequired t = (t \<in> {wireKVGet, wireKVSet, wireRequestContext, wireMCP, wireShell,
     wireShellStream, wireBackgroundShell, wireRead, wireWrite, wireDelete, wireGrep, wireList,
     wireFetch, wireDiagnostics, wireInteractionQuery, wireUnsupportedExec, wireAllowlistPrecheck,
     wireExecAbort})"

text \<open>\<open>fmt.Sprintf("%d")\<close>.\<close>

fun natDecimal :: "nat \<Rightarrow> string" where
  "natDecimal n = (if n < 10 then [char_of (48 + n)] else natDecimal (n div 10) @ [char_of (48 + n mod 10)])"

declare natDecimal.simps [simp del]

definition decimal :: "int \<Rightarrow> string" where
  "decimal n = (if n < 0 then ''-'' @ natDecimal (nat (- n)) else natDecimal (nat n))"

section \<open>Use limits\<close>

definition hostedInteractionIsSearch :: "int \<Rightarrow> bool" where
  "hostedInteractionIsSearch kind = (kind = 2 \<or> kind = 5)"

definition hostedInteractionIsFetch :: "int \<Rightarrow> bool" where
  "hostedInteractionIsFetch kind = (kind = 6 \<or> kind = 9)"

record hostedUseTracker =
  ut_searchIDs :: "string list"
  ut_fetchIDs :: "string list"

definition newHostedUseTracker :: hostedUseTracker where
  "newHostedUseTracker = \<lparr>ut_searchIDs = [], ut_fetchIDs = []\<rparr>"

definition hostedUseID :: "decodedWireMessage \<Rightarrow> string" where
  "hostedUseID m = (if trimSpace (dm_ToolCallID m) \<noteq> [] then trimSpace (dm_ToolCallID m)
     else ''anon:'' @ decimal (dm_InteractionKind m) @ '':'' @ decimal (uint (dm_ID m)))"

text \<open>Whether a set of \<open>n\<close> uses may grow under the limit \<open>max\<close> (nil: no limit).\<close>

definition useRoom :: "int option \<Rightarrow> nat \<Rightarrow> bool" where
  "useRoom limit n = (case limit of None \<Rightarrow> True | Some m \<Rightarrow> int n < m)"

definition trackerAllow ::
  "int \<Rightarrow> string \<Rightarrow> int option \<Rightarrow> hostedUseTracker \<Rightarrow> bool \<times> hostedUseTracker" where
  "trackerAllow kind i limit t =
     (if hostedInteractionIsFetch kind
      then (if i \<in> set (ut_fetchIDs t) then (True, t)
            else if \<not> useRoom limit (length (ut_fetchIDs t)) then (False, t)
            else (True, t\<lparr>ut_fetchIDs := i # ut_fetchIDs t\<rparr>))
      else if \<not> hostedInteractionIsSearch kind then (False, t)
      else if i \<in> set (ut_searchIDs t) then (True, t)
      else if \<not> useRoom limit (length (ut_searchIDs t)) then (False, t)
      else (True, t\<lparr>ut_searchIDs := i # ut_searchIDs t\<rparr>))"

definition disabledReason :: string where
  "disabledReason = ''capability is not enabled by BeefAPI''"

definition hostedInteractionDecision ::
  "RunRequest \<Rightarrow> decodedWireMessage \<Rightarrow> hostedUseTracker \<Rightarrow> (bool \<times> string) \<times> hostedUseTracker" where
  "hostedInteractionDecision request m t =
     (let kind = dm_InteractionKind m; i = hostedUseID m in
      if kind = 4 then ((False, disabledReason), t)
      else if hostedInteractionIsSearch kind then
        (if \<not> rr_AllowHostedSearch request then ((False, disabledReason), t)
         else case trackerAllow kind i (rr_HostedSearchMaxUses request) t of
           (False, t') \<Rightarrow> ((False, ''hosted search exceeded max_uses''), t')
         | (True, t') \<Rightarrow> ((True, []), t'))
      else if hostedInteractionIsFetch kind then
        (if \<not> rr_AllowHostedFetch request then ((False, disabledReason), t)
         else case trackerAllow kind i (rr_HostedFetchMaxUses request) t of
           (False, t') \<Rightarrow> ((False, ''hosted fetch exceeded max_uses''), t')
         | (True, t') \<Rightarrow> ((True, []), t'))
      else ((False, disabledReason), t))"

text \<open>
  The Sand runtime counts calls instead of ids and applies its own ceiling of 8 uses.
\<close>

definition maxInferenceHostedUses :: int where "maxInferenceHostedUses = 8"
definition maxInferenceHostedSteps :: nat where "maxInferenceHostedSteps = 16"

record inferenceHostedUseTracker =
  it_search :: nat
  it_fetch :: nat

definition inferenceLimit :: "int option \<Rightarrow> int" where
  "inferenceLimit m = (case m of Some n \<Rightarrow> if n < maxInferenceHostedUses then n else maxInferenceHostedUses
     | None \<Rightarrow> maxInferenceHostedUses)"

definition inferenceAllow ::
  "RunRequest \<Rightarrow> string \<Rightarrow> inferenceHostedUseTracker \<Rightarrow> unit res \<times> inferenceHostedUseTracker" where
  "inferenceAllow request kind t =
     (if kind = HostedSearchKindWebSearch then
        (let limit = inferenceLimit (rr_HostedSearchMaxUses request) in
         if int (it_search t) \<ge> limit
         then (Inl (Errorf ''Cursor Sand hosted search exceeded max_uses=%d'' [N limit]), t)
         else (Inr (), t\<lparr>it_search := Suc (it_search t)\<rparr>))
      else if kind = HostedSearchKindWebFetch then
        (let limit = inferenceLimit (rr_HostedFetchMaxUses request) in
         if int (it_fetch t) \<ge> limit
         then (Inl (Errorf ''Cursor Sand hosted fetch exceeded max_uses=%d'' [N limit]), t)
         else (Inr (), t\<lparr>it_fetch := Suc (it_fetch t)\<rparr>))
      else (Inl (Errorf ''Cursor Sand hosted web tool is unsupported'' []), t))"

definition validateRequired :: "RunRequest \<Rightarrow> inferenceHostedUseTracker \<Rightarrow> unit res" where
  "validateRequired request t =
     (if rr_RequireHostedSearch request \<and> it_search t = 0
      then Inl (Errorf ''Cursor Sand completed without the required hosted search'' [])
      else if rr_RequireHostedFetch request \<and> it_fetch t = 0
      then Inl (Errorf ''Cursor Sand completed without the required hosted fetch'' [])
      else if rr_RequireHostedTool request \<and> it_search t + it_fetch t = 0
      then Inl (Errorf ''Cursor Sand completed without the required hosted web tool'' [])
      else Inr ())"

subsection \<open>The interface of a tracker\<close>

text \<open>
  \<open>step x t\<close> is the tracker after the request \<open>x\<close>, \<open>used t\<close> the number of granted uses of one
  family, and \<open>room n\<close> says that another use may be granted after \<open>n\<close>.
\<close>

locale quota =
  fixes step :: "'x \<Rightarrow> 't \<Rightarrow> 't" and used :: "'t \<Rightarrow> nat" and room :: "nat \<Rightarrow> bool"
  assumes step_mono: "used t \<le> used (step x t)"
    and step_one: "used (step x t) \<le> Suc (used t)"
    and step_room: "used t < used (step x t) \<Longrightarrow> room (used t)"
begin

lemma fold_mono: "used t \<le> used (fold step xs t)"
  by (induction xs arbitrary: t) (auto intro: le_trans [OF step_mono])

lemma fold_bounded:
  assumes "\<And>n. room n \<Longrightarrow> n < m" and "used t \<le> m"
  shows "used (fold step xs t) \<le> m"
  using assms(2)
proof (induction xs arbitrary: t)
  case (Cons x xs)
  have "used (step x t) \<le> m"
  proof (cases "used t < used (step x t)")
    case True
    then have "used t < m" using assms(1) step_room by blast
    then show ?thesis using step_one [where t = t and x = x] by simp
  next
    case False
    then show ?thesis using Cons.prems by simp
  qed
  then show ?case using Cons.IH by simp
qed simp

lemma fold_le_length: "used (fold step xs t) \<le> used t + length xs"
proof (induction xs arbitrary: t)
  case (Cons x xs)
  have "used (fold step xs (step x t)) \<le> used (step x t) + length xs" by (rule Cons.IH)
  also have "\<dots> \<le> used t + length (x # xs)" using step_one [where t = t and x = x] by simp
  finally show ?case by simp
qed simp

end

definition decisionStep :: "RunRequest \<Rightarrow> decodedWireMessage \<Rightarrow> hostedUseTracker \<Rightarrow> hostedUseTracker" where
  "decisionStep request m t = snd (hostedInteractionDecision request m t)"

definition inferenceStep :: "RunRequest \<Rightarrow> string \<Rightarrow> inferenceHostedUseTracker \<Rightarrow> inferenceHostedUseTracker" where
  "inferenceStep request kind t = snd (inferenceAllow request kind t)"

lemmas decision_defs =
  decisionStep_def hostedInteractionDecision_def trackerAllow_def Let_def
  hostedInteractionIsSearch_def hostedInteractionIsFetch_def

interpretation agent_search: quota "decisionStep request" "\<lambda>t. length (ut_searchIDs t)"
  "useRoom (rr_HostedSearchMaxUses request)" for request
  by unfold_locales (auto simp: decision_defs split: bool.splits if_splits)

interpretation agent_fetch: quota "decisionStep request" "\<lambda>t. length (ut_fetchIDs t)"
  "useRoom (rr_HostedFetchMaxUses request)" for request
  by unfold_locales (auto simp: decision_defs split: bool.splits if_splits)

interpretation sand_search: quota "inferenceStep request" it_search
  "\<lambda>n. int n < inferenceLimit (rr_HostedSearchMaxUses request)" for request
  by unfold_locales (auto simp: inferenceStep_def inferenceAllow_def Let_def split: if_splits)

interpretation sand_fetch: quota "inferenceStep request" it_fetch
  "\<lambda>n. int n < inferenceLimit (rr_HostedFetchMaxUses request)" for request
  by unfold_locales (auto simp: inferenceStep_def inferenceAllow_def Let_def split: if_splits)

lemma decision_search_bounded:
  assumes "rr_HostedSearchMaxUses request = Some m"
  shows "length (ut_searchIDs (fold (decisionStep request) ms newHostedUseTracker)) \<le> nat m"
  by (rule agent_search.fold_bounded)
     (use assms in \<open>auto simp: useRoom_def newHostedUseTracker_def\<close>)

lemma decision_fetch_bounded:
  assumes "rr_HostedFetchMaxUses request = Some m"
  shows "length (ut_fetchIDs (fold (decisionStep request) ms newHostedUseTracker)) \<le> nat m"
  by (rule agent_fetch.fold_bounded)
     (use assms in \<open>auto simp: useRoom_def newHostedUseTracker_def\<close>)

text \<open>The ids of the tracker are exactly the granted ones, so a repeated query is granted again.\<close>

definition granted :: "RunRequest \<Rightarrow> decodedWireMessage \<Rightarrow> hostedUseTracker \<Rightarrow> bool" where
  "granted request m t = fst (fst (hostedInteractionDecision request m t))"

lemma granted_recorded:
  assumes "granted request m t"
  shows "if hostedInteractionIsSearch (dm_InteractionKind m)
         then rr_AllowHostedSearch request \<and> hostedUseID m \<in> set (ut_searchIDs (decisionStep request m t))
         else hostedInteractionIsFetch (dm_InteractionKind m) \<and> rr_AllowHostedFetch request
              \<and> hostedUseID m \<in> set (ut_fetchIDs (decisionStep request m t))"
  using assms
  by (auto simp: granted_def decision_defs split: bool.splits if_splits)

lemma decisionStep_ids:
  "set (ut_searchIDs t) \<subseteq> set (ut_searchIDs (decisionStep request m t))"
  "set (ut_fetchIDs t) \<subseteq> set (ut_fetchIDs (decisionStep request m t))"
  by (auto simp: decision_defs split: bool.splits if_splits)

lemma decisionSteps_ids:
  "set (ut_searchIDs t) \<subseteq> set (ut_searchIDs (fold (decisionStep request) ms t))"
  "set (ut_fetchIDs t) \<subseteq> set (ut_fetchIDs (fold (decisionStep request) ms t))"
  by (induction ms arbitrary: t) (use decisionStep_ids in \<open>fastforce+\<close>)

lemma granted_again:
  assumes "granted request m t"
  shows "granted request m (fold (decisionStep request) ms (decisionStep request m t))"
proof -
  let ?t = "fold (decisionStep request) ms (decisionStep request m t)"
  have "if hostedInteractionIsSearch (dm_InteractionKind m)
      then rr_AllowHostedSearch request \<and> hostedUseID m \<in> set (ut_searchIDs ?t)
      else hostedInteractionIsFetch (dm_InteractionKind m) \<and> rr_AllowHostedFetch request
           \<and> hostedUseID m \<in> set (ut_fetchIDs ?t)"
    using granted_recorded [OF assms] decisionSteps_ids [of "decisionStep request m t" request ms]
    by (auto split: if_splits)
  then show ?thesis
    by (auto simp: granted_def decision_defs split: if_splits)
qed

section \<open>Open hosted searches\<close>

text \<open>
  \<open>applyHostedSearchMessage\<close>: the table \<open>open\<close> maps a call id to what is known of the search.
  The result is an error, or the new table and the events the handler emitted.
\<close>

type_synonym openTable = "(string \<times> HostedSearch) list"

definition hostedEvent :: "EventType \<Rightarrow> HostedSearch \<Rightarrow> Event" where
  "hostedEvent t search = (newEvent t)\<lparr>ev_HostedSearch := Some search\<rparr>"

definition applyHostedSearchMessage ::
  "RunRequest \<Rightarrow> decodedWireMessage \<Rightarrow> openTable \<Rightarrow> (openTable \<times> Event list) res" where
  "applyHostedSearchMessage request m tbl = (case dm_HostedSearch m of
     None \<Rightarrow> Inl (Errorf ''Cursor Agent v1 hosted search frame is missing its payload'' [])
   | Some payload \<Rightarrow>
       let searchKind = hostedKindIsSearch (Some payload); fetchKind = hostedKindIsFetch (Some payload) in
       if \<not> searchKind \<and> \<not> fetchKind
       then Inl (Errorf ''Cursor Agent v1 hosted web tool kind is unsupported'' [])
       else if searchKind \<and> \<not> rr_AllowHostedSearch request
       then Inl (Errorf ''Cursor Agent v1 hosted search is not enabled for this request'' [])
       else if fetchKind \<and> \<not> rr_AllowHostedFetch request
       then Inl (Errorf ''Cursor Agent v1 hosted fetch is not enabled for this request'' [])
       else
         let id0 = trimSpace (hs_CallID payload);
             i = (if id0 = [] then trimSpace (dm_CallID m) else id0);
             search0 = (if id0 = [] then payload\<lparr>hs_CallID := i\<rparr> else payload) in
         if i = [] then Inl (Errorf ''Cursor Agent v1 hosted search is missing call_id'' [])
         else
           let previous = map_of tbl i;
               previouslyReady = hostedSearchArgsReady previous;
               search = (case previous of None \<Rightarrow> search0 | Some p \<Rightarrow> mergeHostedSearch p (Some search0)) in
           if dm_Type m = wireToolCallCompleted
           then Inr (AList.delete i tbl, [hostedEvent EventHostedSearchCompleted search])
           else
             let tbl' = AList.update i search tbl in
             if \<not> hostedSearchArgsReady (Some search) then Inr (tbl', [])
             else if previouslyReady then Inr (tbl', [])
             else Inr (tbl', [hostedEvent EventHostedSearchStarted search]))"

text \<open>\<open>unfinished i es\<close>: the last thing \<open>es\<close> says of the search \<open>i\<close> is that it started.\<close>

definition hostedID :: "Event \<Rightarrow> string" where
  "hostedID e = (case ev_HostedSearch e of None \<Rightarrow> [] | Some h \<Rightarrow> trimSpace (hs_CallID h))"

definition unfinishedStep :: "string \<Rightarrow> bool \<Rightarrow> Event \<Rightarrow> bool" where
  "unfinishedStep i b e =
     (if hostedID e = i \<and> ev_Type e = EventHostedSearchStarted then True
      else if hostedID e = i \<and> ev_Type e = EventHostedSearchCompleted then False
      else b)"

definition unfinished :: "string \<Rightarrow> Event list \<Rightarrow> bool" where
  "unfinished i es = foldl (unfinishedStep i) False es"

definition keysTrimmed :: "openTable \<Rightarrow> bool" where
  "keysTrimmed tbl = (wf_map tbl \<and> (\<forall>(i, h) \<in> set tbl. trimSpace (hs_CallID h) = i))"

text \<open>Every search whose start was announced and whose end was not is in the table.\<close>

definition openOk :: "openTable \<Rightarrow> Event list \<Rightarrow> bool" where
  "openOk tbl es = (keysTrimmed tbl \<and> (\<forall>i. unfinished i es \<longrightarrow> map_of tbl i \<noteq> None))"

lemma hostedEvent_simps [simp]:
  "ev_Type (hostedEvent t h) = t" "hostedID (hostedEvent t h) = trimSpace (hs_CallID h)"
  "ev_HostedSearch (hostedEvent t h) = Some h"
  by (simp_all add: hostedEvent_def newEvent_def hostedID_def)

lemma unfinished_append: "unfinished i (es @ fs) = foldl (unfinishedStep i) (unfinished i es) fs"
  by (simp add: unfinished_def)

lemma keysTrimmed_update:
  "keysTrimmed tbl \<Longrightarrow> trimSpace (hs_CallID h) = i \<Longrightarrow> keysTrimmed (AList.update i h tbl)"
  using set_update_subset [of i h tbl] by (auto simp: keysTrimmed_def)

lemma keysTrimmed_delete: "keysTrimmed tbl \<Longrightarrow> keysTrimmed (AList.delete i tbl)"
  using set_delete_subset [of i tbl] by (auto simp: keysTrimmed_def)

lemma keysTrimmed_lookup: "keysTrimmed tbl \<Longrightarrow> map_of tbl i = Some h \<Longrightarrow> trimSpace (hs_CallID h) = i"
  by (auto simp: keysTrimmed_def dest!: map_of_SomeD)

text \<open>The two ways in which the handler succeeds.\<close>

lemma applyHosted_Inr:
  assumes "applyHostedSearchMessage request m tbl = Inr (tbl', es)" and "keysTrimmed tbl"
  obtains (completed) i h where "tbl' = AList.delete i tbl" "trimSpace (hs_CallID h) = i" "i \<noteq> []"
      "es = [hostedEvent EventHostedSearchCompleted h]" "dm_Type m = wireToolCallCompleted"
  | (updated) i h where "tbl' = AList.update i h tbl" "trimSpace (hs_CallID h) = i" "i \<noteq> []"
      "es = [] \<or> es = [hostedEvent EventHostedSearchStarted h]
          \<and> hostedSearchArgsReady (Some h) \<and> \<not> hostedSearchArgsReady (map_of tbl i)"
      "dm_Type m \<noteq> wireToolCallCompleted"
proof -
  obtain payload where p: "dm_HostedSearch m = Some payload"
    using assms(1) by (auto simp: applyHostedSearchMessage_def split: option.splits)
  define i where "i = (if trimSpace (hs_CallID payload) = [] then trimSpace (dm_CallID m)
    else trimSpace (hs_CallID payload))"
  define s0 where "s0 = (if trimSpace (hs_CallID payload) = [] then payload\<lparr>hs_CallID := i\<rparr> else payload)"
  define h where "h = (case map_of tbl i of None \<Rightarrow> s0 | Some q \<Rightarrow> mergeHostedSearch q (Some s0))"
  have "trimSpace (hs_CallID s0) = i" by (simp add: s0_def i_def)
  then have h: "trimSpace (hs_CallID h) = i"
    using keysTrimmed_lookup [OF assms(2)] by (auto simp: h_def split: option.split)
  have "i \<noteq> [] \<and>
    (if dm_Type m = wireToolCallCompleted
     then tbl' = AList.delete i tbl \<and> es = [hostedEvent EventHostedSearchCompleted h]
     else tbl' = AList.update i h tbl \<and> (es = [] \<or> es = [hostedEvent EventHostedSearchStarted h]
          \<and> hostedSearchArgsReady (Some h) \<and> \<not> hostedSearchArgsReady (map_of tbl i)))"
    using assms(1) unfolding applyHostedSearchMessage_def p option.case Let_def
      i_def [symmetric] s0_def [symmetric] h_def [symmetric]
    by (simp split: if_split_asm)
  with h that show ?thesis by (cases "dm_Type m = wireToolCallCompleted") auto
qed

lemma applyHosted_openOk:
  assumes "applyHostedSearchMessage request m tbl = Inr (tbl', new)" and "openOk tbl es"
  shows "openOk tbl' (es @ new)"
proof -
  have k: "keysTrimmed tbl" and u: "\<And>i. unfinished i es \<Longrightarrow> map_of tbl i \<noteq> None"
    using assms(2) by (auto simp: openOk_def)
  show ?thesis
  proof (rule applyHosted_Inr [OF assms(1) k])
    fix i h
    assume a: "tbl' = AList.delete i tbl" "trimSpace (hs_CallID h) = i"
      "new = [hostedEvent EventHostedSearchCompleted h]"
    show ?thesis
      using a u keysTrimmed_delete [OF k]
      by (auto simp: openOk_def unfinished_append unfinishedStep_def)
  next
    fix i h
    assume a: "tbl' = AList.update i h tbl" "trimSpace (hs_CallID h) = i"
      "new = [] \<or> new = [hostedEvent EventHostedSearchStarted h] \<and> hostedSearchArgsReady (Some h)
        \<and> \<not> hostedSearchArgsReady (map_of tbl i)"
    have "unfinished j (es @ new) \<longrightarrow> map_of tbl' j \<noteq> None" for j
      using a u [of j] by (auto simp: unfinished_append unfinishedStep_def)
    then show ?thesis
      using a(1) keysTrimmed_update [OF k a(2)] by (simp add: openOk_def)
  qed
qed

text \<open>Events other than the two hosted ones leave the table's invariant alone.\<close>

definition notHosted :: "Event \<Rightarrow> bool" where
  "notHosted e = (ev_Type e \<notin> {EventHostedSearchStarted, EventHostedSearchCompleted})"

lemma openOk_other: "openOk tbl es \<Longrightarrow> \<forall>e \<in> set new. notHosted e \<Longrightarrow> openOk tbl (es @ new)"
proof (induction new arbitrary: es)
  case (Cons e new)
  have "unfinished i (es @ [e]) = unfinished i es" for i
    using Cons.prems(2) by (auto simp: unfinished_append unfinishedStep_def notHosted_def)
  then have "openOk tbl (es @ [e])" using Cons.prems(1) by (simp add: openOk_def)
  from Cons.IH [OF this] Cons.prems(2) show ?case by simp
qed simp

lemma openOk_init: "openOk [] []"
  by (simp add: openOk_def keysTrimmed_def unfinished_def)

section \<open>Announced caller tools\<close>

text \<open>
  \<open>recordStreamMCP\<close> keeps the announcements of catalogued caller tools that no exec request has
  matched yet.  It also completes the message's tool-call id.
\<close>

type_synonym messageTable = "(string \<times> decodedWireMessage) list"

definition recordStreamMCP ::
  "ToolDefinition list \<Rightarrow> decodedWireMessage \<Rightarrow> messageTable \<Rightarrow> messageTable \<Rightarrow> messageTable" where
  "recordStreamMCP tools m pending streamed =
     (let name = trimSpace (dm_ToolName m);
          id0 = trimSpace (dm_ToolCallID m);
          i = (if id0 = [] then trimSpace (dm_CallID m) else id0);
          m' = (if id0 = [] then m\<lparr>dm_ToolCallID := i\<rparr> else m) in
      if name = [] \<or> i = [] then streamed
      else if \<not> catalogHasTool tools name then streamed
      else if map_of pending i \<noteq> None then streamed
      else AList.update i m' streamed)"

fun unmatchedStreamMCPName :: "messageTable \<Rightarrow> string" where
  "unmatchedStreamMCPName [] = ''unknown''"
| "unmatchedStreamMCPName ((i, m) # streamed) =
     (if trimSpace (dm_ToolName m) \<noteq> [] then trimSpace (dm_ToolName m)
      else unmatchedStreamMCPName streamed)"

section \<open>Properties\<close>

text \<open>The queries of a run with the verdict on each, and those of some kinds that are approved.\<close>

primrec verdicts :: "RunRequest \<Rightarrow> hostedUseTracker \<Rightarrow> decodedWireMessage list \<Rightarrow> (decodedWireMessage \<times> bool) list" where
  "verdicts request t [] = []"
| "verdicts request t (m # ms) = (case hostedInteractionDecision request m t of
     ((allowed, reason), t') \<Rightarrow> (m, allowed) # verdicts request t' ms)"

definition approved :: "RunRequest \<Rightarrow> int set \<Rightarrow> decodedWireMessage list \<Rightarrow> decodedWireMessage set" where
  "approved request kinds ms = {m. (m, True) \<in> set (verdicts request newHostedUseTracker ms) \<and> dm_InteractionKind m \<in> kinds}"

abbreviation searchKinds :: "int set" where "searchKinds \<equiv> {2, 5}"
abbreviation fetchKinds :: "int set" where "fetchKinds \<equiv> {6, 9}"

definition namedCalls :: "decodedWireMessage set \<Rightarrow> string set" where
  "namedCalls queries = {trimSpace (dm_ToolCallID m) | m. m \<in> queries \<and> trimSpace (dm_ToolCallID m) \<noteq> []}"

definition sameUse :: "decodedWireMessage \<Rightarrow> decodedWireMessage \<Rightarrow> bool" where
  "sameUse m m' = (hostedUseID m = hostedUseID m'
     \<and> ({dm_InteractionKind m, dm_InteractionKind m'} \<subseteq> searchKinds \<or> {dm_InteractionKind m, dm_InteractionKind m'} \<subseteq> fetchKinds))"

definition usedUp :: "RunRequest \<Rightarrow> int set \<Rightarrow> decodedWireMessage list \<Rightarrow> nat" where
  "usedUp request kinds ms = card (hostedUseID ` approved request kinds ms)"

lemma verdicts_append: "verdicts request t (ms @ ms') = verdicts request t ms @ verdicts request (fold (decisionStep request) ms t) ms'"
  by (induction ms arbitrary: t) (simp_all add: decisionStep_def split: prod.split)

lemma verdicts_Cons: "verdicts request t (m # ms) = (m, granted request m t) # verdicts request (decisionStep request m t) ms"
  by (simp add: granted_def decisionStep_def split: prod.split)

lemma verdicts_nth:
  "i < length ms \<Longrightarrow> verdicts request t ms ! i = (ms ! i, granted request (ms ! i) (fold (decisionStep request) (take i ms) t))"
proof (induction ms arbitrary: t i)
  case (Cons m ms)
  then show ?case by (cases i) (simp_all add: verdicts_Cons del: verdicts.simps(2))
qed simp

lemma verdicts_length [simp]: "length (verdicts request t ms) = length ms"
  by (induction ms arbitrary: t) (simp_all split: prod.split)

lemma approved_snoc: "approved request kinds (ms @ [m]) = approved request kinds ms
    \<union> (if granted request m (fold (decisionStep request) ms newHostedUseTracker) \<and> dm_InteractionKind m \<in> kinds then {m} else {})"
  by (auto simp: approved_def verdicts_append verdicts_Cons simp del: verdicts.simps(2))

lemma approved_finite: "finite (approved request kinds ms)"
  by (rule finite_subset [of _ "fst ` set (verdicts request newHostedUseTracker ms)"]) (force simp: approved_def)+

lemma decision_records:
  "set (ut_searchIDs (decisionStep request m t)) = set (ut_searchIDs t)
     \<union> (if granted request m t \<and> dm_InteractionKind m \<in> searchKinds then {hostedUseID m} else {})"
  "set (ut_fetchIDs (decisionStep request m t)) = set (ut_fetchIDs t)
     \<union> (if granted request m t \<and> dm_InteractionKind m \<in> fetchKinds then {hostedUseID m} else {})"
  "distinct (ut_searchIDs t) \<Longrightarrow> distinct (ut_searchIDs (decisionStep request m t))"
  "distinct (ut_fetchIDs t) \<Longrightarrow> distinct (ut_fetchIDs (decisionStep request m t))"
  by (auto simp: granted_def decision_defs split: bool.splits if_splits)

text \<open>The ids in the tracker are those of the approved queries, each once.\<close>

lemma tracker_approved:
  defines "tracked \<equiv> \<lambda>request ms. fold (decisionStep request) ms newHostedUseTracker"
  shows "set (ut_searchIDs (tracked request ms)) = hostedUseID ` approved request searchKinds ms"
    "set (ut_fetchIDs (tracked request ms)) = hostedUseID ` approved request fetchKinds ms"
    "distinct (ut_searchIDs (tracked request ms))" "distinct (ut_fetchIDs (tracked request ms))"
  unfolding tracked_def
  by (induction ms rule: rev_induct)
    (auto simp: approved_snoc decision_records newHostedUseTracker_def, auto simp: approved_def)

lemma tracked_size:
  "length (ut_searchIDs (fold (decisionStep request) ms newHostedUseTracker)) = card (hostedUseID ` approved request searchKinds ms)"
  "length (ut_fetchIDs (fold (decisionStep request) ms newHostedUseTracker)) = card (hostedUseID ` approved request fetchKinds ms)"
  using tracker_approved [of request ms] by (simp_all flip: distinct_card)

lemma namedCalls_card: "card (namedCalls (approved request kinds ms)) \<le> card (hostedUseID ` approved request kinds ms)"
  by (rule card_mono) (auto simp: approved_finite namedCalls_def hostedUseID_def image_iff intro!: bexI)

lemma granted_kinds: "granted request m t \<longleftrightarrow>
    dm_InteractionKind m \<in> searchKinds \<and> rr_AllowHostedSearch request
      \<and> (hostedUseID m \<in> set (ut_searchIDs t) \<or> useRoom (rr_HostedSearchMaxUses request) (length (ut_searchIDs t)))
    \<or> dm_InteractionKind m \<in> fetchKinds \<and> rr_AllowHostedFetch request
      \<and> (hostedUseID m \<in> set (ut_fetchIDs t) \<or> useRoom (rr_HostedFetchMaxUses request) (length (ut_fetchIDs t)))"
  by (auto simp: granted_def decision_defs split: bool.splits if_splits)

lemma fold_take_later:
  assumes "j < length ms" and "i < j"
  shows "fold f (take j ms) t = fold f (drop (Suc i) (take j ms)) (f (ms ! i) (fold f (take i ms) t))"
proof -
  have "take j ms = take i (take j ms) @ take j ms ! i # drop (Suc i) (take j ms)"
    using assms by (intro id_take_nth_drop) simp
  also have "\<dots> = take i ms @ ms ! i # drop (Suc i) (take j ms)"
    using assms by (simp add: min_def)
  finally have e: "take j ms = take i ms @ ms ! i # drop (Suc i) (take j ms)" .
  show ?thesis by (subst e) simp
qed

lemma granted_later:
  assumes "granted request m t" and "sameUse m m'"
  shows "granted request m' (fold (decisionStep request) ms (decisionStep request m t))"
proof -
  let ?u = "decisionStep request m t"
  let ?v = "fold (decisionStep request) ms ?u"
  have i: "hostedUseID m' = hostedUseID m" using assms(2) by (simp add: sameUse_def)
  have k: "{dm_InteractionKind m, dm_InteractionKind m'} \<subseteq> searchKinds
      \<or> {dm_InteractionKind m, dm_InteractionKind m'} \<subseteq> fetchKinds"
    using assms(2) by (simp add: sameUse_def)
  from k show ?thesis
  proof
    assume s: "{dm_InteractionKind m, dm_InteractionKind m'} \<subseteq> searchKinds"
    then have "rr_AllowHostedSearch request" "hostedUseID m \<in> set (ut_searchIDs ?u)"
      using granted_recorded [OF assms(1)] by (auto simp: hostedInteractionIsSearch_def)
    then show ?thesis
      using decisionSteps_ids(1) [of ?u request ms] s i by (auto simp: granted_kinds)
  next
    assume s: "{dm_InteractionKind m, dm_InteractionKind m'} \<subseteq> fetchKinds"
    then have "rr_AllowHostedFetch request" "hostedUseID m \<in> set (ut_fetchIDs ?u)"
      using granted_recorded [OF assms(1)] by (auto simp: hostedInteractionIsSearch_def)
    then show ?thesis
      using decisionSteps_ids(2) [of ?u request ms] s i by (auto simp: granted_kinds)
  qed
qed

text \<open>
  C27: Hosted-web approvals stay within the client's budget, are stable and are not refused without a reason.  Over any
  sequence of interaction queries only queries of the four hosted kinds that the request allows are approved; the
  approved searches, and the approved fetches, are for at most as many tool calls, and at most as many uses in all
  (queries without a call identifier count too), as the declared maximum; once a use was approved every later
  query for the same use is approved, however many others came in between; and a query of an allowed kind is refused
  only when the maximum of other uses has been approved before it.
\<close>

theorem hosted_budget:
  "(\<forall>m \<in> approved request UNIV ms. dm_InteractionKind m \<in> searchKinds \<and> rr_AllowHostedSearch request
      \<or> dm_InteractionKind m \<in> fetchKinds \<and> rr_AllowHostedFetch request)
    \<and> (\<forall>n. rr_HostedSearchMaxUses request = Some n \<longrightarrow> usedUp request searchKinds ms \<le> nat n
         \<and> card (namedCalls (approved request searchKinds ms)) \<le> nat n)
    \<and> (\<forall>n. rr_HostedFetchMaxUses request = Some n \<longrightarrow> usedUp request fetchKinds ms \<le> nat n
         \<and> card (namedCalls (approved request fetchKinds ms)) \<le> nat n)
    \<and> (\<forall>j < length ms. \<forall>i < j. sameUse (ms ! i) (ms ! j) \<longrightarrow> snd (verdicts request newHostedUseTracker ms ! i)
         \<longrightarrow> snd (verdicts request newHostedUseTracker ms ! j))
    \<and> (\<forall>j < length ms. \<not> snd (verdicts request newHostedUseTracker ms ! j) \<longrightarrow>
         (dm_InteractionKind (ms ! j) \<in> searchKinds \<and> rr_AllowHostedSearch request \<longrightarrow>
            (\<exists>n. rr_HostedSearchMaxUses request = Some n \<and> nat n \<le> usedUp request searchKinds (take j ms)))
       \<and> (dm_InteractionKind (ms ! j) \<in> fetchKinds \<and> rr_AllowHostedFetch request \<longrightarrow>
            (\<exists>n. rr_HostedFetchMaxUses request = Some n \<and> nat n \<le> usedUp request fetchKinds (take j ms))))"
proof -
  let ?t = "\<lambda>j. fold (decisionStep request) (take j ms) newHostedUseTracker"
  have decided: "snd (verdicts request newHostedUseTracker ms ! j) = granted request (ms ! j) (?t j)" if "j < length ms" for j
    using that by (simp add: verdicts_nth)
  have 1: "\<forall>m \<in> approved request UNIV ms. dm_InteractionKind m \<in> searchKinds \<and> rr_AllowHostedSearch request
      \<or> dm_InteractionKind m \<in> fetchKinds \<and> rr_AllowHostedFetch request"
    by (auto simp: approved_def in_set_conv_nth verdicts_nth granted_kinds)
  have 2: "usedUp request searchKinds ms \<le> nat n \<and> card (namedCalls (approved request searchKinds ms)) \<le> nat n"
    if "rr_HostedSearchMaxUses request = Some n" for n
    using decision_search_bounded [OF that, of ms] namedCalls_card [of request searchKinds ms] by (simp add: usedUp_def tracked_size)
  have 3: "usedUp request fetchKinds ms \<le> nat n \<and> card (namedCalls (approved request fetchKinds ms)) \<le> nat n"
    if "rr_HostedFetchMaxUses request = Some n" for n
    using decision_fetch_bounded [OF that, of ms] namedCalls_card [of request fetchKinds ms] by (simp add: usedUp_def tracked_size)
  have 4: "granted request (ms ! j) (?t j)"
    if "j < length ms" "i < j" and same: "sameUse (ms ! i) (ms ! j)" and g: "granted request (ms ! i) (?t i)" for i j
  proof -
    from that(1,2) have "?t j = fold (decisionStep request) (drop (Suc i) (take j ms)) (decisionStep request (ms ! i) (?t i))"
      by (rule fold_take_later)
    with granted_later [OF g same] show ?thesis by simp
  qed
  have 5: "(dm_InteractionKind (ms ! j) \<in> searchKinds \<and> rr_AllowHostedSearch request \<longrightarrow>
            (\<exists>n. rr_HostedSearchMaxUses request = Some n \<and> nat n \<le> usedUp request searchKinds (take j ms)))
       \<and> (dm_InteractionKind (ms ! j) \<in> fetchKinds \<and> rr_AllowHostedFetch request \<longrightarrow>
            (\<exists>n. rr_HostedFetchMaxUses request = Some n \<and> nat n \<le> usedUp request fetchKinds (take j ms)))"
    if "\<not> granted request (ms ! j) (?t j)" for j
    using that by (auto simp: granted_kinds usedUp_def useRoom_def tracked_size split: option.splits)
  show ?thesis
  proof (intro conjI)
    show "\<forall>j < length ms. \<forall>i < j. sameUse (ms ! i) (ms ! j) \<longrightarrow> snd (verdicts request newHostedUseTracker ms ! i)
         \<longrightarrow> snd (verdicts request newHostedUseTracker ms ! j)"
      using 4 decided by (meson order_less_trans)
  qed (use 1 2 3 5 decided in blast)+
qed

definition exampleSearchRequest :: RunRequest where
  "exampleSearchRequest = newRunRequest\<lparr>rr_AllowHostedSearch := True, rr_HostedSearchMaxUses := Some 1\<rparr>"

definition exampleQuery :: "32 word \<Rightarrow> decodedWireMessage" where
  "exampleQuery i = (newMessage wireInteractionQuery)\<lparr>dm_ID := i, dm_InteractionKind := 2\<rparr>"

lemma hosted_budget_witness:
  "map snd (verdicts exampleSearchRequest newHostedUseTracker [exampleQuery 1, exampleQuery 2, exampleQuery 1]) = [True, False, True]
    \<and> card (hostedUseID ` approved exampleSearchRequest searchKinds [exampleQuery 1, exampleQuery 2, exampleQuery 1]) \<le> 1"
proof -
  let ?ms = "[exampleQuery 1, exampleQuery 2, exampleQuery 1]"
  have "map snd (verdicts exampleSearchRequest newHostedUseTracker ?ms) = [True, False, True]" by code_simp
  moreover have "rr_HostedSearchMaxUses exampleSearchRequest = Some 1" by (simp add: exampleSearchRequest_def)
  ultimately show ?thesis
    using hosted_budget [of exampleSearchRequest ?ms, THEN conjunct2, THEN conjunct1, rule_format, of 1]
    by (simp only: usedUp_def nat_one_as_int [symmetric] simp_thms nat_1 One_nat_def)
qed

text \<open>
  Bookkeeping of hosted searches: a search is in the open table whenever its start was announced and
  its completion was not, whatever the order of started, delta and completed messages; a completion
  announces exactly one completed event and closes the entry, and a start is announced at most once per
  message and only when the arguments have just become ready.
\<close>

theorem hosted_searches_tracked:
  assumes "applyHostedSearchMessage request m tbl = Inr (tbl', new)" and "openOk tbl es"
  shows "openOk tbl' (es @ new)
    \<and> (if dm_Type m = wireToolCallCompleted
       then \<exists>h. new = [hostedEvent EventHostedSearchCompleted h] \<and> map_of tbl' (trimSpace (hs_CallID h)) = None
       else new = [] \<or> (\<exists>h. new = [hostedEvent EventHostedSearchStarted h] \<and> hostedSearchArgsReady (Some h)
              \<and> \<not> hostedSearchArgsReady (map_of tbl (trimSpace (hs_CallID h)))))"
proof -
  have k: "keysTrimmed tbl" using assms(2) by (simp add: openOk_def)
  show ?thesis
    by (rule applyHosted_Inr [OF assms(1) k]) (use applyHosted_openOk [OF assms] in auto)
qed

definition exampleSearch :: HostedSearch where
  "exampleSearch = \<lparr>hs_CallID = ''c1'', hs_Kind = HostedSearchKindWebSearch, hs_Query = ''isabelle'', hs_URL = [],
     hs_ArgsJSON = ''{}'', hs_References = [], hs_Content = [], hs_Error = []\<rparr>"

lemma hosted_searches_tracked_witness:
  "openOk [] [hostedEvent EventHostedSearchStarted exampleSearch, hostedEvent EventHostedSearchCompleted exampleSearch]"
proof -
  define m where "m = (newMessage wireToolCallCompleted)\<lparr>dm_HostedSearch := Some exampleSearch\<rparr>"
  define tbl where "tbl = [(''c1'', exampleSearch)]"
  have "applyHostedSearchMessage exampleSearchRequest m tbl = Inr ([], [hostedEvent EventHostedSearchCompleted exampleSearch])"
    unfolding m_def tbl_def by code_simp
  moreover have "trimSpace ''c1'' = ''c1''" by code_simp
  then have "openOk tbl [hostedEvent EventHostedSearchStarted exampleSearch]"
    unfolding tbl_def
    by (auto simp: openOk_def keysTrimmed_def wf_map_def exampleSearch_def unfinished_def unfinishedStep_def)
  ultimately have "openOk [] ([hostedEvent EventHostedSearchStarted exampleSearch] @ [hostedEvent EventHostedSearchCompleted exampleSearch])"
    using hosted_searches_tracked by blast
  then show ?thesis by simp
qed

end
