(* ===== verification/Blobs.thy ===== *)
theory Blobs
  imports Events
begin

text \<open>
  The content-addressed blob store a run keeps for the upstream service (\<open>runner.go\<close>):
  \<open>hexKey\<close>, \<open>storeBlob\<close> with its running total, and \<open>validateBlobStore\<close>, which recomputes
  the total of a store that comes from the state directory.  A Go map of blobs is an association
  list with distinct keys, and the range loop of \<open>validateBlobStore\<close> visits it in list order.
\<close>

definition maxBlobSize :: nat where "maxBlobSize = 16 * 2 ^ 20"
definition maxBlobStoreSize :: nat where "maxBlobStoreSize = 32 * 2 ^ 20"

section \<open>Keys\<close>

definition hexDigits :: string where "hexDigits = ''0123456789abcdef''"

definition hexKey :: "bytes \<Rightarrow> string" where
  "hexKey value = concat (map (\<lambda>b. [hexDigits ! unat (drop_bit 4 b), hexDigits ! unat (b AND 0x0f)]) value)"

lemma nibbles_lt: "unat (drop_bit 4 (b :: 8 word)) < 16" "unat (b AND 0x0f :: 8 word) < 16"
proof -
  have "unat (drop_bit 4 b) = unat b div 16"
    by (simp only: unat_drop_bit_eq) (simp add: drop_bit_eq_div)
  then show "unat (drop_bit 4 b) < 16"
    using unsigned_less [of b, where ?'a = nat] by simp
  have low: "b AND 0x0f = take_bit 4 b"
    by (simp add: take_bit_eq_mask mask_eq_exp_minus_1)
  have "unat (b AND 0x0f) = unat b mod 16"
    unfolding low unsigned_take_bit_eq by (simp add: take_bit_eq_mod)
  then show "unat (b AND 0x0f) < 16" by simp
qed

lemma nibbles_eq:
  assumes "drop_bit 4 a = drop_bit 4 b" and "a AND 0x0f = b AND (0x0f :: 8 word)"
  shows "a = b"
proof (rule bit_word_eqI)
  fix n assume "n < LENGTH(8)"
  have hi: "bit a (4 + k) = bit b (4 + k)" for k
    using assms(1) by (metis bit_drop_bit_eq comp_apply)
  have m: "x AND 0x0f = take_bit 4 x" for x :: "8 word"
    by (simp add: take_bit_eq_mask mask_eq_exp_minus_1)
  have lo: "bit a k = bit b k" if "k < 4" for k
    using assms(2) that unfolding m by (metis bit_take_bit_iff)
  show "bit a n = bit b n"
    using hi [of "n - 4"] lo [of n] by (cases "n < 4") simp_all
qed

lemma hexDigits_inj: "i < 16 \<Longrightarrow> j < 16 \<Longrightarrow> hexDigits ! i = hexDigits ! j \<Longrightarrow> i = j"
  by (rule nth_eq_iff_index_eq [THEN iffD1, of hexDigits]) (simp_all add: hexDigits_def)

lemma length_hexKey: "length (hexKey v) = 2 * length v"
  by (induction v) (simp_all add: hexKey_def)

lemma hexKey_inject: "hexKey u = hexKey v \<longleftrightarrow> u = v"
proof (induction u arbitrary: v)
  case Nil
  then show ?case using length_hexKey [of v] by (cases v) (auto simp: hexKey_def)
next
  case (Cons a u)
  show ?case
  proof (cases v)
    case Nil
    then show ?thesis by (simp add: hexKey_def)
  next
    case (Cons b v')
    have "a = b" if "hexDigits ! unat (drop_bit 4 a) = hexDigits ! unat (drop_bit 4 b)"
      "hexDigits ! unat (a AND 0x0f) = hexDigits ! unat (b AND 0x0f)"
      using nibbles_eq hexDigits_inj nibbles_lt that by (metis word_unat_eq_iff)
    with Cons Cons.IH [of v'] show ?thesis by (auto simp: hexKey_def)
  qed
qed

section \<open>The store\<close>

definition blobOf :: "blobs \<Rightarrow> string \<Rightarrow> bytes" where
  "blobOf store key = (case map_of store key of None \<Rightarrow> [] | Some v \<Rightarrow> v)"

definition blobTotal :: "blobs \<Rightarrow> nat" where
  "blobTotal store = sum_list (map (\<lambda>(k, v). length v) store)"

text \<open>
  \<open>storeBlob\<close> returns the store and the total it leaves behind; on an error both are unchanged.
\<close>

definition storeBlob ::
  "blobs \<Rightarrow> nat \<Rightarrow> string \<Rightarrow> bytes \<Rightarrow> nat \<Rightarrow> nat \<Rightarrow> (blobs \<times> nat) res" where
  "storeBlob store tot key value maxSingle maxTotal =
     (if key = [] then Inl (Errorf ''Cursor Agent v1 KV blob id is empty'' [])
      else if length value > maxSingle
      then Inl (Errorf ''Cursor Agent v1 KV blob exceeds %d bytes'' [N (int maxSingle)])
      else let previous = int (length (blobOf store key));
               nextTotal = int tot - previous + int (length value) in
        if nextTotal > int maxTotal
        then Inl (Errorf ''Cursor Agent v1 KV blob store exceeds %d bytes'' [N (int maxTotal)])
        else Inr (AList.update key value store, nat nextTotal))"

fun validateBlobsLoop :: "blobs \<Rightarrow> nat \<Rightarrow> nat \<Rightarrow> nat \<Rightarrow> nat res" where
  "validateBlobsLoop [] maxSingle maxTotal tot = Inr tot"
| "validateBlobsLoop ((k, value) # store) maxSingle maxTotal tot =
     (if length value > maxSingle
      then Inl (Errorf ''Cursor Agent v1 KV blob exceeds %d bytes'' [N (int maxSingle)])
      else if tot + length value > maxTotal
      then Inl (Errorf ''Cursor Agent v1 KV blob store exceeds %d bytes'' [N (int maxTotal)])
      else validateBlobsLoop store maxSingle maxTotal (tot + length value))"

definition validateBlobStore :: "blobs \<Rightarrow> nat \<Rightarrow> nat \<Rightarrow> nat res" where
  "validateBlobStore store maxSingle maxTotal = validateBlobsLoop store maxSingle maxTotal 0"

section \<open>Its invariant\<close>

text \<open>
  The total is the number of stored bytes, and both limits hold: what \<open>validateBlobStore\<close>
  establishes for the store of a snapshot and \<open>storeBlob\<close> keeps.
\<close>

definition blobsOk :: "nat \<Rightarrow> nat \<Rightarrow> blobs \<Rightarrow> nat \<Rightarrow> bool" where
  "blobsOk maxSingle maxTotal store tot =
     (wf_map store \<and> tot = blobTotal store \<and> tot \<le> maxTotal
      \<and> (\<forall>(k, v) \<in> set store. length v \<le> maxSingle))"

lemma blobTotal_Cons [simp]: "blobTotal (x # store) = length (snd x) + blobTotal store"
  by (cases x) (simp add: blobTotal_def)

lemma blobTotal_Nil [simp]: "blobTotal [] = 0"
  by (simp add: blobTotal_def)

lemma blobTotal_update:
  "int (blobTotal (AList.update key v store))
     = int (blobTotal store) - int (length (blobOf store key)) + int (length v)"
  by (induction store) (auto simp: blobOf_def split: option.splits)

lemma length_blobOf_le: "length (blobOf store key) \<le> blobTotal store"
  by (induction store) (auto simp: blobOf_def split: option.splits)

lemma storeBlob_Inr:
  assumes "storeBlob store tot key value maxSingle maxTotal = Inr (store', tot')"
  shows "key \<noteq> []" "length value \<le> maxSingle" "store' = AList.update key value store"
    and "int tot - int (length (blobOf store key)) + int (length value) \<le> int maxTotal"
    and "tot' = nat (int tot - int (length (blobOf store key)) + int (length value))"
  using assms by (auto simp: storeBlob_def Let_def split: if_splits)

lemma storeBlob_ok:
  assumes "blobsOk maxSingle maxTotal store tot"
    and "storeBlob store tot key value maxSingle maxTotal = Inr (store', tot')"
  shows "blobsOk maxSingle maxTotal store' tot'
    \<and> map_of store' = (map_of store)(key \<mapsto> value)"
proof -
  note s = storeBlob_Inr [OF assms(2)]
  have t: "tot = blobTotal store" "wf_map store" "\<forall>(k, v) \<in> set store. length v \<le> maxSingle"
    using assms(1) by (auto simp: blobsOk_def)
  have "int tot' = int (blobTotal store')"
    using s(3,5) t(1) length_blobOf_le [of store key] by (simp add: blobTotal_update)
  moreover have "int tot' \<le> int maxTotal"
    using s(4,5) t(1) length_blobOf_le [of store key] by simp
  moreover have "\<forall>(k, v) \<in> set store'. length v \<le> maxSingle"
    using s(2,3) t(3) set_update_subset [of key _ store] by fastforce
  ultimately show ?thesis
    using s(3) t(2) by (simp add: blobsOk_def)
qed

lemma validateBlobsLoop_Inr:
  "validateBlobsLoop store ms mt tot = Inr n \<longleftrightarrow>
     n = tot + blobTotal store \<and> (store \<noteq> [] \<longrightarrow> n \<le> mt) \<and> (\<forall>(k, v) \<in> set store. length v \<le> ms)"
proof (induction store ms mt tot rule: validateBlobsLoop.induct)
  case (2 k v store ms mt tot)
  then show ?case by (cases store) auto
qed auto

text \<open>The verdict of \<open>validateBlobStore\<close> is the invariant, whatever order the map is visited in.\<close>

lemma validateBlobStore_iff:
  assumes "wf_map store"
  shows "validateBlobStore store ms mt = Inr n \<longleftrightarrow> blobsOk ms mt store n"
  using assms by (cases store) (auto simp: validateBlobStore_def blobsOk_def validateBlobsLoop_Inr)

lemma storeBlob_rejects:
  "storeBlob store tot key value ms mt = Inl e \<Longrightarrow>
     key = [] \<or> ms < length value \<or> int mt < int tot - int (length (blobOf store key)) + int (length value)"
  by (auto simp: storeBlob_def Let_def split: if_splits)

section \<open>Properties\<close>

text \<open>
  Storing a blob keeps the store valid: if a store was accepted with total \<open>n\<close> and a write is
  accepted, then exactly that key now holds the value, the store would be accepted again with exactly
  the updated counter as its total, no value exceeds the per-blob limit, and the total is within the
  limit; a write over an existing key accounts only for the difference.
\<close>

theorem blob_write_keeps_store_valid:
  assumes "wf_map store" and "validateBlobStore store ms mt = Inr n"
    and "storeBlob store n key v ms mt = Inr (store', n')"
  shows "validateBlobStore store' ms mt = Inr n' \<and> map_of store' = (map_of store)(key \<mapsto> v)
    \<and> n' = blobTotal store' \<and> n' \<le> mt \<and> length v \<le> ms
    \<and> int n' = int n - int (length (blobOf store key)) + int (length v)"
proof -
  have "blobsOk ms mt store n" using assms(2) validateBlobStore_iff [OF assms(1)] by simp
  from storeBlob_ok [OF this assms(3)]
  have ok: "blobsOk ms mt store' n'" "map_of store' = (map_of store)(key \<mapsto> v)" by simp_all
  note s = storeBlob_Inr [OF assms(3)]
  have "length (blobOf store key) \<le> n"
    using \<open>blobsOk ms mt store n\<close> length_blobOf_le [of store key] by (simp add: blobsOk_def)
  with s ok validateBlobStore_iff [of store' ms mt n'] show ?thesis
    by (auto simp: blobsOk_def)
qed

lemma blob_write_keeps_store_valid_witness:
  "validateBlobStore (AList.update ''k'' [1] [(''k'', [1, 2, 3])]) 4 10 = Inr 1"
proof -
  have v: "validateBlobStore [(''k'', [1, 2, 3])] 4 10 = Inr 3" by code_simp
  have w: "storeBlob [(''k'', [1, 2, 3])] 3 ''k'' [1] 4 10 = Inr (AList.update ''k'' [1] [(''k'', [1, 2, 3])], 1)"
    by code_simp
  from blob_write_keeps_store_valid [OF _ v w] show ?thesis by (simp add: wf_map_def)
qed

end
