(* ===== verification/Usage.thy ===== *)
theory Usage
  imports Events
begin

text \<open>
  \<open>usage_observation.go\<close>: decoding the two usage counters of the protocol, the arithmetic of a
  completed turn, and \<open>usageFacts\<close>, the accumulator from which the projections bill.
\<close>

section \<open>Decoding counters\<close>

definition observedOptionalInt64 :: "bool \<Rightarrow> int \<Rightarrow> ObservedCount" where
  "observedOptionalInt64 present value =
     (if \<not> present then noCount
      else if value < 0 then \<lparr>oc_Present = True, oc_Invalid = True, oc_Value = value\<rparr>
      else \<lparr>oc_Present = True, oc_Invalid = False, oc_Value = value\<rparr>)"

definition observedInt32Tokens :: "int \<Rightarrow> ObservedCount" where
  "observedInt32Tokens value =
     (if value < 0 then \<lparr>oc_Present = True, oc_Invalid = True, oc_Value = value\<rparr>
      else \<lparr>oc_Present = True, oc_Invalid = False, oc_Value = value\<rparr>)"

text \<open>
  The generated messages, as far as they are read: the typed fields (\<open>None\<close> is an absent
  optional field) and the bytes the decoder did not recognise.
\<close>

record TokenDeltaUpdate =
  td_Tokens :: int
  td_Unknown :: bytes

record TurnEndedUpdate =
  te_InputTokens :: "int option"
  te_OutputTokens :: "int option"
  te_CacheReadTokens :: "int option"
  te_CacheWriteTokens :: "int option"
  te_ReasoningTokens :: "int option"
  te_Unknown :: bytes

text \<open>
  \<open>malformedVarintFields\<close>.  \<open>consumeTag\<close> and \<open>consumeValue\<close> are the two functions of
  \<open>protowire\<close>: field number, wire type and length of the tag, and the length of the value
  (\<open>None\<close> for a negative result).  Both consume at least one byte, so the number of bytes is
  enough fuel.
\<close>

fun malformedLoop ::
  "(bytes \<Rightarrow> (nat \<times> nat \<times> nat) option) \<Rightarrow> (nat \<Rightarrow> nat \<Rightarrow> bytes \<Rightarrow> nat option)
   \<Rightarrow> nat \<Rightarrow> bytes \<Rightarrow> nat list \<Rightarrow> nat list" where
  "malformedLoop consumeTag consumeValue 0 unknown numbers = numbers"
| "malformedLoop consumeTag consumeValue (Suc fuel) unknown numbers =
     (if unknown = [] then numbers
      else case consumeTag unknown of
        None \<Rightarrow> numbers
      | Some (number, wireType, consumed) \<Rightarrow>
          (let unknown1 = drop consumed unknown in
           case consumeValue number wireType unknown1 of
             None \<Rightarrow> numbers
           | Some n \<Rightarrow>
               (let unknown2 = drop n unknown1 in
                if wireType = 0 then malformedLoop consumeTag consumeValue fuel unknown2 numbers
                else if number \<in> set numbers
                then malformedLoop consumeTag consumeValue fuel unknown2 numbers
                else malformedLoop consumeTag consumeValue fuel unknown2 (numbers @ [number]))))"

definition malformedVarintFields ::
  "(bytes \<Rightarrow> (nat \<times> nat \<times> nat) option) \<Rightarrow> (nat \<Rightarrow> nat \<Rightarrow> bytes \<Rightarrow> nat option)
   \<Rightarrow> bytes \<Rightarrow> nat list" where
  "malformedVarintFields consumeTag consumeValue unknown =
     malformedLoop consumeTag consumeValue (length unknown) unknown []"

definition markMalformed :: "ObservedCount \<Rightarrow> ObservedCount" where
  "markMalformed c = c\<lparr>oc_Present := True, oc_Invalid := True\<rparr>"

definition markMalformedCount :: "nat list \<Rightarrow> nat \<Rightarrow> ObservedCount \<Rightarrow> ObservedCount" where
  "markMalformedCount found number c = (if number \<in> set found then markMalformed c else c)"

definition markMalformedTurnEnded :: "nat list \<Rightarrow> UsageObservation \<Rightarrow> UsageObservation" where
  "markMalformedTurnEnded found o1 = o1\<lparr>
     uo_Input := markMalformedCount found 1 (uo_Input o1),
     uo_Output := markMalformedCount found 2 (uo_Output o1),
     uo_CacheRead := markMalformedCount found 3 (uo_CacheRead o1),
     uo_CacheWrite := markMalformedCount found 4 (uo_CacheWrite o1),
     uo_Reasoning := markMalformedCount found 5 (uo_Reasoning o1)\<rparr>"

definition observeTokenDeltaUpdate ::
  "(bytes \<Rightarrow> nat list) \<Rightarrow> TokenDeltaUpdate option \<Rightarrow> UsageObservation" where
  "observeTokenDeltaUpdate malformed update = (case update of
     None \<Rightarrow> (noUsage UsageKindTokenDelta)\<lparr>uo_TokenDelta := noCount\<lparr>oc_Invalid := True\<rparr>\<rparr>
   | Some u \<Rightarrow> (noUsage UsageKindTokenDelta)\<lparr>uo_TokenDelta :=
       markMalformedCount (malformed (td_Unknown u)) 1 (observedInt32Tokens (td_Tokens u))\<rparr>)"

text \<open>\<open>observedOptionalInt64(x != nil, GetX())\<close>: the getter of an absent field returns 0.\<close>

definition observedField :: "int option \<Rightarrow> ObservedCount" where
  "observedField f = observedOptionalInt64 (f \<noteq> None) (case f of None \<Rightarrow> 0 | Some v \<Rightarrow> v)"

definition observeTurnEndedUpdate ::
  "(bytes \<Rightarrow> nat list) \<Rightarrow> TurnEndedUpdate option \<Rightarrow> UsageObservation" where
  "observeTurnEndedUpdate malformed update = (case update of
     None \<Rightarrow> noUsage UsageKindTurnEnded
   | Some u \<Rightarrow> markMalformedTurnEnded (malformed (te_Unknown u))
       ((noUsage UsageKindTurnEnded)\<lparr>
          uo_Input := observedField (te_InputTokens u),
          uo_Output := observedField (te_OutputTokens u),
          uo_CacheRead := observedField (te_CacheReadTokens u),
          uo_CacheWrite := observedField (te_CacheWriteTokens u),
          uo_Reasoning := observedField (te_ReasoningTokens u)\<rparr>))"

section \<open>One completed turn\<close>

record measuredTurnUsage =
  mt_Input :: int
  mt_TotalInput :: int
  mt_Output :: int
  mt_CacheRead :: int
  mt_CacheWrite :: int
  mt_Reasoning :: int

text \<open>A count that can be used: present, not marked invalid, not negative.\<close>

definition countBad :: "ObservedCount \<Rightarrow> bool" where
  "countBad c = (\<not> oc_Present c \<or> oc_Invalid c \<or> oc_Value c < 0)"

definition measuredTurn :: "UsageObservation option \<Rightarrow> measuredTurnUsage option" where
  "measuredTurn obs = (case obs of None \<Rightarrow> None | Some x \<Rightarrow>
     if uo_Kind x \<noteq> UsageKindTurnEnded then None
     else if \<exists>c \<in> set [uo_Input x, uo_Output x, uo_CacheRead x, uo_CacheWrite x]. countBad c then None
     else let input = oc_Value (uo_Input x); output = oc_Value (uo_Output x);
              cr = oc_Value (uo_CacheRead x); cw = oc_Value (uo_CacheWrite x);
              reasoning = uo_Reasoning x in
       if cr > input \<or> cw > input - cr \<or> output > maxInt64 - input then None
       else Some \<lparr>mt_Input = input - cr - cw, mt_TotalInput = input, mt_Output = output,
                  mt_CacheRead = cr, mt_CacheWrite = cw,
                  mt_Reasoning = (if oc_Present reasoning \<and> \<not> oc_Invalid reasoning
                                     \<and> oc_Value reasoning \<ge> 0 \<and> oc_Value reasoning \<le> output
                                  then oc_Value reasoning else 0)\<rparr>)"

definition addCounts :: "ObservedCount \<Rightarrow> ObservedCount \<Rightarrow> ObservedCount" where
  "addCounts x y =
     (if \<not> oc_Present x \<or> \<not> oc_Present y then noCount
      else if oc_Invalid x \<or> oc_Invalid y \<or> oc_Value x < 0 \<or> oc_Value y < 0
              \<or> oc_Value y > maxInt64 - oc_Value x
      then \<lparr>oc_Present = True, oc_Invalid = True, oc_Value = 0\<rparr>
      else \<lparr>oc_Present = True, oc_Invalid = False, oc_Value = oc_Value x + oc_Value y\<rparr>)"

definition addTurnObservations :: "UsageObservation \<Rightarrow> UsageObservation \<Rightarrow> UsageObservation" where
  "addTurnObservations a b = (noUsage UsageKindTurnEnded)\<lparr>
     uo_Input := addCounts (uo_Input a) (uo_Input b),
     uo_Output := addCounts (uo_Output a) (uo_Output b),
     uo_CacheRead := addCounts (uo_CacheRead a) (uo_CacheRead b),
     uo_CacheWrite := addCounts (uo_CacheWrite a) (uo_CacheWrite b),
     uo_Reasoning := addCounts (uo_Reasoning a) (uo_Reasoning b)\<rparr>"

section \<open>The accumulator\<close>

record usageFacts =
  uf_measuredEnabled :: bool
  uf_terminalCount :: int
  uf_freshTerminal :: bool
  uf_visibleOutput :: string
  uf_outputTokenDelta :: int
  uf_outputTokenDeltaObserved :: bool
  uf_outputTokenDeltaInvalid :: bool
  uf_turnEnded :: "UsageObservation option"
  uf_hostedSearches :: int
  uf_completedSearchCount :: int
  uf_completedSearchObserved :: bool
  uf_progressEventCount :: int

definition newUsageFacts :: "bool \<Rightarrow> usageFacts" where
  "newUsageFacts measured = \<lparr>uf_measuredEnabled = measured, uf_terminalCount = 0,
     uf_freshTerminal = False, uf_visibleOutput = [], uf_outputTokenDelta = 0,
     uf_outputTokenDeltaObserved = False, uf_outputTokenDeltaInvalid = False, uf_turnEnded = None,
     uf_hostedSearches = 0, uf_completedSearchCount = 0, uf_completedSearchObserved = False,
     uf_progressEventCount = 0\<rparr>"

definition tokenCount :: "Event \<Rightarrow> ObservedCount" where
  "tokenCount event =
     (let live = \<lparr>oc_Present = True, oc_Invalid = ev_Tokens event < 0, oc_Value = ev_Tokens event\<rparr>
      in case ev_Usage event of
          Some u \<Rightarrow> if uo_Kind u = UsageKindTokenDelta then uo_TokenDelta u else live
        | None \<Rightarrow> live)"

definition observeTokenDelta :: "usageFacts \<Rightarrow> Event \<Rightarrow> usageFacts" where
  "observeTokenDelta f event =
     (let count = tokenCount event
      in if oc_Invalid count then f\<lparr>uf_outputTokenDeltaInvalid := True\<rparr>
         else if \<not> oc_Present count then f
         else f\<lparr>uf_outputTokenDeltaObserved := True,
                uf_outputTokenDelta := wrap64 (uf_outputTokenDelta f + oc_Value count)\<rparr>)"

definition observeTurnEnded :: "usageFacts \<Rightarrow> UsageObservation \<Rightarrow> usageFacts" where
  "observeTurnEnded f u = f\<lparr>
     uf_freshTerminal := uf_freshTerminal f \<or> \<not> uo_Carried u,
     uf_turnEnded := (case uf_turnEnded f of
        Some t \<Rightarrow> if uf_measuredEnabled f then Some (addTurnObservations t u) else Some u
      | None \<Rightarrow> Some u),
     uf_terminalCount := uf_terminalCount f + 1\<rparr>"

definition observe :: "usageFacts \<Rightarrow> Event \<Rightarrow> usageFacts" where
  "observe f event = (case ev_Type event of
     EventText \<Rightarrow> f\<lparr>uf_visibleOutput := uf_visibleOutput f @ ev_Text event\<rparr>
   | EventToolCall \<Rightarrow> (case ev_ToolCall event of None \<Rightarrow> f
       | Some c \<Rightarrow> f\<lparr>uf_visibleOutput := uf_visibleOutput f @ tc_Name c @ tc_Arguments c\<rparr>)
   | EventUsage \<Rightarrow> observeTokenDelta f event
   | EventUsageObservation \<Rightarrow> (case ev_Usage event of None \<Rightarrow> f
       | Some u \<Rightarrow> if uo_Kind u = UsageKindTurnEnded then observeTurnEnded f u else f)
   | EventHostedSearchCall \<Rightarrow> f\<lparr>uf_hostedSearches := uf_hostedSearches f + 1\<rparr>
   | EventHostedSearchStarted \<Rightarrow> f\<lparr>uf_progressEventCount := uf_progressEventCount f + 1\<rparr>
   | EventHostedSearchCompleted \<Rightarrow> f\<lparr>uf_completedSearchCount := uf_completedSearchCount f + 1,
       uf_completedSearchObserved := True, uf_progressEventCount := uf_progressEventCount f + 1\<rparr>
   | EventThinking \<Rightarrow> f\<lparr>uf_visibleOutput := uf_visibleOutput f @ ev_Text event,
       uf_progressEventCount := (if ev_Text event \<noteq> []
          then uf_progressEventCount f + max 1 (ev_ProgressEvents event)
          else uf_progressEventCount f)\<rparr>
   | EventThinkingCompleted \<Rightarrow> f\<lparr>uf_progressEventCount := uf_progressEventCount f + 1\<rparr>
   | _ \<Rightarrow> f)"

definition factsMeasuredTurn :: "usageFacts \<Rightarrow> measuredTurnUsage option" where
  "factsMeasuredTurn f =
     (if \<not> uf_measuredEnabled f \<or> \<not> uf_freshTerminal f then None
      else measuredTurn (uf_turnEnded f))"

definition publicOutputTokens :: "usageFacts \<Rightarrow> int" where
  "publicOutputTokens f = (case factsMeasuredTurn f of
     Some u \<Rightarrow> mt_Output u | None \<Rightarrow> uf_outputTokenDelta f)"

section \<open>Private diagnostics\<close>

datatype field = FBool bool | FInt int | FStr string

type_synonym fields = "(string \<times> field) list"

definition attachObservedCount :: "fields \<Rightarrow> string \<Rightarrow> ObservedCount \<Rightarrow> fields" where
  "attachObservedCount fs key c =
     (if oc_Invalid c then AList.update (key @ ''_invalid'') (FBool True) fs
      else if \<not> oc_Present c then fs
      else AList.update key (FInt (oc_Value c)) (AList.update (key @ ''_observed'') (FBool True) fs))"

definition turnEndedKey :: "string \<Rightarrow> string" where
  "turnEndedKey name = ''cursor_agent_v1_turn_ended_'' @ name @ ''_tokens''"

definition turnEndedNames :: "string list" where
  "turnEndedNames = [''input'', ''output'', ''cache_read'', ''cache_write'', ''reasoning'']"

definition turnEndedFields :: "usageFacts \<Rightarrow> UsageObservation \<Rightarrow> fields \<Rightarrow> fields" where
  "turnEndedFields f t fs =
     (let fs1 = AList.update ''cursor_agent_v1_turn_ended_observed'' (FBool True) fs;
          fs2 = AList.update ''cursor_agent_v1_turn_ended_scope''
                  (FStr (if factsMeasuredTurn f \<noteq> None then ''agent_turn'' else ''unresolved'')) fs1;
          fs3 = AList.update ''cursor_agent_v1_turn_ended_source''
                  (FStr (if uf_measuredEnabled f \<and> uf_terminalCount f > 1
                         then ''chained_wire_turns'' else ''last_wire_turn_ended'')) fs2;
          fs4 = attachObservedCount fs3 (turnEndedKey ''input'') (uo_Input t);
          fs5 = attachObservedCount fs4 (turnEndedKey ''output'') (uo_Output t);
          fs6 = attachObservedCount fs5 (turnEndedKey ''cache_read'') (uo_CacheRead t);
          fs7 = attachObservedCount fs6 (turnEndedKey ''cache_write'') (uo_CacheWrite t);
          fs8 = attachObservedCount fs7 (turnEndedKey ''reasoning'') (uo_Reasoning t)
      in if uf_measuredEnabled f \<and> \<not> uf_freshTerminal f
         then fold (\<lambda>name. AList.update (turnEndedKey name @ ''_observed'') (FBool False))
                turnEndedNames fs8
         else fs8)"

definition privateDiagnosticFields :: "usageFacts \<Rightarrow> fields" where
  "privateDiagnosticFields f =
     (let fs1 = (if uf_hostedSearches f > 0
            then AList.update ''cursor_agent_v1_hosted_search_requests'' (FInt (uf_hostedSearches f)) []
            else []);
          fs2 = (if uf_completedSearchObserved f
            then AList.update ''cursor_agent_v1_completed_search_count'' (FInt (uf_completedSearchCount f)) fs1
            else fs1);
          fs3 = (if uf_progressEventCount f > 0
            then AList.update ''cursor_agent_v1_progress_event_count'' (FInt (uf_progressEventCount f)) fs2
            else fs2);
          fs4 = (if uf_outputTokenDeltaObserved f
            then AList.update ''cursor_agent_v1_output_token_delta'' (FInt (uf_outputTokenDelta f))
                  (AList.update ''cursor_agent_v1_output_token_delta_observed'' (FBool True) fs3)
            else fs3);
          fs5 = (if uf_outputTokenDeltaInvalid f
            then AList.update ''cursor_agent_v1_output_token_delta_invalid'' (FBool True) fs4
            else fs4)
      in case uf_turnEnded f of None \<Rightarrow> fs5 | Some t \<Rightarrow> turnEndedFields f t fs5)"

section \<open>Lemmas\<close>

lemma addCounts_ok:
  "\<not> countBad (addCounts x y) \<longleftrightarrow>
     \<not> countBad x \<and> \<not> countBad y \<and> oc_Value x + oc_Value y \<le> maxInt64"
  by (auto simp: addCounts_def countBad_def noCount_def)

lemma addCounts_value:
  "\<not> countBad (addCounts x y) \<Longrightarrow> oc_Value (addCounts x y) = oc_Value x + oc_Value y"
  by (auto simp: addCounts_def countBad_def noCount_def split: if_splits)

text \<open>Chained counts: valid only if every count is, and then the value is the true sum.\<close>

lemma foldl_addCounts:
  "\<not> countBad (foldl addCounts c cs) \<Longrightarrow>
     \<not> countBad c \<and> (\<forall>x \<in> set cs. \<not> countBad x)
     \<and> oc_Value (foldl addCounts c cs) = oc_Value c + sum_list (map oc_Value cs)"
proof (induction cs arbitrary: c)
  case Nil
  then show ?case by simp
next
  case (Cons x cs)
  from Cons.prems have "\<not> countBad (foldl addCounts (addCounts c x) cs)" by simp
  from Cons.IH [OF this] show ?case
    using addCounts_ok [of c x] addCounts_value [of c x] by auto
qed

lemma foldl_addCounts_ok:
  "\<not> countBad c \<Longrightarrow> \<forall>x \<in> set cs. \<not> countBad x \<Longrightarrow>
     oc_Value c + sum_list (map oc_Value cs) \<le> maxInt64 \<Longrightarrow> \<not> countBad (foldl addCounts c cs)"
proof (induction cs arbitrary: c)
  case Nil
  then show ?case by simp
next
  case (Cons x cs)
  have "0 \<le> sum_list (map oc_Value cs)"
    using Cons.prems(2) by (intro sum_list_nonneg) (auto simp: countBad_def)
  with Cons.prems have "\<not> countBad (addCounts c x)" by (simp add: addCounts_ok)
  with Cons show ?case by (simp add: addCounts_value add.assoc)
qed

lemma addTurn_fields [simp]:
  "uo_Input (addTurnObservations a b) = addCounts (uo_Input a) (uo_Input b)"
  "uo_Output (addTurnObservations a b) = addCounts (uo_Output a) (uo_Output b)"
  "uo_CacheRead (addTurnObservations a b) = addCounts (uo_CacheRead a) (uo_CacheRead b)"
  "uo_CacheWrite (addTurnObservations a b) = addCounts (uo_CacheWrite a) (uo_CacheWrite b)"
  "uo_Reasoning (addTurnObservations a b) = addCounts (uo_Reasoning a) (uo_Reasoning b)"
  "uo_Kind (addTurnObservations a b) = UsageKindTurnEnded"
  by (simp_all add: addTurnObservations_def noUsage_def)

lemma foldl_addTurn_fields:
  "uo_Input (foldl addTurnObservations t ts) = foldl addCounts (uo_Input t) (map uo_Input ts)"
  "uo_Output (foldl addTurnObservations t ts) = foldl addCounts (uo_Output t) (map uo_Output ts)"
  "uo_CacheRead (foldl addTurnObservations t ts) = foldl addCounts (uo_CacheRead t) (map uo_CacheRead ts)"
  "uo_CacheWrite (foldl addTurnObservations t ts) = foldl addCounts (uo_CacheWrite t) (map uo_CacheWrite ts)"
  by (induction ts arbitrary: t) simp_all

lemma foldl_addTurn_kind:
  "uo_Kind t = UsageKindTurnEnded \<Longrightarrow> uo_Kind (foldl addTurnObservations t ts) = UsageKindTurnEnded"
  by (cases ts rule: rev_cases) simp_all

text \<open>The terminal observations among a list of events, in order.\<close>

definition turnsOf :: "Event list \<Rightarrow> UsageObservation list" where
  "turnsOf events = map (\<lambda>e. the (ev_Usage e))
     (filter (\<lambda>e. ev_Type e = EventUsageObservation
        \<and> (case ev_Usage e of None \<Rightarrow> False | Some u \<Rightarrow> uo_Kind u = UsageKindTurnEnded)) events)"

lemma turnsOf_kind: "\<forall>u \<in> set (turnsOf events). uo_Kind u = UsageKindTurnEnded"
  by (auto simp: turnsOf_def split: option.splits)

definition observeAll :: "usageFacts \<Rightarrow> Event list \<Rightarrow> usageFacts" where
  "observeAll f events = foldl observe f events"

definition chained :: "UsageObservation list \<Rightarrow> UsageObservation option" where
  "chained ts = (case ts of [] \<Rightarrow> None | t # rest \<Rightarrow> Some (foldl addTurnObservations t rest))"

lemma chained_snoc:
  "chained (ts @ [u]) = (case chained ts of None \<Rightarrow> Some u | Some t \<Rightarrow> Some (addTurnObservations t u))"
  by (cases ts) (simp_all add: chained_def)

lemma observe_other:
  assumes "\<not> (ev_Type e = EventUsageObservation
        \<and> (case ev_Usage e of None \<Rightarrow> False | Some u \<Rightarrow> uo_Kind u = UsageKindTurnEnded))"
  shows "uf_turnEnded (observe f e) = uf_turnEnded f"
    and "uf_freshTerminal (observe f e) = uf_freshTerminal f"
    and "uf_terminalCount (observe f e) = uf_terminalCount f"
  using assms
  by (auto simp: observe_def observeTokenDelta_def Let_def split: EventType.splits option.splits)

lemma observe_enabled [simp]: "uf_measuredEnabled (observe f e) = uf_measuredEnabled f"
  by (auto simp: observe_def observeTokenDelta_def observeTurnEnded_def Let_def
      split: EventType.splits option.splits)

lemma observeAll_enabled [simp]: "uf_measuredEnabled (observeAll f es) = uf_measuredEnabled f"
  unfolding observeAll_def by (induction es arbitrary: f) simp_all

lemma observeAll_turns:
  "uf_turnEnded (observeAll (newUsageFacts True) es) = chained (turnsOf es)
   \<and> uf_freshTerminal (observeAll (newUsageFacts True) es) = (\<exists>u \<in> set (turnsOf es). \<not> uo_Carried u)
   \<and> uf_terminalCount (observeAll (newUsageFacts True) es) = int (length (turnsOf es))"
proof (induction es rule: rev_induct)
  case Nil
  then show ?case by (simp add: observeAll_def turnsOf_def newUsageFacts_def chained_def)
next
  case (snoc e es)
  let ?f = "observeAll (newUsageFacts True) es"
  have step: "observeAll (newUsageFacts True) (es @ [e]) = observe ?f e"
    by (simp add: observeAll_def)
  have en: "uf_measuredEnabled ?f" by (simp add: newUsageFacts_def)
  show ?case
  proof (cases "ev_Type e = EventUsageObservation
        \<and> (case ev_Usage e of None \<Rightarrow> False | Some u \<Rightarrow> uo_Kind u = UsageKindTurnEnded)")
    case True
    then obtain u where u: "ev_Usage e = Some u" "uo_Kind u = UsageKindTurnEnded"
      by (auto split: option.splits)
    have "turnsOf (es @ [e]) = turnsOf es @ [u]"
      using True u by (simp add: turnsOf_def)
    moreover have "observe ?f e = observeTurnEnded ?f u"
      using True u by (simp add: observe_def)
    ultimately show ?thesis
      using snoc.IH en by (auto simp: step observeTurnEnded_def chained_snoc split: option.splits)
  next
    case False
    then have "turnsOf (es @ [e]) = turnsOf es" by (simp add: turnsOf_def)
    then show ?thesis
      using snoc.IH observe_other [OF False, of ?f] by (simp only: step)
  qed
qed

lemma measuredTurn_counts:
  "measuredTurn (Some x) = Some m \<Longrightarrow>
     \<not> countBad (uo_Input x) \<and> \<not> countBad (uo_Output x) \<and> \<not> countBad (uo_CacheRead x)
     \<and> \<not> countBad (uo_CacheWrite x) \<and> mt_TotalInput m = oc_Value (uo_Input x)
     \<and> mt_Output m = oc_Value (uo_Output x) \<and> mt_CacheRead m = oc_Value (uo_CacheRead x)
     \<and> mt_CacheWrite m = oc_Value (uo_CacheWrite x)"
  by (auto simp: measuredTurn_def Let_def split: if_splits)

lemma measuredTurn_bounds:
  "measuredTurn x = Some m \<Longrightarrow>
     0 \<le> mt_Input m \<and> 0 \<le> mt_CacheRead m \<and> 0 \<le> mt_CacheWrite m \<and> 0 \<le> mt_Output m
     \<and> mt_Input m + mt_CacheRead m + mt_CacheWrite m = mt_TotalInput m
     \<and> mt_TotalInput m + mt_Output m \<le> maxInt64
     \<and> 0 \<le> mt_Reasoning m \<and> mt_Reasoning m \<le> mt_Output m"
  by (auto simp: measuredTurn_def Let_def countBad_def split: if_splits option.splits)

lemma measuredTurn_exists:
  assumes "uo_Kind x = UsageKindTurnEnded"
    and "\<not> countBad (uo_Input x)" "\<not> countBad (uo_Output x)"
    and "\<not> countBad (uo_CacheRead x)" "\<not> countBad (uo_CacheWrite x)"
    and "oc_Value (uo_CacheRead x) + oc_Value (uo_CacheWrite x) \<le> oc_Value (uo_Input x)"
    and "oc_Value (uo_Input x) + oc_Value (uo_Output x) \<le> maxInt64"
  shows "measuredTurn (Some x) \<noteq> None"
  using assms by (auto simp: measuredTurn_def Let_def countBad_def)

text \<open>Totals over a chain of turns.\<close>

definition turnTotal :: "(UsageObservation \<Rightarrow> ObservedCount) \<Rightarrow> UsageObservation list \<Rightarrow> int" where
  "turnTotal g ts = sum_list (map (\<lambda>u. oc_Value (g u)) ts)"

lemma turnTotal_nonneg: "\<forall>u \<in> set ts. \<not> countBad (g u) \<Longrightarrow> 0 \<le> turnTotal g ts"
  unfolding turnTotal_def by (intro sum_list_nonneg) (auto simp: countBad_def)

lemma turnTotal_add_mono:
  "\<forall>u \<in> set ts. oc_Value (f u) + oc_Value (g u) \<le> oc_Value (h u) \<Longrightarrow>
     turnTotal f ts + turnTotal g ts \<le> turnTotal h ts"
  unfolding turnTotal_def sum_list_addf [symmetric] by (intro sum_list_mono) blast

lemma chain_count_ok:
  assumes "\<forall>u \<in> set (t # ts). \<not> countBad (g u)" and "turnTotal g (t # ts) \<le> maxInt64"
  shows "\<not> countBad (foldl addCounts (g t) (map g ts))"
    and "oc_Value (foldl addCounts (g t) (map g ts)) = turnTotal g (t # ts)"
proof -
  show g: "\<not> countBad (foldl addCounts (g t) (map g ts))"
    using assms by (intro foldl_addCounts_ok) (auto simp: turnTotal_def comp_def)
  show "oc_Value (foldl addCounts (g t) (map g ts)) = turnTotal g (t # ts)"
    using foldl_addCounts [OF g] by (simp add: turnTotal_def comp_def)
qed

lemma chain_count_sum:
  assumes "\<not> countBad (foldl addCounts (g t) (map g ts))"
  shows "oc_Value (foldl addCounts (g t) (map g ts)) = turnTotal g (t # ts)"
    and "\<forall>u \<in> set (t # ts). \<not> countBad (g u)"
  using foldl_addCounts [OF assms] by (auto simp: turnTotal_def comp_def)

lemma chained_measured:
  assumes good: "\<forall>u \<in> set (t # ts). \<not> countBad (uo_Input u) \<and> \<not> countBad (uo_Output u)
        \<and> \<not> countBad (uo_CacheRead u) \<and> \<not> countBad (uo_CacheWrite u)
        \<and> oc_Value (uo_CacheRead u) + oc_Value (uo_CacheWrite u) \<le> oc_Value (uo_Input u)"
    and kind: "uo_Kind t = UsageKindTurnEnded"
    and total: "turnTotal uo_Input (t # ts) + turnTotal uo_Output (t # ts) \<le> maxInt64"
  shows "measuredTurn (Some (foldl addTurnObservations t ts)) \<noteq> None"
proof -
  let ?T = "\<lambda>g. turnTotal g (t # ts)"
  have nn: "0 \<le> ?T uo_Input" "0 \<le> ?T uo_Output" "0 \<le> ?T uo_CacheRead" "0 \<le> ?T uo_CacheWrite"
    by (rule turnTotal_nonneg, use good in blast)+
  have cache: "?T uo_CacheRead + ?T uo_CacheWrite \<le> ?T uo_Input"
    using good by (intro turnTotal_add_mono) blast
  have "?T uo_Input \<le> maxInt64" "?T uo_Output \<le> maxInt64"
    "?T uo_CacheRead \<le> maxInt64" "?T uo_CacheWrite \<le> maxInt64"
    using nn cache total by linarith+
  then have *: "\<not> countBad (foldl addCounts (g t) (map g ts))
      \<and> oc_Value (foldl addCounts (g t) (map g ts)) = ?T g"
    if "g = uo_Input \<or> g = uo_Output \<or> g = uo_CacheRead \<or> g = uo_CacheWrite" for g
    using that good by (intro conjI chain_count_ok) blast+
  show ?thesis
    using * [of uo_Input] * [of uo_Output] * [of uo_CacheRead] * [of uo_CacheWrite] cache total
    by (intro measuredTurn_exists foldl_addTurn_kind [OF kind]) (simp_all add: foldl_addTurn_fields)
qed

text \<open>An example turn: three counted input tokens and five counted output tokens.\<close>

definition exampleTurn :: "bool \<Rightarrow> Event" where
  "exampleTurn carried = (newEvent EventUsageObservation)\<lparr>ev_Usage := Some ((noUsage UsageKindTurnEnded)
     \<lparr>uo_Carried := carried, uo_Input := observedInt32Tokens 3, uo_Output := observedInt32Tokens 5,
      uo_CacheRead := observedInt32Tokens 1, uo_CacheWrite := observedInt32Tokens 0\<rparr>)\<rparr>"

lemmas exampleTurn_eval = exampleTurn_def newEvent_def noUsage_def noCount_def observedInt32Tokens_def
  turnsOf_def observeAll_def newUsageFacts_def factsMeasuredTurn_def observe_def observeTurnEnded_def
  measuredTurn_def countBad_def addTurnObservations_def addCounts_def turnTotal_def maxInt64_def Let_def

lemma measured_sum:
  assumes "factsMeasuredTurn (observeAll (newUsageFacts True) events) = Some m"
  shows "mt_Output m = turnTotal uo_Output (turnsOf events)
       \<and> mt_TotalInput m = turnTotal uo_Input (turnsOf events)
       \<and> (\<forall>u \<in> set (turnsOf events). \<not> countBad (uo_Output u) \<and> \<not> countBad (uo_Input u))
       \<and> (\<exists>u \<in> set (turnsOf events). \<not> uo_Carried u)"
proof -
  let ?f = "observeAll (newUsageFacts True) events"
  from assms have fresh: "uf_freshTerminal ?f" and mt: "measuredTurn (uf_turnEnded ?f) = Some m"
    by (simp_all add: factsMeasuredTurn_def split: if_splits)
  from fresh obtain t ts where ts: "turnsOf events = t # ts"
    using observeAll_turns [of events] by (cases "turnsOf events") auto
  have x: "measuredTurn (Some (foldl addTurnObservations t ts)) = Some m"
    using mt observeAll_turns [of events] ts by (simp add: chained_def)
  then have "mt_Output m = turnTotal uo_Output (t # ts)" "mt_TotalInput m = turnTotal uo_Input (t # ts)"
    "\<forall>u \<in> set (t # ts). \<not> countBad (uo_Output u)" "\<forall>u \<in> set (t # ts). \<not> countBad (uo_Input u)"
    using measuredTurn_counts [OF x] chain_count_sum [of uo_Output t ts] chain_count_sum [of uo_Input t ts]
    by (simp_all add: foldl_addTurn_fields)
  then show ?thesis
    using fresh observeAll_turns [of events] by (simp add: ts)
qed

text \<open>
  C24: When a metered operation reports measured usage, its output and input counts are the sums of
  the counts of every turn of the operation (carried turns of earlier requests included), no turn
  had a missing, invalid or negative count, and at least one turn is the operation's own.
\<close>

theorem metered_output_is_sum:
  assumes "factsMeasuredTurn (observeAll (newUsageFacts True) events) = Some m"
  shows "mt_Output m = turnTotal uo_Output (turnsOf events)
       \<and> mt_TotalInput m = turnTotal uo_Input (turnsOf events)
       \<and> (\<forall>u \<in> set (turnsOf events). \<not> countBad (uo_Output u) \<and> \<not> countBad (uo_Input u))
       \<and> (\<exists>u \<in> set (turnsOf events). \<not> uo_Carried u)"
  by (rule measured_sum [OF assms])

lemma metered_output_is_sum_witness:
  "\<exists>m. factsMeasuredTurn (observeAll (newUsageFacts True) [exampleTurn True, exampleTurn False]) = Some m
    \<and> mt_Output m = 10 \<and> mt_TotalInput m = 6"
proof -
  obtain m where m: "factsMeasuredTurn (observeAll (newUsageFacts True) [exampleTurn True, exampleTurn False]) = Some m"
    by (simp add: exampleTurn_eval)
  from metered_output_is_sum [OF m] m show ?thesis by (simp add: exampleTurn_eval)
qed

text \<open>
  Conversely, metered usage is never lost: if every turn of an operation is measurable, one of
  them is the operation's own and the totals fit an int64, then measured usage is reported.
\<close>

theorem metered_chain_is_measured:
  assumes "\<forall>u \<in> set (turnsOf events). measuredTurn (Some u) \<noteq> None"
    and "\<exists>u \<in> set (turnsOf events). \<not> uo_Carried u"
    and "turnTotal uo_Input (turnsOf events) + turnTotal uo_Output (turnsOf events) \<le> maxInt64"
  shows "factsMeasuredTurn (observeAll (newUsageFacts True) events) \<noteq> None"
proof -
  from assms(2) obtain t ts where ts: "turnsOf events = t # ts" by (cases "turnsOf events") auto
  have "\<not> countBad (uo_Input u) \<and> \<not> countBad (uo_Output u) \<and> \<not> countBad (uo_CacheRead u)
      \<and> \<not> countBad (uo_CacheWrite u)
      \<and> oc_Value (uo_CacheRead u) + oc_Value (uo_CacheWrite u) \<le> oc_Value (uo_Input u)"
    if "u \<in> set (t # ts)" for u
  proof -
    from that assms(1) ts obtain m where "measuredTurn (Some u) = Some m" by (metis not_None_eq)
    from measuredTurn_counts [OF this] measuredTurn_bounds [OF this] show ?thesis by auto
  qed
  moreover have "uo_Kind t = UsageKindTurnEnded" using turnsOf_kind [of events] ts by simp
  ultimately have "measuredTurn (Some (foldl addTurnObservations t ts)) \<noteq> None"
    using assms(3) ts by (intro chained_measured) simp_all
  then show ?thesis
    using observeAll_turns [of events] assms(2) ts
    by (simp add: factsMeasuredTurn_def chained_def newUsageFacts_def)
qed

lemma metered_chain_is_measured_witness:
  "factsMeasuredTurn (observeAll (newUsageFacts True) [exampleTurn True, exampleTurn False]) \<noteq> None"
  by (rule metered_chain_is_measured) (simp_all add: exampleTurn_eval)

end
