(* ===== verification/Snapshot.thy ===== *)
theory Snapshot
  imports Usage
begin

text \<open>
  \<open>completed_events.go\<close> and the persisted event of \<open>completed_state.go\<close>: the bounded,
  coalescing snapshot of the events of one completed request, from which a retry is replayed.

  Two parameters stand for what \<open>encoding/json\<close> writes: \<open>body s\<close> is the number of bytes
  between the quotes of the encoded string \<open>s\<close>, and \<open>rest e\<close> the number of bytes of the encoded
  event \<open>e\<close> without its text and progress members (both are omitted when empty and otherwise
  start with a comma, the type member being always first).
\<close>

definition maxCompletedEventBytes :: int where "maxCompletedEventBytes = 16 * 2 ^ 20"

section \<open>Sizes\<close>

fun natDigits :: "nat \<Rightarrow> nat" where
  "natDigits n = (if n < 10 then 1 else Suc (natDigits (n div 10)))"

declare natDigits.simps [simp del]

definition itoaLength :: "int \<Rightarrow> int" where
  "itoaLength n = (if n < 0 then 1 + int (natDigits (nat (- n))) else int (natDigits (nat n)))"

definition progressFieldSize :: "int \<Rightarrow> int" where
  "progressFieldSize count =
     (if count = 0 then 0 else int (length '',\"progress_events\":'') + itoaLength count)"

definition jsonStringSize :: "(string \<Rightarrow> int) \<Rightarrow> string \<Rightarrow> int" where
  "jsonStringSize body s = 2 + body s"

definition snapshotEventSize :: "(string \<Rightarrow> int) \<Rightarrow> (Event \<Rightarrow> int) \<Rightarrow> Event \<Rightarrow> int" where
  "snapshotEventSize body rest e =
     rest (e\<lparr>ev_Text := [], ev_ProgressEvents := 0, ev_Checkpoint := [], ev_Blobs := []\<rparr>)
     + (if ev_Text e = [] then 0 else int (length '',\"text\":'') + jsonStringSize body (ev_Text e))
     + progressFieldSize (ev_ProgressEvents e)"

section \<open>Which events coalesce\<close>

definition snapshotText :: "Event \<Rightarrow> bool" where
  "snapshotText e =
     ((ev_Type e = EventText \<or> ev_Type e = EventThinking) \<and> ev_Text e \<noteq> []
      \<and> ev_Tokens e = 0 \<and> ev_Usage e = None \<and> ev_ToolCall e = None \<and> ev_ToolResult e = None
      \<and> ev_HostedSearch e = None \<and> ev_Checkpoint e = [] \<and> ev_Blobs e = []
      \<and> (ev_Type e = EventThinking \<or> ev_ProgressEvents e = 0))"

definition mergeSnapshotUsage :: "Event \<Rightarrow> Event \<Rightarrow> Event option" where
  "mergeSnapshotUsage a b =
     (if ev_Type a \<noteq> EventUsage \<or> ev_Type b \<noteq> EventUsage \<or> ev_Tokens a < 0 \<or> ev_Tokens b < 0
         \<or> ev_Tokens b > maxInt64 - ev_Tokens a then None
      else let merged = (cloneEvent a)\<lparr>ev_Tokens := ev_Tokens a + ev_Tokens b\<rparr> in
        case (ev_Usage a, ev_Usage b) of
          (None, None) \<Rightarrow> Some merged
        | (Some ua, Some ub) \<Rightarrow>
            if uo_Kind ua \<noteq> UsageKindTokenDelta \<or> uo_Kind ub \<noteq> UsageKindTokenDelta then None
            else let x = uo_TokenDelta ua; y = uo_TokenDelta ub in
              if \<not> oc_Present x \<or> \<not> oc_Present y \<or> oc_Invalid x \<or> oc_Invalid y
                 \<or> oc_Value x < 0 \<or> oc_Value y < 0 \<or> oc_Value y > maxInt64 - oc_Value x then None
              else if ua\<lparr>uo_TokenDelta := noCount\<rparr> \<noteq> ub\<lparr>uo_TokenDelta := noCount\<rparr> then None
              else Some (merged\<lparr>ev_Usage := Some (ua\<lparr>uo_TokenDelta :=
                           x\<lparr>oc_Value := oc_Value x + oc_Value y\<rparr>\<rparr>)\<rparr>)
        | _ \<Rightarrow> None)"

section \<open>The snapshot\<close>

record eventSnapshot =
  es_events :: "Event list"
  es_bytes :: int
  es_lastSize :: int
  es_text :: string

definition newSnapshot :: eventSnapshot where
  "newSnapshot = \<lparr>es_events = [], es_bytes = 0, es_lastSize = 0, es_text = []\<rparr>"

definition grow :: "eventSnapshot \<Rightarrow> int \<Rightarrow> eventSnapshot res" where
  "grow s delta =
     (if delta > maxCompletedEventBytes - es_bytes s
      then Inl (Errorf ''Cursor Agent v1 completed snapshot exceeds %d bytes'' [N maxCompletedEventBytes])
      else Inr (s\<lparr>es_bytes := es_bytes s + delta\<rparr>))"

text \<open>\<open>append\<close> (here \<open>snapshotAppend\<close>), split at its three outcomes: extend the last text, merge a usage delta, or add.\<close>

definition appendNew ::
  "(string \<Rightarrow> int) \<Rightarrow> (Event \<Rightarrow> int) \<Rightarrow> eventSnapshot \<Rightarrow> Event \<Rightarrow> eventSnapshot res" where
  "appendNew body rest s event =
     (let size = snapshotEventSize body rest event;
          delta = (if es_events s \<noteq> [] then size + 1 else size)
      in case grow s delta of Inl e \<Rightarrow> Inl e
       | Inr s1 \<Rightarrow> Inr (s1\<lparr>es_events := es_events s1 @ [cloneEvent event], es_lastSize := size,
                           es_text := (if snapshotText event then ev_Text event else [])\<rparr>))"

definition extendText ::
  "(string \<Rightarrow> int) \<Rightarrow> eventSnapshot \<Rightarrow> Event \<Rightarrow> Event \<Rightarrow> eventSnapshot res" where
  "extendText body s last1 event =
     (let delta0 = jsonStringSize body (ev_Text event) - 2;
          progress = (if ev_Type event = EventThinking
                      then max 1 (ev_ProgressEvents last1) + max 1 (ev_ProgressEvents event)
                      else ev_ProgressEvents last1);
          delta = (if ev_Type event = EventThinking
                   then delta0 + (progressFieldSize progress - progressFieldSize (ev_ProgressEvents last1))
                   else delta0)
      in case grow s delta of Inl e \<Rightarrow> Inl e
       | Inr s1 \<Rightarrow>
           let text = es_text s1 @ ev_Text event in
           Inr (s1\<lparr>es_text := text,
                   es_events := butlast (es_events s1)
                     @ [last1\<lparr>ev_Text := text, ev_ProgressEvents := progress\<rparr>],
                   es_lastSize := es_lastSize s1 + delta\<rparr>))"

definition mergeUsage ::
  "(string \<Rightarrow> int) \<Rightarrow> (Event \<Rightarrow> int) \<Rightarrow> eventSnapshot \<Rightarrow> Event \<Rightarrow> eventSnapshot res" where
  "mergeUsage body rest s merged =
     (let size = snapshotEventSize body rest merged
      in case grow s (size - es_lastSize s) of Inl e \<Rightarrow> Inl e
       | Inr s1 \<Rightarrow> Inr (s1\<lparr>es_events := butlast (es_events s1) @ [merged], es_lastSize := size\<rparr>))"

definition snapshotAppend ::
  "(string \<Rightarrow> int) \<Rightarrow> (Event \<Rightarrow> int) \<Rightarrow> eventSnapshot \<Rightarrow> Event \<Rightarrow> eventSnapshot res" where
  "snapshotAppend body rest s0 event =
     (let s = (if es_bytes s0 = 0 then s0\<lparr>es_bytes := 2\<rparr> else s0) in
      if es_events s = [] then appendNew body rest s event
      else let last1 = last (es_events s) in
        if ev_Type last1 = ev_Type event \<and> snapshotText last1 \<and> snapshotText event
        then extendText body s last1 event
        else case mergeSnapshotUsage last1 event of
            Some merged \<Rightarrow> mergeUsage body rest s merged
          | None \<Rightarrow> appendNew body rest s event)"

primrec snapshotAppendAll ::
  "(string \<Rightarrow> int) \<Rightarrow> (Event \<Rightarrow> int) \<Rightarrow> eventSnapshot \<Rightarrow> Event list \<Rightarrow> eventSnapshot res" where
  "snapshotAppendAll body rest s [] = Inr s"
| "snapshotAppendAll body rest s (e # es) =
     (case snapshotAppend body rest s e of Inl err \<Rightarrow> Inl err | Inr s1 \<Rightarrow> snapshotAppendAll body rest s1 es)"

section \<open>Persisted events\<close>

record persistedEvent =
  pe_Type :: EventType
  pe_Text :: string
  pe_Signature :: string
  pe_ProgressEvents :: int
  pe_Tokens :: int
  pe_Usage :: "UsageObservation option"
  pe_ToolCall :: "ToolCall option"
  pe_ToolResult :: "ToolResult option"
  pe_HostedSearch :: "HostedSearch option"

definition persistedEventFrom :: "Event \<Rightarrow> persistedEvent" where
  "persistedEventFrom e = \<lparr>pe_Type = ev_Type e, pe_Text = ev_Text e, pe_Signature = ev_Signature e,
     pe_ProgressEvents = ev_ProgressEvents e, pe_Tokens = ev_Tokens e, pe_Usage = ev_Usage e,
     pe_ToolCall = ev_ToolCall e, pe_ToolResult = ev_ToolResult e, pe_HostedSearch = ev_HostedSearch e\<rparr>"

definition persistEvents ::
  "(string \<Rightarrow> int) \<Rightarrow> (Event \<Rightarrow> int) \<Rightarrow> Event list \<Rightarrow> persistedEvent list res" where
  "persistEvents body rest events = (case snapshotAppendAll body rest newSnapshot events of
     Inl e \<Rightarrow> Inl e | Inr s \<Rightarrow> Inr (map persistedEventFrom (es_events s)))"

definition eventFromPersisted :: "persistedEvent \<Rightarrow> Event" where
  "eventFromPersisted p = (newEvent (pe_Type p))\<lparr>ev_Text := pe_Text p, ev_Signature := pe_Signature p,
     ev_ProgressEvents := pe_ProgressEvents p, ev_Tokens := pe_Tokens p, ev_Usage := pe_Usage p,
     ev_ToolCall := pe_ToolCall p, ev_ToolResult := pe_ToolResult p, ev_HostedSearch := pe_HostedSearch p\<rparr>"

fun eventsFromPersisted :: "persistedEvent list \<Rightarrow> Event list res" where
  "eventsFromPersisted [] = Inr []"
| "eventsFromPersisted (p # ps) =
     (if pe_Type p = EventZero
      then Inl (Errorf ''Cursor Agent v1 completed snapshot event is invalid'' [])
      else case eventsFromPersisted ps of Inl e \<Rightarrow> Inl e | Inr es \<Rightarrow> Inr (eventFromPersisted p # es))"

section \<open>The specification: coalescing without bookkeeping\<close>

text \<open>
  \<open>addEvent\<close> says what the snapshot holds after one more event, without the byte counter, the
  cached size and the string builder of the code.
\<close>

definition coalesce :: "Event \<Rightarrow> Event \<Rightarrow> Event option" where
  "coalesce last1 e =
     (if ev_Type last1 = ev_Type e \<and> snapshotText last1 \<and> snapshotText e
      then Some (last1\<lparr>ev_Text := ev_Text last1 @ ev_Text e,
             ev_ProgressEvents := (if ev_Type e = EventThinking
               then max 1 (ev_ProgressEvents last1) + max 1 (ev_ProgressEvents e)
               else ev_ProgressEvents last1)\<rparr>)
      else mergeSnapshotUsage last1 e)"

definition addEvent :: "Event list \<Rightarrow> Event \<Rightarrow> Event list" where
  "addEvent es e =
     (if es = [] then [cloneEvent e]
      else case coalesce (last es) e of
        Some m \<Rightarrow> butlast es @ [m] | None \<Rightarrow> es @ [cloneEvent e])"

definition builderOk :: "eventSnapshot \<Rightarrow> bool" where
  "builderOk s = (es_events s \<noteq> [] \<longrightarrow> snapshotText (last (es_events s)) \<longrightarrow>
                    es_text s = ev_Text (last (es_events s)))"

text \<open>
  Text and thinking events never carry a checkpoint: only \<open>EventCheckpoint\<close> does.
\<close>

definition plainText :: "Event \<Rightarrow> bool" where
  "plainText e = (ev_Type e \<in> {EventText, EventThinking} \<longrightarrow> ev_Checkpoint e = [] \<and> ev_Blobs e = [])"

lemma mergeSnapshotUsage_type:
  "mergeSnapshotUsage a b = Some m \<Longrightarrow>
     ev_Type a = EventUsage \<and> ev_Type b = EventUsage \<and> ev_Type m = EventUsage"
  by (auto simp: mergeSnapshotUsage_def Let_def split: if_splits option.splits)

lemma not_text_usage: "ev_Type e = EventUsage \<Longrightarrow> \<not> snapshotText e"
  by (simp add: snapshotText_def)

lemma snapshotText_clone: "plainText e \<Longrightarrow> snapshotText (cloneEvent e) = snapshotText e"
  by (auto simp: snapshotText_def plainText_def)

lemma grow_Inr: "grow s d = Inr s1 \<Longrightarrow>
    s1 = s\<lparr>es_bytes := es_bytes s + d\<rparr> \<and> es_bytes s + d \<le> maxCompletedEventBytes"
  by (auto simp: grow_def split: if_splits)

lemma appendNew_Inr:
  assumes "appendNew body rest s e = Inr s1"
  obtains d where "s1 = s\<lparr>es_bytes := es_bytes s + d, es_events := es_events s @ [cloneEvent e],
      es_lastSize := snapshotEventSize body rest e,
      es_text := (if snapshotText e then ev_Text e else [])\<rparr>"
    and "d = (if es_events s \<noteq> [] then snapshotEventSize body rest e + 1 else snapshotEventSize body rest e)"
    and "es_bytes s + d \<le> maxCompletedEventBytes"
  using assms by (auto simp: appendNew_def Let_def split: sum.splits dest!: grow_Inr)

lemma mergeUsage_Inr:
  assumes "mergeUsage body rest s m = Inr s1"
  shows "s1 = s\<lparr>es_bytes := es_bytes s + (snapshotEventSize body rest m - es_lastSize s),
      es_events := butlast (es_events s) @ [m], es_lastSize := snapshotEventSize body rest m\<rparr>
    \<and> es_bytes s + (snapshotEventSize body rest m - es_lastSize s) \<le> maxCompletedEventBytes"
  using assms by (auto simp: mergeUsage_def Let_def split: sum.splits dest!: grow_Inr)

definition textGrowth :: "(string \<Rightarrow> int) \<Rightarrow> Event \<Rightarrow> Event \<Rightarrow> int" where
  "textGrowth body last1 e = jsonStringSize body (ev_Text e) - 2
     + (if ev_Type e = EventThinking
        then progressFieldSize (max 1 (ev_ProgressEvents last1) + max 1 (ev_ProgressEvents e))
             - progressFieldSize (ev_ProgressEvents last1) else 0)"

lemma extendText_Inr:
  assumes "extendText body s last1 e = Inr s1"
  shows "s1 = s\<lparr>es_bytes := es_bytes s + textGrowth body last1 e,
      es_text := es_text s @ ev_Text e,
      es_events := butlast (es_events s) @ [last1\<lparr>ev_Text := es_text s @ ev_Text e,
        ev_ProgressEvents := (if ev_Type e = EventThinking
               then max 1 (ev_ProgressEvents last1) + max 1 (ev_ProgressEvents e)
               else ev_ProgressEvents last1)\<rparr>],
      es_lastSize := es_lastSize s + textGrowth body last1 e\<rparr>
    \<and> es_bytes s + textGrowth body last1 e \<le> maxCompletedEventBytes"
  using assms
  by (auto simp: extendText_def textGrowth_def Let_def split: sum.splits if_splits dest!: grow_Inr)

text \<open>One step refines the specification and keeps the string builder in step with the last event.\<close>

lemma snapshotAppend_refines:
  assumes "snapshotAppend body rest s e = Inr s1" and "builderOk s" and "plainText e"
  shows "es_events s1 = addEvent (es_events s) e \<and> builderOk s1"
proof -
  define s' where "s' = (if es_bytes s = 0 then s\<lparr>es_bytes := 2\<rparr> else s)"
  have ev: "es_events s' = es_events s" "es_text s' = es_text s" by (simp_all add: s'_def)
  have new: "es_events s1 = es_events s @ [cloneEvent e] \<and> builderOk s1"
    if "appendNew body rest s' e = Inr s1"
    by (rule appendNew_Inr [OF that])
       (auto simp: ev builderOk_def snapshotText_clone [OF assms(3)])
  show ?thesis
  proof (cases "es_events s = []")
    case True
    with assms(1) have "appendNew body rest s' e = Inr s1"
      by (simp add: snapshotAppend_def Let_def ev flip: s'_def)
    with new True show ?thesis by (simp add: addEvent_def)
  next
    case False
    let ?l = "last (es_events s)"
    show ?thesis
    proof (cases "ev_Type ?l = ev_Type e \<and> snapshotText ?l \<and> snapshotText e")
      case True
      with assms(1) False have "extendText body s' ?l e = Inr s1"
        by (simp add: snapshotAppend_def Let_def ev flip: s'_def)
      from extendText_Inr [OF this] True False assms(2) show ?thesis
        by (auto simp: ev builderOk_def addEvent_def coalesce_def)
    next
      case noText: False
      show ?thesis
      proof (cases "mergeSnapshotUsage ?l e")
        case None
        with assms(1) False noText have "appendNew body rest s' e = Inr s1"
          by (auto simp: snapshotAppend_def Let_def ev simp flip: s'_def)
        with new None noText False show ?thesis
          by (auto simp: addEvent_def coalesce_def)
      next
        case (Some m)
        with assms(1) False noText have "mergeUsage body rest s' m = Inr s1"
          by (auto simp: snapshotAppend_def Let_def ev simp flip: s'_def)
        from mergeUsage_Inr [OF this] Some noText False mergeSnapshotUsage_type [OF Some]
        show ?thesis
          by (auto simp: ev builderOk_def addEvent_def coalesce_def not_text_usage)
      qed
    qed
  qed
qed

lemma snapshotAppendAll_refines:
  "snapshotAppendAll body rest s es = Inr s1 \<Longrightarrow> builderOk s \<Longrightarrow> \<forall>e \<in> set es. plainText e \<Longrightarrow>
     es_events s1 = foldl addEvent (es_events s) es \<and> builderOk s1"
  by (induction es arbitrary: s)
     (auto split: sum.splits dest: snapshotAppend_refines)

lemma newSnapshot_simps [simp]:
  "builderOk newSnapshot" "es_events newSnapshot = []" "es_bytes newSnapshot = 0"
  by (simp_all add: builderOk_def newSnapshot_def)

lemma snapshot_refines_coalescing:
  assumes "snapshotAppendAll body rest newSnapshot es = Inr s" and "\<forall>e \<in> set es. plainText e"
  shows "es_events s = foldl addEvent [] es"
  using snapshotAppendAll_refines [OF assms(1) _ assms(2)] by simp

lemma addEvent_cases:
  obtains (first) "es = []" "addEvent es e = [cloneEvent e]"
  | (merged) xs x m where "es = xs @ [x]" "coalesce x e = Some m" "addEvent es e = xs @ [m]"
  | (added) "es \<noteq> []" "addEvent es e = es @ [cloneEvent e]"
proof (cases es rule: rev_cases)
  case Nil
  then show ?thesis using first by (simp add: addEvent_def)
next
  case (snoc xs x)
  show ?thesis
  proof (cases "coalesce x e")
    case None
    then show ?thesis using added snoc by (simp add: addEvent_def)
  next
    case (Some m)
    then show ?thesis using merged snoc by (simp add: addEvent_def)
  qed
qed

section \<open>What coalescing preserves\<close>

lemma tokenCount_clone [simp]: "tokenCount (cloneEvent e) = tokenCount e"
  by (simp add: tokenCount_def)

lemma observe_clone [simp]: "observe f (cloneEvent e) = observe f e"
  by (simp add: observe_def observeTokenDelta_def split: EventType.split)

lemma wrap64_add_left: "wrap64 (wrap64 a + b) = wrap64 (a + b)"
  unfolding wrap64_def by (simp add: mod_simps algebra_simps)

lemma observeTokenDelta_add:
  assumes "\<not> countBad (tokenCount a)" "\<not> countBad (tokenCount b)" "\<not> countBad (tokenCount m)"
    and "oc_Value (tokenCount m) = oc_Value (tokenCount a) + oc_Value (tokenCount b)"
  shows "observeTokenDelta (observeTokenDelta f a) b = observeTokenDelta f m"
  using assms by (simp add: observeTokenDelta_def countBad_def wrap64_add_left add.assoc)

lemma mergeSnapshotUsage_count:
  assumes "mergeSnapshotUsage a b = Some m"
  shows "\<not> countBad (tokenCount a)" "\<not> countBad (tokenCount b)" "\<not> countBad (tokenCount m)"
    and "oc_Value (tokenCount m) = oc_Value (tokenCount a) + oc_Value (tokenCount b)"
proof -
  have t: "\<not> ev_Tokens a < 0" "\<not> ev_Tokens b < 0"
    using assms by (auto simp: mergeSnapshotUsage_def split: if_splits)
  have all: "\<not> countBad (tokenCount a) \<and> \<not> countBad (tokenCount b) \<and> \<not> countBad (tokenCount m)
    \<and> oc_Value (tokenCount m) = oc_Value (tokenCount a) + oc_Value (tokenCount b)"
  proof (cases "ev_Usage a")
    case None
    then have "m = (cloneEvent a)\<lparr>ev_Tokens := ev_Tokens a + ev_Tokens b\<rparr>" "ev_Usage b = None"
      using assms by (auto simp: mergeSnapshotUsage_def Let_def split: if_splits option.splits)
    then show ?thesis using t None by (simp add: tokenCount_def countBad_def)
  next
    case (Some u)
    then show ?thesis
      using assms t
      by (auto simp: mergeSnapshotUsage_def tokenCount_def countBad_def Let_def
          split: if_splits option.splits)
  qed
  then show "\<not> countBad (tokenCount a)" "\<not> countBad (tokenCount b)" "\<not> countBad (tokenCount m)"
    "oc_Value (tokenCount m) = oc_Value (tokenCount a) + oc_Value (tokenCount b)" by blast+
qed

lemma observe_mergeUsage:
  assumes "mergeSnapshotUsage a b = Some m"
  shows "observe (observe f a) b = observe f m"
  using observeTokenDelta_add [OF mergeSnapshotUsage_count [OF assms]] mergeSnapshotUsage_type [OF assms]
  by (simp add: observe_def)

lemma observe_extendText:
  assumes "ev_Type a = ev_Type b" "snapshotText a" "snapshotText b" "coalesce a b = Some m"
  shows "observe (observe f a) b = observe f m"
proof (cases "ev_Type b = EventThinking")
  case True
  have "1 \<le> max 1 (ev_ProgressEvents a) + max 1 (ev_ProgressEvents b)" by simp
  with True assms show ?thesis
    by (auto simp: coalesce_def observe_def snapshotText_def max_def)
next
  case False
  with assms show ?thesis
    by (auto simp: coalesce_def observe_def snapshotText_def)
qed

lemma observe_coalesce:
  assumes "coalesce a b = Some m"
  shows "observe (observe f a) b = observe f m"
proof (cases "ev_Type a = ev_Type b \<and> snapshotText a \<and> snapshotText b")
  case True
  with assms show ?thesis by (intro observe_extendText) auto
next
  case False
  with assms have "mergeSnapshotUsage a b = Some m" by (auto simp: coalesce_def)
  then show ?thesis by (rule observe_mergeUsage)
qed

lemma observeAll_snoc: "observeAll f (es @ [e]) = observe (observeAll f es) e"
  by (simp add: observeAll_def)

lemma observeAll_addEvent: "observeAll f (addEvent es e) = observe (observeAll f es) e"
  by (cases es e rule: addEvent_cases)
     (simp_all add: observeAll_snoc observe_coalesce, simp add: observeAll_def)

lemma observeAll_foldl_addEvent: "observeAll f (foldl addEvent [] es) = observeAll f es"
  by (induction es rule: rev_induct) (simp_all add: observeAll_addEvent observeAll_snoc)

text \<open>A replay is billed exactly like the live run it replays.\<close>

text \<open>
  C25: Coalescing never changes billing: folding the usage accounting over the events of a snapshot
  gives exactly the facts that folding it over the live events gave, whatever was merged.
\<close>

theorem snapshot_bills_like_live:
  assumes "snapshotAppendAll body rest newSnapshot es = Inr s" and "\<forall>e \<in> set es. plainText e"
  shows "observeAll (newUsageFacts measured) (es_events s) = observeAll (newUsageFacts measured) es"
  using snapshot_refines_coalescing [OF assms] by (simp add: observeAll_foldl_addEvent)

text \<open>Nothing the client sees is lost, reordered or moved across a boundary.\<close>

definition textOf :: "EventType \<Rightarrow> Event list \<Rightarrow> string" where
  "textOf t es = concat (map ev_Text (filter (\<lambda>e. ev_Type e = t) es))"

lemma coalesce_type: "coalesce a b = Some m \<Longrightarrow> ev_Type a = ev_Type b \<and> ev_Type m = ev_Type b"
  by (auto simp: coalesce_def dest: mergeSnapshotUsage_type split: if_splits)

lemma coalesce_text:
  assumes "coalesce a b = Some m" and "ev_Type b \<noteq> EventUsage"
  shows "ev_Text m = ev_Text a @ ev_Text b"
  using assms by (auto simp: coalesce_def dest: mergeSnapshotUsage_type split: if_splits)

lemma textOf_append [simp]: "textOf t (xs @ ys) = textOf t xs @ textOf t ys"
  by (simp add: textOf_def)

lemma textOf_single: "textOf t [e] = (if ev_Type e = t then ev_Text e else [])"
  by (simp add: textOf_def)

lemma textOf_addEvent:
  assumes "t \<noteq> EventUsage"
  shows "textOf t (addEvent es e) = textOf t (es @ [e])"
proof (cases es e rule: addEvent_cases)
  case (merged xs x m)
  then show ?thesis
    using assms coalesce_type [OF merged(2)] coalesce_text [OF merged(2)]
    by (auto simp: textOf_def)
qed (simp_all add: textOf_def)

lemma remdups_adj_snoc:
  "xs \<noteq> [] \<Longrightarrow> remdups_adj (xs @ [z]) = remdups_adj xs @ (if last (remdups_adj xs) = z then [] else [z])"
  by (cases xs rule: rev_cases) (simp_all add: remdups_adj_append_two)

lemma remdups_adj_cong_snoc:
  assumes "remdups_adj xs = remdups_adj ys"
  shows "remdups_adj (xs @ [z]) = remdups_adj (ys @ [z])"
proof (cases "xs = []")
  case True
  then have "ys = []" using assms by (metis remdups_adj_Nil_iff)
  with True show ?thesis by simp
next
  case False
  then have "ys \<noteq> []" using assms by (metis remdups_adj_Nil_iff)
  with False assms show ?thesis by (simp add: remdups_adj_snoc)
qed

lemma remdups_adj_addEvent:
  "remdups_adj (map ev_Type (addEvent es e)) = remdups_adj (map ev_Type (es @ [e]))"
proof (cases es e rule: addEvent_cases)
  case (merged xs x m)
  then show ?thesis
    using coalesce_type [OF merged(2)] by (simp add: remdups_adj_append_two)
qed simp_all

lemma addEvent_all:
  assumes "t \<noteq> EventUsage"
  shows "textOf t (foldl addEvent [] es) = textOf t es"
  using assms by (induction es rule: rev_induct) (simp_all add: textOf_addEvent)

lemma addEvent_order:
  "remdups_adj (map ev_Type (foldl addEvent [] es)) = remdups_adj (map ev_Type es)"
proof (induction es rule: rev_induct)
  case (snoc e es)
  then have "remdups_adj (map ev_Type (foldl addEvent [] es) @ [ev_Type e])
      = remdups_adj (map ev_Type es @ [ev_Type e])"
    by (rule remdups_adj_cong_snoc)
  then show ?case by (simp add: remdups_adj_addEvent)
qed simp

text \<open>
  Coalescing never changes what the caller reads: for every kind of event but the token deltas the
  concatenated text of the snapshot is that of the live events, and the sequence of event kinds, runs
  of one kind counted once, is the same.
\<close>

theorem snapshot_preserves_output:
  assumes "snapshotAppendAll body rest newSnapshot es = Inr s" and "\<forall>e \<in> set es. plainText e"
    and "t \<noteq> EventUsage"
  shows "textOf t (es_events s) = textOf t es
    \<and> remdups_adj (map ev_Type (es_events s)) = remdups_adj (map ev_Type es)"
  using snapshot_refines_coalescing [OF assms(1,2)] assms(3)
  by (simp add: addEvent_all addEvent_order)

section \<open>The byte bound\<close>

text \<open>
  \<open>encodedSize\<close> is the size of the JSON array of the snapshot's events.  The counter of the code
  is an upper bound of it: the cached size of the last event is exact for the usage events it is
  subtracted for, and extending a text adds at least what the encoding grows by.
\<close>

definition encodedSize :: "(string \<Rightarrow> int) \<Rightarrow> (Event \<Rightarrow> int) \<Rightarrow> Event list \<Rightarrow> int" where
  "encodedSize body rest es =
     2 + sum_list (map (snapshotEventSize body rest) es) + (int (length es) - 1)"

definition covered :: "(string \<Rightarrow> int) \<Rightarrow> (Event \<Rightarrow> int) \<Rightarrow> int \<Rightarrow> eventSnapshot \<Rightarrow> bool" where
  "covered body rest start s =
     (builderOk s
      \<and> (if es_events s = [] then es_bytes s = start
         else encodedSize body rest (es_events s) \<le> es_bytes s
              \<and> (ev_Type (last (es_events s)) = EventUsage \<longrightarrow>
                   es_lastSize s = snapshotEventSize body rest (last (es_events s)))))"

lemma encodedSize_snoc:
  "encodedSize body rest (es @ [e])
     = (if es = [] then 2 + snapshotEventSize body rest e
        else encodedSize body rest es + snapshotEventSize body rest e + 1)"
  by (cases es) (simp_all add: encodedSize_def)

lemma encodedSize_replace:
  "es \<noteq> [] \<Longrightarrow> encodedSize body rest (butlast es @ [m])
     = encodedSize body rest es - snapshotEventSize body rest (last es) + snapshotEventSize body rest m"
  by (cases es rule: rev_cases) (simp_all add: encodedSize_snoc)

lemma snapshotEventSize_clone [simp]:
  "snapshotEventSize body rest (cloneEvent e) = snapshotEventSize body rest e"
  by (simp add: snapshotEventSize_def cloneEvent_def)

lemma extended_size:
  assumes "snapshotText l" "snapshotText e" "ev_Type l = ev_Type e"
    and sub: "\<And>a b. body (a @ b) \<le> body a + body b"
  shows "snapshotEventSize body rest (l\<lparr>ev_Text := ev_Text l @ ev_Text e,
        ev_ProgressEvents := (if ev_Type e = EventThinking
               then max 1 (ev_ProgressEvents l) + max 1 (ev_ProgressEvents e)
               else ev_ProgressEvents l)\<rparr>)
     \<le> snapshotEventSize body rest l + textGrowth body l e"
  using assms(1-3) sub [of "ev_Text l" "ev_Text e"]
  by (auto simp: snapshotEventSize_def textGrowth_def jsonStringSize_def snapshotText_def)

lemma appendNew_covered:
  assumes "appendNew body rest s e = Inr s1" "covered body rest 2 s" "plainText e"
  shows "covered body rest 0 s1 \<and> es_bytes s1 \<le> maxCompletedEventBytes"
  by (rule appendNew_Inr [OF assms(1)])
     (use assms(2) in \<open>auto simp: covered_def builderOk_def snapshotText_clone [OF assms(3)]
        encodedSize_snoc split: if_splits\<close>)

lemma mergeUsage_covered:
  assumes "mergeUsage body rest s m = Inr s1" "covered body rest 2 s" "es_events s \<noteq> []"
    and "ev_Type (last (es_events s)) = EventUsage" "ev_Type m = EventUsage"
  shows "covered body rest 0 s1 \<and> es_bytes s1 \<le> maxCompletedEventBytes"
  using mergeUsage_Inr [OF assms(1)] assms(2-)
  by (auto simp: covered_def builderOk_def not_text_usage encodedSize_replace)

lemma extendText_covered:
  assumes "extendText body s (last (es_events s)) e = Inr s1" "covered body rest 2 s" "es_events s \<noteq> []"
    and t: "ev_Type (last (es_events s)) = ev_Type e" "snapshotText (last (es_events s))" "snapshotText e"
    and sub: "\<And>a b. body (a @ b) \<le> body a + body b"
  shows "covered body rest 0 s1 \<and> es_bytes s1 \<le> maxCompletedEventBytes"
proof -
  have "ev_Type e \<noteq> EventUsage" using t(3) not_text_usage by blast
  moreover have "es_text s = ev_Text (last (es_events s))"
    using assms(2,3) t(2) by (simp add: covered_def builderOk_def)
  ultimately show ?thesis
    using extendText_Inr [OF assms(1)] assms(2,3) t extended_size [OF t(2,3,1) sub, of rest]
    by (simp add: covered_def builderOk_def encodedSize_replace)
qed

lemma snapshotAppend_covered:
  assumes app: "snapshotAppend body rest s e = Inr s1" and cov: "covered body rest 0 s"
    and plain: "plainText e" and sub: "\<And>a b. body (a @ b) \<le> body a + body b"
  shows "covered body rest 0 s1 \<and> es_bytes s1 \<le> maxCompletedEventBytes"
proof -
  define s' where "s' = (if es_bytes s = 0 then s\<lparr>es_bytes := 2\<rparr> else s)"
  have ev: "es_events s' = es_events s" by (simp add: s'_def)
  have cov': "covered body rest 2 s'"
    using cov by (auto simp: covered_def s'_def builderOk_def)
  let ?l = "last (es_events s')"
  consider (new) "appendNew body rest s' e = Inr s1"
    | (ext) "es_events s' \<noteq> []" "ev_Type ?l = ev_Type e" "snapshotText ?l" "snapshotText e"
        "extendText body s' ?l e = Inr s1"
    | (use) m where "es_events s' \<noteq> []" "mergeSnapshotUsage ?l e = Some m"
        "mergeUsage body rest s' m = Inr s1"
    using app unfolding snapshotAppend_def Let_def
    by (fold s'_def) (auto split: if_splits option.splits)
  then show ?thesis
  proof cases
    case new
    then show ?thesis using appendNew_covered cov' plain by blast
  next
    case ext
    then show ?thesis using extendText_covered [OF _ cov' _ _ _ _ sub] by blast
  next
    case use
    with mergeSnapshotUsage_type show ?thesis
      using mergeUsage_covered [OF use(3) cov' use(1)] by blast
  qed
qed

lemma snapshotAppendAll_covered:
  assumes sub: "\<And>a b. body (a @ b) \<le> body a + body b"
  shows "snapshotAppendAll body rest s es = Inr s1 \<Longrightarrow> covered body rest 0 s
    \<Longrightarrow> es_bytes s \<le> maxCompletedEventBytes \<Longrightarrow> \<forall>e \<in> set es. plainText e
    \<Longrightarrow> covered body rest 0 s1 \<and> es_bytes s1 \<le> maxCompletedEventBytes"
proof (induction es arbitrary: s)
  case (Cons e es)
  then obtain s2 where s2: "snapshotAppend body rest s e = Inr s2" "snapshotAppendAll body rest s2 es = Inr s1"
    by (auto split: sum.splits)
  with snapshotAppend_covered [OF s2(1) Cons.prems(2) _ sub] Cons show ?case by simp
qed simp

text \<open>
  The byte counter of a snapshot is an upper bound of the size of its JSON encoding and stays within
  the 16 MiB limit, for every encoder whose string bodies are subadditive.
\<close>

theorem snapshot_within_bound:
  assumes "snapshotAppendAll body rest newSnapshot es = Inr s" and "es \<noteq> []"
    and "\<forall>e \<in> set es. plainText e" and "\<forall>a b. body (a @ b) \<le> body a + body b"
  shows "encodedSize body rest (es_events s) \<le> es_bytes s \<and> es_bytes s \<le> maxCompletedEventBytes"
proof -
  have "covered body rest 0 s \<and> es_bytes s \<le> maxCompletedEventBytes"
    by (rule snapshotAppendAll_covered [OF _ assms(1)])
       (use assms in \<open>simp_all add: covered_def newSnapshot_def builderOk_def maxCompletedEventBytes_def\<close>)
  moreover have "es_events s \<noteq> []"
  proof -
    have "addEvent xs e \<noteq> []" for xs e
      by (cases xs e rule: addEvent_cases) simp_all
    then have "foldl addEvent [] es \<noteq> []"
      using assms(2) by (cases es rule: rev_cases) simp_all
    then show ?thesis
      using snapshotAppendAll_refines [OF assms(1) _ assms(3)] by simp
  qed
  ultimately show ?thesis by (simp add: covered_def)
qed

section \<open>Storing and restoring a snapshot\<close>

text \<open>Every event of a snapshot is already stripped of its checkpoint, so storing loses nothing.\<close>

definition stripped :: "Event \<Rightarrow> bool" where
  "stripped e = (ev_Checkpoint e = [] \<and> ev_Blobs e = [])"

lemma stripped_clone [simp]: "stripped (cloneEvent e)"
  by (simp add: stripped_def)

lemma restore_event: "stripped e \<Longrightarrow> eventFromPersisted (persistedEventFrom e) = e"
  by (cases e) (simp add: eventFromPersisted_def persistedEventFrom_def newEvent_def stripped_def)

lemma restore_events:
  "\<forall>e \<in> set es. ev_Type e \<noteq> EventZero \<and> stripped e \<Longrightarrow>
     eventsFromPersisted (map persistedEventFrom es) = Inr es"
  by (induction es) (simp_all add: restore_event, simp add: persistedEventFrom_def)

lemma mergeSnapshotUsage_stripped:
  assumes "mergeSnapshotUsage a b = Some m"
  shows "ev_Checkpoint m = [] \<and> ev_Blobs m = []"
proof (cases "ev_Usage a")
  case None
  then show ?thesis
    using assms by (auto simp: mergeSnapshotUsage_def Let_def split: if_splits option.splits)
next
  case (Some u)
  then show ?thesis
    using assms by (auto simp: mergeSnapshotUsage_def Let_def split: if_splits option.splits)
qed

lemma coalesce_stripped:
  assumes "coalesce a b = Some m" and "stripped a"
  shows "stripped m"
proof (cases "ev_Type a = ev_Type b \<and> snapshotText a \<and> snapshotText b")
  case True
  then show ?thesis using assms by (auto simp: coalesce_def stripped_def)
next
  case False
  then have "mergeSnapshotUsage a b = Some m" using assms(1) by (auto simp: coalesce_def)
  then show ?thesis unfolding stripped_def by (rule mergeSnapshotUsage_stripped)
qed

lemma addEvent_stripped:
  assumes "\<forall>x \<in> set es. stripped x"
  shows "\<forall>x \<in> set (addEvent es e). stripped x"
proof (cases es e rule: addEvent_cases)
  case (merged xs x m)
  then show ?thesis using assms coalesce_stripped by auto
qed (use assms in auto)

lemma foldl_addEvent_stripped: "\<forall>x \<in> set (foldl addEvent [] es). stripped x"
  by (induction es rule: rev_induct) (simp_all add: addEvent_stripped)

lemma addEvent_types:
  "set (map ev_Type (addEvent es e)) = insert (ev_Type e) (set (map ev_Type es))"
proof -
  have "set (remdups_adj (map ev_Type (addEvent es e))) = set (remdups_adj (map ev_Type (es @ [e])))"
    by (simp only: remdups_adj_addEvent)
  then show ?thesis by simp
qed

lemma foldl_addEvent_types: "set (map ev_Type (foldl addEvent [] es)) = set (map ev_Type es)"
  by (induction es rule: rev_induct) (simp_all only: foldl_append foldl.simps addEvent_types, simp_all)

lemma restore_persisted:
  assumes "persistEvents body rest es = Inr ps" and "\<forall>e \<in> set es. plainText e"
    and "\<forall>e \<in> set es. ev_Type e \<noteq> EventZero"
  shows "eventsFromPersisted ps = Inr (foldl addEvent [] es)"
proof -
  obtain s where s: "snapshotAppendAll body rest newSnapshot es = Inr s"
    and ps: "ps = map persistedEventFrom (es_events s)"
    using assms(1) by (auto simp: persistEvents_def split: sum.splits)
  have "ev_Type ` set (foldl addEvent [] es) = ev_Type ` set es"
    using foldl_addEvent_types [of es] by simp
  then have "\<forall>e \<in> set (foldl addEvent [] es). ev_Type e \<noteq> EventZero"
    using assms(3) by (metis imageE imageI)
  then show ?thesis
    using snapshot_refines_coalescing [OF s assms(2)] ps foldl_addEvent_stripped [of es] by (simp add: restore_events)
qed

text \<open>
  Storing and restoring loses nothing: the events read back from a stored snapshot are the coalesced
  live events, none rejected, none changed.
\<close>

theorem restored_snapshot_replays:
  assumes "persistEvents body rest es = Inr ps" and "\<forall>e \<in> set es. plainText e"
    and "\<forall>e \<in> set es. ev_Type e \<noteq> EventZero"
  shows "eventsFromPersisted ps = Inr (foldl addEvent [] es)"
  using assms by (rule restore_persisted)

section \<open>Examples\<close>

text \<open>Two text deltas, two token deltas and a terminal observation.\<close>

definition exampleEvents :: "Event list" where
  "exampleEvents = [(newEvent EventText)\<lparr>ev_Text := ''he''\<rparr>, (newEvent EventText)\<lparr>ev_Text := ''llo''\<rparr>,
     (newEvent EventUsage)\<lparr>ev_Tokens := 2\<rparr>, (newEvent EventUsage)\<lparr>ev_Tokens := 3\<rparr>, exampleTurn False]"

definition exampleSnapshot :: eventSnapshot where
  "exampleSnapshot = (case snapshotAppendAll (\<lambda>t. int (length t)) (\<lambda>e. 20) newSnapshot exampleEvents of
     Inr s \<Rightarrow> s | Inl e \<Rightarrow> newSnapshot)"

lemma example_appended:
  "snapshotAppendAll (\<lambda>t. int (length t)) (\<lambda>e. 20) newSnapshot exampleEvents = Inr exampleSnapshot"
  by code_simp

lemma example_plain: "\<forall>e \<in> set exampleEvents. plainText e"
  by code_simp

lemma example_coalesced: "map ev_Type (es_events exampleSnapshot) = [EventText, EventUsage, EventUsageObservation]
    \<and> map ev_Text (es_events exampleSnapshot) = [''hello'', [], []]
    \<and> map ev_Tokens (es_events exampleSnapshot) = [0, 5, 0]"
  by code_simp

lemma snapshot_bills_like_live_witness:
  "observeAll (newUsageFacts True) (es_events exampleSnapshot) = observeAll (newUsageFacts True) exampleEvents"
  by (rule snapshot_bills_like_live [OF example_appended example_plain])

lemma snapshot_preserves_output_witness:
  "textOf EventText (es_events exampleSnapshot) = textOf EventText exampleEvents
    \<and> remdups_adj (map ev_Type (es_events exampleSnapshot)) = remdups_adj (map ev_Type exampleEvents)"
  by (rule snapshot_preserves_output [OF example_appended example_plain]) simp

lemma snapshot_within_bound_witness:
  "encodedSize (\<lambda>t. int (length t)) (\<lambda>e. 20) (es_events exampleSnapshot) \<le> es_bytes exampleSnapshot
    \<and> es_bytes exampleSnapshot \<le> maxCompletedEventBytes"
  by (rule snapshot_within_bound [OF example_appended _ example_plain])
     (simp_all add: exampleEvents_def)

lemma restored_snapshot_replays_witness:
  "eventsFromPersisted (map persistedEventFrom (es_events exampleSnapshot)) = Inr (foldl addEvent [] exampleEvents)"
proof (rule restored_snapshot_replays [OF _ example_plain])
  show "persistEvents (\<lambda>t. int (length t)) (\<lambda>e. 20) exampleEvents = Inr (map persistedEventFrom (es_events exampleSnapshot))"
    by (simp add: persistEvents_def example_appended)
  show "\<forall>e \<in> set exampleEvents. ev_Type e \<noteq> EventZero" by code_simp
qed

end
