(* ===== verification/Batches.thy ===== *)
theory Batches
  imports Snapshot "HOL-Library.Multiset"
begin

text \<open>
  The identities by which a pending tool batch, its results and its billing segment are found
  again: \<open>segment.go\<close> and the pure helpers of \<open>state.go\<close>.  A batch is a set of trimmed tool-call
  ids kept as a sorted list; results are canonicalised the same way before they are digested, so
  the same batch is recognised in whatever order a client replays it.

  Two parameters stand for code that is not in the repository: \<open>sha\<close> is the hexadecimal SHA-256
  digest of a byte string, and \<open>canon\<close> the JSON canonicaliser of the tool schemas.  A fresh
  UUID is passed as an argument.
\<close>

section \<open>Bounds\<close>

definition maxPendingTools :: nat where "maxPendingTools = 256"
definition maxPendingToolBytes :: nat where "maxPendingToolBytes = 256 * 2 ^ 20"

section \<open>Records\<close>

record PendingTool =
  pt_MessageID :: "32 word"
  pt_ExecID :: string
  pt_ToolCallID :: string
  pt_UpstreamToolCallID :: string
  pt_Name :: string
  pt_Arguments :: string

record CompletedToolResult =
  cr_ToolCallID :: string
  cr_Content :: string
  cr_IsError :: bool
  cr_Media :: "MediaPart list"

section \<open>Tool-call ids\<close>

fun normalizeIDsLoop :: "string list \<Rightarrow> string list \<Rightarrow> string list" where
  "normalizeIDsLoop seen [] = []"
| "normalizeIDsLoop seen (i # ids) =
     (let t = trimSpace i in
      if t = [] then normalizeIDsLoop seen ids
      else if t \<in> set seen then normalizeIDsLoop seen ids
      else t # normalizeIDsLoop (t # seen) ids)"

definition normalizeToolIDs :: "string list \<Rightarrow> string list" where
  "normalizeToolIDs ids = sort (normalizeIDsLoop [] ids)"

definition pendingToolIDs :: "PendingTool list \<Rightarrow> string list" where
  "pendingToolIDs pending = sort (map (\<lambda>t. trimSpace (pt_ToolCallID t)) pending)"

lemma set_normalizeIDsLoop:
  "set (normalizeIDsLoop seen ids) = trimSpace ` set ids - {[]} - set seen"
  by (induction seen ids rule: normalizeIDsLoop.induct) (auto simp: Let_def)

lemma distinct_normalizeIDsLoop: "distinct (normalizeIDsLoop seen ids)"
  by (induction seen ids rule: normalizeIDsLoop.induct) (auto simp: Let_def set_normalizeIDsLoop)

lemma set_normalizeToolIDs [simp]: "set (normalizeToolIDs ids) = trimSpace ` set ids - {[]}"
  by (simp add: normalizeToolIDs_def set_normalizeIDsLoop)

lemma distinct_normalizeToolIDs [simp]: "distinct (normalizeToolIDs ids)"
  by (simp add: normalizeToolIDs_def distinct_normalizeIDsLoop)

lemma sorted_normalizeToolIDs [simp]: "sorted (normalizeToolIDs ids)"
  by (simp add: normalizeToolIDs_def)

lemma normalizeToolIDs_set: "normalizeToolIDs ids = sorted_list_of_set (trimSpace ` set ids - {[]})"
  by (intro sorted_distinct_set_unique) simp_all

lemma normalizeToolIDs_cong:
  "trimSpace ` set xs - {[]} = trimSpace ` set ys - {[]} \<Longrightarrow> normalizeToolIDs xs = normalizeToolIDs ys"
  by (simp add: normalizeToolIDs_set)

lemma normalizeToolIDs_idem [simp]: "normalizeToolIDs (normalizeToolIDs ids) = normalizeToolIDs ids"
proof (rule normalizeToolIDs_cong)
  have "trimSpace y \<in> trimSpace ` (trimSpace ` A - {[]})" if "y \<in> A" "trimSpace y \<noteq> []" for A y
    using that image_eqI [of "trimSpace y" trimSpace "trimSpace y"] by simp
  then have "trimSpace ` (trimSpace ` A - {[]}) - {[]} = trimSpace ` A - {[]}" for A
    by auto
  then show "trimSpace ` set (normalizeToolIDs ids) - {[]} = trimSpace ` set ids - {[]}" by simp
qed

lemma normalizeToolIDs_Nil [simp]: "normalizeToolIDs [] = []"
  by (simp add: normalizeToolIDs_def)

text \<open>Trimmed, non-empty, distinct, sorted: a list \<open>normalizeToolIDs\<close> leaves alone.\<close>

lemma normalizeToolIDs_fixed:
  "sorted ids \<Longrightarrow> distinct ids \<Longrightarrow> \<forall>i \<in> set ids. trimSpace i = i \<and> i \<noteq> [] \<Longrightarrow> normalizeToolIDs ids = ids"
  by (rule sorted_distinct_set_unique) (auto simp: image_iff)

definition batchSubsetOf :: "string list \<Rightarrow> string list \<Rightarrow> bool" where
  "batchSubsetOf batchIDs submittedIDs =
     (let submitted = normalizeToolIDs submittedIDs; batch = normalizeToolIDs batchIDs in
      batch \<noteq> [] \<and> (\<forall>i \<in> set batch. i \<in> set submitted))"

section \<open>Canonical tool results\<close>

definition resultSize :: "ToolResult \<Rightarrow> nat" where
  "resultSize r = length (trimSpace (tr_ToolCallID r)) + length (tr_Content r)
     + sum_list (map (\<lambda>m. length (mp_Data m)) (tr_Media r))"

definition canonicalResult :: "ToolResult \<Rightarrow> CompletedToolResult" where
  "canonicalResult r = \<lparr>cr_ToolCallID = trimSpace (tr_ToolCallID r), cr_Content = tr_Content r,
     cr_IsError = tr_IsError r, cr_Media = tr_Media r\<rparr>"

fun canonicalLoop :: "string list \<Rightarrow> nat \<Rightarrow> ToolResult list \<Rightarrow> CompletedToolResult list res" where
  "canonicalLoop seen n [] = Inr []"
| "canonicalLoop seen n (r # rs) =
     (let i = trimSpace (tr_ToolCallID r) in
      if i = [] then Inl ErrSessionNotPending
      else if i \<in> set seen then Inl ErrSessionNotPending
      else if n + resultSize r > maxPendingToolBytes
      then Inl (Errorf ''Cursor Agent v1 completed tool data exceeds %d bytes'' [N (int maxPendingToolBytes)])
      else case canonicalLoop (i # seen) (n + resultSize r) rs of
        Inl e \<Rightarrow> Inl e | Inr out \<Rightarrow> Inr (canonicalResult r # out))"

definition canonicalToolResults :: "ToolResult list \<Rightarrow> CompletedToolResult list res" where
  "canonicalToolResults results =
     (if results = [] \<or> length results > maxPendingTools then Inl ErrSessionNotPending
      else case canonicalLoop [] 0 results of
        Inl e \<Rightarrow> Inl e | Inr out \<Rightarrow> Inr (sort_key cr_ToolCallID out))"

definition completedBatchIDs :: "CompletedToolResult list \<Rightarrow> string list" where
  "completedBatchIDs results = normalizeToolIDs (map cr_ToolCallID results)"

definition digestMaterial :: "CompletedToolResult list \<Rightarrow> string" where
  "digestMaterial results = concat (map (\<lambda>r. cr_ToolCallID r @ NUL @ cr_Content r @ NUL
     @ (if cr_IsError r then ''1'' else ''0'') @ NUL) results)"

definition toolResultDigest :: "(string \<Rightarrow> string) \<Rightarrow> CompletedToolResult list \<Rightarrow> string" where
  "toolResultDigest sha results = ''sha256:'' @ sha (digestMaterial results)"

text \<open>The loop succeeds on a list exactly when the list, as a multiset, is acceptable.\<close>

lemma canonicalLoop_Inr:
  "canonicalLoop seen n rs = Inr out \<longleftrightarrow>
     out = map canonicalResult rs
     \<and> distinct (map (\<lambda>r. trimSpace (tr_ToolCallID r)) rs)
     \<and> (\<forall>r \<in> set rs. trimSpace (tr_ToolCallID r) \<noteq> [] \<and> trimSpace (tr_ToolCallID r) \<notin> set seen)
     \<and> (rs \<noteq> [] \<longrightarrow> n + sum_list (map resultSize rs) \<le> maxPendingToolBytes)"
proof (induction seen n rs arbitrary: out rule: canonicalLoop.induct)
  case (2 seen n r rs)
  show ?case
  proof (cases "trimSpace (tr_ToolCallID r) = [] \<or> trimSpace (tr_ToolCallID r) \<in> set seen
      \<or> n + resultSize r > maxPendingToolBytes")
    case True
    then show ?thesis by (auto simp: Let_def)
  next
    case False
    then have "canonicalLoop seen n (r # rs) = Inr out \<longleftrightarrow>
        (\<exists>o'. canonicalLoop (trimSpace (tr_ToolCallID r) # seen) (n + resultSize r) rs = Inr o'
              \<and> out = canonicalResult r # o')"
      by (auto simp: Let_def split: sum.splits)
    also have "\<dots> \<longleftrightarrow> out = canonicalResult r # map canonicalResult rs
        \<and> distinct (map (\<lambda>r. trimSpace (tr_ToolCallID r)) rs)
        \<and> (\<forall>r' \<in> set rs. trimSpace (tr_ToolCallID r') \<noteq> []
              \<and> trimSpace (tr_ToolCallID r') \<notin> set (trimSpace (tr_ToolCallID r) # seen))
        \<and> (rs \<noteq> [] \<longrightarrow> n + resultSize r + sum_list (map resultSize rs) \<le> maxPendingToolBytes)"
      using False by (subst 2) auto
    finally show ?thesis
      using False by (cases "rs = []") (auto simp: add.assoc image_iff)
  qed
qed auto

definition acceptable :: "ToolResult list \<Rightarrow> bool" where
  "acceptable rs = (rs \<noteq> [] \<and> length rs \<le> maxPendingTools
     \<and> distinct (map (\<lambda>r. trimSpace (tr_ToolCallID r)) rs)
     \<and> (\<forall>r \<in> set rs. trimSpace (tr_ToolCallID r) \<noteq> [])
     \<and> sum_list (map resultSize rs) \<le> maxPendingToolBytes)"

lemma canonicalToolResults_Inr:
  "canonicalToolResults rs = Inr c \<longleftrightarrow>
     acceptable rs \<and> c = sort_key cr_ToolCallID (map canonicalResult rs)"
proof (cases "canonicalLoop [] 0 rs")
  case (Inl e)
  then have "\<not> acceptable rs"
    using canonicalLoop_Inr [of "[]" 0 rs "map canonicalResult rs"] by (auto simp: acceptable_def)
  with Inl show ?thesis by (simp add: canonicalToolResults_def)
next
  case (Inr out)
  with canonicalLoop_Inr [of "[]" 0 rs out] show ?thesis
    by (auto simp: canonicalToolResults_def acceptable_def)
qed


lemma canonical_ids:
  assumes "canonicalToolResults rs = Inr c"
  shows "set (map cr_ToolCallID c) = trimSpace ` tr_ToolCallID ` set rs"
    and "distinct (map cr_ToolCallID c)" and "sorted (map cr_ToolCallID c)"
    and "\<forall>i \<in> set (map cr_ToolCallID c). trimSpace i = i \<and> i \<noteq> []"
proof -
  have c: "acceptable rs" "c = sort_key cr_ToolCallID (map canonicalResult rs)"
    using assms by (simp_all add: canonicalToolResults_Inr)
  then show "set (map cr_ToolCallID c) = trimSpace ` tr_ToolCallID ` set rs"
    by (simp add: image_image canonicalResult_def)
  have "mset (map cr_ToolCallID c) = mset (map (\<lambda>r. trimSpace (tr_ToolCallID r)) rs)"
    by (simp add: c(2) canonicalResult_def image_mset.compositionality comp_def)
  then show "distinct (map cr_ToolCallID c)"
    using c(1) mset_eq_imp_distinct_iff unfolding acceptable_def by blast
  show "sorted (map cr_ToolCallID c)" by (simp add: c(2))
  show "\<forall>i \<in> set (map cr_ToolCallID c). trimSpace i = i \<and> i \<noteq> []"
    using c by (auto simp: canonicalResult_def acceptable_def)
qed

lemma completedBatchIDs_canonical:
  "canonicalToolResults rs = Inr c \<Longrightarrow> completedBatchIDs c = map cr_ToolCallID c"
  unfolding completedBatchIDs_def using canonical_ids by (intro normalizeToolIDs_fixed)

text \<open>The order of the submitted results does not matter.\<close>

lemma acceptable_mset:
  assumes "mset rs = mset rs'"
  shows "acceptable rs = acceptable rs'"
proof -
  have "mset (map (\<lambda>r. trimSpace (tr_ToolCallID r)) rs) = mset (map (\<lambda>r. trimSpace (tr_ToolCallID r)) rs')"
    "mset (map resultSize rs) = mset (map resultSize rs')"
    using assms by simp_all
  then have "distinct (map (\<lambda>r. trimSpace (tr_ToolCallID r)) rs)
        = distinct (map (\<lambda>r. trimSpace (tr_ToolCallID r)) rs')
      \<and> sum_list (map resultSize rs) = sum_list (map resultSize rs')"
    by (metis mset_eq_imp_distinct_iff sum_mset_sum_list)
  then show ?thesis
    using assms mset_eq_setD [OF assms] mset_eq_length [OF assms] by (auto simp: acceptable_def)
qed

lemma sort_key_mset:
  assumes "mset xs = mset ys" and "distinct (map f xs)"
  shows "sort_key f xs = sort_key f ys"
proof (rule sort_key_inj_key_eq)
  show "mset xs = mset (sort_key f ys)" using assms(1) by simp
  show "inj_on f (set xs)" using assms(2) by (simp add: distinct_map)
  show "sorted (map f (sort_key f ys))" by simp
qed

lemma canonicalToolResults_mset:
  assumes "canonicalToolResults rs = Inr c" and "mset rs' = mset rs"
  shows "canonicalToolResults rs' = Inr c"
proof -
  have c: "acceptable rs" "c = sort_key cr_ToolCallID (map canonicalResult rs)"
    using assms(1) by (simp_all add: canonicalToolResults_Inr)
  have "distinct (map cr_ToolCallID (map canonicalResult rs))"
    using c(1) by (simp add: acceptable_def canonicalResult_def comp_def)
  then have "sort_key cr_ToolCallID (map canonicalResult rs) = sort_key cr_ToolCallID (map canonicalResult rs')"
    using assms(2) by (intro sort_key_mset) simp_all
  with c acceptable_mset [OF assms(2)] show ?thesis by (simp add: canonicalToolResults_Inr)
qed

section \<open>Selecting the results of a batch\<close>

fun filterWanted ::
  "string list \<Rightarrow> CompletedToolResult list \<Rightarrow> CompletedToolResult list \<times> string list" where
  "filterWanted wanted [] = ([], wanted)"
| "filterWanted wanted (r # rs) =
     (if cr_ToolCallID r \<notin> set wanted then filterWanted wanted rs
      else case filterWanted (removeAll (cr_ToolCallID r) wanted) rs of
        (out, missing) \<Rightarrow> (r # out, missing))"

definition completedResultsForBatch ::
  "CompletedToolResult list \<Rightarrow> string list \<Rightarrow> CompletedToolResult list option" where
  "completedResultsForBatch results batchIDs =
     (let wanted = normalizeToolIDs batchIDs in
      if wanted = [] then None
      else case filterWanted wanted results of
        (out, missing) \<Rightarrow> if missing \<noteq> [] then None else Some (sort_key cr_ToolCallID out))"

definition toolResultsForBatch :: "ToolResult list \<Rightarrow> string list \<Rightarrow> ToolResult list option" where
  "toolResultsForBatch results batchIDs = (case canonicalToolResults results of
     Inl e \<Rightarrow> None
   | Inr canonical \<Rightarrow> (case completedResultsForBatch canonical batchIDs of
       None \<Rightarrow> None
     | Some filtered \<Rightarrow> Some (map (\<lambda>r. \<lparr>tr_ToolCallID = cr_ToolCallID r, tr_Content = cr_Content r,
           tr_IsError = cr_IsError r, tr_Media = cr_Media r\<rparr>) filtered)))"

lemma filterWanted_distinct:
  "distinct (map cr_ToolCallID rs) \<Longrightarrow>
     filterWanted wanted rs = (filter (\<lambda>r. cr_ToolCallID r \<in> set wanted) rs,
       filter (\<lambda>i. i \<notin> cr_ToolCallID ` set rs) wanted)"
proof (induction wanted rs rule: filterWanted.induct)
  case (2 wanted r rs)
  have "filter (\<lambda>x. cr_ToolCallID x \<in> set wanted \<and> cr_ToolCallID x \<noteq> cr_ToolCallID r) rs
      = filter (\<lambda>x. cr_ToolCallID x \<in> set wanted) rs"
    using 2(3) by (intro filter_cong refl) (auto simp: image_iff)
  moreover have "filter (\<lambda>i. i \<notin> cr_ToolCallID ` set rs) (removeAll (cr_ToolCallID r) wanted)
      = filter (\<lambda>i. i \<noteq> cr_ToolCallID r \<and> i \<notin> cr_ToolCallID ` set rs) wanted"
    by (induction wanted) auto
  moreover have "filter (\<lambda>i. i \<notin> cr_ToolCallID ` set rs) wanted
      = filter (\<lambda>i. i \<noteq> cr_ToolCallID r \<and> i \<notin> cr_ToolCallID ` set rs) wanted"
    if "cr_ToolCallID r \<notin> set wanted"
    using that by (intro filter_cong) auto
  ultimately show ?case using 2 by auto
qed simp

lemma completedResultsForBatch_eq:
  assumes "distinct (map cr_ToolCallID rs)" and "sorted (map cr_ToolCallID rs)"
  shows "completedResultsForBatch rs batch =
    (if normalizeToolIDs batch \<noteq> [] \<and> set (normalizeToolIDs batch) \<subseteq> cr_ToolCallID ` set rs
     then Some (filter (\<lambda>r. cr_ToolCallID r \<in> set (normalizeToolIDs batch)) rs) else None)"
proof -
  have "sort_key cr_ToolCallID (filter P rs) = filter P rs" for P
    using assms(2) by (intro sort_key_id_if_sorted) (simp add: sorted_filter)
  then show ?thesis
    unfolding completedResultsForBatch_def Let_def filterWanted_distinct [OF assms(1)]
    by (auto simp: filter_empty_conv subset_iff)
qed

text \<open>
  Whatever else a request carries, the results of a batch are selected and canonicalised exactly
  as if they had been submitted alone.
\<close>

lemma select_batch:
  assumes "canonicalToolResults rs = Inr c" and "batchSubsetOf batch (map tr_ToolCallID rs)"
  shows "\<exists>m. completedResultsForBatch c batch = Some m \<and>
    canonicalToolResults (filter (\<lambda>r. trimSpace (tr_ToolCallID r) \<in> set (normalizeToolIDs batch)) rs) = Inr m"
proof -
  let ?B = "set (normalizeToolIDs batch)"
  let ?P = "\<lambda>r. trimSpace (tr_ToolCallID r) \<in> ?B"
  note ids = canonical_ids [OF assms(1)]
  have acc: "acceptable rs" and c: "c = sort_key cr_ToolCallID (map canonicalResult rs)"
    using assms(1) by (simp_all add: canonicalToolResults_Inr)
  have ne: "normalizeToolIDs batch \<noteq> []" and sub: "?B \<subseteq> cr_ToolCallID ` set c"
    using assms(2) ids(1) unfolding batchSubsetOf_def Let_def by (simp_all, blast)
  then have m: "completedResultsForBatch c batch = Some (filter (\<lambda>r. cr_ToolCallID r \<in> ?B) c)"
    using completedResultsForBatch_eq [OF ids(2,3), of batch] by simp
  have "filter ?P rs \<noteq> []"
  proof -
    obtain i where "i \<in> ?B" using ne by (cases "normalizeToolIDs batch") auto
    with sub ids(1) obtain r where "r \<in> set rs" "i = trimSpace (tr_ToolCallID r)" by auto
    with \<open>i \<in> ?B\<close> show ?thesis by (auto simp: filter_empty_conv)
  qed
  moreover have "sum_list (map resultSize (filter ?P rs)) \<le> sum_list (map resultSize rs)"
    by (rule sum_list_filter_le_nat)
  ultimately have "acceptable (filter ?P rs)"
    using acc le_trans [OF length_filter_le] distinct_map_filter
    unfolding acceptable_def by (auto simp: distinct_map_filter)
  moreover have "sort_key cr_ToolCallID (map canonicalResult (filter ?P rs)) = filter (\<lambda>r. cr_ToolCallID r \<in> ?B) c"
  proof -
    have "map canonicalResult (filter ?P rs) = filter (\<lambda>r. cr_ToolCallID r \<in> ?B) (map canonicalResult rs)"
      by (simp add: filter_map comp_def canonicalResult_def)
    then show ?thesis by (simp add: c filter_sort)
  qed
  ultimately show ?thesis using m by (simp add: canonicalToolResults_Inr)
qed

section \<open>Segment and turn identities\<close>

definition normalizeFollowUp :: "string \<Rightarrow> string" where
  "normalizeFollowUp text = trimSpace text"

definition generationSegmentID ::
  "(string \<Rightarrow> string) \<Rightarrow> string \<Rightarrow> string list \<Rightarrow> CompletedToolResult list \<Rightarrow> string \<Rightarrow> string" where
  "generationSegmentID sha fingerprint originalBatch accepted followUp =
     (let batch = normalizeToolIDs originalBatch in
      sha (trimSpace fingerprint @ NUL @ join NUL batch @ NUL @ toolResultDigest sha accepted
           @ NUL @ normalizeFollowUp followUp))"

definition meteredTurnPrefix :: string where "meteredTurnPrefix = ''turn2:''"

definition isMeteredTurn :: "string \<Rightarrow> bool" where
  "isMeteredTurn i = hasPrefix i meteredTurnPrefix"

definition meteredTurnID :: "string \<Rightarrow> string \<Rightarrow> string" where
  "meteredTurnID fresh i =
     (let t = trimSpace i in
      if hasPrefix t meteredTurnPrefix then t
      else meteredTurnPrefix @ (if t = [] then fresh else t))"

lemma meteredTurnID_metered: "isMeteredTurn (meteredTurnID fresh i)"
  by (simp add: isMeteredTurn_def meteredTurnID_def Let_def hasPrefix_iff)

text \<open>A blank byte cannot be completed across the boundary of two clean strings.\<close>

lemma trimRight_append_clean:
  assumes "trimRight t = t" and "t \<noteq> []"
  shows "trimRight (''turn2:'' @ t) = ''turn2:'' @ t"
proof -
  let ?q = "\<lambda>b a. space2 a b" and ?r = "\<lambda>c b a. space3 a b c"
  have clean: "\<not> startsWith3 space1 ?q ?r (rev t)"
  proof -
    have "trimWith space1 ?q ?r (rev t) = rev t"
      using assms(1) unfolding trimRight_def by (metis rev_rev_ident)
    then show ?thesis by (metis trimWith_clean)
  qed
  consider (one) a where "rev t = [a]" | (two) a b where "rev t = [a, b]"
    | (three) a b c s where "rev t = a # b # c # s"
    using assms(2) by (cases "rev t"; cases "tl (rev t)"; cases "tl (tl (rev t))") auto
  then have "\<not> startsWith3 space1 ?q ?r (rev t @ '':2nrut'')"
  proof cases
    case one
    with clean show ?thesis by (simp add: space2_def space3_def)
  next
    case two
    with clean show ?thesis by (simp add: space3_def)
  next
    case three
    with clean show ?thesis by simp
  qed
  then have "trimWith space1 ?q ?r (rev t @ '':2nrut'') = rev t @ '':2nrut''" by (rule trimWith_id)
  then show ?thesis by (simp add: trimRight_def)
qed

lemma trimSpace_turn:
  assumes "trimSpace t = t" and "t \<noteq> []"
  shows "trimSpace (meteredTurnPrefix @ t) = meteredTurnPrefix @ t"
proof -
  have "trimLeft (''turn2:'' @ t) = ''turn2:'' @ t"
    by (simp add: trimLeft_def space1_def space2_def space3_def)
  moreover have "trimRight t = t"
    using assms(1) by (metis trimRight_idem trimSpace_def)
  ultimately show ?thesis
    using assms(2) trimRight_append_clean [of t] by (simp add: trimSpace_def meteredTurnPrefix_def)
qed

lemma meteredTurnID_idem:
  assumes "trimSpace fresh = fresh" and "fresh \<noteq> []"
  shows "meteredTurnID other (meteredTurnID fresh i) = meteredTurnID fresh i"
proof -
  have "trimSpace (meteredTurnID fresh i) = meteredTurnID fresh i"
    using assms by (auto simp: meteredTurnID_def Let_def trimSpace_turn)
  then show ?thesis
    using meteredTurnID_metered [of fresh i] by (simp add: meteredTurnID_def [of other] isMeteredTurn_def)
qed

section \<open>Usage evidence carried between requests\<close>

definition usageEvidence :: "EventType \<Rightarrow> bool" where
  "usageEvidence t = (t \<in> {EventUsage, EventUsageObservation, EventHostedSearchCall,
     EventHostedSearchStarted, EventHostedSearchCompleted, EventThinkingCompleted})"

definition usageEvidenceEvents :: "Event list \<Rightarrow> Event list" where
  "usageEvidenceEvents events = map cloneEvent (filter (\<lambda>e. usageEvidence (ev_Type e)) events)"

definition isTurnEnd :: "Event \<Rightarrow> bool" where
  "isTurnEnd e = (ev_Type e = EventUsageObservation
     \<and> (case ev_Usage e of None \<Rightarrow> False | Some u \<Rightarrow> uo_Kind u = UsageKindTurnEnded))"

definition markCarried :: "Event \<Rightarrow> Event" where
  "markCarried e = (if isTurnEnd e then e\<lparr>ev_Usage := map_option (uo_Carried_update (\<lambda>_. True)) (ev_Usage e)\<rparr>
                    else e)"

definition meteredUsageCarry :: "Event list \<Rightarrow> Event list" where
  "meteredUsageCarry events =
     (let carry = usageEvidenceEvents events; found = (\<exists>e \<in> set carry. isTurnEnd e) in
      map markCarried carry
      @ (if found then []
         else [(newEvent EventUsageObservation)\<lparr>ev_Usage :=
                  Some ((noUsage UsageKindTurnEnded)\<lparr>uo_Carried := True\<rparr>)\<rparr>]))"

lemma usageEvidenceEvents_idem [simp]:
  "usageEvidenceEvents (usageEvidenceEvents es) = usageEvidenceEvents es"
  by (induction es) (simp_all add: usageEvidenceEvents_def)

lemma turnsOf_isTurnEnd: "turnsOf es = map (\<lambda>e. the (ev_Usage e)) (filter isTurnEnd es)"
  by (simp add: turnsOf_def isTurnEnd_def [abs_def])

lemma turnsOf_append [simp]: "turnsOf (es @ fs) = turnsOf es @ turnsOf fs"
  by (simp add: turnsOf_isTurnEnd)

lemma isTurnEnd_clone [simp]: "isTurnEnd (cloneEvent e) = isTurnEnd e"
  by (simp add: isTurnEnd_def)

lemma turnsOf_evidence: "turnsOf (usageEvidenceEvents es) = turnsOf es"
  by (induction es) (auto simp: turnsOf_isTurnEnd usageEvidenceEvents_def isTurnEnd_def usageEvidence_def)

lemma isTurnEnd_mark [simp]: "isTurnEnd (markCarried e) = isTurnEnd e"
  by (auto simp: isTurnEnd_def markCarried_def split: option.splits)

lemma turnsOf_mark: "turnsOf (map markCarried es) = map (uo_Carried_update (\<lambda>_. True)) (turnsOf es)"
proof (induction es)
  case (Cons e es)
  then show ?case
    by (cases "ev_Usage e") (auto simp: turnsOf_isTurnEnd, auto simp: markCarried_def isTurnEnd_def)
qed (simp add: turnsOf_isTurnEnd)

lemma turnsOf_carry:
  "turnsOf (meteredUsageCarry es) = (if turnsOf es = [] then [(noUsage UsageKindTurnEnded)\<lparr>uo_Carried := True\<rparr>]
     else map (uo_Carried_update (\<lambda>_. True)) (turnsOf es))"
proof -
  have "(\<exists>e \<in> set (usageEvidenceEvents es). isTurnEnd e) \<longleftrightarrow> turnsOf es \<noteq> []"
    using turnsOf_evidence [of es] unfolding turnsOf_isTurnEnd
    by (metis (no_types, lifting) filter_empty_conv map_is_Nil_conv)
  moreover have "isTurnEnd ((newEvent EventUsageObservation)\<lparr>ev_Usage :=
        Some ((noUsage UsageKindTurnEnded)\<lparr>uo_Carried := True\<rparr>)\<rparr>)"
    by (simp add: isTurnEnd_def newEvent_def noUsage_def)
  ultimately show ?thesis
    by (auto simp: meteredUsageCarry_def Let_def turnsOf_mark turnsOf_evidence,
        auto simp: turnsOf_isTurnEnd)
qed

section \<open>Validation of stored records\<close>

fun validatePendingLoop ::
  "string list \<Rightarrow> string list \<Rightarrow> nat \<Rightarrow> PendingTool list \<Rightarrow> unit res" where
  "validatePendingLoop seen seenUp n [] = Inr ()"
| "validatePendingLoop seen seenUp n (tool # tools) =
     (let i = trimSpace (pt_ToolCallID tool); u = trimSpace (pt_UpstreamToolCallID tool);
          n' = n + length (pt_ExecID tool) + length i + length u + length (pt_Name tool)
                 + length (pt_Arguments tool) in
      if i = [] then Inl (Errorf ''Cursor Agent v1 pending tool id is required'' [])
      else if i \<in> set seen then Inl (Errorf ''Cursor Agent v1 pending tool id %q is duplicated'' [S i])
      else if hasPrefix i ''toolu_bf_agentv1_'' \<and> u = []
      then Inl (Errorf ''Cursor Agent v1 routed pending tool is missing its upstream id'' [])
      else if u \<noteq> [] \<and> u \<in> set seenUp
      then Inl (Errorf ''Cursor Agent v1 upstream pending tool id %q is duplicated'' [S u])
      else if n' > maxPendingToolBytes
      then Inl (Errorf ''Cursor Agent v1 pending tool data exceeds %d bytes'' [N (int maxPendingToolBytes)])
      else validatePendingLoop (i # seen) (if u \<noteq> [] then u # seenUp else seenUp) n' tools)"

definition validatePendingTools :: "PendingTool list \<Rightarrow> unit res" where
  "validatePendingTools pending =
     (if length pending > maxPendingTools
      then Inl (Errorf ''Cursor Agent v1 pending tools exceed %d'' [N (int maxPendingTools)])
      else validatePendingLoop [] [] 0 pending)"

fun catalogBytesLoop :: "nat \<Rightarrow> ToolDefinition list \<Rightarrow> unit res" where
  "catalogBytesLoop n [] = Inr ()"
| "catalogBytesLoop n (t # ts) =
     (let n' = n + length (td_Name t) + length (td_Description t) + length (td_InputSchema t) in
      if n' > maxPendingToolBytes
      then Inl (Errorf ''Cursor Agent v1 tool catalog exceeds %d bytes'' [N (int maxPendingToolBytes)])
      else catalogBytesLoop n' ts)"

definition validateToolCatalog ::
  "(bytes \<Rightarrow> bytes option) \<Rightarrow> ToolDefinition list \<Rightarrow> ToolDefinition list res" where
  "validateToolCatalog canon tools =
     (if tools = [] then Inr []
      else case normalizeToolDefinitions canon tools of Inl e \<Rightarrow> Inl e
       | Inr normalized \<Rightarrow> (case catalogBytesLoop 0 normalized of
           Inl e \<Rightarrow> Inl e | Inr _ \<Rightarrow> Inr normalized))"

definition stateVersionV1 :: int where "stateVersionV1 = 1"
definition stateVersion :: int where "stateVersion = 2"

definition migrateRecordVersion :: "int \<Rightarrow> int res" where
  "migrateRecordVersion version =
     (if version = stateVersionV1 \<or> version = stateVersion then Inr stateVersion
      else Inl (Errorf ''unsupported Cursor Agent v1 state version %d'' [N version]))"

text \<open>What a validated batch looks like.\<close>

definition upstreamIDs :: "PendingTool list \<Rightarrow> string list" where
  "upstreamIDs pending = filter (\<lambda>u. u \<noteq> []) (map (\<lambda>t. trimSpace (pt_UpstreamToolCallID t)) pending)"

lemma validatePendingLoop_Inr:
  "validatePendingLoop seen seenUp n ts = Inr () \<Longrightarrow>
     distinct (map (\<lambda>t. trimSpace (pt_ToolCallID t)) ts) \<and> distinct (upstreamIDs ts)
     \<and> (\<forall>t \<in> set ts. trimSpace (pt_ToolCallID t) \<noteq> [] \<and> trimSpace (pt_ToolCallID t) \<notin> set seen
          \<and> (hasPrefix (trimSpace (pt_ToolCallID t)) ''toolu_bf_agentv1_'' \<longrightarrow>
               trimSpace (pt_UpstreamToolCallID t) \<noteq> []))
     \<and> (\<forall>u \<in> set (upstreamIDs ts). u \<notin> set seenUp)"
proof (induction seen seenUp n ts rule: validatePendingLoop.induct)
  case (2 seen seenUp n tool tools)
  let ?i = "trimSpace (pt_ToolCallID tool)" and ?u = "trimSpace (pt_UpstreamToolCallID tool)"
  have head: "?i \<noteq> []" "?i \<notin> set seen" "hasPrefix ?i ''toolu_bf_agentv1_'' \<longrightarrow> ?u \<noteq> []"
    "?u \<noteq> [] \<longrightarrow> ?u \<notin> set seenUp"
    using 2(2) by (auto simp: Let_def split: if_splits)
  obtain n' where tl: "validatePendingLoop (?i # seen) (if ?u \<noteq> [] then ?u # seenUp else seenUp) n' tools = Inr ()"
    and n': "n' = n + length (pt_ExecID tool) + length ?i + length ?u + length (pt_Name tool)
          + length (pt_Arguments tool)" "\<not> n' > maxPendingToolBytes"
    using 2(2) by (auto simp: Let_def split: if_splits)
  have IH: "distinct (map (\<lambda>t. trimSpace (pt_ToolCallID t)) tools) \<and> distinct (upstreamIDs tools)
     \<and> (\<forall>t \<in> set tools. trimSpace (pt_ToolCallID t) \<noteq> []
          \<and> trimSpace (pt_ToolCallID t) \<notin> set (?i # seen)
          \<and> (hasPrefix (trimSpace (pt_ToolCallID t)) ''toolu_bf_agentv1_'' \<longrightarrow>
               trimSpace (pt_UpstreamToolCallID t) \<noteq> []))
     \<and> (\<forall>u \<in> set (upstreamIDs tools). u \<notin> set (if ?u \<noteq> [] then ?u # seenUp else seenUp))"
    by (rule 2(1) [OF refl refl n'(1)]) (use head n'(2) tl in auto)
  have ups: "upstreamIDs (tool # tools) = (if ?u \<noteq> [] then ?u # upstreamIDs tools else upstreamIDs tools)"
    by (simp add: upstreamIDs_def)
  show ?case
    using IH head unfolding ups by (cases "?u = []") auto
qed (simp add: upstreamIDs_def)

lemma pendingToolIDs_normal:
  assumes "validatePendingTools pending = Inr ()"
  shows "normalizeToolIDs (pendingToolIDs pending) = pendingToolIDs pending"
proof -
  have "validatePendingLoop [] [] 0 pending = Inr ()"
    using assms by (simp add: validatePendingTools_def split: if_splits)
  from validatePendingLoop_Inr [OF this] show ?thesis
    by (intro normalizeToolIDs_fixed) (auto simp: pendingToolIDs_def)
qed

section \<open>Properties\<close>

text \<open>A batch of two results for the examples.\<close>

definition exampleResults :: "ToolResult list" where
  "exampleResults = [\<lparr>tr_ToolCallID = ''b'', tr_Content = ''2'', tr_IsError = True, tr_Media = []\<rparr>,
                     \<lparr>tr_ToolCallID = '' a'', tr_Content = ''1'', tr_IsError = False, tr_Media = []\<rparr>]"

definition exampleCanonical :: "CompletedToolResult list" where
  "exampleCanonical = [\<lparr>cr_ToolCallID = ''a'', cr_Content = ''1'', cr_IsError = False, cr_Media = []\<rparr>,
                       \<lparr>cr_ToolCallID = ''b'', cr_Content = ''2'', cr_IsError = True, cr_Media = []\<rparr>]"

lemma example_canonical: "canonicalToolResults exampleResults = Inr exampleCanonical"
  by code_simp

text \<open>
  The identity of a generation segment does not depend on how a client replays it: submitting the
  same results in another order, naming the original batch in another order, with repetitions or
  surrounding blanks, and padding the fingerprint or the follow-up text gives the same canonical results,
  the same digest and the same segment id.
\<close>

theorem segment_identity_stable:
  assumes "canonicalToolResults rs = Inr c" and "mset rs' = mset rs"
    and "trimSpace ` set batch' - {[]} = trimSpace ` set batch - {[]}"
    and "trimSpace fp' = trimSpace fp" and "trimSpace f' = trimSpace f"
  shows "canonicalToolResults rs' = Inr c
    \<and> generationSegmentID sha fp' batch' c f' = generationSegmentID sha fp batch c f"
  using canonicalToolResults_mset [OF assms(1,2)] normalizeToolIDs_cong [OF assms(3)] assms(4,5)
  by (simp add: generationSegmentID_def normalizeFollowUp_def)

lemma segment_identity_stable_witness:
  "canonicalToolResults (rev exampleResults) = Inr exampleCanonical
    \<and> generationSegmentID rev '' fp'' [''b '', ''a'', ''b''] exampleCanonical []
      = generationSegmentID rev ''fp'' [''a'', ''b''] exampleCanonical '' ''"
  by (rule segment_identity_stable [OF example_canonical]; code_simp)

text \<open>
  A batch is recognised inside a larger request: if the submitted results are canonical and cover
  the batch, the results selected for the batch are exactly what canonicalising the batch's own results
  alone gives, so they have the same digest as when the batch is submitted by itself.
\<close>

theorem batch_selected_as_if_alone:
  assumes "canonicalToolResults rs = Inr c" and "batchSubsetOf batch (map tr_ToolCallID rs)"
  shows "\<exists>m. completedResultsForBatch c batch = Some m
    \<and> canonicalToolResults (filter (\<lambda>r. trimSpace (tr_ToolCallID r) \<in> set (normalizeToolIDs batch)) rs) = Inr m
    \<and> completedBatchIDs m = normalizeToolIDs batch"
proof -
  obtain m where m: "completedResultsForBatch c batch = Some m"
    "canonicalToolResults (filter (\<lambda>r. trimSpace (tr_ToolCallID r) \<in> set (normalizeToolIDs batch)) rs) = Inr m"
    using select_batch [OF assms] by blast
  have "set (normalizeToolIDs batch) \<subseteq> (\<lambda>r. trimSpace (tr_ToolCallID r)) ` set rs"
    using assms(2) by (auto simp: batchSubsetOf_def Let_def subset_iff image_iff)
  then have "set (map cr_ToolCallID m) = set (normalizeToolIDs batch)"
    unfolding canonical_ids(1) [OF m(2)] set_filter image_image by blast
  then have "map cr_ToolCallID m = normalizeToolIDs batch"
    using canonical_ids [OF m(2)]
    by (metis distinct_normalizeToolIDs sorted_distinct_set_unique sorted_normalizeToolIDs)
  with m completedBatchIDs_canonical [OF m(2)] show ?thesis by auto
qed

lemma batch_selected_as_if_alone_witness:
  "\<exists>m. completedResultsForBatch exampleCanonical [''b''] = Some m \<and> completedBatchIDs m = [''b'']"
proof -
  have "batchSubsetOf [''b''] (map tr_ToolCallID exampleResults)" by code_simp
  from batch_selected_as_if_alone [OF example_canonical this]
  have "\<exists>m. completedResultsForBatch exampleCanonical [''b''] = Some m \<and> completedBatchIDs m = normalizeToolIDs [''b'']"
    by blast
  moreover have "normalizeToolIDs [''b''] = [''b'']" by code_simp
  ultimately show ?thesis by simp
qed

text \<open>
  Usage carried into a follow-up is billed once and never hidden: when an operation that starts with
  the carry of an earlier one reports measured output, the earlier operation had a terminal turn, the
  report is the earlier turns plus the operation's own turns, and the operation has a turn of its own.
\<close>

theorem carried_usage_billed_once:
  assumes "factsMeasuredTurn (observeAll (newUsageFacts True) (meteredUsageCarry earlier @ live)) = Some m"
  shows "turnsOf earlier \<noteq> []
    \<and> mt_Output m = turnTotal uo_Output (turnsOf earlier) + turnTotal uo_Output (turnsOf live)
    \<and> mt_TotalInput m = turnTotal uo_Input (turnsOf earlier) + turnTotal uo_Input (turnsOf live)
    \<and> (\<exists>u \<in> set (turnsOf live). \<not> uo_Carried u)"
proof -
  note sum = measured_sum [OF assms]
  have "turnsOf earlier \<noteq> []"
    using sum by (auto simp: turnsOf_carry countBad_def noUsage_def noCount_def)
  moreover have "turnTotal f (map (uo_Carried_update (\<lambda>_. True)) us) = turnTotal f us"
    if "f \<in> {uo_Input, uo_Output}" for f us
    using that by (auto simp: turnTotal_def comp_def)
  ultimately show ?thesis
    using sum by (auto simp: turnsOf_carry turnTotal_def)
qed

lemma carried_usage_billed_once_witness:
  "turnTotal uo_Output (turnsOf [exampleTurn False]) = 5
    \<and> (\<exists>m. factsMeasuredTurn (observeAll (newUsageFacts True)
           (meteredUsageCarry [exampleTurn False] @ [exampleTurn False])) = Some m \<and> mt_Output m = 10)"
proof -
  have "\<not> Option.is_none (factsMeasuredTurn (observeAll (newUsageFacts True)
      (meteredUsageCarry [exampleTurn False] @ [exampleTurn False])))" by code_simp
  then obtain m where m: "factsMeasuredTurn (observeAll (newUsageFacts True)
      (meteredUsageCarry [exampleTurn False] @ [exampleTurn False])) = Some m"
    by (auto simp: Option.is_none_def)
  have five: "turnTotal uo_Output (turnsOf [exampleTurn False]) = 5" by code_simp
  have "mt_Output m = turnTotal uo_Output (turnsOf [exampleTurn False]) + turnTotal uo_Output (turnsOf [exampleTurn False])"
    using carried_usage_billed_once [OF m] by blast
  with m five show ?thesis by auto
qed

text \<open>
  A validated list of pending tools has at most 256 tools with distinct non-blank ids and distinct
  upstream ids, every routed id has an upstream id, and the batch ids stored for it are already in the
  normal form in which batches are compared and hashed.
\<close>

theorem validated_pending_is_a_batch:
  assumes "validatePendingTools pending = Inr ()"
  shows "length pending \<le> maxPendingTools
    \<and> distinct (map (\<lambda>t. trimSpace (pt_ToolCallID t)) pending) \<and> distinct (upstreamIDs pending)
    \<and> (\<forall>t \<in> set pending. trimSpace (pt_ToolCallID t) \<noteq> []
        \<and> (hasPrefix (trimSpace (pt_ToolCallID t)) ''toolu_bf_agentv1_'' \<longrightarrow> trimSpace (pt_UpstreamToolCallID t) \<noteq> []))
    \<and> normalizeToolIDs (pendingToolIDs pending) = pendingToolIDs pending"
proof -
  have "validatePendingLoop [] [] 0 pending = Inr ()" "length pending \<le> maxPendingTools"
    using assms by (simp_all add: validatePendingTools_def split: if_splits)
  with validatePendingLoop_Inr [OF this(1)] pendingToolIDs_normal [OF assms] show ?thesis by auto
qed

definition examplePending :: "PendingTool list" where
  "examplePending = [\<lparr>pt_MessageID = 1, pt_ExecID = ''e'', pt_ToolCallID = ''b'', pt_UpstreamToolCallID = [],
      pt_Name = ''read'', pt_Arguments = ''{}''\<rparr>,
     \<lparr>pt_MessageID = 2, pt_ExecID = ''f'', pt_ToolCallID = ''a'', pt_UpstreamToolCallID = ''up'',
      pt_Name = ''read'', pt_Arguments = ''{}''\<rparr>]"

lemma example_pending: "validatePendingTools examplePending = Inr ()"
  by code_simp

lemma validated_pending_is_a_batch_witness:
  "normalizeToolIDs (pendingToolIDs examplePending) = pendingToolIDs examplePending
    \<and> pendingToolIDs examplePending = [''a'', ''b'']"
proof -
  have "pendingToolIDs examplePending = [''a'', ''b'']" by code_simp
  with validated_pending_is_a_batch [OF example_pending] show ?thesis by simp
qed

end
