(* ===== verification/Runner.thy ===== *)
theory Runner
  imports Frames Interaction Blobs Batches
begin

text \<open>
  \<open>Runner.Run\<close> (\<open>runner.go\<close>): one Agent v1 run from the request to its terminal event.  The
  local variables of the function are the record \<open>runState\<close>; each case of the select statement and
  each case of the message switch is a definition; the events handed to \<open>onEvent\<close> and the frames
  written to the stream are appended to the two traces of the state.

  Outside the model: the protobuf encoders and decoder (parameters \<open>encode\<close> and \<open>decode\<close>), the
  HTTP/2 stream (its writes fail as \<open>rn_writes\<close> says, its chunks are inputs), timers (inputs) and
  \<open>gzip\<close> (\<open>gunzip\<close>).  What the server, the client and the clock do is a list of inputs in the
  order in which the select statement takes them.
\<close>

section \<open>Outbound messages\<close>

record requestContextPolicy =
  cp_AllowHostedSearch :: bool
  cp_AllowHostedFetch :: bool
  cp_RequireToolCall :: bool
  cp_RequireHostedSearch :: bool
  cp_RequireHostedFetch :: bool
  cp_RequireHostedTool :: bool

text \<open>One constructor per encoder of \<open>wire.go\<close>, with its arguments.\<close>

datatype clientMessage =
    MCPResult "32 word" string ToolResult
  | AllowlistPrecheck "32 word" string string bool
  | KVGetResult "32 word" bytes
  | KVSetResult "32 word"
  | RequestContextResult "32 word" string string "ToolDefinition list" requestContextPolicy
  | InteractionDecision "32 word" int bool string
  | AskQuestionRejected "32 word" string
  | CreatePlanError "32 word" string
  | ExecRejected "32 word" string nat nat nat string
  | ExecError "32 word" string nat string
  | FetchError "32 word" string string
  | Heartbeat

section \<open>State\<close>

record runState =
  rn_turnEnded :: bool
  rn_pending :: messageTable
  rn_streamMCP :: messageTable
  rn_open :: openTable
  rn_toolCallSeen :: bool
  rn_parkSignaled :: bool
  rn_queued :: "(string \<times> ToolResult) list"
  rn_uses :: hostedUseTracker
  rn_blobs :: blobs
  rn_blobBytes :: nat
  rn_searchExecuted :: bool
  rn_fetchExecuted :: bool
  rn_toolResults :: bool
  rn_events :: "Event list"
  rn_sent :: "bytes list"
  rn_writes :: "err option list"

type_synonym 'a run = "(runState, 'a) io"

definition initialRun :: "RunRequest \<Rightarrow> blobs \<Rightarrow> nat \<Rightarrow> err option list \<Rightarrow> runState" where
  "initialRun request store blobBytes writes = \<lparr>rn_turnEnded = False, rn_pending = [], rn_streamMCP = [],
     rn_open = [], rn_toolCallSeen = False, rn_parkSignaled = False, rn_queued = [],
     rn_uses = newHostedUseTracker, rn_blobs = store, rn_blobBytes = blobBytes,
     rn_searchExecuted = False, rn_fetchExecuted = False, rn_toolResults = rr_ToolResults request,
     rn_events = [], rn_sent = [], rn_writes = writes\<rparr>"

definition emit :: "Event \<Rightarrow> unit run" where
  "emit e = modify (\<lambda>s.
     let executed = (ev_Type e = EventHostedSearchStarted \<or> ev_Type e = EventHostedSearchCompleted) in
     s\<lparr>rn_searchExecuted := (rn_searchExecuted s \<or> executed \<and> hostedKindIsSearch (ev_HostedSearch e)),
       rn_fetchExecuted := (rn_fetchExecuted s \<or> executed \<and> hostedKindIsFetch (ev_HostedSearch e)),
       rn_events := rn_events s @ [e]\<rparr>)"

text \<open>\<open>upstream.Write\<close>: the next element of \<open>rn_writes\<close> is its error, none left means success.\<close>

definition streamWrite :: "bytes \<Rightarrow> unit run" where
  "streamWrite b s = (case rn_writes s of
     Some e # ws \<Rightarrow> (Inl e, s\<lparr>rn_writes := ws\<rparr>)
   | _ \<Rightarrow> (Inr (), s\<lparr>rn_sent := rn_sent s @ [b], rn_writes := tl (rn_writes s)\<rparr>))"

definition send :: "(clientMessage \<Rightarrow> bytes res) \<Rightarrow> clientMessage \<Rightarrow> unit run" where
  "send encode m = bnd (lift (encode m)) (\<lambda>payload. writeConnectPayload streamWrite payload)"

definition fail :: "string \<Rightarrow> arg list \<Rightarrow> 'a run" where
  "fail fmt args = raise (Errorf fmt args)"

section \<open>Tool results\<close>

definition sendToolResult ::
  "(clientMessage \<Rightarrow> bytes res) \<Rightarrow> decodedWireMessage \<Rightarrow> ToolResult \<Rightarrow> unit run" where
  "sendToolResult encode pending result =
     bnd (send encode (MCPResult (dm_ID pending) (dm_ExecID pending) result)) (\<lambda>_.
     bnd (modify (\<lambda>s. let p = AList.delete (tr_ToolCallID result) (rn_pending s) in
        s\<lparr>rn_pending := p, rn_parkSignaled := (rn_parkSignaled s \<and> p \<noteq> [])\<rparr>)) (\<lambda>_.
     emit ((newEvent EventToolResultAccepted)\<lparr>ev_ToolResult := Some result\<rparr>)))"

definition receiveResult :: "(clientMessage \<Rightarrow> bytes res) \<Rightarrow> ToolResult \<Rightarrow> unit run" where
  "receiveResult encode result0 =
     (let i = trimSpace (tr_ToolCallID result0); result = result0\<lparr>tr_ToolCallID := i\<rparr> in
      if i = [] then fail ''Cursor Agent v1 tool result id is required'' []
      else bnd (gets (\<lambda>s. (map_of (rn_pending s) i, length (rn_queued s)))) (\<lambda>(pending, queued).
        case pending of
          None \<Rightarrow>
            if queued \<ge> maxPendingTools
            then fail ''Cursor Agent v1 queued tool results exceed %d'' [N (int maxPendingTools)]
            else modify (\<lambda>s. s\<lparr>rn_queued := AList.update i result (rn_queued s)\<rparr>)
        | Some message \<Rightarrow> sendToolResult encode message result))"

section \<open>Server messages\<close>

definition handleTurnEnded :: "decodedWireMessage \<Rightarrow> unit run" where
  "handleTurnEnded m =
     bnd (modify (\<lambda>s. s\<lparr>rn_turnEnded := True\<rparr>)) (\<lambda>_.
     bnd (emit ((newEvent EventUsageObservation)\<lparr>ev_Usage := Some (case dm_Usage m of
            None \<Rightarrow> noUsage UsageKindTurnEnded | Some u \<Rightarrow> u)\<rparr>)) (\<lambda>_.
     bnd (gets (\<lambda>s. rn_pending s \<noteq> [] \<and> \<not> rn_parkSignaled s)) (\<lambda>park.
       if park then bnd (modify (\<lambda>s. s\<lparr>rn_parkSignaled := True\<rparr>)) (\<lambda>_. emit (newEvent EventTurnEnded))
       else ret ())))"

definition handleHosted :: "RunRequest \<Rightarrow> decodedWireMessage \<Rightarrow> unit run" where
  "handleHosted request m =
     bnd (gets rn_open) (\<lambda>tbl.
     bnd (lift (applyHostedSearchMessage request m tbl)) (\<lambda>(tbl', es).
     bnd (modify (\<lambda>s. s\<lparr>rn_open := tbl'\<rparr>)) (\<lambda>_. forE es emit)))"

definition handleKVGet :: "(clientMessage \<Rightarrow> bytes res) \<Rightarrow> decodedWireMessage \<Rightarrow> unit run" where
  "handleKVGet encode m =
     bnd (gets (\<lambda>s. blobOf (rn_blobs s) (hexKey (dm_BlobID m)))) (\<lambda>data.
     send encode (KVGetResult (dm_ID m) data))"

definition handleKVSet :: "(clientMessage \<Rightarrow> bytes res) \<Rightarrow> decodedWireMessage \<Rightarrow> unit run" where
  "handleKVSet encode m =
     bnd (gets (\<lambda>s. storeBlob (rn_blobs s) (rn_blobBytes s) (hexKey (dm_BlobID m)) (dm_BlobData m)
                     maxBlobSize maxBlobStoreSize)) (\<lambda>r.
     bnd (lift r) (\<lambda>(store, n).
     bnd (modify (\<lambda>s. s\<lparr>rn_blobs := store, rn_blobBytes := n\<rparr>)) (\<lambda>_.
     send encode (KVSetResult (dm_ID m)))))"

definition handleRequestContext ::
  "(clientMessage \<Rightarrow> bytes res) \<Rightarrow> RunRequest \<Rightarrow> ToolDefinition list \<Rightarrow> decodedWireMessage \<Rightarrow> unit run" where
  "handleRequestContext encode request tools m =
     bnd (gets (\<lambda>s. \<lparr>cp_AllowHostedSearch = rr_AllowHostedSearch request,
         cp_AllowHostedFetch = rr_AllowHostedFetch request,
         cp_RequireToolCall = (rr_RequireToolCall request \<and> \<not> rr_Resume request \<and> \<not> rn_toolCallSeen s),
         cp_RequireHostedSearch = (rr_RequireHostedSearch request \<and> \<not> rr_Resume request \<and> \<not> rn_searchExecuted s),
         cp_RequireHostedFetch = (rr_RequireHostedFetch request \<and> \<not> rr_Resume request \<and> \<not> rn_fetchExecuted s),
         cp_RequireHostedTool = (rr_RequireHostedTool request \<and> \<not> rr_Resume request
            \<and> \<not> rn_searchExecuted s \<and> \<not> rn_fetchExecuted s)\<rparr>)) (\<lambda>policy.
     send encode (RequestContextResult (dm_ID m) (dm_ExecID m) (rr_SystemText request) tools policy))"

definition usesCount :: "hostedUseTracker \<Rightarrow> nat" where
  "usesCount t = length (ut_searchIDs t) + length (ut_fetchIDs t)"

definition handleInteraction ::
  "(clientMessage \<Rightarrow> bytes res) \<Rightarrow> RunRequest \<Rightarrow> decodedWireMessage \<Rightarrow> unit run" where
  "handleInteraction encode request m =
     (let kind = dm_InteractionKind m in
      if kind \<in> {2, 4, 5, 6, 9} then
        bnd (gets rn_uses) (\<lambda>before.
        let ((approve, reason), after) = hostedInteractionDecision request m before;
            approved = (approve \<and> kind \<in> {2, 5, 6, 9}) in
        bnd (modify (\<lambda>s. s\<lparr>rn_uses := after\<rparr>)) (\<lambda>_.
        bnd (send encode (InteractionDecision (dm_ID m) kind approve reason)) (\<lambda>_.
        if approved \<and> usesCount after > usesCount before
        then emit (newEvent EventHostedSearchCall) else ret ())))
      else if kind = 3 then
        send encode (AskQuestionRejected (dm_ID m) ''interactive questions are unavailable through BeefAPI'')
      else if kind = 7 then
        send encode (CreatePlanError (dm_ID m) ''plan creation is unavailable through BeefAPI'')
      else fail ''unsupported Cursor Agent v1 interaction query kind %d'' [N kind])"

definition rejectExec ::
  "(clientMessage \<Rightarrow> bytes res) \<Rightarrow> decodedWireMessage \<Rightarrow> nat \<Rightarrow> nat \<Rightarrow> nat \<Rightarrow> string \<Rightarrow> unit run" where
  "rejectExec encode m field variant reasonField reason =
     send encode (ExecRejected (dm_ID m) (dm_ExecID m) field variant reasonField reason)"

text \<open>The guards of the \<open>wireMCP\<close> case, in order.\<close>

definition mcpGuards :: "RunRequest \<Rightarrow> string \<Rightarrow> runState \<Rightarrow> unit res" where
  "mcpGuards request i s =
     (if map_of (rn_pending s) i = None \<and> length (rn_pending s) \<ge> maxPendingTools
      then Inl (Errorf ''Cursor Agent v1 pending tools exceed %d'' [N (int maxPendingTools)])
      else if map_of (rn_pending s) i = None \<and> rr_MaxParallelTools request > 0
              \<and> int (length (rn_pending s)) \<ge> rr_MaxParallelTools request
      then Inl (Errorf ''Cursor Agent v1 returned parallel caller tools when the client disabled them'' [])
      else Inr ())"

definition mcpToolCall :: "decodedWireMessage \<Rightarrow> Event" where
  "mcpToolCall m = (newEvent EventToolCall)\<lparr>ev_ToolCall := Some \<lparr>tc_MessageID = dm_ID m,
     tc_ExecID = dm_ExecID m, tc_ToolCallID = dm_ToolCallID m, tc_Name = dm_ToolName m,
     tc_Arguments = dm_ToolArguments m\<rparr>\<rparr>"

definition announceTool :: "RunRequest \<Rightarrow> decodedWireMessage \<Rightarrow> bool run" where
  "announceTool request m =
     bnd (emit (mcpToolCall m)) (\<lambda>_.
     if rr_HistoryRequestKey request \<noteq> [] then bnd (emit (newEvent EventDone)) (\<lambda>_. ret True)
     else bnd (gets rn_parkSignaled) (\<lambda>parked.
       if rr_MaxParallelTools request = 1 \<and> \<not> parked
       then bnd (modify (\<lambda>s. s\<lparr>rn_parkSignaled := True\<rparr>)) (\<lambda>_.
            bnd (emit (newEvent EventTurnEnded)) (\<lambda>_. ret False))
       else ret False))"

definition handleMCP ::
  "(clientMessage \<Rightarrow> bytes res) \<Rightarrow> RunRequest \<Rightarrow> decodedWireMessage \<Rightarrow> bool run" where
  "handleMCP encode request m0 =
     bnd (gets rn_toolResults) (\<lambda>open.
     if \<not> open then
       bnd (rejectExec encode m0 11 3 1 ''caller-tool continuation is unavailable'') (\<lambda>_. ret False)
     else
       let i = trimSpace (dm_ToolCallID m0); m = m0\<lparr>dm_ToolCallID := i\<rparr> in
       if i = [] then fail ''Cursor Agent v1 MCP call is missing tool_call_id'' []
       else
         bnd (modify (\<lambda>s. s\<lparr>rn_streamMCP := AList.delete i (rn_streamMCP s)\<rparr>)) (\<lambda>_.
         bnd (gets (mcpGuards request i)) (\<lambda>guard.
         bnd (lift guard) (\<lambda>_.
         bnd (modify (\<lambda>s. s\<lparr>rn_toolCallSeen := True, rn_pending := AList.update i m (rn_pending s)\<rparr>)) (\<lambda>_.
         bnd (gets (\<lambda>s. map_of (rn_queued s) i)) (\<lambda>queued.
         case queued of
           Some result \<Rightarrow>
             bnd (modify (\<lambda>s. s\<lparr>rn_queued := AList.delete i (rn_queued s)\<rparr>)) (\<lambda>_.
             bnd (sendToolResult encode m result) (\<lambda>_. ret False))
         | None \<Rightarrow> announceTool request m))))))"

definition handleUnsupported :: "decodedWireMessage \<Rightarrow> unit run" where
  "handleUnsupported m =
     (let detail = (if trimSpace (dm_Text m) = [] then ''unknown exec variant'' else trimSpace (dm_Text m)) in
      fail ''Cursor Agent v1 server requested an unsupported exec operation: %s'' [S detail])"

definition emitText :: "EventType \<Rightarrow> decodedWireMessage \<Rightarrow> unit run" where
  "emitText t m = (if dm_Text m \<noteq> [] then emit ((newEvent t)\<lparr>ev_Text := dm_Text m\<rparr>) else ret ())"

definition continue :: "unit run \<Rightarrow> bool run" where
  "continue m = bnd m (\<lambda>_. ret False)"

definition handleMessage ::
  "(clientMessage \<Rightarrow> bytes res) \<Rightarrow> RunRequest \<Rightarrow> ToolDefinition list \<Rightarrow> decodedWireMessage \<Rightarrow> bool run" where
  "handleMessage encode request tools m = (case dm_Type m of
     wireUnknown \<Rightarrow> ret False
   | wireTextDelta \<Rightarrow> continue (emitText EventText m)
   | wireThinkingDelta \<Rightarrow> continue (emitText EventThinking m)
   | wireThinkingCompleted \<Rightarrow> continue (emit (newEvent EventThinkingCompleted))
   | wireToolCallStarted \<Rightarrow> continue (handleHosted request m)
   | wireToolCallDelta \<Rightarrow> continue (handleHosted request m)
   | wireToolCallCompleted \<Rightarrow> continue (handleHosted request m)
   | wireIgnored \<Rightarrow> ret False
   | wireStreamMCP \<Rightarrow> continue (modify (\<lambda>s. s\<lparr>rn_streamMCP :=
         recordStreamMCP (rr_Tools request) m (rn_pending s) (rn_streamMCP s)\<rparr>))
   | wireAllowlistPrecheck \<Rightarrow>
       continue (send encode (AllowlistPrecheck (dm_ID m) (dm_ExecID m) (dm_AllowlistKind m) False))
   | wireExecAbort \<Rightarrow> fail ''Cursor Agent v1 server aborted exec %d'' [N (uint (dm_ID m))]
   | wireTokenDelta \<Rightarrow> continue (emit ((newEvent EventUsage)\<lparr>ev_Tokens := dm_TokenDelta m, ev_Usage := dm_Usage m\<rparr>))
   | wireCheckpoint \<Rightarrow> continue (bnd (gets rn_blobs) (\<lambda>store.
       emit ((newEvent EventCheckpoint)\<lparr>ev_Checkpoint := dm_Checkpoint m, ev_Blobs := store\<rparr>)))
   | wireTurnEnded \<Rightarrow> continue (handleTurnEnded m)
   | wireKVGet \<Rightarrow> continue (handleKVGet encode m)
   | wireKVSet \<Rightarrow> continue (handleKVSet encode m)
   | wireRequestContext \<Rightarrow> continue (handleRequestContext encode request tools m)
   | wireInteractionQuery \<Rightarrow> continue (handleInteraction encode request m)
   | wireShell \<Rightarrow> continue (rejectExec encode m 2 4 3 ''shell execution is disabled on the BeefAPI sidecar'')
   | wireShellStream \<Rightarrow> continue (rejectExec encode m 14 5 3 ''shell streaming is disabled on the BeefAPI sidecar'')
   | wireBackgroundShell \<Rightarrow> continue (rejectExec encode m 16 3 3 ''background shell execution is disabled on the BeefAPI sidecar'')
   | wireRead \<Rightarrow> continue (rejectExec encode m 7 3 2 ''workspace reads are disabled on the BeefAPI sidecar'')
   | wireWrite \<Rightarrow> continue (rejectExec encode m 3 6 2 ''workspace writes are disabled on the BeefAPI sidecar'')
   | wireDelete \<Rightarrow> continue (rejectExec encode m 4 6 2 ''workspace deletes are disabled on the BeefAPI sidecar'')
   | wireList \<Rightarrow> continue (rejectExec encode m 8 3 2 ''workspace listing is disabled on the BeefAPI sidecar'')
   | wireGrep \<Rightarrow> continue (send encode (ExecError (dm_ID m) (dm_ExecID m) 5 ''workspace search is disabled on the BeefAPI sidecar''))
   | wireFetch \<Rightarrow> continue (send encode (FetchError (dm_ID m) (dm_ExecID m) ''arbitrary fetch is disabled on the BeefAPI sidecar''))
   | wireDiagnostics \<Rightarrow> continue (rejectExec encode m 9 3 2 ''workspace diagnostics are disabled on the BeefAPI sidecar'')
   | wireMCP \<Rightarrow> handleMCP encode request m
   | wireUnsupportedExec \<Rightarrow> continue (handleUnsupported m))"

section \<open>The end of the stream\<close>

definition endGuards :: "RunRequest \<Rightarrow> runState \<Rightarrow> unit res" where
  "endGuards request s =
     (if \<not> rn_turnEnded s then Inl (Errorf ''Cursor Agent v1 stream ended before turnEnded'' [])
      else if rn_pending s \<noteq> []
      then Inl (Errorf ''Cursor Agent v1 stream ended with %d pending tool call(s)'' [N (int (length (rn_pending s)))])
      else if rn_streamMCP s \<noteq> []
      then Inl (Errorf ''Cursor Agent v1 streamed caller tool %q without a matching exec''
                  [S (unmatchedStreamMCPName (rn_streamMCP s))])
      else if rn_open s \<noteq> []
      then Inl (Errorf ''Cursor Agent v1 stream ended with %d incomplete hosted search call(s)''
                  [N (int (length (rn_open s)))])
      else if rr_RequireHostedSearch request \<and> \<not> rr_Resume request \<and> \<not> rn_searchExecuted s
      then Inl (Errorf ''Cursor Agent v1 completed without the required hosted search'' [])
      else if rr_RequireHostedFetch request \<and> \<not> rr_Resume request \<and> \<not> rn_fetchExecuted s
      then Inl (Errorf ''Cursor Agent v1 completed without the required hosted fetch'' [])
      else if rr_RequireHostedTool request \<and> \<not> rr_Resume request \<and> \<not> rn_searchExecuted s \<and> \<not> rn_fetchExecuted s
      then Inl (Errorf ''Cursor Agent v1 completed without the required hosted web tool'' [])
      else Inr ())"

definition handleEndStream ::
  "(bytes \<Rightarrow> (string \<times> string) option res) \<Rightarrow> RunRequest \<Rightarrow> bytes \<Rightarrow> bool run" where
  "handleEndStream decodeTrailer request payload =
     bnd (lift (parseConnectEndStream decodeTrailer payload)) (\<lambda>_.
     bnd (gets (endGuards request)) (\<lambda>guard.
     bnd (lift guard) (\<lambda>_.
     bnd (emit (newEvent EventDone)) (\<lambda>_. ret True))))"

text \<open>
  The parameters of a run: encoders, decoders, \<open>gzip\<close>, the opening of the stream and the printed
  idle timeout.
\<close>

record runEnv =
  re_encode :: "clientMessage \<Rightarrow> bytes res"
  re_decode :: "bytes \<Rightarrow> decodedWireMessage res"
  re_trailer :: "bytes \<Rightarrow> (string \<times> string) option res"
  re_gunzip :: gzipReader
  re_encodeRun :: "RunRequest \<Rightarrow> ToolDefinition list \<Rightarrow> (bytes \<times> blobs) res"
  re_canon :: "bytes \<Rightarrow> bytes option"
  re_open :: "string list \<Rightarrow> unit res"
  re_idleTimeout :: string

definition handleFrame ::
  "runEnv \<Rightarrow> RunRequest \<Rightarrow> ToolDefinition list \<Rightarrow> 8 word \<Rightarrow> bytes \<Rightarrow> bool run" where
  "handleFrame env request tools flags payload0 =
     bnd (lift (inflate (re_gunzip env) flags payload0)) (\<lambda>payload.
     if flags AND connectEndStreamFlag \<noteq> 0 then handleEndStream (re_trailer env) request payload
     else bnd (lift (re_decode env payload)) (handleMessage (re_encode env) request tools))"

section \<open>The select loop\<close>

datatype runnerInput =
    ContextDone err
  | IdleTick
  | HeartbeatTick
  | ResultArrived ToolResult
  | ResultsClosed
  | Chunk bytes
  | DataClosed "err option"

text \<open>\<open>Some buffer\<close>: go on selecting; \<open>None\<close>: the run returned nil.\<close>

definition selectStep ::
  "runEnv \<Rightarrow> RunRequest \<Rightarrow> ToolDefinition list \<Rightarrow> bytes \<Rightarrow> runnerInput \<Rightarrow> bytes option run" where
  "selectStep env request tools buffer input = (case input of
     ContextDone e \<Rightarrow> raise e
   | IdleTick \<Rightarrow> bnd (gets rn_pending) (\<lambda>p.
       if p \<noteq> [] then ret (Some buffer) else fail ''Cursor Agent v1 received no frames for %s'' [S (re_idleTimeout env)])
   | HeartbeatTick \<Rightarrow> bnd (attempt (send (re_encode env) Heartbeat)) (\<lambda>_. ret (Some buffer))
   | ResultArrived r \<Rightarrow> bnd (gets rn_toolResults) (\<lambda>open.
       if open then bnd (receiveResult (re_encode env) r) (\<lambda>_. ret (Some buffer)) else ret (Some buffer))
   | ResultsClosed \<Rightarrow> bnd (modify (\<lambda>s. s\<lparr>rn_toolResults := False\<rparr>)) (\<lambda>_. ret (Some buffer))
   | Chunk c \<Rightarrow> framesLoop (handleFrame env request tools) (buffer @ c)
   | DataClosed e \<Rightarrow> (case e of Some x \<Rightarrow> raise x
       | None \<Rightarrow> fail ''Cursor Agent v1 HTTP/2 stream closed without Connect terminal trailer'' []))"

primrec selectLoop ::
  "runEnv \<Rightarrow> RunRequest \<Rightarrow> ToolDefinition list \<Rightarrow> bytes \<Rightarrow> runnerInput list \<Rightarrow> bytes option run" where
  "selectLoop env request tools buffer [] = ret (Some buffer)"
| "selectLoop env request tools buffer (i # is) =
     bnd (selectStep env request tools buffer i) (\<lambda>r.
       case r of None \<Rightarrow> ret None | Some b \<Rightarrow> selectLoop env request tools b is)"

section \<open>Starting\<close>

definition allowedTools :: "RunRequest \<Rightarrow> string list" where
  "allowedTools request = [''mcp_tool_call'']
     @ (if rr_AllowHostedSearch request then [''web_search_tool_call''] else [])
     @ (if rr_AllowHostedFetch request then [''web_fetch_tool_call''] else [])"

text \<open>
  Everything before the loop: the checks, the encoding of the request, which may add blobs to the
  store, and the size checks.  The result is the payload, the tools and the blob store with its
  total.
\<close>

definition prepareRun ::
  "runEnv \<Rightarrow> RunRequest \<Rightarrow> (bytes \<times> ToolDefinition list \<times> blobs \<times> nat) res" where
  "prepareRun env request =
     (if trimSpace (rr_UserText request) = [] \<and> \<not> rr_Resume request
      then Inl (Errorf ''Cursor Agent v1 requires a non-empty user turn or resume action'' [])
      else case normalizeToolDefinitions (re_canon env) (rr_Tools request) of
        Inl e \<Rightarrow> Inl e
      | Inr tools \<Rightarrow> (case re_encodeRun env request tools of
          Inl e \<Rightarrow> Inl e
        | Inr (payload, store) \<Rightarrow>
            if length payload > maxConnectPayloadSize
            then Inl (errExceedsConnectLimit ''Cursor Agent v1 run payload'')
            else case validateBlobStore store maxBlobSize maxBlobStoreSize of
              Inl e \<Rightarrow> Inl e
            | Inr n \<Rightarrow> Inr (payload, tools, store, n)))"

definition runnerRun :: "runEnv \<Rightarrow> RunRequest \<Rightarrow> err option list \<Rightarrow> runnerInput list \<Rightarrow>
    (bytes option res \<times> runState)" where
  "runnerRun env request writes inputs =
     (let start = initialRun request (rr_InitialBlobs request) 0 writes in
      case prepareRun env request of
        Inl e \<Rightarrow> (Inl e, start)
      | Inr (payload, tools, store, n) \<Rightarrow>
          (case re_open env (allowedTools request) of
             Inl e \<Rightarrow> (Inl e, start)
           | Inr _ \<Rightarrow>
               bnd (writeConnectPayload streamWrite payload)
                 (\<lambda>_. selectLoop env request tools [] inputs)
                 (initialRun request store n writes)))"

end
