(* ===== verification/RunnerSafety.thy ===== *)
theory RunnerSafety
  imports Runner
begin

text \<open>
  What a run keeps true between two inputs (\<open>runOk\<close>) and what is true when it returns nil
  (\<open>runDone\<close>), for every order of the server's frames, the client's results and the clock.
\<close>

section \<open>The invariant\<close>

text \<open>\<open>awaiting i es\<close>: the last thing \<open>es\<close> says of the tool call \<open>i\<close> is that it was announced.\<close>

definition callID :: "Event \<Rightarrow> string" where
  "callID e = (case ev_ToolCall e of None \<Rightarrow> [] | Some c \<Rightarrow> tc_ToolCallID c)"

definition resultID :: "Event \<Rightarrow> string" where
  "resultID e = (case ev_ToolResult e of None \<Rightarrow> [] | Some r \<Rightarrow> tr_ToolCallID r)"

definition awaitStep :: "string \<Rightarrow> bool \<Rightarrow> Event \<Rightarrow> bool" where
  "awaitStep i b e =
     (if ev_Type e = EventToolCall \<and> callID e = i then True
      else if ev_Type e = EventToolResultAccepted \<and> resultID e = i then False
      else b)"

definition awaiting :: "string \<Rightarrow> Event list \<Rightarrow> bool" where
  "awaiting i es = foldl (awaitStep i) False es"

definition countType :: "EventType \<Rightarrow> Event list \<Rightarrow> nat" where
  "countType t es = length (filter (\<lambda>e. ev_Type e = t) es)"

definition executedKind :: "(HostedSearch option \<Rightarrow> bool) \<Rightarrow> Event list \<Rightarrow> bool" where
  "executedKind k es = (\<exists>e \<in> set es. (ev_Type e = EventHostedSearchStarted \<or> ev_Type e = EventHostedSearchCompleted)
     \<and> k (ev_HostedSearch e))"

text \<open>The tables agree with what was announced.\<close>

definition tablesOk :: "runState \<Rightarrow> bool" where
  "tablesOk s = (openOk (rn_open s) (rn_events s)
     \<and> wf_map (rn_pending s) \<and> (\<forall>i. awaiting i (rn_events s) = (map_of (rn_pending s) i \<noteq> None)))"

text \<open>Every bound the run enforces; queued results are filed under their own ids.\<close>

definition boundsOk :: "RunRequest \<Rightarrow> runState \<Rightarrow> bool" where
  "boundsOk request s =
     (length (rn_pending s) \<le> maxPendingTools
    \<and> (rr_MaxParallelTools request > 0 \<longrightarrow> int (length (rn_pending s)) \<le> rr_MaxParallelTools request)
    \<and> length (rn_queued s) \<le> maxPendingTools
    \<and> (\<forall>(i, r) \<in> set (rn_queued s). tr_ToolCallID r = i)
    \<and> blobsOk maxBlobSize maxBlobStoreSize (rn_blobs s) (rn_blobBytes s)
    \<and> (\<forall>m. rr_HostedSearchMaxUses request = Some m \<longrightarrow> length (ut_searchIDs (rn_uses s)) \<le> nat m)
    \<and> (\<forall>m. rr_HostedFetchMaxUses request = Some m \<longrightarrow> length (ut_fetchIDs (rn_uses s)) \<le> nat m))"

text \<open>The flags and counters agree with the events.\<close>

definition flagsOk :: "runState \<Rightarrow> bool" where
  "flagsOk s = (countType EventDone (rn_events s) = 0
     \<and> countType EventHostedSearchCall (rn_events s) = usesCount (rn_uses s)
     \<and> (rn_turnEnded s \<longrightarrow> countType EventUsageObservation (rn_events s) > 0)
     \<and> rn_searchExecuted s = executedKind hostedKindIsSearch (rn_events s)
     \<and> rn_fetchExecuted s = executedKind hostedKindIsFetch (rn_events s))"

definition runOk :: "RunRequest \<Rightarrow> runState \<Rightarrow> bool" where
  "runOk request s = (tablesOk s \<and> boundsOk request s \<and> flagsOk s)"

text \<open>How a run may have returned nil.\<close>

definition runComplete :: "RunRequest \<Rightarrow> Event list \<Rightarrow> bool" where
  "runComplete request es =
     (countType EventUsageObservation es > 0 \<and> (\<forall>i. \<not> awaiting i es) \<and> (\<forall>i. \<not> unfinished i es)
    \<and> (\<not> rr_Resume request \<longrightarrow>
         (rr_RequireHostedSearch request \<longrightarrow> executedKind hostedKindIsSearch es)
       \<and> (rr_RequireHostedFetch request \<longrightarrow> executedKind hostedKindIsFetch es)
       \<and> (rr_RequireHostedTool request \<longrightarrow>
            executedKind hostedKindIsSearch es \<or> executedKind hostedKindIsFetch es)))"

definition runHandedOff :: "RunRequest \<Rightarrow> Event list \<Rightarrow> bool" where
  "runHandedOff request es = (rr_HistoryRequestKey request \<noteq> [] \<and> es \<noteq> [] \<and> ev_Type (last es) = EventToolCall)"

definition runDone :: "RunRequest \<Rightarrow> runState \<Rightarrow> bool" where
  "runDone request s = (\<exists>es. rn_events s = es @ [newEvent EventDone] \<and> countType EventDone es = 0
     \<and> (runComplete request es \<or> runHandedOff request es))"

section \<open>Calculus\<close>

definition goOn :: "(runState \<Rightarrow> bool) \<Rightarrow> 'a res \<Rightarrow> runState \<Rightarrow> bool" where
  "goOn I r s = (case r of Inl e \<Rightarrow> True | Inr x \<Rightarrow> I s)"

lemma goOn_simps [simp]: "goOn I (Inl e) s" "goOn I (Inr x) s = I s"
  by (simp_all add: goOn_def)

lemma sat_bnd_goOn:
  assumes "sat m (goOn J) s" and "\<And>x s'. J s' \<Longrightarrow> sat (f x) Q s'" and "\<And>e s'. Q (Inl e) s'"
  shows "sat (bnd m f) Q s"
  unfolding sat_bnd using assms(1)
  by (rule sat_mono) (auto simp: assms goOn_def split: sum.splits)

lemma sat_continue:
  assumes "sat m (goOn I) s"
  shows "sat (continue m) (runPost I D (\<lambda>e s. True)) s"
  unfolding continue_def by (rule sat_bnd_goOn [OF assms]) (simp_all add: wp)

text \<open>A write changes nothing but the trace of the stream.\<close>

definition ioOnly :: "runState \<Rightarrow> runState \<Rightarrow> bool" where
  "ioOnly s s' = (\<exists>a b. s' = s\<lparr>rn_sent := a, rn_writes := b\<rparr>)"

lemma ioOnly_writes: "ioOnly s (s\<lparr>rn_writes := w\<rparr>)"
  unfolding ioOnly_def by (rule exI [of _ "rn_sent s"], rule exI [of _ w]) (cases s, simp)

lemma ioOnly_sent: "ioOnly s (s\<lparr>rn_sent := a, rn_writes := w\<rparr>)"
  unfolding ioOnly_def by blast

lemma sat_streamWrite: "sat (streamWrite b) (\<lambda>r. ioOnly s) s"
  unfolding sat_def streamWrite_def
  by (auto simp: ioOnly_writes ioOnly_sent split: list.split option.split)

lemma ioOnly_refl: "ioOnly s s"
  unfolding ioOnly_def by (rule exI [of _ "rn_sent s"], rule exI [of _ "rn_writes s"]) simp

lemma sat_send: "sat (send encode m) (\<lambda>r. ioOnly s) s"
proof (cases "encode m")
  case (Inl e)
  then show ?thesis by (simp add: send_def wp ioOnly_refl)
next
  case (Inr payload)
  then show ?thesis
    by (simp add: send_def wp writeConnectPayload_def ioOnly_refl sat_streamWrite)
qed

lemma runOk_sent [simp]: "runOk request (s\<lparr>rn_sent := a, rn_writes := b\<rparr>) = runOk request s"
  by (simp add: runOk_def tablesOk_def boundsOk_def flagsOk_def)

lemma runOk_io: "ioOnly s s' \<Longrightarrow> runOk request s' = runOk request s"
  unfolding ioOnly_def by (elim exE) (simp only: runOk_sent)

lemma sat_send_ok: "runOk request s \<Longrightarrow> sat (send encode m) (goOn (runOk request)) s"
  by (rule sat_mono [OF sat_send]) (auto simp: goOn_def runOk_io split: sum.split)

text \<open>Emitting.\<close>

definition emitted :: "Event \<Rightarrow> runState \<Rightarrow> runState" where
  "emitted e s = s\<lparr>rn_searchExecuted := (rn_searchExecuted s
         \<or> (ev_Type e = EventHostedSearchStarted \<or> ev_Type e = EventHostedSearchCompleted)
           \<and> hostedKindIsSearch (ev_HostedSearch e)),
       rn_fetchExecuted := (rn_fetchExecuted s
         \<or> (ev_Type e = EventHostedSearchStarted \<or> ev_Type e = EventHostedSearchCompleted)
           \<and> hostedKindIsFetch (ev_HostedSearch e)),
       rn_events := rn_events s @ [e]\<rparr>"

lemma sat_emit [wp]: "sat (emit e) Q s = Q (Inr ()) (emitted e s)"
  by (simp add: emit_def wp emitted_def Let_def)

lemma emitted_simps [simp]:
  "rn_events (emitted e s) = rn_events s @ [e]" "rn_pending (emitted e s) = rn_pending s"
  "rn_open (emitted e s) = rn_open s" "rn_turnEnded (emitted e s) = rn_turnEnded s"
  "rn_streamMCP (emitted e s) = rn_streamMCP s" "rn_parkSignaled (emitted e s) = rn_parkSignaled s"
  "rn_queued (emitted e s) = rn_queued s" "rn_uses (emitted e s) = rn_uses s"
  "rn_blobs (emitted e s) = rn_blobs s" "rn_blobBytes (emitted e s) = rn_blobBytes s"
  "rn_toolResults (emitted e s) = rn_toolResults s" "rn_toolCallSeen (emitted e s) = rn_toolCallSeen s"
  by (simp_all add: emitted_def)

lemma boundsOk_emitted [simp]: "boundsOk request (emitted e s) = boundsOk request s"
  by (simp add: boundsOk_def)

lemma awaiting_snoc: "awaiting i (es @ [e]) = awaitStep i (awaiting i es) e"
  by (simp add: awaiting_def)

lemma countType_snoc: "countType t (es @ [e]) = countType t es + (if ev_Type e = t then 1 else 0)"
  by (simp add: countType_def)

lemma executedKind_snoc:
  "executedKind k (es @ [e]) = (executedKind k es
     \<or> (ev_Type e = EventHostedSearchStarted \<or> ev_Type e = EventHostedSearchCompleted) \<and> k (ev_HostedSearch e))"
  by (auto simp: executedKind_def)

text \<open>Events with no bookkeeping attached.\<close>

definition ordinary :: "Event \<Rightarrow> bool" where
  "ordinary e = (ev_Type e \<notin> {EventDone, EventToolCall, EventToolResultAccepted, EventHostedSearchCall,
     EventHostedSearchStarted, EventHostedSearchCompleted})"

lemma flagsOk_emitted:
  assumes "flagsOk s" and "ev_Type e \<noteq> EventDone" and "ev_Type e \<noteq> EventHostedSearchCall"
  shows "flagsOk (emitted e s)"
  using assms by (auto simp: flagsOk_def countType_snoc executedKind_snoc emitted_def)

lemma runOk_ordinary:
  assumes "runOk request s" and "ordinary e"
  shows "runOk request (emitted e s)"
proof -
  have "openOk (rn_open s) (rn_events s @ [e])"
    using assms by (intro openOk_other) (auto simp: runOk_def tablesOk_def ordinary_def notHosted_def)
  moreover have "awaiting i (rn_events s @ [e]) = awaiting i (rn_events s)" for i
    using assms(2) by (auto simp: awaiting_snoc awaitStep_def ordinary_def)
  moreover have "flagsOk (emitted e s)"
    using assms by (intro flagsOk_emitted) (auto simp: runOk_def ordinary_def)
  ultimately show ?thesis using assms(1) by (simp add: runOk_def tablesOk_def)
qed

lemma ordinary_new [simp]:
  "ordinary (newEvent t) = (t \<notin> {EventDone, EventToolCall, EventToolResultAccepted, EventHostedSearchCall,
     EventHostedSearchStarted, EventHostedSearchCompleted})"
  by (simp add: ordinary_def newEvent_def)

lemma newEvent_type [simp]: "ev_Type (newEvent t) = t"
  by (simp add: newEvent_def)

section \<open>Handlers\<close>

lemma sendToolResult_ok:
  assumes "tablesOk s" "boundsOk request s" "flagsOk s"
  shows "sat (sendToolResult encode m result) (goOn (runOk request)) s"
  unfolding sendToolResult_def
proof (rule sat_bnd_goOn [where J = "ioOnly s"])
  show "sat (send encode (MCPResult (dm_ID m) (dm_ExecID m) result)) (goOn (ioOnly s)) s"
    by (rule sat_mono [OF sat_send]) (auto simp: goOn_def split: sum.split)
next
  fix x s'
  let ?e = "(newEvent EventToolResultAccepted)\<lparr>ev_ToolResult := Some result\<rparr>"
  assume "ioOnly s s'"
  then have s': "runOk request s'" using runOk_io assms by (auto simp: runOk_def)
  have open': "openOk (rn_open s') (rn_events s' @ [?e])"
    using s' by (intro openOk_other) (auto simp: runOk_def tablesOk_def notHosted_def newEvent_def)
  have await: "awaiting i (rn_events s' @ [?e])
      = (map_of (AList.delete (tr_ToolCallID result) (rn_pending s')) i \<noteq> None)" for i
    using s' by (auto simp: runOk_def tablesOk_def awaiting_snoc awaitStep_def resultID_def newEvent_def)
  have len: "length (AList.delete (tr_ToolCallID result) (rn_pending s')) \<le> length (rn_pending s')"
    by (rule length_delete_alist_le)
  show "sat (bnd (modify (\<lambda>s. let p = AList.delete (tr_ToolCallID result) (rn_pending s) in
        s\<lparr>rn_pending := p, rn_parkSignaled := (rn_parkSignaled s \<and> p \<noteq> [])\<rparr>)) (\<lambda>_. emit ?e))
      (goOn (runOk request)) s'"
    using s' open' await len
    by (auto simp: wp Let_def runOk_def tablesOk_def boundsOk_def flagsOk_def countType_snoc
        executedKind_snoc emitted_def newEvent_def)
qed simp

lemma receiveResult_ok:
  assumes "runOk request s"
  shows "sat (receiveResult encode r) (goOn (runOk request)) s"
proof -
  let ?i = "trimSpace (tr_ToolCallID r)" and ?r = "r\<lparr>tr_ToolCallID := trimSpace (tr_ToolCallID r)\<rparr>"
  have queue: "runOk request (s\<lparr>rn_queued := AList.update ?i ?r (rn_queued s)\<rparr>)"
    if "length (rn_queued s) < maxPendingTools"
  proof -
    have "length (AList.update ?i ?r (rn_queued s)) \<le> maxPendingTools"
      using length_update_le [of ?i ?r "rn_queued s"] that by simp
    moreover have "\<forall>(j, q) \<in> set (AList.update ?i ?r (rn_queued s)). tr_ToolCallID q = j"
      using set_update_subset [of ?i ?r "rn_queued s"] assms
      by (fastforce simp: runOk_def boundsOk_def)
    ultimately show ?thesis
      using assms by (simp add: runOk_def tablesOk_def boundsOk_def flagsOk_def)
  qed
  have "tablesOk s" "boundsOk request s" "flagsOk s" using assms by (simp_all add: runOk_def)
  from sendToolResult_ok [OF this] show ?thesis
    using queue by (simp add: receiveResult_def Let_def sat_bnd [of "gets f" for f] sat_gets sat_modify
        sat_raise fail_def split: option.split)
qed

lemma handleTurnEnded_ok:
  assumes "runOk request s"
  shows "sat (handleTurnEnded m) (goOn (runOk request)) s"
proof -
  let ?e = "(newEvent EventUsageObservation)\<lparr>ev_Usage := Some (case dm_Usage m of
            None \<Rightarrow> noUsage UsageKindTurnEnded | Some u \<Rightarrow> u)\<rparr>"
  have "ordinary ?e" by (simp add: ordinary_def newEvent_def)
  from runOk_ordinary [OF assms this]
  have 1: "runOk request (emitted ?e (s\<lparr>rn_turnEnded := True\<rparr>))"
    by (auto simp: runOk_def tablesOk_def boundsOk_def flagsOk_def countType_snoc emitted_def newEvent_def)
  then have "runOk request ((emitted ?e (s\<lparr>rn_turnEnded := True\<rparr>))\<lparr>rn_parkSignaled := True\<rparr>)"
    by (simp add: runOk_def tablesOk_def boundsOk_def flagsOk_def)
  from runOk_ordinary [OF this, of "newEvent EventTurnEnded"] 1 show ?thesis
    by (simp add: handleTurnEnded_def wp)
qed

text \<open>The hosted handler: the events it returns are emitted one after the other.\<close>

lemma hosted_events:
  assumes "applyHostedSearchMessage request m tbl = Inr (tbl', es)" and "keysTrimmed tbl"
  shows "es = [] \<or> (\<exists>h t. es = [hostedEvent t h] \<and> (t = EventHostedSearchStarted \<or> t = EventHostedSearchCompleted))"
  using assms by (elim applyHosted_Inr) auto

lemma handleHosted_ok:
  assumes "runOk request s"
  shows "sat (handleHosted request m) (goOn (runOk request)) s"
proof (cases "applyHostedSearchMessage request m (rn_open s)")
  case (Inl e)
  then show ?thesis by (simp add: handleHosted_def wp)
next
  case (Inr r)
  obtain tbl' es where r: "r = (tbl', es)" by (cases r)
  have open': "openOk tbl' (rn_events s @ es)"
    using applyHosted_openOk Inr r assms by (auto simp: runOk_def tablesOk_def)
  have keys: "keysTrimmed (rn_open s)" using assms by (simp add: runOk_def tablesOk_def openOk_def)
  consider "es = []" | h t where "es = [hostedEvent t h]" "t = EventHostedSearchStarted \<or> t = EventHostedSearchCompleted"
    using hosted_events [OF _ keys] Inr r by blast
  then show ?thesis
  proof cases
    case 1
    then show ?thesis
      using assms open' Inr r
      by (simp add: handleHosted_def wp runOk_def tablesOk_def boundsOk_def flagsOk_def)
  next
    case 2
    have await: "awaiting i (rn_events s @ [hostedEvent t h]) = awaiting i (rn_events s)" for i
      using 2(2) by (auto simp: awaiting_snoc awaitStep_def)
    have "flagsOk (emitted (hostedEvent t h) s)"
      using assms 2(2) by (intro flagsOk_emitted) (auto simp: runOk_def)
    then have "flagsOk (emitted (hostedEvent t h) (s\<lparr>rn_open := tbl'\<rparr>))"
      by (simp add: flagsOk_def emitted_def)
    then show ?thesis
      using assms open' Inr r 2(1) await
      by (simp add: handleHosted_def wp runOk_def tablesOk_def boundsOk_def)
  qed
qed

lemma handleKVGet_ok: "runOk request s \<Longrightarrow> sat (handleKVGet encode m) (goOn (runOk request)) s"
  by (simp add: handleKVGet_def wp sat_send_ok)

lemma handleKVSet_ok:
  assumes "runOk request s"
  shows "sat (handleKVSet encode m) (goOn (runOk request)) s"
proof (cases "storeBlob (rn_blobs s) (rn_blobBytes s) (hexKey (dm_BlobID m)) (dm_BlobData m)
    maxBlobSize maxBlobStoreSize")
  case (Inl e)
  then show ?thesis by (simp add: handleKVSet_def wp)
next
  case (Inr r)
  obtain store n where r: "r = (store, n)" by (cases r)
  have "blobsOk maxBlobSize maxBlobStoreSize store n"
    using storeBlob_ok [of maxBlobSize maxBlobStoreSize] Inr r assms by (auto simp: runOk_def boundsOk_def)
  then have "runOk request (s\<lparr>rn_blobs := store, rn_blobBytes := n\<rparr>)"
    using assms by (simp add: runOk_def tablesOk_def boundsOk_def flagsOk_def)
  with Inr r show ?thesis by (simp add: handleKVSet_def wp sat_send_ok)
qed

lemma handleRequestContext_ok:
  "runOk request s \<Longrightarrow> sat (handleRequestContext encode request tools m) (goOn (runOk request)) s"
  by (simp add: handleRequestContext_def wp sat_send_ok)

lemma usesCount_step:
  "usesCount (decisionStep request m t) = usesCount t \<or> usesCount (decisionStep request m t) = Suc (usesCount t)"
  by (auto simp: usesCount_def decision_defs split: bool.splits if_splits)

lemma usesCount_grows:
  "usesCount t < usesCount (decisionStep request m t) \<Longrightarrow>
     granted request m t \<and> dm_InteractionKind m \<in> {2, 5, 6, 9}"
  by (auto simp: usesCount_def granted_def decision_defs split: bool.splits if_splits)

lemma bounds_step:
  assumes "boundsOk request s"
  shows "boundsOk request (s\<lparr>rn_uses := decisionStep request m (rn_uses s)\<rparr>)"
proof -
  have "length (ut_searchIDs (decisionStep request m (rn_uses s))) \<le> nat n"
    if "rr_HostedSearchMaxUses request = Some n" for n
    using agent_search.fold_bounded [of request "nat n" "rn_uses s" "[m]"] assms that
    by (auto simp: boundsOk_def useRoom_def)
  moreover have "length (ut_fetchIDs (decisionStep request m (rn_uses s))) \<le> nat n"
    if "rr_HostedFetchMaxUses request = Some n" for n
    using agent_fetch.fold_bounded [of request "nat n" "rn_uses s" "[m]"] assms that
    by (auto simp: boundsOk_def useRoom_def)
  ultimately show ?thesis using assms by (simp add: boundsOk_def)
qed

lemma runOk_hostedCall:
  assumes "runOk request s" and grow: "usesCount t = Suc (usesCount (rn_uses s))"
    and "boundsOk request (s\<lparr>rn_uses := t\<rparr>)" and "ioOnly (s\<lparr>rn_uses := t\<rparr>) s'"
  shows "runOk request (emitted (newEvent EventHostedSearchCall) s')"
proof -
  obtain a b where s': "s' = s\<lparr>rn_uses := t, rn_sent := a, rn_writes := b\<rparr>"
    using assms(4) by (auto simp: ioOnly_def)
  have "openOk (rn_open s) (rn_events s @ [newEvent EventHostedSearchCall])"
    using assms by (intro openOk_other) (auto simp: runOk_def tablesOk_def notHosted_def)
  then show ?thesis
    using assms(1,3) grow
    by (simp add: s' runOk_def tablesOk_def boundsOk_def flagsOk_def countType_snoc executedKind_snoc
        awaiting_snoc awaitStep_def emitted_def)
qed

lemma handleInteraction_ok:
  assumes "runOk request s"
  shows "sat (handleInteraction encode request m) (goOn (runOk request)) s"
proof (cases "dm_InteractionKind m \<in> {2, 4, 5, 6, 9}")
  case False
  then show ?thesis
    using assms by (auto simp: handleInteraction_def Let_def wp fail_def sat_send_ok)
next
  case True
  obtain approve reason after where d: "hostedInteractionDecision request m (rn_uses s) = ((approve, reason), after)"
    by (metis prod.exhaust)
  have after: "after = decisionStep request m (rn_uses s)" and granted: "granted request m (rn_uses s) = approve"
    using d by (simp_all add: decisionStep_def granted_def)
  let ?s = "s\<lparr>rn_uses := after\<rparr>" and ?msg = "InteractionDecision (dm_ID m) (dm_InteractionKind m) approve reason"
  let ?emit = "approve \<and> dm_InteractionKind m \<in> {2, 5, 6, 9} \<and> usesCount after > usesCount (rn_uses s)"
  have bounds: "boundsOk request ?s" using bounds_step assms after by (simp add: runOk_def)
  have grow: "usesCount after = (if ?emit then Suc (usesCount (rn_uses s)) else usesCount (rn_uses s))"
    using usesCount_step [of request m "rn_uses s"] usesCount_grows [of "rn_uses s" request m] after granted by auto
  have run: "sat (handleInteraction encode request m) Q s
      = sat (send encode ?msg) (\<lambda>r s'. case r of Inl e \<Rightarrow> Q (Inl e) s'
          | Inr _ \<Rightarrow> sat (if ?emit then emit (newEvent EventHostedSearchCall) else ret ()) Q s') ?s" for Q
    by (simp only: handleInteraction_def Let_def if_P [OF True] sat_bnd sat_gets sat_modify sum.case
        d prod.case conj_assoc)
  have "sat (send encode ?msg) (\<lambda>r s'. case r of Inl e \<Rightarrow> goOn (runOk request) (Inl e :: unit res) s'
      | Inr _ \<Rightarrow> sat (if ?emit then emit (newEvent EventHostedSearchCall) else ret ()) (goOn (runOk request)) s') ?s"
  proof (rule sat_mono [OF sat_send])
    fix r s'
    assume io: "ioOnly ?s s'"
    show "case r of Inl e \<Rightarrow> goOn (runOk request) (Inl e :: unit res) s'
      | Inr _ \<Rightarrow> sat (if ?emit then emit (newEvent EventHostedSearchCall) else ret ()) (goOn (runOk request)) s'"
    proof (cases ?emit)
      case True
      then have "runOk request (emitted (newEvent EventHostedSearchCall) s')"
        using runOk_hostedCall [OF assms _ bounds io] grow by simp
      with True show ?thesis by (simp add: wp split: sum.split)
    next
      case False
      then have "runOk request ?s"
        using assms bounds grow by (auto simp: runOk_def tablesOk_def flagsOk_def)
      then have "runOk request s'" using runOk_io [OF io] by simp
      with False show ?thesis by (auto simp: wp split: sum.split)
    qed
  qed
  then show ?thesis by (simp only: run)
qed

text \<open>
  A caller tool: the call is put in the table and announced, or answered at once from the queue.
  Between the two the tables disagree with the events about that one call.
\<close>

abbreviation stepPost :: "RunRequest \<Rightarrow> bool res \<Rightarrow> runState \<Rightarrow> bool" where
  "stepPost request \<equiv> runPost (runOk request) (runDone request) (\<lambda>e s. True)"

definition calling :: "RunRequest \<Rightarrow> string \<Rightarrow> runState \<Rightarrow> bool" where
  "calling request i s =
     (openOk (rn_open s) (rn_events s) \<and> wf_map (rn_pending s) \<and> map_of (rn_pending s) i \<noteq> None
      \<and> (\<forall>j. j \<noteq> i \<longrightarrow> awaiting j (rn_events s) = (map_of (rn_pending s) j \<noteq> None))
      \<and> boundsOk request s \<and> flagsOk s)"

lemma calling_announced:
  assumes "calling request i s" and "dm_ToolCallID m = i"
  shows "runOk request (emitted (mcpToolCall m) s)"
proof -
  have e: "ev_Type (mcpToolCall m) = EventToolCall" "callID (mcpToolCall m) = i"
    using assms(2) by (simp_all add: mcpToolCall_def newEvent_def callID_def)
  have "openOk (rn_open s) (rn_events s @ [mcpToolCall m])"
    using assms e by (intro openOk_other) (auto simp: calling_def notHosted_def)
  moreover have "awaiting j (rn_events s @ [mcpToolCall m]) = (map_of (rn_pending s) j \<noteq> None)" for j
    using assms(1) e by (auto simp: calling_def awaiting_snoc awaitStep_def)
  moreover have "flagsOk (emitted (mcpToolCall m) s)"
    using assms(1) e by (intro flagsOk_emitted) (auto simp: calling_def)
  ultimately show ?thesis using assms(1) by (simp add: calling_def runOk_def tablesOk_def)
qed

lemma handedOff_done:
  assumes "runOk request (emitted (mcpToolCall m) s)" and "rr_HistoryRequestKey request \<noteq> []"
  shows "runDone request (emitted (newEvent EventDone) (emitted (mcpToolCall m) s))"
proof -
  have "ev_Type (mcpToolCall m) = EventToolCall" by (simp add: mcpToolCall_def newEvent_def)
  then show ?thesis
    using assms by (auto simp: runDone_def runHandedOff_def runOk_def flagsOk_def)
qed

lemma announceTool_ok:
  assumes "calling request (dm_ToolCallID m) s"
  shows "sat (announceTool request m) (stepPost request) s"
proof -
  let ?s = "emitted (mcpToolCall m) s"
  have ok: "runOk request ?s" using calling_announced [OF assms refl] .
  then have "runOk request (?s\<lparr>rn_parkSignaled := True\<rparr>)"
    by (simp add: runOk_def tablesOk_def boundsOk_def flagsOk_def)
  from runOk_ordinary [OF this, of "newEvent EventTurnEnded"] ok handedOff_done [OF ok]
  show ?thesis by (simp add: announceTool_def wp)
qed

lemma queued_result_ok:
  assumes "calling request i s" and "tr_ToolCallID result = i"
  shows "sat (bnd (sendToolResult encode m result) (\<lambda>_. ret False)) (stepPost request) s"
proof -
  have "sat (sendToolResult encode m result) (goOn (runOk request)) s"
    unfolding sendToolResult_def
  proof (rule sat_bnd_goOn [where J = "ioOnly s"])
    show "sat (send encode (MCPResult (dm_ID m) (dm_ExecID m) result)) (goOn (ioOnly s)) s"
      by (rule sat_mono [OF sat_send]) (auto simp: goOn_def split: sum.split)
  next
    fix x s'
    let ?e = "(newEvent EventToolResultAccepted)\<lparr>ev_ToolResult := Some result\<rparr>"
    assume "ioOnly s s'"
    then obtain a b where s': "s' = s\<lparr>rn_sent := a, rn_writes := b\<rparr>" by (auto simp: ioOnly_def)
    have open': "openOk (rn_open s) (rn_events s @ [?e])"
      using assms(1) by (intro openOk_other) (auto simp: calling_def notHosted_def newEvent_def)
    have await: "awaiting j (rn_events s @ [?e]) = (map_of (AList.delete i (rn_pending s)) j \<noteq> None)" for j
      using assms by (auto simp: calling_def awaiting_snoc awaitStep_def resultID_def newEvent_def)
    have len: "length (AList.delete i (rn_pending s)) \<le> length (rn_pending s)"
      by (rule length_delete_alist_le)
    show "sat (bnd (modify (\<lambda>s. let p = AList.delete (tr_ToolCallID result) (rn_pending s) in
          s\<lparr>rn_pending := p, rn_parkSignaled := (rn_parkSignaled s \<and> p \<noteq> [])\<rparr>)) (\<lambda>_. emit ?e))
        (goOn (runOk request)) s'"
      using assms open' await len
      by (auto simp: s' wp Let_def calling_def runOk_def tablesOk_def boundsOk_def flagsOk_def countType_snoc
          executedKind_snoc emitted_def newEvent_def)
  qed simp
  then show ?thesis by (rule sat_bnd_goOn) (simp_all add: wp)
qed

lemma mcp_calling:
  assumes "runOk request s" and "mcpGuards request i s = Inr ()"
  shows "calling request i (s\<lparr>rn_toolCallSeen := True, rn_pending := AList.update i m (rn_pending s)\<rparr>)"
proof -
  have len: "length (AList.update i m (rn_pending s)) \<le> maxPendingTools
      \<and> (rr_MaxParallelTools request > 0 \<longrightarrow>
           int (length (AList.update i m (rn_pending s))) \<le> rr_MaxParallelTools request)"
  proof (cases "map_of (rn_pending s) i")
    case None
    then show ?thesis
      using assms(2) by (auto simp: mcpGuards_def length_update_new split: if_splits)
  next
    case (Some x)
    then show ?thesis
      using assms(1) by (simp add: length_update_old [OF Some] runOk_def boundsOk_def)
  qed
  show ?thesis
    using assms(1) len by (simp add: calling_def runOk_def tablesOk_def boundsOk_def flagsOk_def)
qed

lemma calling_queue:
  assumes "calling request i s"
  shows "calling request i (s\<lparr>rn_queued := AList.delete i (rn_queued s)\<rparr>)"
  using assms length_delete_alist_le [of i "rn_queued s"] set_delete_subset [of i "rn_queued s"]
  by (auto simp: calling_def boundsOk_def flagsOk_def)

lemma handleMCP_ok:
  assumes "runOk request s"
  shows "sat (handleMCP encode request m0) (stepPost request) s"
proof (cases "rn_toolResults s")
  case False
  have "sat (rejectExec encode m0 11 3 1 ''caller-tool continuation is unavailable'') (goOn (runOk request)) s"
    using assms by (simp add: rejectExec_def sat_send_ok)
  then have "sat (bnd (rejectExec encode m0 11 3 1 ''caller-tool continuation is unavailable'') (\<lambda>_. ret False))
      (stepPost request) s"
    by (rule sat_bnd_goOn) (simp_all add: wp)
  with False show ?thesis by (simp add: handleMCP_def sat_bnd [of "gets rn_toolResults"] sat_gets)
next
  case True
  define i where "i = trimSpace (dm_ToolCallID m0)"
  define m where "m = m0\<lparr>dm_ToolCallID := i\<rparr>"
  define s1 where "s1 = s\<lparr>rn_streamMCP := AList.delete i (rn_streamMCP s)\<rparr>"
  define s2 where "s2 = s1\<lparr>rn_toolCallSeen := True, rn_pending := AList.update i m (rn_pending s1)\<rparr>"
  have s1: "runOk request s1"
    using assms by (simp add: s1_def runOk_def tablesOk_def boundsOk_def flagsOk_def)
  show ?thesis
  proof (cases "i = [] \<or> mcpGuards request i s1 \<noteq> Inr ()")
    case True
    with \<open>rn_toolResults s\<close> show ?thesis
      by (cases "mcpGuards request i s1")
         (auto simp: handleMCP_def Let_def wp fail_def simp flip: i_def s1_def)
  next
    case False
    then have call: "calling request i s2" using mcp_calling [OF s1] by (simp add: s2_def)
    have run: "sat (handleMCP encode request m0) (stepPost request) s
        = sat (case map_of (rn_queued s2) i of
             Some result \<Rightarrow> bnd (modify (\<lambda>s. s\<lparr>rn_queued := AList.delete i (rn_queued s)\<rparr>))
                (\<lambda>_. bnd (sendToolResult encode m result) (\<lambda>_. ret False))
           | None \<Rightarrow> announceTool request m) (stepPost request) s2"
      using \<open>rn_toolResults s\<close> False
      by (simp add: handleMCP_def Let_def sat_bnd [of "gets f" for f] sat_bnd [of "modify f" for f]
          sat_bnd [of "lift r" for r] sat_gets sat_modify sat_lift flip: i_def m_def s1_def s2_def)
    show ?thesis
    proof (cases "map_of (rn_queued s2) i")
      case None
      have "dm_ToolCallID m = i" by (simp add: m_def)
      with None call show ?thesis using announceTool_ok by (simp add: run)
    next
      case (Some result)
      have "rn_queued s2 = rn_queued s" by (simp add: s2_def s1_def)
      then have "tr_ToolCallID result = i"
        using assms Some by (auto simp: runOk_def boundsOk_def dest!: map_of_SomeD)
      with Some show ?thesis
        using queued_result_ok [OF calling_queue [OF call]]
        by (simp add: run sat_bnd [of "modify f" for f] sat_modify)
    qed
  qed
qed

lemma emitText_ok:
  "runOk request s \<Longrightarrow> t = EventText \<or> t = EventThinking \<Longrightarrow> sat (emitText t m) (goOn (runOk request)) s"
  by (auto simp: emitText_def wp intro!: runOk_ordinary) (auto simp: ordinary_def newEvent_def)

lemma handleMessage_ok:
  assumes "runOk request s"
  shows "sat (handleMessage encode request tools m) (stepPost request) s"
proof -
  have stream: "runOk request (s\<lparr>rn_streamMCP := x\<rparr>)" for x
    using assms by (simp add: runOk_def tablesOk_def boundsOk_def flagsOk_def)
  have emit: "ordinary e \<Longrightarrow> sat (emit e) (goOn (runOk request)) s" for e
    using runOk_ordinary [OF assms] by (simp add: wp)
  have usage: "ordinary ((newEvent EventUsage)\<lparr>ev_Tokens := a, ev_Usage := b\<rparr>)"
    "ordinary ((newEvent EventCheckpoint)\<lparr>ev_Checkpoint := c, ev_Blobs := d\<rparr>)" for a b c d
    by (simp_all add: ordinary_def newEvent_def)
  show ?thesis
    unfolding handleMessage_def
    by (cases "dm_Type m")
       (simp_all add: sat_ret assms fail_def sat_raise handleMCP_ok sat_continue emitText_ok
         handleHosted_ok handleTurnEnded_ok handleKVGet_ok handleKVSet_ok handleRequestContext_ok
         handleInteraction_ok rejectExec_def sat_send_ok stream emit usage
         sat_modify sat_bnd [of "gets f" for f] sat_gets handleUnsupported_def Let_def)
qed

lemma endStream_done:
  assumes "runOk request s" and "endGuards request s = Inr ()"
  shows "runDone request (emitted (newEvent EventDone) s)"
proof -
  have t: "rn_turnEnded s" "rn_pending s = []" "rn_open s = []"
    and r: "\<not> rr_Resume request \<Longrightarrow> (rr_RequireHostedSearch request \<longrightarrow> rn_searchExecuted s)
       \<and> (rr_RequireHostedFetch request \<longrightarrow> rn_fetchExecuted s)
       \<and> (rr_RequireHostedTool request \<longrightarrow> rn_searchExecuted s \<or> rn_fetchExecuted s)"
    using assms(2) by (auto simp: endGuards_def split: if_splits)
  then have "runComplete request (rn_events s)"
    using assms(1) by (auto simp: runComplete_def runOk_def tablesOk_def flagsOk_def openOk_def)
  then show ?thesis using assms(1) by (auto simp: runDone_def runOk_def flagsOk_def)
qed

lemma handleEndStream_ok:
  assumes "runOk request s"
  shows "sat (handleEndStream trailer request payload) (stepPost request) s"
  using endStream_done [OF assms]
  by (cases "parseConnectEndStream trailer payload"; cases "endGuards request s")
     (simp_all add: handleEndStream_def wp)

lemma handleFrame_ok:
  assumes "runOk request s"
  shows "sat (handleFrame env request tools flags payload) (stepPost request) s"
proof (cases "inflate (re_gunzip env) flags payload")
  case (Inl e)
  then show ?thesis by (simp add: handleFrame_def wp)
next
  case (Inr p)
  show ?thesis
  proof (cases "flags AND connectEndStreamFlag \<noteq> 0")
    case True
    with Inr show ?thesis
      by (simp add: handleFrame_def sat_bnd [of "lift r" for r] sat_lift handleEndStream_ok assms)
  next
    case False
    with Inr show ?thesis
      by (cases "re_decode env p")
         (simp_all add: handleFrame_def sat_bnd [of "lift r" for r] sat_lift handleMessage_ok assms)
  qed
qed

section \<open>The loop\<close>

abbreviation loopOk :: "RunRequest \<Rightarrow> bytes option res \<Rightarrow> runState \<Rightarrow> bool" where
  "loopOk request \<equiv> loopPost (runOk request) (runDone request) (\<lambda>e s. True)"

lemma sat_goOn_loop:
  assumes "sat m (goOn (runOk request)) s"
  shows "sat (bnd m (\<lambda>_. ret (Some b))) (loopOk request) s"
  using assms by (rule sat_bnd_goOn) (simp_all add: wp)

lemma selectStep_ok:
  assumes "runOk request s"
  shows "sat (selectStep env request tools buffer i) (loopOk request) s"
proof (cases i)
  case HeartbeatTick
  have "sat (attempt (send (re_encode env) Heartbeat)) (goOn (runOk request)) s"
    unfolding sat_attempt by (rule sat_mono [OF sat_send]) (use assms runOk_io in \<open>auto\<close>)
  with HeartbeatTick show ?thesis by (simp add: selectStep_def sat_goOn_loop)
next
  case (ResultArrived r)
  show ?thesis
  proof (cases "rn_toolResults s")
    case True
    then show ?thesis
      using ResultArrived sat_goOn_loop [OF receiveResult_ok [OF assms]]
      by (simp add: selectStep_def sat_bnd [of "gets f" for f] sat_gets)
  next
    case False
    then show ?thesis using ResultArrived assms by (simp add: selectStep_def wp)
  qed
next
  case ResultsClosed
  then show ?thesis
    using assms by (simp add: selectStep_def wp runOk_def tablesOk_def boundsOk_def flagsOk_def)
next
  case (Chunk c)
  then show ?thesis
    using sat_framesLoop [of "runOk request" "handleFrame env request tools" "runDone request" "\<lambda>e s. True"]
      handleFrame_ok assms
    by (simp add: selectStep_def)
next
  case (DataClosed e)
  then show ?thesis by (cases e) (simp_all add: selectStep_def wp fail_def)
qed (use assms in \<open>simp_all add: selectStep_def wp fail_def\<close>)

lemma selectLoop_ok:
  "runOk request s \<Longrightarrow> sat (selectLoop env request tools buffer inputs) (loopOk request) s"
proof (induction inputs arbitrary: buffer s)
  case Nil
  then show ?case by (simp add: wp)
next
  case (Cons i inputs)
  have "sat (selectStep env request tools buffer i) (\<lambda>r s'. case r of Inl e \<Rightarrow> loopOk request (Inl e) s'
      | Inr x \<Rightarrow> sat (case x of None \<Rightarrow> ret None | Some b \<Rightarrow> selectLoop env request tools b inputs) (loopOk request) s') s"
  proof (rule sat_mono [OF selectStep_ok [OF Cons.prems]])
    fix r s'
    assume "loopOk request r s'"
    then show "case r of Inl e \<Rightarrow> loopOk request (Inl e) s'
      | Inr x \<Rightarrow> sat (case x of None \<Rightarrow> ret None | Some b \<Rightarrow> selectLoop env request tools b inputs) (loopOk request) s'"
      using Cons.IH by (cases r) (auto simp: wp split: option.split)
  qed
  then show ?case by (simp add: sat_bnd)
qed

lemma initialRun_ok:
  assumes "blobsOk maxBlobSize maxBlobStoreSize store n"
  shows "runOk request (initialRun request store n writes)"
  using assms openOk_init
  by (simp add: runOk_def tablesOk_def boundsOk_def flagsOk_def initialRun_def awaiting_def countType_def
      executedKind_def usesCount_def newHostedUseTracker_def)

lemma prepareRun_blobs:
  assumes "prepareRun env request = Inr (payload, tools, store, n)" and "wf_map store"
  shows "blobsOk maxBlobSize maxBlobStoreSize store n"
  using assms(1) validateBlobStore_iff [OF assms(2)]
  by (auto simp: prepareRun_def split: if_splits sum.splits)

text \<open>The whole run, from the request on.\<close>

lemma runnerRun_post:
  assumes "\<And>tools p store. re_encodeRun env request tools = Inr (p, store) \<Longrightarrow> wf_map store"
    and "runnerRun env request writes inputs = (Inr r, s)"
  shows "loopOk request (Inr r) s"
proof -
  obtain payload tools store n where p: "prepareRun env request = Inr (payload, tools, store, n)"
    using assms(2) by (auto simp: runnerRun_def Let_def split: sum.splits)
  have "wf_map store"
    using p assms(1) by (auto simp: prepareRun_def split: if_splits sum.splits)
  from initialRun_ok [OF prepareRun_blobs [OF p this]]
  have ok: "runOk request (initialRun request store n writes)" .
  have "sat (bnd (writeConnectPayload streamWrite payload) (\<lambda>_. selectLoop env request tools [] inputs))
      (loopOk request) (initialRun request store n writes)"
  proof (rule sat_bnd_goOn)
    show "sat (writeConnectPayload streamWrite payload) (goOn (runOk request)) (initialRun request store n writes)"
      unfolding writeConnectPayload_def
      by (auto simp: wp goOn_def split: sum.split
          intro!: sat_mono [OF sat_streamWrite] runOk_io [THEN iffD2, OF _ ok])
  qed (simp_all add: selectLoop_ok)
  moreover obtain x where "re_open env (allowedTools request) = Inr x"
    "bnd (writeConnectPayload streamWrite payload) (\<lambda>_. selectLoop env request tools [] inputs)
       (initialRun request store n writes) = (Inr r, s)"
    using assms(2) p by (auto simp: runnerRun_def Let_def split: sum.splits)
  ultimately show ?thesis by (auto dest: satD)
qed

section \<open>Chunks\<close>

lemma selectLoop_chunks:
  "selectLoop env request tools b (map Chunk cs) = feedChunks (handleFrame env request tools) b cs"
  by (induction cs arbitrary: b) (auto simp: selectStep_def intro!: bnd_cong split: option.split)

section \<open>Properties\<close>

text \<open>An environment for the examples: one byte of payload says which message it is.\<close>

definition exampleEnv :: runEnv where
  "exampleEnv = \<lparr>re_encode = (\<lambda>m. Inr []),
     re_decode = (\<lambda>p. if p = [1] then Inr ((newMessage wireTextDelta)\<lparr>dm_Text := ''hi''\<rparr>)
       else Inr (newMessage wireTurnEnded)),
     re_trailer = (\<lambda>p. Inr None), re_gunzip = (\<lambda>n b. Inr (Inr b)), re_encodeRun = (\<lambda>r t. Inr ([7], [])),
     re_canon = Some, re_open = (\<lambda>ts. Inr ()), re_idleTimeout = ''90s''\<rparr>"

definition exampleRequest :: RunRequest where
  "exampleRequest = newRunRequest\<lparr>rr_UserText := ''question''\<rparr>"

definition exampleBytes :: bytes where
  "exampleBytes = frameConnect [1] @ frameConnect [2] @ frameConnectWithFlags [3] connectEndStreamFlag"

lemma example_run:
  "\<exists>s. runnerRun exampleEnv exampleRequest [] [Chunk (take 8 exampleBytes), HeartbeatTick, Chunk (drop 8 exampleBytes)]
      = (Inr None, s)"
proof -
  have "fst (runnerRun exampleEnv exampleRequest [] [Chunk (take 8 exampleBytes), HeartbeatTick, Chunk (drop 8 exampleBytes)])
      = Inr None" by code_simp
  then show ?thesis by (metis prod.collapse)
qed

lemma example_prefix:
  "\<exists>s rest. runnerRun exampleEnv exampleRequest [] [Chunk (take 8 exampleBytes), HeartbeatTick] = (Inr (Some rest), s)"
proof -
  have "fst (runnerRun exampleEnv exampleRequest [] [Chunk (take 8 exampleBytes), HeartbeatTick])
      = Inr (Some (drop 6 (take 8 exampleBytes)))" by code_simp
  then show ?thesis by (metis prod.collapse)
qed

text \<open>
  C1: A run returns nil only when it is finished: exactly one terminal event was emitted, it is the
  last, and either the turn ended upstream with its usage reported, every announced caller tool got its
  result, every started hosted search completed and every required hosted tool was used, or the run is a
  history request that stops right after handing the first caller tool call to the client.  This holds
  for every order of frames, results, timer ticks and write failures.
\<close>

theorem run_returns_only_when_done:
  assumes "\<And>tools p store. re_encodeRun env request tools = Inr (p, store) \<Longrightarrow> wf_map store"
    and "runnerRun env request writes inputs = (Inr None, s)"
  shows "\<exists>es. rn_events s = es @ [newEvent EventDone] \<and> countType EventDone es = 0
     \<and> (runComplete request es \<or> runHandedOff request es)"
  using runnerRun_post [OF assms] by (simp add: runDone_def)

lemma run_returns_only_when_done_witness:
  "\<exists>s es. runnerRun exampleEnv exampleRequest []
       [Chunk (take 8 exampleBytes), HeartbeatTick, Chunk (drop 8 exampleBytes)] = (Inr None, s)
     \<and> rn_events s = es @ [newEvent EventDone]"
proof -
  obtain s where s: "runnerRun exampleEnv exampleRequest []
      [Chunk (take 8 exampleBytes), HeartbeatTick, Chunk (drop 8 exampleBytes)] = (Inr None, s)"
    using example_run by blast
  have "\<exists>es. rn_events s = es @ [newEvent EventDone] \<and> countType EventDone es = 0
     \<and> (runComplete exampleRequest es \<or> runHandedOff exampleRequest es)"
    by (rule run_returns_only_when_done [OF _ s]) (auto simp: exampleEnv_def)
  with s show ?thesis by blast
qed

text \<open>
  C2: While a run goes on, its tables and its trace agree and every limit holds: the pending table has
  exactly the announced caller tools whose result was not yet accepted, at most 256 of them and at most
  the client's parallel limit; at most 256 results are queued; the blob store is within its limits and
  its byte counter is exact; approved hosted uses never exceed the client's maxima; and no terminal
  event was emitted.
\<close>

theorem run_invariant:
  assumes "\<And>tools p store. re_encodeRun env request tools = Inr (p, store) \<Longrightarrow> wf_map store"
    and "runnerRun env request writes inputs = (Inr (Some rest), s)"
  shows "(\<forall>i. awaiting i (rn_events s) = (map_of (rn_pending s) i \<noteq> None))
    \<and> length (rn_pending s) \<le> maxPendingTools
    \<and> (rr_MaxParallelTools request > 0 \<longrightarrow> int (length (rn_pending s)) \<le> rr_MaxParallelTools request)
    \<and> length (rn_queued s) \<le> maxPendingTools
    \<and> blobsOk maxBlobSize maxBlobStoreSize (rn_blobs s) (rn_blobBytes s)
    \<and> (\<forall>m. rr_HostedSearchMaxUses request = Some m \<longrightarrow> length (ut_searchIDs (rn_uses s)) \<le> nat m)
    \<and> (\<forall>m. rr_HostedFetchMaxUses request = Some m \<longrightarrow> length (ut_fetchIDs (rn_uses s)) \<le> nat m)
    \<and> countType EventDone (rn_events s) = 0"
  using runnerRun_post [OF assms] by (simp add: runOk_def tablesOk_def boundsOk_def flagsOk_def)

lemma run_invariant_witness:
  "\<exists>s rest. runnerRun exampleEnv exampleRequest [] [Chunk (take 8 exampleBytes), HeartbeatTick] = (Inr (Some rest), s)
     \<and> countType EventDone (rn_events s) = 0"
proof -
  obtain s rest where s: "runnerRun exampleEnv exampleRequest []
      [Chunk (take 8 exampleBytes), HeartbeatTick] = (Inr (Some rest), s)"
    using example_prefix by blast
  have "\<And>tools p store. re_encodeRun exampleEnv exampleRequest tools = Inr (p, store) \<Longrightarrow> wf_map store"
    by (auto simp: exampleEnv_def)
  then have "countType EventDone (rn_events s) = 0" using run_invariant [OF _ s] by blast
  with s show ?thesis by blast
qed

text \<open>
  C5: The cut of the byte stream into reads is invisible: two sequences of chunks with the same bytes
  leave a run in the same state with the same events, writes, error and buffered rest.
\<close>

theorem run_chunking_invisible:
  assumes "parseConnectFrame buffer = Inr None" and "concat cs = concat ds"
  shows "selectLoop env request tools buffer (map Chunk cs) = selectLoop env request tools buffer (map Chunk ds)"
  using assms by (simp add: selectLoop_chunks feedChunks_concat)

lemma run_chunking_invisible_witness:
  "selectLoop exampleEnv exampleRequest [] [] (map Chunk [take 3 exampleBytes, drop 3 exampleBytes])
     = selectLoop exampleEnv exampleRequest [] [] (map Chunk [exampleBytes])"
  by (rule run_chunking_invisible) (simp_all add: parseConnectFrame_short connectHeaderSize_def)

end
