(* ===== verification/RunnerReplies.thy ===== *)
theory RunnerReplies
  imports Runner
begin

text \<open>
  The reply discipline of a run: every server message that requires a reply gets exactly one frame,
  except a caller-tool call that was announced and now waits for the client; and every request of the
  server to act on the local machine is refused without any other effect.
\<close>

section \<open>One frame sent\<close>

definition sentFrame :: "runState \<Rightarrow> 'a res \<Rightarrow> runState \<Rightarrow> bool" where
  "sentFrame s r s' = (case r of Inl e \<Rightarrow> True | Inr x \<Rightarrow> \<exists>b. rn_sent s' = rn_sent s @ [b])"

definition sentExactly :: "(clientMessage \<Rightarrow> bytes res) \<Rightarrow> clientMessage \<Rightarrow> runState \<Rightarrow> 'a res \<Rightarrow> runState \<Rightarrow> bool" where
  "sentExactly encode c s r s' = (case r of Inl e \<Rightarrow> True
     | Inr x \<Rightarrow> \<exists>p w. encode c = Inr p \<and> s' = s\<lparr>rn_sent := rn_sent s @ [frameConnect p], rn_writes := w\<rparr>)"

lemma sat_streamWrite_ok:
  "sat (streamWrite b) (\<lambda>r s'. case r of Inl e \<Rightarrow> True
     | Inr x \<Rightarrow> \<exists>w. s' = s\<lparr>rn_sent := rn_sent s @ [b], rn_writes := w\<rparr>) s"
proof (cases "\<exists>e ws. rn_writes s = Some e # ws")
  case True
  then show ?thesis by (auto simp: sat_def streamWrite_def)
next
  case False
  then have "streamWrite b s = (Inr (), s\<lparr>rn_sent := rn_sent s @ [b], rn_writes := tl (rn_writes s)\<rparr>)"
    by (auto simp: streamWrite_def split: list.split option.split)
  then show ?thesis unfolding sat_def by (simp only: prod.case sum.case) (rule exI, rule refl)
qed

lemma sat_send_exactly: "sat (send encode c) (sentExactly encode c s) s"
proof (cases "encode c")
  case (Inl e)
  then show ?thesis by (simp add: send_def wp sentExactly_def)
next
  case (Inr p)
  show ?thesis
  proof (cases "length p > maxConnectPayloadSize")
    case True
    with Inr show ?thesis by (simp add: send_def wp writeConnectPayload_def sentExactly_def)
  next
    case False
    have "sat (streamWrite (frameConnect p)) (sentExactly encode c s) s"
      by (rule sat_mono [OF sat_streamWrite_ok]) (auto simp: sentExactly_def Inr split: sum.split)
    with Inr False show ?thesis by (simp add: send_def wp writeConnectPayload_def)
  qed
qed

lemma sat_send_frame: "rn_sent s = rn_sent s0 \<Longrightarrow> sat (send encode c) (sentFrame s0) s"
  by (rule sat_mono [OF sat_send_exactly]) (auto simp: sentExactly_def sentFrame_def split: sum.splits)

lemma sat_continue_frame: "sat m (sentFrame s0) s \<Longrightarrow> sat (continue m) (sentFrame s0) s"
  unfolding continue_def sat_bnd
  by (erule sat_mono) (auto simp: sentFrame_def wp split: sum.splits)

lemma sat_after_frame:
  assumes "sat n (\<lambda>r s2. case r of Inl e \<Rightarrow> True | Inr y \<Rightarrow> rn_sent s2 = rn_sent s1) s1"
    and "rn_sent s1 = rn_sent s0 @ [b]"
  shows "sat n (sentFrame s0) s1"
  by (rule sat_mono [OF assms(1)]) (use assms(2) in \<open>auto simp: sentFrame_def split: sum.splits\<close>)

lemma sat_bnd_frame:
  assumes "sat m (sentFrame s0) s"
    and "\<And>x s1. sat (f x) (\<lambda>r s'. case r of Inl e \<Rightarrow> True | Inr y \<Rightarrow> rn_sent s' = rn_sent s1) s1"
  shows "sat (bnd m f) (sentFrame s0) s"
  unfolding sat_bnd
  by (rule sat_mono [OF assms(1)])
     (auto simp: sentFrame_def [of _ "Inl e" for e] sentFrame_def [of _ "Inr x" for x] split: sum.split
       intro: sat_after_frame [OF assms(2)])

lemma sent_emit [simp]:
  "sat (emit e) (\<lambda>r s'. case r of Inl e \<Rightarrow> True | Inr y \<Rightarrow> rn_sent s' = rn_sent s) s"
  by (simp add: emit_def wp Let_def)

section \<open>Handlers\<close>

lemma sendToolResult_frame: "rn_sent s = rn_sent s0 \<Longrightarrow> sat (sendToolResult encode m r) (sentFrame s0) s"
  unfolding sendToolResult_def
  by (rule sat_bnd_frame [OF sat_send_frame]) (simp_all add: wp emit_def Let_def)

lemma handleKVGet_frame: "sat (handleKVGet encode m) (sentFrame s) s"
  by (simp add: handleKVGet_def wp sat_send_frame)

lemma handleKVSet_frame: "sat (handleKVSet encode m) (sentFrame s) s"
  by (cases "storeBlob (rn_blobs s) (rn_blobBytes s) (hexKey (dm_BlobID m)) (dm_BlobData m) maxBlobSize maxBlobStoreSize")
     (auto simp: handleKVSet_def wp sentFrame_def [of s "Inl e" for e] intro!: sat_send_frame)

lemma handleRequestContext_frame: "sat (handleRequestContext encode request tools m) (sentFrame s) s"
  by (simp add: handleRequestContext_def wp sat_send_frame)

lemma handleInteraction_frame: "sat (handleInteraction encode request m) (sentFrame s) s"
proof (cases "dm_InteractionKind m \<in> {2, 4, 5, 6, 9}")
  case True
  obtain approve reason used where d: "hostedInteractionDecision request m (rn_uses s) = ((approve, reason), used)"
    by (cases "hostedInteractionDecision request m (rn_uses s)") auto
  have "sat (bnd (send encode (InteractionDecision (dm_ID m) (dm_InteractionKind m) approve reason)) (\<lambda>_.
      if c then emit (newEvent EventHostedSearchCall) else ret ())) (sentFrame s) (s\<lparr>rn_uses := used\<rparr>)" for c
    by (rule sat_bnd_frame [OF sat_send_frame]) (simp_all add: wp)
  with d show ?thesis
    unfolding handleInteraction_def Let_def if_P [OF True]
    by (simp add: sat_bnd [of "gets f" for f] sat_gets sat_bnd [of "modify f" for f] sat_modify)
next
  case False
  then show ?thesis
    by (auto simp: handleInteraction_def Let_def fail_def wp sentFrame_def [of s "Inl e" for e] intro!: sat_send_frame)
qed

text \<open>A caller-tool call gets a frame, or is pending under its id.\<close>

definition repliedOrPending :: "string \<Rightarrow> runState \<Rightarrow> 'a res \<Rightarrow> runState \<Rightarrow> bool" where
  "repliedOrPending i s r s' = (case r of Inl e \<Rightarrow> True | Inr x \<Rightarrow>
     (\<exists>b. rn_sent s' = rn_sent s @ [b]) \<or> rn_sent s' = rn_sent s \<and> map_of (rn_pending s') i \<noteq> None)"

lemma replied_frame: "sentFrame s r s' \<Longrightarrow> repliedOrPending i s r s'"
  by (auto simp: sentFrame_def repliedOrPending_def split: sum.splits)

lemma announceTool_pending:
  assumes "rn_sent s = rn_sent s0" and "map_of (rn_pending s) i \<noteq> None"
  shows "sat (announceTool request m) (repliedOrPending i s0) s"
  using assms by (auto simp: announceTool_def emit_def Let_def wp repliedOrPending_def)

lemma handleMCP_replied: "sat (handleMCP encode request m) (repliedOrPending (trimSpace (dm_ToolCallID m)) s) s"
proof (cases "rn_toolResults s")
  case False
  have "sat (bnd (rejectExec encode m 11 3 1 ''caller-tool continuation is unavailable'') (\<lambda>_. ret False)) (sentFrame s) s"
    unfolding rejectExec_def by (rule sat_bnd_frame [OF sat_send_frame]) (simp_all add: wp)
  with False show ?thesis
    by (auto simp: handleMCP_def sat_bnd [of "gets f" for f] sat_gets intro: sat_mono replied_frame)
next
  case True
  let ?i = "trimSpace (dm_ToolCallID m)" and ?m = "m\<lparr>dm_ToolCallID := trimSpace (dm_ToolCallID m)\<rparr>"
  let ?s1 = "s\<lparr>rn_streamMCP := AList.delete ?i (rn_streamMCP s)\<rparr>"
  let ?s2 = "?s1\<lparr>rn_toolCallSeen := True, rn_pending := AList.update ?i ?m (rn_pending s)\<rparr>"
  show ?thesis
  proof (cases "?i = [] \<or> mcpGuards request ?i ?s1 \<noteq> Inr ()")
    case True
    with \<open>rn_toolResults s\<close> show ?thesis
      by (cases "mcpGuards request ?i ?s1")
         (auto simp: handleMCP_def Let_def wp fail_def repliedOrPending_def)
  next
    case False
    have queued: "sat (bnd (sendToolResult encode ?m result) (\<lambda>_. ret False)) (repliedOrPending ?i s)
        (?s2\<lparr>rn_queued := AList.delete ?i (rn_queued s)\<rparr>)" for result
    proof (rule sat_mono)
      show "sat (bnd (sendToolResult encode ?m result) (\<lambda>_. ret False)) (sentFrame s)
          (?s2\<lparr>rn_queued := AList.delete ?i (rn_queued s)\<rparr>)"
        by (rule sat_bnd_frame [OF sendToolResult_frame]) (simp_all add: wp)
    qed (rule replied_frame)
    have announced: "sat (announceTool request ?m) (repliedOrPending ?i s) ?s2"
      by (rule announceTool_pending) simp_all
    show ?thesis
      using False \<open>rn_toolResults s\<close> queued announced
      by (simp add: handleMCP_def Let_def sat_bnd [of "gets f" for f] sat_gets sat_bnd [of "modify f" for f] sat_modify
          sat_bnd [of "lift f" for f] sat_lift split: option.split)
  qed
qed

section \<open>Properties\<close>

lemma handleMessage_replied:
  assumes "wireReplyRequired (dm_Type m)"
  shows "sat (handleMessage encode request tools m) (repliedOrPending (trimSpace (dm_ToolCallID m)) s) s"
proof -
  have frame: "sat (continue n) (repliedOrPending i s) s" if "sat n (sentFrame s) s" for n i
    by (rule sat_mono [OF sat_continue_frame [OF that]]) (rule replied_frame)
  have failed: "sat (fail t a) (repliedOrPending i s) s" "sat (continue (fail t a)) (repliedOrPending i s) s" for t a i
    by (simp_all add: fail_def continue_def wp repliedOrPending_def)
  show ?thesis
    using assms handleMCP_replied [of encode request m s]
    by (cases "dm_Type m")
       (auto simp: handleMessage_def wireReplyRequired_def rejectExec_def handleUnsupported_def Let_def failed
         intro!: frame sat_send_frame handleKVGet_frame handleKVSet_frame handleRequestContext_frame
           handleInteraction_frame)
qed

text \<open>
  C3: No request of the server is left unanswered: when a message that requires a reply is handled
  without ending the run in an error, exactly one frame was written for it, or it is a caller-tool call
  that was recorded as pending until its result arrives.
\<close>

theorem every_request_answered:
  assumes "wireReplyRequired (dm_Type m)" and "handleMessage encode request tools m s = (Inr stop, s')"
  shows "(\<exists>b. rn_sent s' = rn_sent s @ [b])
    \<or> rn_sent s' = rn_sent s \<and> map_of (rn_pending s') (trimSpace (dm_ToolCallID m)) \<noteq> None"
  using satD [OF handleMessage_replied [OF assms(1)] assms(2)] by (simp add: repliedOrPending_def)

definition exampleState :: runState where
  "exampleState = initialRun newRunRequest [] 0 []"

lemma every_request_answered_witness:
  "\<exists>b. rn_sent (snd (handleMessage (\<lambda>c. Inr [9]) newRunRequest [] (newMessage wireShell) exampleState)) = [b]"
proof -
  have r: "wireReplyRequired (dm_Type (newMessage wireShell))" by code_simp
  have "fst (handleMessage (\<lambda>c. Inr [9]) newRunRequest [] (newMessage wireShell) exampleState) = Inr False" by code_simp
  then have h: "handleMessage (\<lambda>c. Inr [9]) newRunRequest [] (newMessage wireShell) exampleState
    = (Inr False, snd (handleMessage (\<lambda>c. Inr [9]) newRunRequest [] (newMessage wireShell) exampleState))"
    by (metis prod.collapse)
  have "rn_pending (snd (handleMessage (\<lambda>c. Inr [9]) newRunRequest [] (newMessage wireShell) exampleState)) = []"
    by code_simp
  with every_request_answered [OF r h] show ?thesis
    by (simp add: exampleState_def initialRun_def)
qed

text \<open>The refusal that answers each request to act on the local machine.\<close>

definition refusal :: "decodedWireMessage \<Rightarrow> clientMessage option" where
  "refusal m = (let i = dm_ID m; x = dm_ExecID m in case dm_Type m of
     wireShell \<Rightarrow> Some (ExecRejected i x 2 4 3 ''shell execution is disabled on the BeefAPI sidecar'')
   | wireShellStream \<Rightarrow> Some (ExecRejected i x 14 5 3 ''shell streaming is disabled on the BeefAPI sidecar'')
   | wireBackgroundShell \<Rightarrow> Some (ExecRejected i x 16 3 3 ''background shell execution is disabled on the BeefAPI sidecar'')
   | wireRead \<Rightarrow> Some (ExecRejected i x 7 3 2 ''workspace reads are disabled on the BeefAPI sidecar'')
   | wireWrite \<Rightarrow> Some (ExecRejected i x 3 6 2 ''workspace writes are disabled on the BeefAPI sidecar'')
   | wireDelete \<Rightarrow> Some (ExecRejected i x 4 6 2 ''workspace deletes are disabled on the BeefAPI sidecar'')
   | wireList \<Rightarrow> Some (ExecRejected i x 8 3 2 ''workspace listing is disabled on the BeefAPI sidecar'')
   | wireGrep \<Rightarrow> Some (ExecError i x 5 ''workspace search is disabled on the BeefAPI sidecar'')
   | wireFetch \<Rightarrow> Some (FetchError i x ''arbitrary fetch is disabled on the BeefAPI sidecar'')
   | wireDiagnostics \<Rightarrow> Some (ExecRejected i x 9 3 2 ''workspace diagnostics are disabled on the BeefAPI sidecar'')
   | wireAllowlistPrecheck \<Rightarrow> Some (AllowlistPrecheck i x (dm_AllowlistKind m) False)
   | _ \<Rightarrow> None)"

lemma handleMessage_refusal:
  "refusal m = Some c \<Longrightarrow> handleMessage encode request tools m = continue (send encode c)"
  by (cases "dm_Type m") (auto simp: refusal_def handleMessage_def rejectExec_def Let_def)

text \<open>
  C4: The server can never act on the local machine through a run: every request to execute a command,
  to read, write, list, search or delete files, to fetch or to pre-approve a tool is answered by its
  refusal with the request's own ids, and nothing else of the run changes: no event reaches the caller,
  no tool becomes pending, no blob is stored, no hosted use is spent.
\<close>

theorem native_tools_refused:
  assumes "refusal m = Some c" and "handleMessage encode request tools m s = (Inr stop, s')"
  shows "\<not> stop \<and> (\<exists>p w. encode c = Inr p \<and> s' = s\<lparr>rn_sent := rn_sent s @ [frameConnect p], rn_writes := w\<rparr>)"
proof -
  have "sat (continue (send encode c)) (\<lambda>r s'. case r of Inl e \<Rightarrow> True | Inr stop \<Rightarrow>
      \<not> stop \<and> sentExactly encode c s (Inr ()) s') s"
    unfolding continue_def sat_bnd
    by (rule sat_mono [OF sat_send_exactly]) (auto simp: sat_ret sentExactly_def split: sum.splits)
  with satD [OF this, of "Inr stop" s'] show ?thesis
    using assms handleMessage_refusal [OF assms(1), of encode request tools] by (simp add: sentExactly_def)
qed

lemma native_tools_refused_witness:
  "\<exists>w. snd (handleMessage (\<lambda>c. Inr [9]) newRunRequest [] (newMessage wireDelete) exampleState)
    = exampleState\<lparr>rn_sent := rn_sent exampleState @ [frameConnect [9]], rn_writes := w\<rparr>"
proof -
  obtain c where c: "refusal (newMessage wireDelete) = Some c" by (simp add: refusal_def newMessage_def Let_def)
  have "fst (handleMessage (\<lambda>c. Inr [9]) newRunRequest [] (newMessage wireDelete) exampleState) = Inr False" by code_simp
  then have h: "handleMessage (\<lambda>c. Inr [9]) newRunRequest [] (newMessage wireDelete) exampleState
    = (Inr False, snd (handleMessage (\<lambda>c. Inr [9]) newRunRequest [] (newMessage wireDelete) exampleState))"
    by (metis prod.collapse)
  from native_tools_refused [OF c h] show ?thesis by auto
qed

end
