(* ===== verification/Inference.thy ===== *)
theory Inference
  imports Hosted
begin

text \<open>
  The configuration side of the Sand runtime: the model catalogue (\<open>models.go\<close>), the runtime
  profile (\<open>profile_runner.go\<close>), the model selector (\<open>inference_wire.go\<close>), the reasoning
  parameters (\<open>inference_parameters.go\<close>), and the bounded memory of reasoning signatures
  (\<open>inference_reasoning.go\<close>).

  Parameters: \<open>lower\<close> is \<open>strings.ToLower\<close>, \<open>sha\<close> the SHA-256 digest, \<open>gjson path\<close> the text
  found at a path of the original request, \<open>decode\<close> is \<open>json.Unmarshal\<close> into a JSON object.
\<close>

section \<open>Profiles and catalogues\<close>

definition runtimeAgentV1 :: string where "runtimeAgentV1 = ''agent_v1''"
definition runtimeSand :: string where "runtimeSand = ''sand''"

definition DefaultModels :: "string list" where
  "DefaultModels = [''claude-fable-5-1'', ''claude-fable-5'', ''claude-opus-5'', ''claude-opus-4-6'',
     ''claude-opus-4-7'', ''claude-opus-4-8'', ''claude-sonnet-4-6'', ''claude-sonnet-5'',
     ''composer-2.5-fast'', ''glm-5.2'', ''kimi-k3'']"

definition SandModels :: "string list" where "SandModels = [''grok-4.6'']"

definition ModelsForRuntimeProfile :: "string \<Rightarrow> string list" where
  "ModelsForRuntimeProfile profile =
     (if profile = runtimeSand then DefaultModels @ SandModels else DefaultModels)"

text \<open>
  \<open>strings.EqualFold(s, "sand")\<close>: simple Unicode folding, under which the two bytes of the long
  s (U+017F) equal an s.
\<close>

fun foldSand :: "string \<Rightarrow> string" where
  "foldSand (a # b # s) =
     (if a = CHR 0xC5 \<and> b = CHR 0xBF then CHR 0x73 # foldSand s else lowerByte a # foldSand (b # s))"
| "foldSand [a] = [lowerByte a]"
| "foldSand [] = []"

definition normalizeRuntimeProfile :: "string \<Rightarrow> string" where
  "normalizeRuntimeProfile profile =
     (if foldSand (trimSpace profile) = runtimeSand then runtimeSand else runtimeAgentV1)"

text \<open>\<open>profileRunner.Run\<close>, the two engines being parameters.\<close>

definition profileRun ::
  "(RunRequest \<Rightarrow> ('s, unit) io) \<Rightarrow> (RunRequest \<Rightarrow> ('s, unit) io) \<Rightarrow> RunRequest \<Rightarrow> ('s, unit) io" where
  "profileRun agent sand request =
     (let p = toLower (trimSpace (rr_RuntimeProfile request)) in
      if p = [] \<or> p = runtimeAgentV1 then agent request
      else if p = runtimeSand then sand request
      else raise (Errorf ''Cursor Agent v1 runtime profile %q is invalid'' [S (rr_RuntimeProfile request)]))"

section \<open>Model selection\<close>

record inferenceModelSpec =
  ms_ID :: string
  ms_Parameters :: "(string \<times> string) list"
  ms_BuiltIn :: bool
  ms_MaxMode :: bool

definition grokPrefixes :: "string list" where
  "grokPrefixes = [''cursor-grok-4.6-'', ''cursor-grok-4.5-'']"

definition badRequest :: "string \<Rightarrow> err" where
  "badRequest text = RequestError 400 text"

fun grokSelection :: "string list \<Rightarrow> string \<Rightarrow> (string \<times> string) option res" where
  "grokSelection [] v = Inr None"
| "grokSelection (prefix # ps) v =
     (if hasPrefix v prefix then
        (let effort = trimPrefix v prefix in
         if effort \<notin> {''low'', ''medium'', ''high'', ''xhigh''}
         then Inl (badRequest ''Cursor Sand Grok effort is invalid'')
         else Inr (Some (trimSuffix (trimPrefix prefix ''cursor-'') ''-'', effort)))
      else grokSelection ps v)"

definition inferenceModelSelection :: "(string \<Rightarrow> string) \<Rightarrow> string \<Rightarrow> (string \<times> string) res" where
  "inferenceModelSelection lower model =
     (let v = lower (trimSpace model) in
      case grokSelection grokPrefixes v of
        Inl e \<Rightarrow> Inl e
      | Inr (Some r) \<Rightarrow> Inr r
      | Inr None \<Rightarrow>
          if v = ''grok-4.6'' then Inr (v, ''medium'')
          else if v = [] then Inl (badRequest ''Cursor Sand model is required'')
          else Inr (v, []))"

definition inferenceRequestedModel :: "(string \<Rightarrow> string) \<Rightarrow> string \<Rightarrow> inferenceModelSpec res" where
  "inferenceRequestedModel lower model = (case inferenceModelSelection lower model of
     Inl e \<Rightarrow> Inl e
   | Inr (modelID, effort) \<Rightarrow>
       if modelID = ''claude-sonnet-5''
       then Inr \<lparr>ms_ID = modelID, ms_Parameters = [(''thinking'', ''true''), (''context'', ''1m''), (''effort'', ''high'')],
                 ms_BuiltIn = False, ms_MaxMode = True\<rparr>
       else Inr \<lparr>ms_ID = modelID, ms_Parameters = (if effort \<noteq> [] then [(''effort'', effort)] else []),
                 ms_BuiltIn = True, ms_MaxMode = False\<rparr>)"

definition hasParameter :: "inferenceModelSpec \<Rightarrow> string \<Rightarrow> bool" where
  "hasParameter spec i = (i \<in> fst ` set (ms_Parameters spec))"

definition inferenceModelSupportsThinkingParameter :: "string \<Rightarrow> bool" where
  "inferenceModelSupportsThinkingParameter modelID = hasPrefix (toLower (trimSpace modelID)) ''claude-''"

section \<open>Reasoning parameters\<close>

datatype sourceFormat = FormatOpenAI | FormatOpenAIResponse | FormatOther

definition originalReasoningEffort :: "(string \<Rightarrow> string) \<Rightarrow> (string \<Rightarrow> string) \<Rightarrow> sourceFormat \<Rightarrow> string" where
  "originalReasoningEffort lower gjson f =
     (let chat = trimSpace (gjson ''reasoning_effort'') in
      if f = FormatOpenAI \<and> chat \<noteq> [] then lower chat
      else lower (trimSpace (gjson (if f = FormatOther then ''output_config.effort'' else ''reasoning.effort''))))"

definition originalInferenceContext :: "(string \<Rightarrow> string) \<Rightarrow> (string \<Rightarrow> string) \<Rightarrow> string" where
  "originalInferenceContext lower gjson = lower (trimSpace (gjson ''cursor_context''))"

definition originalInferenceThinking :: "(string \<Rightarrow> string) \<Rightarrow> bool option" where
  "originalInferenceThinking gjson =
     (let v = toLower (trimSpace (gjson ''thinking.type'')) in
      if v = ''enabled'' \<or> v = ''adaptive'' then Some True
      else if v = ''disabled'' then Some False else None)"

definition setInferenceParameter :: "string \<Rightarrow> string \<Rightarrow> inferenceModelSpec \<Rightarrow> inferenceModelSpec" where
  "setInferenceParameter key v spec = spec\<lparr>ms_Parameters := AList.update key v (ms_Parameters spec)\<rparr>"

text \<open>The catalogue of contexts and efforts, the space-separated lists split.\<close>

definition claudeInferenceParameters :: "(string \<times> (string list \<times> string list)) list" where
  "claudeInferenceParameters =
     (let fullEfforts = [''low'', ''medium'', ''high'', ''xhigh'', ''max''];
          oldEfforts = [''low'', ''medium'', ''high'', ''max''];
          big = [''300k'', ''1m''] in
      [(''claude-fable-5-1'', big, fullEfforts), (''claude-fable-5'', big, fullEfforts),
       (''claude-opus-5'', big, fullEfforts), (''claude-opus-4-8'', big, fullEfforts),
       (''claude-opus-4-7'', big, fullEfforts), (''claude-opus-4-6'', [''200k'', ''1m''], oldEfforts),
       (''claude-sonnet-5'', big, fullEfforts), (''claude-sonnet-4-6'', [''200k'', ''1m''], oldEfforts)])"

definition fable :: "string \<Rightarrow> bool" where
  "fable i = (i = ''claude-fable-5-1'' \<or> i = ''claude-fable-5'')"

text \<open>The four stages of \<open>applyInferenceParameters\<close>, in its order.\<close>

definition applyFable :: "RunRequest \<Rightarrow> inferenceModelSpec \<Rightarrow> inferenceModelSpec res" where
  "applyFable request spec =
     (if fable (ms_ID spec)
      then (if rr_InferenceThinking request = Some False
            then Inl (badRequest ''Fable thinking cannot be disabled; use effort to control reasoning depth'')
            else Inr (setInferenceParameter ''thinking'' ''true'' spec))
      else Inr spec)"

definition applyThinking :: "RunRequest \<Rightarrow> inferenceModelSpec \<Rightarrow> inferenceModelSpec" where
  "applyThinking request spec = (case rr_InferenceThinking request of
     None \<Rightarrow> spec
   | Some on \<Rightarrow>
       if map_of claudeInferenceParameters (ms_ID spec) \<noteq> None
       then setInferenceParameter ''thinking'' (if on then ''true'' else ''false'') spec
       else spec)"

definition applyContext :: "RunRequest \<Rightarrow> inferenceModelSpec \<Rightarrow> inferenceModelSpec res" where
  "applyContext request spec =
     (let c = rr_InferenceContext request in
      if c = [] then Inr spec
      else case map_of claudeInferenceParameters (ms_ID spec) of
        None \<Rightarrow> Inl (badRequest ''unsupported cursor_context for this Claude model'')
      | Some (contexts, efforts) \<Rightarrow>
          if c \<notin> set contexts
          then Inl (badRequest ''unsupported cursor_context for this Claude model'')
          else Inr (setInferenceParameter ''context'' c (spec\<lparr>ms_BuiltIn := False, ms_MaxMode := (c = ''1m'')\<rparr>)))"

definition applyEffort :: "RunRequest \<Rightarrow> inferenceModelSpec \<Rightarrow> inferenceModelSpec res" where
  "applyEffort request spec =
     (let effort = toLower (trimSpace (rr_ReasoningEffort request)) in
      if effort = [] then Inr spec
      else if (case map_of claudeInferenceParameters (ms_ID spec) of
                 None \<Rightarrow> False | Some (contexts, efforts) \<Rightarrow> effort \<notin> set efforts)
      then Inl (badRequest ''unsupported reasoning effort for this Claude model'')
      else if \<not> hasPrefix (ms_ID spec) ''claude-'' \<and> \<not> hasPrefix (ms_ID spec) ''grok-''
      then Inl (badRequest ''explicit Sand effort is currently supported for Claude and Grok'')
      else if effort \<notin> {''low'', ''medium'', ''high'', ''xhigh'', ''max''}
      then Inl (badRequest ''unsupported Cursor Sand reasoning effort'')
      else Inr (setInferenceParameter ''effort''
             (if hasPrefix (ms_ID spec) ''grok-'' \<and> effort = ''max'' then ''xhigh'' else effort) spec))"

definition applyInferenceParameters :: "RunRequest \<Rightarrow> inferenceModelSpec \<Rightarrow> inferenceModelSpec res" where
  "applyInferenceParameters request spec = (case applyFable request spec of
     Inl e \<Rightarrow> Inl e
   | Inr s1 \<Rightarrow> (case applyContext request (applyThinking request s1) of
       Inl e \<Rightarrow> Inl e
     | Inr s2 \<Rightarrow> applyEffort request s2))"

text \<open>The selection as \<open>encodeInferenceRequestWithPolicy\<close> sends it.\<close>

definition requestSelection :: "(string \<Rightarrow> string) \<Rightarrow> RunRequest \<Rightarrow> inferenceModelSpec res" where
  "requestSelection lower request = (case inferenceRequestedModel lower (rr_Model request) of
     Inl e \<Rightarrow> Inl e
   | Inr spec \<Rightarrow>
       applyInferenceParameters request
         (if rr_ThinkingEnabled request \<and> \<not> hasParameter spec ''thinking''
             \<and> inferenceModelSupportsThinkingParameter (ms_ID spec)
          then spec\<lparr>ms_Parameters := ms_Parameters spec @ [(''thinking'', ''true'')]\<rparr> else spec))"

subsection \<open>What is sent\<close>

lemma set_simps [simp]:
  "ms_ID (setInferenceParameter k v spec) = ms_ID spec"
  "ms_Parameters (setInferenceParameter k v spec) = AList.update k v (ms_Parameters spec)"
  "ms_BuiltIn (setInferenceParameter k v spec) = ms_BuiltIn spec"
  "ms_MaxMode (setInferenceParameter k v spec) = ms_MaxMode spec"
  by (simp_all add: setInferenceParameter_def)

definition parameter :: "inferenceModelSpec \<Rightarrow> string \<Rightarrow> string option" where
  "parameter spec k = map_of (ms_Parameters spec) k"

lemma parameter_set [simp]:
  "parameter (setInferenceParameter k v spec) k' = (if k' = k then Some v else parameter spec k')"
  by (simp add: parameter_def)

lemma parameter_flags [simp]:
  "parameter (spec\<lparr>ms_BuiltIn := b, ms_MaxMode := c\<rparr>) k = parameter spec k"
  by (simp add: parameter_def)

lemma applyFable_Inr:
  "applyFable request spec = Inr s1 \<Longrightarrow>
     ms_ID s1 = ms_ID spec \<and> ms_MaxMode s1 = ms_MaxMode spec \<and> ms_BuiltIn s1 = ms_BuiltIn spec
     \<and> (\<forall>k. k \<noteq> ''thinking'' \<longrightarrow> parameter s1 k = parameter spec k)
     \<and> (fable (ms_ID spec) \<longrightarrow> parameter s1 ''thinking'' = Some ''true'' \<and> rr_InferenceThinking request \<noteq> Some False)
     \<and> (wf_map (ms_Parameters spec) \<longrightarrow> wf_map (ms_Parameters s1))"
  by (auto simp: applyFable_def split: if_splits)

lemma applyThinking_facts:
  "ms_ID (applyThinking request s) = ms_ID s"
  "k \<noteq> ''thinking'' \<Longrightarrow> parameter (applyThinking request s) k = parameter s k"
  "ms_MaxMode (applyThinking request s) = ms_MaxMode s"
  "wf_map (ms_Parameters s) \<Longrightarrow> wf_map (ms_Parameters (applyThinking request s))"
  by (auto simp: applyThinking_def split: option.split)

lemma applyContext_Inr:
  "applyContext request s = Inr s2 \<Longrightarrow>
     ms_ID s2 = ms_ID s \<and> (\<forall>k. k \<noteq> ''context'' \<longrightarrow> parameter s2 k = parameter s k)
     \<and> (wf_map (ms_Parameters s) \<longrightarrow> wf_map (ms_Parameters s2))
     \<and> (if rr_InferenceContext request = [] then s2 = s
        else parameter s2 ''context'' = Some (rr_InferenceContext request) \<and> \<not> ms_BuiltIn s2
             \<and> ms_MaxMode s2 = (rr_InferenceContext request = ''1m'')
             \<and> (\<exists>cs es. map_of claudeInferenceParameters (ms_ID s) = Some (cs, es)
                  \<and> rr_InferenceContext request \<in> set cs))"
  by (auto simp: applyContext_def Let_def split: if_splits option.splits)

lemma applyEffort_Inr:
  assumes "applyEffort request s = Inr s3"
  shows "ms_ID s3 = ms_ID s \<and> (\<forall>k. k \<noteq> ''effort'' \<longrightarrow> parameter s3 k = parameter s k)
     \<and> (wf_map (ms_Parameters s) \<longrightarrow> wf_map (ms_Parameters s3))
     \<and> ms_BuiltIn s3 = ms_BuiltIn s \<and> ms_MaxMode s3 = ms_MaxMode s"
  using assms by (auto simp: applyEffort_def Let_def split: if_splits)

lemma applyEffort_sent:
  assumes "applyEffort request s = Inr s3" and "toLower (trimSpace (rr_ReasoningEffort request)) = effort"
    and "effort \<noteq> []"
  shows "parameter s3 ''effort'' = Some (if hasPrefix (ms_ID s) ''grok-'' \<and> effort = ''max'' then ''xhigh'' else effort)"
    and "effort \<in> {''low'', ''medium'', ''high'', ''xhigh'', ''max''}"
    and "map_of claudeInferenceParameters (ms_ID s) = Some (cs, es) \<Longrightarrow> effort \<in> set es"
  using assms unfolding applyEffort_def Let_def by (auto split: if_splits option.splits)

lemma applyInferenceParameters_Inr:
  assumes "applyInferenceParameters request spec = Inr s3"
  obtains s1 s2 where "applyFable request spec = Inr s1"
    "applyContext request (applyThinking request s1) = Inr s2" "applyEffort request s2 = Inr s3"
  using assms by (auto simp: applyInferenceParameters_def split: sum.splits)

section \<open>The signature memory\<close>

datatype signatureState = signatureUnknown | signatureMinted | signatureRejected

record signatureMemoryStore =
  sm_limit :: nat
  sm_order :: "string list"
  sm_state :: "(string \<times> signatureState) list"

definition newSignatureMemory :: "nat \<Rightarrow> signatureMemoryStore" where
  "newSignatureMemory limit = \<lparr>sm_limit = limit, sm_order = [], sm_state = []\<rparr>"

definition signatureKey :: "(string \<Rightarrow> string) \<Rightarrow> string \<Rightarrow> string" where
  "signatureKey sha signature = sha (trimSpace signature)"

definition sigLookup :: "(string \<Rightarrow> string) \<Rightarrow> signatureMemoryStore \<Rightarrow> string \<Rightarrow> signatureState" where
  "sigLookup sha m signature =
     (if trimSpace signature = [] then signatureUnknown
      else case map_of (sm_state m) (signatureKey sha signature) of
        None \<Rightarrow> signatureUnknown | Some st \<Rightarrow> st)"

text \<open>The eviction loop: drop the oldest key while there are more than \<open>limit\<close>.\<close>

fun evict :: "nat \<Rightarrow> string list \<Rightarrow> (string \<times> signatureState) list \<Rightarrow>
    string list \<times> (string \<times> signatureState) list" where
  "evict limit [] st = ([], st)"
| "evict limit (k # ks) st =
     (if length (k # ks) > limit then evict limit ks (AList.delete k st) else (k # ks, st))"

definition sigRecord ::
  "(string \<Rightarrow> string) \<Rightarrow> string \<Rightarrow> signatureState \<Rightarrow> signatureMemoryStore \<Rightarrow> signatureMemoryStore" where
  "sigRecord sha signature st m =
     (if trimSpace signature = [] then m
      else let key = signatureKey sha signature;
               (order, state) = (if map_of (sm_state m) key = None
                 then evict (sm_limit m) (sm_order m @ [key]) (sm_state m)
                 else (sm_order m, sm_state m))
           in m\<lparr>sm_order := order, sm_state := AList.update key st state\<rparr>)"

definition sandForwardsReasoningSignature ::
  "(string \<Rightarrow> string) \<Rightarrow> bool \<Rightarrow> signatureMemoryStore \<Rightarrow> string \<Rightarrow> bool" where
  "sandForwardsReasoningSignature sha forwarding m signature =
     (if \<not> forwarding \<or> trimSpace signature = [] then False
      else sigLookup sha m signature = signatureMinted)"

definition rememberMintedSignature ::
  "(string \<Rightarrow> string) \<Rightarrow> string \<Rightarrow> signatureMemoryStore \<Rightarrow> signatureMemoryStore" where
  "rememberMintedSignature sha signature m = sigRecord sha signature signatureMinted m"

fun partSignature :: "json \<Rightarrow> string list" where
  "partSignature (JObj part) =
     (if stringValue (map_of part ''type'') = ''reasoning'' \<and> stringValue (map_of part ''signature'') \<noteq> []
      then [stringValue (map_of part ''signature'')] else [])"
| "partSignature _ = []"

definition contentParts :: "json option \<Rightarrow> json list" where
  "contentParts v = (case v of Some (JArr parts) \<Rightarrow> parts | _ \<Rightarrow> [])"

definition historySignatures ::
  "(bytes \<Rightarrow> (string \<times> json) list option) \<Rightarrow> bytes list \<Rightarrow> string list" where
  "historySignatures decode messages =
     concat (map (\<lambda>raw. case decode raw of None \<Rightarrow> []
       | Some message \<Rightarrow> concat (map partSignature (contentParts (map_of message ''content'')))) messages)"

definition historyCarriesForwardedSignature ::
  "(string \<Rightarrow> string) \<Rightarrow> (bytes \<Rightarrow> (string \<times> json) list option) \<Rightarrow> bool \<Rightarrow> signatureMemoryStore \<Rightarrow> bytes list \<Rightarrow> bool" where
  "historyCarriesForwardedSignature sha decode forwarding m messages =
     list_ex (sandForwardsReasoningSignature sha forwarding m) (historySignatures decode messages)"

definition markHistorySignaturesRejected ::
  "(string \<Rightarrow> string) \<Rightarrow> (bytes \<Rightarrow> (string \<times> json) list option) \<Rightarrow> bytes list \<Rightarrow> signatureMemoryStore \<Rightarrow> signatureMemoryStore" where
  "markHistorySignaturesRejected sha decode messages m =
     foldl (\<lambda>m s. if sigLookup sha m s = signatureMinted then sigRecord sha s signatureRejected m else m)
       m (historySignatures decode messages)"

fun isForeignReasoningSignatureRejection :: "err \<Rightarrow> bool" where
  "isForeignReasoningSignatureRejection (ConnectError code msg) =
     (toLower (trimSpace code) = ''resource_exhausted'' \<or> toLower (trimSpace code) = ''invalid_argument'')"
| "isForeignReasoningSignatureRejection (Wrap s e) = isForeignReasoningSignatureRejection e"
| "isForeignReasoningSignatureRejection e = False"

subsection \<open>Its invariant\<close>

definition memoryOk :: "signatureMemoryStore \<Rightarrow> bool" where
  "memoryOk m = (0 < sm_limit m \<and> wf_map (sm_state m) \<and> distinct (sm_order m)
     \<and> set (sm_order m) = fst ` set (sm_state m) \<and> length (sm_order m) \<le> sm_limit m)"

lemma evict_one:
  assumes "length ks = Suc limit" "0 < limit"
  shows "evict limit ks st = (tl ks, AList.delete (hd ks) st)"
  using assms by (cases ks; cases "tl ks") auto

lemma evict_none: "length ks \<le> limit \<Longrightarrow> evict limit ks st = (ks, st)"
  by (cases ks) auto

lemma sigRecord_old:
  assumes "trimSpace s \<noteq> []" "map_of (sm_state m) (signatureKey sha s) \<noteq> None"
  shows "sigRecord sha s st m = m\<lparr>sm_state := AList.update (signatureKey sha s) st (sm_state m)\<rparr>"
  using assms by (auto simp: sigRecord_def Let_def)

lemma sigRecord_room:
  assumes "trimSpace s \<noteq> []" "map_of (sm_state m) (signatureKey sha s) = None"
    and "length (sm_order m) < sm_limit m"
  shows "sigRecord sha s st m = m\<lparr>sm_order := sm_order m @ [signatureKey sha s],
    sm_state := AList.update (signatureKey sha s) st (sm_state m)\<rparr>"
  using assms by (auto simp: sigRecord_def Let_def evict_none)

lemma sigRecord_full:
  assumes "trimSpace s \<noteq> []" "map_of (sm_state m) (signatureKey sha s) = None"
    and "length (sm_order m) = sm_limit m" "0 < sm_limit m"
  shows "sigRecord sha s st m = m\<lparr>sm_order := tl (sm_order m) @ [signatureKey sha s],
    sm_state := AList.update (signatureKey sha s) st (AList.delete (hd (sm_order m)) (sm_state m))\<rparr>"
  using assms evict_one [of "sm_order m @ [signatureKey sha s]" "sm_limit m"]
  by (cases "sm_order m") (auto simp: sigRecord_def Let_def)

lemma sigRecord_ok:
  assumes "memoryOk m"
  shows "memoryOk (sigRecord sha s st m)"
proof -
  note ok = assms [unfolded memoryOk_def]
  consider (blank) "trimSpace s = []"
    | (old) "trimSpace s \<noteq> []" "map_of (sm_state m) (signatureKey sha s) \<noteq> None"
    | (room) "trimSpace s \<noteq> []" "map_of (sm_state m) (signatureKey sha s) = None"
        "length (sm_order m) < sm_limit m"
    | (full) "trimSpace s \<noteq> []" "map_of (sm_state m) (signatureKey sha s) = None"
        "length (sm_order m) = sm_limit m"
    using ok by fastforce
  then show ?thesis
  proof cases
    case blank
    then show ?thesis using assms by (simp add: sigRecord_def)
  next
    case old
    then show ?thesis
      using ok by (auto simp: sigRecord_old memoryOk_def fst_set_update map_of_eq_None_iff)
  next
    case room
    then show ?thesis
      using ok by (auto simp: sigRecord_room memoryOk_def fst_set_update map_of_eq_None_iff)
  next
    case full
    then have "sm_order m \<noteq> []" using ok by auto
    then obtain k ks where o: "sm_order m = k # ks" by (cases "sm_order m") auto
    from full have "signatureKey sha s \<notin> set (sm_order m)" using ok by (simp add: map_of_eq_None_iff)
    then show ?thesis
      using full ok o by (auto simp: sigRecord_full memoryOk_def fst_set_update fst_set_delete)
  qed
qed

lemma sigLookup_record:
  assumes "memoryOk m" "trimSpace s \<noteq> []"
  shows "sigLookup sha (sigRecord sha s st m) s = st"
proof (cases "map_of (sm_state m) (signatureKey sha s)")
  case (Some x)
  then show ?thesis using assms by (simp add: sigRecord_old sigLookup_def)
next
  case None
  show ?thesis
  proof (cases "length (sm_order m) < sm_limit m")
    case True
    then show ?thesis using assms None by (simp add: sigRecord_room sigLookup_def)
  next
    case False
    then have "length (sm_order m) = sm_limit m" "0 < sm_limit m" using assms by (auto simp: memoryOk_def)
    then show ?thesis using assms None by (simp add: sigRecord_full sigLookup_def)
  qed
qed

text \<open>Recording one signature disturbs no other, except the oldest when the memory is full.\<close>

lemma sigLookup_other:
  assumes "memoryOk m" "signatureKey sha t \<noteq> signatureKey sha s"
    and "length (sm_order m) < sm_limit m \<or> signatureKey sha t \<noteq> hd (sm_order m)"
  shows "sigLookup sha (sigRecord sha s st m) t = sigLookup sha m t"
proof (cases "trimSpace s = []")
  case True
  then show ?thesis by (simp add: sigRecord_def)
next
  case s: False
  show ?thesis
  proof (cases "map_of (sm_state m) (signatureKey sha s)")
    case (Some x)
    then show ?thesis using assms s by (simp add: sigRecord_old sigLookup_def)
  next
    case None
    show ?thesis
    proof (cases "length (sm_order m) < sm_limit m")
      case True
      then show ?thesis using assms s None by (simp add: sigRecord_room sigLookup_def)
    next
      case False
      then have "length (sm_order m) = sm_limit m" "0 < sm_limit m" using assms by (auto simp: memoryOk_def)
      then show ?thesis using assms s None False by (simp add: sigRecord_full sigLookup_def)
    qed
  qed
qed

section \<open>Properties\<close>

lemma requested_wf:
  "inferenceRequestedModel lower model = Inr spec \<Longrightarrow> wf_map (ms_Parameters spec)"
  by (auto simp: inferenceRequestedModel_def wf_map_def Let_def split: sum.splits prod.splits if_splits)

lemma requestSelection_start:
  assumes "requestSelection lower request = Inr out"
  obtains spec where "wf_map (ms_Parameters spec)" "applyInferenceParameters request spec = Inr out"
proof -
  obtain spec where spec: "inferenceRequestedModel lower (rr_Model request) = Inr spec"
    using assms by (auto simp: requestSelection_def split: sum.splits)
  let ?s = "if rr_ThinkingEnabled request \<and> \<not> hasParameter spec ''thinking''
        \<and> inferenceModelSupportsThinkingParameter (ms_ID spec)
      then spec\<lparr>ms_Parameters := ms_Parameters spec @ [(''thinking'', ''true'')]\<rparr> else spec"
  have "wf_map (ms_Parameters ?s)"
    using requested_wf [OF spec] by (auto simp: wf_map_def hasParameter_def list_ex_iff)
  moreover have "applyInferenceParameters request ?s = Inr out"
    using assms spec by (simp add: requestSelection_def)
  ultimately show ?thesis by (rule that)
qed

text \<open>
  What the caller asks for explicitly is what is sent: in an accepted selection every parameter
  occurs once; an explicit context is sent and decides max mode; an explicit effort is sent, Grok's
  \<open>max\<close> as \<open>xhigh\<close>; an explicit thinking switch is sent for every catalogued Claude model; and
  the Fable models always think.
\<close>

theorem explicit_parameters_win:
  assumes "requestSelection lower request = Inr out"
  shows "wf_map (ms_Parameters out)
   \<and> (rr_InferenceContext request \<noteq> [] \<longrightarrow> parameter out ''context'' = Some (rr_InferenceContext request)
        \<and> ms_MaxMode out = (rr_InferenceContext request = ''1m'') \<and> \<not> ms_BuiltIn out)
   \<and> (toLower (trimSpace (rr_ReasoningEffort request)) \<noteq> [] \<longrightarrow> parameter out ''effort'' =
        Some (if hasPrefix (ms_ID out) ''grok-'' \<and> toLower (trimSpace (rr_ReasoningEffort request)) = ''max''
              then ''xhigh'' else toLower (trimSpace (rr_ReasoningEffort request))))
   \<and> (fable (ms_ID out) \<longrightarrow> parameter out ''thinking'' = Some ''true'')
   \<and> (\<forall>on. rr_InferenceThinking request = Some on \<and> map_of claudeInferenceParameters (ms_ID out) \<noteq> None \<longrightarrow>
        parameter out ''thinking'' = Some (if on then ''true'' else ''false''))"
proof -
  obtain spec where wf: "wf_map (ms_Parameters spec)" and a: "applyInferenceParameters request spec = Inr out"
    using requestSelection_start [OF assms] by blast
  obtain s1 s2 where s: "applyFable request spec = Inr s1" "applyContext request (applyThinking request s1) = Inr s2"
      "applyEffort request s2 = Inr out"
    using applyInferenceParameters_Inr [OF a] by blast
  note f = applyFable_Inr [OF s(1)] and c = applyContext_Inr [OF s(2)] and e = applyEffort_Inr [OF s(3)]
  let ?eff = "toLower (trimSpace (rr_ReasoningEffort request))"
  have ids: "ms_ID out = ms_ID spec" "ms_ID s2 = ms_ID spec" "ms_ID s1 = ms_ID spec"
    using f c e by (simp_all add: applyThinking_facts)
  have keys: "''context'' \<noteq> ''effort''" "''thinking'' \<noteq> ''effort''" "''thinking'' \<noteq> ''context''" by simp_all
  have "wf_map (ms_Parameters out)"
    using wf f c e applyThinking_facts(4) by blast
  moreover have "rr_InferenceContext request \<noteq> [] \<longrightarrow> parameter out ''context'' = Some (rr_InferenceContext request)
        \<and> ms_MaxMode out = (rr_InferenceContext request = ''1m'') \<and> \<not> ms_BuiltIn out"
    using c e keys(1) by auto
  moreover have "?eff \<noteq> [] \<longrightarrow> parameter out ''effort'' =
        Some (if hasPrefix (ms_ID out) ''grok-'' \<and> ?eff = ''max'' then ''xhigh'' else ?eff)"
    using applyEffort_sent(1) [OF s(3) refl] ids by simp
  moreover have thinking: "parameter out ''thinking'' = parameter (applyThinking request s1) ''thinking''"
    using c e keys by simp
  moreover have "fable (ms_ID out) \<longrightarrow> parameter (applyThinking request s1) ''thinking'' = Some ''true''"
    using f ids by (auto simp: applyThinking_def split: option.split)
  moreover have "parameter (applyThinking request s1) ''thinking'' = Some (if on then ''true'' else ''false'')"
    if "rr_InferenceThinking request = Some on" "map_of claudeInferenceParameters (ms_ID out) \<noteq> None" for on
    using that ids by (simp add: applyThinking_def)
  ultimately show ?thesis by simp
qed

definition exampleFable :: RunRequest where
  "exampleFable = newRunRequest\<lparr>rr_Model := ''claude-fable-5'', rr_InferenceContext := ''1m'',
     rr_ReasoningEffort := '' High ''\<rparr>"

lemma explicit_parameters_win_witness:
  "\<exists>out. requestSelection toLower exampleFable = Inr out \<and> parameter out ''effort'' = Some ''high''
     \<and> parameter out ''context'' = Some ''1m'' \<and> ms_MaxMode out"
proof -
  have "(case requestSelection toLower exampleFable of Inl e \<Rightarrow> False | Inr s \<Rightarrow> True)" by code_simp
  then obtain out where out: "requestSelection toLower exampleFable = Inr out"
    by (cases "requestSelection toLower exampleFable") auto
  have eff: "toLower (trimSpace (rr_ReasoningEffort exampleFable)) = ''high''" by code_simp
  have ctx: "rr_InferenceContext exampleFable = ''1m''" by (simp add: exampleFable_def)
  have "parameter out ''effort'' = Some ''high''" "parameter out ''context'' = Some ''1m''" "ms_MaxMode out"
    using explicit_parameters_win [OF out] by (simp_all add: eff ctx)
  with out show ?thesis by blast
qed

text \<open>
  The signature memory is a bounded map that forgets only its oldest entry: recording a signature
  keeps the bound and the agreement of order and state, the signature is then remembered with the recorded
  state, and every other signature is remembered as before unless the memory was full and it was the oldest.
\<close>

theorem signature_memory:
  assumes "memoryOk m" and "trimSpace s \<noteq> []"
  shows "memoryOk (sigRecord sha s st m) \<and> sigLookup sha (sigRecord sha s st m) s = st
   \<and> (\<forall>t. signatureKey sha t \<noteq> signatureKey sha s
        \<and> (length (sm_order m) < sm_limit m \<or> signatureKey sha t \<noteq> hd (sm_order m))
        \<longrightarrow> sigLookup sha (sigRecord sha s st m) t = sigLookup sha m t)"
  using sigRecord_ok [OF assms(1)] sigLookup_record [OF assms] sigLookup_other [OF assms(1)] by blast

lemma signature_memory_witness:
  "sigLookup id (sigRecord id ''sig'' signatureMinted (newSignatureMemory 1)) ''sig'' = signatureMinted"
proof -
  have "memoryOk (newSignatureMemory 1)" by (simp add: memoryOk_def newSignatureMemory_def)
  moreover have "trimSpace ''sig'' \<noteq> []" by code_simp
  ultimately show ?thesis using signature_memory by blast
qed

end
