(* ===== verification/Web.thy ===== *)
theory Web
  imports Interaction Inference
begin

text \<open>
  The hosted web tools of the Sand runtime (\<open>inference_web.go\<close>): declaring them to the model,
  searching and fetching through Cursor's service under the caller's domain policy, the bound on
  returned text, and one hosted call from arguments to result.

  Parameters: \<open>post\<close> is the HTTP exchange with the service, already decoded (\<open>None\<close>: it failed);
  \<open>parseURL\<close> is \<open>url.Parse\<close>; \<open>decode\<close> is \<open>json.Unmarshal\<close> into a JSON object.
\<close>

definition inferenceWebSearchToolName :: string where
  "inferenceWebSearchToolName = ''beefapi_cursor_web_search''"

definition inferenceWebFetchToolName :: string where
  "inferenceWebFetchToolName = ''beefapi_cursor_web_fetch''"

definition maxInferenceWebResultRunes :: nat where "maxInferenceWebResultRunes = 30000"

definition inferenceHostedKind :: "string \<Rightarrow> string" where
  "inferenceHostedKind name =
     (if trimSpace name = inferenceWebSearchToolName then HostedSearchKindWebSearch
      else if trimSpace name = inferenceWebFetchToolName then HostedSearchKindWebFetch
      else [])"

section \<open>Declaring the tools\<close>

definition usesLeft :: "int option \<Rightarrow> bool" where
  "usesLeft limit = (case limit of None \<Rightarrow> True | Some n \<Rightarrow> n > 0)"

definition webSearchSchema :: string where
  "webSearchSchema = ''{\"additionalProperties\":false,\"properties\":{\"explanation\":{\"description\":\"Why this search helps answer the user.\",\"type\":\"string\"},\"search_term\":{\"description\":\"Specific web search query.\",\"type\":\"string\"}},\"required\":[\"search_term\"],\"type\":\"object\"}''"

definition webFetchSchema :: string where
  "webFetchSchema = ''{\"additionalProperties\":false,\"properties\":{\"url\":{\"description\":\"Fully-qualified public HTTP or HTTPS URL to fetch.\",\"type\":\"string\"}},\"required\":[\"url\"],\"type\":\"object\"}''"

definition webSearchTool :: ToolDefinition where
  "webSearchTool = \<lparr>td_Name = inferenceWebSearchToolName,
     td_Description = ''Search the live web through Cursor's official web search service. Return current sources before answering time-sensitive or explicitly researched questions.'',
     td_InputSchema = bytesOf webSearchSchema\<rparr>"

definition webFetchTool :: ToolDefinition where
  "webFetchTool = \<lparr>td_Name = inferenceWebFetchToolName,
     td_Description = ''Fetch readable content for a public HTTP or HTTPS URL through Cursor's official web fetch service.'',
     td_InputSchema = bytesOf webFetchSchema\<rparr>"

definition blankLine :: string where "blankLine = [CHR 0x0A, CHR 0x0A]"

definition requiredHint :: "RunRequest \<Rightarrow> string" where
  "requiredHint run =
     (if rr_RequireHostedSearch run
      then ''You must call '' @ inferenceWebSearchToolName @ '' before answering this request.''
      else if rr_RequireHostedFetch run
      then ''You must call '' @ inferenceWebFetchToolName @ '' before answering this request.''
      else if rr_RequireHostedTool run
      then ''You must call '' @ inferenceWebSearchToolName @ '' or '' @ inferenceWebFetchToolName
             @ '' before answering this request.''
      else [])"

definition attachInferenceHostedTools :: "RunRequest \<Rightarrow> RunRequest res" where
  "attachInferenceHostedTools run =
     (if \<not> rr_AllowHostedSearch run \<and> \<not> rr_AllowHostedFetch run then Inr run
      else if list_ex (\<lambda>t. inferenceHostedKind (td_Name t) \<noteq> []) (rr_Tools run)
      then Inl (unprocessable ''Cursor Sand caller tool uses a reserved hosted-web name'')
      else
        let allowSearch = rr_AllowHostedSearch run \<and> usesLeft (rr_HostedSearchMaxUses run);
            allowFetch = rr_AllowHostedFetch run \<and> usesLeft (rr_HostedFetchMaxUses run) in
        if rr_RequireHostedSearch run \<and> \<not> allowSearch \<or> rr_RequireHostedFetch run \<and> \<not> allowFetch
           \<or> rr_RequireHostedTool run \<and> \<not> allowSearch \<and> \<not> allowFetch
        then Inl (unprocessable ''Cursor Sand required hosted web tool has max_uses=0'')
        else
          let tools = rr_Tools run @ (if allowSearch then [webSearchTool] else [])
                      @ (if allowFetch then [webFetchTool] else []);
              required = requiredHint run;
              text = (if required = [] then rr_SystemText run
                      else (if trimSpace (rr_SystemText run) \<noteq> [] then rr_SystemText run @ blankLine
                            else rr_SystemText run) @ required)
          in Inr (run\<lparr>rr_Tools := tools, rr_SystemText := text\<rparr>))"

lemma hostedKind_names [simp]:
  "inferenceHostedKind inferenceWebSearchToolName = HostedSearchKindWebSearch"
  "inferenceHostedKind inferenceWebFetchToolName = HostedSearchKindWebFetch"
  by code_simp+

lemma web_tool_names [simp]:
  "td_Name webSearchTool = inferenceWebSearchToolName" "td_Name webFetchTool = inferenceWebFetchToolName"
  by (simp_all add: webSearchTool_def webFetchTool_def)

lemma attach_kinds:
  assumes "attachInferenceHostedTools run = Inr out" and "rr_AllowHostedSearch run \<or> rr_AllowHostedFetch run"
  shows "set (map td_Name (filter (\<lambda>t. inferenceHostedKind (td_Name t) \<noteq> []) (rr_Tools out)))
    = (if rr_AllowHostedSearch run \<and> usesLeft (rr_HostedSearchMaxUses run) then {inferenceWebSearchToolName} else {})
      \<union> (if rr_AllowHostedFetch run \<and> usesLeft (rr_HostedFetchMaxUses run) then {inferenceWebFetchToolName} else {})"
proof -
  have none: "filter (\<lambda>t. inferenceHostedKind (td_Name t) \<noteq> []) (rr_Tools run) = []"
    using assms by (auto simp: attachInferenceHostedTools_def Let_def list_ex_iff filter_empty_conv split: if_splits)
  have "rr_Tools out = rr_Tools run
      @ (if rr_AllowHostedSearch run \<and> usesLeft (rr_HostedSearchMaxUses run) then [webSearchTool] else [])
      @ (if rr_AllowHostedFetch run \<and> usesLeft (rr_HostedFetchMaxUses run) then [webFetchTool] else [])"
    using assms unfolding attachInferenceHostedTools_def Let_def by (auto split: if_split_asm)
  with none show ?thesis
    by auto
qed

section \<open>Bounded text\<close>

text \<open>
  \<open>[]rune(s)\<close>: the encodings of the runes of \<open>s\<close>, a byte that starts no valid encoding becoming
  U+FFFD.
\<close>

definition runeError :: string where "runeError = [CHR 0xEF, CHR 0xBF, CHR 0xBD]"

definition byteIn :: "char \<Rightarrow> nat \<Rightarrow> nat \<Rightarrow> bool" where
  "byteIn c lo hi = (lo \<le> (of_char c :: nat) \<and> (of_char c :: nat) \<le> hi)"

text \<open>The range of the second byte of a three- or four-byte encoding.\<close>

definition secondOk :: "char \<Rightarrow> char \<Rightarrow> bool" where
  "secondOk a b =
     (if a = CHR 0xE0 then byteIn b 0xA0 0xBF else if a = CHR 0xED then byteIn b 0x80 0x9F
      else if a = CHR 0xF0 then byteIn b 0x90 0xBF else if a = CHR 0xF4 then byteIn b 0x80 0x8F
      else byteIn b 0x80 0xBF)"

definition cont :: "char \<Rightarrow> bool" where "cont c = byteIn c 0x80 0xBF"

definition runeSize :: "string \<Rightarrow> nat" where
  "runeSize s = (case s of
     a # b # c # d # r \<Rightarrow>
       if byteIn a 0xF0 0xF4 \<and> secondOk a b \<and> cont c \<and> cont d then 4
       else if byteIn a 0xE0 0xEF \<and> secondOk a b \<and> cont c then 3
       else if byteIn a 0xC2 0xDF \<and> cont b then 2 else if byteIn a 0 0x7F then 1 else 0
   | [a, b, c] \<Rightarrow>
       if byteIn a 0xE0 0xEF \<and> secondOk a b \<and> cont c then 3
       else if byteIn a 0xC2 0xDF \<and> cont b then 2 else if byteIn a 0 0x7F then 1 else 0
   | [a, b] \<Rightarrow> if byteIn a 0xC2 0xDF \<and> cont b then 2 else if byteIn a 0 0x7F then 1 else 0
   | [a] \<Rightarrow> if byteIn a 0 0x7F then 1 else 0
   | [] \<Rightarrow> 0)"

function runes :: "string \<Rightarrow> string list" where
  "runes [] = []"
| "runes (a # s) = (let n = runeSize (a # s) in
     if n = 0 then runeError # runes s else take n (a # s) # runes (drop n (a # s)))"
  by pat_completeness auto
termination by (relation "measure length") auto

definition truncateInferenceWebText :: "string \<Rightarrow> string" where
  "truncateInferenceWebText v =
     (let rs = runes v in
      if length rs \<le> maxInferenceWebResultRunes then v
      else concat (take maxInferenceWebResultRunes rs))"

text \<open>Re-reading a truncated text gives the runes it was cut to.\<close>

definition isRune :: "string \<Rightarrow> bool" where
  "isRune r = (r \<noteq> [] \<and> runeSize r = length r)"

lemma runeSize_le: "runeSize s \<le> length s"
  by (auto simp: runeSize_def split: list.splits)

lemma byteIn_disjoint: "byteIn c lo hi \<Longrightarrow> byteIn c lo' hi' \<Longrightarrow> hi < lo' \<or> hi' < lo \<Longrightarrow> False"
  by (auto simp: byteIn_def)

lemma runeSize_append:
  assumes "runeSize s = n" "0 < n"
  shows "runeSize (take n s @ t) = n"
  using assms unfolding runeSize_def byteIn_def
  by (auto split: list.splits if_splits)

lemma isRune_take: "0 < runeSize s \<Longrightarrow> isRune (take (runeSize s) s)"
  using runeSize_append [of s "runeSize s" "[]"] runeSize_le [of s]
  by (auto simp: isRune_def min_def)

lemma isRune_error: "isRune runeError"
  by (simp add: isRune_def runeError_def runeSize_def secondOk_def cont_def byteIn_def)

lemma runes_isRune: "\<forall>r \<in> set (runes s). isRune r"
  by (induction s rule: runes.induct) (auto simp: Let_def isRune_error isRune_take)

lemma runes_cons_rune:
  assumes "isRune r"
  shows "runes (r @ s) = r # runes s"
proof -
  obtain a r' where r: "r = a # r'" using assms by (cases r) (auto simp: isRune_def)
  have "runeSize (take (length r) r @ s) = length r"
    using assms by (intro runeSize_append) (auto simp: isRune_def)
  then have "runeSize (r @ s) = length r" by simp
  then show ?thesis by (simp add: r)
qed

lemma runes_concat: "\<forall>r \<in> set rs. isRune r \<Longrightarrow> runes (concat rs) = rs"
  by (induction rs) (auto simp: runes_cons_rune)

lemma truncate_runes: "runes (truncateInferenceWebText v) = take maxInferenceWebResultRunes (runes v)"
proof (cases "length (runes v) \<le> maxInferenceWebResultRunes")
  case True
  then show ?thesis by (simp add: truncateInferenceWebText_def)
next
  case False
  have "\<forall>r \<in> set (take maxInferenceWebResultRunes (runes v)). isRune r"
    using runes_isRune by (meson in_set_takeD)
  with False show ?thesis by (simp add: truncateInferenceWebText_def Let_def runes_concat)
qed

section \<open>Searching and fetching\<close>

record webDocument =
  wd_URL :: string
  wd_Title :: string
  wd_Text :: string

record inferenceToolCall =
  ic_ID :: string
  ic_Name :: string
  ic_Arguments :: string

record inferenceHostedToolResult =
  ht_CallID :: string
  ht_Name :: string
  ht_Content :: json
  ht_IsError :: bool

text \<open>The decoded answer of the fetch service: its \<open>success\<close> and \<open>error\<close> members.\<close>

type_synonym fetchResponse = "string option \<times> (string \<times> bool) option"

definition hostedResult :: "string \<Rightarrow> string \<Rightarrow> HostedSearch" where
  "hostedResult kind query = \<lparr>hs_CallID = [], hs_Kind = kind, hs_Query = query, hs_URL = [],
     hs_ArgsJSON = [], hs_References = [], hs_Content = [], hs_Error = []\<rparr>"

definition domainJSON :: "hostedDomainPolicy \<Rightarrow> json" where
  "domainJSON p = JObj
     ((if dp_Allowed p = [] then [] else [(''allowed'', JArr (map JStr (dp_Allowed p)))])
      @ (if dp_Blocked p = [] then [] else [(''blocked'', JArr (map JStr (dp_Blocked p)))]))"

definition documentReference :: "webDocument \<Rightarrow> HostedSearchReference" where
  "documentReference d = \<lparr>hr_Title = wd_Title d, hr_URL = wd_URL d,
     hr_Chunk = truncateInferenceWebText (wd_Text d)\<rparr>"

definition documentJSON :: "webDocument \<Rightarrow> json" where
  "documentJSON d = JObj [(''url'', JStr (wd_URL d)), (''title'', JStr (wd_Title d)),
     (''text'', JStr (truncateInferenceWebText (wd_Text d)))]"

definition hostedSearch ::
  "(string \<Rightarrow> string) \<Rightarrow> (string \<Rightarrow> (string \<times> string) option)
   \<Rightarrow> (string \<Rightarrow> string \<Rightarrow> string \<Rightarrow> (string \<times> webDocument list) option)
   \<Rightarrow> RunRequest \<Rightarrow> string \<Rightarrow> string \<Rightarrow> (HostedSearch \<times> json) res" where
  "hostedSearch lower parseURL post request query0 explanation =
     (let query = trimSpace query0 in
      if query = [] then Inl (Errorf ''Cursor Sand web search query is empty'' [])
      else case inferenceModelSelection lower (rr_Model request) of
        Inl e \<Rightarrow> Inl e
      | Inr (modelID, effort) \<Rightarrow>
          let search = hostedResult HostedSearchKindWebSearch query in
          case post query (trimSpace explanation) modelID of
            None \<Rightarrow>
              let text = ''Cursor official web search was unavailable'' in
              Inr (search\<lparr>hs_Error := text\<rparr>, JObj [(''error'', JStr text)])
          | Some (answer, docs) \<Rightarrow>
              let domains = rr_HostedSearchDomains request;
                  restricted = domainRestricts domains;
                  kept = filter (\<lambda>d. \<not> (restricted \<and> \<not> permits lower parseURL domains (wd_URL d))) docs;
                  search1 = search\<lparr>hs_References := map documentReference kept\<rparr>;
                  documents = JArr (map documentJSON kept) in
              if restricted
              then Inr (search1, JObj ([(''documents'', documents), (''domain_filter'', domainJSON domains)]
                     @ (if kept = [] then [(''note'', JStr ''no results matched the caller's domain restriction'')]
                        else [])))
              else let content = truncateInferenceWebText answer in
                Inr (search1\<lparr>hs_Content := content\<rparr>,
                     JObj [(''answer'', JStr content), (''documents'', documents)]))"

text \<open>
  \<open>parseFetchURL\<close> gives the scheme, the host name and whether the URL carries credentials.
\<close>

definition hostedFetch ::
  "(string \<Rightarrow> string) \<Rightarrow> (string \<Rightarrow> (string \<times> string) option) \<Rightarrow> (string \<Rightarrow> (string \<times> string \<times> bool) option)
   \<Rightarrow> (string \<Rightarrow> fetchResponse option) \<Rightarrow> RunRequest \<Rightarrow> string \<Rightarrow> (HostedSearch \<times> json) res" where
  "hostedFetch lower parseURL parseFetchURL post request rawURL0 =
     (let rawURL = trimSpace rawURL0;
          bad = Errorf ''Cursor Sand web fetch URL must be public HTTP or HTTPS'' [] in
      case parseFetchURL rawURL of
        None \<Rightarrow> Inl bad
      | Some (scheme, hostname, credentials) \<Rightarrow>
          if hostname = [] \<or> (scheme \<noteq> ''http'' \<and> scheme \<noteq> ''https'') then Inl bad
          else if credentials then Inl (Errorf ''Cursor Sand web fetch URL must not contain credentials'' [])
          else
            let fetch = (hostedResult HostedSearchKindWebFetch rawURL)\<lparr>hs_URL := rawURL\<rparr> in
            if \<not> permits lower parseURL (rr_HostedFetchDomains request) rawURL
            then let text = ''URL is outside the caller's allowed domains'' in
              Inr (fetch\<lparr>hs_Error := text\<rparr>,
                   JObj [(''error'', JStr text), (''domain_filter'', domainJSON (rr_HostedFetchDomains request))])
            else case post rawURL of
              None \<Rightarrow>
                let text = ''Cursor official web fetch was unavailable'' in
                Inr (fetch\<lparr>hs_Error := text\<rparr>, JObj [(''error'', JStr text)])
            | Some (Some content, error) \<Rightarrow>
                let text = truncateInferenceWebText content in
                Inr (fetch\<lparr>hs_Content := text\<rparr>, JObj [(''content'', JStr text)])
            | Some (None, Some (message, timeout)) \<Rightarrow>
                let text = (if trimSpace message = [] then ''Cursor official web fetch returned an error''
                            else trimSpace message) in
                Inr (fetch\<lparr>hs_Error := text\<rparr>, JObj [(''error'', JStr text), (''is_timeout'', JBool timeout)])
            | Some (None, None) \<Rightarrow>
                let text = ''Cursor official web fetch returned no result'' in
                Inr (fetch\<lparr>hs_Error := text\<rparr>, JObj [(''error'', JStr text)]))"

fun firstInferenceValue :: "string list \<Rightarrow> string" where
  "firstInferenceValue [] = []"
| "firstInferenceValue (v # vs) = (if trimSpace v \<noteq> [] then trimSpace v else firstInferenceValue vs)"

definition inferenceHostedArguments ::
  "(string \<Rightarrow> (string \<times> json) list option) \<Rightarrow> inferenceToolCall \<Rightarrow> (string \<times> string) res" where
  "inferenceHostedArguments decode call = (case decode (ic_Arguments call) of
     None \<Rightarrow> Inl (Errorf ''Cursor Sand hosted tool returned invalid arguments'' [])
   | Some args \<Rightarrow>
       let kind = inferenceHostedKind (ic_Name call) in
       if kind = HostedSearchKindWebSearch
       then Inr (firstInferenceValue [stringValue (map_of args ''search_term''),
              stringValue (map_of args ''query''), stringValue (map_of args ''searchTerm'')],
              stringValue (map_of args ''explanation''))
       else if kind = HostedSearchKindWebFetch then Inr (stringValue (map_of args ''url''), [])
       else Inl (Errorf ''Cursor Sand hosted tool is unsupported'' []))"

text \<open>
  \<open>executeInferenceHostedCall\<close>, with the client's \<open>Search\<close> and \<open>Fetch\<close> as arguments.  The use
  is counted before the arguments are looked at.
\<close>

definition executeInferenceHostedCall ::
  "(string \<Rightarrow> (string \<times> json) list option) \<Rightarrow> (string \<Rightarrow> string \<Rightarrow> (HostedSearch \<times> json) res)
   \<Rightarrow> (string \<Rightarrow> (HostedSearch \<times> json) res) \<Rightarrow> RunRequest \<Rightarrow> inferenceToolCall
   \<Rightarrow> (inferenceHostedUseTracker, inferenceHostedToolResult \<times> HostedSearch) io" where
  "executeInferenceHostedCall decode search fetch request call =
     (let kind = inferenceHostedKind (ic_Name call) in
      if kind = [] then raise (Errorf ''Cursor Sand hosted web client is unavailable'' [])
      else bnd (inferenceAllow request kind) (\<lambda>_.
        bnd (lift (inferenceHostedArguments decode call)) (\<lambda>(primary0, explanation).
          let primary = (if kind = HostedSearchKindWebSearch \<and> trimSpace primary0 = []
                         then trimSpace (rr_UserText request) else primary0) in
          bnd (lift (if kind = HostedSearchKindWebSearch then search primary explanation else fetch primary))
            (\<lambda>(found, content).
              ret (\<lparr>ht_CallID = ic_ID call, ht_Name = ic_Name call, ht_Content = content,
                    ht_IsError = (hs_Error found \<noteq> [])\<rparr>,
                   found\<lparr>hs_CallID := ic_ID call, hs_ArgsJSON := ic_Arguments call\<rparr>)))))"

subsection \<open>What the domain policy guarantees\<close>

text \<open>What the caller is shown of a text: its first 30,000 runes.\<close>

definition cutTo :: "string \<Rightarrow> string \<Rightarrow> bool" where
  "cutTo v t = (runes t = take 30000 (runes v) \<and> (length (runes v) \<le> 30000 \<longrightarrow> t = v))"

definition showsReference :: "webDocument \<Rightarrow> HostedSearchReference \<Rightarrow> bool" where
  "showsReference d r = (hr_URL r = wd_URL d \<and> hr_Title r = wd_Title d \<and> cutTo (wd_Text d) (hr_Chunk r))"

definition showsDocument :: "webDocument \<Rightarrow> json \<Rightarrow> bool" where
  "showsDocument d j = (\<exists>text. cutTo (wd_Text d) text
     \<and> j = JObj [(''url'', JStr (wd_URL d)), (''title'', JStr (wd_Title d)), (''text'', JStr text)])"

text \<open>
  The event \<open>h\<close> and the result \<open>content\<close> for the model that a search may give under a policy, when the service
  has answered with \<open>reply\<close>.
\<close>

definition searchFollows ::
  "(string \<Rightarrow> bool) \<Rightarrow> hostedDomainPolicy \<Rightarrow> (string \<times> webDocument list) option \<Rightarrow> HostedSearch \<Rightarrow> json \<Rightarrow> bool" where
  "searchFollows allowed policy reply h content = (case reply of
     None \<Rightarrow> hs_References h = [] \<and> hs_Content h = [] \<and> hs_Error h \<noteq> [] \<and> content = JObj [(''error'', JStr (hs_Error h))]
   | Some (answer, docs) \<Rightarrow>
       (let kept = [d \<leftarrow> docs. allowed (wd_URL d)] in
        list_all2 showsReference kept (hs_References h) \<and> hs_Error h = []
        \<and> (\<exists>shown. list_all2 showsDocument kept shown
             \<and> (if domainRestricts policy
                then hs_Content h = []
                  \<and> content = JObj ([(''documents'', JArr shown), (''domain_filter'', domainJSON policy)]
                      @ (if kept = [] then [(''note'', JStr ''no results matched the caller's domain restriction'')] else []))
                else cutTo answer (hs_Content h)
                  \<and> content = JObj [(''answer'', JStr (hs_Content h)), (''documents'', JArr shown)]))))"

definition fetchFollows ::
  "(string \<Rightarrow> bool) \<Rightarrow> hostedDomainPolicy \<Rightarrow> string \<Rightarrow> fetchResponse option \<Rightarrow> HostedSearch \<Rightarrow> json \<Rightarrow> bool" where
  "fetchFollows allowed policy url reply h content =
     (if \<not> allowed url
      then hs_Content h = [] \<and> content = JObj [(''error'', JStr (hs_Error h)), (''domain_filter'', domainJSON policy)]
        \<and> hs_Error h = ''URL is outside the caller's allowed domains''
      else case reply of
        Some (Some page, _) \<Rightarrow> cutTo page (hs_Content h) \<and> hs_Error h = [] \<and> content = JObj [(''content'', JStr (hs_Content h))]
      | Some (None, Some (message, timeout)) \<Rightarrow>
          hs_Content h = [] \<and> hs_Error h \<noteq> [] \<and> content = JObj [(''error'', JStr (hs_Error h)), (''is_timeout'', JBool timeout)]
      | _ \<Rightarrow> hs_Content h = [] \<and> hs_Error h \<noteq> [] \<and> content = JObj [(''error'', JStr (hs_Error h))])"

lemma cutTo_truncate [simp]: "cutTo v (truncateInferenceWebText v)"
  using truncate_runes [of v] by (simp add: cutTo_def maxInferenceWebResultRunes_def truncateInferenceWebText_def Let_def)

lemma documents_shown: "list_all2 showsReference ds (map documentReference ds)" "list_all2 showsDocument ds (map documentJSON ds)"
  by (auto simp: list_all2_map2 list.rel_refl showsReference_def documentReference_def showsDocument_def documentJSON_def
      intro!: list.rel_refl)

lemma unrestricted_permits: "\<not> domainRestricts p \<Longrightarrow> permits lower parseURL p u"
  by (simp add: permits_def)

lemma hostedSearch_follows:
  assumes "hostedSearch lower parseURL post request q e = Inr (h, content)"
  shows "\<exists>modelID. searchFollows (permits lower parseURL (rr_HostedSearchDomains request)) (rr_HostedSearchDomains request)
    (post (trimSpace q) (trimSpace e) modelID) h content"
proof -
  let ?policy = "rr_HostedSearchDomains request"
  have q: "trimSpace q \<noteq> []"
    using assms by (auto simp: hostedSearch_def Let_def split: if_splits)
  obtain modelID effort where m: "inferenceModelSelection lower (rr_Model request) = Inr (modelID, effort)"
    using assms q by (auto simp: hostedSearch_def Let_def split: sum.splits)
  have keep: "(\<lambda>d. \<not> (domainRestricts ?policy \<and> \<not> permits lower parseURL ?policy (wd_URL d)))
      = (\<lambda>d. permits lower parseURL ?policy (wd_URL d))"
    using unrestricted_permits by (intro ext) blast
  show ?thesis
  proof (rule exI [of _ modelID], cases "post (trimSpace q) (trimSpace e) modelID")
    case None
    then show "searchFollows (permits lower parseURL ?policy) ?policy (post (trimSpace q) (trimSpace e) modelID) h content"
      using assms q m by (auto simp: hostedSearch_def Let_def searchFollows_def hostedResult_def)
  next
    case (Some r)
    obtain answer docs where r: "r = (answer, docs)" by (cases r)
    let ?kept = "[d \<leftarrow> docs. permits lower parseURL ?policy (wd_URL d)]"
    have "hs_References h = map documentReference ?kept \<and> hs_Error h = []
        \<and> (if domainRestricts ?policy then hs_Content h = []
             \<and> content = JObj ([(''documents'', JArr (map documentJSON ?kept)), (''domain_filter'', domainJSON ?policy)]
                 @ (if ?kept = [] then [(''note'', JStr ''no results matched the caller's domain restriction'')] else []))
           else hs_Content h = truncateInferenceWebText answer
             \<and> content = JObj [(''answer'', JStr (hs_Content h)), (''documents'', JArr (map documentJSON ?kept))])"
      using assms q m Some r by (auto simp: hostedSearch_def Let_def keep hostedResult_def unrestricted_permits split: if_splits)
    then show "searchFollows (permits lower parseURL ?policy) ?policy (post (trimSpace q) (trimSpace e) modelID) h content"
      unfolding searchFollows_def Some r option.case prod.case Let_def
      using documents_shown [of ?kept] by (auto split: if_splits)
  qed
qed

lemma hostedFetch_follows:
  assumes "hostedFetch lower parseURL pf post request u = Inr (h, content)"
  shows "fetchFollows (permits lower parseURL (rr_HostedFetchDomains request)) (rr_HostedFetchDomains request)
    (trimSpace u) (post (trimSpace u)) h content"
proof -
  obtain scheme hostname credentials where pf: "pf (trimSpace u) = Some (scheme, hostname, credentials)"
    using assms by (cases "pf (trimSpace u)") (auto simp: hostedFetch_def Let_def)
  show ?thesis
    using assms pf
    by (cases "permits lower parseURL (rr_HostedFetchDomains request) (trimSpace u)"; cases "post (trimSpace u)")
      (auto simp: hostedFetch_def Let_def fetchFollows_def hostedResult_def split: if_splits option.splits prod.splits)
qed

text \<open>A fetch that the policy forbids never reaches the service.\<close>

lemma hostedFetch_refused:
  assumes "\<not> permits lower parseURL (rr_HostedFetchDomains request) (trimSpace u)"
  shows "hostedFetch lower parseURL pf post request u = hostedFetch lower parseURL pf post' request u"
  using assms unfolding hostedFetch_def Let_def if_not_P [OF assms] not_not
  by (cases "pf (trimSpace u)") auto

lemma executeHosted_counts:
  assumes "executeInferenceHostedCall decode search fetch request call t = (Inr (res, h), t')"
  shows "it_search t' + it_fetch t' = Suc (it_search t + it_fetch t)"
    and "hs_CallID h = ic_ID call" and "ht_CallID res = ic_ID call"
proof -
  let ?kind = "inferenceHostedKind (ic_Name call)"
  have k: "?kind \<noteq> []"
    using assms by (auto simp: executeInferenceHostedCall_def raise_def split: if_splits)
  obtain t1 where t1: "inferenceAllow request ?kind t = (Inr (), t1)" "t' = t1"
    and ids: "hs_CallID h = ic_ID call \<and> ht_CallID res = ic_ID call"
    using assms k
    by (auto simp: executeInferenceHostedCall_def bnd_def lift_def ret_def Let_def
        split: prod.splits sum.splits)
  show "it_search t' + it_fetch t' = Suc (it_search t + it_fetch t)"
    using t1 by (auto simp: inferenceAllow_def Let_def split: if_splits)
  show "hs_CallID h = ic_ID call" "ht_CallID res = ic_ID call" using ids by auto
qed

section \<open>Properties\<close>

text \<open>
  C29: The caller's domain policy is enforced on hosted web results, in the events the client sees and in the result the
  model gets.  A search gives exactly the service's documents that the policy permits, in their order, each text
  cut to 30,000 runes; when the policy restricts anything there is no synthesised answer, neither for the
  client nor for the model, and otherwise the answer is cut the same way; when the service fails both get an
  error and nothing else.  A fetch of a URL the policy forbids gives the same refusal whatever the service would say, so
  nothing of the page reaches anybody; a permitted one gives the page cut to 30,000 runes, or an error.
\<close>

theorem web_policy_enforced:
  assumes "hostedSearch lower parseURL post request q e = Inr (h, content)"
    and "hostedFetch lower parseURL pf fetch request u = Inr (f, page)"
  shows "(\<exists>modelID. searchFollows (permits lower parseURL (rr_HostedSearchDomains request)) (rr_HostedSearchDomains request)
        (post (trimSpace q) (trimSpace e) modelID) h content)
   \<and> fetchFollows (permits lower parseURL (rr_HostedFetchDomains request)) (rr_HostedFetchDomains request)
        (trimSpace u) (fetch (trimSpace u)) f page
   \<and> (permits lower parseURL (rr_HostedFetchDomains request) (trimSpace u)
       \<or> hostedFetch lower parseURL pf fetch' request u = Inr (f, page))"
  using hostedSearch_follows [OF assms(1)] hostedFetch_follows [OF assms(2)] hostedFetch_refused assms(2) by metis

definition exampleWebRequest :: RunRequest where
  "exampleWebRequest = newRunRequest\<lparr>rr_Model := ''grok-4.6'',
     rr_HostedSearchDomains := \<lparr>dp_Allowed = [''a.com''], dp_Blocked = []\<rparr>,
     rr_HostedFetchDomains := \<lparr>dp_Allowed = [''a.com''], dp_Blocked = []\<rparr>\<rparr>"

definition exampleDocuments :: "string \<Rightarrow> string \<Rightarrow> string \<Rightarrow> (string \<times> webDocument list) option" where
  "exampleDocuments q e m = Some (''answer'', [\<lparr>wd_URL = ''https://a.com/x'', wd_Title = ''A'', wd_Text = ''t''\<rparr>,
     \<lparr>wd_URL = ''https://b.com/y'', wd_Title = ''B'', wd_Text = ''t''\<rparr>])"

definition exampleFetchURL :: "string \<Rightarrow> (string \<times> string \<times> bool) option" where
  "exampleFetchURL u = Some (''https'', ''b.com'', False)"

lemma web_policy_enforced_witness:
  "\<exists>h shown f page. hostedSearch toLower exampleURL exampleDocuments exampleWebRequest ''query'' []
       = Inr (h, JObj [(''documents'', JArr [shown]), (''domain_filter'', domainJSON (rr_HostedSearchDomains exampleWebRequest))])
     \<and> map hr_URL (hs_References h) = [''https://a.com/x''] \<and> hs_Content h = []
     \<and> hostedFetch toLower exampleURL exampleFetchURL (\<lambda>_. Some (Some ''page'', None)) exampleWebRequest ''https://b.com''
         = Inr (f, page) \<and> hs_Content f = []"
proof -
  let ?s = "hostedSearch toLower exampleURL exampleDocuments exampleWebRequest ''query'' []"
  let ?f = "hostedFetch toLower exampleURL exampleFetchURL (\<lambda>_. Some (Some ''page'', None)) exampleWebRequest ''https://b.com''"
  have "\<not> isl ?s" "\<not> isl ?f" by code_simp+
  then obtain h content f page where run: "?s = Inr (h, content)" "?f = Inr (f, page)" by (metis isl_def prod.exhaust sum.exhaust_sel)
  have docs: "exampleDocuments q e m = Some (''answer'', [\<lparr>wd_URL = ''https://a.com/x'', wd_Title = ''A'', wd_Text = ''t''\<rparr>,
     \<lparr>wd_URL = ''https://b.com/y'', wd_Title = ''B'', wd_Text = ''t''\<rparr>])" for q e m
    by (simp add: exampleDocuments_def)
  have p: "permits toLower exampleURL (rr_HostedSearchDomains exampleWebRequest) ''https://a.com/x''"
    "\<not> permits toLower exampleURL (rr_HostedSearchDomains exampleWebRequest) ''https://b.com/y''"
    "domainRestricts (rr_HostedSearchDomains exampleWebRequest)"
    "\<not> permits toLower exampleURL (rr_HostedFetchDomains exampleWebRequest) (trimSpace ''https://b.com'')" by code_simp+
  from web_policy_enforced [OF run, of "\<lambda>_. None"] p show ?thesis
    by (auto simp: searchFollows_def fetchFollows_def docs list_all2_Cons1 showsReference_def run)
qed

text \<open>
  Truncation is by runes and never splits one: the runes of the truncated text are the first 30,000
  runes of the text, and a text within the limit is unchanged.
\<close>

theorem truncation_by_runes:
  "runes (truncateInferenceWebText v) = take maxInferenceWebResultRunes (runes v)
   \<and> (maxInferenceWebResultRunes < length (runes v) \<or> truncateInferenceWebText v = v)"
  by (rule conjI [OF truncate_runes]) (simp add: truncateInferenceWebText_def Let_def not_less)

end
