(* ===== verification/StoreBase.thy ===== *)
theory StoreBase
  imports Batches
begin

text \<open>
  The ground of the file state store (\<open>state.go\<close>): the records it keeps, the directories they
  live in, advisory locks, the clock, and atomic replacement of a file.

  The world is what the program sees of the operating system.  A directory is an association list
  from file names (SHA-256 digests) to contents; a content is a decoded record or bytes that do
  not decode.  A fallible system call consumes one element of \<open>w_faults\<close> and fails when that is
  an error; an attempt to lock consumes one element of \<open>w_contended\<close>, which says whether another
  process holds the lock.  Both oracles are unconstrained, so what is proved holds for every
  pattern of failures.  Encoding a record to JSON and decoding it again is the identity, which
  \<open>encoding/json\<close> guarantees for the valid UTF-8 these records hold.
\<close>

section \<open>Time\<close>

text \<open>Nanoseconds; \<open>None\<close> is the zero \<open>time.Time\<close>.  \<open>Sub\<close> saturates at the range of a Duration.\<close>

definition subTime :: "int \<Rightarrow> int \<Rightarrow> int" where
  "subTime a b = max (- (2 ^ 63)) (min maxInt64 (a - b))"

definition second :: int where "second = 1000000000"
definition minute :: int where "minute = 60 * second"
definition hour :: int where "hour = 60 * minute"

definition defaultStateTTL :: int where "defaultStateTTL = 30 * 24 * hour"
definition completedTombstoneTTL :: int where "completedTombstoneTTL = 5 * minute"
definition stateGCInterval :: int where "stateGCInterval = hour"
definition maxStateFileSize :: int where "maxStateFileSize = 256 * 2 ^ 20"
definition maxStateFiles :: nat where "maxStateFiles = 10000"

section \<open>Records\<close>

record StateSnapshot =
  st_Version :: int
  st_RuntimeProfile :: string
  st_SessionID :: string
  st_ConversationID :: string
  st_CredentialFingerprint :: string
  st_ToolCatalogDigest :: string
  st_ToolCatalog :: "ToolDefinition list"
  st_BillingRunID :: string
  st_UsageCarry :: "Event list"
  st_OwnerGeneration :: "64 word"
  st_OwnerToken :: string
  st_Checkpoint :: bytes
  st_Blobs :: blobs
  st_PendingTools :: "PendingTool list"
  st_PendingBatchIDs :: "string list"
  st_FollowUpText :: string
  st_EphemeralComplete :: bool
  st_CompletedAt :: "int option"
  st_UpdatedAt :: "int option"

record pendingIndex =
  pi_Version :: int
  pi_CredentialFingerprint :: string
  pi_BatchIDs :: "string list"
  pi_SessionIDs :: "string list"
  pi_UpdatedAt :: "int option"

record toolBatchPointer =
  tp_Version :: int
  tp_CredentialFingerprint :: string
  tp_ToolCallID :: string
  tp_BatchIDs :: "string list"
  tp_UpdatedAt :: "int option"

record completedTombstone =
  ct_RequestKey :: string
  ct_RequestSegmentID :: string
  ct_Version :: int
  ct_CredentialFingerprint :: string
  ct_BatchIDs :: "string list"
  ct_ResultDigest :: string
  ct_Results :: "CompletedToolResult list"
  ct_Events :: "persistedEvent list"
  ct_BillingRunID :: string
  ct_SessionID :: string
  ct_ConversationID :: string
  ct_HasPending :: bool
  ct_FollowUpText :: string
  ct_Ephemeral :: bool
  ct_UpdatedAt :: "int option"

definition newState :: StateSnapshot where
  "newState = \<lparr>st_Version = 0, st_RuntimeProfile = [], st_SessionID = [], st_ConversationID = [],
     st_CredentialFingerprint = [], st_ToolCatalogDigest = [], st_ToolCatalog = [],
     st_BillingRunID = [], st_UsageCarry = [], st_OwnerGeneration = 0, st_OwnerToken = [],
     st_Checkpoint = [], st_Blobs = [], st_PendingTools = [], st_PendingBatchIDs = [],
     st_FollowUpText = [], st_EphemeralComplete = False, st_CompletedAt = None, st_UpdatedAt = None\<rparr>"

definition stateExpired :: "StateSnapshot \<Rightarrow> int \<Rightarrow> int \<Rightarrow> bool" where
  "stateExpired st now ttl = (case st_UpdatedAt st of
     None \<Rightarrow> False
   | Some updated \<Rightarrow>
       if st_EphemeralComplete st \<and> st_PendingTools st = []
       then subTime now (case st_CompletedAt st of None \<Rightarrow> updated | Some c \<Rightarrow> c) > completedTombstoneTTL
       else ttl > 0 \<and> subTime now updated > ttl)"

definition completedTombstoneExpired :: "completedTombstone \<Rightarrow> int \<Rightarrow> int \<Rightarrow> bool" where
  "completedTombstoneExpired t now ttl0 = (case ct_UpdatedAt t of
     None \<Rightarrow> False
   | Some updated \<Rightarrow>
       let ttl = (if ct_Ephemeral t then completedTombstoneTTL else ttl0) in
       if ttl \<le> 0 then False else subTime now updated > ttl)"

section \<open>The world\<close>

datatype 'a content = Stored 'a | Undecodable

datatype dir = DirState | DirPending | DirPendingTool | DirCompleted | DirCompletedTool

type_synonym lock = "dir \<times> string"

record world =
  w_states :: "(string \<times> StateSnapshot content) list"
  w_pending :: "(string \<times> pendingIndex content) list"
  w_pendingTool :: "(string \<times> toolBatchPointer content) list"
  w_completed :: "(string \<times> completedTombstone content) list"
  w_completedTool :: "(string \<times> toolBatchPointer content) list"
  w_temps :: "(nat \<times> dir \<times> int) list"
  w_tempCount :: nat
  w_held :: "(nat \<times> lock) list"
  w_nextHandle :: nat
  w_faults :: "string option list"
  w_contended :: "bool list"
  w_now :: int
  w_ticks :: "nat list"
  w_uuids :: nat
  w_lastGC :: "int option"

type_synonym 'a st = "(world, 'a) io"

text \<open>
  The parameters and settings of a store: SHA-256 in hexadecimal, the UUID supply, the JSON
  canonicaliser and the sizes of encoded records, the time to live and the file limit.
\<close>

record storeEnv =
  se_sha :: "string \<Rightarrow> string"
  se_uuid :: "nat \<Rightarrow> string"
  se_canon :: "bytes \<Rightarrow> bytes option"
  se_stateSize :: "StateSnapshot \<Rightarrow> int"
  se_body :: "string \<Rightarrow> int"
  se_rest :: "Event \<Rightarrow> int"
  se_ttl :: int
  se_maxFiles :: nat

subsection \<open>System calls\<close>

definition sys :: "unit st" where
  "sys s = (case w_faults s of
     Some e # fs \<Rightarrow> (Inl (OsError e), s\<lparr>w_faults := fs\<rparr>)
   | _ \<Rightarrow> (Inr (), s\<lparr>w_faults := tl (w_faults s)\<rparr>))"

definition wrapping :: "string \<Rightarrow> 'a st \<Rightarrow> 'a st" where
  "wrapping text m = bnd (attempt m) (\<lambda>r. case r of Inl e \<Rightarrow> raise (Wrap text e) | Inr x \<Rightarrow> ret x)"

definition getNow :: "int st" where
  "getNow s = (Inr (w_now s),
     s\<lparr>w_now := w_now s + (case w_ticks s of [] \<Rightarrow> 0 | t # _ \<Rightarrow> int t), w_ticks := tl (w_ticks s)\<rparr>)"

definition newUUID :: "storeEnv \<Rightarrow> string st" where
  "newUUID env s = (Inr (se_uuid env (w_uuids s)), s\<lparr>w_uuids := Suc (w_uuids s)\<rparr>)"

subsection \<open>Leases\<close>

text \<open>
  A handle is a number; it is released when it is not in \<open>w_held\<close>.  \<open>acquireLease\<close> opens the lock
  file and takes \<open>flock(LOCK_EX|LOCK_NB)\<close> on it.
\<close>

definition lockHeld :: "lock \<Rightarrow> world \<Rightarrow> bool" where
  "lockHeld l s = (l \<in> snd ` set (w_held s))"

definition tryLock :: "lock \<Rightarrow> nat st" where
  "tryLock l s =
     (let s1 = s\<lparr>w_contended := tl (w_contended s)\<rparr> in
      if lockHeld l s \<or> (w_contended s \<noteq> [] \<and> hd (w_contended s)) then (Inl ErrStateLeaseHeld, s1)
      else (Inr (w_nextHandle s), s1\<lparr>w_held := (w_nextHandle s, l) # w_held s,
                                     w_nextHandle := Suc (w_nextHandle s)\<rparr>))"

definition acquireLease :: "lock \<Rightarrow> nat st" where
  "acquireLease l =
     bnd (wrapping ''open Cursor Agent v1 state lock: %w'' sys) (\<lambda>_.
     bnd (wrapping ''lock Cursor Agent v1 state: %w'' sys) (\<lambda>_. tryLock l))"

definition releaseHandle :: "nat \<Rightarrow> unit st" where
  "releaseHandle h =
     bnd (gets (\<lambda>s. h \<in> fst ` set (w_held s))) (\<lambda>held.
     if \<not> held then ret ()
     else bnd (modify (\<lambda>s. s\<lparr>w_held := AList.delete h (w_held s)\<rparr>)) (\<lambda>_.
          bnd (wrapping ''unlock Cursor Agent v1 state: %w'' sys) (\<lambda>_.
          wrapping ''close Cursor Agent v1 state lock: %w'' sys)))"

text \<open>The lease of an index entry is retried up to 20 times while it is held elsewhere.\<close>

definition leaseAttempts :: nat where "leaseAttempts = 20"

fun acquireRetry :: "nat \<Rightarrow> lock \<Rightarrow> err \<Rightarrow> nat st" where
  "acquireRetry 0 l lastErr = raise lastErr"
| "acquireRetry (Suc n) l lastErr =
     bnd (attempt (acquireLease l)) (\<lambda>r. case r of
       Inr h \<Rightarrow> ret h
     | Inl e \<Rightarrow> if \<not> errIs e ErrStateLeaseHeld then raise e else acquireRetry n l e)"

definition acquirePendingIndexLease :: "lock \<Rightarrow> nat st" where
  "acquirePendingIndexLease l = acquireRetry leaseAttempts l ErrStateLeaseHeld"

text \<open>\<open>handle, err := acquire(); if err != nil { return err }; defer releaseHandle(handle)\<close>\<close>

definition withLease :: "lock \<Rightarrow> 'a st \<Rightarrow> 'a st" where
  "withLease l m = bnd (acquirePendingIndexLease l) (\<lambda>h. ensuring m (releaseHandle h))"

subsection \<open>Directories\<close>

text \<open>A directory's field of the world: how to read it and how to change it.\<close>

type_synonym 'a dirField =
  "(world \<Rightarrow> (string \<times> 'a content) list)
   \<times> (((string \<times> 'a content) list \<Rightarrow> (string \<times> 'a content) list) \<Rightarrow> world \<Rightarrow> world)"

definition stateDir :: "StateSnapshot dirField" where "stateDir = (w_states, w_states_update)"
definition pendingDir :: "pendingIndex dirField" where "pendingDir = (w_pending, w_pending_update)"
definition pendingToolDir :: "toolBatchPointer dirField" where
  "pendingToolDir = (w_pendingTool, w_pendingTool_update)"
definition completedDir :: "completedTombstone dirField" where
  "completedDir = (w_completed, w_completed_update)"
definition completedToolDir :: "toolBatchPointer dirField" where
  "completedToolDir = (w_completedTool, w_completedTool_update)"

definition lookupFile :: "'a dirField \<Rightarrow> string \<Rightarrow> world \<Rightarrow> 'a content option" where
  "lookupFile d name s = map_of (fst d s) name"

text \<open>\<open>os.ReadFile\<close> followed by \<open>json.Unmarshal\<close>.\<close>

definition readFile :: "'a dirField \<Rightarrow> (err \<Rightarrow> err) \<Rightarrow> string \<Rightarrow> 'a st" where
  "readFile d undecodable name =
     bnd sys (\<lambda>_. bnd (gets (lookupFile d name)) (\<lambda>c. case c of
       None \<Rightarrow> raise ErrNotExist
     | Some Undecodable \<Rightarrow> raise (undecodable (OsError ''invalid JSON''))
     | Some (Stored x) \<Rightarrow> ret x))"

definition removeFile :: "'a dirField \<Rightarrow> string \<Rightarrow> unit st" where
  "removeFile d name =
     bnd sys (\<lambda>_. bnd (gets (lookupFile d name)) (\<lambda>c. case c of
       None \<Rightarrow> raise ErrNotExist
     | Some _ \<Rightarrow> modify (snd d (AList.delete name))))"

text \<open>\<open>if err := remove(path); err != nil && !errors.Is(err, os.ErrNotExist)\<close>\<close>

definition removeIfPresent :: "'a dirField \<Rightarrow> string \<Rightarrow> unit st" where
  "removeIfPresent d name = bnd (attempt (removeFile d name)) (\<lambda>r. case r of
     Inl e \<Rightarrow> if errIs e ErrNotExist then ret () else raise e | Inr _ \<Rightarrow> ret ())"

definition syncDirectory :: "unit st" where
  "syncDirectory = bnd (wrapping ''open Cursor Agent v1 state directory: %w'' sys) (\<lambda>_.
     wrapping ''sync Cursor Agent v1 state directory: %w'' sys)"

subsection \<open>Atomic replacement\<close>

text \<open>
  The temporary file is created, secured, written, synced and closed; only then is it renamed
  over the target.  \<open>label\<close> is how a failing step is reported (\<open>writeStateAtomic\<close> wraps it, the
  writers of the index directories return it as it is).
\<close>

definition createTemp :: "dir \<Rightarrow> nat st" where
  "createTemp dd = bnd sys (\<lambda>_. bnd (gets w_tempCount) (\<lambda>t.
     bnd (modify (\<lambda>s. s\<lparr>w_temps := (t, dd, w_now s) # w_temps s, w_tempCount := Suc t\<rparr>)) (\<lambda>_. ret t)))"

definition removeTemp :: "nat \<Rightarrow> unit st" where
  "removeTemp t = bnd sys (\<lambda>_. modify (\<lambda>s. s\<lparr>w_temps := AList.delete t (w_temps s)\<rparr>))"

text \<open>\<open>cleanup\<close> closes and removes the temporary file and drops both errors.\<close>

definition cleanupTemp :: "nat \<Rightarrow> unit st" where
  "cleanupTemp t = bnd (attempt sys) (\<lambda>_. bnd (attempt (removeTemp t)) (\<lambda>_. ret ()))"

definition tempStep :: "(string \<Rightarrow> err \<Rightarrow> err) \<Rightarrow> string \<Rightarrow> unit st \<Rightarrow> unit st \<Rightarrow> unit st" where
  "tempStep label text step undo = bnd (attempt step) (\<lambda>r. case r of
     Inr _ \<Rightarrow> ret ()
   | Inl e \<Rightarrow> bnd (attempt undo) (\<lambda>_. raise (label text e)))"

definition writeFileAtomic ::
  "'a dirField \<Rightarrow> dir \<Rightarrow> (string \<Rightarrow> err \<Rightarrow> err) \<Rightarrow> string \<Rightarrow> 'a \<Rightarrow> unit st" where
  "writeFileAtomic d dd label name x =
     bnd (attempt (createTemp dd)) (\<lambda>r. case r of
       Inl e \<Rightarrow> raise (label ''create Cursor Agent v1 state temp file: %w'' e)
     | Inr t \<Rightarrow>
         bnd (tempStep label ''secure Cursor Agent v1 state temp file: %w'' sys (cleanupTemp t)) (\<lambda>_.
         bnd (tempStep label ''write Cursor Agent v1 state: %w'' sys (cleanupTemp t)) (\<lambda>_.
         bnd (tempStep label ''sync Cursor Agent v1 state: %w'' sys (cleanupTemp t)) (\<lambda>_.
         bnd (tempStep label ''close Cursor Agent v1 state: %w'' sys (removeTemp t)) (\<lambda>_.
         bnd (tempStep label ''replace Cursor Agent v1 state: %w'' sys (removeTemp t)) (\<lambda>_.
         bnd (modify (\<lambda>s. snd d (AList.update name (Stored x)) (s\<lparr>w_temps := AList.delete t (w_temps s)\<rparr>)))
           (\<lambda>_. syncDirectory)))))))"

definition plainError :: "string \<Rightarrow> err \<Rightarrow> err" where "plainError text e = e"

definition writeStateAtomic :: "string \<Rightarrow> StateSnapshot \<Rightarrow> unit st" where
  "writeStateAtomic name st = writeFileAtomic stateDir DirState Wrap name st"

definition readState :: "storeEnv \<Rightarrow> string \<Rightarrow> StateSnapshot st" where
  "readState env name =
     bnd sys (\<lambda>_. bnd (gets (lookupFile stateDir name)) (\<lambda>c. case c of
       None \<Rightarrow> raise ErrNotExist
     | Some Undecodable \<Rightarrow>
         bnd sys (\<lambda>_. raise (Wrap ''decode Cursor Agent v1 state: %w'' (OsError ''invalid JSON'')))
     | Some (Stored st) \<Rightarrow>
         if se_stateSize env st > maxStateFileSize
         then raise (Errorf ''Cursor Agent v1 state exceeds %d bytes'' [N maxStateFileSize])
         else bnd sys (\<lambda>_. bnd (lift (migrateRecordVersion (st_Version st))) (\<lambda>version.
                ret (st\<lparr>st_Version := version\<rparr>)))))"

definition statePath :: "storeEnv \<Rightarrow> string \<Rightarrow> string" where
  "statePath env sessionID = se_sha env sessionID"

section \<open>What an operation keeps\<close>

text \<open>
  \<open>keeps P m\<close>: the operation \<open>m\<close> keeps \<open>P\<close>, whatever it returns and whatever fails.
\<close>

named_theorems keeping \<open>introduction rules for keeps\<close>

definition keeps :: "(world \<Rightarrow> bool) \<Rightarrow> 'a st \<Rightarrow> bool" where
  "keeps P m = (\<forall>s. P s \<longrightarrow> sat m (\<lambda>_. P) s)"

lemma keepsD: "keeps P m \<Longrightarrow> P s \<Longrightarrow> sat m (\<lambda>_. P) s"
  by (simp add: keeps_def)

lemma keeps_out: "keeps P m \<Longrightarrow> P s \<Longrightarrow> m s = (r, s') \<Longrightarrow> P s'"
  by (auto simp: keeps_def sat_def)

lemma keeps_ret [keeping]: "keeps P (ret x)"
  by (simp add: keeps_def wp)

lemma keeps_raise [keeping]: "keeps P (raise e)"
  by (simp add: keeps_def wp)

lemma keeps_lift [keeping]: "keeps P (lift r)"
  by (simp add: keeps_def wp)

lemma keeps_gets [keeping]: "keeps P (gets f)"
  by (simp add: keeps_def wp)

lemma keeps_modify [keeping]: "(\<And>s. P s \<Longrightarrow> P (f s)) \<Longrightarrow> keeps P (modify f)"
  by (simp add: keeps_def wp)

lemma keeps_bnd [keeping]:
  assumes "keeps P m" and "\<And>x. keeps P (f x)"
  shows "keeps P (bnd m f)"
  unfolding keeps_def
proof (intro allI impI)
  fix s
  assume "P s"
  then have "sat m (\<lambda>_. P) s" using assms(1) by (simp add: keeps_def)
  then show "sat (bnd m f) (\<lambda>_. P) s"
    unfolding sat_bnd by (rule sat_mono) (use assms(2) in \<open>auto simp: keeps_def split: sum.split\<close>)
qed

lemma keeps_attempt [keeping]: "keeps P m \<Longrightarrow> keeps P (attempt m)"
  by (simp add: keeps_def wp)

lemma keeps_ensuring [keeping]: "keeps P m \<Longrightarrow> keeps P c \<Longrightarrow> keeps P (ensuring m c)"
  unfolding keeps_def sat_ensuring by (blast intro: sat_mono)

lemma keeps_forE [keeping]: "(\<And>x. x \<in> set xs \<Longrightarrow> keeps P (f x)) \<Longrightarrow> keeps P (forE xs f)"
  unfolding keeps_def by (auto intro: sat_forE)

lemma keeps_if [keeping]: "(b \<Longrightarrow> keeps P m) \<Longrightarrow> (\<not> b \<Longrightarrow> keeps P n) \<Longrightarrow> keeps P (if b then m else n)"
  by simp

lemma keeps_case_option [keeping]:
  "(o' = None \<Longrightarrow> keeps P m) \<Longrightarrow> (\<And>x. o' = Some x \<Longrightarrow> keeps P (f x)) \<Longrightarrow>
     keeps P (case o' of None \<Rightarrow> m | Some x \<Rightarrow> f x)"
  by (simp split: option.split)

lemma keeps_case_sum [keeping]:
  "(\<And>e. r = Inl e \<Longrightarrow> keeps P (f e)) \<Longrightarrow> (\<And>x. r = Inr x \<Longrightarrow> keeps P (g x)) \<Longrightarrow>
     keeps P (case r of Inl e \<Rightarrow> f e | Inr x \<Rightarrow> g x)"
  by (simp split: sum.split)

lemma keeps_case_prod [keeping]: "(\<And>a b. p = (a, b) \<Longrightarrow> keeps P (f a b)) \<Longrightarrow> keeps P (case p of (a, b) \<Rightarrow> f a b)"
  by (simp split: prod.split)

lemma keeps_case_content [keeping]:
  "(\<And>x. c = Stored x \<Longrightarrow> keeps P (f x)) \<Longrightarrow> (c = Undecodable \<Longrightarrow> keeps P m) \<Longrightarrow>
     keeps P (case c of Stored x \<Rightarrow> f x | Undecodable \<Rightarrow> m)"
  by (simp split: content.split)

lemma keeps_case_list [keeping]:
  "(xs = [] \<Longrightarrow> keeps P m) \<Longrightarrow> (\<And>y ys. xs = y # ys \<Longrightarrow> keeps P (f y ys)) \<Longrightarrow>
     keeps P (case xs of [] \<Rightarrow> m | y # ys \<Rightarrow> f y ys)"
  by (simp split: list.split)

text \<open>
  Predicates that look only at the directories and the leases, and at the clock and the UUID counter in
  a way that time passing cannot falsify: the oracles and the temporary files come and go.
\<close>

definition blind :: "(world \<Rightarrow> bool) \<Rightarrow> bool" where
  "blind P = (\<forall>s f c n k ts tc. P s \<and> w_now s \<le> n \<longrightarrow> P (s\<lparr>w_faults := f, w_contended := c, w_now := n,
     w_ticks := k, w_temps := ts, w_tempCount := tc\<rparr>))"

lemma blind_world:
  assumes "blind P" "P s"
  shows "P (s\<lparr>w_faults := f\<rparr>)" "w_now s \<le> n \<Longrightarrow> P (s\<lparr>w_now := n, w_ticks := k\<rparr>)"
    "P (s\<lparr>w_temps := ts, w_tempCount := tc\<rparr>)" "P (s\<lparr>w_temps := ts\<rparr>)"
proof -
  note b = assms(1) [unfolded blind_def, rule_format, OF conjI, OF assms(2)]
  show "P (s\<lparr>w_faults := f\<rparr>)"
    using b [of "w_now s" "w_tempCount s" "w_temps s" "w_ticks s" "w_contended s" f] by (cases s) simp
  show "w_now s \<le> n \<Longrightarrow> P (s\<lparr>w_now := n, w_ticks := k\<rparr>)"
    using b [of n "w_tempCount s" "w_temps s" k "w_contended s" "w_faults s"] by (cases s) simp
  show "P (s\<lparr>w_temps := ts, w_tempCount := tc\<rparr>)"
    using b [of "w_now s" tc ts "w_ticks s" "w_contended s" "w_faults s"] by (cases s) simp
  show "P (s\<lparr>w_temps := ts\<rparr>)"
    using b [of "w_now s" "w_tempCount s" ts "w_ticks s" "w_contended s" "w_faults s"] by (cases s) simp
qed

lemma keeps_sys [keeping]: "blind P \<Longrightarrow> keeps P sys"
  unfolding keeps_def sat_def sys_def by (auto simp: blind_world split: list.split option.split)

lemma keeps_getNow [keeping]: "blind P \<Longrightarrow> keeps P getNow"
  unfolding keeps_def sat_def getNow_def by (simp add: blind_world split: list.split)

lemma keeps_newUUID: "(\<And>s. P s \<Longrightarrow> P (s\<lparr>w_uuids := Suc (w_uuids s)\<rparr>)) \<Longrightarrow> keeps P (newUUID env)"
  unfolding keeps_def sat_def newUUID_def by auto

lemma keeps_wrapping [keeping]: "keeps P m \<Longrightarrow> keeps P (wrapping t m)"
  unfolding wrapping_def by (intro keeping)

lemma keeps_syncDirectory [keeping]: "blind P \<Longrightarrow> keeps P syncDirectory"
  unfolding syncDirectory_def by (intro keeping)

lemma keeps_readFile [keeping]: "blind P \<Longrightarrow> keeps P (readFile d f n)"
  unfolding readFile_def by (intro keeping)

lemma keeps_readState [keeping]: "blind P \<Longrightarrow> keeps P (readState env n)"
  unfolding readState_def by (intro keeping)

text \<open>Removing and replacing keep what their one change of the directory keeps.\<close>

lemma keeps_removeFile:
  assumes "blind P" and "\<And>s. P s \<Longrightarrow> P (snd d (AList.delete name) s)"
  shows "keeps P (removeFile d name)"
  unfolding removeFile_def by (intro keeping assms)

lemma keeps_removeIfPresent:
  assumes "blind P" and "\<And>s. P s \<Longrightarrow> P (snd d (AList.delete name) s)"
  shows "keeps P (removeIfPresent d name)"
  unfolding removeIfPresent_def by (intro keeping keeps_removeFile assms)

lemma keeps_createTemp [keeping]: "blind P \<Longrightarrow> keeps P (createTemp dd)"
  unfolding createTemp_def by (intro keeping) (auto simp: blind_world)

lemma keeps_removeTemp [keeping]: "blind P \<Longrightarrow> keeps P (removeTemp t)"
  unfolding removeTemp_def by (intro keeping) (auto simp: blind_world)

lemma keeps_cleanupTemp [keeping]: "blind P \<Longrightarrow> keeps P (cleanupTemp t)"
  unfolding cleanupTemp_def by (intro keeping)

lemma keeps_tempStep [keeping]: "keeps P m \<Longrightarrow> keeps P u \<Longrightarrow> keeps P (tempStep label t m u)"
  unfolding tempStep_def by (intro keeping)

lemma keeps_writeFileAtomic:
  assumes "blind P" and "\<And>s. P s \<Longrightarrow> P (snd d (AList.update name (Stored x)) s)"
  shows "keeps P (writeFileAtomic d dd label name x)"
  unfolding writeFileAtomic_def by (intro keeping assms) (auto intro: assms blind_world)

section \<open>Leases are exclusive and given back\<close>

definition leasesOk :: "world \<Rightarrow> bool" where
  "leasesOk s = (distinct (map fst (w_held s)) \<and> distinct (map snd (w_held s))
     \<and> (\<forall>h \<in> fst ` set (w_held s). h < w_nextHandle s))"

definition holding :: "(nat \<times> lock) list \<Rightarrow> world \<Rightarrow> bool" where
  "holding H s = (w_held s = H \<and> leasesOk s)"

text \<open>Predicates on the directories only.\<close>

definition filesOnly :: "(world \<Rightarrow> bool) \<Rightarrow> bool" where
  "filesOnly Q = (blind Q \<and> (\<forall>s c h n. Q s \<longrightarrow> Q (s\<lparr>w_contended := c, w_held := h, w_nextHandle := n\<rparr>)))"

lemma filesOnly_blind: "filesOnly Q \<Longrightarrow> blind Q"
  by (simp add: filesOnly_def)

lemma filesOnly_upd:
  assumes "filesOnly Q" "Q s"
  shows "Q (s\<lparr>w_contended := c\<rparr>)" "Q (s\<lparr>w_contended := c, w_held := h, w_nextHandle := n\<rparr>)"
    "Q (s\<lparr>w_held := h\<rparr>)"
proof -
  have b: "Q (s\<lparr>w_contended := c, w_held := h, w_nextHandle := n\<rparr>)" for c h n
    using assms by (simp add: filesOnly_def)
  show "Q (s\<lparr>w_contended := c\<rparr>)"
    using b [of "w_nextHandle s" "w_held s" c] by (cases s) simp
  show "Q (s\<lparr>w_contended := c, w_held := h, w_nextHandle := n\<rparr>)" by (rule b)
  show "Q (s\<lparr>w_held := h\<rparr>)"
    using b [of "w_nextHandle s" h "w_contended s"] by (cases s) simp
qed

lemma filesOnly_True [simp]: "filesOnly (\<lambda>s. True)"
  by (simp add: filesOnly_def blind_def)

lemma blind_holding [simp]: "blind (holding H)"
  by (auto simp: blind_def holding_def leasesOk_def)

lemma blind_conj: "blind P \<Longrightarrow> blind Q \<Longrightarrow> blind (\<lambda>s. P s \<and> Q s)"
  by (simp add: blind_def)

lemma blind_holding_files [keeping]: "filesOnly Q \<Longrightarrow> blind (\<lambda>s. holding H s \<and> Q s)"
  by (intro blind_conj filesOnly_blind blind_holding)

definition acquired :: "(nat \<times> lock) list \<Rightarrow> (world \<Rightarrow> bool) \<Rightarrow> lock \<Rightarrow> nat res \<Rightarrow> world \<Rightarrow> bool" where
  "acquired H Q l r s = (case r of Inl e \<Rightarrow> holding H s \<and> Q s | Inr h \<Rightarrow> holding ((h, l) # H) s \<and> Q s)"

lemma sat_tryLock:
  assumes "filesOnly Q" "holding H s" "Q s"
  shows "sat (tryLock l) (acquired H Q l) s"
  using assms(2) filesOnly_upd [OF assms(1,3)]
  unfolding sat_def tryLock_def acquired_def
  by (auto simp: Let_def holding_def leasesOk_def lockHeld_def image_iff)

lemma sat_acquireLease:
  assumes "filesOnly Q" "holding H s" "Q s"
  shows "sat (acquireLease l) (acquired H Q l) s"
proof -
  have sys: "sat (wrapping t sys) (\<lambda>r s'. holding H s' \<and> Q s') s1" if "holding H s1" "Q s1" for t s1
    using keepsD [of "\<lambda>s. holding H s \<and> Q s" "wrapping t sys" s1] that
    by (auto intro: keeping simp: assms(1) keeps_wrapping keeps_sys blind_holding_files)
  show ?thesis
    unfolding acquireLease_def sat_bnd
    by (rule sat_mono [OF sys [OF assms(2,3)]])
       (auto simp: acquired_def [where r = "Inl e" for e] sat_bnd split: sum.split
         intro!: sat_mono [OF sys] sat_tryLock assms(1))
qed

lemma sat_acquireRetry:
  "filesOnly Q \<Longrightarrow> holding H s \<Longrightarrow> Q s \<Longrightarrow> sat (acquireRetry n l e) (acquired H Q l) s"
proof (induction n l e arbitrary: s rule: acquireRetry.induct)
  case (2 n l lastErr)
  show ?case
    unfolding acquireRetry.simps sat_bnd sat_attempt
    by (rule sat_mono [OF sat_acquireLease [OF 2(2-4)]])
       (auto simp: acquired_def sat_ret sat_raise split: sum.split intro!: 2(1) 2(2))
qed (simp add: wp acquired_def)

lemma sat_releaseHandle:
  assumes "filesOnly Q" "holding ((h, l) # H) s" "Q s"
  shows "sat (releaseHandle h) (\<lambda>_ s'. holding H s' \<and> Q s') s"
proof -
  let ?s = "s\<lparr>w_held := AList.delete h (w_held s)\<rparr>"
  have "h \<notin> fst ` set H" using assms(2) by (force simp: holding_def leasesOk_def)
  then have "AList.delete h (w_held s) = H"
    using assms(2) by (simp add: holding_def delete_absent)
  then have s: "holding H ?s \<and> Q ?s"
    using assms(2) filesOnly_upd(3) [OF assms(1,3)] by (auto simp: holding_def leasesOk_def)
  have held: "h \<in> fst ` set (w_held s)" using assms(2) by (simp add: holding_def)
  have "keeps (\<lambda>s. holding H s \<and> Q s) (bnd (wrapping ''unlock Cursor Agent v1 state: %w'' sys) (\<lambda>_.
          wrapping ''close Cursor Agent v1 state lock: %w'' sys))"
    by (intro keeping assms(1))
  from keepsD [OF this s] held show ?thesis
    by (simp add: releaseHandle_def sat_bnd [of "gets f" for f] sat_gets sat_bnd [of "modify f" for f] sat_modify)
qed

lemma keeps_withLease:
  assumes "filesOnly Q" and "\<And>h. keeps (\<lambda>s. holding ((h, l) # H) s \<and> Q s) m"
  shows "keeps (\<lambda>s. holding H s \<and> Q s) (withLease l m)"
  unfolding keeps_def withLease_def acquirePendingIndexLease_def
proof (intro allI impI)
  fix s
  assume s: "holding H s \<and> Q s"
  show "sat (bnd (acquireRetry leaseAttempts l ErrStateLeaseHeld) (\<lambda>h. ensuring m (releaseHandle h)))
      (\<lambda>_ s. holding H s \<and> Q s) s"
    unfolding sat_bnd
  proof (rule sat_mono [OF sat_acquireRetry])
    fix r s'
    assume a: "acquired H Q l r s'"
    show "case r of Inl e \<Rightarrow> holding H s' \<and> Q s'
      | Inr h \<Rightarrow> sat (ensuring m (releaseHandle h)) (\<lambda>_ s. holding H s \<and> Q s) s'"
    proof (cases r)
      case (Inr h)
      then have "sat m (\<lambda>_ s. holding ((h, l) # H) s \<and> Q s) s'"
        using a assms(2) by (auto simp: acquired_def intro: keepsD)
      then have "sat m (\<lambda>r s1. sat (releaseHandle h) (\<lambda>_ s2. holding H s2 \<and> Q s2) s1) s'"
        by (rule sat_mono) (auto intro: sat_releaseHandle assms(1))
      with Inr show ?thesis by (simp add: sat_ensuring)
    qed (use a in \<open>simp add: acquired_def\<close>)
  qed (use s assms(1) in auto)
qed

section \<open>Balanced operations\<close>

text \<open>
  \<open>balanced Q m\<close>: the operation \<open>m\<close> gives back every lease it takes and keeps \<open>Q\<close>, whatever it
  returns and whatever fails.
\<close>

named_theorems balancing \<open>introduction rules for balanced\<close>

definition balanced :: "(world \<Rightarrow> bool) \<Rightarrow> 'a st \<Rightarrow> bool" where
  "balanced Q m = (\<forall>H. keeps (\<lambda>s. holding H s \<and> Q s) m)"

lemma balancedD: "balanced Q m \<Longrightarrow> holding H s \<Longrightarrow> Q s \<Longrightarrow> sat m (\<lambda>_ s. holding H s \<and> Q s) s"
  by (simp add: balanced_def keeps_def)

lemma balanced_out: "balanced Q m \<Longrightarrow> holding H s \<Longrightarrow> Q s \<Longrightarrow> m s = (r, s') \<Longrightarrow> holding H s' \<and> Q s'"
  using satD [OF balancedD] by metis

lemma balanced_ret [balancing]: "balanced Q (ret x)"
  by (simp add: balanced_def keeps_ret)

lemma balanced_raise [balancing]: "balanced Q (raise e)"
  by (simp add: balanced_def keeps_raise)

lemma balanced_lift [balancing]: "balanced Q (lift r)"
  by (simp add: balanced_def keeps_lift)

lemma balanced_gets [balancing]: "balanced Q (gets f)"
  by (simp add: balanced_def keeps_gets)

lemma balanced_bnd [balancing]: "balanced Q m \<Longrightarrow> (\<And>x. balanced Q (f x)) \<Longrightarrow> balanced Q (bnd m f)"
  unfolding balanced_def by (intro allI keeps_bnd) auto

lemma balanced_attempt [balancing]: "balanced Q m \<Longrightarrow> balanced Q (attempt m)"
  unfolding balanced_def by (intro allI keeps_attempt) auto

lemma balanced_forE [balancing]: "(\<And>x. x \<in> set xs \<Longrightarrow> balanced Q (f x)) \<Longrightarrow> balanced Q (forE xs f)"
  unfolding balanced_def by (intro allI keeps_forE) auto

lemma balanced_if [balancing]: "(b \<Longrightarrow> balanced Q m) \<Longrightarrow> (\<not> b \<Longrightarrow> balanced Q n) \<Longrightarrow> balanced Q (if b then m else n)"
  by simp

lemma balanced_case_option [balancing]:
  "(o' = None \<Longrightarrow> balanced Q m) \<Longrightarrow> (\<And>x. o' = Some x \<Longrightarrow> balanced Q (f x)) \<Longrightarrow>
     balanced Q (case o' of None \<Rightarrow> m | Some x \<Rightarrow> f x)"
  by (simp split: option.split)

lemma balanced_case_sum [balancing]:
  "(\<And>e. r = Inl e \<Longrightarrow> balanced Q (f e)) \<Longrightarrow> (\<And>x. r = Inr x \<Longrightarrow> balanced Q (g x)) \<Longrightarrow>
     balanced Q (case r of Inl e \<Rightarrow> f e | Inr x \<Rightarrow> g x)"
  by (simp split: sum.split)

lemma balanced_case_prod [balancing]: "(\<And>a b. p = (a, b) \<Longrightarrow> balanced Q (f a b)) \<Longrightarrow> balanced Q (case p of (a, b) \<Rightarrow> f a b)"
  by (simp split: prod.split)

lemma balanced_case_list [balancing]:
  "(xs = [] \<Longrightarrow> balanced Q m) \<Longrightarrow> (\<And>y ys. xs = y # ys \<Longrightarrow> balanced Q (f y ys)) \<Longrightarrow>
     balanced Q (case xs of [] \<Rightarrow> m | y # ys \<Rightarrow> f y ys)"
  by (simp split: list.split)

lemma balanced_keeps: "filesOnly Q \<Longrightarrow> (\<And>P. blind P \<Longrightarrow> keeps P m) \<Longrightarrow> balanced Q m"
  by (simp add: balanced_def blind_holding_files)

lemma balanced_sys [balancing]: "filesOnly Q \<Longrightarrow> balanced Q sys"
  by (rule balanced_keeps) (simp_all add: keeps_sys)

lemma balanced_getNow [balancing]: "filesOnly Q \<Longrightarrow> balanced Q getNow"
  by (rule balanced_keeps) (simp_all add: keeps_getNow)

text \<open>Predicates that a new UUID does not falsify.\<close>

definition uuidOk :: "(world \<Rightarrow> bool) \<Rightarrow> bool" where
  "uuidOk Q = (\<forall>s. Q s \<longrightarrow> Q (s\<lparr>w_uuids := Suc (w_uuids s)\<rparr>))"

lemma balanced_newUUID [balancing]: "uuidOk Q \<Longrightarrow> balanced Q (newUUID env)"
  unfolding balanced_def by (intro allI keeps_newUUID) (simp add: uuidOk_def holding_def leasesOk_def)

text \<open>What the clock shows is not later than the clock.\<close>

lemma balanced_getNow_then:
  assumes "filesOnly Q" "\<And>now. balanced (\<lambda>s. now \<le> w_now s \<and> Q s) (f now)"
  shows "balanced Q (bnd getNow f)"
  unfolding balanced_def keeps_def sat_bnd
proof (intro allI impI)
  fix H s
  assume s: "holding H s \<and> Q s"
  obtain now s1 where r: "getNow s = (Inr now, s1)" "now = w_now s" "w_now s \<le> w_now s1"
    by (auto simp: getNow_def split: list.split)
  have s1: "holding H s1 \<and> Q s1"
    using balanced_out [OF balanced_getNow [OF assms(1)] _ _ r(1), of H] s by simp
  have "sat (f now) (\<lambda>_ s. holding H s \<and> now \<le> w_now s \<and> Q s) s1"
    using balancedD [OF assms(2), of H s1 now] s1 r by simp
  then have "sat (f now) (\<lambda>_ s. holding H s \<and> Q s) s1"
    by (rule sat_mono) simp
  with r(1) show "sat getNow (\<lambda>r s'. case r of Inl e \<Rightarrow> holding H s' \<and> Q s'
      | Inr x \<Rightarrow> sat (f x) (\<lambda>_ s. holding H s \<and> Q s) s') s"
    by (simp add: sat_def [of getNow])
qed

lemma balanced_wrapping [balancing]: "balanced Q m \<Longrightarrow> balanced Q (wrapping t m)"
  unfolding wrapping_def by (intro balancing)

lemma balanced_syncDirectory [balancing]: "filesOnly Q \<Longrightarrow> balanced Q syncDirectory"
  unfolding syncDirectory_def by (intro balancing)

lemma balanced_readFile [balancing]: "filesOnly Q \<Longrightarrow> balanced Q (readFile d f n)"
  by (rule balanced_keeps) (simp_all add: keeps_readFile)

lemma balanced_readState [balancing]: "filesOnly Q \<Longrightarrow> balanced Q (readState env n)"
  by (rule balanced_keeps) (simp_all add: keeps_readState)

lemma balanced_removeTemp [balancing]: "filesOnly Q \<Longrightarrow> balanced Q (removeTemp t)"
  by (rule balanced_keeps) (simp_all add: keeps_removeTemp)

lemma balanced_withLease [balancing]: "filesOnly Q \<Longrightarrow> balanced Q m \<Longrightarrow> balanced Q (withLease l m)"
  unfolding balanced_def by (intro allI keeps_withLease) auto

text \<open>The five directory fields, and predicates that do not look at one of them.\<close>

definition dirOk :: "'a dirField \<Rightarrow> bool" where
  "dirOk d = ((\<forall>f s. fst d (snd d f s) = f (fst d s)) \<and> (\<forall>f s. w_held (snd d f s) = w_held s)
     \<and> (\<forall>f s. w_nextHandle (snd d f s) = w_nextHandle s))"

lemma dirs_ok [simp]: "dirOk stateDir" "dirOk pendingDir" "dirOk pendingToolDir" "dirOk completedDir" "dirOk completedToolDir"
  by (simp_all add: dirOk_def stateDir_def pendingDir_def pendingToolDir_def completedDir_def completedToolDir_def)

lemma holding_dir: "dirOk d \<Longrightarrow> holding H (snd d f s) = holding H s"
  by (simp add: dirOk_def holding_def leasesOk_def)

definition ignores :: "'a dirField \<Rightarrow> (world \<Rightarrow> bool) \<Rightarrow> bool" where
  "ignores d Q = (\<forall>f s. Q s \<longrightarrow> Q (snd d f s))"

text \<open>\<open>untouched d name Q\<close>: \<open>Q\<close> survives a change of the one file \<open>name\<close>.\<close>

definition untouched :: "'a dirField \<Rightarrow> string \<Rightarrow> (world \<Rightarrow> bool) \<Rightarrow> bool" where
  "untouched d name Q = (\<forall>s. Q s \<longrightarrow> Q (snd d (AList.delete name) s) \<and> (\<forall>x. Q (snd d (AList.update name (Stored x)) s)))"

lemma ignores_untouched [simp]: "ignores d Q \<Longrightarrow> untouched d name Q"
  by (simp add: ignores_def untouched_def)

text \<open>\<open>prunable d name Q\<close>: \<open>Q\<close> survives the removal of the file; \<open>shrinks d Q\<close>: of any file.\<close>

definition prunable :: "'a dirField \<Rightarrow> string \<Rightarrow> (world \<Rightarrow> bool) \<Rightarrow> bool" where
  "prunable d name Q = (\<forall>s. Q s \<longrightarrow> Q (snd d (AList.delete name) s))"

definition shrinks :: "'a dirField \<Rightarrow> (world \<Rightarrow> bool) \<Rightarrow> bool" where
  "shrinks d Q = (\<forall>name. prunable d name Q)"

lemma prunable_simps [simp]:
  "untouched d name Q \<Longrightarrow> prunable d name Q" "shrinks d Q \<Longrightarrow> prunable d name Q" "ignores d Q \<Longrightarrow> shrinks d Q"
  by (simp_all add: prunable_def shrinks_def untouched_def ignores_def)

lemma balanced_removeFile [balancing]:
  assumes "filesOnly Q" "dirOk d" "prunable d name Q"
  shows "balanced Q (removeFile d name)"
  unfolding balanced_def
  by (intro allI keeps_removeFile blind_holding_files) (use assms in \<open>auto simp: holding_dir prunable_def\<close>)

lemma balanced_removeIfPresent [balancing]:
  assumes "filesOnly Q" "dirOk d" "prunable d name Q"
  shows "balanced Q (removeIfPresent d name)"
  unfolding removeIfPresent_def by (intro balancing assms)

lemma balanced_writeFileAtomic [balancing]:
  assumes "filesOnly Q" "dirOk d" "untouched d name Q"
  shows "balanced Q (writeFileAtomic d dd label name x)"
  unfolding balanced_def
  by (intro allI keeps_writeFileAtomic blind_holding_files) (use assms in \<open>auto simp: holding_dir untouched_def\<close>)

lemma filesOnly_conj: "filesOnly P \<Longrightarrow> filesOnly Q \<Longrightarrow> filesOnly (\<lambda>s. P s \<and> Q s)"
  by (simp add: filesOnly_def blind_def)

lemma filesOnly_clock [simp]: "filesOnly (\<lambda>s. t \<le> w_now s)" "filesOnly (\<lambda>s. n \<le> w_uuids s)"
  by (auto simp: filesOnly_def blind_def)

lemma filesOnly_dir [simp]:
  "filesOnly (\<lambda>s. P (w_states s))" "filesOnly (\<lambda>s. P' (w_pending s))" "filesOnly (\<lambda>s. P2 (w_pendingTool s))"
  "filesOnly (\<lambda>s. P3 (w_completed s))" "filesOnly (\<lambda>s. P4 (w_completedTool s))"
  by (simp_all add: filesOnly_def blind_def)

lemma ignores_states [simp]:
  "ignores pendingDir (\<lambda>s. P (w_states s))" "ignores pendingToolDir (\<lambda>s. P (w_states s))"
  "ignores completedDir (\<lambda>s. P (w_states s))" "ignores completedToolDir (\<lambda>s. P (w_states s))"
  by (simp_all add: ignores_def pendingDir_def pendingToolDir_def completedDir_def completedToolDir_def)

lemma ignores_completed [simp]:
  "ignores stateDir (\<lambda>s. P (w_completed s))" "ignores pendingDir (\<lambda>s. P (w_completed s))"
  "ignores pendingToolDir (\<lambda>s. P (w_completed s))" "ignores completedToolDir (\<lambda>s. P (w_completed s))"
  by (simp_all add: ignores_def stateDir_def pendingDir_def pendingToolDir_def completedToolDir_def)

lemma ignores_pending [simp]:
  "ignores stateDir (\<lambda>s. P (w_pending s))" "ignores pendingToolDir (\<lambda>s. P (w_pending s))"
  "ignores completedDir (\<lambda>s. P (w_pending s))" "ignores completedToolDir (\<lambda>s. P (w_pending s))"
  by (simp_all add: ignores_def stateDir_def pendingToolDir_def completedDir_def completedToolDir_def)

lemma ignores_True [simp]: "ignores d (\<lambda>s. True)"
  by (simp add: ignores_def)

lemma untouched_lookup: "dirOk d \<Longrightarrow> n \<noteq> name \<Longrightarrow> untouched d name (\<lambda>s. P (lookupFile d n s))"
  by (simp add: untouched_def dirOk_def lookupFile_def)

section \<open>Operations that give a lease back\<close>

text \<open>\<open>gives Q l h m\<close>: started with the handle \<open>h\<close> on \<open>l\<close>, the operation ends without it.\<close>

named_theorems giving \<open>introduction rules for gives\<close>

definition gives :: "(world \<Rightarrow> bool) \<Rightarrow> lock \<Rightarrow> nat \<Rightarrow> 'a st \<Rightarrow> bool" where
  "gives Q l h m = (\<forall>H s. holding ((h, l) # H) s \<and> Q s \<longrightarrow> sat m (\<lambda>_ s. holding H s \<and> Q s) s)"

lemma givesI:
  "(\<And>H s. holding ((h, l) # H) s \<Longrightarrow> Q s \<Longrightarrow> sat m (\<lambda>_ s. holding H s \<and> Q s) s) \<Longrightarrow> gives Q l h m"
  by (simp add: gives_def)

lemma givesD: "gives Q l h m \<Longrightarrow> holding ((h, l) # H) s \<Longrightarrow> Q s \<Longrightarrow> sat m (\<lambda>_ s. holding H s \<and> Q s) s"
  by (simp add: gives_def)

lemma gives_release [giving]: "filesOnly Q \<Longrightarrow> gives Q l h (releaseHandle h)"
  by (rule givesI) (rule sat_releaseHandle)

lemma gives_before:
  assumes "balanced Q m" and "\<And>x. gives Q l h (f x)"
  shows "gives Q l h (bnd (attempt m) f)"
proof (rule givesI)
  fix H s
  assume "holding ((h, l) # H) s" "Q s"
  from balancedD [OF assms(1) this]
  show "sat (bnd (attempt m) f) (\<lambda>_ s. holding H s \<and> Q s) s"
    unfolding sat_bnd sat_attempt by (rule sat_mono) (simp add: givesD [OF assms(2)])
qed

lemma gives_after:
  assumes "gives Q l h m" and "\<And>x. balanced Q (f x)"
  shows "gives Q l h (bnd (attempt m) f)"
proof (rule givesI)
  fix H s
  assume "holding ((h, l) # H) s" "Q s"
  from givesD [OF assms(1) this]
  show "sat (bnd (attempt m) f) (\<lambda>_ s. holding H s \<and> Q s) s"
    unfolding sat_bnd sat_attempt by (rule sat_mono) (simp add: balancedD [OF assms(2)])
qed

lemma gives_if [giving]: "(b \<Longrightarrow> gives Q l h m) \<Longrightarrow> (\<not> b \<Longrightarrow> gives Q l h n) \<Longrightarrow> gives Q l h (if b then m else n)"
  by simp

lemma gives_case_sum [giving]:
  "(\<And>e. r = Inl e \<Longrightarrow> gives Q l h (f e)) \<Longrightarrow> (\<And>x. r = Inr x \<Longrightarrow> gives Q l h (g x)) \<Longrightarrow>
     gives Q l h (case r of Inl e \<Rightarrow> f e | Inr x \<Rightarrow> g x)"
  by (simp split: sum.split)

lemma gives_ensuring [giving]:
  assumes "filesOnly Q" "balanced Q m"
  shows "gives Q l h (ensuring m (releaseHandle h))"
proof (rule givesI)
  fix H s
  assume "holding ((h, l) # H) s" "Q s"
  from balancedD [OF assms(2) this]
  show "sat (ensuring m (releaseHandle h)) (\<lambda>_ s. holding H s \<and> Q s) s"
    unfolding sat_ensuring by (rule sat_mono) (auto intro: sat_releaseHandle [OF assms(1)])
qed

lemma balanced_attempt_lease:
  assumes "filesOnly Q" "\<And>e. balanced Q (f (Inl e))" "\<And>h. gives Q l h (f (Inr h))"
    and acq: "\<And>H s. holding H s \<Longrightarrow> Q s \<Longrightarrow> sat acquire (acquired H Q l) s"
  shows "balanced Q (bnd (attempt acquire) f)"
  unfolding balanced_def keeps_def sat_bnd sat_attempt
proof (intro allI impI, elim conjE)
  fix H s
  assume "holding H s" "Q s"
  from acq [OF this] show "sat acquire (\<lambda>r s'. case Inr r of Inl e \<Rightarrow> holding H s' \<and> Q s'
      | Inr x \<Rightarrow> sat (f x) (\<lambda>_ s. holding H s \<and> Q s) s') s"
  proof (rule sat_mono)
    fix r s'
    assume "acquired H Q l r s'"
    then show "case Inr r of Inl e \<Rightarrow> holding H s' \<and> Q s'
      | Inr x \<Rightarrow> sat (f x) (\<lambda>_ s. holding H s \<and> Q s) s'"
      using assms(2) [THEN balancedD, of H s'] assms(3)
      by (cases r) (auto simp: acquired_def gives_def)
  qed
qed

lemma balanced_attempt_index_lease:
  "filesOnly Q \<Longrightarrow> (\<And>e. balanced Q (f (Inl e))) \<Longrightarrow> (\<And>h. gives Q l h (f (Inr h))) \<Longrightarrow>
     balanced Q (bnd (attempt (acquirePendingIndexLease l)) f)"
  unfolding acquirePendingIndexLease_def by (rule balanced_attempt_lease) (auto intro: sat_acquireRetry)

lemma balanced_attempt_state_lease:
  "filesOnly Q \<Longrightarrow> (\<And>e. balanced Q (f (Inl e))) \<Longrightarrow> (\<And>h. gives Q l h (f (Inr h))) \<Longrightarrow>
     balanced Q (bnd (attempt (acquireLease l)) f)"
  by (rule balanced_attempt_lease) (auto intro: sat_acquireLease)

lemma bnd_as_attempt:
  "bnd m f = bnd (attempt m) (\<lambda>r. case r of Inl e \<Rightarrow> raise e | Inr x \<Rightarrow> f x)"
  by (rule ext) (simp add: bnd_def attempt_def raise_def split: prod.split sum.split)

lemma balanced_state_lease:
  "filesOnly Q \<Longrightarrow> (\<And>h. gives Q l h (f h)) \<Longrightarrow> balanced Q (bnd (acquireLease l) f)"
  unfolding bnd_as_attempt [of "acquireLease l"]
  by (rule balanced_attempt_state_lease) (auto intro: balancing)

end
