(* ===== verification/PendingIndex.thy ===== *)
theory PendingIndex
  imports StoreBase
begin

text \<open>
  The pending index of the file state store (\<open>state.go\<close>): which sessions wait for the results of a
  batch of tool calls.  An index entry belongs to a credential and a batch and lists session ids; a
  pointer belongs to a credential and one tool call and names its batch, so that a batch can be found
  again inside a larger submission.  Entry and pointer are found under a digest of their identity and
  carry the identity, which every operation on an entry checks again.

  The store's directories are those \<open>newFileStateStore\<close> creates, so the guards of the code against an
  empty directory name are not modelled.
\<close>

section \<open>Names\<close>

definition batchMaterial :: "string \<Rightarrow> string list \<Rightarrow> string" where
  "batchMaterial fp batchIDs = trimSpace fp @ NUL @ join NUL (normalizeToolIDs batchIDs)"

definition pendingIndexName :: "storeEnv \<Rightarrow> string \<Rightarrow> string list \<Rightarrow> string" where
  "pendingIndexName env fp batchIDs = se_sha env (batchMaterial fp batchIDs)"

definition pendingToolPointerName :: "storeEnv \<Rightarrow> string \<Rightarrow> string \<Rightarrow> string" where
  "pendingToolPointerName env fp toolCallID =
     se_sha env (trimSpace fp @ NUL @ ''tool'' @ NUL @ trimSpace toolCallID)"

section \<open>Pointers\<close>

definition writeToolBatchPointerAt ::
  "toolBatchPointer dirField \<Rightarrow> dir \<Rightarrow> string \<Rightarrow> toolBatchPointer \<Rightarrow> unit st" where
  "writeToolBatchPointerAt d dd name pointer = withLease (dd, name)
     (writeFileAtomic d dd plainError name
        (pointer\<lparr>tp_Version := stateVersion, tp_BatchIDs := normalizeToolIDs (tp_BatchIDs pointer)\<rparr>))"

definition decodeToolIndex :: "err \<Rightarrow> err" where
  "decodeToolIndex = Wrap ''decode Cursor Agent v1 tool index: %w''"

definition readToolBatchPointer :: "toolBatchPointer dirField \<Rightarrow> dir \<Rightarrow> string \<Rightarrow> toolBatchPointer st" where
  "readToolBatchPointer d dd name = withLease (dd, name)
     (bnd (readFile d decodeToolIndex name) (\<lambda>pointer.
      bnd (lift (migrateRecordVersion (tp_Version pointer))) (\<lambda>version.
      ret (pointer\<lparr>tp_Version := version, tp_BatchIDs := normalizeToolIDs (tp_BatchIDs pointer)\<rparr>))))"

text \<open>\<open>if errors.Is(err, ErrStateLeaseHeld) { return nil }\<close> after acquiring.\<close>

definition withLeaseOrSkip :: "lock \<Rightarrow> unit st \<Rightarrow> unit st" where
  "withLeaseOrSkip l m = bnd (attempt (acquirePendingIndexLease l)) (\<lambda>r. case r of
     Inl e \<Rightarrow> if errIs e ErrStateLeaseHeld then ret () else raise e
   | Inr h \<Rightarrow> ensuring m (releaseHandle h))"

definition removeToolBatchPointer ::
  "toolBatchPointer dirField \<Rightarrow> dir \<Rightarrow> string \<Rightarrow> string \<Rightarrow> string \<Rightarrow> string list \<Rightarrow> unit st" where
  "removeToolBatchPointer d dd name fp toolCallID batchIDs = withLeaseOrSkip (dd, name)
     (bnd (attempt (readFile d decodeToolIndex name)) (\<lambda>r. case r of
        Inl e \<Rightarrow> if errIs e ErrNotExist then ret () else raise e
      | Inr pointer \<Rightarrow>
          if tp_CredentialFingerprint pointer \<noteq> fp \<or> tp_ToolCallID pointer \<noteq> toolCallID
             \<or> normalizeToolIDs (tp_BatchIDs pointer) \<noteq> normalizeToolIDs batchIDs
          then ret () else removeFile d name))"

definition pointerFor :: "string \<Rightarrow> string list \<Rightarrow> int \<Rightarrow> string \<Rightarrow> toolBatchPointer" where
  "pointerFor fp batchIDs now i = \<lparr>tp_Version = stateVersion, tp_CredentialFingerprint = fp, tp_ToolCallID = i,
     tp_BatchIDs = normalizeToolIDs batchIDs, tp_UpdatedAt = Some now\<rparr>"

definition writePendingToolPointers :: "storeEnv \<Rightarrow> string \<Rightarrow> string list \<Rightarrow> unit st" where
  "writePendingToolPointers env fp batchIDs = bnd sys (\<lambda>_. bnd getNow (\<lambda>now.
     forE (normalizeToolIDs batchIDs) (\<lambda>i. writeToolBatchPointerAt pendingToolDir DirPendingTool
       (pendingToolPointerName env fp i) (pointerFor fp batchIDs now i))))"

definition removePendingToolPointers :: "storeEnv \<Rightarrow> string \<Rightarrow> string list \<Rightarrow> unit st" where
  "removePendingToolPointers env fp batchIDs =
     (let normalized = normalizeToolIDs batchIDs in
      forE normalized (\<lambda>i. removeToolBatchPointer pendingToolDir DirPendingTool
        (pendingToolPointerName env fp i) fp i normalized))"

definition readPendingToolPointer :: "storeEnv \<Rightarrow> string \<Rightarrow> string \<Rightarrow> toolBatchPointer st" where
  "readPendingToolPointer env fp i =
     readToolBatchPointer pendingToolDir DirPendingTool (pendingToolPointerName env fp i)"

section \<open>Index entries\<close>

definition readPendingIndex :: "string \<Rightarrow> pendingIndex st" where
  "readPendingIndex name =
     bnd (readFile pendingDir (Wrap ''decode Cursor Agent v1 pending index: %w'') name) (\<lambda>index.
     bnd (lift (migrateRecordVersion (pi_Version index))) (\<lambda>version.
     ret (index\<lparr>pi_Version := version, pi_BatchIDs := normalizeToolIDs (pi_BatchIDs index)\<rparr>)))"

definition freshIndex :: "string \<Rightarrow> string list \<Rightarrow> pendingIndex" where
  "freshIndex fp batchIDs = \<lparr>pi_Version = stateVersion, pi_CredentialFingerprint = fp,
     pi_BatchIDs = normalizeToolIDs batchIDs, pi_SessionIDs = [], pi_UpdatedAt = None\<rparr>"

definition writePendingIndexAtomic :: "string \<Rightarrow> pendingIndex \<Rightarrow> unit st" where
  "writePendingIndexAtomic name index = writeFileAtomic pendingDir DirPending plainError name index"

text \<open>The session set after adding or removing a session, sorted.\<close>

definition mutateSessions :: "string \<Rightarrow> bool \<Rightarrow> string list \<Rightarrow> string list" where
  "mutateSessions sessionID add sessions =
     sort (remdups (filter (\<lambda>x. x \<noteq> sessionID) sessions @ (if add then [sessionID] else [])))"

definition storeIndex :: "storeEnv \<Rightarrow> string \<Rightarrow> string list \<Rightarrow> bool \<Rightarrow> pendingIndex \<Rightarrow> unit st" where
  "storeIndex env fp batchIDs add index =
     (let name = pendingIndexName env fp batchIDs in
      if pi_SessionIDs index = [] then
        bnd (removeIfPresent pendingDir name) (\<lambda>_. removePendingToolPointers env fp batchIDs)
      else bnd (if add then writePendingToolPointers env fp batchIDs else ret ()) (\<lambda>_.
        if length (pi_SessionIDs index) > se_maxFiles env
        then raise (Errorf ''Cursor Agent v1 pending index exceeds %d sessions'' [N (int (se_maxFiles env))])
        else bnd getNow (\<lambda>now.
          writePendingIndexAtomic name (index\<lparr>pi_UpdatedAt := Some now\<rparr>))))"

definition mutatePendingIndex :: "storeEnv \<Rightarrow> string \<Rightarrow> string list \<Rightarrow> string \<Rightarrow> bool \<Rightarrow> unit st" where
  "mutatePendingIndex env fp batchIDs sessionID add =
     (let name = pendingIndexName env fp batchIDs in
      withLease (DirPending, name)
        (bnd (attempt (readPendingIndex name)) (\<lambda>r.
         bnd (case r of Inr index \<Rightarrow> ret index
            | Inl e \<Rightarrow> if errIs e ErrNotExist then ret (freshIndex fp batchIDs) else raise e) (\<lambda>index.
         if pi_CredentialFingerprint index \<noteq> fp \<or> pi_BatchIDs index \<noteq> normalizeToolIDs batchIDs
         then raise (Errorf ''Cursor Agent v1 pending index identity mismatch'' [])
         else storeIndex env fp batchIDs add
           (index\<lparr>pi_SessionIDs := mutateSessions sessionID add (pi_SessionIDs index)\<rparr>)))))"

definition syncPendingIndex ::
  "storeEnv \<Rightarrow> string \<Rightarrow> string \<Rightarrow> string list \<Rightarrow> string list \<Rightarrow> unit st" where
  "syncPendingIndex env fp sessionID previousBatch nextBatch =
     (let previous = normalizeToolIDs previousBatch; next = normalizeToolIDs nextBatch in
      bnd (if previous \<noteq> [] \<and> previous \<noteq> next then mutatePendingIndex env fp previous sessionID False
           else ret ()) (\<lambda>_.
      if next \<noteq> [] then mutatePendingIndex env fp next sessionID True else ret ()))"

section \<open>Finding the batch of a submission\<close>

primrec coveringLoop ::
  "storeEnv \<Rightarrow> string \<Rightarrow> string list \<Rightarrow> string list \<Rightarrow> string list \<Rightarrow> string list st" where
  "coveringLoop env fp submitted [] candidate = ret candidate"
| "coveringLoop env fp submitted (i # is) candidate =
     bnd (attempt (readPendingToolPointer env fp i)) (\<lambda>r. case r of
       Inl e \<Rightarrow> if errIs e ErrNotExist then coveringLoop env fp submitted is candidate else raise e
     | Inr pointer \<Rightarrow>
         if tp_CredentialFingerprint pointer \<noteq> fp \<or> \<not> batchSubsetOf (tp_BatchIDs pointer) submitted
         then coveringLoop env fp submitted is candidate
         else if candidate = [] then coveringLoop env fp submitted is (tp_BatchIDs pointer)
         else if candidate \<noteq> tp_BatchIDs pointer then raise ErrPendingAmbiguous
         else coveringLoop env fp submitted is candidate)"

definition pendingCoveringBatch :: "storeEnv \<Rightarrow> string \<Rightarrow> string list \<Rightarrow> string list st" where
  "pendingCoveringBatch env fp submittedIDs =
     coveringLoop env fp submittedIDs (normalizeToolIDs submittedIDs) []"

definition OriginalPendingBatch :: "storeEnv \<Rightarrow> string \<Rightarrow> string list \<Rightarrow> string list st" where
  "OriginalPendingBatch env fp toolCallIDs =
     (let submitted = normalizeToolIDs toolCallIDs in
      if submitted = [] then raise ErrSessionNotPending
      else bnd (pendingCoveringBatch env fp submitted) (\<lambda>covering.
        ret (if covering = [] then submitted else covering)))"

section \<open>Resolving a batch to its session\<close>

definition pendingState :: "string \<Rightarrow> string list \<Rightarrow> StateSnapshot \<Rightarrow> bool" where
  "pendingState fp batchIDs st =
     (st_CredentialFingerprint st = fp \<and> st_PendingTools st \<noteq> []
      \<and> normalizeToolIDs (if st_PendingBatchIDs st = [] then pendingToolIDs (st_PendingTools st)
                          else st_PendingBatchIDs st) = batchIDs)"

primrec matchSessions :: "storeEnv \<Rightarrow> string \<Rightarrow> string list \<Rightarrow> string list \<Rightarrow> string list st" where
  "matchSessions env fp batchIDs [] = ret []"
| "matchSessions env fp batchIDs (sessionID # ids) =
     bnd (attempt (readState env (statePath env sessionID))) (\<lambda>r. case r of
       Inl e \<Rightarrow> if errIs e ErrNotExist then matchSessions env fp batchIDs ids else raise e
     | Inr st \<Rightarrow>
         if \<not> pendingState fp batchIDs st then matchSessions env fp batchIDs ids
         else bnd (matchSessions env fp batchIDs ids) (\<lambda>matches. ret (st_SessionID st # matches)))"

definition resolvePendingExact :: "storeEnv \<Rightarrow> string \<Rightarrow> string list \<Rightarrow> string st" where
  "resolvePendingExact env fp batchIDs =
     bnd (attempt (readPendingIndex (pendingIndexName env fp batchIDs))) (\<lambda>r. case r of
       Inl e \<Rightarrow> if errIs e ErrNotExist then raise ErrSessionNotPending else raise e
     | Inr index \<Rightarrow>
         if pi_CredentialFingerprint index \<noteq> fp \<or> pi_BatchIDs index \<noteq> batchIDs \<or> pi_SessionIDs index = []
         then raise ErrSessionNotPending
         else bnd (matchSessions env fp batchIDs (pi_SessionIDs index)) (\<lambda>matches.
           bnd (forE (filter (\<lambda>i. i \<notin> set matches) (pi_SessionIDs index))
                  (\<lambda>i. mutatePendingIndex env fp batchIDs i False)) (\<lambda>_.
           case matches of
             [] \<Rightarrow> raise ErrSessionNotPending
           | [sessionID] \<Rightarrow> ret sessionID
           | _ \<Rightarrow> raise ErrPendingAmbiguous)))"

text \<open>The entries of the directory of states, as \<open>os.ReadDir\<close> lists them: sorted by name.\<close>

definition rebuildPendingIndex :: "storeEnv \<Rightarrow> unit st" where
  "rebuildPendingIndex env = bnd sys (\<lambda>_. bnd sys (\<lambda>_.
     bnd (gets (\<lambda>s. sort (map fst (w_states s)))) (\<lambda>names.
     forE names (\<lambda>name. bnd (readState env name) (\<lambda>st.
       if st_PendingTools st = [] then ret ()
       else syncPendingIndex env (st_CredentialFingerprint st) (st_SessionID st) []
              (if st_PendingBatchIDs st = [] then pendingToolIDs (st_PendingTools st)
               else st_PendingBatchIDs st))))))"

section \<open>Every operation is balanced\<close>

lemma balanced_withLeaseOrSkip [balancing]:
  assumes "filesOnly Q" "balanced Q m"
  shows "balanced Q (withLeaseOrSkip l m)"
  unfolding balanced_def keeps_def withLeaseOrSkip_def acquirePendingIndexLease_def sat_bnd sat_attempt
proof (intro allI impI)
  fix H s
  assume s: "holding H s \<and> Q s"
  show "sat (acquireRetry leaseAttempts l ErrStateLeaseHeld)
      (\<lambda>r s'. case Inr r of Inl e \<Rightarrow> holding H s' \<and> Q s'
        | Inr x \<Rightarrow> sat (case x of Inl e \<Rightarrow> if errIs e ErrStateLeaseHeld then ret () else raise e
             | Inr h \<Rightarrow> ensuring m (releaseHandle h)) (\<lambda>_ s. holding H s \<and> Q s) s') s"
  proof (rule sat_mono [OF sat_acquireRetry])
    fix r s'
    assume a: "acquired H Q l r s'"
    show "case Inr r of Inl e \<Rightarrow> holding H s' \<and> Q s'
        | Inr x \<Rightarrow> sat (case x of Inl e \<Rightarrow> if errIs e ErrStateLeaseHeld then ret () else raise e
             | Inr h \<Rightarrow> ensuring m (releaseHandle h)) (\<lambda>_ s. holding H s \<and> Q s) s'"
    proof (cases r)
      case (Inl e)
      with a show ?thesis by (simp add: acquired_def wp)
    next
      case (Inr h)
      then have "sat m (\<lambda>_ s. holding ((h, l) # H) s \<and> Q s) s'"
        using a assms(2) by (auto simp: acquired_def intro: balancedD)
      then have "sat m (\<lambda>r s1. sat (releaseHandle h) (\<lambda>_ s2. holding H s2 \<and> Q s2) s1) s'"
        by (rule sat_mono) (auto intro: sat_releaseHandle assms(1))
      with Inr show ?thesis by (simp add: sat_ensuring)
    qed
  qed (use s assms(1) in auto)
qed

lemma balanced_writePointer [balancing]:
  "filesOnly Q \<Longrightarrow> dirOk d \<Longrightarrow> untouched d name Q \<Longrightarrow> balanced Q (writeToolBatchPointerAt d dd name p)"
  unfolding writeToolBatchPointerAt_def by (intro balancing)

lemma balanced_readPointer [balancing]: "filesOnly Q \<Longrightarrow> balanced Q (readToolBatchPointer d dd name)"
  unfolding readToolBatchPointer_def by (intro balancing)

lemma balanced_removePointer [balancing]:
  "filesOnly Q \<Longrightarrow> dirOk d \<Longrightarrow> untouched d name Q \<Longrightarrow> balanced Q (removeToolBatchPointer d dd name fp i ids)"
  unfolding removeToolBatchPointer_def by (intro balancing) simp_all

lemma balanced_writePendingPointers [balancing]:
  "filesOnly Q \<Longrightarrow> ignores pendingToolDir Q \<Longrightarrow> balanced Q (writePendingToolPointers env fp ids)"
  unfolding writePendingToolPointers_def by (intro balancing) simp_all

lemma balanced_removePendingPointers [balancing]:
  "filesOnly Q \<Longrightarrow> ignores pendingToolDir Q \<Longrightarrow> balanced Q (removePendingToolPointers env fp ids)"
  unfolding removePendingToolPointers_def Let_def by (intro balancing) simp_all

lemma balanced_readPendingIndex [balancing]: "filesOnly Q \<Longrightarrow> balanced Q (readPendingIndex name)"
  unfolding readPendingIndex_def by (intro balancing)

lemma balanced_storeIndex [balancing]:
  "filesOnly Q \<Longrightarrow> ignores pendingToolDir Q \<Longrightarrow> untouched pendingDir (pendingIndexName env fp ids) Q \<Longrightarrow>
     balanced Q (storeIndex env fp ids add index)"
  unfolding storeIndex_def Let_def writePendingIndexAtomic_def by (intro balancing) simp_all

lemma balanced_mutate [balancing]:
  "filesOnly Q \<Longrightarrow> ignores pendingToolDir Q \<Longrightarrow> untouched pendingDir (pendingIndexName env fp ids) Q \<Longrightarrow>
     balanced Q (mutatePendingIndex env fp ids i add)"
  unfolding mutatePendingIndex_def Let_def by (intro balancing)

lemma balanced_sync [balancing]:
  "filesOnly Q \<Longrightarrow> ignores pendingToolDir Q \<Longrightarrow> ignores pendingDir Q \<Longrightarrow>
     balanced Q (syncPendingIndex env fp i prev next)"
  unfolding syncPendingIndex_def Let_def by (intro balancing ignores_untouched)

lemma balanced_coveringLoop [balancing]: "filesOnly Q \<Longrightarrow> balanced Q (coveringLoop env fp sub ids c)"
  unfolding readPendingToolPointer_def
  by (induction ids arbitrary: c) (auto simp: readPendingToolPointer_def intro!: balancing)

lemma balanced_covering [balancing]: "filesOnly Q \<Longrightarrow> balanced Q (pendingCoveringBatch env fp sub)"
  unfolding pendingCoveringBatch_def by (intro balancing)

lemma balanced_OriginalPendingBatch [balancing]: "filesOnly Q \<Longrightarrow> balanced Q (OriginalPendingBatch env fp ids)"
  unfolding OriginalPendingBatch_def Let_def by (intro balancing)

lemma balanced_matchSessions [balancing]: "filesOnly Q \<Longrightarrow> balanced Q (matchSessions env fp batch ids)"
  by (induction ids) (auto intro!: balancing)

lemma balanced_resolveExact [balancing]:
  "filesOnly Q \<Longrightarrow> ignores pendingToolDir Q \<Longrightarrow> ignores pendingDir Q \<Longrightarrow>
     balanced Q (resolvePendingExact env fp batch)"
  unfolding resolvePendingExact_def by (intro balancing ignores_untouched)

lemma balanced_rebuildPending [balancing]:
  "filesOnly Q \<Longrightarrow> ignores pendingToolDir Q \<Longrightarrow> ignores pendingDir Q \<Longrightarrow> balanced Q (rebuildPendingIndex env)"
  unfolding rebuildPendingIndex_def by (intro balancing)

end
