(* ===== verification/Completed.thy ===== *)
theory Completed
  imports PendingIndex
begin

text \<open>
  Completed snapshots (\<open>completed_state.go\<close>, \<open>completed_request.go\<close>): when a generation ends, its
  events are stored under the identity of the tool results (and follow-up text) or of the history request
  that caused it, so that a client that retries is answered from the snapshot and not by a second run.
\<close>

section \<open>Names\<close>

definition completedIndexName :: "storeEnv \<Rightarrow> string \<Rightarrow> string list \<Rightarrow> string \<Rightarrow> string" where
  "completedIndexName env fp batchIDs followUp =
     (let material = batchMaterial fp batchIDs; text = normalizeFollowUp followUp in
      se_sha env (if text \<noteq> [] then material @ NUL @ text else material))"

definition completedToolPointerName :: "storeEnv \<Rightarrow> string \<Rightarrow> string \<Rightarrow> string" where
  "completedToolPointerName env fp toolCallID =
     se_sha env (trimSpace fp @ NUL @ ''completed-tool'' @ NUL @ trimSpace toolCallID)"

definition requestCompletedName :: "storeEnv \<Rightarrow> string \<Rightarrow> string \<Rightarrow> string" where
  "requestCompletedName env fp key = se_sha env (''history-request'' @ NUL @ fp @ NUL @ key)"

section \<open>Records\<close>

record OwnerLease =
  ol_RequestSegmentID :: string
  ol_SessionID :: string
  ol_Generation :: "64 word"
  ol_Token :: string
  ol_CredentialHash :: string
  ol_ConversationID :: string
  ol_BillingRunID :: string
  ol_handle :: "nat option"

record CompletedReplay =
  rp_RequestSegmentID :: string
  rp_SessionID :: string
  rp_ConversationID :: string
  rp_BillingRunID :: string
  rp_OriginalBatch :: "string list"
  rp_Events :: "Event list"
  rp_HasPending :: bool
  rp_FollowUpText :: string

definition newCompletedTombstone ::
  "storeEnv \<Rightarrow> OwnerLease \<Rightarrow> ToolResult list \<Rightarrow> Event list \<Rightarrow> bool \<Rightarrow> string \<Rightarrow> int \<Rightarrow> completedTombstone res" where
  "newCompletedTombstone env owner results events ephemeral followUp now =
     (case canonicalToolResults results of Inl e \<Rightarrow> Inl e
      | Inr canonical \<Rightarrow> (case persistEvents (se_body env) (se_rest env) events of Inl e \<Rightarrow> Inl e
        | Inr persisted \<Rightarrow> Inr \<lparr>ct_RequestKey = [], ct_RequestSegmentID = ol_RequestSegmentID owner,
            ct_Version = stateVersion, ct_CredentialFingerprint = ol_CredentialHash owner,
            ct_BatchIDs = completedBatchIDs canonical,
            ct_ResultDigest = toolResultDigest (se_sha env) canonical, ct_Results = canonical,
            ct_Events = persisted, ct_BillingRunID = ol_BillingRunID owner, ct_SessionID = ol_SessionID owner,
            ct_ConversationID = ol_ConversationID owner, ct_HasPending = False,
            ct_FollowUpText = trimSpace followUp, ct_Ephemeral = ephemeral, ct_UpdatedAt = Some now\<rparr>))"

section \<open>Reading and writing a snapshot\<close>

definition readCompletedTombstoneFile :: "string \<Rightarrow> completedTombstone st" where
  "readCompletedTombstoneFile name =
     bnd (readFile completedDir (Wrap ''decode Cursor Agent v1 completed snapshot: %w'') name) (\<lambda>t.
     bnd (lift (migrateRecordVersion (ct_Version t))) (\<lambda>version.
     ret (t\<lparr>ct_Version := version, ct_BatchIDs := normalizeToolIDs (ct_BatchIDs t)\<rparr>)))"

definition writeCompletedTombstoneAtomic :: "string \<Rightarrow> completedTombstone \<Rightarrow> unit st" where
  "writeCompletedTombstoneAtomic name t = writeFileAtomic completedDir DirCompleted plainError name t"

definition writeCompletedToolPointers :: "storeEnv \<Rightarrow> string \<Rightarrow> string list \<Rightarrow> unit st" where
  "writeCompletedToolPointers env fp batchIDs = bnd sys (\<lambda>_. bnd getNow (\<lambda>now.
     forE (normalizeToolIDs batchIDs) (\<lambda>i. writeToolBatchPointerAt completedToolDir DirCompletedTool
       (completedToolPointerName env fp i) (pointerFor fp batchIDs now i))))"

definition removeCompletedToolPointers :: "storeEnv \<Rightarrow> string \<Rightarrow> string list \<Rightarrow> unit st" where
  "removeCompletedToolPointers env fp batchIDs =
     (let normalized = normalizeToolIDs batchIDs in
      forE normalized (\<lambda>i. removeToolBatchPointer completedToolDir DirCompletedTool
        (completedToolPointerName env fp i) fp i normalized))"

definition readCompletedToolPointer :: "storeEnv \<Rightarrow> string \<Rightarrow> string \<Rightarrow> toolBatchPointer st" where
  "readCompletedToolPointer env fp i =
     readToolBatchPointer completedToolDir DirCompletedTool (completedToolPointerName env fp i)"

text \<open>An existing snapshot of the same results keeps its output; conflicting results are refused.\<close>

definition mergeTombstone :: "completedTombstone \<Rightarrow> completedTombstone \<Rightarrow> completedTombstone res" where
  "mergeTombstone existing t =
     (if ct_CredentialFingerprint existing \<noteq> ct_CredentialFingerprint t \<or> ct_BatchIDs existing \<noteq> ct_BatchIDs t
         \<or> normalizeFollowUp (ct_FollowUpText existing) \<noteq> normalizeFollowUp (ct_FollowUpText t)
      then Inl (Errorf ''Cursor Agent v1 completed index identity mismatch'' [])
      else if ct_ResultDigest existing \<noteq> ct_ResultDigest t then Inl ErrToolResultConflict
      else Inr (t\<lparr>ct_Events := ct_Events existing, ct_FollowUpText := ct_FollowUpText existing,
             ct_Results := ct_Results existing, ct_BillingRunID := ct_BillingRunID existing,
             ct_SessionID := ct_SessionID existing, ct_ConversationID := ct_ConversationID existing,
             ct_Ephemeral := (if \<not> ct_Ephemeral t then ct_Ephemeral existing else ct_Ephemeral t)\<rparr>))"

definition storeTombstone :: "storeEnv \<Rightarrow> string \<Rightarrow> completedTombstone \<Rightarrow> unit st" where
  "storeTombstone env name t =
     bnd (writeCompletedTombstoneAtomic name (t\<lparr>ct_Version := stateVersion\<rparr>)) (\<lambda>_.
     if normalizeFollowUp (ct_FollowUpText t) \<noteq> [] then ret ()
     else writeCompletedToolPointers env (ct_CredentialFingerprint t) (ct_BatchIDs t))"

definition writeCompletedTombstone :: "storeEnv \<Rightarrow> completedTombstone \<Rightarrow> unit st" where
  "writeCompletedTombstone env t =
     (let name = completedIndexName env (ct_CredentialFingerprint t) (ct_BatchIDs t) (ct_FollowUpText t) in
      withLease (DirCompleted, name)
        (bnd (attempt (readCompletedTombstoneFile name)) (\<lambda>r. case r of
           Inl e \<Rightarrow> if \<not> errIs e ErrNotExist then raise e else storeTombstone env name t
         | Inr existing \<Rightarrow> bnd (lift (mergeTombstone existing t)) (storeTombstone env name))))"

text \<open>
  Older releases stored a follow-up under the base key.  The fallback runs under the lease of the
  requested key.
\<close>

definition readBaseTombstone :: "storeEnv \<Rightarrow> string \<Rightarrow> string list \<Rightarrow> completedTombstone st" where
  "readBaseTombstone env fp batchIDs =
     (let name = completedIndexName env fp batchIDs [] in
      withLease (DirCompleted, name) (readCompletedTombstoneFile name))"

definition readCompletedTombstone :: "storeEnv \<Rightarrow> string \<Rightarrow> string list \<Rightarrow> string \<Rightarrow> completedTombstone st" where
  "readCompletedTombstone env fp batchIDs followUp =
     (let name = completedIndexName env fp batchIDs followUp in
      withLease (DirCompleted, name)
        (bnd (attempt (readCompletedTombstoneFile name)) (\<lambda>r. case r of
           Inl e \<Rightarrow> if errIs e ErrNotExist \<and> normalizeFollowUp followUp \<noteq> []
                     then readBaseTombstone env fp batchIDs else raise e
         | Inr t \<Rightarrow> ret t)))"

definition removeExpiredCompletedTombstone :: "storeEnv \<Rightarrow> string \<Rightarrow> string list \<Rightarrow> string \<Rightarrow> unit st" where
  "removeExpiredCompletedTombstone env fp batchIDs followUp =
     (let name = completedIndexName env fp batchIDs followUp in
      withLeaseOrSkip (DirCompleted, name)
        (bnd (attempt (readCompletedTombstoneFile name)) (\<lambda>r. case r of
           Inl e \<Rightarrow> if errIs e ErrNotExist then ret () else raise e
         | Inr t \<Rightarrow> bnd getNow (\<lambda>now.
             if \<not> completedTombstoneExpired t now (se_ttl env) then ret ()
             else bnd (removeIfPresent completedDir name) (\<lambda>_.
               if normalizeFollowUp (ct_FollowUpText t) \<noteq> [] then ret ()
               else removeCompletedToolPointers env fp batchIDs)))))"

section \<open>Looking up\<close>

definition matchCompletedTombstone ::
  "storeEnv \<Rightarrow> string \<Rightarrow> string list \<Rightarrow> CompletedToolResult list \<Rightarrow> string \<Rightarrow> completedTombstone st" where
  "matchCompletedTombstone env fp batchIDs canonical followUp =
     bnd (attempt (readCompletedTombstone env fp batchIDs followUp)) (\<lambda>r. case r of
       Inl e \<Rightarrow> if errIs e ErrNotExist then raise ErrSessionNotPending else raise e
     | Inr t \<Rightarrow>
         if ct_CredentialFingerprint t \<noteq> fp \<or> ct_BatchIDs t \<noteq> batchIDs then raise ErrSessionNotPending
         else if normalizeFollowUp (ct_FollowUpText t) \<noteq> normalizeFollowUp followUp then raise ErrSessionNotPending
         else bnd getNow (\<lambda>now.
           if completedTombstoneExpired t now (se_ttl env)
           then bnd (removeExpiredCompletedTombstone env fp batchIDs followUp) (\<lambda>_. raise ErrSessionNotPending)
           else case completedResultsForBatch canonical batchIDs of
             None \<Rightarrow> raise ErrSessionNotPending
           | Some matched \<Rightarrow>
               if ct_ResultDigest t \<noteq> toolResultDigest (se_sha env) matched then raise ErrToolResultConflict
               else ret t))"

text \<open>\<open>time.After\<close> on possibly zero times.\<close>

definition timeAfter :: "int option \<Rightarrow> int option \<Rightarrow> bool" where
  "timeAfter a b = (case a of None \<Rightarrow> False | Some x \<Rightarrow> (case b of None \<Rightarrow> True | Some y \<Rightarrow> x > y))"

fun latestTombstone :: "completedTombstone \<Rightarrow> completedTombstone list \<Rightarrow> completedTombstone" where
  "latestTombstone latest [] = latest"
| "latestTombstone latest (t # ts) =
     latestTombstone (if timeAfter (ct_UpdatedAt t) (ct_UpdatedAt latest) then t else latest) ts"

text \<open>The loop collects the matching snapshots and whether any conflicted.\<close>

primrec lookupCoveringLoop ::
  "storeEnv \<Rightarrow> string \<Rightarrow> CompletedToolResult list \<Rightarrow> string \<Rightarrow> string list \<Rightarrow> string list
   \<Rightarrow> string list \<Rightarrow> completedTombstone list \<Rightarrow> bool \<Rightarrow> (completedTombstone list \<times> bool) st" where
  "lookupCoveringLoop env fp canonical followUp submitted [] seen found conflict = ret (found, conflict)"
| "lookupCoveringLoop env fp canonical followUp submitted (i # is) seen found conflict =
     bnd (attempt (readCompletedToolPointer env fp i)) (\<lambda>r. case r of
       Inl e \<Rightarrow>
         if errIs e ErrNotExist then lookupCoveringLoop env fp canonical followUp submitted is seen found conflict
         else raise e
     | Inr pointer \<Rightarrow>
         let key = join NUL (tp_BatchIDs pointer) in
         if tp_CredentialFingerprint pointer \<noteq> fp \<or> \<not> batchSubsetOf (tp_BatchIDs pointer) submitted
            \<or> key \<in> set seen
         then lookupCoveringLoop env fp canonical followUp submitted is seen found conflict
         else bnd (attempt (matchCompletedTombstone env fp (tp_BatchIDs pointer) canonical followUp)) (\<lambda>m. case m of
           Inl e \<Rightarrow>
             if errIs e ErrSessionNotPending
             then lookupCoveringLoop env fp canonical followUp submitted is (key # seen) found conflict
             else if errIs e ErrToolResultConflict
             then lookupCoveringLoop env fp canonical followUp submitted is (key # seen) found True
             else raise e
         | Inr t \<Rightarrow> lookupCoveringLoop env fp canonical followUp submitted is (key # seen) (found @ [t]) conflict))"

definition chooseCovering :: "completedTombstone list \<Rightarrow> bool \<Rightarrow> completedTombstone res" where
  "chooseCovering found conflict =
     (if conflict then Inl ErrToolResultConflict
      else if length (remdups (map ct_SessionID found)) > 1 then Inl ErrPendingAmbiguous
      else case found of [] \<Rightarrow> Inl ErrSessionNotPending | t # ts \<Rightarrow> Inr (latestTombstone t ts))"

definition lookupCompletedCovering ::
  "storeEnv \<Rightarrow> string \<Rightarrow> CompletedToolResult list \<Rightarrow> string \<Rightarrow> completedTombstone st" where
  "lookupCompletedCovering env fp canonical followUp =
     (let submitted = completedBatchIDs canonical in
      bnd (lookupCoveringLoop env fp canonical followUp submitted submitted [] [] False) (\<lambda>(found, conflict).
      lift (chooseCovering found conflict)))"

definition lookupCompletedTombstone ::
  "storeEnv \<Rightarrow> string \<Rightarrow> CompletedToolResult list \<Rightarrow> string \<Rightarrow> completedTombstone st" where
  "lookupCompletedTombstone env fp canonical followUp =
     bnd (attempt (matchCompletedTombstone env fp (completedBatchIDs canonical) canonical followUp)) (\<lambda>r. case r of
       Inr t \<Rightarrow> ret t
     | Inl e \<Rightarrow> if \<not> errIs e ErrSessionNotPending then raise e
                else lookupCompletedCovering env fp canonical followUp)"

section \<open>Expiry\<close>

definition pruneCompletedFile :: "storeEnv \<Rightarrow> int \<Rightarrow> string \<Rightarrow> unit st" where
  "pruneCompletedFile env now name =
     bnd (attempt (acquirePendingIndexLease (DirCompleted, name))) (\<lambda>l. case l of
       Inl e \<Rightarrow> if errIs e ErrStateLeaseHeld then ret () else raise e
     | Inr h \<Rightarrow>
         bnd (attempt (readCompletedTombstoneFile name)) (\<lambda>r. case r of
           Inl e \<Rightarrow> bnd (attempt (releaseHandle h)) (\<lambda>_. if errIs e ErrNotExist then ret () else raise e)
         | Inr t \<Rightarrow>
             if \<not> completedTombstoneExpired t now (se_ttl env) then releaseHandle h
             else bnd (attempt (removeIfPresent completedDir name)) (\<lambda>removed. case removed of
               Inl e \<Rightarrow> bnd (attempt (releaseHandle h)) (\<lambda>_. raise e)
             | Inr _ \<Rightarrow>
                 bnd (attempt (if normalizeFollowUp (ct_FollowUpText t) = []
                               then removeCompletedToolPointers env (ct_CredentialFingerprint t) (ct_BatchIDs t)
                               else ret ())) (\<lambda>pointers. case pointers of
                   Inl e \<Rightarrow> bnd (attempt (releaseHandle h)) (\<lambda>_. raise e)
                 | Inr _ \<Rightarrow> releaseHandle h))))"

definition gcSkip :: "int option \<Rightarrow> int \<Rightarrow> bool" where
  "gcSkip lastGC now = (case lastGC of None \<Rightarrow> False | Some t \<Rightarrow> subTime now t < stateGCInterval)"

definition pruneExpiredCompleted :: "storeEnv \<Rightarrow> bool \<Rightarrow> unit st" where
  "pruneExpiredCompleted env force = bnd getNow (\<lambda>now. bnd (gets w_lastGC) (\<lambda>lastGC.
     if \<not> force \<and> gcSkip lastGC now then ret ()
     else bnd sys (\<lambda>_. bnd (gets (\<lambda>s. sort (map fst (w_completed s)))) (\<lambda>names.
       forE names (pruneCompletedFile env now)))))"

section \<open>Public lookups\<close>

definition replayOf :: "completedTombstone \<Rightarrow> CompletedReplay res" where
  "replayOf t = (case eventsFromPersisted (ct_Events t) of Inl e \<Rightarrow> Inl e
     | Inr events \<Rightarrow> Inr \<lparr>rp_RequestSegmentID = ct_RequestSegmentID t, rp_SessionID = ct_SessionID t,
         rp_ConversationID = ct_ConversationID t, rp_BillingRunID = ct_BillingRunID t,
         rp_OriginalBatch = ct_BatchIDs t, rp_Events = events, rp_HasPending = ct_HasPending t,
         rp_FollowUpText = ct_FollowUpText t\<rparr>)"

definition LookupCompleted :: "storeEnv \<Rightarrow> string \<Rightarrow> ToolResult list \<Rightarrow> string \<Rightarrow> CompletedReplay st" where
  "LookupCompleted env fp0 results followUp =
     (let fp = trimSpace fp0 in
      bnd (lift (canonicalToolResults results)) (\<lambda>canonical.
      if fp = [] then raise ErrSessionNotPending
      else if completedBatchIDs canonical = [] then raise ErrSessionNotPending
      else bnd (pruneExpiredCompleted env False) (\<lambda>_.
        bnd (lookupCompletedTombstone env fp canonical followUp) (\<lambda>t. lift (replayOf t)))))"

definition LookupHistory :: "storeEnv \<Rightarrow> string \<Rightarrow> string \<Rightarrow> CompletedReplay st" where
  "LookupHistory env fp key =
     (let name = requestCompletedName env fp key in
      withLease (DirCompleted, name)
        (bnd (attempt (readCompletedTombstoneFile name)) (\<lambda>r. case r of
           Inl e \<Rightarrow> if errIs e ErrNotExist then raise ErrSessionNotPending else raise e
         | Inr t \<Rightarrow>
             if ct_RequestKey t \<noteq> key \<or> ct_CredentialFingerprint t \<noteq> fp
             then raise (Errorf ''Cursor history replay identity mismatch'' [])
             else bnd getNow (\<lambda>now.
               if completedTombstoneExpired t now (se_ttl env) then raise ErrSessionNotPending
               else bnd (lift (replayOf t)) (\<lambda>replay. ret (replay\<lparr>rp_OriginalBatch := [], rp_FollowUpText := []\<rparr>))))))"

section \<open>Rebuilding the pointers\<close>

primrec rebuildCompletedLoop :: "storeEnv \<Rightarrow> nat \<Rightarrow> string list \<Rightarrow> unit st" where
  "rebuildCompletedLoop env n [] = ret ()"
| "rebuildCompletedLoop env n (name # names) =
     bnd (readCompletedTombstoneFile name) (\<lambda>t. bnd getNow (\<lambda>now.
     if completedTombstoneExpired t now (se_ttl env)
     then bnd (if ct_RequestKey t \<noteq> [] then ret ()
               else removeExpiredCompletedTombstone env (ct_CredentialFingerprint t) (ct_BatchIDs t) (ct_FollowUpText t))
            (\<lambda>_. rebuildCompletedLoop env n names)
     else if ct_RequestKey t \<noteq> [] \<or> normalizeFollowUp (ct_FollowUpText t) \<noteq> []
     then rebuildCompletedLoop env n names
     else bnd (writeCompletedToolPointers env (ct_CredentialFingerprint t) (ct_BatchIDs t)) (\<lambda>_.
       if Suc n > se_maxFiles env
       then raise (Errorf ''Cursor Agent v1 completed index exceeds %d snapshots'' [N (int (se_maxFiles env))])
       else rebuildCompletedLoop env (Suc n) names)))"

definition rebuildCompletedIndex :: "storeEnv \<Rightarrow> unit st" where
  "rebuildCompletedIndex env = bnd sys (\<lambda>_. bnd sys (\<lambda>_.
     bnd (gets (\<lambda>s. sort (map fst (w_completed s)))) (rebuildCompletedLoop env 0)))"

section \<open>Every operation is balanced\<close>

lemma balanced_readTombstoneFile [balancing]: "filesOnly Q \<Longrightarrow> balanced Q (readCompletedTombstoneFile name)"
  unfolding readCompletedTombstoneFile_def by (intro balancing)

lemma balanced_writeCompletedPointers [balancing]:
  "filesOnly Q \<Longrightarrow> ignores completedToolDir Q \<Longrightarrow> balanced Q (writeCompletedToolPointers env fp ids)"
  unfolding writeCompletedToolPointers_def by (intro balancing) simp_all

lemma balanced_removeCompletedPointers [balancing]:
  "filesOnly Q \<Longrightarrow> ignores completedToolDir Q \<Longrightarrow> balanced Q (removeCompletedToolPointers env fp ids)"
  unfolding removeCompletedToolPointers_def Let_def by (intro balancing) simp_all

lemma balanced_writeTombstoneAtomic [balancing]:
  "filesOnly Q \<Longrightarrow> untouched completedDir name Q \<Longrightarrow> balanced Q (writeCompletedTombstoneAtomic name t)"
  unfolding writeCompletedTombstoneAtomic_def by (intro balancing) simp_all

lemma balanced_storeTombstone [balancing]:
  "filesOnly Q \<Longrightarrow> ignores completedToolDir Q \<Longrightarrow> untouched completedDir name Q \<Longrightarrow> balanced Q (storeTombstone env name t)"
  unfolding storeTombstone_def by (intro balancing)

lemma balanced_writeTombstone [balancing]:
  assumes "filesOnly Q" "ignores completedToolDir Q"
    and "untouched completedDir (completedIndexName env (ct_CredentialFingerprint t) (ct_BatchIDs t) (ct_FollowUpText t)) Q"
  shows "balanced Q (writeCompletedTombstone env t)"
  unfolding writeCompletedTombstone_def Let_def by (intro balancing assms)

lemma balanced_readTombstone [balancing]: "filesOnly Q \<Longrightarrow> balanced Q (readCompletedTombstone env fp ids f)"
  unfolding readCompletedTombstone_def readBaseTombstone_def Let_def by (intro balancing)

lemma balanced_removeExpired [balancing]:
  "filesOnly Q \<Longrightarrow> ignores completedToolDir Q \<Longrightarrow> shrinks completedDir Q \<Longrightarrow>
     balanced Q (removeExpiredCompletedTombstone env fp ids f)"
  unfolding removeExpiredCompletedTombstone_def Let_def by (intro balancing) simp_all

lemma balanced_match [balancing]:
  "filesOnly Q \<Longrightarrow> ignores completedToolDir Q \<Longrightarrow> shrinks completedDir Q \<Longrightarrow>
     balanced Q (matchCompletedTombstone env fp ids c f)"
  unfolding matchCompletedTombstone_def by (intro balancing)

lemma balanced_coveringTombstones [balancing]:
  "filesOnly Q \<Longrightarrow> ignores completedToolDir Q \<Longrightarrow> shrinks completedDir Q \<Longrightarrow>
     balanced Q (lookupCoveringLoop env fp c f sub ids seen found conflict)"
  by (induction ids arbitrary: seen found conflict)
     (auto simp: readCompletedToolPointer_def Let_def intro!: balancing)

lemma balanced_lookupTombstone [balancing]:
  "filesOnly Q \<Longrightarrow> ignores completedToolDir Q \<Longrightarrow> shrinks completedDir Q \<Longrightarrow>
     balanced Q (lookupCompletedTombstone env fp c f)"
  unfolding lookupCompletedTombstone_def lookupCompletedCovering_def Let_def by (intro balancing)

lemma balanced_pruneFile [balancing]:
  assumes "filesOnly Q" "ignores completedToolDir Q" "prunable completedDir name Q"
  shows "balanced Q (pruneCompletedFile env now name)"
  unfolding pruneCompletedFile_def
proof (rule balanced_attempt_index_lease)
  fix h
  let ?l = "(DirCompleted, name)"
  have rel: "gives Q ?l h (bnd (attempt (releaseHandle h)) f)" if "\<And>x. balanced Q (f x)" for f :: "unit res \<Rightarrow> unit st"
    by (rule gives_after [OF gives_release [OF assms(1)] that])
  show "gives Q ?l h (case Inr h of Inl e \<Rightarrow> if errIs e ErrStateLeaseHeld then ret () else raise e
     | Inr h \<Rightarrow>
         bnd (attempt (readCompletedTombstoneFile name)) (\<lambda>r. case r of
           Inl e \<Rightarrow> bnd (attempt (releaseHandle h)) (\<lambda>_. if errIs e ErrNotExist then ret () else raise e)
         | Inr t \<Rightarrow>
             if \<not> completedTombstoneExpired t now (se_ttl env) then releaseHandle h
             else bnd (attempt (removeIfPresent completedDir name)) (\<lambda>removed. case removed of
               Inl e \<Rightarrow> bnd (attempt (releaseHandle h)) (\<lambda>_. raise e)
             | Inr _ \<Rightarrow>
                 bnd (attempt (if normalizeFollowUp (ct_FollowUpText t) = []
                               then removeCompletedToolPointers env (ct_CredentialFingerprint t) (ct_BatchIDs t)
                               else ret ())) (\<lambda>pointers. case pointers of
                   Inl e \<Rightarrow> bnd (attempt (releaseHandle h)) (\<lambda>_. raise e)
                 | Inr _ \<Rightarrow> releaseHandle h))))"
    unfolding sum.case
    by (intro rel gives_before giving balancing assms) (simp_all add: assms)
qed (intro balancing assms | simp add: assms)+

lemma balanced_pruneCompleted [balancing]:
  "filesOnly Q \<Longrightarrow> ignores completedToolDir Q \<Longrightarrow> shrinks completedDir Q \<Longrightarrow>
     balanced Q (pruneExpiredCompleted env force)"
  unfolding pruneExpiredCompleted_def by (intro balancing prunable_simps(2))

lemma balanced_LookupCompleted [balancing]:
  "filesOnly Q \<Longrightarrow> ignores completedToolDir Q \<Longrightarrow> shrinks completedDir Q \<Longrightarrow>
     balanced Q (LookupCompleted env fp rs f)"
  unfolding LookupCompleted_def Let_def by (intro balancing)

lemma balanced_LookupHistory [balancing]: "filesOnly Q \<Longrightarrow> balanced Q (LookupHistory env fp key)"
  unfolding LookupHistory_def Let_def by (intro balancing)

lemma balanced_rebuildCompletedLoop [balancing]:
  "filesOnly Q \<Longrightarrow> ignores completedToolDir Q \<Longrightarrow> shrinks completedDir Q \<Longrightarrow>
     balanced Q (rebuildCompletedLoop env n names)"
  by (induction names arbitrary: n) (auto intro!: balancing)

lemma balanced_rebuildCompleted [balancing]:
  "filesOnly Q \<Longrightarrow> ignores completedToolDir Q \<Longrightarrow> shrinks completedDir Q \<Longrightarrow> balanced Q (rebuildCompletedIndex env)"
  unfolding rebuildCompletedIndex_def by (intro balancing)

end
