(* ===== verification/StateStore.thy ===== *)
theory StateStore
  imports Completed Inference Blobs
begin

text \<open>
  The operations of the file state store (\<open>state.go\<close>, \<open>completed_state.go\<close>, \<open>completed_request.go\<close>):
  claiming a session, the writes its owner may make, deleting, expiry, resolving a submission to the
  session that waits for it, and opening the store.

  An owner holds the lease of its session, a generation and a token.  A write is refused unless the
  stored snapshot carries the same session, generation, token, credential and conversation.
\<close>

section \<open>Owners\<close>

definition CredentialFingerprint :: "(string \<Rightarrow> string) \<Rightarrow> string \<Rightarrow> string \<Rightarrow> string res" where
  "CredentialFingerprint sha credentialScope accountKey =
     (let scope = trimSpace credentialScope; key = trimSpace accountKey in
      if scope = [] \<or> key = []
      then Inl (Errorf ''Cursor Agent v1 credential scope and stable account key are required'' [])
      else Inr (''sha256:'' @ sha (''scope:'' @ scope @ NUL @ ''account:'' @ key)))"

definition ownerMatches :: "StateSnapshot \<Rightarrow> OwnerLease \<Rightarrow> bool" where
  "ownerMatches current owner =
     (st_SessionID current = ol_SessionID owner \<and> st_OwnerGeneration current = ol_Generation owner
      \<and> st_OwnerToken current = ol_Token owner
      \<and> st_CredentialFingerprint current = ol_CredentialHash owner
      \<and> st_ConversationID current = ol_ConversationID owner)"

definition withOwner :: "storeEnv \<Rightarrow> OwnerLease \<Rightarrow> (string \<Rightarrow> 'a st) \<Rightarrow> 'a st" where
  "withOwner env owner fn = (case ol_handle owner of
     None \<Rightarrow> raise ErrRetiredOwner
   | Some h \<Rightarrow> bnd (gets (\<lambda>s. h \<in> fst ` set (w_held s))) (\<lambda>held.
       if \<not> held then raise ErrRetiredOwner else fn (statePath env (ol_SessionID owner))))"

text \<open>
  The closures of \<open>update\<close> also write variables of their caller; here they return them beside the
  new snapshot.
\<close>

definition applyUpdate ::
  "storeEnv \<Rightarrow> OwnerLease \<Rightarrow> (StateSnapshot \<Rightarrow> (StateSnapshot \<times> 'b) st) \<Rightarrow> string \<Rightarrow> 'b st" where
  "applyUpdate env owner mutate name =
     bnd (attempt (readState env name)) (\<lambda>r. case r of
       Inl e \<Rightarrow> raise (if errIs e ErrNotExist then ErrRetiredOwner else e)
     | Inr current \<Rightarrow>
         if \<not> ownerMatches current owner then raise ErrRetiredOwner
         else bnd (mutate current) (\<lambda>(changed, x). bnd getNow (\<lambda>now.
           bnd (writeStateAtomic name (changed\<lparr>st_UpdatedAt := Some now\<rparr>)) (\<lambda>_. ret x))))"

definition update :: "storeEnv \<Rightarrow> OwnerLease \<Rightarrow> (StateSnapshot \<Rightarrow> (StateSnapshot \<times> 'b) st) \<Rightarrow> 'b st" where
  "update env owner mutate =
     (if trimSpace (ol_SessionID owner) = [] \<or> trimSpace (ol_Token owner) = [] then raise ErrRetiredOwner
      else withOwner env owner (applyUpdate env owner mutate))"

section \<open>Writes of an owner\<close>

definition setUsageCarry :: "Event list \<Rightarrow> StateSnapshot \<Rightarrow> (StateSnapshot \<times> unit) res" where
  "setUsageCarry events current = Inr (current\<lparr>st_UsageCarry := usageEvidenceEvents events\<rparr>, ())"

definition SaveUsageCarry :: "storeEnv \<Rightarrow> OwnerLease \<Rightarrow> Event list \<Rightarrow> unit st" where
  "SaveUsageCarry env owner events = update env owner (\<lambda>c. lift (setUsageCarry events c))"

definition setCheckpoint :: "bytes \<Rightarrow> blobs \<Rightarrow> StateSnapshot \<Rightarrow> (StateSnapshot \<times> unit) res" where
  "setCheckpoint checkpoint blobs current =
     (if length checkpoint > maxConnectPayloadSize
      then Inl (errExceedsConnectLimit ''Cursor Agent v1 checkpoint'')
      else case validateBlobStore blobs maxBlobSize maxBlobStoreSize of Inl e \<Rightarrow> Inl e
        | Inr _ \<Rightarrow> Inr (current\<lparr>st_Checkpoint := checkpoint, st_Blobs := blobs\<rparr>, ()))"

definition SaveCheckpoint :: "storeEnv \<Rightarrow> OwnerLease \<Rightarrow> bytes \<Rightarrow> blobs \<Rightarrow> unit st" where
  "SaveCheckpoint env owner checkpoint blobs = update env owner (\<lambda>c. lift (setCheckpoint checkpoint blobs c))"

definition nextBatchIDs :: "PendingTool list \<Rightarrow> StateSnapshot \<Rightarrow> string list" where
  "nextBatchIDs pending current =
     (if pending = [] then []
      else if st_PendingBatchIDs current = [] \<or> length pending > length (st_PendingTools current)
      then pendingToolIDs pending
      else st_PendingBatchIDs current)"

definition setPending ::
  "PendingTool list \<Rightarrow> StateSnapshot \<Rightarrow> (StateSnapshot \<times> (string list \<times> string list)) res" where
  "setPending pending current = (case validatePendingTools pending of Inl e \<Rightarrow> Inl e
     | Inr _ \<Rightarrow> Inr (current\<lparr>st_PendingBatchIDs := nextBatchIDs pending current, st_PendingTools := pending\<rparr>,
                   (st_PendingBatchIDs current, nextBatchIDs pending current)))"

definition SavePending :: "storeEnv \<Rightarrow> OwnerLease \<Rightarrow> PendingTool list \<Rightarrow> unit st" where
  "SavePending env owner pending =
     bnd (update env owner (\<lambda>c. lift (setPending pending c))) (\<lambda>(previousBatch, nextBatch).
     syncPendingIndex env (ol_CredentialHash owner) (ol_SessionID owner) previousBatch nextBatch)"

definition setFollowUp :: "string \<Rightarrow> StateSnapshot \<Rightarrow> (StateSnapshot \<times> unit) res" where
  "setFollowUp followUp current = Inr (current\<lparr>st_FollowUpText := trimSpace followUp\<rparr>, ())"

definition SaveFollowUp :: "storeEnv \<Rightarrow> OwnerLease \<Rightarrow> string \<Rightarrow> unit st" where
  "SaveFollowUp env owner followUp = update env owner (\<lambda>c. lift (setFollowUp followUp c))"

definition SetBillingRunID :: "storeEnv \<Rightarrow> OwnerLease \<Rightarrow> string \<Rightarrow> unit st" where
  "SetBillingRunID env owner billingRunID =
     (let b = trimSpace billingRunID in
      if b = [] then raise (Errorf ''Cursor Agent v1 billing segment id is required'' [])
      else update env owner (\<lambda>current. ret (current\<lparr>st_BillingRunID := b\<rparr>, ())))"

text \<open>
  A completed snapshot is written inside the update of the state, before the state itself.
\<close>

definition completedOf :: "OwnerLease \<Rightarrow> StateSnapshot \<Rightarrow> completedTombstone \<Rightarrow> completedTombstone" where
  "completedOf owner current t = t\<lparr>ct_ConversationID := st_ConversationID current,
     ct_BillingRunID := (if ol_BillingRunID owner = [] then st_BillingRunID current else ol_BillingRunID owner),
     ct_HasPending := st_PendingTools current \<noteq> []\<rparr>"

definition setCompleted ::
  "storeEnv \<Rightarrow> OwnerLease \<Rightarrow> completedTombstone \<Rightarrow> bool \<Rightarrow> string \<Rightarrow> StateSnapshot \<Rightarrow> (StateSnapshot \<times> unit) st" where
  "setCompleted env owner completed ephemeral followUp current =
     (let t = completedOf owner current completed;
          next = (if followUp \<noteq> [] then current\<lparr>st_FollowUpText := followUp\<rparr> else current) in
      bnd (writeCompletedTombstone env t) (\<lambda>_.
      ret (if ephemeral \<and> \<not> ct_HasPending t
           then (next\<lparr>st_EphemeralComplete := True, st_CompletedAt := ct_UpdatedAt t\<rparr>, ()) else (next, ()))))"

definition SaveCompleted ::
  "storeEnv \<Rightarrow> OwnerLease \<Rightarrow> ToolResult list \<Rightarrow> Event list \<Rightarrow> bool \<Rightarrow> string \<Rightarrow> unit st" where
  "SaveCompleted env owner results events ephemeral followUp =
     bnd getNow (\<lambda>now.
     bnd (lift (newCompletedTombstone env owner results events ephemeral followUp now)) (\<lambda>completed.
     update env owner (setCompleted env owner completed ephemeral followUp)))"

definition visibleHistoryOutput :: "Event list \<Rightarrow> bool" where
  "visibleHistoryOutput events = (\<exists>e \<in> set events.
     (ev_Type e = EventText \<and> trimSpace (ev_Text e) \<noteq> [])
     \<or> (ev_Type e = EventToolCall \<and> ev_ToolCall e \<noteq> None)
     \<or> (ev_Type e = EventHostedSearchCompleted \<and> ev_HostedSearch e \<noteq> None))"

definition historyRecord :: "OwnerLease \<Rightarrow> string \<Rightarrow> persistedEvent list \<Rightarrow> bool \<Rightarrow> int \<Rightarrow> completedTombstone" where
  "historyRecord owner key persisted handoff now = \<lparr>ct_RequestKey = key,
     ct_RequestSegmentID = ol_RequestSegmentID owner, ct_Version = stateVersion,
     ct_CredentialFingerprint = ol_CredentialHash owner, ct_BatchIDs = [], ct_ResultDigest = [], ct_Results = [],
     ct_Events = persisted, ct_BillingRunID = ol_BillingRunID owner, ct_SessionID = ol_SessionID owner,
     ct_ConversationID = ol_ConversationID owner, ct_HasPending = handoff, ct_FollowUpText = [],
     ct_Ephemeral = True, ct_UpdatedAt = Some now\<rparr>"

definition clearedForHistory :: "completedTombstone \<Rightarrow> StateSnapshot \<Rightarrow> StateSnapshot" where
  "clearedForHistory t current = current\<lparr>st_Checkpoint := [], st_Blobs := [], st_PendingTools := [],
     st_PendingBatchIDs := [], st_EphemeralComplete := True, st_CompletedAt := ct_UpdatedAt t\<rparr>"

definition setHistory ::
  "storeEnv \<Rightarrow> OwnerLease \<Rightarrow> string \<Rightarrow> completedTombstone \<Rightarrow> StateSnapshot \<Rightarrow> (StateSnapshot \<times> unit) st" where
  "setHistory env owner key t current =
     (let name = requestCompletedName env (ol_CredentialHash owner) key;
          store = bnd (writeCompletedTombstoneAtomic name t) (\<lambda>_.
                    ret (clearedForHistory t current, ())) in
      withLease (DirCompleted, name)
        (bnd (attempt (readCompletedTombstoneFile name)) (\<lambda>r. case r of
           Inl e \<Rightarrow> if \<not> errIs e ErrNotExist then raise e else store
         | Inr previous \<Rightarrow> bnd getNow (\<lambda>now.
             if completedTombstoneExpired previous now (se_ttl env) then store
             else if ct_RequestKey previous \<noteq> key \<or> ct_CredentialFingerprint previous \<noteq> ol_CredentialHash owner
             then raise (Errorf ''Cursor history replay identity mismatch'' [])
             else ret (current, ())))))"

definition SaveHistory :: "storeEnv \<Rightarrow> OwnerLease \<Rightarrow> string \<Rightarrow> Event list \<Rightarrow> unit st" where
  "SaveHistory env owner key events =
     (if \<not> visibleHistoryOutput events
      then raise (Errorf ''Cursor Agent v1 completed without visible output or a tool handoff'' [])
      else bnd (lift (persistEvents (se_body env) (se_rest env) events)) (\<lambda>persisted.
        bnd getNow (\<lambda>now. update env owner (setHistory env owner key
          (historyRecord owner key persisted (\<exists>e \<in> set events. ev_Type e = EventToolCall) now)))))"

section \<open>Deleting and releasing\<close>

definition deleteState :: "storeEnv \<Rightarrow> string \<Rightarrow> StateSnapshot \<Rightarrow> unit st" where
  "deleteState env name current =
     bnd (wrapping ''delete Cursor Agent v1 state: %w'' (removeIfPresent stateDir name)) (\<lambda>_.
     bnd syncDirectory (\<lambda>_.
     syncPendingIndex env (st_CredentialFingerprint current) (st_SessionID current) (st_PendingBatchIDs current) []))"

text \<open>Both deletions read the state, check whose it is, and take it away.\<close>

definition deleteIf :: "storeEnv \<Rightarrow> (StateSnapshot \<Rightarrow> bool) \<Rightarrow> err \<Rightarrow> string \<Rightarrow> unit st" where
  "deleteIf env allowed refusal name =
     bnd (attempt (readState env name)) (\<lambda>r. case r of
       Inl e \<Rightarrow> if errIs e ErrNotExist then ret () else raise e
     | Inr current \<Rightarrow> if \<not> allowed current then raise refusal else deleteState env name current)"

definition Delete :: "storeEnv \<Rightarrow> OwnerLease \<Rightarrow> unit st" where
  "Delete env owner = withOwner env owner (deleteIf env (\<lambda>c. ownerMatches c owner) ErrRetiredOwner)"

definition DeleteSession :: "storeEnv \<Rightarrow> string \<Rightarrow> string \<Rightarrow> unit st" where
  "DeleteSession env sessionID0 fp0 =
     (let sessionID = trimSpace sessionID0; fp = trimSpace fp0; name = statePath env sessionID in
      if sessionID = [] \<or> fp = [] then raise ErrCredentialMismatch
      else bnd (acquireLease (DirState, name)) (\<lambda>h.
        ensuring (deleteIf env (\<lambda>c. st_CredentialFingerprint c = fp) ErrCredentialMismatch name)
          (releaseHandle h)))"

definition Release :: "OwnerLease \<Rightarrow> unit st" where
  "Release owner = (case ol_handle owner of None \<Rightarrow> ret () | Some h \<Rightarrow> releaseHandle h)"

section \<open>Expiry\<close>

definition pruneTemp :: "storeEnv \<Rightarrow> int \<Rightarrow> nat \<times> dir \<times> int \<Rightarrow> unit st" where
  "pruneTemp env now entry =
     bnd (attempt sys) (\<lambda>info. case info of Inl _ \<Rightarrow> ret ()
     | Inr _ \<Rightarrow> if subTime now (snd (snd entry)) > se_ttl env
         then bnd (attempt (removeTemp (fst entry))) (\<lambda>r. case r of
           Inl e \<Rightarrow> if errIs e ErrNotExist then ret ()
                    else raise (Wrap ''remove expired Cursor Agent v1 temporary state: %w'' e)
         | Inr _ \<Rightarrow> ret ())
         else ret ())"

definition expireState :: "storeEnv \<Rightarrow> string \<Rightarrow> StateSnapshot \<Rightarrow> unit st" where
  "expireState env name st =
     bnd (wrapping ''remove expired Cursor Agent v1 state: %w'' (removeIfPresent stateDir name)) (\<lambda>_.
     syncPendingIndex env (st_CredentialFingerprint st) (st_SessionID st) (st_PendingBatchIDs st) [])"

definition pruneState :: "storeEnv \<Rightarrow> int \<Rightarrow> string \<Rightarrow> unit st" where
  "pruneState env now name =
     bnd (readState env name) (\<lambda>st.
     if \<not> stateExpired st now (se_ttl env) then ret ()
     else bnd (attempt (acquireLease (DirState, name))) (\<lambda>l. case l of
       Inl e \<Rightarrow> if errIs e ErrStateLeaseHeld then ret () else raise e
     | Inr h \<Rightarrow>
         bnd (attempt (readState env name)) (\<lambda>latest.
         bnd (attempt (case latest of
             Inl _ \<Rightarrow> ret ()
           | Inr st' \<Rightarrow> if stateExpired st' now (se_ttl env) then expireState env name st' else ret ())) (\<lambda>r.
         case r of Inl e \<Rightarrow> bnd (attempt (releaseHandle h)) (\<lambda>_. raise e)
         | Inr _ \<Rightarrow> releaseHandle h))))"

text \<open>\<open>os.ReadDir\<close> sorts by name, and the temporary files, which begin with a dot, come first.\<close>

definition pruneExpired :: "storeEnv \<Rightarrow> bool \<Rightarrow> unit st" where
  "pruneExpired env force =
     (if se_ttl env \<le> 0 then ret ()
      else bnd getNow (\<lambda>now. bnd (gets w_lastGC) (\<lambda>lastGC.
        if \<not> force \<and> gcSkip lastGC now then ret ()
        else bnd sys (\<lambda>_.
          bnd (gets (\<lambda>s. (filter (\<lambda>(t, d, m). d = DirState) (w_temps s), sort (map fst (w_states s)))))
            (\<lambda>(temps, names).
          bnd (forE temps (pruneTemp env now)) (\<lambda>_.
          bnd (forE names (pruneState env now)) (\<lambda>_.
          bnd (modify (\<lambda>s. s\<lparr>w_lastGC := Some now\<rparr>)) (\<lambda>_.
          pruneExpiredCompleted env True))))))))"

section \<open>Resolving a submission\<close>

definition resolveTrimmed :: "storeEnv \<Rightarrow> string \<Rightarrow> string list \<Rightarrow> string st" where
  "resolveTrimmed env fp batchIDs =
     bnd (attempt (resolvePendingExact env fp batchIDs)) (\<lambda>r. case r of
       Inr sessionID \<Rightarrow> ret sessionID
     | Inl e \<Rightarrow> if \<not> errIs e ErrSessionNotPending then raise e
         else bnd (pendingCoveringBatch env fp batchIDs) (\<lambda>covering.
           if covering = [] \<or> covering = batchIDs then raise ErrSessionNotPending
           else resolvePendingExact env fp covering))"

definition ResolvePending :: "storeEnv \<Rightarrow> string \<Rightarrow> string list \<Rightarrow> string st" where
  "ResolvePending env fp0 toolCallIDs =
     (let fp = trimSpace fp0; batchIDs = normalizeToolIDs toolCallIDs in
      if fp = [] \<or> toolCallIDs = [] then raise ErrSessionNotPending
      else if batchIDs = [] then raise ErrSessionNotPending
      else bnd (pruneExpired env False) (\<lambda>_. resolveTrimmed env fp batchIDs))"

section \<open>Claiming a session\<close>

record ClaimOptions =
  co_RuntimeProfile :: string
  co_HistoryRequestKey :: string
  co_AllowPending :: bool
  co_RequireExisting :: bool
  co_AllowCredentialChange :: bool
  co_ToolCatalogDigest :: string
  co_ToolCatalog :: "ToolDefinition list"
  co_RequireToolCatalog :: bool
  co_NewBillingRunID :: string
  co_ReuseBillingRun :: bool

record ClaimResult =
  cl_Replay :: "CompletedReplay option"
  cl_Owner :: OwnerLease
  cl_Snapshot :: StateSnapshot
  cl_ColdRebuild :: bool

definition noOwner :: OwnerLease where
  "noOwner = \<lparr>ol_RequestSegmentID = [], ol_SessionID = [], ol_Generation = 0, ol_Token = [],
     ol_CredentialHash = [], ol_ConversationID = [], ol_BillingRunID = [], ol_handle = None\<rparr>"

definition cloneSnapshot :: "StateSnapshot \<Rightarrow> StateSnapshot" where
  "cloneSnapshot st = st\<lparr>st_UsageCarry := usageEvidenceEvents (st_UsageCarry st)\<rparr>"

definition claimReplay :: "storeEnv \<Rightarrow> string \<Rightarrow> ClaimOptions \<Rightarrow> CompletedReplay option st" where
  "claimReplay env fp opts =
     (if co_HistoryRequestKey opts = [] then ret None
      else bnd (attempt (LookupHistory env fp (co_HistoryRequestKey opts))) (\<lambda>r. case r of
        Inr replay \<Rightarrow> ret (Some replay)
      | Inl e \<Rightarrow> if errIs e ErrSessionNotPending then ret None else raise e))"

text \<open>The stored snapshot, \<open>None\<close> when there is none or it has just expired.\<close>

definition claimStored :: "storeEnv \<Rightarrow> string \<Rightarrow> StateSnapshot res \<Rightarrow> StateSnapshot option st" where
  "claimStored env name loaded = (case loaded of
     Inl e \<Rightarrow> if errIs e ErrNotExist then ret None else raise e
   | Inr current \<Rightarrow> bnd getNow (\<lambda>now.
       if stateExpired current now (se_ttl env)
       then bnd (expireState env name current) (\<lambda>_. ret None) else ret (Some current)))"

definition claimCurrent ::
  "string \<Rightarrow> string \<Rightarrow> ClaimOptions \<Rightarrow> StateSnapshot option \<Rightarrow> StateSnapshot res" where
  "claimCurrent sessionID conversationID opts stored = (case stored of
     None \<Rightarrow> if co_RequireExisting opts then Inl ErrNotExist
       else Inr (newState\<lparr>st_Version := stateVersion, st_SessionID := sessionID,
              st_ConversationID := conversationID,
              st_RuntimeProfile := normalizeRuntimeProfile (co_RuntimeProfile opts)\<rparr>)
   | Some current \<Rightarrow> Inr (if trimSpace (st_RuntimeProfile current) = []
       then current\<lparr>st_RuntimeProfile := runtimeAgentV1\<rparr> else current))"

text \<open>The checks before anything is written; the result is the tool catalogue and \<open>coldRebuild\<close>.\<close>

definition claimGuards ::
  "storeEnv \<Rightarrow> string \<Rightarrow> ClaimOptions \<Rightarrow> StateSnapshot \<Rightarrow> (ToolDefinition list \<times> bool) res" where
  "claimGuards env fp opts current =
     (let digest = trimSpace (co_ToolCatalogDigest opts);
          cold = (st_CredentialFingerprint current \<noteq> [] \<and> st_CredentialFingerprint current \<noteq> fp) in
      if \<not> co_AllowPending opts \<and> st_PendingTools current \<noteq> [] then Inl ErrStatePending
      else case validateToolCatalog (se_canon env) (co_ToolCatalog opts) of Inl e \<Rightarrow> Inl e
      | Inr catalog \<Rightarrow>
          if co_RequireToolCatalog opts
             \<and> (st_ToolCatalogDigest current = []
                \<or> (st_ToolCatalog current = [] \<and> digest \<noteq> [] \<and> st_ToolCatalogDigest current \<noteq> digest))
          then Inl ErrSessionNotPending
          else if cold \<and> \<not> co_AllowCredentialChange opts then Inl ErrCredentialMismatch
          else Inr (catalog, cold))"

definition claimReset :: "string \<Rightarrow> ClaimOptions \<Rightarrow> bool \<Rightarrow> StateSnapshot \<Rightarrow> StateSnapshot" where
  "claimReset conversationID opts cold current =
     (let a = (if co_HistoryRequestKey opts \<noteq> []
               then current\<lparr>st_Checkpoint := [], st_Blobs := [], st_PendingTools := [], st_PendingBatchIDs := [],
                      st_ConversationID := conversationID, st_EphemeralComplete := False, st_CompletedAt := None\<rparr>
               else current) in
      if cold
      then a\<lparr>st_Checkpoint := [], st_Blobs := [], st_PendingTools := [], st_PendingBatchIDs := [],
             st_ToolCatalog := [], st_BillingRunID := [], st_ConversationID := conversationID\<rparr>
      else a)"

definition claimBilling :: "storeEnv \<Rightarrow> ClaimOptions \<Rightarrow> StateSnapshot \<Rightarrow> StateSnapshot st" where
  "claimBilling env opts current =
     (if co_ReuseBillingRun opts \<or> (co_AllowPending opts \<and> isMeteredTurn (st_BillingRunID current))
      then (if trimSpace (st_BillingRunID current) = []
            then bnd (newUUID env) (\<lambda>u. ret (current\<lparr>st_BillingRunID := u\<rparr>)) else ret current)
      else let b = trimSpace (co_NewBillingRunID opts) in
           bnd (if b = [] then newUUID env else ret b) (\<lambda>u.
           ret (current\<lparr>st_UsageCarry := [], st_BillingRunID := u\<rparr>)))"

definition claimStamp ::
  "string \<Rightarrow> string \<Rightarrow> string \<Rightarrow> ClaimOptions \<Rightarrow> ToolDefinition list \<Rightarrow> string \<Rightarrow> int \<Rightarrow> StateSnapshot \<Rightarrow> StateSnapshot" where
  "claimStamp sessionID conversationID fp opts catalog token now current =
     (let a = (if \<not> co_RequireToolCatalog opts \<and> st_PendingTools current = []
               then current\<lparr>st_ToolCatalogDigest := trimSpace (co_ToolCatalogDigest opts), st_ToolCatalog := catalog\<rparr>
               else current);
          b = (if st_ConversationID a = [] then a\<lparr>st_ConversationID := conversationID\<rparr> else a) in
      b\<lparr>st_Version := stateVersion, st_SessionID := sessionID, st_CredentialFingerprint := fp,
        st_OwnerGeneration := st_OwnerGeneration b + 1, st_OwnerToken := token, st_UpdatedAt := Some now\<rparr>)"

text \<open>The pending index follows the state: the entry that is no longer right goes, the right one is (re)made.\<close>

definition claimIndex :: "storeEnv \<Rightarrow> string \<Rightarrow> string list \<Rightarrow> StateSnapshot \<Rightarrow> unit st" where
  "claimIndex env previousFp previousBatch current =
     bnd (if previousBatch \<noteq> []
             \<and> (previousFp \<noteq> st_CredentialFingerprint current
                \<or> normalizeToolIDs previousBatch \<noteq> normalizeToolIDs (st_PendingBatchIDs current))
          then syncPendingIndex env previousFp (st_SessionID current) previousBatch [] else ret ()) (\<lambda>_.
     if st_PendingBatchIDs current \<noteq> []
     then syncPendingIndex env (st_CredentialFingerprint current) (st_SessionID current) []
            (st_PendingBatchIDs current)
     else ret ())"

definition ownerOf :: "nat \<Rightarrow> StateSnapshot \<Rightarrow> OwnerLease" where
  "ownerOf h current = \<lparr>ol_RequestSegmentID = [], ol_SessionID = st_SessionID current,
     ol_Generation = st_OwnerGeneration current, ol_Token = st_OwnerToken current,
     ol_CredentialHash = st_CredentialFingerprint current, ol_ConversationID = st_ConversationID current,
     ol_BillingRunID = st_BillingRunID current, ol_handle = Some h\<rparr>"

definition claimStore ::
  "storeEnv \<Rightarrow> string \<Rightarrow> string \<Rightarrow> string \<Rightarrow> ClaimOptions \<Rightarrow> nat \<Rightarrow> StateSnapshot \<Rightarrow> ToolDefinition list
   \<Rightarrow> bool \<Rightarrow> ClaimResult st" where
  "claimStore env sessionID conversationID fp opts h current catalog cold =
     bnd (claimBilling env opts (claimReset conversationID opts cold current)) (\<lambda>billed.
     bnd (newUUID env) (\<lambda>token. bnd getNow (\<lambda>now.
     let claimed = claimStamp sessionID conversationID fp opts catalog token now billed in
     bnd (writeStateAtomic (statePath env sessionID) claimed) (\<lambda>_.
     bnd (claimIndex env (st_CredentialFingerprint current) (st_PendingBatchIDs current) claimed) (\<lambda>_.
     ret \<lparr>cl_Replay = None, cl_Owner = ownerOf h claimed, cl_Snapshot = cloneSnapshot claimed,
          cl_ColdRebuild = cold\<rparr>)))))"

definition claimWrite ::
  "storeEnv \<Rightarrow> string \<Rightarrow> string \<Rightarrow> string \<Rightarrow> ClaimOptions \<Rightarrow> nat \<Rightarrow> StateSnapshot option \<Rightarrow> ClaimResult st" where
  "claimWrite env sessionID conversationID fp opts h stored =
     bnd (lift (claimCurrent sessionID conversationID opts stored)) (\<lambda>current.
     bnd (lift (claimGuards env fp opts current)) (\<lambda>(catalog, cold).
     claimStore env sessionID conversationID fp opts h current catalog cold))"

text \<open>
  Under the lease: a stored history answer is handed out, otherwise the snapshot is claimed.  The
  lease is given back unless a claim was made.
\<close>

definition claimLeased ::
  "storeEnv \<Rightarrow> string \<Rightarrow> string \<Rightarrow> string \<Rightarrow> ClaimOptions \<Rightarrow> nat \<Rightarrow> ClaimResult st" where
  "claimLeased env sessionID conversationID fp opts h =
     bnd (attempt (readState env (statePath env sessionID))) (\<lambda>loaded.
     bnd (claimReplay env fp opts) (\<lambda>replay. case replay of
       Some r \<Rightarrow> ret \<lparr>cl_Replay = Some r, cl_Owner = noOwner, cl_Snapshot = newState, cl_ColdRebuild = False\<rparr>
     | None \<Rightarrow> bnd (claimStored env (statePath env sessionID) loaded)
                 (claimWrite env sessionID conversationID fp opts h)))"

definition releaseUnlessClaimed :: "nat \<Rightarrow> ClaimResult res \<Rightarrow> ClaimResult st" where
  "releaseUnlessClaimed h r = (case r of
     Inl e \<Rightarrow> bnd (attempt (releaseHandle h)) (\<lambda>_. raise e)
   | Inr c \<Rightarrow> if cl_Replay c = None then ret c else bnd (attempt (releaseHandle h)) (\<lambda>_. ret c))"

definition Claim :: "storeEnv \<Rightarrow> string \<Rightarrow> string \<Rightarrow> string \<Rightarrow> ClaimOptions \<Rightarrow> ClaimResult st" where
  "Claim env sessionID0 conversationID0 fp0 opts =
     bnd (pruneExpired env False) (\<lambda>_.
     let sessionID = trimSpace sessionID0; conversationID = trimSpace conversationID0; fp = trimSpace fp0 in
     if sessionID = [] \<or> conversationID = [] \<or> fp = []
     then raise (Errorf ''Cursor Agent v1 claim requires session, conversation, and credential fingerprint'' [])
     else bnd (acquireLease (DirState, statePath env sessionID)) (\<lambda>h.
       bnd (attempt (claimLeased env sessionID conversationID fp opts h)) (releaseUnlessClaimed h)))"

section \<open>Opening a store\<close>

definition newFileStateStore :: "storeEnv \<Rightarrow> string \<Rightarrow> unit st" where
  "newFileStateStore env root =
     (if trimSpace root = [] then raise (Errorf ''Cursor Agent v1 state directory is required'' [])
      else bnd (wrapping ''create Cursor Agent v1 state directory: %w'' sys) (\<lambda>_.
        bnd (wrapping ''secure Cursor Agent v1 state directory: %w'' sys) (\<lambda>_.
        if se_ttl env \<le> 0 then raise (Errorf ''Cursor Agent v1 state TTL must be positive'' [])
        else bnd (wrapping ''create Cursor Agent v1 pending index: %w'' sys) (\<lambda>_.
          bnd (wrapping ''create Cursor Agent v1 pending tool index: %w'' sys) (\<lambda>_.
          bnd (wrapping ''create Cursor Agent v1 completed index: %w'' sys) (\<lambda>_.
          bnd (wrapping ''create Cursor Agent v1 completed tool index: %w'' sys) (\<lambda>_.
          bnd (pruneExpired env True) (\<lambda>_.
          bnd (rebuildPendingIndex env) (\<lambda>_. rebuildCompletedIndex env)))))))))"

section \<open>Every operation gives its leases back\<close>

lemma balanced_withOwner [balancing]: "(\<And>n. balanced Q (fn n)) \<Longrightarrow> balanced Q (withOwner env owner fn)"
  unfolding withOwner_def by (intro balancing)

lemma balanced_writeState [balancing]:
  "filesOnly Q \<Longrightarrow> untouched stateDir name Q \<Longrightarrow> balanced Q (writeStateAtomic name st)"
  unfolding writeStateAtomic_def by (intro balancing) simp_all

lemma balanced_update [balancing]:
  assumes "filesOnly Q" "untouched stateDir (statePath env (ol_SessionID owner)) Q" "\<And>c. balanced Q (mutate c)"
  shows "balanced Q (update env owner mutate)"
  unfolding update_def applyUpdate_def withOwner_def by (intro balancing assms)

lemma balanced_SavePending [balancing]:
  assumes "filesOnly Q" "ignores pendingToolDir Q" "ignores pendingDir Q"
    and "untouched stateDir (statePath env (ol_SessionID owner)) Q"
  shows "balanced Q (SavePending env owner pending)"
  unfolding SavePending_def by (intro balancing assms)

lemma balanced_setCompleted [balancing]:
  assumes "filesOnly Q" "ignores completedToolDir Q" "ignores completedDir Q"
  shows "balanced Q (setCompleted env owner t eph f c)"
  unfolding setCompleted_def Let_def by (intro balancing assms ignores_untouched)

lemma balanced_SaveCompleted [balancing]:
  assumes "filesOnly Q" "ignores completedToolDir Q" "ignores completedDir Q"
    and "untouched stateDir (statePath env (ol_SessionID owner)) Q"
  shows "balanced Q (SaveCompleted env owner rs es eph f)"
  unfolding SaveCompleted_def by (intro balancing assms)

lemma balanced_setHistory [balancing]:
  assumes "filesOnly Q" "ignores completedDir Q"
  shows "balanced Q (setHistory env owner key t c)"
  unfolding setHistory_def Let_def by (intro balancing assms ignores_untouched)

lemma balanced_SaveHistory [balancing]:
  assumes "filesOnly Q" "ignores completedDir Q" "untouched stateDir (statePath env (ol_SessionID owner)) Q"
  shows "balanced Q (SaveHistory env owner key es)"
  unfolding SaveHistory_def by (intro balancing assms)

lemma balanced_deleteIf [balancing]:
  assumes "filesOnly Q" "ignores pendingToolDir Q" "ignores pendingDir Q" "prunable stateDir name Q"
  shows "balanced Q (deleteIf env allowed e name)"
  unfolding deleteIf_def deleteState_def by (intro balancing assms) (simp_all add: assms)

lemma balanced_Delete [balancing]:
  assumes "filesOnly Q" "ignores pendingToolDir Q" "ignores pendingDir Q" "ignores stateDir Q"
  shows "balanced Q (Delete env owner)"
  unfolding Delete_def by (intro balancing assms prunable_simps)

lemma balanced_DeleteSession [balancing]:
  assumes "filesOnly Q" "ignores pendingToolDir Q" "ignores pendingDir Q"
    and "prunable stateDir (statePath env (trimSpace sid)) Q"
  shows "balanced Q (DeleteSession env sid fp)"
  unfolding DeleteSession_def Let_def by (intro balancing balanced_state_lease giving assms)

lemma balanced_expireState [balancing]:
  assumes "filesOnly Q" "ignores pendingToolDir Q" "ignores pendingDir Q" "prunable stateDir name Q"
  shows "balanced Q (expireState env name st)"
  unfolding expireState_def by (intro balancing assms) (simp_all add: assms)

lemma balanced_pruneState [balancing]:
  assumes "filesOnly Q" "ignores pendingToolDir Q" "ignores pendingDir Q" "prunable stateDir name Q"
  shows "balanced Q (pruneState env now name)"
proof -
  have rel: "gives Q l h (bnd (attempt (releaseHandle h)) f)" if "\<And>x. balanced Q (f x)"
    for l h and f :: "unit res \<Rightarrow> unit st"
    by (rule gives_after [OF gives_release [OF assms(1)] that])
  show ?thesis
    unfolding pruneState_def
    by (rule balanced_bnd, intro balancing assms, rule balanced_if, intro balancing,
        rule balanced_attempt_state_lease [OF assms(1)]; unfold sum.case)
       (intro balancing | intro gives_before giving balancing rel assms)+
qed

lemma balanced_pruneTemp [balancing]: "filesOnly Q \<Longrightarrow> balanced Q (pruneTemp env now x)"
  unfolding pruneTemp_def by (intro balancing)

definition gcOblivious :: "(world \<Rightarrow> bool) \<Rightarrow> bool" where
  "gcOblivious Q = (\<forall>s t. Q s \<longrightarrow> Q (s\<lparr>w_lastGC := t\<rparr>))"

lemma balanced_setGC [balancing]: "gcOblivious Q \<Longrightarrow> balanced Q (modify (\<lambda>s. s\<lparr>w_lastGC := t\<rparr>))"
  by (auto simp: balanced_def keeps_def wp gcOblivious_def holding_def leasesOk_def)

lemma gcOblivious_simps [simp]:
  "gcOblivious (\<lambda>s. True)" "gcOblivious (\<lambda>s. P (w_states s))" "gcOblivious (\<lambda>s. P2 (w_pending s))"
  "gcOblivious (\<lambda>s. P3 (w_completed s))"
  by (simp_all add: gcOblivious_def)

lemma balanced_pruneExpired [balancing]:
  assumes "filesOnly Q" "gcOblivious Q" "ignores pendingToolDir Q" "ignores pendingDir Q" "ignores completedToolDir Q" "shrinks completedDir Q"
    and "\<And>now name. balanced Q (pruneState env now name)"
  shows "balanced Q (pruneExpired env force)"
  unfolding pruneExpired_def by (intro balancing assms)

end
