(* ===== verification/StoreUpdates.thy ===== *)
theory StoreUpdates
  imports StateStore
begin

text \<open>
  What the writes of an owner do: reasoning forward from a successful run, operations whose effect
  happens in one step, and the two properties every write has: it is refused to a retired owner, and
  it is atomic.
\<close>

section \<open>Successful runs\<close>

lemma bnd_InrE:
  assumes "bnd m f s = (Inr y, s')"
  obtains x s1 where "m s = (Inr x, s1)" "f x s1 = (Inr y, s')"
  using assms by (auto simp: bnd_def split: prod.splits sum.splits)

lemma bnd_attemptE:
  assumes "bnd (attempt m) f s = (y, s')"
  obtains r s1 where "m s = (r, s1)" "f r s1 = (y, s')"
  using assms by (auto simp: bnd_def attempt_def split: prod.splits sum.splits)

lemma ensuring_outE:
  assumes "ensuring m c s = (r, s')"
  obtains s1 where "m s = (r, s1)" "s' = snd (c s1)"
  using assms by (auto simp: ensuring_def split: prod.splits)

lemma lift_out [simp]: "(lift r s = (r', s')) = (r' = r \<and> s' = s)"
  by (auto simp: lift_def)

lemma ret_out [simp]: "(ret x s = (r, s')) = (r = Inr x \<and> s' = s)"
  by (auto simp: ret_def)

lemma raise_out [simp]: "(raise e s = (r, s')) = (r = Inl e \<and> s' = s)"
  by (auto simp: raise_def)

lemma gets_out [simp]: "(gets f s = (r, s')) = (r = Inr (f s) \<and> s' = s)"
  by (auto simp: gets_def)

lemma modify_out [simp]: "(modify f s = (r, s')) = (r = Inr () \<and> s' = f s)"
  by (auto simp: modify_def)

lemma balanced_step:
  assumes "m s = (r, s')" "balanced Q m" "leasesOk s" "Q s"
  shows "leasesOk s' \<and> w_held s' = w_held s \<and> Q s'"
  using balanced_out [OF assms(2) _ assms(4,1), of "w_held s"] assms(3) by (simp add: holding_def)

lemma keeps_tempStep_out:
  assumes "tempStep label t m u s = (Inr x, s')" "keeps P m" "P s"
  shows "P s'"
  using assms by (auto simp: tempStep_def elim!: bnd_attemptE split: sum.splits dest: keeps_out)

section \<open>One commit\<close>

text \<open>
  \<open>commits P K m\<close>: from \<open>P\<close> the operation reaches \<open>K\<close> when it succeeds, and is in \<open>P\<close> or \<open>K\<close> when
  it fails: its effect happens in one step.
\<close>

named_theorems committing \<open>introduction rules for commits\<close>

definition committed :: "(world \<Rightarrow> bool) \<Rightarrow> (world \<Rightarrow> bool) \<Rightarrow> 'a res \<Rightarrow> world \<Rightarrow> bool" where
  "committed P K r s = (case r of Inl _ \<Rightarrow> P s \<or> K s | Inr _ \<Rightarrow> K s)"

lemma committed_simps [simp]: "committed P K (Inl e) s = (P s \<or> K s)" "committed P K (Inr x) s = K s"
  by (simp_all add: committed_def)

definition commits :: "(world \<Rightarrow> bool) \<Rightarrow> (world \<Rightarrow> bool) \<Rightarrow> 'a st \<Rightarrow> bool" where
  "commits P K m = (\<forall>s. P s \<longrightarrow> sat m (committed P K) s)"

lemma commitsD: "commits P K m \<Longrightarrow> P s \<Longrightarrow> m s = (r, s') \<Longrightarrow> committed P K r s'"
  by (auto simp: commits_def sat_def)

lemma commits_raise [committing]: "commits P K (raise e)"
  by (simp add: commits_def sat_raise)

lemma commits_before:
  assumes "keeps P m" "\<And>x. commits P K (f x)"
  shows "commits P K (bnd m f)"
  unfolding commits_def sat_bnd
  by (intro allI impI sat_mono [OF keepsD [OF assms(1)]])
     (use assms(2) in \<open>auto simp: commits_def split: sum.split\<close>)

lemma keeps_committed: "keeps K m \<Longrightarrow> K s \<Longrightarrow> sat m (committed P K) s"
  by (rule sat_mono [OF keepsD [of K]]) (simp_all add: committed_def split: sum.split)

lemma commits_now:
  assumes "\<And>s. P s \<Longrightarrow> K (g s)" "keeps K m"
  shows "commits P K (bnd (modify g) (\<lambda>_. m))"
  by (simp add: commits_def sat_bnd sat_modify assms(1) keeps_committed [OF assms(2)])

lemma commits_then:
  assumes "commits P K m" "\<And>x. keeps K (f x)"
  shows "commits P K (bnd m f)"
  unfolding commits_def sat_bnd
proof (intro allI impI)
  fix s
  assume "P s"
  then have "sat m (committed P K) s"
    using assms(1) by (simp add: commits_def)
  then show "sat m (\<lambda>r s'. case r of Inl e \<Rightarrow> committed P K (Inl e) s' | Inr x \<Rightarrow> sat (f x) (committed P K) s') s"
    by (rule sat_mono) (auto simp: keeps_committed [OF assms(2)] split: sum.split)
qed

lemma commits_case_sum [committing]:
  "(\<And>e. r = Inl e \<Longrightarrow> commits P K (f e)) \<Longrightarrow> (\<And>x. r = Inr x \<Longrightarrow> commits P K (g x)) \<Longrightarrow>
     commits P K (case r of Inl e \<Rightarrow> f e | Inr x \<Rightarrow> g x)"
  by (simp split: sum.split)

lemma commits_if [committing]: "(b \<Longrightarrow> commits P K m) \<Longrightarrow> (\<not> b \<Longrightarrow> commits P K n) \<Longrightarrow> commits P K (if b then m else n)"
  by simp

lemma commits_ret [committing]: "(\<And>s. P s \<Longrightarrow> K s) \<Longrightarrow> commits P K (ret x)"
  by (simp add: commits_def sat_ret)

lemma commits_case_option [committing]:
  "(z = None \<Longrightarrow> commits P K m) \<Longrightarrow> (\<And>x. z = Some x \<Longrightarrow> commits P K (f x)) \<Longrightarrow>
     commits P K (case z of None \<Rightarrow> m | Some x \<Rightarrow> f x)"
  by (simp split: option.split)

lemma commits_gets [committing]: "(\<And>x. commits P K (f x)) \<Longrightarrow> commits P K (bnd (gets g) f)"
  by (rule commits_before [OF keeps_gets])

lemma committed_mono: "committed P K r s \<Longrightarrow> (\<And>s. K s \<Longrightarrow> K' s) \<Longrightarrow> committed P K' r s"
  by (auto simp: committed_def split: sum.splits)

lemma commits_mono: "commits P K m \<Longrightarrow> (\<And>s. K s \<Longrightarrow> K' s) \<Longrightarrow> commits P K' m"
  unfolding commits_def by (blast intro: sat_mono committed_mono)

text \<open>Replacing a file is one commit.\<close>

definition fileIs :: "'a dirField \<Rightarrow> string \<Rightarrow> 'a content option \<Rightarrow> world \<Rightarrow> bool" where
  "fileIs d name c s = (lookupFile d name s = c)"

lemma filesOnly_fileIs [simp]:
  "filesOnly (fileIs stateDir n c)" "filesOnly (fileIs pendingDir n c1)" "filesOnly (fileIs completedDir n c2)"
  by (auto simp: filesOnly_def blind_def fileIs_def lookupFile_def stateDir_def pendingDir_def completedDir_def)

lemma fileIs_update: "dirOk d \<Longrightarrow> fileIs d name (Some (Stored x)) (snd d (AList.update name (Stored x)) s)"
  by (simp add: fileIs_def dirOk_def lookupFile_def)

lemma commits_write [committing]:
  assumes "dirOk d" "blind P" "blind (fileIs d name (Some (Stored x)))"
  shows "commits P (fileIs d name (Some (Stored x))) (writeFileAtomic d dd label name x)"
  unfolding writeFileAtomic_def
  by (intro commits_before commits_now committing keeping assms fileIs_update)

section \<open>Reading a state\<close>

lemma migrate_version: "migrateRecordVersion v = Inr w \<Longrightarrow> w = stateVersion"
  by (auto simp: migrateRecordVersion_def split: if_splits)

text \<open>The five directories.\<close>

definition files :: "world \<Rightarrow> (string \<times> StateSnapshot content) list \<times> (string \<times> pendingIndex content) list
    \<times> (string \<times> toolBatchPointer content) list \<times> (string \<times> completedTombstone content) list
    \<times> (string \<times> toolBatchPointer content) list" where
  "files s = (w_states s, w_pending s, w_pendingTool s, w_completed s, w_completedTool s)"

lemma filesOnly_files [simp]: "filesOnly (\<lambda>s. files s = F)"
  by (simp add: filesOnly_def blind_def files_def)

lemma sys_out: "sys s = (r, s') \<Longrightarrow> files s' = files s \<and> w_held s' = w_held s"
  by (auto simp: sys_def files_def split: list.splits option.splits)

lemma readState_out:
  assumes "readState env name s = (Inr st, s')"
  obtains old where "lookupFile stateDir name s = Some (Stored old)" "st = old\<lparr>st_Version := stateVersion\<rparr>"
    "se_stateSize env old \<le> maxStateFileSize"
  using assms unfolding readState_def
  by (auto elim!: bnd_InrE split: option.splits content.splits if_splits
      dest!: sys_out migrate_version migrate_version [OF sym] simp: lookupFile_def stateDir_def files_def)

lemma readState_files: "readState env name s = (r, s') \<Longrightarrow> files s' = files s"
  using keeps_out [OF keeps_readState, of "\<lambda>t. files t = files s" s env name]
  by (simp add: filesOnly_blind)

text \<open>A step that reads a state first.\<close>

lemma commits_readState:
  assumes "blind P" "\<And>s. P s \<Longrightarrow> fileIs stateDir name (Some (Stored old)) s"
    and "\<And>e. commits P K (f (Inl e))" "commits P K (f (Inr (old\<lparr>st_Version := stateVersion\<rparr>)))"
  shows "commits P K (bnd (attempt (readState env name)) f)"
  unfolding commits_def sat_bnd sat_attempt
proof (intro allI impI satI)
  fix s r s'
  assume s: "P s" and r: "readState env name s = (r, s')"
  have "P s'" using keeps_out [OF keeps_readState [OF assms(1)] s r] .
  then show "case Inr r of Inl e \<Rightarrow> committed P K (Inl e) s' | Inr x \<Rightarrow> sat (f x) (committed P K) s'"
  proof (cases r)
    case (Inr st)
    with r assms(2) [OF s] have "st = old\<lparr>st_Version := stateVersion\<rparr>"
      by (auto simp: fileIs_def elim: readState_out)
    with Inr assms(4) \<open>P s'\<close> show ?thesis by (simp add: commits_def)
  qed (use assms(3) in \<open>simp add: commits_def\<close>)
qed

section \<open>Writes of an owner are atomic\<close>

text \<open>The snapshot is the one the owner has claimed: its session, generation, token, credential and conversation.\<close>

definition claimedBy :: "OwnerLease \<Rightarrow> StateSnapshot \<Rightarrow> bool" where
  "claimedBy owner st = (st_SessionID st = ol_SessionID owner \<and> st_OwnerGeneration st = ol_Generation owner
     \<and> st_OwnerToken st = ol_Token owner \<and> st_CredentialFingerprint st = ol_CredentialHash owner
     \<and> st_ConversationID st = ol_ConversationID owner)"

lemma ownerMatches_claimed: "ownerMatches st owner = claimedBy owner st"
  by (simp add: ownerMatches_def claimedBy_def)

text \<open>The stored snapshot has become one that \<open>R\<close> allows for the old one, as a whole, with the time of the write.\<close>

definition rewritten ::
  "(StateSnapshot \<Rightarrow> StateSnapshot \<Rightarrow> bool) \<Rightarrow> OwnerLease \<Rightarrow> StateSnapshot \<Rightarrow> string \<Rightarrow> world \<Rightarrow> bool" where
  "rewritten R owner old name s = (claimedBy owner old
     \<and> (\<exists>new now. R (old\<lparr>st_Version := stateVersion\<rparr>) new
          \<and> lookupFile stateDir name s = Some (Stored (new\<lparr>st_UpdatedAt := Some now\<rparr>))))"

lemma claimedBy_version [simp]: "claimedBy owner (old\<lparr>st_Version := v\<rparr>) = claimedBy owner old"
  by (simp add: claimedBy_def)

lemma filesOnly_rewritten [simp]: "filesOnly (rewritten R owner old name)"
  by (auto simp: filesOnly_def blind_def rewritten_def lookupFile_def stateDir_def)

lemma balanced_keeps_holding: "balanced Q m \<Longrightarrow> keeps (\<lambda>s. holding H s \<and> Q s) m"
  by (simp add: balanced_def)

text \<open>The same with the leases that are held all along.\<close>

lemma commits_leased:
  assumes "commits P K m" "balanced (\<lambda>_. True) m"
  shows "commits (\<lambda>s. holding H s \<and> P s) (\<lambda>s. holding H s \<and> K s) m"
proof -
  have "keeps (holding H) m" using balanced_keeps_holding [OF assms(2), of H] by simp
  then show ?thesis
    using assms(1) unfolding commits_def keeps_def sat_def committed_def
    by (auto split: prod.splits sum.splits) blast+
qed

text \<open>A step that changes no state file, and whose result is known.\<close>

lemma commits_after:
  assumes "balanced Q m" "\<And>s x s'. m s = (Inr x, s') \<Longrightarrow> commits (\<lambda>s. holding H s \<and> Q s) K (f x)"
  shows "commits (\<lambda>s. holding H s \<and> Q s) K (bnd m f)"
  unfolding commits_def sat_bnd
proof (intro allI impI satI)
  fix s r s'
  assume s: "holding H s \<and> Q s" and m: "m s = (r, s')"
  have "holding H s' \<and> Q s'" using keeps_out [OF balanced_keeps_holding [OF assms(1)] s m] .
  then show "case r of Inl e \<Rightarrow> committed (\<lambda>s. holding H s \<and> Q s) K (Inl e) s'
      | Inr x \<Rightarrow> sat (f x) (committed (\<lambda>s. holding H s \<and> Q s) K) s'"
    using assms(2) [of s _ s'] m by (cases r) (auto simp: commits_def)
qed

lemma commits_lift: "(\<And>x. r = Inr x \<Longrightarrow> commits P K (f x)) \<Longrightarrow> commits P K (bnd (lift r) f)"
  by (cases r) (auto simp: commits_def sat_bnd sat_lift)

lemma commits_update:
  fixes mutate :: "StateSnapshot \<Rightarrow> (StateSnapshot \<times> 'b) st"
  assumes p: "p = statePath env (ol_SessionID owner)"
    and quiet: "\<And>c. balanced (fileIs stateDir p (Some (Stored old))) (mutate c)"
    and change: "\<And>s new x s'. mutate (old\<lparr>st_Version := stateVersion\<rparr>) s = (Inr (new, x), s') \<Longrightarrow>
      R (old\<lparr>st_Version := stateVersion\<rparr>) new"
  shows "commits (\<lambda>s. holding H s \<and> fileIs stateDir p (Some (Stored old)) s)
    (\<lambda>s. holding H s \<and> rewritten R owner old p s) (update env owner mutate)"
proof -
  let ?Q = "fileIs stateDir p (Some (Stored old))"
  let ?P = "\<lambda>s. holding H s \<and> ?Q s" and ?K = "\<lambda>s. holding H s \<and> rewritten R owner old p s"
  have b: "blind ?P" by (rule keeping) simp
  have k: "blind ?K" by (rule keeping) simp
  have w: "commits ?P ?K (bnd (writeStateAtomic p (new\<lparr>st_UpdatedAt := Some now\<rparr>)) (\<lambda>_. ret y))"
    if "R (old\<lparr>st_Version := stateVersion\<rparr>) new" "claimedBy owner old" for new now and y :: 'b
  proof (rule commits_then [OF commits_mono [OF commits_leased]])
    show "commits ?Q (fileIs stateDir p (Some (Stored (new\<lparr>st_UpdatedAt := Some now\<rparr>))))
        (writeStateAtomic p (new\<lparr>st_UpdatedAt := Some now\<rparr>))"
      unfolding writeStateAtomic_def by (rule commits_write) (simp_all add: filesOnly_blind)
    show "balanced (\<lambda>_. True) (writeStateAtomic p (new\<lparr>st_UpdatedAt := Some now\<rparr>))" by (rule balancing) simp_all
    show "keeps ?K (ret y)" by (rule keeping)
  qed (use that in \<open>auto simp: rewritten_def fileIs_def\<close>)
  have m: "commits ?P ?K (bnd (mutate (old\<lparr>st_Version := stateVersion\<rparr>)) (\<lambda>(changed, x). bnd getNow (\<lambda>now.
      bnd (writeStateAtomic p (changed\<lparr>st_UpdatedAt := Some now\<rparr>)) (\<lambda>_. ret x))))" if "claimedBy owner old"
  proof (rule commits_after [OF quiet])
    fix s s' and x :: "StateSnapshot \<times> 'b"
    assume run: "mutate (old\<lparr>st_Version := stateVersion\<rparr>) s = (Inr x, s')"
    obtain new y where x: "x = (new, y)" by (cases x)
    show "commits ?P ?K (case x of (changed, x) \<Rightarrow> bnd getNow (\<lambda>now.
        bnd (writeStateAtomic p (changed\<lparr>st_UpdatedAt := Some now\<rparr>)) (\<lambda>_. ret x)))"
      unfolding x prod.case by (rule commits_before [OF keeps_getNow [OF b]], rule w [OF change [OF run [unfolded x]] that])
  qed
  have "commits ?P ?K (applyUpdate env owner mutate p)"
    unfolding applyUpdate_def
    by (rule commits_readState [OF b, of p old]) (use m in \<open>auto intro!: committing simp: ownerMatches_claimed\<close>)
  then show ?thesis
    unfolding update_def withOwner_def p [symmetric]
    by (intro committing) auto
qed

text \<open>
  \<open>ownsState env owner s\<close>: the owner still holds its lease and the stored snapshot is the one it claimed.
\<close>

definition ownsState :: "storeEnv \<Rightarrow> OwnerLease \<Rightarrow> world \<Rightarrow> bool" where
  "ownsState env owner s = (case ol_handle owner of None \<Rightarrow> False
     | Some h \<Rightarrow> h \<in> fst ` set (w_held s)
         \<and> (case lookupFile stateDir (statePath env (ol_SessionID owner)) s of
              Some (Stored st) \<Rightarrow> claimedBy owner st | _ \<Rightarrow> False))"

definition refused :: "world \<Rightarrow> 'a res \<times> world \<Rightarrow> bool" where
  "refused s out = (isl (fst out) \<and> files (snd out) = files s)"

lemma ownsState_same:
  "files s' = files s \<Longrightarrow> w_held s' = w_held s \<Longrightarrow> ownsState env owner s' = ownsState env owner s"
  by (cases "ol_handle owner") (simp_all add: ownsState_def lookupFile_def stateDir_def files_def)

lemma getNow_out: "getNow s = (r, s') \<Longrightarrow> files s' = files s \<and> w_held s' = w_held s"
  by (auto simp: getNow_def files_def split: list.splits)

lemma readState_same:
  assumes "readState env name s = (r, s')"
  shows "files s' = files s \<and> w_held s' = w_held s"
proof -
  have "blind (\<lambda>t. files t = files s \<and> w_held t = w_held s)" by (simp add: blind_def files_def)
  then show ?thesis using keeps_out [OF keeps_readState _ assms] by auto
qed

lemma bnd_Inl: "m s = (Inl e, s') \<Longrightarrow> bnd m f s = (Inl e, s')"
  by (simp add: bnd_def)

lemma update_refused:
  assumes "\<not> ownsState env owner s"
  shows "refused s (update env owner mutate s)"
proof (cases "ol_handle owner")
  case (Some h)
  let ?n = "statePath env (ol_SessionID owner)"
  show ?thesis
  proof (cases "h \<in> fst ` set (w_held s)")
    case True
    obtain r s' where r: "readState env ?n s = (r, s')" by fastforce
    have "refused s (applyUpdate env owner mutate ?n s)"
    proof (cases r)
      case (Inl e)
      with r readState_same [OF r] show ?thesis
        by (simp add: applyUpdate_def bnd_def attempt_def raise_def refused_def)
    next
      case (Inr st)
      then obtain old where "lookupFile stateDir ?n s = Some (Stored old)" "st = old\<lparr>st_Version := stateVersion\<rparr>"
        using r by (auto elim: readState_out)
      with assms Some True have "\<not> ownerMatches st owner" by (simp add: ownsState_def ownerMatches_claimed)
      with r Inr readState_same [OF r] show ?thesis
        by (simp add: applyUpdate_def bnd_def attempt_def raise_def refused_def)
    qed
    with Some True show ?thesis
      by (simp add: update_def withOwner_def bnd_def gets_def refused_def raise_def)
  qed (use Some in \<open>simp add: update_def withOwner_def bnd_def gets_def refused_def raise_def\<close>)
qed (simp add: update_def withOwner_def refused_def raise_def)

lemma refused_raise [simp]: "refused s (raise e s)"
  by (simp add: refused_def raise_def)

lemma refused_then: "refused s (m s) \<Longrightarrow> refused s (bnd m f s)"
  by (auto simp: refused_def bnd_def split: prod.split sum.split)

lemma refused_after:
  assumes "m s = (Inr x, s1)" "files s1 = files s" "refused s1 (f x s1)"
  shows "refused s (bnd m f s)"
  using assms by (simp add: bnd_def refused_def)

lemma refused_now:
  assumes "\<not> ownsState env owner s" "\<And>now s1. \<not> ownsState env owner s1 \<Longrightarrow> refused s1 (f now s1)"
  shows "refused s (bnd getNow f s)"
proof -
  obtain now s1 where "getNow s = (Inr now, s1)" by (simp add: getNow_def)
  with getNow_out [OF this] ownsState_same [of s1 s env owner] assms show ?thesis
    by (auto intro: refused_after)
qed

lemma refused_lift: "(\<And>x. r = Inr x \<Longrightarrow> refused s (f x s)) \<Longrightarrow> refused s (bnd (lift r) f s)"
  by (cases r) (simp_all add: bnd_def lift_def refused_def)

lemma Delete_refused:
  assumes "\<not> ownsState env owner s"
  shows "files (snd (Delete env owner s)) = files s"
proof (cases "ol_handle owner")
  case (Some h)
  let ?n = "statePath env (ol_SessionID owner)"
  obtain r s' where r: "readState env ?n s = (r, s')" by fastforce
  have "h \<in> fst ` set (w_held s) \<Longrightarrow> r = Inr st \<Longrightarrow> \<not> ownerMatches st owner" for st
    using assms Some r by (auto elim!: readState_out simp: ownsState_def ownerMatches_claimed)
  with Some r readState_same [OF r] show ?thesis
    by (cases r)
       (auto simp: Delete_def withOwner_def deleteIf_def bnd_def gets_def attempt_def raise_def ret_def)
qed (simp add: Delete_def withOwner_def raise_def)

text \<open>
  C30: An owner whose lease has been released, or whose session now has another generation, token,
  credential or conversation, cannot write: every operation that saves something fails, and leaves
  the states, the pending index and the completed snapshots as they are; \<open>Delete\<close> deletes nothing.
\<close>

theorem retired_owner_cannot_write:
  assumes "\<not> ownsState env owner s"
  shows "refused s (SaveCheckpoint env owner checkpoint blobs s)
    \<and> refused s (SavePending env owner pending s)
    \<and> refused s (SaveFollowUp env owner followUp s)
    \<and> refused s (SetBillingRunID env owner billing s)
    \<and> refused s (SaveUsageCarry env owner events s)
    \<and> refused s (SaveCompleted env owner results events ephemeral followUp s)
    \<and> refused s (SaveHistory env owner key events s)
    \<and> files (snd (Delete env owner s)) = files s"
proof (intro conjI)
  note u = update_refused [OF assms]
  show "refused s (SaveCheckpoint env owner checkpoint blobs s)" by (simp add: SaveCheckpoint_def u)
  show "refused s (SavePending env owner pending s)" by (simp add: SavePending_def refused_then u)
  show "refused s (SaveFollowUp env owner followUp s)" by (simp add: SaveFollowUp_def u)
  show "refused s (SetBillingRunID env owner billing s)" by (simp add: SetBillingRunID_def Let_def u)
  show "refused s (SaveUsageCarry env owner events s)" by (simp add: SaveUsageCarry_def u)
  show "refused s (SaveCompleted env owner results events ephemeral followUp s)"
    unfolding SaveCompleted_def by (intro refused_now [OF assms] refused_lift update_refused)
  show "refused s (SaveHistory env owner key events s)"
    unfolding SaveHistory_def by (auto intro!: refused_lift refused_now [OF assms] update_refused)
  show "files (snd (Delete env owner s)) = files s" by (rule Delete_refused [OF assms])
qed

section \<open>A small store\<close>

definition exampleStore :: storeEnv where
  "exampleStore = \<lparr>se_sha = (\<lambda>s. s), se_uuid = (\<lambda>n. ''uuid-'' @ replicate n CHR ''i''),
     se_canon = Some, se_stateSize = (\<lambda>_. 0), se_body = (\<lambda>s. int (length s)), se_rest = (\<lambda>_. 0),
     se_ttl = defaultStateTTL, se_maxFiles = maxStateFiles\<rparr>"

definition emptyWorld :: world where
  "emptyWorld = \<lparr>w_states = [], w_pending = [], w_pendingTool = [], w_completed = [], w_completedTool = [],
     w_temps = [], w_tempCount = 0, w_held = [], w_nextHandle = 0, w_faults = [], w_contended = [],
     w_now = 0, w_ticks = [], w_uuids = 0, w_lastGC = None\<rparr>"

definition exampleState :: StateSnapshot where
  "exampleState = newState\<lparr>st_Version := stateVersion, st_SessionID := ''s'', st_ConversationID := ''c'',
     st_CredentialFingerprint := ''fp'', st_OwnerGeneration := 2, st_OwnerToken := ''t2'',
     st_UpdatedAt := Some 0\<rparr>"

definition exampleOwner :: OwnerLease where
  "exampleOwner = noOwner\<lparr>ol_SessionID := ''s'', ol_Generation := 2, ol_Token := ''t2'',
     ol_CredentialHash := ''fp'', ol_ConversationID := ''c'', ol_handle := Some 0\<rparr>"

definition ownedWorld :: world where
  "ownedWorld = emptyWorld\<lparr>w_states := [(''s'', Stored exampleState)], w_held := [(0, (DirState, ''s''))],
     w_nextHandle := 1\<rparr>"

lemmas example_store = exampleStore_def emptyWorld_def exampleState_def exampleOwner_def ownedWorld_def
  noOwner_def newState_def

text \<open>The previous owner of the session, of generation 1, in a world where it has been claimed again.\<close>

lemma retired_owner_cannot_write_witness:
  "refused ownedWorld (SaveFollowUp exampleStore (exampleOwner\<lparr>ol_Generation := 1\<rparr>) ''again'' ownedWorld)
   \<and> fst (SaveFollowUp exampleStore exampleOwner ''again'' ownedWorld) = Inr ()"
proof
  have "\<not> ownsState exampleStore (exampleOwner\<lparr>ol_Generation := 1\<rparr>) ownedWorld"
    by (simp add: ownsState_def example_store statePath_def lookupFile_def stateDir_def claimedBy_def)
  from retired_owner_cannot_write [OF this]
  show "refused ownedWorld (SaveFollowUp exampleStore (exampleOwner\<lparr>ol_Generation := 1\<rparr>) ''again'' ownedWorld)"
    by blast
  show "fst (SaveFollowUp exampleStore exampleOwner ''again'' ownedWorld) = Inr ()"
    by code_simp
qed

definition atomicWrite ::
  "storeEnv \<Rightarrow> OwnerLease \<Rightarrow> StateSnapshot \<Rightarrow> world \<Rightarrow> 'a st \<Rightarrow> (StateSnapshot \<Rightarrow> StateSnapshot \<Rightarrow> bool) \<Rightarrow> bool" where
  "atomicWrite env owner old s m R = (case m s of (r, s') \<Rightarrow>
     (rewritten R owner old (statePath env (ol_SessionID owner)) s'
        \<or> isl r \<and> lookupFile stateDir (statePath env (ol_SessionID owner)) s' = Some (Stored old))
     \<and> (\<forall>n. n \<noteq> statePath env (ol_SessionID owner) \<longrightarrow> lookupFile stateDir n s' = lookupFile stateDir n s))"

lemma atomicWriteI:
  assumes "leasesOk s" "lookupFile stateDir (statePath env (ol_SessionID owner)) s = Some (Stored old)"
    and "\<And>H. commits (\<lambda>s. holding H s \<and> fileIs stateDir (statePath env (ol_SessionID owner)) (Some (Stored old)) s)
      (\<lambda>s. holding H s \<and> rewritten R owner old (statePath env (ol_SessionID owner)) s) m"
    and "\<And>n c. n \<noteq> statePath env (ol_SessionID owner) \<Longrightarrow> balanced (fileIs stateDir n c) m"
  shows "atomicWrite env owner old s m R"
proof -
  obtain r s' where m: "m s = (r, s')" by fastforce
  have "holding (w_held s) s" using assms(1) by (simp add: holding_def)
  then have "committed (\<lambda>t. holding (w_held s) t \<and> fileIs stateDir (statePath env (ol_SessionID owner)) (Some (Stored old)) t)
      (\<lambda>t. holding (w_held s) t \<and> rewritten R owner old (statePath env (ol_SessionID owner)) t) r s'"
    using assms(2) by (intro commitsD [OF assms(3) _ m]) (simp add: fileIs_def)
  moreover have "lookupFile stateDir n s' = lookupFile stateDir n s" if "n \<noteq> statePath env (ol_SessionID owner)" for n
    using balanced_step [OF m assms(4) [OF that, of "lookupFile stateDir n s"] assms(1)] by (simp add: fileIs_def)
  ultimately show ?thesis
    unfolding atomicWrite_def m prod.case by (auto simp: committed_def fileIs_def split: sum.splits)
qed

lemma fileIs_simps [simp]:
  "n \<noteq> name \<Longrightarrow> untouched stateDir name (fileIs stateDir n c)"
  "ignores completedDir (fileIs stateDir n c)" "ignores completedToolDir (fileIs stateDir n c)"
  "ignores pendingDir (fileIs stateDir n c)" "ignores pendingToolDir (fileIs stateDir n c)"
  "ignores pendingDir (rewritten R owner old n)" "ignores pendingToolDir (rewritten R owner old n)"
  by (auto simp: untouched_def ignores_def fileIs_def rewritten_def lookupFile_def stateDir_def completedDir_def
      completedToolDir_def pendingDir_def pendingToolDir_def)

text \<open>What each write makes of the stored snapshot.\<close>

lemma commits_SavePending:
  assumes p: "p = statePath env (ol_SessionID owner)"
  shows "commits (\<lambda>s. holding H s \<and> fileIs stateDir p (Some (Stored old)) s)
    (\<lambda>s. holding H s \<and> rewritten (\<lambda>c new. new = c\<lparr>st_PendingTools := pending, st_PendingBatchIDs := nextBatchIDs pending c\<rparr>) owner old p s)
    (SavePending env owner pending)"
  unfolding SavePending_def
proof (rule commits_then [OF commits_update [OF p]])
  show "keeps (\<lambda>s. holding H s \<and> rewritten (\<lambda>c new. new = c\<lparr>st_PendingTools := pending, st_PendingBatchIDs := nextBatchIDs pending c\<rparr>)
      owner old p s) (case x of (previousBatch, nextBatch) \<Rightarrow>
        syncPendingIndex env (ol_CredentialHash owner) (ol_SessionID owner) previousBatch nextBatch)" for x
    by (rule balanced_keeps_holding) (intro balancing; simp)
qed (auto simp: setPending_def intro: balancing split: sum.splits)

lemma commits_SaveCompleted:
  assumes p: "p = statePath env (ol_SessionID owner)"
  shows "commits (\<lambda>s. holding H s \<and> fileIs stateDir p (Some (Stored old)) s)
    (\<lambda>s. holding H s \<and> rewritten (\<lambda>c new. \<exists>now. new = (if followUp \<noteq> [] then c\<lparr>st_FollowUpText := followUp\<rparr> else c)
       \<lparr>st_EphemeralComplete := (st_EphemeralComplete c \<or> ephemeral \<and> st_PendingTools c = []),
         st_CompletedAt := (if ephemeral \<and> st_PendingTools c = [] then Some now else st_CompletedAt c)\<rparr>) owner old p s)
    (SaveCompleted env owner results events ephemeral followUp)"
  unfolding SaveCompleted_def
proof (rule commits_before [OF keeps_getNow], rule keeping, simp, rule commits_lift, rule commits_update [OF p])
  fix now completed c
  assume "newCompletedTombstone env owner results events ephemeral followUp now = Inr completed"
  then have "ct_UpdatedAt completed = Some now" by (auto simp: newCompletedTombstone_def split: sum.splits if_splits)
  then show "\<exists>now. new = (if followUp \<noteq> [] then old\<lparr>st_Version := stateVersion\<rparr>\<lparr>st_FollowUpText := followUp\<rparr> else old\<lparr>st_Version := stateVersion\<rparr>)
       \<lparr>st_EphemeralComplete := (st_EphemeralComplete (old\<lparr>st_Version := stateVersion\<rparr>) \<or> ephemeral \<and> st_PendingTools (old\<lparr>st_Version := stateVersion\<rparr>) = []),
         st_CompletedAt := (if ephemeral \<and> st_PendingTools (old\<lparr>st_Version := stateVersion\<rparr>) = [] then Some now
           else st_CompletedAt (old\<lparr>st_Version := stateVersion\<rparr>))\<rparr>"
    if "setCompleted env owner completed ephemeral followUp (old\<lparr>st_Version := stateVersion\<rparr>) s = (Inr (new, x), s')" for s new x s'
    using that by (auto simp: setCompleted_def completedOf_def Let_def elim!: bnd_InrE split: if_splits)
qed (intro balancing; simp)

lemma setHistory_out:
  assumes "setHistory env owner key t c s = (Inr (new, x), s')"
  shows "new = c \<or> new = clearedForHistory t c"
proof -
  have "\<And>r s'. withLease l m s = (Inr r, s') \<Longrightarrow> \<exists>s1 s2. m s1 = (Inr r, s2)" for l and m :: "(StateSnapshot \<times> unit) st"
    by (auto simp: withLease_def elim!: bnd_InrE ensuring_outE)
  from this [OF assms [unfolded setHistory_def Let_def]] show ?thesis
    by (auto elim!: bnd_InrE bnd_attemptE split: sum.splits if_splits)
qed

lemma commits_SaveHistory:
  assumes p: "p = statePath env (ol_SessionID owner)"
  shows "commits (\<lambda>s. holding H s \<and> fileIs stateDir p (Some (Stored old)) s)
    (\<lambda>s. holding H s \<and> rewritten (\<lambda>c new. new = c \<or> (\<exists>now. new = c\<lparr>st_Checkpoint := [], st_Blobs := [], st_PendingTools := [],
       st_PendingBatchIDs := [], st_EphemeralComplete := True, st_CompletedAt := Some now\<rparr>)) owner old p s)
    (SaveHistory env owner key events)"
  unfolding SaveHistory_def
proof (rule commits_if, rule commits_raise, rule commits_lift, rule commits_before [OF keeps_getNow], rule keeping, simp,
    rule commits_update [OF p])
  show "new = old\<lparr>st_Version := stateVersion\<rparr> \<or> (\<exists>now. new = old\<lparr>st_Version := stateVersion\<rparr>\<lparr>st_Checkpoint := [], st_Blobs := [],
       st_PendingTools := [], st_PendingBatchIDs := [], st_EphemeralComplete := True, st_CompletedAt := Some now\<rparr>)"
    if "setHistory env owner key (historyRecord owner key persisted handoff now) (old\<lparr>st_Version := stateVersion\<rparr>) s = (Inr (new, x), s')"
    for persisted handoff now s new x s'
    using setHistory_out [OF that] by (auto simp: clearedForHistory_def historyRecord_def)
qed (intro balancing; simp)

text \<open>
  C31: Every write of an owner is atomic, however it fails: afterwards the file of the session holds the snapshot it
  held, or, as a whole and with the time of the write, the snapshot that this write is to make of the stored
  one; when the write reports success it is the new one.  The owner then owned what was stored, and no other
  session's file has changed.  This holds for all seven writes, those of a completed answer and of a history
  answer included, which write another file and take another lease inside the update.
\<close>

theorem owner_write_atomic:
  assumes "leasesOk s"
    and "lookupFile stateDir (statePath env (ol_SessionID owner)) s = Some (Stored old)"
  shows "atomicWrite env owner old s (SaveCheckpoint env owner checkpoint blobs)
      (\<lambda>c new. new = c\<lparr>st_Checkpoint := checkpoint, st_Blobs := blobs\<rparr>)
   \<and> atomicWrite env owner old s (SavePending env owner pending)
      (\<lambda>c new. new = c\<lparr>st_PendingTools := pending, st_PendingBatchIDs := nextBatchIDs pending c\<rparr>)
   \<and> atomicWrite env owner old s (SaveFollowUp env owner followUp) (\<lambda>c new. new = c\<lparr>st_FollowUpText := trimSpace followUp\<rparr>)
   \<and> atomicWrite env owner old s (SetBillingRunID env owner billing) (\<lambda>c new. new = c\<lparr>st_BillingRunID := trimSpace billing\<rparr>)
   \<and> atomicWrite env owner old s (SaveUsageCarry env owner events) (\<lambda>c new. new = c\<lparr>st_UsageCarry := usageEvidenceEvents events\<rparr>)
   \<and> atomicWrite env owner old s (SaveCompleted env owner results events ephemeral followUp)
      (\<lambda>c new. \<exists>now. new = (if followUp \<noteq> [] then c\<lparr>st_FollowUpText := followUp\<rparr> else c)
         \<lparr>st_EphemeralComplete := (st_EphemeralComplete c \<or> ephemeral \<and> st_PendingTools c = []),
           st_CompletedAt := (if ephemeral \<and> st_PendingTools c = [] then Some now else st_CompletedAt c)\<rparr>)
   \<and> atomicWrite env owner old s (SaveHistory env owner key events)
      (\<lambda>c new. new = c \<or> (\<exists>now. new = c\<lparr>st_Checkpoint := [], st_Blobs := [], st_PendingTools := [],
         st_PendingBatchIDs := [], st_EphemeralComplete := True, st_CompletedAt := Some now\<rparr>))"
proof (intro conjI; rule atomicWriteI [OF assms])
  note u = commits_update [OF refl]
  fix H
  let ?P = "\<lambda>s. holding H s \<and> fileIs stateDir (statePath env (ol_SessionID owner)) (Some (Stored old)) s"
  let ?K = "\<lambda>R s. holding H s \<and> rewritten R owner old (statePath env (ol_SessionID owner)) s"
  show "commits ?P (?K (\<lambda>c new. new = c\<lparr>st_Checkpoint := checkpoint, st_Blobs := blobs\<rparr>)) (SaveCheckpoint env owner checkpoint blobs)"
    unfolding SaveCheckpoint_def by (rule u) (auto simp: setCheckpoint_def intro: balancing split: if_splits sum.splits)
  show "commits ?P (?K (\<lambda>c new. new = c\<lparr>st_FollowUpText := trimSpace followUp\<rparr>)) (SaveFollowUp env owner followUp)"
    unfolding SaveFollowUp_def by (rule u) (auto simp: setFollowUp_def intro: balancing)
  show "commits ?P (?K (\<lambda>c new. new = c\<lparr>st_BillingRunID := trimSpace billing\<rparr>)) (SetBillingRunID env owner billing)"
    unfolding SetBillingRunID_def Let_def by (intro commits_if commits_raise u) (auto intro: balancing)
  show "commits ?P (?K (\<lambda>c new. new = c\<lparr>st_UsageCarry := usageEvidenceEvents events\<rparr>)) (SaveUsageCarry env owner events)"
    unfolding SaveUsageCarry_def by (rule u) (auto simp: setUsageCarry_def intro: balancing)
qed (rule commits_SavePending [OF refl] commits_SaveCompleted [OF refl] commits_SaveHistory [OF refl]
  | (unfold SaveCheckpoint_def SaveFollowUp_def SetBillingRunID_def SaveUsageCarry_def Let_def)?, (intro balancing; simp))+

lemma owner_write_atomic_witness:
  "case SaveFollowUp exampleStore exampleOwner ''again'' ownedWorld of (r, s') \<Rightarrow>
     r = Inr () \<and> (\<exists>new. lookupFile stateDir ''s'' s' = Some (Stored new) \<and> st_FollowUpText new = ''again'')"
proof -
  have "leasesOk ownedWorld" and "lookupFile stateDir (statePath exampleStore (ol_SessionID exampleOwner)) ownedWorld = Some (Stored exampleState)"
    and n: "statePath exampleStore (ol_SessionID exampleOwner) = ''s''"
    by (simp_all add: leasesOk_def example_store statePath_def lookupFile_def stateDir_def)
  note atomic = owner_write_atomic [OF this(1,2), THEN conjunct2, THEN conjunct2, THEN conjunct1, of "''again''"]
  have "fst (SaveFollowUp exampleStore exampleOwner ''again'' ownedWorld) = Inr ()" "trimSpace ''again'' = ''again''"
    by code_simp+
  with atomic show ?thesis by (fastforce simp: atomicWrite_def rewritten_def n split: prod.splits)
qed

end
