(* ===== verification/StoreClaims.thy ===== *)
theory StoreClaims
  imports StoreUpdates
begin

text \<open>
  Claims, leases and expiry of the file state store: a session has one owner, a claim retires the owner
  before it, expiry leaves what is in use alone, a credential does not get another credential's context,
  and every operation gives back the leases it takes.
\<close>

section \<open>Time only makes more expire\<close>

lemma subTime_mono: "a \<le> b \<Longrightarrow> subTime a u \<le> subTime b u"
  by (simp add: subTime_def)

lemma stateExpired_mono: "stateExpired st a ttl \<Longrightarrow> a \<le> b \<Longrightarrow> stateExpired st b ttl"
  unfolding stateExpired_def by (auto split: option.splits if_splits intro: less_le_trans [OF _ subTime_mono])

lemma stateExpired_version [simp]: "stateExpired (st\<lparr>st_Version := v\<rparr>) now ttl = stateExpired st now ttl"
  by (simp add: stateExpired_def cong: option.case_cong)

lemma filesOnly_expired [simp]: "filesOnly (\<lambda>s. stateExpired st (w_now s) ttl)"
  by (auto simp: filesOnly_def blind_def elim: stateExpired_mono)

lemma filesOnly_disj: "filesOnly P \<Longrightarrow> filesOnly Q \<Longrightarrow> filesOnly (\<lambda>s. P s \<or> Q s)"
  by (auto simp: filesOnly_def blind_def)

lemma filesOnly_const [simp]: "filesOnly (\<lambda>s. c)"
  by (simp add: filesOnly_def blind_def)

section \<open>Expiry leaves live states alone\<close>

text \<open>
  The state is what it was, or it has expired and nobody held its lease.
\<close>

definition live :: "(nat \<times> lock) list \<Rightarrow> storeEnv \<Rightarrow> string \<Rightarrow> StateSnapshot \<Rightarrow> world \<Rightarrow> bool" where
  "live H env p old s = (fileIs stateDir p (Some (Stored old)) s
     \<or> ((DirState, p) \<notin> snd ` set H \<and> stateExpired old (w_now s) (se_ttl env)))"

definition gone :: "storeEnv \<Rightarrow> StateSnapshot \<Rightarrow> int \<Rightarrow> world \<Rightarrow> bool" where
  "gone env old now s = (now \<le> w_now s \<and> stateExpired old (w_now s) (se_ttl env))"

lemma filesOnly_live [simp]: "filesOnly (live H env p old)"
  using filesOnly_fileIs(1) [of p "Some (Stored old)"]
  unfolding live_def [abs_def] by (intro filesOnly_disj filesOnly_conj) simp_all

lemma filesOnly_gone [simp]: "filesOnly (gone env old now)"
  unfolding gone_def [abs_def] by (intro filesOnly_conj) simp_all

lemma ignores_live [simp]:
  "ignores pendingDir (live H env p old)" "ignores pendingToolDir (live H env p old)"
  "ignores completedDir (live H env p old)" "ignores completedToolDir (live H env p old)"
  by (simp_all add: ignores_def live_def fileIs_def lookupFile_def stateDir_def pendingDir_def pendingToolDir_def
      completedDir_def completedToolDir_def)

lemma ignores_fileIs [simp]:
  "ignores pendingDir (fileIs stateDir n c)" "ignores pendingToolDir (fileIs stateDir n c)"
  "ignores completedDir (fileIs stateDir n c)" "ignores completedToolDir (fileIs stateDir n c)"
  by (simp_all add: ignores_def fileIs_def lookupFile_def stateDir_def pendingDir_def pendingToolDir_def
      completedDir_def completedToolDir_def)

lemma ignores_gone [simp]:
  "ignores stateDir (gone env old now)" "ignores pendingDir (gone env old now)"
  "ignores pendingToolDir (gone env old now)" "ignores completedDir (gone env old now)"
  "ignores completedToolDir (gone env old now)"
  by (simp_all add: ignores_def gone_def stateDir_def pendingDir_def pendingToolDir_def
      completedDir_def completedToolDir_def)

lemma gcOblivious_live [simp]: "gcOblivious (live H env p old)"
  by (simp add: gcOblivious_def live_def fileIs_def lookupFile_def stateDir_def)

lemma gone_live: "gone env old now s \<Longrightarrow> (DirState, p) \<notin> snd ` set H \<Longrightarrow> live H env p old s"
  by (simp add: gone_def live_def)

lemma ignores_now [simp]: "ignores d Q \<Longrightarrow> dirOk d \<Longrightarrow> ignores d (\<lambda>s. now \<le> w_now s) \<Longrightarrow> ignores d (\<lambda>s. now \<le> w_now s \<and> Q s)"
  by (simp add: ignores_def)

lemma ignores_clock [simp]:
  "ignores stateDir (\<lambda>s. now \<le> w_now s)" "ignores pendingDir (\<lambda>s. now \<le> w_now s)"
  "ignores pendingToolDir (\<lambda>s. now \<le> w_now s)" "ignores completedDir (\<lambda>s. now \<le> w_now s)"
  "ignores completedToolDir (\<lambda>s. now \<le> w_now s)"
  by (simp_all add: ignores_def stateDir_def pendingDir_def pendingToolDir_def completedDir_def completedToolDir_def)

lemma untouched_live: "n \<noteq> p \<Longrightarrow> untouched stateDir n (\<lambda>s. now \<le> w_now s \<and> live H env p old s)"
  by (auto simp: untouched_def live_def fileIs_def lookupFile_def stateDir_def)

text \<open>What happens once the lease of the state has been taken.\<close>

definition pruneLeased :: "storeEnv \<Rightarrow> int \<Rightarrow> string \<Rightarrow> nat \<Rightarrow> unit st" where
  "pruneLeased env now name h =
     bnd (attempt (readState env name)) (\<lambda>latest.
     bnd (attempt (case latest of
         Inl _ \<Rightarrow> ret ()
       | Inr st' \<Rightarrow> if stateExpired st' now (se_ttl env) then expireState env name st' else ret ())) (\<lambda>r.
     case r of Inl e \<Rightarrow> bnd (attempt (releaseHandle h)) (\<lambda>_. raise e)
     | Inr _ \<Rightarrow> releaseHandle h))"

lemma gives_releasing:
  assumes "filesOnly Q" "balanced Q m"
  shows "gives Q l h (bnd (attempt m) (\<lambda>r. case r of Inl e \<Rightarrow> bnd (attempt (releaseHandle h)) (\<lambda>_. raise e)
     | Inr _ \<Rightarrow> releaseHandle h))"
  by (intro gives_before giving gives_after [OF gives_release] balancing assms)

lemma pruneLeased_live:
  assumes s: "holding ((h, (DirState, p)) # H) s" "now \<le> w_now s" "live H env p old s"
  shows "sat (pruneLeased env now p h) (\<lambda>_ s. holding H s \<and> now \<le> w_now s \<and> live H env p old s) s"
proof -
  let ?l = "(DirState, p)"
  let ?Q = "\<lambda>s. now \<le> w_now s \<and> live H env p old s"
  have fQ: "filesOnly ?Q" by (intro filesOnly_conj) simp_all
  have "w_held s = (h, ?l) # H" using s(1) by (simp add: holding_def)
  moreover have "distinct (map snd (w_held s))" using s(1) unfolding holding_def leasesOk_def by blast
  ultimately have un: "?l \<notin> snd ` set H" by simp
  obtain r s1 where r: "readState env p s = (r, s1)" by fastforce
  have s1: "holding ((h, ?l) # H) s1 \<and> ?Q s1"
    using balanced_out [OF balanced_readState [OF fQ] s(1) _ r] s(2,3) by simp
  have same: "lookupFile stateDir p s1 = lookupFile stateDir p s"
    using readState_same [OF r] by (simp add: files_def lookupFile_def stateDir_def)
  let ?m = "case r of Inl _ \<Rightarrow> ret ()
       | Inr st' \<Rightarrow> if stateExpired st' now (se_ttl env) then expireState env p st' else ret ()"
  have "sat (bnd (attempt ?m) (\<lambda>r. case r of Inl e \<Rightarrow> bnd (attempt (releaseHandle h)) (\<lambda>_. raise e)
     | Inr _ \<Rightarrow> releaseHandle h)) (\<lambda>_ s. holding H s \<and> ?Q s) s1"
  proof (cases "\<exists>st. r = Inr st \<and> stateExpired st now (se_ttl env)")
    case False
    then have m: "?m = ret ()" by (auto split: sum.split)
    show ?thesis
      unfolding m by (rule givesD [OF gives_releasing [OF fQ], OF balanced_ret]) (use s1 in auto)
  next
    case True
    then obtain st where st: "r = Inr st" "stateExpired st now (se_ttl env)" by blast
    with r obtain old' where old': "lookupFile stateDir p s = Some (Stored old')" "stateExpired old' now (se_ttl env)"
      by (auto elim!: readState_out)
    then have "stateExpired old (w_now s1) (se_ttl env)"
      using s1 same by (auto simp: live_def fileIs_def elim: stateExpired_mono)
    then have g: "gone env old now s1" using s1 by (simp add: gone_def)
    have "balanced (gone env old now) (expireState env p st)"
      by (intro balancing) simp_all
    from givesD [OF gives_releasing [OF filesOnly_gone this], of h ?l H s1] s1 g st
    show ?thesis
      by (auto elim!: sat_mono intro: gone_live [OF _ un] simp: gone_def)
  qed
  with r show ?thesis
    by (simp add: pruneLeased_def sat_def bnd_def attempt_def)
qed

lemma keeps_pruneState:
  "keeps (\<lambda>s. holding H s \<and> now \<le> w_now s \<and> live H env p old s) (pruneState env now name)"
proof (cases "name = p")
  case False
  have "balanced (\<lambda>s. now \<le> w_now s \<and> live H env p old s) (pruneState env now name)"
    by (intro balanced_pruneState filesOnly_conj prunable_simps(1) untouched_live) (use False in simp_all)
  then show ?thesis by (simp add: balanced_def)
next
  case True
  let ?Q = "\<lambda>s. now \<le> w_now s \<and> live H env p old s"
  have fQ: "filesOnly ?Q" by (intro filesOnly_conj) simp_all
  have b: "keeps (\<lambda>s. holding H s \<and> ?Q s) (readState env p)"
    using balanced_readState [OF fQ] by (simp add: balanced_def)
  have leased: "keeps (\<lambda>s. holding H s \<and> ?Q s) (bnd (attempt (acquireLease (DirState, p))) (\<lambda>l. case l of
       Inl e \<Rightarrow> if errIs e ErrStateLeaseHeld then ret () else raise e | Inr h \<Rightarrow> pruneLeased env now p h))"
    unfolding keeps_def sat_bnd sat_attempt
    by (auto intro!: sat_mono [OF sat_acquireLease [OF fQ]] pruneLeased_live
        simp: acquired_def sat_ret sat_raise split: sum.splits)
  show ?thesis
    unfolding True pruneState_def pruneLeased_def [symmetric]
    by (intro keeping leased b)
qed


lemma keeps_getNow_then:
  assumes "blind P" "\<And>now. keeps (\<lambda>s. now \<le> w_now s \<and> P s) (f now)"
  shows "keeps P (bnd getNow f)"
  unfolding keeps_def sat_bnd
proof (intro allI impI)
  fix s
  assume s: "P s"
  obtain now s1 where r: "getNow s = (Inr now, s1)" "now \<le> w_now s1"
    by (auto simp: getNow_def split: list.split)
  have "P s1" using keeps_out [OF keeps_getNow [OF assms(1)] s r(1)] .
  then have "sat (f now) (\<lambda>_. P) s1"
    using keepsD [OF assms(2), of now s1] r(2) by (auto elim!: sat_mono)
  with r(1) show "sat getNow (\<lambda>r s'. case r of Inl e \<Rightarrow> P s' | Inr x \<Rightarrow> sat (f x) (\<lambda>_. P) s') s"
    by (simp add: sat_def [of getNow])
qed

lemma keeps_pruneExpired: "keeps (\<lambda>s. holding H s \<and> live H env p old s) (pruneExpired env force)"
proof -
  let ?P = "\<lambda>s. holding H s \<and> live H env p old s"
  have b: "keeps (\<lambda>s. holding H s \<and> now \<le> w_now s \<and> live H env p old s) m"
    if "balanced (\<lambda>s. now \<le> w_now s \<and> live H env p old s) m" for m :: "'a st" and now
    using that by (simp add: balanced_def)
  have P: "blind ?P" by (intro blind_holding_files filesOnly_live)
  have all: "filesOnly (\<lambda>s. now \<le> w_now s \<and> live H env p old s)"
    "gcOblivious (\<lambda>s. now \<le> w_now s \<and> live H env p old s)"
    "ignores pendingDir (\<lambda>s. now \<le> w_now s \<and> live H env p old s)"
    "ignores pendingToolDir (\<lambda>s. now \<le> w_now s \<and> live H env p old s)"
    "shrinks completedDir (\<lambda>s. now \<le> w_now s \<and> live H env p old s)"
    "ignores completedToolDir (\<lambda>s. now \<le> w_now s \<and> live H env p old s)" for now
    by (intro filesOnly_conj, simp_all add: gcOblivious_live [unfolded gcOblivious_def] gcOblivious_def)
  have body: "keeps (\<lambda>s. now \<le> w_now s \<and> ?P s) (f now)"
    if "\<And>now. keeps (\<lambda>s. holding H s \<and> now \<le> w_now s \<and> live H env p old s) (f now)" for f :: "int \<Rightarrow> unit st" and now
    using that [of now] by (simp add: conj_left_commute)
  show ?thesis
    unfolding pruneExpired_def
    apply (rule keeps_if, rule keeps_ret, rule keeps_getNow_then [OF P], rule body)
    apply (intro keeps_bnd keeps_if keeps_gets keeps_ret keeps_case_prod keeps_forE keeps_pruneState b)
       apply (intro balancing all)+
    done
qed

section \<open>Balanced claims\<close>

lemma balanced_ResolvePending [balancing]:
  assumes "filesOnly Q" "ignores pendingToolDir Q" "ignores pendingDir Q" "balanced Q (pruneExpired env False)"
  shows "balanced Q (ResolvePending env fp ids)"
  unfolding ResolvePending_def resolveTrimmed_def Let_def by (intro balancing assms)

lemma balanced_claimReplay [balancing]: "filesOnly Q \<Longrightarrow> balanced Q (claimReplay env fp opts)"
  unfolding claimReplay_def by (intro balancing)

lemma balanced_claimStored [balancing]:
  assumes "filesOnly Q" "ignores pendingToolDir Q" "ignores pendingDir Q" "prunable stateDir name Q"
  shows "balanced Q (claimStored env name loaded)"
  unfolding claimStored_def by (intro balancing assms)

lemma balanced_claimBilling [balancing]: "uuidOk Q \<Longrightarrow> balanced Q (claimBilling env opts st)"
  unfolding claimBilling_def Let_def by (intro balancing)

lemma balanced_claimIndex [balancing]:
  assumes "filesOnly Q" "ignores pendingToolDir Q" "ignores pendingDir Q"
  shows "balanced Q (claimIndex env pfp pb st)"
  unfolding claimIndex_def by (intro balancing assms)

lemma balanced_claimWrite [balancing]:
  assumes "filesOnly Q" "ignores pendingToolDir Q" "ignores pendingDir Q" "uuidOk Q"
    and "untouched stateDir (statePath env sid) Q"
  shows "balanced Q (claimWrite env sid cid fp opts h stored)"
  unfolding claimWrite_def claimStore_def Let_def by (intro balancing assms)

lemma balanced_claimLeased [balancing]:
  assumes "filesOnly Q" "ignores pendingToolDir Q" "ignores pendingDir Q" "uuidOk Q"
    and "untouched stateDir (statePath env sid) Q"
  shows "balanced Q (claimLeased env sid cid fp opts h)"
  unfolding claimLeased_def by (intro balancing assms prunable_simps(1))

lemma uuidOk_simps [simp]: "uuidOk (\<lambda>s. c)" "uuidOk (\<lambda>s. t \<le> w_now s)" "uuidOk (\<lambda>s. n \<le> w_uuids s)"
  "uuidOk (live H env p old)"
  by (auto simp: uuidOk_def live_def fileIs_def lookupFile_def stateDir_def)

lemma balanced_leases:
  "m s = (r, s') \<Longrightarrow> balanced (\<lambda>_. True) m \<Longrightarrow> leasesOk s \<Longrightarrow> leasesOk s' \<and> w_held s' = w_held s"
  using balanced_step [of m s r s' "\<lambda>_. True"] by simp

lemma pruneExpired_leases:
  "pruneExpired env force s = (r, s') \<Longrightarrow> leasesOk s \<Longrightarrow> leasesOk s' \<and> w_held s' = w_held s"
  by (erule balanced_leases) (intro balancing, simp_all)

section \<open>The stages of a claim\<close>

text \<open>A claim that gets its lease runs \<open>claimLeased\<close> under it.\<close>

lemma ClaimE:
  assumes "Claim env sid cid fp opts s = (r, s')"
  obtains (pruning) e where "r = Inl e" "pruneExpired env False s = (Inl e, s')"
  | (refusing) e where "r = Inl e" "pruneExpired env False s = (Inr (), s')"
  | (locking) e s1 where "r = Inl e" "pruneExpired env False s = (Inr (), s1)"
      "acquireLease (DirState, statePath env (trimSpace sid)) s1 = (Inl e, s')"
  | (running) s1 h s2 rc s3 where "pruneExpired env False s = (Inr (), s1)"
      "acquireLease (DirState, statePath env (trimSpace sid)) s1 = (Inr h, s2)"
      "claimLeased env (trimSpace sid) (trimSpace cid) (trimSpace fp) opts h s2 = (rc, s3)"
      "releaseUnlessClaimed h rc s3 = (r, s')"
  using assms unfolding Claim_def Let_def bnd_def attempt_def raise_def
  by (auto split: prod.splits sum.splits if_splits)

lemma claimWrite_handle:
  assumes "claimWrite env sid cid fp opts h stored s = (Inr c, s')"
  shows "cl_Replay c = None \<and> ol_handle (cl_Owner c) = Some h"
  using assms unfolding claimWrite_def claimStore_def Let_def
  by (auto elim!: bnd_InrE split: prod.splits simp: ownerOf_def)

lemma claimLeased_handle:
  assumes "claimLeased env sid cid fp opts h s = (Inr c, s')" "cl_Replay c = None"
  shows "ol_handle (cl_Owner c) = Some h"
  using assms unfolding claimLeased_def
  by (auto elim!: bnd_InrE split: option.splits dest: claimWrite_handle)

definition claimLeases :: "(nat \<times> lock) list \<Rightarrow> lock \<Rightarrow> ClaimResult res \<Rightarrow> world \<Rightarrow> bool" where
  "claimLeases H l r s = (leasesOk s \<and>
     (case r of
       Inr c \<Rightarrow> if cl_Replay c = None
         then l \<notin> snd ` set H \<and> (\<exists>h. ol_handle (cl_Owner c) = Some h \<and> w_held s = (h, l) # H)
         else w_held s = H
     | Inl _ \<Rightarrow> w_held s = H))"

lemma claim_leases:
  assumes "leasesOk s" "Claim env sid cid fp opts s = (r, s')"
  shows "claimLeases (w_held s) (DirState, statePath env (trimSpace sid)) r s'"
proof -
  let ?l = "(DirState, statePath env (trimSpace sid))"
  have prune: "leasesOk s1 \<and> w_held s1 = w_held s" if "pruneExpired env False s = (x, s1)" for x s1
    using pruneExpired_leases [OF that assms(1)] .
  from assms(2) show ?thesis
  proof (cases rule: ClaimE)
    case (running s1 h s2 rc s3)
    have "acquired (w_held s) (\<lambda>_. True) ?l (Inr h) s2"
      using prune [OF running(1)] running(2) by (auto intro!: satD [OF sat_acquireLease] simp: holding_def)
    then have h2: "holding ((h, ?l) # w_held s) s2" by (simp add: acquired_def)
    then have h3: "holding ((h, ?l) # w_held s) s3"
      using balanced_leases [of "claimLeased env (trimSpace sid) (trimSpace cid) (trimSpace fp) opts h" s2 rc s3]
        running(3) by (simp add: holding_def balanced_claimLeased)
    have new: "?l \<notin> snd ` set (w_held s)"
      using h3 unfolding holding_def leasesOk_def by (metis distinct.simps(2) list.set_map list.simps(9) snd_conv)
    have given: "holding (w_held s) s4" if "releaseHandle h s3 = (x, s4)" for x s4
      using satD [OF sat_releaseHandle [of "\<lambda>_. True", OF _ h3] that] by simp
    show ?thesis
    proof (cases "\<exists>c. rc = Inr c \<and> cl_Replay c = None")
      case True
      then obtain c where c: "rc = Inr c" "cl_Replay c = None" by blast
      with running(4) have "r = Inr c" "s' = s3" by (simp_all add: releaseUnlessClaimed_def)
      with c running(3) h3 new show ?thesis
        by (simp add: claimLeases_def holding_def claimLeased_handle)
    next
      case False
      obtain x s4 where x: "releaseHandle h s3 = (x, s4)" by fastforce
      with False running(4) have "s' = s4" "r = rc"
        by (auto simp: releaseUnlessClaimed_def bnd_def attempt_def raise_def ret_def split: sum.splits if_splits)
      with False given [OF x] show ?thesis
        by (auto simp: claimLeases_def holding_def split: sum.split)
    qed
  next
    case (locking e s1)
    have "acquired (w_held s) (\<lambda>_. True) ?l (Inl e) s'"
      using prune [OF locking(2)] by (auto intro!: satD [OF sat_acquireLease locking(3)] simp: holding_def)
    with locking(1) show ?thesis by (simp add: claimLeases_def acquired_def holding_def)
  qed (use prune in \<open>auto simp: claimLeases_def\<close>)
qed

lemma wrapping_sys_out: "wrapping t sys s = (r, s') \<Longrightarrow> files s' = files s \<and> w_held s' = w_held s"
  by (auto simp: wrapping_def bnd_def attempt_def split: prod.splits sum.splits dest!: sys_out)

lemma bndE:
  assumes "bnd m f s = (r, s')"
  obtains e where "m s = (Inl e, s')" "r = Inl e"
  | x s1 where "m s = (Inr x, s1)" "f x s1 = (r, s')"
  using assms by (auto simp: bnd_def split: prod.splits sum.splits)

lemma bnd_liftE:
  assumes "bnd (lift r) f s = (Inr y, s')"
  obtains x where "r = Inr x" "f x s = (Inr y, s')"
  using assms by (auto simp: bnd_def lift_def split: sum.splits)

lemma retE:
  assumes "ret x s = (Inr y, s')"
  obtains "x = y" "s = s'"
  using assms by (auto simp: ret_def)

lemma acquireLease_held:
  assumes "lockHeld l s" "acquireLease l s = (r, s')"
  shows "isl r \<and> files s' = files s"
  using assms(2) unfolding acquireLease_def
proof (elim bndE, goal_cases)
  case (3 x s1 y s2)
  moreover from 3 have "lockHeld l s2"
    using assms(1) by (auto simp: lockHeld_def dest!: wrapping_sys_out)
  ultimately show ?case
    by (auto simp: tryLock_def Let_def files_def dest!: wrapping_sys_out)
qed (auto dest!: wrapping_sys_out)

lemma pruneExpired_live:
  assumes "pruneExpired env force s = (r, s')" "leasesOk s" "lookupFile stateDir p s = Some (Stored old)"
  shows "live (w_held s) env p old s'"
  using keeps_out [OF keeps_pruneExpired [of "w_held s" env p old force] _ assms(1)] assms(2,3)
  by (simp add: holding_def live_def fileIs_def)

text \<open>A held session cannot be claimed, and the attempt leaves its state alone.\<close>

lemma claim_of_held:
  assumes "leasesOk s" "Claim env sid cid fp opts s = (r, s')"
    and held: "lockHeld (DirState, statePath env (trimSpace sid)) s"
    and old: "lookupFile stateDir (statePath env (trimSpace sid)) s = Some (Stored old)"
  shows "isl r \<and> lookupFile stateDir (statePath env (trimSpace sid)) s' = Some (Stored old)"
proof -
  let ?p = "statePath env (trimSpace sid)"
  have kept: "lookupFile stateDir ?p s1 = Some (Stored old) \<and> lockHeld (DirState, ?p) s1"
    if "pruneExpired env False s = (x, s1)" for x s1
    using pruneExpired_live [OF that assms(1) old] held pruneExpired_leases [OF that assms(1)]
    by (auto simp: live_def fileIs_def lockHeld_def)
  from assms(2) show ?thesis
  proof (cases rule: ClaimE)
    case (locking e s1)
    with kept [OF locking(2)] acquireLease_held [OF _ locking(3)] show ?thesis
      by (simp add: files_def lookupFile_def stateDir_def)
  next
    case (running s1 h s2 rc s3)
    with kept [OF running(1)] acquireLease_held [OF _ running(2)] show ?thesis by simp
  qed (use kept in auto)
qed

section \<open>What a claim stores\<close>

lemma newUUID_out: "newUUID env s = (r, s') \<Longrightarrow> r = Inr (se_uuid env (w_uuids s)) \<and> w_uuids s' = Suc (w_uuids s)"
  by (auto simp: newUUID_def)

lemma claimBilling_out:
  assumes "claimBilling env opts st s = (Inr billed, s')"
  obtains u c where "billed = st\<lparr>st_BillingRunID := u, st_UsageCarry := c\<rparr>" "w_uuids s \<le> w_uuids s'"
proof -
  have "\<exists>u c. billed = st\<lparr>st_BillingRunID := u, st_UsageCarry := c\<rparr> \<and> w_uuids s \<le> w_uuids s'"
    using assms unfolding claimBilling_def Let_def
    by (auto elim!: bnd_InrE split: if_splits dest!: newUUID_out; (cases st, force)?)
  with that show ?thesis by blast
qed

definition claimedFrom ::
  "storeEnv \<Rightarrow> string \<Rightarrow> string \<Rightarrow> string \<Rightarrow> ClaimOptions \<Rightarrow> StateSnapshot option \<Rightarrow> nat \<Rightarrow> bool
   \<Rightarrow> StateSnapshot \<Rightarrow> bool" where
  "claimedFrom env sid cid fp opts stored n cold st = (\<exists>current catalog u carry k now.
     claimCurrent sid cid opts stored = Inr current \<and> claimGuards env fp opts current = Inr (catalog, cold)
     \<and> n \<le> k \<and> st = claimStamp sid cid fp opts catalog (se_uuid env k) now
         ((claimReset cid opts cold current)\<lparr>st_BillingRunID := u, st_UsageCarry := carry\<rparr>))"

lemma writeState_out: "writeStateAtomic name st s = (Inr (), s') \<Longrightarrow> lookupFile stateDir name s' = Some (Stored st)"
  using commitsD [OF commits_write [of stateDir "\<lambda>_. True" name st DirState Wrap], of s "Inr ()" s']
  by (simp add: writeStateAtomic_def filesOnly_blind fileIs_def)

lemma claimWrite_out:
  assumes "claimWrite env sid cid fp opts h stored s = (Inr c, s')" "leasesOk s"
  obtains st where "claimedFrom env sid cid fp opts stored (w_uuids s) (cl_ColdRebuild c) st"
    "lookupFile stateDir (statePath env sid) s' = Some (Stored st)"
    "cl_Owner c = ownerOf h st" "cl_Snapshot c = cloneSnapshot st"
proof -
  from assms(1) obtain current catalog cold where current: "claimCurrent sid cid opts stored = Inr current"
    and guards: "claimGuards env fp opts current = Inr (catalog, cold)"
    and store: "claimStore env sid cid fp opts h current catalog cold s = (Inr c, s')"
    unfolding claimWrite_def by (auto elim!: bnd_liftE split: prod.splits)
  from store obtain billed s1 token s2 now s3 s4 u1 u2 where
      billed: "claimBilling env opts (claimReset cid opts cold current) s = (Inr billed, s1)"
    and token: "newUUID env s1 = (Inr token, s2)" and now: "getNow s2 = (Inr now, s3)"
    and wrote: "writeStateAtomic (statePath env sid) (claimStamp sid cid fp opts catalog token now billed) s3 = (Inr u1, s4)"
    and index: "claimIndex env (st_CredentialFingerprint current) (st_PendingBatchIDs current)
          (claimStamp sid cid fp opts catalog token now billed) s4 = (Inr u2, s')"
    and c: "\<lparr>cl_Replay = None, cl_Owner = ownerOf h (claimStamp sid cid fp opts catalog token now billed),
          cl_Snapshot = cloneSnapshot (claimStamp sid cid fp opts catalog token now billed), cl_ColdRebuild = cold\<rparr> = c"
    unfolding claimStore_def Let_def
    by (elim bnd_InrE retE) simp
  let ?st = "claimStamp sid cid fp opts catalog token now billed"
  from billed obtain u carry where b: "billed = (claimReset cid opts cold current)\<lparr>st_BillingRunID := u, st_UsageCarry := carry\<rparr>"
    "w_uuids s \<le> w_uuids s1" by (rule claimBilling_out)
  have "claimedFrom env sid cid fp opts stored (w_uuids s) cold ?st"
    unfolding claimedFrom_def using current guards b newUUID_out [OF token] by auto
  moreover have "leasesOk s4"
    using assms(2) billed token now wrote
    by (auto dest!: balanced_leases simp: balanced_claimBilling balanced_newUUID balanced_getNow balanced_writeState)
  have "balanced (fileIs stateDir (statePath env sid) (Some (Stored ?st)))
      (claimIndex env (st_CredentialFingerprint current) (st_PendingBatchIDs current) ?st)"
    by (intro balancing) simp_all
  then have "lookupFile stateDir (statePath env sid) s' = Some (Stored ?st)"
    using balanced_step [of "claimIndex env (st_CredentialFingerprint current) (st_PendingBatchIDs current) ?st" s4 "Inr ()" s'
        "fileIs stateDir (statePath env sid) (Some (Stored ?st))"] index \<open>leasesOk s4\<close> writeState_out [of "statePath env sid" ?st s3 s4] wrote
    by (simp add: fileIs_def)
  moreover have "cl_Owner c = ownerOf h ?st" "cl_Snapshot c = cloneSnapshot ?st" "cl_ColdRebuild c = cold"
    using c by auto
  ultimately show thesis using that by simp
qed

text \<open>Neither the clock nor the supply of UUIDs runs backwards.\<close>

definition later :: "world \<Rightarrow> world \<Rightarrow> bool" where
  "later s t = (w_now s \<le> w_now t \<and> w_uuids s \<le> w_uuids t)"

lemma later_simps [simp]: "filesOnly (later s)" "uuidOk (later s)" "gcOblivious (later s)" "later s s"
  "ignores stateDir (later s)" "ignores pendingDir (later s)" "ignores pendingToolDir (later s)"
  "ignores completedDir (later s)" "ignores completedToolDir (later s)"
  by (auto simp: later_def filesOnly_def blind_def uuidOk_def gcOblivious_def ignores_def stateDir_def
      pendingDir_def pendingToolDir_def completedDir_def completedToolDir_def)

lemma later_trans: "later s t \<Longrightarrow> later t u \<Longrightarrow> later s u"
  by (simp add: later_def)

lemma later_step:
  assumes "m s = (r, s')" "leasesOk s" "balanced (later s) m"
  shows "leasesOk s' \<and> later s s'"
  using balanced_step [of m s r s' "later s"] assms by simp

lemma acquireLease_out:
  assumes "acquireLease l s = (Inr h, s')" "leasesOk s" "filesOnly Q" "Q s"
  shows "leasesOk s' \<and> w_held s' = (h, l) # w_held s \<and> Q s'"
  using satD [OF sat_acquireLease [OF assms(3) _ assms(4)] assms(1)] assms(2) by (simp add: acquired_def holding_def)

lemma readState_missing:
  assumes "readState env name s = (Inl e, s')" "errIs e ErrNotExist"
  shows "lookupFile stateDir name s = None"
proof -
  have sys: "sys t \<noteq> (Inl e, t')" for t t'
    using assms(2) by (auto simp: sys_def split: list.splits option.splits)
  have same: "sys t = (r, t') \<Longrightarrow> lookupFile stateDir name t' = lookupFile stateDir name t" for t r t'
    by (drule sys_out) (simp add: lookupFile_def stateDir_def files_def)
  show ?thesis
    using assms unfolding readState_def
    by (auto elim!: bndE split: option.splits content.splits if_splits sum.splits
        simp: migrateRecordVersion_def sys) (metis same)
qed

lemma claimStored_old:
  assumes out: "claimStored env name loaded s = (Inr stored, s')"
    and read: "readState env name s0 = (loaded, s1)" "lookupFile stateDir name s0 = Some (Stored old)"
    and live: "\<not> stateExpired old n (se_ttl env)" "w_now s \<le> n"
  shows "stored = Some (old\<lparr>st_Version := stateVersion\<rparr>)"
proof (cases loaded)
  case (Inl e)
  with read out readState_missing show ?thesis
    by (auto simp: claimStored_def split: if_splits)
next
  case (Inr st)
  with read have st: "st = old\<lparr>st_Version := stateVersion\<rparr>" by (auto elim!: readState_out)
  obtain s2 where "getNow s = (Inr (w_now s), s2)" by (simp add: getNow_def)
  moreover have "\<not> stateExpired st (w_now s) (se_ttl env)"
    using live st by (auto dest: stateExpired_mono)
  ultimately show ?thesis using out Inr st by (simp add: claimStored_def bnd_def ret_def)
qed

lemma attempt_out [simp]: "(attempt m s = (Inr x, s')) = (m s = (x, s'))"
  by (auto simp: attempt_def split: prod.splits)

section \<open>A successful claim\<close>

text \<open>What the claim of a session whose state was \<open>old\<close> makes of it.\<close>

definition admits :: "string \<Rightarrow> ClaimOptions \<Rightarrow> StateSnapshot \<Rightarrow> bool \<Rightarrow> StateSnapshot \<Rightarrow> bool" where
  "admits fp opts old cold st =
     ((st_PendingTools old \<noteq> [] \<longrightarrow> co_AllowPending opts)
      \<and> cold = (st_CredentialFingerprint old \<noteq> [] \<and> st_CredentialFingerprint old \<noteq> fp)
      \<and> (cold \<longrightarrow> co_AllowCredentialChange opts \<and> st_Checkpoint st = [] \<and> st_Blobs st = []
                 \<and> st_PendingTools st = [] \<and> st_PendingBatchIDs st = [])
      \<and> (\<not> cold \<and> co_HistoryRequestKey opts = []
          \<longrightarrow> st_Checkpoint st = st_Checkpoint old \<and> st_Blobs st = st_Blobs old
              \<and> st_PendingTools st = st_PendingTools old \<and> st_PendingBatchIDs st = st_PendingBatchIDs old)
      \<and> st_OwnerGeneration st = st_OwnerGeneration old + 1)"

lemma claimedFrom_admits:
  assumes "claimedFrom env sid cid fp opts (Some (old\<lparr>st_Version := v\<rparr>)) n cold st"
  shows "admits fp opts old cold st"
  using assms unfolding claimedFrom_def admits_def
  by (auto simp: claimCurrent_def claimGuards_def claimStamp_def claimReset_def Let_def split: if_splits sum.splits)

lemma claimedFrom_same:
  assumes "claimedFrom env sid cid fp opts stored n cold st"
  shows "st_SessionID st = sid \<and> st_CredentialFingerprint st = fp \<and> (\<exists>k \<ge> n. st_OwnerToken st = se_uuid env k)"
  using assms unfolding claimedFrom_def by (auto simp: claimStamp_def Let_def)

lemma claim_out:
  assumes "leasesOk s" "Claim env sid cid fp opts s = (Inr c, s')" "cl_Replay c = None"
  defines "p \<equiv> statePath env (trimSpace sid)"
  obtains st stored n h where
    "claimedFrom env (trimSpace sid) (trimSpace cid) (trimSpace fp) opts stored n (cl_ColdRebuild c) st"
    "w_uuids s \<le> n" "lookupFile stateDir p s' = Some (Stored st)" "cl_Owner c = ownerOf h st"
    "cl_Snapshot c = cloneSnapshot st" "w_held s' = (h, (DirState, p)) # w_held s"
    "\<forall>old. lookupFile stateDir p s = Some (Stored old) \<longrightarrow> \<not> stateExpired old (w_now s') (se_ttl env) \<longrightarrow>
       stored = Some (old\<lparr>st_Version := stateVersion\<rparr>)"
proof -
  from assms(2) show thesis
  proof (cases rule: ClaimE)
    case (running s1 h s2 rc s3)
    have rc: "rc = Inr c" "s' = s3"
      using running(4) assms(3)
      by (auto simp: releaseUnlessClaimed_def bnd_def attempt_def raise_def ret_def split: sum.splits if_splits prod.splits)
    let ?sid = "trimSpace sid" and ?cid = "trimSpace cid" and ?fp = "trimSpace fp"
    from running(3) rc assms(3) obtain loaded s4 s5 stored s6 where
        read: "readState env p s2 = (loaded, s4)"
      and replay: "claimReplay env ?fp opts s4 = (Inr None, s5)"
      and stored: "claimStored env p loaded s5 = (Inr stored, s6)"
      and wr: "claimWrite env ?sid ?cid ?fp opts h stored s6 = (Inr c, s')"
      unfolding claimLeased_def p_def by (auto elim!: bnd_attemptE bnd_InrE split: option.splits)
    have l1: "leasesOk s1 \<and> later s s1"
      by (rule later_step [of "pruneExpired env False", OF running(1) assms(1)]) (intro balancing, simp_all)
    have l2: "leasesOk s2 \<and> w_held s2 = (h, (DirState, p)) # w_held s1 \<and> later s1 s2"
      using acquireLease_out [OF running(2), of "later s1"] l1 by (simp add: p_def)
    have l4: "leasesOk s4 \<and> later s2 s4"
      by (rule later_step [of "readState env p", OF read]) (use l2 in \<open>auto intro: balancing\<close>)
    have l5: "leasesOk s5 \<and> later s4 s5"
      by (rule later_step [of "claimReplay env ?fp opts", OF replay]) (use l4 in \<open>auto intro: balancing\<close>)
    have l6: "leasesOk s6 \<and> later s5 s6"
      by (rule later_step [of "claimStored env p loaded", OF stored]) (use l5 in \<open>auto intro: balancing\<close>)
    have l7: "later s6 s'"
      using later_step [of "claimWrite env ?sid ?cid ?fp opts h stored", OF wr] l6 by (simp add: balanced_claimWrite)
    have held: "w_held s' = (h, (DirState, p)) # w_held s"
      using claim_leases [OF assms(1,2)] assms(3) claimLeased_handle [of env ?sid ?cid ?fp opts h s2 c s'] running(3) rc
      by (simp add: claimLeases_def p_def)
    have old: "stored = Some (old\<lparr>st_Version := stateVersion\<rparr>)"
      if "lookupFile stateDir p s = Some (Stored old)" "\<not> stateExpired old (w_now s') (se_ttl env)" for old
    proof -
      have "live (w_held s) env p old s1"
        using pruneExpired_live [OF running(1) assms(1) that(1)] .
      then have "live (w_held s) env p old s2"
        using acquireLease_out [OF running(2), of "live (w_held s) env p old"] l1 by simp
      moreover have "w_now s2 \<le> w_now s'"
        using l4 l5 l6 l7 by (simp add: later_def)
      ultimately have "lookupFile stateDir p s2 = Some (Stored old)"
        using that(2) by (auto simp: live_def fileIs_def dest: stateExpired_mono)
      then show ?thesis
        by (rule claimStored_old [OF stored read _ that(2)]) (use l6 l7 in \<open>auto simp: later_def\<close>)
    qed
    from wr l6 obtain st where st: "claimedFrom env ?sid ?cid ?fp opts stored (w_uuids s6) (cl_ColdRebuild c) st"
      "lookupFile stateDir p s' = Some (Stored st)" "cl_Owner c = ownerOf h st" "cl_Snapshot c = cloneSnapshot st"
      unfolding p_def by (auto elim: claimWrite_out)
    have "w_uuids s \<le> w_uuids s6" using l1 l2 l4 l5 l6 by (simp add: later_def)
    with st held old show thesis by (intro that) blast+
  qed (use assms(2) in auto)
qed

definition defaultClaim :: ClaimOptions where
  "defaultClaim = \<lparr>co_RuntimeProfile = [], co_HistoryRequestKey = [], co_AllowPending = False,
     co_RequireExisting = False, co_AllowCredentialChange = False, co_ToolCatalogDigest = [],
     co_ToolCatalog = [], co_RequireToolCatalog = False, co_NewBillingRunID = [], co_ReuseBillingRun = False\<rparr>"


section \<open>The properties\<close>

text \<open>
  C32: A session has at most one owner.  A successful claim adds exactly the session's lease, which nobody
  held, to the leases in force and hands it to the owner; a claim that fails, or that is answered from a
  stored history answer, leaves the leases as they were.  While the lease is held every other claim of the
  session fails and the session's state is not touched, not even when it has expired.
\<close>

theorem claims_exclude:
  assumes "leasesOk s" and "Claim env sid cid fp opts s = (r, s')"
  shows "claimLeases (w_held s) (DirState, statePath env (trimSpace sid)) r s'
    \<and> (lockHeld (DirState, statePath env (trimSpace sid)) s \<longrightarrow>
         isl r \<and> (\<forall>old. lookupFile stateDir (statePath env (trimSpace sid)) s = Some (Stored old) \<longrightarrow>
                      lookupFile stateDir (statePath env (trimSpace sid)) s' = Some (Stored old)))"
proof -
  have "isl r" if held: "lockHeld (DirState, statePath env (trimSpace sid)) s"
    using assms(2)
  proof (cases rule: ClaimE)
    case (running s1 h s2 rc s3)
    have "lockHeld (DirState, statePath env (trimSpace sid)) s1"
      using held pruneExpired_leases [OF running(1) assms(1)] by (simp add: lockHeld_def)
    from acquireLease_held [OF this running(2)] show ?thesis by simp
  qed simp_all
  with claim_leases [OF assms] claim_of_held [OF assms] show ?thesis by blast
qed

lemma claims_exclude_witness:
  "isl (fst (Claim exampleStore ''s'' ''c'' ''fp'' (defaultClaim\<lparr>co_AllowPending := True\<rparr>) ownedWorld))"
proof -
  have "leasesOk ownedWorld" and "lockHeld (DirState, statePath exampleStore (trimSpace ''s'')) ownedWorld"
    by (simp_all add: leasesOk_def lockHeld_def example_store statePath_def go_str)
  with claims_exclude [OF this(1) prod.collapse [symmetric]] show ?thesis by blast
qed

text \<open>
  A successful claim takes the session over: the state file holds the snapshot that is returned (up to
  the usage evidence a copy keeps) under the session and the credential of the claim, with a token that
  nobody has seen before, and the new owner owns it.  An owner of the unexpired state before the claim is no
  longer its owner.
\<close>

theorem claim_takes_over:
  assumes "leasesOk s" and "Claim env sid cid fp opts s = (Inr c, s')" and "cl_Replay c = None"
  shows "\<exists>st. lookupFile stateDir (statePath env (trimSpace sid)) s' = Some (Stored st)
    \<and> cl_Snapshot c = cloneSnapshot st \<and> ownsState env (cl_Owner c) s'
    \<and> st_SessionID st = trimSpace sid \<and> st_CredentialFingerprint st = trimSpace fp
    \<and> (\<exists>k \<ge> w_uuids s. st_OwnerToken st = se_uuid env k)
    \<and> (\<forall>old owner. lookupFile stateDir (statePath env (trimSpace sid)) s = Some (Stored old)
         \<and> \<not> stateExpired old (w_now s') (se_ttl env) \<and> ownerMatches old owner \<longrightarrow> \<not> ownerMatches st owner)"
proof -
  obtain st stored n h where st:
    "claimedFrom env (trimSpace sid) (trimSpace cid) (trimSpace fp) opts stored n (cl_ColdRebuild c) st"
    "w_uuids s \<le> n" "lookupFile stateDir (statePath env (trimSpace sid)) s' = Some (Stored st)"
    "cl_Owner c = ownerOf h st" "cl_Snapshot c = cloneSnapshot st"
    "w_held s' = (h, (DirState, statePath env (trimSpace sid))) # w_held s"
    and old: "\<forall>old. lookupFile stateDir (statePath env (trimSpace sid)) s = Some (Stored old) \<longrightarrow>
       \<not> stateExpired old (w_now s') (se_ttl env) \<longrightarrow> stored = Some (old\<lparr>st_Version := stateVersion\<rparr>)"
    by (rule claim_out [OF assms])
  note same = claimedFrom_same [OF st(1)]
  have "ownsState env (cl_Owner c) s'"
    using st(3,4,6) same by (simp add: ownsState_def ownerOf_def claimedBy_def)
  moreover have "\<not> ownerMatches st owner"
    if "lookupFile stateDir (statePath env (trimSpace sid)) s = Some (Stored prev)"
      "\<not> stateExpired prev (w_now s') (se_ttl env)" "ownerMatches prev owner" for prev owner
    using claimedFrom_admits [OF st(1) [unfolded old [rule_format, OF that(1,2)]]] that(3)
    by (auto simp: admits_def ownerMatches_def)
  ultimately show ?thesis using st(2,3,5) same by (auto intro: order_trans)
qed

text \<open>The session of \<open>ownedWorld\<close> after its owner has released it.\<close>

definition freeWorld :: world where
  "freeWorld = ownedWorld\<lparr>w_held := []\<rparr>"

lemma freeWorld_claim:
  "\<exists>c s'. Claim exampleStore ''s'' ''c'' ''fp'' defaultClaim freeWorld = (Inr c, s') \<and> cl_Replay c = None
     \<and> \<not> stateExpired exampleState (w_now s') (se_ttl exampleStore)"
proof -
  let ?out = "Claim exampleStore ''s'' ''c'' ''fp'' defaultClaim freeWorld"
  have "(case fst ?out of Inl _ \<Rightarrow> False | Inr c \<Rightarrow> Option.is_none (cl_Replay c))"
    by code_simp
  moreover have "\<not> stateExpired exampleState (w_now (snd ?out)) (se_ttl exampleStore)"
    by code_simp
  ultimately show ?thesis
    by (cases ?out) (auto split: sum.splits simp: Option.is_none_def)
qed

lemma freeWorld_simps [simp]: "leasesOk freeWorld"
  "lookupFile stateDir (statePath exampleStore (trimSpace ''s'')) freeWorld = Some (Stored exampleState)"
  by (simp_all add: freeWorld_def leasesOk_def example_store statePath_def lookupFile_def stateDir_def go_str)

lemma claim_takes_over_witness:
  "\<exists>c s'. Claim exampleStore ''s'' ''c'' ''fp'' defaultClaim freeWorld = (Inr c, s')
     \<and> ownsState exampleStore (cl_Owner c) s'"
  using freeWorld_claim claim_takes_over [OF freeWorld_simps(1), of exampleStore "''s''" "''c''" "''fp''" defaultClaim]
  by blast


text \<open>
  C33: A claim respects the state it finds, as long as that has not expired.  A session that waits for tool
  results is only claimed by a request that allows it.  A session of another credential is only claimed when
  the request allows the change, and then none of its checkpoint, blobs or pending tools is kept; otherwise
  (and unless a history request starts over) all of them are.  The generation goes up by one.
\<close>

theorem claim_respects_stored:
  assumes "leasesOk s" and "Claim env sid cid fp opts s = (Inr c, s')" and "cl_Replay c = None"
    and "lookupFile stateDir (statePath env (trimSpace sid)) s = Some (Stored old)"
    and "\<not> stateExpired old (w_now s') (se_ttl env)"
  shows "\<exists>st. lookupFile stateDir (statePath env (trimSpace sid)) s' = Some (Stored st)
    \<and> admits (trimSpace fp) opts old (cl_ColdRebuild c) st"
proof -
  from claim_out [OF assms(1-3)] assms(4,5) obtain st n where
    "claimedFrom env (trimSpace sid) (trimSpace cid) (trimSpace fp) opts
        (Some (old\<lparr>st_Version := stateVersion\<rparr>)) n (cl_ColdRebuild c) st"
    "lookupFile stateDir (statePath env (trimSpace sid)) s' = Some (Stored st)"
    by metis
  then show ?thesis using claimedFrom_admits by blast
qed

lemma claim_respects_stored_witness:
  "\<exists>c s' st. Claim exampleStore ''s'' ''c'' ''fp'' defaultClaim freeWorld = (Inr c, s')
     \<and> admits (trimSpace ''fp'') defaultClaim exampleState (cl_ColdRebuild c) st"
  using freeWorld_claim claim_respects_stored [OF freeWorld_simps(1) _ _ freeWorld_simps(2), of "''c''" "''fp''" defaultClaim]
  by blast


text \<open>
  C34: Expiry only takes what nobody uses: after a collection a state is what it was before, unless it has
  expired by now and its lease was free when the collection began.
\<close>

theorem collection_keeps_live_states:
  assumes "leasesOk s" and "pruneExpired env force s = (r, s')"
    and "lookupFile stateDir p s = Some (Stored old)"
  shows "lookupFile stateDir p s' = Some (Stored old)
    \<or> (stateExpired old (w_now s') (se_ttl env) \<and> \<not> lockHeld (DirState, p) s)"
  using pruneExpired_live [OF assms(2,1,3)] by (auto simp: live_def fileIs_def lockHeld_def)

lemma collection_keeps_live_states_witness:
  "lookupFile stateDir ''s'' (snd (pruneExpired exampleStore True ownedWorld)) = Some (Stored exampleState)"
proof -
  have "leasesOk ownedWorld" "lookupFile stateDir ''s'' ownedWorld = Some (Stored exampleState)"
    "lockHeld (DirState, ''s'') ownedWorld"
    by (simp_all add: leasesOk_def lockHeld_def example_store lookupFile_def stateDir_def)
  with collection_keeps_live_states [OF this(1) prod.collapse [symmetric] this(2)] show ?thesis
    by simp
qed

text \<open>
  C35: Whatever the operations of the store return and whatever fails on the way, the leases they take are
  given back: afterwards exactly the leases of the owners are held, as before.
\<close>

theorem operations_return_leases:
  assumes "leasesOk s"
  shows "w_held (snd (SaveCheckpoint env owner checkpoint blobs s)) = w_held s
    \<and> w_held (snd (SavePending env owner pending s)) = w_held s
    \<and> w_held (snd (SaveCompleted env owner results events ephemeral followUp s)) = w_held s
    \<and> w_held (snd (SaveHistory env owner key events s)) = w_held s
    \<and> w_held (snd (Delete env owner s)) = w_held s
    \<and> w_held (snd (DeleteSession env sid fp s)) = w_held s
    \<and> w_held (snd (ResolvePending env fp ids s)) = w_held s
    \<and> w_held (snd (LookupCompleted env fp results followUp s)) = w_held s
    \<and> w_held (snd (LookupHistory env fp key s)) = w_held s
    \<and> w_held (snd (newFileStateStore env root s)) = w_held s"
proof -
  have held: "w_held (snd (m s)) = w_held s" if "balanced (\<lambda>_. True) m" for m :: "'b st"
    using balanced_leases [of m s "fst (m s)" "snd (m s)"] that assms by simp
  have open_: "balanced (\<lambda>_. True) (newFileStateStore env root)"
    unfolding newFileStateStore_def by (intro balancing) simp_all
  show ?thesis
  proof (intro conjI)
    show "w_held (snd (SaveCheckpoint env owner checkpoint blobs s)) = w_held s"
      unfolding SaveCheckpoint_def by (rule held) (intro balancing; simp)
    show "w_held (snd (SavePending env owner pending s)) = w_held s"
      by (rule held) (intro balancing; simp)
    show "w_held (snd (SaveCompleted env owner results events ephemeral followUp s)) = w_held s"
      by (rule held) (intro balancing; simp)
    show "w_held (snd (SaveHistory env owner key events s)) = w_held s"
      by (rule held) (intro balancing; simp)
    show "w_held (snd (Delete env owner s)) = w_held s"
      by (rule held) (intro balancing; simp)
    show "w_held (snd (DeleteSession env sid fp s)) = w_held s"
      by (rule held) (intro balancing; simp)
    show "w_held (snd (ResolvePending env fp ids s)) = w_held s"
      by (rule held) (intro balancing; simp)
    show "w_held (snd (LookupCompleted env fp results followUp s)) = w_held s"
      by (rule held) (intro balancing; simp)
    show "w_held (snd (LookupHistory env fp key s)) = w_held s"
      by (rule held) (intro balancing; simp)
    show "w_held (snd (newFileStateStore env root s)) = w_held s"
      by (rule held [OF open_])
  qed
qed

lemma operations_return_leases_witness:
  "w_held (snd (ResolvePending exampleStore ''fp'' [''a''] (ownedWorld\<lparr>w_faults := [None, Some ''disk'']\<rparr>)))
     = [(0, (DirState, ''s''))]"
proof -
  have "leasesOk (ownedWorld\<lparr>w_faults := [None, Some ''disk'']\<rparr>)"
    by (simp add: leasesOk_def example_store)
  with operations_return_leases [of "ownedWorld\<lparr>w_faults := [None, Some ''disk'']\<rparr>"] show ?thesis
    by (simp add: example_store)
qed

end
