(* ===== verification/StoreLookups.thy ===== *)
theory StoreLookups
  imports StoreClaims
begin

text \<open>
  Looking up a completed snapshot: lookups only remove snapshots, and what they return is a snapshot of the
  same credential, follow-up text and results.
\<close>

section \<open>Looking up only removes\<close>

lemma completedExpired_mono:
  "completedTombstoneExpired t a ttl \<Longrightarrow> a \<le> b \<Longrightarrow> completedTombstoneExpired t b ttl"
  unfolding completedTombstoneExpired_def Let_def
  by (auto split: option.splits if_splits intro: less_le_trans [OF _ subTime_mono])

text \<open>\<open>fewer s t\<close>: every completed snapshot of \<open>t\<close> was there in \<open>s\<close>, which is not later.\<close>

definition fewer :: "world \<Rightarrow> world \<Rightarrow> bool" where
  "fewer s t = (w_now s \<le> w_now t \<and>
     (\<forall>n c. lookupFile completedDir n t = Some c \<longrightarrow> lookupFile completedDir n s = Some c))"

lemma fewer_simps [simp]: "filesOnly (fewer s)" "gcOblivious (fewer s)" "shrinks completedDir (fewer s)" "fewer s s"
  "ignores stateDir (fewer s)" "ignores pendingDir (fewer s)" "ignores pendingToolDir (fewer s)"
  "ignores completedToolDir (fewer s)"
  by (auto simp: fewer_def filesOnly_def blind_def gcOblivious_def ignores_def shrinks_def prunable_def stateDir_def
      pendingDir_def pendingToolDir_def completedDir_def completedToolDir_def lookupFile_def)

lemma fewer_trans: "fewer s t \<Longrightarrow> fewer t u \<Longrightarrow> fewer s u"
  by (simp add: fewer_def)

lemma fewer_step: "m s = (r, s') \<Longrightarrow> leasesOk s \<Longrightarrow> balanced (fewer s) m \<Longrightarrow> leasesOk s' \<and> fewer s s'"
  using balanced_step [of m s r s' "fewer s"] by simp

lemma withLease_InrE:
  assumes "withLease l m s = (Inr x, s')" "leasesOk s" "filesOnly Q" "Q s"
  obtains s1 s2 where "m s1 = (Inr x, s2)" "leasesOk s1" "Q s1"
proof -
  from assms(1) obtain h s1 where h: "acquirePendingIndexLease l s = (Inr h, s1)"
    and m: "ensuring m (releaseHandle h) s1 = (Inr x, s')"
    unfolding withLease_def by (elim bnd_InrE)
  have "leasesOk s1 \<and> Q s1"
    using satD [OF sat_acquireRetry [OF assms(3) _ assms(4)] h [unfolded acquirePendingIndexLease_def], of "w_held s"] assms(2)
    by (simp add: holding_def acquired_def)
  with m that show thesis by (elim ensuring_outE) blast
qed

lemma readFile_out:
  assumes "readFile completedDir u name s = (Inr x, s')"
  shows "lookupFile completedDir name s = Some (Stored x)"
  using assms unfolding readFile_def
  by (auto elim!: bnd_InrE dest!: sys_out split: option.splits content.splits
      simp: lookupFile_def completedDir_def files_def)

definition normalTombstone :: "completedTombstone \<Rightarrow> completedTombstone" where
  "normalTombstone t = t\<lparr>ct_Version := stateVersion, ct_BatchIDs := normalizeToolIDs (ct_BatchIDs t)\<rparr>"

lemma readTombstone_out:
  assumes "readCompletedTombstoneFile name s = (Inr t, s')"
  obtains t0 where "lookupFile completedDir name s = Some (Stored t0)" "t = normalTombstone t0"
  using assms unfolding readCompletedTombstoneFile_def normalTombstone_def
  by (auto elim!: bnd_InrE bnd_liftE dest!: readFile_out migrate_version migrate_version [OF sym])

section \<open>A replay answers the same results\<close>

definition answers :: "storeEnv \<Rightarrow> string \<Rightarrow> CompletedToolResult list \<Rightarrow> string \<Rightarrow> world \<Rightarrow> completedTombstone \<Rightarrow> bool" where
  "answers env fp canonical followUp s t = (\<exists>name t0 matched.
     lookupFile completedDir name s = Some (Stored t0) \<and> t = normalTombstone t0
     \<and> ct_CredentialFingerprint t = fp \<and> normalizeFollowUp (ct_FollowUpText t) = normalizeFollowUp followUp
     \<and> \<not> completedTombstoneExpired t (w_now s) (se_ttl env)
     \<and> completedResultsForBatch canonical (ct_BatchIDs t) = Some matched
     \<and> ct_ResultDigest t = toolResultDigest (se_sha env) matched)"

lemma answers_earlier: "answers env fp c f t x \<Longrightarrow> fewer s t \<Longrightarrow> answers env fp c f s x"
  unfolding answers_def fewer_def by (auto dest: completedExpired_mono)

lemma readCompleted_out:
  assumes "readCompletedTombstone env fp ids f s = (Inr t, s')" "leasesOk s"
  obtains name t0 where "lookupFile completedDir name s = Some (Stored t0)" "t = normalTombstone t0"
proof -
  have here: "\<exists>name t0. lookupFile completedDir name s = Some (Stored t0) \<and> t = normalTombstone t0"
    if "readCompletedTombstoneFile n s1 = (Inr t, s2)" "fewer s s1" for n s1 s2
    using that(1) by (rule readTombstone_out) (use that(2) in \<open>auto simp: fewer_def\<close>)
  from assms obtain s1 s2 where s1: "leasesOk s1" "fewer s s1"
    and m: "bnd (attempt (readCompletedTombstoneFile (completedIndexName env fp ids f))) (\<lambda>r. case r of
           Inl e \<Rightarrow> if errIs e ErrNotExist \<and> normalizeFollowUp f \<noteq> []
                     then readBaseTombstone env fp ids else raise e
         | Inr t \<Rightarrow> ret t) s1 = (Inr t, s2)"
    unfolding readCompletedTombstone_def Let_def by (elim withLease_InrE [of _ _ _ _ _ "fewer s"]) simp_all
  from m obtain r s3 where r: "readCompletedTombstoneFile (completedIndexName env fp ids f) s1 = (r, s3)"
    and k: "(case r of Inl e \<Rightarrow> if errIs e ErrNotExist \<and> normalizeFollowUp f \<noteq> []
                     then readBaseTombstone env fp ids else raise e | Inr t \<Rightarrow> ret t) s3 = (Inr t, s2)"
    by (elim bnd_attemptE)
  have "leasesOk s3 \<and> fewer s1 s3"
    by (rule fewer_step [of "readCompletedTombstoneFile (completedIndexName env fp ids f)", OF r s1(1)])
       (intro balancing, simp)
  with s1(2) have s3: "leasesOk s3" "fewer s s3" by (auto intro: fewer_trans)
  show thesis
  proof (cases r)
    case (Inr t1)
    with k have "t1 = t" by simp
    with r Inr s1(2) here that show thesis by blast
  next
    case (Inl e)
    with k have b: "readBaseTombstone env fp ids s3 = (Inr t, s2)" by (auto split: if_splits)
    then obtain s4 s5 where "readCompletedTombstoneFile (completedIndexName env fp ids []) s4 = (Inr t, s5)" "fewer s3 s4"
      unfolding readBaseTombstone_def Let_def using s3(1) by (elim withLease_InrE [of _ _ _ _ _ "fewer s3"]) simp_all
    with here s3(2) that show thesis by (blast intro: fewer_trans)
  qed
qed

lemma match_out:
  assumes "matchCompletedTombstone env fp ids canonical f s = (Inr t, s')" "leasesOk s"
  shows "answers env fp canonical f s t \<and> ct_BatchIDs t = ids"
proof -
  from assms(1) obtain r s1 where r: "readCompletedTombstone env fp ids f s = (r, s1)"
    and k: "(case r of
       Inl e \<Rightarrow> if errIs e ErrNotExist then raise ErrSessionNotPending else raise e
     | Inr t \<Rightarrow>
         if ct_CredentialFingerprint t \<noteq> fp \<or> ct_BatchIDs t \<noteq> ids then raise ErrSessionNotPending
         else if normalizeFollowUp (ct_FollowUpText t) \<noteq> normalizeFollowUp f then raise ErrSessionNotPending
         else bnd getNow (\<lambda>now.
           if completedTombstoneExpired t now (se_ttl env)
           then bnd (removeExpiredCompletedTombstone env fp ids f) (\<lambda>_. raise ErrSessionNotPending)
           else case completedResultsForBatch canonical ids of
             None \<Rightarrow> raise ErrSessionNotPending
           | Some matched \<Rightarrow>
               if ct_ResultDigest t \<noteq> toolResultDigest (se_sha env) matched then raise ErrToolResultConflict
               else ret t)) s1 = (Inr t, s')"
    unfolding matchCompletedTombstone_def by (elim bnd_attemptE)
  from r k obtain "r = Inr t" by (auto split: sum.splits if_splits option.splits elim!: bnd_InrE)
  moreover have "w_now s \<le> w_now s1"
    using fewer_step [of "readCompletedTombstone env fp ids f", OF r assms(2)] by (simp add: balancing fewer_def)
  then have "\<not> completedTombstoneExpired x (w_now s1) (se_ttl env) \<Longrightarrow> \<not> completedTombstoneExpired x (w_now s) (se_ttl env)" for x
    by (auto dest: completedExpired_mono)
  moreover have "getNow s1 = (Inr x, s2) \<Longrightarrow> x = w_now s1" for x s2 by (simp add: getNow_def)
  ultimately show ?thesis
    using k r assms(2) unfolding answers_def
    by (auto split: if_splits option.splits elim!: bnd_InrE readCompleted_out) blast
qed

lemma coveringTombstones_out:
  assumes "lookupCoveringLoop env fp canonical f submitted ids seen found conflict s = (Inr (found', conflict'), s')"
    and "leasesOk s" "\<forall>t \<in> set found. answers env fp canonical f s0 t" "fewer s0 s"
  shows "\<forall>t \<in> set found'. answers env fp canonical f s0 t"
  using assms
proof (induction ids arbitrary: s seen found conflict)
  case Nil
  then show ?case by simp
next
  case (Cons i ids)
  from Cons.prems(1) obtain r s1 where r: "readCompletedToolPointer env fp i s = (r, s1)"
    and k: "(case r of
       Inl e \<Rightarrow>
         if errIs e ErrNotExist then lookupCoveringLoop env fp canonical f submitted ids seen found conflict
         else raise e
     | Inr pointer \<Rightarrow>
         let key = join NUL (tp_BatchIDs pointer) in
         if tp_CredentialFingerprint pointer \<noteq> fp \<or> \<not> batchSubsetOf (tp_BatchIDs pointer) submitted
            \<or> key \<in> set seen
         then lookupCoveringLoop env fp canonical f submitted ids seen found conflict
         else bnd (attempt (matchCompletedTombstone env fp (tp_BatchIDs pointer) canonical f)) (\<lambda>m. case m of
           Inl e \<Rightarrow>
             if errIs e ErrSessionNotPending
             then lookupCoveringLoop env fp canonical f submitted ids (key # seen) found conflict
             else if errIs e ErrToolResultConflict
             then lookupCoveringLoop env fp canonical f submitted ids (key # seen) found True
             else raise e
         | Inr t \<Rightarrow> lookupCoveringLoop env fp canonical f submitted ids (key # seen) (found @ [t]) conflict)) s1
       = (Inr (found', conflict'), s')"
    unfolding lookupCoveringLoop.simps by (elim bnd_attemptE)
  have "leasesOk s1 \<and> fewer s s1"
    by (rule fewer_step [of "readCompletedToolPointer env fp i", OF r Cons.prems(2)])
       (simp add: readCompletedToolPointer_def balancing)
  with Cons.prems(4) have s1: "leasesOk s1" "fewer s0 s1" by (auto intro: fewer_trans)
  have IH: "\<forall>t \<in> set found'. answers env fp canonical f s0 t"
    if "lookupCoveringLoop env fp canonical f submitted ids seen2 found2 conflict2 s2 = (Inr (found', conflict'), s')"
      "leasesOk s2" "fewer s0 s2" "\<forall>t \<in> set found2. answers env fp canonical f s0 t" for seen2 found2 conflict2 s2
    using Cons.IH [OF that(1,2,4,3)] .
  have matched: "leasesOk s2 \<and> fewer s0 s2 \<and> (\<forall>t. m = Inr t \<longrightarrow> answers env fp canonical f s0 t)"
    if "matchCompletedTombstone env fp b canonical f s1 = (m, s2)" for b m s2
  proof -
    have "leasesOk s2 \<and> fewer s1 s2"
      by (rule fewer_step [of "matchCompletedTombstone env fp b canonical f", OF that s1(1)]) (intro balancing; simp)
    moreover have "answers env fp canonical f s0 t" if "m = Inr t" for t
      using match_out [of env fp b canonical f s1 t s2] \<open>matchCompletedTombstone env fp b canonical f s1 = (m, s2)\<close> that s1
      by (auto intro: answers_earlier)
    ultimately show ?thesis using s1 by (auto intro: fewer_trans)
  qed
  show ?case
  proof (cases r)
    case (Inl e)
    with k IH s1 Cons.prems(3) show ?thesis by (simp split: if_splits)
  next
    case (Inr pointer)
    show ?thesis
    proof (cases "tp_CredentialFingerprint pointer \<noteq> fp \<or> \<not> batchSubsetOf (tp_BatchIDs pointer) submitted
            \<or> join NUL (tp_BatchIDs pointer) \<in> set seen")
      case True
      with k Inr IH s1 Cons.prems(3) show ?thesis by (simp add: Let_def)
    next
      case False
      with k Inr obtain m s2 where m: "matchCompletedTombstone env fp (tp_BatchIDs pointer) canonical f s1 = (m, s2)"
        and k2: "(case m of
           Inl e \<Rightarrow>
             if errIs e ErrSessionNotPending
             then lookupCoveringLoop env fp canonical f submitted ids (join NUL (tp_BatchIDs pointer) # seen) found conflict
             else if errIs e ErrToolResultConflict
             then lookupCoveringLoop env fp canonical f submitted ids (join NUL (tp_BatchIDs pointer) # seen) found True
             else raise e
         | Inr t \<Rightarrow> lookupCoveringLoop env fp canonical f submitted ids (join NUL (tp_BatchIDs pointer) # seen)
                       (found @ [t]) conflict) s2 = (Inr (found', conflict'), s')"
        by (simp add: Let_def) (elim bnd_attemptE)
      from matched [OF m] have s2: "leasesOk s2" "fewer s0 s2" "\<And>t. m = Inr t \<Longrightarrow> answers env fp canonical f s0 t"
        by auto
      show ?thesis
      proof (cases m)
        case (Inl e)
        with k2 IH s2(1,2) Cons.prems(3) show ?thesis by (simp split: if_splits)
      next
        case (Inr t)
        with k2 have "lookupCoveringLoop env fp canonical f submitted ids (join NUL (tp_BatchIDs pointer) # seen)
            (found @ [t]) conflict s2 = (Inr (found', conflict'), s')" by simp
        from IH [OF this s2(1,2)] s2(3) [OF Inr] Cons.prems(3) show ?thesis by auto
      qed
    qed
  qed
qed

lemma latestTombstone_in: "latestTombstone t ts \<in> set (t # ts)"
  by (induction t ts rule: latestTombstone.induct) auto

lemma chooseCovering_in: "chooseCovering found conflict = Inr t \<Longrightarrow> t \<in> set found"
  using latestTombstone_in by (auto simp: chooseCovering_def split: if_splits list.splits)

lemma lookupTombstone_out:
  assumes "lookupCompletedTombstone env fp canonical f s = (Inr t, s')" "leasesOk s"
  shows "answers env fp canonical f s t"
proof -
  from assms(1) obtain r s1 where r: "matchCompletedTombstone env fp (completedBatchIDs canonical) canonical f s = (r, s1)"
    and k: "(case r of Inr t \<Rightarrow> ret t
     | Inl e \<Rightarrow> if \<not> errIs e ErrSessionNotPending then raise e
                else lookupCompletedCovering env fp canonical f) s1 = (Inr t, s')"
    unfolding lookupCompletedTombstone_def by (elim bnd_attemptE)
  have s1: "leasesOk s1 \<and> fewer s s1"
    by (rule fewer_step [of "matchCompletedTombstone env fp (completedBatchIDs canonical) canonical f", OF r assms(2)])
       (intro balancing; simp)
  show ?thesis
  proof (cases r)
    case (Inr t1)
    with r k assms(2) show ?thesis by (auto dest: match_out)
  next
    case (Inl e)
    with k obtain found conflict s2 where "lookupCoveringLoop env fp canonical f (completedBatchIDs canonical)
        (completedBatchIDs canonical) [] [] False s1 = (Inr (found, conflict), s2)" "chooseCovering found conflict = Inr t"
      unfolding lookupCompletedCovering_def Let_def by (auto split: if_splits elim!: bnd_InrE)
    with s1 coveringTombstones_out chooseCovering_in show ?thesis by fastforce
  qed
qed

text \<open>
  \<open>restores t replay\<close>: the replay holds the stored events in their order, each with its type and its payload, and
  the identity, the batch and the follow-up text of the stored answer.
\<close>

definition storedEvent :: "persistedEvent \<Rightarrow> Event \<Rightarrow> bool" where
  "storedEvent p e = (ev_Type e = pe_Type p \<and> pe_Type p \<noteq> EventZero \<and> ev_Text e = pe_Text p
     \<and> ev_Signature e = pe_Signature p \<and> ev_ProgressEvents e = pe_ProgressEvents p \<and> ev_Tokens e = pe_Tokens p
     \<and> ev_Usage e = pe_Usage p \<and> ev_ToolCall e = pe_ToolCall p \<and> ev_ToolResult e = pe_ToolResult p
     \<and> ev_HostedSearch e = pe_HostedSearch p)"

definition restores :: "completedTombstone \<Rightarrow> CompletedReplay \<Rightarrow> bool" where
  "restores t replay = (list_all2 storedEvent (ct_Events t) (rp_Events replay)
     \<and> rp_RequestSegmentID replay = ct_RequestSegmentID t \<and> rp_SessionID replay = ct_SessionID t
     \<and> rp_ConversationID replay = ct_ConversationID t \<and> rp_BillingRunID replay = ct_BillingRunID t
     \<and> rp_OriginalBatch replay = ct_BatchIDs t \<and> rp_HasPending replay = ct_HasPending t
     \<and> rp_FollowUpText replay = ct_FollowUpText t)"

lemma restored_events: "eventsFromPersisted ps = Inr es \<Longrightarrow> list_all2 storedEvent ps es"
  by (induction ps arbitrary: es)
    (auto simp: storedEvent_def eventFromPersisted_def newEvent_def split: if_splits sum.splits)

lemma replayOf_restores: "replayOf t = Inr replay \<Longrightarrow> restores t replay"
  by (auto simp: replayOf_def restores_def restored_events split: sum.splits)

text \<open>
  C36: A replay only answers the results it was made for.  What \<open>LookupCompleted\<close> returns is a stored
  snapshot of the same credential and follow-up text, not expired when the lookup began, whose digest is the
  digest of the submitted results of its batch; the replay has the stored events, one for one and in their order with
  their texts, calls, results, searches and usage, and the stored session, conversation and billing identifiers.
\<close>

theorem replay_answers_same_results:
  assumes "leasesOk s" and "LookupCompleted env fp results followUp s = (Inr replay, s')"
  shows "\<exists>canonical t. canonicalToolResults results = Inr canonical
    \<and> answers env (trimSpace fp) canonical followUp s t \<and> replayOf t = Inr replay \<and> restores t replay"
proof -
  from assms(2) obtain canonical s1 t s2 where c: "canonicalToolResults results = Inr canonical"
    and prune: "pruneExpiredCompleted env False s = (Inr (), s1)"
    and look: "lookupCompletedTombstone env (trimSpace fp) canonical followUp s1 = (Inr t, s2)"
    and replay: "replayOf t = Inr replay"
    unfolding LookupCompleted_def Let_def by (auto elim!: bnd_liftE bnd_InrE split: if_splits) metis
  have "leasesOk s1 \<and> fewer s s1"
    by (rule fewer_step [of "pruneExpiredCompleted env False", OF prune assms(1)]) (intro balancing; simp)
  with lookupTombstone_out [OF look] c replay show ?thesis by (blast intro: answers_earlier replayOf_restores)
qed

section \<open>A saved answer\<close>

text \<open>The world after \<open>exampleOwner\<close> has saved an answer, and what a lookup finds.\<close>

definition savedWorld :: world where
  "savedWorld = snd (SaveCompleted exampleStore exampleOwner exampleResults exampleEvents True [] ownedWorld)"

definition lookedUp :: "CompletedReplay res \<times> world" where
  "lookedUp = LookupCompleted exampleStore ''fp'' exampleResults [] savedWorld"

lemma save_ok: "SaveCompleted exampleStore exampleOwner exampleResults exampleEvents True [] ownedWorld = (Inr (), savedWorld)"
proof -
  have "fst (SaveCompleted exampleStore exampleOwner exampleResults exampleEvents True [] ownedWorld) = Inr ()"
    by code_simp
  then show ?thesis by (simp add: savedWorld_def prod_eq_iff)
qed

lemma lookedUp_ok: "\<not> isl (fst lookedUp)" "w_now (snd lookedUp) = 0"
  by code_simp+

lemma ownedWorld_leases [simp]: "leasesOk ownedWorld"
  by (simp add: leasesOk_def example_store)

lemma savedWorld_leases [simp]: "leasesOk savedWorld"
  using balanced_leases [of "SaveCompleted exampleStore exampleOwner exampleResults exampleEvents True []", OF save_ok]
  by (simp add: balanced_SaveCompleted)

lemma replay_answers_same_results_witness:
  "\<exists>canonical t. canonicalToolResults exampleResults = Inr canonical
     \<and> answers exampleStore (trimSpace ''fp'') canonical [] savedWorld t"
proof -
  obtain replay where "fst lookedUp = Inr replay"
    using lookedUp_ok(1) by (cases "fst lookedUp") auto
  then have "LookupCompleted exampleStore ''fp'' exampleResults [] savedWorld = (Inr replay, snd lookedUp)"
    unfolding lookedUp_def by (metis prod.collapse)
  from replay_answers_same_results [OF savedWorld_leases this] show ?thesis by blast
qed

end
