(* ===== verification/StoreReplay.thy ===== *)
theory StoreReplay
  imports StoreLookups
begin

text \<open>
  A saved answer is replayed: which errors the operations on completed snapshots report, that expiry leaves
  live snapshots alone, and that a lookup finds what \<open>SaveCompleted\<close> has stored.
\<close>

section \<open>Which errors an operation reports\<close>

text \<open>\<open>failsWith E m\<close>: whatever error \<open>m\<close> returns satisfies \<open>E\<close>.\<close>

named_theorems failing \<open>introduction rules for failsWith\<close>

definition failsWith :: "(err \<Rightarrow> bool) \<Rightarrow> 'a st \<Rightarrow> bool" where
  "failsWith E m = (\<forall>s e s'. m s = (Inl e, s') \<longrightarrow> E e)"

lemma failsWithD: "failsWith E m \<Longrightarrow> m s = (Inl e, s') \<Longrightarrow> E e"
  unfolding failsWith_def by blast

lemma failsWith_ret [failing]: "failsWith E (ret x)" by (simp add: failsWith_def)
lemma failsWith_gets [failing]: "failsWith E (gets f)" by (simp add: failsWith_def)
lemma failsWith_modify [failing]: "failsWith E (modify f)" by (simp add: failsWith_def)
lemma failsWith_raise [failing]: "E e \<Longrightarrow> failsWith E (raise e)" by (simp add: failsWith_def)
lemma failsWith_lift [failing]: "(\<And>e. r = Inl e \<Longrightarrow> E e) \<Longrightarrow> failsWith E (lift r)" by (simp add: failsWith_def)

lemma failsWith_bnd [failing]: "failsWith E m \<Longrightarrow> (\<And>x. failsWith E (f x)) \<Longrightarrow> failsWith E (bnd m f)"
  unfolding failsWith_def by (blast elim: bndE)

lemma failsWith_attempt:
  assumes "failsWith E m" "\<And>e. E e \<Longrightarrow> failsWith E (g e)" "\<And>x. failsWith E (k x)"
  shows "failsWith E (bnd (attempt m) (\<lambda>r. case r of Inl e \<Rightarrow> g e | Inr x \<Rightarrow> k x))"
  unfolding failsWith_def
proof (intro allI impI, elim bnd_attemptE)
  fix s e s' r s1
  assume r: "m s = (r, s1)" and k: "(case r of Inl e \<Rightarrow> g e | Inr x \<Rightarrow> k x) s1 = (Inl e, s')"
  show "E e"
  proof (cases r)
    case (Inl e1)
    with r assms(1) have "E e1" by (auto dest: failsWithD)
    from failsWithD [OF assms(2) [OF this]] k Inl show ?thesis by auto
  next
    case (Inr x)
    with failsWithD [OF assms(3)] k show ?thesis by auto
  qed
qed

lemma failsWith_attempted [failing]: "failsWith E (attempt m)"
  by (auto simp: failsWith_def attempt_def split: prod.splits)

lemma failsWith_ensuring [failing]: "failsWith E m \<Longrightarrow> failsWith E (ensuring m c)"
  by (auto simp: failsWith_def elim!: ensuring_outE)

lemma failsWith_if [failing]: "(b \<Longrightarrow> failsWith E m) \<Longrightarrow> (\<not> b \<Longrightarrow> failsWith E n) \<Longrightarrow> failsWith E (if b then m else n)"
  by simp

lemma failsWith_option [failing]:
  "(z = None \<Longrightarrow> failsWith E m) \<Longrightarrow> (\<And>x. z = Some x \<Longrightarrow> failsWith E (f x)) \<Longrightarrow>
     failsWith E (case z of None \<Rightarrow> m | Some x \<Rightarrow> f x)"
  by (simp split: option.split)

lemma failsWith_forE [failing]: "(\<And>x. x \<in> set xs \<Longrightarrow> failsWith E (f x)) \<Longrightarrow> failsWith E (forE xs f)"
  by (induction xs) (auto intro: failing)

text \<open>
  What is at the bottom of an error that wraps others.  \<open>hard\<close>: a failing call of the operating system (or of the
  decoder, which reports like one in the model), a lease another process holds, a file of an unknown version; \<open>fault\<close>: or
  a file that is not there.
\<close>

fun cause :: "err \<Rightarrow> err" where
  "cause (Wrap t e) = cause e"
| "cause e = e"

definition hard :: "err \<Rightarrow> bool" where
  "hard e = (cause e = ErrStateLeaseHeld \<or> (\<exists>t. cause e = OsError t)
     \<or> (\<exists>v. cause e = Errorf ''unsupported Cursor Agent v1 state version %d'' [N v]))"

definition fault :: "err \<Rightarrow> bool" where
  "fault e = (hard e \<or> cause e = ErrNotExist)"

lemma hard_simps [simp]: "hard (OsError t)" "hard ErrStateLeaseHeld" "\<not> hard ErrNotExist" "\<not> hard ErrSessionNotPending"
  "hard (Wrap t e) = hard e"
  by (simp_all add: hard_def)

lemma fault_simps [simp]: "fault (OsError t)" "fault ErrStateLeaseHeld" "fault ErrNotExist" "fault (Wrap t e) = fault e"
  by (simp_all add: fault_def)

lemma errIs_cause: "errIs e ErrNotExist = (cause e = ErrNotExist)" "errIs e ErrSessionNotPending = (cause e = ErrSessionNotPending)"
  "errIs e ErrToolResultConflict = (cause e = ErrToolResultConflict)" "errIs e ErrPendingAmbiguous = (cause e = ErrPendingAmbiguous)"
  by (induction e) simp_all

lemma hard_fault: "fault e \<Longrightarrow> \<not> errIs e ErrNotExist \<Longrightarrow> hard e"
  by (auto simp: fault_def errIs_cause)

lemma hard_errIs: "hard e \<Longrightarrow> \<not> errIs e ErrNotExist" "hard e \<Longrightarrow> \<not> errIs e ErrSessionNotPending"
  "hard e \<Longrightarrow> \<not> errIs e ErrToolResultConflict" "hard e \<Longrightarrow> \<not> errIs e ErrPendingAmbiguous"
  by (auto simp: hard_def errIs_cause)

text \<open>Predicates that hold of every error of a system call or of a lease.\<close>

definition sysErr :: "(err \<Rightarrow> bool) \<Rightarrow> bool" where
  "sysErr E = ((\<forall>t. E (OsError t)) \<and> E ErrStateLeaseHeld \<and> (\<forall>t e. E e \<longrightarrow> E (Wrap t e)))"

lemma sysErr_simps [failing, simp]: "sysErr fault" "sysErr hard"
  by (simp_all add: sysErr_def)

lemma fails_sys [failing]: "sysErr E \<Longrightarrow> failsWith E sys"
  by (auto simp: sysErr_def failsWith_def sys_def split: list.splits option.splits)

lemma fails_getNow [failing]: "failsWith E getNow"
  by (simp add: failsWith_def getNow_def)

lemma fails_wrapping [failing]: "sysErr E \<Longrightarrow> failsWith E m \<Longrightarrow> failsWith E (wrapping t m)"
  unfolding wrapping_def by (intro failsWith_attempt failing) (simp_all add: sysErr_def)

lemma fails_release [failing]: "sysErr E \<Longrightarrow> failsWith E (releaseHandle h)"
  unfolding releaseHandle_def by (intro failing)

lemma fails_tryLock [failing]: "sysErr E \<Longrightarrow> failsWith E (tryLock l)"
  by (auto simp: failsWith_def tryLock_def Let_def sysErr_def)

lemma fails_acquireLease [failing]: "sysErr E \<Longrightarrow> failsWith E (acquireLease l)"
  unfolding acquireLease_def by (intro failing)

lemma fails_acquireRetry: "sysErr E \<Longrightarrow> E e \<Longrightarrow> failsWith E (acquireRetry n l e)"
proof (induction n l e rule: acquireRetry.induct)
  case (2 n l lastErr)
  show ?case
    unfolding acquireRetry.simps by (intro failsWith_attempt failing 2(1)) (use 2(2) in auto)
qed (simp add: failsWith_raise)

lemma fails_acquireIndex [failing]: "sysErr E \<Longrightarrow> failsWith E (acquirePendingIndexLease l)"
  unfolding acquirePendingIndexLease_def by (rule fails_acquireRetry) (simp_all add: sysErr_def)

lemma fails_withLease [failing]: "sysErr E \<Longrightarrow> failsWith E m \<Longrightarrow> failsWith E (withLease l m)"
  unfolding withLease_def by (intro failing)

lemma fails_withLeaseOrSkip [failing]: "sysErr E \<Longrightarrow> failsWith E m \<Longrightarrow> failsWith E (withLeaseOrSkip l m)"
  unfolding withLeaseOrSkip_def by (intro failsWith_attempt failing)

lemma fault_readFile [failing]: "(\<And>e. fault e \<Longrightarrow> fault (u e)) \<Longrightarrow> failsWith fault (readFile d u name)"
  unfolding readFile_def by (auto intro!: failing simp del: sysErr_simps split: option.split content.split)

lemma fault_migrate: "migrateRecordVersion v = Inl e \<Longrightarrow> fault e"
  by (auto simp: migrateRecordVersion_def fault_def hard_def split: if_splits)

lemma fault_readTombstoneFile [failing]: "failsWith fault (readCompletedTombstoneFile name)"
  unfolding readCompletedTombstoneFile_def by (intro failing) (auto dest: fault_migrate)

lemma fault_removeFile [failing]: "failsWith fault (removeFile d name)"
  unfolding removeFile_def by (intro failing) simp

text \<open>What handles a missing file itself does not report one.\<close>

lemma failsWith_handled:
  assumes "failsWith fault m" "\<And>e. hard e \<Longrightarrow> failsWith hard (g e)" "\<And>e. errIs e ErrNotExist \<Longrightarrow> failsWith hard (g e)"
    "\<And>x. failsWith hard (k x)"
  shows "failsWith hard (bnd (attempt m) (\<lambda>r. case r of Inl e \<Rightarrow> g e | Inr x \<Rightarrow> k x))"
  unfolding failsWith_def
proof (intro allI impI, elim bnd_attemptE)
  fix s e s' r s1
  assume r: "m s = (r, s1)" and k: "(case r of Inl e \<Rightarrow> g e | Inr x \<Rightarrow> k x) s1 = (Inl e, s')"
  show "hard e"
  proof (cases r)
    case (Inl e1)
    with r assms(1) have "hard e1 \<or> errIs e1 ErrNotExist" by (auto dest: failsWithD hard_fault)
    then have "failsWith hard (g e1)" using assms(2,3) by blast
    from failsWithD [OF this] k Inl show ?thesis by auto
  next
    case (Inr x)
    with failsWithD [OF assms(4)] k show ?thesis by auto
  qed
qed

lemma failsWith_unless_missing [failing]:
  "(\<not> errIs e ErrNotExist \<Longrightarrow> hard e) \<Longrightarrow> failsWith hard (if errIs e ErrNotExist then ret x else raise e)"
  by (simp add: failing)

lemma hard_removeIfPresent [failing]: "failsWith hard (removeIfPresent d name)"
  unfolding removeIfPresent_def by (intro failsWith_handled failing) (auto dest: hard_errIs)

lemma lookup_sys: "sys s = (r, s1) \<Longrightarrow> lookupFile completedToolDir name s1 = lookupFile completedToolDir name s"
  using sys_out [of s r s1] by (simp add: lookupFile_def completedToolDir_def files_def)

lemma removeFile_there: "lookupFile completedToolDir name s \<noteq> None \<Longrightarrow> removeFile completedToolDir name s = (Inl e, s') \<Longrightarrow> hard e"
  unfolding removeFile_def
  by (auto elim!: bndE simp: lookup_sys dest: failsWithD [OF fails_sys [OF sysErr_simps(2)]])

lemma readFile_there: "readFile completedToolDir u name s = (Inr p, s1) \<Longrightarrow> lookupFile completedToolDir name s1 \<noteq> None"
  unfolding readFile_def by (auto elim!: bnd_InrE simp: lookup_sys split: option.splits content.splits)

lemma hard_removePointer [failing]: "failsWith hard (removeToolBatchPointer completedToolDir dd name fp i ids)"
proof -
  have "failsWith hard (bnd (attempt (readFile completedToolDir decodeToolIndex name)) (\<lambda>r. case r of
        Inl e \<Rightarrow> if errIs e ErrNotExist then ret () else raise e
      | Inr pointer \<Rightarrow>
          if tp_CredentialFingerprint pointer \<noteq> fp \<or> tp_ToolCallID pointer \<noteq> i
             \<or> normalizeToolIDs (tp_BatchIDs pointer) \<noteq> normalizeToolIDs ids
          then ret () else removeFile completedToolDir name))"
    unfolding failsWith_def
  proof (intro allI impI, elim bnd_attemptE)
    fix s e s' r s1
    assume r: "readFile completedToolDir decodeToolIndex name s = (r, s1)"
      and k: "(case r of Inl e \<Rightarrow> if errIs e ErrNotExist then ret () else raise e
        | Inr pointer \<Rightarrow>
          if tp_CredentialFingerprint pointer \<noteq> fp \<or> tp_ToolCallID pointer \<noteq> i
             \<or> normalizeToolIDs (tp_BatchIDs pointer) \<noteq> normalizeToolIDs ids
          then ret () else removeFile completedToolDir name) s1 = (Inl e, s')"
    have "failsWith fault (readFile completedToolDir decodeToolIndex name)" by (rule fault_readFile) (simp add: decodeToolIndex_def)
    with r k show "hard e"
      using readFile_there [of decodeToolIndex name s _ s1] removeFile_there [of name s1 e s']
      by (cases r) (auto split: if_splits dest: failsWithD intro: hard_fault)
  qed
  then show ?thesis
    unfolding removeToolBatchPointer_def by (rule fails_withLeaseOrSkip [OF sysErr_simps(2)])
qed

lemma hard_removeCompletedPointers [failing]: "failsWith hard (removeCompletedToolPointers env fp ids)"
  unfolding removeCompletedToolPointers_def Let_def by (intro failing)

lemma hard_pruneFile [failing]: "failsWith hard (pruneCompletedFile env now name)"
  unfolding pruneCompletedFile_def
proof (intro failsWith_attempt [of hard "acquirePendingIndexLease _"])
  fix h
  show "failsWith hard (bnd (attempt (readCompletedTombstoneFile name)) (\<lambda>r. case r of
           Inl e \<Rightarrow> bnd (attempt (releaseHandle h)) (\<lambda>_. if errIs e ErrNotExist then ret () else raise e)
         | Inr t \<Rightarrow>
             if \<not> completedTombstoneExpired t now (se_ttl env) then releaseHandle h
             else bnd (attempt (removeIfPresent completedDir name)) (\<lambda>removed. case removed of
               Inl e \<Rightarrow> bnd (attempt (releaseHandle h)) (\<lambda>_. raise e)
             | Inr _ \<Rightarrow>
                 bnd (attempt (if normalizeFollowUp (ct_FollowUpText t) = []
                               then removeCompletedToolPointers env (ct_CredentialFingerprint t) (ct_BatchIDs t)
                               else ret ())) (\<lambda>pointers. case pointers of
                   Inl e \<Rightarrow> bnd (attempt (releaseHandle h)) (\<lambda>_. raise e)
                 | Inr _ \<Rightarrow> releaseHandle h))))"
    by (intro failsWith_handled failsWith_attempt failing) (auto dest: hard_errIs)
qed (intro failing | simp)+

lemma hard_pruneCompleted [failing]: "failsWith hard (pruneExpiredCompleted env force)"
  unfolding pruneExpiredCompleted_def by (intro failing)

lemma fault_readCompleted [failing]: "failsWith fault (readCompletedTombstone env fp ids f)"
  unfolding readCompletedTombstone_def readBaseTombstone_def Let_def
  by (intro failsWith_attempt failing)

section \<open>Expiry leaves live snapshots alone\<close>

lemma completedExpired_normal [simp]:
  "completedTombstoneExpired (normalTombstone t) now ttl = completedTombstoneExpired t now ttl"
  by (simp add: completedTombstoneExpired_def normalTombstone_def)

definition liveSnapshot :: "storeEnv \<Rightarrow> string \<Rightarrow> completedTombstone \<Rightarrow> world \<Rightarrow> bool" where
  "liveSnapshot env n t s = (fileIs completedDir n (Some (Stored t)) s
     \<or> completedTombstoneExpired t (w_now s) (se_ttl env))"

definition pastSnapshot :: "storeEnv \<Rightarrow> completedTombstone \<Rightarrow> int \<Rightarrow> world \<Rightarrow> bool" where
  "pastSnapshot env t now s = (now \<le> w_now s \<and> completedTombstoneExpired t (w_now s) (se_ttl env))"

lemma liveSnapshot_simps [simp]: "filesOnly (liveSnapshot env n t)" "gcOblivious (liveSnapshot env n t)"
  "ignores completedToolDir (liveSnapshot env n t)" "ignores pendingDir (liveSnapshot env n t)"
  "ignores pendingToolDir (liveSnapshot env n t)" "ignores stateDir (liveSnapshot env n t)"
  by (auto simp: liveSnapshot_def fileIs_def filesOnly_def blind_def gcOblivious_def ignores_def lookupFile_def
      stateDir_def pendingDir_def pendingToolDir_def completedDir_def completedToolDir_def
      dest: completedExpired_mono)

lemma pastSnapshot_simps [simp]: "filesOnly (pastSnapshot env t now)" "ignores completedDir (pastSnapshot env t now)"
  "ignores completedToolDir (pastSnapshot env t now)"
  by (auto simp: pastSnapshot_def filesOnly_def blind_def ignores_def completedDir_def completedToolDir_def
      dest: completedExpired_mono)

definition pruneRead :: "storeEnv \<Rightarrow> int \<Rightarrow> string \<Rightarrow> nat \<Rightarrow> completedTombstone res \<Rightarrow> unit st" where
  "pruneRead env now name h r = (case r of
           Inl e \<Rightarrow> bnd (attempt (releaseHandle h)) (\<lambda>_. if errIs e ErrNotExist then ret () else raise e)
         | Inr t \<Rightarrow>
             if \<not> completedTombstoneExpired t now (se_ttl env) then releaseHandle h
             else bnd (attempt (removeIfPresent completedDir name)) (\<lambda>removed. case removed of
               Inl e \<Rightarrow> bnd (attempt (releaseHandle h)) (\<lambda>_. raise e)
             | Inr _ \<Rightarrow>
                 bnd (attempt (if normalizeFollowUp (ct_FollowUpText t) = []
                               then removeCompletedToolPointers env (ct_CredentialFingerprint t) (ct_BatchIDs t)
                               else ret ())) (\<lambda>pointers. case pointers of
                   Inl e \<Rightarrow> bnd (attempt (releaseHandle h)) (\<lambda>_. raise e)
                 | Inr _ \<Rightarrow> releaseHandle h)))"

lemma gives_released:
  "filesOnly Q \<Longrightarrow> (\<And>x. balanced Q (f x)) \<Longrightarrow> gives Q l h (bnd (attempt (releaseHandle h)) f)"
  by (rule gives_after [OF gives_release])

lemma gives_pruneRead:
  assumes "filesOnly Q" "ignores completedToolDir Q"
    and "\<And>t. r = Inr t \<Longrightarrow> completedTombstoneExpired t now (se_ttl env) \<Longrightarrow> prunable completedDir name Q"
  shows "gives Q l h (pruneRead env now name h r)"
  unfolding pruneRead_def
  by (intro gives_released gives_before giving balancing assms; simp add: assms)

lemma pruneFile_live:
  "balanced (\<lambda>s. now \<le> w_now s \<and> liveSnapshot env n t s) (pruneCompletedFile env now name)"
proof (cases "name = n")
  case False
  have "prunable completedDir name (\<lambda>s. now \<le> w_now s \<and> liveSnapshot env n t s)"
    using False by (simp add: prunable_def liveSnapshot_def fileIs_def lookupFile_def completedDir_def)
  then show ?thesis by (intro balanced_pruneFile filesOnly_conj) simp_all
next
  case True
  let ?Q = "\<lambda>s. now \<le> w_now s \<and> liveSnapshot env n t s"
  let ?l = "(DirCompleted, n)"
  have fQ: "filesOnly ?Q" by (intro filesOnly_conj) simp_all
  have body: "gives ?Q ?l h (bnd (attempt (readCompletedTombstoneFile n)) (pruneRead env now n h))" for h
  proof (rule givesI)
    fix H s
    assume s: "holding ((h, ?l) # H) s" "?Q s"
    obtain r s1 where r: "readCompletedTombstoneFile n s = (r, s1)" by fastforce
    have s1: "holding ((h, ?l) # H) s1 \<and> ?Q s1"
      using balanced_out [OF balanced_readTombstoneFile [OF fQ] s r] .
    have "sat (pruneRead env now n h r) (\<lambda>_ s. holding H s \<and> ?Q s) s1"
    proof (cases "\<exists>t'. r = Inr t' \<and> completedTombstoneExpired t' now (se_ttl env)")
      case False
      then have "gives ?Q ?l h (pruneRead env now n h r)"
        by (intro gives_pruneRead fQ) auto
      from givesD [OF this] s1 show ?thesis by simp
    next
      case True
      then have "completedTombstoneExpired t (w_now s) (se_ttl env)"
        using s(2) r by (auto elim!: readTombstone_out simp: liveSnapshot_def fileIs_def dest: completedExpired_mono)
      then have "pastSnapshot env t now s" using s(2) by (simp add: pastSnapshot_def)
      then have "holding ((h, ?l) # H) s1 \<and> pastSnapshot env t now s1"
        using balanced_out [OF balanced_readTombstoneFile s(1) _ r, of "pastSnapshot env t now"] by simp
      moreover have "gives (pastSnapshot env t now) ?l h (pruneRead env now n h r)"
        by (intro gives_pruneRead) simp_all
      ultimately have "sat (pruneRead env now n h r) (\<lambda>_ s. holding H s \<and> pastSnapshot env t now s) s1"
        by (auto dest: givesD)
      then show ?thesis by (rule sat_mono) (simp add: pastSnapshot_def liveSnapshot_def)
    qed
    with r show "sat (bnd (attempt (readCompletedTombstoneFile n)) (pruneRead env now n h)) (\<lambda>_ s. holding H s \<and> ?Q s) s"
      by (simp add: sat_def bnd_def attempt_def)
  qed
  show ?thesis
    unfolding True pruneCompletedFile_def pruneRead_def [symmetric]
    by (rule balanced_attempt_index_lease [OF fQ]) (use body in \<open>simp_all add: balancing\<close>)
qed

lemma balanced_pruneCompleted_live: "balanced (liveSnapshot env n t) (pruneExpiredCompleted env force)"
  unfolding pruneExpiredCompleted_def
proof (rule balanced_getNow_then)
  fix now
  have "filesOnly (\<lambda>s. now \<le> w_now s \<and> liveSnapshot env n t s)"
    by (intro filesOnly_conj) simp_all
  then show "balanced (\<lambda>s. now \<le> w_now s \<and> liveSnapshot env n t s) (bnd (gets w_lastGC) (\<lambda>lastGC.
     if \<not> force \<and> gcSkip lastGC now then ret ()
     else bnd sys (\<lambda>_. bnd (gets (\<lambda>s. sort (map fst (w_completed s)))) (\<lambda>names.
       forE names (pruneCompletedFile env now)))))"
    by (intro balanced_bnd balanced_gets balanced_if balanced_ret balanced_forE pruneFile_live balanced_sys)
qed simp

section \<open>A saved answer is replayed\<close>

lemma withLease_outE:
  assumes "withLease l m s = (r, s')" "leasesOk s" "filesOnly Q" "Q s"
  obtains (held) e where "r = Inl e" "hard e"
  | (ran) s1 s2 where "m s1 = (r, s2)" "leasesOk s1" "Q s1"
proof -
  from assms(1) show thesis
    unfolding withLease_def
  proof (cases rule: bndE)
    case (1 e)
    have "failsWith hard (acquirePendingIndexLease l)" by (intro failing)
    from failsWithD [OF this 1(1)] 1(2) held show thesis by simp
  next
    case (2 h s1)
    have "leasesOk s1 \<and> Q s1"
      using satD [OF sat_acquireRetry [OF assms(3) _ assms(4)] 2(1) [unfolded acquirePendingIndexLease_def], of "w_held s"] assms(2)
      by (simp add: holding_def acquired_def)
    with 2(2) ran show thesis by (elim ensuring_outE) blast
  qed
qed

definition storedVersion :: "int \<Rightarrow> bool" where
  "storedVersion v = (v = stateVersionV1 \<or> v = stateVersion)"

definition readsOrHard :: "completedTombstone \<Rightarrow> completedTombstone res \<Rightarrow> bool" where
  "readsOrHard t r = (r = Inr t \<or> (\<exists>e. r = Inl e \<and> hard e))"

lemma readTombstone_there:
  assumes "readCompletedTombstoneFile name s = (r, s')" "fileIs completedDir name (Some (Stored t)) s"
    and "storedVersion (ct_Version t)"
  shows "readsOrHard (normalTombstone t) r"
proof -
  have sys: "hard e" if "sys a = (Inl e, b)" for a e b
    using failsWithD [OF fails_sys [OF sysErr_simps(2)] that] .
  have same: "lookupFile completedDir n b = lookupFile completedDir n a" if "sys a = (Inr x, b)" for a x b n
    using sys_out [OF that] by (simp add: lookupFile_def completedDir_def files_def)
  have read: "x = t" if "readFile completedDir u name s = (Inr x, s1)" for u x s1
    using readFile_out [OF that] assms(2) by (simp add: fileIs_def)
  have none: "hard e" if "readFile completedDir u name s = (Inl e, s1)" for u e s1
    using that assms(2) unfolding readFile_def by (auto elim!: bndE dest: sys simp: same fileIs_def)
  from assms(1) show ?thesis
    unfolding readCompletedTombstoneFile_def
  proof (cases rule: bndE)
    case (1 e)
    with none show ?thesis by (auto simp: readsOrHard_def)
  next
    case (2 x s1)
    with read have "x = t" by blast
    with 2(2) assms(3) show ?thesis
      by (auto simp: readsOrHard_def normalTombstone_def storedVersion_def bnd_def lift_def ret_def
          migrateRecordVersion_def split: if_splits)
  qed
qed

lemma readCompleted_there:
  assumes "readCompletedTombstone env fp ids f s = (r, s')" "leasesOk s"
    and "fileIs completedDir (completedIndexName env fp ids f) (Some (Stored t)) s" "storedVersion (ct_Version t)"
  shows "readsOrHard (normalTombstone t) r"
proof (cases rule: withLease_outE [where Q = "fileIs completedDir (completedIndexName env fp ids f) (Some (Stored t))",
      OF assms(1) [unfolded readCompletedTombstone_def Let_def] assms(2) _ assms(3)])
  case (3 s1 s2)
  note ran = 3
  from ran(1) obtain r1 s3 where "readCompletedTombstoneFile (completedIndexName env fp ids f) s1 = (r1, s3)"
    and "(case r1 of Inl e \<Rightarrow> if errIs e ErrNotExist \<and> normalizeFollowUp f \<noteq> []
           then readBaseTombstone env fp ids else raise e | Inr t \<Rightarrow> ret t) s3 = (r, s2)"
    by (elim bnd_attemptE)
  with readTombstone_there [OF this(1) ran(3) assms(4)] show ?thesis
    by (auto simp: readsOrHard_def hard_errIs)
qed (simp_all add: readsOrHard_def assms(2,3))

lemma match_there:
  assumes "matchCompletedTombstone env fp ids canonical f s = (r, s')" "leasesOk s"
    and "fileIs completedDir (completedIndexName env fp ids f) (Some (Stored t)) s" "storedVersion (ct_Version t)"
    and "ct_CredentialFingerprint t = fp" "normalizeToolIDs (ct_BatchIDs t) = ids"
    and "normalizeFollowUp (ct_FollowUpText t) = normalizeFollowUp f"
    and "completedResultsForBatch canonical ids = Some matched"
    and "ct_ResultDigest t = toolResultDigest (se_sha env) matched"
    and "\<not> completedTombstoneExpired t (w_now s') (se_ttl env)"
  shows "r = Inr (normalTombstone t) \<or> (\<exists>e. r = Inl e \<and> hard e)"
proof -
  from assms(1) obtain r1 s1 where r1: "readCompletedTombstone env fp ids f s = (r1, s1)"
    and k: "(case r1 of
       Inl e \<Rightarrow> if errIs e ErrNotExist then raise ErrSessionNotPending else raise e
     | Inr t \<Rightarrow>
         if ct_CredentialFingerprint t \<noteq> fp \<or> ct_BatchIDs t \<noteq> ids then raise ErrSessionNotPending
         else if normalizeFollowUp (ct_FollowUpText t) \<noteq> normalizeFollowUp f then raise ErrSessionNotPending
         else bnd getNow (\<lambda>now.
           if completedTombstoneExpired t now (se_ttl env)
           then bnd (removeExpiredCompletedTombstone env fp ids f) (\<lambda>_. raise ErrSessionNotPending)
           else case completedResultsForBatch canonical ids of
             None \<Rightarrow> raise ErrSessionNotPending
           | Some matched \<Rightarrow>
               if ct_ResultDigest t \<noteq> toolResultDigest (se_sha env) matched then raise ErrToolResultConflict
               else ret t)) s1 = (r, s')"
    unfolding matchCompletedTombstone_def by (elim bnd_attemptE)
  from readCompleted_there [OF r1 assms(2-4)] show ?thesis
    unfolding readsOrHard_def
  proof
    assume n: "r1 = Inr (normalTombstone t)"
    obtain s2 where now: "getNow s1 = (Inr (w_now s1), s2)" "w_now s1 \<le> w_now s2"
      by (auto simp: getNow_def split: list.split)
    have same: "ct_CredentialFingerprint (normalTombstone t) = fp" "ct_BatchIDs (normalTombstone t) = ids"
      "normalizeFollowUp (ct_FollowUpText (normalTombstone t)) = normalizeFollowUp f"
      "ct_ResultDigest (normalTombstone t) = toolResultDigest (se_sha env) matched"
      using assms(5-9) by (simp_all add: normalTombstone_def)
    show ?thesis
    proof (cases "completedTombstoneExpired t (w_now s1) (se_ttl env)")
      case False
      with k n now same assms(8) show ?thesis by (simp add: bnd_def ret_def)
    next
      case True
      with k n now same obtain r2 s3 where "removeExpiredCompletedTombstone env fp ids f s2 = (r2, s3)" "s' = s3"
        by (auto simp: bnd_def raise_def split: prod.splits sum.splits)
      moreover have "balanced (later s2) (removeExpiredCompletedTombstone env fp ids f)"
        by (intro balancing; simp)
      moreover have "leasesOk s1"
        using balanced_leases [of "readCompletedTombstone env fp ids f" s r1 s1] r1 assms(2) by (simp add: balancing)
      then have "leasesOk s2"
        using balanced_leases [of getNow s1] now(1) by (simp add: balancing)
      ultimately have "w_now s2 \<le> w_now s'"
        using later_step by (metis later_def)
      with True assms(10) now(2) show ?thesis by (auto dest: completedExpired_mono)
    qed
  qed (use k in \<open>auto simp: hard_errIs\<close>)
qed


lemma canonical_batch:
  assumes "canonicalToolResults rs = Inr c"
  shows "completedResultsForBatch c (completedBatchIDs c) = Some c" "completedBatchIDs c \<noteq> []"
    "normalizeToolIDs (completedBatchIDs c) = completedBatchIDs c"
proof -
  note ids = canonical_ids [OF assms]
  have b: "completedBatchIDs c = map cr_ToolCallID c" by (rule completedBatchIDs_canonical [OF assms])
  show n: "normalizeToolIDs (completedBatchIDs c) = completedBatchIDs c"
    by (simp add: completedBatchIDs_def)
  have "rs \<noteq> []" using assms by (auto simp: canonicalToolResults_Inr acceptable_def)
  then have "c \<noteq> []" using ids(1) by auto
  then show "completedBatchIDs c \<noteq> []" using b by simp
  then show "completedResultsForBatch c (completedBatchIDs c) = Some c"
    using completedResultsForBatch_eq [OF ids(2,3), of "completedBatchIDs c"] unfolding n unfolding b by simp
qed

lemma lookup_there:
  assumes out: "LookupCompleted env fp results f s = (r, s')" and "leasesOk s"
    and c: "canonicalToolResults results = Inr canonical" and fp: "trimSpace fp \<noteq> []"
    and there: "fileIs completedDir (completedIndexName env (trimSpace fp) (completedBatchIDs canonical) f) (Some (Stored t)) s"
    and t: "storedVersion (ct_Version t)" "ct_CredentialFingerprint t = trimSpace fp"
      "normalizeToolIDs (ct_BatchIDs t) = completedBatchIDs canonical"
      "normalizeFollowUp (ct_FollowUpText t) = normalizeFollowUp f"
      "ct_ResultDigest t = toolResultDigest (se_sha env) canonical"
    and live: "\<not> completedTombstoneExpired t (w_now s') (se_ttl env)"
  shows "r = replayOf (normalTombstone t) \<or> (\<exists>e. r = Inl e \<and> hard e)"
proof -
  let ?n = "completedIndexName env (trimSpace fp) (completedBatchIDs canonical) f"
  have run: "bnd (pruneExpiredCompleted env False) (\<lambda>_.
        bnd (lookupCompletedTombstone env (trimSpace fp) canonical f) (\<lambda>t. lift (replayOf t))) s = (r, s')"
    using out c fp canonical_batch(2) [OF c] by (simp add: LookupCompleted_def Let_def bnd_def lift_def)
  then show ?thesis
  proof (cases rule: bndE)
    case (1 e)
    then show ?thesis using failsWithD [OF hard_pruneCompleted] by auto
  next
    case (2 u s1)
    have ok: "leasesOk s1" and l: "liveSnapshot env ?n t s1"
      using balanced_step [of "pruneExpiredCompleted env False" s "Inr u" s1 "liveSnapshot env ?n t"]
        2(1) assms(2) there balanced_pruneCompleted_live by (auto simp: liveSnapshot_def)
    from 2(2) obtain r2 s2 where m: "matchCompletedTombstone env (trimSpace fp) (completedBatchIDs canonical) canonical f s1 = (r2, s2)"
      by fastforce
    have l2: "leasesOk s2 \<and> later s1 s2"
      by (rule later_step [of "matchCompletedTombstone env (trimSpace fp) (completedBatchIDs canonical) canonical f", OF m ok])
         (intro balancing; simp)
    let ?rest = "bnd (case r2 of Inr t \<Rightarrow> ret t | Inl e \<Rightarrow> if \<not> errIs e ErrSessionNotPending then raise e
            else lookupCompletedCovering env (trimSpace fp) canonical f) (\<lambda>t. lift (replayOf t))"
    have rest: "?rest s2 = (r, s')"
      using 2(2) m by (simp add: lookupCompletedTombstone_def bnd_def attempt_def)
    have "balanced (later s2) ?rest"
      unfolding lookupCompletedCovering_def Let_def by (intro balancing; simp)
    with later_step [of ?rest, OF rest] l2 have later: "w_now s1 \<le> w_now s2 \<and> w_now s2 \<le> w_now s'"
      by (simp add: later_def)
    have "fileIs completedDir ?n (Some (Stored t)) s1"
      using l live later by (auto simp: liveSnapshot_def dest: completedExpired_mono)
    moreover have "\<not> completedTombstoneExpired t (w_now s2) (se_ttl env)"
      using live later by (auto dest: completedExpired_mono)
    ultimately have "r2 = Inr (normalTombstone t) \<or> (\<exists>e. r2 = Inl e \<and> hard e)"
      using match_there [OF m ok] t canonical_batch(1) [OF c] by blast
    with m 2(2) show ?thesis
      by (auto simp: lookupCompletedTombstone_def bnd_def attempt_def lift_def ret_def raise_def hard_errIs)
  qed
qed


lemma keeps_release: "filesOnly R \<Longrightarrow> keeps R (releaseHandle h)"
  unfolding releaseHandle_def by (intro keeping filesOnly_blind) (auto intro: filesOnly_upd)

lemma withLease_postE:
  assumes "withLease l m s = (Inr x, s')" "leasesOk s" "filesOnly Q" "Q s"
  obtains s1 s2 where "m s1 = (Inr x, s2)" "leasesOk s1" "Q s1" "\<forall>R. filesOnly R \<longrightarrow> R s2 \<longrightarrow> R s'"
proof -
  from assms(1) obtain h s1 where h: "acquirePendingIndexLease l s = (Inr h, s1)"
    and m: "ensuring m (releaseHandle h) s1 = (Inr x, s')"
    unfolding withLease_def by (elim bnd_InrE)
  from m obtain s2 where s2: "m s1 = (Inr x, s2)" "s' = snd (releaseHandle h s2)" by (elim ensuring_outE)
  have "leasesOk s1 \<and> Q s1"
    using satD [OF sat_acquireRetry [OF assms(3) _ assms(4)] h [unfolded acquirePendingIndexLease_def], of "w_held s"] assms(2)
    by (simp add: holding_def acquired_def)
  moreover have "R s'" if "filesOnly R" "R s2" for R
    using keeps_out [OF keeps_release [OF that(1), of h] that(2), of "fst (releaseHandle h s2)" s'] s2(2) by simp
  ultimately show thesis using that s2(1) by blast
qed

lemma storeTombstone_out:
  assumes "storeTombstone env name t s = (Inr (), s')" "leasesOk s"
  shows "fileIs completedDir name (Some (Stored (t\<lparr>ct_Version := stateVersion\<rparr>))) s'"
proof -
  let ?F = "fileIs completedDir name (Some (Stored (t\<lparr>ct_Version := stateVersion\<rparr>)))"
  from assms(1) obtain s1 where w: "writeCompletedTombstoneAtomic name (t\<lparr>ct_Version := stateVersion\<rparr>) s = (Inr (), s1)"
    and k: "(if normalizeFollowUp (ct_FollowUpText t) \<noteq> [] then ret ()
      else writeCompletedToolPointers env (ct_CredentialFingerprint t) (ct_BatchIDs t)) s1 = (Inr (), s')"
    unfolding storeTombstone_def by (elim bnd_InrE) simp
  have c: "commits (\<lambda>_. True) ?F (writeCompletedTombstoneAtomic name (t\<lparr>ct_Version := stateVersion\<rparr>))"
    unfolding writeCompletedTombstoneAtomic_def by (intro commits_write) (simp_all add: filesOnly_blind)
  have f1: "?F s1" using commitsD [OF c _ w] by simp
  have l1: "leasesOk s1"
    using balanced_leases [of "writeCompletedTombstoneAtomic name (t\<lparr>ct_Version := stateVersion\<rparr>)", OF w] assms(2)
    by (simp add: balanced_writeTombstoneAtomic)
  have "ignores completedToolDir ?F"
    by (simp add: ignores_def fileIs_def lookupFile_def completedDir_def completedToolDir_def)
  then have "balanced ?F (if normalizeFollowUp (ct_FollowUpText t) \<noteq> [] then ret ()
      else writeCompletedToolPointers env (ct_CredentialFingerprint t) (ct_BatchIDs t))"
    by (intro balancing) simp_all
  from balanced_step [OF k this l1 f1] show ?thesis by simp
qed

text \<open>The first snapshot of an identity is stored as it is; a later one keeps the output of the first.\<close>

definition storedAs :: "completedTombstone content option \<Rightarrow> completedTombstone \<Rightarrow> completedTombstone \<Rightarrow> bool" where
  "storedAs before t t' = (case before of None \<Rightarrow> t' = t\<lparr>ct_Version := stateVersion\<rparr>
     | Some (Stored e) \<Rightarrow> (\<exists>m. mergeTombstone (normalTombstone e) t = Inr m \<and> t' = m\<lparr>ct_Version := stateVersion\<rparr>)
     | _ \<Rightarrow> False)"

lemma readTombstone_missing:
  assumes "readCompletedTombstoneFile name s = (Inl e, s')" "errIs e ErrNotExist"
  shows "lookupFile completedDir name s = None"
proof -
  have sys: "sys a \<noteq> (Inl e, b)" for a b
    using failsWithD [OF fails_sys [OF sysErr_simps(2)], of a e b] assms(2) by (auto dest: hard_errIs)
  have same: "lookupFile completedDir n b = lookupFile completedDir n a" if "sys a = (Inr x, b)" for a x b n
    using sys_out [OF that] by (simp add: lookupFile_def completedDir_def files_def)
  show ?thesis
    using assms unfolding readCompletedTombstoneFile_def readFile_def
    by (auto elim!: bndE split: option.splits content.splits simp: sys same migrateRecordVersion_def split: if_splits)
qed

lemma writeTombstone_out:
  defines "name \<equiv> \<lambda>env t. completedIndexName env (ct_CredentialFingerprint t) (ct_BatchIDs t) (ct_FollowUpText t)"
  assumes "writeCompletedTombstone env t s = (Inr (), s')" "leasesOk s"
  shows "\<exists>t'. fileIs completedDir (name env t) (Some (Stored t')) s'
    \<and> storedAs (lookupFile completedDir (name env t) s) t t'"
proof -
  let ?c = "lookupFile completedDir (name env t) s"
  have q: "filesOnly (fileIs completedDir (name env t) ?c)" "fileIs completedDir (name env t) ?c s"
    by (simp_all add: fileIs_def [of _ _ _ s])
  from assms(2) obtain s1 s2 where
      m: "bnd (attempt (readCompletedTombstoneFile (name env t))) (\<lambda>r. case r of
           Inl e \<Rightarrow> if \<not> errIs e ErrNotExist then raise e else storeTombstone env (name env t) t
         | Inr existing \<Rightarrow> bnd (lift (mergeTombstone existing t)) (storeTombstone env (name env t))) s1 = (Inr (), s2)"
    and s1: "leasesOk s1" "fileIs completedDir (name env t) ?c s1"
    and carried: "\<forall>R. filesOnly R \<longrightarrow> R s2 \<longrightarrow> R s'"
    unfolding writeCompletedTombstone_def Let_def name_def
    by (rule withLease_postE [OF _ assms(3) q [unfolded name_def]]) blast+
  from m obtain r s3 where r: "readCompletedTombstoneFile (name env t) s1 = (r, s3)"
    and k: "(case r of Inl e \<Rightarrow> if \<not> errIs e ErrNotExist then raise e else storeTombstone env (name env t) t
         | Inr existing \<Rightarrow> bnd (lift (mergeTombstone existing t)) (storeTombstone env (name env t))) s3 = (Inr (), s2)"
    by (elim bnd_attemptE)
  have l3: "leasesOk s3"
    using balanced_leases [of "readCompletedTombstoneFile (name env t)", OF r] s1(1) by (simp add: balanced_readTombstoneFile)
  have stored: "\<exists>t'. fileIs completedDir (name env t) (Some (Stored t')) s' \<and> t' = u\<lparr>ct_Version := stateVersion\<rparr>"
    if "storeTombstone env (name env t) u s3 = (Inr (), s2)" for u
    using carried [rule_format, OF filesOnly_fileIs(3) storeTombstone_out [OF that l3]] by blast
  show ?thesis
  proof (cases r)
    case (Inl e)
    with k have e: "errIs e ErrNotExist" "storeTombstone env (name env t) t s3 = (Inr (), s2)" by (auto split: if_splits)
    have "?c = None"
      using readTombstone_missing [OF r [unfolded Inl] e(1)] s1(2) by (simp add: fileIs_def)
    with stored [OF e(2)] show ?thesis by (simp add: storedAs_def)
  next
    case (Inr existing)
    from r [unfolded Inr] obtain e where e: "lookupFile completedDir (name env t) s1 = Some (Stored e)"
      "existing = normalTombstone e" by (rule readTombstone_out)
    from e(1) s1(2) have "?c = Some (Stored e)" by (simp add: fileIs_def)
    moreover from k Inr obtain u where "mergeTombstone existing t = Inr u" "storeTombstone env (name env t) u s3 = (Inr (), s2)"
      by (auto elim: bnd_liftE)
    ultimately show ?thesis using stored e(2) by (auto simp: storedAs_def)
  qed
qed


lemma update_out:
  assumes "update env owner mutate s = (Inr x, s')" "leasesOk s" "fileIs completedDir n c s"
    and "\<And>st. balanced (\<lambda>_. True) (mutate st)"
  obtains current changed s2 s3 where "mutate current s2 = (Inr (changed, x), s3)" "leasesOk s2"
    "fileIs completedDir n c s2" "\<forall>d. fileIs completedDir n d s3 \<longrightarrow> fileIs completedDir n d s'"
proof -
  let ?p = "statePath env (ol_SessionID owner)"
  from assms(1) have "applyUpdate env owner mutate ?p s = (Inr x, s')"
    unfolding update_def withOwner_def by (auto split: if_splits option.splits elim!: bnd_InrE)
  then obtain r s2 where r: "readState env ?p s = (r, s2)"
    and k: "(case r of Inl e \<Rightarrow> raise (if errIs e ErrNotExist then ErrRetiredOwner else e)
     | Inr current \<Rightarrow> if \<not> ownerMatches current owner then raise ErrRetiredOwner
         else bnd (mutate current) (\<lambda>(changed, x). bnd getNow (\<lambda>now.
           bnd (writeStateAtomic ?p (changed\<lparr>st_UpdatedAt := Some now\<rparr>)) (\<lambda>_. ret x)))) s2 = (Inr x, s')"
    unfolding applyUpdate_def by (elim bnd_attemptE)
  from k obtain current changed s3 now s4 where m: "mutate current s2 = (Inr (changed, x), s3)"
    and now: "getNow s3 = (Inr now, s4)"
    and w: "writeStateAtomic ?p (changed\<lparr>st_UpdatedAt := Some now\<rparr>) s4 = (Inr (), s')"
    by (auto split: sum.splits if_splits elim!: bnd_InrE)
  have l2: "leasesOk s2" "fileIs completedDir n c s2"
    using balanced_leases [of "readState env ?p", OF r] readState_same [OF r] assms(2,3)
    by (simp_all add: balanced_readState fileIs_def lookupFile_def completedDir_def files_def)
  have "leasesOk s3"
    using balanced_leases [of "mutate current", OF m] assms(4) l2(1) by simp
  then have l4: "leasesOk s4"
    using balanced_leases [of getNow, OF now] by (simp add: balanced_getNow)
  have "fileIs completedDir n d s'" if "fileIs completedDir n d s3" for d
  proof -
    have "fileIs completedDir n d s4"
      using that getNow_out [OF now] by (simp add: fileIs_def lookupFile_def completedDir_def files_def)
    moreover have "ignores stateDir (fileIs completedDir n d)"
      by (simp add: ignores_def fileIs_def lookupFile_def completedDir_def stateDir_def)
    then have "balanced (fileIs completedDir n d) (writeStateAtomic ?p (changed\<lparr>st_UpdatedAt := Some now\<rparr>))"
      by (intro balancing) simp_all
    ultimately show ?thesis
      using balanced_step [of "writeStateAtomic ?p (changed\<lparr>st_UpdatedAt := Some now\<rparr>)" s4 _ s' "fileIs completedDir n d"] w l4
      by blast
  qed
  with that m l2 show thesis by blast
qed

lemma SaveCompleted_out:
  assumes "SaveCompleted env owner results events eph f s = (Inr (), s')" "leasesOk s"
    and c: "canonicalToolResults results = Inr canonical"
    and none: "fileIs completedDir (completedIndexName env (ol_CredentialHash owner) (completedBatchIDs canonical) f) None s"
  obtains persisted t where "persistEvents (se_body env) (se_rest env) events = Inr persisted"
    "fileIs completedDir (completedIndexName env (ol_CredentialHash owner) (completedBatchIDs canonical) f) (Some (Stored t)) s'"
    "ct_Version t = stateVersion" "ct_CredentialFingerprint t = ol_CredentialHash owner" "ct_Events t = persisted"
    "ct_BatchIDs t = completedBatchIDs canonical" "ct_FollowUpText t = trimSpace f"
    "ct_ResultDigest t = toolResultDigest (se_sha env) canonical" "ct_Ephemeral t = eph" "ct_UpdatedAt t = Some (w_now s)"
proof -
  let ?n = "completedIndexName env (ol_CredentialHash owner) (completedBatchIDs canonical) f"
  from assms(1) obtain now s1 tomb where now: "getNow s = (Inr now, s1)"
    and tomb: "newCompletedTombstone env owner results events eph f now = Inr tomb"
    and up: "update env owner (setCompleted env owner tomb eph f) s1 = (Inr (), s')"
    unfolding SaveCompleted_def by (auto elim!: bnd_InrE bnd_liftE)
  have nw: "now = w_now s" using now by (simp add: getNow_def)
  have s1: "leasesOk s1" "fileIs completedDir ?n None s1"
    using balanced_leases [of getNow, OF now] getNow_out [OF now] assms(2) none
    by (simp_all add: balanced_getNow fileIs_def lookupFile_def completedDir_def files_def)
  from tomb c obtain persisted where p: "persistEvents (se_body env) (se_rest env) events = Inr persisted"
    and t: "tomb = \<lparr>ct_RequestKey = [], ct_RequestSegmentID = ol_RequestSegmentID owner,
            ct_Version = stateVersion, ct_CredentialFingerprint = ol_CredentialHash owner,
            ct_BatchIDs = completedBatchIDs canonical,
            ct_ResultDigest = toolResultDigest (se_sha env) canonical, ct_Results = canonical,
            ct_Events = persisted, ct_BillingRunID = ol_BillingRunID owner, ct_SessionID = ol_SessionID owner,
            ct_ConversationID = ol_ConversationID owner, ct_HasPending = False,
            ct_FollowUpText = trimSpace f, ct_Ephemeral = eph, ct_UpdatedAt = Some now\<rparr>"
    unfolding newCompletedTombstone_def by (auto split: sum.splits)
  have "\<And>st. balanced (\<lambda>_. True) (setCompleted env owner tomb eph f st)"
    by (intro balancing; simp)
  then obtain current changed s2 s3 where
      m: "setCompleted env owner tomb eph f current s2 = (Inr (changed, ()), s3)"
    and s2: "leasesOk s2" "fileIs completedDir ?n None s2"
    and kept: "\<forall>d. fileIs completedDir ?n d s3 \<longrightarrow> fileIs completedDir ?n d s'"
    by (rule update_out [OF up s1])
  let ?t = "completedOf owner current tomb"
  from m have w: "writeCompletedTombstone env ?t s2 = (Inr (), s3)"
    unfolding setCompleted_def Let_def by (auto elim!: bnd_InrE split: if_splits)
  have n: "completedIndexName env (ct_CredentialFingerprint ?t) (ct_BatchIDs ?t) (ct_FollowUpText ?t) = ?n"
    by (simp add: t completedOf_def completedIndexName_def normalizeFollowUp_def)
  from writeTombstone_out [OF w s2(1)] s2(2) have
    "fileIs completedDir ?n (Some (Stored (?t\<lparr>ct_Version := stateVersion\<rparr>))) s3"
    unfolding n by (auto simp: storedAs_def fileIs_def)
  with kept have "fileIs completedDir ?n (Some (Stored (?t\<lparr>ct_Version := stateVersion\<rparr>))) s'" by blast
  then show thesis by (rule that [OF p]) (simp_all add: t completedOf_def nw)
qed

text \<open>
  C37: A saved answer is replayed.  Once \<open>SaveCompleted\<close> has succeeded for results that had no snapshot
  yet, a lookup of the same results, in any order, by the same credential and with the same follow-up text
  returns the events that were saved, coalesced, until the snapshot expires.  The only other outcome is an error
  that has at its bottom a failed call of the operating system, a lease held by another process, or a file of the
  directory that cannot be decoded or has an unknown version (expired files, also those of others, are collected
  first); so never a missing file, never \<open>ErrSessionNotPending\<close> (which would make the client's retry run again)
  and never a conflict.
\<close>

theorem saved_answer_is_replayed:
  assumes "leasesOk s" and "canonicalToolResults results = Inr canonical" and "mset results' = mset results"
    and "trimSpace (ol_CredentialHash owner) = ol_CredentialHash owner" and "ol_CredentialHash owner \<noteq> []"
    and "normalizeFollowUp f' = normalizeFollowUp f"
    and "lookupFile completedDir (completedIndexName env (ol_CredentialHash owner) (completedBatchIDs canonical) f) s = None"
    and "SaveCompleted env owner results events eph f s = (Inr (), s1)"
    and "LookupCompleted env (ol_CredentialHash owner) results' f' s1 = (r, s2)"
    and "subTime (w_now s2) (w_now s) \<le> (if eph then completedTombstoneTTL else se_ttl env)"
    and "\<forall>e \<in> set events. plainText e \<and> ev_Type e \<noteq> EventZero"
  shows "(\<exists>replay. r = Inr replay \<and> rp_Events replay = foldl addEvent [] events)
    \<or> (\<exists>e. r = Inl e \<and> hard e)"
proof -
  let ?n = "completedIndexName env (ol_CredentialHash owner) (completedBatchIDs canonical) f"
  from SaveCompleted_out [OF assms(8,1,2)] assms(7) obtain persisted t where
      p: "persistEvents (se_body env) (se_rest env) events = Inr persisted"
    and t: "fileIs completedDir ?n (Some (Stored t)) s1"
      "ct_Version t = stateVersion" "ct_CredentialFingerprint t = ol_CredentialHash owner" "ct_Events t = persisted"
      "ct_BatchIDs t = completedBatchIDs canonical" "ct_FollowUpText t = trimSpace f"
      "ct_ResultDigest t = toolResultDigest (se_sha env) canonical" "ct_Ephemeral t = eph" "ct_UpdatedAt t = Some (w_now s)"
    by (auto simp: fileIs_def)
  have c': "canonicalToolResults results' = Inr canonical"
    by (rule canonicalToolResults_mset [OF assms(2,3)])
  have n: "completedIndexName env (trimSpace (ol_CredentialHash owner)) (completedBatchIDs canonical) f' = ?n"
    using assms(4,6) by (simp add: completedIndexName_def)
  have live: "\<not> completedTombstoneExpired t (w_now s2) (se_ttl env)"
    using assms(10) t(8,9) by (simp add: completedTombstoneExpired_def Let_def)
  have ok: "leasesOk s1"
    using balanced_leases [of "SaveCompleted env owner results events eph f", OF assms(8)] assms(1)
    by (simp add: balanced_SaveCompleted)
  have "eventsFromPersisted persisted = Inr (foldl addEvent [] events)"
    by (rule restore_persisted [OF p]) (use assms(11) in auto)
  then have "\<exists>replay. replayOf (normalTombstone t) = Inr replay \<and> rp_Events replay = foldl addEvent [] events"
    using t(4) by (simp add: replayOf_def normalTombstone_def)
  moreover have "r = replayOf (normalTombstone t) \<or> (\<exists>e. r = Inl e \<and> hard e)"
    by (rule lookup_there [OF assms(9) ok c' _ t(1) [folded n]])
       (use assms(4,5,6) t live canonical_batch(3) [OF assms(2)] in \<open>simp_all add: storedVersion_def normalizeFollowUp_def\<close>)
  ultimately show ?thesis by auto
qed

lemma saved_answer_is_replayed_witness:
  "\<exists>replay. fst lookedUp = Inr replay \<and> rp_Events replay = foldl addEvent [] exampleEvents"
proof -
  have "trimSpace (ol_CredentialHash exampleOwner) = ol_CredentialHash exampleOwner \<and> ol_CredentialHash exampleOwner \<noteq> []"
    by code_simp
  moreover have "Option.is_none (lookupFile completedDir (completedIndexName exampleStore (ol_CredentialHash exampleOwner)
      (completedBatchIDs exampleCanonical) []) ownedWorld)"
    by code_simp
  moreover have "LookupCompleted exampleStore (ol_CredentialHash exampleOwner) exampleResults [] savedWorld
      = (fst lookedUp, snd lookedUp)"
    by (simp add: lookedUp_def exampleOwner_def)
  moreover have "subTime (w_now (snd lookedUp)) (w_now ownedWorld) \<le> (if True then completedTombstoneTTL else se_ttl exampleStore)"
    unfolding lookedUp_ok(2) by code_simp
  moreover have "\<forall>e \<in> set exampleEvents. plainText e \<and> ev_Type e \<noteq> EventZero"
    by code_simp
  ultimately show ?thesis
    using saved_answer_is_replayed [OF ownedWorld_leases example_canonical refl, of exampleOwner "[]" "[]" exampleStore
        exampleEvents True savedWorld "fst lookedUp" "snd lookedUp"] save_ok lookedUp_ok(1)
    by (auto simp: Option.is_none_def)
qed

end
