(* ===== verification/StorePending.thy ===== *)
theory StorePending
  imports StoreReplay
begin

text \<open>
  The pending index and the states agree where it matters: a submission is only routed to a session that
  waits for it, an owner's save of pending tools lists its session under their batch, and the rebuild at
  start-up lists every session that waits.
\<close>

section \<open>Resolving a submission\<close>

text \<open>\<open>fewerStates s t\<close>: every state of \<open>t\<close> was there in \<open>s\<close>.\<close>

definition fewerStates :: "world \<Rightarrow> world \<Rightarrow> bool" where
  "fewerStates s t = (\<forall>n c. lookupFile stateDir n t = Some c \<longrightarrow> lookupFile stateDir n s = Some c)"

lemma fewerStates_simps [simp]: "filesOnly (fewerStates s)" "gcOblivious (fewerStates s)" "fewerStates s s"
  "shrinks stateDir (fewerStates s)" "ignores pendingDir (fewerStates s)" "ignores pendingToolDir (fewerStates s)"
  "ignores completedDir (fewerStates s)" "ignores completedToolDir (fewerStates s)"
  by (auto simp: fewerStates_def filesOnly_def blind_def gcOblivious_def ignores_def shrinks_def prunable_def stateDir_def
      pendingDir_def pendingToolDir_def completedDir_def completedToolDir_def lookupFile_def)

lemma fewerStates_trans: "fewerStates s t \<Longrightarrow> fewerStates t u \<Longrightarrow> fewerStates s u"
  by (simp add: fewerStates_def)

lemma fewerStates_step:
  "m s = (r, s') \<Longrightarrow> leasesOk s \<Longrightarrow> balanced (fewerStates s) m \<Longrightarrow> leasesOk s' \<and> fewerStates s s'"
  using balanced_step [of m s r s' "fewerStates s"] by simp

text \<open>A stored state that waits for the batch: by its recorded identifiers, or those of its pending tools.\<close>

definition waitsFor :: "string \<Rightarrow> string list \<Rightarrow> StateSnapshot \<Rightarrow> bool" where
  "waitsFor fp batch st = (st_CredentialFingerprint st = fp \<and> st_PendingTools st \<noteq> []
     \<and> normalizeToolIDs (if st_PendingBatchIDs st = [] then map (\<lambda>t. trimSpace (pt_ToolCallID t)) (st_PendingTools st)
         else st_PendingBatchIDs st) = batch)"

definition waiting :: "string \<Rightarrow> string list \<Rightarrow> string \<Rightarrow> world \<Rightarrow> bool" where
  "waiting fp batch sid s = (\<exists>name st. lookupFile stateDir name s = Some (Stored st)
     \<and> st_SessionID st = sid \<and> waitsFor fp batch st)"

lemma pendingState_version [simp]: "pendingState fp batch (st\<lparr>st_Version := v\<rparr>) = pendingState fp batch st"
  by (simp add: pendingState_def)

lemma normalizeToolIDs_sort [simp]: "normalizeToolIDs (sort ids) = normalizeToolIDs ids"
  by (rule normalizeToolIDs_cong) simp

lemma pendingState_waits: "pendingState fp batch st \<Longrightarrow> waitsFor fp batch st"
  by (auto simp: pendingState_def waitsFor_def pendingToolIDs_def)

lemma waitsFor_version [simp]: "waitsFor fp batch (st\<lparr>st_Version := v\<rparr>) = waitsFor fp batch st"
  by (simp add: waitsFor_def)

lemma waiting_normal: "waiting fp batch sid s \<Longrightarrow> normalizeToolIDs batch = batch"
  by (auto simp: waiting_def waitsFor_def)

lemma waiting_earlier: "waiting fp batch sid t \<Longrightarrow> fewerStates s t \<Longrightarrow> waiting fp batch sid s"
  by (auto simp: waiting_def fewerStates_def)

lemma matchSessions_out:
  assumes "matchSessions env fp batch ids s = (Inr ms, s')" "leasesOk s"
  shows "\<forall>m \<in> set ms. waiting fp batch m s"
  using assms
proof (induction ids arbitrary: s s' ms)
  case Nil
  then show ?case by simp
next
  case (Cons i ids)
  from Cons.prems(1) obtain r s1 where r: "readState env (statePath env i) s = (r, s1)"
    and k: "(case r of
       Inl e \<Rightarrow> if errIs e ErrNotExist then matchSessions env fp batch ids else raise e
     | Inr st \<Rightarrow>
         if \<not> pendingState fp batch st then matchSessions env fp batch ids
         else bnd (matchSessions env fp batch ids) (\<lambda>matches. ret (st_SessionID st # matches))) s1 = (Inr ms, s')"
    unfolding matchSessions.simps by (elim bnd_attemptE)
  have s1: "leasesOk s1" "fewerStates s s1"
    using fewerStates_step [of "readState env (statePath env i)", OF r Cons.prems(2)] by (simp_all add: balanced_readState)
  have IH: "\<forall>m \<in> set ms'. waiting fp batch m s" if "matchSessions env fp batch ids s1 = (Inr ms', s2)" for ms' s2
    using Cons.IH [OF that s1(1)] waiting_earlier s1(2) by blast
  show ?case
  proof (cases r)
    case (Inl e)
    with k IH show ?thesis by (auto split: if_splits)
  next
    case (Inr st)
    from r [unfolded Inr] have "waiting fp batch (st_SessionID st) s" if "pendingState fp batch st"
      by (rule readState_out) (use pendingState_waits [OF that] in \<open>auto simp: waiting_def\<close>)
    with k Inr IH show ?thesis by (auto split: if_splits elim!: bnd_InrE)
  qed
qed

lemma resolveExact_out:
  assumes "resolvePendingExact env fp batch s = (Inr sid, s')" "leasesOk s"
  shows "waiting fp batch sid s"
proof -
  from assms(1) obtain r s1 where r: "readPendingIndex (pendingIndexName env fp batch) s = (r, s1)"
    and k: "(case r of
       Inl e \<Rightarrow> if errIs e ErrNotExist then raise ErrSessionNotPending else raise e
     | Inr index \<Rightarrow>
         if pi_CredentialFingerprint index \<noteq> fp \<or> pi_BatchIDs index \<noteq> batch \<or> pi_SessionIDs index = []
         then raise ErrSessionNotPending
         else bnd (matchSessions env fp batch (pi_SessionIDs index)) (\<lambda>matches.
           bnd (forE (filter (\<lambda>i. i \<notin> set matches) (pi_SessionIDs index))
                  (\<lambda>i. mutatePendingIndex env fp batch i False)) (\<lambda>_.
           case matches of
             [] \<Rightarrow> raise ErrSessionNotPending
           | [sessionID] \<Rightarrow> ret sessionID
           | _ \<Rightarrow> raise ErrPendingAmbiguous))) s1 = (Inr sid, s')"
    unfolding resolvePendingExact_def by (elim bnd_attemptE)
  have s1: "leasesOk s1" "fewerStates s s1"
    using fewerStates_step [of "readPendingIndex (pendingIndexName env fp batch)", OF r assms(2)]
    by (simp_all add: balanced_readPendingIndex)
  from k obtain ids s2 where "matchSessions env fp batch ids s1 = (Inr [sid], s2)"
    by (auto split: sum.splits if_splits list.splits elim!: bnd_InrE)
  from matchSessions_out [OF this s1(1)] s1(2) show ?thesis by (auto intro: waiting_earlier)
qed

lemma coveringLoop_out:
  assumes "coveringLoop env fp submitted ids candidate s = (Inr batch, s')"
    and "candidate = [] \<or> batchSubsetOf candidate submitted"
  shows "batch = [] \<or> batchSubsetOf batch submitted"
  using assms
proof (induction ids arbitrary: s candidate)
  case Nil
  then show ?case by simp
next
  case (Cons i ids)
  from Cons.prems(1) obtain r :: "toolBatchPointer res" and s1 where
    "(case r of
       Inl e \<Rightarrow> if errIs e ErrNotExist then coveringLoop env fp submitted ids candidate else raise e
     | Inr pointer \<Rightarrow>
         if tp_CredentialFingerprint pointer \<noteq> fp \<or> \<not> batchSubsetOf (tp_BatchIDs pointer) submitted
         then coveringLoop env fp submitted ids candidate
         else if candidate = [] then coveringLoop env fp submitted ids (tp_BatchIDs pointer)
         else if candidate \<noteq> tp_BatchIDs pointer then raise ErrPendingAmbiguous
         else coveringLoop env fp submitted ids candidate) s1 = (Inr batch, s')"
    unfolding coveringLoop.simps by (elim bnd_attemptE)
  with Cons.IH Cons.prems(2) show ?case
    by (auto split: sum.splits if_splits)
qed

lemma resolved_batch:
  assumes "leasesOk s" and "ResolvePending env fp ids s = (Inr sid, s')"
  shows "\<exists>batch. (batch = normalizeToolIDs ids \<or> batchSubsetOf batch (normalizeToolIDs ids)) \<and> batch \<noteq> []
    \<and> waiting (trimSpace fp) batch sid s"
proof -
  let ?fp = "trimSpace fp" and ?ids = "normalizeToolIDs ids"
  from assms(2) obtain s1 where prune: "pruneExpired env False s = (Inr (), s1)"
    and res: "resolveTrimmed env ?fp ?ids s1 = (Inr sid, s')" and ne: "?ids \<noteq> []"
    unfolding ResolvePending_def Let_def by (auto elim!: bnd_InrE split: if_splits)
  have "balanced (fewerStates s) (pruneExpired env False)"
    by (intro balancing; simp)
  then have s1: "leasesOk s1" "fewerStates s s1"
    using fewerStates_step [of "pruneExpired env False", OF prune assms(1)] by simp_all
  from res obtain r s2 where r: "resolvePendingExact env ?fp ?ids s1 = (r, s2)"
    and k: "(case r of Inr sessionID \<Rightarrow> ret sessionID
     | Inl e \<Rightarrow> if \<not> errIs e ErrSessionNotPending then raise e
         else bnd (pendingCoveringBatch env ?fp ?ids) (\<lambda>covering.
           if covering = [] \<or> covering = ?ids then raise ErrSessionNotPending
           else resolvePendingExact env ?fp covering)) s2 = (Inr sid, s')"
    unfolding resolveTrimmed_def by (elim bnd_attemptE)
  show ?thesis
  proof (cases r)
    case (Inr x)
    with k r have "resolvePendingExact env ?fp ?ids s1 = (Inr sid, s2)" by simp
    from resolveExact_out [OF this s1(1)] s1(2) ne show ?thesis by (auto intro: waiting_earlier)
  next
    case (Inl e)
    have s2: "leasesOk s2" "fewerStates s1 s2"
      using fewerStates_step [of "resolvePendingExact env ?fp ?ids", OF r s1(1)] by (simp_all add: balanced_resolveExact)
    from k Inl obtain batch s3 where c: "pendingCoveringBatch env ?fp ?ids s2 = (Inr batch, s3)"
      and b: "batch \<noteq> []" and x: "resolvePendingExact env ?fp batch s3 = (Inr sid, s')"
      by (auto split: if_splits elim!: bnd_InrE)
    have s3: "leasesOk s3" "fewerStates s2 s3"
      using fewerStates_step [of "pendingCoveringBatch env ?fp ?ids", OF c s2(1)] by (simp_all add: balanced_covering)
    have "batchSubsetOf batch ?ids"
      using coveringLoop_out [OF c [unfolded pendingCoveringBatch_def]] b by simp
    with resolveExact_out [OF x s3(1)] b s1(2) s2(2) s3(2) show ?thesis
      by (meson fewerStates_trans waiting_earlier)
  qed
qed

text \<open>
  C38: A submission is only routed to a session that waits for it: when \<open>ResolvePending\<close> returns a session,
  a state of that session was stored under the same credential, with pending tools, whose batch (the recorded
  identifiers, or those of the pending tools when none are recorded) is exactly the submitted set of tool calls or a
  non-empty part of it.
\<close>

theorem resolved_session_waits:
  assumes "leasesOk s" and "ResolvePending env fp ids s = (Inr sid, s')"
  shows "\<exists>batch. (batch = normalizeToolIDs ids \<or> batchSubsetOf batch (normalizeToolIDs ids)) \<and> batch \<noteq> []
    \<and> set batch \<subseteq> set (normalizeToolIDs ids) \<and> waiting (trimSpace fp) batch sid s"
proof -
  obtain batch where b: "batch = normalizeToolIDs ids \<or> batchSubsetOf batch (normalizeToolIDs ids)" "batch \<noteq> []"
      "waiting (trimSpace fp) batch sid s"
    using resolved_batch [OF assms] by blast
  moreover have "set batch \<subseteq> set (normalizeToolIDs ids)"
    using b(1)
  proof
    assume "batchSubsetOf batch (normalizeToolIDs ids)"
    then show ?thesis by (simp only: batchSubsetOf_def waiting_normal [OF b(3)] normalizeToolIDs_idem Let_def) blast
  qed simp
  ultimately show ?thesis by blast
qed

section \<open>Listing a session under its batch\<close>

definition indexed :: "string \<Rightarrow> string list \<Rightarrow> string \<Rightarrow> pendingIndex \<Rightarrow> bool" where
  "indexed fp batch sid idx = (pi_CredentialFingerprint idx = fp
     \<and> normalizeToolIDs (pi_BatchIDs idx) = normalizeToolIDs batch \<and> sid \<in> set (pi_SessionIDs idx))"

definition listed :: "storeEnv \<Rightarrow> string \<Rightarrow> string list \<Rightarrow> string \<Rightarrow> world \<Rightarrow> bool" where
  "listed env fp batch sid s = (\<exists>idx. lookupFile pendingDir (pendingIndexName env fp batch) s = Some (Stored idx)
     \<and> indexed fp batch sid idx)"

lemma filesOnly_listed [simp]: "filesOnly (listed env fp batch sid)"
  by (auto simp: listed_def filesOnly_def blind_def lookupFile_def pendingDir_def)

lemma ignores_listed [simp]: "ignores pendingToolDir (listed env fp batch sid)" "ignores stateDir (listed env fp batch sid)"
  by (simp_all add: ignores_def listed_def lookupFile_def pendingDir_def pendingToolDir_def stateDir_def)

lemma pendingIndexName_normal [simp]: "pendingIndexName env fp (normalizeToolIDs batch) = pendingIndexName env fp batch"
  by (simp add: pendingIndexName_def batchMaterial_def)

lemma indexed_normal [simp]: "indexed fp (normalizeToolIDs batch) sid idx = indexed fp batch sid idx"
  by (simp add: indexed_def)

lemma listed_normal [simp]: "listed env fp (normalizeToolIDs batch) sid s = listed env fp batch sid s"
  by (simp add: listed_def)

text \<open>The entry an addition starts from, and what it leaves.\<close>

definition baseIndex :: "string \<Rightarrow> string list \<Rightarrow> pendingIndex content option \<Rightarrow> pendingIndex option" where
  "baseIndex fp batch c = (case c of None \<Rightarrow> Some (freshIndex fp batch)
     | Some (Stored i) \<Rightarrow> Some (i\<lparr>pi_Version := stateVersion, pi_BatchIDs := normalizeToolIDs (pi_BatchIDs i)\<rparr>)
     | Some Undecodable \<Rightarrow> None)"

definition added :: "storeEnv \<Rightarrow> string \<Rightarrow> string list \<Rightarrow> string \<Rightarrow> pendingIndex content option \<Rightarrow> world \<Rightarrow> bool" where
  "added env fp batch sid c s = (\<exists>i now. baseIndex fp batch c = Some i \<and> pi_CredentialFingerprint i = fp
     \<and> pi_BatchIDs i = normalizeToolIDs batch
     \<and> lookupFile pendingDir (pendingIndexName env fp batch) s = Some (Stored
         (i\<lparr>pi_SessionIDs := mutateSessions sid True (pi_SessionIDs i), pi_UpdatedAt := Some now\<rparr>)))"

lemma filesOnly_added [simp]: "filesOnly (added env fp batch sid c)"
  by (auto simp: added_def filesOnly_def blind_def lookupFile_def pendingDir_def)

lemma added_listed: "added env fp batch sid c s \<Longrightarrow> listed env fp batch sid s"
  by (auto simp: added_def listed_def indexed_def mutateSessions_def)

lemma added_keeps:
  assumes "added env fp batch sid (Some (Stored idx)) s" "indexed fp2 batch2 sid2 idx"
    and "pendingIndexName env fp2 batch2 = pendingIndexName env fp batch"
  shows "listed env fp2 batch2 sid2 s"
  using assms by (auto simp: added_def listed_def indexed_def baseIndex_def mutateSessions_def)

lemma readIndex_out:
  assumes "readPendingIndex name s = (r, s')"
  shows "files s' = files s" and "r = Inr i \<Longrightarrow> baseIndex fp batch (lookupFile pendingDir name s) = Some i"
    and "r = Inl e \<Longrightarrow> errIs e ErrNotExist \<Longrightarrow> lookupFile pendingDir name s = None"
proof -
  have b: "blind (\<lambda>t. files t = files s)" by (simp add: filesOnly_blind)
  have "keeps (\<lambda>t. files t = files s) (readPendingIndex name)"
    unfolding readPendingIndex_def by (intro keeping b)
  from keeps_out [OF this _ assms] show "files s' = files s" by simp
  have sys: "\<not> errIs e ErrNotExist" if "sys a = (Inl e, b)" for a e b
    using that by (auto simp: sys_def split: list.splits option.splits)
  have same: "lookupFile pendingDir n b = lookupFile pendingDir n a" if "sys a = (Inr x, b)" for a x b n
    using sys_out [OF that] by (simp add: lookupFile_def pendingDir_def files_def)
  show "baseIndex fp batch (lookupFile pendingDir name s) = Some i" if "r = Inr i"
    using assms that unfolding readPendingIndex_def readFile_def
    by (auto elim!: bnd_InrE bnd_liftE split: option.splits content.splits simp: same baseIndex_def
        dest!: migrate_version migrate_version [OF sym])
  show "lookupFile pendingDir name s = None" if "r = Inl e" "errIs e ErrNotExist"
    using assms that unfolding readPendingIndex_def readFile_def
    by (auto elim!: bndE split: option.splits content.splits simp: same migrateRecordVersion_def dest: sys split: if_splits)
qed

text \<open>The body of an addition, under the lease of its entry.\<close>

definition addUnderLease :: "storeEnv \<Rightarrow> string \<Rightarrow> string list \<Rightarrow> string \<Rightarrow> unit st" where
  "addUnderLease env fp batch sid =
     bnd (attempt (readPendingIndex (pendingIndexName env fp batch))) (\<lambda>r.
         bnd (case r of Inr index \<Rightarrow> ret index
            | Inl e \<Rightarrow> if errIs e ErrNotExist then ret (freshIndex fp batch) else raise e) (\<lambda>index.
         if pi_CredentialFingerprint index \<noteq> fp \<or> pi_BatchIDs index \<noteq> normalizeToolIDs batch
         then raise (Errorf ''Cursor Agent v1 pending index identity mismatch'' [])
         else storeIndex env fp batch True
           (index\<lparr>pi_SessionIDs := mutateSessions sid True (pi_SessionIDs index)\<rparr>)))"

lemma mutate_add: "mutatePendingIndex env fp batch sid True
    = withLease (DirPending, pendingIndexName env fp batch) (addUnderLease env fp batch sid)"
  unfolding mutatePendingIndex_def addUnderLease_def Let_def ..

lemma commits_storeIndex:
  assumes "baseIndex fp batch c = Some i" "pi_CredentialFingerprint i = fp" "pi_BatchIDs i = normalizeToolIDs batch"
  shows "commits (\<lambda>s. holding H s \<and> fileIs pendingDir (pendingIndexName env fp batch) c s)
     (added env fp batch sid c)
     (storeIndex env fp batch True (i\<lparr>pi_SessionIDs := mutateSessions sid True (pi_SessionIDs i)\<rparr>))"
proof -
  let ?n = "pendingIndexName env fp batch"
  let ?P = "\<lambda>s. holding H s \<and> fileIs pendingDir ?n c s"
  let ?K = "added env fp batch sid c"
  let ?i = "i\<lparr>pi_SessionIDs := mutateSessions sid True (pi_SessionIDs i)\<rparr>"
  have "sid \<in> set (pi_SessionIDs ?i)" by (simp add: mutateSessions_def)
  then have ne: "pi_SessionIDs ?i \<noteq> []" by auto
  have P: "blind ?P" by (intro blind_holding_files) simp
  have ig: "ignores pendingToolDir (fileIs pendingDir ?n c)"
    by (simp add: ignores_def fileIs_def lookupFile_def pendingDir_def pendingToolDir_def)
  have pointers: "keeps ?P (writePendingToolPointers env fp batch)"
    using balanced_writePendingPointers [OF filesOnly_fileIs(2) ig] by (simp add: balanced_def)
  have wr: "commits ?P ?K (writePendingIndexAtomic ?n (?i\<lparr>pi_UpdatedAt := Some now\<rparr>))" for now
    unfolding writePendingIndexAtomic_def
    by (rule commits_mono, rule commits_write [OF _ P])
       (use assms in \<open>auto simp: added_def fileIs_def intro: filesOnly_blind [OF filesOnly_fileIs(2)]\<close>)
  show ?thesis
    unfolding storeIndex_def Let_def
    using ne by (auto intro!: committing commits_before [OF pointers] commits_before [OF keeps_getNow [OF P]] wr)
qed

lemma commits_add:
  "commits (\<lambda>s. holding H s \<and> fileIs pendingDir (pendingIndexName env fp batch) c s)
     (added env fp batch sid c) (addUnderLease env fp batch sid)"
  (is "commits ?P ?K _")
  unfolding commits_def
proof (intro allI impI satI)
  fix s r s'
  assume s: "?P s" and run: "addUnderLease env fp batch sid s = (r, s')"
  let ?n = "pendingIndexName env fp batch"
  from run obtain r1 s1 where r1: "readPendingIndex ?n s = (r1, s1)"
    and k: "bnd (case r1 of Inr index \<Rightarrow> ret index
            | Inl e \<Rightarrow> if errIs e ErrNotExist then ret (freshIndex fp batch) else raise e) (\<lambda>index.
         if pi_CredentialFingerprint index \<noteq> fp \<or> pi_BatchIDs index \<noteq> normalizeToolIDs batch
         then raise (Errorf ''Cursor Agent v1 pending index identity mismatch'' [])
         else storeIndex env fp batch True
           (index\<lparr>pi_SessionIDs := mutateSessions sid True (pi_SessionIDs index)\<rparr>)) s1 = (r, s')"
    unfolding addUnderLease_def by (elim bnd_attemptE)
  have "balanced (fileIs pendingDir ?n c) (readPendingIndex ?n)" by (intro balancing) simp
  then have s1: "?P s1"
    using balanced_out [of "fileIs pendingDir ?n c" "readPendingIndex ?n" H s r1 s1] s r1 by simp
  note out = readIndex_out [OF r1]
  show "committed ?P ?K r s'"
  proof (cases "\<exists>i. baseIndex fp batch c = Some i \<and> (case r1 of Inr index \<Rightarrow> ret index
            | Inl e \<Rightarrow> if errIs e ErrNotExist then ret (freshIndex fp batch) else raise e) = (ret i :: pendingIndex st)")
    case True
    then obtain i where i: "baseIndex fp batch c = Some i" and
      ri: "(case r1 of Inr index \<Rightarrow> ret index
            | Inl e \<Rightarrow> if errIs e ErrNotExist then ret (freshIndex fp batch) else raise e) = (ret i :: pendingIndex st)"
      by blast
    from k have k2: "(if pi_CredentialFingerprint i \<noteq> fp \<or> pi_BatchIDs i \<noteq> normalizeToolIDs batch
         then raise (Errorf ''Cursor Agent v1 pending index identity mismatch'' [])
         else storeIndex env fp batch True
           (i\<lparr>pi_SessionIDs := mutateSessions sid True (pi_SessionIDs i)\<rparr>)) s1 = (r, s')"
      unfolding ri by (simp add: bnd_def ret_def)
    show ?thesis
    proof (cases "pi_CredentialFingerprint i \<noteq> fp \<or> pi_BatchIDs i \<noteq> normalizeToolIDs batch")
      case True
      with k2 s1 show ?thesis by auto
    next
      case False
      with k2 show ?thesis
        using commitsD [OF commits_storeIndex [where H = H and env = env and sid = sid, OF i] s1] by simp
    qed
  next
    case False
    then obtain e where "r1 = Inl e" "\<not> errIs e ErrNotExist"
      using out(2) [of _ fp batch] out(3) s by (cases r1) (auto simp: fileIs_def baseIndex_def split: if_splits)
    with k s1 show ?thesis by (auto simp: bnd_def raise_def)
  qed
qed

lemma balanced_addUnderLease: "balanced (\<lambda>_. True) (addUnderLease env fp batch sid)"
proof -
  have "filesOnly (\<lambda>_. True)" "ignores pendingToolDir (\<lambda>_. True)"
    "untouched pendingDir (pendingIndexName env fp batch) (\<lambda>_. True)"
    by (simp_all add: filesOnly_def blind_def ignores_def untouched_def)
  then show ?thesis unfolding addUnderLease_def by (intro balancing)
qed

lemma balanced_add_listed: "balanced (listed env fp2 batch2 sid2) (mutatePendingIndex env fp batch sid True)"
proof (cases "pendingIndexName env fp2 batch2 = pendingIndexName env fp batch")
  case False
  have "untouched pendingDir (pendingIndexName env fp batch) (listed env fp2 batch2 sid2)"
    using False by (auto simp: untouched_def listed_def lookupFile_def pendingDir_def)
  then show ?thesis by (intro balancing) simp_all
next
  case True
  have "sat (addUnderLease env fp batch sid) (\<lambda>_ s. holding H s \<and> listed env fp2 batch2 sid2 s) s"
    if s: "holding H s" "listed env fp2 batch2 sid2 s" for H s
  proof -
    from s(2) obtain idx where f: "lookupFile pendingDir (pendingIndexName env fp batch) s = Some (Stored idx)"
      and idx: "indexed fp2 batch2 sid2 idx"
      unfolding listed_def True by blast
    have "sat (addUnderLease env fp batch sid)
        (committed (\<lambda>s. holding H s \<and> fileIs pendingDir (pendingIndexName env fp batch) (Some (Stored idx)) s)
           (added env fp batch sid (Some (Stored idx)))) s"
      using commits_add [of H env fp batch "Some (Stored idx)" sid] s(1) f by (simp add: commits_def fileIs_def)
    moreover have "listed env fp2 batch2 sid2 t"
      if "fileIs pendingDir (pendingIndexName env fp batch) (Some (Stored idx)) t
        \<or> added env fp batch sid (Some (Stored idx)) t" for t
      using that added_keeps [OF _ idx True] idx True by (auto simp: fileIs_def listed_def)
    moreover have "sat (addUnderLease env fp batch sid) (\<lambda>_ s. holding H s \<and> True) s"
      using s(1) by (intro balancedD [OF balanced_addUnderLease]) simp_all
    ultimately show ?thesis
      unfolding sat_def committed_def by (auto split: prod.splits sum.splits)
  qed
  then have "balanced (listed env fp2 batch2 sid2) (addUnderLease env fp batch sid)"
    by (simp add: balanced_def keeps_def)
  then show ?thesis unfolding mutate_add by (intro balancing) simp
qed

lemma add_lists:
  assumes "mutatePendingIndex env fp batch sid True s = (Inr (), s')" "leasesOk s"
  shows "listed env fp batch sid s'"
proof -
  let ?c = "lookupFile pendingDir (pendingIndexName env fp batch) s"
  have q: "filesOnly (fileIs pendingDir (pendingIndexName env fp batch) ?c)"
    "fileIs pendingDir (pendingIndexName env fp batch) ?c s"
    by (simp_all add: fileIs_def [of _ _ _ s])
  from assms(1) obtain s1 s2 where
      m: "addUnderLease env fp batch sid s1 = (Inr (), s2)"
    and s1: "leasesOk s1" "fileIs pendingDir (pendingIndexName env fp batch) ?c s1"
    and carried: "\<forall>R. filesOnly R \<longrightarrow> R s2 \<longrightarrow> R s'"
    unfolding mutate_add by (rule withLease_postE [OF _ assms(2) q]) blast+
  have "added env fp batch sid ?c s2"
    using commitsD [OF commits_add _ m, of "w_held s1" ?c] s1 by (simp add: holding_def)
  then show ?thesis using carried filesOnly_listed added_listed by blast
qed

text \<open>A loop that returned has run every step, and what a step reached is still there at the end.\<close>

lemma forE_reaches:
  assumes "forE xs f s = (Inr (), s')" "x \<in> set xs" "leasesOk s" "P s"
    and "\<And>y. balanced P (f y)" "\<And>y. balanced Q (f y)"
    and "\<And>s1 s2. f x s1 = (Inr (), s2) \<Longrightarrow> leasesOk s1 \<Longrightarrow> P s1 \<Longrightarrow> Q s2"
  shows "Q s'"
  using assms(1-4)
proof (induction xs arbitrary: s)
  case (Cons y ys)
  from Cons.prems(1) obtain u :: unit and s1 where step: "f y s = (Inr u, s1)" and rest: "forE ys f s1 = (Inr (), s')"
    by (auto elim: bnd_InrE)
  have s1: "leasesOk s1" "P s1"
    using balanced_step [of "f y", OF step assms(5) Cons.prems(3,4)] by simp_all
  show ?case
  proof (cases "y = x")
    case True
    then have "Q s1" using assms(7) step Cons.prems(3,4) by simp
    with balanced_step [of "forE ys f", OF rest balanced_forE [OF assms(6)] s1(1)] show ?thesis by blast
  next
    case False
    with Cons.IH [OF rest _ s1] Cons.prems(2) show ?thesis by simp
  qed
qed simp

lemma sync_lists:
  assumes "syncPendingIndex env fp sid prev batch s = (Inr (), s')" "leasesOk s" "normalizeToolIDs batch \<noteq> []"
  shows "listed env fp batch sid s'"
proof -
  from assms(1,3) obtain u :: unit and s1 where
      first: "(if normalizeToolIDs prev \<noteq> [] \<and> normalizeToolIDs prev \<noteq> normalizeToolIDs batch
        then mutatePendingIndex env fp (normalizeToolIDs prev) sid False else ret ()) s = (Inr u, s1)"
    and add: "mutatePendingIndex env fp (normalizeToolIDs batch) sid True s1 = (Inr (), s')"
    unfolding syncPendingIndex_def Let_def by (auto elim!: bnd_InrE)
  have "balanced (\<lambda>_. True) (if normalizeToolIDs prev \<noteq> [] \<and> normalizeToolIDs prev \<noteq> normalizeToolIDs batch
        then mutatePendingIndex env fp (normalizeToolIDs prev) sid False else ret ())"
    by (intro balancing; simp)
  from balanced_leases [OF first this assms(2)] add_lists [OF add] show ?thesis by simp
qed

text \<open>One step of the rebuild.\<close>

definition rebuildOne :: "storeEnv \<Rightarrow> string \<Rightarrow> unit st" where
  "rebuildOne env name = bnd (readState env name) (\<lambda>st.
       if st_PendingTools st = [] then ret ()
       else syncPendingIndex env (st_CredentialFingerprint st) (st_SessionID st) []
              (if st_PendingBatchIDs st = [] then pendingToolIDs (st_PendingTools st)
               else st_PendingBatchIDs st))"

lemma balanced_sync_listed: "balanced (listed env fp2 batch2 sid2) (syncPendingIndex env fp sid [] batch)"
proof (cases "normalizeToolIDs batch = []")
  case True
  then show ?thesis
    unfolding syncPendingIndex_def Let_def by (auto intro!: balancing)
next
  case False
  then have "syncPendingIndex env fp sid [] batch
      = bnd (ret ()) (\<lambda>_. mutatePendingIndex env fp (normalizeToolIDs batch) sid True)"
    by (simp add: syncPendingIndex_def)
  then show ?thesis
    using balanced_bnd [OF balanced_ret balanced_add_listed] by simp
qed

lemma balanced_rebuildOne: "balanced (listed env fp batch sid) (rebuildOne env name)"
  "balanced (fileIs stateDir name2 c) (rebuildOne env name)"
proof -
  show "balanced (listed env fp batch sid) (rebuildOne env name)"
    unfolding rebuildOne_def by (intro balancing balanced_sync_listed) simp
  have "ignores pendingDir (fileIs stateDir name2 c)" "ignores pendingToolDir (fileIs stateDir name2 c)"
    by (simp_all add: ignores_def fileIs_def lookupFile_def stateDir_def pendingDir_def pendingToolDir_def)
  then show "balanced (fileIs stateDir name2 c) (rebuildOne env name)"
    unfolding rebuildOne_def by (intro balancing) simp_all
qed

lemma rebuildOne_lists:
  assumes "rebuildOne env name s = (Inr (), s')" "leasesOk s" "fileIs stateDir name (Some (Stored st)) s"
    and "pendingState fp batch st" "batch \<noteq> []"
  shows "listed env fp batch (st_SessionID st) s'"
proof -
  from assms(1) obtain st1 s1 where r: "readState env name s = (Inr st1, s1)"
    and k: "(if st_PendingTools st1 = [] then ret ()
       else syncPendingIndex env (st_CredentialFingerprint st1) (st_SessionID st1) []
              (if st_PendingBatchIDs st1 = [] then pendingToolIDs (st_PendingTools st1)
               else st_PendingBatchIDs st1)) s1 = (Inr (), s')"
    unfolding rebuildOne_def by (elim bnd_InrE)
  from r assms(3) have st1: "st1 = st\<lparr>st_Version := stateVersion\<rparr>"
    by (auto simp: fileIs_def elim: readState_out)
  have l: "leasesOk s1"
    using balanced_leases [of "readState env name", OF r] assms(2) by (simp add: balanced_readState)
  let ?ids = "if st_PendingBatchIDs st = [] then pendingToolIDs (st_PendingTools st) else st_PendingBatchIDs st"
  have p: "st_CredentialFingerprint st = fp" "st_PendingTools st \<noteq> []" "normalizeToolIDs ?ids = batch"
    using assms(4) by (simp_all add: pendingState_def)
  have "syncPendingIndex env fp (st_SessionID st) [] ?ids s1 = (Inr (), s')"
    using k p(1,2) by (simp add: st1 split: if_splits)
  from sync_lists [OF this l] p(3) assms(5) show ?thesis
    by (metis listed_normal)
qed

text \<open>
  C39: A restart finds every session that waits: when the rebuild of the pending index returns without an
  error, every stored state that has pending tools is listed in the index under its credential and its batch,
  whatever the index held before (crashes between the write of a state and of the index included).
\<close>

theorem restart_lists_pending_sessions:
  assumes "leasesOk s" and "rebuildPendingIndex env s = (Inr (), s')"
    and "lookupFile stateDir name s = Some (Stored st)" and "pendingState fp batch st" and "batch \<noteq> []"
  shows "listed env fp batch (st_SessionID st) s'"
proof -
  from assms(2) obtain u v :: unit and s1 s2 where "sys s = (Inr u, s1)" "sys s1 = (Inr v, s2)"
    and loop: "forE (sort (map fst (w_states s2))) (rebuildOne env) s2 = (Inr (), s')"
    unfolding rebuildPendingIndex_def rebuildOne_def [symmetric, abs_def] by (auto elim!: bnd_InrE)
  then have s2: "files s2 = files s" "leasesOk s2"
    using sys_out assms(1) balanced_leases [of sys s] balanced_leases [of sys s1] balanced_sys [of "\<lambda>_. True"]
    by simp_all
  then have f: "fileIs stateDir name (Some (Stored st)) s2"
    using assms(3) by (simp add: fileIs_def lookupFile_def stateDir_def files_def)
  have "name \<in> set (sort (map fst (w_states s2)))"
    using f by (force simp: fileIs_def lookupFile_def stateDir_def dest: map_of_SomeD)
  then show ?thesis
    by (rule forE_reaches [where P = "fileIs stateDir name (Some (Stored st))" and x = name, OF loop _ s2(2) f]) (use balanced_rebuildOne rebuildOne_lists assms(4,5) in blast)+
qed

lemma balanced_update_lift: "balanced (\<lambda>_. True) (update env owner (\<lambda>c. lift (f c)))"
  by (intro balancing; simp add: untouched_def)

lemma update_stores:
  assumes "update env owner (\<lambda>c. lift (f c)) s = (Inr x, s')"
  shows "\<exists>current new now. f current = Inr (new, x)
    \<and> fileIs stateDir (statePath env (ol_SessionID owner)) (Some (Stored (new\<lparr>st_UpdatedAt := Some now\<rparr>))) s'"
proof -
  let ?p = "statePath env (ol_SessionID owner)"
  from assms have "applyUpdate env owner (\<lambda>c. lift (f c)) ?p s = (Inr x, s')"
    unfolding update_def withOwner_def by (auto split: if_splits option.splits elim!: bnd_InrE)
  then obtain current changed now s1 where m: "f current = Inr (changed, x)"
    and w: "writeStateAtomic ?p (changed\<lparr>st_UpdatedAt := Some now\<rparr>) s1 = (Inr (), s')"
    unfolding applyUpdate_def
    by (auto elim!: bnd_attemptE bnd_InrE bnd_liftE split: sum.splits if_splits)
  have "commits (\<lambda>_. True) (fileIs stateDir ?p (Some (Stored (changed\<lparr>st_UpdatedAt := Some now\<rparr>))))
      (writeStateAtomic ?p (changed\<lparr>st_UpdatedAt := Some now\<rparr>))"
    unfolding writeStateAtomic_def by (intro commits_write) (simp_all add: filesOnly_blind)
  from commitsD [OF this _ w] m show ?thesis by auto
qed

text \<open>
  What a session waits for is findable: when \<open>SavePending\<close> returns without an error the stored state has
  the given pending tools, and, unless they are empty, the state's batch is listed in the index under the
  owner's credential.  The batch is the identifiers of the given tools, or the batch the state already had
  when part of it has been answered.
\<close>

theorem saved_pending_is_listed:
  assumes "leasesOk s" and "SavePending env owner pending s = (Inr (), s')"
  shows "\<exists>st. lookupFile stateDir (statePath env (ol_SessionID owner)) s' = Some (Stored st)
    \<and> st_PendingTools st = pending
    \<and> (normalizeToolIDs (st_PendingBatchIDs st) \<noteq> [] \<longrightarrow>
         listed env (ol_CredentialHash owner) (st_PendingBatchIDs st) (ol_SessionID owner) s')"
proof -
  let ?n = "statePath env (ol_SessionID owner)"
  from assms(2) obtain prev batch s1 where up: "update env owner (\<lambda>c. lift (setPending pending c)) s = (Inr (prev, batch), s1)"
    and sync: "syncPendingIndex env (ol_CredentialHash owner) (ol_SessionID owner) prev batch s1 = (Inr (), s')"
    unfolding SavePending_def by (auto elim!: bnd_InrE)
  have l1: "leasesOk s1"
    using balanced_leases [of "update env owner (\<lambda>c. lift (setPending pending c))", OF up] assms(1)
    by (simp add: balanced_update_lift)
  from update_stores [OF up] obtain current new now where m: "setPending pending current = Inr (new, (prev, batch))"
    and f: "fileIs stateDir ?n (Some (Stored (new\<lparr>st_UpdatedAt := Some now\<rparr>))) s1" by blast
  from m have new: "st_PendingTools new = pending" "st_PendingBatchIDs new = batch"
    by (auto simp: setPending_def split: sum.splits)
  have ig: "ignores pendingDir (fileIs stateDir ?n c)" "ignores pendingToolDir (fileIs stateDir ?n c)" for c
    by (simp_all add: ignores_def fileIs_def lookupFile_def stateDir_def pendingDir_def pendingToolDir_def)
  have "fileIs stateDir ?n (Some (Stored (new\<lparr>st_UpdatedAt := Some now\<rparr>))) s'"
    using balanced_step [OF sync balanced_sync [OF _ ig(2,1)] l1 f] by simp
  then show ?thesis
    using sync_lists [OF sync l1] new by (auto simp: fileIs_def)
qed

section \<open>A session that waits\<close>

definition exampleTool :: PendingTool where
  "exampleTool = \<lparr>pt_MessageID = 7, pt_ExecID = ''e'', pt_ToolCallID = ''a'', pt_UpstreamToolCallID = [],
     pt_Name = ''Read'', pt_Arguments = ''{}''\<rparr>"

definition waitingWorld :: world where
  "waitingWorld = snd (SavePending exampleStore exampleOwner [exampleTool] ownedWorld)"

definition waitingState :: StateSnapshot where
  "waitingState = exampleState\<lparr>st_PendingTools := [exampleTool], st_PendingBatchIDs := [''a'']\<rparr>"

lemma waitingWorld_run: "SavePending exampleStore exampleOwner [exampleTool] ownedWorld = (Inr (), waitingWorld)"
proof -
  have "fst (SavePending exampleStore exampleOwner [exampleTool] ownedWorld) = Inr ()" by code_simp
  then show ?thesis by (simp add: waitingWorld_def prod_eq_iff)
qed

lemma waitingWorld_leases [simp]: "leasesOk waitingWorld"
  using balanced_leases [of "SavePending exampleStore exampleOwner [exampleTool]", OF waitingWorld_run]
  by (simp add: balanced_SavePending)

lemma waitingWorld_state: "lookupFile stateDir ''s'' waitingWorld = Some (Stored waitingState)"
proof -
  have "case lookupFile stateDir ''s'' waitingWorld of Some (Stored st) \<Rightarrow> st = waitingState | _ \<Rightarrow> False"
    by code_simp
  then show ?thesis by (auto split: option.splits content.splits)
qed

lemma saved_pending_is_listed_witness: "listed exampleStore ''fp'' [''a''] ''s'' waitingWorld"
proof -
  have "statePath exampleStore (ol_SessionID exampleOwner) = ''s''" "normalizeToolIDs [''a''] \<noteq> []"
    by code_simp+
  with saved_pending_is_listed [OF ownedWorld_leases waitingWorld_run] waitingWorld_state
  show ?thesis by (auto simp: waitingState_def exampleOwner_def)
qed

lemma resolved_session_waits_witness:
  "\<exists>batch. batch \<noteq> [] \<and> waiting (trimSpace ''fp'') batch ''s'' waitingWorld"
proof -
  let ?out = "ResolvePending exampleStore ''fp'' [''a'', '' a''] waitingWorld"
  have "fst ?out = Inr ''s''" by code_simp
  then have "?out = (Inr ''s'', snd ?out)" by (simp add: prod_eq_iff)
  from resolved_session_waits [OF waitingWorld_leases this] show ?thesis by blast
qed

text \<open>A crash after the write of the state and before the write of the index: the index is empty.\<close>

lemma restart_lists_pending_sessions_witness:
  "\<exists>s'. rebuildPendingIndex exampleStore (waitingWorld\<lparr>w_pending := []\<rparr>) = (Inr (), s')
    \<and> listed exampleStore ''fp'' [''a''] ''s'' s'"
proof -
  let ?w = "waitingWorld\<lparr>w_pending := []\<rparr>"
  let ?out = "rebuildPendingIndex exampleStore ?w"
  have "fst ?out = Inr ()" by code_simp
  then have run: "?out = (Inr (), snd ?out)" by (simp add: prod_eq_iff)
  have "leasesOk ?w" using waitingWorld_leases by (simp add: leasesOk_def)
  moreover have "lookupFile stateDir ''s'' ?w = Some (Stored waitingState)"
    using waitingWorld_state by (simp add: lookupFile_def stateDir_def)
  moreover have "pendingState ''fp'' [''a''] waitingState" by code_simp
  ultimately have "listed exampleStore ''fp'' [''a''] (st_SessionID waitingState) (snd ?out)"
    using restart_lists_pending_sessions [OF _ run] by blast
  moreover have "st_SessionID waitingState = ''s''" by code_simp
  ultimately show ?thesis using run by auto
qed

end
