(* ===== verification/Procs.thy ===== *)
theory Procs
  imports Prelude
begin

text \<open>
  Concurrent processes over a shared state.  A process is a sequence of atomic steps: each step is the
  code between taking a mutex and giving it up, and what comes next may depend on what the step saw.
  \<open>runAlone\<close> runs a process with nobody else around; \<open>oks\<close> judges it under interference.
\<close>

section \<open>Processes\<close>

text \<open>
  \<open>Halt\<close> is a process that blocks for ever.
\<close>

datatype ('s, 'a) proc = Done 'a | Halt | Step "'s \<Rightarrow> ('s, 'a) proc \<times> 's"

primrec pbind :: "('s, 'a) proc \<Rightarrow> ('a \<Rightarrow> ('s, 'b) proc) \<Rightarrow> ('s, 'b) proc" where
  "pbind (Done x) k = k x"
| "pbind Halt k = Halt"
| "pbind (Step f) k = Step (\<lambda>s. map_prod (\<lambda>p. pbind p k) id (f s))"

text \<open>A process that may fail, written like the monad of the sequential components.\<close>

type_synonym ('s, 'a) act = "('s, 'a res) proc"

definition pret :: "'a \<Rightarrow> ('s, 'a) act" where
  "pret x = Done (Inr x)"

definition praise :: "err \<Rightarrow> ('s, 'a) act" where
  "praise e = Done (Inl e)"

definition pbnd :: "('s, 'a) act \<Rightarrow> ('a \<Rightarrow> ('s, 'b) act) \<Rightarrow> ('s, 'b) act" where
  "pbnd m f = pbind m (\<lambda>r. case r of Inl e \<Rightarrow> praise e | Inr x \<Rightarrow> f x)"

definition ptry :: "('s, 'a) act \<Rightarrow> ('s, 'a res) act" where
  "ptry m = pbind m (\<lambda>r. pret r)"

text \<open>\<open>defer c()\<close>\<close>

definition pensuring :: "('s, 'a) act \<Rightarrow> ('s, 'b) act \<Rightarrow> ('s, 'a) act" where
  "pensuring m c = pbind m (\<lambda>r. pbind c (\<lambda>_. Done r))"

text \<open>One critical section.\<close>

definition atomic :: "('s, 'a) io \<Rightarrow> ('s, 'a) act" where
  "atomic m = Step (\<lambda>s. case m s of (r, s') \<Rightarrow> (Done r, s'))"

primrec pfor :: "'a list \<Rightarrow> ('a \<Rightarrow> ('s, unit) act) \<Rightarrow> ('s, unit) act" where
  "pfor [] f = pret ()"
| "pfor (x # xs) f = pbnd (f x) (\<lambda>_. pfor xs f)"

section \<open>Running alone\<close>

text \<open>\<open>None\<close> when the process blocks.\<close>

primrec runAlone :: "('s, 'a) proc \<Rightarrow> 's \<Rightarrow> 'a option \<times> 's" where
  "runAlone (Done x) = (\<lambda>s. (Some x, s))"
| "runAlone Halt = (\<lambda>s. (None, s))"
| "runAlone (Step f) = (\<lambda>s. case map_prod runAlone id (f s) of (k, s') \<Rightarrow> k s')"

lemma runAlone_bind:
  "runAlone (pbind p k) s = (case runAlone p s of (None, t) \<Rightarrow> (None, t) | (Some x, t) \<Rightarrow> runAlone (k x) t)"
proof (induction p arbitrary: s)
  case (Step f)
  have "runAlone (pbind (fst (f s)) k) (snd (f s))
      = (case runAlone (fst (f s)) (snd (f s)) of (None, t) \<Rightarrow> (None, t) | (Some x, t) \<Rightarrow> runAlone (k x) t)"
    by (rule Step [of "f s"]) (simp_all add: fsts.simps)
  then show ?case by (simp add: map_prod_def split_beta)
qed simp_all

named_theorems alone \<open>running a process alone\<close>

lemma runAlone_simps [alone]:
  "runAlone (pret x) s = (Some (Inr x), s)"
  "runAlone (praise e) s = (Some (Inl e), s)"
  "runAlone (atomic a) s = (case a s of (r, s') \<Rightarrow> (Some r, s'))"
  "runAlone (pbnd m f) s = (case runAlone m s of (None, t) \<Rightarrow> (None, t)
     | (Some (Inl e), t) \<Rightarrow> (Some (Inl e), t) | (Some (Inr x), t) \<Rightarrow> runAlone (f x) t)"
  "runAlone (ptry m) s = (case runAlone m s of (None, t) \<Rightarrow> (None, t) | (Some r, t) \<Rightarrow> (Some (Inr r), t))"
  "runAlone (pensuring m c) s = (case runAlone m s of (None, t) \<Rightarrow> (None, t)
     | (Some r, t) \<Rightarrow> (case runAlone c t of (None, u) \<Rightarrow> (None, u) | (Some _, u) \<Rightarrow> (Some r, u)))"
  by (auto simp: pret_def praise_def atomic_def pbnd_def ptry_def pensuring_def runAlone_bind
      split: prod.split option.split sum.split)

lemma runAlone_simps2 [alone]:
  "runAlone (pfor [] f) s = (Some (Inr ()), s)"
  "runAlone (pfor (x # xs) f) s = runAlone (pbnd (f x) (\<lambda>_. pfor xs f)) s"
  by (simp_all add: pret_def)

lemma pbind_assoc: "pbind (pbind p k) l = pbind p (\<lambda>x. pbind (k x) l)"
proof (induction p)
  case (Step f)
  have "pbind (pbind (fst (f s)) k) l = pbind (fst (f s)) (\<lambda>x. pbind (k x) l)" for s
    by (rule Step [of "f s"]) (simp_all add: fsts.simps)
  then show ?case by (simp add: map_prod_def split_beta)
qed simp_all

lemma pbnd_assoc: "pbnd (pbnd m f) g = pbnd m (\<lambda>x. pbnd (f x) g)"
  unfolding pbnd_def pbind_assoc
  by (rule arg_cong [of _ _ "pbind m"]) (auto simp: praise_def split: sum.split)

section \<open>Never blocking\<close>

primrec neverBlocks :: "('s, 'a) proc \<Rightarrow> bool" where
  "neverBlocks (Done x) = True"
| "neverBlocks Halt = False"
| "neverBlocks (Step f) = (\<forall>s. fst (map_prod neverBlocks id (f s)))"

text \<open>Running while others change the state: before its \<open>n\<close>-th step they apply \<open>g n\<close>.\<close>

primrec runAmid :: "('s, 'a) proc \<Rightarrow> (nat \<Rightarrow> 's \<Rightarrow> 's) \<Rightarrow> nat \<Rightarrow> 's \<Rightarrow> 'a option \<times> 's" where
  "runAmid (Done x) = (\<lambda>g n s. (Some x, s))"
| "runAmid Halt = (\<lambda>g n s. (None, s))"
| "runAmid (Step f) = (\<lambda>g n s. case map_prod runAmid id (f (g n s)) of (k, s') \<Rightarrow> k g (Suc n) s')"

lemma runAlone_amid: "runAlone p s = runAmid p (\<lambda>_ s. s) n s"
proof (induction p arbitrary: s n)
  case (Step f)
  have "runAlone (fst (f s)) (snd (f s)) = runAmid (fst (f s)) (\<lambda>_ s. s) (Suc n) (snd (f s))"
    by (rule Step [of "f s"]) (simp_all add: fsts.simps)
  then show ?case by (simp add: map_prod_def split_beta)
qed simp_all

lemma neverBlocks_returns: "neverBlocks p \<Longrightarrow> \<exists>x t. runAmid p g n s = (Some x, t)"
proof (induction p arbitrary: s n)
  case (Step f)
  then have "neverBlocks (fst (f (g n s)))" by (simp add: map_prod_def split_beta)
  then have "\<exists>x t. runAmid (fst (f (g n s))) g (Suc n) (snd (f (g n s))) = (Some x, t)"
    by (rule Step.IH [of "f (g n s)", rotated -1]) (simp_all add: fsts.simps)
  then show ?case by (simp add: map_prod_def split_beta)
qed simp_all

named_theorems unblocked \<open>introduction rules for neverBlocks\<close>

lemma neverBlocks_pbind: "neverBlocks p \<Longrightarrow> (\<And>x. neverBlocks (k x)) \<Longrightarrow> neverBlocks (pbind p k)"
proof (induction p)
  case (Step f)
  have "neverBlocks (pbind (fst (f s)) k)" for s
    by (rule Step.IH [of "f s"]) (use Step.prems in \<open>simp_all add: fsts.simps map_prod_def split_beta\<close>)
  then show ?case by (simp add: map_prod_def split_beta)
qed simp_all

lemma neverBlocks_done [unblocked]: "neverBlocks (pret x)" "neverBlocks (praise e)" "neverBlocks (atomic m)"
  by (simp_all add: pret_def praise_def atomic_def map_prod_def split_beta)

lemma neverBlocks_pbnd [unblocked]: "neverBlocks m \<Longrightarrow> (\<And>x. neverBlocks (f x)) \<Longrightarrow> neverBlocks (pbnd m f)"
  unfolding pbnd_def by (rule neverBlocks_pbind) (auto intro: neverBlocks_done split: sum.split)

lemma neverBlocks_ptry [unblocked]: "neverBlocks m \<Longrightarrow> neverBlocks (ptry m)"
  unfolding ptry_def by (rule neverBlocks_pbind) (auto intro: neverBlocks_done)

lemma neverBlocks_cases [unblocked]:
  "(b \<Longrightarrow> neverBlocks p) \<Longrightarrow> (\<not> b \<Longrightarrow> neverBlocks q) \<Longrightarrow> neverBlocks (if b then p else q)"
  "neverBlocks p \<Longrightarrow> (\<And>x. neverBlocks (h x)) \<Longrightarrow> neverBlocks (case z of None \<Rightarrow> p | Some x \<Rightarrow> h x)"
  "(\<And>x. neverBlocks (h' x)) \<Longrightarrow> (\<And>x. neverBlocks (h'' x)) \<Longrightarrow> neverBlocks (case y of Inl x \<Rightarrow> h' x | Inr x \<Rightarrow> h'' x)"
  "(\<And>x y. neverBlocks (l x y)) \<Longrightarrow> neverBlocks (case w of (x, y) \<Rightarrow> l x y)"
  by (auto split: option.split sum.split prod.split)

lemma neverBlocks_pfor [unblocked]: "(\<And>x. neverBlocks (f x)) \<Longrightarrow> neverBlocks (pfor xs f)"
  by (induction xs) (auto intro: unblocked)

section \<open>Interference\<close>

text \<open>
  \<open>oks E s p Q\<close>: the process, about to run in any state that has evolved from \<open>s\<close>, only makes steps of
  \<open>E\<close>, whatever the steps of \<open>E\<close> others make in between, and when it returns \<open>Q\<close> holds of its result
  from then on.  What the process knows between two steps is that the state has evolved from the one its
  last step left.
\<close>

inductive oks :: "('s \<Rightarrow> 's \<Rightarrow> bool) \<Rightarrow> 's \<Rightarrow> ('s, 'a) proc \<Rightarrow> ('a \<Rightarrow> 's \<Rightarrow> bool) \<Rightarrow> bool" for E where
  oks_done: "(\<forall>t. E s t \<longrightarrow> Q x t) \<Longrightarrow> oks E s (Done x) Q"
| oks_halt: "oks E s Halt Q"
| oks_step: "(\<forall>t p t'. E s t \<longrightarrow> f t = (p, t') \<longrightarrow> E t t' \<and> oks E t' p Q) \<Longrightarrow> oks E s (Step f) Q"

inductive_simps oks_simps: "oks E s (Done x) Q" "oks E s Halt Q" "oks E s (Step f) Q"

named_theorems oking \<open>introduction rules for oks\<close>

text \<open>What every evolution has to satisfy for the rules below: it relates sound states only.\<close>

locale evolution =
  fixes sound :: "'s \<Rightarrow> bool" and E :: "'s \<Rightarrow> 's \<Rightarrow> bool"
  assumes evolves_refl: "sound s \<Longrightarrow> E s s"
    and evolves_trans: "E s t \<Longrightarrow> E t u \<Longrightarrow> E s u"
    and evolves_sound: "E s t \<Longrightarrow> sound s"
begin

lemma oks_unsound: "\<not> sound s \<Longrightarrow> oks E s p Q"
  by (cases p) (auto simp: oks_simps dest: evolves_sound)

lemma oks_evolved: "oks E s p Q \<Longrightarrow> E s t \<Longrightarrow> oks E t p Q"
  by (cases p) (auto simp: oks_simps intro: evolves_trans)

lemma oks_weaken:
  assumes "oks E s p Q" "\<And>x t. E s t \<Longrightarrow> Q x t \<Longrightarrow> R x t"
  shows "oks E s p R"
  using assms
proof induction
  case (oks_step s f Q)
  show ?case
  proof (rule oks.oks_step, intro allI impI conjI)
    fix t p t'
    assume t: "E s t" "f t = (p, t')"
    with oks_step.IH show "E t t'" by blast
    show "oks E t' p R"
      using oks_step.IH [rule_format, OF t] oks_step.prems t(1) by (meson evolves_trans)
  qed
qed (auto intro: oks.intros)

lemma oks_bind:
  assumes "oks E s p (\<lambda>x t. oks E t (k x) Q)"
  shows "oks E s (pbind p k) Q"
  using assms
proof (induction s p "\<lambda>x t. oks E t (k x) Q" rule: oks.induct)
  case (oks_done s x)
  then show ?case using evolves_refl oks_unsound by (cases "sound s") simp_all
next
  case (oks_step s f)
  show ?case
    unfolding pbind.simps
  proof (rule oks.oks_step, intro allI impI)
    fix t p t'
    assume t: "E s t" "map_prod (\<lambda>p. pbind p k) id (f t) = (p, t')"
    then obtain q where q: "f t = (q, t')" "p = pbind q k" by (cases "f t") auto
    with oks_step [rule_format, OF t(1) q(1)] show "E t t' \<and> oks E t' p Q" by simp
  qed
qed (simp add: oks.oks_halt)

lemma oks_pret [oking]: "(\<And>t. E s t \<Longrightarrow> Q (Inr x) t) \<Longrightarrow> oks E s (pret x) Q"
  by (simp add: pret_def oks_simps)

lemma oks_praise [oking]: "(\<And>t. E s t \<Longrightarrow> Q (Inl e) t) \<Longrightarrow> oks E s (praise e) Q"
  by (simp add: praise_def oks_simps)

lemma oks_pbnd:
  assumes "oks E s m (\<lambda>r t. case r of Inl e \<Rightarrow> (\<forall>u. E t u \<longrightarrow> Q (Inl e) u) | Inr x \<Rightarrow> oks E t (f x) Q)"
  shows "oks E s (pbnd m f) Q"
  unfolding pbnd_def
  by (rule oks_bind, rule oks_weaken [OF assms]) (auto split: sum.splits intro: oks_praise)

lemma oks_ptry:
  assumes "oks E s m (\<lambda>r t. \<forall>u. E t u \<longrightarrow> Q (Inr r) u)"
  shows "oks E s (ptry m) Q"
  unfolding ptry_def by (rule oks_bind, rule oks_weaken [OF assms]) (auto intro: oks_pret)

lemma oks_pensuring:
  assumes "oks E s m (\<lambda>r t. oks E t c (\<lambda>_ u. \<forall>v. E u v \<longrightarrow> Q r v))"
  shows "oks E s (pensuring m c) Q"
  unfolding pensuring_def
  by (rule oks_bind, rule oks_weaken [OF assms], rule oks_bind, erule oks_weaken) (simp add: oks_simps)

text \<open>A critical section.\<close>

lemma oks_atomic:
  assumes "\<And>t r t'. E s t \<Longrightarrow> m t = (r, t') \<Longrightarrow> E t t' \<and> (\<forall>u. E t' u \<longrightarrow> Q r u)"
  shows "oks E s (atomic m) Q"
  unfolding atomic_def
  by (rule oks.oks_step) (use assms in \<open>auto simp: oks_simps split: prod.splits\<close>)

lemma oks_if [oking]:
  "(b \<Longrightarrow> oks E s p Q) \<Longrightarrow> (\<not> b \<Longrightarrow> oks E s q Q) \<Longrightarrow> oks E s (if b then p else q) Q"
  by simp

lemma oks_option [oking]:
  "(z = None \<Longrightarrow> oks E s p Q) \<Longrightarrow> (\<And>x. z = Some x \<Longrightarrow> oks E s (f x) Q) \<Longrightarrow>
     oks E s (case z of None \<Rightarrow> p | Some x \<Rightarrow> f x) Q"
  by (simp split: option.split)

lemma oks_sum [oking]:
  "(\<And>e. z = Inl e \<Longrightarrow> oks E s (f e) Q) \<Longrightarrow> (\<And>x. z = Inr x \<Longrightarrow> oks E s (g x) Q) \<Longrightarrow>
     oks E s (case z of Inl e \<Rightarrow> f e | Inr x \<Rightarrow> g x) Q"
  by (simp split: sum.split)

lemma oks_prod [oking]:
  "(\<And>x y. z = (x, y) \<Longrightarrow> oks E s (f x y) Q) \<Longrightarrow> oks E s (case z of (x, y) \<Rightarrow> f x y) Q"
  by (simp split: prod.split)

end

end
