(* ===== verification/Manager.thy ===== *)
theory Manager
  imports StorePending Interaction Procs
begin

text \<open>
  The session manager (\<open>manager.go\<close>, \<open>manager_history.go\<close>): which sessions run, which requests wait for
  each other, and the channels between a run and the HTTP request that reads it.

  Sessions, outputs and flights are Go pointers: they live in three heaps of the manager's state and are
  named by their index.  Every method is a process whose atomic steps are the code's critical sections
  and its calls of the store; between two steps anything else may run.  The goroutine of a session is
  the environment's: \<open>mg_goroutines\<close> are the ones started, \<open>ms_running\<close> holds while \<open>Runner.Run\<close> executes,
  its callback is \<open>handleEvent\<close> and its return is \<open>runReturned\<close>.
\<close>

section \<open>State\<close>

record ManagedRequest =
  mr_TurnMetering :: bool
  mr_RequestSegmentID :: string
  mr_SessionID :: string
  mr_BillingRunID :: string
  mr_CredentialScope :: string
  mr_AccountKey :: string
  mr_ToolCatalogDigest :: string
  mr_FollowUpText :: string
  mr_ActiveResults :: "ToolResult list"
  mr_CarryUsage :: "Event list"
  mr_RequireExisting :: bool
  mr_ReuseBillingRun :: bool
  mr_Context :: "nat option"
  mr_Run :: RunRequest
  mr_DisableCallerTools :: bool

text \<open>What a caller gets; \<open>ou_output\<close> stands for its two channels.\<close>

record ManagedOutput =
  ou_RequestSegmentID :: string
  ou_output :: nat
  ou_SessionID :: string
  ou_BillingRunID :: string
  ou_ConversationID :: string
  ou_OriginalBatch :: "string list"
  ou_Replay :: bool
  ou_HasPending :: bool
  ou_FollowUpApplied :: bool

text \<open>
  \<open>mo_sent\<close> is everything ever put into the channel of events, of which the reader has taken
  \<open>mo_received\<close>; \<open>mo_result\<close> is what has been put into the channel of the result.
\<close>

record managedOutput =
  mo_sent :: "Event list"
  mo_received :: nat
  mo_capacity :: nat
  mo_result :: "err option list"
  mo_closed :: bool

record resumeFlight =
  rf_key :: string
  rf_digest :: string
  rf_done :: bool
  rf_replay :: "CompletedReplay option"
  rf_err :: "err option"

record managedSession =
  ms_owner :: OwnerLease
  ms_request :: RunRequest
  ms_cancelled :: bool
  ms_toolResults :: "ToolResult list"
  ms_output :: "nat option"
  ms_pending :: "(string \<times> PendingTool) list"
  ms_stateErr :: "err option"
  ms_closed :: bool
  ms_capturing :: bool
  ms_pendingBatch :: "string list"
  ms_segmentBatch :: "string list"
  ms_segmentResults :: "ToolResult list"
  ms_segmentSnapshot :: eventSnapshot
  ms_snapshotFollowUp :: string
  ms_terminalEvent :: "Event option"
  ms_flight :: "nat option"
  ms_flightFingerprint :: string
  ms_flightBatch :: "string list"
  ms_pendingFollowUp :: string
  ms_billingCarry :: "Event list"
  ms_disableCallerTools :: bool
  ms_running :: bool

record manager =
  mg_store :: world
  mg_active :: "(string \<times> nat) list"
  mg_starting :: "string list"
  mg_flights :: "(string \<times> nat) list"
  mg_sessions :: "managedSession list"
  mg_outputs :: "managedOutput list"
  mg_flightHeap :: "resumeFlight list"
  mg_goroutines :: "(nat \<times> Event list) list"
  mg_ctxErrs :: "(nat \<times> err) list"

type_synonym 'a mg = "(manager, 'a) io"
type_synonym 'a ma = "(manager, 'a) act"

text \<open>\<open>newSessionManager\<close>, on a store.\<close>

definition newSessionManager :: "world \<Rightarrow> manager" where
  "newSessionManager store = \<lparr>mg_store = store, mg_active = [], mg_starting = [], mg_flights = [],
     mg_sessions = [], mg_outputs = [], mg_flightHeap = [], mg_goroutines = [], mg_ctxErrs = []\<rparr>"

definition onStore :: "'a st \<Rightarrow> 'a mg" where
  "onStore m s = (case m (mg_store s) of (r, w) \<Rightarrow> (r, s\<lparr>mg_store := w\<rparr>))"

definition sessionAt :: "nat \<Rightarrow> manager \<Rightarrow> managedSession" where
  "sessionAt i s = mg_sessions s ! i"

definition updSession :: "nat \<Rightarrow> (managedSession \<Rightarrow> managedSession) \<Rightarrow> manager \<Rightarrow> manager" where
  "updSession i f s = s\<lparr>mg_sessions := (mg_sessions s)[i := f (sessionAt i s)]\<rparr>"

definition outputAt :: "nat \<Rightarrow> manager \<Rightarrow> managedOutput" where
  "outputAt o' s = mg_outputs s ! o'"

definition updOutput :: "nat \<Rightarrow> (managedOutput \<Rightarrow> managedOutput) \<Rightarrow> manager \<Rightarrow> manager" where
  "updOutput o' f s = s\<lparr>mg_outputs := (mg_outputs s)[o' := f (outputAt o' s)]\<rparr>"

definition flightAt :: "nat \<Rightarrow> manager \<Rightarrow> resumeFlight" where
  "flightAt f s = mg_flightHeap s ! f"

text \<open>\<open>ctx.Err()\<close> of a request's context; \<open>None\<close> is \<open>context.Background()\<close>.\<close>

definition ctxErr :: "nat option \<Rightarrow> manager \<Rightarrow> err option" where
  "ctxErr c s = (case c of None \<Rightarrow> None | Some k \<Rightarrow> map_of (mg_ctxErrs s) k)"

definition checkContext :: "ManagedRequest \<Rightarrow> unit ma" where
  "checkContext request = pbnd (atomic (gets (ctxErr (mr_Context request)))) (\<lambda>e.
     case e of None \<Rightarrow> pret () | Some e \<Rightarrow> praise e)"

section \<open>Outputs\<close>

definition newOutput :: "nat \<Rightarrow> nat mg" where
  "newOutput capacity s = (Inr (length (mg_outputs s)),
     s\<lparr>mg_outputs := mg_outputs s @ [\<lparr>mo_sent = [], mo_received = 0, mo_capacity = capacity,
                                      mo_result = [], mo_closed = False\<rparr>]\<rparr>)"

definition outputCapacity :: nat where
  "outputCapacity = maxPendingTools * 4"

definition newManagedOutput :: "nat mg" where
  "newManagedOutput = newOutput outputCapacity"

text \<open>\<open>close\<close> and \<open>send\<close> of an output.\<close>

definition closeOutput :: "nat \<Rightarrow> err option \<Rightarrow> unit mg" where
  "closeOutput o' e = modify (updOutput o' (\<lambda>c. if mo_closed c then c
     else c\<lparr>mo_closed := True, mo_result := mo_result c @ [e]\<rparr>))"

datatype outputSendResult = outputSendOK | outputSendClosed | outputSendFull

definition sendOutput :: "nat \<Rightarrow> Event \<Rightarrow> outputSendResult mg" where
  "sendOutput o' event s =
     (let c = outputAt o' s in
      if mo_closed c then (Inr outputSendClosed, s)
      else if length (mo_sent c) - mo_received c < mo_capacity c
      then (Inr outputSendOK, updOutput o' (\<lambda>c. c\<lparr>mo_sent := mo_sent c @ [event]\<rparr>) s)
      else (Inr outputSendFull, s))"

text \<open>\<open>newSnapshotOutput\<close> (\<open>completed_events.go\<close>): an output that is complete when it is made.\<close>

definition newSnapshotOutput :: "storeEnv \<Rightarrow> Event list \<Rightarrow> nat mg" where
  "newSnapshotOutput env events = (case snapshotAppendAll (se_body env) (se_rest env) newSnapshot events of
     Inl e \<Rightarrow> bnd newManagedOutput (\<lambda>o'. bnd (closeOutput o' (Some e)) (\<lambda>_. ret o'))
   | Inr snapshot \<Rightarrow>
       bnd (newOutput (length (es_events snapshot))) (\<lambda>o'.
       bnd (forE (es_events snapshot) (\<lambda>event. bnd (sendOutput o' event) (\<lambda>_. ret ()))) (\<lambda>_.
       bnd (closeOutput o' None) (\<lambda>_. ret o'))))"

definition publicOutput :: "nat \<Rightarrow> string \<Rightarrow> string \<Rightarrow> ManagedOutput" where
  "publicOutput o' sessionID billingRunID = \<lparr>ou_RequestSegmentID = [], ou_output = o', ou_SessionID = sessionID,
     ou_BillingRunID = billingRunID, ou_ConversationID = [], ou_OriginalBatch = [], ou_Replay = False,
     ou_HasPending = False, ou_FollowUpApplied = False\<rparr>"

definition emitCompletedReplay :: "storeEnv \<Rightarrow> CompletedReplay \<Rightarrow> ManagedOutput mg" where
  "emitCompletedReplay env replay = bnd (newSnapshotOutput env (rp_Events replay)) (\<lambda>o'.
     ret ((publicOutput o' (rp_SessionID replay) (rp_BillingRunID replay))\<lparr>
       ou_RequestSegmentID := rp_RequestSegmentID replay, ou_Replay := True,
       ou_ConversationID := rp_ConversationID replay, ou_OriginalBatch := rp_OriginalBatch replay,
       ou_HasPending := rp_HasPending replay, ou_FollowUpApplied := trimSpace (rp_FollowUpText replay) \<noteq> []\<rparr>))"

section \<open>Pending tools\<close>

text \<open>
  The identifier under which the runner knows a pending tool.  \<open>findPublicToolCallID\<close> ranges over a Go map,
  whose order is not determined; the model takes the order of the list.
\<close>

definition upstreamID :: "string \<times> PendingTool \<Rightarrow> string" where
  "upstreamID e = (case e of (publicID, tool) \<Rightarrow>
     let candidate = trimSpace (pt_UpstreamToolCallID tool) in if candidate = [] then publicID else candidate)"

definition findPublicToolCallID :: "(string \<times> PendingTool) list \<Rightarrow> string \<Rightarrow> string option" where
  "findPublicToolCallID pending upstream =
     map_option fst (find (\<lambda>e. upstreamID e = trimSpace upstream) pending)"

definition publicToolCallIDForUpstream :: "(string \<times> PendingTool) list \<Rightarrow> string \<Rightarrow> string" where
  "publicToolCallIDForUpstream pending upstream = (case findPublicToolCallID pending upstream of
     Some publicID \<Rightarrow> publicID | None \<Rightarrow> trimSpace upstream)"

definition upstreamToolResult :: "(string \<times> PendingTool) list \<Rightarrow> ToolResult \<Rightarrow> ToolResult" where
  "upstreamToolResult pending result = (case map_of pending (tr_ToolCallID result) of
     Some tool \<Rightarrow> if trimSpace (pt_UpstreamToolCallID tool) \<noteq> []
       then result\<lparr>tr_ToolCallID := pt_UpstreamToolCallID tool\<rparr> else result
   | None \<Rightarrow> result)"

definition pendingValues :: "(string \<times> PendingTool) list \<Rightarrow> PendingTool list" where
  "pendingValues pending = sort_key pt_ToolCallID (map snd pending)"

text \<open>\<open>filterPendingMapResults\<close>: the results of exactly the pending tools, when all of them are there.\<close>

fun resultsFor :: "ToolResult list \<Rightarrow> string list \<Rightarrow> ToolResult list option" where
  "resultsFor results [] = Some []"
| "resultsFor results (i # ids) = (case (find (\<lambda>r. tr_ToolCallID r = i) results, resultsFor results ids) of
     (Some r, Some rs) \<Rightarrow> Some (r # rs) | _ \<Rightarrow> None)"

definition filterPendingMapResults ::
  "(string \<times> PendingTool) list \<Rightarrow> ToolResult list \<Rightarrow> ToolResult list option" where
  "filterPendingMapResults pending results =
     (if \<not> distinct (map tr_ToolCallID results) then None
      else map_option (sort_key tr_ToolCallID) (resultsFor results (map fst pending)))"

definition pendingMap :: "PendingTool list \<Rightarrow> (string \<times> PendingTool) list" where
  "pendingMap tools = foldl (\<lambda>m t. AList.update (pt_ToolCallID t) t m) [] tools"

definition filterPendingResults :: "PendingTool list \<Rightarrow> ToolResult list \<Rightarrow> ToolResult list option" where
  "filterPendingResults pending results = filterPendingMapResults (pendingMap pending) results"

definition routedAgentV1ToolCallID :: "storeEnv \<Rightarrow> int \<Rightarrow> int \<Rightarrow> string mg" where
  "routedAgentV1ToolCallID env userID channelID = bnd (onStore (newUUID env)) (\<lambda>u.
     ret (''toolu_bf_agentv1_u'' @ decimal userID @ ''_c'' @ decimal channelID @ ''_''
          @ filter (\<lambda>c. c \<noteq> CHR ''-'') u))"

section \<open>Reservations\<close>

text \<open>A session identifier is reserved while its claim is under way.\<close>

definition reserve :: "string \<Rightarrow> bool mg" where
  "reserve sessionID s =
     (if sessionID \<in> fst ` set (mg_active s) \<or> sessionID \<in> set (mg_starting s) then (Inr False, s)
      else (Inr True, s\<lparr>mg_starting := sessionID # mg_starting s\<rparr>))"

definition releaseReservation :: "string \<Rightarrow> unit mg" where
  "releaseReservation sessionID = modify (\<lambda>s. s\<lparr>mg_starting := removeAll sessionID (mg_starting s)\<rparr>)"

text \<open>
  The deferred release of a reservation: the body says, with its result, whether a session was started
  (\<open>reserved = false\<close>).
\<close>

definition whileReserved :: "string \<Rightarrow> ('a \<times> bool) ma \<Rightarrow> 'a ma" where
  "whileReserved sessionID m = pbind m (\<lambda>r. case r of
     Inr (x, started) \<Rightarrow> if started then pret x
       else pbnd (atomic (releaseReservation sessionID)) (\<lambda>_. pret x)
   | Inl e \<Rightarrow> pbnd (atomic (releaseReservation sessionID)) (\<lambda>_. praise e))"

section \<open>Flights\<close>

text \<open>
  The first submission of a batch leads a flight; the others wait for its outcome.  The key is modelled
  with the separator of the code.
\<close>

definition resumeFlightKey :: "string \<Rightarrow> string list \<Rightarrow> string \<Rightarrow> string" where
  "resumeFlightKey fp batchIDs followUp =
     trimSpace fp @ NUL @ join NUL (normalizeToolIDs batchIDs) @ NUL @ normalizeFollowUp followUp"

definition beginResumeFlight :: "string \<Rightarrow> string list \<Rightarrow> string \<Rightarrow> string \<Rightarrow> (nat \<times> bool) mg" where
  "beginResumeFlight fp batchIDs digest followUp s =
     (let key = resumeFlightKey fp batchIDs followUp in
      case map_of (mg_flights s) key of
        Some f \<Rightarrow> if rf_digest (flightAt f s) \<noteq> digest then (Inl ErrToolResultConflict, s)
          else (Inr (f, False), s)
      | None \<Rightarrow> (Inr (length (mg_flightHeap s), True),
          s\<lparr>mg_flights := AList.update key (length (mg_flightHeap s)) (mg_flights s),
            mg_flightHeap := mg_flightHeap s
              @ [\<lparr>rf_key = key, rf_digest = digest, rf_done = False, rf_replay = None, rf_err = None\<rparr>]\<rparr>))"

definition endResumeFlight ::
  "string \<Rightarrow> string list \<Rightarrow> nat \<Rightarrow> CompletedReplay option \<Rightarrow> err option \<Rightarrow> unit mg" where
  "endResumeFlight fp batchIDs f replay e = modify (\<lambda>s.
     let fl = flightAt f s;
         key = (if rf_key fl = [] then resumeFlightKey fp batchIDs [] else rf_key fl);
         s1 = (if map_of (mg_flights s) key = Some f then s\<lparr>mg_flights := AList.delete key (mg_flights s)\<rparr> else s)
     in if rf_done fl then s1
        else s1\<lparr>mg_flightHeap := (mg_flightHeap s1)[f := fl\<lparr>rf_done := True,
               rf_replay := (case replay of None \<Rightarrow> rf_replay fl | Some r \<Rightarrow> Some r), rf_err := e\<rparr>]\<rparr>)"

text \<open>
  \<open>waitResumeFlight\<close> after its \<open>select\<close> has picked a ready case: \<open>ctxFirst\<close> says that it was the context.
  \<open>None\<close> when no case was ready, so that the caller goes on waiting.
\<close>

definition waitedFlight :: "storeEnv \<Rightarrow> bool \<Rightarrow> nat option \<Rightarrow> nat \<Rightarrow> ManagedOutput option mg" where
  "waitedFlight env ctxFirst ctx f =
     bnd (gets (ctxErr ctx)) (\<lambda>cancelled. bnd (gets (flightAt f)) (\<lambda>fl.
     case (cancelled, rf_done fl) of
       (None, False) \<Rightarrow> ret None
     | (Some e, False) \<Rightarrow> raise e
     | (_, True) \<Rightarrow>
         if ctxFirst \<and> cancelled \<noteq> None then raise (the cancelled)
         else case rf_err fl of Some e \<Rightarrow> raise e
         | None \<Rightarrow> case rf_replay fl of None \<Rightarrow> raise ErrSessionNotPending
           | Some replay \<Rightarrow> case cancelled of Some e \<Rightarrow> raise e
             | None \<Rightarrow> bnd (emitCompletedReplay env replay) (\<lambda>out. ret (Some out))))"

text \<open>The wait, for at most \<open>n\<close> polls: the process blocks when the flight has not ended by then.\<close>

primrec waitResumeFlight :: "storeEnv \<Rightarrow> bool \<Rightarrow> nat option \<Rightarrow> nat \<Rightarrow> nat \<Rightarrow> ManagedOutput ma" where
  "waitResumeFlight env ctxFirst ctx f 0 = Halt"
| "waitResumeFlight env ctxFirst ctx f (Suc n) = pbnd (atomic (waitedFlight env ctxFirst ctx f)) (\<lambda>r.
     case r of None \<Rightarrow> waitResumeFlight env ctxFirst ctx f n | Some out \<Rightarrow> pret out)"

definition bindResumeFlight :: "string \<Rightarrow> string \<Rightarrow> string list \<Rightarrow> nat \<Rightarrow> unit ma" where
  "bindResumeFlight sessionID fp batchIDs f =
     pbnd (atomic (gets (\<lambda>s. map_of (mg_active s) sessionID))) (\<lambda>active. case active of
       None \<Rightarrow> pret ()
     | Some i \<Rightarrow> atomic (modify (updSession i (\<lambda>c. c\<lparr>ms_flight := Some f,
         ms_flightFingerprint := fp, ms_flightBatch := batchIDs\<rparr>))))"

definition takeFlight :: "nat \<Rightarrow> (nat option \<times> string \<times> string list) mg" where
  "takeFlight i s = (let c = sessionAt i s in
     (Inr (ms_flight c, ms_flightFingerprint c, ms_flightBatch c),
      updSession i (\<lambda>c. c\<lparr>ms_flight := None, ms_flightFingerprint := [], ms_flightBatch := []\<rparr>) s))"

definition flightReplay ::
  "OwnerLease \<Rightarrow> string list \<Rightarrow> err option \<Rightarrow> ToolResult list \<Rightarrow> Event list \<Rightarrow> bool \<Rightarrow> string \<Rightarrow> CompletedReplay option" where
  "flightReplay owner batchIDs e results events hasPending followUp =
     (if e = None \<and> results \<noteq> [] then Some \<lparr>rp_RequestSegmentID = ol_RequestSegmentID owner,
        rp_SessionID = ol_SessionID owner, rp_ConversationID = ol_ConversationID owner,
        rp_BillingRunID = ol_BillingRunID owner, rp_OriginalBatch = batchIDs, rp_Events = events,
        rp_HasPending = hasPending, rp_FollowUpText = followUp\<rparr>
      else None)"

definition finishFlight ::
  "nat \<Rightarrow> err option \<Rightarrow> ToolResult list \<Rightarrow> Event list \<Rightarrow> bool \<Rightarrow> string \<Rightarrow> unit ma" where
  "finishFlight i e results events hasPending followUp =
     pbnd (atomic (takeFlight i)) (\<lambda>(fl, fp, batchIDs). case fl of None \<Rightarrow> pret ()
     | Some f \<Rightarrow> pbnd (atomic (gets (\<lambda>s. ms_owner (sessionAt i s)))) (\<lambda>owner.
         atomic (endResumeFlight fp batchIDs f (flightReplay owner batchIDs e results events hasPending followUp) e)))"

section \<open>The events of a run\<close>

definition failState :: "nat \<Rightarrow> err \<Rightarrow> unit mg" where
  "failState i e = modify (updSession i (\<lambda>c. c\<lparr>
     ms_stateErr := (case ms_stateErr c of None \<Rightarrow> Some e | Some e' \<Rightarrow> Some e'), ms_cancelled := True\<rparr>))"

definition downstreamFull :: err where
  "downstreamFull = Errorf ''Cursor Agent v1 downstream event buffer is full'' []"

text \<open>
  The critical section of \<open>emit\<close>: nothing after a failure, else record the event while capturing, keep a
  terminal event back, and say to which output the event goes.
\<close>

definition emitLocked :: "storeEnv \<Rightarrow> nat \<Rightarrow> Event \<Rightarrow> (err + nat option) mg" where
  "emitLocked env i event s =
     (let c = sessionAt i s in
      if ms_stateErr c \<noteq> None then (Inr (Inr None), s)
      else case (if ms_capturing c then snapshotAppend (se_body env) (se_rest env) (ms_segmentSnapshot c) event
                 else Inr (ms_segmentSnapshot c)) of
        Inl e \<Rightarrow> (Inr (Inl e), s)
      | Inr snapshot \<Rightarrow>
          let s1 = updSession i (\<lambda>c. c\<lparr>ms_segmentSnapshot := snapshot\<rparr>) s in
          if ev_Type event = EventDone
          then (Inr (Inr None), updSession i (\<lambda>c. c\<lparr>ms_terminalEvent := Some (cloneEvent event)\<rparr>) s1)
          else (Inr (Inr (ms_output c)), s1))"

definition emitEvent :: "storeEnv \<Rightarrow> nat \<Rightarrow> Event \<Rightarrow> unit ma" where
  "emitEvent env i event = pbnd (atomic (emitLocked env i event)) (\<lambda>r. case r of
       Inl e \<Rightarrow> atomic (failState i e)
     | Inr None \<Rightarrow> pret ()
     | Inr (Some o') \<Rightarrow> pbnd (atomic (sendOutput o' event)) (\<lambda>sent.
         if sent = outputSendFull then atomic (failState i downstreamFull) else pret ()))"

definition pendingToolOf :: "ToolCall \<Rightarrow> string \<Rightarrow> PendingTool" where
  "pendingToolOf call publicID = \<lparr>pt_MessageID = tc_MessageID call, pt_ExecID = tc_ExecID call,
     pt_ToolCallID = publicID, pt_UpstreamToolCallID = trimSpace (tc_ToolCallID call),
     pt_Name = tc_Name call, pt_Arguments = tc_Arguments call\<rparr>"

text \<open>The two critical sections of the \<open>EventToolCall\<close> case: \<open>True\<close> when the call is to go on.\<close>

definition knownCall :: "nat \<Rightarrow> string \<Rightarrow> bool mg" where
  "knownCall i upstream s = (let c = sessionAt i s in
     if findPublicToolCallID (ms_pending c) upstream \<noteq> None then (Inr False, s)
     else if ms_disableCallerTools c then (Inl ErrCallerToolsDisabled, s)
     else (Inr True, s))"

definition addPending :: "nat \<Rightarrow> PendingTool \<Rightarrow> bool mg" where
  "addPending i tool s = (let c = sessionAt i s in
     if map_of (ms_pending c) (pt_ToolCallID tool) \<noteq> None then (Inr False, s)
     else if ms_output c = None
     then (Inl (Errorf ''Cursor Agent v1 received a new tool call after the downstream turn was parked'' []), s)
     else if ms_disableCallerTools c then (Inl ErrCallerToolsDisabled, s)
     else (Inr True, updSession i (\<lambda>c. c\<lparr>ms_pending := AList.update (pt_ToolCallID tool) tool (ms_pending c)\<rparr>) s))"

text \<open>An error of a step fails the session.\<close>

definition orFail :: "nat \<Rightarrow> 'a ma \<Rightarrow> ('a \<Rightarrow> unit ma) \<Rightarrow> unit ma" where
  "orFail i m f = pbnd (ptry m) (\<lambda>r. case r of Inl e \<Rightarrow> atomic (failState i e) | Inr x \<Rightarrow> f x)"

definition handleToolCall :: "storeEnv \<Rightarrow> nat \<Rightarrow> Event \<Rightarrow> ToolCall \<Rightarrow> unit ma" where
  "handleToolCall env i event call =
     orFail i (atomic (knownCall i (trimSpace (tc_ToolCallID call)))) (\<lambda>new. if \<not> new then pret ()
     else pbnd (atomic (gets (\<lambda>s. ms_request (sessionAt i s)))) (\<lambda>request.
       pbnd (if rr_RouteUserID request > 0 \<and> rr_RouteChannelID request > 0
             then atomic (routedAgentV1ToolCallID env (rr_RouteUserID request) (rr_RouteChannelID request))
             else pret (trimSpace (tc_ToolCallID call))) (\<lambda>publicID.
       orFail i (atomic (addPending i (pendingToolOf call publicID))) (\<lambda>added. if \<not> added then pret ()
         else emitEvent env i (event\<lparr>ev_ToolCall := Some (call\<lparr>tc_ToolCallID := publicID\<rparr>)\<rparr>)))))"

definition dropPending :: "nat \<Rightarrow> string \<Rightarrow> PendingTool list mg" where
  "dropPending i upstream s = (let pending = ms_pending (sessionAt i s);
       left = AList.delete (publicToolCallIDForUpstream pending upstream) pending in
     (Inr (pendingValues left), updSession i (\<lambda>c. c\<lparr>ms_pending := left\<rparr>) s))"

definition ownerOfSession :: "nat \<Rightarrow> OwnerLease ma" where
  "ownerOfSession i = atomic (gets (\<lambda>s. ms_owner (sessionAt i s)))"

definition handleEvent :: "storeEnv \<Rightarrow> nat \<Rightarrow> Event \<Rightarrow> unit ma" where
  "handleEvent env i event = (case ev_Type event of
       EventCheckpoint \<Rightarrow> pbnd (ownerOfSession i) (\<lambda>owner.
         orFail i (atomic (onStore (SaveCheckpoint env owner (ev_Checkpoint event) (ev_Blobs event)))) pret)
     | EventToolCall \<Rightarrow> (case ev_ToolCall event of
         None \<Rightarrow> atomic (failState i (Errorf ''Cursor Agent v1 tool event is empty'' []))
       | Some call \<Rightarrow> handleToolCall env i event call)
     | EventToolResultAccepted \<Rightarrow> (case ev_ToolResult event of
         None \<Rightarrow> pret ()
       | Some result \<Rightarrow> pbnd (atomic (dropPending i (tr_ToolCallID result))) (\<lambda>pending.
           pbnd (ownerOfSession i) (\<lambda>owner.
           orFail i (atomic (onStore (SavePending env owner pending))) (\<lambda>_. emitEvent env i event))))
     | _ \<Rightarrow> emitEvent env i event)"

section \<open>The end of a run\<close>

text \<open>What the last critical section of a run takes out of its session.\<close>

record closing =
  cs_output :: "nat option"
  cs_pendingCount :: nat
  cs_terminalEvent :: "Event option"
  cs_segmentResults :: "ToolResult list"
  cs_segmentEvents :: "Event list"
  cs_snapshotFollowUp :: string
  cs_segmentBatch :: "string list"

definition closeSession :: "nat \<Rightarrow> closing mg" where
  "closeSession i s = (let c = sessionAt i s in
     (Inr \<lparr>cs_output = ms_output c, cs_pendingCount = length (ms_pending c), cs_terminalEvent = ms_terminalEvent c,
        cs_segmentResults = ms_segmentResults c, cs_segmentEvents = es_events (ms_segmentSnapshot c),
        cs_snapshotFollowUp = ms_snapshotFollowUp c, cs_segmentBatch = ms_segmentBatch c\<rparr>,
      updSession i (\<lambda>c. c\<lparr>ms_closed := True, ms_output := None, ms_segmentResults := [],
        ms_segmentSnapshot := newSnapshot, ms_segmentBatch := [], ms_capturing := False\<rparr>) s))"

text \<open>\<open>if filtered, ok := toolResultsForBatch(..); ok\<close>\<close>

definition segmentAccepted :: "ToolResult list \<Rightarrow> string list \<Rightarrow> ToolResult list" where
  "segmentAccepted results batch = (case toolResultsForBatch results batch of Some f \<Rightarrow> f | None \<Rightarrow> results)"

definition errorOf :: "'a ma \<Rightarrow> err option ma" where
  "errorOf m = pbnd (ptry m) (\<lambda>r. case r of Inl e \<Rightarrow> pret (Some e) | Inr _ \<Rightarrow> pret None)"

text \<open>Saving what the run has produced: the error of the run after it, and the results of the segment.\<close>

definition saveOutcome ::
  "storeEnv \<Rightarrow> nat \<Rightarrow> RunRequest \<Rightarrow> closing \<Rightarrow> err option \<Rightarrow> (err option \<times> ToolResult list) ma" where
  "saveOutcome env i request c e =
     pbnd (if e = None \<and> rr_HistoryRequestKey request \<noteq> []
           then pbnd (ownerOfSession i) (\<lambda>owner. errorOf (atomic (onStore
                  (SaveHistory env owner (rr_HistoryRequestKey request) (cs_segmentEvents c)))))
           else pret e) (\<lambda>e.
     if e = None \<and> rr_HistoryRequestKey request = [] \<and> cs_segmentResults c \<noteq> []
     then let results = segmentAccepted (cs_segmentResults c) (cs_segmentBatch c) in
       pbnd (ownerOfSession i) (\<lambda>owner.
       pbnd (errorOf (atomic (onStore (SaveCompleted env owner results (cs_segmentEvents c)
               (rr_DeleteCompletedState request \<and> cs_pendingCount c = 0) (cs_snapshotFollowUp c))))) (\<lambda>e.
       pret (e, results)))
     else pret (e, cs_segmentResults c))"

text \<open>Completion is published last: after the saves, the release of the lease and the removal of the session.\<close>

definition publishOutcome :: "closing \<Rightarrow> err option \<Rightarrow> unit ma" where
  "publishOutcome c e = (case cs_output c of None \<Rightarrow> pret ()
     | Some o' \<Rightarrow>
         pbnd (case (e, cs_terminalEvent c) of
             (None, Some event) \<Rightarrow> pbnd (atomic (sendOutput o' event)) (\<lambda>sent.
               pret (if sent = outputSendFull then Some downstreamFull else None))
           | _ \<Rightarrow> pret e) (\<lambda>e. atomic (closeOutput o' e)))"

definition removeActive :: "nat \<Rightarrow> unit mg" where
  "removeActive i = modify (\<lambda>s. let sid = ol_SessionID (ms_owner (sessionAt i s)) in
     if map_of (mg_active s) sid = Some i then s\<lparr>mg_active := AList.delete sid (mg_active s)\<rparr> else s)"

definition runReturned :: "storeEnv \<Rightarrow> nat \<Rightarrow> err option \<Rightarrow> unit ma" where
  "runReturned env i err0 =
     pbnd (atomic (gets (\<lambda>s. ms_stateErr (sessionAt i s)))) (\<lambda>stateErr.
     pbnd (atomic (closeSession i)) (\<lambda>c.
     pbnd (atomic (gets (\<lambda>s. ms_request (sessionAt i s)))) (\<lambda>request.
     pbnd (saveOutcome env i request c (case stateErr of Some e \<Rightarrow> Some e | None \<Rightarrow> err0)) (\<lambda>(e, results).
     pbnd (finishFlight i e results (cs_segmentEvents c) (cs_pendingCount c > 0) (cs_snapshotFollowUp c)) (\<lambda>_.
     pbnd (ownerOfSession i) (\<lambda>owner.
     pbnd (if e = None \<and> rr_HistoryRequestKey request = [] \<and> rr_DeleteCompletedState request
               \<and> cs_pendingCount c = 0 \<and> results = []
           then errorOf (atomic (onStore (Delete env owner))) else pret None) (\<lambda>_.
     pbnd (errorOf (atomic (onStore (Release owner)))) (\<lambda>_.
     pbnd (atomic (removeActive i)) (\<lambda>_.
     pbnd (publishOutcome c e) (\<lambda>_.
     atomic (modify (updSession i (\<lambda>c. c\<lparr>ms_cancelled := True\<rparr>)))))))))))))"

text \<open>The goroutine of a session up to the call of \<open>Runner.Run\<close>.\<close>

definition sessionGoroutine :: "storeEnv \<Rightarrow> nat \<Rightarrow> Event list \<Rightarrow> unit ma" where
  "sessionGoroutine env i carry = pbnd (pfor carry (emitEvent env i)) (\<lambda>_.
     atomic (modify (updSession i (\<lambda>c. c\<lparr>ms_running := True\<rparr>))))"

section \<open>Starting a claimed session\<close>

definition completedFollowUp :: "RunRequest \<Rightarrow> string" where
  "completedFollowUp request = (if rr_Resume request then [] else trimSpace (rr_FollowUpText request))"

definition newManagedSession ::
  "RunRequest \<Rightarrow> OwnerLease \<Rightarrow> PendingTool list \<Rightarrow> ToolResult list \<Rightarrow> string list \<Rightarrow> Event list \<Rightarrow> bool \<Rightarrow> managedSession" where
  "newManagedSession request owner restored covering batch carry disable =
     \<lparr>ms_owner = owner, ms_request = request\<lparr>rr_ToolResults := True\<rparr>, ms_cancelled = False, ms_toolResults = [],
      ms_output = None, ms_pending = pendingMap restored, ms_stateErr = None, ms_closed = False,
      ms_capturing = (rr_HistoryRequestKey request \<noteq> [] \<or> covering \<noteq> [] \<or> carry \<noteq> []),
      ms_pendingBatch = batch, ms_segmentBatch = batch, ms_segmentResults = covering,
      ms_segmentSnapshot = newSnapshot, ms_snapshotFollowUp = completedFollowUp request,
      ms_terminalEvent = None, ms_flight = None, ms_flightFingerprint = [], ms_flightBatch = [],
      ms_pendingFollowUp = trimSpace (rr_FollowUpText request), ms_billingCarry = usageEvidenceEvents carry,
      ms_disableCallerTools = disable, ms_running = False\<rparr>"

text \<open>The registration, under the manager's lock: \<open>None\<close> when the session is active already.\<close>

definition registerSession :: "string \<Rightarrow> managedSession \<Rightarrow> (nat \<times> nat) option mg" where
  "registerSession sessionID c s =
     (if sessionID \<in> fst ` set (mg_active s) then (Inr None, s)
      else case newManagedOutput s of
        (Inl e, s1) \<Rightarrow> (Inl e, s1)
      | (Inr o', s1) \<Rightarrow>
          (Inr (Some (length (mg_sessions s), o')),
           s1\<lparr>mg_starting := removeAll sessionID (mg_starting s),
              mg_active := AList.update sessionID (length (mg_sessions s)) (mg_active s),
              mg_sessions := mg_sessions s @ [c\<lparr>ms_output := Some o'\<rparr>]\<rparr>))"

text \<open>
  A send into the channel of tool results by the code that starts the session.  Nobody reads the channel
  yet, so a send into the full channel blocks for ever.
\<close>

definition pushInitial :: "nat \<Rightarrow> ToolResult \<Rightarrow> unit ma" where
  "pushInitial i result = Step (\<lambda>s. let c = sessionAt i s in
     if length (ms_toolResults c) \<ge> maxPendingTools then (Halt, s)
     else (pret (), updSession i (\<lambda>c. c\<lparr>ms_toolResults := ms_toolResults c
              @ [upstreamToolResult (ms_pending c) result]\<rparr>) s))"

definition startClaimed ::
  "storeEnv \<Rightarrow> RunRequest \<Rightarrow> OwnerLease \<Rightarrow> PendingTool list \<Rightarrow> ToolResult list \<Rightarrow> ToolResult list \<Rightarrow> string list
   \<Rightarrow> Event list \<Rightarrow> bool \<Rightarrow> ManagedOutput ma" where
  "startClaimed env request owner restored initialResults covering originalBatch carry disable =
     (let batch = (if originalBatch = [] then pendingToolIDs restored else originalBatch) in
      pbnd (atomic (registerSession (ol_SessionID owner)
              (newManagedSession request owner restored covering batch carry disable))) (\<lambda>r. case r of
        None \<Rightarrow> pbnd (errorOf (atomic (onStore (Release owner)))) (\<lambda>_. praise ErrSessionActive)
      | Some (i, o') \<Rightarrow>
          pbnd (pfor initialResults (pushInitial i)) (\<lambda>_.
          pbnd (atomic (modify (\<lambda>s. s\<lparr>mg_goroutines := mg_goroutines s @ [(i, carry)]\<rparr>))) (\<lambda>_.
          pret ((publicOutput o' (ol_SessionID owner) (ol_BillingRunID owner))\<lparr>
            ou_RequestSegmentID := ol_RequestSegmentID owner, ou_ConversationID := ol_ConversationID owner,
            ou_OriginalBatch := batch\<rparr>)))))"

section \<open>Resuming a session that is parked\<close>

definition resumeCheck :: "nat \<Rightarrow> ToolResult list \<Rightarrow> (OwnerLease \<times> ToolResult list) mg" where
  "resumeCheck i results s = (let c = sessionAt i s in
     if ms_closed c \<or> ms_output c \<noteq> None then (Inl ErrSessionActive, s)
     else case filterPendingMapResults (ms_pending c) results of
       None \<Rightarrow> (Inl ErrSessionNotPending, s)
     | Some filtered \<Rightarrow> (Inr (ms_owner c, filtered), s))"

record resumed =
  re_output :: nat
  re_upstream :: "ToolResult list"
  re_sessionID :: string
  re_billingRunID :: string
  re_batch :: "string list"
  re_carry :: "Event list"

definition resumeCommit ::
  "nat \<Rightarrow> ToolResult list \<Rightarrow> ToolResult list \<Rightarrow> string list \<Rightarrow> ToolResult list \<Rightarrow> string \<Rightarrow> string \<Rightarrow> bool \<Rightarrow> resumed mg" where
  "resumeCommit i filtered results originalBatch segmentResults requestSegmentID segmentID disable s =
     (let c = sessionAt i s in
      if ms_closed c \<or> ms_output c \<noteq> None then (Inl ErrSessionActive, s)
      else case newManagedOutput s of
        (Inl e, s1) \<Rightarrow> (Inl e, s1)
      | (Inr o', s1) \<Rightarrow>
          let owner = (ms_owner c)\<lparr>ol_RequestSegmentID := requestSegmentID,
                ol_BillingRunID := (if trimSpace segmentID \<noteq> [] then segmentID else ol_BillingRunID (ms_owner c))\<rparr>;
              batch = (if originalBatch \<noteq> [] then originalBatch
                       else if ms_pendingBatch c \<noteq> [] then ms_pendingBatch c
                       else pendingToolIDs (pendingValues (ms_pending c)))
          in (Inr \<lparr>re_output = o', re_upstream = map (upstreamToolResult (ms_pending c)) filtered,
                re_sessionID = ol_SessionID owner, re_billingRunID = ol_BillingRunID owner, re_batch = batch,
                re_carry = usageEvidenceEvents (ms_billingCarry c)\<rparr>,
              updSession i (\<lambda>c. c\<lparr>ms_owner := owner, ms_disableCallerTools := disable, ms_output := Some o',
                ms_capturing := True, ms_snapshotFollowUp := [], ms_segmentSnapshot := newSnapshot,
                ms_segmentBatch := batch,
                ms_segmentResults := (if segmentResults \<noteq> [] then segmentResults else results)\<rparr>) s1))"

text \<open>A send that does not block: \<open>False\<close> when the channel is full.\<close>

definition pushResult :: "nat \<Rightarrow> ToolResult \<Rightarrow> bool mg" where
  "pushResult i result s = (let c = sessionAt i s in
     if length (ms_toolResults c) \<ge> maxPendingTools then (Inr False, s)
     else (Inr True, updSession i (\<lambda>c. c\<lparr>ms_toolResults := ms_toolResults c @ [result]\<rparr>) s))"

definition queueFull :: err where
  "queueFull = Errorf ''Cursor Agent v1 tool result queue is full'' []"

definition detach :: "nat \<Rightarrow> nat \<Rightarrow> unit mg" where
  "detach i o' = modify (updSession i (\<lambda>c. if ms_output c = Some o' then c\<lparr>ms_output := None\<rparr> else c))"

primrec pushResults :: "nat \<Rightarrow> nat \<Rightarrow> ToolResult list \<Rightarrow> unit ma" where
  "pushResults i o' [] = pret ()"
| "pushResults i o' (r # rs) = pbnd (atomic (pushResult i r)) (\<lambda>sent.
     if sent then pushResults i o' rs
     else pbnd (atomic (detach i o')) (\<lambda>_. pbnd (atomic (closeOutput o' (Some queueFull))) (\<lambda>_. praise queueFull)))"

definition resume ::
  "storeEnv \<Rightarrow> nat \<Rightarrow> ToolResult list \<Rightarrow> string list \<Rightarrow> ToolResult list \<Rightarrow> string \<Rightarrow> bool \<Rightarrow> ManagedOutput ma" where
  "resume env i results originalBatch segmentResults requestSegmentID disable =
     pbnd (atomic (resumeCheck i results)) (\<lambda>(owner, filtered).
     let segmentID = (if isMeteredTurn (ol_BillingRunID owner) then ol_BillingRunID owner else requestSegmentID) in
     pbnd (if trimSpace segmentID \<noteq> [] \<and> segmentID \<noteq> ol_BillingRunID owner
           then atomic (onStore (SetBillingRunID env owner segmentID)) else pret ()) (\<lambda>_.
     pbnd (atomic (resumeCommit i filtered results originalBatch segmentResults requestSegmentID segmentID disable)) (\<lambda>r.
     pbnd (pfor (re_carry r) (emitEvent env i)) (\<lambda>_.
     pbnd (pushResults i (re_output r) (re_upstream r)) (\<lambda>_.
     pret ((publicOutput (re_output r) (re_sessionID r) (re_billingRunID r))\<lparr>
       ou_RequestSegmentID := requestSegmentID, ou_OriginalBatch := re_batch r\<rparr>))))))"

section \<open>Parking and cancelling\<close>

definition fingerprintOf :: "storeEnv \<Rightarrow> ManagedRequest \<Rightarrow> string res" where
  "fingerprintOf env request = CredentialFingerprint (se_sha env) (mr_CredentialScope request) (mr_AccountKey request)"

record parked =
  pk_session :: nat
  pk_owner :: OwnerLease
  pk_output :: nat
  pk_results :: "ToolResult list"
  pk_events :: "Event list"
  pk_followUp :: string
  pk_batch :: "string list"
  pk_hasPending :: bool

text \<open>The part of \<open>Park\<close> under the locks of the manager and the session, the two saves of the store included.\<close>

definition parkSession :: "storeEnv \<Rightarrow> string \<Rightarrow> string \<Rightarrow> parked mg" where
  "parkSession env sessionID fp =
     bnd (gets (\<lambda>s. map_of (mg_active s) sessionID)) (\<lambda>active. case active of
       None \<Rightarrow> raise ErrSessionNotPending
     | Some i \<Rightarrow> bnd (gets (sessionAt i)) (\<lambda>c.
         if ol_CredentialHash (ms_owner c) \<noteq> fp then raise ErrCredentialMismatch
         else if ms_closed c \<or> ms_pending c = [] then raise ErrSessionNotPending
         else case ms_output c of None \<Rightarrow> raise ErrSessionNotPending
         | Some o' \<Rightarrow>
             let followUp = trimSpace (ms_pendingFollowUp c) in
             bnd (if followUp \<noteq> [] then onStore (SaveFollowUp env (ms_owner c) followUp) else ret ()) (\<lambda>_.
             bnd (onStore (SavePending env (ms_owner c) (pendingValues (ms_pending c)))) (\<lambda>_.
             bnd (modify (updSession i (\<lambda>c. c\<lparr>ms_segmentResults := [], ms_segmentSnapshot := newSnapshot,
                    ms_segmentBatch := [], ms_capturing := False,
                    ms_pendingBatch := pendingToolIDs (pendingValues (ms_pending c)), ms_output := None\<rparr>))) (\<lambda>_.
             ret \<lparr>pk_session = i, pk_owner = ms_owner c, pk_output = o', pk_results = ms_segmentResults c,
                  pk_events = es_events (ms_segmentSnapshot c), pk_followUp = ms_snapshotFollowUp c,
                  pk_batch = ms_segmentBatch c, pk_hasPending = True\<rparr>)))))"

definition Park :: "storeEnv \<Rightarrow> ManagedRequest \<Rightarrow> unit ma" where
  "Park env request = (case fingerprintOf env request of Inl e \<Rightarrow> praise e
     | Inr fp \<Rightarrow>
       pbnd (atomic (parkSession env (trimSpace (mr_SessionID request)) fp)) (\<lambda>p.
       if pk_results p = [] then atomic (closeOutput (pk_output p) None)
       else let results = segmentAccepted (pk_results p) (pk_batch p) in
         pbnd (ownerOfSession (pk_session p)) (\<lambda>owner.
         pbnd (errorOf (atomic (onStore (SaveCompleted env owner results (pk_events p) False (pk_followUp p))))) (\<lambda>e.
         case e of
           Some e \<Rightarrow> pbnd (atomic (closeOutput (pk_output p) (Some e))) (\<lambda>_.
             pbnd (finishFlight (pk_session p) (Some e) [] [] (pk_hasPending p) (pk_followUp p)) (\<lambda>_. praise e))
         | None \<Rightarrow>
             pbnd (finishFlight (pk_session p) None results (pk_events p) (pk_hasPending p) (pk_followUp p)) (\<lambda>_.
             atomic (closeOutput (pk_output p) None))))))"

text \<open>The critical section of \<open>Cancel\<close>: the cancelled session with the output it had.\<close>

definition cancelSession :: "string \<Rightarrow> string \<Rightarrow> (nat \<times> nat option) option mg" where
  "cancelSession sessionID fp s = (case map_of (mg_active s) sessionID of
       None \<Rightarrow> (Inr None, s)
     | Some i \<Rightarrow> let c = sessionAt i s in
         if ol_CredentialHash (ms_owner c) \<noteq> fp then (Inl ErrCredentialMismatch, s)
         else (Inr (Some (i, ms_output c)),
               (updSession i (\<lambda>c. c\<lparr>ms_closed := True, ms_output := None\<rparr>) s)\<lparr>
                 mg_active := AList.delete sessionID (mg_active s)\<rparr>))"

definition Cancel :: "storeEnv \<Rightarrow> ManagedRequest \<Rightarrow> unit ma" where
  "Cancel env request = (case fingerprintOf env request of Inl e \<Rightarrow> praise e
     | Inr fp \<Rightarrow>
       pbnd (atomic (cancelSession (trimSpace (mr_SessionID request)) fp)) (\<lambda>r. case r of
         None \<Rightarrow> pret ()
       | Some (i, out) \<Rightarrow>
           pbnd (ownerOfSession i) (\<lambda>owner.
           pbnd (errorOf (atomic (onStore (Delete env owner)))) (\<lambda>deleteErr.
           pbnd (atomic (modify (updSession i (\<lambda>c. c\<lparr>ms_cancelled := True\<rparr>)))) (\<lambda>_.
           pbnd (case out of None \<Rightarrow> pret () | Some o' \<Rightarrow> atomic (closeOutput o' (Some ErrCanceled))) (\<lambda>_.
           pbnd (errorOf (atomic (onStore (Release owner)))) (\<lambda>releaseErr.
           case deleteErr of Some e \<Rightarrow> praise e
           | None \<Rightarrow> (case releaseErr of Some e \<Rightarrow> praise e | None \<Rightarrow> pret ()))))))))"

definition CancelState :: "storeEnv \<Rightarrow> ManagedRequest \<Rightarrow> unit ma" where
  "CancelState env request =
     (let sessionID = trimSpace (mr_SessionID request) in
      if sessionID = [] then pret ()
      else pbnd (atomic (gets (\<lambda>s. map_of (mg_active s) sessionID))) (\<lambda>active.
        pbnd (if active \<noteq> None then Cancel env request else pret ()) (\<lambda>_.
        case fingerprintOf env request of Inl e \<Rightarrow> praise e
        | Inr fp \<Rightarrow> atomic (onStore (DeleteSession env sessionID fp)))))"

section \<open>Starting a session\<close>

definition historySessionID :: "storeEnv \<Rightarrow> string \<Rightarrow> string \<Rightarrow> string" where
  "historySessionID env fp key = ''history_'' @ se_sha env (fp @ NUL @ key)"

definition meteringVersionError :: err where
  "meteringVersionError = RequestError 503
     ''Cursor continuation requires an updated gateway; retry after gateway rollout completes''"

definition billingIDForRequest :: "storeEnv \<Rightarrow> ManagedRequest \<Rightarrow> string ma" where
  "billingIDForRequest env request =
     (let i = mr_BillingRunID request in
      if \<not> mr_TurnMetering request then pret i
      else if trimSpace i = [] then pbnd (atomic (onStore (newUUID env))) (\<lambda>fresh. pret (meteredTurnID fresh i))
      else pret (meteredTurnID [] i))"

definition conversationFor :: "storeEnv \<Rightarrow> RunRequest \<Rightarrow> string ma" where
  "conversationFor env request =
     (let i = trimSpace (rr_ConversationID request) in
      if i = [] then atomic (onStore (newUUID env)) else pret i)"

text \<open>The claim of the store, some of whose errors the manager renames.\<close>

definition claimAs ::
  "storeEnv \<Rightarrow> string \<Rightarrow> string \<Rightarrow> string \<Rightarrow> ClaimOptions \<Rightarrow> (err \<Rightarrow> err) \<Rightarrow> ClaimResult ma" where
  "claimAs env sessionID conversationID fp opts rename =
     pbnd (ptry (atomic (onStore (Claim env sessionID conversationID fp opts)))) (\<lambda>r. case r of
       Inl e \<Rightarrow> praise (rename e) | Inr c \<Rightarrow> pret c)"

definition startError :: "err \<Rightarrow> err" where
  "startError e = (if errIs e ErrStatePending then ErrSessionPending
     else if errIs e ErrNotExist then ErrSessionNotPending else e)"

definition startOptions :: "ManagedRequest \<Rightarrow> string \<Rightarrow> ClaimOptions" where
  "startOptions request billing = \<lparr>co_RuntimeProfile = rr_RuntimeProfile (mr_Run request),
     co_HistoryRequestKey = rr_HistoryRequestKey (mr_Run request),
     co_AllowPending = (rr_HistoryRequestKey (mr_Run request) \<noteq> []),
     co_RequireExisting = mr_RequireExisting request, co_AllowCredentialChange = (\<not> mr_RequireExisting request),
     co_ToolCatalogDigest = mr_ToolCatalogDigest request, co_ToolCatalog = rr_Tools (mr_Run request),
     co_RequireToolCatalog = False, co_NewBillingRunID = billing, co_ReuseBillingRun = mr_ReuseBillingRun request\<rparr>"

text \<open>The run of a claimed snapshot.\<close>

definition claimedRun :: "RunRequest \<Rightarrow> ClaimResult \<Rightarrow> RunRequest" where
  "claimedRun run claim = run\<lparr>rr_ConversationID := ol_ConversationID (cl_Owner claim),
     rr_RuntimeProfile := normalizeRuntimeProfile (st_RuntimeProfile (cl_Snapshot claim)),
     rr_InitialCheckpoint := st_Checkpoint (cl_Snapshot claim), rr_InitialBlobs := st_Blobs (cl_Snapshot claim)\<rparr>"

definition startReserved :: "storeEnv \<Rightarrow> ManagedRequest \<Rightarrow> string \<Rightarrow> (ManagedOutput \<times> bool) ma" where
  "startReserved env request sessionID = (case fingerprintOf env request of Inl e \<Rightarrow> praise e
     | Inr fp \<Rightarrow>
       pbnd (conversationFor env (mr_Run request)) (\<lambda>conversationID.
       pbnd (billingIDForRequest env request) (\<lambda>billing.
       pbnd (claimAs env sessionID conversationID fp (startOptions request billing) startError) (\<lambda>claim.
       case cl_Replay claim of
         Some replay \<Rightarrow> pbnd (atomic (emitCompletedReplay env replay)) (\<lambda>out. pret (out, False))
       | None \<Rightarrow>
           pbnd (startClaimed env ((claimedRun (mr_Run request) claim)\<lparr>rr_Resume := False\<rparr>)
             ((cl_Owner claim)\<lparr>ol_RequestSegmentID := mr_BillingRunID request\<rparr>)
             (st_PendingTools (cl_Snapshot claim)) [] [] [] [] (mr_DisableCallerTools request)) (\<lambda>out.
           pret (out, True))))))"

definition startSession :: "storeEnv \<Rightarrow> ManagedRequest \<Rightarrow> ManagedOutput ma" where
  "startSession env request =
     (let sessionID = trimSpace (mr_SessionID request) in
      if sessionID = [] then praise (Errorf ''Cursor Agent v1 session id is required'' [])
      else pbnd (atomic (reserve sessionID)) (\<lambda>reserved.
        if \<not> reserved then praise ErrSessionActive
        else whileReserved sessionID (startReserved env request sessionID)))"

definition Start :: "storeEnv \<Rightarrow> ManagedRequest \<Rightarrow> ManagedOutput ma" where
  "Start env request =
     (if rr_HistoryRequestKey (mr_Run request) = [] then startSession env request
      else case fingerprintOf env request of Inl e \<Rightarrow> praise e
      | Inr fp \<Rightarrow> pbnd (ptry (atomic (onStore (LookupHistory env fp (rr_HistoryRequestKey (mr_Run request)))))) (\<lambda>r.
          case r of Inr replay \<Rightarrow> atomic (emitCompletedReplay env replay)
          | Inl e \<Rightarrow> if \<not> errIs e ErrSessionNotPending then praise e
              else startSession env (request\<lparr>mr_SessionID :=
                     historySessionID env fp (rr_HistoryRequestKey (mr_Run request))\<rparr>)))"

text \<open>
  \<open>StartHistory\<close> (\<open>manager_history.go\<close>): it tries again every 25 ms until its deadline, which comes after
  \<open>n\<close> tries.
\<close>

primrec StartHistory :: "storeEnv \<Rightarrow> nat \<Rightarrow> ManagedRequest \<Rightarrow> ManagedOutput ma" where
  "StartHistory env 0 request = pbnd (checkContext request) (\<lambda>_. praise ErrDeadlineExceeded)"
| "StartHistory env (Suc n) request = pbnd (checkContext request) (\<lambda>_.
     pbnd (ptry (Start env request)) (\<lambda>r. case r of
       Inr out \<Rightarrow> pret out
     | Inl e \<Rightarrow> if \<not> errIs e ErrSessionActive \<and> \<not> errIs e ErrStateLeaseHeld then praise e
         else StartHistory env n request))"

section \<open>Tool results\<close>

definition toolResultsFromCanonical :: "CompletedToolResult list \<Rightarrow> ToolResult list" where
  "toolResultsFromCanonical results = map (\<lambda>r. \<lparr>tr_ToolCallID = cr_ToolCallID r, tr_Content = cr_Content r,
     tr_IsError = cr_IsError r, tr_Media = cr_Media r\<rparr>) results"

definition lookupRequestReplay :: "storeEnv \<Rightarrow> string \<Rightarrow> ToolResult list \<Rightarrow> string \<Rightarrow> CompletedReplay ma" where
  "lookupRequestReplay env fp results followUp =
     pbnd (ptry (atomic (onStore (LookupCompleted env fp results followUp)))) (\<lambda>r. case r of
       Inr replay \<Rightarrow> pret replay
     | Inl e \<Rightarrow>
         if \<not> errIs e ErrSessionNotPending \<or> normalizeFollowUp followUp = [] then praise e
         else pbnd (ptry (atomic (onStore (LookupCompleted env fp results [])))) (\<lambda>original. case original of
           Inl _ \<Rightarrow> praise e
         | Inr replay \<Rightarrow> pret (replay\<lparr>rp_FollowUpText := []\<rparr>)))"

definition applyCallerToolCatalog ::
  "ManagedRequest \<Rightarrow> ToolDefinition list \<Rightarrow> bool \<Rightarrow> ManagedRequest res" where
  "applyCallerToolCatalog request snapshot requireSnapshot =
     (if mr_DisableCallerTools request then Inr (request\<lparr>mr_Run := (mr_Run request)\<lparr>rr_Tools := []\<rparr>\<rparr>)
      else if rr_Tools (mr_Run request) \<noteq> [] \<or> trimSpace (mr_ToolCatalogDigest request) \<noteq> [] then Inr request
      else if snapshot = [] \<and> requireSnapshot then Inl ErrSessionNotPending
      else Inr (request\<lparr>mr_Run := (mr_Run request)\<lparr>rr_Tools := snapshot\<rparr>\<rparr>))"

text \<open>What \<open>ResumeTools\<close> works out before it joins a flight.\<close>

record submission =
  sb_fp :: string
  sb_results :: "ToolResult list"
  sb_submitted :: "string list"
  sb_batch :: "string list"
  sb_accepted :: "CompletedToolResult list"
  sb_followUp :: string

definition submissionOf ::
  "ManagedRequest \<Rightarrow> string \<Rightarrow> ToolResult list \<Rightarrow> CompletedToolResult list \<Rightarrow> string list \<Rightarrow> submission" where
  "submissionOf request fp results canonical originalBatch =
     (case completedResultsForBatch canonical originalBatch of
        Some filtered \<Rightarrow> \<lparr>sb_fp = fp, sb_results = results, sb_submitted = completedBatchIDs canonical,
          sb_batch = originalBatch, sb_accepted = filtered, sb_followUp = trimSpace (mr_FollowUpText request)\<rparr>
      | None \<Rightarrow> \<lparr>sb_fp = fp, sb_results = results, sb_submitted = completedBatchIDs canonical,
          sb_batch = completedBatchIDs canonical, sb_accepted = canonical,
          sb_followUp = trimSpace (mr_FollowUpText request)\<rparr>)"

definition submit :: "storeEnv \<Rightarrow> ManagedRequest \<Rightarrow> ToolResult list \<Rightarrow> submission ma" where
  "submit env request results0 =
     (let results = map (\<lambda>r. r\<lparr>tr_ToolCallID := trimSpace (tr_ToolCallID r)\<rparr>) results0 in
      if results = [] \<or> (\<exists>r \<in> set results. tr_ToolCallID r = []) then praise ErrSessionNotPending
      else case canonicalToolResults results of Inl e \<Rightarrow> praise e
      | Inr canonical \<Rightarrow> (case fingerprintOf env request of Inl e \<Rightarrow> praise e
        | Inr fp \<Rightarrow> pbnd (atomic (onStore (OriginalPendingBatch env fp (completedBatchIDs canonical)))) (\<lambda>batch.
            pret (submissionOf request fp results canonical batch))))"

definition refusesMetering :: "ManagedRequest \<Rightarrow> string \<Rightarrow> bool" where
  "refusesMetering request billingRunID = (isMeteredTurn billingRunID \<and> \<not> mr_TurnMetering request)"

text \<open>The tool results reach a session that is running.\<close>

definition resumeActive ::
  "storeEnv \<Rightarrow> ManagedRequest \<Rightarrow> submission \<Rightarrow> nat \<Rightarrow> string \<Rightarrow> string \<Rightarrow> nat \<Rightarrow> ManagedOutput ma" where
  "resumeActive env request b f sessionID segmentID i =
     pbnd (ownerOfSession i) (\<lambda>owner.
     if refusesMetering request (ol_BillingRunID owner) then praise meteringVersionError
     else if ol_CredentialHash owner \<noteq> sb_fp b then praise ErrCredentialMismatch
     else pbnd (if sb_followUp b \<noteq> []
                then atomic (modify (updSession i (\<lambda>c. c\<lparr>ms_pendingFollowUp := sb_followUp b\<rparr>))) else pret ()) (\<lambda>_.
       pbnd (bindResumeFlight sessionID (sb_fp b) (sb_batch b) f) (\<lambda>_.
       resume env i (sb_results b) (sb_batch b) (toolResultsFromCanonical (sb_accepted b)) segmentID
         (mr_DisableCallerTools request))))"

definition resumeOptions :: "ManagedRequest \<Rightarrow> string \<Rightarrow> ClaimOptions" where
  "resumeOptions request segmentID = \<lparr>co_RuntimeProfile = rr_RuntimeProfile (mr_Run request),
     co_HistoryRequestKey = [], co_AllowPending = True, co_RequireExisting = True, co_AllowCredentialChange = False,
     co_ToolCatalogDigest = mr_ToolCatalogDigest request, co_ToolCatalog = [], co_RequireToolCatalog = True,
     co_NewBillingRunID = segmentID, co_ReuseBillingRun = False\<rparr>"

definition resumeError :: "err \<Rightarrow> err" where
  "resumeError e = (if errIs e ErrNotExist then ErrSessionNotPending else e)"

text \<open>An error after the claim releases the lease first.\<close>

definition releasing :: "OwnerLease \<Rightarrow> err \<Rightarrow> 'a ma" where
  "releasing owner e = pbnd (errorOf (atomic (onStore (Release owner)))) (\<lambda>_. praise e)"

text \<open>The run that continues a claimed snapshot, and the request's follow-up text.\<close>

definition resumedRequest :: "ManagedRequest \<Rightarrow> ClaimResult \<Rightarrow> ManagedRequest res" where
  "resumedRequest request claim =
     (let catalog = st_ToolCatalog (cl_Snapshot claim);
          run = (mr_Run request)\<lparr>rr_ConversationID := ol_ConversationID (cl_Owner claim),
            rr_RuntimeProfile := normalizeRuntimeProfile (st_RuntimeProfile (cl_Snapshot claim))\<rparr>;
          request1 = (if catalog \<noteq> [] then request\<lparr>mr_Run := run\<lparr>rr_Tools := []\<rparr>, mr_ToolCatalogDigest := []\<rparr>
                      else request\<lparr>mr_Run := run\<rparr>)
      in applyCallerToolCatalog request1 catalog True)"

definition resumedRun :: "RunRequest \<Rightarrow> ClaimResult \<Rightarrow> RunRequest" where
  "resumedRun run claim = run\<lparr>rr_UserText := [], rr_Resume := True,
     rr_InitialCheckpoint := st_Checkpoint (cl_Snapshot claim), rr_InitialBlobs := st_Blobs (cl_Snapshot claim)\<rparr>"

definition resumeStored ::
  "storeEnv \<Rightarrow> ManagedRequest \<Rightarrow> submission \<Rightarrow> nat \<Rightarrow> string \<Rightarrow> string \<Rightarrow> (ManagedOutput \<times> bool) ma" where
  "resumeStored env request b f sessionID segmentID =
     pbnd (conversationFor env (mr_Run request)) (\<lambda>conversationID.
     pbnd (claimAs env sessionID conversationID (sb_fp b) (resumeOptions request segmentID) resumeError) (\<lambda>claim.
     let owner = (cl_Owner claim)\<lparr>ol_RequestSegmentID := segmentID\<rparr>;
         snapshot = cl_Snapshot claim;
         filtered = filterPendingResults (st_PendingTools snapshot) (sb_results b) in
     if refusesMetering request (ol_BillingRunID owner) then releasing owner meteringVersionError
     else if cl_ColdRebuild claim \<or> filtered = None then releasing owner ErrSessionNotPending
     else case resumedRequest request claim of Inl e \<Rightarrow> releasing owner e
     | Inr request1 \<Rightarrow>
         let followUp = (if sb_followUp b = [] then trimSpace (st_FollowUpText snapshot) else sb_followUp b);
             batch = (if st_PendingBatchIDs snapshot = [] then pendingToolIDs (st_PendingTools snapshot)
                      else st_PendingBatchIDs snapshot) in
         pbnd (startClaimed env (resumedRun (mr_Run request1) claim) owner (st_PendingTools snapshot) (the filtered)
           (toolResultsFromCanonical (sb_accepted b)) batch (st_UsageCarry snapshot) (mr_DisableCallerTools request1)) (\<lambda>out.
         pbnd (if followUp \<noteq> [] then atomic (modify (\<lambda>s. case map_of (mg_active s) sessionID of
                   None \<Rightarrow> s | Some i \<Rightarrow> updSession i (\<lambda>c. c\<lparr>ms_pendingFollowUp := followUp\<rparr>) s)) else pret ()) (\<lambda>_.
         pbnd (bindResumeFlight sessionID (sb_fp b) (sb_batch b) f) (\<lambda>_.
         pret (out, True))))))"

text \<open>
  The leader of a flight.  \<open>failing\<close> is the closure \<open>fail\<close>: an error ends the flight with that error.
  \<open>leadLookup\<close> either answers from a saved snapshot or says which session waits for the results.
\<close>

definition failing :: "submission \<Rightarrow> nat \<Rightarrow> 'a ma \<Rightarrow> 'a ma" where
  "failing b f m = pbnd (ptry m) (\<lambda>r. case r of
       Inr x \<Rightarrow> pret x
     | Inl e \<Rightarrow> pbnd (atomic (endResumeFlight (sb_fp b) (sb_batch b) f None (Some e))) (\<lambda>_. praise e))"

definition resolvedSession :: "storeEnv \<Rightarrow> submission \<Rightarrow> string ma" where
  "resolvedSession env b = pbnd (ptry (atomic (onStore (ResolvePending env (sb_fp b) (sb_submitted b))))) (\<lambda>r.
     case r of Inr sessionID \<Rightarrow> pret sessionID
     | Inl e \<Rightarrow> if errIs e ErrSessionNotPending then pret [] else praise e)"

definition leadLookup :: "storeEnv \<Rightarrow> ManagedRequest \<Rightarrow> submission \<Rightarrow> nat \<Rightarrow> (ManagedOutput + string) ma" where
  "leadLookup env request b f =
     pbnd (resolvedSession env b) (\<lambda>sessionID.
     pbnd (ptry (lookupRequestReplay env (sb_fp b)
             (if sessionID \<noteq> [] then toolResultsFromCanonical (sb_accepted b) else sb_results b) (sb_followUp b))) (\<lambda>r.
     case r of
       Inr replay \<Rightarrow>
         if refusesMetering request (rp_BillingRunID replay) then praise meteringVersionError
         else pbnd (atomic (emitCompletedReplay env replay)) (\<lambda>out.
           pbnd (atomic (endResumeFlight (sb_fp b) (sb_batch b) f (Some replay) None)) (\<lambda>_. pret (Inl out)))
     | Inl e \<Rightarrow>
         if \<not> errIs e ErrSessionNotPending then praise e
         else if sessionID = [] then praise ErrSessionNotPending
         else pret (Inr sessionID)))"

definition leadResume :: "storeEnv \<Rightarrow> ManagedRequest \<Rightarrow> submission \<Rightarrow> nat \<Rightarrow> ManagedOutput ma" where
  "leadResume env request b f = pbnd (failing b f (leadLookup env request b f)) (\<lambda>r. case r of
       Inl out \<Rightarrow> pret out
     | Inr sessionID \<Rightarrow>
         let segmentID = generationSegmentID (se_sha env) (sb_fp b) (sb_batch b) (sb_accepted b) (sb_followUp b) in
         pbnd (atomic (gets (\<lambda>s. map_of (mg_active s) sessionID))) (\<lambda>active. case active of
           Some i \<Rightarrow> failing b f (resumeActive env request b f sessionID segmentID i)
         | None \<Rightarrow> pbnd (atomic (reserve sessionID)) (\<lambda>reserved.
             if \<not> reserved then failing b f (praise ErrSessionActive)
             else whileReserved sessionID (failing b f (resumeStored env request b f sessionID segmentID)))))"

text \<open>\<open>polls\<close> and \<open>ctxFirst\<close> are the scheduling of a follower's wait, see \<open>waitResumeFlight\<close>.\<close>

definition followResume :: "storeEnv \<Rightarrow> bool \<Rightarrow> nat \<Rightarrow> ManagedRequest \<Rightarrow> nat \<Rightarrow> ManagedOutput ma" where
  "followResume env ctxFirst polls request f =
     pbnd (waitResumeFlight env ctxFirst (mr_Context request) f polls) (\<lambda>out.
     if refusesMetering request (ou_BillingRunID out) then praise meteringVersionError else pret out)"

definition ResumeTools ::
  "storeEnv \<Rightarrow> bool \<Rightarrow> nat \<Rightarrow> ManagedRequest \<Rightarrow> ToolResult list \<Rightarrow> ManagedOutput ma" where
  "ResumeTools env ctxFirst polls request results =
     pbnd (submit env request results) (\<lambda>b.
     pbnd (atomic (beginResumeFlight (sb_fp b) (sb_batch b) (toolResultDigest (se_sha env) (sb_accepted b))
                     (sb_followUp b))) (\<lambda>(f, leader).
     if leader then leadResume env request b f else followResume env ctxFirst polls request f))"

section \<open>A new user turn after tool results\<close>

definition completedBatchIDsFromResults :: "ToolResult list \<Rightarrow> string list" where
  "completedBatchIDsFromResults results = (case canonicalToolResults results of
     Inl _ \<Rightarrow> [] | Inr canonical \<Rightarrow> completedBatchIDs canonical)"

definition lookupFollowUpReplay ::
  "storeEnv \<Rightarrow> string \<Rightarrow> ToolResult list \<Rightarrow> string \<Rightarrow> ManagedOutput option ma" where
  "lookupFollowUpReplay env fp covering followUp =
     (if covering = [] then pret None
      else pbnd (ptry (atomic (onStore (LookupCompleted env fp covering followUp)))) (\<lambda>r. case r of
        Inl e \<Rightarrow> if errIs e ErrSessionNotPending then pret None else praise e
      | Inr replay \<Rightarrow>
          if normalizeFollowUp (rp_FollowUpText replay) \<noteq> normalizeFollowUp followUp \<or> rp_FollowUpText replay = []
          then pret None
          else pbnd (atomic (emitCompletedReplay env replay)) (\<lambda>out. pret (Some out))))"

text \<open>
  \<open>waitFollowUpSnapshot\<close>: it looks every 5 ms whether the session has ended; its timer fires after \<open>n\<close> looks.
\<close>

primrec waitFollowUpSnapshot ::
  "storeEnv \<Rightarrow> ManagedRequest \<Rightarrow> string \<Rightarrow> ToolResult list \<Rightarrow> nat \<Rightarrow> ManagedOutput ma" where
  "waitFollowUpSnapshot env request fp covering 0 = praise ErrSessionActive"
| "waitFollowUpSnapshot env request fp covering (Suc n) =
     pbnd (checkContext request) (\<lambda>_.
     pbnd (atomic (gets (\<lambda>s. map_of (mg_active s) (trimSpace (mr_SessionID request))))) (\<lambda>active.
     if active \<noteq> None then waitFollowUpSnapshot env request fp covering n
     else pbnd (lookupFollowUpReplay env fp (if covering = [] then mr_ActiveResults request else covering)
                  (mr_FollowUpText request)) (\<lambda>out. case out of
         None \<Rightarrow> praise ErrSessionNotPending
       | Some out \<Rightarrow> pbnd (checkContext request) (\<lambda>_. pret out))))"

definition followUpOptions :: "ManagedRequest \<Rightarrow> string \<Rightarrow> ClaimOptions" where
  "followUpOptions request billing = \<lparr>co_RuntimeProfile = rr_RuntimeProfile (mr_Run request),
     co_HistoryRequestKey = [], co_AllowPending = False, co_RequireExisting = True, co_AllowCredentialChange = False,
     co_ToolCatalogDigest = mr_ToolCatalogDigest request, co_ToolCatalog = rr_Tools (mr_Run request),
     co_RequireToolCatalog = (mr_ToolCatalogDigest request = []),
     co_NewBillingRunID = billing, co_ReuseBillingRun = mr_ReuseBillingRun request\<rparr>"

text \<open>What follows a successful claim.  Every early return releases the lease.\<close>

definition followUpClaimed ::
  "storeEnv \<Rightarrow> ManagedRequest \<Rightarrow> string \<Rightarrow> ToolResult list \<Rightarrow> ClaimResult \<Rightarrow> (ManagedOutput \<times> bool) ma" where
  "followUpClaimed env request fp covering claim =
     (let owner = cl_Owner claim; followUp = trimSpace (mr_FollowUpText request) in
      if st_PendingTools (cl_Snapshot claim) \<noteq> [] then releasing owner ErrSessionPending
      else pbnd (ptry (lookupFollowUpReplay env fp covering followUp)) (\<lambda>again. case again of
        Inl e \<Rightarrow> releasing owner e
      | Inr (Some out) \<Rightarrow> pbnd (errorOf (atomic (onStore (Release owner)))) (\<lambda>_. pret (out, False))
      | Inr None \<Rightarrow>
          (case applyCallerToolCatalog (request\<lparr>mr_Run := (mr_Run request)\<lparr>
               rr_RuntimeProfile := normalizeRuntimeProfile (st_RuntimeProfile (cl_Snapshot claim)),
               rr_ConversationID := ol_ConversationID owner\<rparr>\<rparr>) (st_ToolCatalog (cl_Snapshot claim)) False of
             Inl e \<Rightarrow> releasing owner e
           | Inr request1 \<Rightarrow>
               pbnd (ptry (checkContext request1)) (\<lambda>alive. case alive of Inl e \<Rightarrow> releasing owner e
               | Inr _ \<Rightarrow>
                 let owner1 = owner\<lparr>ol_RequestSegmentID := mr_RequestSegmentID request1\<rparr> in
                 pbnd (ptry (atomic (onStore (SaveUsageCarry env owner1 (mr_CarryUsage request1))))) (\<lambda>saved.
                 case saved of Inl e \<Rightarrow> releasing owner e
                 | Inr _ \<Rightarrow>
                   pbnd (startClaimed env ((mr_Run request1)\<lparr>rr_UserText := followUp, rr_FollowUpText := followUp,
                       rr_Resume := False, rr_InitialCheckpoint := st_Checkpoint (cl_Snapshot claim),
                       rr_InitialBlobs := st_Blobs (cl_Snapshot claim)\<rparr>)
                     owner1 [] [] covering
                     (completedBatchIDsFromResults covering) (mr_CarryUsage request1)
                     (mr_DisableCallerTools request1)) (\<lambda>out. pret (out, True)))))))"

text \<open>
  \<open>StartFollowUp\<close> under its reservation: \<open>None\<close> when another process holds the lease, after which the
  reservation is given up and the request waits for that process's answer.
\<close>

definition followUpReserved ::
  "storeEnv \<Rightarrow> ManagedRequest \<Rightarrow> string \<Rightarrow> string \<Rightarrow> ToolResult list \<Rightarrow> (ManagedOutput option \<times> bool) ma" where
  "followUpReserved env request fp sessionID covering =
     pbnd (lookupFollowUpReplay env fp covering (trimSpace (mr_FollowUpText request))) (\<lambda>out. case out of
       Some out \<Rightarrow> pret (Some out, False)
     | None \<Rightarrow>
         pbnd (conversationFor env (mr_Run request)) (\<lambda>conversationID.
         pbnd (billingIDForRequest env request) (\<lambda>billing.
         pbnd (ptry (claimAs env sessionID conversationID fp (followUpOptions request billing) startError)) (\<lambda>r.
         case r of
           Inl e \<Rightarrow> if errIs e ErrStateLeaseHeld then pret (None, False) else praise e
         | Inr claim \<Rightarrow> pbnd (followUpClaimed env request fp covering claim) (\<lambda>(out, started).
             pret (Some out, started))))))"

definition StartFollowUp ::
  "storeEnv \<Rightarrow> nat \<Rightarrow> ManagedRequest \<Rightarrow> ToolResult list option \<Rightarrow> ManagedOutput ma" where
  "StartFollowUp env polls request covering =
     (if refusesMetering request (mr_BillingRunID request) then praise meteringVersionError
      else pbnd (checkContext request) (\<lambda>_. case fingerprintOf env request of Inl e \<Rightarrow> praise e
      | Inr fp \<Rightarrow>
        let sessionID = trimSpace (mr_SessionID request);
            given = (case covering of None \<Rightarrow> [] | Some c \<Rightarrow> c);
            wait = waitFollowUpSnapshot env request fp;
            covered = (case covering of None \<Rightarrow> mr_ActiveResults request | Some c \<Rightarrow> c);
            reserved = pbnd (whileReserved sessionID (followUpReserved env request fp sessionID covered)) (\<lambda>out.
              case out of Some out \<Rightarrow> pret out | None \<Rightarrow> wait covered polls) in
        if trimSpace (mr_FollowUpText request) = []
        then praise (Errorf ''Cursor Agent v1 follow-up text is required'' [])
        else if sessionID = [] then praise ErrSessionNotPending
        else pbnd (atomic (reserve sessionID)) (\<lambda>first.
          if first then reserved
          else pbnd (ptry (wait given polls)) (\<lambda>w. case w of
            Inr out \<Rightarrow> pret out
          | Inl e \<Rightarrow> pbnd (atomic (gets (ctxErr (mr_Context request)))) (\<lambda>cancelled.
              if cancelled \<noteq> None then praise e
              else pbnd (atomic (reserve sessionID)) (\<lambda>second.
                if second then reserved else wait given polls))))))"

end
