(* ===== verification/ManagerSteps.thy ===== *)
theory ManagerSteps
  imports Manager
begin

text \<open>
  The session manager under concurrency: the invariant of its state, what never changes back, and that
  every critical section of the manager keeps both.
\<close>

section \<open>The invariant\<close>

definition outputOk :: "managedOutput \<Rightarrow> bool" where
  "outputOk c = (mo_received c \<le> length (mo_sent c)
     \<and> length (mo_sent c) - mo_received c \<le> mo_capacity c
     \<and> length (mo_result c) = (if mo_closed c then 1 else 0))"

definition sessionOk :: "managedSession \<Rightarrow> bool" where
  "sessionOk c = (distinct (map fst (ms_pending c)) \<and> (\<forall>(k, t) \<in> set (ms_pending c). pt_ToolCallID t = k)
     \<and> length (ms_toolResults c) \<le> maxPendingTools)"

text \<open>At most one session per identifier, and none that is being started as well.\<close>

definition tableOk :: "manager \<Rightarrow> bool" where
  "tableOk s = (distinct (map fst (mg_active s)) \<and> (\<forall>sid \<in> set (mg_starting s). sid \<notin> fst ` set (mg_active s))
     \<and> (\<forall>(sid, i) \<in> set (mg_active s). i < length (mg_sessions s) \<and> ol_SessionID (ms_owner (sessionAt i s)) = sid))"

text \<open>The output of a session is open and its own; a closed session has none.\<close>

definition attachedOk :: "manager \<Rightarrow> bool" where
  "attachedOk s = (\<forall>i < length (mg_sessions s). \<forall>o'. ms_output (sessionAt i s) = Some o' \<longrightarrow>
     o' < length (mg_outputs s) \<and> \<not> mo_closed (outputAt o' s) \<and> \<not> ms_closed (sessionAt i s)
     \<and> (\<forall>j < length (mg_sessions s). ms_output (sessionAt j s) = Some o' \<longrightarrow> j = i))"

text \<open>A flight that can be joined has not ended.\<close>

definition flightsOk :: "manager \<Rightarrow> bool" where
  "flightsOk s = (distinct (map fst (mg_flights s)) \<and> (\<forall>(k, f) \<in> set (mg_flights s).
     k \<noteq> [] \<and> f < length (mg_flightHeap s) \<and> rf_key (flightAt f s) = k \<and> \<not> rf_done (flightAt f s)))"

definition managerOk :: "manager \<Rightarrow> bool" where
  "managerOk s = (leasesOk (mg_store s) \<and> tableOk s \<and> attachedOk s \<and> flightsOk s
     \<and> (\<forall>c \<in> set (mg_outputs s). outputOk c) \<and> (\<forall>c \<in> set (mg_sessions s). sessionOk c))"

section \<open>What does not change back\<close>

definition sessionGrows :: "managedSession \<Rightarrow> managedSession \<Rightarrow> bool" where
  "sessionGrows c d = (ol_SessionID (ms_owner d) = ol_SessionID (ms_owner c)
     \<and> ol_CredentialHash (ms_owner d) = ol_CredentialHash (ms_owner c)
     \<and> ol_handle (ms_owner d) = ol_handle (ms_owner c) \<and> ms_request d = ms_request c
     \<and> (ms_closed c \<longrightarrow> ms_closed d) \<and> (ms_cancelled c \<longrightarrow> ms_cancelled d)
     \<and> (ms_stateErr c \<noteq> None \<longrightarrow> ms_stateErr d = ms_stateErr c))"

text \<open>A reader only ever sees more events, and none after the output has been closed.\<close>

definition outputGrows :: "managedOutput \<Rightarrow> managedOutput \<Rightarrow> bool" where
  "outputGrows c d = ((\<exists>more. mo_sent d = mo_sent c @ more) \<and> mo_received c \<le> mo_received d
     \<and> mo_capacity d = mo_capacity c
     \<and> (mo_closed c \<longrightarrow> mo_closed d \<and> mo_sent d = mo_sent c \<and> mo_result d = mo_result c))"

text \<open>The outcome of a flight is decided once.\<close>

definition flightGrows :: "resumeFlight \<Rightarrow> resumeFlight \<Rightarrow> bool" where
  "flightGrows c d = (rf_key d = rf_key c \<and> rf_digest d = rf_digest c \<and> (rf_done c \<longrightarrow> d = c))"

definition attached :: "nat \<Rightarrow> manager \<Rightarrow> bool" where
  "attached o' s = (\<exists>i < length (mg_sessions s). ms_output (sessionAt i s) = Some o')"

text \<open>The error of a context that has been cancelled stays.\<close>

definition contextsGrow :: "manager \<Rightarrow> manager \<Rightarrow> bool" where
  "contextsGrow s t = (\<forall>k e. map_of (mg_ctxErrs s) k = Some e \<longrightarrow> map_of (mg_ctxErrs t) k = Some e)"

definition grows :: "manager \<Rightarrow> manager \<Rightarrow> bool" where
  "grows s t =
     (length (mg_sessions s) \<le> length (mg_sessions t)
      \<and> (\<forall>i < length (mg_sessions s). sessionGrows (sessionAt i s) (sessionAt i t))
      \<and> length (mg_outputs s) \<le> length (mg_outputs t)
      \<and> (\<forall>o' < length (mg_outputs s). outputGrows (outputAt o' s) (outputAt o' t))
      \<and> (\<forall>j < length (mg_sessions t). \<forall>o' < length (mg_outputs s). ms_output (sessionAt j t) = Some o' \<longrightarrow>
           j < length (mg_sessions s) \<and> ms_output (sessionAt j s) = Some o')
      \<and> length (mg_flightHeap s) \<le> length (mg_flightHeap t)
      \<and> (\<forall>f < length (mg_flightHeap s). flightGrows (flightAt f s) (flightAt f t))
      \<and> contextsGrow s t)"

text \<open>An output is given to a session when it is made, never later.\<close>

definition evolves :: "manager \<Rightarrow> manager \<Rightarrow> bool" where
  "evolves s t = (managerOk s \<and> managerOk t \<and> grows s t)"

lemma sessionGrows_refl [simp]: "sessionGrows c c"
  by (simp add: sessionGrows_def)

lemma outputGrows_refl [simp]: "outputGrows c c"
  by (simp add: outputGrows_def)

lemma flightGrows_refl [simp]: "flightGrows c c"
  by (simp add: flightGrows_def)

lemma contextsGrow_same [simp]: "mg_ctxErrs t = mg_ctxErrs s \<Longrightarrow> contextsGrow s t"
  by (simp add: contextsGrow_def)

lemma contextsGrow_trans: "contextsGrow s t \<Longrightarrow> contextsGrow t u \<Longrightarrow> contextsGrow s u"
  by (simp add: contextsGrow_def)

lemma ctxErr_grows: "contextsGrow s t \<Longrightarrow> ctxErr c s = Some e \<Longrightarrow> ctxErr c t = Some e"
  by (simp add: contextsGrow_def ctxErr_def split: option.splits)

lemma grows_refl [simp]: "grows s s"
  by (simp add: grows_def)

lemma grows_trans:
  assumes "grows s t" "grows t u"
  shows "grows s u"
proof -
  have s: "sessionGrows c e" if "sessionGrows c d" "sessionGrows d e" for c d e
    using that by (auto simp: sessionGrows_def)
  have o': "outputGrows c e" if "outputGrows c d" "outputGrows d e" for c d e
    using that by (auto simp: outputGrows_def)
  have f: "flightGrows c e" if "flightGrows c d" "flightGrows d e" for c d e
    using that by (auto simp: flightGrows_def)
  show ?thesis
    using assms unfolding grows_def by (meson s o' f contextsGrow_trans order_trans order_less_le_trans)
qed

interpretation mgr: evolution managerOk evolves
  by unfold_locales (auto simp: evolves_def intro: grows_trans)

lemma evolvesI: "managerOk s \<Longrightarrow> managerOk t \<Longrightarrow> grows s t \<Longrightarrow> evolves s t"
  by (simp add: evolves_def)

lemma detached: "evolves s t \<Longrightarrow> o' < length (mg_outputs s) \<Longrightarrow> \<not> attached o' s \<Longrightarrow> \<not> attached o' t"
  unfolding evolves_def grows_def attached_def by meson

lemma managerOk_new: "leasesOk store \<Longrightarrow> managerOk (newSessionManager store)"
  by (simp add: managerOk_def newSessionManager_def tableOk_def attachedOk_def flightsOk_def)

section \<open>Steps\<close>

text \<open>A step that leaves everything but the store, the goroutines and the contexts alone.\<close>

lemma evolves_frame:
  assumes "managerOk s" "leasesOk (mg_store t)" "mg_active t = mg_active s" "mg_starting t = mg_starting s"
    "mg_flights t = mg_flights s" "mg_sessions t = mg_sessions s" "mg_outputs t = mg_outputs s"
    "mg_flightHeap t = mg_flightHeap s" "contextsGrow s t"
  shows "evolves s t"
proof -
  have at: "sessionAt i t = sessionAt i s" "outputAt i t = outputAt i s" "flightAt i t = flightAt i s" for i
    by (simp_all add: sessionAt_def outputAt_def flightAt_def assms(6,7,8))
  have "tableOk t = tableOk s" "attachedOk t = attachedOk s" "flightsOk t = flightsOk s"
    by (simp_all add: tableOk_def attachedOk_def flightsOk_def at assms(3-8))
  then have "managerOk t" using assms(1,2) by (simp add: managerOk_def assms(6,7))
  moreover have "grows s t" by (simp add: grows_def attached_def at assms(6,7,8,9))
  ultimately show ?thesis using assms(1) by (simp add: evolves_def)
qed

lemma onStore_evolves:
  assumes "managerOk s" "onStore m s = (r, s')" "\<And>w r w'. m w = (r, w') \<Longrightarrow> leasesOk w \<Longrightarrow> leasesOk w'"
  shows "evolves s s'"
proof -
  obtain x w where w: "m (mg_store s) = (x, w)" by fastforce
  then have "leasesOk w" using assms(1,3) by (simp add: managerOk_def)
  moreover have "s' = s\<lparr>mg_store := w\<rparr>" using assms(2) w by (simp add: onStore_def)
  ultimately show ?thesis using assms(1) by (intro evolves_frame) simp_all
qed

lemma sessionAt_upd [simp]:
  "sessionAt j (updSession i f s) = (if j = i \<and> i < length (mg_sessions s) then f (sessionAt i s) else sessionAt j s)"
  by (auto simp: sessionAt_def updSession_def nth_list_update list_update_beyond)

lemma updSession_fields [simp]:
  "mg_store (updSession i f s) = mg_store s" "mg_active (updSession i f s) = mg_active s"
  "mg_starting (updSession i f s) = mg_starting s" "mg_flights (updSession i f s) = mg_flights s"
  "length (mg_sessions (updSession i f s)) = length (mg_sessions s)" "mg_outputs (updSession i f s) = mg_outputs s"
  "mg_flightHeap (updSession i f s) = mg_flightHeap s" "outputAt o' (updSession i f s) = outputAt o' s"
  "flightAt k (updSession i f s) = flightAt k s" "mg_ctxErrs (updSession i f s) = mg_ctxErrs s"
  by (simp_all add: updSession_def outputAt_def flightAt_def)

lemma sessions_upd: "c \<in> set (mg_sessions (updSession i f s)) \<Longrightarrow>
    c \<in> set (mg_sessions s) \<or> (i < length (mg_sessions s) \<and> c = f (sessionAt i s))"
  by (cases "i < length (mg_sessions s)") (auto simp: updSession_def sessionAt_def in_set_conv_nth nth_list_update)

lemma updSession_out: "\<not> i < length (mg_sessions s) \<Longrightarrow> updSession i f s = s"
  by (cases s) (simp add: updSession_def list_update_beyond)

text \<open>A change of one session that does not attach an output.\<close>

lemma evolves_session:
  assumes ok: "managerOk s"
    and f: "sessionOk (sessionAt i s) \<Longrightarrow> sessionOk (f (sessionAt i s))" "sessionGrows (sessionAt i s) (f (sessionAt i s))"
    and out: "ms_output (f (sessionAt i s)) = None
      \<or> ms_output (f (sessionAt i s)) = ms_output (sessionAt i s) \<and> ms_closed (f (sessionAt i s)) = ms_closed (sessionAt i s)"
  shows "evolves s (updSession i f s)"
proof (cases "i < length (mg_sessions s)")
  case True
  then have here: "sessionAt i s \<in> set (mg_sessions s)" by (simp add: sessionAt_def)
  let ?t = "updSession i f s"
  have t: "tableOk ?t"
    using ok f(2) by (fastforce simp: managerOk_def tableOk_def sessionGrows_def split_beta)
  have before: "ms_output (sessionAt j ?t) = Some o' \<Longrightarrow>
      ms_output (sessionAt j s) = Some o' \<and> ms_closed (sessionAt j ?t) = ms_closed (sessionAt j s)" for j o'
    using out by (auto split: if_splits)
  have a: "attachedOk ?t"
    unfolding attachedOk_def
  proof (intro allI impI)
    fix j o'
    assume "j < length (mg_sessions ?t)" and o': "ms_output (sessionAt j ?t) = Some o'"
    then have j: "j < length (mg_sessions s)" by simp
    from ok have s: "attachedOk s" by (simp add: managerOk_def)
    show "o' < length (mg_outputs ?t) \<and> \<not> mo_closed (outputAt o' ?t) \<and> \<not> ms_closed (sessionAt j ?t)
        \<and> (\<forall>k < length (mg_sessions ?t). ms_output (sessionAt k ?t) = Some o' \<longrightarrow> k = j)"
      using s [unfolded attachedOk_def, rule_format, OF j, of o'] before [OF o'] before
      by (metis updSession_fields(5,6,8))
  qed
  have fl: "flightsOk (updSession i f s)" using ok by (simp add: managerOk_def flightsOk_def)
  have "\<forall>c \<in> set (mg_sessions (updSession i f s)). sessionOk c"
    using ok f(1) here by (auto simp: managerOk_def dest!: sessions_upd)
  with ok t a fl have "managerOk (updSession i f s)" by (simp add: managerOk_def)
  moreover have "grows s ?t"
    using f(2) before by (auto simp: grows_def simp del: sessionAt_upd) (simp_all add: sessionAt_upd)
  ultimately show ?thesis using ok by (simp add: evolves_def)
qed (use ok in \<open>simp add: updSession_out mgr.evolves_refl\<close>)

lemma outputAt_upd [simp]:
  "outputAt p (updOutput o' f s) = (if p = o' \<and> o' < length (mg_outputs s) then f (outputAt o' s) else outputAt p s)"
  by (auto simp: outputAt_def updOutput_def nth_list_update list_update_beyond)

lemma updOutput_fields [simp]:
  "mg_store (updOutput i f s) = mg_store s" "mg_active (updOutput i f s) = mg_active s"
  "mg_starting (updOutput i f s) = mg_starting s" "mg_flights (updOutput i f s) = mg_flights s"
  "length (mg_outputs (updOutput i f s)) = length (mg_outputs s)" "mg_sessions (updOutput i f s) = mg_sessions s"
  "mg_flightHeap (updOutput i f s) = mg_flightHeap s" "sessionAt j (updOutput i f s) = sessionAt j s"
  "mg_ctxErrs (updOutput i f s) = mg_ctxErrs s" "flightAt k (updOutput i f s) = flightAt k s" "attached p (updOutput i f s) = attached p s"
  by (simp_all add: updOutput_def sessionAt_def flightAt_def attached_def)

lemma outputs_upd: "c \<in> set (mg_outputs (updOutput i f s)) \<Longrightarrow>
    c \<in> set (mg_outputs s) \<or> (i < length (mg_outputs s) \<and> c = f (outputAt i s))"
  by (cases "i < length (mg_outputs s)") (auto simp: updOutput_def outputAt_def in_set_conv_nth nth_list_update)

lemma updOutput_out: "\<not> i < length (mg_outputs s) \<Longrightarrow> updOutput i f s = s"
  by (cases s) (simp add: updOutput_def list_update_beyond)

text \<open>A change of one output; only an output that is attached to no session may be closed.\<close>

lemma evolves_output:
  assumes ok: "managerOk s"
    and f: "outputOk (outputAt o' s) \<Longrightarrow> outputOk (f (outputAt o' s))" "outputGrows (outputAt o' s) (f (outputAt o' s))"
    and open': "mo_closed (f (outputAt o' s)) = mo_closed (outputAt o' s) \<or> \<not> attached o' s"
  shows "evolves s (updOutput o' f s)"
proof (cases "o' < length (mg_outputs s)")
  case True
  then have here: "outputAt o' s \<in> set (mg_outputs s)" by (simp add: outputAt_def)
  have t: "tableOk (updOutput o' f s)" "flightsOk (updOutput o' f s)"
    using ok by (simp_all add: managerOk_def tableOk_def flightsOk_def)
  have same: "mo_closed (outputAt p (updOutput o' f s)) = mo_closed (outputAt p s)" if "attached p s" for p
    using open' that by (cases "p = o'") simp_all
  have "attached p s" if "i < length (mg_sessions s)" "ms_output (sessionAt i s) = Some p" for i p
    using that by (auto simp: attached_def)
  moreover from ok have "attachedOk s" by (simp add: managerOk_def)
  ultimately have a: "attachedOk (updOutput o' f s)"
    unfolding attachedOk_def updOutput_fields using same by metis
  have "\<forall>c \<in> set (mg_outputs (updOutput o' f s)). outputOk c"
    using ok f(1) here by (auto simp: managerOk_def dest!: outputs_upd)
  with ok t a have "managerOk (updOutput o' f s)" by (simp add: managerOk_def)
  moreover have "grows s (updOutput o' f s)"
    using f(2) by (simp add: grows_def)
  ultimately show ?thesis using ok by (simp add: evolves_def)
qed (use ok in \<open>simp add: updOutput_out mgr.evolves_refl\<close>)

section \<open>Operations of the store\<close>

definition keepsLeases :: "'a st \<Rightarrow> bool" where
  "keepsLeases m = (\<forall>w r w'. m w = (r, w') \<longrightarrow> leasesOk w \<longrightarrow> leasesOk w')"

lemma keepsLeases_balanced: "balanced (\<lambda>_. True) m \<Longrightarrow> keepsLeases m"
  using balanced_leases by (fastforce simp: keepsLeases_def)

lemma keepsLeases_update: "(\<And>st. balanced (\<lambda>_. True) (f st)) \<Longrightarrow> keepsLeases (update env owner f)"
  by (rule keepsLeases_balanced, rule balanced_update) simp_all

lemma keepsLeases_saves:
  "keepsLeases (SaveCheckpoint env owner checkpoint blobs)" "keepsLeases (SavePending env owner pending)"
  "keepsLeases (SaveFollowUp env owner followUp)" "keepsLeases (SetBillingRunID env owner billing)"
  "keepsLeases (SaveUsageCarry env owner events)" "keepsLeases (SaveCompleted env owner results events eph followUp)"
  "keepsLeases (SaveHistory env owner key events)"
proof -
  show "keepsLeases (SaveCheckpoint env owner checkpoint blobs)"
    unfolding SaveCheckpoint_def by (rule keepsLeases_update) (intro balancing)
  show "keepsLeases (SavePending env owner pending)"
    by (rule keepsLeases_balanced) (intro balancing; simp)
  show "keepsLeases (SaveFollowUp env owner followUp)"
    unfolding SaveFollowUp_def by (rule keepsLeases_update) (intro balancing)
  show "keepsLeases (SetBillingRunID env owner billing)"
    unfolding SetBillingRunID_def Let_def by (rule keepsLeases_balanced) (intro balancing balanced_update; simp)
  show "keepsLeases (SaveUsageCarry env owner events)"
    unfolding SaveUsageCarry_def by (rule keepsLeases_update) (intro balancing)
  show "keepsLeases (SaveCompleted env owner results events eph followUp)"
    by (rule keepsLeases_balanced) (intro balancing; simp)
  show "keepsLeases (SaveHistory env owner key events)"
    by (rule keepsLeases_balanced) (intro balancing; simp)
qed

lemma keepsLeases_reads:
  "keepsLeases (LookupCompleted env fp results followUp)" "keepsLeases (LookupHistory env fp key)"
  "keepsLeases (OriginalPendingBatch env fp ids)" "keepsLeases (ResolvePending env fp ids)"
  "keepsLeases (Delete env owner)" "keepsLeases (DeleteSession env sid fp)" "keepsLeases (newUUID env)"
  by (rule keepsLeases_balanced, intro balancing; simp)+

lemma keepsLeases_Claim: "keepsLeases (Claim env sid cid fp opts)"
  using claim_leases by (fastforce simp: keepsLeases_def claimLeases_def)

lemma releaseHandle_held: "releaseHandle h w = (r, w') \<Longrightarrow>
    w_held w' = AList.delete h (w_held w) \<and> w_nextHandle w' = w_nextHandle w"
  by (auto simp: releaseHandle_def bnd_def gets_def ret_def raise_def modify_def wrapping_def attempt_def sys_def delete_absent
      split: prod.splits sum.splits if_splits list.splits option.splits)

lemma distinct_snd_delete: "distinct (map snd xs) \<Longrightarrow> distinct (map snd (AList.delete h xs))"
  by (simp add: AList.delete_eq distinct_map_filter)

lemma leasesOk_delete:
  assumes "leasesOk w" "w_held w' = AList.delete h (w_held w)" "w_nextHandle w' = w_nextHandle w"
  shows "leasesOk w'"
  using assms set_delete_subset [of h "w_held w"]
  by (auto simp: leasesOk_def AList.distinct_delete distinct_snd_delete)

lemma keepsLeases_Release: "keepsLeases (Release owner)"
  unfolding keepsLeases_def Release_def
  by (auto split: option.splits simp: ret_def dest: releaseHandle_held intro: leasesOk_delete)

lemmas keepsLeases_all = keepsLeases_saves keepsLeases_reads keepsLeases_Claim keepsLeases_Release

section \<open>Critical sections\<close>

text \<open>\<open>steps s m Q\<close>: run in \<open>s\<close> the critical section \<open>m\<close> evolves the state and establishes \<open>Q\<close>.\<close>

named_theorems stepping \<open>introduction rules for steps\<close>

definition steps :: "manager \<Rightarrow> 'a mg \<Rightarrow> ('a res \<Rightarrow> manager \<Rightarrow> bool) \<Rightarrow> bool" where
  "steps s m Q = (managerOk s \<longrightarrow> (\<forall>r s'. m s = (r, s') \<longrightarrow> evolves s s' \<and> Q r s'))"

lemma stepsI: "(\<And>r s'. managerOk s \<Longrightarrow> m s = (r, s') \<Longrightarrow> evolves s s' \<and> Q r s') \<Longrightarrow> steps s m Q"
  by (simp add: steps_def)

lemma steps_weaken: "steps s m Q \<Longrightarrow> (\<And>r t. evolves s t \<Longrightarrow> Q r t \<Longrightarrow> R r t) \<Longrightarrow> steps s m R"
  by (auto simp: steps_def)

lemma steps_True: "steps s m Q \<Longrightarrow> steps s m (\<lambda>_ _. True)"
  by (erule steps_weaken) simp

lemma steps_here [stepping]:
  "Q (Inr x) s \<Longrightarrow> steps s (ret x) Q" "Q (Inl e) s \<Longrightarrow> steps s (raise e) Q" "Q (Inr (g s)) s \<Longrightarrow> steps s (gets g) Q"
  by (auto simp: steps_def ret_def raise_def gets_def intro: mgr.evolves_refl)

lemma steps_modify: "(managerOk s \<Longrightarrow> evolves s (g s) \<and> Q (Inr ()) (g s)) \<Longrightarrow> steps s (modify g) Q"
  by (simp add: steps_def modify_def)

lemma steps_bnd:
  assumes "steps s m (\<lambda>r t. case r of Inl e \<Rightarrow> Q (Inl e) t | Inr x \<Rightarrow> steps t (f x) Q)"
  shows "steps s (bnd m f) Q"
proof (rule stepsI)
  fix r s'
  assume ok: "managerOk s" and run: "bnd m f s = (r, s')"
  obtain x t where m: "m s = (x, t)" by fastforce
  with assms ok have e: "evolves s t" and q: "case x of Inl e \<Rightarrow> Q (Inl e) t | Inr x \<Rightarrow> steps t (f x) Q"
    by (auto simp: steps_def)
  show "evolves s s' \<and> Q r s'"
  proof (cases x)
    case (Inr y)
    with run m have "f y t = (r, s')" by (simp add: bnd_def)
    with q Inr e have "evolves t s' \<and> Q r s'" by (simp add: steps_def evolves_def)
    with e show ?thesis by (blast intro: mgr.evolves_trans)
  qed (use run m e q in \<open>auto simp: bnd_def\<close>)
qed

lemma steps_if: "(b \<Longrightarrow> steps s m Q) \<Longrightarrow> (\<not> b \<Longrightarrow> steps s n Q) \<Longrightarrow> steps s (if b then m else n) Q"
  by simp

lemma steps_option:
  "(z = None \<Longrightarrow> steps s m Q) \<Longrightarrow> (\<And>x. z = Some x \<Longrightarrow> steps s (f x) Q) \<Longrightarrow>
     steps s (case z of None \<Rightarrow> m | Some x \<Rightarrow> f x) Q"
  by (simp split: option.split)

lemma steps_store: "keepsLeases m \<Longrightarrow> (\<And>r t. Q r t) \<Longrightarrow> steps s (onStore m) Q"
  by (rule stepsI) (auto simp: keepsLeases_def intro: onStore_evolves)

lemma steps_session:
  assumes "\<And>c. sessionOk c \<Longrightarrow> sessionOk (f c)" "\<And>c. sessionGrows c (f c)"
    "\<And>c. ms_output (f c) = ms_output c" "\<And>c. ms_closed (f c) = ms_closed c"
  shows "managerOk s \<Longrightarrow> evolves s (updSession i f s)"
  by (rule evolves_session) (simp_all add: assms)


subsection \<open>Outputs\<close>

lemma not_attached_new: "managerOk s \<Longrightarrow> \<not> o' < length (mg_outputs s) \<Longrightarrow> \<not> attached o' s"
  by (auto simp: managerOk_def attachedOk_def attached_def)

lemma evolves_append:
  assumes ok: "managerOk s" and c: "outputOk c" and t: "t = s\<lparr>mg_outputs := mg_outputs s @ [c]\<rparr>"
  shows "evolves s t" "\<not> attached (length (mg_outputs s)) t" "outputAt (length (mg_outputs s)) t = c"
proof -
  let ?n = "length (mg_outputs s)"
  have old: "outputAt p t = outputAt p s" if "p < ?n" for p
    using that by (simp add: t outputAt_def nth_append)
  have same: "sessionAt i t = sessionAt i s" "flightAt i t = flightAt i s" "attached p t = attached p s" for i p
    by (simp_all add: t sessionAt_def flightAt_def attached_def)
  have size: "length (mg_outputs t) = Suc ?n" "mg_sessions t = mg_sessions s" by (simp_all add: t)
  have "attachedOk s" using ok by (simp add: managerOk_def)
  then have "attachedOk t"
    unfolding attachedOk_def same size using old less_Suc_eq by metis
  moreover have "tableOk t" "flightsOk t"
    using ok by (simp_all add: managerOk_def tableOk_def flightsOk_def same) (simp_all add: t)
  ultimately have "managerOk t" using ok c by (simp add: managerOk_def t)
  moreover have "grows s t"
    using old by (simp add: grows_def same size) (simp add: t)
  ultimately show "evolves s t" using ok by (simp add: evolves_def)
  show "\<not> attached ?n t" using not_attached_new [OF ok, of ?n] by (simp add: same)
  show "outputAt ?n t = c" by (simp add: t outputAt_def)
qed

definition freshOutput :: "nat \<Rightarrow> managedOutput" where
  "freshOutput capacity = \<lparr>mo_sent = [], mo_received = 0, mo_capacity = capacity, mo_result = [], mo_closed = False\<rparr>"

lemma newOutput_out: "newOutput capacity s
    = (Inr (length (mg_outputs s)), s\<lparr>mg_outputs := mg_outputs s @ [freshOutput capacity]\<rparr>)"
  by (simp add: newOutput_def freshOutput_def)

lemma outputOk_fresh [simp]: "outputOk (freshOutput capacity)" "\<not> mo_closed (freshOutput capacity)"
  by (simp_all add: outputOk_def freshOutput_def)

lemma steps_closeOutput:
  assumes "\<not> attached o' s"
  shows "steps s (closeOutput o' e) (\<lambda>r t. mo_closed (outputAt o' t) \<or> \<not> o' < length (mg_outputs t))"
  unfolding closeOutput_def
proof (rule steps_modify, intro conjI)
  assume ok: "managerOk s"
  show "evolves s (updOutput o' (\<lambda>c. if mo_closed c then c else c\<lparr>mo_closed := True, mo_result := mo_result c @ [e]\<rparr>) s)"
    using ok assms by (intro evolves_output) (auto simp: outputOk_def outputGrows_def)
qed auto

lemma steps_sendOutput [stepping]: "(\<And>r t. Q r t) \<Longrightarrow> steps s (sendOutput o' event) Q"
  by (rule stepsI)
    (auto simp: sendOutput_def Let_def outputOk_def outputGrows_def split: if_splits
      intro!: evolves_output intro: mgr.evolves_refl)

text \<open>What a replay is made of: the events of the snapshot, with room for all of them, and the end.\<close>

definition replayOutput :: "storeEnv \<Rightarrow> Event list \<Rightarrow> managedOutput" where
  "replayOutput env events = (case snapshotAppendAll (se_body env) (se_rest env) newSnapshot events of
     Inl e \<Rightarrow> (freshOutput outputCapacity)\<lparr>mo_result := [Some e], mo_closed := True\<rparr>
   | Inr snapshot \<Rightarrow> (freshOutput (length (es_events snapshot)))\<lparr>mo_sent := es_events snapshot,
       mo_result := [None], mo_closed := True\<rparr>)"

lemma outputOk_replay [simp]: "outputOk (replayOutput env events)"
  by (simp add: replayOutput_def outputOk_def freshOutput_def split: sum.split)

lemma updOutput_last: "updOutput (length outs) f (s\<lparr>mg_outputs := outs @ [c]\<rparr>) = s\<lparr>mg_outputs := outs @ [f c]\<rparr>"
  by (simp add: updOutput_def outputAt_def)

lemma send_all:
  assumes "length (mo_sent c) + length es \<le> mo_capacity c" "mo_received c = 0" "\<not> mo_closed c"
  shows "forE es (\<lambda>event. bnd (sendOutput (length outs) event) (\<lambda>_. ret ())) (s\<lparr>mg_outputs := outs @ [c]\<rparr>)
    = (Inr (), s\<lparr>mg_outputs := outs @ [c\<lparr>mo_sent := mo_sent c @ es\<rparr>]\<rparr>)"
  using assms
proof (induction es arbitrary: c)
  case (Cons e es)
  then have "sendOutput (length outs) e (s\<lparr>mg_outputs := outs @ [c]\<rparr>)
      = (Inr outputSendOK, s\<lparr>mg_outputs := outs @ [c\<lparr>mo_sent := mo_sent c @ [e]\<rparr>]\<rparr>)"
    by (simp add: sendOutput_def Let_def updOutput_last) (simp add: outputAt_def)
  with Cons.IH [of "c\<lparr>mo_sent := mo_sent c @ [e]\<rparr>"] Cons.prems show ?case
    by (simp add: bnd_def ret_def)
qed (simp add: ret_def)

lemma newSnapshotOutput_out: "newSnapshotOutput env events s
    = (Inr (length (mg_outputs s)), s\<lparr>mg_outputs := mg_outputs s @ [replayOutput env events]\<rparr>)"
proof (cases "snapshotAppendAll (se_body env) (se_rest env) newSnapshot events")
  case (Inl e)
  then show ?thesis
    by (simp add: newSnapshotOutput_def newManagedOutput_def newOutput_out bnd_def closeOutput_def modify_def ret_def
        updOutput_last replayOutput_def) (simp add: freshOutput_def)
next
  case (Inr snapshot)
  then show ?thesis
    using send_all [of "freshOutput (length (es_events snapshot))" "es_events snapshot" "mg_outputs s" s]
    by (simp add: newSnapshotOutput_def newOutput_out bnd_def closeOutput_def modify_def ret_def
        updOutput_last replayOutput_def freshOutput_def)
qed

lemma steps_emitCompletedReplay [stepping]:
  assumes "\<And>out t. evolves s t \<Longrightarrow> outputAt (ou_output out) t = replayOutput env (rp_Events replay) \<Longrightarrow>
     ou_output out < length (mg_outputs t) \<Longrightarrow> ou_BillingRunID out = rp_BillingRunID replay \<Longrightarrow> Q (Inr out) t"
  shows "steps s (emitCompletedReplay env replay) Q"
proof (rule stepsI)
  fix r t
  assume ok: "managerOk s" and run: "emitCompletedReplay env replay s = (r, t)"
  let ?out = "(publicOutput (length (mg_outputs s)) (rp_SessionID replay) (rp_BillingRunID replay))\<lparr>
       ou_RequestSegmentID := rp_RequestSegmentID replay, ou_Replay := True,
       ou_ConversationID := rp_ConversationID replay, ou_OriginalBatch := rp_OriginalBatch replay,
       ou_HasPending := rp_HasPending replay, ou_FollowUpApplied := trimSpace (rp_FollowUpText replay) \<noteq> []\<rparr>"
  have out: "ou_output ?out = length (mg_outputs s)" "ou_BillingRunID ?out = rp_BillingRunID replay"
    by (simp_all add: publicOutput_def)
  have r: "r = Inr ?out" and t: "t = s\<lparr>mg_outputs := mg_outputs s @ [replayOutput env (rp_Events replay)]\<rparr>"
    using run by (simp_all add: emitCompletedReplay_def bnd_def newSnapshotOutput_out ret_def)
  note e = evolves_append [OF ok outputOk_replay t]
  have "Q (Inr ?out) t"
    by (rule assms) (use e out t in simp_all)
  with e r show "evolves s t \<and> Q r t" by simp
qed

subsection \<open>Reservations, the table and flights\<close>

lemma steps_reserve [stepping]: "(\<And>r t. Q r t) \<Longrightarrow> steps s (reserve sessionID) Q"
proof (rule stepsI)
  fix r t
  assume q: "\<And>r t. Q r t" and ok: "managerOk s" and run: "reserve sessionID s = (r, t)"
  let ?t = "s\<lparr>mg_starting := sessionID # mg_starting s\<rparr>"
  have at: "sessionAt i ?t = sessionAt i s" "outputAt i ?t = outputAt i s" "flightAt i ?t = flightAt i s" for i
    by (simp_all add: sessionAt_def outputAt_def flightAt_def)
  have "attachedOk ?t = attachedOk s" "flightsOk ?t = flightsOk s" "grows s ?t"
    by (simp_all add: attachedOk_def flightsOk_def grows_def attached_def at)
  moreover have "tableOk ?t" if "sessionID \<notin> fst ` set (mg_active s)"
    using ok that by (simp add: managerOk_def tableOk_def at)
  ultimately have "evolves s ?t" if "sessionID \<notin> fst ` set (mg_active s)"
    using ok that by (simp add: evolves_def managerOk_def)
  with run ok q show "evolves s t \<and> Q r t"
    by (auto simp: reserve_def split: if_splits intro: mgr.evolves_refl)
qed

lemma evolves_table:
  assumes "managerOk s" "set (mg_active t) \<subseteq> set (mg_active s)" "distinct (map fst (mg_active t))"
    "set (mg_starting t) \<subseteq> set (mg_starting s)"
    "t = s\<lparr>mg_active := mg_active t, mg_starting := mg_starting t\<rparr>"
  shows "evolves s t"
proof -
  have same: "mg_store t = mg_store s" "mg_flights t = mg_flights s" "mg_sessions t = mg_sessions s"
    "mg_outputs t = mg_outputs s" "mg_flightHeap t = mg_flightHeap s" "mg_ctxErrs t = mg_ctxErrs s"
    by (subst assms(5), simp)+
  have at: "sessionAt i t = sessionAt i s" "outputAt i t = outputAt i s" "flightAt i t = flightAt i s" for i
    by (simp_all add: sessionAt_def outputAt_def flightAt_def same)
  have "tableOk s" using assms(1) by (simp add: managerOk_def)
  with assms(2-4) have "tableOk t" unfolding tableOk_def at same by blast
  moreover have "attachedOk t = attachedOk s" "flightsOk t = flightsOk s"
    by (simp_all add: attachedOk_def flightsOk_def at same)
  ultimately show ?thesis
    using assms(1) by (simp add: evolves_def managerOk_def grows_def attached_def at same)
qed

lemma steps_releaseReservation [stepping]: "(\<And>r t. Q r t) \<Longrightarrow> steps s (releaseReservation sessionID) Q"
  unfolding releaseReservation_def
  by (rule steps_modify) (auto intro!: evolves_table simp: managerOk_def tableOk_def)

lemma steps_removeActive [stepping]: "(\<And>r t. Q r t) \<Longrightarrow> steps s (removeActive i) Q"
  unfolding removeActive_def Let_def
  by (rule steps_modify)
    (auto intro!: evolves_table mgr.evolves_refl simp: managerOk_def tableOk_def AList.distinct_delete
      dest: set_delete_subset [THEN subsetD])

lemma evolves_flights:
  assumes ok: "managerOk s" and t: "t = s\<lparr>mg_flights := mg_flights t, mg_flightHeap := mg_flightHeap t\<rparr>"
    and "flightsOk t" "length (mg_flightHeap s) \<le> length (mg_flightHeap t)"
    "\<And>f. f < length (mg_flightHeap s) \<Longrightarrow> flightGrows (flightAt f s) (flightAt f t)"
  shows "evolves s t"
proof -
  have same: "mg_store t = mg_store s" "mg_active t = mg_active s" "mg_starting t = mg_starting s"
    "mg_sessions t = mg_sessions s" "mg_outputs t = mg_outputs s" "mg_ctxErrs t = mg_ctxErrs s"
    by (subst t, simp)+
  have at: "sessionAt i t = sessionAt i s" "outputAt i t = outputAt i s" for i
    by (simp_all add: sessionAt_def outputAt_def same)
  have "tableOk t = tableOk s" "attachedOk t = attachedOk s"
    by (simp_all add: tableOk_def attachedOk_def at same)
  with assms(1,3-5) show ?thesis
    by (simp add: evolves_def managerOk_def grows_def attached_def at same)
qed

lemma resumeFlightKey_nonempty [simp]: "resumeFlightKey fp ids followUp \<noteq> []"
  by (simp add: resumeFlightKey_def NUL_def)

lemma steps_beginResumeFlight:
  "steps s (beginResumeFlight fp ids digest followUp) (\<lambda>r t. \<forall>f leader. r = Inr (f, leader) \<longrightarrow>
     f < length (mg_flightHeap t) \<and> rf_key (flightAt f t) = resumeFlightKey fp ids followUp
     \<and> rf_digest (flightAt f t) = digest)"
proof (rule stepsI)
  fix r t
  let ?k = "resumeFlightKey fp ids followUp"
  assume ok: "managerOk s" and run: "beginResumeFlight fp ids digest followUp s = (r, t)"
  then have fl: "flightsOk s" by (simp add: managerOk_def)
  show "evolves s t \<and> (\<forall>f leader. r = Inr (f, leader) \<longrightarrow> f < length (mg_flightHeap t)
     \<and> rf_key (flightAt f t) = ?k \<and> rf_digest (flightAt f t) = digest)"
  proof (cases "map_of (mg_flights s) ?k")
    case (Some f)
    then have "(?k, f) \<in> set (mg_flights s)" by (rule map_of_SomeD)
    with fl have "f < length (mg_flightHeap s) \<and> rf_key (flightAt f s) = ?k"
      unfolding flightsOk_def by (metis (mono_tags, lifting) case_prodD)
    with Some run ok show ?thesis
      by (auto simp: beginResumeFlight_def split: if_splits intro: mgr.evolves_refl)
  next
    case None
    let ?n = "length (mg_flightHeap s)"
    let ?new = "\<lparr>rf_key = ?k, rf_digest = digest, rf_done = False, rf_replay = None, rf_err = None\<rparr>"
    have r: "r = Inr (?n, True)" and t: "t = s\<lparr>mg_flights := AList.update ?k ?n (mg_flights s),
        mg_flightHeap := mg_flightHeap s @ [?new]\<rparr>"
      using run None by (simp_all add: beginResumeFlight_def Let_def)
    have old: "flightAt f t = flightAt f s" if "f < ?n" for f
      using that by (simp add: t flightAt_def nth_append)
    have new: "flightAt ?n t = ?new" by (simp add: t flightAt_def)
    have "flightsOk t"
      unfolding flightsOk_def
    proof (intro conjI ballI)
      show "distinct (map fst (mg_flights t))" using fl by (simp add: t flightsOk_def AList.distinct_update)
      fix e
      assume "e \<in> set (mg_flights t)"
      then have "e \<in> set (mg_flights s) \<or> e = (?k, ?n)"
        using set_update_subset [of ?k ?n "mg_flights s"] by (auto simp: t)
      then show "case e of (k, f) \<Rightarrow> k \<noteq> [] \<and> f < length (mg_flightHeap t) \<and> rf_key (flightAt f t) = k
          \<and> \<not> rf_done (flightAt f t)"
        using fl old new by (auto simp: flightsOk_def t)
    qed
    then have "evolves s t"
      by (intro evolves_flights [OF ok]) (simp_all add: t old [unfolded t])
    with r new show ?thesis by (simp add: t)
  qed
qed

lemma steps_endResumeFlight [stepping]:
  assumes "\<And>t. rf_done (flightAt f t) \<or> \<not> f < length (mg_flightHeap t) \<Longrightarrow> Q (Inr ()) t"
  shows "steps s (endResumeFlight fp ids f replay e) Q"
proof (rule stepsI)
  fix r u
  assume ok: "managerOk s" and run: "endResumeFlight fp ids f replay e s = (r, u)"
  define fl where "fl = flightAt f s"
  define key where "key = (if rf_key fl = [] then resumeFlightKey fp ids [] else rf_key fl)"
  define s1 where "s1 = (if map_of (mg_flights s) key = Some f then s\<lparr>mg_flights := AList.delete key (mg_flights s)\<rparr> else s)"
  define t where "t = (if rf_done fl then s1 else s1\<lparr>mg_flightHeap := (mg_flightHeap s1)[f := fl\<lparr>rf_done := True,
     rf_replay := (case replay of None \<Rightarrow> rf_replay fl | Some r \<Rightarrow> Some r), rf_err := e\<rparr>]\<rparr>)"
  have fs: "flightsOk s" using ok by (simp add: managerOk_def)
  have heap: "flightAt g t = flightAt g s" if "g \<noteq> f" for g
    using that by (simp add: t_def s1_def flightAt_def)
  have size: "length (mg_flightHeap t) = length (mg_flightHeap s)" by (simp add: t_def s1_def)
  have done_: "rf_done (flightAt f t)" if "f < length (mg_flightHeap s)"
    using that by (simp add: t_def s1_def fl_def flightAt_def)
  have table: "mg_flights t = (if map_of (mg_flights s) key = Some f then AList.delete key (mg_flights s) else mg_flights s)"
    by (simp add: t_def s1_def)
  have gone: "(k, f) \<notin> set (mg_flights t)" for k
  proof
    assume "(k, f) \<in> set (mg_flights t)"
    then have k: "(k, f) \<in> set (mg_flights s)"
      using set_delete_subset [of key "mg_flights s"] by (auto simp: table split: if_splits)
    with fs have "rf_key fl = k" "k \<noteq> []" by (auto simp: flightsOk_def fl_def)
    then have "key = k" by (simp add: key_def)
    with k fs have "map_of (mg_flights s) key = Some f" by (simp add: flightsOk_def)
    then have "mg_flights t = AList.delete k (mg_flights s)" using \<open>key = k\<close> by (simp add: table)
    with \<open>(k, f) \<in> set (mg_flights t)\<close> show False by (auto simp: AList.delete_eq)
  qed
  have "flightsOk t"
    unfolding flightsOk_def size
  proof (intro conjI ballI)
    show "distinct (map fst (mg_flights t))" using fs by (simp add: table flightsOk_def AList.distinct_delete)
    fix x
    assume x: "x \<in> set (mg_flights t)"
    then have "x \<in> set (mg_flights s)" "snd x \<noteq> f"
      using set_delete_subset [of key "mg_flights s"] gone [of "fst x"] by (auto simp: table split: if_splits)
    with fs heap show "case x of (k, g) \<Rightarrow> k \<noteq> [] \<and> g < length (mg_flightHeap s) \<and> rf_key (flightAt g t) = k
        \<and> \<not> rf_done (flightAt g t)"
      by (auto simp: flightsOk_def)
  qed
  moreover have "flightGrows (flightAt g s) (flightAt g t)" for g
    by (cases "g = f"; cases "f < length (mg_flightHeap s)")
      (auto simp: heap flightGrows_def t_def s1_def fl_def flightAt_def list_update_beyond)
  ultimately have "evolves s t"
    by (intro evolves_flights [OF ok]) (simp_all add: size, simp add: t_def s1_def)
  moreover have "Q (Inr ()) t"
    by (rule assms) (use done_ size in auto)
  moreover have "r = Inr () \<and> u = t"
    using run unfolding endResumeFlight_def modify_def Let_def t_def s1_def key_def fl_def by blast
  ultimately show "evolves s u \<and> Q r u" by simp
qed

subsection \<open>Sessions\<close>

text \<open>An output that has been taken from its session: only who took it closes it.\<close>

definition mine :: "nat \<Rightarrow> manager \<Rightarrow> bool" where
  "mine o' s = (o' < length (mg_outputs s) \<and> \<not> attached o' s)"

lemma mine_evolves: "mine o' s \<Longrightarrow> evolves s t \<Longrightarrow> mine o' t"
proof -
  assume m: "mine o' s" and e: "evolves s t"
  then have "length (mg_outputs s) \<le> length (mg_outputs t)" by (simp add: evolves_def grows_def)
  with m detached [OF e] show ?thesis unfolding mine_def by (meson order_less_le_trans)
qed

lemma attached_range: "managerOk s \<Longrightarrow> ms_output (sessionAt i s) = Some o' \<Longrightarrow> i < length (mg_sessions s) \<Longrightarrow>
    o' < length (mg_outputs s) \<and> (\<forall>j < length (mg_sessions s). ms_output (sessionAt j s) = Some o' \<longrightarrow> j = i)"
  unfolding managerOk_def attachedOk_def by blast

text \<open>A session gives its output up.\<close>

lemma mine_taken:
  assumes "managerOk s" "i < length (mg_sessions s)" "ms_output (sessionAt i s) = Some o'" "ms_output (f (sessionAt i s)) = None"
  shows "mine o' (updSession i f s)"
  using attached_range [OF assms(1,3,2)] assms(4) by (auto simp: mine_def attached_def split: if_splits)

lemma steps_failState [stepping]: "(\<And>r t. Q r t) \<Longrightarrow> steps s (failState i e) Q"
  unfolding failState_def
  by (rule steps_modify) (auto intro!: steps_session simp: sessionOk_def sessionGrows_def split: option.splits)

lemma steps_modifySession:
  assumes "\<And>c. sessionOk c \<Longrightarrow> sessionOk (f c)" "\<And>c. sessionGrows c (f c)"
    "\<And>c. ms_output (f c) = ms_output c" "\<And>c. ms_closed (f c) = ms_closed c" "\<And>r t. Q r t"
  shows "steps s (modify (updSession i f)) Q"
  by (rule steps_modify) (use assms in \<open>auto intro!: steps_session\<close>)

lemma steps_emitLocked [stepping]: "(\<And>r t. Q r t) \<Longrightarrow> steps s (emitLocked env i event) Q"
proof (rule stepsI)
  fix r t
  assume q: "\<And>r t. Q r t" and ok: "managerOk s" and run: "emitLocked env i event s = (r, t)"
  have one: "managerOk u \<Longrightarrow> evolves u (updSession i (\<lambda>c. c\<lparr>ms_segmentSnapshot := snapshot\<rparr>) u)" for u snapshot
    by (rule steps_session) (simp_all add: sessionOk_def sessionGrows_def)
  have two: "managerOk u \<Longrightarrow> evolves u (updSession i (\<lambda>c. c\<lparr>ms_terminalEvent := x\<rparr>) u)" for u x
    by (rule steps_session) (simp_all add: sessionOk_def sessionGrows_def)
  have "evolves s (updSession i (\<lambda>c. c\<lparr>ms_terminalEvent := x\<rparr>) (updSession i (\<lambda>c. c\<lparr>ms_segmentSnapshot := snapshot\<rparr>) s))"
    for x snapshot
    using one [OF ok] two by (meson evolves_def mgr.evolves_trans)
  with one [OF ok] q run ok show "evolves s t \<and> Q r t"
    by (auto simp: emitLocked_def Let_def intro: mgr.evolves_refl split: if_splits sum.splits)
qed

lemma steps_knownCall [stepping]: "(\<And>r t. Q r t) \<Longrightarrow> steps s (knownCall i upstream) Q"
  by (rule stepsI) (auto simp: knownCall_def Let_def intro: mgr.evolves_refl split: if_splits)

lemma sessionOk_update: "sessionOk c \<Longrightarrow> pt_ToolCallID tool = k \<Longrightarrow>
    sessionOk (c\<lparr>ms_pending := AList.update k tool (ms_pending c)\<rparr>)"
  using set_update_subset [of k tool "ms_pending c"] by (auto simp: sessionOk_def AList.distinct_update)

lemma sessionOk_delete: "sessionOk c \<Longrightarrow> sessionOk (c\<lparr>ms_pending := AList.delete k (ms_pending c)\<rparr>)"
  using set_delete_subset [of k "ms_pending c"] by (auto simp: sessionOk_def AList.distinct_delete)

lemma steps_addPending [stepping]: "(\<And>r t. Q r t) \<Longrightarrow> steps s (addPending i tool) Q"
proof (rule stepsI)
  fix r t
  assume q: "\<And>r t. Q r t" and ok: "managerOk s" and run: "addPending i tool s = (r, t)"
  have "evolves s (updSession i (\<lambda>c. c\<lparr>ms_pending := AList.update (pt_ToolCallID tool) tool (ms_pending c)\<rparr>) s)"
    by (rule steps_session [OF _ _ _ _ ok]) (simp_all add: sessionOk_update sessionGrows_def)
  with q run ok show "evolves s t \<and> Q r t"
    by (auto simp: addPending_def Let_def intro: mgr.evolves_refl split: if_splits)
qed

lemma steps_dropPending [stepping]: "(\<And>r t. Q r t) \<Longrightarrow> steps s (dropPending i upstream) Q"
proof (rule stepsI)
  fix r t
  assume q: "\<And>r t. Q r t" and ok: "managerOk s" and run: "dropPending i upstream s = (r, t)"
  let ?left = "AList.delete (publicToolCallIDForUpstream (ms_pending (sessionAt i s)) upstream) (ms_pending (sessionAt i s))"
  have "evolves s (updSession i (\<lambda>c. c\<lparr>ms_pending := ?left\<rparr>) s)"
    by (rule evolves_session [OF ok]) (simp_all add: sessionOk_delete sessionGrows_def)
  with q run show "evolves s t \<and> Q r t" by (auto simp: dropPending_def Let_def)
qed

lemma steps_takeFlight [stepping]: "(\<And>r t. Q r t) \<Longrightarrow> steps s (takeFlight i) Q"
proof (rule stepsI)
  fix r t
  assume q: "\<And>r t. Q r t" and ok: "managerOk s" and run: "takeFlight i s = (r, t)"
  have "evolves s (updSession i (\<lambda>c. c\<lparr>ms_flight := None, ms_flightFingerprint := [], ms_flightBatch := []\<rparr>) s)"
    by (rule steps_session [OF _ _ _ _ ok]) (simp_all add: sessionOk_def sessionGrows_def)
  with q run show "evolves s t \<and> Q r t" by (auto simp: takeFlight_def Let_def)
qed

lemma steps_closeSession:
  assumes "i < length (mg_sessions s)"
  shows "steps s (closeSession i) (\<lambda>r t. \<exists>c. r = Inr c \<and> (\<forall>o'. cs_output c = Some o' \<longrightarrow> mine o' t))"
proof (rule stepsI)
  fix r t
  assume ok: "managerOk s" and run: "closeSession i s = (r, t)"
  let ?f = "\<lambda>c. c\<lparr>ms_closed := True, ms_output := None, ms_segmentResults := [],
        ms_segmentSnapshot := newSnapshot, ms_segmentBatch := [], ms_capturing := False\<rparr>"
  from run have t: "t = updSession i ?f s" by (simp add: closeSession_def Let_def)
  have "evolves s t" unfolding t by (rule evolves_session [OF ok]) (simp_all add: sessionOk_def sessionGrows_def)
  moreover have "mine o' t" if "ms_output (sessionAt i s) = Some o'" for o'
    unfolding t by (rule mine_taken [OF ok assms that]) simp
  ultimately show "evolves s t \<and> (\<exists>c. r = Inr c \<and> (\<forall>o'. cs_output c = Some o' \<longrightarrow> mine o' t))"
    using run by (auto simp: closeSession_def Let_def)
qed

lemma steps_detach:
  assumes "i < length (mg_sessions s)" "o' < length (mg_outputs s)"
    "\<forall>j < length (mg_sessions s). ms_output (sessionAt j s) = Some o' \<longrightarrow> j = i"
  shows "steps s (detach i o') (\<lambda>r t. mine o' t)"
  unfolding detach_def
proof (rule steps_modify, intro conjI)
  let ?f = "\<lambda>c. if ms_output c = Some o' then c\<lparr>ms_output := None\<rparr> else c"
  assume ok: "managerOk s"
  show "evolves s (updSession i ?f s)"
    by (rule evolves_session [OF ok]) (simp_all add: sessionOk_def sessionGrows_def)
  show "mine o' (updSession i ?f s)"
  proof -
    have "ms_output (sessionAt j (updSession i ?f s)) \<noteq> Some o'" if j: "j < length (mg_sessions s)" for j
    proof (cases "j = i")
      case True
      with assms(1) show ?thesis by simp
    next
      case False
      with assms(3) j have "ms_output (sessionAt j s) \<noteq> Some o'" by blast
      with False show ?thesis by simp
    qed
    then show ?thesis using assms(2) by (simp add: mine_def attached_def del: sessionAt_upd)
  qed
qed

lemma steps_cancelSession:
  "steps s (cancelSession sessionID fp) (\<lambda>r t. \<forall>i out. r = Inr (Some (i, out)) \<longrightarrow>
     (\<forall>o'. out = Some o' \<longrightarrow> mine o' t))"
proof (rule stepsI)
  fix r t
  assume ok: "managerOk s" and run: "cancelSession sessionID fp s = (r, t)"
  let ?goal = "evolves s t \<and> (\<forall>i out. r = Inr (Some (i, out)) \<longrightarrow> (\<forall>o'. out = Some o' \<longrightarrow> mine o' t))"
  show ?goal
  proof (cases "\<exists>i. map_of (mg_active s) sessionID = Some i \<and> ol_CredentialHash (ms_owner (sessionAt i s)) = fp")
    case False
    then have "t = s" "\<forall>i out. r \<noteq> Inr (Some (i, out))"
      using run by (auto simp: cancelSession_def Let_def split: option.splits if_splits)
    then show ?thesis using ok by (simp add: mgr.evolves_refl)
  next
    case True
    then obtain i where i: "map_of (mg_active s) sessionID = Some i" "ol_CredentialHash (ms_owner (sessionAt i s)) = fp"
      by blast
    let ?f = "\<lambda>c. c\<lparr>ms_closed := True, ms_output := None\<rparr>"
    let ?u = "updSession i ?f s"
    from run i have t: "t = ?u\<lparr>mg_active := AList.delete sessionID (mg_active s)\<rparr>"
      and r: "r = Inr (Some (i, ms_output (sessionAt i s)))"
      by (auto simp: cancelSession_def Let_def)
    from i(1) have "(sessionID, i) \<in> set (mg_active s)" by (rule map_of_SomeD)
    with ok have range: "i < length (mg_sessions s)" by (auto simp: managerOk_def tableOk_def)
    have u: "evolves s ?u" by (rule evolves_session [OF ok]) (simp_all add: sessionOk_def sessionGrows_def)
    have "evolves ?u t"
      unfolding t
      by (rule evolves_table) (use u ok set_delete_subset [of sessionID "mg_active s"] in
        \<open>auto simp: evolves_def managerOk_def tableOk_def AList.distinct_delete\<close>)
    with u have "evolves s t" by (rule mgr.evolves_trans)
    moreover have "mine o' t" if "ms_output (sessionAt i s) = Some o'" for o'
      by (rule mine_evolves [OF mine_taken [OF ok range that] \<open>evolves ?u t\<close>]) simp
    ultimately show ?thesis using r by auto
  qed
qed

text \<open>A new session with an output of its own.\<close>

lemma evolves_newSession:
  assumes ok: "managerOk s" and o': "mine o' s" "\<not> mo_closed (outputAt o' s)"
    and c: "sessionOk c" "ms_output c = Some o'" "\<not> ms_closed c" "ol_SessionID (ms_owner c) = sid"
    and sid: "sid \<notin> fst ` set (mg_active s)"
    and t: "t = s\<lparr>mg_starting := removeAll sid (mg_starting s),
              mg_active := AList.update sid (length (mg_sessions s)) (mg_active s), mg_sessions := mg_sessions s @ [c]\<rparr>"
  shows "managerOk t"
proof -
  let ?n = "length (mg_sessions s)"
  have old: "sessionAt i t = sessionAt i s" if "i < ?n" for i
    using that by (simp add: t sessionAt_def nth_append)
  have new: "sessionAt ?n t = c" by (simp add: t sessionAt_def)
  have same: "mg_store t = mg_store s" "mg_flights t = mg_flights s" "mg_flightHeap t = mg_flightHeap s"
    "mg_outputs t = mg_outputs s" "length (mg_sessions t) = Suc ?n" "outputAt p t = outputAt p s" "flightAt k t = flightAt k s" for p k
    by (simp_all add: t outputAt_def flightAt_def)
  have s: "tableOk s" "attachedOk s" using ok by (simp_all add: managerOk_def)
  have "tableOk t"
    unfolding tableOk_def
  proof (intro conjI)
    show "distinct (map fst (mg_active t))" using s(1) by (simp add: t tableOk_def AList.distinct_update)
    show "\<forall>x \<in> set (mg_starting t). x \<notin> fst ` set (mg_active t)"
      using s(1) by (auto simp: t tableOk_def fst_set_update)
    show "\<forall>(x, i) \<in> set (mg_active t). i < length (mg_sessions t) \<and> ol_SessionID (ms_owner (sessionAt i t)) = x"
    proof
      fix x
      assume "x \<in> set (mg_active t)"
      then have "x \<in> set (mg_active s) \<or> x = (sid, ?n)"
        using set_update_subset [of sid ?n "mg_active s"] by (auto simp: t)
      then show "case x of (x, i) \<Rightarrow> i < length (mg_sessions t) \<and> ol_SessionID (ms_owner (sessionAt i t)) = x"
        using s(1) old new c(4) same by (auto simp: tableOk_def)
    qed
  qed
  moreover have "attachedOk t"
    unfolding attachedOk_def
  proof (intro allI impI)
    fix i p
    assume i: "i < length (mg_sessions t)" and p: "ms_output (sessionAt i t) = Some p"
    have notold: "ms_output (sessionAt j s) \<noteq> Some o'" if "j < ?n" for j
      using o'(1) that by (auto simp: mine_def attached_def)
    show "p < length (mg_outputs t) \<and> \<not> mo_closed (outputAt p t) \<and> \<not> ms_closed (sessionAt i t)
        \<and> (\<forall>j < length (mg_sessions t). ms_output (sessionAt j t) = Some p \<longrightarrow> j = i)"
    proof (cases "i = ?n")
      case True
      then have "p = o'" using p new c(2) by simp
      moreover have "j = ?n" if "j < Suc ?n" "ms_output (sessionAt j t) = Some o'" for j
        using that old notold by (metis less_Suc_eq)
      ultimately show ?thesis
        using True new c(3) o' same by (auto simp: mine_def)
    next
      case False
      then have i: "i < ?n" using i same by simp
      with p old have p': "ms_output (sessionAt i s) = Some p" by simp
      with notold i have "p \<noteq> o'" by blast
      with s(2) [unfolded attachedOk_def, rule_format, OF i p'] old [OF i] old new c(2) same show ?thesis
        by (metis less_Suc_eq option.inject)
    qed
  qed
  moreover have "flightsOk t" using ok by (simp add: managerOk_def flightsOk_def same)
  ultimately show ?thesis using ok c(1) by (simp add: managerOk_def same) (simp add: t)
qed

lemma steps_registerSession [stepping]:
  assumes c: "sessionOk c" "ms_output c = None" "\<not> ms_closed c" "ol_SessionID (ms_owner c) = sid"
    and q: "\<And>i o' t. i < length (mg_sessions t) \<Longrightarrow> Q (Inr (Some (i, o'))) t" "\<And>t. Q (Inr None) t"
  shows "steps s (registerSession sid c) Q"
proof (rule stepsI)
  fix r t
  assume ok: "managerOk s" and run: "registerSession sid c s = (r, t)"
  show "evolves s t \<and> Q r t"
  proof (cases "sid \<in> fst ` set (mg_active s)")
    case True
    with run q(2) ok show ?thesis by (auto simp: registerSession_def intro: mgr.evolves_refl)
  next
    case False
    let ?o = "length (mg_outputs s)"
    let ?u = "s\<lparr>mg_outputs := mg_outputs s @ [freshOutput outputCapacity]\<rparr>"
    let ?c = "c\<lparr>ms_output := Some ?o\<rparr>"
    have r: "r = Inr (Some (length (mg_sessions s), ?o))"
      and t: "t = ?u\<lparr>mg_starting := removeAll sid (mg_starting ?u),
          mg_active := AList.update sid (length (mg_sessions ?u)) (mg_active ?u), mg_sessions := mg_sessions ?u @ [?c]\<rparr>"
      using run False by (auto simp: registerSession_def newManagedOutput_def newOutput_out)
    note u = evolves_append [OF ok outputOk_fresh(1) [of outputCapacity] refl]
    have "managerOk t"
      by (rule evolves_newSession [OF _ _ _ _ _ _ _ _ t, of ?o])
        (use u c False in \<open>auto simp: evolves_def mine_def sessionOk_def\<close>)
    moreover have "grows s t"
    proof -
      have "sessionAt i t = sessionAt i s" if "i < length (mg_sessions s)" for i
        using that by (simp add: t sessionAt_def nth_append)
      moreover have "outputAt p t = outputAt p s" if "p < ?o" for p
        using that by (simp add: t outputAt_def nth_append)
      moreover have "ms_output (sessionAt (length (mg_sessions s)) t) = Some ?o" by (simp add: t sessionAt_def)
      moreover have "flightAt f t = flightAt f s" for f by (simp add: t flightAt_def)
      moreover have "length (mg_sessions t) = Suc (length (mg_sessions s))" "length (mg_outputs t) = Suc ?o"
        "mg_flightHeap t = mg_flightHeap s" "contextsGrow s t" by (simp_all add: t)
      ultimately show ?thesis by (auto simp: grows_def less_Suc_eq)
    qed
    ultimately show ?thesis
      using ok r q(1) [of "length (mg_sessions s)" t ?o] by (simp add: evolves_def t)
  qed
qed

lemma steps_resumeCheck [stepping]: "(\<And>r t. Q r t) \<Longrightarrow> steps s (resumeCheck i results) Q"
  by (rule stepsI) (auto simp: resumeCheck_def Let_def intro: mgr.evolves_refl split: if_splits option.splits)

lemma evolves_attach:
  assumes ok: "managerOk s" and i: "i < length (mg_sessions s)" "ms_output (sessionAt i s) = None" "\<not> ms_closed (sessionAt i s)"
    and o': "mine o' s" "\<not> mo_closed (outputAt o' s)"
    and f: "sessionOk (sessionAt i s) \<Longrightarrow> sessionOk (f (sessionAt i s))" "sessionGrows (sessionAt i s) (f (sessionAt i s))"
      "ms_output (f (sessionAt i s)) = Some o'" "\<not> ms_closed (f (sessionAt i s))"
  shows "managerOk (updSession i f s)"
proof -
  let ?t = "updSession i f s"
  have notold: "ms_output (sessionAt j s) \<noteq> Some o'" if "j < length (mg_sessions s)" for j
    using o'(1) that by (auto simp: mine_def attached_def)
  have s: "attachedOk s" using ok by (simp add: managerOk_def)
  have "attachedOk ?t"
    unfolding attachedOk_def updSession_fields
  proof (intro allI impI)
    fix j p
    assume j: "j < length (mg_sessions s)" and p: "ms_output (sessionAt j ?t) = Some p"
    show "p < length (mg_outputs s) \<and> \<not> mo_closed (outputAt p s) \<and> \<not> ms_closed (sessionAt j ?t)
        \<and> (\<forall>k < length (mg_sessions s). ms_output (sessionAt k ?t) = Some p \<longrightarrow> k = j)"
    proof (cases "j = i")
      case True
      then have "p = o'" using p f(3) i(1) by simp
      with True notold f(4) o' i(1) show ?thesis by (auto simp: mine_def)
    next
      case False
      then have p': "ms_output (sessionAt j s) = Some p" using p by simp
      with notold j have "p \<noteq> o'" by blast
      with s [unfolded attachedOk_def, rule_format, OF j p'] False f(3) i(1) show ?thesis
        by (metis option.inject sessionAt_upd)
    qed
  qed
  moreover have "tableOk ?t"
    using ok f(2) i(1) by (fastforce simp: managerOk_def tableOk_def sessionGrows_def split_beta)
  moreover have "flightsOk ?t" using ok by (simp add: managerOk_def flightsOk_def)
  moreover have "\<forall>c \<in> set (mg_sessions ?t). sessionOk c"
    using ok f(1) i(1) by (auto simp: managerOk_def sessionAt_def dest!: sessions_upd)
  ultimately show ?thesis using ok by (simp add: managerOk_def)
qed

lemma steps_resumeCommit:
  assumes i: "i < length (mg_sessions s)"
  shows "steps s (resumeCommit i filtered results batch segment req seg disable) (\<lambda>r t. \<forall>x. r = Inr x \<longrightarrow>
     re_output x < length (mg_outputs t)
     \<and> (\<forall>j < length (mg_sessions t). ms_output (sessionAt j t) = Some (re_output x) \<longrightarrow> j = i))"
    (is "steps s ?m ?Q")
proof (rule stepsI)
  fix r t
  assume ok: "managerOk s" and run: "?m s = (r, t)"
  let ?o = "length (mg_outputs s)"
  let ?u = "s\<lparr>mg_outputs := mg_outputs s @ [freshOutput outputCapacity]\<rparr>"
  show "evolves s t \<and> ?Q r t"
  proof (cases "ms_closed (sessionAt i s) \<or> ms_output (sessionAt i s) \<noteq> None")
    case True
    with run ok show ?thesis by (auto simp: resumeCommit_def intro: mgr.evolves_refl)
  next
    case False
    from run False obtain x f where r: "r = Inr x" "re_output x = ?o" and t: "t = updSession i f ?u"
      and f: "\<And>c. ms_pending (f c) = ms_pending c" "\<And>c. ms_toolResults (f c) = ms_toolResults c"
        "sessionGrows (sessionAt i s) (f (sessionAt i s))" "\<And>c. ms_output (f c) = Some ?o"
        "\<And>c. ms_closed (f c) = ms_closed c"
      by (auto simp: resumeCommit_def Let_def newManagedOutput_def newOutput_out sessionGrows_def)
    note u = evolves_append [OF ok outputOk_fresh(1) [of outputCapacity] refl]
    have same: "sessionAt j ?u = sessionAt j s" for j by (simp add: sessionAt_def)
    have "managerOk t"
      unfolding t
      by (rule evolves_attach [of _ _ ?o])
        (use u i False f in \<open>auto simp: evolves_def mine_def same sessionOk_def\<close>)
    moreover have range: "length (mg_outputs t) = Suc ?o" "length (mg_sessions t) = length (mg_sessions s)"
      by (simp_all add: t)
    moreover have "grows s t"
    proof -
      have "outputAt p t = outputAt p s" if "p < ?o" for p
        using that by (simp add: t outputAt_def updSession_def nth_append)
      moreover have "sessionGrows (sessionAt j s) (sessionAt j t)" for j
        using f(3) i by (simp add: t same)
      moreover have "ms_output (sessionAt j s) = Some p" if "ms_output (sessionAt j t) = Some p" "p < ?o" for j p
        using that f(4) i by (auto simp: t same split: if_splits)
      moreover have "flightAt k t = flightAt k s" "mg_flightHeap t = mg_flightHeap s" "contextsGrow s t" for k
        by (simp_all add: t flightAt_def updSession_def)
      ultimately show ?thesis using range by (auto simp: grows_def)
    qed
    moreover have "\<forall>j < length (mg_sessions t). ms_output (sessionAt j t) = Some ?o \<longrightarrow> j = i"
      using not_attached_new [OF ok, of ?o] range(2) by (auto simp: t same attached_def split: if_splits)
    ultimately show ?thesis using ok r by (simp add: evolves_def)
  qed
qed

lemma sessionOk_push: "sessionOk c \<Longrightarrow> length (ms_toolResults c) < maxPendingTools \<Longrightarrow>
    sessionOk (c\<lparr>ms_toolResults := ms_toolResults c @ [x]\<rparr>)"
  by (simp add: sessionOk_def)

lemma steps_pushResult [stepping]: "(\<And>r t. Q r t) \<Longrightarrow> steps s (pushResult i result) Q"
proof (rule stepsI)
  fix r t
  assume q: "\<And>r t. Q r t" and ok: "managerOk s" and run: "pushResult i result s = (r, t)"
  have "evolves s (updSession i (\<lambda>c. c\<lparr>ms_toolResults := ms_toolResults c @ [result]\<rparr>) s)"
    if "length (ms_toolResults (sessionAt i s)) < maxPendingTools"
    by (rule evolves_session [OF ok]) (use that in \<open>simp_all add: sessionOk_push sessionGrows_def\<close>)
  with q run ok show "evolves s t \<and> Q r t"
    by (auto simp: pushResult_def Let_def intro: mgr.evolves_refl split: if_splits)
qed

lemma steps_onStore_then:
  assumes "keepsLeases m" "\<And>t r. evolves s t \<Longrightarrow> mg_sessions t = mg_sessions s \<Longrightarrow> mg_active t = mg_active s \<Longrightarrow> Q r t"
  shows "steps s (onStore m) Q"
proof (rule stepsI)
  fix r t
  assume ok: "managerOk s" and run: "onStore m s = (r, t)"
  then have "evolves s t" by (rule onStore_evolves) (use assms(1) in \<open>simp add: keepsLeases_def\<close>)
  moreover have "mg_sessions t = mg_sessions s" "mg_active t = mg_active s"
    using run by (auto simp: onStore_def split: prod.splits)
  ultimately show "evolves s t \<and> Q r t" using assms(2) by blast
qed

lemma steps_parkSession:
  "steps s (parkSession env sessionID fp) (\<lambda>r t. \<forall>p. r = Inr p \<longrightarrow> mine (pk_output p) t)"
  (is "steps s _ ?Q")
proof (cases "map_of (mg_active s) sessionID")
  case None
  then show ?thesis unfolding parkSession_def by (auto intro!: steps_bnd stepping)
next
  case (Some i)
  define c where "c = sessionAt i s"
  let ?f = "\<lambda>c. c\<lparr>ms_segmentResults := [], ms_segmentSnapshot := newSnapshot, ms_segmentBatch := [],
         ms_capturing := False, ms_pendingBatch := pendingToolIDs (pendingValues (ms_pending c)), ms_output := None\<rparr>"
  have last: "steps t (bnd (modify (updSession i ?f)) (\<lambda>_. ret p)) ?Q"
    if "ms_output c = Some (pk_output p)" "mg_sessions t = mg_sessions s" "mg_active t = mg_active s" for p t
  proof (rule steps_bnd, rule steps_modify, intro conjI)
    assume ok: "managerOk t"
    have here: "sessionAt i t = c" using that(2) by (simp add: c_def sessionAt_def)
    have "(sessionID, i) \<in> set (mg_active t)" using map_of_SomeD [OF Some] that(3) by simp
    with ok have range: "i < length (mg_sessions t)" by (auto simp: managerOk_def tableOk_def)
    show "evolves t (updSession i ?f t)"
      by (rule evolves_session [OF ok]) (simp_all add: sessionOk_def sessionGrows_def)
    have "mine (pk_output p) (updSession i ?f t)"
      by (rule mine_taken [OF ok range]) (use here that(1) in simp_all)
    then show "case Inr () of Inl e \<Rightarrow> ?Q (Inl e) (updSession i ?f t)
        | Inr x \<Rightarrow> steps (updSession i ?f t) (ret p) ?Q"
      by (simp add: steps_here)
  qed
  have saved: "steps t (bnd (onStore (SavePending env (ms_owner c) (pendingValues (ms_pending c)))) (\<lambda>_. m)) ?Q"
    if "\<And>u. mg_sessions u = mg_sessions s \<Longrightarrow> mg_active u = mg_active s \<Longrightarrow> steps u m ?Q"
      "mg_sessions t = mg_sessions s" "mg_active t = mg_active s" for t m
    by (rule steps_bnd, rule steps_onStore_then [OF keepsLeases_saves(2)])
      (use that in \<open>auto split: sum.split\<close>)
  have both: "steps s (bnd (if b then onStore (SaveFollowUp env (ms_owner c) followUp) else ret ())
      (\<lambda>_. bnd (onStore (SavePending env (ms_owner c) (pendingValues (ms_pending c)))) (\<lambda>_. m))) ?Q"
    if "\<And>u. mg_sessions u = mg_sessions s \<Longrightarrow> mg_active u = mg_active s \<Longrightarrow> steps u m ?Q" for b followUp m
  proof (cases b)
    case True
    then show ?thesis
      by (simp only: if_True, intro steps_bnd steps_onStore_then [OF keepsLeases_saves(3)])
        (use that saved in \<open>auto split: sum.split\<close>)
  next
    case False
    then show ?thesis using that saved by (auto intro!: steps_bnd steps_here)
  qed
  show ?thesis
    unfolding parkSession_def Let_def
    by (rule steps_bnd, rule steps_here, simp only: Some sum.case option.case, rule steps_bnd, rule steps_here,
        simp only: sum.case c_def [symmetric], intro steps_if steps_option steps_here both last) simp_all
qed

lemma steps_waitedFlight:
  assumes "\<And>e t. evolves s t \<Longrightarrow> rf_done (flightAt f s) \<Longrightarrow> rf_err (flightAt f s) = Some e \<Longrightarrow> Q (Inl e) t"
    "\<And>e t. evolves s t \<Longrightarrow> ctxErr ctx s = Some e \<Longrightarrow> Q (Inl e) t"
    "\<And>t. evolves s t \<Longrightarrow> rf_done (flightAt f s) \<Longrightarrow> rf_err (flightAt f s) = None \<Longrightarrow> rf_replay (flightAt f s) = None \<Longrightarrow>
       Q (Inl ErrSessionNotPending) t"
    "\<And>t. evolves s t \<Longrightarrow> Q (Inr None) t"
    "\<And>replay out t. evolves s t \<Longrightarrow> rf_done (flightAt f s) \<Longrightarrow> rf_err (flightAt f s) = None \<Longrightarrow>
       rf_replay (flightAt f s) = Some replay \<Longrightarrow> outputAt (ou_output out) t = replayOutput env (rp_Events replay) \<Longrightarrow>
       ou_BillingRunID out = rp_BillingRunID replay \<Longrightarrow> ou_output out < length (mg_outputs t) \<Longrightarrow> Q (Inr (Some out)) t"
  shows "steps s (waitedFlight env ctxFirst ctx f) Q"
proof (rule stepsI)
  fix r t
  assume ok: "managerOk s" and run: "waitedFlight env ctxFirst ctx f s = (r, t)"
  note refl = mgr.evolves_refl [OF ok]
  show "evolves s t \<and> Q r t"
  proof (cases "rf_done (flightAt f s) \<and> rf_err (flightAt f s) = None \<and> ctxErr ctx s = None
      \<and> rf_replay (flightAt f s) \<noteq> None")
    case True
    then obtain replay where replay: "rf_replay (flightAt f s) = Some replay" by blast
    have "steps s (bnd (emitCompletedReplay env replay) (\<lambda>out. ret (Some out))) Q"
      by (rule steps_bnd, rule steps_emitCompletedReplay) (use True replay assms(5) in \<open>auto intro!: steps_here\<close>)
    moreover have "bnd (emitCompletedReplay env replay) (\<lambda>out. ret (Some out)) s = (r, t)"
      using run True replay by (simp add: waitedFlight_def bnd_def gets_def)
    ultimately show ?thesis using ok by (simp add: steps_def)
  next
    case False
    with run have "s = t \<and> ((r = Inr None) \<or> (\<exists>e. r = Inl e \<and> (ctxErr ctx s = Some e
        \<or> rf_done (flightAt f s) \<and> rf_err (flightAt f s) = Some e
        \<or> rf_done (flightAt f s) \<and> rf_err (flightAt f s) = None \<and> rf_replay (flightAt f s) = None \<and> e = ErrSessionNotPending)))"
      by (auto simp: waitedFlight_def bnd_def gets_def ret_def raise_def split: option.splits bool.splits if_splits)
    with refl assms show ?thesis by blast
  qed
qed


end
