(* ===== verification/ManagerSafety.thy ===== *)
theory ManagerSafety
  imports ManagerSteps
begin

text \<open>
  Every step of every method of the session manager keeps its invariant, however the methods interleave.
\<close>

section \<open>Processes\<close>

text \<open>\<open>safely s p\<close>: from \<open>s\<close> on, under any interference, the process only makes steps that evolve the state.\<close>

named_theorems safe \<open>introduction rules for safely\<close>

definition safely :: "manager \<Rightarrow> (manager, 'a) proc \<Rightarrow> bool" where
  "safely s p = oks evolves s p (\<lambda>_ _. True)"

lemma safely_weaken: "oks evolves s p Q \<Longrightarrow> safely s p"
  unfolding safely_def by (erule mgr.oks_weaken) simp

lemma safely_evolved: "safely s p \<Longrightarrow> evolves s t \<Longrightarrow> safely t p"
  unfolding safely_def by (rule mgr.oks_evolved)

lemma safely_done [safe]: "safely s (pret x)" "safely s (praise e)" "safely s (Done r)" "safely s Halt"
  by (simp_all add: safely_def pret_def praise_def oks_simps)

lemma oks_bound: "oks evolves s p (\<lambda>r t. safely t (k r)) \<Longrightarrow> safely s (pbind p k)"
  unfolding safely_def by (rule mgr.oks_bind)

lemma safely_pbind [safe]:
  assumes "safely s m" "\<And>r t. evolves s t \<Longrightarrow> safely t (k r)"
  shows "safely s (pbind m k)"
  by (rule oks_bound, rule mgr.oks_weaken [OF assms(1) [unfolded safely_def]]) (rule assms(2))

lemma safely_pbnd [safe]:
  assumes "safely s m" "\<And>x t. evolves s t \<Longrightarrow> safely t (f x)"
  shows "safely s (pbnd m f)"
  unfolding pbnd_def using assms by (intro safely_pbind) (auto intro: safely_done split: sum.split)

lemma safely_ptry [safe]: "safely s m \<Longrightarrow> safely s (ptry m)"
  unfolding ptry_def by (intro safely_pbind safely_done)

lemma safely_errorOf [safe]: "safely s m \<Longrightarrow> safely s (errorOf m)"
  unfolding errorOf_def by (intro safe) (auto intro: safe split: sum.split)

lemma safely_if [safe]: "(b \<Longrightarrow> safely s p) \<Longrightarrow> (\<not> b \<Longrightarrow> safely s q) \<Longrightarrow> safely s (if b then p else q)"
  by simp

lemma safely_option [safe]:
  "(z = None \<Longrightarrow> safely s p) \<Longrightarrow> (\<And>x. z = Some x \<Longrightarrow> safely s (f x)) \<Longrightarrow>
     safely s (case z of None \<Rightarrow> p | Some x \<Rightarrow> f x)"
  by (simp split: option.split)

lemma safely_sum [safe]:
  "(\<And>e. z = Inl e \<Longrightarrow> safely s (f e)) \<Longrightarrow> (\<And>x. z = Inr x \<Longrightarrow> safely s (g x)) \<Longrightarrow>
     safely s (case z of Inl e \<Rightarrow> f e | Inr x \<Rightarrow> g x)"
  by (simp split: sum.split)

lemma safely_prod [safe]:
  "(\<And>x y. z = (x, y) \<Longrightarrow> safely s (f x y)) \<Longrightarrow> safely s (case z of (x, y) \<Rightarrow> f x y)"
  by (simp split: prod.split)

lemma oks_atomic_steps:
  assumes "\<And>t. evolves s t \<Longrightarrow> steps t m Q" "\<And>r t u. Q r t \<Longrightarrow> evolves t u \<Longrightarrow> Q r u"
  shows "oks evolves s (atomic m) Q"
proof (rule mgr.oks_atomic)
  fix t r t'
  assume e: "evolves s t" and run: "m t = (r, t')"
  have "managerOk t" using e by (simp add: evolves_def)
  with assms(1) [OF e] run have "evolves t t' \<and> Q r t'" by (simp add: steps_def)
  with assms(2) show "evolves t t' \<and> (\<forall>u. evolves t' u \<longrightarrow> Q r u)" by blast
qed

lemma safely_atomic: "(\<And>t. evolves s t \<Longrightarrow> steps t m (\<lambda>_ _. True)) \<Longrightarrow> safely s (atomic m)"
  unfolding safely_def by (rule oks_atomic_steps)

text \<open>What a critical section has established is known after it, as far as nothing takes it back.\<close>

lemma safely_atomic_then:
  assumes "\<And>t. evolves s t \<Longrightarrow> steps t m (\<lambda>r u. \<forall>x. r = Inr x \<longrightarrow> P x u)"
    "\<And>x t u. P x t \<Longrightarrow> evolves t u \<Longrightarrow> P x u" "\<And>x t. evolves s t \<Longrightarrow> P x t \<Longrightarrow> safely t (f x)"
  shows "safely s (pbnd (atomic m) f)"
  unfolding pbnd_def
proof (rule oks_bound, rule mgr.oks_weaken)
  show "oks evolves s (atomic m) (\<lambda>r u. \<forall>x. r = Inr x \<longrightarrow> P x u)"
    by (rule oks_atomic_steps) (use assms(1,2) in blast)+
qed (use assms(3) in \<open>auto intro: safely_done split: sum.split\<close>)

lemma safely_pfor [safe]: "(\<And>x t. x \<in> set xs \<Longrightarrow> evolves s t \<Longrightarrow> safely t (f x)) \<Longrightarrow> safely s (pfor xs f)"
proof (induction xs arbitrary: s)
  case (Cons x xs)
  show ?case
  proof (cases "managerOk s")
    case True
    have "safely s (f x)" using Cons.prems [of x s] True by (simp add: mgr.evolves_refl)
    moreover have "safely t (pfor xs f)" if e: "evolves s t" for t
    proof (rule Cons.IH)
      fix y u
      assume "y \<in> set xs" "evolves t u"
      with e show "safely u (f y)" by (intro Cons.prems) (auto intro: mgr.evolves_trans)
    qed
    ultimately show ?thesis by (simp add: safely_pbnd)
  next
    case False
    then show ?thesis unfolding safely_def by (rule mgr.oks_unsound)
  qed
qed (simp add: safely_done)

lemma safely_orFail [safe]: "safely s m \<Longrightarrow> (\<And>x t. evolves s t \<Longrightarrow> safely t (f x)) \<Longrightarrow> safely s (orFail i m f)"
  unfolding orFail_def by (intro safe safely_atomic stepping) simp_all

lemma safely_store [safe]: "keepsLeases m \<Longrightarrow> safely s (atomic (onStore m))"
  by (intro safely_atomic steps_store) simp_all

lemma safely_gets [safe]: "safely s (atomic (gets g))"
  by (intro safe safely_atomic stepping) simp

lemma safely_modifySession:
  assumes "\<And>c. sessionOk c \<Longrightarrow> sessionOk (f c)" "\<And>c. sessionGrows c (f c)"
    "\<And>c. ms_output (f c) = ms_output c" "\<And>c. ms_closed (f c) = ms_closed c"
  shows "safely s (atomic (modify (updSession i f)))"
  by (intro safely_atomic steps_modifySession assms) simp_all

lemma safely_close: "mine o' s \<Longrightarrow> safely s (atomic (closeOutput o' e))"
  using detached by (intro safely_atomic steps_True [OF steps_closeOutput]) (unfold mine_def, blast)


section \<open>The methods\<close>

lemma safely_checkContext [safe]: "safely s (checkContext request)"
  unfolding checkContext_def by (intro safe)

lemma safely_ownerOf [safe]: "safely s (ownerOfSession i)"
  unfolding ownerOfSession_def by (intro safe)

lemma safely_release [safe]: "safely s (atomic (releaseReservation sid))"
  by (intro safe safely_atomic stepping) simp

lemma safely_fail [safe]: "safely s (atomic (failState i e))"
  by (intro safe safely_atomic stepping) simp

lemma safely_reserve [safe]: "safely s (atomic (reserve sid))"
  by (intro safe safely_atomic stepping) simp

lemma safely_removeActive [safe]: "safely s (atomic (removeActive i))"
  by (intro safe safely_atomic stepping) simp

lemma safely_send [safe]: "safely s (atomic (sendOutput o' e))"
  by (intro safe safely_atomic stepping) simp

lemma safely_emitReplay [safe]: "safely s (atomic (emitCompletedReplay env replay))"
  by (intro safe safely_atomic stepping) simp

lemma safely_endFlight [safe]: "safely s (atomic (endResumeFlight fp ids f replay e))"
  by (intro safe safely_atomic stepping) simp

lemma safely_whileReserved [safe]: "safely s m \<Longrightarrow> safely s (whileReserved sid m)"
  unfolding whileReserved_def by (intro safe)

lemma safely_bindFlight [safe]: "safely s (bindResumeFlight sid fp ids f)"
  unfolding bindResumeFlight_def by (intro safe safely_modifySession) (simp_all add: sessionOk_def sessionGrows_def)

lemma safely_finishFlight [safe]: "safely s (finishFlight i e results events hasPending followUp)"
  unfolding finishFlight_def by (intro safe safely_atomic stepping) simp_all

lemma safely_emitEvent [safe]: "safely s (emitEvent env i event)"
  unfolding emitEvent_def by (intro safe safely_atomic stepping) simp_all

lemma safely_routed [safe]: "safely s (atomic (routedAgentV1ToolCallID env u c))"
  unfolding routedAgentV1ToolCallID_def
  by (intro safely_atomic steps_bnd steps_store [OF keepsLeases_reads(7)]) (auto intro: stepping split: sum.split)

lemma safely_handleToolCall [safe]: "safely s (handleToolCall env i event call)"
  unfolding handleToolCall_def by (intro safe safely_atomic stepping) simp_all

lemma safely_handleEvent: "safely s (handleEvent env i event)"
  unfolding handleEvent_def
  by (cases "ev_Type event") (simp_all, (intro safe safely_atomic stepping keepsLeases_all; simp)+)

text \<open>The end of a run.\<close>

lemma safely_saveOutcome [safe]: "safely s (saveOutcome env i request c e)"
  unfolding saveOutcome_def Let_def by (intro safe keepsLeases_all)

lemma safely_publish:
  assumes "\<forall>o'. cs_output c = Some o' \<longrightarrow> mine o' s"
  shows "safely s (publishOutcome c e)"
proof (cases "cs_output c")
  case (Some o')
  have "safely t (atomic (closeOutput o' x))" if "evolves s t" for t x
    by (rule safely_close, rule mine_evolves [OF _ that]) (use assms Some in simp)
  then show ?thesis
    unfolding publishOutcome_def Some option.case
    by (intro safe) (simp_all add: split_beta safely_done)
qed (simp add: publishOutcome_def safely_done)

lemma safely_runReturned:
  assumes "i < length (mg_sessions s)"
  shows "safely s (runReturned env i e)"
proof -
  let ?P = "\<lambda>c t. \<forall>o'. cs_output c = Some o' \<longrightarrow> mine o' t"
  have range: "i < length (mg_sessions t)" if "evolves s t" for t
    using assms that by (simp add: evolves_def grows_def)
  have close: "steps t (closeSession i) (\<lambda>r u. \<forall>c. r = Inr c \<longrightarrow> ?P c u)" if "evolves s t" for t
    by (rule steps_weaken [OF steps_closeSession [OF range [OF that]]]) auto
  have later: "?P c u" if "?P c t" "evolves t u" for c t u
    using that mine_evolves by blast
  show ?thesis
    unfolding runReturned_def
    by (rule safely_pbnd, rule safely_gets, rule safely_atomic_then [where P = ?P],
        rule close, erule (1) mgr.evolves_trans, erule (1) later,
        intro safe keepsLeases_all safely_modifySession safely_publish)
      (meson mine_evolves, simp_all add: sessionOk_def sessionGrows_def)
qed

lemma safely_sessionGoroutine: "safely s (sessionGoroutine env i carry)"
  unfolding sessionGoroutine_def
  by (intro safe safely_modifySession) (simp_all add: sessionOk_def sessionGrows_def)


text \<open>Starting and resuming.\<close>

lemma sessionOk_pendingMap:
  "distinct (map fst (pendingMap tools)) \<and> (\<forall>(k, t) \<in> set (pendingMap tools). pt_ToolCallID t = k)"
proof -
  have "distinct (map fst (foldl (\<lambda>m t. AList.update (pt_ToolCallID t) t m) m tools))
      \<and> (\<forall>(k, t) \<in> set (foldl (\<lambda>m t. AList.update (pt_ToolCallID t) t m) m tools). pt_ToolCallID t = k)"
    if "distinct (map fst m) \<and> (\<forall>(k, t) \<in> set m. pt_ToolCallID t = k)" for m
    using that
  proof (induction tools arbitrary: m)
    case (Cons tool tools)
    show ?case
      unfolding foldl_Cons
      by (rule Cons.IH)
        (use Cons.prems set_update_subset [of "pt_ToolCallID tool" tool m] in \<open>auto simp: AList.distinct_update\<close>)
  qed simp
  from this [of "[]"] show ?thesis by (simp add: pendingMap_def)
qed

lemma sessionOk_new: "sessionOk (newManagedSession request owner restored covering batch carry disable)"
  using sessionOk_pendingMap [of restored] by (simp add: sessionOk_def newManagedSession_def)

lemma safely_register [safe]:
  "safely s (atomic (registerSession (ol_SessionID owner)
     (newManagedSession request owner restored covering batch carry disable)))"
  by (intro safely_atomic steps_registerSession sessionOk_new) (simp_all add: newManagedSession_def)

lemma safely_pushInitial [safe]: "safely s (pushInitial i result)"
proof -
  have "evolves t (updSession i (\<lambda>c. c\<lparr>ms_toolResults := ms_toolResults c @ [upstreamToolResult (ms_pending c) result]\<rparr>) t)"
    if "evolves s t" "length (ms_toolResults (sessionAt i t)) < maxPendingTools" for t
    by (rule evolves_session) (use that in \<open>simp_all add: evolves_def sessionOk_push sessionGrows_def\<close>)
  then show ?thesis
    unfolding safely_def pushInitial_def
    by (intro oks.oks_step)
      (auto simp: Let_def oks_simps pret_def evolves_def intro: mgr.evolves_refl [unfolded evolves_def] split: if_splits)
qed

lemma safely_launch [safe]: "safely s (atomic (modify (\<lambda>s. s\<lparr>mg_goroutines := G s\<rparr>)))"
  by (intro safely_atomic steps_modify) (auto intro!: evolves_frame simp: managerOk_def)

lemma safely_startClaimed [safe]:
  "safely s (startClaimed env request owner restored initial covering batch carry disable)"
  unfolding startClaimed_def Let_def by (intro safe keepsLeases_all)

lemma safely_pushResults:
  assumes "i < length (mg_sessions s)" "o' < length (mg_outputs s)"
    "\<forall>j < length (mg_sessions s). ms_output (sessionAt j s) = Some o' \<longrightarrow> j = i"
  shows "safely s (pushResults i o' rs)"
  using assms
proof (induction rs arbitrary: s)
  case (Cons r rs)
  have later: "i < length (mg_sessions t)" "o' < length (mg_outputs t)"
    "\<forall>j < length (mg_sessions t). ms_output (sessionAt j t) = Some o' \<longrightarrow> j = i" if "evolves s t" for t
    using that Cons.prems unfolding evolves_def grows_def by (meson order_less_le_trans)+
  have detach: "safely t (pbnd (atomic (detach i o')) (\<lambda>_. pbnd (atomic (closeOutput o' (Some queueFull)))
      (\<lambda>_. praise queueFull)))" if "evolves s t" for t
  proof (rule safely_atomic_then [where P = "\<lambda>_. mine o'"])
    fix u
    assume "evolves t u"
    then have "evolves s u" using that by (rule mgr.evolves_trans [rotated])
    from steps_detach [OF later [OF this]] show "steps u (detach i o') (\<lambda>r v. \<forall>x. r = Inr x \<longrightarrow> mine o' v)"
      by (rule steps_weaken) simp
  qed (auto intro: mine_evolves safely_pbnd safely_close safely_done)
  show ?case
    unfolding pushResults.simps
    by (intro safely_pbnd safely_if Cons.IH later detach safely_atomic stepping) simp_all
qed (simp add: safely_done)

lemma safely_resume:
  assumes "i < length (mg_sessions s)"
  shows "safely s (resume env i results batch segment req disable)"
proof -
  let ?P = "\<lambda>x t. i < length (mg_sessions t) \<and> re_output x < length (mg_outputs t)
     \<and> (\<forall>j < length (mg_sessions t). ms_output (sessionAt j t) = Some (re_output x) \<longrightarrow> j = i)"
  have range: "i < length (mg_sessions t)" if "evolves s t" for t
    using assms that by (simp add: evolves_def grows_def)
  have later: "?P x u" if "?P x t" "evolves t u" for x t u
    using that unfolding evolves_def grows_def by (meson order_less_le_trans)
  have commit: "steps t (resumeCommit i filtered results batch segment req seg disable) (\<lambda>r u. \<forall>x. r = Inr x \<longrightarrow> ?P x u)"
    if "evolves s t" for t filtered seg
    by (rule steps_weaken [OF steps_resumeCommit [OF range [OF that]]])
      (use range [OF that] in \<open>auto simp: evolves_def grows_def\<close>)
  show ?thesis
    unfolding resume_def Let_def
    apply (rule safely_pbnd, intro safely_atomic stepping, simp, rule safely_prod, rule safely_pbnd, intro safe keepsLeases_all)
    apply (rule safely_atomic_then [where P = ?P])
    apply (rule commit, meson mgr.evolves_trans)
    apply (erule (1) later)
    apply (intro safe safely_pushResults)
    using later apply blast+
    done
qed

text \<open>An active session exists.\<close>

lemma steps_active:
  "steps s (gets (\<lambda>s. map_of (mg_active s) sid)) (\<lambda>r t. \<forall>x. r = Inr x \<longrightarrow> (\<forall>i. x = Some i \<longrightarrow> i < length (mg_sessions t)))"
proof (rule stepsI)
  fix r t
  assume ok: "managerOk s" and run: "gets (\<lambda>s. map_of (mg_active s) sid) s = (r, t)"
  have "i < length (mg_sessions s)" if "map_of (mg_active s) sid = Some i" for i
    using map_of_SomeD [OF that] ok by (auto simp: managerOk_def tableOk_def)
  then show "evolves s t \<and> (\<forall>x. r = Inr x \<longrightarrow> (\<forall>i. x = Some i \<longrightarrow> i < length (mg_sessions t)))"
    using run ok by (auto simp: gets_def intro: mgr.evolves_refl)
qed

lemma evolves_range: "i < length (mg_sessions s) \<Longrightarrow> evolves s t \<Longrightarrow> i < length (mg_sessions t)"
  by (auto simp: evolves_def grows_def)

lemma safely_active:
  assumes "\<And>active t. evolves s t \<Longrightarrow> \<forall>i. active = Some i \<longrightarrow> i < length (mg_sessions t) \<Longrightarrow> safely t (f active)"
  shows "safely s (pbnd (atomic (gets (\<lambda>s. map_of (mg_active s) sid))) f)"
  by (rule safely_atomic_then [where P = "\<lambda>x t. \<forall>i. x = Some i \<longrightarrow> i < length (mg_sessions t)"])
    (use assms steps_active evolves_range in blast)+

section \<open>Parking and cancelling\<close>

lemma safely_Park [safe]: "safely s (Park env request)"
proof -
  have close: "safely t (atomic (closeOutput o' e))" if "mine o' u" "evolves u t" for o' e t u
    by (rule safely_close, rule mine_evolves [OF that])
  show ?thesis
    unfolding Park_def Let_def
    apply (rule safely_sum, rule safely_done)
    apply (rule safely_atomic_then [where P = "\<lambda>p. mine (pk_output p)"])
      apply (rule steps_weaken [OF steps_parkSession], blast)
     apply (erule (1) mine_evolves)
    apply (rule safely_if, erule safely_close)
    apply (rule safely_pbnd, rule safely_ownerOf, rule safely_pbnd, rule safely_errorOf, rule safely_store, rule keepsLeases_all)
    apply (rule safely_option; (rule safely_pbnd | rule safely_finishFlight | rule safely_done | (erule close, meson mgr.evolves_trans))+)
    done
qed

lemma safely_Cancel [safe]: "safely s (Cancel env request)"
proof -
  let ?P = "\<lambda>x t. \<forall>i out. x = Some (i, out) \<longrightarrow> (\<forall>o'. out = Some o' \<longrightarrow> mine o' t)"
  have later: "?P x u" if "?P x t" "evolves t u" for x t u
    using that mine_evolves by blast
  have cancel: "steps t (cancelSession sid fp) (\<lambda>r u. \<forall>x. r = Inr x \<longrightarrow> ?P x u)" for t sid fp
    by (rule steps_weaken [OF steps_cancelSession]) blast
  have body: "safely t (pbnd (ownerOfSession i) (\<lambda>owner. pbnd (errorOf (atomic (onStore (Delete env owner)))) (\<lambda>deleteErr.
      pbnd (atomic (modify (updSession i (\<lambda>c. c\<lparr>ms_cancelled := True\<rparr>)))) (\<lambda>_.
      pbnd (case out of None \<Rightarrow> pret () | Some o' \<Rightarrow> atomic (closeOutput o' e)) (\<lambda>_.
      pbnd (errorOf (atomic (onStore (Release owner)))) (K deleteErr))))))"
    if out: "\<forall>o'. out = Some o' \<longrightarrow> mine o' t" and K: "\<And>x y u. safely u (K x y)" for t i out e K
    apply (rule safely_pbnd, rule safely_ownerOf, rule safely_pbnd, rule safely_errorOf, rule safely_store, rule keepsLeases_all)
    apply (rule safely_pbnd, rule safely_modifySession, simp_all add: sessionOk_def sessionGrows_def)
    apply (rule safely_pbnd, rule safely_option, rule safely_done, rule safely_close)
     apply (rule mine_evolves [OF _ mgr.evolves_trans [OF mgr.evolves_trans]], use out in blast, assumption+)
    apply (intro safe keepsLeases_all K)
    done
  show ?thesis
    unfolding Cancel_def
    apply (rule safely_sum, rule safely_done)
    apply (rule safely_atomic_then [where P = ?P, OF cancel], erule (1) later)
    apply (rule safely_option, rule safely_done, rule safely_prod, rule body)
     apply blast
    apply (intro safe)
    done
qed

lemma safely_CancelState [safe]: "safely s (CancelState env request)"
  unfolding CancelState_def Let_def by (intro safe keepsLeases_all)

section \<open>Starting\<close>

lemma safely_billing [safe]: "safely s (billingIDForRequest env request)"
  unfolding billingIDForRequest_def Let_def by (intro safe keepsLeases_all)

lemma safely_conversation [safe]: "safely s (conversationFor env request)"
  unfolding conversationFor_def Let_def by (intro safe keepsLeases_all)

lemma safely_claimAs [safe]: "safely s (claimAs env sid cid fp opts rename)"
  unfolding claimAs_def by (intro safe keepsLeases_all)

lemma safely_startReserved [safe]: "safely s (startReserved env request sid)"
  unfolding startReserved_def by (intro safe)

lemma safely_startSession [safe]: "safely s (startSession env request)"
  unfolding startSession_def Let_def by (intro safe)

lemma safely_Start [safe]: "safely s (Start env request)"
  unfolding Start_def by (intro safe keepsLeases_all)

lemma safely_StartHistory [safe]: "safely s (StartHistory env n request)"
  by (induction n arbitrary: s) (simp_all, (intro safe | assumption)+)

section \<open>Tool results\<close>

lemma safely_lookupReplay [safe]: "safely s (lookupRequestReplay env fp results followUp)"
  unfolding lookupRequestReplay_def by (intro safe keepsLeases_all)

lemma safely_submit [safe]: "safely s (submit env request results)"
  unfolding submit_def Let_def by (intro safe keepsLeases_all)

lemma safely_wait [safe]: "safely s (waitResumeFlight env ctxFirst ctx f n)"
proof (induction n arbitrary: s)
  case (Suc n)
  show ?case
    unfolding waitResumeFlight.simps
    by (intro safely_pbnd safely_atomic steps_waitedFlight safely_option Suc.IH safely_done) simp_all
qed (simp add: safely_done)

lemma safely_failing [safe]: "safely s m \<Longrightarrow> safely s (failing b f m)"
  unfolding failing_def by (intro safe)

lemma safely_releasing [safe]: "safely s (releasing owner e)"
  unfolding releasing_def by (intro safe keepsLeases_all)

lemma safely_setFollowUp [safe]:
  "safely s (atomic (modify (updSession i (\<lambda>c. c\<lparr>ms_pendingFollowUp := followUp\<rparr>))))"
  by (rule safely_modifySession) (simp_all add: sessionOk_def sessionGrows_def)

lemma safely_setActiveFollowUp [safe]:
  "safely s (atomic (modify (\<lambda>s. case map_of (mg_active s) sid of None \<Rightarrow> s
     | Some i \<Rightarrow> updSession i (\<lambda>c. c\<lparr>ms_pendingFollowUp := followUp\<rparr>) s)))"
  by (intro safely_atomic steps_modify conjI)
    (auto intro: mgr.evolves_refl intro!: steps_session simp: sessionOk_def sessionGrows_def split: option.split)

lemma safely_resumeActive:
  assumes "i < length (mg_sessions s)"
  shows "safely s (resumeActive env request b f sid seg i)"
  unfolding resumeActive_def
  by (intro safe safely_resume) (use assms evolves_range in blast)

lemma safely_resumeStored [safe]: "safely s (resumeStored env request b f sid seg)"
  unfolding resumeStored_def Let_def by (intro safe)

lemma safely_leadLookup [safe]: "safely s (leadLookup env request b f)"
  unfolding leadLookup_def resolvedSession_def by (intro safe keepsLeases_all)

lemma safely_leadResume [safe]: "safely s (leadResume env request b f)"
  unfolding leadResume_def Let_def
  apply (rule safely_pbnd, intro safe, rule safely_sum, rule safely_done, rule safely_active, rule safely_option)
   apply (intro safe)
  apply (intro safely_failing safely_resumeActive)
  apply simp
  done

lemma safely_ResumeTools [safe]: "safely s (ResumeTools env ctxFirst polls request results)"
  unfolding ResumeTools_def followResume_def
  by (intro safe safely_atomic steps_True [OF steps_beginResumeFlight])

section \<open>Follow-ups\<close>

lemma safely_lookupFollowUp [safe]: "safely s (lookupFollowUpReplay env fp covering followUp)"
  unfolding lookupFollowUpReplay_def by (intro safe keepsLeases_all)

lemma safely_waitSnapshot [safe]: "safely s (waitFollowUpSnapshot env request fp covering n)"
proof (induction n arbitrary: s)
  case (Suc n)
  then show ?case unfolding waitFollowUpSnapshot.simps by (intro safe)
qed (simp add: safely_done)

lemma safely_followUpClaimed [safe]: "safely s (followUpClaimed env request fp covering claim)"
  unfolding followUpClaimed_def Let_def by (intro safe keepsLeases_all)

lemma safely_followUpReserved [safe]: "safely s (followUpReserved env request fp sid covering)"
  unfolding followUpReserved_def by (intro safe)

lemma safely_StartFollowUp [safe]: "safely s (StartFollowUp env polls request covering)"
  unfolding StartFollowUp_def Let_def by (intro safe)

end
