(* ===== verification/ManagerSystem.thy ===== *)
theory ManagerSystem
  imports ManagerSafety
begin

text \<open>
  The manager as a system: requests calling its methods, the goroutines of its sessions and their runners,
  the readers of its outputs, all interleaving step by step.
\<close>

section \<open>The methods and what they answer\<close>

datatype call =
    CallStart ManagedRequest
  | CallStartHistory nat ManagedRequest
  | CallStartFollowUp nat ManagedRequest "ToolResult list option"
  | CallResumeTools bool nat ManagedRequest "ToolResult list"
  | CallPark ManagedRequest
  | CallCancel ManagedRequest
  | CallCancelState ManagedRequest
  | CallGoroutine nat "Event list"
  | CallHandleEvent nat Event
  | CallRunReturned nat "err option"

definition answering :: "ManagedOutput ma \<Rightarrow> ManagedOutput option ma" where
  "answering m = pbnd m (\<lambda>out. pret (Some out))"

definition finishing :: "unit ma \<Rightarrow> ManagedOutput option ma" where
  "finishing m = pbnd m (\<lambda>_. pret None)"

fun processOf :: "storeEnv \<Rightarrow> call \<Rightarrow> ManagedOutput option ma" where
  "processOf env (CallStart request) = answering (Start env request)"
| "processOf env (CallStartHistory n request) = answering (StartHistory env n request)"
| "processOf env (CallStartFollowUp n request covering) = answering (StartFollowUp env n request covering)"
| "processOf env (CallResumeTools ctxFirst n request results) = answering (ResumeTools env ctxFirst n request results)"
| "processOf env (CallPark request) = finishing (Park env request)"
| "processOf env (CallCancel request) = finishing (Cancel env request)"
| "processOf env (CallCancelState request) = finishing (CancelState env request)"
| "processOf env (CallGoroutine i carry) = finishing (sessionGoroutine env i carry)"
| "processOf env (CallHandleEvent i event) = finishing (handleEvent env i event)"
| "processOf env (CallRunReturned i e) = finishing (runReturned env i e)"

section \<open>Its steps\<close>

type_synonym system = "manager \<times> (manager, ManagedOutput option res) proc list"

text \<open>
  A request may call any method at any time; only the runner of a session calls its callback, while it
  runs, and it returns once.
\<close>

fun callable :: "manager \<Rightarrow> call \<Rightarrow> bool" where
  "callable m (CallGoroutine i carry) = False"
| "callable m (CallHandleEvent i event) = (i < length (mg_sessions m) \<and> ms_running (sessionAt i m))"
| "callable m (CallRunReturned i e) = (i < length (mg_sessions m) \<and> ms_running (sessionAt i m))"
| "callable m c = True"

fun called :: "call \<Rightarrow> manager \<Rightarrow> manager" where
  "called (CallRunReturned i e) m = updSession i (\<lambda>c. c\<lparr>ms_running := False\<rparr>) m"
| "called c m = m"

inductive sysStep :: "storeEnv \<Rightarrow> system \<Rightarrow> system \<Rightarrow> bool" for env where
  sys_call: "callable m c \<Longrightarrow> sysStep env (m, ps) (called c m, ps @ [processOf env c])"
| sys_launch: "(i, carry) \<in> set (mg_goroutines m) \<Longrightarrow> sysStep env (m, ps)
    (m\<lparr>mg_goroutines := remove1 (i, carry) (mg_goroutines m)\<rparr>, ps @ [processOf env (CallGoroutine i carry)])"
| sys_run: "k < length ps \<Longrightarrow> ps ! k = Step f \<Longrightarrow> f m = (p, m') \<Longrightarrow> sysStep env (m, ps) (m', ps[k := p])"
| sys_read: "o' < length (mg_outputs m) \<Longrightarrow> mo_received (outputAt o' m) < length (mo_sent (outputAt o' m)) \<Longrightarrow>
    sysStep env (m, ps) (updOutput o' (\<lambda>c. c\<lparr>mo_received := Suc (mo_received c)\<rparr>) m, ps)"
| sys_take: "i < length (mg_sessions m) \<Longrightarrow> ms_running (sessionAt i m) \<Longrightarrow> ms_toolResults (sessionAt i m) = r # rs \<Longrightarrow>
    sysStep env (m, ps) (updSession i (\<lambda>c. c\<lparr>ms_toolResults := rs\<rparr>) m, ps)"
| sys_cancel: "map_of (mg_ctxErrs m) k = None \<Longrightarrow>
    sysStep env (m, ps) (m\<lparr>mg_ctxErrs := (k, e) # mg_ctxErrs m\<rparr>, ps)"

inductive_cases sysStepE: "sysStep env (m, ps) (m', ps')"

abbreviation sysSteps :: "storeEnv \<Rightarrow> system \<Rightarrow> system \<Rightarrow> bool" where
  "sysSteps env \<equiv> (sysStep env)\<^sup>*\<^sup>*"

text \<open>Every process of the system keeps the invariant from now on.\<close>

definition systemOk :: "system \<Rightarrow> bool" where
  "systemOk c = (managerOk (fst c) \<and> (\<forall>p \<in> set (snd c). safely (fst c) p))"

lemma safely_process: "managerOk m \<Longrightarrow> callable m c \<Longrightarrow> safely m (processOf env c)"
  by (cases c) (auto simp: answering_def finishing_def intro!: safe intro: safely_runReturned safely_handleEvent)

lemma evolves_called: "managerOk m \<Longrightarrow> evolves m (called c m)"
  by (cases c) (auto intro: mgr.evolves_refl intro!: steps_session simp: sessionOk_def sessionGrows_def)

lemma safely_run: "safely m (Step f) \<Longrightarrow> managerOk m \<Longrightarrow> f m = (p, m') \<Longrightarrow> evolves m m' \<and> safely m' p"
  unfolding safely_def oks_simps using mgr.evolves_refl by blast

lemma systemOk_evolves:
  assumes "systemOk (m, ps)" "evolves m m'" "\<And>p. p \<in> set ps' \<Longrightarrow> p \<in> set ps \<or> safely m' p"
  shows "systemOk (m', ps')"
  using assms safely_evolved by (fastforce simp: systemOk_def evolves_def)

lemma sysStep_ok:
  assumes "sysStep env (m, ps) (m', ps')" "systemOk (m, ps)"
  shows "evolves m m' \<and> systemOk (m', ps')"
proof -
  have ok: "managerOk m" using assms(2) by (simp add: systemOk_def)
  have "evolves m m' \<and> (\<forall>p \<in> set ps'. p \<in> set ps \<or> safely m' p)"
    using assms(1)
  proof cases
    case (sys_call c)
    then show ?thesis
      using evolves_called [OF ok] safely_evolved [OF safely_process [OF ok]] by auto
  next
    case (sys_launch i carry)
    have "evolves m m'" unfolding sys_launch by (rule evolves_frame) (use ok in \<open>simp_all add: managerOk_def\<close>)
    moreover have "safely m' (processOf env (CallGoroutine i carry))"
      by (auto simp: finishing_def intro!: safe safely_sessionGoroutine)
    ultimately show ?thesis by (auto simp: sys_launch)
  next
    case (sys_run k f p)
    then have "safely m (Step f)" using assms(2) nth_mem [of k ps] by (simp add: systemOk_def)
    from safely_run [OF this ok sys_run(4)] show ?thesis
      using set_update_subset_insert [of ps k p] by (auto simp: sys_run)
  next
    case (sys_read o')
    have "evolves m m'"
      unfolding sys_read(1) by (rule evolves_output [OF ok]) (use sys_read(3,4) in \<open>auto simp: outputOk_def outputGrows_def\<close>)
    then show ?thesis by (simp add: sys_read)
  next
    case (sys_take i r rs)
    have "evolves m m'"
      unfolding sys_take(1) by (rule evolves_session [OF ok]) (use sys_take(5) in \<open>auto simp: sessionOk_def sessionGrows_def\<close>)
    then show ?thesis by (simp add: sys_take)
  next
    case (sys_cancel k e)
    then show ?thesis using evolves_frame [OF ok, of m'] ok by (auto simp: managerOk_def contextsGrow_def)
  qed
  with systemOk_evolves [OF assms(2)] show ?thesis by blast
qed

lemma sysSteps_ok: "sysSteps env (m, ps) (m', ps') \<Longrightarrow> systemOk (m, ps) \<Longrightarrow> evolves m m' \<and> systemOk (m', ps')"
proof (induction rule: rtranclp_induct2)
  case refl
  then show ?case by (simp add: systemOk_def mgr.evolves_refl)
next
  case (step m1 ps1 m2 ps2)
  then show ?case using sysStep_ok mgr.evolves_trans by blast
qed

lemma systemOk_new: "leasesOk store \<Longrightarrow> systemOk (newSessionManager store, [])"
  by (simp add: systemOk_def managerOk_new)


section \<open>Properties\<close>

lemma managerOk_reachable:
  assumes "leasesOk store" "sysSteps env (newSessionManager store, []) (m, ps)"
  shows "systemOk (m, ps)"
  using sysSteps_ok [OF assms(2) systemOk_new [OF assms(1)]] by blast

text \<open>
  C6: The manager's invariant holds in every state that any interleaving of requests, session goroutines,
  runner callbacks, readers and cancellations can reach: one running session per identifier and none that
  is also being started, every session's output open and given to no other session, the channels within
  their capacities and exactly one outcome per closed output, every flight that can be joined still
  undecided, and every lease held once.
\<close>

theorem manager_invariant:
  assumes "leasesOk store" "sysSteps env (newSessionManager store, []) (m, ps)"
  shows "managerOk m"
  using managerOk_reachable [OF assms] by (simp add: systemOk_def)

text \<open>
  C7: What a request has been told is final: from any reachable state on, whatever runs, an output only
  gets more events and none after it has been closed, its outcome never changes, a flight that has ended
  keeps its outcome, and a session keeps its identifier, credential and lease and stays closed and failed
  with its first error.
\<close>

theorem outcomes_are_final:
  assumes "leasesOk store" "sysSteps env (newSessionManager store, []) (m, ps)" "sysSteps env (m, ps) (m', ps')"
  shows "(\<forall>o' < length (mg_outputs m). outputGrows (outputAt o' m) (outputAt o' m'))
    \<and> (\<forall>f < length (mg_flightHeap m). flightGrows (flightAt f m) (flightAt f m'))
    \<and> (\<forall>i < length (mg_sessions m). sessionGrows (sessionAt i m) (sessionAt i m'))"
  using sysSteps_ok [OF assms(3) managerOk_reachable [OF assms(1,2)]] by (simp add: evolves_def grows_def)

subsection \<open>Flights\<close>

text \<open>What a process has been judged to establish it has established when it is done.\<close>

lemma sysSteps_oks:
  assumes "sysSteps env (m, ps) (m', ps')" "systemOk (m, ps)" "k < length ps" "oks evolves m (ps ! k) Q"
  shows "k < length ps' \<and> oks evolves m' (ps' ! k) Q"
  using assms
proof (induction rule: rtranclp_induct2)
  case (step m1 ps1 m2 ps2)
  then have k: "k < length ps1" "oks evolves m1 (ps1 ! k) Q" and ok: "systemOk (m1, ps1)"
    using sysSteps_ok by blast+
  have e: "evolves m1 m2" using sysStep_ok [OF step(2) ok] by blast
  from step(2) show ?case
  proof cases
    case (sys_run j f p)
    show ?thesis
    proof (cases "j = k")
      case True
      then have "oks evolves m1 (Step f) Q" using k sys_run by simp
      then have "oks evolves m2 p Q"
        unfolding oks_simps using sys_run(4) ok mgr.evolves_refl by (auto simp: systemOk_def)
      then show ?thesis using True k sys_run by simp
    qed (use k e sys_run mgr.oks_evolved in auto)
  qed (use k e mgr.oks_evolved in \<open>auto simp: nth_append\<close>)
qed simp

lemma sysSteps_done:
  assumes "sysSteps env (m, ps) (m', ps')" "systemOk (m, ps)" "k < length ps" "oks evolves m (ps ! k) Q" "ps' ! k = Done r"
  shows "Q r m'"
proof -
  from sysSteps_oks [OF assms(1-4)] assms(5) have "\<forall>t. evolves m' t \<longrightarrow> Q r t" by (simp add: oks_simps)
  moreover have "managerOk m'" using sysSteps_ok [OF assms(1,2)] by (simp add: systemOk_def)
  ultimately show ?thesis by (simp add: mgr.evolves_refl)
qed

text \<open>The replay of a flight may need a gateway that meters its turns.\<close>

definition needsMetering :: "ManagedRequest \<Rightarrow> nat \<Rightarrow> manager \<Rightarrow> bool" where
  "needsMetering request f t = (rf_done (flightAt f t) \<and> rf_err (flightAt f t) = None
     \<and> (\<exists>replay. rf_replay (flightAt f t) = Some replay \<and> refusesMetering request (rp_BillingRunID replay)))"

definition replayedFrom :: "storeEnv \<Rightarrow> nat \<Rightarrow> nat \<Rightarrow> manager \<Rightarrow> bool" where
  "replayedFrom env f o' t = (o' < length (mg_outputs t) \<and> rf_done (flightAt f t) \<and> rf_err (flightAt f t) = None
     \<and> (\<exists>replay. rf_replay (flightAt f t) = Some replay \<and> mo_closed (outputAt o' t)
         \<and> mo_sent (outputAt o' t) = mo_sent (replayOutput env (rp_Events replay))
         \<and> mo_result (outputAt o' t) = mo_result (replayOutput env (rp_Events replay))))"

definition flightFailed :: "nat \<Rightarrow> err \<Rightarrow> manager \<Rightarrow> bool" where
  "flightFailed f e t = (rf_done (flightAt f t) \<and> (rf_err (flightAt f t) = Some e
     \<or> rf_err (flightAt f t) = None \<and> rf_replay (flightAt f t) = None \<and> e = ErrSessionNotPending))"

lemma flight_ended: "rf_done (flightAt f s) \<Longrightarrow> f < length (mg_flightHeap s) \<Longrightarrow> evolves s t \<Longrightarrow> flightAt f t = flightAt f s"
  by (simp add: evolves_def grows_def flightGrows_def)

lemma output_ended: "o' < length (mg_outputs s) \<Longrightarrow> mo_closed (outputAt o' s) \<Longrightarrow> evolves s t \<Longrightarrow>
    o' < length (mg_outputs t) \<and> mo_closed (outputAt o' t) \<and> mo_sent (outputAt o' t) = mo_sent (outputAt o' s)
    \<and> mo_result (outputAt o' t) = mo_result (outputAt o' s)"
  by (auto simp: evolves_def grows_def outputGrows_def)

lemma replayOutput_closed: "mo_closed (replayOutput env events)"
  by (simp add: replayOutput_def split: sum.split)

lemma replayedFrom_evolves: "replayedFrom env f o' s \<Longrightarrow> f < length (mg_flightHeap s) \<Longrightarrow> evolves s t \<Longrightarrow> replayedFrom env f o' t"
  using flight_ended [of f s t] output_ended [of o' s t] unfolding replayedFrom_def by metis

definition waited :: "storeEnv \<Rightarrow> nat option \<Rightarrow> nat \<Rightarrow> ManagedOutput res \<Rightarrow> manager \<Rightarrow> bool" where
  "waited env ctx f r t = (f < length (mg_flightHeap t) \<and> (case r of
       Inr out \<Rightarrow> replayedFrom env f (ou_output out) t
         \<and> map_option rp_BillingRunID (rf_replay (flightAt f t)) = Some (ou_BillingRunID out)
     | Inl e \<Rightarrow> ctxErr ctx t = Some e \<or> flightFailed f e t))"

lemma waited_evolves: "waited env ctx f r s \<Longrightarrow> evolves s t \<Longrightarrow> waited env ctx f r t"
  using flight_ended [of f s t] replayedFrom_evolves [of env f _ s t] ctxErr_grows [of s t ctx]
  by (auto simp: waited_def flightFailed_def replayedFrom_def evolves_def grows_def split: sum.splits)

lemma oks_waitResumeFlight:
  "f < length (mg_flightHeap s) \<Longrightarrow> oks evolves s (waitResumeFlight env ctxFirst ctx f n) (waited env ctx f)"
proof (induction n arbitrary: s)
  case (Suc n)
  let ?Q = "\<lambda>r t. f < length (mg_flightHeap t) \<and>
    (case r of Inr None \<Rightarrow> True | Inr (Some out) \<Rightarrow> waited env ctx f (Inr out) t | Inl e \<Rightarrow> waited env ctx f (Inl e) t)"
  have "steps t (waitedFlight env ctxFirst ctx f) ?Q" if "evolves s t" for t
  proof -
    have f: "f < length (mg_flightHeap u)" if "evolves t u" for u
      using that \<open>evolves s t\<close> Suc.prems by (simp add: evolves_def grows_def)
    have same: "rf_done (flightAt f t) \<Longrightarrow> flightAt f u = flightAt f t" if "evolves t u" for u
      using flight_ended [OF _ f that] mgr.evolves_refl that by (auto simp: evolves_def)
    show ?thesis
    proof (rule steps_waitedFlight)
      show "?Q (Inl e) u" if "evolves t u" "ctxErr ctx t = Some e" for e u
      proof -
        have "contextsGrow t u" using that(1) by (simp add: evolves_def grows_def)
        then show ?thesis using ctxErr_grows that(2) f [OF that(1)] by (simp add: waited_def)
      qed
      show "?Q (Inr None) u" if "evolves t u" for u using f [OF that] by simp
    qed (simp_all add: waited_def flightFailed_def replayedFrom_def f same replayOutput_closed)
  qed
  moreover have "?Q r u" if "?Q r t" "evolves t u" for r t u
    using that waited_evolves [OF _ that(2)] by (auto simp: evolves_def grows_def split: sum.splits option.splits)
  ultimately have "oks evolves s (atomic (waitedFlight env ctxFirst ctx f)) ?Q"
    by (rule oks_atomic_steps)
  then show ?case
    unfolding waitResumeFlight.simps
    by (intro mgr.oks_pbnd, elim mgr.oks_weaken)
      (auto intro: waited_evolves Suc.IH mgr.oks_pret split: sum.splits option.splits)
qed (simp add: oks_simps)

text \<open>The rest of a \<open>ResumeTools\<close> call that has joined a flight.\<close>

definition follower :: "storeEnv \<Rightarrow> bool \<Rightarrow> nat \<Rightarrow> ManagedRequest \<Rightarrow> nat \<Rightarrow> ManagedOutput option ma" where
  "follower env ctxFirst n request f = answering (followResume env ctxFirst n request f)"


definition followed :: "storeEnv \<Rightarrow> ManagedRequest \<Rightarrow> nat \<Rightarrow> ManagedOutput option res \<Rightarrow> manager \<Rightarrow> bool" where
  "followed env request f r t = (case r of
     Inr (Some out) \<Rightarrow> replayedFrom env f (ou_output out) t
   | Inr None \<Rightarrow> False
   | Inl e \<Rightarrow> ctxErr (mr_Context request) t = Some e \<or> e = meteringVersionError \<and> needsMetering request f t
       \<or> flightFailed f e t)"

lemma waited_followed: "waited env (mr_Context request) f (Inr out) t \<Longrightarrow> followed env request f (Inr (Some out)) t"
  "waited env (mr_Context request) f (Inl e) t \<Longrightarrow> followed env request f (Inl e) t"
  "waited env (mr_Context request) f (Inr out) t \<Longrightarrow> refusesMetering request (ou_BillingRunID out) \<Longrightarrow>
     followed env request f (Inl meteringVersionError) t"
  by (auto simp: waited_def followed_def replayedFrom_def needsMetering_def)

lemma oks_follower:
  assumes "f < length (mg_flightHeap s)"
  shows "oks evolves s (follower env ctxFirst n request f) (followed env request f)"
proof -
  let ?Q = "\<lambda>r t. case r of Inl e \<Rightarrow> (\<forall>u. evolves t u \<longrightarrow> followed env request f (Inl e) u)
     | Inr out \<Rightarrow> oks evolves t (pret (Some out)) (followed env request f)"
  have last: "oks evolves t (pret (Some out)) (followed env request f)" if "waited env (mr_Context request) f (Inr out) t" for out t
    by (rule mgr.oks_pret, rule waited_followed, rule waited_evolves [OF that])
  have "oks evolves t (if refusesMetering request (ou_BillingRunID out) then praise meteringVersionError else pret out) ?Q"
    if "waited env (mr_Context request) f (Inr out) t" for out t
    using last waited_evolves [OF that] waited_followed(3) [OF waited_evolves [OF waited_evolves [OF that]]]
    by (intro mgr.oks_if mgr.oks_praise mgr.oks_pret) auto
  note body = this
  have "oks evolves s (followResume env ctxFirst n request f) ?Q"
    unfolding followResume_def
  proof (rule mgr.oks_pbnd, rule mgr.oks_weaken [OF oks_waitResumeFlight [OF assms]])
    fix r t
    assume w: "waited env (mr_Context request) f r t"
    show "case r of Inl e \<Rightarrow> \<forall>u. evolves t u \<longrightarrow> ?Q (Inl e) u
        | Inr out \<Rightarrow> oks evolves t (if refusesMetering request (ou_BillingRunID out) then praise meteringVersionError
            else pret out) ?Q"
    proof (cases r)
      case (Inl e)
      have "followed env request f (Inl e) v" if "evolves t u" "evolves u v" for u v
        by (rule waited_followed, rule waited_evolves [OF waited_evolves [OF w that(1)] that(2), unfolded Inl])
      then show ?thesis using Inl by simp
    qed (use w body in simp)
  qed
  then show ?thesis unfolding follower_def answering_def by (rule mgr.oks_pbnd)
qed

text \<open>It is what a call of \<open>ResumeTools\<close> goes on with when its flight exists already.\<close>

lemma resumeTools_follows: "processOf env (CallResumeTools ctxFirst n request results) =
    pbnd (submit env request results) (\<lambda>b.
    pbnd (atomic (beginResumeFlight (sb_fp b) (sb_batch b) (toolResultDigest (se_sha env) (sb_accepted b)) (sb_followUp b)))
      (\<lambda>(f, leader). if leader then answering (leadResume env request b f) else follower env ctxFirst n request f))"
  unfolding processOf.simps answering_def follower_def ResumeTools_def pbnd_assoc
  by (intro arg_cong [where f = "pbnd _"] ext) (auto split: prod.split)

text \<open>
  C8: A submission that joins another one's flight gets that flight's outcome, whatever runs in between:
  when it returns an output, the flight had ended without an error, and the output is closed and holds
  exactly the events of the flight's replay; when it returns an error, this is the error of the submission's
  own request, which has been cancelled, or the refusal to a gateway that does not meter of a replay that
  belongs to a metered run, or else the flight ended with that error, or without anything to replay.
\<close>

theorem follower_gets_outcome:
  assumes "systemOk (m, ps)" "k < length ps" "ps ! k = follower env ctxFirst n request f" "f < length (mg_flightHeap m)"
    "sysSteps env (m, ps) (m', ps')" "ps' ! k = Done r"
  shows "followed env request f r m'"
  by (rule sysSteps_done [OF assms(5,1,2) _ assms(6)]) (simp add: assms(3) oks_follower [OF assms(4)])


section \<open>Returning\<close>

lemma neverBlocks_manager [unblocked]:
  "neverBlocks (checkContext request)" "neverBlocks (ownerOfSession i)" "neverBlocks (bindResumeFlight sid fp ids f)"
  "neverBlocks (finishFlight i e results events hasPending followUp)" "neverBlocks (emitEvent env i event)"
  unfolding checkContext_def ownerOfSession_def bindResumeFlight_def finishFlight_def emitEvent_def
  by (intro unblocked)+

lemma neverBlocks_wrappers [unblocked]:
  "neverBlocks m \<Longrightarrow> neverBlocks (errorOf m)"
  "neverBlocks m \<Longrightarrow> (\<And>x. neverBlocks (f x)) \<Longrightarrow> neverBlocks (orFail i m f)"
  "neverBlocks (releasing owner e)"
  unfolding errorOf_def orFail_def releasing_def by (intro unblocked; assumption?)+

lemma neverBlocks_whileReserved [unblocked]: "neverBlocks m \<Longrightarrow> neverBlocks (whileReserved sid m)"
  unfolding whileReserved_def by (rule neverBlocks_pbind) (auto intro: unblocked split: sum.split)

lemma neverBlocks_handleEvent: "neverBlocks (handleEvent env i event)"
  unfolding handleEvent_def handleToolCall_def by (cases "ev_Type event") (simp_all, (intro unblocked)+)

lemma neverBlocks_runReturned: "neverBlocks (runReturned env i e)"
  unfolding runReturned_def saveOutcome_def publishOutcome_def Let_def
  by (intro unblocked)

lemma neverBlocks_startClaimed [unblocked]: "neverBlocks (startClaimed env request owner restored [] covering batch carry disable)"
  unfolding startClaimed_def Let_def pfor.simps by (intro unblocked)

lemma neverBlocks_Start [unblocked]: "neverBlocks (Start env request)"
  unfolding Start_def startSession_def startReserved_def conversationFor_def billingIDForRequest_def claimAs_def Let_def
  by (intro unblocked)

lemma neverBlocks_StartHistory [unblocked]: "neverBlocks (StartHistory env n request)"
  by (induction n) (simp_all, (intro unblocked | assumption)+)

lemma neverBlocks_lookupFollowUp [unblocked]: "neverBlocks (lookupFollowUpReplay env fp covering followUp)"
  unfolding lookupFollowUpReplay_def by (intro unblocked)

lemma neverBlocks_waitSnapshot [unblocked]: "neverBlocks (waitFollowUpSnapshot env request fp covering n)"
proof (induction n)
  case (Suc n)
  then show ?case unfolding waitFollowUpSnapshot.simps by (intro unblocked)
qed (simp add: unblocked)

lemma neverBlocks_StartFollowUp [unblocked]: "neverBlocks (StartFollowUp env n request covering)"
  unfolding StartFollowUp_def followUpReserved_def followUpClaimed_def conversationFor_def billingIDForRequest_def
    claimAs_def Let_def
  by (intro unblocked)

lemma neverBlocks_Cancel [unblocked]: "neverBlocks (Cancel env request)" "neverBlocks (Park env request)"
  "neverBlocks (CancelState env request)" "neverBlocks (sessionGoroutine env i carry)"
  unfolding CancelState_def Cancel_def Park_def sessionGoroutine_def Let_def by (intro unblocked)+

text \<open>
  In the model no method but \<open>ResumeTools\<close> ends in \<open>Halt\<close>, the one way a process waits for another.  This is about
  the steps of the model only: a critical section is one step here, so that mutexes are never waited for, and
  the polls of \<open>StartHistory\<close> and \<open>waitFollowUpSnapshot\<close> are as many as the call's bound allows, where the code
  polls until the request's context ends.
\<close>

theorem calls_return:
  assumes "\<nexists>ctxFirst n request results. c = CallResumeTools ctxFirst n request results"
  shows "\<exists>r t. runAmid (processOf env c) interference k m = (Some r, t)"
proof (rule neverBlocks_returns)
  show "neverBlocks (processOf env c)"
    using assms
    by (cases c) (auto simp: answering_def finishing_def intro!: unblocked neverBlocks_handleEvent neverBlocks_runReturned)
qed


section \<open>A small system\<close>

definition exampleManaged :: ManagedRequest where
  "exampleManaged = \<lparr>mr_TurnMetering = False, mr_RequestSegmentID = [], mr_SessionID = ''s'', mr_BillingRunID = ''b'',
     mr_CredentialScope = ''scope'', mr_AccountKey = ''key'', mr_ToolCatalogDigest = [], mr_FollowUpText = [],
     mr_ActiveResults = [], mr_CarryUsage = [], mr_RequireExisting = False, mr_ReuseBillingRun = False,
     mr_Context = None, mr_Run = newRunRequest, mr_DisableCallerTools = False\<rparr>"

lemma exampleManaged_fields: "rr_HistoryRequestKey (mr_Run exampleManaged) = []" "mr_SessionID exampleManaged = ''s''"
  by (simp_all add: exampleManaged_def newRunRequest_def)

definition emptyManager :: manager where
  "emptyManager = newSessionManager emptyWorld"

lemma emptyWorld_leases: "leasesOk emptyWorld"
  by (simp add: leasesOk_def emptyWorld_def)

text \<open>A request starts and reserves its session.\<close>

lemma exampleRun:
  "\<exists>m ps. sysSteps exampleStore (emptyManager, []) (m, ps) \<and> mg_starting m = [''s'']"
proof -
  let ?call = "CallStart exampleManaged"
  have call: "sysStep exampleStore (emptyManager, []) (emptyManager, [processOf exampleStore ?call])"
    using sys_call [of emptyManager ?call exampleStore "[]"] by simp
  have "trimSpace ''s'' = ''s''" by code_simp
  then have "\<exists>f p m. processOf exampleStore ?call = Step f \<and> f emptyManager = (p, m) \<and> mg_starting m = [''s'']"
    using exampleManaged_fields
    by (simp add: answering_def Start_def startSession_def Let_def pbnd_def atomic_def
        reserve_def emptyManager_def newSessionManager_def)
  then obtain f p m where f: "processOf exampleStore ?call = Step f" "f emptyManager = (p, m)" "mg_starting m = [''s'']"
    by blast
  have "sysStep exampleStore (emptyManager, [Step f]) (m, [p])"
    using sys_run [of 0 "[Step f]" f emptyManager p m exampleStore] f(2) by simp
  with call f show ?thesis by (metis converse_rtranclp_into_rtranclp r_into_rtranclp)
qed

lemma manager_invariant_witness:
  "\<exists>m ps. sysSteps exampleStore (emptyManager, []) (m, ps) \<and> mg_starting m = [''s''] \<and> managerOk m"
  using exampleRun manager_invariant [OF emptyWorld_leases] unfolding emptyManager_def by blast

lemma outcomes_are_final_witness:
  "\<exists>m ps. sysSteps exampleStore (emptyManager, []) (m, ps) \<and> mg_starting m = [''s'']
    \<and> (\<forall>i < length (mg_sessions m). sessionGrows (sessionAt i m) (sessionAt i m))"
  using exampleRun outcomes_are_final [OF emptyWorld_leases _ rtranclp.rtrancl_refl] unfolding emptyManager_def by blast

text \<open>A flight that has ended, and a submission that has joined it.\<close>

definition exampleReplay :: CompletedReplay where
  "exampleReplay = \<lparr>rp_RequestSegmentID = ''r'', rp_SessionID = ''s'', rp_ConversationID = ''c'', rp_BillingRunID = ''b'',
     rp_OriginalBatch = [''a''], rp_Events = [], rp_HasPending = False, rp_FollowUpText = []\<rparr>"

definition flownManager :: manager where
  "flownManager = emptyManager\<lparr>mg_flightHeap := [\<lparr>rf_key = ''k'', rf_digest = ''d'', rf_done = True,
     rf_replay = Some exampleReplay, rf_err = None\<rparr>]\<rparr>"

lemma follower_gets_outcome_witness:
  "\<exists>m out. sysSteps exampleStore (flownManager, [follower exampleStore False 1 exampleManaged 0]) (m, [Done (Inr (Some out))])
     \<and> replayedFrom exampleStore 0 (ou_output out) m"
proof -
  let ?p = "follower exampleStore False 1 exampleManaged 0"
  have out: "isMeteredTurn ''b'' = False" by code_simp
  have "\<exists>f out m. ?p = Step f \<and> f flownManager = (Done (Inr (Some out)), m)"
    by (simp add: follower_def answering_def followResume_def pbnd_def atomic_def waitedFlight_def bnd_def gets_def ret_def
        ctxErr_def exampleManaged_def flownManager_def flightAt_def emitCompletedReplay_def newSnapshotOutput_out
        exampleReplay_def publicOutput_def refusesMetering_def out pret_def)
  then obtain f out m where f: "?p = Step f" "f flownManager = (Done (Inr (Some out)), m)" by blast
  have run: "sysSteps exampleStore (flownManager, [?p]) (m, [Done (Inr (Some out))])"
    using sys_run [of 0 "[Step f]" f flownManager "Done (Inr (Some out))" m exampleStore] f by auto
  have "safely flownManager ?p"
    unfolding follower_def answering_def followResume_def by (intro safe)
  moreover have "managerOk flownManager"
    using emptyWorld_leases
    by (simp add: managerOk_def flownManager_def emptyManager_def newSessionManager_def tableOk_def attachedOk_def flightsOk_def)
  ultimately have ok: "systemOk (flownManager, [?p])" by (simp add: systemOk_def)
  have "followed exampleStore exampleManaged 0 (Inr (Some out)) m"
    by (rule follower_gets_outcome [OF ok _ _ _ run, of 0 False 1]) (simp_all add: flownManager_def)
  with run show ?thesis by (auto simp: followed_def)
qed

lemma calls_return_witness:
  "\<exists>r t. runAmid (processOf exampleStore (CallPark exampleManaged)) (\<lambda>_ m. m) 0 emptyManager = (Some r, t)"
  by (rule calls_return) simp

end
