(* ===== verification/ManagerCalls.thy ===== *)
theory ManagerCalls
  imports ManagerSafety
begin

text \<open>
  What the methods of the manager do to its state: the end of a run, the tool calls it announces and the
  results it accepts.
\<close>

section \<open>Processes that only use the store\<close>

definition sameBut :: "manager \<Rightarrow> manager \<Rightarrow> bool" where
  "sameBut s t = (t = s\<lparr>mg_store := mg_store t\<rparr>)"

lemma sameBut_simps [simp]: "sameBut s s" "sameBut s (s\<lparr>mg_store := w\<rparr>)"
  by (simp_all add: sameBut_def)

lemma sameBut_trans: "sameBut s t \<Longrightarrow> sameBut t u \<Longrightarrow> sameBut s u"
  unfolding sameBut_def by (metis manager.update_convs(1) manager.surjective manager.select_convs(1))

lemma sameBut_fields:
  assumes "sameBut s t"
  shows "mg_active t = mg_active s" "mg_sessions t = mg_sessions s" "mg_outputs t = mg_outputs s"
    "mg_flights t = mg_flights s" "mg_flightHeap t = mg_flightHeap s" "sessionAt i t = sessionAt i s"
    "outputAt o' t = outputAt o' s" "flightAt f t = flightAt f s"
proof -
  obtain w where t: "t = s\<lparr>mg_store := w\<rparr>" using assms unfolding sameBut_def by blast
  show "mg_active t = mg_active s" "mg_sessions t = mg_sessions s" "mg_outputs t = mg_outputs s"
    "mg_flights t = mg_flights s" "mg_flightHeap t = mg_flightHeap s" "sessionAt i t = sessionAt i s"
    "outputAt o' t = outputAt o' s" "flightAt f t = flightAt f s"
    by (simp_all add: t sessionAt_def outputAt_def flightAt_def)
qed

definition storeOnly :: "'a ma \<Rightarrow> bool" where
  "storeOnly p = (\<forall>s. \<exists>r t. runAlone p s = (Some r, t) \<and> sameBut s t)"

named_theorems storing \<open>introduction rules for storeOnly\<close>

lemma storeOnly_here [storing]:
  "storeOnly (pret x)" "storeOnly (praise e)" "storeOnly (atomic (onStore m))" "storeOnly (atomic (gets g))"
  "storeOnly (ownerOfSession i)"
  by (auto simp: storeOnly_def alone onStore_def gets_def ownerOfSession_def split: prod.split)

lemma storeOnly_pbnd [storing]: "storeOnly m \<Longrightarrow> (\<And>x. storeOnly (f x)) \<Longrightarrow> storeOnly (pbnd m f)"
  unfolding storeOnly_def
proof
  fix s
  assume m: "\<forall>s. \<exists>r t. runAlone m s = (Some r, t) \<and> sameBut s t"
    and f: "\<And>x. \<forall>s. \<exists>r t. runAlone (f x) s = (Some r, t) \<and> sameBut s t"
  obtain r t where m': "runAlone m s = (Some r, t)" "sameBut s t" using m by blast
  show "\<exists>r t. runAlone (pbnd m f) s = (Some r, t) \<and> sameBut s t"
  proof (cases r)
    case (Inr x)
    obtain r' u where "runAlone (f x) t = (Some r', u)" "sameBut t u" using f by blast
    with m' Inr show ?thesis by (auto simp: alone intro: sameBut_trans)
  qed (use m' in \<open>simp add: alone\<close>)
qed

lemma storeOnly_cases [storing]:
  "(b \<Longrightarrow> storeOnly p) \<Longrightarrow> (\<not> b \<Longrightarrow> storeOnly q) \<Longrightarrow> storeOnly (if b then p else q)"
  by simp

text \<open>\<open>errorOf\<close> never fails.\<close>

lemma errorOf_alone: "storeOnly m \<Longrightarrow> \<exists>e t. runAlone (errorOf m) s = (Some (Inr e), t) \<and> sameBut s t"
  unfolding storeOnly_def errorOf_def by (auto simp: alone split: sum.split dest!: spec [of _ s])

text \<open>A process that only uses the store and does not fail.\<close>

lemma storeOnly_errorOf [storing]: "storeOnly m \<Longrightarrow> storeOnly (errorOf m)"
  using errorOf_alone unfolding storeOnly_def by blast

section \<open>The end of a run\<close>

text \<open>What closing a session takes out of it.\<close>

definition takenFrom :: "managedSession \<Rightarrow> closing" where
  "takenFrom c = \<lparr>cs_output = ms_output c, cs_pendingCount = length (ms_pending c), cs_terminalEvent = ms_terminalEvent c,
     cs_segmentResults = ms_segmentResults c, cs_segmentEvents = es_events (ms_segmentSnapshot c),
     cs_snapshotFollowUp = ms_snapshotFollowUp c, cs_segmentBatch = ms_segmentBatch c\<rparr>"

text \<open>
  The one error of a run that has returned, written over the session as the run leaves it: a failure of the
  session itself, else the error of the run, else that of the save the run owes, if it owes one.
\<close>

definition owedSave :: "storeEnv \<Rightarrow> managedSession \<Rightarrow> unit st option" where
  "owedSave env c =
     (if rr_HistoryRequestKey (ms_request c) \<noteq> []
      then Some (SaveHistory env (ms_owner c) (rr_HistoryRequestKey (ms_request c)) (es_events (ms_segmentSnapshot c)))
      else if ms_segmentResults c \<noteq> []
      then Some (SaveCompleted env (ms_owner c)
             (case toolResultsForBatch (ms_segmentResults c) (ms_segmentBatch c) of
                Some ofBatch \<Rightarrow> ofBatch | None \<Rightarrow> ms_segmentResults c)
             (es_events (ms_segmentSnapshot c)) (rr_DeleteCompletedState (ms_request c) \<and> ms_pending c = [])
             (ms_snapshotFollowUp c))
      else None)"

definition failureOf :: "'a st \<Rightarrow> world \<Rightarrow> err option" where
  "failureOf m w = (case fst (m w) of Inl e \<Rightarrow> Some e | Inr _ \<Rightarrow> None)"

definition finalError :: "storeEnv \<Rightarrow> managedSession \<Rightarrow> err option \<Rightarrow> world \<Rightarrow> err option" where
  "finalError env c runError w = (case ms_stateErr c of Some e \<Rightarrow> Some e
     | None \<Rightarrow> case runError of Some e \<Rightarrow> Some e
     | None \<Rightarrow> case owedSave env c of None \<Rightarrow> None | Some save \<Rightarrow> failureOf save w)"

lemma errorOf_store: "runAlone (errorOf (atomic (onStore m))) s
    = (Some (Inr (failureOf m (mg_store s))), s\<lparr>mg_store := snd (m (mg_store s))\<rparr>)"
  by (simp add: errorOf_def alone onStore_def failureOf_def split: prod.split sum.split)

lemma saveOutcome_alone:
  assumes "c = takenFrom d" "ms_owner (sessionAt i s) = ms_owner d"
  shows "\<exists>results t. runAlone (saveOutcome env i (ms_request d) c (case ms_stateErr d of Some e \<Rightarrow> Some e | None \<Rightarrow> e0)) s
      = (Some (Inr (finalError env d e0 (mg_store s), results)), t) \<and> sameBut s t"
  using assms
  by (auto simp: saveOutcome_def alone ownerOfSession_def gets_def Let_def errorOf_store finalError_def owedSave_def
      takenFrom_def segmentAccepted_def split: option.split)

text \<open>What the reader of the run's output finds.\<close>

definition outcomeOf :: "err option \<Rightarrow> Event option \<Rightarrow> managedOutput \<Rightarrow> managedOutput" where
  "outcomeOf e terminal c = (if mo_closed c then c else
     let full = (length (mo_sent c) - mo_received c \<ge> mo_capacity c) in
     c\<lparr>mo_closed := True,
       mo_sent := mo_sent c @ (case terminal of Some event \<Rightarrow> if e = None \<and> \<not> full then [event] else [] | None \<Rightarrow> []),
       mo_result := mo_result c @ [if e = None \<and> terminal \<noteq> None \<and> full then Some downstreamFull else e]\<rparr>)"

lemma publish_alone:
  assumes "o' < length (mg_outputs s)" "cs_output c = Some o'"
  shows "\<exists>t. runAlone (publishOutcome c e) s = (Some (Inr ()), t) \<and> outputAt o' t = outcomeOf e (cs_terminalEvent c) (outputAt o' s)
     \<and> mg_sessions t = mg_sessions s \<and> mg_active t = mg_active s \<and> mg_flightHeap t = mg_flightHeap s"
proof -
  show ?thesis
    using assms
    by (cases e; cases "cs_terminalEvent c"; cases "mo_closed (outputAt o' s)";
        cases "length (mo_sent (outputAt o' s)) - mo_received (outputAt o' s) < mo_capacity (outputAt o' s)")
      (simp_all add: publishOutcome_def alone sendOutput_def Let_def closeOutput_def modify_def outcomeOf_def)
qed

lemma publish_none: "cs_output c = None \<Longrightarrow> runAlone (publishOutcome c e) s = (Some (Inr ()), s)"
  by (simp add: publishOutcome_def alone)

lemma endFlight_out:
  obtains t where "endResumeFlight fp ids f replay e s = (Inr (), t)" "mg_sessions t = mg_sessions s"
    "mg_active t = mg_active s" "mg_outputs t = mg_outputs s"
    "f < length (mg_flightHeap s) \<longrightarrow> rf_done (flightAt f t) \<and> (\<not> rf_done (flightAt f s) \<longrightarrow> rf_err (flightAt f t) = e)"
  by (auto simp: endResumeFlight_def modify_def Let_def flightAt_def)

lemma finishFlight_alone:
  obtains t where "runAlone (finishFlight i e results events hasPending followUp) s = (Some (Inr ()), t)"
    "\<And>j. sessionAt j t = (if j = i \<and> i < length (mg_sessions s) then (sessionAt i s)\<lparr>ms_flight := None,
       ms_flightFingerprint := [], ms_flightBatch := []\<rparr> else sessionAt j s)"
    "length (mg_sessions t) = length (mg_sessions s)"
    "mg_active t = mg_active s" "mg_outputs t = mg_outputs s"
    "\<forall>f. ms_flight (sessionAt i s) = Some f \<longrightarrow> f < length (mg_flightHeap s) \<longrightarrow>
       rf_done (flightAt f t) \<and> (\<not> rf_done (flightAt f s) \<longrightarrow> rf_err (flightAt f t) = e)"
proof -
  let ?g = "\<lambda>c. c\<lparr>ms_flight := None, ms_flightFingerprint := [], ms_flightBatch := []\<rparr>"
  let ?u = "updSession i ?g s"
  show ?thesis
  proof (cases "ms_flight (sessionAt i s)")
    case None
    then show ?thesis
      by (intro that [of ?u]) (simp_all add: finishFlight_def alone takeFlight_def Let_def)
  next
    case (Some f)
    let ?c = "sessionAt i s"
    obtain t where t: "endResumeFlight (ms_flightFingerprint ?c) (ms_flightBatch ?c) f
          (flightReplay (ms_owner (sessionAt i ?u)) (ms_flightBatch ?c) e results events hasPending followUp) e ?u = (Inr (), t)"
        "mg_sessions t = mg_sessions ?u" "mg_active t = mg_active ?u" "mg_outputs t = mg_outputs ?u"
        "f < length (mg_flightHeap ?u) \<longrightarrow> rf_done (flightAt f t) \<and> (\<not> rf_done (flightAt f ?u) \<longrightarrow> rf_err (flightAt f t) = e)"
      by (rule endFlight_out)
    have at: "sessionAt j t = sessionAt j ?u" for j using t(2) by (simp add: sessionAt_def [abs_def])
    show ?thesis
      by (rule that [of t]) (use t Some in \<open>simp_all add: finishFlight_def alone takeFlight_def Let_def gets_def at\<close>)
  qed
qed


text \<open>A run that is over is not in the table.\<close>

lemma removed_active:
  assumes "distinct (map fst (mg_active s))"
    "\<And>k. (k, i) \<in> set (mg_active s) \<Longrightarrow> k = ol_SessionID (ms_owner (sessionAt i s))"
  shows "i \<notin> snd ` set (mg_active (snd (removeActive i s)))"
proof
  let ?sid = "ol_SessionID (ms_owner (sessionAt i s))"
  assume "i \<in> snd ` set (mg_active (snd (removeActive i s)))"
  then obtain k where k: "(k, i) \<in> set (mg_active (snd (removeActive i s)))" by auto
  then have "(k, i) \<in> set (mg_active s)"
    using set_delete_subset [of ?sid "mg_active s"] by (auto simp: removeActive_def modify_def Let_def split: if_splits)
  with assms have "k = ?sid" "map_of (mg_active s) k = Some i" by auto
  with k show False by (auto simp: removeActive_def modify_def Let_def AList.delete_eq)
qed

text \<open>The first half of what follows \<open>Runner.Run\<close>: the session is closed, the segment saved, the flight ended.\<close>

definition ended :: "nat \<Rightarrow> managedSession \<Rightarrow> err option \<Rightarrow> manager \<Rightarrow> manager \<Rightarrow> bool" where
  "ended i c e s t = (ms_closed (sessionAt i t) \<and> ms_output (sessionAt i t) = None
     \<and> ol_SessionID (ms_owner (sessionAt i t)) = ol_SessionID (ms_owner c)
     \<and> mg_active t = mg_active s \<and> mg_outputs t = mg_outputs s \<and> length (mg_sessions t) = length (mg_sessions s)
     \<and> (\<forall>f. ms_flight c = Some f \<longrightarrow> f < length (mg_flightHeap s) \<longrightarrow>
          rf_done (flightAt f t) \<and> (\<not> rf_done (flightAt f s) \<longrightarrow> rf_err (flightAt f t) = e)))"

lemma ended_sameBut: "ended i c e s t \<Longrightarrow> sameBut t u \<Longrightarrow> ended i c e s u"
  using sameBut_fields [of t u] by (simp add: ended_def)

lemma run_ends:
  assumes i: "i < length (mg_sessions s)"
  obtains s1 results s2 s3 where
    "closeSession i s = (Inr (takenFrom (sessionAt i s)), s1)" "ms_request (sessionAt i s1) = ms_request (sessionAt i s)"
    "runAlone (saveOutcome env i (ms_request (sessionAt i s)) (takenFrom (sessionAt i s))
        (case ms_stateErr (sessionAt i s) of Some e \<Rightarrow> Some e | None \<Rightarrow> e0)) s1
      = (Some (Inr (finalError env (sessionAt i s) e0 (mg_store s), results)), s2)"
    "runAlone (finishFlight i (finalError env (sessionAt i s) e0 (mg_store s)) results
        (es_events (ms_segmentSnapshot (sessionAt i s))) (ms_pending (sessionAt i s) \<noteq> [])
        (ms_snapshotFollowUp (sessionAt i s))) s2 = (Some (Inr ()), s3)"
    "ended i (sessionAt i s) (finalError env (sessionAt i s) e0 (mg_store s)) s s3"
proof -
  let ?c = "sessionAt i s" and ?e = "finalError env (sessionAt i s) e0 (mg_store s)"
  define s1 where "s1 = snd (closeSession i s)"
  have s1: "closeSession i s = (Inr (takenFrom ?c), s1)" "ms_closed (sessionAt i s1)" "ms_output (sessionAt i s1) = None"
    "ms_flight (sessionAt i s1) = ms_flight ?c" "ms_owner (sessionAt i s1) = ms_owner ?c"
    "ms_request (sessionAt i s1) = ms_request ?c" "mg_active s1 = mg_active s" "mg_outputs s1 = mg_outputs s"
    "mg_flightHeap s1 = mg_flightHeap s" "length (mg_sessions s1) = length (mg_sessions s)" "mg_store s1 = mg_store s"
    using i by (simp_all add: s1_def closeSession_def Let_def takenFrom_def)
  obtain results s2 where s2: "runAlone (saveOutcome env i (ms_request ?c) (takenFrom ?c)
      (case ms_stateErr ?c of Some e \<Rightarrow> Some e | None \<Rightarrow> e0)) s1 = (Some (Inr (?e, results)), s2)" "sameBut s1 s2"
    using saveOutcome_alone [OF refl s1(5), of env e0] s1(11) by auto
  note same = sameBut_fields [OF s2(2)]
  obtain s3 where s3: "runAlone (finishFlight i ?e results (es_events (ms_segmentSnapshot ?c)) (ms_pending ?c \<noteq> [])
        (ms_snapshotFollowUp ?c)) s2 = (Some (Inr ()), s3)"
    "\<And>j. sessionAt j s3 = (if j = i \<and> i < length (mg_sessions s2) then (sessionAt i s2)\<lparr>ms_flight := None,
       ms_flightFingerprint := [], ms_flightBatch := []\<rparr> else sessionAt j s2)"
    "length (mg_sessions s3) = length (mg_sessions s2)" "mg_active s3 = mg_active s2" "mg_outputs s3 = mg_outputs s2"
    "\<forall>f. ms_flight (sessionAt i s2) = Some f \<longrightarrow> f < length (mg_flightHeap s2) \<longrightarrow>
       rf_done (flightAt f s3) \<and> (\<not> rf_done (flightAt f s2) \<longrightarrow> rf_err (flightAt f s3) = ?e)"
    using finishFlight_alone by blast
  have "ended i ?c ?e s s3"
    using s1 s3(2-6) same by (simp add: ended_def flightAt_def)
  then show ?thesis by (rule that [OF s1(1,6) s2(1) s3(1)])
qed

text \<open>The second half: the lease is given back, the session leaves the table, the reader gets the outcome.\<close>

lemma removed_alone:
  assumes ok: "managerOk s" and e: "ended i (sessionAt i s) e s u"
  obtains v where "removeActive i u = (Inr (), v)" "ended i (sessionAt i s) e s (v\<lparr>mg_active := mg_active s\<rparr>)"
    "i \<notin> snd ` set (mg_active v)"
proof -
  have t: "tableOk s" using ok by (simp add: managerOk_def)
  have "i \<notin> snd ` set (mg_active (snd (removeActive i u)))"
    by (rule removed_active) (use t e in \<open>auto simp: ended_def tableOk_def\<close>)
  moreover have "ended i (sessionAt i s) e s ((snd (removeActive i u))\<lparr>mg_active := mg_active s\<rparr>)"
    using e by (simp add: ended_def removeActive_def modify_def Let_def sessionAt_def flightAt_def)
  ultimately show ?thesis by (intro that [of "snd (removeActive i u)"]) (simp_all add: removeActive_def modify_def Let_def)
qed

lemma outcome_published:
  assumes ok: "managerOk s" "i < length (mg_sessions s)" and out: "mg_outputs v = mg_outputs s"
  obtains t where "runAlone (publishOutcome (takenFrom (sessionAt i s)) e) v = (Some (Inr ()), t)"
    "mg_sessions t = mg_sessions v" "mg_active t = mg_active v" "mg_flightHeap t = mg_flightHeap v"
    "\<forall>o'. ms_output (sessionAt i s) = Some o' \<longrightarrow>
       outputAt o' t = outcomeOf e (ms_terminalEvent (sessionAt i s)) (outputAt o' s)"
proof (cases "ms_output (sessionAt i s)")
  case None
  then show ?thesis using publish_none [of "takenFrom (sessionAt i s)" e v] that [of v] by (simp add: takenFrom_def)
next
  case (Some o')
  then have "o' < length (mg_outputs v)" using attached_range [OF ok(1) Some ok(2)] by (simp add: out)
  moreover have "outputAt o' v = outputAt o' s" by (simp add: outputAt_def out)
  ultimately show ?thesis
    using publish_alone [of o' v "takenFrom (sessionAt i s)" e] Some that by (auto simp: takenFrom_def)
qed

text \<open>
  C9: Nobody waits for a run that has returned.  When nothing interferes, the code after \<open>Runner.Run\<close>
  returns, whatever the saves of the store do; then the session is closed, has no output and is not in the
  table.  There is one error, the session's own failure, else the run's, else that of the save the run owes:
  of \<open>SaveHistory\<close> when the request has a history key, of \<open>SaveCompleted\<close> when the run had tool results
  to answer.  Everybody gets this error: the flight bound to the session has ended with it, and the reader of the
  output finds the output closed with it, the terminal event being sent only when there is none.
\<close>

theorem run_end_reaches_everyone:
  assumes ok: "managerOk s" "i < length (mg_sessions s)"
  shows "\<exists>e t. runAlone (runReturned env i e0) s = (Some (Inr ()), t)
    \<and> ms_closed (sessionAt i t) \<and> ms_output (sessionAt i t) = None \<and> i \<notin> snd ` set (mg_active t)
    \<and> e = finalError env (sessionAt i s) e0 (mg_store s)
    \<and> (\<forall>o'. ms_output (sessionAt i s) = Some o' \<longrightarrow>
         outputAt o' t = outcomeOf e (ms_terminalEvent (sessionAt i s)) (outputAt o' s))
    \<and> (\<forall>f. ms_flight (sessionAt i s) = Some f \<longrightarrow> f < length (mg_flightHeap s) \<longrightarrow>
         rf_done (flightAt f t) \<and> (\<not> rf_done (flightAt f s) \<longrightarrow> rf_err (flightAt f t) = e))"
proof -
  let ?c = "sessionAt i s" and ?e = "finalError env (sessionAt i s) e0 (mg_store s)"
  obtain s1 results s2 s3 where first: "closeSession i s = (Inr (takenFrom ?c), s1)"
      "ms_request (sessionAt i s1) = ms_request ?c"
      "runAlone (saveOutcome env i (ms_request ?c) (takenFrom ?c) (case ms_stateErr ?c of Some e \<Rightarrow> Some e | None \<Rightarrow> e0)) s1
        = (Some (Inr (?e, results)), s2)"
      "runAlone (finishFlight i ?e results (es_events (ms_segmentSnapshot ?c)) (ms_pending ?c \<noteq> []) (ms_snapshotFollowUp ?c)) s2
        = (Some (Inr ()), s3)"
    and s3: "ended i ?c ?e s s3"
    using run_ends [OF ok(2), of env e0] by blast
  let ?b = "?e = None \<and> rr_HistoryRequestKey (ms_request ?c) = [] \<and> rr_DeleteCompletedState (ms_request ?c)
     \<and> ms_pending ?c = [] \<and> results = []"
  let ?owner = "ms_owner (sessionAt i s3)"
  obtain d s4 where s4: "runAlone (if ?b then errorOf (atomic (onStore (Delete env ?owner))) else pret None) s3
      = (Some (Inr d), s4)" "sameBut s3 s4"
    by (cases ?b) (auto simp: alone errorOf_store)
  obtain l s5 where s5: "runAlone (errorOf (atomic (onStore (Release ?owner)))) s4 = (Some (Inr l), s5)" "sameBut s4 s5"
    by (simp add: errorOf_store)
  obtain s6 where s6: "removeActive i s5 = (Inr (), s6)" "ended i ?c ?e s (s6\<lparr>mg_active := mg_active s\<rparr>)"
      "i \<notin> snd ` set (mg_active s6)"
    using removed_alone [OF ok(1) ended_sameBut [OF ended_sameBut [OF s3 s4(2)] s5(2)]] by blast
  obtain s7 where s7: "runAlone (publishOutcome (takenFrom ?c) ?e) s6 = (Some (Inr ()), s7)" "mg_sessions s7 = mg_sessions s6"
      "mg_active s7 = mg_active s6" "mg_flightHeap s7 = mg_flightHeap s6"
      "\<forall>o'. ms_output ?c = Some o' \<longrightarrow> outputAt o' s7 = outcomeOf ?e (ms_terminalEvent ?c) (outputAt o' s)"
    using outcome_published [OF ok, of s6 ?e] s6(2) by (auto simp: ended_def)
  let ?t = "updSession i (\<lambda>c. c\<lparr>ms_cancelled := True\<rparr>) s7"
  have "runAlone (runReturned env i e0) s = (Some (Inr ()), ?t)"
    using first s4(1) s5(1) s6(1) s7(1)
    by (simp add: runReturned_def alone gets_def ownerOfSession_def modify_def takenFrom_def)
  moreover have "sessionAt j s7 = sessionAt j (s6\<lparr>mg_active := mg_active s\<rparr>)"
    "flightAt f s7 = flightAt f (s6\<lparr>mg_active := mg_active s\<rparr>)" for j f
    by (simp_all add: sessionAt_def flightAt_def s7(2,4))
  ultimately show ?thesis
    using s6(2,3) s7(3,5) by (intro exI [of _ ?e] exI [of _ ?t]) (simp add: ended_def)
qed

text \<open>
  A flight is bound to its session after the session has been started.  When the session is over by
  then, the bind does nothing: no run will end the flight.
\<close>

lemma bind_after_end: "map_of (mg_active s) sessionID = None \<Longrightarrow> runAlone (bindResumeFlight sessionID fp ids f) s = (Some (Inr ()), s)"
  by (simp add: bindResumeFlight_def alone gets_def)

section \<open>Results for a parked session\<close>

lemma resultsFor_some: "resultsFor results ids = Some rs \<Longrightarrow> map tr_ToolCallID rs = ids \<and> set rs \<subseteq> set results"
proof (induction ids arbitrary: rs)
  case (Cons i ids)
  then obtain r rs' where r: "find (\<lambda>r. tr_ToolCallID r = i) results = Some r" "resultsFor results ids = Some rs'" "rs = r # rs'"
    by (auto split: option.splits)
  then have "tr_ToolCallID r = i" "r \<in> set results" by (auto simp: find_Some_iff)
  with Cons.IH [OF r(2)] r(3) show ?case by simp
qed simp

lemma filterPendingMap_some:
  assumes "filterPendingMapResults pending results = Some rs"
  shows "map tr_ToolCallID rs = sort (map fst pending)" "set rs \<subseteq> set results"
proof -
  from assms obtain xs where xs: "resultsFor results (map fst pending) = Some xs" "rs = sort_key tr_ToolCallID xs"
    by (auto simp: filterPendingMapResults_def split: if_splits)
  note x = resultsFor_some [OF xs(1)]
  have "map tr_ToolCallID (sort_key tr_ToolCallID xs) = sort (map tr_ToolCallID xs)"
    by (rule properties_for_sort [symmetric]) (simp_all only: mset_map mset_sort sorted_sort_key)
  with x xs(2) show "map tr_ToolCallID rs = sort (map fst pending)" "set rs \<subseteq> set results" by simp_all
qed

text \<open>What emitting leaves of a session.\<close>

definition queueSame :: "nat \<Rightarrow> manager \<Rightarrow> manager \<Rightarrow> bool" where
  "queueSame i s t = (length (mg_sessions t) = length (mg_sessions s)
     \<and> ms_toolResults (sessionAt i t) = ms_toolResults (sessionAt i s)
     \<and> ms_pending (sessionAt i t) = ms_pending (sessionAt i s) \<and> ms_output (sessionAt i t) = ms_output (sessionAt i s))"

lemma queueSame_trans: "queueSame i s t \<Longrightarrow> queueSame i t u \<Longrightarrow> queueSame i s u"
  by (simp add: queueSame_def)

lemma emitEvent_alone: "\<exists>t. runAlone (emitEvent env i event) s = (Some (Inr ()), t) \<and> queueSame i s t"
proof -
  have fail: "\<exists>t. failState i e u = (Inr (), t) \<and> queueSame i u t" for e u
    by (simp add: failState_def modify_def queueSame_def)
  obtain r u where r: "emitLocked env i event s = (Inr r, u)" and u: "queueSame i s u"
    by (cases "emitLocked env i event s")
      (auto simp: emitLocked_def Let_def queueSame_def split: if_splits sum.splits)
  show ?thesis
  proof (cases r)
    case (Inl e)
    with r u fail [of e u] show ?thesis by (auto simp: emitEvent_def alone intro: queueSame_trans)
  next
    case (Inr out)
    show ?thesis
    proof (cases out)
      case (Some o')
      obtain sent v where v: "sendOutput o' event u = (Inr sent, v)" "queueSame i u v"
        by (cases "sendOutput o' event u") (auto simp: sendOutput_def Let_def queueSame_def split: if_splits)
      with Some Inr r u fail [of downstreamFull v] show ?thesis
        by (cases "sent = outputSendFull") (auto simp: emitEvent_def alone intro: queueSame_trans [OF queueSame_trans] queueSame_trans)
    qed (use r u Inr in \<open>simp add: emitEvent_def alone\<close>)
  qed
qed

lemma emitAll_alone: "\<exists>t. runAlone (pfor events (emitEvent env i)) s = (Some (Inr ()), t) \<and> queueSame i s t"
proof (induction events arbitrary: s)
  case (Cons event events)
  obtain t where "runAlone (emitEvent env i event) s = (Some (Inr ()), t)" "queueSame i s t"
    using emitEvent_alone by blast
  with Cons.IH [of t] show ?case by (auto simp: alone intro: queueSame_trans)
qed (simp add: alone queueSame_def)

lemma pushResults_alone:
  assumes "runAlone (pushResults i o' rs) s = (Some (Inr ()), t)" "i < length (mg_sessions s)"
  shows "ms_toolResults (sessionAt i t) = ms_toolResults (sessionAt i s) @ rs \<and> ms_output (sessionAt i t) = ms_output (sessionAt i s)
     \<and> ms_pending (sessionAt i t) = ms_pending (sessionAt i s)"
  using assms
proof (induction rs arbitrary: s)
  case (Cons r rs)
  show ?case
  proof (cases "length (ms_toolResults (sessionAt i s)) \<ge> maxPendingTools")
    case True
    with Cons.prems show ?thesis by (simp add: alone pushResult_def Let_def detach_def closeOutput_def modify_def)
  next
    case False
    let ?u = "updSession i (\<lambda>c. c\<lparr>ms_toolResults := ms_toolResults c @ [r]\<rparr>) s"
    have "runAlone (pushResults i o' rs) ?u = (Some (Inr ()), t)"
      using Cons.prems(1) False by (simp add: alone pushResult_def Let_def)
    from Cons.IH [OF this] Cons.prems(2) show ?thesis by simp
  qed
qed (simp add: alone)


text \<open>
  C11: A resumed session gets an answer for each of its pending tools and nothing else: when \<open>resume\<close>
  succeeds with nobody interfering, the session was parked and open, it now has the output the caller was
  given, and behind what was queued already the runner finds one result for every pending tool, in the order
  of their identifiers, each taken from the submission and carrying the identifier the runner knows.
\<close>

theorem resume_queues_pending_results:
  assumes "i < length (mg_sessions s)" "runAlone (resume env i results batch segment req disable) s = (Some (Inr out), t)"
  shows "\<not> ms_closed (sessionAt i s) \<and> ms_output (sessionAt i s) = None \<and> ms_output (sessionAt i t) = Some (ou_output out)
    \<and> (\<exists>rs. map tr_ToolCallID rs = sort (map fst (ms_pending (sessionAt i s))) \<and> set rs \<subseteq> set results
         \<and> ms_toolResults (sessionAt i t) = ms_toolResults (sessionAt i s)
             @ map (upstreamToolResult (ms_pending (sessionAt i s))) rs)"
proof -
  let ?c = "sessionAt i s"
  obtain filtered where check: "resumeCheck i results s = (Inr (ms_owner ?c, filtered), s)"
    "filterPendingMapResults (ms_pending ?c) results = Some filtered" "\<not> ms_closed ?c" "ms_output ?c = None"
    using assms(2) by (auto simp: resume_def alone resumeCheck_def Let_def split: if_splits option.splits)
  define seg where "seg = (if isMeteredTurn (ol_BillingRunID (ms_owner ?c)) then ol_BillingRunID (ms_owner ?c) else req)"
  let ?bill = "if trimSpace seg \<noteq> [] \<and> seg \<noteq> ol_BillingRunID (ms_owner ?c)
    then atomic (onStore (SetBillingRunID env (ms_owner ?c) seg)) else pret ()"
  have "storeOnly ?bill" by (intro storing)
  then obtain b u where u: "runAlone ?bill s = (Some b, u)" "sameBut s u" unfolding storeOnly_def by blast
  have run: "runAlone (pbnd (atomic (resumeCommit i filtered results batch segment req seg disable)) (\<lambda>r.
       pbnd (pfor (re_carry r) (emitEvent env i)) (\<lambda>_. pbnd (pushResults i (re_output r) (re_upstream r)) (\<lambda>_.
       pret ((publicOutput (re_output r) (re_sessionID r) (re_billingRunID r))\<lparr>
         ou_RequestSegmentID := req, ou_OriginalBatch := re_batch r\<rparr>))))) u = (Some (Inr out), t)"
    using assms(2) check(1) u(1)
    by (cases b) (simp_all add: resume_def alone Let_def seg_def [symmetric] split: if_splits)
  have at: "sessionAt i u = ?c" "mg_sessions u = mg_sessions s" using sameBut_fields [OF u(2)] by simp_all
  have same: "sessionAt i (u\<lparr>mg_outputs := x\<rparr>) = sessionAt i u" for x by (simp add: sessionAt_def)
  have "\<exists>r v. resumeCommit i filtered results batch segment req seg disable u = (Inr r, v)
      \<and> re_upstream r = map (upstreamToolResult (ms_pending ?c)) filtered \<and> ms_output (sessionAt i v) = Some (re_output r)
      \<and> ms_toolResults (sessionAt i v) = ms_toolResults ?c \<and> length (mg_sessions v) = length (mg_sessions s)"
    using check(3,4) assms(1) at
    by (simp add: resumeCommit_def Let_def newManagedOutput_def newOutput_out same)
  then obtain r v where v: "resumeCommit i filtered results batch segment req seg disable u = (Inr r, v)"
    "re_upstream r = map (upstreamToolResult (ms_pending ?c)) filtered" "ms_output (sessionAt i v) = Some (re_output r)"
    "ms_toolResults (sessionAt i v) = ms_toolResults ?c" "length (mg_sessions v) = length (mg_sessions s)"
    by blast
  obtain w where w: "runAlone (pfor (re_carry r) (emitEvent env i)) v = (Some (Inr ()), w)" "queueSame i v w"
    using emitAll_alone by blast
  obtain x where x: "runAlone (pushResults i (re_output r) (re_upstream r)) w = (Some (Inr ()), t)" "ou_output out = re_output r"
    using run v(1) w(1) by (auto simp: alone publicOutput_def split: prod.splits option.splits sum.splits)
  from pushResults_alone [OF x(1)] w(2) v assms(1)
  have "ms_output (sessionAt i t) = Some (ou_output out)"
    "ms_toolResults (sessionAt i t) = ms_toolResults ?c @ map (upstreamToolResult (ms_pending ?c)) filtered"
    using x(2) by (simp_all add: queueSame_def)
  with check(3,4) filterPendingMap_some [OF check(2)] show ?thesis by blast
qed


section \<open>Tool calls\<close>

lemma findPublic_append: "findPublicToolCallID (xs @ ys) u = (case findPublicToolCallID xs u of Some p \<Rightarrow> Some p
    | None \<Rightarrow> findPublicToolCallID ys u)"
  by (induction xs) (auto simp: findPublicToolCallID_def)

lemma update_append: "k \<notin> fst ` set xs \<Longrightarrow> AList.update k v xs = xs @ [(k, v)]"
  by (induction xs) auto

lemma storeOnly_routed [storing]: "storeOnly (atomic (routedAgentV1ToolCallID env u c))"
  by (auto simp: storeOnly_def alone routedAgentV1ToolCallID_def bnd_def onStore_def ret_def split: prod.split sum.split)

lemma orFail_alone: "runAlone (orFail i (atomic m) f) s = (case m s of (Inl e, t) \<Rightarrow> (Some (Inr ()), snd (failState i e t))
    | (Inr x, t) \<Rightarrow> runAlone (f x) t)"
  by (auto simp: orFail_def alone failState_def modify_def split: prod.split sum.split)

lemma failState_pending: "ms_pending (sessionAt j (snd (failState i e s))) = ms_pending (sessionAt j s)"
  by (simp add: failState_def modify_def)

lemma addPending_out:
  assumes "addPending i tool s = (r, t)"
  shows "r = Inr True \<and> map_of (ms_pending (sessionAt i s)) (pt_ToolCallID tool) = None
      \<and> t = updSession i (\<lambda>c. c\<lparr>ms_pending := AList.update (pt_ToolCallID tool) tool (ms_pending c)\<rparr>) s
    \<or> r \<noteq> Inr True \<and> t = s"
  using assms by (auto simp: addPending_def Let_def split: if_splits)

text \<open>What a session does with a tool call.\<close>

lemma handleToolCall_alone:
  assumes "runAlone (handleToolCall env i event call) s = (Some r, t)" "i < length (mg_sessions s)"
    "ms_pending (sessionAt i t) \<noteq> ms_pending (sessionAt i s)"
  obtains public where "findPublicToolCallID (ms_pending (sessionAt i s)) (trimSpace (tc_ToolCallID call)) = None"
    "map_of (ms_pending (sessionAt i s)) public = None"
    "ms_pending (sessionAt i t) = AList.update public (pendingToolOf call public) (ms_pending (sessionAt i s))"
proof -
  let ?c = "sessionAt i s" and ?u = "trimSpace (tc_ToolCallID call)"
  let ?id = "if rr_RouteUserID (ms_request ?c) > 0 \<and> rr_RouteChannelID (ms_request ?c) > 0
     then atomic (routedAgentV1ToolCallID env (rr_RouteUserID (ms_request ?c)) (rr_RouteChannelID (ms_request ?c))) else pret ?u"
  have known: "findPublicToolCallID (ms_pending ?c) ?u = None" "\<not> ms_disableCallerTools ?c"
    using assms(1,3) unfolding handleToolCall_def orFail_alone
    by (auto simp: knownCall_def Let_def failState_pending alone split: if_splits)
  have "storeOnly ?id" by (intro storing)
  then obtain x v where x: "runAlone ?id s = (Some x, v)" "sameBut s v" unfolding storeOnly_def by blast
  note at = sameBut_fields(2,6) [OF x(2)]
  from assms(1) known x(1) have rest: "case x of Inl e \<Rightarrow> t = v
      | Inr public \<Rightarrow> runAlone (orFail i (atomic (addPending i (pendingToolOf call public))) (\<lambda>added. if \<not> added then pret ()
         else emitEvent env i (event\<lparr>ev_ToolCall := Some (call\<lparr>tc_ToolCallID := public\<rparr>)\<rparr>))) v = (Some r, t)"
    unfolding handleToolCall_def orFail_alone [of _ "knownCall _ _"]
    by (simp add: alone knownCall_def Let_def gets_def split: sum.splits)
  show ?thesis
  proof (cases x)
    case (Inr public)
    let ?tool = "pendingToolOf call public"
    have new: "pt_ToolCallID ?tool = public" by (simp add: pendingToolOf_def)
    let ?w = "updSession i (\<lambda>c. c\<lparr>ms_pending := AList.update public ?tool (ms_pending c)\<rparr>) v"
    obtain a w where add: "addPending i ?tool v = (a, w)" by fastforce
    show ?thesis
    proof (cases "a = Inr True")
      case True
      with addPending_out [OF add] have w: "map_of (ms_pending ?c) public = None" "w = ?w" by (simp_all add: new at)
      from rest Inr add True have "runAlone (emitEvent env i (event\<lparr>ev_ToolCall := Some (call\<lparr>tc_ToolCallID := public\<rparr>)\<rparr>)) w
          = (Some r, t)"
        by (simp add: orFail_alone)
      then have "queueSame i w t" using emitEvent_alone by (metis prod.inject)
      then have "ms_pending (sessionAt i t) = AList.update public ?tool (ms_pending ?c)"
        using assms(2) at w by (simp add: queueSame_def)
      with that known(1) w(1) show ?thesis by blast
    next
      case False
      with addPending_out [OF add] have "w = v" by simp
      with False rest Inr add at have "ms_pending (sessionAt i t) = ms_pending ?c"
        by (cases a) (auto simp: orFail_alone alone failState_pending at)
      with assms(3) show ?thesis by simp
    qed
  qed (use rest assms(3) at in simp)
qed

lemma map_of_snoc: "map_of (xs @ [(p, x)]) k
    = (if k \<in> fst ` set xs then map_of xs k else if k = p then Some x else None)"
  by (induction xs) auto

text \<open>
  C10: Tool call identifiers translate both ways.  When a session accepts a tool call of the runner, it keeps
  the call as pending under one public identifier, new to it; then a caller's result for the public
  identifier reaches the runner under the runner's own identifier, the runner's acceptance of that
  identifier drops this pending call, and every call that was pending before keeps its identifiers.
\<close>

theorem tool_call_ids_roundtrip:
  assumes "runAlone (handleToolCall env i event call) s = (Some r, t)" "i < length (mg_sessions s)"
    "ms_pending (sessionAt i t) \<noteq> ms_pending (sessionAt i s)" "trimSpace (tc_ToolCallID call) \<noteq> []"
  shows "\<exists>public. public \<notin> fst ` set (ms_pending (sessionAt i s))
    \<and> ms_pending (sessionAt i t) = ms_pending (sessionAt i s) @ [(public, pendingToolOf call public)]
    \<and> (\<forall>result. tr_ToolCallID result = public \<longrightarrow> upstreamToolResult (ms_pending (sessionAt i t)) result
         = result\<lparr>tr_ToolCallID := trimSpace (tc_ToolCallID call)\<rparr>)
    \<and> publicToolCallIDForUpstream (ms_pending (sessionAt i t)) (tc_ToolCallID call) = public
    \<and> (\<forall>u p. findPublicToolCallID (ms_pending (sessionAt i s)) u = Some p \<longrightarrow>
         publicToolCallIDForUpstream (ms_pending (sessionAt i t)) u = p)
    \<and> (\<forall>result. tr_ToolCallID result \<in> fst ` set (ms_pending (sessionAt i s)) \<longrightarrow>
         upstreamToolResult (ms_pending (sessionAt i t)) result = upstreamToolResult (ms_pending (sessionAt i s)) result)"
proof -
  let ?p = "ms_pending (sessionAt i s)" and ?u = "trimSpace (tc_ToolCallID call)"
  obtain public where p: "findPublicToolCallID ?p ?u = None" "map_of ?p public = None"
    "ms_pending (sessionAt i t) = AList.update public (pendingToolOf call public) ?p"
    by (rule handleToolCall_alone [OF assms(1-3)])
  then have new: "public \<notin> fst ` set ?p" by (simp add: map_of_eq_None_iff)
  with p(3) have t: "ms_pending (sessionAt i t) = ?p @ [(public, pendingToolOf call public)]" by (simp add: update_append)
  have one: "findPublicToolCallID [(public, pendingToolOf call public)] (tc_ToolCallID call) = Some public"
    using assms(4) by (simp add: findPublicToolCallID_def upstreamID_def pendingToolOf_def)
  have none: "findPublicToolCallID ?p (tc_ToolCallID call) = None" using p(1) by (simp add: findPublicToolCallID_def)
  have up: "upstreamToolResult (ms_pending (sessionAt i t)) result
      = (if tr_ToolCallID result \<in> fst ` set ?p then upstreamToolResult ?p result
         else if tr_ToolCallID result = public then result\<lparr>tr_ToolCallID := ?u\<rparr> else result)" for result
    using assms(4) new by (simp add: upstreamToolResult_def t pendingToolOf_def map_of_snoc del: map_of_append)
  show ?thesis
    using new t up one none
    by (intro exI [of _ public]) (auto simp: publicToolCallIDForUpstream_def findPublic_append)
qed


section \<open>A small session\<close>

definition exampleAnswer :: ToolResult where
  "exampleAnswer = \<lparr>tr_ToolCallID = ''a'', tr_Content = ''done'', tr_IsError = False, tr_Media = []\<rparr>"

definition exampleCall :: ToolCall where
  "exampleCall = \<lparr>tc_MessageID = 9, tc_ExecID = ''e'', tc_ToolCallID = '' b '', tc_Name = ''Read'', tc_Arguments = ''{}''\<rparr>"

definition exampleToolEvent :: Event where
  "exampleToolEvent = (newEvent EventToolCall)\<lparr>ev_ToolCall := Some exampleCall\<rparr>"

text \<open>A running session with one pending tool, an output and a flight; and the same session parked.\<close>

definition exampleSession :: "nat option \<Rightarrow> managedSession" where
  "exampleSession out = (newManagedSession newRunRequest exampleOwner [exampleTool] [] [] [] False)\<lparr>
     ms_output := out, ms_flight := Some 0, ms_running := True\<rparr>"

definition exampleManager :: "nat option \<Rightarrow> manager" where
  "exampleManager out = (newSessionManager ownedWorld)\<lparr>mg_active := [(''s'', 0)], mg_sessions := [exampleSession out],
     mg_outputs := [\<lparr>mo_sent = [], mo_received = 0, mo_capacity = outputCapacity, mo_result = [], mo_closed = False\<rparr>],
     mg_flightHeap := [\<lparr>rf_key = ''k'', rf_digest = ''d'', rf_done = False, rf_replay = None, rf_err = None\<rparr>]\<rparr>"

lemma exampleSession_ok: "sessionOk (exampleSession out)"
  using sessionOk_new [of newRunRequest exampleOwner "[exampleTool]" "[]" "[]" "[]" False]
  by (simp add: sessionOk_def exampleSession_def)

lemma exampleManager_ok: "managerOk (exampleManager (Some 0))"
proof -
  have "ol_SessionID (ms_owner (exampleSession (Some 0))) = ''s''" "ms_output (exampleSession (Some 0)) = Some 0"
    "\<not> ms_closed (exampleSession (Some 0))"
    by (simp_all add: exampleSession_def newManagedSession_def exampleOwner_def noOwner_def)
  then show ?thesis
    using exampleSession_ok
    by (simp add: managerOk_def exampleManager_def newSessionManager_def tableOk_def attachedOk_def flightsOk_def
        sessionAt_def outputAt_def outputOk_def)
qed

lemma run_end_reaches_everyone_witness:
  "\<exists>e t. runAlone (runReturned exampleStore 0 (Some ErrCanceled)) (exampleManager (Some 0)) = (Some (Inr ()), t)
     \<and> mo_closed (outputAt 0 t) \<and> mo_result (outputAt 0 t) = [e] \<and> e = Some ErrCanceled \<and> rf_done (flightAt 0 t)"
proof -
  let ?s = "exampleManager (Some 0)"
  have s: "0 < length (mg_sessions ?s)" "ms_stateErr (sessionAt 0 ?s) = None" "ms_output (sessionAt 0 ?s) = Some 0"
    "ms_flight (sessionAt 0 ?s) = Some 0" "0 < length (mg_flightHeap ?s)" "\<not> mo_closed (outputAt 0 ?s)"
    "mo_result (outputAt 0 ?s) = []"
    by (simp_all add: exampleManager_def sessionAt_def exampleSession_def newManagedSession_def outputAt_def)
  from run_end_reaches_everyone [OF exampleManager_ok s(1), of exampleStore "Some ErrCanceled"] s(2-)
  show ?thesis by (auto simp: outcomeOf_def Let_def finalError_def)
qed

lemma resume_queues_pending_results_witness:
  "\<exists>out t. runAlone (resume exampleStore 0 [exampleAnswer] [] [] [] False) (exampleManager None) = (Some (Inr out), t)
     \<and> ms_output (sessionAt 0 t) = Some (ou_output out) \<and> length (ms_toolResults (sessionAt 0 t)) = 1"
proof -
  let ?run = "runAlone (resume exampleStore 0 [exampleAnswer] [] [] [] False) (exampleManager None)"
  have "case fst ?run of Some (Inr out) \<Rightarrow> True | _ \<Rightarrow> False" by code_simp
  then obtain out where "fst ?run = Some (Inr out)" by (auto split: option.splits sum.splits)
  then have run: "?run = (Some (Inr out), snd ?run)" by (simp add: prod_eq_iff)
  have "0 < length (mg_sessions (exampleManager None))" by (simp add: exampleManager_def)
  from resume_queues_pending_results [OF this run] obtain rs where
    "ms_output (sessionAt 0 (snd ?run)) = Some (ou_output out)"
    "map tr_ToolCallID rs = sort (map fst (ms_pending (sessionAt 0 (exampleManager None))))"
    "ms_toolResults (sessionAt 0 (snd ?run)) = ms_toolResults (sessionAt 0 (exampleManager None))
       @ map (upstreamToolResult (ms_pending (sessionAt 0 (exampleManager None)))) rs"
    by blast
  moreover have "ms_toolResults (sessionAt 0 (exampleManager None)) = []"
    "length (ms_pending (sessionAt 0 (exampleManager None))) = 1" by code_simp+
  ultimately show ?thesis using run by (metis append_Nil length_map length_sort)
qed

lemma tool_call_ids_roundtrip_witness:
  "\<exists>r t public. runAlone (handleToolCall exampleStore 0 exampleToolEvent exampleCall) (exampleManager (Some 0)) = (Some r, t)
     \<and> publicToolCallIDForUpstream (ms_pending (sessionAt 0 t)) '' b '' = public
     \<and> upstreamToolResult (ms_pending (sessionAt 0 t)) (exampleAnswer\<lparr>tr_ToolCallID := public\<rparr>)
         = exampleAnswer\<lparr>tr_ToolCallID := ''b''\<rparr>"
proof -
  let ?run = "runAlone (handleToolCall exampleStore 0 exampleToolEvent exampleCall) (exampleManager (Some 0))"
  have "fst ?run \<noteq> None" "length (ms_pending (sessionAt 0 (snd ?run))) \<noteq> length (ms_pending (sessionAt 0 (exampleManager (Some 0))))"
    "trimSpace (tc_ToolCallID exampleCall) = ''b''"
    by code_simp+
  moreover from this obtain r where run: "?run = (Some r, snd ?run)" by (auto simp: prod_eq_iff)
  moreover have "0 < length (mg_sessions (exampleManager (Some 0)))" "tc_ToolCallID exampleCall = '' b ''"
    by (simp_all add: exampleManager_def exampleCall_def)
  ultimately obtain public where "publicToolCallIDForUpstream (ms_pending (sessionAt 0 (snd ?run))) '' b '' = public"
    "\<forall>result. tr_ToolCallID result = public \<longrightarrow> upstreamToolResult (ms_pending (sessionAt 0 (snd ?run))) result
       = result\<lparr>tr_ToolCallID := ''b''\<rparr>"
    using tool_call_ids_roundtrip [OF run] by force
  with run show ?thesis by (intro exI [of _ r] exI [of _ "snd ?run"] exI [of _ public]) simp
qed

end
