(* ===== verification/Media.thy ===== *)
theory Media
  imports Interaction
begin

text \<open>
  Binary attachments (\<open>media.go\<close>): parsing the caller's content blocks, the structured-history form, and
  the base64 decoder of the standard library they are checked with.  The image decoder is a parameter.
\<close>

definition mediaKindImage :: string where "mediaKindImage = ''image''"
definition mediaKindDocument :: string where "mediaKindDocument = ''document''"

definition maxMediaPartBytes :: nat where
  "maxMediaPartBytes = maxConnectPayloadSize"

record ContentPart =
  cn_Text :: string
  cn_Media :: "MediaPart option"

definition textPart :: "string \<Rightarrow> ContentPart" where
  "textPart t = \<lparr>cn_Text = t, cn_Media = None\<rparr>"

definition mediaPart :: "MediaPart option \<Rightarrow> ContentPart" where
  "mediaPart m = \<lparr>cn_Text = [], cn_Media = m\<rparr>"

section \<open>Base64\<close>

text \<open>\<open>base64.StdEncoding\<close>: line ends are ignored, the last group is padded.\<close>

definition base64Value :: "char \<Rightarrow> nat option" where
  "base64Value c = (let n = of_char c :: nat in
     if 65 \<le> n \<and> n \<le> 90 then Some (n - 65)
     else if 97 \<le> n \<and> n \<le> 122 then Some (n - 71)
     else if 48 \<le> n \<and> n \<le> 57 then Some (n + 4)
     else if n = 43 then Some 62 else if n = 47 then Some 63 else None)"

fun base64Groups :: "string \<Rightarrow> bytes option" where
  "base64Groups [] = Some []"
| "base64Groups (a # b # c # d # s) = (case (base64Value a, base64Value b) of
     (Some w, Some x) \<Rightarrow>
       (case (base64Value c, base64Value d) of
          (Some y, Some z) \<Rightarrow> map_option (\<lambda>r. let n = ((w * 64 + x) * 64 + y) * 64 + z in
            word_of_nat (n div 65536) # word_of_nat (n div 256 mod 256) # word_of_nat (n mod 256) # r) (base64Groups s)
        | (Some y, None) \<Rightarrow> if d = CHR ''='' \<and> s = [] then
            (let n = (w * 64 + x) * 64 + y in Some [word_of_nat (n div 1024), word_of_nat (n div 4 mod 256)]) else None
        | (None, _) \<Rightarrow> if c = CHR ''='' \<and> d = CHR ''='' \<and> s = [] then Some [word_of_nat ((w * 64 + x) div 16)] else None)
   | _ \<Rightarrow> None)"
| "base64Groups _ = None"

definition base64Decode :: "string \<Rightarrow> bytes option" where
  "base64Decode s = base64Groups (filter (\<lambda>c. c \<noteq> CHR 0x0A \<and> c \<noteq> CHR 0x0D) s)"

definition rawBytes :: "MediaPart \<Rightarrow> bytes option" where
  "rawBytes p = base64Decode (mp_Data p)"

definition imageDimensions :: "(bytes \<Rightarrow> (int \<times> int) option) \<Rightarrow> MediaPart \<Rightarrow> int \<times> int" where
  "imageDimensions decodeConfig p = (case rawBytes p of None \<Rightarrow> (0, 0)
     | Some raw \<Rightarrow> (case decodeConfig raw of None \<Rightarrow> (0, 0) | Some dims \<Rightarrow> dims))"

section \<open>Content blocks\<close>

definition unprocessable :: "string \<Rightarrow> err" where
  "unprocessable text = RequestError 422 text"

type_synonym object = "(string \<times> json) list"

definition objectOf :: "json option \<Rightarrow> object option" where
  "objectOf v = (case v of Some (JObj o') \<Rightarrow> Some o' | _ \<Rightarrow> None)"

definition parseAnthropicMediaBlock :: "(string \<Rightarrow> string) \<Rightarrow> object \<Rightarrow> MediaPart option res" where
  "parseAnthropicMediaBlock lower block =
     (let kind = stringValue (map_of block ''type'') in
      if kind \<noteq> ''image'' \<and> kind \<noteq> ''document'' then Inr None
      else case objectOf (map_of block ''source'') of
        None \<Rightarrow> Inl (unprocessable (''Cursor Agent v1 '' @ kind @ '' block has no source''))
      | Some source \<Rightarrow>
          let t = stringValue (map_of source ''type'') in
          if t = ''base64'' then
            (let data = trimSpace (stringValue (map_of source ''data''));
                 mime = lower (stringValue (map_of source ''media_type'')) in
             if data = [] \<or> mime = []
             then Inl (unprocessable (''Cursor Agent v1 '' @ kind @ '' block needs base64 data and media_type''))
             else if kind = ''image'' \<and> \<not> hasPrefix mime ''image/''
             then Inl (unprocessable ''Cursor Agent v1 image block media_type must be image/*'')
             else if length data div 4 * 3 > maxMediaPartBytes
             then Inl (unprocessable (''Cursor Agent v1 media attachment exceeds '' @ decimal (int (maxMediaPartBytes div 2 ^ 20)) @ '' MiB''))
             else if base64Decode data = None
             then Inl (unprocessable (''Cursor Agent v1 '' @ kind @ '' block base64 is invalid''))
             else Inr (Some \<lparr>mp_Kind = kind, mp_MimeType = mime, mp_Data = data,
               mp_Filename = (if kind = ''document'' then stringValue (map_of block ''title'') else [])\<rparr>))
          else if t = ''url''
          then Inl (unprocessable (''Cursor Agent v1 '' @ kind @ '' url sources are not supported; send base64''))
          else if t = ''file''
          then Inl (unprocessable (''Cursor Agent v1 '' @ kind @ '' file_id sources belong to the Anthropic Files API and cannot be replayed here''))
          else if t = ''text'' \<or> t = ''content'' then Inr None
          else Inl (unprocessable (''Cursor Agent v1 '' @ kind @ '' source type is unsupported'')))"

text \<open>\<open>contentText\<close> of \<open>translate.go\<close>.\<close>

definition textBlock :: "json \<Rightarrow> string list" where
  "textBlock raw = (case raw of JObj block \<Rightarrow>
      if stringValue (map_of block ''type'') = ''text'' then [stringValue (map_of block ''text'')] else [] | _ \<Rightarrow> [])"

definition newline :: string where "newline = [CHR 0x0A]"

definition contentText :: "json option \<Rightarrow> string" where
  "contentText v = (case v of Some (JStr text) \<Rightarrow> text
     | Some (JArr blocks) \<Rightarrow> join newline (concat (map textBlock blocks)) | _ \<Rightarrow> [])"

definition documentSourceText :: "object option \<Rightarrow> string" where
  "documentSourceText source = (case source of None \<Rightarrow> [] | Some s \<Rightarrow>
     (case map_of s ''data'' of Some (JStr data) \<Rightarrow> data
      | _ \<Rightarrow> (case map_of s ''content'' of
          Some (JArr content) \<Rightarrow> contentText (Some (JArr content))
        | Some (JStr content) \<Rightarrow> content
        | _ \<Rightarrow> [])))"

definition searchResultText :: "object \<Rightarrow> string" where
  "searchResultText block = (let title = stringValue (map_of block ''title''); source = stringValue (map_of block ''source'') in
     ''Search result'' @ (if title \<noteq> [] then '' \"'' @ title @ ''\"'' else [])
       @ (if source \<noteq> [] then '' ('' @ source @ '')'' else [])
       @ '':'' @ newline @ contentText (map_of block ''content''))"

text \<open>The flag says whether the block is of a known type; an error always comes with a known type.\<close>

definition parseAnthropicContentBlock :: "(string \<Rightarrow> string) \<Rightarrow> object \<Rightarrow> (ContentPart list \<times> bool) res" where
  "parseAnthropicContentBlock lower block =
     (let t = stringValue (map_of block ''type'');
          context = stringValue (map_of block ''context'');
          title = stringValue (map_of block ''title'') in
      if t = ''text'' then
        (case map_of block ''text'' of Some (JStr text) \<Rightarrow> Inr ([textPart text], True)
         | _ \<Rightarrow> Inl (unprocessable ''Cursor Agent v1 text block has no text''))
      else if t = ''image'' then
        (case parseAnthropicMediaBlock lower block of Inl e \<Rightarrow> Inl e | Inr media \<Rightarrow> Inr ([mediaPart media], True))
      else if t = ''document'' then
        (case parseAnthropicMediaBlock lower block of
           Inl e \<Rightarrow> Inl e
         | Inr (Some media) \<Rightarrow> Inr ([mediaPart (Some media)]
             @ (if context \<noteq> [] then [textPart (''Document context: '' @ context)] else []), True)
         | Inr None \<Rightarrow>
             let text = documentSourceText (objectOf (map_of block ''source''));
                 titled = (if title \<noteq> [] then ''Document \"'' @ title @ ''\":'' @ newline @ text else text) in
             Inr ([textPart (if context \<noteq> [] then context @ newline @ titled else titled)], True))
      else if t = ''search_result'' then Inr ([textPart (searchResultText block)], True)
      else Inr ([], False))"

definition splitContentParts :: "ContentPart list \<Rightarrow> string \<times> MediaPart list" where
  "splitContentParts parts =
     (join newline (filter (\<lambda>t. t \<noteq> []) (map cn_Text (filter (\<lambda>p. cn_Media p = None) parts))),
      concat (map (\<lambda>p. case cn_Media p of None \<Rightarrow> [] | Some m \<Rightarrow> [m]) parts))"

section \<open>Structured history\<close>

definition historyMediaPart :: "MediaPart \<Rightarrow> object" where
  "historyMediaPart m =
     (if mp_Kind m = mediaKindImage
      then [(''type'', JStr ''image''), (''image'', JStr (mp_Data m)), (''mimeType'', JStr (mp_MimeType m))]
      else [(''type'', JStr ''file''), (''data'', JStr (mp_Data m)), (''mimeType'', JStr (mp_MimeType m))]
        @ (if mp_Filename m \<noteq> [] then [(''filename'', JStr (mp_Filename m))] else []))"

definition historyContentParts :: "ContentPart list \<Rightarrow> json list" where
  "historyContentParts parts = map (\<lambda>p. case cn_Media p of
       Some m \<Rightarrow> JObj (historyMediaPart m)
     | None \<Rightarrow> JObj [(''type'', JStr ''text''), (''text'', JStr (cn_Text p))]) parts"

text \<open>A string member, untrimmed (\<open>s, _ := part[key].(string)\<close>).\<close>

definition stringMember :: "object \<Rightarrow> string \<Rightarrow> string" where
  "stringMember part key = (case map_of part key of Some (JStr s) \<Rightarrow> s | _ \<Rightarrow> [])"

definition mediaPartFromHistory :: "object \<Rightarrow> MediaPart option" where
  "mediaPartFromHistory part =
     (let t = trimSpace (stringValue (map_of part ''type'')); mime = stringMember part ''mimeType'' in
      if t = ''image'' then
        (let data = stringMember part ''image'' in
         if data = [] then None
         else Some \<lparr>mp_Kind = mediaKindImage, mp_MimeType = (if mime = [] then ''image/png'' else mime), mp_Data = data, mp_Filename = []\<rparr>)
      else if t = ''file'' then
        (let data = stringMember part ''data'' in
         if data = [] \<or> mime = [] then None
         else Some \<lparr>mp_Kind = mediaKindDocument, mp_MimeType = mime, mp_Data = data, mp_Filename = stringMember part ''filename''\<rparr>)
      else None)"

definition mediaSummary :: "(string list \<Rightarrow> string) \<Rightarrow> MediaPart list \<Rightarrow> string" where
  "mediaSummary marshal media = (if media = [] then []
     else marshal (map (\<lambda>p. mp_Kind p @ '' '' @ mp_MimeType p
       @ (if mp_Filename p \<noteq> [] then '' \"'' @ mp_Filename p @ ''\"'' else [])) media))"

section \<open>Properties\<close>

lemma base64Groups_size: "base64Groups s = Some b \<Longrightarrow> length b \<le> length s div 4 * 3"
proof (induction s arbitrary: b rule: base64Groups.induct)
  case (2 a b' c d s)
  have step: "length (a # b' # c # d # s) div 4 * 3 = length s div 4 * 3 + 3"
    using div_add_self1 [of 4 "length s"] by (simp del: div_add_self1)
  show ?case
    using 2 unfolding step by (auto simp: Let_def split: option.splits if_splits)
qed auto

lemma base64Decode_size: "base64Decode s = Some b \<Longrightarrow> length b \<le> length s div 4 * 3"
proof -
  assume b: "base64Decode s = Some b"
  have "length b \<le> length (filter (\<lambda>c. c \<noteq> CHR 0x0A \<and> c \<noteq> CHR 0x0D) s) div 4 * 3"
    using base64Groups_size b by (simp add: base64Decode_def)
  also have "\<dots> \<le> length s div 4 * 3" by (intro mult_right_mono div_le_mono length_filter_le) simp
  finally show ?thesis .
qed

text \<open>
  An attachment the proxy accepts survives the structured history: what a content block is parsed into
  is read back unchanged from its history form, its data is valid base64 of at most the size of a Connect
  frame, an image has an image media type, and nothing but images and documents is accepted.
\<close>

theorem media_survives_history:
  assumes "parseAnthropicMediaBlock lower block = Inr (Some m)"
  shows "mediaPartFromHistory (historyMediaPart m) = Some m
    \<and> (\<exists>raw. rawBytes m = Some raw \<and> length raw \<le> maxMediaPartBytes)
    \<and> mp_Kind m \<in> {mediaKindImage, mediaKindDocument}
    \<and> (mp_Kind m = mediaKindImage \<longrightarrow> hasPrefix (mp_MimeType m) ''image/'')"
proof -
  let ?kind = "stringValue (map_of block ''type'')"
  obtain source where s: "objectOf (map_of block ''source'') = Some source"
    and kind: "?kind = ''image'' \<or> ?kind = ''document''"
    using assms by (auto simp: parseAnthropicMediaBlock_def Let_def split: if_splits option.splits)
  let ?data = "trimSpace (stringValue (map_of source ''data''))"
  let ?mime = "lower (stringValue (map_of source ''media_type''))"
  from assms s have ok: "?data \<noteq> []" "?mime \<noteq> []" "\<not> (?kind = ''image'' \<and> \<not> hasPrefix ?mime ''image/'')"
    "length ?data div 4 * 3 \<le> maxMediaPartBytes" "base64Decode ?data \<noteq> None"
    and m: "m = \<lparr>mp_Kind = ?kind, mp_MimeType = ?mime, mp_Data = ?data,
      mp_Filename = (if ?kind = ''document'' then stringValue (map_of block ''title'') else [])\<rparr>"
    by (auto simp: parseAnthropicMediaBlock_def Let_def split: if_splits)
  have trims: "trimSpace ''image'' = ''image''" "trimSpace ''file'' = ''file''" by code_simp+
  have "mediaPartFromHistory (historyMediaPart m) = Some m"
    using kind ok(1,2)
    by (auto simp: m historyMediaPart_def mediaPartFromHistory_def Let_def mediaKindImage_def mediaKindDocument_def
        stringMember_def stringValue_def trims)
  moreover obtain raw where "base64Decode ?data = Some raw" using ok(5) by blast
  then have "rawBytes m = Some raw \<and> length raw \<le> maxMediaPartBytes"
    using base64Decode_size ok(4) by (fastforce simp: m rawBytes_def)
  moreover have "mp_Kind m \<in> {mediaKindImage, mediaKindDocument}" "mp_Kind m = mediaKindImage \<longrightarrow> hasPrefix (mp_MimeType m) ''image/''"
    using kind ok(3) by (auto simp: m mediaKindImage_def mediaKindDocument_def)
  ultimately show ?thesis by blast
qed

definition exampleImage :: object where
  "exampleImage = [(''type'', JStr ''image''), (''source'', JObj [(''type'', JStr ''base64''),
     (''media_type'', JStr ''IMAGE/png''), (''data'', JStr ''aGVsbG8='')])]"

lemma media_survives_history_witness:
  "\<exists>m. parseAnthropicMediaBlock toLower exampleImage = Inr (Some m) \<and> mediaPartFromHistory (historyMediaPart m) = Some m
     \<and> rawBytes m = Some (bytesOf ''hello'')"
proof -
  let ?m = "\<lparr>mp_Kind = ''image'', mp_MimeType = ''image/png'', mp_Data = ''aGVsbG8='', mp_Filename = []\<rparr>"
  have "parseAnthropicMediaBlock toLower exampleImage = Inr (Some ?m)" by code_simp
  moreover from media_survives_history [OF this] have "mediaPartFromHistory (historyMediaPart ?m) = Some ?m" by blast
  moreover have "rawBytes ?m = Some (bytesOf ''hello'')" by code_simp
  ultimately show ?thesis by blast
qed

end
