(* ===== verification/Wire.thy ===== *)
theory Wire
  imports Media Inference Runner
begin

text \<open>
  The Agent v1 messages the client writes (\<open>wire.go\<close>) and the field readers of both wire formats.
  The primitives of \<open>protowire\<close> are a parameter with the laws of the format as the locale \<open>wire_format\<close>;
  \<open>standardWire\<close> implements them.
\<close>

section \<open>Primitives\<close>

text \<open>
  \<open>google.golang.org/protobuf/encoding/protowire\<close>.  A tag is a field number and a wire type (0 for varints,
  2 for bytes); the consumers give what they read with its length, \<open>None\<close> for a negative length.
\<close>

record protowire =
  pw_AppendTag :: "nat \<Rightarrow> nat \<Rightarrow> bytes"
  pw_AppendVarint :: "64 word \<Rightarrow> bytes"
  pw_AppendBytes :: "bytes \<Rightarrow> bytes"
  pw_ConsumeTag :: "bytes \<Rightarrow> (nat \<times> nat \<times> nat) option"
  pw_ConsumeVarint :: "bytes \<Rightarrow> (64 word \<times> nat) option"
  pw_ConsumeBytes :: "bytes \<Rightarrow> (bytes \<times> nat) option"
  pw_ConsumeFieldValue :: "nat \<Rightarrow> nat \<Rightarrow> bytes \<Rightarrow> nat option"

definition VarintType :: nat where "VarintType = 0"
definition BytesType :: nat where "BytesType = 2"

definition appendBytesField :: "protowire \<Rightarrow> bytes \<Rightarrow> nat \<Rightarrow> bytes \<Rightarrow> bytes" where
  "appendBytesField pw dst number v = dst @ pw_AppendTag pw number BytesType @ pw_AppendBytes pw v"

definition appendStringField :: "protowire \<Rightarrow> bytes \<Rightarrow> nat \<Rightarrow> string \<Rightarrow> bytes" where
  "appendStringField pw dst number v = (if v = [] then dst else appendBytesField pw dst number (bytesOf v))"

definition appendVarintField :: "protowire \<Rightarrow> bytes \<Rightarrow> nat \<Rightarrow> 64 word \<Rightarrow> bytes" where
  "appendVarintField pw dst number v = dst @ pw_AppendTag pw number VarintType @ pw_AppendVarint pw v"

text \<open>
  The loop over the fields of a message that every reader runs: \<open>body s number type rest\<close> either returns
  from the function or says how many bytes of \<open>rest\<close> the value takes.  Every field takes at least one byte,
  so the length of the message is enough fuel.
\<close>

fun scan ::
  "protowire \<Rightarrow> ('s \<Rightarrow> 'a) \<Rightarrow> ('s \<Rightarrow> nat \<Rightarrow> nat \<Rightarrow> bytes \<Rightarrow> 'a + nat \<times> 's) \<Rightarrow> ('s \<Rightarrow> 'a) \<Rightarrow> nat \<Rightarrow> 's \<Rightarrow> bytes \<Rightarrow> 'a" where
  "scan pw bad body end 0 s data = end s"
| "scan pw bad body end (Suc n) s data = (if data = [] then end s else case pw_ConsumeTag pw data of
     None \<Rightarrow> bad s
   | Some (number, wireType, consumed) \<Rightarrow> (case body s number wireType (drop consumed data) of
       Inl r \<Rightarrow> r
     | Inr (used, s') \<Rightarrow> scan pw bad body end n s' (drop used (drop consumed data))))"

definition skipValue :: "protowire \<Rightarrow> nat \<Rightarrow> nat \<Rightarrow> bytes \<Rightarrow> 'a \<Rightarrow> 's \<Rightarrow> 'a + nat \<times> 's" where
  "skipValue pw number wireType data bad s = (case pw_ConsumeFieldValue pw number wireType data of
     None \<Rightarrow> Inl bad | Some n \<Rightarrow> Inr (n, s))"

definition decodeBytes :: "protowire \<Rightarrow> bytes \<Rightarrow> nat \<Rightarrow> bytes" where
  "decodeBytes pw data target = scan pw (\<lambda>_. []) (\<lambda>_ number wireType rest.
     if wireType = BytesType then (case pw_ConsumeBytes pw rest of None \<Rightarrow> Inl []
       | Some (v, n) \<Rightarrow> if number = target then Inl v else Inr (n, ()))
     else skipValue pw number wireType rest [] ()) (\<lambda>_. []) (length data) () data"

definition stringOf :: "bytes \<Rightarrow> string" where
  "stringOf b = map (\<lambda>x. char_of (unat x)) b"

definition decodeString :: "protowire \<Rightarrow> bytes \<Rightarrow> nat \<Rightarrow> string" where
  "decodeString pw data target = stringOf (decodeBytes pw data target)"

definition decodeVarint :: "protowire \<Rightarrow> bytes \<Rightarrow> nat \<Rightarrow> 64 word" where
  "decodeVarint pw data target = scan pw (\<lambda>_. 0) (\<lambda>_ number wireType rest.
     if wireType = VarintType then (case pw_ConsumeVarint pw rest of None \<Rightarrow> Inl 0
       | Some (v, n) \<Rightarrow> if number = target then Inl v else Inr (n, ()))
     else skipValue pw number wireType rest 0 ()) (\<lambda>_. 0) (length data) () data"

section \<open>The messages of the client\<close>

record wireEnv =
  we_pw :: protowire
  we_sha :: "bytes \<Rightarrow> bytes"
  we_uuid :: "nat \<Rightarrow> string"
  we_valid :: "bytes \<Rightarrow> bool"
  we_unmarshal :: "bytes \<Rightarrow> object option"
  we_marshal :: "json \<Rightarrow> bytes res"
  we_imageConfig :: "bytes \<Rightarrow> (int \<times> int) option"
  we_precheck :: "32 word \<Rightarrow> string \<Rightarrow> string \<Rightarrow> bool \<Rightarrow> bytes res"

definition agentClientRunRequest :: nat where "agentClientRunRequest = 1"
definition agentClientExecMessage :: nat where "agentClientExecMessage = 2"
definition agentClientKVMessage :: nat where "agentClientKVMessage = 3"
definition agentClientInteractionResponse :: nat where "agentClientInteractionResponse = 6"
definition agentClientHeartbeat :: nat where "agentClientHeartbeat = 7"

definition encodeHeartbeat :: "protowire \<Rightarrow> bytes" where
  "encodeHeartbeat pw = appendBytesField pw [] agentClientHeartbeat []"

definition encodeKVGetResult :: "protowire \<Rightarrow> 32 word \<Rightarrow> bytes option \<Rightarrow> bytes" where
  "encodeKVGetResult pw i blob =
     (let result = (case blob of None \<Rightarrow> [] | Some b \<Rightarrow> appendBytesField pw [] 1 b);
          message = appendBytesField pw (appendVarintField pw [] 1 (ucast i)) 2 result
      in appendBytesField pw [] agentClientKVMessage message)"

definition encodeKVSetResult :: "protowire \<Rightarrow> 32 word \<Rightarrow> bytes" where
  "encodeKVSetResult pw i = appendBytesField pw [] agentClientKVMessage
     (appendBytesField pw (appendVarintField pw [] 1 (ucast i)) 3 [])"

definition encodeMCPTool :: "protowire \<Rightarrow> ToolDefinition \<Rightarrow> bytes" where
  "encodeMCPTool pw tool =
     (let d1 = appendStringField pw [] 1 (td_Name tool);
          d2 = appendStringField pw d1 2 (td_Description tool);
          d4 = appendStringField pw d2 4 ''beefapi'';
          d5 = appendStringField pw d4 5 (td_Name tool)
      in appendStringField pw d5 6 (stringOf (td_InputSchema tool)))"

definition encodeMCPTools :: "protowire \<Rightarrow> ToolDefinition list \<Rightarrow> bytes" where
  "encodeMCPTools pw tools = foldl (\<lambda>payload tool. appendBytesField pw payload 1 (encodeMCPTool pw tool)) [] tools"

definition encodeCallerRule :: "protowire \<Rightarrow> string \<Rightarrow> string \<Rightarrow> bytes" where
  "encodeCallerRule pw path content =
     (let r1 = appendStringField pw [] 1 path;
          r2 = appendStringField pw r1 2 content;
          r3 = appendBytesField pw r2 3 (appendBytesField pw [] 1 [])
      in appendVarintField pw r3 4 2)"

text \<open>The frame of every answer to an exec message: its id, one result field and the exec id.\<close>

definition execResult :: "protowire \<Rightarrow> 32 word \<Rightarrow> string \<Rightarrow> nat \<Rightarrow> bytes \<Rightarrow> bytes" where
  "execResult pw i execID field result = appendBytesField pw [] agentClientExecMessage
     (appendStringField pw (appendBytesField pw (appendVarintField pw [] 1 (ucast i)) field result) 15 execID)"

definition callerRules :: "ToolDefinition list \<Rightarrow> requestContextPolicy \<Rightarrow> (string \<times> string) list" where
  "callerRules tools policy =
     (if cp_RequireToolCall policy \<and> tools \<noteq> []
      then [(''/caller/tool-choice.mdc'', ''Tool choice for this turn: invoke at least one of the provided MCP tools (''
        @ join '', '' (map td_Name tools) @ ''). Invoke the actual tool with its declared arguments; a plain-text or JSON answer is not a substitute. Once the tool has been invoked, continue using its result normally.'')]
      else [])
   @ (if cp_RequireHostedSearch policy
      then [(''/caller/hosted-search.mdc'', ''This turn requires an actual native web search. A plain-text or JSON answer is not a substitute. Once search results are available, continue using them normally. Upstream has no native hard tool_choice; this is guidance only.'')]
      else [])
   @ (if cp_RequireHostedFetch policy
      then [(''/caller/hosted-fetch.mdc'', ''This turn requires an actual native web fetch. A plain-text or JSON answer is not a substitute. Once the fetch result is available, continue using it normally. Upstream has no native hard tool_choice; this is guidance only.'')]
      else [])
   @ (if cp_RequireHostedTool policy \<and> \<not> cp_RequireHostedSearch policy \<and> \<not> cp_RequireHostedFetch policy
      then [(''/caller/hosted-web.mdc'', ''This turn requires an actual native web search or web fetch. A plain-text or JSON answer is not a substitute. Once results are available, continue using them normally. Upstream has no native hard tool_choice; this is guidance only.'')]
      else [])"

definition encodeRequestContextResult ::
  "protowire \<Rightarrow> 32 word \<Rightarrow> string \<Rightarrow> string \<Rightarrow> ToolDefinition list \<Rightarrow> requestContextPolicy \<Rightarrow> bytes" where
  "encodeRequestContextResult pw i execID systemText tools policy =
     (let c1 = appendBytesField pw [] 4 (appendStringField pw [] 1 ''linux'');
          c2 = foldl (\<lambda>c tool. appendBytesField pw c 7 (encodeMCPTool pw tool)) c1 tools;
          c3 = appendStringField pw c2 16 systemText;
          c4 = foldl (\<lambda>c (path, content). appendBytesField pw c 2 (encodeCallerRule pw path content)) c3 (callerRules tools policy);
          c5 = (if cp_AllowHostedSearch policy then appendVarintField pw c4 17 1 else c4);
          c6 = (if cp_AllowHostedFetch policy then appendVarintField pw c5 24 1 else c5)
      in execResult pw i execID 10 (appendBytesField pw [] 1 (appendBytesField pw [] 1 c6)))"

definition encodeExecRejected ::
  "protowire \<Rightarrow> 32 word \<Rightarrow> string \<Rightarrow> nat \<Rightarrow> nat \<Rightarrow> nat \<Rightarrow> string \<Rightarrow> bytes" where
  "encodeExecRejected pw i execID resultField rejectedField reasonField reason =
     execResult pw i execID resultField (appendBytesField pw [] rejectedField (appendStringField pw [] reasonField reason))"

definition encodeExecError :: "protowire \<Rightarrow> 32 word \<Rightarrow> string \<Rightarrow> nat \<Rightarrow> string \<Rightarrow> bytes" where
  "encodeExecError pw i execID resultField message =
     execResult pw i execID resultField (appendBytesField pw [] 2 (appendStringField pw [] 1 message))"

definition encodeFetchError :: "protowire \<Rightarrow> 32 word \<Rightarrow> string \<Rightarrow> string \<Rightarrow> bytes" where
  "encodeFetchError pw i execID message =
     execResult pw i execID 20 (appendBytesField pw [] 2 (appendStringField pw [] 2 message))"

text \<open>
  The items of a tool result: its text, then every attachment, an image as an image and a document as a
  note; an attachment without data is left out.
\<close>

definition mcpItem :: "protowire \<Rightarrow> MediaPart \<Rightarrow> bytes list" where
  "mcpItem pw media = (case rawBytes media of None \<Rightarrow> []
     | Some raw \<Rightarrow> if raw = [] then []
         else if mp_Kind media \<noteq> mediaKindImage
         then [appendBytesField pw [] 1 (appendStringField pw [] 1 (''[attachment '' @ mp_MimeType media @ '' \"'' @ mp_Filename media
                 @ ''\" omitted: Cursor Agent v1 tool results carry text and images only]''))]
         else [appendBytesField pw [] 2 (appendStringField pw (appendBytesField pw [] 1 raw) 2 (mp_MimeType media))])"

definition mcpItems :: "protowire \<Rightarrow> ToolResult \<Rightarrow> bytes list" where
  "mcpItems pw result =
     (if tr_Content result \<noteq> [] \<or> tr_Media result = []
      then [appendBytesField pw [] 1 (appendStringField pw [] 1 (tr_Content result))] else [])
     @ concat (map (mcpItem pw) (tr_Media result))"

definition encodeMCPResult :: "protowire \<Rightarrow> 32 word \<Rightarrow> string \<Rightarrow> ToolResult \<Rightarrow> bytes" where
  "encodeMCPResult pw i execID result =
     (let items = foldl (\<lambda>s item. appendBytesField pw s 1 item) [] (mcpItems pw result);
          success = (if tr_IsError result then appendVarintField pw items 2 1 else items)
      in execResult pw i execID 11 (appendBytesField pw [] 1 success))"

definition interactionResult :: "protowire \<Rightarrow> 32 word \<Rightarrow> nat \<Rightarrow> bytes \<Rightarrow> bytes" where
  "interactionResult pw i field result = appendBytesField pw [] agentClientInteractionResponse
     (appendBytesField pw (appendVarintField pw [] 1 (ucast i)) field result)"

definition encodeInteractionDecision :: "protowire \<Rightarrow> 32 word \<Rightarrow> int \<Rightarrow> bool \<Rightarrow> string \<Rightarrow> bytes res" where
  "encodeInteractionDecision pw i kind approve reason =
     (if kind \<notin> {2, 4, 5, 6, 9}
      then Inl (Errorf ''unsupported Cursor Agent v1 interaction query kind %d'' [N kind])
      else Inr (interactionResult pw i (nat kind)
        (if approve then appendBytesField pw [] 1 [] else appendBytesField pw [] 2 (appendStringField pw [] 1 reason))))"

definition encodeAskQuestionRejected :: "protowire \<Rightarrow> 32 word \<Rightarrow> string \<Rightarrow> bytes" where
  "encodeAskQuestionRejected pw i reason = interactionResult pw i 3
     (appendBytesField pw [] 1 (appendBytesField pw [] 3 (appendStringField pw [] 1 reason)))"

definition encodeCreatePlanError :: "protowire \<Rightarrow> 32 word \<Rightarrow> string \<Rightarrow> bytes" where
  "encodeCreatePlanError pw i message = interactionResult pw i 7
     (appendBytesField pw [] 1 (appendBytesField pw [] 2 (appendStringField pw [] 1 message)))"

text \<open>
  The encoder of each message of the runner.  A blob that is not there and an empty one, which the run
  keeps as nil, are the same.
\<close>

fun encodeMessage :: "wireEnv \<Rightarrow> clientMessage \<Rightarrow> bytes res" where
  "encodeMessage env (MCPResult i execID result) = Inr (encodeMCPResult (we_pw env) i execID result)"
| "encodeMessage env (AllowlistPrecheck i execID kind ok) = we_precheck env i execID kind ok"
| "encodeMessage env (KVGetResult i data) = Inr (encodeKVGetResult (we_pw env) i (if data = [] then None else Some data))"
| "encodeMessage env (KVSetResult i) = Inr (encodeKVSetResult (we_pw env) i)"
| "encodeMessage env (RequestContextResult i execID systemText tools policy) =
     Inr (encodeRequestContextResult (we_pw env) i execID systemText tools policy)"
| "encodeMessage env (InteractionDecision i kind approve reason) = encodeInteractionDecision (we_pw env) i kind approve reason"
| "encodeMessage env (AskQuestionRejected i reason) = Inr (encodeAskQuestionRejected (we_pw env) i reason)"
| "encodeMessage env (CreatePlanError i message) = Inr (encodeCreatePlanError (we_pw env) i message)"
| "encodeMessage env (ExecRejected i execID field variant reasonField reason) =
     Inr (encodeExecRejected (we_pw env) i execID field variant reasonField reason)"
| "encodeMessage env (ExecError i execID field message) = Inr (encodeExecError (we_pw env) i execID field message)"
| "encodeMessage env (FetchError i execID message) = Inr (encodeFetchError (we_pw env) i execID message)"
| "encodeMessage env Heartbeat = Inr (encodeHeartbeat (we_pw env))"


section \<open>The run request\<close>

record runWireRequest =
  rw_Model :: string
  rw_ConversationID :: string
  rw_UserText :: string
  rw_UserMedia :: "MediaPart list"
  rw_SystemText :: string
  rw_Tools :: "ToolDefinition list"
  rw_HistoryMessages :: "bytes list"
  rw_BlobStore :: blobs
  rw_Checkpoint :: bytes
  rw_Resume :: bool

definition imageExtension :: "string \<Rightarrow> string" where
  "imageExtension mimeType = (let m = toLower (trimSpace mimeType) in
     if m = ''image/jpeg'' \<or> m = ''image/jpg'' then ''.jpg''
     else if m = ''image/gif'' then ''.gif''
     else if m = ''image/webp'' then ''.webp'' else ''.png'')"

text \<open>\<open>encodeSelectedContextMedia\<close>; \<open>we_uuid\<close> numbers the identifiers that are drawn.\<close>

fun selectedImages :: "wireEnv \<Rightarrow> nat \<Rightarrow> MediaPart list \<Rightarrow> bytes list" where
  "selectedImages env n [] = []"
| "selectedImages env n (part # parts) =
     (case rawBytes part of
        Some raw \<Rightarrow> if mp_Kind part \<noteq> mediaKindImage \<or> raw = [] then selectedImages env n parts else
          (let pw = we_pw env; i = we_uuid env n; (width, height) = imageDimensions (we_imageConfig env) part;
               m2 = appendStringField pw [] 2 i;
               m3 = appendStringField pw m2 3 (''pasted-'' @ i @ imageExtension (mp_MimeType part));
               m4 = (if width > 0 \<and> height > 0
                     then appendBytesField pw m3 4 (appendVarintField pw (appendVarintField pw [] 1 (word_of_int width)) 2 (word_of_int height))
                     else m3);
               m7 = appendStringField pw m4 7 (mp_MimeType part)
           in appendBytesField pw m7 8 raw # selectedImages env (Suc n) parts)
      | None \<Rightarrow> selectedImages env n parts)"

definition encodeSelectedContextMedia :: "wireEnv \<Rightarrow> nat \<Rightarrow> MediaPart list \<Rightarrow> bytes" where
  "encodeSelectedContextMedia env n media =
     foldl (\<lambda>s image. appendBytesField (we_pw env) s 1 image) [] (selectedImages env n media)"

text \<open>
  \<open>agentV1LiftToolResultMedia\<close>: the attachments of a tool message follow it as a user message.  The heading
  names the first part that has an attachment.
\<close>

definition mediaContents :: "object \<Rightarrow> json list" where
  "mediaContents part = (case map_of part ''experimental_content'' of
     Some (JArr experimental) \<Rightarrow> filter (\<lambda>v. case v of JObj content \<Rightarrow> mediaPartFromHistory content \<noteq> None | _ \<Rightarrow> False) experimental
   | _ \<Rightarrow> [])"

fun rewritePart :: "json \<Rightarrow> json" where
  "rewritePart (JObj part) = (case map_of part ''experimental_content'' of
     Some (JArr experimental) \<Rightarrow> JObj (AList.delete ''experimental_content'' part) | _ \<Rightarrow> JObj part)"
| "rewritePart v = v"

fun liftParts :: "json list \<Rightarrow> json list" where
  "liftParts [] = []"
| "liftParts (JObj part # parts) = (let media = mediaContents part in
     if media = [] then liftParts parts
     else JObj [(''type'', JStr ''text''), (''text'', JStr (''Attachment returned by tool '' @ stringValue (map_of part ''toolName'')
            @ '' (call '' @ stringValue (map_of part ''toolCallId'') @ ''):''))]
          # media @ concat (map (\<lambda>v. case v of JObj p \<Rightarrow> mediaContents p | _ \<Rightarrow> []) parts))"
| "liftParts (v # parts) = liftParts parts"

definition liftMessage :: "wireEnv \<Rightarrow> bytes \<Rightarrow> bytes list res" where
  "liftMessage env raw = (case we_unmarshal env raw of None \<Rightarrow> Inr [raw]
   | Some message \<Rightarrow>
       if stringValue (map_of message ''role'') \<noteq> ''tool'' then Inr [raw]
       else let parts = contentParts (map_of message ''content''); lifted = liftParts parts in
         (case we_marshal env (JObj (AList.update ''content'' (JArr (map rewritePart parts)) message)) of
            Inl e \<Rightarrow> Inl e
          | Inr encoded \<Rightarrow> if lifted = [] then Inr [encoded]
              else (case we_marshal env (JObj [(''role'', JStr ''user''), (''content'', JArr lifted)]) of
                Inl e \<Rightarrow> Inl e | Inr liftedMessage \<Rightarrow> Inr [encoded, liftedMessage])))"

fun agentV1LiftToolResultMedia :: "wireEnv \<Rightarrow> bytes list \<Rightarrow> bytes list res" where
  "agentV1LiftToolResultMedia env [] = Inr []"
| "agentV1LiftToolResultMedia env (raw # messages) = (case liftMessage env raw of
     Inl e \<Rightarrow> Inl e
   | Inr out \<Rightarrow> (case agentV1LiftToolResultMedia env messages of Inl e \<Rightarrow> Inl e | Inr rest \<Rightarrow> Inr (out @ rest)))"

text \<open>The history as blobs: the store with them and the references to them.\<close>

fun historyState :: "wireEnv \<Rightarrow> int \<Rightarrow> bytes list \<Rightarrow> blobs \<Rightarrow> bytes \<Rightarrow> (bytes \<times> blobs) res" where
  "historyState env index [] store state = Inr (state, store)"
| "historyState env index (message # history) store state =
     (if message = [] \<or> \<not> we_valid env message
      then Inl (Errorf ''cursor Agent v1 history message %d must be valid JSON'' [N index])
      else let rootID = we_sha env message in
        historyState env (index + 1) history (AList.update (hexKey rootID) message store)
          (appendBytesField (we_pw env) state 1 rootID))"

definition conversationState :: "wireEnv \<Rightarrow> runWireRequest \<Rightarrow> (bytes \<times> blobs) res" where
  "conversationState env request =
     (if rw_Checkpoint request \<noteq> [] then Inr (rw_Checkpoint request, rw_BlobStore request)
      else case agentV1LiftToolResultMedia env (rw_HistoryMessages request) of
        Inl e \<Rightarrow> Inl e
      | Inr history \<Rightarrow> historyState env 0 history (rw_BlobStore request) [])"

definition runAction :: "wireEnv \<Rightarrow> runWireRequest \<Rightarrow> bytes" where
  "runAction env request = (let pw = we_pw env in
     if rw_Resume request then appendBytesField pw [] 2 []
     else let m1 = appendStringField pw [] 1 (rw_UserText request);
              m2 = appendStringField pw m1 2 (we_uuid env 0);
              selected = encodeSelectedContextMedia env 1 (rw_UserMedia request);
              m3 = (if selected \<noteq> [] then appendBytesField pw m2 3 selected else m2)
          in appendBytesField pw [] 1 (appendBytesField pw [] 1 m3))"

definition encodeRunRequest :: "wireEnv \<Rightarrow> runWireRequest \<Rightarrow> (bytes \<times> blobs) res" where
  "encodeRunRequest env request =
     (if rw_Model request = [] \<or> rw_ConversationID request = [] \<or> (\<not> rw_Resume request \<and> rw_UserText request = [])
      then Inl (Errorf ''cursor Agent v1 run requires model, conversation id, and a user or resume action'' [])
      else case conversationState env request of
        Inl e \<Rightarrow> Inl e
      | Inr (state, store) \<Rightarrow>
          let pw = we_pw env; model = rw_Model request;
              modelDetails = appendStringField pw (appendStringField pw (appendStringField pw [] 1 model) 3 model) 4 model;
              r1 = appendBytesField pw [] 1 state;
              r2 = appendBytesField pw r1 2 (runAction env request);
              r3 = appendBytesField pw r2 3 modelDetails;
              r4 = (if rw_Tools request \<noteq> [] then appendBytesField pw r3 4 (encodeMCPTools pw (rw_Tools request)) else r3);
              r5 = appendStringField pw r4 5 (rw_ConversationID request);
              r9 = appendBytesField pw r5 9 (appendStringField pw [] 1 model)
          in Inr (appendBytesField pw [] agentClientRunRequest r9, store))"

text \<open>The call in \<open>Runner.Run\<close>.\<close>

definition runWireRequestOf :: "RunRequest \<Rightarrow> ToolDefinition list \<Rightarrow> runWireRequest" where
  "runWireRequestOf request tools = \<lparr>rw_Model = trimSpace (rr_Model request),
     rw_ConversationID = trimSpace (rr_ConversationID request), rw_UserText = rr_UserText request,
     rw_UserMedia = rr_UserMedia request, rw_SystemText = rr_SystemText request, rw_Tools = tools,
     rw_HistoryMessages = rr_HistoryMessages request, rw_BlobStore = rr_InitialBlobs request,
     rw_Checkpoint = rr_InitialCheckpoint request, rw_Resume = rr_Resume request\<rparr>"

section \<open>Reading a message back\<close>

datatype field = VarintField nat "64 word" | BytesField nat bytes

fun fieldNumber :: "field \<Rightarrow> nat" where
  "fieldNumber (VarintField n v) = n"
| "fieldNumber (BytesField n b) = n"

fun fieldPayload :: "protowire \<Rightarrow> field \<Rightarrow> bytes" where
  "fieldPayload pw (VarintField n v) = pw_AppendVarint pw v"
| "fieldPayload pw (BytesField n b) = pw_AppendBytes pw b"

fun fieldType :: "field \<Rightarrow> nat" where
  "fieldType (VarintField n v) = VarintType"
| "fieldType (BytesField n b) = BytesType"

definition putField :: "protowire \<Rightarrow> field \<Rightarrow> bytes" where
  "putField pw f = pw_AppendTag pw (fieldNumber f) (fieldType f) @ fieldPayload pw f"

definition putFields :: "protowire \<Rightarrow> field list \<Rightarrow> bytes" where
  "putFields pw fs = concat (map (putField pw) fs)"

definition numbered :: "field list \<Rightarrow> bool" where
  "numbered fs = (\<forall>f \<in> set fs. 0 < fieldNumber f \<and> fieldNumber f < 2 ^ 29)"

text \<open>The encoders append fields.\<close>

named_theorems written \<open>what an encoder writes, as a list of fields\<close>

lemma putFields_empty: "[] = putFields pw []"
  by (simp add: putFields_def)

definition strField :: "nat \<Rightarrow> string \<Rightarrow> field list" where
  "strField n v = (if v = [] then [] else [BytesField n (bytesOf v)])"

lemma append_fields [written]:
  "appendBytesField pw (putFields pw fs) n v = putFields pw (fs @ [BytesField n v])"
  "appendStringField pw (putFields pw fs) n v' = putFields pw (fs @ strField n v')"
  "appendVarintField pw (putFields pw fs) n w = putFields pw (fs @ [VarintField n w])"
  by (simp_all add: putFields_def putField_def appendBytesField_def appendStringField_def appendVarintField_def strField_def)

lemma append_first [written]:
  "appendBytesField pw [] n v = putFields pw [BytesField n v]"
  "appendStringField pw [] n v' = putFields pw (strField n v')"
  "appendVarintField pw [] n w = putFields pw [VarintField n w]"
  by (simp_all add: putFields_def putField_def appendBytesField_def appendStringField_def appendVarintField_def strField_def)

lemma append_all: "foldl (\<lambda>s item. appendBytesField pw s n item) (putFields pw fs) items
    = putFields pw (fs @ map (BytesField n) items)"
  by (induction items arbitrary: fs) (simp_all add: written)

text \<open>What a reader does with the fields of a message: \<open>step s f\<close> returns or goes on.\<close>

fun walk :: "('s \<Rightarrow> field \<Rightarrow> 'a + 's) \<Rightarrow> ('s \<Rightarrow> 'a) \<Rightarrow> 's \<Rightarrow> field list \<Rightarrow> 'a" where
  "walk step end s [] = end s"
| "walk step end s (f # fs) = (case step s f of Inl r \<Rightarrow> r | Inr s' \<Rightarrow> walk step end s' fs)"

text \<open>The documented behaviour of \<open>protowire\<close>: the consumers invert the appenders.\<close>

locale wire_format =
  fixes pw :: protowire
  assumes tag_read: "0 < n \<Longrightarrow> n < 2 ^ 29 \<Longrightarrow> t = VarintType \<or> t = BytesType \<Longrightarrow>
      pw_ConsumeTag pw (pw_AppendTag pw n t @ r) = Some (n, t, length (pw_AppendTag pw n t))"
    and tag_size: "pw_AppendTag pw n t \<noteq> []"
    and varint_read: "pw_ConsumeVarint pw (pw_AppendVarint pw v @ r) = Some (v, length (pw_AppendVarint pw v))"
    and bytes_read: "pw_ConsumeBytes pw (pw_AppendBytes pw b @ r) = Some (b, length (pw_AppendBytes pw b))"
    and varint_skipped: "pw_ConsumeFieldValue pw n VarintType (pw_AppendVarint pw v @ r) = Some (length (pw_AppendVarint pw v))"
    and bytes_skipped: "pw_ConsumeFieldValue pw n BytesType (pw_AppendBytes pw b @ r) = Some (length (pw_AppendBytes pw b))"
begin

lemmas value_skipped = varint_skipped [unfolded VarintType_def] bytes_skipped [unfolded BytesType_def]

lemma scan_fields:
  assumes "numbered fs" "length (putFields pw fs) \<le> fuel"
    "\<And>s f r. f \<in> set fs \<Longrightarrow> body s (fieldNumber f) (fieldType f) (fieldPayload pw f @ r)
       = (case step s f of Inl x \<Rightarrow> Inl x | Inr s' \<Rightarrow> Inr (length (fieldPayload pw f), s'))"
  shows "scan pw bad body end fuel s (putFields pw fs) = walk step end s fs"
  using assms
proof (induction fs arbitrary: fuel s)
  case Nil
  then show ?case by (cases fuel) (simp_all add: putFields_def)
next
  case (Cons f fs)
  let ?tag = "pw_AppendTag pw (fieldNumber f) (fieldType f)"
  have data: "putFields pw (f # fs) = ?tag @ fieldPayload pw f @ putFields pw fs"
    by (simp add: putFields_def putField_def)
  have t: "pw_ConsumeTag pw (?tag @ r) = Some (fieldNumber f, fieldType f, length ?tag)" for r
    using Cons.prems(1) by (intro tag_read) (cases f; simp add: numbered_def)+
  obtain n where n: "fuel = Suc n" "length (putFields pw fs) \<le> n"
  proof (cases fuel)
    case 0
    then show ?thesis using Cons.prems(2) tag_size [of "fieldNumber f" "fieldType f"] by (simp add: data)
  next
    case (Suc n)
    have "0 < length ?tag" using tag_size [of "fieldNumber f" "fieldType f"] by simp
    then have "length (putFields pw fs) \<le> n" using Cons.prems(2) Suc unfolding data length_append by linarith
    then show ?thesis using that Suc by blast
  qed
  have "putFields pw (f # fs) \<noteq> []" using tag_size by (simp add: data)
  moreover have "scan pw bad body end n s' (putFields pw fs) = walk step end s' fs" for s'
    by (rule Cons.IH) (use Cons.prems n in \<open>auto simp: numbered_def\<close>)
  ultimately show ?case
    using Cons.prems(3) [of f s "putFields pw fs"] t n tag_size [of "fieldNumber f" "fieldType f"]
    by (simp add: data split: sum.split)
qed

lemma decodeBytes_fields: "numbered fs \<Longrightarrow> decodeBytes pw (putFields pw fs) k
    = walk (\<lambda>_ f. case f of BytesField n b \<Rightarrow> if n = k then Inl b else Inr () | _ \<Rightarrow> Inr ()) (\<lambda>_. []) () fs"
  unfolding decodeBytes_def
  by (rule scan_fields) (auto simp: skipValue_def bytes_read value_skipped VarintType_def BytesType_def split: field.split)

lemma decodeVarint_fields: "numbered fs \<Longrightarrow> decodeVarint pw (putFields pw fs) k
    = walk (\<lambda>_ f. case f of VarintField n v \<Rightarrow> if n = k then Inl v else Inr () | _ \<Rightarrow> Inr ()) (\<lambda>_. 0) () fs"
  unfolding decodeVarint_def
  by (rule scan_fields) (auto simp: skipValue_def varint_read value_skipped VarintType_def BytesType_def split: field.split)

end


section \<open>The format\<close>

text \<open>
  An implementation of the format: varints in groups of seven bits with the least significant first, tags
  \<open>number * 8 + type\<close>, bytes behind their length.
\<close>

fun putNat :: "nat \<Rightarrow> bytes" where
  "putNat n = (if n < 128 then [word_of_nat n] else word_of_nat (n mod 128 + 128) # putNat (n div 128))"

declare putNat.simps [simp del]

fun getNat :: "bytes \<Rightarrow> (nat \<times> nat) option" where
  "getNat [] = None"
| "getNat (b # bs) = (if unat b < 128 then Some (unat b, 1)
     else case getNat bs of None \<Rightarrow> None | Some (v, k) \<Rightarrow> Some (unat b - 128 + 128 * v, Suc k))"

definition putTag :: "nat \<Rightarrow> nat \<Rightarrow> bytes" where
  "putTag n t = putNat (n * 8 + t)"

definition getTag :: "bytes \<Rightarrow> (nat \<times> nat \<times> nat) option" where
  "getTag data = (case getNat data of None \<Rightarrow> None
     | Some (v, k) \<Rightarrow> if v div 8 = 0 \<or> v div 8 \<ge> 2 ^ 31 then None else Some (v div 8, v mod 8, k))"

definition getVarint :: "bytes \<Rightarrow> (64 word \<times> nat) option" where
  "getVarint data = (case getNat data of None \<Rightarrow> None
     | Some (v, k) \<Rightarrow> if v < 2 ^ 64 then Some (word_of_nat v, k) else None)"

definition putBytes :: "bytes \<Rightarrow> bytes" where
  "putBytes b = putNat (length b) @ b"

definition getBytes :: "bytes \<Rightarrow> (bytes \<times> nat) option" where
  "getBytes data = (case getNat data of None \<Rightarrow> None
     | Some (m, k) \<Rightarrow> if m \<le> length (drop k data) then Some (take m (drop k data), k + m) else None)"

definition skipField :: "nat \<Rightarrow> nat \<Rightarrow> bytes \<Rightarrow> nat option" where
  "skipField n t data =
     (if t = VarintType then map_option snd (getVarint data)
      else if t = BytesType then map_option snd (getBytes data)
      else if t = 1 \<and> 8 \<le> length data then Some 8
      else if t = 5 \<and> 4 \<le> length data then Some 4
      else None)"

definition standardWire :: protowire where
  "standardWire = \<lparr>pw_AppendTag = putTag, pw_AppendVarint = (\<lambda>v. putNat (unat v)), pw_AppendBytes = putBytes,
     pw_ConsumeTag = getTag, pw_ConsumeVarint = getVarint, pw_ConsumeBytes = getBytes, pw_ConsumeFieldValue = skipField\<rparr>"

lemma putNat_nonempty: "putNat n \<noteq> []"
  by (subst putNat.simps) simp

lemma getNat_putNat: "getNat (putNat n @ r) = Some (n, length (putNat n))"
proof (induction n rule: putNat.induct)
  case (1 n)
  show ?case
  proof (cases "n < 128")
    case True
    then show ?thesis by (subst (1 2) putNat.simps) (simp add: unat_of_nat)
  next
    case False
    have "unat (word_of_nat (n mod 128 + 128) :: 8 word) = n mod 128 + 128"
      by (simp only: unat_of_nat) simp
    then show ?thesis using False 1 [OF False]
      by (subst (1 2) putNat.simps) (simp add: mod_div_mult_eq mult.commute)
  qed
qed

interpretation std: wire_format standardWire
proof unfold_locales
  fix n t :: nat and r assume n: "0 < n" "n < 2 ^ 29" and t: "t = VarintType \<or> t = BytesType"
  then have "(n * 8 + t) div 8 = n" "(n * 8 + t) mod 8 = t" by (auto simp: VarintType_def BytesType_def)
  then show "pw_ConsumeTag standardWire (pw_AppendTag standardWire n t @ r)
      = Some (n, t, length (pw_AppendTag standardWire n t))"
    using n by (simp add: standardWire_def putTag_def getTag_def getNat_putNat)
next
  fix n t show "pw_AppendTag standardWire n t \<noteq> []"
    by (simp add: standardWire_def putTag_def putNat_nonempty)
next
  fix v :: "64 word" and r
  have v: "unat v < 2 ^ 64" by (rule order_less_le_trans [OF unsigned_less]) simp
  then show "pw_ConsumeVarint standardWire (pw_AppendVarint standardWire v @ r)
      = Some (v, length (pw_AppendVarint standardWire v))"
    by (simp add: standardWire_def getVarint_def getNat_putNat)
  fix n from v show "pw_ConsumeFieldValue standardWire n VarintType (pw_AppendVarint standardWire v @ r)
      = Some (length (pw_AppendVarint standardWire v))"
    by (simp add: standardWire_def skipField_def getVarint_def getNat_putNat)
next
  fix b r
  show "pw_ConsumeBytes standardWire (pw_AppendBytes standardWire b @ r)
      = Some (b, length (pw_AppendBytes standardWire b))"
    by (simp add: standardWire_def putBytes_def getBytes_def getNat_putNat)
  fix n show "pw_ConsumeFieldValue standardWire n BytesType (pw_AppendBytes standardWire b @ r)
      = Some (length (pw_AppendBytes standardWire b))"
    by (simp add: standardWire_def skipField_def putBytes_def getBytes_def getNat_putNat VarintType_def BytesType_def)
qed


section \<open>What the messages carry\<close>

text \<open>All values of a repeated field.\<close>

definition everyBytes :: "protowire \<Rightarrow> bytes \<Rightarrow> nat \<Rightarrow> bytes list" where
  "everyBytes pw data target = scan pw (\<lambda>_. []) (\<lambda>acc number wireType rest.
     if wireType = BytesType then (case pw_ConsumeBytes pw rest of None \<Rightarrow> Inl []
       | Some (v, n) \<Rightarrow> Inr (n, if number = target then acc @ [v] else acc))
     else skipValue pw number wireType rest [] acc) (\<lambda>acc. acc) (length data) [] data"

definition bytesAt :: "nat \<Rightarrow> field list \<Rightarrow> bytes list" where
  "bytesAt k fs = concat (map (\<lambda>f. case f of BytesField n b \<Rightarrow> if n = k then [b] else [] | _ \<Rightarrow> []) fs)"

lemma bytesAt_simps [simp]:
  "bytesAt k [] = []"
  "bytesAt k (fs @ gs) = bytesAt k fs @ bytesAt k gs"
  "bytesAt k (BytesField n b # fs) = (if n = k then b # bytesAt k fs else bytesAt k fs)"
  "bytesAt k (VarintField n v # fs) = bytesAt k fs"
  "bytesAt k (strField n s) = (if n = k \<and> s \<noteq> [] then [bytesOf s] else [])"
  by (simp_all add: bytesAt_def strField_def)

lemma bytesAt_all [simp]: "bytesAt k (map (BytesField n) items) = (if n = k then items else [])"
  by (induction items) auto

lemma numbered_simps [simp]:
  "numbered []"
  "numbered (fs @ gs) \<longleftrightarrow> numbered fs \<and> numbered gs"
  "numbered (f # fs) \<longleftrightarrow> 0 < fieldNumber f \<and> fieldNumber f < 2 ^ 29 \<and> numbered fs"
  "0 < n \<Longrightarrow> n < 2 ^ 29 \<Longrightarrow> numbered (strField n s)"
  by (auto simp: numbered_def strField_def)

lemma numbered_all [simp]: "0 < n \<Longrightarrow> n < 2 ^ 29 \<Longrightarrow> numbered (map (BytesField n) items)"
  by (induction items) simp_all

context wire_format
begin

lemma everyBytes_fields:
  assumes "numbered fs"
  shows "everyBytes pw (putFields pw fs) k = bytesAt k fs"
proof -
  let ?step = "\<lambda>acc f. case f of BytesField n b \<Rightarrow> Inr (if n = k then acc @ [b] else acc) | _ \<Rightarrow> Inr acc"
  have "everyBytes pw (putFields pw fs) k = walk ?step (\<lambda>acc. acc) [] fs"
    unfolding everyBytes_def using assms
    by (intro scan_fields) (auto simp: skipValue_def bytes_read value_skipped VarintType_def BytesType_def split: field.split)
  moreover have "walk ?step (\<lambda>acc. acc) acc fs = acc @ bytesAt k fs" for acc
    by (induction fs arbitrary: acc) (auto split: field.split)
  ultimately show ?thesis by simp
qed

lemma reads:
  "decodeBytes pw (putFields pw []) k = []"
  "decodeVarint pw (putFields pw []) k = 0"
  "numbered (VarintField n v # fs) \<Longrightarrow> decodeBytes pw (putFields pw (VarintField n v # fs)) k = decodeBytes pw (putFields pw fs) k"
  "numbered (BytesField n b # fs) \<Longrightarrow> decodeBytes pw (putFields pw (BytesField n b # fs)) k
     = (if n = k then b else decodeBytes pw (putFields pw fs) k)"
  "numbered (VarintField n v # fs) \<Longrightarrow> decodeVarint pw (putFields pw (VarintField n v # fs)) k
     = (if n = k then v else decodeVarint pw (putFields pw fs) k)"
  "numbered (BytesField n b # fs) \<Longrightarrow> decodeVarint pw (putFields pw (BytesField n b # fs)) k = decodeVarint pw (putFields pw fs) k"
  by (simp_all add: decodeBytes_fields decodeVarint_fields)

lemma read_string:
  "0 < n \<Longrightarrow> n < 2 ^ 29 \<Longrightarrow> decodeBytes pw (putFields pw (strField n s)) k = (if n = k then bytesOf s else [])"
  by (auto simp: decodeBytes_fields strField_def bytesOf_def)

lemma read_strings:
  "numbered (strField n s @ fs) \<Longrightarrow> n \<noteq> k \<Longrightarrow> decodeBytes pw (putFields pw (strField n s @ fs)) k = decodeBytes pw (putFields pw fs) k"
  by (cases "s = []") (simp_all add: strField_def reads)

lemma read_varints:
  "numbered (map (BytesField n) items @ fs) \<Longrightarrow> decodeVarint pw (putFields pw (map (BytesField n) items @ fs)) k
     = decodeVarint pw (putFields pw fs) k"
  by (induction items) (simp_all add: reads)

end

lemma unat_of_char: "unat (of_char c :: 8 word) = of_char c"
proof -
  have "unat (of_nat (of_char c) :: 8 word) = of_char c" by (simp only: unat_of_nat) simp
  then show ?thesis by (simp only: of_nat_of_char)
qed

lemma stringOf_bytesOf: "stringOf (bytesOf s) = s"
  by (simp add: stringOf_def bytesOf_def unat_of_char comp_def)


text \<open>Where an answer goes: its envelope, the id of the request and, for exec messages, the exec id.\<close>

fun addressee :: "clientMessage \<Rightarrow> (nat \<times> 32 word \<times> string option) option" where
  "addressee (MCPResult i execID result) = Some (agentClientExecMessage, i, Some execID)"
| "addressee (RequestContextResult i execID systemText tools policy) = Some (agentClientExecMessage, i, Some execID)"
| "addressee (ExecRejected i execID field variant reasonField reason) = Some (agentClientExecMessage, i, Some execID)"
| "addressee (ExecError i execID field message) = Some (agentClientExecMessage, i, Some execID)"
| "addressee (FetchError i execID message) = Some (agentClientExecMessage, i, Some execID)"
| "addressee (KVGetResult i data) = Some (agentClientKVMessage, i, None)"
| "addressee (KVSetResult i) = Some (agentClientKVMessage, i, None)"
| "addressee (InteractionDecision i kind approve reason) = Some (agentClientInteractionResponse, i, None)"
| "addressee (AskQuestionRejected i reason) = Some (agentClientInteractionResponse, i, None)"
| "addressee (CreatePlanError i message) = Some (agentClientInteractionResponse, i, None)"
| "addressee m = None"

text \<open>The fields an exec answer may use: any but the one of the exec id.\<close>

definition resultField :: "nat \<Rightarrow> bool" where
  "resultField n \<longleftrightarrow> 0 < n \<and> n < 2 ^ 29 \<and> n \<noteq> 15"

fun fieldsInRange :: "clientMessage \<Rightarrow> bool" where
  "fieldsInRange (ExecRejected i execID field variant reasonField reason) = resultField field"
| "fieldsInRange (ExecError i execID field message) = resultField field"
| "fieldsInRange m = True"

lemmas envelopes = agentClientExecMessage_def agentClientKVMessage_def agentClientInteractionResponse_def

context wire_format
begin

lemma execResult_read:
  assumes "resultField field"
  shows "decodeBytes pw (execResult pw i execID field result) agentClientExecMessage
      = putFields pw (VarintField 1 (ucast i) # BytesField field result # strField 15 execID)"
    and "decodeVarint pw (decodeBytes pw (execResult pw i execID field result) agentClientExecMessage) 1 = ucast i"
    and "decodeString pw (decodeBytes pw (execResult pw i execID field result) agentClientExecMessage) 15 = execID"
    and "decodeBytes pw (decodeBytes pw (execResult pw i execID field result) agentClientExecMessage) field = result"
proof -
  have f: "0 < field" "field < 2 ^ 29" "field \<noteq> 15" using assms by (auto simp: resultField_def)
  show r: "decodeBytes pw (execResult pw i execID field result) agentClientExecMessage
      = putFields pw (VarintField 1 (ucast i) # BytesField field result # strField 15 execID)"
    using f by (simp add: execResult_def written reads envelopes)
  show "decodeVarint pw (decodeBytes pw (execResult pw i execID field result) agentClientExecMessage) 1 = ucast i"
    "decodeString pw (decodeBytes pw (execResult pw i execID field result) agentClientExecMessage) 15 = execID"
    "decodeBytes pw (decodeBytes pw (execResult pw i execID field result) agentClientExecMessage) field = result"
    unfolding r using f by (simp_all add: reads read_string decodeString_def stringOf_bytesOf)
qed

lemma interactionResult_read:
  assumes "0 < field" "field < 2 ^ 29"
  shows "decodeVarint pw (decodeBytes pw (interactionResult pw i field result) agentClientInteractionResponse) 1 = ucast i"
    and "decodeBytes pw (decodeBytes pw (interactionResult pw i field result) agentClientInteractionResponse) field = result"
  using assms by (simp_all add: interactionResult_def written reads envelopes)

lemma addressed:
  assumes "we_pw env = pw" "encodeMessage env m = Inr data" "addressee m = Some (k, i, execID)" "fieldsInRange m"
  shows "decodeVarint pw (decodeBytes pw data k) 1 = ucast i
    \<and> (case execID of Some e \<Rightarrow> decodeString pw (decodeBytes pw data k) 15 = e | None \<Rightarrow> True)"
proof (cases m)
  case (InteractionDecision j kind approve reason)
  then have k: "kind \<in> {2, 4, 5, 6, 9}"
    using assms(2) by (simp add: encodeInteractionDecision_def split: if_splits)
  then have "0 < nat kind" "nat kind < 2 ^ 29" by auto
  then show ?thesis using assms(2-4) InteractionDecision k
    by (auto simp: assms(1) encodeInteractionDecision_def interactionResult_read simp del: One_nat_def)
qed (use assms(2-4) in \<open>auto simp: assms(1) encodeMCPResult_def encodeRequestContextResult_def encodeExecRejected_def encodeExecError_def
    encodeFetchError_def encodeAskQuestionRejected_def encodeCreatePlanError_def encodeKVGetResult_def encodeKVSetResult_def
    Let_def execResult_read(2,3) interactionResult_read resultField_def written reads
    agentClientKVMessage_def simp del: One_nat_def\<close>)

end

section \<open>Properties\<close>

text \<open>
  An answer of the runner reaches the request it answers: read back from the bytes that are sent, the
  envelope of its kind holds the id of the request and, for exec messages, the exec id.
\<close>

theorem reply_is_addressed:
  assumes "wire_format (we_pw env)"
    and "encodeMessage env m = Inr data" and "addressee m = Some (k, i, execID)" and "fieldsInRange m"
  shows "decodeVarint (we_pw env) (decodeBytes (we_pw env) data k) 1 = ucast i
    \<and> (case execID of Some e \<Rightarrow> decodeString (we_pw env) (decodeBytes (we_pw env) data k) 15 = e | None \<Rightarrow> True)"
  by (rule wire_format.addressed [OF assms(1) refl assms(2-4)])

definition plainEnv :: wireEnv where
  "plainEnv = \<lparr>we_pw = standardWire, we_sha = (\<lambda>b. b), we_uuid = (\<lambda>n. ''id''), we_valid = (\<lambda>b. True),
     we_unmarshal = (\<lambda>b. None), we_marshal = (\<lambda>v. Inr []), we_imageConfig = (\<lambda>b. None), we_precheck = (\<lambda>i e k ok. Inr [])\<rparr>"

lemma reply_is_addressed_witness:
  "decodeVarint standardWire (decodeBytes standardWire (encodeExecRejected standardWire 300 ''e1'' 2 4 3 ''no shell'') 2) 1 = 300
   \<and> decodeString standardWire (decodeBytes standardWire (encodeExecRejected standardWire 300 ''e1'' 2 4 3 ''no shell'') 2) 15 = ''e1''"
  using reply_is_addressed [of plainEnv "ExecRejected 300 ''e1'' 2 4 3 ''no shell''" _ agentClientExecMessage 300 "Some ''e1''"]
  by (simp add: plainEnv_def std.wire_format_axioms resultField_def agentClientExecMessage_def)

text \<open>The items of a result: their text and the images with data and type.\<close>

definition itemImages :: "protowire \<Rightarrow> bytes \<Rightarrow> (bytes \<times> string) list" where
  "itemImages pw item = map (\<lambda>image. (decodeBytes pw image 1, decodeString pw image 2)) (everyBytes pw item 2)"

definition imagesOf :: "ToolResult \<Rightarrow> (bytes \<times> string) list" where
  "imagesOf result = concat (map (\<lambda>media. case rawBytes media of
     Some raw \<Rightarrow> if raw \<noteq> [] \<and> mp_Kind media = mediaKindImage then [(raw, mp_MimeType media)] else []
   | None \<Rightarrow> []) (tr_Media result))"

text \<open>An item as the other side reads it, and the items of a result: its text, its images, a note for any other attachment.\<close>

datatype sentItem = TextItem string | ImageItem bytes string

definition readItem :: "protowire \<Rightarrow> bytes \<Rightarrow> sentItem" where
  "readItem pw item = (case everyBytes pw item 2 of
     img # _ \<Rightarrow> ImageItem (decodeBytes pw img 1) (decodeString pw img 2)
   | [] \<Rightarrow> TextItem (decodeString pw (decodeBytes pw item 1) 1))"

definition attachmentItems :: "MediaPart \<Rightarrow> sentItem list" where
  "attachmentItems media = (case rawBytes media of None \<Rightarrow> []
     | Some raw \<Rightarrow> if raw = [] then [] else if mp_Kind media = ''image'' then [ImageItem raw (mp_MimeType media)]
         else [TextItem (''[attachment '' @ mp_MimeType media @ '' \"'' @ mp_Filename media
                 @ ''\" omitted: Cursor Agent v1 tool results carry text and images only]'')])"

definition itemsOf :: "ToolResult \<Rightarrow> sentItem list" where
  "itemsOf result = (if tr_Content result \<noteq> [] \<or> tr_Media result = [] then [TextItem (tr_Content result)] else [])
     @ concat (map attachmentItems (tr_Media result))"

text \<open>The success message of a result, as the other side reads it.\<close>

definition successOf :: "protowire \<Rightarrow> bytes \<Rightarrow> bytes" where
  "successOf pw data = decodeBytes pw (decodeBytes pw (decodeBytes pw data agentClientExecMessage) 11) 1"

context wire_format
begin

lemma mcpItem_images: "concat (map (itemImages pw) (mcpItem pw media)) = (case rawBytes media of
     Some raw \<Rightarrow> if raw \<noteq> [] \<and> mp_Kind media = mediaKindImage then [(raw, mp_MimeType media)] else []
   | None \<Rightarrow> [])"
  by (auto simp: mcpItem_def itemImages_def written everyBytes_fields reads read_string decodeString_def stringOf_bytesOf
      simp del: One_nat_def split: option.split)

lemma mcpItems_images: "concat (map (itemImages pw) (mcpItems pw result)) = imagesOf result"
proof -
  have "concat (map (itemImages pw) (concat (map (mcpItem pw) ms)))
      = concat (map (\<lambda>media. case rawBytes media of
     Some raw \<Rightarrow> if raw \<noteq> [] \<and> mp_Kind media = mediaKindImage then [(raw, mp_MimeType media)] else []
   | None \<Rightarrow> []) ms)" for ms
    by (induction ms) (simp_all add: mcpItem_images)
  then show ?thesis
    by (simp add: mcpItems_def imagesOf_def itemImages_def written everyBytes_fields)
qed

lemma mcpItem_read: "map (readItem pw) (mcpItem pw media) = attachmentItems media"
  by (auto simp: mcpItem_def readItem_def attachmentItems_def written everyBytes_fields reads read_string read_strings decodeString_def
      stringOf_bytesOf mediaKindImage_def simp del: One_nat_def split: option.split)

lemma mcpItems_read: "map (readItem pw) (mcpItems pw result) = itemsOf result"
proof -
  have "map (readItem pw) (concat (map (mcpItem pw) ms)) = concat (map attachmentItems ms)" for ms
    by (induction ms) (simp_all add: mcpItem_read)
  then show ?thesis
    by (simp add: mcpItems_def itemsOf_def readItem_def written everyBytes_fields reads read_string decodeString_def stringOf_bytesOf
        del: One_nat_def)
qed

lemma success_read: "successOf pw (encodeMCPResult pw i execID result)
    = putFields pw (map (BytesField 1) (mcpItems pw result) @ (if tr_IsError result then [VarintField 2 1] else []))"
proof -
  have "foldl (\<lambda>s item. appendBytesField pw s 1 item) [] items = putFields pw (map (BytesField 1) items)" for items
    using append_all [of pw 1 "[]" items] putFields_empty [of pw] by simp
  then show ?thesis
    by (auto simp: successOf_def encodeMCPResult_def execResult_read resultField_def written reads Let_def simp del: One_nat_def)
qed

lemma images_arrive:
  "map (readItem pw) (everyBytes pw (successOf pw (encodeMCPResult pw i execID result)) 1) = itemsOf result"
  "concat (map (itemImages pw) (everyBytes pw (successOf pw (encodeMCPResult pw i execID result)) 1)) = imagesOf result"
  "decodeVarint pw (successOf pw (encodeMCPResult pw i execID result)) 2 = of_bool (tr_IsError result)"
  by (simp_all add: success_read everyBytes_fields mcpItems_images mcpItems_read read_varints reads)

end

text \<open>
  C22: A tool result reaches the model with what the tool returned: read back from the bytes that are sent, its
  items are, in this order, its text (left out only when it is empty and there are attachments) and its attachments, an
  image with its bytes and its type, any other one as a note with its type and its name, one that cannot be read being left
  out; and the error flag is that of the result.
\<close>

theorem tool_result_images_arrive:
  assumes "wire_format pw" and "success = successOf pw (encodeMCPResult pw i execID result)"
  shows "map (readItem pw) (everyBytes pw success 1) = itemsOf result
    \<and> concat (map (itemImages pw) (everyBytes pw success 1)) = imagesOf result
    \<and> decodeVarint pw success 2 = of_bool (tr_IsError result)"
  unfolding assms(2) by (simp only: wire_format.images_arrive [OF assms(1)])

lemma tool_result_images_arrive_witness:
  "map (readItem standardWire) (everyBytes standardWire (successOf standardWire (encodeMCPResult standardWire 7 ''e1''
     \<lparr>tr_ToolCallID = ''t'', tr_Content = ''done'', tr_IsError = True,
      tr_Media = [\<lparr>mp_Kind = ''image'', mp_MimeType = ''image/png'', mp_Data = ''aGVsbG8='', mp_Filename = []\<rparr>]\<rparr>)) 1)
   = [TextItem ''done'', ImageItem (bytesOf ''hello'') ''image/png'']"
proof -
  have "itemsOf \<lparr>tr_ToolCallID = ''t'', tr_Content = ''done'', tr_IsError = True,
      tr_Media = [\<lparr>mp_Kind = ''image'', mp_MimeType = ''image/png'', mp_Data = ''aGVsbG8='', mp_Filename = []\<rparr>]\<rparr>
    = [TextItem ''done'', ImageItem (bytesOf ''hello'') ''image/png'']" by code_simp
  then show ?thesis using tool_result_images_arrive [OF std.wire_format_axioms refl] by simp
qed

text \<open>
  What a history message is sent as.  A message that is not a tool message is sent as it is.  A tool message keeps
  everything but the attachments of its parts; these follow it in a user message, all of them in their order, under a
  heading that names the first part that has any.
\<close>

definition attachments :: "json \<Rightarrow> json list" where
  "attachments v = (case v of JObj part \<Rightarrow> (case map_of part ''experimental_content'' of
       Some (JArr vs) \<Rightarrow> [x \<leftarrow> vs. case x of JObj content \<Rightarrow> mediaPartFromHistory content \<noteq> None | _ \<Rightarrow> False] | _ \<Rightarrow> [])
     | _ \<Rightarrow> [])"

definition withoutAttachments :: "json \<Rightarrow> json" where
  "withoutAttachments v = (case v of JObj part \<Rightarrow> (case map_of part ''experimental_content'' of
       Some (JArr vs) \<Rightarrow> JObj [(k, x) \<leftarrow> part. ''experimental_content'' \<noteq> k] | _ \<Rightarrow> v)
     | _ \<Rightarrow> v)"

definition attachmentHeading :: "json \<Rightarrow> json" where
  "attachmentHeading v = (case v of JObj part \<Rightarrow> JObj [(''type'', JStr ''text''), (''text'', JStr (''Attachment returned by tool ''
       @ stringValue (map_of part ''toolName'') @ '' (call '' @ stringValue (map_of part ''toolCallId'') @ ''):''))] | _ \<Rightarrow> JNull)"

definition sentAs :: "wireEnv \<Rightarrow> bytes \<Rightarrow> bytes list \<Rightarrow> bool" where
  "sentAs env raw out = (case we_unmarshal env raw of None \<Rightarrow> out = [raw]
     | Some message \<Rightarrow> if stringValue (map_of message ''role'') \<noteq> ''tool'' then out = [raw]
         else \<exists>encoded. we_marshal env (JObj (AList.update ''content''
                  (JArr (map withoutAttachments (contentParts (map_of message ''content'')))) message)) = Inr encoded
             \<and> (case find (\<lambda>v. attachments v \<noteq> []) (contentParts (map_of message ''content'')) of
                  None \<Rightarrow> out = [encoded]
                | Some first \<Rightarrow> \<exists>following. out = [encoded, following]
                    \<and> we_marshal env (JObj [(''role'', JStr ''user''), (''content'', JArr (attachmentHeading first
                        # concat (map attachments (contentParts (map_of message ''content'')))))]) = Inr following))"

lemma rewritePart_without: "rewritePart v = withoutAttachments v"
  by (cases v) (auto simp: withoutAttachments_def AList.delete_eq split: option.split json.split)

lemma mediaContents_attachments: "mediaContents part = attachments (JObj part)"
  by (simp add: mediaContents_def attachments_def)

lemma liftParts_attachments: "liftParts parts = (case find (\<lambda>v. attachments v \<noteq> []) parts of None \<Rightarrow> []
     | Some first \<Rightarrow> attachmentHeading first # concat (map attachments parts))"
proof -
  have all: "concat (map (\<lambda>v. case v of JObj p \<Rightarrow> mediaContents p | _ \<Rightarrow> []) parts) = concat (map attachments parts)" for parts
    by (induction parts) (auto simp: mediaContents_attachments attachments_def split: json.split)
  have other: "attachments v = []" if "\<nexists>p. v = JObj p" for v
    using that by (cases v) (simp_all add: attachments_def)
  show ?thesis
    by (induction parts rule: liftParts.induct)
      (simp_all add: mediaContents_attachments all other attachmentHeading_def Let_def split: option.split)
qed

lemma liftMessage_sent: "liftMessage env raw = Inr out \<Longrightarrow> sentAs env raw out"
  by (auto simp: liftMessage_def sentAs_def Let_def liftParts_attachments rewritePart_without [abs_def]
      split: option.splits if_splits sum.splits)

lemma lifted_sent: "agentV1LiftToolResultMedia env messages = Inr history \<Longrightarrow>
    \<exists>outs. list_all2 (sentAs env) messages outs \<and> history = concat outs"
proof (induction messages arbitrary: history)
  case (Cons raw messages)
  then obtain out rest where "liftMessage env raw = Inr out" "agentV1LiftToolResultMedia env messages = Inr rest" "history = out @ rest"
    by (auto split: sum.splits)
  with Cons.IH liftMessage_sent show ?case by (metis concat.simps(2) list.rel_intros(2))
qed simp

lemma historyState_spec:
  assumes "historyState env index history store (putFields (we_pw env) fs) = Inr (state, store')"
    and "inj_on (we_sha env) (set history)"
  shows "state = putFields (we_pw env) (fs @ map (\<lambda>m. BytesField 1 (we_sha env m)) history)
    \<and> (\<forall>m\<in>set history. map_of store' (hexKey (we_sha env m)) = Some m)
    \<and> (\<forall>k. k \<notin> hexKey ` we_sha env ` set history \<longrightarrow> map_of store' k = map_of store k)"
  using assms
proof (induction history arbitrary: index store fs)
  case Nil
  then show ?case by simp
next
  case (Cons m history)
  let ?store = "AList.update (hexKey (we_sha env m)) m store"
  have step: "historyState env (index + 1) history ?store (putFields (we_pw env) (fs @ [BytesField 1 (we_sha env m)])) = Inr (state, store')"
    using Cons.prems(1) by (simp add: written Let_def split: if_splits)
  note IH = Cons.IH [OF step] 
  have inj: "inj_on (we_sha env) (set history)" using Cons.prems(2) by simp
  have "map_of store' (hexKey (we_sha env m)) = Some m"
  proof (cases "m \<in> set history")
    case True
    then show ?thesis using IH [OF inj] by blast
  next
    case False
    then have "we_sha env m \<notin> we_sha env ` set history" using Cons.prems(2) by simp
    then have "hexKey (we_sha env m) \<notin> hexKey ` we_sha env ` set history" by (auto simp: hexKey_inject)
    then show ?thesis using IH [OF inj] by (simp add: update_conv')
  qed
  then show ?case using IH [OF inj] by (auto simp: update_conv')
qed

lemma encodeRunRequest_shape:
  assumes "encodeRunRequest env request = Inr (data, store)"
  obtains state fs where "conversationState env request = Inr (state, store)" and "numbered fs"
    and "data = putFields (we_pw env) [BytesField agentClientRunRequest (putFields (we_pw env) (BytesField 1 state # fs))]"
proof -
  let ?pw = "we_pw env"
  obtain state where st: "conversationState env request = Inr (state, store)"
    using assms by (auto simp: encodeRunRequest_def Let_def split: if_splits sum.splits)
  define model where "model = putFields ?pw (strField 1 (rw_Model request) @ strField 3 (rw_Model request) @ strField 4 (rw_Model request))"
  have "data = putFields ?pw [BytesField agentClientRunRequest (putFields ?pw (BytesField 1 state #
     (BytesField 2 (runAction env request) # BytesField 3 model
      # (if rw_Tools request \<noteq> [] then [BytesField 4 (encodeMCPTools ?pw (rw_Tools request))] else [])
      @ strField 5 (rw_ConversationID request) @ [BytesField 9 (putFields ?pw (strField 1 (rw_Model request)))])))]"
    using assms st
    by (simp add: encodeRunRequest_def model_def written Let_def del: One_nat_def split: if_splits)
  from that [OF st _ this] show thesis by simp
qed



end
