(* ===== verification/SandWire.thy ===== *)
theory SandWire
  imports Wire Web Batches
begin

text \<open>
  The protobuf messages of the Sand runtime (\<open>inference_wire.go\<close>) and the checkpoint a Sand conversation is
  continued from (\<open>inference_checkpoint.go\<close>).  JSON and \<open>structpb\<close> are parameters.
\<close>

section \<open>Parameters\<close>

text \<open>
  \<open>se_newStruct\<close> and \<open>se_newValue\<close> are \<open>structpb.NewStruct\<close> and \<open>NewValue\<close>, \<open>None\<close> when they refuse, followed by
  \<open>proto.Marshal\<close>; \<open>se_sprint\<close> is \<open>fmt.Sprint\<close> of the values that are neither nil, text nor boolean.
\<close>

record sandEnv =
  se_pw :: protowire
  se_sha :: "string \<Rightarrow> string"
  se_lower :: "string \<Rightarrow> string"
  se_uuid :: "nat \<Rightarrow> string"
  se_unmarshal :: "bytes \<Rightarrow> object option"
  se_marshal :: "json \<Rightarrow> bytes res"
  se_newStruct :: "object \<Rightarrow> bytes res option"
  se_newValue :: "json \<Rightarrow> bytes res option"
  se_sprint :: "json \<Rightarrow> string"
  se_valid :: "string \<Rightarrow> bool"
  se_forwarding :: bool
  se_redacted :: bool

fun sprint :: "sandEnv \<Rightarrow> json option \<Rightarrow> string" where
  "sprint env None = ''<nil>''"
| "sprint env (Some JNull) = ''<nil>''"
| "sprint env (Some (JStr s)) = s"
| "sprint env (Some (JBool b)) = (if b then ''true'' else ''false'')"
| "sprint env (Some v) = se_sprint env v"

text \<open>The value of a member, nil when there is none.\<close>

definition member :: "object \<Rightarrow> string \<Rightarrow> json" where
  "member part key = (case map_of part key of None \<Rightarrow> JNull | Some v \<Rightarrow> v)"

definition historyContinuationText :: string where
  "historyContinuationText = ''Continue, using the tool results above.''"

section \<open>Requests\<close>

definition encodeInferenceTextMessage :: "sandEnv \<Rightarrow> 64 word \<Rightarrow> string \<Rightarrow> bytes" where
  "encodeInferenceTextMessage env role t = appendStringField (se_pw env) (appendVarintField (se_pw env) [] 1 role) 2 t"

definition encodeInferenceContentPart :: "sandEnv \<Rightarrow> ContentPart \<Rightarrow> bytes" where
  "encodeInferenceContentPart env part = (let pw = se_pw env in case cn_Media part of
     None \<Rightarrow> appendBytesField pw [] 1 (appendStringField pw [] 1 (cn_Text part))
   | Some media \<Rightarrow>
       if mp_Kind media = mediaKindImage
       then appendBytesField pw [] 2 (appendStringField pw (appendStringField pw [] 1 (mp_Data media)) 2 (mp_MimeType media))
       else appendBytesField pw [] 3
         (appendStringField pw (appendStringField pw (appendStringField pw [] 1 (mp_Data media)) 2 (mp_MimeType media)) 3 (mp_Filename media)))"

definition encodeInferenceUserMessage :: "sandEnv \<Rightarrow> string \<Rightarrow> MediaPart list \<Rightarrow> bytes" where
  "encodeInferenceUserMessage env t media =
     (if media = [] then encodeInferenceTextMessage env 1 t
      else let pw = se_pw env;
               p1 = (if trimSpace t \<noteq> [] then appendBytesField pw [] 1 (encodeInferenceContentPart env (textPart t)) else []);
               parts = foldl (\<lambda>p m. appendBytesField pw p 1 (encodeInferenceContentPart env (mediaPart (Some m)))) p1 media
           in appendBytesField pw (appendVarintField pw [] 1 1) 3 parts)"

definition marshalStruct :: "sandEnv \<Rightarrow> object \<Rightarrow> bytes res" where
  "marshalStruct env v = (case se_newStruct env v of
     None \<Rightarrow> Inl (badRequest ''Cursor Sand protobuf Struct is invalid'') | Some r \<Rightarrow> r)"

definition encodeInferenceHistoricalToolCall :: "sandEnv \<Rightarrow> object \<Rightarrow> bytes res" where
  "encodeInferenceHistoricalToolCall env part =
     (let i = trimSpace (sprint env (map_of part ''toolCallId'')); name = trimSpace (sprint env (map_of part ''toolName'')) in
      case map_of part ''args'' of
        Some (JObj args) \<Rightarrow>
          if i = [] \<or> name = [] then Inl (badRequest ''Cursor Sand historical tool call is invalid'')
          else (case marshalStruct env args of Inl e \<Rightarrow> Inl e
            | Inr argsProto \<Rightarrow>
                (let pw = se_pw env; o3 = appendBytesField pw (appendStringField pw (appendStringField pw [] 1 i) 2 name) 3 argsProto in
                 Inr (case se_marshal env (JObj args) of Inr rawArgs \<Rightarrow> appendStringField pw o3 4 (stringOf rawArgs) | Inl e \<Rightarrow> o3)))
      | _ \<Rightarrow> Inl (badRequest ''Cursor Sand historical tool call is invalid''))"

fun experimentalParts :: "sandEnv \<Rightarrow> bytes \<Rightarrow> json list \<Rightarrow> bytes res" where
  "experimentalParts env out [] = Inr out"
| "experimentalParts env out (JObj content # rest) = (case mediaPartFromHistory content of
     Some media \<Rightarrow> experimentalParts env (appendBytesField (se_pw env) out 5 (encodeInferenceContentPart env (mediaPart (Some media)))) rest
   | None \<Rightarrow> if trimSpace (sprint env (map_of content ''type'')) = ''text''
       then experimentalParts env (appendBytesField (se_pw env) out 5
              (encodeInferenceContentPart env (textPart (stringMember content ''text'')))) rest
       else Inl (badRequest ''Cursor Sand historical tool result media is invalid''))"
| "experimentalParts env out (v # rest) = Inl (badRequest ''Cursor Sand historical tool result media is invalid'')"

text \<open>The value of a result and whether it is an error: an object with \<open>is_error\<close> wraps the content.\<close>

definition unwrapResult :: "json \<Rightarrow> bool \<times> json" where
  "unwrapResult v = (case v of
     JObj wrapper \<Rightarrow> (case map_of wrapper ''is_error'' of
         Some raw \<Rightarrow> (raw = JBool True, member wrapper ''content'') | None \<Rightarrow> (False, v))
   | _ \<Rightarrow> (False, v))"

definition encodeInferenceHistoricalToolResult :: "sandEnv \<Rightarrow> object \<Rightarrow> bytes res" where
  "encodeInferenceHistoricalToolResult env part =
     (let i = trimSpace (sprint env (map_of part ''toolCallId'')); name = trimSpace (sprint env (map_of part ''toolName''));
          (isError, v) = unwrapResult (member part ''result'') in
      if i = [] \<or> name = [] then Inl (badRequest ''Cursor Sand historical tool result is invalid'')
      else case se_newValue env v of
        None \<Rightarrow> Inl (badRequest ''Cursor Sand historical tool result is invalid'')
      | Some (Inl e) \<Rightarrow> Inl e
      | Some (Inr encodedValue) \<Rightarrow>
          let pw = se_pw env; o3 = appendBytesField pw (appendStringField pw (appendStringField pw [] 1 i) 2 name) 3 encodedValue;
              o4 = (if isError then appendVarintField pw o3 4 1 else o3)
          in (case map_of part ''experimental_content'' of
                Some (JArr experimental) \<Rightarrow> experimentalParts env o4 experimental
              | _ \<Rightarrow> Inr o4))"

text \<open>What the loop over the parts of a message collects.\<close>

record historyAcc =
  ha_out :: bytes
  ha_texts :: "string list"
  ha_contentParts :: bytes
  ha_hasMedia :: bool
  ha_toolResults :: bytes
  ha_reasoning :: bytes

definition historyReasoning :: "sandEnv \<Rightarrow> signatureMemoryStore \<Rightarrow> bool \<Rightarrow> object \<Rightarrow> bytes" where
  "historyReasoning env memory dropSignatures part =
     (let signature = stringMember part ''signature'';
          e2 = appendStringField (se_pw env) [] 2 (stringMember part ''text'')
      in if \<not> dropSignatures \<and> sandForwardsReasoningSignature (se_sha env) (se_forwarding env) memory signature
         then appendStringField (se_pw env) e2 3 signature else e2)"

definition historyPart :: "sandEnv \<Rightarrow> signatureMemoryStore \<Rightarrow> bool \<Rightarrow> historyAcc \<Rightarrow> json \<Rightarrow> historyAcc res" where
  "historyPart env memory dropSignatures a rawPart = (let pw = se_pw env in case rawPart of
     JObj part \<Rightarrow>
       (let t = trimSpace (sprint env (map_of part ''type'')) in
        if t = ''text'' then
          (let x = sprint env (map_of part ''text'') in
           Inr (a\<lparr>ha_texts := ha_texts a @ [x], ha_contentParts := appendBytesField pw (ha_contentParts a) 1 (encodeInferenceContentPart env (textPart x))\<rparr>))
        else if t = ''image'' \<or> t = ''file'' then (case mediaPartFromHistory part of
            None \<Rightarrow> Inl (badRequest ''Cursor Sand history media part is invalid'')
          | Some media \<Rightarrow> Inr (a\<lparr>ha_hasMedia := True,
              ha_contentParts := appendBytesField pw (ha_contentParts a) 1 (encodeInferenceContentPart env (mediaPart (Some media)))\<rparr>))
        else if t = ''reasoning'' then
          (let encoded = historyReasoning env memory dropSignatures part in
           Inr (if encoded \<noteq> [] then a\<lparr>ha_reasoning := appendBytesField pw (ha_reasoning a) 7 encoded\<rparr> else a))
        else if t = ''redacted-reasoning'' then
          (let data = stringMember part ''data'' in
           Inr (if se_redacted env \<and> data \<noteq> []
                then a\<lparr>ha_reasoning := appendBytesField pw (ha_reasoning a) 7 (appendStringField pw (appendVarintField pw [] 1 1) 4 data)\<rparr> else a))
        else if t = ''tool-call'' then (case encodeInferenceHistoricalToolCall env part of
            Inl e \<Rightarrow> Inl e | Inr call \<Rightarrow> Inr (a\<lparr>ha_out := appendBytesField pw (ha_out a) 4 call\<rparr>))
        else if t = ''tool-result'' then (case encodeInferenceHistoricalToolResult env part of
            Inl e \<Rightarrow> Inl e | Inr result \<Rightarrow> Inr (a\<lparr>ha_toolResults := appendBytesField pw (ha_toolResults a) 1 result\<rparr>))
        else Inl (unprocessable ''Cursor Sand history part is unsupported''))
   | _ \<Rightarrow> Inl (badRequest ''Cursor Sand history part is invalid''))"

fun historyParts :: "sandEnv \<Rightarrow> signatureMemoryStore \<Rightarrow> bool \<Rightarrow> historyAcc \<Rightarrow> json list \<Rightarrow> historyAcc res" where
  "historyParts env memory dropSignatures a [] = Inr a"
| "historyParts env memory dropSignatures a (p # ps) = (case historyPart env memory dropSignatures a p of
     Inl e \<Rightarrow> Inl e | Inr a' \<Rightarrow> historyParts env memory dropSignatures a' ps)"

definition historyRole :: "string \<Rightarrow> 64 word option" where
  "historyRole name = map_of [(''user'', 1), (''assistant'', 2), (''tool'', 3), (''system'', 4)] name"

definition encodeInferenceHistoryMessage :: "sandEnv \<Rightarrow> signatureMemoryStore \<Rightarrow> bytes \<Rightarrow> bool \<Rightarrow> bytes res" where
  "encodeInferenceHistoryMessage env memory raw dropSignatures = (case se_unmarshal env raw of
     None \<Rightarrow> Inl (badRequest ''Cursor Sand history is invalid'')
   | Some message \<Rightarrow> (case historyRole (se_lower env (trimSpace (sprint env (map_of message ''role'')))) of
       None \<Rightarrow> Inl (unprocessable ''Cursor Sand history role is unsupported'')
     | Some role \<Rightarrow>
         (let pw = se_pw env in
          case historyParts env memory dropSignatures \<lparr>ha_out = appendVarintField pw [] 1 role, ha_texts = [], ha_contentParts = [],
              ha_hasMedia = False, ha_toolResults = [], ha_reasoning = []\<rparr> (contentParts (map_of message ''content'')) of
            Inl e \<Rightarrow> Inl e
          | Inr a \<Rightarrow>
              (let body = (if ha_toolResults a \<noteq> [] then appendBytesField pw (ha_out a) 6 (ha_toolResults a)
                           else if ha_hasMedia a then appendBytesField pw (ha_out a) 3 (ha_contentParts a)
                           else appendStringField pw (ha_out a) 2 (trimSpace (join blankLine (ha_texts a))))
               in Inr (body @ ha_reasoning a)))))"

definition encodeInferenceTool :: "sandEnv \<Rightarrow> ToolDefinition \<Rightarrow> bytes res" where
  "encodeInferenceTool env tool =
     (if trimSpace (td_Name tool) = [] then Inl (badRequest ''Cursor Sand tool name is required'')
      else case (if td_InputSchema tool \<noteq> [] then se_unmarshal env (td_InputSchema tool) else Some []) of
        None \<Rightarrow> Inl (badRequest ''Cursor Sand tool schema is invalid'')
      | Some schema \<Rightarrow> (case marshalStruct env [(''jsonSchema'', JObj schema)] of
          Inl e \<Rightarrow> Inl e
        | Inr parameters \<Rightarrow> (let pw = se_pw env in
            Inr (appendBytesField pw (appendStringField pw (appendStringField pw [] 1 (td_Name tool)) 2 (td_Description tool)) 3 parameters))))"

fun appendHistory :: "sandEnv \<Rightarrow> signatureMemoryStore \<Rightarrow> bool \<Rightarrow> bytes \<Rightarrow> bytes list \<Rightarrow> bytes res" where
  "appendHistory env memory dropSignatures payload [] = Inr payload"
| "appendHistory env memory dropSignatures payload (raw # rest) =
     (case encodeInferenceHistoryMessage env memory raw dropSignatures of
        Inl e \<Rightarrow> Inl e
      | Inr message \<Rightarrow> appendHistory env memory dropSignatures
          (if message \<noteq> [] then appendBytesField (se_pw env) payload 1 message else payload) rest)"

fun appendTools :: "sandEnv \<Rightarrow> bytes \<Rightarrow> ToolDefinition list \<Rightarrow> bytes res" where
  "appendTools env payload [] = Inr payload"
| "appendTools env payload (tool # rest) = (case encodeInferenceTool env tool of
     Inl e \<Rightarrow> Inl e
   | Inr encoded \<Rightarrow> appendTools env (appendBytesField (se_pw env) payload 2 encoded) rest)"

definition encodeModel :: "protowire \<Rightarrow> inferenceModelSpec \<Rightarrow> bytes" where
  "encodeModel pw selection =
     (let m1 = appendStringField pw [] 1 (ms_ID selection);
          m2 = (if ms_MaxMode selection then appendVarintField pw m1 2 1 else m1);
          m3 = foldl (\<lambda>m (k, v). appendBytesField pw m 3 (appendStringField pw (appendStringField pw [] 1 k) 2 v)) m2 (ms_Parameters selection)
      in if ms_BuiltIn selection then appendVarintField pw m3 4 1 else m3)"

definition encodeInferenceRequestWithPolicy :: "sandEnv \<Rightarrow> signatureMemoryStore \<Rightarrow> nat \<Rightarrow> RunRequest \<Rightarrow> bool \<Rightarrow> bytes res" where
  "encodeInferenceRequestWithPolicy env memory n request dropSignatures = (case requestSelection (se_lower env) request of
     Inl e \<Rightarrow> Inl e
   | Inr selection \<Rightarrow>
       (let pw = se_pw env;
            p1 = (if trimSpace (rr_SystemText request) \<noteq> [] then appendBytesField pw [] 1 (encodeInferenceTextMessage env 4 (rr_SystemText request)) else []) in
        case appendHistory env memory dropSignatures p1 (rr_HistoryMessages request) of
          Inl e \<Rightarrow> Inl e
        | Inr p2 \<Rightarrow>
            (let p3 = (if trimSpace (rr_UserText request) \<noteq> [] \<or> rr_UserMedia request \<noteq> []
                       then appendBytesField pw p2 1 (encodeInferenceUserMessage env (rr_UserText request) (rr_UserMedia request)) else p2) in
             case appendTools env p3 (rr_Tools request) of
               Inl e \<Rightarrow> Inl e
             | Inr p4 \<Rightarrow>
                 (let p6 = appendStringField pw p4 6 (se_uuid env n);
                      p7 = appendBytesField pw p6 7 (encodeModel pw selection);
                      p8 = appendStringField pw p7 8 (rr_ConversationID request)
                  in if length p8 > maxConnectPayloadSize then Inl (errExceedsConnectLimit ''Cursor Sand request'') else Inr p8))))"

definition encodeInferenceRequest :: "sandEnv \<Rightarrow> signatureMemoryStore \<Rightarrow> nat \<Rightarrow> RunRequest \<Rightarrow> bytes res" where
  "encodeInferenceRequest env memory n request =
     encodeInferenceRequestWithPolicy env memory n request (rr_dropReasoningSignatures request)"

section \<open>Responses\<close>

record inferenceUsage =
  iu_Input :: int
  iu_Output :: int
  iu_CacheRead :: int
  iu_CacheWrite :: int
  iu_Extended :: bool

record inferenceResponse =
  ir_Text :: string
  ir_TextFinal :: bool
  ir_Thinking :: string
  ir_ThinkSignature :: string
  ir_ThinkFinal :: bool
  ir_Tool :: "inferenceToolCall option"
  ir_ToolFinal :: bool
  ir_Usage :: "inferenceUsage option"
  ir_ErrorCode :: string
  ir_ErrorText :: string

definition noResponse :: inferenceResponse where
  "noResponse = \<lparr>ir_Text = [], ir_TextFinal = False, ir_Thinking = [], ir_ThinkSignature = [], ir_ThinkFinal = False,
     ir_Tool = None, ir_ToolFinal = False, ir_Usage = None, ir_ErrorCode = [], ir_ErrorText = []\<rparr>"

definition firstBytesField :: "protowire \<Rightarrow> bytes \<Rightarrow> (nat \<times> bytes) res" where
  "firstBytesField pw payload = scan pw (\<lambda>_. Inl (Errorf ''Cursor Sand response tag is invalid'' [])) (\<lambda>_ number wireType rest.
     if wireType = BytesType then (case pw_ConsumeBytes pw rest of
         None \<Rightarrow> Inl (Inl (Errorf ''Cursor Sand response field is invalid'' []))
       | Some (v, n) \<Rightarrow> Inl (Inr (number, v)))
     else skipValue pw number wireType rest (Inl (Errorf ''Cursor Sand response field is invalid'' [])) ())
     (\<lambda>_. Inr (0, [])) (length payload) () payload"

definition decodeInt64 :: "protowire \<Rightarrow> bytes \<Rightarrow> nat \<Rightarrow> int" where
  "decodeInt64 pw data target = scan pw (\<lambda>_. 0) (\<lambda>_ number wireType rest.
     if number = target \<and> wireType = VarintType then (case pw_ConsumeVarint pw rest of
         Some (v, n) \<Rightarrow> Inl (if uint v > maxInt64 then maxInt64 else uint v) | None \<Rightarrow> Inl 0)
     else skipValue pw number wireType rest 0 ()) (\<lambda>_. 0) (length data) () data"

definition decodeBool :: "protowire \<Rightarrow> bytes \<Rightarrow> nat \<Rightarrow> bool" where
  "decodeBool pw data target = (decodeInt64 pw data target \<noteq> 0)"

definition decodeInferenceResponse :: "protowire \<Rightarrow> bytes \<Rightarrow> inferenceResponse res" where
  "decodeInferenceResponse pw payload = (case firstBytesField pw payload of
     Inl e \<Rightarrow> Inl e
   | Inr (number, v) \<Rightarrow> Inr
      (if number = 1 then noResponse\<lparr>ir_Text := decodeString pw v 1, ir_TextFinal := decodeBool pw v 2\<rparr>
       else if number = 2 then noResponse\<lparr>ir_Tool := Some \<lparr>ic_ID = decodeString pw v 1, ic_Name = decodeString pw v 2,
         ic_Arguments = decodeString pw v 3\<rparr>, ir_ToolFinal := decodeBool pw v 4\<rparr>
       else if number = 3 then noResponse\<lparr>ir_Usage := Some \<lparr>iu_Input = decodeInt64 pw v 1, iu_Output = decodeInt64 pw v 2,
         iu_CacheRead = 0, iu_CacheWrite = 0, iu_Extended = False\<rparr>\<rparr>
       else if number = 5 then noResponse\<lparr>ir_Usage := Some \<lparr>iu_Input = decodeInt64 pw v 1, iu_Output = decodeInt64 pw v 2,
         iu_CacheRead = decodeInt64 pw v 3, iu_CacheWrite = decodeInt64 pw v 4, iu_Extended = True\<rparr>\<rparr>
       else if number = 8 then noResponse\<lparr>ir_ErrorText := decodeString pw v 1, ir_ErrorCode := decodeString pw v 2\<rparr>
       else if number = 9 then noResponse\<lparr>ir_Thinking := decodeString pw v 1, ir_ThinkSignature := decodeString pw v 2,
         ir_ThinkFinal := decodeBool pw v 3\<rparr>
       else noResponse))"

section \<open>Checkpoints\<close>

definition inferenceCheckpointVersion :: int where "inferenceCheckpointVersion = 1"

record inferenceCheckpoint =
  ik_Version :: int
  ik_Profile :: string
  ik_Messages :: "bytes list"

record inferenceReasoning =
  ig_Text :: string
  ig_Signature :: string

text \<open>The JSON coding of the checkpoint struct.\<close>

record checkpointCodec =
  cc_marshal :: "inferenceCheckpoint \<Rightarrow> bytes res"
  cc_unmarshal :: "bytes \<Rightarrow> inferenceCheckpoint option"

definition textObject :: "string \<Rightarrow> json" where
  "textObject t = JObj [(''type'', JStr ''text''), (''text'', JStr t)]"

definition roleMessage :: "string \<Rightarrow> json list \<Rightarrow> json" where
  "roleMessage role content = JObj [(''role'', JStr role), (''content'', JArr content)]"

definition checkpointSystem :: "sandEnv \<Rightarrow> RunRequest \<Rightarrow> bytes list res" where
  "checkpointSystem env request =
     (if trimSpace (rr_SystemText request) \<noteq> []
      then (case se_marshal env (roleMessage ''system'' [textObject (rr_SystemText request)]) of
        Inl e \<Rightarrow> Inl e | Inr system \<Rightarrow> Inr [system])
      else Inr [])"

definition checkpointUser :: "sandEnv \<Rightarrow> RunRequest \<Rightarrow> bytes list res" where
  "checkpointUser env request =
     (if trimSpace (rr_UserText request) \<noteq> [] \<or> rr_UserMedia request \<noteq> []
      then (case se_marshal env (roleMessage ''user''
          ((if trimSpace (rr_UserText request) \<noteq> [] then [textObject (rr_UserText request)] else [])
           @ map (\<lambda>m. JObj (historyMediaPart m)) (rr_UserMedia request))) of
        Inl e \<Rightarrow> Inl e | Inr user \<Rightarrow> Inr [user])
      else Inr [])"

fun toolCallParts :: "sandEnv \<Rightarrow> inferenceToolCall list \<Rightarrow> json list res" where
  "toolCallParts env [] = Inr []"
| "toolCallParts env (tool # tools) = (case se_unmarshal env (bytesOf (ic_Arguments tool)) of
     None \<Rightarrow> Inl (Errorf ''Cursor Sand returned invalid tool arguments'' [])
   | Some args \<Rightarrow> (case toolCallParts env tools of
       Inl e \<Rightarrow> Inl e
     | Inr parts \<Rightarrow> Inr (JObj [(''type'', JStr ''tool-call''), (''toolCallId'', JStr (ic_ID tool)),
         (''toolName'', JStr (ic_Name tool)), (''args'', JObj args)] # parts)))"

definition reasoningParts :: "inferenceReasoning \<Rightarrow> json list" where
  "reasoningParts r = (if trimSpace (ig_Text r) \<noteq> []
     then [JObj ([(''type'', JStr ''reasoning''), (''text'', JStr (ig_Text r))]
            @ (if ig_Signature r \<noteq> [] then [(''signature'', JStr (ig_Signature r))] else []))] else [])"

definition checkpointAssistant :: "sandEnv \<Rightarrow> string \<Rightarrow> inferenceReasoning \<Rightarrow> inferenceToolCall list \<Rightarrow> bytes list res" where
  "checkpointAssistant env assistantText r tools = (case toolCallParts env tools of
     Inl e \<Rightarrow> Inl e
   | Inr calls \<Rightarrow>
       let parts = reasoningParts r @ (if trimSpace assistantText \<noteq> [] then [textObject assistantText] else []) @ calls in
       if parts = [] then Inr []
       else (case se_marshal env (roleMessage ''assistant'' parts) of Inl e \<Rightarrow> Inl e | Inr assistant \<Rightarrow> Inr [assistant]))"

definition resultPart :: "string \<Rightarrow> string \<Rightarrow> json \<Rightarrow> bool \<Rightarrow> object" where
  "resultPart callID name v isError = [(''type'', JStr ''tool-result''), (''toolCallId'', JStr callID), (''toolName'', JStr name),
     (''result'', (if isError then JObj [(''is_error'', JBool True), (''content'', v)] else v))]"

fun checkpointResults :: "sandEnv \<Rightarrow> inferenceHostedToolResult list \<Rightarrow> bytes list res" where
  "checkpointResults env [] = Inr []"
| "checkpointResults env (r # rs) =
     (case se_marshal env (roleMessage ''tool'' [JObj (resultPart (ht_CallID r) (ht_Name r) (ht_Content r) (ht_IsError r))]) of
        Inl e \<Rightarrow> Inl e
      | Inr m \<Rightarrow> (case checkpointResults env rs of Inl e \<Rightarrow> Inl e | Inr ms \<Rightarrow> Inr (m # ms)))"

definition encodeInferenceCheckpoint ::
  "sandEnv \<Rightarrow> checkpointCodec \<Rightarrow> RunRequest \<Rightarrow> string \<Rightarrow> inferenceReasoning \<Rightarrow> inferenceToolCall list
   \<Rightarrow> inferenceHostedToolResult list \<Rightarrow> bytes res" where
  "encodeInferenceCheckpoint env codec request assistantText r tools hostedResults =
     (case checkpointSystem env request of Inl e \<Rightarrow> Inl e | Inr system \<Rightarrow>
     (case checkpointUser env request of Inl e \<Rightarrow> Inl e | Inr user \<Rightarrow>
     (case checkpointAssistant env assistantText r tools of Inl e \<Rightarrow> Inl e | Inr assistant \<Rightarrow>
     (case checkpointResults env hostedResults of Inl e \<Rightarrow> Inl e | Inr results \<Rightarrow>
        cc_marshal codec \<lparr>ik_Version = inferenceCheckpointVersion, ik_Profile = runtimeSand,
          ik_Messages = system @ rr_HistoryMessages request @ user @ assistant @ results\<rparr>))))"

definition decodeInferenceCheckpoint :: "checkpointCodec \<Rightarrow> bytes \<Rightarrow> inferenceCheckpoint res" where
  "decodeInferenceCheckpoint codec raw = (case cc_unmarshal codec raw of
     Some c \<Rightarrow> if ik_Version c = inferenceCheckpointVersion \<and> ik_Profile c = runtimeSand then Inr c
       else Inl (Errorf ''Cursor Sand checkpoint is invalid'' [])
   | None \<Rightarrow> Inl (Errorf ''Cursor Sand checkpoint is invalid'' []))"

text \<open>The members of a part; a part that is no object is the empty one.\<close>

definition partOf :: "json \<Rightarrow> object" where
  "partOf v = (case v of JObj part \<Rightarrow> part | _ \<Rightarrow> [])"

fun callName :: "sandEnv \<Rightarrow> string \<Rightarrow> json list \<Rightarrow> string option" where
  "callName env toolCallID [] = None"
| "callName env toolCallID (raw # parts) =
     (if trimSpace (sprint env (map_of (partOf raw) ''type'')) = ''tool-call''
        \<and> trimSpace (sprint env (map_of (partOf raw) ''toolCallId'')) = toolCallID
      then Some (trimSpace (sprint env (map_of (partOf raw) ''toolName''))) else callName env toolCallID parts)"

definition messageCallName :: "sandEnv \<Rightarrow> string \<Rightarrow> bytes \<Rightarrow> string option" where
  "messageCallName env toolCallID raw = (case se_unmarshal env raw of
     None \<Rightarrow> None
   | Some message \<Rightarrow>
       if trimSpace (sprint env (map_of message ''role'')) \<noteq> ''assistant'' then None
       else callName env toolCallID (contentParts (map_of message ''content'')))"

fun lastCallName :: "sandEnv \<Rightarrow> string \<Rightarrow> bytes list \<Rightarrow> string" where
  "lastCallName env toolCallID [] = []"
| "lastCallName env toolCallID (raw # older) = (case messageCallName env toolCallID raw of
     Some name \<Rightarrow> name | None \<Rightarrow> lastCallName env toolCallID older)"

definition inferenceCheckpointToolName :: "sandEnv \<Rightarrow> bytes list \<Rightarrow> string \<Rightarrow> string" where
  "inferenceCheckpointToolName env messages toolCallID = lastCallName env (trimSpace toolCallID) (rev messages)"

text \<open>
  \<open>prepareInferenceRun\<close>: the checkpoint replaces the history (\<open>restoreRun\<close>), a continuation takes a result
  (the caller of this function) and \<open>continueRun\<close> appends it.
\<close>

definition restoreRun :: "checkpointCodec \<Rightarrow> RunRequest \<Rightarrow> RunRequest res" where
  "restoreRun codec request =
     (if rr_InitialCheckpoint request \<noteq> []
      then (case decodeInferenceCheckpoint codec (rr_InitialCheckpoint request) of
          Inl e \<Rightarrow> Inl e
        | Inr c \<Rightarrow> Inr (request\<lparr>rr_HistoryMessages := ik_Messages c, rr_SystemText := []\<rparr>))
      else Inr request)"

definition continuationPart :: "string \<Rightarrow> ToolResult \<Rightarrow> object" where
  "continuationPart name result = resultPart (tr_ToolCallID result) name (JStr (tr_Content result)) (tr_IsError result)
     @ (if tr_Media result \<noteq> []
        then [(''experimental_content'', JArr (historyContentParts
          ((if tr_Content result \<noteq> [] then [textPart (tr_Content result)] else [])
           @ map (\<lambda>m. mediaPart (Some m)) (tr_Media result))))]
        else [])"

definition continueRun :: "sandEnv \<Rightarrow> RunRequest \<Rightarrow> ToolResult \<Rightarrow> RunRequest res" where
  "continueRun env request result =
     (let name = inferenceCheckpointToolName env (rr_HistoryMessages request) (tr_ToolCallID result) in
      if name = [] then Inl (Errorf ''Cursor Sand tool continuation does not match checkpoint'' [])
      else case se_marshal env (roleMessage ''tool'' [JObj (continuationPart name result)]) of
        Inl e \<Rightarrow> Inl e
      | Inr encoded \<Rightarrow> Inr (request\<lparr>rr_HistoryMessages := rr_HistoryMessages request @ [encoded],
          rr_UserText := historyContinuationText, rr_RequireToolCall := False, rr_Resume := False\<rparr>))"

end
