(* ===== verification/Sand.thy ===== *)
theory Sand
  imports SandWire Frames
begin

text \<open>
  The Sand runner (\<open>inference_runner.go\<close>): one segment is one request with its streamed response; \<open>Run\<close> goes
  from segment to segment, through hosted web calls and through caller tools.  The HTTP exchange is a
  parameter that answers the n-th request with a list of chunks and how the body ends.
\<close>

section \<open>State\<close>

datatype resultInput = Received ToolResult | NoMoreResults | Cancelled err

datatype sandResponse =
    BuildFailed err
  | TransportRefused err
  | RequestFailed err
  | StatusNotOK nat
  | Streaming "bytes list" "err option"

record sandRunEnv =
  sr_env :: sandEnv
  sr_codec :: checkpointCodec
  sr_gunzip :: gzipReader
  sr_trailer :: "bytes \<Rightarrow> (string \<times> string) option res"
  sr_search :: "RunRequest \<Rightarrow> string \<Rightarrow> string \<Rightarrow> (HostedSearch \<times> json) res"
  sr_fetch :: "RunRequest \<Rightarrow> string \<Rightarrow> (HostedSearch \<times> json) res"
  sr_respond :: "nat \<Rightarrow> bytes \<Rightarrow> sandResponse"

record inferenceSegmentOutcome =
  so_Checkpoint :: bytes
  so_ToolSeen :: bool
  so_Continue :: bool

text \<open>
  The locals of \<open>consumeInferenceStream\<close> with the outcome it fills, the flag of \<open>Run\<close> that something was emitted,
  and what outlives a segment: the events, the use tracker, the signature memory, the number of requests and
  of retries, the results that are still to come.
\<close>

record sandState =
  sn_toolCalls :: "(string \<times> inferenceToolCall) list"
  sn_callerToolSeen :: bool
  sn_usage :: "inferenceUsage option"
  sn_assistantText :: string
  sn_reasoningText :: string
  sn_reasoningSignature :: string
  sn_thinkingOpen :: bool
  sn_completedTools :: "inferenceToolCall list"
  sn_hostedCalls :: "inferenceToolCall list"
  sn_outcome :: inferenceSegmentOutcome
  sn_emitted :: bool
  sn_events :: "Event list"
  sn_uses :: inferenceHostedUseTracker
  sn_memory :: signatureMemoryStore
  sn_requests :: nat
  sn_retries :: nat
  sn_results :: "resultInput list"

type_synonym 'a sand = "(sandState, 'a) io"

definition noOutcome :: inferenceSegmentOutcome where
  "noOutcome = \<lparr>so_Checkpoint = [], so_ToolSeen = False, so_Continue = False\<rparr>"

definition initialSand :: "signatureMemoryStore \<Rightarrow> resultInput list \<Rightarrow> sandState" where
  "initialSand memory results = \<lparr>sn_toolCalls = [], sn_callerToolSeen = False, sn_usage = None, sn_assistantText = [],
     sn_reasoningText = [], sn_reasoningSignature = [], sn_thinkingOpen = False, sn_completedTools = [], sn_hostedCalls = [],
     sn_outcome = noOutcome, sn_emitted = False, sn_events = [], sn_uses = \<lparr>it_search = 0, it_fetch = 0\<rparr>, sn_memory = memory,
     sn_requests = 0, sn_retries = 0, sn_results = results\<rparr>"

definition startSegment :: "sandState \<Rightarrow> sandState" where
  "startSegment s = s\<lparr>sn_toolCalls := [], sn_callerToolSeen := False, sn_usage := None, sn_assistantText := [],
     sn_reasoningText := [], sn_reasoningSignature := [], sn_thinkingOpen := False, sn_completedTools := [],
     sn_hostedCalls := [], sn_outcome := noOutcome, sn_requests := Suc (sn_requests s)\<rparr>"

text \<open>The callback of \<open>Run\<close>: everything but the acknowledgement of a result counts as output of the turn.\<close>

definition sandEmit :: "Event \<Rightarrow> unit sand" where
  "sandEmit e = modify (\<lambda>s. s\<lparr>sn_events := sn_events s @ [e],
     sn_emitted := sn_emitted s \<or> ev_Type e \<noteq> EventToolResultAccepted\<rparr>)"

definition sandFail :: "string \<Rightarrow> arg list \<Rightarrow> 'a sand" where
  "sandFail fmt args = raise (Errorf fmt args)"

section \<open>Parts of a response\<close>

definition mergeInferenceToolArguments :: "(string \<Rightarrow> bool) \<Rightarrow> string \<Rightarrow> string \<Rightarrow> string" where
  "mergeInferenceToolArguments valid current next =
     (if next = [] then current
      else if current = [] \<or> valid next \<or> hasPrefix next current then next
      else current @ next)"

definition inferenceToolDeclared :: "ToolDefinition list \<Rightarrow> string \<Rightarrow> bool" where
  "inferenceToolDeclared tools name = list_ex (\<lambda>tool. trimSpace (td_Name tool) = trimSpace name) tools"

definition countValue :: "int \<Rightarrow> ObservedCount" where
  "countValue v = \<lparr>oc_Present = True, oc_Invalid = False, oc_Value = v\<rparr>"

definition valueOrDefault :: "string \<Rightarrow> string \<Rightarrow> string" where
  "valueOrDefault v fallback = (if trimSpace v \<noteq> [] then trimSpace v else fallback)"

definition closeThinking :: "unit sand" where
  "closeThinking = bnd (gets sn_thinkingOpen) (\<lambda>opened. if \<not> opened then ret () else
     bnd (modify (\<lambda>s. s\<lparr>sn_thinkingOpen := False\<rparr>)) (\<lambda>_.
     bnd (gets sn_reasoningSignature) (\<lambda>signature.
       sandEmit ((newEvent EventThinkingCompleted)\<lparr>ev_Signature := signature\<rparr>))))"

definition handleTextPart :: "string \<Rightarrow> unit sand" where
  "handleTextPart t = (if t = [] then ret () else
     bnd closeThinking (\<lambda>_.
     bnd (modify (\<lambda>s. s\<lparr>sn_assistantText := sn_assistantText s @ t\<rparr>)) (\<lambda>_.
       sandEmit ((newEvent EventText)\<lparr>ev_Text := t\<rparr>))))"

definition handleThinkingPart :: "string \<Rightarrow> unit sand" where
  "handleThinkingPart t = (if t = [] then ret () else
     bnd (modify (\<lambda>s. s\<lparr>sn_thinkingOpen := True, sn_reasoningText := sn_reasoningText s @ t\<rparr>)) (\<lambda>_.
       sandEmit ((newEvent EventThinking)\<lparr>ev_Text := t\<rparr>)))"

definition handleSignaturePart :: "sandRunEnv \<Rightarrow> string \<Rightarrow> unit sand" where
  "handleSignaturePart env signature = (if signature = [] then ret () else
     bnd (modify (\<lambda>s. s\<lparr>sn_reasoningSignature := signature,
            sn_memory := rememberMintedSignature (se_sha (sr_env env)) signature (sn_memory s), sn_thinkingOpen := True\<rparr>)) (\<lambda>_.
       closeThinking))"

text \<open>An observation replaces the last one unless it would lose the cache counters.\<close>

definition keepUsage :: "inferenceUsage option \<Rightarrow> inferenceUsage option \<Rightarrow> inferenceUsage option" where
  "keepUsage part usage = (case part of None \<Rightarrow> usage
     | Some u \<Rightarrow> (case usage of None \<Rightarrow> Some u
         | Some old \<Rightarrow> if iu_Extended u \<or> \<not> iu_Extended old then Some u else Some old))"

text \<open>The entry of a call: an open one, or a new one within the limits.\<close>

definition pendingCall :: "RunRequest \<Rightarrow> string \<Rightarrow> inferenceToolCall sand" where
  "pendingCall request i = bnd (gets sn_toolCalls) (\<lambda>calls. case map_of calls i of
     Some pending \<Rightarrow> ret pending
   | None \<Rightarrow>
       if length calls \<ge> maxPendingTools then sandFail ''Cursor Sand pending tools exceed %d'' [N (int maxPendingTools)]
       else if rr_MaxParallelTools request > 0 \<and> int (length calls) \<ge> rr_MaxParallelTools request
       then sandFail ''Cursor Sand returned parallel caller tools when the client disabled them'' []
       else ret \<lparr>ic_ID = i, ic_Name = [], ic_Arguments = []\<rparr>)"

definition completeCall :: "RunRequest \<Rightarrow> inferenceToolCall \<Rightarrow> unit sand" where
  "completeCall request pending =
     (if trimSpace (ic_Name pending) = [] then sandFail ''Cursor Sand tool call %q is missing its name'' [S (ic_ID pending)]
      else if \<not> inferenceToolDeclared (rr_Tools request) (ic_Name pending)
      then sandFail ''Cursor Sand returned undeclared tool %q'' [S (ic_Name pending)]
      else bnd (modify (\<lambda>s. s\<lparr>sn_completedTools := sn_completedTools s @ [pending]\<rparr>)) (\<lambda>_.
        bnd (if inferenceHostedKind (ic_Name pending) \<noteq> []
             then modify (\<lambda>s. s\<lparr>sn_hostedCalls := sn_hostedCalls s @ [pending]\<rparr>)
             else bnd (modify (\<lambda>s. s\<lparr>sn_callerToolSeen := True\<rparr>)) (\<lambda>_.
               sandEmit ((newEvent EventToolCall)\<lparr>ev_ToolCall := Some \<lparr>tc_MessageID = 0, tc_ExecID = [], tc_ToolCallID = ic_ID pending, tc_Name = ic_Name pending,
                 tc_Arguments = ic_Arguments pending\<rparr>\<rparr>)))
          (\<lambda>_. modify (\<lambda>s. s\<lparr>sn_toolCalls := AList.delete (ic_ID pending) (sn_toolCalls s)\<rparr>))))"

definition handleToolPart :: "sandRunEnv \<Rightarrow> RunRequest \<Rightarrow> inferenceToolCall \<Rightarrow> bool \<Rightarrow> unit sand" where
  "handleToolPart env request tool final =
     (let i = trimSpace (ic_ID tool) in
      if i = [] then sandFail ''Cursor Sand tool call is missing its id'' []
      else bnd (pendingCall request i) (\<lambda>old.
        let pending = \<lparr>ic_ID = ic_ID old, ic_Name = (if ic_Name tool \<noteq> [] then ic_Name tool else ic_Name old),
              ic_Arguments = mergeInferenceToolArguments (se_valid (sr_env env)) (ic_Arguments old) (ic_Arguments tool)\<rparr> in
        bnd (modify (\<lambda>s. s\<lparr>sn_toolCalls := AList.update i pending (sn_toolCalls s)\<rparr>)) (\<lambda>_.
          if final then completeCall request pending else ret ())))"

definition handlePart :: "sandRunEnv \<Rightarrow> RunRequest \<Rightarrow> inferenceResponse \<Rightarrow> unit sand" where
  "handlePart env request part =
     (if ir_ErrorCode part \<noteq> [] \<or> ir_ErrorText part \<noteq> []
      then raise (ConnectError (valueOrDefault (ir_ErrorCode part) ''unknown'')
                               (valueOrDefault (ir_ErrorText part) ''Cursor Sand inference failed''))
      else bnd (handleTextPart (ir_Text part)) (\<lambda>_.
        bnd (handleThinkingPart (ir_Thinking part)) (\<lambda>_.
        bnd (handleSignaturePart env (ir_ThinkSignature part)) (\<lambda>_.
        bnd (if ir_ThinkFinal part then closeThinking else ret ()) (\<lambda>_.
        bnd (if ir_Tool part \<noteq> None then closeThinking else ret ()) (\<lambda>_.
        bnd (modify (\<lambda>s. s\<lparr>sn_usage := keepUsage (ir_Usage part) (sn_usage s)\<rparr>)) (\<lambda>_.
        case ir_Tool part of None \<Rightarrow> ret () | Some tool \<Rightarrow> handleToolPart env request tool (ir_ToolFinal part))))))))"

section \<open>The end of a segment\<close>

definition onUses :: "(inferenceHostedUseTracker, 'a) io \<Rightarrow> 'a sand" where
  "onUses m s = (case m (sn_uses s) of (r, t) \<Rightarrow> (r, s\<lparr>sn_uses := t\<rparr>))"

definition decodeArguments :: "sandRunEnv \<Rightarrow> string \<Rightarrow> object option" where
  "decodeArguments env a = se_unmarshal (sr_env env) (bytesOf a)"

fun runHosted :: "sandRunEnv \<Rightarrow> RunRequest \<Rightarrow> inferenceToolCall list \<Rightarrow> inferenceHostedToolResult list sand" where
  "runHosted env request [] = ret []"
| "runHosted env request (call # calls) =
     bnd (onUses (executeInferenceHostedCall (decodeArguments env) (sr_search env request) (sr_fetch env request) request call)) (\<lambda>(result, search).
     bnd (sandEmit (newEvent EventHostedSearchCall)) (\<lambda>_.
     bnd (sandEmit ((newEvent EventHostedSearchStarted)\<lparr>ev_HostedSearch := Some search\<rparr>)) (\<lambda>_.
     bnd (sandEmit ((newEvent EventHostedSearchCompleted)\<lparr>ev_HostedSearch := Some search\<rparr>)) (\<lambda>_.
     bnd (runHosted env request calls) (\<lambda>results. ret (result # results))))))"

definition usageObservation :: "inferenceUsage \<Rightarrow> UsageObservation" where
  "usageObservation u = (let o1 = (noUsage UsageKindTurnEnded)\<lparr>uo_Input := countValue (iu_Input u), uo_Output := countValue (iu_Output u)\<rparr> in
     if iu_Extended u then o1\<lparr>uo_CacheRead := countValue (iu_CacheRead u), uo_CacheWrite := countValue (iu_CacheWrite u)\<rparr> else o1)"

definition emitUsage :: "unit sand" where
  "emitUsage = bnd (gets sn_usage) (\<lambda>usage. case usage of None \<Rightarrow> ret ()
     | Some u \<Rightarrow> sandEmit ((newEvent EventUsageObservation)\<lparr>ev_Usage := Some (usageObservation u)\<rparr>))"

definition saveSegment :: "sandRunEnv \<Rightarrow> RunRequest \<Rightarrow> inferenceHostedToolResult list \<Rightarrow> unit sand" where
  "saveSegment env request hostedResults =
     bnd (gets (\<lambda>s. encodeInferenceCheckpoint (sr_env env) (sr_codec env) request (sn_assistantText s)
            \<lparr>ig_Text = sn_reasoningText s, ig_Signature = sn_reasoningSignature s\<rparr> (sn_completedTools s) hostedResults)) (\<lambda>r.
     bnd (lift r) (\<lambda>checkpoint.
     bnd (sandEmit ((newEvent EventCheckpoint)\<lparr>ev_Checkpoint := checkpoint\<rparr>)) (\<lambda>_.
       modify (\<lambda>s. s\<lparr>sn_outcome := (sn_outcome s)\<lparr>so_Checkpoint := checkpoint\<rparr>\<rparr>))))"

text \<open>What follows the checkpoint: hand over to the caller's tools, go on after the hosted ones, or finish.\<close>

definition endSegment :: "RunRequest \<Rightarrow> bool \<Rightarrow> bool sand" where
  "endSegment request hosted = bnd (gets sn_callerToolSeen) (\<lambda>caller.
     bnd (if caller then bnd (sandEmit (newEvent EventTurnEnded)) (\<lambda>_.
            modify (\<lambda>s. s\<lparr>sn_outcome := (sn_outcome s)\<lparr>so_ToolSeen := True\<rparr>\<rparr>)) else ret ()) (\<lambda>_.
     if caller \<and> rr_HistoryRequestKey request = [] then ret True
     else if hosted then bnd (modify (\<lambda>s. s\<lparr>sn_outcome := (sn_outcome s)\<lparr>so_Continue := True\<rparr>\<rparr>)) (\<lambda>_. ret True)
     else bnd (gets (\<lambda>s. validateRequired request (sn_uses s))) (\<lambda>v.
       bnd (lift v) (\<lambda>_. bnd (sandEmit (newEvent EventDone)) (\<lambda>_. ret True)))))"

definition finishSegment :: "sandRunEnv \<Rightarrow> RunRequest \<Rightarrow> bool sand" where
  "finishSegment env request =
     bnd closeThinking (\<lambda>_.
     bnd (gets sn_toolCalls) (\<lambda>calls.
     if calls \<noteq> [] then sandFail ''Cursor Sand ended with %d incomplete tool call(s)'' [N (int (length calls))]
     else bnd (gets sn_hostedCalls) (\<lambda>hosted.
       bnd (runHosted env request hosted) (\<lambda>hostedResults.
       bnd emitUsage (\<lambda>_.
       bnd (if rr_HistoryRequestKey request = [] \<or> hosted \<noteq> [] then saveSegment env request hostedResults else ret ()) (\<lambda>_.
       endSegment request (hosted \<noteq> [])))))))"

section \<open>The stream\<close>

definition sandFrame :: "sandRunEnv \<Rightarrow> RunRequest \<Rightarrow> 8 word \<Rightarrow> bytes \<Rightarrow> bool sand" where
  "sandFrame env request flags payload0 =
     bnd (lift (inflate (sr_gunzip env) flags payload0)) (\<lambda>payload.
     if flags AND connectEndStreamFlag \<noteq> 0
     then bnd (lift (parseConnectEndStream (sr_trailer env) payload)) (\<lambda>_. finishSegment env request)
     else bnd (lift (decodeInferenceResponse (se_pw (sr_env env)) payload)) (\<lambda>part.
       bnd (handlePart env request part) (\<lambda>_. ret False)))"

text \<open>The reads until the body ends with an error, \<open>None\<close> for EOF.  The size limit is checked before frames are taken.\<close>

fun sandChunks :: "sandRunEnv \<Rightarrow> RunRequest \<Rightarrow> bytes \<Rightarrow> bytes list \<Rightarrow> err option \<Rightarrow> unit sand" where
  "sandChunks env request buffer [] readErr = (case readErr of
     None \<Rightarrow> sandFail ''Cursor Sand stream closed without Connect terminal trailer'' []
   | Some e \<Rightarrow> raise (Wrap ''read Cursor Sand response: %w'' e))"
| "sandChunks env request buffer (c # cs) readErr =
     (if c = [] then sandChunks env request buffer cs readErr
      else if length (buffer @ c) > maxConnectPayloadSize + connectHeaderSize
      then raise (errExceedsConnectLimit ''Cursor Sand response frame'')
      else bnd (framesLoop (sandFrame env request) (buffer @ c)) (\<lambda>r. case r of
          None \<Rightarrow> ret () | Some rest \<Rightarrow> sandChunks env request rest cs readErr))"

definition consumeInferenceStream :: "sandRunEnv \<Rightarrow> RunRequest \<Rightarrow> bytes list \<Rightarrow> err option \<Rightarrow> unit sand" where
  "consumeInferenceStream env request chunks readErr = sandChunks env request [] chunks readErr"

text \<open>The error of a status other than 200 carries its code, like the other HTTP errors.\<close>

definition runInferenceSegment :: "sandRunEnv \<Rightarrow> RunRequest \<Rightarrow> ToolResult option \<Rightarrow> unit sand" where
  "runInferenceSegment env request acceptedResult =
     bnd (gets (\<lambda>s. (encodeInferenceRequest (sr_env env) (sn_memory s) (sn_requests s) request, sn_requests s))) (\<lambda>(encoded, n).
     bnd (modify startSegment) (\<lambda>_.
     bnd (lift encoded) (\<lambda>payload.
     case sr_respond env n (frameConnect payload) of
       BuildFailed e \<Rightarrow> raise (Wrap ''build Cursor Sand request: %w'' e)
     | TransportRefused e \<Rightarrow> raise e
     | RequestFailed e \<Rightarrow> raise (Wrap ''Cursor Sand HTTP/2 request: %w'' e)
     | StatusNotOK code \<Rightarrow> raise (RequestError code (''Cursor Sand upstream HTTP '' @ decimal (int code)))
     | Streaming chunks readErr \<Rightarrow>
         bnd (case acceptedResult of None \<Rightarrow> ret ()
              | Some result \<Rightarrow> sandEmit ((newEvent EventToolResultAccepted)\<lparr>ev_ToolResult := Some result\<rparr>)) (\<lambda>_.
           consumeInferenceStream env request chunks readErr))))"

section \<open>Run\<close>

text \<open>\<open>None\<close>: the run waits for a tool result.\<close>

definition prepareInferenceRun :: "sandRunEnv \<Rightarrow> RunRequest \<Rightarrow> (RunRequest \<times> ToolResult option) option sand" where
  "prepareInferenceRun env request0 = bnd (lift (restoreRun (sr_codec env) request0)) (\<lambda>request.
     if \<not> rr_Resume request then ret (Some (request, None))
     else if \<not> rr_ToolResults request then sandFail ''Cursor Sand tool continuation has no result channel'' []
     else bnd (gets sn_results) (\<lambda>results. case results of
         [] \<Rightarrow> ret None
       | Cancelled e # rest \<Rightarrow> raise e
       | NoMoreResults # rest \<Rightarrow> sandFail ''Cursor Sand tool continuation closed before its result'' []
       | Received result # rest \<Rightarrow>
           bnd (modify (\<lambda>s. s\<lparr>sn_results := rest\<rparr>)) (\<lambda>_.
           bnd (lift (continueRun (sr_env env) request result)) (\<lambda>request'. ret (Some (request', Some result))))))"

text \<open>May the turn be played again without signatures?\<close>

definition mayRetry :: "sandRunEnv \<Rightarrow> RunRequest \<Rightarrow> err \<Rightarrow> sandState \<Rightarrow> bool" where
  "mayRetry env prepared e s \<longleftrightarrow> \<not> sn_emitted s \<and> \<not> rr_dropReasoningSignatures prepared
     \<and> isForeignReasoningSignatureRejection e
     \<and> historyCarriesForwardedSignature (se_sha (sr_env env)) (se_unmarshal (sr_env env)) (se_forwarding (sr_env env))
         (sn_memory s) (rr_HistoryMessages prepared)"

definition rejectSignatures :: "sandRunEnv \<Rightarrow> RunRequest \<Rightarrow> sandState \<Rightarrow> sandState" where
  "rejectSignatures env prepared s = s\<lparr>sn_retries := Suc (sn_retries s),
     sn_memory := markHistorySignaturesRejected (se_sha (sr_env env)) (se_unmarshal (sr_env env)) (rr_HistoryMessages prepared) (sn_memory s)\<rparr>"

text \<open>One turn: a segment, played again once if the upstream refused a signature; the request as it was sent.\<close>

definition runTurn :: "sandRunEnv \<Rightarrow> RunRequest \<Rightarrow> ToolResult option \<Rightarrow> RunRequest sand" where
  "runTurn env prepared acceptedResult =
     bnd (modify (\<lambda>s. s\<lparr>sn_emitted := False\<rparr>)) (\<lambda>_.
     bnd (attempt (runInferenceSegment env prepared acceptedResult)) (\<lambda>r. case r of
       Inr _ \<Rightarrow> ret prepared
     | Inl e \<Rightarrow> bnd (gets (mayRetry env prepared e)) (\<lambda>retry.
         if retry
         then bnd (modify (rejectSignatures env prepared)) (\<lambda>_.
           let dropped = prepared\<lparr>rr_dropReasoningSignatures := True\<rparr> in
           bnd (runInferenceSegment env dropped None) (\<lambda>_. ret dropped))
         else raise e)))"

definition nextRequest :: "RunRequest \<Rightarrow> inferenceSegmentOutcome \<Rightarrow> RunRequest" where
  "nextRequest prepared outcome = prepared\<lparr>rr_InitialCheckpoint := so_Checkpoint outcome, rr_HistoryMessages := [],
     rr_SystemText := [], rr_UserText := [], rr_Resume := so_ToolSeen outcome\<rparr>"

datatype sandEnd = Returned | Waiting | OutOfFuel

text \<open>The loop of \<open>Run\<close>; a turn takes one unit of fuel.\<close>

fun sandLoop :: "sandRunEnv \<Rightarrow> nat \<Rightarrow> nat \<Rightarrow> RunRequest \<Rightarrow> sandEnd sand" where
  "sandLoop env 0 hostedSteps request = ret OutOfFuel"
| "sandLoop env (Suc n) hostedSteps request =
     bnd (prepareInferenceRun env request) (\<lambda>p. case p of
       None \<Rightarrow> ret Waiting
     | Some (prepared, acceptedResult) \<Rightarrow>
         bnd (runTurn env prepared acceptedResult) (\<lambda>sent.
         bnd (gets sn_outcome) (\<lambda>outcome.
         if so_ToolSeen outcome \<and> rr_HistoryRequestKey sent \<noteq> [] then ret Returned
         else if \<not> so_ToolSeen outcome \<and> \<not> so_Continue outcome then ret Returned
         else if so_Continue outcome \<and> Suc hostedSteps \<ge> maxInferenceHostedSteps
         then sandFail ''Cursor Sand hosted web loop exceeded %d inference steps'' [N (int maxInferenceHostedSteps)]
         else sandLoop env n (if so_Continue outcome then Suc hostedSteps else hostedSteps) (nextRequest sent outcome))))"

definition sandRun :: "sandRunEnv \<Rightarrow> nat \<Rightarrow> RunRequest \<Rightarrow> sandEnd sand" where
  "sandRun env fuel request =
     (if trimSpace (rr_AccessToken request) = [] \<or> trimSpace (rr_ClientVersion request) = []
      then sandFail ''Cursor Sand access token and client version are required'' []
      else sandLoop env fuel 0 request)"

end
