(* ===== verification/SandCheckpoint.thy ===== *)
theory SandCheckpoint
  imports SandWire
begin

text \<open>What a checkpoint of the Sand runtime keeps for the continuation, and what its responses say.\<close>

section \<open>JSON\<close>

text \<open>
  The documented behaviour of \<open>encoding/json\<close> the checkpoint relies on: a message that was encoded decodes to
  its role and its parts in order, with the text members as they were where the text is valid UTF-8 (the
  encoder replaces what is not).  ASCII text is valid.
\<close>

definition keepsText :: "(string \<Rightarrow> bool) \<Rightarrow> json \<Rightarrow> json \<Rightarrow> bool" where
  "keepsText valid v v' = (case v of
     JObj p \<Rightarrow> \<exists>p'. v' = JObj p' \<and> (\<forall>k s. map_of p k = Some (JStr s) \<and> valid s \<longrightarrow> map_of p' k = Some (JStr s))
   | _ \<Rightarrow> True)"

definition jsonKeeps :: "sandEnv \<Rightarrow> (string \<Rightarrow> bool) \<Rightarrow> bool" where
  "jsonKeeps env valid \<longleftrightarrow> (\<forall>s. (\<forall>c\<in>set s. of_char c < (128::nat)) \<longrightarrow> valid s)
     \<and> (\<forall>role content b. valid role \<and> se_marshal env (roleMessage role content) = Inr b \<longrightarrow>
          (\<exists>m content'. se_unmarshal env b = Some m \<and> map_of m ''role'' = Some (JStr role)
             \<and> map_of m ''content'' = Some (JArr content') \<and> list_all2 (keepsText valid) content content'))"

definition codecKeeps :: "checkpointCodec \<Rightarrow> bool" where
  "codecKeeps codec \<longleftrightarrow> (\<forall>c b. cc_marshal codec c = Inr b \<longrightarrow> b \<noteq> [] \<and> cc_unmarshal codec b = Some c)"

lemma valid_words:
  assumes "jsonKeeps env valid"
  shows "valid ''assistant''" "valid ''tool''" "valid ''tool-call''" "valid ''text''" "valid ''reasoning''"
proof -
  have "valid s" if "\<forall>c\<in>set s. of_char c < (128::nat)" for s
    using assms that unfolding jsonKeeps_def by blast
  then show "valid ''assistant''" "valid ''tool''" "valid ''tool-call''" "valid ''text''" "valid ''reasoning''"
    by simp_all
qed

lemma message_read:
  assumes "jsonKeeps env valid" "valid role" "se_marshal env (roleMessage role content) = Inr b"
  obtains m content' where "se_unmarshal env b = Some m" "map_of m ''role'' = Some (JStr role)"
    "map_of m ''content'' = Some (JArr content')" "list_all2 (keepsText valid) content content'"
  using assms unfolding jsonKeeps_def by blast

section \<open>Finding a call\<close>

definition callPart :: "inferenceToolCall \<Rightarrow> object \<Rightarrow> json" where
  "callPart tool args = JObj [(''type'', JStr ''tool-call''), (''toolCallId'', JStr (ic_ID tool)),
     (''toolName'', JStr (ic_Name tool)), (''args'', JObj args)]"

lemma toolCallParts_Inr:
  "toolCallParts env tools = Inr calls \<Longrightarrow> list_all2 (\<lambda>tool v. \<exists>args. v = callPart tool args) tools calls"
  by (induction tools arbitrary: calls) (auto simp: callPart_def split: option.splits sum.splits)

text \<open>A part that is no call is passed over.\<close>

definition plainPart :: "(string \<Rightarrow> bool) \<Rightarrow> json \<Rightarrow> bool" where
  "plainPart valid v \<longleftrightarrow> (\<exists>p t. v = JObj p \<and> map_of p ''type'' = Some (JStr t) \<and> valid t \<and> trimSpace t \<noteq> ''tool-call'')"

lemma callName_plain:
  assumes "list_all2 (keepsText valid) parts parts'" "list_all (plainPart valid) parts"
  shows "callName env i (parts' @ rest) = callName env i rest"
  using assms
proof (induction parts parts' rule: list_all2_induct)
  case Nil
  then show ?case by simp
next
  case (Cons v parts v' parts')
  obtain p t where v: "v = JObj p" "map_of p ''type'' = Some (JStr t)" "valid t" "trimSpace t \<noteq> ''tool-call''"
    using Cons.prems by (auto simp: plainPart_def)
  then obtain p' where "v' = JObj p'" "map_of p' ''type'' = Some (JStr t)"
    using Cons.hyps(1) by (auto simp: keepsText_def)
  then show ?case using Cons v by (simp add: partOf_def)
qed

lemma callName_calls:
  assumes "list_all2 (\<lambda>tool v. \<exists>args. v = callPart tool args) tools calls"
    and "list_all2 (keepsText valid) calls calls'"
    and "valid ''tool-call''" "\<forall>c\<in>set tools. valid (ic_ID c) \<and> valid (ic_Name c)"
    and "find (\<lambda>c. trimSpace (ic_ID c) = i) tools = Some call"
  shows "callName env i (calls' @ rest) = Some (trimSpace (ic_Name call))"
  using assms
proof (induction tools calls arbitrary: calls' rule: list_all2_induct)
  case Nil
  then show ?case by simp
next
  case (Cons tool tools v calls)
  obtain args where v: "v = callPart tool args" using Cons.hyps(1) by blast
  obtain v' calls'' where c: "calls' = v' # calls''" "keepsText valid v v'" "list_all2 (keepsText valid) calls calls''"
    using Cons.prems(1) by (auto simp: list_all2_Cons1)
  then obtain p' where p': "v' = JObj p'" "map_of p' ''type'' = Some (JStr ''tool-call'')"
      "map_of p' ''toolCallId'' = Some (JStr (ic_ID tool))" "map_of p' ''toolName'' = Some (JStr (ic_Name tool))"
    using v Cons.prems(2,3) by (auto simp: keepsText_def callPart_def)
  have t: "trimSpace ''tool-call'' = ''tool-call''" by code_simp
  show ?case
  proof (cases "trimSpace (ic_ID tool) = i")
    case True
    then show ?thesis using Cons.prems(4) c p' t by (simp add: partOf_def)
  next
    case False
    then have "callName env i (calls'' @ rest) = Some (trimSpace (ic_Name call))"
      using Cons.prems c by (intro Cons.IH) auto
    then show ?thesis using False c p' t by (simp add: partOf_def)
  qed
qed

lemma plain_prefix:
  assumes "jsonKeeps env valid"
  shows "list_all (plainPart valid) (reasoningParts r @ (if trimSpace t \<noteq> [] then [textObject t] else []))"
proof -
  have "trimSpace ''text'' \<noteq> ''tool-call''" "trimSpace ''reasoning'' \<noteq> ''tool-call''" by code_simp+
  then show ?thesis
    using valid_words [OF assms]
    by (auto simp: plainPart_def reasoningParts_def textObject_def)
qed

lemma checkpointAssistant_call:
  assumes keeps: "jsonKeeps env valid"
    and enc: "checkpointAssistant env t r tools = Inr assistant"
    and tools: "\<forall>c\<in>set tools. valid (ic_ID c) \<and> valid (ic_Name c)"
    and call: "find (\<lambda>c. trimSpace (ic_ID c) = i) tools = Some call"
  shows "\<exists>b. assistant = [b] \<and> messageCallName env i b = Some (trimSpace (ic_Name call))"
proof -
  let ?prefix = "reasoningParts r @ (if trimSpace t \<noteq> [] then [textObject t] else [])"
  obtain calls where calls: "toolCallParts env tools = Inr calls"
    using enc by (auto simp: checkpointAssistant_def split: sum.splits)
  note cs = toolCallParts_Inr [OF calls]
  have "calls \<noteq> []" using call cs by (cases tools) (auto simp: list_all2_Cons1)
  then obtain b where b: "assistant = [b]" "se_marshal env (roleMessage ''assistant'' (?prefix @ calls)) = Inr b"
    using enc calls by (auto simp: checkpointAssistant_def Let_def split: sum.splits)
  from message_read [OF keeps valid_words(1) [OF keeps] b(2)] obtain m content' where
    m: "se_unmarshal env b = Some m" "map_of m ''role'' = Some (JStr ''assistant'')"
      "map_of m ''content'' = Some (JArr content')" "list_all2 (keepsText valid) (?prefix @ calls) content'" .
  obtain pre calls' where c: "content' = pre @ calls'" "list_all2 (keepsText valid) ?prefix pre"
      "list_all2 (keepsText valid) calls calls'"
    using m(4) unfolding list_all2_append1 by blast
  have "callName env i content' = Some (trimSpace (ic_Name call))"
    using callName_plain [OF c(2) plain_prefix [OF keeps], of env i calls']
      callName_calls [OF cs c(3) valid_words(3) [OF keeps] tools call, of env "[]"] c(1)
    by simp
  moreover have "trimSpace ''assistant'' = ''assistant''" by code_simp
  ultimately show ?thesis using b(1) m by (simp add: messageCallName_def contentParts_def)
qed

lemma checkpointResults_none:
  assumes "jsonKeeps env valid" "checkpointResults env hosted = Inr results"
  shows "\<forall>b\<in>set results. messageCallName env i b = None"
  using assms(2)
proof (induction hosted arbitrary: results)
  case Nil
  then show ?case by simp
next
  case (Cons h hosted)
  obtain b ms where b: "se_marshal env (roleMessage ''tool'' [JObj (resultPart (ht_CallID h) (ht_Name h) (ht_Content h) (ht_IsError h))]) = Inr b"
      "checkpointResults env hosted = Inr ms" "results = b # ms"
    using Cons.prems by (auto split: sum.splits)
  obtain m where "se_unmarshal env b = Some m" "map_of m ''role'' = Some (JStr ''tool'')"
    using message_read [OF assms(1) valid_words(2) [OF assms(1)] b(1)] by blast
  moreover have "trimSpace ''tool'' \<noteq> ''assistant''" by code_simp
  ultimately show ?case using Cons.IH b by (simp add: messageCallName_def)
qed

lemma lastCallName_skip: "\<forall>b\<in>set ms. messageCallName env i b = None \<Longrightarrow> lastCallName env i (ms @ rest) = lastCallName env i rest"
  by (induction ms) simp_all

section \<open>Properties\<close>

text \<open>
  C18: A conversation that stopped for a tool call can be continued from its checkpoint: when a segment ends with
  the calls \<open>tools\<close>, the result of any of them is accepted by the run that is resumed from the checkpoint, and is
  appended to the messages of the checkpoint as the result of the tool that was called.
\<close>

theorem checkpoint_accepts_results:
  assumes "jsonKeeps env valid" and "codecKeeps codec"
    and "encodeInferenceCheckpoint env codec request assistantText r tools hosted = Inr raw"
    and "\<forall>c\<in>set tools. valid (ic_ID c) \<and> valid (ic_Name c) \<and> trimSpace (ic_Name c) \<noteq> []"
    and "find (\<lambda>c. trimSpace (ic_ID c) = trimSpace (tr_ToolCallID result)) tools = Some call"
    and "se_marshal env (roleMessage ''tool'' [JObj (continuationPart (trimSpace (ic_Name call)) result)]) = Inr encoded"
  shows "\<exists>restored resumed messages.
      restoreRun codec (next\<lparr>rr_InitialCheckpoint := raw\<rparr>) = Inr restored
    \<and> cc_unmarshal codec raw = Some \<lparr>ik_Version = inferenceCheckpointVersion, ik_Profile = runtimeSand, ik_Messages = messages\<rparr>
    \<and> continueRun env restored result = Inr resumed
    \<and> rr_HistoryMessages resumed = messages @ [encoded] \<and> \<not> rr_Resume resumed"
proof -
  obtain system user assistant results where parts:
      "checkpointAssistant env assistantText r tools = Inr assistant" "checkpointResults env hosted = Inr results"
    and raw: "cc_marshal codec \<lparr>ik_Version = inferenceCheckpointVersion, ik_Profile = runtimeSand,
      ik_Messages = system @ rr_HistoryMessages request @ user @ assistant @ results\<rparr> = Inr raw"
    using assms(3) by (auto simp: encodeInferenceCheckpoint_def split: sum.splits)
  let ?messages = "system @ rr_HistoryMessages request @ user @ assistant @ results"
  have dec: "raw \<noteq> []" "cc_unmarshal codec raw = Some \<lparr>ik_Version = inferenceCheckpointVersion, ik_Profile = runtimeSand, ik_Messages = ?messages\<rparr>"
    using assms(2) raw unfolding codecKeeps_def by blast+
  have valid: "\<forall>c\<in>set tools. valid (ic_ID c) \<and> valid (ic_Name c)" using assms(4) by blast
  obtain b where b: "assistant = [b]" "messageCallName env (trimSpace (tr_ToolCallID result)) b = Some (trimSpace (ic_Name call))"
    using checkpointAssistant_call [OF assms(1) parts(1) valid assms(5)] by blast
  have name: "inferenceCheckpointToolName env ?messages (tr_ToolCallID result) = trimSpace (ic_Name call)"
    using checkpointResults_none [OF assms(1) parts(2)] b
    by (simp add: inferenceCheckpointToolName_def lastCallName_skip)
  have "call \<in> set tools" using assms(5) by (auto simp: find_Some_iff)
  then have "trimSpace (ic_Name call) \<noteq> []" using assms(4) by blast
  then show ?thesis
    using dec name assms(6)
    by (simp add: restoreRun_def decodeInferenceCheckpoint_def continueRun_def Let_def)
qed

text \<open>An exchange with one call and its result.\<close>

definition exampleCall :: inferenceToolCall where
  "exampleCall = \<lparr>ic_ID = ''c1'', ic_Name = ''read'', ic_Arguments = ''{}''\<rparr>"

definition exampleResult :: ToolResult where
  "exampleResult = \<lparr>tr_ToolCallID = ''c1'', tr_Content = ''text'', tr_IsError = False, tr_Media = []\<rparr>"

definition exampleMarshal :: "json \<Rightarrow> bytes res" where
  "exampleMarshal v = (if v = roleMessage ''assistant'' [callPart exampleCall []] then Inr [1]
     else if v = roleMessage ''tool'' [JObj (continuationPart ''read'' exampleResult)] then Inr [2]
     else Inl (OsError ''unused''))"

definition exampleUnmarshal :: "bytes \<Rightarrow> object option" where
  "exampleUnmarshal b = (if b = [1] then Some [(''role'', JStr ''assistant''), (''content'', JArr [callPart exampleCall []])]
     else if b = [2] then Some [(''role'', JStr ''tool''), (''content'', JArr [JObj (continuationPart ''read'' exampleResult)])]
     else if b = bytesOf ''{}'' then Some [] else None)"

definition exampleSand :: sandEnv where
  "exampleSand = \<lparr>se_pw = standardWire, se_sha = (\<lambda>s. s), se_lower = toLower, se_uuid = (\<lambda>n. ''id''), se_unmarshal = exampleUnmarshal,
     se_marshal = exampleMarshal, se_newStruct = (\<lambda>v. Some (Inr [])), se_newValue = (\<lambda>v. Some (Inr [])), se_sprint = (\<lambda>v. []),
     se_valid = (\<lambda>s. True), se_forwarding = True, se_redacted = False\<rparr>"

definition exampleCheckpoint :: inferenceCheckpoint where
  "exampleCheckpoint = \<lparr>ik_Version = 1, ik_Profile = ''sand'', ik_Messages = [[1]]\<rparr>"

definition exampleCodec :: checkpointCodec where
  "exampleCodec = \<lparr>cc_marshal = (\<lambda>c. if c = exampleCheckpoint then Inr [7] else Inl (OsError ''unused'')),
     cc_unmarshal = (\<lambda>b. if b = [7] then Some exampleCheckpoint else None)\<rparr>"

lemma keepsText_same: "list_all2 (keepsText valid) vs vs"
  by (induction vs) (auto simp: keepsText_def split: json.split)

lemma exampleSand_keeps: "jsonKeeps exampleSand (\<lambda>s. True)"
  using keepsText_same [of "\<lambda>s. True"]
  by (auto simp: jsonKeeps_def exampleSand_def exampleMarshal_def exampleUnmarshal_def roleMessage_def split: if_splits)

lemma exampleCodec_keeps: "codecKeeps exampleCodec"
  by (auto simp: codecKeeps_def exampleCodec_def split: if_splits)

lemma checkpoint_accepts_results_witness:
  "\<exists>restored resumed messages.
      restoreRun exampleCodec (newRunRequest\<lparr>rr_InitialCheckpoint := [7]\<rparr>) = Inr restored
    \<and> cc_unmarshal exampleCodec [7] = Some \<lparr>ik_Version = inferenceCheckpointVersion, ik_Profile = runtimeSand, ik_Messages = messages\<rparr>
    \<and> continueRun exampleSand restored exampleResult = Inr resumed
    \<and> rr_HistoryMessages resumed = messages @ [[2]] \<and> \<not> rr_Resume resumed"
proof (rule checkpoint_accepts_results [OF exampleSand_keeps exampleCodec_keeps, of newRunRequest "[]" "\<lparr>ig_Text = [], ig_Signature = []\<rparr>"
      "[exampleCall]" "[]" "[7]" exampleResult exampleCall "[2]" newRunRequest])
  show "encodeInferenceCheckpoint exampleSand exampleCodec newRunRequest [] \<lparr>ig_Text = [], ig_Signature = []\<rparr> [exampleCall] [] = Inr [7]"
    by code_simp
  show "\<forall>c\<in>set [exampleCall]. True \<and> True \<and> trimSpace (ic_Name c) \<noteq> []" by code_simp
  show "find (\<lambda>c. trimSpace (ic_ID c) = trimSpace (tr_ToolCallID exampleResult)) [exampleCall] = Some exampleCall" by code_simp
  show "se_marshal exampleSand (roleMessage ''tool'' [JObj (continuationPart (trimSpace (ic_Name exampleCall)) exampleResult)]) = Inr [2]"
    by code_simp
qed

end
