(* ===== verification/SandSafety.thy ===== *)
theory SandSafety
  imports Sand SandCheckpoint
begin

text \<open>
  What a Sand run keeps while it streams: thinking blocks are closed before anything else is shown, only declared
  caller tools are announced, a turn is played again only if nothing was shown, and a run ends only when it is
  done or has handed over.
\<close>

section \<open>The shown events\<close>

text \<open>\<open>Some True\<close>: inside a thinking block; \<open>None\<close>: something else was shown inside one.\<close>

definition blockStep :: "bool option \<Rightarrow> Event \<Rightarrow> bool option" where
  "blockStep b e = (case b of None \<Rightarrow> None
     | Some opened \<Rightarrow> if ev_Type e = EventThinking then Some True
         else if ev_Type e = EventThinkingCompleted then Some False
         else if opened then None else Some False)"

definition blocks :: "Event list \<Rightarrow> bool option" where
  "blocks events = foldl blockStep (Some False) events"

text \<open>A tool of the caller has been called, and the turn that called it has not been ended since.\<close>

definition openCall :: "Event list \<Rightarrow> bool" where
  "openCall events = foldl (\<lambda>b e. if ev_Type e = EventToolCall then True
     else if ev_Type e = EventTurnEnded then False else b) False events"

lemma openCall_simps [simp]:
  "\<not> openCall []"
  "openCall (events @ [e]) = (if ev_Type e = EventToolCall then True else if ev_Type e = EventTurnEnded then False else openCall events)"
  by (simp_all add: openCall_def)

lemma openCall_split: "openCall events \<Longrightarrow> \<exists>before call between. events = before @ call # between
    \<and> ev_Type call = EventToolCall \<and> (\<forall>e \<in> set between. ev_Type e \<noteq> EventTurnEnded)"
proof (induction events rule: rev_induct)
  case (snoc e events)
  show ?case
  proof (cases "ev_Type e = EventToolCall")
    case True
    then show ?thesis by (intro exI [of _ events] exI [of _ e] exI [of _ "[]"]) simp
  next
    case False
    with snoc obtain before call between where "events = before @ call # between" "ev_Type call = EventToolCall"
        "\<forall>e \<in> set between. ev_Type e \<noteq> EventTurnEnded" "ev_Type e \<noteq> EventTurnEnded"
      by (auto split: if_splits)
    then show ?thesis by (intro exI [of _ before] exI [of _ call] exI [of _ "between @ [e]"]) auto
  qed
qed simp

definition callsDeclared :: "ToolDefinition list \<Rightarrow> Event list \<Rightarrow> bool" where
  "callsDeclared tools events = list_all (\<lambda>e. ev_Type e = EventToolCall \<longrightarrow>
     (case ev_ToolCall e of None \<Rightarrow> False
      | Some c \<Rightarrow> inferenceToolDeclared tools (tc_Name c) \<and> inferenceHostedKind (tc_Name c) = [])) events"

definition onlyAccepted :: "Event list \<Rightarrow> bool" where
  "onlyAccepted events = list_all (\<lambda>e. ev_Type e = EventToolResultAccepted) events"

lemma blocks_simps [simp]:
  "blocks [] = Some False"
  "blocks (events @ es) = foldl blockStep (blocks events) es"
  by (simp_all add: blocks_def)

lemma blocks_accepted: "onlyAccepted acc \<Longrightarrow> blocks base = Some False \<Longrightarrow> blocks (base @ acc) = Some False"
proof (induction acc rule: rev_induct)
  case (snoc e acc)
  then show ?case by (simp add: onlyAccepted_def blockStep_def)
qed simp

lemma callsDeclared_simps [simp]:
  "callsDeclared tools []"
  "callsDeclared tools (events @ [e]) \<longleftrightarrow> callsDeclared tools events \<and> (ev_Type e = EventToolCall \<longrightarrow>
     (case ev_ToolCall e of None \<Rightarrow> False
      | Some c \<Rightarrow> inferenceToolDeclared tools (tc_Name c) \<and> inferenceHostedKind (tc_Name c) = []))"
  by (auto simp: callsDeclared_def)

lemma sandEvent_type [simp]: "ev_Type (newEvent t) = t"
  by (simp add: newEvent_def)

section \<open>The invariant of a turn\<close>

text \<open>The events since \<open>base\<close>: nothing but acknowledgements while the turn counts as silent.\<close>

definition sinceTurn :: "Event list \<Rightarrow> Event list \<Rightarrow> bool \<Rightarrow> bool" where
  "sinceTurn base events shown \<longleftrightarrow> (\<exists>acc. events = base @ acc \<and> (\<not> shown \<longrightarrow> onlyAccepted acc))"

definition turnOk :: "Event list \<Rightarrow> ToolDefinition list \<Rightarrow> Event list \<Rightarrow> bool \<Rightarrow> bool" where
  "turnOk base tools events shown \<longleftrightarrow> blocks events \<noteq> None \<and> callsDeclared tools events \<and> sinceTurn base events shown"

definition streaming :: "Event list \<Rightarrow> ToolDefinition list \<Rightarrow> sandState \<Rightarrow> bool" where
  "streaming base tools s \<longleftrightarrow> turnOk base tools (sn_events s) (sn_emitted s) \<and> (sn_thinkingOpen s \<or> blocks (sn_events s) = Some False) \<and> sn_outcome s = noOutcome
     \<and> (sn_callerToolSeen s \<longrightarrow> openCall (sn_events s))"

text \<open>After the last block: \<open>quiet\<close>, with the outcome not yet decided.\<close>

definition quiet :: "Event list \<Rightarrow> ToolDefinition list \<Rightarrow> sandState \<Rightarrow> bool" where
  "quiet base tools s \<longleftrightarrow> turnOk base tools (sn_events s) (sn_emitted s) \<and> blocks (sn_events s) = Some False
     \<and> \<not> so_ToolSeen (sn_outcome s) \<and> \<not> so_Continue (sn_outcome s) \<and> (sn_callerToolSeen s \<longrightarrow> openCall (sn_events s))"

definition lastType :: "sandState \<Rightarrow> EventType" where
  "lastType s = ev_Type (last (sn_events s))"

text \<open>What a segment that ended leaves.\<close>

definition segmentDone :: "Event list \<Rightarrow> RunRequest \<Rightarrow> sandState \<Rightarrow> bool" where
  "segmentDone base request s \<longleftrightarrow> turnOk base (rr_Tools request) (sn_events s) (sn_emitted s) \<and> blocks (sn_events s) = Some False
     \<and> (so_ToolSeen (sn_outcome s) \<or> so_Continue (sn_outcome s) \<or> lastType s = EventDone \<and> validateRequired request (sn_uses s) = Inr ())
     \<and> (so_ToolSeen (sn_outcome s) \<longrightarrow> lastType s = EventTurnEnded \<and> openCall (butlast (sn_events s)) \<or>
          rr_HistoryRequestKey request \<noteq> [] \<and> lastType s = EventDone \<and> validateRequired request (sn_uses s) = Inr ())"

lemma sat_sandEmit [wp]: "sat (sandEmit e) Q s = Q (Inr ()) (s\<lparr>sn_events := sn_events s @ [e],
     sn_emitted := sn_emitted s \<or> ev_Type e \<noteq> EventToolResultAccepted\<rparr>)"
  by (simp add: sandEmit_def wp)

lemma sat_sandFail [wp]: "sat (sandFail f as) Q s = Q (Inl (Errorf f as)) s"
  by (simp add: sandFail_def wp)

lemma sinceTurn_emit: "sinceTurn base events shown \<Longrightarrow> sinceTurn base (events @ [e]) (shown \<or> ev_Type e \<noteq> EventToolResultAccepted)"
  by (auto simp: sinceTurn_def onlyAccepted_def)

lemma turnOk_emit:
  assumes "turnOk base tools events shown" "blocks events = Some False \<or> ev_Type e \<in> {EventThinking, EventThinkingCompleted}"
    "ev_Type e = EventToolCall \<longrightarrow> (case ev_ToolCall e of None \<Rightarrow> False
      | Some c \<Rightarrow> inferenceToolDeclared tools (tc_Name c) \<and> inferenceHostedKind (tc_Name c) = [])"
  shows "turnOk base tools (events @ [e]) (shown \<or> ev_Type e \<noteq> EventToolResultAccepted)"
  using assms sinceTurn_emit [of base events shown e] by (auto simp: turnOk_def blockStep_def)

definition shut :: "Event list \<Rightarrow> ToolDefinition list \<Rightarrow> sandState \<Rightarrow> bool" where
  "shut base tools s \<longleftrightarrow> streaming base tools s \<and> blocks (sn_events s) = Some False"

lemma closeThinking_shut: "streaming base tools s \<Longrightarrow> sat closeThinking (\<lambda>r. shut base tools) s"
  using turnOk_emit [of base tools "sn_events s" "sn_emitted s" "(newEvent EventThinkingCompleted)\<lparr>ev_Signature := sn_reasoningSignature s\<rparr>"]
  by (auto simp: closeThinking_def wp shut_def streaming_def blockStep_def turnOk_def)

lemma shut_streaming: "shut base tools s \<Longrightarrow> streaming base tools s"
  by (simp add: shut_def)

lemma shut_emit:
  assumes "shut base tools s" "ev_Type e \<noteq> EventThinking" "ev_Type e \<noteq> EventTurnEnded"
    "ev_Type e = EventToolCall \<longrightarrow> (case ev_ToolCall e of None \<Rightarrow> False
      | Some c \<Rightarrow> inferenceToolDeclared tools (tc_Name c) \<and> inferenceHostedKind (tc_Name c) = [])"
  shows "shut base tools (s\<lparr>sn_events := sn_events s @ [e], sn_emitted := sn_emitted s \<or> ev_Type e \<noteq> EventToolResultAccepted\<rparr>)"
  using assms turnOk_emit [of base tools "sn_events s" "sn_emitted s" e]
  by (auto simp: shut_def streaming_def blockStep_def)

lemma sandEmit_shut:
  assumes "shut base tools s" "ev_Type e \<noteq> EventThinking" "ev_Type e \<noteq> EventTurnEnded"
    "ev_Type e = EventToolCall \<longrightarrow> (case ev_ToolCall e of None \<Rightarrow> False
      | Some c \<Rightarrow> inferenceToolDeclared tools (tc_Name c) \<and> inferenceHostedKind (tc_Name c) = [])"
  shows "sat (sandEmit e) (\<lambda>r. shut base tools) s"
  using shut_emit [OF assms] by (simp add: wp)

text \<open>The rest of a state does not matter.\<close>

lemma streaming_frame:
  "streaming base tools (s\<lparr>sn_toolCalls := x\<rparr>) = streaming base tools s"
  "streaming base tools (s\<lparr>sn_usage := u\<rparr>) = streaming base tools s"
  "streaming base tools (s\<lparr>sn_assistantText := t\<rparr>) = streaming base tools s"
  "streaming base tools (s\<lparr>sn_completedTools := cs\<rparr>) = streaming base tools s"
  "streaming base tools (s\<lparr>sn_hostedCalls := cs\<rparr>) = streaming base tools s"
  "streaming base tools (s\<lparr>sn_uses := us\<rparr>) = streaming base tools s"
  by (simp_all add: streaming_def)

lemma shut_frame [simp]:
  "shut base tools (s\<lparr>sn_toolCalls := x\<rparr>) = shut base tools s"
  "shut base tools (s\<lparr>sn_usage := u\<rparr>) = shut base tools s"
  "shut base tools (s\<lparr>sn_assistantText := t\<rparr>) = shut base tools s"
  "shut base tools (s\<lparr>sn_completedTools := cs\<rparr>) = shut base tools s"
  "shut base tools (s\<lparr>sn_hostedCalls := cs\<rparr>) = shut base tools s"
  "shut base tools (s\<lparr>sn_uses := us\<rparr>) = shut base tools s"
  by (simp_all add: shut_def streaming_frame)

lemma closeThinking_then:
  assumes "streaming base tools s" "\<And>r s'. shut base tools s' \<Longrightarrow> Q r s'"
  shows "sat closeThinking Q s"
  by (rule sat_mono [OF closeThinking_shut [OF assms(1)]]) (rule assms(2))

text \<open>Each handler keeps \<open>streaming\<close>.\<close>

lemma sat_bnd_keeps:
  assumes "sat m (\<lambda>r. I) s" "\<And>x s'. I s' \<Longrightarrow> sat (f x) (\<lambda>r. I) s'"
  shows "sat (bnd m f) (\<lambda>r. I) s"
  unfolding sat_bnd by (rule sat_mono [OF assms(1)]) (auto split: sum.split intro: assms(2))

lemma shut_weaken: "sat m (\<lambda>r. shut base tools) s \<Longrightarrow> sat m (\<lambda>r. streaming base tools) s"
  by (erule sat_mono) (rule shut_streaming)

lemma handleTextPart_streaming: "streaming base tools s \<Longrightarrow> sat (handleTextPart t) (\<lambda>r. streaming base tools) s"
  unfolding handleTextPart_def
  by (auto simp: sat_ret sat_modify intro!: shut_weaken closeThinking_shut sat_bnd_keeps sandEmit_shut)

lemma handleThinkingPart_streaming: "streaming base tools s \<Longrightarrow> sat (handleThinkingPart t) (\<lambda>r. streaming base tools) s"
  using turnOk_emit [of base tools "sn_events s" "sn_emitted s" "(newEvent EventThinking)\<lparr>ev_Text := t\<rparr>"]
  by (auto simp: handleThinkingPart_def wp streaming_def)

lemma handleSignaturePart_streaming: "streaming base tools s \<Longrightarrow> sat (handleSignaturePart env g) (\<lambda>r. streaming base tools) s"
  unfolding handleSignaturePart_def
  by (auto simp: wp streaming_def intro!: closeThinking_then [of base tools] dest: shut_streaming)

lemma announceCall_shut:
  assumes "shut base tools s" "inferenceToolDeclared tools (tc_Name c)" "inferenceHostedKind (tc_Name c) = []"
  shows "sat (bnd (modify (\<lambda>s. s\<lparr>sn_callerToolSeen := True\<rparr>)) (\<lambda>_. sandEmit ((newEvent EventToolCall)\<lparr>ev_ToolCall := Some c\<rparr>)))
    (\<lambda>r. shut base tools) s"
  using shut_emit [OF assms(1), of "(newEvent EventToolCall)\<lparr>ev_ToolCall := Some c\<rparr>"] assms(2,3)
  by (simp add: wp shut_def streaming_def)

lemma completeCall_shut: "shut base (rr_Tools request) s \<Longrightarrow> sat (completeCall request pending) (\<lambda>r. shut base (rr_Tools request)) s"
  unfolding completeCall_def
  by (cases "inferenceHostedKind (ic_Name pending) = []")
    (auto simp: sat_sandFail sat_modify intro!: sat_bnd_keeps [OF announceCall_shut] sat_bnd_keeps [of "modify _"])

lemma pendingCall_shut: "shut base tools s \<Longrightarrow> sat (pendingCall request i) (\<lambda>r. shut base tools) s"
  unfolding pendingCall_def by (auto simp: wp split: option.split)

lemma handleToolPart_shut:
  "shut base (rr_Tools request) s \<Longrightarrow> sat (handleToolPart env request tool final) (\<lambda>r. shut base (rr_Tools request)) s"
  unfolding handleToolPart_def Let_def
  by (auto simp: wp split: sum.split intro!: completeCall_shut sat_mono [OF pendingCall_shut])

lemma handlePart_streaming:
  assumes "streaming base (rr_Tools request) s"
  shows "sat (handlePart env request part) (\<lambda>r. streaming base (rr_Tools request)) s"
proof -
  have tool: "sat (bnd (if ir_Tool part \<noteq> None then closeThinking else ret ()) (\<lambda>_.
        bnd (modify (\<lambda>s. s\<lparr>sn_usage := keepUsage (ir_Usage part) (sn_usage s)\<rparr>)) (\<lambda>_.
        case ir_Tool part of None \<Rightarrow> ret () | Some tool \<Rightarrow> handleToolPart env request tool (ir_ToolFinal part))))
      (\<lambda>r. streaming base (rr_Tools request)) s" if "streaming base (rr_Tools request) s" for s
  proof (cases "ir_Tool part")
    case None
    then show ?thesis using that by (simp add: wp streaming_frame)
  next
    case (Some tool)
    then show ?thesis using that
      by (auto simp: sat_modify intro!: shut_weaken closeThinking_shut sat_bnd_keeps handleToolPart_shut)
  qed
  have final: "sat (if ir_ThinkFinal part then closeThinking else ret ()) (\<lambda>r. streaming base (rr_Tools request)) s"
    if "streaming base (rr_Tools request) s" for s
    using that by (auto simp: sat_ret intro: shut_weaken closeThinking_shut)
  show ?thesis
  proof (cases "ir_ErrorCode part \<noteq> [] \<or> ir_ErrorText part \<noteq> []")
    case True
    then show ?thesis using assms by (simp add: handlePart_def sat_raise)
  next
    case False
    show ?thesis
      unfolding handlePart_def if_not_P [OF False]
      by (rule sat_bnd_keeps, rule handleTextPart_streaming [OF assms], rule sat_bnd_keeps, erule handleThinkingPart_streaming,
          rule sat_bnd_keeps, erule handleSignaturePart_streaming, rule sat_bnd_keeps, erule final, erule tool)
  qed
qed

section \<open>The end of a segment\<close>

definition untouched :: "inferenceSegmentOutcome \<Rightarrow> bool" where
  "untouched outcome \<longleftrightarrow> \<not> so_ToolSeen outcome \<and> \<not> so_Continue outcome"

lemma shut_quiet: "shut base tools s \<Longrightarrow> quiet base tools s"
  by (simp add: shut_def streaming_def quiet_def noOutcome_def)

lemma sandEmit_quiet:
  assumes "quiet base tools s" "ev_Type e \<noteq> EventThinking" "ev_Type e \<noteq> EventToolCall" "ev_Type e \<noteq> EventTurnEnded"
  shows "sat (sandEmit e) (\<lambda>r s'. quiet base tools s' \<and> lastType s' = ev_Type e \<and> sn_uses s' = sn_uses s \<and> sn_outcome s' = sn_outcome s) s"
  using assms turnOk_emit [of base tools "sn_events s" "sn_emitted s" e]
  by (auto simp: wp quiet_def blockStep_def lastType_def)

lemma sandEmit_keeps:
  "quiet base tools s \<Longrightarrow> ev_Type e \<noteq> EventThinking \<Longrightarrow> ev_Type e \<noteq> EventToolCall \<Longrightarrow> ev_Type e \<noteq> EventTurnEnded \<Longrightarrow>
    sat (sandEmit e) (\<lambda>r. quiet base tools) s"
  by (rule sat_mono [OF sandEmit_quiet]) auto

lemma runHosted_quiet: "quiet base tools s \<Longrightarrow> sat (runHosted env request calls) (\<lambda>r. quiet base tools) s"
proof (induction calls arbitrary: s)
  case Nil
  then show ?case by (simp add: wp)
next
  case (Cons call calls)
  have uses: "sat (onUses m) (\<lambda>r. quiet base tools) s" if "quiet base tools s" for s and m :: "(_, inferenceHostedToolResult \<times> HostedSearch) io"
    using that by (auto simp: sat_def onUses_def quiet_def split: prod.split)
  show ?case
    using Cons by (auto simp: sat_ret intro!: sat_bnd_keeps uses sandEmit_keeps split: prod.split)
qed

lemma emitUsage_quiet: "quiet base tools s \<Longrightarrow> sat emitUsage (\<lambda>r. quiet base tools) s"
  unfolding emitUsage_def by (auto simp: sat_gets sat_bnd sat_ret intro!: sandEmit_keeps split: option.split)

lemma quiet_outcome: "quiet base tools (s\<lparr>sn_outcome := (sn_outcome s)\<lparr>so_Checkpoint := c\<rparr>\<rparr>) = quiet base tools s"
  by (simp add: quiet_def)

lemma saveSegment_quiet: "quiet base tools s \<Longrightarrow> sat (saveSegment env request results) (\<lambda>r. quiet base tools) s"
  unfolding saveSegment_def
  by (auto simp: sat_gets sat_lift sat_modify quiet_outcome intro!: sat_bnd_keeps sandEmit_keeps)

text \<open>The last steps decide the outcome.\<close>

definition segmentPost :: "Event list \<Rightarrow> RunRequest \<Rightarrow> bool res \<Rightarrow> sandState \<Rightarrow> bool" where
  "segmentPost base request r s = (case r of
     Inl e \<Rightarrow> turnOk base (rr_Tools request) (sn_events s) (sn_emitted s)
   | Inr stop \<Rightarrow> stop \<and> segmentDone base request s)"

lemma endSegment_done:
  assumes "quiet base (rr_Tools request) s"
  shows "sat (endSegment request hosted) (segmentPost base request) s"
proof -
  let ?tools = "rr_Tools request" let ?ended = "newEvent EventTurnEnded" let ?done = "newEvent EventDone"
  have q: "turnOk base ?tools (sn_events s) (sn_emitted s)" "blocks (sn_events s) = Some False"
    "\<not> so_ToolSeen (sn_outcome s)" "\<not> so_Continue (sn_outcome s)" "sn_callerToolSeen s \<longrightarrow> openCall (sn_events s)"
    using assms by (auto simp: quiet_def)
  have t: "turnOk base ?tools (sn_events s @ [?ended]) True" "turnOk base ?tools (sn_events s @ [?done]) True"
    using turnOk_emit [OF q(1), of ?ended] turnOk_emit [OF q(1), of ?done] q(2) by simp_all
  have "turnOk base ?tools ((sn_events s @ [?ended]) @ [?done]) True"
    using turnOk_emit [OF t(1), of ?done] q(2) by (simp add: blockStep_def)
  then show ?thesis
    using q t by (auto simp: endSegment_def wp segmentPost_def segmentDone_def lastType_def blockStep_def split: sum.split)
qed

lemma segmentPost_error: "quiet base (rr_Tools request) s \<Longrightarrow> segmentPost base request (Inl e) s"
  by (simp add: segmentPost_def quiet_def)

lemma quiet_bnd:
  assumes "sat m (\<lambda>r. quiet base (rr_Tools request)) s"
    and "\<And>x s'. quiet base (rr_Tools request) s' \<Longrightarrow> sat (f x) (segmentPost base request) s'"
  shows "sat (bnd m f) (segmentPost base request) s"
  unfolding sat_bnd by (rule sat_mono [OF assms(1)]) (auto split: sum.split intro: assms(2) segmentPost_error)

lemma finishSegment_done:
  assumes "streaming base (rr_Tools request) s"
  shows "sat (finishSegment env request) (segmentPost base request) s"
proof -
  let ?q = "\<lambda>r. quiet base (rr_Tools request)"
  have save: "sat (if b then saveSegment env request results else ret ()) ?q s" if "quiet base (rr_Tools request) s" for b results s
    using that saveSegment_quiet by (auto simp: sat_ret)
  have close: "sat closeThinking ?q s"
    by (rule sat_mono [OF closeThinking_shut [OF assms]]) (rule shut_quiet)
  show ?thesis
    unfolding finishSegment_def
    by (rule quiet_bnd [OF close]) (auto simp: sat_bnd [of "gets _"] sat_gets sat_sandFail segmentPost_error
        intro!: quiet_bnd [OF runHosted_quiet] quiet_bnd [OF emitUsage_quiet] quiet_bnd [OF save] endSegment_done)
qed

section \<open>A segment\<close>

definition segmentEnd :: "Event list \<Rightarrow> RunRequest \<Rightarrow> 'a res \<Rightarrow> sandState \<Rightarrow> bool" where
  "segmentEnd base request r s = (case r of
     Inl e \<Rightarrow> turnOk base (rr_Tools request) (sn_events s) (sn_emitted s) | Inr _ \<Rightarrow> segmentDone base request s)"

lemma segmentEnd_simps:
  "segmentEnd base request (Inl e) s = turnOk base (rr_Tools request) (sn_events s) (sn_emitted s)"
  "segmentEnd base request (Inr x) s = segmentDone base request s"
  by (simp_all add: segmentEnd_def)

lemma streaming_turnOk: "streaming base tools s \<Longrightarrow> turnOk base tools (sn_events s) (sn_emitted s)"
  by (simp add: streaming_def)

lemma sandFrame_ok:
  assumes "streaming base (rr_Tools request) s"
  shows "sat (sandFrame env request f p) (runPost (streaming base (rr_Tools request)) (segmentDone base request)
      (\<lambda>e s. turnOk base (rr_Tools request) (sn_events s) (sn_emitted s))) s"
proof -
  have fin: "sat (finishSegment env request) (runPost (streaming base (rr_Tools request)) (segmentDone base request)
      (\<lambda>e s. turnOk base (rr_Tools request) (sn_events s) (sn_emitted s))) s"
    by (rule sat_mono [OF finishSegment_done [OF assms]]) (auto simp: segmentPost_def split: sum.splits)
  have part: "sat (handlePart env request x) (\<lambda>r s'. case r of Inl e \<Rightarrow> turnOk base (rr_Tools request) (sn_events s') (sn_emitted s')
     | Inr u \<Rightarrow> streaming base (rr_Tools request) s') s" for x
    by (rule sat_mono [OF handlePart_streaming [OF assms]]) (auto simp: streaming_turnOk split: sum.split)
  show ?thesis
    using fin part streaming_turnOk [OF assms]
    by (auto simp: sandFrame_def sat_bnd sat_lift sat_ret cong: sum.case_cong split: sum.split intro: sat_mono)
qed

lemma sandChunks_end:
  "streaming base (rr_Tools request) s \<Longrightarrow> sat (sandChunks env request buffer chunks readErr) (segmentEnd base request) s"
proof (induction env request buffer chunks readErr arbitrary: s rule: sandChunks.induct)
  case (1 env request buffer readErr)
  then show ?case by (auto simp: sat_sandFail sat_raise segmentEnd_def streaming_turnOk split: option.split)
next
  case (2 env request buffer c cs readErr)
  have loop: "sat (framesLoop (sandFrame env request) (buffer @ c)) (loopPost (streaming base (rr_Tools request)) (segmentDone base request)
      (\<lambda>e s. turnOk base (rr_Tools request) (sn_events s) (sn_emitted s))) s"
    by (rule sat_framesLoop) (use 2 in \<open>auto intro: sandFrame_ok streaming_turnOk\<close>)
  have "sat (bnd (framesLoop (sandFrame env request) (buffer @ c)) (\<lambda>r. case r of
          None \<Rightarrow> ret () | Some rest \<Rightarrow> sandChunks env request rest cs readErr)) (segmentEnd base request) s"
    if "c \<noteq> []" "\<not> length (buffer @ c) > maxConnectPayloadSize + connectHeaderSize"
    unfolding sat_bnd
    by (rule sat_mono [OF loop]) (use 2(2) [OF that] in \<open>auto simp: sat_ret segmentEnd_simps split: sum.splits option.splits\<close>)
  then show ?case using 2 by (auto simp: sat_raise segmentEnd_simps streaming_turnOk)
qed

text \<open>Between segments.\<close>

definition calm :: "ToolDefinition list \<Rightarrow> sandState \<Rightarrow> bool" where
  "calm tools s \<longleftrightarrow> blocks (sn_events s) = Some False \<and> callsDeclared tools (sn_events s)"

lemma runInferenceSegment_end:
  assumes "calm (rr_Tools request) s" "sinceTurn base (sn_events s) (sn_emitted s)"
  shows "sat (runInferenceSegment env request accepted) (segmentEnd base request) s"
proof -
  have start: "shut base (rr_Tools request) (startSegment s)"
    using assms by (simp add: shut_def streaming_def turnOk_def calm_def startSegment_def)
  then have t: "segmentEnd base request (Inl e :: unit res) (startSegment s)" for e
    by (simp add: segmentEnd_def shut_def streaming_def)
  have accept: "sat (case accepted of None \<Rightarrow> ret ()
              | Some result \<Rightarrow> sandEmit ((newEvent EventToolResultAccepted)\<lparr>ev_ToolResult := Some result\<rparr>))
       (\<lambda>r. streaming base (rr_Tools request)) (startSegment s)"
    using start by (auto simp: sat_ret shut_streaming intro!: shut_weaken [OF sandEmit_shut] split: option.split)
  have consume: "sat (bnd (case accepted of None \<Rightarrow> ret ()
              | Some result \<Rightarrow> sandEmit ((newEvent EventToolResultAccepted)\<lparr>ev_ToolResult := Some result\<rparr>)) (\<lambda>_.
           consumeInferenceStream env request chunks readErr)) (segmentEnd base request) (startSegment s)" for chunks readErr
    unfolding sat_bnd
    by (rule sat_mono [OF accept])
      (auto simp: consumeInferenceStream_def segmentEnd_simps streaming_turnOk split: sum.split intro: sandChunks_end)
  show ?thesis
    unfolding runInferenceSegment_def
    using t consume by (auto simp: sat_bnd [of "gets _"] sat_bnd [of "modify _"] sat_bnd [of "lift _"] sat_gets sat_modify sat_lift sat_raise
        split: sum.split sandResponse.split)
qed

section \<open>A run\<close>

text \<open>The parts of a request that stay as they are through a run.\<close>

definition sameTask :: "RunRequest \<Rightarrow> RunRequest \<Rightarrow> bool" where
  "sameTask request request' \<longleftrightarrow> rr_Tools request' = rr_Tools request \<and> rr_HistoryRequestKey request' = rr_HistoryRequestKey request
     \<and> validateRequired request' = validateRequired request"

lemma validateRequired_flags:
  "rr_RequireHostedSearch request' = rr_RequireHostedSearch request \<Longrightarrow> rr_RequireHostedFetch request' = rr_RequireHostedFetch request
   \<Longrightarrow> rr_RequireHostedTool request' = rr_RequireHostedTool request \<Longrightarrow> validateRequired request' = validateRequired request"
  by (rule ext) (simp add: validateRequired_def)

lemma sameTask_steps:
  "sameTask request request"
  "sameTask request (request\<lparr>rr_dropReasoningSignatures := d\<rparr>)"
  "sameTask request (nextRequest request outcome)"
  "restoreRun codec request = Inr request' \<Longrightarrow> sameTask request request'"
  "continueRun env request result = Inr request' \<Longrightarrow> sameTask request request'"
  by (auto simp: sameTask_def nextRequest_def restoreRun_def continueRun_def Let_def intro!: validateRequired_flags split: if_splits sum.splits)

lemma sameTask_trans: "sameTask a b \<Longrightarrow> sameTask b c \<Longrightarrow> sameTask a c"
  by (simp add: sameTask_def)

lemma segmentDone_same: "sameTask request request' \<Longrightarrow> segmentDone base request' s = segmentDone base request s"
  by (simp add: segmentDone_def sameTask_def)

lemma calm_same: "sameTask request request' \<Longrightarrow> calm (rr_Tools request') s = calm (rr_Tools request) s"
  by (simp add: sameTask_def)

lemma segmentDone_calm: "segmentDone base request s \<Longrightarrow> calm (rr_Tools request) s"
  by (simp add: segmentDone_def calm_def turnOk_def)

text \<open>After a run that failed or waits: the output so far is in order.\<close>

definition inOrder :: "ToolDefinition list \<Rightarrow> sandState \<Rightarrow> bool" where
  "inOrder tools s \<longleftrightarrow> blocks (sn_events s) \<noteq> None \<and> callsDeclared tools (sn_events s)"

lemma calm_inOrder: "calm tools s \<Longrightarrow> inOrder tools s"
  by (simp add: calm_def inOrder_def)

lemma turnOk_inOrder: "turnOk base tools (sn_events s) (sn_emitted s) \<Longrightarrow> inOrder tools s"
  by (simp add: turnOk_def inOrder_def)

lemma prepare_ok:
  assumes "calm (rr_Tools request) s"
  shows "sat (prepareInferenceRun env request) (\<lambda>r s'. calm (rr_Tools request) s' \<and>
     (case r of Inr (Some (prepared, accepted)) \<Rightarrow> sameTask request prepared | _ \<Rightarrow> True)) s"
  using assms
  by (auto simp: prepareInferenceRun_def wp calm_def dest!: sameTask_steps(4,5) intro: sameTask_trans
      split: sum.split list.split resultInput.split)

text \<open>A turn is played again only if it has shown nothing but the acknowledgement of a result.\<close>

lemma retry_silent:
  assumes "segmentEnd base request (Inl e :: unit res) s" "mayRetry env request e s"
  shows "\<exists>acc. sn_events s = base @ acc \<and> onlyAccepted acc"
  using assms by (auto simp: segmentEnd_simps turnOk_def sinceTurn_def mayRetry_def)

definition turnPost :: "RunRequest \<Rightarrow> RunRequest res \<Rightarrow> sandState \<Rightarrow> bool" where
  "turnPost request r s = (case r of Inl e \<Rightarrow> inOrder (rr_Tools request) s
     | Inr sent \<Rightarrow> sameTask request sent \<and> (\<exists>base. segmentDone base request s))"

lemma runTurn_post:
  assumes "calm (rr_Tools prepared) s"
  shows "sat (runTurn env prepared accepted) (turnPost prepared) s"
proof -
  let ?base = "sn_events s" and ?dropped = "prepared\<lparr>rr_dropReasoningSignatures := True\<rparr>"
  have d: "sameTask prepared ?dropped" by (rule sameTask_steps)
  have "calm (rr_Tools prepared) (s\<lparr>sn_emitted := False\<rparr>)" "sinceTurn ?base (sn_events (s\<lparr>sn_emitted := False\<rparr>)) (sn_emitted (s\<lparr>sn_emitted := False\<rparr>))"
    using assms by (simp_all add: calm_def sinceTurn_def onlyAccepted_def)
  note first = runInferenceSegment_end [OF this, of env accepted]
  have again: "sat (runInferenceSegment env ?dropped None) (\<lambda>r s'. turnPost prepared (map_sum id (\<lambda>_. ?dropped) r) s') (rejectSignatures env prepared s1)"
    if "segmentEnd ?base prepared (Inl e :: unit res) s1" "mayRetry env prepared e s1" for e s1
  proof -
    note that' = that
    obtain acc where acc: "sn_events s1 = ?base @ acc" "onlyAccepted acc" using retry_silent [OF that'] by blast
    then have "calm (rr_Tools ?dropped) (rejectSignatures env prepared s1)"
      using that(1) assms blocks_accepted [OF acc(2), of ?base]
      by (simp add: calm_def rejectSignatures_def segmentEnd_simps turnOk_def)
    moreover have "sinceTurn ?base (sn_events (rejectSignatures env prepared s1)) (sn_emitted (rejectSignatures env prepared s1))"
      using that(1) by (simp add: rejectSignatures_def segmentEnd_simps turnOk_def)
    ultimately show ?thesis
      by (intro sat_mono [OF runInferenceSegment_end])
        (auto simp: turnPost_def segmentEnd_def segmentDone_same [OF d] d turnOk_inOrder split: sum.splits)
  qed
  show ?thesis
    unfolding runTurn_def sat_bnd sat_modify sum.case sat_attempt
  proof (rule sat_mono [OF first], goal_cases)
    case (1 r s1)
    show ?case
    proof (cases r)
      case (Inr u)
      then show ?thesis using 1 by (auto simp: sat_ret turnPost_def segmentEnd_simps sameTask_steps(1))
    next
      case (Inl e)
      show ?thesis
      proof (cases "mayRetry env prepared e s1")
        case True
        have "sat (runInferenceSegment env ?dropped None) (\<lambda>r s'. turnPost prepared (map_sum id (\<lambda>_. ?dropped) r) s') (rejectSignatures env prepared s1)"
          using again [of e s1] 1 Inl True by simp
        then show ?thesis
          using Inl True by (auto simp: sat_bnd sat_gets sat_modify sat_ret Let_def elim!: sat_mono split: sum.split)
      next
        case False
        then show ?thesis using 1 Inl by (auto simp: sat_bnd sat_gets sat_raise turnPost_def segmentEnd_simps turnOk_inOrder)
      qed
    qed
  qed
qed

definition finished :: "RunRequest \<Rightarrow> sandState \<Rightarrow> bool" where
  "finished request s \<longleftrightarrow> lastType s = EventDone \<and> validateRequired request (sn_uses s) = Inr ()
     \<or> rr_HistoryRequestKey request \<noteq> [] \<and> lastType s = EventTurnEnded \<and> openCall (butlast (sn_events s))"

definition runEnd :: "RunRequest \<Rightarrow> sandEnd res \<Rightarrow> sandState \<Rightarrow> bool" where
  "runEnd request r s \<longleftrightarrow> inOrder (rr_Tools request) s \<and> (r = Inr Returned \<longrightarrow> finished request s)"

lemma runEnd_same: "sameTask request request' \<Longrightarrow> runEnd request' = runEnd request"
  by (intro ext) (simp add: runEnd_def finished_def sameTask_def)

lemma sandLoop_end: "calm (rr_Tools request) s \<Longrightarrow> sat (sandLoop env n steps request) (runEnd request) s"
proof (induction n arbitrary: steps request s)
  case 0
  then show ?case by (simp add: sat_ret runEnd_def calm_inOrder)
next
  case (Suc n)
  have turn: "sat (bnd (runTurn env prepared accepted) (\<lambda>sent.
         bnd (gets sn_outcome) (\<lambda>outcome.
         if so_ToolSeen outcome \<and> rr_HistoryRequestKey sent \<noteq> [] then ret Returned
         else if \<not> so_ToolSeen outcome \<and> \<not> so_Continue outcome then ret Returned
         else if so_Continue outcome \<and> Suc steps \<ge> maxInferenceHostedSteps
         then sandFail ''Cursor Sand hosted web loop exceeded %d inference steps'' [N (int maxInferenceHostedSteps)]
         else sandLoop env n (if so_Continue outcome then Suc steps else steps) (nextRequest sent outcome)))) (runEnd request) s1"
    if s1: "calm (rr_Tools request) s1" and prepared: "sameTask request prepared" for prepared accepted s1
  proof -
    have "calm (rr_Tools prepared) s1" using s1 calm_same [OF prepared] by simp
    note post = runTurn_post [OF this, of env accepted]
    show ?thesis
      unfolding sat_bnd
    proof (rule sat_mono [OF post], goal_cases)
      case (1 r s2)
      show ?case
      proof (cases r)
        case (Inl e)
        then show ?thesis using 1 prepared by (simp add: turnPost_def runEnd_def sameTask_def)
      next
        case (Inr sent)
        then obtain base where sent: "sameTask prepared sent" and ended: "segmentDone base prepared s2"
          using 1 by (auto simp: turnPost_def)
        have task: "sameTask request sent" using sameTask_trans [OF prepared sent] .
        have ended': "segmentDone base request s2" using ended segmentDone_same [OF prepared] by simp
        have calm: "calm (rr_Tools request) s2" using segmentDone_calm [OF ended'] .
        have nxt: "sameTask request (nextRequest sent outcome)" for outcome
          using sameTask_trans [OF task sameTask_steps(3)] .
        have loop: "sat (sandLoop env n k (nextRequest sent outcome)) (runEnd request) s2" for k outcome
          using Suc.IH [of "nextRequest sent outcome" s2 k] calm calm_same [OF nxt, of outcome s2] runEnd_same [OF nxt, of outcome] by simp
        show ?thesis
          using Inr loop ended' task calm_inOrder [OF calm]
          by (auto simp: sat_bnd sat_gets sat_ret sat_sandFail runEnd_def finished_def segmentDone_def sameTask_def)
      qed
    qed
  qed
  show ?case
    unfolding sandLoop.simps sat_bnd [of "prepareInferenceRun env request"]
  proof (rule sat_mono [OF prepare_ok [OF Suc.prems]], goal_cases)
    case (1 r s1)
    show ?case
    proof (cases r)
      case (Inl e)
      then show ?thesis using 1 by (simp add: runEnd_def calm_inOrder)
    next
      case (Inr p)
      show ?thesis
      proof (cases p)
        case None
        then show ?thesis using 1 Inr by (simp add: sat_ret runEnd_def calm_inOrder)
      next
        case (Some q)
        then obtain prepared accepted where q: "p = Some (prepared, accepted)" by (cases q) auto
        then have "calm (rr_Tools request) s1" "sameTask request prepared" using 1 Inr by auto
        then show ?thesis using turn [of s1 prepared accepted] Inr q by simp
      qed
    qed
  qed
qed

section \<open>Every run ends\<close>

text \<open>A segment takes no tool result.\<close>

definition waiting :: "resultInput list \<Rightarrow> sandState \<Rightarrow> bool" where
  "waiting results s \<longleftrightarrow> sn_results s = results"

lemma waiting_frame [simp]:
  "waiting R (s\<lparr>sn_events := es, sn_emitted := b\<rparr>) = waiting R s"
  "waiting R (s\<lparr>sn_emitted := b\<rparr>) = waiting R s"
  "waiting R (s\<lparr>sn_thinkingOpen := b\<rparr>) = waiting R s"
  "waiting R (s\<lparr>sn_assistantText := t\<rparr>) = waiting R s"
  "waiting R (s\<lparr>sn_thinkingOpen := b, sn_reasoningText := t\<rparr>) = waiting R s"
  "waiting R (s\<lparr>sn_reasoningSignature := t, sn_memory := m\<rparr>) = waiting R s"
  "waiting R (s\<lparr>sn_thinkingOpen := b, sn_reasoningSignature := t, sn_memory := m\<rparr>) = waiting R s"
  "waiting R (s\<lparr>sn_toolCalls := x\<rparr>) = waiting R s"
  "waiting R (s\<lparr>sn_usage := u\<rparr>) = waiting R s"
  "waiting R (s\<lparr>sn_completedTools := cs\<rparr>) = waiting R s"
  "waiting R (s\<lparr>sn_hostedCalls := cs\<rparr>) = waiting R s"
  "waiting R (s\<lparr>sn_callerToolSeen := b\<rparr>) = waiting R s"
  "waiting R (s\<lparr>sn_uses := us\<rparr>) = waiting R s"
  "waiting R (s\<lparr>sn_outcome := outcome\<rparr>) = waiting R s"
  "waiting R (startSegment s) = waiting R s"
  "waiting R (rejectSignatures env request s) = waiting R s"
  by (simp_all add: waiting_def startSegment_def rejectSignatures_def)

lemmas waits_steps = sat_ret sat_raise sat_lift sat_modify sat_sandFail

lemma sat_gets_keeps: "I s \<Longrightarrow> sat (gets f) (\<lambda>r. I) s"
  by (simp add: sat_gets)

lemma sandEmit_waits: "waiting R s \<Longrightarrow> sat (sandEmit e) (\<lambda>r. waiting R) s"
  by (simp add: wp waiting_def)

lemma closeThinking_waits: "waiting R s \<Longrightarrow> sat closeThinking (\<lambda>r. waiting R) s"
  by (simp add: closeThinking_def wp waiting_def)

lemma textPart_waits: "waiting R s \<Longrightarrow> sat (handleTextPart t) (\<lambda>r. waiting R) s"
  unfolding handleTextPart_def
  by (auto simp: waits_steps intro!: sat_bnd_keeps sandEmit_waits closeThinking_waits)

lemma thinkingPart_waits: "waiting R s \<Longrightarrow> sat (handleThinkingPart t) (\<lambda>r. waiting R) s"
  unfolding handleThinkingPart_def by (auto simp: waits_steps intro!: sat_bnd_keeps sandEmit_waits)

lemma signaturePart_waits: "waiting R s \<Longrightarrow> sat (handleSignaturePart env g) (\<lambda>r. waiting R) s"
  unfolding handleSignaturePart_def by (auto simp: waits_steps intro!: sat_bnd_keeps closeThinking_waits)

lemma pendingCall_waits: "waiting R s \<Longrightarrow> sat (pendingCall request i) (\<lambda>r. waiting R) s"
  unfolding pendingCall_def by (auto simp: waits_steps intro!: sat_bnd_keeps sat_gets_keeps split: option.split)

lemma completeCall_waits: "waiting R s \<Longrightarrow> sat (completeCall request pending) (\<lambda>r. waiting R) s"
  unfolding completeCall_def by (auto simp: waits_steps intro!: sat_bnd_keeps sandEmit_waits)

lemma toolPart_waits: "waiting R s \<Longrightarrow> sat (handleToolPart env request tool final) (\<lambda>r. waiting R) s"
  unfolding handleToolPart_def Let_def by (auto simp: waits_steps intro!: sat_bnd_keeps pendingCall_waits completeCall_waits)

lemma handlePart_waits:
  assumes "waiting R s"
  shows "sat (handlePart env request part) (\<lambda>r. waiting R) s"
proof -
  have close: "sat (if b then closeThinking else ret ()) (\<lambda>r. waiting R) s" if "waiting R s" for b s
    using that closeThinking_waits by (simp add: sat_ret)
  have rest: "sat (bnd (modify (\<lambda>s. s\<lparr>sn_usage := keepUsage u (sn_usage s)\<rparr>)) (\<lambda>_.
      case t of None \<Rightarrow> ret () | Some tool \<Rightarrow> handleToolPart env request tool final)) (\<lambda>r. waiting R) s"
    if "waiting R s" for u t final s
    using that by (auto simp: waits_steps intro!: sat_bnd_keeps toolPart_waits split: option.split)
  show ?thesis
  proof (cases "ir_ErrorCode part \<noteq> [] \<or> ir_ErrorText part \<noteq> []")
    case True
    then show ?thesis using assms by (simp add: handlePart_def sat_raise)
  next
    case False
    show ?thesis
      unfolding handlePart_def if_not_P [OF False]
      by (rule sat_bnd_keeps, rule textPart_waits [OF assms], rule sat_bnd_keeps, erule thinkingPart_waits,
          rule sat_bnd_keeps, erule signaturePart_waits, rule sat_bnd_keeps, erule close, rule sat_bnd_keeps, erule close, erule rest)
  qed
qed

lemma runHosted_waits: "waiting R s \<Longrightarrow> sat (runHosted env request calls) (\<lambda>r. waiting R) s"
proof (induction calls arbitrary: s)
  case Nil
  then show ?case by (simp add: wp)
next
  case (Cons call calls)
  have uses: "sat (onUses m) (\<lambda>r. waiting R) s" if "waiting R s" for s and m :: "(_, inferenceHostedToolResult \<times> HostedSearch) io"
    using that by (auto simp: sat_def onUses_def split: prod.split)
  show ?case
    using Cons by (auto simp: sat_ret intro!: sat_bnd_keeps uses sandEmit_waits split: prod.split)
qed

lemma emitUsage_waits: "waiting R s \<Longrightarrow> sat emitUsage (\<lambda>r. waiting R) s"
  unfolding emitUsage_def by (auto simp: waits_steps intro!: sat_bnd_keeps sat_gets_keeps sandEmit_waits split: option.split)

lemma saveSegment_waits: "waiting R s \<Longrightarrow> sat (saveSegment env request results) (\<lambda>r. waiting R) s"
  unfolding saveSegment_def by (auto simp: waits_steps intro!: sat_bnd_keeps sat_gets_keeps sandEmit_waits)

lemma endSegment_waits: "waiting R s \<Longrightarrow> sat (endSegment request hosted) (\<lambda>r. waiting R) s"
  unfolding endSegment_def by (auto simp: waits_steps intro!: sat_bnd_keeps sat_gets_keeps sandEmit_waits)

lemma finishSegment_waits: "waiting R s \<Longrightarrow> sat (finishSegment env request) (\<lambda>r. waiting R) s"
  unfolding finishSegment_def
  by (auto simp: waits_steps intro!: sat_bnd_keeps sat_gets_keeps closeThinking_waits runHosted_waits
      emitUsage_waits saveSegment_waits endSegment_waits)

lemma sandFrame_waits: "waiting R s \<Longrightarrow> sat (sandFrame env request f p) (\<lambda>r. waiting R) s"
  unfolding sandFrame_def
  by (auto simp: waits_steps intro!: sat_bnd_keeps handlePart_waits finishSegment_waits)

lemma sandChunks_waits: "waiting R s \<Longrightarrow> sat (sandChunks env request buffer chunks readErr) (\<lambda>r. waiting R) s"
proof (induction env request buffer chunks readErr arbitrary: s rule: sandChunks.induct)
  case (1 env request buffer readErr)
  then show ?case by (auto simp: waits_steps split: option.split)
next
  case (2 env request buffer c cs readErr)
  have "sat (framesLoop (sandFrame env request) (buffer @ c)) (loopPost (waiting R) (waiting R) (\<lambda>e. waiting R)) s"
    by (rule sat_framesLoop) (use 2(3) in \<open>auto intro: sat_mono [OF sandFrame_waits] simp: runPost_def split: sum.split\<close>)
  then have loop: "sat (framesLoop (sandFrame env request) (buffer @ c)) (\<lambda>r. waiting R) s"
    by (rule sat_mono) (auto simp: loopPost_def split: sum.splits option.splits)
  show ?case
    using 2 loop by (auto simp: waits_steps intro!: sat_bnd_keeps split: option.split)
qed

lemma runInferenceSegment_waits: "waiting R s \<Longrightarrow> sat (runInferenceSegment env request accepted) (\<lambda>r. waiting R) s"
  unfolding runInferenceSegment_def consumeInferenceStream_def
  by (auto simp: waits_steps intro!: sat_bnd_keeps sat_gets_keeps sandEmit_waits sandChunks_waits split: option.split sandResponse.split)

lemma runTurn_waits: "waiting R s \<Longrightarrow> sat (runTurn env prepared accepted) (\<lambda>r. waiting R) s"
  unfolding runTurn_def Let_def
  by (auto simp: waits_steps sat_attempt intro!: sat_bnd_keeps sat_gets_keeps runInferenceSegment_waits split: sum.split)

text \<open>How many turns may still come.\<close>

definition turnsLeft :: "nat \<Rightarrow> RunRequest \<Rightarrow> sandState \<Rightarrow> nat" where
  "turnsLeft hostedSteps request s =
     length (sn_results s) + (maxInferenceHostedSteps - hostedSteps) + (if rr_Resume request then 0 else 1)"

lemma prepare_takes:
  "sat (prepareInferenceRun env request) (\<lambda>r s'. case r of
     Inr (Some p) \<Rightarrow> length (sn_results s) = length (sn_results s') + (if rr_Resume request then 1 else 0)
   | _ \<Rightarrow> True) s"
proof -
  have "rr_Resume request' = rr_Resume request" if "restoreRun codec request = Inr request'" for codec request'
    using that by (auto simp: restoreRun_def split: if_splits sum.splits)
  then show ?thesis
    by (auto simp: prepareInferenceRun_def wp split: sum.split list.split resultInput.split)
qed

lemma nextRequest_resume [simp]: "rr_Resume (nextRequest sent outcome) = so_ToolSeen outcome"
  by (simp add: nextRequest_def)

lemma sandLoop_ends:
  "turnsLeft steps request s < n \<Longrightarrow> steps < maxInferenceHostedSteps \<Longrightarrow>
   sat (sandLoop env n steps request) (\<lambda>r s'. r \<noteq> Inr OutOfFuel) s"
proof (induction n arbitrary: steps request s)
  case 0
  then show ?case by simp
next
  case (Suc n)
  have turn: "sat (bnd (runTurn env prepared accepted) (\<lambda>sent.
         bnd (gets sn_outcome) (\<lambda>outcome.
         if so_ToolSeen outcome \<and> rr_HistoryRequestKey sent \<noteq> [] then ret Returned
         else if \<not> so_ToolSeen outcome \<and> \<not> so_Continue outcome then ret Returned
         else if so_Continue outcome \<and> Suc steps \<ge> maxInferenceHostedSteps
         then sandFail ''Cursor Sand hosted web loop exceeded %d inference steps'' [N (int maxInferenceHostedSteps)]
         else sandLoop env n (if so_Continue outcome then Suc steps else steps) (nextRequest sent outcome)))) (\<lambda>r s'. r \<noteq> Inr OutOfFuel) s1"
    if taken: "length (sn_results s) = length (sn_results s1) + (if rr_Resume request then 1 else 0)" for prepared accepted s1
  proof -
    have loop: "sat (sandLoop env n (if so_Continue outcome then Suc steps else steps) (nextRequest sent outcome)) (\<lambda>r s'. r \<noteq> Inr OutOfFuel) s2"
      if "waiting (sn_results s1) s2" "so_ToolSeen outcome \<or> so_Continue outcome" "so_Continue outcome \<longrightarrow> Suc steps < maxInferenceHostedSteps"
      for sent outcome s2
      using that taken Suc.prems
      by (intro Suc.IH) (auto simp: turnsLeft_def waiting_def split: if_splits)
    show ?thesis
      unfolding sat_bnd [of "runTurn _ _ _"]
    proof (rule sat_mono [OF runTurn_waits [of "sn_results s1"]], goal_cases)
      case (2 r s2)
      then show ?case
        using loop [of s2 "sn_outcome s2"]
        by (cases r) (auto simp: sat_bnd sat_gets sat_ret sat_sandFail simp del: if_split split: if_splits)
    qed (simp add: waiting_def)
  qed
  show ?case
    unfolding sandLoop.simps sat_bnd [of "prepareInferenceRun env request"]
  proof (rule sat_mono [OF prepare_takes], goal_cases)
    case (1 r s1)
    show ?case
    proof (cases r)
      case (Inl e)
      then show ?thesis by simp
    next
      case (Inr p)
      then show ?thesis using 1 turn [of s1] by (cases p) (auto simp: sat_ret)
    qed
  qed
qed

section \<open>Properties\<close>

text \<open>Every tool call among the events names, up to surrounding blanks, one of the given tools, and no hosted one.\<close>

definition callsFrom :: "ToolDefinition list \<Rightarrow> Event list \<Rightarrow> bool" where
  "callsFrom tools events = list_all (\<lambda>e. ev_Type e = EventToolCall \<longrightarrow> (case ev_ToolCall e of None \<Rightarrow> False
     | Some c \<Rightarrow> trimSpace (tc_Name c) \<in> (\<lambda>tool. trimSpace (td_Name tool)) ` set tools
         \<and> trimSpace (tc_Name c) \<notin> {''beefapi_cursor_web_search'', ''beefapi_cursor_web_fetch''})) events"

lemma callsDeclared_from: "callsDeclared tools events \<Longrightarrow> callsFrom tools events"
  by (auto simp: callsDeclared_def callsFrom_def list_all_iff inferenceToolDeclared_def list_ex_iff inferenceHostedKind_def
      inferenceWebSearchToolName_def inferenceWebFetchToolName_def HostedSearchKindWebSearch_def HostedSearchKindWebFetch_def
      split: option.splits if_splits) force+

text \<open>
  C15: Whatever a Sand run shows is in order, however it ends: nothing is shown inside a thinking block until the
  block is closed, and every tool call that is announced is one of the caller's declared tools, never a hosted
  one (\<open>callsDeclared\<close> in the code's own terms, \<open>callsFrom\<close> over the names themselves).
\<close>

theorem sand_output_in_order:
  "blocks (sn_events (snd (sandRun env fuel request (initialSand memory results)))) \<noteq> None
   \<and> callsDeclared (rr_Tools request) (sn_events (snd (sandRun env fuel request (initialSand memory results))))
   \<and> callsFrom (rr_Tools request) (sn_events (snd (sandRun env fuel request (initialSand memory results))))"
proof -
  have "calm (rr_Tools request) (initialSand memory results)" by (simp add: calm_def initialSand_def)
  then have "sat (sandRun env fuel request) (runEnd request) (initialSand memory results)"
    using sandLoop_end by (simp add: sandRun_def sat_sandFail runEnd_def calm_inOrder)
  from satD [OF this prod.collapse [symmetric]] show ?thesis by (simp add: runEnd_def inOrder_def callsDeclared_from)
qed

text \<open>
  C16: A Sand run returns without an error only when it is done or has handed over: the last event is the end of
  the answer, with every hosted tool the caller required having been used, or, in a run over a full history, the
  end of a turn in which a call of one of the caller's tools has been announced.
\<close>

theorem sand_returns_only_when_done:
  assumes "sandRun env fuel request (initialSand memory results) = (Inr Returned, s)"
  shows "ev_Type (last (sn_events s)) = EventDone \<and> validateRequired request (sn_uses s) = Inr ()
   \<or> rr_HistoryRequestKey request \<noteq> [] \<and> (\<exists>before call between ended. sn_events s = before @ call # between @ [ended]
       \<and> ev_Type call = EventToolCall \<and> (\<forall>e \<in> set between. ev_Type e \<noteq> EventTurnEnded) \<and> ev_Type ended = EventTurnEnded)"
proof -
  have "calm (rr_Tools request) (initialSand memory results)" by (simp add: calm_def initialSand_def)
  then have "sat (sandRun env fuel request) (runEnd request) (initialSand memory results)"
    using sandLoop_end by (simp add: sandRun_def sat_sandFail runEnd_def calm_inOrder)
  from satD [OF this assms] have f: "finished request s" by (simp add: runEnd_def)
  show ?thesis
  proof (cases "lastType s = EventDone \<and> validateRequired request (sn_uses s) = Inr ()")
    case False
    with f have h: "rr_HistoryRequestKey request \<noteq> []" "lastType s = EventTurnEnded" "openCall (butlast (sn_events s))"
      by (auto simp: finished_def)
    obtain before call between where "butlast (sn_events s) = before @ call # between" "ev_Type call = EventToolCall"
        "\<forall>e \<in> set between. ev_Type e \<noteq> EventTurnEnded"
      using openCall_split [OF h(3)] by blast
    moreover from this have "sn_events s = butlast (sn_events s) @ [last (sn_events s)]"
      by (metis append_butlast_last_id butlast.simps(1) list.distinct(1) append_is_Nil_conv)
    ultimately show ?thesis using h by (metis append.assoc append_Cons lastType_def)
  qed (simp add: lastType_def)
qed

text \<open>An upstream that ends the stream at once.\<close>

definition exampleRun :: sandRunEnv where
  "exampleRun = \<lparr>sr_env = exampleSand, sr_codec = exampleCodec, sr_gunzip = (\<lambda>n b. Inr (Inr b)), sr_trailer = (\<lambda>b. Inr None),
     sr_search = (\<lambda>r q e. Inl (OsError ''unused'')), sr_fetch = (\<lambda>r u. Inl (OsError ''unused'')),
     sr_respond = (\<lambda>n b. Streaming [[2, 0, 0], [0, 0]] None)\<rparr>"

definition exampleTurn :: RunRequest where
  "exampleTurn = newRunRequest\<lparr>rr_AccessToken := ''t'', rr_ClientVersion := ''v'', rr_Model := ''grok-4.6'', rr_HistoryRequestKey := ''k''\<rparr>"

lemma sand_returns_only_when_done_witness:
  "\<exists>s. sandRun exampleRun 3 exampleTurn (initialSand (newSignatureMemory 4) []) = (Inr Returned, s)
     \<and> (ev_Type (last (sn_events s)) = EventDone \<and> validateRequired exampleTurn (sn_uses s) = Inr ()
        \<or> rr_HistoryRequestKey exampleTurn \<noteq> [] \<and> (\<exists>call \<in> set (sn_events s). ev_Type call = EventToolCall))"
proof -
  have "fst (sandRun exampleRun 3 exampleTurn (initialSand (newSignatureMemory 4) [])) = Inr Returned"
    by code_simp
  then obtain s where "sandRun exampleRun 3 exampleTurn (initialSand (newSignatureMemory 4) []) = (Inr Returned, s)"
    by (metis prod.collapse)
  with sand_returns_only_when_done [OF this] show ?thesis by fastforce
qed

text \<open>
  C17: Every Sand run ends or waits for a tool result: it takes at most sixteen turns for hosted web calls, one for
  each tool result and one to start, so with that many turns the loop always comes to an end.
\<close>

theorem sand_run_ends:
  "fst (sandRun env (maxInferenceHostedSteps + length results + 2 + extra) request (initialSand memory results)) \<noteq> Inr OutOfFuel"
proof -
  let ?fuel = "maxInferenceHostedSteps + length results + 2 + extra"
  have "turnsLeft 0 request (initialSand memory results) < ?fuel"
    by (simp add: turnsLeft_def initialSand_def)
  then have "sat (sandLoop env ?fuel 0 request) (\<lambda>r s'. r \<noteq> Inr OutOfFuel) (initialSand memory results)"
    by (rule sandLoop_ends) (simp add: maxInferenceHostedSteps_def)
  then show ?thesis by (auto simp: sandRun_def sat_def sandFail_def raise_def split: prod.splits)
qed

section \<open>Attachments of a continued turn\<close>

text \<open>
  The request of the next turn keeps the attachments of the first user message, whose text it drops: they are
  sent, and stored in the next checkpoint, as another user message after every hosted step.
\<close>

lemma continuation_repeats_media:
  assumes "rr_UserMedia sent \<noteq> []" "restoreRun codec (nextRequest sent outcome) = Inr continued"
    and "se_marshal env (roleMessage ''user'' (map (\<lambda>m. JObj (historyMediaPart m)) (rr_UserMedia sent))) = Inr message"
  shows "checkpointUser env continued = Inr [message]"
proof -
  have "rr_UserMedia continued = rr_UserMedia sent" "rr_UserText continued = []"
    using assms(2) by (auto simp: restoreRun_def nextRequest_def split: if_splits sum.splits)
  moreover have "trimSpace [] = []" by code_simp
  ultimately show ?thesis using assms(1,3) by (simp add: checkpointUser_def)
qed

end
