(* ===== verification/Links.thy ===== *)
theory Links
  imports Hosted
begin

text \<open>
  Which sources of a hosted search are shown (\<open>project_claude.go\<close>): the rule on URLs and the link list some
  searches return instead of references.  Parameters: \<open>url.Parse\<close> with scheme, host name and port,
  \<open>net.ParseIP\<close>, lower case, and the regular expression of a numbered link with its three groups.
\<close>

record linkEnv =
  ln_lower :: "string \<Rightarrow> string"
  ln_parseURL :: "string \<Rightarrow> (string \<times> string \<times> string) option"
  ln_parseIP :: "string \<Rightarrow> bool"
  ln_match :: "string \<Rightarrow> (string \<times> string \<times> string) option"

text \<open>\<open>strings.Split\<close> at one character.\<close>

fun splitAt :: "char \<Rightarrow> string \<Rightarrow> string list" where
  "splitAt c [] = [[]]"
| "splitAt c (x # s) = (if x = c then [] # splitAt c s
     else (case splitAt c s of w # ws \<Rightarrow> (x # w) # ws | [] \<Rightarrow> [[x]]))"

definition validSourceHostname :: "linkEnv \<Rightarrow> string \<Rightarrow> bool" where
  "validSourceHostname env host0 = (let host = trimSpace host0 in
     if host = [] \<or> host = ''.'' \<or> list_ex (\<lambda>c. c \<in> {CHR '' '', CHR 0x09, CHR 0x0D, CHR 0x0A}) host then False
     else if ln_parseIP env host then True
     else let name = trimSuffix host ''.'' in
       name \<noteq> [] \<and> list_all (\<lambda>label. label \<noteq> []) (splitAt (CHR ''.'') name))"

definition usableHTTPSourceURL :: "linkEnv \<Rightarrow> string \<Rightarrow> bool" where
  "usableHTTPSourceURL env raw = (let trimmed = trimSpace raw in
     if trimmed = [] then False
     else case ln_parseURL env trimmed of
       None \<Rightarrow> False
     | Some (scheme, hostname, port) \<Rightarrow>
         ln_lower env scheme \<in> {''http'', ''https''} \<and> validSourceHostname env hostname
         \<and> (port = [] \<or> (case parseInt64 port of None \<Rightarrow> False | Some n \<Rightarrow> 0 \<le> n \<and> n \<le> 65535)))"

definition usableHostedSearchReferences :: "linkEnv \<Rightarrow> HostedSearch \<Rightarrow> HostedSearchReference list" where
  "usableHostedSearchReferences env search = filter (\<lambda>r. usableHTTPSourceURL env (hr_URL r)) (hs_References search)"

definition hostedSearchWrapperTitle :: string where
  "hostedSearchWrapperTitle = ''Web search results''"

text \<open>\<open>strings.TrimLeft\<close> with a byte order mark, blanks and tabs.\<close>

fun trimLinks :: "bool \<Rightarrow> string \<Rightarrow> string" where
  "trimLinks bom (a # b # c # s) =
     (if bom \<and> a = CHR 0xEF \<and> b = CHR 0xBB \<and> c = CHR 0xBF then trimLinks bom s
      else if a = CHR '' '' \<or> a = CHR 0x09 then trimLinks bom (b # c # s) else a # b # c # s)"
| "trimLinks bom (a # s) = (if a = CHR '' '' \<or> a = CHR 0x09 then trimLinks bom s else a # s)"
| "trimLinks bom [] = []"

fun dropTrailing :: "char \<Rightarrow> string \<Rightarrow> string" where
  "dropTrailing c s = rev (dropWhile (\<lambda>x. x = c) (rev s))"

text \<open>The lines with numbers from \<open>expected\<close> on, and the number after the last one.\<close>

fun linkLines :: "linkEnv \<Rightarrow> int \<Rightarrow> string list \<Rightarrow> HostedSearchReference list \<times> int" where
  "linkLines env expected [] = ([], expected)"
| "linkLines env expected (raw # lines) = (let line = dropTrailing (CHR 0x0D) raw in
     if trimSpace line = [] then ([], expected)
     else case ln_match env line of
       None \<Rightarrow> ([], expected)
     | Some (number, title, href) \<Rightarrow>
         if parseInt64 number \<noteq> Some expected then ([], expected)
         else let (refs, n) = linkLines env (expected + 1) lines in
           (if usableHTTPSourceURL env (trimSpace href)
            then \<lparr>hr_Title = trimSpace title, hr_URL = trimSpace href, hr_Chunk = []\<rparr> # refs else refs, n))"

definition parseLeadingHostedSearchLinks :: "linkEnv \<Rightarrow> string \<Rightarrow> HostedSearchReference list" where
  "parseLeadingHostedSearchLinks env chunk =
     (let content = trimLinks True chunk in
      case stripPrefix ''Links:'' content of
        None \<Rightarrow> []
      | Some rest0 \<Rightarrow>
          (let rest = trimLinks False rest0 in
           case (case stripPrefix [CHR 0x0D, CHR 0x0A] rest of Some r \<Rightarrow> Some r | None \<Rightarrow> stripPrefix [CHR 0x0A] rest) of
             None \<Rightarrow> []
           | Some body \<Rightarrow> (let (refs, expected) = linkLines env 1 (splitAt (CHR 0x0A) body) in
               if expected = 1 then [] else refs)))"

definition expandHostedSearchLinkList :: "linkEnv \<Rightarrow> HostedSearchReference list \<Rightarrow> HostedSearchReference list" where
  "expandHostedSearchLinkList env refs = concat (map (\<lambda>r.
     if trimSpace (hr_URL r) \<noteq> [] \<or> trimSpace (hr_Title r) \<noteq> hostedSearchWrapperTitle then [r]
     else let extracted = parseLeadingHostedSearchLinks env (hr_Chunk r) in
       if extracted = [] then [r] else extracted) refs)"

text \<open>Every link that is taken out of such a list can be shown.\<close>

lemma linkLines_usable: "\<forall>r\<in>set (fst (linkLines env n lines)). usableHTTPSourceURL env (hr_URL r) \<and> hr_Chunk r = []"
  by (induction env n lines rule: linkLines.induct) (auto simp: Let_def split: option.split prod.split)

lemma parseLeading_usable: "r \<in> set (parseLeadingHostedSearchLinks env chunk) \<Longrightarrow> usableHTTPSourceURL env (hr_URL r)"
proof -
  have lines: "r \<in> set refs \<Longrightarrow> linkLines env 1 ls = (refs, n) \<Longrightarrow> usableHTTPSourceURL env (hr_URL r)" for refs ls n
    using linkLines_usable [of env 1 ls] by simp
  show "r \<in> set (parseLeadingHostedSearchLinks env chunk) \<Longrightarrow> ?thesis"
    unfolding parseLeadingHostedSearchLinks_def Let_def
    by (simp split: option.splits prod.splits if_splits) (auto dest: lines [OF _ sym])
qed

lemma expanded_links:
  assumes "r \<in> set (expandHostedSearchLinkList env refs)"
  shows "r \<in> set refs \<or> usableHTTPSourceURL env (hr_URL r)"
proof -
  obtain x where x: "x \<in> set refs" "r \<in> set (if trimSpace (hr_URL x) \<noteq> [] \<or> trimSpace (hr_Title x) \<noteq> hostedSearchWrapperTitle then [x]
     else let extracted = parseLeadingHostedSearchLinks env (hr_Chunk x) in if extracted = [] then [x] else extracted)"
    using assms by (auto simp: expandHostedSearchLinkList_def)
  then have "r = x \<or> r \<in> set (parseLeadingHostedSearchLinks env (hr_Chunk x))"
    by (auto simp: Let_def split: if_splits)
  then show ?thesis using x(1) parseLeading_usable by blast
qed

end
