(* ===== verification/Projection.thy ===== *)
theory Projection
  imports Links Manager Media
begin

text \<open>
  The projection of a run's events to the caller's format (\<open>project_claude.go\<close>, \<open>project_usage.go\<close>): every event
  becomes events of a Claude message stream, which other formats translate.  The state keeps the Claude stream
  itself (the events in \<open>claudeSSE\<close>) and the content blocks of the non-streamed answer.  JSON, the translator of
  the SDK and the tokenizers are parameters; a chunk is a string of bytes.
\<close>

section \<open>State\<close>

datatype responseFormat = FormatClaude | FormatOpenAI | FormatOpenAIResponse | FormatForeign string

record projectionEnv =
  pj_links :: linkEnv
  pj_sha :: "string \<Rightarrow> string"
  pj_uuid :: string
  pj_marshal :: "json \<Rightarrow> string res"
  pj_unmarshal :: "string \<Rightarrow> json option"
  pj_toInt :: "float64 \<Rightarrow> int"
  pj_translate :: "responseFormat \<Rightarrow> string \<Rightarrow> string \<Rightarrow> string \<Rightarrow> string list \<times> string"
  pj_translateNonStream :: "responseFormat \<Rightarrow> string \<Rightarrow> string \<Rightarrow> string \<Rightarrow> string"
  pj_countTokens :: "string \<Rightarrow> string \<Rightarrow> int option"
  pj_countInput :: "int option"

record claudeProjection =
  cp_historyTurn :: bool
  cp_model :: string
  cp_messageID :: string
  cp_responseFormat :: responseFormat
  cp_started :: bool
  cp_textOpen :: bool
  cp_textIndex :: nat
  cp_thinkingOpen :: bool
  cp_thinkingIndex :: nat
  cp_blockIndex :: nat
  cp_text :: string
  cp_thinking :: string
  cp_toolCalls :: "ToolCall list"
  cp_blocks :: "json list"
  cp_citations :: "json list"
  cp_hostedStarted :: "string list"
  cp_param :: string
  cp_claudeSSE :: "json list"
  cp_facts :: usageFacts
  cp_semantic :: bool
  cp_responsesSeq :: int

type_synonym 'a proj = "(claudeProjection, 'a) io"

text \<open>The turn the projection answers.\<close>

record projectedTurn =
  pt_managed :: ManagedRequest
  pt_responseFormat :: responseFormat
  pt_publicModel :: string

definition newClaudeProjection :: "projectionEnv \<Rightarrow> projectedTurn \<Rightarrow> claudeProjection" where
  "newClaudeProjection env turn =
     (let managed = pt_managed turn;
          sessionID = trimSpace (mr_SessionID managed);
          segmentID = (if trimSpace (mr_RequestSegmentID managed) \<noteq> [] then trimSpace (mr_RequestSegmentID managed)
                       else trimSpace (mr_BillingRunID managed));
          segmentMessage = (if segmentID \<noteq> [] then ''msg_'' @ pj_sha env (sessionID @ NUL @ segmentID) else []);
          messageID0 = (if pt_responseFormat turn = FormatClaude then segmentMessage else sessionID);
          messageID = (if messageID0 = [] then ''msg_'' @ filter (\<lambda>c. c \<noteq> CHR ''-'') (pj_uuid env) else messageID0);
          model = (if trimSpace (pt_publicModel turn) \<noteq> [] then trimSpace (pt_publicModel turn) else rr_Model (mr_Run managed))
      in \<lparr>cp_historyTurn = (rr_HistoryRequestKey (mr_Run managed) \<noteq> []), cp_model = model, cp_messageID = messageID,
          cp_responseFormat = pt_responseFormat turn, cp_started = False, cp_textOpen = False, cp_textIndex = 0,
          cp_thinkingOpen = False, cp_thinkingIndex = 0, cp_blockIndex = 0, cp_text = [], cp_thinking = [], cp_toolCalls = [],
          cp_blocks = [], cp_citations = [], cp_hostedStarted = [], cp_param = [], cp_claudeSSE = [],
          cp_facts = newUsageFacts (isMeteredTurn (mr_BillingRunID managed)), cp_semantic = False, cp_responsesSeq = 0\<rparr>)"

section \<open>Usage\<close>

definition num :: "int \<Rightarrow> json" where
  "num n = JNum (GoInt n)"

fun fieldJSON :: "field \<Rightarrow> json" where
  "fieldJSON (FBool b) = JBool b"
| "fieldJSON (FInt n) = num n"
| "fieldJSON (FStr s) = JStr s"

definition validCount :: "UsageObservation option \<Rightarrow> int option" where
  "validCount usage = (case usage of
     Some u \<Rightarrow> if oc_Present (uo_Output u) \<and> \<not> oc_Invalid (uo_Output u) \<and> oc_Value (uo_Output u) \<ge> 0
       then Some (oc_Value (uo_Output u)) else None
   | None \<Rightarrow> None)"

definition outputTokens :: "projectionEnv \<Rightarrow> claudeProjection \<Rightarrow> int" where
  "outputTokens env p = (let facts = cp_facts p in
     if \<not> uf_measuredEnabled facts then publicOutputTokens facts
     else case (if uf_freshTerminal facts then validCount (uf_turnEnded facts) else None) of
       Some n \<Rightarrow> n
     | None \<Rightarrow> (case pj_countTokens env (cp_model p) (uf_visibleOutput facts) of
         None \<Rightarrow> 0
       | Some counted \<Rightarrow> (case (if \<not> uf_freshTerminal facts then validCount (uf_turnEnded facts) else None) of
           Some prior \<Rightarrow> prior + counted | None \<Rightarrow> counted)))"

definition estimatedInputTokens :: "projectionEnv \<Rightarrow> int" where
  "estimatedInputTokens env = (case pj_countInput env of None \<Rightarrow> 0 | Some n \<Rightarrow> n)"

definition privateUsageFields :: "claudeProjection \<Rightarrow> object" where
  "privateUsageFields p =
     (let fs = map (\<lambda>(k, v). (k, fieldJSON v)) (privateDiagnosticFields (cp_facts p));
          fs1 = (if cp_historyTurn p then AList.update ''cursor_agent_v1_usage_pending'' (JBool False) fs
                 else if uf_measuredEnabled (cp_facts p) \<and> cp_toolCalls p \<noteq> []
                 then AList.update ''cursor_agent_v1_usage_pending'' (JBool True) fs else fs)
      in if uf_completedSearchObserved (cp_facts p)
         then AList.update ''cursor_agent_v1_citation_count'' (num (int (length (cp_citations p)))) fs1 else fs1)"

definition attachPrivateUsage :: "claudeProjection \<Rightarrow> object \<Rightarrow> object" where
  "attachPrivateUsage p usage = foldl (\<lambda>u (k, v). AList.update k v u) usage (privateUsageFields p)"

definition usagePayload :: "projectionEnv \<Rightarrow> claudeProjection \<Rightarrow> bool \<Rightarrow> object" where
  "usagePayload env p includeInput =
     (let u1 = [(''output_tokens'', num (outputTokens env p))];
          u2 = (if includeInput then AList.update ''input_tokens'' (num 0) u1 else u1);
          u3 = (case factsMeasuredTurn (cp_facts p) of
              Some m \<Rightarrow> AList.update ''cache_creation_input_tokens'' (num (mt_CacheWrite m))
                (AList.update ''cache_read_input_tokens'' (num (mt_CacheRead m)) (AList.update ''input_tokens'' (num (mt_Input m)) u2))
            | None \<Rightarrow> if uf_measuredEnabled (cp_facts p) then AList.update ''input_tokens'' (num (estimatedInputTokens env)) u2 else u2)
      in attachPrivateUsage p u3)"

text \<open>\<open>splitSSEJSONPayload\<close>: the line ends behind a payload and the field name in front of it.\<close>

definition lineEnd :: "char \<Rightarrow> bool" where
  "lineEnd c \<longleftrightarrow> c = CHR 0x0A \<or> c = CHR 0x0D"

definition splitSSEJSONPayload :: "string \<Rightarrow> string \<times> string \<times> string" where
  "splitSSEJSONPayload payload =
     (let suffix = rev (takeWhile lineEnd (rev payload)); core = rev (dropWhile lineEnd (rev payload)) in
      case stripPrefix ''data:'' core of
        Some r \<Rightarrow> (let rest = trimSpace r in (take (length core - length rest) core, rest, suffix))
      | None \<Rightarrow> ([], core, suffix))"

definition objectIn :: "json option \<Rightarrow> object option" where
  "objectIn v = (case v of Some (JObj o1) \<Rightarrow> Some o1 | Some JNull \<Rightarrow> Some [] | _ \<Rightarrow> None)"

text \<open>A translated payload \<open>null\<close>, on which the code would panic when it creates the usage, stays as it is.\<close>

definition attachPrivateUsageToPayload :: "projectionEnv \<Rightarrow> claudeProjection \<Rightarrow> bool \<Rightarrow> string \<Rightarrow> string" where
  "attachPrivateUsageToPayload env p createUsage payload =
     (if privateUsageFields p = [] \<or> payload = [] then payload
      else let (prefix, body, suffix) = splitSSEJSONPayload payload in
        case pj_unmarshal env body of
          Some (JObj root) \<Rightarrow>
            (case (case map_of root ''usage'' of Some (JObj u) \<Rightarrow> Some u | _ \<Rightarrow> if createUsage then Some [] else None) of
               None \<Rightarrow> payload
             | Some usage \<Rightarrow> (case pj_marshal env (JObj (AList.update ''usage'' (JObj (attachPrivateUsage p usage)) root)) of
                 Inl e \<Rightarrow> payload
               | Inr encoded \<Rightarrow> prefix @ encoded @ suffix))
        | _ \<Rightarrow> payload)"

section \<open>Writing to the stream\<close>

text \<open>What follows the first \<open>data:\<close> of a chunk.\<close>

fun afterData :: "string \<Rightarrow> string option" where
  "afterData [] = None"
| "afterData (c # s) = (case stripPrefix ''data:'' (c # s) of Some r \<Rightarrow> Some r | None \<Rightarrow> afterData s)"

definition sequenceOf :: "projectionEnv \<Rightarrow> string \<Rightarrow> int option" where
  "sequenceOf env chunk = (let data = (case afterData chunk of Some r \<Rightarrow> trimSpace r | None \<Rightarrow> chunk) in
     case objectIn (pj_unmarshal env data) of
       Some root \<Rightarrow> (case map_of root ''sequence_number'' of Some (JNum (GoFloat f)) \<Rightarrow> Some (pj_toInt env f) | _ \<Rightarrow> None)
     | None \<Rightarrow> None)"

definition observeSequence :: "projectionEnv \<Rightarrow> string list \<Rightarrow> claudeProjection \<Rightarrow> claudeProjection" where
  "observeSequence env chunks p = p\<lparr>cp_responsesSeq := foldl (\<lambda>n chunk.
     case sequenceOf env chunk of Some m \<Rightarrow> if m > n then m else n | None \<Rightarrow> n) (cp_responsesSeq p) chunks\<rparr>"

definition encodeEvent :: "projectionEnv \<Rightarrow> json \<Rightarrow> string" where
  "encodeEvent env event = (case pj_marshal env event of Inr data \<Rightarrow> data | Inl e \<Rightarrow> [])"

definition blankLineEnd :: string where
  "blankLineEnd = [CHR 0x0A, CHR 0x0A]"

definition project :: "projectionEnv \<Rightarrow> json \<Rightarrow> string list proj" where
  "project env event p =
     (let line = ''data: '' @ encodeEvent env event;
          p1 = p\<lparr>cp_claudeSSE := cp_claudeSSE p @ [event]\<rparr> in
      if cp_responseFormat p = FormatClaude then (Inr [line @ blankLineEnd], p1)
      else let (chunks, param) = pj_translate env (cp_responseFormat p) (cp_model p) line (cp_param p);
               chunks' = (if cp_responseFormat p = FormatOpenAI then map (attachPrivateUsageToPayload env p1 False) chunks else chunks)
           in (Inr chunks', observeSequence env chunks' (p1\<lparr>cp_param := param\<rparr>)))"

text \<open>The buffer \<open>claudeSSE\<close>, as bytes.\<close>

definition claudeSSE :: "projectionEnv \<Rightarrow> claudeProjection \<Rightarrow> string" where
  "claudeSSE env p = concat (map (\<lambda>event. ''data: '' @ encodeEvent env event @ blankLineEnd) (cp_claudeSSE p))"

text \<open>\<open>chunks = append(chunks, ...)\<close>\<close>

definition andThen :: "string list proj \<Rightarrow> string list proj \<Rightarrow> string list proj" where
  "andThen m k = bnd m (\<lambda>a. bnd k (\<lambda>b. ret (a @ b)))"

fun inTurn :: "string list proj list \<Rightarrow> string list proj" where
  "inTurn [] = ret []"
| "inTurn (m # ms) = andThen m (inTurn ms)"

definition projectAll :: "projectionEnv \<Rightarrow> json list \<Rightarrow> string list proj" where
  "projectAll env events = inTurn (map (project env) events)"

definition ev :: "string \<Rightarrow> object \<Rightarrow> json" where
  "ev kind members = JObj ((''type'', JStr kind) # members)"

definition blockStart :: "nat \<Rightarrow> object \<Rightarrow> json" where
  "blockStart i block = ev ''content_block_start'' [(''index'', num (int i)), (''content_block'', JObj block)]"

definition blockDelta :: "nat \<Rightarrow> object \<Rightarrow> json" where
  "blockDelta i delta = ev ''content_block_delta'' [(''index'', num (int i)), (''delta'', JObj delta)]"

definition blockStop :: "nat \<Rightarrow> json" where
  "blockStop i = ev ''content_block_stop'' [(''index'', num (int i))]"

definition messageStart :: "claudeProjection \<Rightarrow> json" where
  "messageStart p = ev ''message_start'' [(''message'', JObj [(''id'', JStr (cp_messageID p)), (''type'', JStr ''message''),
     (''role'', JStr ''assistant''), (''content'', JArr []), (''model'', JStr (cp_model p)), (''stop_reason'', JNull),
     (''stop_sequence'', JNull), (''usage'', JObj [(''input_tokens'', num 0), (''output_tokens'', num 0)])])]"

definition start :: "projectionEnv \<Rightarrow> string list proj" where
  "start env = bnd (gets cp_started) (\<lambda>started. if started then ret [] else
     bnd (modify (\<lambda>p. p\<lparr>cp_started := True\<rparr>)) (\<lambda>_. bnd (gets messageStart) (\<lambda>event. project env event)))"

definition nextBlock :: "nat proj" where
  "nextBlock = bnd (gets cp_blockIndex) (\<lambda>i. bnd (modify (\<lambda>p. p\<lparr>cp_blockIndex := Suc i\<rparr>)) (\<lambda>_. ret i))"

definition textBlockOf :: "string \<Rightarrow> json list \<Rightarrow> json" where
  "textBlockOf t citations = JObj ([(''type'', JStr ''text''), (''text'', JStr t)]
     @ (if citations \<noteq> [] then [(''citations'', JArr citations)] else []))"

definition closeText :: "projectionEnv \<Rightarrow> string list proj" where
  "closeText env = bnd (gets cp_textOpen) (\<lambda>opened. if \<not> opened then ret [] else
     bnd (modify (\<lambda>p. p\<lparr>cp_textOpen := False, cp_text := [],
       cp_blocks := cp_blocks p @ [textBlockOf (cp_text p) (cp_citations p)]\<rparr>)) (\<lambda>_.
     bnd (gets cp_textIndex) (\<lambda>i. project env (blockStop i))))"

definition closeThinkingBlock :: "projectionEnv \<Rightarrow> string list proj" where
  "closeThinkingBlock env = bnd (gets cp_thinkingOpen) (\<lambda>opened. if \<not> opened then ret [] else
     bnd (modify (\<lambda>p. p\<lparr>cp_thinkingOpen := False, cp_thinking := [],
       cp_blocks := cp_blocks p @ [JObj [(''type'', JStr ''thinking''), (''thinking'', JStr (cp_thinking p))]]\<rparr>)) (\<lambda>_.
     bnd (gets cp_thinkingIndex) (\<lambda>i. project env (blockStop i))))"

definition projectCitations :: "projectionEnv \<Rightarrow> nat \<Rightarrow> string list proj" where
  "projectCitations env i = bnd (gets cp_citations) (\<lambda>citations.
     projectAll env (map (\<lambda>c. blockDelta i [(''type'', JStr ''citations_delta''), (''citation'', c)]) citations))"

definition finish :: "projectionEnv \<Rightarrow> string \<Rightarrow> string list proj" where
  "finish env reason = bnd (gets (\<lambda>p. ev ''message_delta'' [(''delta'', JObj [(''stop_reason'', JStr reason), (''stop_sequence'', JNull)]),
       (''usage'', JObj (usagePayload env p False))])) (\<lambda>event.
     projectAll env [event, ev ''message_stop'' []])"

text \<open>A whole block: start, deltas and stop at a new index.\<close>

definition wholeBlock :: "projectionEnv \<Rightarrow> json \<Rightarrow> object \<Rightarrow> object list \<Rightarrow> string list proj" where
  "wholeBlock env block first deltas = bnd nextBlock (\<lambda>i.
     bnd (modify (\<lambda>p. p\<lparr>cp_blocks := cp_blocks p @ [block]\<rparr>)) (\<lambda>_.
     projectAll env (blockStart i first # map (blockDelta i) deltas @ [blockStop i])))"

section \<open>Hosted searches\<close>

definition hostedSearchToolID :: "HostedSearch \<Rightarrow> string" where
  "hostedSearchToolID search = (let i = (if trimSpace (hs_CallID search) = [] then ''search'' else trimSpace (hs_CallID search)) in
     if hasPrefix i ''srvtoolu_'' \<or> hasPrefix i ''ws_'' then i else ''srvtoolu_'' @ i)"

definition isFetch :: "HostedSearch \<Rightarrow> bool" where
  "isFetch search \<longleftrightarrow> hs_Kind search = HostedSearchKindWebFetch \<or> hs_Kind search = HostedSearchKindExaFetch"

definition hostedSearchToolName :: "HostedSearch \<Rightarrow> string" where
  "hostedSearchToolName search = (if isFetch search then ''web_fetch'' else ''web_search'')"

definition fetchURL :: "HostedSearch \<Rightarrow> string" where
  "fetchURL search = (if hs_URL search = [] then hs_Query search else hs_URL search)"

definition hostedSearchInput :: "HostedSearch \<Rightarrow> json" where
  "hostedSearchInput search = (if isFetch search then JObj [(''url'', JStr (fetchURL search))]
     else JObj [(''query'', JStr (hs_Query search))])"

definition hostedSearchResult :: "linkEnv \<Rightarrow> HostedSearch \<Rightarrow> string \<times> json" where
  "hostedSearchResult env search =
     (if isFetch search then (''web_fetch_tool_result'',
        if hs_Error search \<noteq> []
        then JObj [(''type'', JStr ''web_fetch_tool_result_error''), (''error_code'', JStr ''unavailable''), (''error_message'', JStr (hs_Error search))]
        else JObj [(''type'', JStr ''web_fetch_result''), (''url'', JStr (fetchURL search)),
          (''content'', JObj [(''type'', JStr ''document''),
             (''source'', JObj [(''type'', JStr ''text''), (''media_type'', JStr ''text/plain''), (''data'', JStr (hs_Content search))])])])
      else (''web_search_tool_result'',
        if hs_Error search \<noteq> []
        then JObj [(''type'', JStr ''web_search_tool_result_error''), (''error_code'', JStr ''unavailable''), (''error_message'', JStr (hs_Error search))]
        else let usable = usableHostedSearchReferences env search in
          if hs_References search \<noteq> [] \<and> usable = []
          then JObj [(''type'', JStr ''web_search_tool_result_error''), (''error_code'', JStr ''unavailable'')]
          else JArr (map (\<lambda>r. JObj [(''type'', JStr ''web_search_result''), (''title'', JStr (hr_Title r)), (''url'', JStr (hr_URL r)),
            (''page_age'', JNull)]) usable)))"

definition hostedSearchCitations :: "linkEnv \<Rightarrow> HostedSearch \<Rightarrow> json list" where
  "hostedSearchCitations env search = map (\<lambda>r. JObj [(''type'', JStr ''web_search_result_location''), (''url'', JStr (hr_URL r)),
     (''title'', JStr (hr_Title r)), (''cited_text'', JStr (hr_Chunk r))]) (usableHostedSearchReferences env search)"

definition projectHostedSearchStarted :: "projectionEnv \<Rightarrow> HostedSearch option \<Rightarrow> string list proj" where
  "projectHostedSearchStarted env s = (case s of None \<Rightarrow> ret [] | Some search \<Rightarrow>
     (let i = hostedSearchToolID search; input = hostedSearchInput search in
      bnd (gets cp_hostedStarted) (\<lambda>started. if i \<in> set started then ret [] else
        bnd (modify (\<lambda>p. p\<lparr>cp_hostedStarted := i # cp_hostedStarted p\<rparr>)) (\<lambda>_.
        inTurn [start env, closeThinkingBlock env, closeText env,
          wholeBlock env (JObj [(''type'', JStr ''server_tool_use''), (''id'', JStr i), (''name'', JStr (hostedSearchToolName search)), (''input'', input)])
            [(''type'', JStr ''server_tool_use''), (''id'', JStr i), (''name'', JStr (hostedSearchToolName search)), (''input'', JObj [])]
            [[(''type'', JStr ''input_json_delta''), (''partial_json'', JStr (encodeEvent env input))]]]))))"

definition projectHostedSearchCompleted :: "projectionEnv \<Rightarrow> HostedSearch option \<Rightarrow> string list proj" where
  "projectHostedSearchCompleted env s = (case s of None \<Rightarrow> ret [] | Some search \<Rightarrow>
     (let (resultType, content) = hostedSearchResult (pj_links env) search;
          block = [(''type'', JStr resultType), (''tool_use_id'', JStr (hostedSearchToolID search)), (''content'', content)] in
      inTurn [projectHostedSearchStarted env s,
        bnd (modify (\<lambda>p. p\<lparr>cp_citations := cp_citations p @ hostedSearchCitations (pj_links env) search\<rparr>)) (\<lambda>_.
          wholeBlock env (JObj block) block [])]))"

section \<open>The end of a turn\<close>

definition callInput :: "projectionEnv \<Rightarrow> ToolCall \<Rightarrow> json res" where
  "callInput env call = (if trimSpace (tc_Arguments call) = [] then Inr (JObj [])
     else case pj_unmarshal env (tc_Arguments call) of
       Some v \<Rightarrow> Inr v
     | None \<Rightarrow> Inl (RequestError 502 ''Cursor Agent v1 returned invalid tool arguments''))"

definition projectCall :: "projectionEnv \<Rightarrow> ToolCall \<Rightarrow> string list proj" where
  "projectCall env call = bnd (lift (callInput env call)) (\<lambda>input.
     wholeBlock env (JObj [(''type'', JStr ''tool_use''), (''id'', JStr (tc_ToolCallID call)), (''name'', JStr (tc_Name call)), (''input'', input)])
       [(''type'', JStr ''tool_use''), (''id'', JStr (tc_ToolCallID call)), (''name'', JStr (tc_Name call)), (''input'', JObj [])]
       [[(''type'', JStr ''input_json_delta''), (''partial_json'', JStr (encodeEvent env input))]])"

text \<open>The chunks, whether the answer is complete and whether the session is parked.\<close>

type_synonym projected = "string list \<times> bool \<times> bool"

definition toolHandoff :: "projectionEnv \<Rightarrow> bool \<Rightarrow> projected proj" where
  "toolHandoff env park = bnd (gets cp_toolCalls) (\<lambda>calls. if calls = []
     then raise (RequestError 502 ''Cursor Agent v1 turnEnded carried no pending tool batch'')
     else bnd (inTurn ([start env, closeThinkingBlock env, closeText env] @ map (projectCall env) calls @ [finish env ''tool_use'']))
       (\<lambda>chunks. ret (chunks, True, park)))"

definition chatAnnotations :: "projectionEnv \<Rightarrow> claudeProjection \<Rightarrow> json list" where
  "chatAnnotations env p = concat (map (\<lambda>citation. case citation of
     JObj block \<Rightarrow> (let url = stringValue (map_of block ''url'') in
       if usableHTTPSourceURL (pj_links env) url
       then [JObj [(''type'', JStr ''url_citation''), (''url_citation'', JObj [(''url'', JStr url), (''title'', JStr (stringValue (map_of block ''title''))),
              (''start_index'', num 0), (''end_index'', num 0)])]] else [])
   | _ \<Rightarrow> []) (cp_citations p))"

definition chatAnnotationChunks :: "projectionEnv \<Rightarrow> claudeProjection \<Rightarrow> string list" where
  "chatAnnotationChunks env p =
     (if cp_responseFormat p \<noteq> FormatOpenAI \<or> chatAnnotations env p = [] then []
      else case pj_marshal env (JObj [(''id'', JStr (cp_messageID p)), (''object'', JStr ''chat.completion.chunk''), (''model'', JStr (cp_model p)),
          (''choices'', JArr [JObj [(''index'', num 0), (''delta'', JObj [(''annotations'', JArr (chatAnnotations env p))]), (''finish_reason'', JNull)]])]) of
        Inl e \<Rightarrow> [] | Inr payload \<Rightarrow> [''data: '' @ payload @ blankLineEnd])"

section \<open>Events\<close>

definition goOn :: "string list proj \<Rightarrow> projected proj" where
  "goOn m = bnd m (\<lambda>chunks. ret (chunks, False, False))"

definition meaningful :: "unit proj" where
  "meaningful = modify (\<lambda>p. p\<lparr>cp_semantic := True\<rparr>)"

definition handleText :: "projectionEnv \<Rightarrow> string \<Rightarrow> string list proj" where
  "handleText env t =
     bnd (modify (\<lambda>p. p\<lparr>cp_semantic := True, cp_text := cp_text p @ t\<rparr>)) (\<lambda>_.
     inTurn [start env, closeThinkingBlock env,
       bnd (gets cp_textOpen) (\<lambda>opened. if opened then ret [] else
         bnd nextBlock (\<lambda>i.
         bnd (modify (\<lambda>p. p\<lparr>cp_textIndex := i\<rparr>)) (\<lambda>_.
         inTurn [project env (blockStart i [(''type'', JStr ''text''), (''text'', JStr [])]),
           bnd (modify (\<lambda>p. p\<lparr>cp_textOpen := True\<rparr>)) (\<lambda>_. ret []),
           projectCitations env i]))),
       bnd (gets cp_textIndex) (\<lambda>i. project env (blockDelta i [(''type'', JStr ''text_delta''), (''text'', JStr t)]))])"

definition handleThinking :: "projectionEnv \<Rightarrow> string \<Rightarrow> string list proj" where
  "handleThinking env t = (if t = [] then ret [] else
     bnd (modify (\<lambda>p. p\<lparr>cp_thinking := cp_thinking p @ t\<rparr>)) (\<lambda>_.
     bnd (gets cp_responseFormat) (\<lambda>format. if format = FormatClaude then ret [] else
       bnd meaningful (\<lambda>_.
       inTurn [start env, closeText env,
         bnd (gets cp_thinkingOpen) (\<lambda>opened. if opened then ret [] else
           bnd nextBlock (\<lambda>i.
           bnd (modify (\<lambda>p. p\<lparr>cp_thinkingIndex := i\<rparr>)) (\<lambda>_.
           inTurn [project env (blockStart i [(''type'', JStr ''thinking''), (''thinking'', JStr [])]),
             bnd (modify (\<lambda>p. p\<lparr>cp_thinkingOpen := True\<rparr>)) (\<lambda>_. ret [])]))),
         bnd (gets cp_thinkingIndex) (\<lambda>i. project env (blockDelta i [(''type'', JStr ''thinking_delta''), (''thinking'', JStr t)]))]))))"

definition emitSignedThinking :: "projectionEnv \<Rightarrow> string \<Rightarrow> string list proj" where
  "emitSignedThinking env signature = bnd (gets cp_thinking) (\<lambda>thinking.
     bnd (modify (\<lambda>p. p\<lparr>cp_thinking := []\<rparr>)) (\<lambda>_.
     if trimSpace signature = [] \<or> trimSpace thinking = [] then ret []
     else bnd meaningful (\<lambda>_.
       inTurn [start env, closeText env,
         wholeBlock env (JObj [(''type'', JStr ''thinking''), (''thinking'', JStr thinking), (''signature'', JStr signature)])
           [(''type'', JStr ''thinking''), (''thinking'', JStr []), (''signature'', JStr [])]
           [[(''type'', JStr ''thinking_delta''), (''thinking'', JStr thinking)], [(''type'', JStr ''signature_delta''), (''signature'', JStr signature)]]])))"

definition handleDone :: "projectionEnv \<Rightarrow> projected proj" where
  "handleDone env = bnd (gets (\<lambda>p. cp_historyTurn p \<and> cp_toolCalls p \<noteq> [])) (\<lambda>handoff.
     if handoff then toolHandoff env False
     else bnd (inTurn [start env, closeThinkingBlock env, closeText env,
         bnd (gets (chatAnnotationChunks env)) ret, finish env ''end_turn'']) (\<lambda>chunks. ret (chunks, True, False)))"

text \<open>\<open>handle\<close>, for every format but the Responses API.\<close>

definition projectEvent :: "projectionEnv \<Rightarrow> Event \<Rightarrow> projected proj" where
  "projectEvent env event =
     bnd (modify (\<lambda>p. p\<lparr>cp_facts := observe (cp_facts p) event\<rparr>)) (\<lambda>_.
     case ev_Type event of
       EventHostedSearchStarted \<Rightarrow> bnd meaningful (\<lambda>_. goOn (projectHostedSearchStarted env (ev_HostedSearch event)))
     | EventHostedSearchCompleted \<Rightarrow> bnd meaningful (\<lambda>_. goOn (projectHostedSearchCompleted env (ev_HostedSearch event)))
     | EventToolCall \<Rightarrow> (case ev_ToolCall event of None \<Rightarrow> ret ([], False, False)
         | Some call \<Rightarrow> bnd (modify (\<lambda>p. p\<lparr>cp_semantic := True, cp_toolCalls := cp_toolCalls p @ [call]\<rparr>)) (\<lambda>_. ret ([], False, False)))
     | EventText \<Rightarrow> goOn (handleText env (ev_Text event))
     | EventThinking \<Rightarrow> goOn (handleThinking env (ev_Text event))
     | EventThinkingCompleted \<Rightarrow> bnd (gets cp_responseFormat) (\<lambda>format.
         goOn (if format = FormatClaude then emitSignedThinking env (ev_Signature event) else closeThinkingBlock env))
     | EventTurnEnded \<Rightarrow> toolHandoff env True
     | EventDone \<Rightarrow> handleDone env
     | _ \<Rightarrow> ret ([], False, False))"

section \<open>The answer that is not streamed\<close>

definition nonStreamMessage :: "projectionEnv \<Rightarrow> claudeProjection \<Rightarrow> json" where
  "nonStreamMessage env p = JObj [(''id'', JStr (cp_messageID p)), (''type'', JStr ''message''), (''role'', JStr ''assistant''),
     (''content'', JArr (cp_blocks p)), (''model'', JStr (cp_model p)),
     (''stop_reason'', JStr (if cp_toolCalls p \<noteq> [] then ''tool_use'' else ''end_turn'')), (''stop_sequence'', JNull),
     (''usage'', JObj (usagePayload env p True))]"

definition attachChatAnnotations :: "projectionEnv \<Rightarrow> claudeProjection \<Rightarrow> string \<Rightarrow> string res" where
  "attachChatAnnotations env p payload =
     (let annotations = chatAnnotations env p in
      if cp_responseFormat p \<noteq> FormatOpenAI \<or> annotations = [] \<or> payload = [] then Inr payload
      else case objectIn (pj_unmarshal env payload) of
        Some root \<Rightarrow> (case map_of root ''choices'' of
            Some (JArr (JObj choice # choices)) \<Rightarrow> (case map_of choice ''message'' of
                Some (JObj message) \<Rightarrow> pj_marshal env (JObj (AList.update ''choices''
                  (JArr (JObj (AList.update ''message'' (JObj (AList.update ''annotations'' (JArr annotations) message)) choice) # choices)) root))
              | _ \<Rightarrow> Inr payload)
          | _ \<Rightarrow> Inr payload)
      | None \<Rightarrow> Inr payload)"

text \<open>\<open>nonStream\<close>, for every format but the Responses API.\<close>

definition nonStream :: "projectionEnv \<Rightarrow> claudeProjection \<Rightarrow> string res" where
  "nonStream env p = (case pj_marshal env (nonStreamMessage env p) of
     Inl e \<Rightarrow> Inl e
   | Inr body \<Rightarrow>
       if cp_responseFormat p = FormatClaude then Inr body
       else case attachChatAnnotations env p
           (pj_translateNonStream env (cp_responseFormat p) (cp_model p) (claudeSSE env p) (cp_param p)) of
         Inl e \<Rightarrow> Inl e
       | Inr annotated \<Rightarrow> Inr (attachPrivateUsageToPayload env p True annotated))"

end
