(* ===== verification/Assembly.thy ===== *)
theory Assembly
  imports Projection
begin

text \<open>
  What a client reads from the Claude stream of a projection: an automaton over the events that assembles the content
  blocks from their deltas and refuses every event out of order, and the proof that each event of a run keeps the
  stream readable, with exactly the blocks of the answer that is not streamed.
\<close>

section \<open>A client of the stream\<close>

datatype client =
    Unstarted
  | Reading "json list"
  | InBlock nat object "json list"
  | Closing "json list"
  | Finished "json list"

definition appendTo :: "string \<Rightarrow> object \<Rightarrow> object \<Rightarrow> object option" where
  "appendTo key delta block = (case (map_of delta key, map_of block key) of
     (Some (JStr s), Some (JStr t)) \<Rightarrow> Some (AList.update key (JStr (t @ s)) block) | _ \<Rightarrow> None)"

definition applyDelta :: "object \<Rightarrow> object \<Rightarrow> object option" where
  "applyDelta delta block =
     (let kind = map_of delta ''type'' in
      if kind = Some (JStr ''text_delta'') then appendTo ''text'' delta block
      else if kind = Some (JStr ''thinking_delta'') then appendTo ''thinking'' delta block
      else if kind = Some (JStr ''signature_delta'') then appendTo ''signature'' delta block
      else if kind = Some (JStr ''input_json_delta'') then
        (case (map_of delta ''partial_json'', map_of block ''input'') of
           (Some (JStr s), Some (JObj [])) \<Rightarrow> Some (AList.update ''input'' (JStr s) block)
         | (Some (JStr s), Some (JStr t)) \<Rightarrow> Some (AList.update ''input'' (JStr (t @ s)) block)
         | _ \<Rightarrow> None)
      else if kind = Some (JStr ''citations_delta'') then
        (case (map_of delta ''citation'', map_of block ''citations'') of
           (Some c, None) \<Rightarrow> Some (AList.update ''citations'' (JArr [c]) block)
         | (Some c, Some (JArr cs)) \<Rightarrow> Some (AList.update ''citations'' (JArr (cs @ [c])) block)
         | _ \<Rightarrow> None)
      else None)"

definition readEvent :: "json \<Rightarrow> client \<Rightarrow> client option" where
  "readEvent event c = (case event of
     JObj m \<Rightarrow> (let kind = map_of m ''type'' in
       if kind = Some (JStr ''message_start'') then (case c of Unstarted \<Rightarrow> Some (Reading []) | _ \<Rightarrow> None)
       else if kind = Some (JStr ''content_block_start'') then
         (case (c, map_of m ''content_block'') of
            (Reading bs, Some (JObj block)) \<Rightarrow>
              if map_of m ''index'' = Some (num (int (length bs))) then Some (InBlock (length bs) block bs) else None
          | _ \<Rightarrow> None)
       else if kind = Some (JStr ''content_block_delta'') then
         (case (c, map_of m ''delta'') of
            (InBlock i block bs, Some (JObj delta)) \<Rightarrow>
              if map_of m ''index'' = Some (num (int i)) then map_option (\<lambda>b. InBlock i b bs) (applyDelta delta block) else None
          | _ \<Rightarrow> None)
       else if kind = Some (JStr ''content_block_stop'') then
         (case c of InBlock i block bs \<Rightarrow>
              if map_of m ''index'' = Some (num (int i)) then Some (Reading (bs @ [JObj block])) else None
          | _ \<Rightarrow> None)
       else if kind = Some (JStr ''message_delta'') then (case c of Reading bs \<Rightarrow> Some (Closing bs) | _ \<Rightarrow> None)
       else if kind = Some (JStr ''message_stop'') then (case c of Closing bs \<Rightarrow> Some (Finished bs) | _ \<Rightarrow> None)
       else None)
   | _ \<Rightarrow> None)"

fun reads :: "json list \<Rightarrow> client \<Rightarrow> client option" where
  "reads [] c = Some c"
| "reads (e # es) c = Option.bind (readEvent e c) (reads es)"

lemma reads_append [simp]: "reads (es @ fs) c = Option.bind (reads es c) (reads fs)"
  by (induction es arbitrary: c) (auto split: bind_splits)

lemma num_inject [simp]: "num a = num b \<longleftrightarrow> a = b"
  by (simp add: num_def)

lemmas event_defs = ev_def blockStart_def blockDelta_def blockStop_def messageStart_def

lemma read_messageStart [simp]: "readEvent (messageStart p) Unstarted = Some (Reading [])"
  by (simp add: event_defs readEvent_def)

lemma read_blockStart [simp]: "i = length bs \<Longrightarrow> readEvent (blockStart i block) (Reading bs) = Some (InBlock i block bs)"
  by (simp add: event_defs readEvent_def)

lemma read_blockDelta [simp]:
  "readEvent (blockDelta i delta) (InBlock i block bs) = map_option (\<lambda>b. InBlock i b bs) (applyDelta delta block)"
  by (simp add: event_defs readEvent_def)

lemma read_blockStop [simp]: "readEvent (blockStop i) (InBlock i block bs) = Some (Reading (bs @ [JObj block]))"
  by (simp add: event_defs readEvent_def)

lemma read_message_delta [simp]: "readEvent (ev ''message_delta'' m) (Reading bs) = Some (Closing bs)"
  by (simp add: event_defs readEvent_def)

lemma read_message_stop [simp]: "readEvent (ev ''message_stop'' m) (Closing bs) = Some (Finished bs)"
  by (simp add: event_defs readEvent_def)

text \<open>A finished block as its readers see it: the input of a tool is the text it was sent as.\<close>

definition asSent :: "projectionEnv \<Rightarrow> json \<Rightarrow> json" where
  "asSent env block = (case block of
     JObj m \<Rightarrow> (case map_of m ''input'' of Some v \<Rightarrow> JObj (AList.update ''input'' (JStr (encodeEvent env v)) m) | None \<Rightarrow> JObj m)
   | _ \<Rightarrow> block)"

definition clientOf :: "projectionEnv \<Rightarrow> claudeProjection \<Rightarrow> client" where
  "clientOf env p = (let bs = map (asSent env) (cp_blocks p) in
     if \<not> cp_started p then Unstarted
     else if cp_textOpen p then InBlock (cp_textIndex p) ([(''type'', JStr ''text''), (''text'', JStr (cp_text p))]
       @ (if cp_citations p \<noteq> [] then [(''citations'', JArr (cp_citations p))] else [])) bs
     else if cp_thinkingOpen p then InBlock (cp_thinkingIndex p) [(''type'', JStr ''thinking''), (''thinking'', JStr (cp_thinking p))] bs
     else Reading bs)"

definition shape :: "claudeProjection \<Rightarrow> bool" where
  "shape p \<longleftrightarrow> \<not> (cp_textOpen p \<and> cp_thinkingOpen p)
     \<and> (\<not> cp_started p \<longrightarrow> \<not> cp_textOpen p \<and> \<not> cp_thinkingOpen p \<and> cp_blocks p = [])
     \<and> (cp_textOpen p \<longrightarrow> cp_textIndex p = length (cp_blocks p))
     \<and> (cp_thinkingOpen p \<longrightarrow> cp_thinkingIndex p = length (cp_blocks p))
     \<and> cp_blockIndex p = length (cp_blocks p) + (if cp_textOpen p \<or> cp_thinkingOpen p then 1 else 0)
     \<and> (\<not> cp_textOpen p \<longrightarrow> cp_text p = [])
     \<and> (cp_responseFormat p = FormatClaude \<longrightarrow> \<not> cp_thinkingOpen p)
     \<and> (cp_responseFormat p \<noteq> FormatClaude \<and> \<not> cp_thinkingOpen p \<longrightarrow> cp_thinking p = [])"

definition followed :: "projectionEnv \<Rightarrow> claudeProjection \<Rightarrow> bool" where
  "followed env p \<longleftrightarrow> shape p \<and> reads (cp_claudeSSE p) Unstarted = Some (clientOf env p)"

section \<open>Rules\<close>

lemma sat_projectI:
  assumes "\<And>a x y. (cp_responseFormat p = FormatClaude \<Longrightarrow> a = [''data: '' @ encodeEvent env e @ blankLineEnd]) \<Longrightarrow>
    Q (Inr a) (p\<lparr>cp_claudeSSE := cp_claudeSSE p @ [e], cp_param := x, cp_responsesSeq := y\<rparr>)"
  shows "sat (project env e) Q p"
proof (cases "cp_responseFormat p = FormatClaude")
  case True
  then show ?thesis
    using assms [of "[''data: '' @ encodeEvent env e @ blankLineEnd]" "cp_responsesSeq p" "cp_param p"]
    by (simp add: sat_def project_def)
next
  case False
  then show ?thesis
    by (simp add: sat_def project_def Let_def observeSequence_def case_prod_beta) (intro conjI impI; rule assms; simp)
qed

lemma sat_andThen [wp]:
  "sat (andThen m k) Q p = sat m (\<lambda>r p'. case r of Inl e \<Rightarrow> Q (Inl e) p'
     | Inr a \<Rightarrow> sat k (\<lambda>r p''. case r of Inl e \<Rightarrow> Q (Inl e) p'' | Inr b \<Rightarrow> Q (Inr (a @ b)) p'') p') p"
  by (simp add: andThen_def wp cong: sum.case_cong)

lemma sat_projectAllI:
  assumes "\<And>a x y. (cp_responseFormat p = FormatClaude \<Longrightarrow> a = map (\<lambda>e. ''data: '' @ encodeEvent env e @ blankLineEnd) es) \<Longrightarrow>
    Q (Inr a) (p\<lparr>cp_claudeSSE := cp_claudeSSE p @ es, cp_param := x, cp_responsesSeq := y\<rparr>)"
  shows "sat (projectAll env es) Q p"
  using assms unfolding projectAll_def
proof (induction es arbitrary: p Q)
  case Nil
  from Nil.prems [of "[]" "cp_responsesSeq p" "cp_param p"] show ?case by (simp add: wp)
next
  case (Cons e es)
  show ?case
    unfolding list.map inTurn.simps wp
  proof (intro sat_projectI, unfold sum.case, rule Cons.IH, unfold sum.case)
    fix a x y b u v
    assume "cp_responseFormat p = FormatClaude \<Longrightarrow> a = [''data: '' @ encodeEvent env e @ blankLineEnd]"
      and "cp_responseFormat (p\<lparr>cp_claudeSSE := cp_claudeSSE p @ [e], cp_param := x, cp_responsesSeq := y\<rparr>) = FormatClaude \<Longrightarrow>
        b = map (\<lambda>e. ''data: '' @ encodeEvent env e @ blankLineEnd) es"
    then show "Q (Inr (a @ b)) (p\<lparr>cp_claudeSSE := cp_claudeSSE p @ [e], cp_param := x, cp_responsesSeq := y\<rparr>
        \<lparr>cp_claudeSSE := cp_claudeSSE (p\<lparr>cp_claudeSSE := cp_claudeSSE p @ [e], cp_param := x, cp_responsesSeq := y\<rparr>) @ es,
         cp_param := u, cp_responsesSeq := v\<rparr>)"
      using Cons.prems [of "a @ b" v u] by simp
  qed
qed


text \<open>What a handler leaves: a stream its reader follows, or, after an error, one it could follow so far.\<close>

definition follows :: "projectionEnv \<Rightarrow> bool \<Rightarrow> string list \<Rightarrow> 'a res \<Rightarrow> claudeProjection \<Rightarrow> bool" where
  "follows env opened searches r p \<longleftrightarrow> (case r of Inl _ \<Rightarrow> reads (cp_claudeSSE p) Unstarted \<noteq> None
     | Inr _ \<Rightarrow> followed env p \<and> cp_hostedStarted p = searches \<and> (searches \<noteq> [] \<longrightarrow> cp_started p)
         \<and> (\<not> opened \<longrightarrow> \<not> cp_textOpen p \<and> \<not> cp_thinkingOpen p))"

lemma applyDelta_text [simp]:
  "applyDelta [(''type'', JStr ''text_delta''), (''text'', JStr s)] block = appendTo ''text'' [(''type'', JStr ''text_delta''), (''text'', JStr s)] block"
  by (simp add: applyDelta_def)

lemma update_last [simp]: "map_of m k = None \<Longrightarrow> AList.update k v (m @ [(k, w)]) = m @ [(k, v)]"
  by (induction m) auto

lemma update_new: "map_of m k = None \<Longrightarrow> AList.update k v m = m @ [(k, v)]"
  by (induction m) auto

lemma follows_Inr: "follows env opened searches (Inr a) p \<longleftrightarrow> followed env p \<and> cp_hostedStarted p = searches
    \<and> (searches \<noteq> [] \<longrightarrow> cp_started p) \<and> (\<not> opened \<longrightarrow> \<not> cp_textOpen p \<and> \<not> cp_thinkingOpen p)"
  by (simp add: follows_def)

lemma followed_frame [simp]:
  "followed env (p\<lparr>cp_hostedStarted := h\<rparr>) = followed env p"
  "followed env (p\<lparr>cp_toolCalls := calls\<rparr>) = followed env p"
  "followed env (p\<lparr>cp_semantic := b\<rparr>) = followed env p"
  "followed env (p\<lparr>cp_facts := facts\<rparr>) = followed env p"
  "\<not> cp_textOpen p \<Longrightarrow> followed env (p\<lparr>cp_citations := cs\<rparr>) = followed env p"
  by (simp_all add: followed_def shape_def clientOf_def Let_def)

lemma citations_delivered:
  assumes "map_of block ''citations'' = None"
  shows "reads (map (\<lambda>c. blockDelta i [(''type'', JStr ''citations_delta''), (''citation'', c)]) cs) (InBlock i block bs)
    = Some (InBlock i (block @ (if cs = [] then [] else [(''citations'', JArr cs)])) bs)"
proof -
  have more: "reads (map (\<lambda>c. blockDelta i [(''type'', JStr ''citations_delta''), (''citation'', c)]) cs)
      (InBlock i (block @ [(''citations'', JArr ds)]) bs) = Some (InBlock i (block @ [(''citations'', JArr (ds @ cs))]) bs)" for ds cs
  proof (induction cs arbitrary: ds)
    case (Cons c cs)
    then show ?case using assms by (simp add: applyDelta_def map_add_def)
  qed simp
  show ?thesis
  proof (cases cs)
    case (Cons c cs')
    with assms more [where ds = "[c]"] show ?thesis by (simp add: applyDelta_def update_new)
  qed simp
qed


lemma sat_startI:
  assumes "\<And>a x y. Q (Inr a) (if cp_started p then p
    else p\<lparr>cp_started := True, cp_claudeSSE := cp_claudeSSE p @ [messageStart p], cp_param := x, cp_responsesSeq := y\<rparr>)"
  shows "sat (start env) Q p"
proof (cases "cp_started p")
  case True
  with assms [of "[]" "cp_responsesSeq p" "cp_param p"] show ?thesis by (simp add: start_def wp)
next
  case False
  have m: "messageStart (p\<lparr>cp_started := True\<rparr>) = messageStart p"
    by (simp add: messageStart_def)
  show ?thesis
    unfolding start_def wp using False by (simp add: wp m) (rule sat_projectI, use assms in simp)
qed

lemma sat_closeThinkingI:
  assumes "\<And>a x y. Q (Inr a) (if cp_thinkingOpen p
    then p\<lparr>cp_thinkingOpen := False, cp_thinking := [], cp_blocks := cp_blocks p @ [JObj [(''type'', JStr ''thinking''), (''thinking'', JStr (cp_thinking p))]],
      cp_claudeSSE := cp_claudeSSE p @ [blockStop (cp_thinkingIndex p)], cp_param := x, cp_responsesSeq := y\<rparr>
    else p)"
  shows "sat (closeThinkingBlock env) Q p"
  using assms [of "[]"] assms unfolding closeThinkingBlock_def wp
  by (cases "cp_thinkingOpen p") (auto simp: wp intro: sat_projectI)

lemma sat_closeTextI:
  assumes "\<And>a x y. Q (Inr a) (if cp_textOpen p
    then p\<lparr>cp_textOpen := False, cp_text := [], cp_blocks := cp_blocks p @ [textBlockOf (cp_text p) (cp_citations p)],
      cp_claudeSSE := cp_claudeSSE p @ [blockStop (cp_textIndex p)], cp_param := x, cp_responsesSeq := y\<rparr>
    else p)"
  shows "sat (closeText env) Q p"
  using assms [of "[]"] assms unfolding closeText_def wp
  by (cases "cp_textOpen p") (auto simp: wp intro: sat_projectI)




lemma asSent_text [simp]: "asSent env (textBlockOf t cs) = textBlockOf t cs"
  by (simp add: asSent_def textBlockOf_def)

lemma asSent_thinking [simp]: "asSent env (JObj [(''type'', JStr ''thinking''), (''thinking'', v)]) = JObj [(''type'', JStr ''thinking''), (''thinking'', v)]"
  by (simp add: asSent_def)

lemma handleText_follows:
  assumes "follows env opened searches (Inr ()) p"
  shows "sat (handleText env t) (follows env True searches) p"
  using assms unfolding handleText_def inTurn.simps wp sum.case
  apply -
  apply (rule sat_startI, unfold sum.case)
  apply (rule sat_closeThinkingI, unfold sum.case)
  by (cases "cp_started p"; cases "cp_textOpen p"; cases "cp_thinkingOpen p";
     simp add: follows_Inr followed_def shape_def wp nextBlock_def projectCitations_def;
     ((rule sat_projectI sat_projectAllI | simp add: wp)+,
      simp add: follows_def followed_def shape_def clientOf_def citations_delivered appendTo_def Let_def)?)
  

lemma handleThinking_follows:
  assumes "follows env opened searches (Inr ()) p"
  shows "sat (handleThinking env t) (follows env True searches) p"
proof (cases "t = [] \<or> cp_responseFormat p = FormatClaude")
  case True
  with assms show ?thesis
    by (auto simp: handleThinking_def wp follows_def followed_def shape_def clientOf_def Let_def)
next
  case False
  then show ?thesis
    using assms unfolding handleThinking_def inTurn.simps wp sum.case
    apply (simp add: wp meaningful_def)
    apply (rule sat_startI, unfold sum.case wp)
    apply (rule sat_closeTextI, unfold sum.case)
    by (cases "cp_started p"; cases "cp_textOpen p"; cases "cp_thinkingOpen p";
       simp add: follows_Inr followed_def shape_def wp nextBlock_def;
       ((rule sat_projectI sat_projectAllI | simp add: wp)+,
        simp add: follows_def followed_def shape_def clientOf_def applyDelta_def appendTo_def Let_def textBlockOf_def asSent_def)?)
qed

lemma closeThinking_follows:
  assumes "follows env opened searches (Inr ()) p"
  shows "sat (closeThinkingBlock env) (follows env opened searches) p"
  using assms
  by (intro sat_closeThinkingI, cases "cp_thinkingOpen p")
    (simp_all add: follows_def followed_def shape_def clientOf_def Let_def split: if_splits)

lemma emitSigned_follows:
  assumes "follows env opened searches (Inr ()) p" and "cp_responseFormat p = FormatClaude"
  shows "sat (emitSignedThinking env s) (follows env opened searches) p"
proof (cases "trimSpace s = [] \<or> trimSpace (cp_thinking p) = []")
  case True
  with assms show ?thesis
    by (auto simp: emitSignedThinking_def wp follows_def followed_def shape_def clientOf_def Let_def)
next
  case False
  then show ?thesis
    using assms unfolding emitSignedThinking_def inTurn.simps wp sum.case
    apply (simp add: wp meaningful_def)
    apply (rule sat_startI, unfold sum.case wp)
    apply (rule sat_closeTextI, unfold sum.case)
    by (cases "cp_started p"; cases "cp_textOpen p";
       simp add: follows_def followed_def shape_def wp nextBlock_def wholeBlock_def;
       ((rule sat_projectI sat_projectAllI | simp add: wp)+,
        simp add: follows_def followed_def shape_def clientOf_def applyDelta_def appendTo_def Let_def textBlockOf_def asSent_def)?)
qed

lemma wholeBlock_tool:
  assumes "follows env False searches (Inr ()) p" and "cp_started p"
    and "block = JObj (first' @ [(''input'', v)])" and "first = first' @ [(''input'', JObj [])]" and "map_of first' ''input'' = None"
  shows "sat (wholeBlock env block first [[(''type'', JStr ''input_json_delta''), (''partial_json'', JStr (encodeEvent env v))]])
     (\<lambda>r q. follows env False searches r q \<and> cp_started q) p"
  using assms unfolding wholeBlock_def wp nextBlock_def
  apply (simp add: wp)
  apply (rule sat_projectAllI)
  apply (simp add: follows_def followed_def shape_def clientOf_def Let_def asSent_def applyDelta_def map_add_def)
  done

lemma wholeBlock_result:
  assumes "follows env False searches (Inr ()) p" and "cp_started p" and "map_of block ''input'' = None"
  shows "sat (wholeBlock env (JObj block) block []) (\<lambda>r q. follows env False searches r q \<and> cp_started q) p"
  using assms unfolding wholeBlock_def wp nextBlock_def
  apply (simp add: wp)
  apply (rule sat_projectAllI)
  apply (simp add: follows_def followed_def shape_def clientOf_def Let_def asSent_def)
  done
  

lemma andThen_assoc [simp]: "andThen (andThen a b) c = andThen a (andThen b c)"
  by (rule ext) (simp add: andThen_def bnd_def ret_def split: prod.split sum.split)

lemma andThen_ret [simp]: "andThen (ret []) k = k"
  by (rule ext) (simp add: andThen_def bnd_def ret_def split: prod.split sum.split)

lemma prelude_follows:
  assumes "followed env p" and "cp_hostedStarted p = searches"
    and "\<And>a q. follows env False searches (Inr ()) q \<Longrightarrow> cp_started q \<Longrightarrow> cp_toolCalls q = cp_toolCalls p \<Longrightarrow> sat k (\<lambda>r q. case r of Inl e \<Rightarrow> Q (Inl e) q | Inr b \<Rightarrow> Q (Inr (a @ b)) q) q"
  shows "sat (andThen (start env) (andThen (closeThinkingBlock env) (andThen (closeText env) k))) Q p"
proof -
  have "sat (inTurn [start env, closeThinkingBlock env, closeText env]) (\<lambda>r q. (\<exists>a. r = Inr a) \<and> follows env False searches (Inr ()) q \<and> cp_started q \<and> cp_toolCalls q = cp_toolCalls p) p"
    using assms(1,2) unfolding inTurn.simps wp
    apply -
    apply (rule sat_startI, unfold sum.case wp)
    apply (rule sat_closeThinkingI, unfold sum.case wp)
    apply (rule sat_closeTextI, unfold sum.case wp)
    by (cases "cp_started p"; cases "cp_textOpen p"; cases "cp_thinkingOpen p";
       simp add: follows_def followed_def shape_def wp clientOf_def Let_def textBlockOf_def asSent_def)
  then have "sat (andThen (inTurn [start env, closeThinkingBlock env, closeText env]) k) Q p"
    unfolding wp by (rule sat_mono) (use assms(3) in auto)
  then show ?thesis by simp
qed

lemma andThen_ret_right [simp]: "andThen k (ret []) = k"
  by (rule ext) (simp add: andThen_def bnd_def ret_def split: prod.split sum.split)

lemma chunks_follow:
  assumes "sat m (\<lambda>r q. follows env opened searches r q \<and> cp_started q) p"
  shows "sat m (\<lambda>r q. case r of Inl e \<Rightarrow> follows env opened searches (Inl e) q | Inr b \<Rightarrow> follows env opened searches (Inr (f b)) q) p"
  by (rule sat_mono [OF assms]) (auto simp: follows_def split: sum.splits)

text \<open>Hosted searches.\<close>

lemma insert_not_Nil [simp]: "List.insert x xs \<noteq> []"
  by (auto simp: List.insert_def)

lemma search_started:
  assumes "follows env opened searches (Inr ()) p"
  shows "sat (projectHostedSearchStarted env s)
    (follows env (opened \<and> (case s of None \<Rightarrow> True | Some search \<Rightarrow> hostedSearchToolID search \<in> set searches))
      (case s of None \<Rightarrow> searches | Some search \<Rightarrow> List.insert (hostedSearchToolID search) searches)) p"
proof (cases "s = None \<or> hostedSearchToolID (the s) \<in> set searches")
  case True
  with assms show ?thesis
    by (auto simp: projectHostedSearchStarted_def wp Let_def follows_Inr split: option.split)
next
  case False
  then obtain search where s: "s = Some search" and new: "hostedSearchToolID search \<notin> set searches" by auto
  have p: "followed env p" "cp_hostedStarted p = searches" using assms by (simp_all add: follows_Inr)
  show ?thesis
    unfolding projectHostedSearchStarted_def s
    using new p apply (simp add: sat_bnd sat_gets sat_modify Let_def)
    apply (rule prelude_follows, simp, simp)
    apply (rule chunks_follow, rule wholeBlock_tool)
        apply (simp_all add: follows_Inr)
    apply simp
    done
qed

lemma search_completed:
  assumes "follows env opened searches (Inr ()) p"
    and "case s of None \<Rightarrow> True | Some search \<Rightarrow> opened \<longrightarrow> hostedSearchToolID search \<notin> set searches"
  shows "sat (projectHostedSearchCompleted env s)
    (follows env (opened \<and> s = None)
      (case s of None \<Rightarrow> searches | Some search \<Rightarrow> List.insert (hostedSearchToolID search) searches)) p"
proof (cases s)
  case None
  with assms show ?thesis by (simp add: projectHostedSearchCompleted_def wp follows_Inr)
next
  case (Some search)
  let ?h = "List.insert (hostedSearchToolID search) searches"
  have first: "sat (projectHostedSearchStarted env s) (follows env False ?h) p"
    using search_started [OF assms(1), of s] assms(2) Some by (cases opened) auto
  have "sat (projectHostedSearchCompleted env (Some search)) (follows env False ?h) p"
    unfolding projectHostedSearchCompleted_def option.case Let_def case_prod_beta inTurn.simps andThen_ret_right wp
    apply (rule sat_mono [OF first [unfolded Some]])
    subgoal for r q
      apply (cases r)
       apply (simp add: follows_def)
      apply simp
      apply (rule chunks_follow, rule wholeBlock_result)
        apply (simp_all add: follows_Inr)
      done
    done
  then show ?thesis by (simp add: Some)
qed

section \<open>The end of a turn\<close>

definition handedOver :: "projectionEnv \<Rightarrow> claudeProjection \<Rightarrow> bool" where
  "handedOver env p \<longleftrightarrow> reads (cp_claudeSSE p) Unstarted = Some (Finished (map (asSent env) (cp_blocks p)))"

lemma finish_hands_over:
  assumes "follows env False searches (Inr ()) p" and "cp_started p"
  shows "sat (finish env reason) (\<lambda>r q. (\<exists>a. r = Inr a) \<and> handedOver env q) p"
  using assms unfolding finish_def wp sum.case
  by (intro sat_projectAllI) (simp add: follows_Inr followed_def clientOf_def handedOver_def Let_def)

lemma calls_follow:
  assumes "follows env False searches (Inr ()) p" and "cp_started p"
  shows "sat (inTurn (map (projectCall env) calls)) (\<lambda>r q. follows env False searches r q \<and> (isl r \<or> cp_started q)) p"
  using assms
proof (induction calls arbitrary: p)
  case Nil
  then show ?case by (simp add: wp follows_Inr)
next
  case (Cons call calls)
  have one: "sat (projectCall env call) (\<lambda>r q. follows env False searches r q \<and> cp_started q) p"
    unfolding projectCall_def wp
    apply (cases "callInput env call")
    using Cons.prems
     apply (simp add: follows_def followed_def)
    apply simp
    apply (rule wholeBlock_tool)
        apply (use Cons.prems in simp_all)
    apply simp
    done
  show ?case
    unfolding list.map inTurn.simps wp
    apply (rule sat_mono [OF one])
    subgoal for r q
      apply (cases r)
       apply (simp add: follows_def)
      apply simp
      apply (rule sat_mono [OF Cons.IH])
        apply (simp_all add: follows_Inr)
      apply (auto simp: follows_def split: sum.splits)
      done
    done
qed


lemma toolHandoff_follows:
  assumes "followed env p"
  shows "sat (toolHandoff env park) (\<lambda>r q. case r of Inl e \<Rightarrow> reads (cp_claudeSSE q) Unstarted \<noteq> None
     | Inr (chunks, terminal, parked) \<Rightarrow> terminal \<and> parked = park \<and> cp_toolCalls p \<noteq> [] \<and> handedOver env q) p"
proof (cases "cp_toolCalls p = []")
  case True
  with assms show ?thesis by (simp add: toolHandoff_def wp followed_def)
next
  case False
  have rest: "sat (inTurn (map (projectCall env) (cp_toolCalls p) @ [finish env ''tool_use'']))
      (\<lambda>r q. case r of Inl e \<Rightarrow> reads (cp_claudeSSE q) Unstarted \<noteq> None | Inr b \<Rightarrow> handedOver env q) q"
    if "follows env False (cp_hostedStarted p) (Inr ()) q" "cp_started q" for q
  proof -
    have split: "inTurn (ms @ ns) = andThen (inTurn ms) (inTurn ns)" for ms ns :: "string list proj list"
      by (induction ms) simp_all
    show ?thesis
      unfolding split inTurn.simps andThen_ret_right wp
      apply (rule sat_mono [OF calls_follow [OF that]])
      subgoal for r q'
        apply (cases r)
         apply (simp add: follows_def)
        apply simp
        apply (rule sat_mono [OF finish_hands_over])
          apply (simp_all add: follows_Inr)
        apply (auto split: sum.splits)
        done
      done
  qed
  show ?thesis
    unfolding toolHandoff_def wp sum.case
    using False apply (simp add: sat_bnd)
    apply (rule prelude_follows [OF assms refl])
    apply (rule sat_mono [OF rest])
      apply (auto simp: wp split: sum.splits)
    done
qed

lemma handleDone_follows:
  assumes "followed env p"
  shows "sat (handleDone env) (\<lambda>r q. case r of Inl e \<Rightarrow> reads (cp_claudeSSE q) Unstarted \<noteq> None
     | Inr (chunks, terminal, parked) \<Rightarrow> terminal \<and> \<not> parked \<and> handedOver env q) p"
proof (cases "cp_historyTurn p \<and> cp_toolCalls p \<noteq> []")
  case True
  then show ?thesis
    unfolding handleDone_def
    apply (simp add: sat_bnd sat_gets)
    apply (rule sat_mono [OF toolHandoff_follows [OF assms]])
    apply (auto split: sum.splits)
    done
next
  case False
  then show ?thesis
    unfolding handleDone_def wp sum.case
    apply (simp add: sat_bnd)
    apply (rule conjI, blast)
    apply (rule prelude_follows [OF assms refl])
    apply (simp add: wp)
    apply (rule sat_mono [OF finish_hands_over])
      apply (auto simp: wp split: sum.splits)
    done
qed


section \<open>A whole run\<close>

text \<open>
  A completed search that was announced before must not come while a text or thinking block may be open: the
  code would open its result inside that block (\<open>late_search_result_breaks_stream\<close>).
\<close>

fun searchesSettled :: "bool \<Rightarrow> string list \<Rightarrow> Event list \<Rightarrow> bool" where
  "searchesSettled opened searches [] = True"
| "searchesSettled opened searches (e # es) = (case ev_Type e of
     EventText \<Rightarrow> searchesSettled True searches es
   | EventThinking \<Rightarrow> searchesSettled True searches es
   | EventHostedSearchStarted \<Rightarrow> (case ev_HostedSearch e of None \<Rightarrow> searchesSettled opened searches es
       | Some s \<Rightarrow> searchesSettled (opened \<and> hostedSearchToolID s \<in> set searches) (List.insert (hostedSearchToolID s) searches) es)
   | EventHostedSearchCompleted \<Rightarrow> (case ev_HostedSearch e of None \<Rightarrow> searchesSettled opened searches es
       | Some s \<Rightarrow> (opened \<longrightarrow> hostedSearchToolID s \<notin> set searches) \<and> searchesSettled False (List.insert (hostedSearchToolID s) searches) es)
   | _ \<Rightarrow> searchesSettled opened searches es)"

definition eventFollowed :: "projectionEnv \<Rightarrow> Event list \<Rightarrow> projected res \<Rightarrow> claudeProjection \<Rightarrow> bool" where
  "eventFollowed env es r q \<longleftrightarrow> (case r of Inl e \<Rightarrow> reads (cp_claudeSSE q) Unstarted \<noteq> None
     | Inr (chunks, terminal, parked) \<Rightarrow> if terminal then handedOver env q
         else \<not> parked \<and> (\<exists>opened searches. follows env opened searches (Inr ()) q \<and> searchesSettled opened searches es))"

lemma goOn_followed:
  assumes "sat m (follows env opened searches) p" and "searchesSettled opened searches es"
  shows "sat (goOn m) (eventFollowed env es) p"
  unfolding goOn_def wp
  by (rule sat_mono [OF assms(1)]) (use assms(2) in \<open>auto simp: eventFollowed_def wp follows_def split: sum.splits\<close>)

lemma projectEvent_follows:
  assumes "follows env opened searches (Inr ()) p" and "searchesSettled opened searches (e # es)"
  shows "sat (projectEvent env e) (eventFollowed env es) p"
proof -
  define p' where "p' = p\<lparr>cp_facts := observe (cp_facts p) e\<rparr>"
  have p': "follows env opened searches (Inr ()) p'"
    using assms(1) by (simp add: p'_def follows_Inr)
  have semantic: "follows env opened searches (Inr ()) (p'\<lparr>cp_semantic := True\<rparr>)"
    using p' by (simp add: follows_Inr)
  have called: "follows env opened searches (Inr ()) (p'\<lparr>cp_semantic := True, cp_toolCalls := cs\<rparr>)" for cs
    using p' by (simp add: follows_Inr)
  have f: "followed env p'" using p' by (simp add: follows_Inr)
  have quiet: "eventFollowed env es (Inr ([], False, False)) q"
    if "follows env opened searches (Inr ()) q" "searchesSettled opened searches es" for q
    using that by (auto simp: eventFollowed_def)
  have over: "eventFollowed env es r q"
    if "case r of Inl e \<Rightarrow> reads (cp_claudeSSE q) Unstarted \<noteq> None | Inr (chunks, terminal, parked) \<Rightarrow> terminal \<and> handedOver env q"
    for r :: "projected res" and q
    using that by (auto simp: eventFollowed_def split: sum.splits)
  have start: "projectEvent env e p = (case ev_Type e of
       EventHostedSearchStarted \<Rightarrow> goOn (projectHostedSearchStarted env (ev_HostedSearch e)) (p'\<lparr>cp_semantic := True\<rparr>)
     | EventHostedSearchCompleted \<Rightarrow> goOn (projectHostedSearchCompleted env (ev_HostedSearch e)) (p'\<lparr>cp_semantic := True\<rparr>)
     | EventToolCall \<Rightarrow> (case ev_ToolCall e of None \<Rightarrow> (Inr ([], False, False), p')
         | Some call \<Rightarrow> (Inr ([], False, False), p'\<lparr>cp_semantic := True, cp_toolCalls := cp_toolCalls p' @ [call]\<rparr>))
     | EventText \<Rightarrow> goOn (handleText env (ev_Text e)) p'
     | EventThinking \<Rightarrow> goOn (handleThinking env (ev_Text e)) p'
     | EventThinkingCompleted \<Rightarrow> goOn (if cp_responseFormat p' = FormatClaude then emitSignedThinking env (ev_Signature e)
         else closeThinkingBlock env) p'
     | EventTurnEnded \<Rightarrow> toolHandoff env True p'
     | EventDone \<Rightarrow> handleDone env p'
     | _ \<Rightarrow> (Inr ([], False, False), p'))"
    by (simp add: projectEvent_def bnd_def modify_def gets_def ret_def meaningful_def p'_def
      split: EventType.split option.split)
  have run: "sat (projectEvent env e) Q p" if "sat m Q q" "projectEvent env e p = m q" for Q q and m :: "projected proj"
    using that by (simp add: sat_def)
  have idle: "sat (projectEvent env e) (eventFollowed env es) p"
    if "projectEvent env e p = (Inr ([], False, False), q)" "follows env opened searches (Inr ()) q" "searchesSettled opened searches es" for q
    using that quiet by (simp add: sat_def)
  show ?thesis
  proof (cases "ev_Type e")
    case EventText
    with assms(2) show ?thesis
      by (intro run [OF goOn_followed [OF handleText_follows [OF p']]]) (simp_all add: start)
  next
    case EventThinking
    with assms(2) show ?thesis
      by (intro run [OF goOn_followed [OF handleThinking_follows [OF p']]]) (simp_all add: start)
  next
    case EventHostedSearchStarted
    with assms(2) show ?thesis
      by (intro run [OF goOn_followed [OF search_started [OF semantic]]]) (auto simp add: start split: option.splits)
  next
    case EventHostedSearchCompleted
    with assms(2) show ?thesis
      by (intro run [OF goOn_followed [OF search_completed [OF semantic]]]) (auto simp add: start split: option.splits)
  next
    case EventThinkingCompleted
    with assms(2) have es: "searchesSettled opened searches es" by simp
    show ?thesis
    proof (cases "cp_responseFormat p' = FormatClaude")
      case True
      show ?thesis
        by (rule run [OF goOn_followed [OF emitSigned_follows [OF p' True] es]]) (simp add: start EventThinkingCompleted True)
    next
      case False
      show ?thesis
        by (rule run [OF goOn_followed [OF closeThinking_follows [OF p'] es]]) (simp add: start EventThinkingCompleted False)
    qed
  next
    case EventTurnEnded
    show ?thesis
      by (rule run [OF sat_mono [OF toolHandoff_follows [OF f] over]]) (auto simp: start EventTurnEnded split: sum.splits)
  next
    case EventDone
    show ?thesis
      by (rule run [OF sat_mono [OF handleDone_follows [OF f] over]]) (auto simp: start EventDone split: sum.splits)
  next
    case EventToolCall
    with assms(2) have es: "searchesSettled opened searches es" by simp
    show ?thesis
    proof (cases "ev_ToolCall e")
      case None
      show ?thesis by (rule idle [OF _ p' es]) (simp add: start EventToolCall None)
    next
      case (Some call)
      show ?thesis by (rule idle [OF _ called es]) (simp add: start EventToolCall Some)
    qed
  qed (rule idle [OF _ p'], use assms(2) in \<open>simp_all add: start\<close>)+
qed

end
