(* ===== verification/Delivery.thy ===== *)
theory Delivery
  imports Assembly
begin

text \<open>
  How a caller is answered (\<open>executor.go\<close>): the loops that read the events of an output, project them and park or
  cancel the run, the request of a follow-up turn that is chained to tool results, and the checks of the
  credential.  The channel of events is the list of what the \<open>select\<close> of the loop takes one after the other: an
  event or the end of the caller's context; the list's end is the closed channel, behind which the run's error
  waits.  The manager's answer to \<open>Park\<close> is a parameter, and the calls of \<open>Park\<close> and \<open>Cancel\<close> are recorded.
\<close>

section \<open>Errors\<close>

definition connectStatus :: "string \<Rightarrow> nat" where
  "connectStatus code =
     (if code = ''unauthenticated'' then 401
      else if code = ''permission_denied'' then 403
      else if code \<in> {''invalid_argument'', ''failed_precondition'', ''out_of_range''} then 400
      else if code = ''resource_exhausted'' then 429
      else if code = ''unavailable'' then 503 else 502)"

definition errorStatusCode :: "err \<Rightarrow> nat" where
  "errorStatusCode e = (case e of RequestError status text \<Rightarrow> status | ConnectError code message \<Rightarrow> connectStatus code | _ \<Rightarrow> 0)"

definition mapManagerError :: "(err \<Rightarrow> string) \<Rightarrow> err \<Rightarrow> err" where
  "mapManagerError text e =
     (if e \<in> {ErrSessionPending, ErrSessionNotPending, ErrPendingAmbiguous, ErrCredentialMismatch, ErrToolResultConflict,
        ErrMixedToolFollowUp, ErrSessionActive, ErrStateLeaseHeld} then RequestError 409 (text e) else e)"

section \<open>Reading an output\<close>

datatype arrival = Arrived Event | ContextDone

datatype managerCall = CallPark | CallCancel

record delivery =
  de_env :: projectionEnv
  de_replay :: bool
  de_park :: "err option"
  de_result :: "err option"
  de_ctxErr :: err

definition cancelRun :: "delivery \<Rightarrow> managerCall list" where
  "cancelRun d = (if de_replay d then [] else [CallCancel])"

definition parkFails :: "delivery \<Rightarrow> err option" where
  "parkFails d = (case de_park d of Some e \<Rightarrow> if errIs e ErrSessionNotPending then None else Some e | None \<Rightarrow> None)"

text \<open>What one event of the output leads to.\<close>

datatype progress = Failed err "managerCall list" | Goes "string list" bool bool "managerCall list"

definition takeEvent :: "delivery \<Rightarrow> Event \<Rightarrow> claudeProjection \<Rightarrow> progress \<times> claudeProjection" where
  "takeEvent d event p = (case projectEvent (de_env d) event p of
     (Inl e, p') \<Rightarrow> (Failed e (cancelRun d), p')
   | (Inr (chunks, terminal, park), p') \<Rightarrow>
       (if park \<and> \<not> de_replay d
        then (case parkFails d of Some e \<Rightarrow> Failed e [CallPark, CallCancel] | None \<Rightarrow> Goes chunks terminal park [CallPark])
        else Goes chunks terminal park [], p'))"

text \<open>\<open>Execute\<close>: the loop after \<open>prepare\<close> and \<open>maybeChainFollowUp\<close>.\<close>

definition semanticFailure :: "claudeProjection \<Rightarrow> err \<Rightarrow> err" where
  "semanticFailure p e = (if cp_semantic p \<and> errorStatusCode e = 401
     then RequestError 502 ''Cursor Agent v1 authentication failed after semantic output'' else e)"

fun executeLoop :: "delivery \<Rightarrow> arrival list \<Rightarrow> claudeProjection \<Rightarrow> string res \<times> managerCall list \<times> claudeProjection" where
  "executeLoop d [] p = (Inl (case de_result d of Some e \<Rightarrow> semanticFailure p e
     | None \<Rightarrow> RequestError 502 ''Cursor Agent v1 ended before completion''), [], p)"
| "executeLoop d (ContextDone # rest) p = (Inl (de_ctxErr d), cancelRun d, p)"
| "executeLoop d (Arrived event # rest) p = (case takeEvent d event p of
     (Failed e calls, p') \<Rightarrow> (Inl e, calls, p')
   | (Goes chunks terminal park calls, p') \<Rightarrow>
       if terminal then (nonStream (de_env d) p', calls, p')
       else (case executeLoop d rest p' of (r, after, q) \<Rightarrow> (r, calls @ after, q)))"

text \<open>\<open>bootstrap\<close> answers with the first chunks; an error before them is an error of the request.\<close>

fun bootstrap :: "delivery \<Rightarrow> arrival list \<Rightarrow> claudeProjection
    \<Rightarrow> (string list \<times> bool \<times> arrival list) res \<times> managerCall list \<times> claudeProjection" where
  "bootstrap d [] p = (Inl (case de_result d of Some e \<Rightarrow> e
     | None \<Rightarrow> RequestError 502 ''Cursor Agent v1 ended before the first semantic payload''), [], p)"
| "bootstrap d (ContextDone # rest) p = (Inl (de_ctxErr d), cancelRun d, p)"
| "bootstrap d (Arrived event # rest) p = (case takeEvent d event p of
     (Failed e calls, p') \<Rightarrow> (Inl e, calls, p')
   | (Goes chunks terminal park calls, p') \<Rightarrow>
       if chunks \<noteq> [] then (Inr (chunks, terminal, rest), calls, p')
       else (case bootstrap d rest p' of (r, after, q) \<Rightarrow> (r, calls @ after, q)))"

text \<open>
  The channel of chunks: a send succeeds or the caller's context ends first, as the list of booleans says; after
  its end every send succeeds.
\<close>

datatype streamChunk = Payload string | StreamErr err

fun sendAll :: "string list \<Rightarrow> bool list \<Rightarrow> streamChunk list \<times> bool \<times> bool list" where
  "sendAll [] sends = ([], True, sends)"
| "sendAll (c # cs) (False # sends) = ([], False, sends)"
| "sendAll (c # cs) sends = (case sendAll cs (tl sends) of (sent, all, rest) \<Rightarrow> (Payload c # sent, all, rest))"

definition sendStreamChunk :: "streamChunk \<Rightarrow> bool list \<Rightarrow> streamChunk list" where
  "sendStreamChunk chunk sends = (case sends of False # rest \<Rightarrow> [] | _ \<Rightarrow> [chunk])"

text \<open>\<open>alive\<close>: the context has not ended when the channel of events is closed.\<close>

fun continueStream :: "delivery \<Rightarrow> bool \<Rightarrow> arrival list \<Rightarrow> bool list \<Rightarrow> claudeProjection
    \<Rightarrow> streamChunk list \<times> managerCall list \<times> claudeProjection" where
  "continueStream d alive [] sends p = ((case de_result d of
     Some e \<Rightarrow> if alive then sendStreamChunk (StreamErr e) sends else [] | None \<Rightarrow> []), [], p)"
| "continueStream d alive (ContextDone # rest) sends p = ([], cancelRun d, p)"
| "continueStream d alive (Arrived event # rest) sends p = (case takeEvent d event p of
     (Failed e calls, p') \<Rightarrow> (sendStreamChunk (StreamErr e) sends, calls, p')
   | (Goes chunks terminal park calls, p') \<Rightarrow>
       (case sendAll chunks sends of (sent, all, sends') \<Rightarrow>
         if \<not> all then (sent, calls @ (if terminal then [] else cancelRun d), p')
         else if park \<or> terminal then (sent, calls, p')
         else (case continueStream d alive rest sends' p' of (tail, after, q) \<Rightarrow> (sent @ tail, calls @ after, q))))"

definition emitStream :: "delivery \<Rightarrow> bool \<Rightarrow> string list \<Rightarrow> bool \<Rightarrow> arrival list \<Rightarrow> bool list \<Rightarrow> claudeProjection
    \<Rightarrow> streamChunk list \<times> managerCall list \<times> claudeProjection" where
  "emitStream d alive first terminal arrivals sends p = (case sendAll first sends of (sent, all, sends') \<Rightarrow>
     if \<not> all then (sent, if terminal then [] else cancelRun d, p)
     else if terminal then (sent, [], p)
     else (case continueStream d alive arrivals sends' p of (tail, calls, q) \<Rightarrow> (sent @ tail, calls, q)))"

text \<open>\<open>ExecuteStream\<close>, after \<open>prepare\<close> and \<open>maybeChainFollowUp\<close>.\<close>

definition executeStream :: "delivery \<Rightarrow> bool \<Rightarrow> arrival list \<Rightarrow> bool list \<Rightarrow> claudeProjection
    \<Rightarrow> streamChunk list res \<times> managerCall list \<times> claudeProjection" where
  "executeStream d alive arrivals sends p = (case bootstrap d arrivals p of
     (Inl e, calls, q) \<Rightarrow> (Inl e, calls, q)
   | (Inr (first, terminal, rest), calls, q) \<Rightarrow>
       (case emitStream d alive first terminal rest sends q of (sent, after, q') \<Rightarrow> (Inr sent, calls @ after, q')))"

section \<open>A follow-up turn after tool results\<close>

text \<open>What the caller holds of a \<open>ManagedOutput\<close>, apart from its channels.\<close>

definition followUpRequestID :: "(string \<Rightarrow> string) \<Rightarrow> ManagedOutput \<Rightarrow> ManagedRequest \<Rightarrow> string res" where
  "followUpRequestID sha prior request = (case CredentialFingerprint sha (mr_CredentialScope request) (mr_AccountKey request) of
     Inl e \<Rightarrow> Inl e
   | Inr fingerprint \<Rightarrow> (case canonicalToolResults (mr_ActiveResults request) of
       Inl e \<Rightarrow> Inl e
     | Inr canonical \<Rightarrow>
         (let batch = (if ou_OriginalBatch prior = [] then completedBatchIDs canonical else ou_OriginalBatch prior);
              (accepted, batch') = (case completedResultsForBatch canonical batch of
                Some accepted \<Rightarrow> (accepted, batch) | None \<Rightarrow> (canonical, completedBatchIDs canonical))
          in Inr (generationSegmentID sha fingerprint batch' accepted (mr_FollowUpText request)))))"

text \<open>\<open>startChainedFollowUp\<close> up to its call of \<open>StartFollowUp\<close>: the request and the results it covers.\<close>

definition chainedFollowUp :: "(string \<Rightarrow> string) \<Rightarrow> ManagedRequest \<Rightarrow> ManagedOutput \<Rightarrow> Event list \<Rightarrow> (ManagedRequest \<times> ToolResult list) res" where
  "chainedFollowUp sha managed prior priorEvents =
     (let request0 = managed\<lparr>mr_SessionID := ou_SessionID prior, mr_RequireExisting := True\<rparr>;
          request = (if rr_ConversationID (mr_Run request0) = []
            then request0\<lparr>mr_Run := (mr_Run request0)\<lparr>rr_ConversationID := ou_ConversationID prior\<rparr>\<rparr> else request0);
          covering = (if ou_OriginalBatch prior \<noteq> [] then
              (case toolResultsForBatch (mr_ActiveResults request) (ou_OriginalBatch prior) of
                 Some filtered \<Rightarrow> filtered | None \<Rightarrow> mr_ActiveResults request)
            else mr_ActiveResults request)
      in case followUpRequestID sha prior request of
        Inl e \<Rightarrow> Inl e
      | Inr requestID \<Rightarrow>
          (let same = (ou_RequestSegmentID prior = requestID
                 \<or> (ou_RequestSegmentID prior = [] \<and> ou_BillingRunID prior \<noteq> [] \<and> ou_BillingRunID prior = requestID));
               named = request\<lparr>mr_RequestSegmentID := requestID\<rparr>
           in Inr (if ou_Replay prior \<and> \<not> same
               then named\<lparr>mr_ReuseBillingRun := False, mr_BillingRunID := requestID, mr_CarryUsage := []\<rparr>
               else named\<lparr>mr_ReuseBillingRun := True, mr_BillingRunID := ou_BillingRunID prior,
                 mr_CarryUsage := (if isMeteredTurn (ou_BillingRunID prior) then meteredUsageCarry priorEvents
                   else usageEvidenceEvents priorEvents)\<rparr>, covering)))"

text \<open>
  \<open>maybeChainFollowUp\<close>: the output is answered as it is, its events are buffered and answered, or a follow-up turn
  is started after all its events have been read.  \<open>alive\<close> is the state of the context where it is looked at.
\<close>

datatype chained = AsIs | Buffered "Event list" | Chain "ManagedRequest \<times> ToolResult list"

fun bufferEvents :: "delivery \<Rightarrow> bool \<Rightarrow> Event list \<Rightarrow> arrival list \<Rightarrow> (bool \<times> Event list) res \<times> managerCall list" where
  "bufferEvents d parked buffered [] = (case de_result d of
     Some e \<Rightarrow> (Inl e, []) | None \<Rightarrow> (Inr (parked, buffered), []))"
| "bufferEvents d parked buffered (ContextDone # rest) =
     (Inl (de_ctxErr d), if \<not> parked \<and> \<not> de_replay d then [CallCancel] else [])"
| "bufferEvents d parked buffered (Arrived event # rest) =
     (if ev_Type event = EventTurnEnded
      then (case parkFails d of
          Some e \<Rightarrow> (Inl e, [CallPark, CallCancel])
        | None \<Rightarrow> (case bufferEvents d True (buffered @ [event]) rest of (r, calls) \<Rightarrow> (r, CallPark # calls)))
      else bufferEvents d parked (buffered @ [event]) rest)"

fun arrivedEvents :: "arrival list \<Rightarrow> Event list" where
  "arrivedEvents [] = []"
| "arrivedEvents (Arrived e # rest) = e # arrivedEvents rest"
| "arrivedEvents (ContextDone # rest) = arrivedEvents rest"

definition maybeChainFollowUp :: "(string \<Rightarrow> string) \<Rightarrow> delivery \<Rightarrow> bool \<Rightarrow> ManagedRequest \<Rightarrow> ManagedOutput \<Rightarrow> arrival list
    \<Rightarrow> chained res \<times> managerCall list" where
  "maybeChainFollowUp sha d alive managed prior arrivals =
     (let chain = (\<lambda>events. if \<not> alive then Inl (de_ctxErr d) else map_sum id Chain (chainedFollowUp sha managed prior events)) in
      if trimSpace (mr_FollowUpText managed) = [] then (Inr AsIs, [])
      else if ou_Replay prior then
        if ou_FollowUpApplied prior \<or> ou_HasPending prior then (Inr AsIs, [])
        else if \<not> alive then (Inl (de_ctxErr d), [])
        else (case de_result d of Some e \<Rightarrow> (Inl e, []) | None \<Rightarrow> (chain (arrivedEvents arrivals), []))
      else (case bufferEvents d False [] arrivals of
          (Inl e, calls) \<Rightarrow> (Inl e, calls)
        | (Inr (parked, buffered), calls) \<Rightarrow> (if parked then Inr (Buffered buffered) else chain buffered, calls)))"

section \<open>Credentials\<close>

record Auth =
  au_Metadata :: "(string \<times> string) list"
  au_Attributes :: "(string \<times> string) list"
  au_ProxyURL :: string

text \<open>The values of the metadata as \<open>fmt.Sprint\<close> prints them.\<close>

definition metadataValue :: "Auth option \<Rightarrow> string \<Rightarrow> string" where
  "metadataValue auth key = (case auth of None \<Rightarrow> [] | Some a \<Rightarrow>
     (case map_of (au_Metadata a) key of None \<Rightarrow> [] | Some v \<Rightarrow> trimSpace v))"

definition cursorRuntimeProfile :: "(string \<Rightarrow> string) \<Rightarrow> Auth option \<Rightarrow> string res" where
  "cursorRuntimeProfile lower auth = (let profile = lower (metadataValue auth ''runtime_profile'') in
     if profile = [] \<or> profile = ''agent_v1'' then Inr ''agent_v1''
     else if profile = ''sand'' then Inr ''sand''
     else Inl (RequestError 400 ''Cursor Agent v1 runtime profile is invalid''))"

definition executorCredential :: "Auth option \<Rightarrow> (string \<times> string \<times> string \<times> string \<times> string \<times> string) res" where
  "executorCredential auth = (case auth of
     None \<Rightarrow> Inl (RequestError 401 ''Cursor Agent v1 credential is missing'')
   | Some a \<Rightarrow>
      (let accessToken = metadataValue auth ''access_token''; accountKey = metadataValue auth ''account_id'';
           baseURL = dropTrailing (CHR ''/'') (metadataValue auth ''base_url''); clientVersion = metadataValue auth ''client_version'';
           credentialScope = (case map_of (au_Attributes a) ''credential_scope'' of None \<Rightarrow> [] | Some s \<Rightarrow> trimSpace s) in
       if accessToken = [] then Inl (RequestError 401 ''Cursor Agent v1 access token is missing'')
       else if accountKey = [] then Inl (RequestError 401 ''Cursor Agent v1 stable account identity is missing'')
       else if baseURL = [] then Inl (RequestError 401 ''Cursor Agent v1 base URL is missing'')
       else if clientVersion = [] then Inl (RequestError 401 ''Cursor Agent v1 client version is missing'')
       else if credentialScope = [] then Inl (RequestError 400 ''Cursor Agent v1 credential scope is missing'')
       else Inr (credentialScope, accountKey, baseURL, trimSpace (au_ProxyURL a), accessToken, clientVersion)))"


section \<open>The chunks are the stream\<close>

definition claudeLines :: "projectionEnv \<Rightarrow> claudeProjection \<Rightarrow> string list" where
  "claudeLines env p = map (\<lambda>event. ''data: '' @ encodeEvent env event @ blankLineEnd) (cp_claudeSSE p)"

lemma claudeSSE_lines: "claudeSSE env p = concat (claudeLines env p)"
  by (simp add: claudeSSE_def claudeLines_def)

definition streams :: "projectionEnv \<Rightarrow> string list proj \<Rightarrow> bool" where
  "streams env m \<longleftrightarrow> (\<forall>p. sat m (\<lambda>r q. cp_responseFormat q = cp_responseFormat p
     \<and> (cp_responseFormat p = FormatClaude \<longrightarrow> (case r of Inl _ \<Rightarrow> True | Inr a \<Rightarrow> claudeLines env q = claudeLines env p @ a))) p)"

definition silent :: "(claudeProjection, 'a) io \<Rightarrow> bool" where
  "silent m \<longleftrightarrow> (\<forall>p. sat m (\<lambda>_ q. cp_responseFormat q = cp_responseFormat p \<and> cp_claudeSSE q = cp_claudeSSE p) p)"

named_theorems streaming

lemma streams_project [streaming]: "streams env (project env e)"
  unfolding streams_def by (intro allI sat_projectI) (auto simp: claudeLines_def)

lemma streams_projectAll [streaming]: "streams env (projectAll env es)"
  unfolding streams_def by (intro allI sat_projectAllI) (auto simp: claudeLines_def)

lemma streams_nothing [streaming]: "streams env (ret [])"
  by (simp add: streams_def wp)

lemma streams_andThen [streaming]:
  assumes "streams env m" "streams env k"
  shows "streams env (andThen m k)"
  unfolding streams_def wp
proof (intro allI, rule sat_mono [OF assms(1) [unfolded streams_def, rule_format]])
  fix p r q
  assume 1: "cp_responseFormat q = cp_responseFormat p \<and>
     (cp_responseFormat p = FormatClaude \<longrightarrow> (case r of Inl _ \<Rightarrow> True | Inr a \<Rightarrow> claudeLines env q = claudeLines env p @ a))"
  show "case r of Inl e \<Rightarrow> cp_responseFormat q = cp_responseFormat p \<and>
         (cp_responseFormat p = FormatClaude \<longrightarrow> (case Inl e of Inl _ \<Rightarrow> True | Inr a \<Rightarrow> claudeLines env q = claudeLines env p @ a))
     | Inr a \<Rightarrow> sat k (\<lambda>r p''. case r of Inl e \<Rightarrow> cp_responseFormat p'' = cp_responseFormat p \<and>
           (cp_responseFormat p = FormatClaude \<longrightarrow> (case Inl e of Inl _ \<Rightarrow> True | Inr a \<Rightarrow> claudeLines env p'' = claudeLines env p @ a))
        | Inr b \<Rightarrow> cp_responseFormat p'' = cp_responseFormat p \<and>
           (cp_responseFormat p = FormatClaude \<longrightarrow> (case Inr (a @ b) of Inl _ \<Rightarrow> True | Inr a \<Rightarrow> claudeLines env p'' = claudeLines env p @ a))) q"
  proof (cases r)
    case (Inl e)
    with 1 show ?thesis by simp
  next
    case (Inr a)
    show ?thesis
      unfolding Inr sum.case
      by (rule sat_mono [OF assms(2) [unfolded streams_def, rule_format]]) (use 1 Inr in \<open>auto split: sum.splits\<close>)
  qed
qed

lemma streams_inTurn [streaming]: "(\<And>m. m \<in> set ms \<Longrightarrow> streams env m) \<Longrightarrow> streams env (inTurn ms)"
  by (induction ms) (simp_all add: streaming)

lemma streams_bnd [streaming]:
  assumes "silent m" and "\<And>a. streams env (k a)"
  shows "streams env (bnd m k)"
  unfolding streams_def wp
proof (intro allI, rule sat_mono [OF assms(1) [unfolded silent_def, rule_format]])
  fix p q :: claudeProjection and r
  assume 1: "cp_responseFormat q = cp_responseFormat p \<and> cp_claudeSSE q = cp_claudeSSE p"
  then have sse: "claudeLines env q = claudeLines env p" by (simp add: claudeLines_def)
  show "case r of Inl e \<Rightarrow> cp_responseFormat q = cp_responseFormat p \<and>
         (cp_responseFormat p = FormatClaude \<longrightarrow> (case Inl e of Inl _ \<Rightarrow> True | Inr a \<Rightarrow> claudeLines env q = claudeLines env p @ a))
     | Inr x \<Rightarrow> sat (k x) (\<lambda>r q. cp_responseFormat q = cp_responseFormat p \<and>
         (cp_responseFormat p = FormatClaude \<longrightarrow> (case r of Inl _ \<Rightarrow> True | Inr a \<Rightarrow> claudeLines env q = claudeLines env p @ a))) q"
  proof (cases r)
    case (Inl e)
    with 1 show ?thesis by simp
  next
    case (Inr x)
    show ?thesis
      unfolding Inr sum.case
      by (rule sat_mono [OF assms(2) [unfolded streams_def, rule_format]]) (use 1 sse in \<open>auto split: sum.splits\<close>)
  qed
qed

lemma silent_gets [streaming]: "silent (gets f)"
  by (simp add: silent_def wp)

lemma silent_modify [streaming]:
  "(\<And>p. cp_responseFormat (f p) = cp_responseFormat p) \<Longrightarrow> (\<And>p. cp_claudeSSE (f p) = cp_claudeSSE p) \<Longrightarrow> silent (modify f)"
  by (simp add: silent_def wp)

lemma silent_lift [streaming]: "silent (lift r)"
  by (simp add: silent_def wp)

lemma silent_nextBlock [streaming]: "silent nextBlock"
  by (simp add: silent_def nextBlock_def wp)

lemma streams_if [streaming]: "(b \<Longrightarrow> streams env m) \<Longrightarrow> (\<not> b \<Longrightarrow> streams env k) \<Longrightarrow> streams env (if b then m else k)"
  by simp

lemma streams_blocks [streaming]:
  "streams env (start env)" "streams env (closeText env)" "streams env (closeThinkingBlock env)"
  "streams env (wholeBlock env block first deltas)" "streams env (projectCitations env i)" "streams env (finish env reason)"
  "streams env (projectCall env call)"
  unfolding start_def closeText_def closeThinkingBlock_def wholeBlock_def projectCitations_def finish_def projectCall_def
  by (auto intro!: streaming)

lemma streams_handlers [streaming]:
  "streams env (handleText env t)" "streams env (handleThinking env t)" "streams env (emitSignedThinking env s)"
  "streams env (projectHostedSearchStarted env search)" "streams env (projectHostedSearchCompleted env search)"
  unfolding handleText_def handleThinking_def emitSignedThinking_def projectHostedSearchStarted_def projectHostedSearchCompleted_def
    meaningful_def Let_def case_prod_beta inTurn.simps
  by (auto intro!: streaming split: option.split)


lemma streams_annotations [streaming]: "streams env (bnd (gets (chatAnnotationChunks env)) ret)"
  by (simp add: streams_def wp chatAnnotationChunks_def)

definition streamsEvent :: "projectionEnv \<Rightarrow> projected proj \<Rightarrow> bool" where
  "streamsEvent env m \<longleftrightarrow> (\<forall>p. sat m (\<lambda>r q. cp_responseFormat q = cp_responseFormat p
     \<and> (case r of Inl _ \<Rightarrow> True | Inr (chunks, terminal, park) \<Rightarrow> (park \<longrightarrow> terminal)
         \<and> (cp_responseFormat p = FormatClaude \<longrightarrow> claudeLines env q = claudeLines env p @ chunks \<and> (terminal \<longrightarrow> chunks \<noteq> [])))) p)"

text \<open>The end of an answer is never empty.\<close>

definition speaks :: "string list proj \<Rightarrow> bool" where
  "speaks m \<longleftrightarrow> (\<forall>p. sat m (\<lambda>r q. cp_responseFormat p = FormatClaude \<longrightarrow> (case r of Inl _ \<Rightarrow> True | Inr a \<Rightarrow> a \<noteq> [])) p)"

lemma speaks_finish: "speaks (finish env reason)"
  unfolding speaks_def finish_def wp sum.case by (intro allI sat_projectAllI) auto

lemma speaks_andThen:
  assumes "streams env m" and "speaks k"
  shows "speaks (andThen m k)"
  unfolding speaks_def wp
proof (intro allI, rule sat_mono [OF assms(1) [unfolded streams_def, rule_format]])
  fix p q :: claudeProjection and r
  assume 1: "cp_responseFormat q = cp_responseFormat p \<and>
     (cp_responseFormat p = FormatClaude \<longrightarrow> (case r of Inl _ \<Rightarrow> True | Inr a \<Rightarrow> claudeLines env q = claudeLines env p @ a))"
  show "case r of Inl e \<Rightarrow> cp_responseFormat p = FormatClaude \<longrightarrow> (case Inl e of Inl _ \<Rightarrow> True | Inr a \<Rightarrow> a \<noteq> [])
     | Inr a \<Rightarrow> sat k (\<lambda>r p''. case r of Inl e \<Rightarrow> cp_responseFormat p = FormatClaude \<longrightarrow> (case Inl e of Inl _ \<Rightarrow> True | Inr a \<Rightarrow> a \<noteq> [])
        | Inr b \<Rightarrow> cp_responseFormat p = FormatClaude \<longrightarrow> (case Inr (a @ b) of Inl _ \<Rightarrow> True | Inr a \<Rightarrow> a \<noteq> [])) q"
  proof (cases r)
    case (Inr a)
    show ?thesis
      unfolding Inr sum.case
      by (rule sat_mono [OF assms(2) [unfolded speaks_def, rule_format]]) (use 1 in \<open>auto split: sum.splits\<close>)
  qed simp
qed

lemma speaks_inTurn: "(\<And>m. m \<in> set ms \<Longrightarrow> streams env m) \<Longrightarrow> speaks (inTurn (ms @ [finish env reason]))"
  by (induction ms) (auto intro: speaks_finish speaks_andThen)

lemma streamsEvent_of:
  assumes "streams env m" and "park \<longrightarrow> terminal" and "terminal \<longrightarrow> speaks m"
  shows "streamsEvent env (bnd m (\<lambda>chunks. ret (chunks, terminal, park)))"
  unfolding streamsEvent_def wp
proof (intro allI, rule sat_mono)
  fix p
  show "sat m (\<lambda>r q. (cp_responseFormat q = cp_responseFormat p \<and>
       (cp_responseFormat p = FormatClaude \<longrightarrow> (case r of Inl _ \<Rightarrow> True | Inr a \<Rightarrow> claudeLines env q = claudeLines env p @ a)))
     \<and> (terminal \<longrightarrow> cp_responseFormat p = FormatClaude \<longrightarrow> (case r of Inl _ \<Rightarrow> True | Inr a \<Rightarrow> a \<noteq> []))) p"
    unfolding sat_conj
    using assms(1) [unfolded streams_def, rule_format, of p] assms(3)
    by (cases terminal) (auto simp: speaks_def sat_def split: prod.splits)
next
  fix p q :: claudeProjection and r
  assume "(cp_responseFormat q = cp_responseFormat p \<and>
       (cp_responseFormat p = FormatClaude \<longrightarrow> (case r of Inl _ \<Rightarrow> True | Inr a \<Rightarrow> claudeLines env q = claudeLines env p @ a)))
     \<and> (terminal \<longrightarrow> cp_responseFormat p = FormatClaude \<longrightarrow> (case r of Inl _ \<Rightarrow> True | Inr a \<Rightarrow> a \<noteq> []))"
  then show "case r of Inl e \<Rightarrow> cp_responseFormat q = cp_responseFormat p
       \<and> (case Inl e of Inl _ \<Rightarrow> True | Inr (chunks, terminal, park) \<Rightarrow> (park \<longrightarrow> terminal)
         \<and> (cp_responseFormat p = FormatClaude \<longrightarrow> claudeLines env q = claudeLines env p @ chunks \<and> (terminal \<longrightarrow> chunks \<noteq> [])))
     | Inr x \<Rightarrow> cp_responseFormat q = cp_responseFormat p
       \<and> (case Inr (x, terminal, park) of Inl _ \<Rightarrow> True | Inr (chunks, terminal, park) \<Rightarrow> (park \<longrightarrow> terminal)
         \<and> (cp_responseFormat p = FormatClaude \<longrightarrow> claudeLines env q = claudeLines env p @ chunks \<and> (terminal \<longrightarrow> chunks \<noteq> [])))"
    using assms(2) by (auto split: sum.split)
qed

lemma streamsEvent_bnd:
  assumes "silent m" and "\<And>a. streamsEvent env (k a)"
  shows "streamsEvent env (bnd m k)"
  unfolding streamsEvent_def wp
proof (intro allI, rule sat_mono [OF assms(1) [unfolded silent_def, rule_format]])
  fix p q :: claudeProjection and r
  assume 1: "cp_responseFormat q = cp_responseFormat p \<and> cp_claudeSSE q = cp_claudeSSE p"
  then have sse: "claudeLines env q = claudeLines env p" by (simp add: claudeLines_def)
  show "case r of Inl e \<Rightarrow> cp_responseFormat q = cp_responseFormat p
       \<and> (case Inl e of Inl _ \<Rightarrow> True | Inr (chunks, terminal, park) \<Rightarrow> (park \<longrightarrow> terminal)
         \<and> (cp_responseFormat p = FormatClaude \<longrightarrow> claudeLines env q = claudeLines env p @ chunks \<and> (terminal \<longrightarrow> chunks \<noteq> [])))
     | Inr x \<Rightarrow> sat (k x) (\<lambda>r q. cp_responseFormat q = cp_responseFormat p
       \<and> (case r of Inl _ \<Rightarrow> True | Inr (chunks, terminal, park) \<Rightarrow> (park \<longrightarrow> terminal)
         \<and> (cp_responseFormat p = FormatClaude \<longrightarrow> claudeLines env q = claudeLines env p @ chunks \<and> (terminal \<longrightarrow> chunks \<noteq> [])))) q"
  proof (cases r)
    case (Inl e)
    with 1 show ?thesis by simp
  next
    case (Inr x)
    show ?thesis
      unfolding Inr sum.case
      by (rule sat_mono [OF assms(2) [unfolded streamsEvent_def, rule_format]]) (use 1 sse in \<open>auto split: sum.splits\<close>)
  qed
qed

lemma streamsEvent_none: "streamsEvent env (ret ([], False, False))"
  by (simp add: streamsEvent_def wp)

lemma streamsEvent_goOn: "streams env m \<Longrightarrow> streamsEvent env (goOn m)"
  unfolding goOn_def by (rule streamsEvent_of) auto

lemma streamsEvent_toolHandoff: "streamsEvent env (toolHandoff env park)"
  unfolding toolHandoff_def
proof (rule streamsEvent_bnd [OF silent_gets])
  fix calls :: "ToolCall list"
  have "streamsEvent env (raise e)" for e by (simp add: streamsEvent_def wp)
  moreover have "streams env (inTurn ([start env, closeThinkingBlock env, closeText env] @ map (projectCall env) calls @ [finish env ''tool_use'']))"
    by (rule streams_inTurn) (auto intro: streaming)
  moreover have "speaks (inTurn (([start env, closeThinkingBlock env, closeText env] @ map (projectCall env) calls) @ [finish env ''tool_use'']))"
    by (rule speaks_inTurn) (auto intro: streaming)
  ultimately show "streamsEvent env (if calls = [] then raise (RequestError 502 ''Cursor Agent v1 turnEnded carried no pending tool batch'')
     else bnd (inTurn ([start env, closeThinkingBlock env, closeText env] @ map (projectCall env) calls @ [finish env ''tool_use'']))
       (\<lambda>chunks. ret (chunks, True, park)))"
    by (auto intro: streamsEvent_of)
qed

lemma streamsEvent_handleDone: "streamsEvent env (handleDone env)"
  unfolding handleDone_def
proof (rule streamsEvent_bnd [OF silent_gets])
  fix handoff
  have "streams env (inTurn [start env, closeThinkingBlock env, closeText env, bnd (gets (chatAnnotationChunks env)) ret, finish env ''end_turn''])"
    by (rule streams_inTurn) (auto intro: streaming)
  moreover have "speaks (inTurn ([start env, closeThinkingBlock env, closeText env, bnd (gets (chatAnnotationChunks env)) ret] @ [finish env ''end_turn'']))"
    by (rule speaks_inTurn) (auto intro: streaming)
  ultimately show "streamsEvent env (if handoff then toolHandoff env False
     else bnd (inTurn [start env, closeThinkingBlock env, closeText env, bnd (gets (chatAnnotationChunks env)) ret, finish env ''end_turn''])
       (\<lambda>chunks. ret (chunks, True, False)))"
    using streamsEvent_toolHandoff by (auto intro: streamsEvent_of)
qed

lemma streamsEvent_projectEvent: "streamsEvent env (projectEvent env e)"
  unfolding projectEvent_def meaningful_def
  by (intro streamsEvent_bnd silent_modify)
    (auto split: EventType.split option.split intro!: streamsEvent_bnd streamsEvent_none streamsEvent_goOn streamsEvent_toolHandoff
      streamsEvent_handleDone streaming)

text \<open>What an event gives its reader.\<close>

lemma takeEvent_format: "takeEvent d e p = (r, q) \<Longrightarrow> cp_responseFormat q = cp_responseFormat p"
  using streamsEvent_projectEvent [of "de_env d" e, unfolded streamsEvent_def, rule_format, of p]
  by (auto simp: takeEvent_def sat_def split: prod.splits sum.splits)

lemma takeEvent_Goes:
  assumes "takeEvent d e p = (Goes chunks terminal park calls, q)"
  shows "park \<longrightarrow> terminal"
    and "cp_responseFormat p = FormatClaude \<Longrightarrow> claudeLines (de_env d) q = claudeLines (de_env d) p @ chunks"
    and "cp_responseFormat p = FormatClaude \<Longrightarrow> terminal \<Longrightarrow> chunks \<noteq> []"
    and "calls = (if park \<and> \<not> de_replay d then [CallPark] else [])"
  using streamsEvent_projectEvent [of "de_env d" e, unfolded streamsEvent_def, rule_format, of p] assms
  by (auto simp: takeEvent_def sat_def split: prod.splits sum.splits if_splits option.splits)

lemma takeEvent_Failed:
  assumes "takeEvent d e p = (Failed err calls, q)"
  shows "calls = cancelRun d \<or> parkFails d \<noteq> None \<and> \<not> de_replay d"
  using assms by (auto simp: takeEvent_def split: prod.splits sum.splits if_splits option.splits)


section \<open>Following an answer\<close>

lemma takeEvent_follows:
  assumes "follows (de_env d) opened searches (Inr ()) p" and "searchesSettled opened searches (e # es)"
  shows "case takeEvent d e p of
      (Failed err calls, q) \<Rightarrow> reads (cp_claudeSSE q) Unstarted \<noteq> None
    | (Goes chunks terminal park calls, q) \<Rightarrow> if terminal then handedOver (de_env d) q
        else \<exists>opened searches. follows (de_env d) opened searches (Inr ()) q \<and> searchesSettled opened searches es"
proof -
  obtain r q where r: "projectEvent (de_env d) e p = (r, q)" by force
  with projectEvent_follows [OF assms] have f: "eventFollowed (de_env d) es r q"
    by (simp add: sat_def)
  show ?thesis
  proof (cases r)
    case (Inl err)
    with r f show ?thesis by (simp add: takeEvent_def eventFollowed_def)
  next
    case (Inr x)
    obtain chunks terminal park where x: "x = (chunks, terminal, park)" by (cases x)
    have "park \<longrightarrow> terminal"
      using streamsEvent_projectEvent [of "de_env d" e, unfolded streamsEvent_def, rule_format, of p] r Inr x by (simp add: sat_def)
    with r f Inr x show ?thesis
      by (auto simp: takeEvent_def eventFollowed_def handedOver_def split: option.split)
  qed
qed

lemma executeLoop_follows:
  assumes "follows (de_env d) opened searches (Inr ()) p" and "searchesSettled opened searches (arrivedEvents arrivals)"
    and "executeLoop d arrivals p = (r, calls, q)"
  shows "case r of Inl e \<Rightarrow> reads (cp_claudeSSE q) Unstarted \<noteq> None | Inr body \<Rightarrow> handedOver (de_env d) q"
  using assms
proof (induction d arrivals p arbitrary: opened searches r calls q rule: executeLoop.induct)
  case (1 d p)
  then show ?case by (auto simp: follows_Inr followed_def)
next
  case (2 d rest p)
  then show ?case by (auto simp: follows_Inr followed_def)
next
  case (3 d event rest p)
  have step: "searchesSettled opened searches (event # arrivedEvents rest)" using 3(3) by simp
  note taken = takeEvent_follows [OF 3(2) step]
  show ?case
  proof (cases "takeEvent d event p")
    case (Pair t p')
    show ?thesis
    proof (cases t)
      case (Failed e c)
      with Pair taken 3(4) show ?thesis by auto
    next
      case (Goes chunks terminal park c)
      show ?thesis
      proof (cases terminal)
        case True
        with Pair Goes taken 3(4) show ?thesis by (auto simp: handedOver_def split: sum.split)
      next
        case False
        with Pair Goes taken obtain o' s' where
          "follows (de_env d) o' s' (Inr ()) p'" "searchesSettled o' s' (arrivedEvents rest)" by auto
        with 3(1) [OF Pair [symmetric] Goes False] 3(4) Pair Goes False show ?thesis
          by (auto split: prod.splits)
      qed
    qed
  qed
qed

lemma new_follows: "follows env False [] (Inr ()) (newClaudeProjection env' turn)"
  by (simp add: follows_Inr followed_def shape_def clientOf_def newClaudeProjection_def Let_def)

section \<open>What the stream sends\<close>

lemma sendAll_free [simp]: "sendAll cs [] = (map Payload cs, True, [])"
  by (induction cs) simp_all

lemma continueStream_agrees:
  assumes "cp_responseFormat p = FormatClaude" and "executeLoop d arrivals p = (Inr body, calls, q)"
  shows "\<exists>chunks. continueStream d alive arrivals [] p = (map Payload chunks, calls, q)
    \<and> claudeLines (de_env d) q = claudeLines (de_env d) p @ chunks"
  using assms
proof (induction d arrivals p arbitrary: calls rule: executeLoop.induct)
  case (3 d event rest p)
  obtain t p' where t: "takeEvent d event p = (t, p')" by force
  with 3(3) obtain chunks terminal park c where Goes: "t = Goes chunks terminal park c" by (cases t) auto
  note lines = takeEvent_Goes [OF t [unfolded Goes]]
  show ?case
  proof (cases terminal)
    case True
    with t Goes 3(3) lines(2) [OF 3(2)] show ?thesis by auto
  next
    case False
    with t Goes 3(3) obtain after where rest: "executeLoop d rest p' = (Inr body, after, q)" "calls = c @ after"
      by (auto split: prod.splits)
    obtain tl where tl: "continueStream d alive rest [] p' = (map Payload tl, after, q)"
        "claudeLines (de_env d) q = claudeLines (de_env d) p' @ tl"
      using 3(1) [OF t [symmetric] Goes False _ rest(1)] takeEvent_format [OF t] 3(2) by auto
    with t Goes False rest lines(1,2) 3(2) show ?thesis by (intro exI [of _ "chunks @ tl"]) auto
  qed
qed auto

lemma bootstrap_agrees:
  assumes "cp_responseFormat p = FormatClaude" and "executeLoop d arrivals p = (Inr body, calls, q)"
  shows "\<exists>chunks. executeStream d alive arrivals [] p = (Inr (map Payload chunks), calls, q)
    \<and> claudeLines (de_env d) q = claudeLines (de_env d) p @ chunks"
  using assms
proof (induction d arrivals p arbitrary: calls rule: executeLoop.induct)
  case (3 d event rest p)
  obtain t p' where t: "takeEvent d event p = (t, p')" by force
  with 3(3) obtain chunks terminal park c where Goes: "t = Goes chunks terminal park c" by (cases t) auto
  note lines = takeEvent_Goes [OF t [unfolded Goes]]
  have format: "cp_responseFormat p' = FormatClaude" using takeEvent_format [OF t] 3(2) by simp
  consider (over) terminal | (silent) "\<not> terminal" "chunks = []" | (first) "\<not> terminal" "chunks \<noteq> []" by blast
  then show ?case
  proof cases
    case over
    with t Goes 3(3) lines(2,3) [OF 3(2)] show ?thesis
      by (auto simp: executeStream_def emitStream_def)
  next
    case silent
    with t Goes 3(3) obtain after where rest: "executeLoop d rest p' = (Inr body, after, q)" "calls = c @ after"
      by (auto split: prod.splits)
    obtain tl where tl: "executeStream d alive rest [] p' = (Inr (map Payload tl), after, q)"
        "claudeLines (de_env d) q = claudeLines (de_env d) p' @ tl"
      using 3(1) [OF t [symmetric] Goes silent(1) format rest(1)] by auto
    with t Goes silent rest lines(2) [OF 3(2)] show ?thesis
      by (intro exI [of _ tl]) (auto simp: executeStream_def split: prod.splits sum.splits)
  next
    case first
    with t Goes 3(3) obtain after where rest: "executeLoop d rest p' = (Inr body, after, q)" "calls = c @ after"
      by (auto split: prod.splits)
    from continueStream_agrees [OF format rest(1), of alive] obtain tl where
      tl: "continueStream d alive rest [] p' = (map Payload tl, after, q)"
        "claudeLines (de_env d) q = claudeLines (de_env d) p' @ tl" by auto
    with t Goes first rest lines(2) [OF 3(2)] show ?thesis
      by (intro exI [of _ "chunks @ tl"]) (auto simp: executeStream_def emitStream_def)
  qed
qed auto


lemma executeLoop_body: "executeLoop d arrivals p = (Inr body, calls, q) \<Longrightarrow> nonStream (de_env d) q = Inr body"
proof (induction d arrivals p arbitrary: calls rule: executeLoop.induct)
  case (3 d event rest p)
  obtain t p' where t: "takeEvent d event p = (t, p')" by force
  with 3(2) obtain chunks terminal park c where Goes: "t = Goes chunks terminal park c" by (cases t) auto
  with t 3(2) 3(1) [OF t [symmetric] Goes] show ?case by (cases terminal) (auto split: prod.splits)
qed auto

lemma executeLoop_format: "executeLoop d arrivals p = (r, calls, q) \<Longrightarrow> cp_responseFormat q = cp_responseFormat p"
proof (induction d arrivals p arbitrary: r calls q rule: executeLoop.induct)
  case (3 d event rest p)
  obtain t p' where t: "takeEvent d event p = (t, p')" by force
  show ?case
  proof (cases t)
    case (Goes chunks terminal park c)
    with t takeEvent_format [OF t] 3(2) 3(1) [OF t [symmetric] Goes] show ?thesis
      by (cases terminal) (auto split: prod.splits)
  qed (use t takeEvent_format [OF t] 3(2) in auto)
qed auto

section \<open>Parking and cancelling\<close>

definition oneCall :: "delivery \<Rightarrow> managerCall list \<Rightarrow> bool" where
  "oneCall d calls \<longleftrightarrow> calls \<in> {[], [CallPark], [CallCancel]} \<and> (de_replay d \<longrightarrow> calls = [])"

lemma oneCall_simps [simp]: "oneCall d []" "oneCall d (cancelRun d)"
  by (simp_all add: oneCall_def cancelRun_def)

lemma takeEvent_calls:
  assumes "parkFails d = None" and "takeEvent d e p = (t, q)"
  shows "case t of Failed err calls \<Rightarrow> calls = cancelRun d
    | Goes chunks terminal park calls \<Rightarrow> oneCall d calls \<and> (\<not> terminal \<longrightarrow> calls = [])"
proof (cases t)
  case (Failed err calls)
  with takeEvent_Failed [of d e p err calls q] assms show ?thesis by simp
next
  case (Goes chunks terminal park calls)
  with takeEvent_Goes(1,4) [of d e p chunks terminal park calls q] assms show ?thesis
    by (auto simp: oneCall_def)
qed

lemma executeLoop_calls:
  assumes "parkFails d = None" and "executeLoop d arrivals p = (r, calls, q)"
  shows "oneCall d calls"
  using assms
proof (induction d arrivals p arbitrary: r calls q rule: executeLoop.induct)
  case (3 d event rest p)
  obtain t p' where t: "takeEvent d event p = (t, p')" by force
  show ?case
  proof (cases t)
    case (Goes chunks terminal park c)
    with t takeEvent_calls [OF 3(2) t] 3(3) 3(1) [OF t [symmetric] Goes _ 3(2)] show ?thesis
      by (cases terminal) (auto split: prod.splits)
  qed (use t takeEvent_calls [OF 3(2) t] 3(3) in auto)
qed auto

lemma continueStream_calls:
  assumes "parkFails d = None" and "continueStream d alive arrivals sends p = (sent, calls, q)"
  shows "oneCall d calls"
  using assms
proof (induction d alive arrivals sends p arbitrary: sent calls q rule: continueStream.induct)
  case (3 d alive event rest sends p)
  obtain t p' where t: "takeEvent d event p = (t, p')" by force
  show ?case
  proof (cases t)
    case (Goes chunks terminal park c)
    obtain s a s' where sent: "sendAll chunks sends = (s, a, s')" by (cases "sendAll chunks sends") auto
    with Goes t takeEvent_calls [OF 3(2) t] 3(3) 3(1) [OF t [symmetric] Goes sent [symmetric] refl _ _ 3(2)] takeEvent_Goes(1) [OF t [unfolded Goes]]
    show ?thesis
      by (cases a; cases terminal) (auto split: prod.splits)
  qed (use t takeEvent_calls [OF 3(2) t] 3(3) in auto)
qed auto

lemma bootstrap_calls:
  assumes "parkFails d = None" and "cp_responseFormat p = FormatClaude" and "bootstrap d arrivals p = (r, calls, q)"
  shows "oneCall d calls \<and> (case r of Inl _ \<Rightarrow> True | Inr (chunks, terminal, rest) \<Rightarrow> \<not> terminal \<longrightarrow> calls = [])"
  using assms
proof (induction d arrivals p arbitrary: r calls q rule: bootstrap.induct)
  case (3 d event rest p)
  obtain t p' where t: "takeEvent d event p = (t, p')" by force
  show ?case
  proof (cases t)
    case (Goes chunks terminal park c)
    have format: "cp_responseFormat p' = FormatClaude" using takeEvent_format [OF t] 3(3) by simp
    show ?thesis
    proof (cases "chunks = []")
      case True
      with takeEvent_Goes(3) [OF t [unfolded Goes] 3(3)] have "\<not> terminal" by blast
      with True t Goes takeEvent_calls [OF 3(2) t] 3(4) 3(1) [OF t [symmetric] Goes _ 3(2) format] show ?thesis
        by (auto split: prod.splits)
    qed (use t Goes takeEvent_calls [OF 3(2) t] 3(4) in auto)
  qed (use t takeEvent_calls [OF 3(2) t] 3(4) in auto)
qed auto

lemma executeStream_calls:
  assumes "parkFails d = None" and "cp_responseFormat p = FormatClaude" and "executeStream d alive arrivals sends p = (r, calls, q)"
  shows "oneCall d calls"
proof -
  obtain b c p' where b: "bootstrap d arrivals p = (b, c, p')" by (cases "bootstrap d arrivals p") auto
  note boot = bootstrap_calls [OF assms(1,2) b]
  show ?thesis
  proof (cases b)
    case (Inl e)
    with b boot assms(3) show ?thesis by (auto simp: executeStream_def)
  next
    case (Inr x)
    obtain first terminal rest where x: "x = (first, terminal, rest)" by (cases x) auto
    obtain s a s' where sent: "sendAll first sends = (s, a, s')" by (cases "sendAll first sends") auto
    obtain s2 c2 q2 where cont: "continueStream d alive rest s' p' = (s2, c2, q2)" by (cases "continueStream d alive rest s' p'") auto
    from continueStream_calls [OF assms(1) cont] b boot Inr x sent cont assms(3) show ?thesis
      by (cases a; cases terminal) (auto simp: executeStream_def emitStream_def)
  qed
qed


section \<open>Properties\<close>

text \<open>
  C13: Whatever the events of a run are, and however the answer ends, the Claude stream that every format is
  projected from can be read: a message starts once, its content blocks are opened with consecutive indices, filled
  and closed one at a time, and the end of the message follows the last block; after a failure what was written is
  the beginning of such a stream.  When an answer is returned the stream is complete, and what a reader assembles
  from its deltas, block by block, is the content of the answer that is not streamed.  The events are those of a run
  that completes no search announced earlier while text or thinking is open.
\<close>

theorem stream_is_well_formed:
  assumes "pt_responseFormat turn \<noteq> FormatOpenAIResponse"
    and "searchesSettled False [] (arrivedEvents arrivals)"
    and "executeLoop d arrivals (newClaudeProjection (de_env d) turn) = (r, calls, q)"
  shows "case r of Inl e \<Rightarrow> reads (cp_claudeSSE q) Unstarted \<noteq> None
    | Inr body \<Rightarrow> reads (cp_claudeSSE q) Unstarted = Some (Finished (map (asSent (de_env d)) (cp_blocks q)))"
  using executeLoop_follows [OF new_follows assms(2,3)] by (cases r) (auto simp: handedOver_def)

text \<open>
  C12: A Claude client gets the same answer streamed and not streamed.  Provided that no hosted search that was
  announced before completes while a text or thinking block may be open (\<open>searchesSettled\<close>; otherwise the
  stream is broken, see \<open>late_search_result_breaks_stream\<close>), when a request that is not streamed returns an
  answer, the same events give a stream that ends without an error and without a different call of the manager,
  whose chunks are the projected events in their order, and whose reader assembles exactly the content blocks of the
  message the other answer encodes.
\<close>

theorem stream_and_answer_agree:
  assumes "pt_responseFormat turn = FormatClaude"
    and "searchesSettled False [] (arrivedEvents arrivals)"
    and "executeLoop d arrivals (newClaudeProjection (de_env d) turn) = (Inr body, calls, q)"
  shows "\<exists>chunks. executeStream d alive arrivals [] (newClaudeProjection (de_env d) turn) = (Inr (map Payload chunks), calls, q)
    \<and> chunks = map (\<lambda>event. ''data: '' @ encodeEvent (de_env d) event @ blankLineEnd) (cp_claudeSSE q)
    \<and> reads (cp_claudeSSE q) Unstarted = Some (Finished (map (asSent (de_env d)) (cp_blocks q)))
    \<and> pj_marshal (de_env d) (nonStreamMessage (de_env d) q) = Inr body"
proof -
  have format: "cp_responseFormat (newClaudeProjection (de_env d) turn) = FormatClaude"
    and empty: "claudeLines (de_env d) (newClaudeProjection (de_env d) turn) = []"
    using assms(1) by (simp_all add: newClaudeProjection_def claudeLines_def Let_def)
  have q: "cp_responseFormat q = FormatClaude"
    using executeLoop_format [OF assms(3)] format by simp
  have read: "handedOver (de_env d) q"
    using executeLoop_follows [OF new_follows assms(2,3)] by simp
  from executeLoop_body [OF assms(3)] q have "pj_marshal (de_env d) (nonStreamMessage (de_env d) q) = Inr body"
    by (simp add: nonStream_def split: sum.splits)
  with bootstrap_agrees [OF format assms(3), of alive] empty read show ?thesis
    by (auto simp: handedOver_def claudeLines_def)
qed

text \<open>
  C14: A tool batch that is handed to a Claude client survives it.  Whenever the manager accepts the parking of a
  run, the loops that answer a request, streamed or not, call the manager at most once: they park the run, or cancel
  it, or neither, whatever events come, whenever the client leaves and whichever chunk it no longer takes; and a
  replayed answer neither parks nor cancels anything.
\<close>

theorem parked_batch_survives:
  assumes "parkFails d = None" and "cp_responseFormat p = FormatClaude"
  shows "oneCall d (fst (snd (executeLoop d arrivals p))) \<and> oneCall d (fst (snd (executeStream d alive arrivals sends p)))"
  using executeLoop_calls [OF assms(1)] executeStream_calls [OF assms] by (metis prod.collapse)

section \<open>Examples\<close>

definition exampleProjection :: projectionEnv where
  "exampleProjection = \<lparr>pj_links = \<lparr>ln_lower = id, ln_parseURL = (\<lambda>_. None), ln_parseIP = (\<lambda>_. False), ln_match = (\<lambda>_. None)\<rparr>,
     pj_sha = id, pj_uuid = ''u'', pj_marshal = (\<lambda>_. Inr ''{}''), pj_unmarshal = (\<lambda>_. Some (JObj [])), pj_toInt = (\<lambda>_. 0),
     pj_translate = (\<lambda>_ _ line param. ([line], param)), pj_translateNonStream = (\<lambda>_ _ sse _. sse),
     pj_countTokens = (\<lambda>_ _. None), pj_countInput = None\<rparr>"

definition exampleDelivery :: delivery where
  "exampleDelivery = \<lparr>de_env = exampleProjection, de_replay = False, de_park = None, de_result = None, de_ctxErr = ErrCanceled\<rparr>"

definition examplePrompt :: projectedTurn where
  "examplePrompt = \<lparr>pt_managed = \<lparr>mr_TurnMetering = False, mr_RequestSegmentID = [], mr_SessionID = ''s'', mr_BillingRunID = ''b'',
     mr_CredentialScope = ''scope'', mr_AccountKey = ''key'', mr_ToolCatalogDigest = [], mr_FollowUpText = [],
     mr_ActiveResults = [], mr_CarryUsage = [], mr_RequireExisting = False, mr_ReuseBillingRun = False,
     mr_Context = None, mr_Run = newRunRequest, mr_DisableCallerTools = False\<rparr>, pt_responseFormat = FormatClaude, pt_publicModel = ''m''\<rparr>"

text \<open>Text, a search, more text and a tool call that is handed over.\<close>

definition exampleFound :: HostedSearch where
  "exampleFound = \<lparr>hs_CallID = ''c'', hs_Kind = HostedSearchKindWebSearch, hs_Query = ''q'', hs_URL = [], hs_ArgsJSON = [],
     hs_References = [], hs_Content = [], hs_Error = []\<rparr>"

definition exampleArrivals :: "arrival list" where
  "exampleArrivals = map Arrived [(newEvent EventText)\<lparr>ev_Text := ''a''\<rparr>,
     (newEvent EventHostedSearchStarted)\<lparr>ev_HostedSearch := Some exampleFound\<rparr>,
     (newEvent EventHostedSearchCompleted)\<lparr>ev_HostedSearch := Some exampleFound\<rparr>,
     (newEvent EventText)\<lparr>ev_Text := ''b''\<rparr>,
     (newEvent EventToolCall)\<lparr>ev_ToolCall := Some \<lparr>tc_MessageID = 1, tc_ExecID = ''e'', tc_ToolCallID = ''t'', tc_Name = ''n'', tc_Arguments = []\<rparr>\<rparr>,
     newEvent EventTurnEnded]"


abbreviation exampleStart :: claudeProjection where
  "exampleStart \<equiv> newClaudeProjection (de_env exampleDelivery) examplePrompt"

lemma example_settled: "searchesSettled False [] (arrivedEvents exampleArrivals)"
  by code_simp

lemma example_delivered: "\<exists>q. executeLoop exampleDelivery exampleArrivals exampleStart = (Inr ''{}'', [CallPark], q) \<and> length (cp_blocks q) = 5"
proof -
  obtain r calls q where run: "executeLoop exampleDelivery exampleArrivals exampleStart = (r, calls, q)" by (metis prod.collapse)
  have "fst (executeLoop exampleDelivery exampleArrivals exampleStart) = Inr ''{}''" by code_simp
  moreover have "fst (snd (executeLoop exampleDelivery exampleArrivals exampleStart)) = [CallPark]" by code_simp
  moreover have "length (cp_blocks (snd (snd (executeLoop exampleDelivery exampleArrivals exampleStart)))) = 5" by code_simp
  ultimately show ?thesis using run by simp
qed

theorem stream_is_well_formed_witness:
  "\<exists>q. executeLoop exampleDelivery exampleArrivals exampleStart = (Inr ''{}'', [CallPark], q) \<and> length (cp_blocks q) = 5
    \<and> reads (cp_claudeSSE q) Unstarted = Some (Finished (map (asSent exampleProjection) (cp_blocks q)))"
proof -
  obtain q where q: "executeLoop exampleDelivery exampleArrivals exampleStart = (Inr ''{}'', [CallPark], q)" "length (cp_blocks q) = 5"
    using example_delivered by blast
  have "pt_responseFormat examplePrompt \<noteq> FormatOpenAIResponse" by (simp add: examplePrompt_def)
  from stream_is_well_formed [OF this example_settled q(1)] q show ?thesis by (simp add: exampleDelivery_def)
qed

theorem stream_and_answer_agree_witness:
  "\<exists>q chunks. executeLoop exampleDelivery exampleArrivals exampleStart = (Inr ''{}'', [CallPark], q) \<and> length (cp_blocks q) = 5
    \<and> executeStream exampleDelivery True exampleArrivals [] exampleStart = (Inr (map Payload chunks), [CallPark], q)
    \<and> reads (cp_claudeSSE q) Unstarted = Some (Finished (map (asSent exampleProjection) (cp_blocks q)))"
proof -
  obtain q where q: "executeLoop exampleDelivery exampleArrivals exampleStart = (Inr ''{}'', [CallPark], q)" "length (cp_blocks q) = 5"
    using example_delivered by blast
  have "pt_responseFormat examplePrompt = FormatClaude" by (simp add: examplePrompt_def)
  from stream_and_answer_agree [OF this example_settled q(1), of True] obtain chunks where
    "executeStream exampleDelivery True exampleArrivals [] exampleStart = (Inr (map Payload chunks), [CallPark], q)"
    "reads (cp_claudeSSE q) Unstarted = Some (Finished (map (asSent (de_env exampleDelivery)) (cp_blocks q)))" by blast
  moreover have "de_env exampleDelivery = exampleProjection" by (simp add: exampleDelivery_def)
  ultimately show ?thesis using q by metis
qed

text \<open>The client leaves before the last chunk of a handed over batch.\<close>

theorem parked_batch_survives_witness:
  "fst (snd (executeStream exampleDelivery True exampleArrivals (replicate 14 True @ [False]) exampleStart)) = [CallPark]
    \<and> oneCall exampleDelivery (fst (snd (executeLoop exampleDelivery exampleArrivals exampleStart)))
    \<and> oneCall exampleDelivery (fst (snd (executeStream exampleDelivery True exampleArrivals (replicate 14 True @ [False]) exampleStart)))"
proof (intro conjI)
  show "fst (snd (executeStream exampleDelivery True exampleArrivals (replicate 14 True @ [False]) exampleStart)) = [CallPark]"
    by code_simp
  have d: "parkFails exampleDelivery = None" "cp_responseFormat exampleStart = FormatClaude"
    by (simp_all add: parkFails_def exampleDelivery_def newClaudeProjection_def examplePrompt_def Let_def)
  show "oneCall exampleDelivery (fst (snd (executeLoop exampleDelivery exampleArrivals exampleStart)))"
    "oneCall exampleDelivery (fst (snd (executeStream exampleDelivery True exampleArrivals (replicate 14 True @ [False]) exampleStart)))"
    using parked_batch_survives [OF d, of exampleArrivals True "replicate 14 True @ [False]"] by blast+
qed

text \<open>
  A search that completes after text has begun: its result is opened inside the text block, and no reader can
  follow the stream any more.
\<close>

lemma late_search_result_breaks_stream:
  "reads (cp_claudeSSE (snd (snd (executeLoop exampleDelivery (map Arrived
      [(newEvent EventHostedSearchStarted)\<lparr>ev_HostedSearch := Some exampleFound\<rparr>,
       (newEvent EventText)\<lparr>ev_Text := ''a''\<rparr>,
       (newEvent EventHostedSearchCompleted)\<lparr>ev_HostedSearch := Some exampleFound\<rparr>,
       newEvent EventDone]) exampleStart)))) Unstarted = None"
  by code_simp

end
