(* ===== verification/Responses.thy ===== *)
theory Responses
  imports Projection
begin

text \<open>
  The projection of a run's events to the Responses API (\<open>project_responses.go\<close>): every event becomes numbered
  events over output items, which are added, filled and finished by index; the answer that is not streamed is the
  object the last event carries.  An event of the stream is a pair of its name and payload; the clock is a parameter.
\<close>

section \<open>State\<close>

record responsesOutputItem =
  ri_Index :: nat
  ri_ID :: string
  ri_Type :: string
  ri_Status :: string
  ri_CallID :: string
  ri_Name :: string
  ri_Text :: string
  ri_Arguments :: string
  ri_Action :: object
  ri_Annotations :: "json list"

definition newItem :: "nat \<Rightarrow> string \<Rightarrow> string \<Rightarrow> responsesOutputItem" where
  "newItem i ident kind = \<lparr>ri_Index = i, ri_ID = ident, ri_Type = kind, ri_Status = ''completed'', ri_CallID = [], ri_Name = [],
     ri_Text = [], ri_Arguments = [], ri_Action = [], ri_Annotations = []\<rparr>"

record responsesProjection =
  rp_base :: claudeProjection
  rp_out :: nat
  rp_span :: nat
  rp_started :: bool
  rp_createdAt :: int
  rp_reasoningOpen :: bool
  rp_reasoningIndex :: nat
  rp_reasoningID :: string
  rp_reasoning :: string
  rp_messageOpen :: bool
  rp_messageIndex :: nat
  rp_messageID :: string
  rp_text :: string
  rp_byIndex :: "(nat \<times> responsesOutputItem) list"
  rp_searchIndex :: "(string \<times> nat) list"

definition newResponsesProjection :: "claudeProjection \<Rightarrow> responsesProjection" where
  "newResponsesProjection p = \<lparr>rp_base = p, rp_out = 0, rp_span = 0, rp_started = False, rp_createdAt = 0, rp_reasoningOpen = False,
     rp_reasoningIndex = 0, rp_reasoningID = [], rp_reasoning = [], rp_messageOpen = False, rp_messageIndex = 0, rp_messageID = [],
     rp_text = [], rp_byIndex = [], rp_searchIndex = []\<rparr>"

type_synonym responsesEvent = "string \<times> json"
type_synonym respond = "responsesProjection \<Rightarrow> responsesEvent list \<times> responsesProjection"

definition responsesSSE :: "projectionEnv \<Rightarrow> responsesEvent \<Rightarrow> string" where
  "responsesSSE env e = ''event: '' @ fst e @ [CHR 0x0A] @ ''data: '' @ encodeEvent env (snd e) @ blankLineEnd"

fun stepsR :: "respond list \<Rightarrow> respond" where
  "stepsR [] p = ([], p)"
| "stepsR (m # ms) p = (case m p of (a, p1) \<Rightarrow> (case stepsR ms p1 of (b, p2) \<Rightarrow> (a @ b, p2)))"

definition changing :: "(responsesProjection \<Rightarrow> responsesProjection) \<Rightarrow> respond" where
  "changing f p = ([], f p)"

text \<open>One event with the next sequence number.\<close>

definition nextResponsesSeq :: "string \<Rightarrow> (responsesProjection \<Rightarrow> object) \<Rightarrow> respond" where
  "nextResponsesSeq kind members p = (let n = cp_responsesSeq (rp_base p) + 1 in
     ([(kind, JObj ((''type'', JStr kind) # (''sequence_number'', num n) # members p))],
      p\<lparr>rp_base := (rp_base p)\<lparr>cp_responsesSeq := n\<rparr>\<rparr>))"

section \<open>Items\<close>

definition responsesItemJSON :: "responsesOutputItem \<Rightarrow> json" where
  "responsesItemJSON item =
     (if ri_Type item = ''reasoning'' then JObj [(''id'', JStr (ri_ID item)), (''type'', JStr ''reasoning''), (''status'', JStr (ri_Status item)),
        (''summary'', JArr [JObj [(''type'', JStr ''summary_text''), (''text'', JStr (ri_Text item))]])]
      else if ri_Type item = ''web_search_call'' then JObj [(''id'', JStr (ri_ID item)), (''type'', JStr ''web_search_call''),
        (''status'', JStr (ri_Status item)), (''action'', JObj (ri_Action item))]
      else if ri_Type item = ''function_call'' then JObj [(''id'', JStr (ri_ID item)), (''type'', JStr ''function_call''),
        (''status'', JStr (ri_Status item)), (''call_id'', JStr (ri_CallID item)), (''name'', JStr (ri_Name item)),
        (''arguments'', JStr (ri_Arguments item))]
      else JObj [(''id'', JStr (ri_ID item)), (''type'', JStr ''message''), (''status'', JStr (ri_Status item)), (''role'', JStr ''assistant''),
        (''content'', JArr [JObj [(''type'', JStr ''output_text''), (''text'', JStr (ri_Text item)), (''annotations'', JArr (ri_Annotations item))]])])"

definition storeResponsesItem :: "responsesOutputItem \<Rightarrow> respond" where
  "storeResponsesItem item = changing (\<lambda>p. p\<lparr>rp_byIndex := AList.update (ri_Index item) item (rp_byIndex p)\<rparr>)"

definition responsesOutputJSON :: "responsesProjection \<Rightarrow> json list" where
  "responsesOutputJSON p = List.map_filter (\<lambda>i. map_option responsesItemJSON (map_of (rp_byIndex p) i)) [0..<rp_out p]"

definition hostedSearchActionSources :: "linkEnv \<Rightarrow> HostedSearch \<Rightarrow> json list" where
  "hostedSearchActionSources env search = map (\<lambda>r. JObj [(''type'', JStr ''url''), (''url'', JStr (hr_URL r))]) (usableHostedSearchReferences env search)"

definition hostedSearchResponsesAction :: "linkEnv \<Rightarrow> HostedSearch \<Rightarrow> object" where
  "hostedSearchResponsesAction env search =
     (if isFetch search then [(''type'', JStr ''open_page''), (''url'', JStr (fetchURL search))]
      else [(''type'', JStr ''search''), (''query'', JStr (hs_Query search))]
        @ (if hostedSearchActionSources env search = [] then [] else [(''sources'', JArr (hostedSearchActionSources env search))]))"

definition responsesTextAnnotations :: "linkEnv \<Rightarrow> claudeProjection \<Rightarrow> json list" where
  "responsesTextAnnotations env p = concat (map (\<lambda>citation. case citation of
     JObj block \<Rightarrow> (let url = stringValue (map_of block ''url'') in
       if usableHTTPSourceURL env url
       then [JObj [(''type'', JStr ''url_citation''), (''url'', JStr url), (''title'', JStr (stringValue (map_of block ''title''))),
              (''start_index'', num 0), (''end_index'', num 0)]] else [])
   | _ \<Rightarrow> []) (cp_citations p))"

section \<open>The response object\<close>

definition responsesUsage :: "projectionEnv \<Rightarrow> claudeProjection \<Rightarrow> object" where
  "responsesUsage env p =
     (let tokens = outputTokens env p;
          u0 = [(''input_tokens'', num 0), (''input_tokens_details'', JObj [(''cached_tokens'', num 0), (''cache_write_tokens'', num 0)]),
            (''output_tokens'', num tokens), (''output_tokens_details'', JObj [(''reasoning_tokens'', num 0)]), (''total_tokens'', num tokens)];
          u1 = (case factsMeasuredTurn (cp_facts p) of
              Some m \<Rightarrow> AList.update ''total_tokens'' (num (mt_TotalInput m + mt_Output m))
                (AList.update ''output_tokens_details'' (JObj [(''reasoning_tokens'', num (mt_Reasoning m))])
                (AList.update ''input_tokens_details'' (JObj [(''cached_tokens'', num (mt_CacheRead m)), (''cache_write_tokens'', num (mt_CacheWrite m))])
                (AList.update ''input_tokens'' (num (mt_TotalInput m)) u0)))
            | None \<Rightarrow> if uf_measuredEnabled (cp_facts p)
                then AList.update ''total_tokens'' (num (estimatedInputTokens env + tokens)) (AList.update ''input_tokens'' (num (estimatedInputTokens env)) u0)
                else u0)
      in attachPrivateUsage p u1)"

definition responsesEnvelope :: "projectionEnv \<Rightarrow> string \<Rightarrow> json list \<Rightarrow> responsesProjection \<Rightarrow> object" where
  "responsesEnvelope env status items p =
     [(''id'', JStr (cp_messageID (rp_base p))), (''object'', JStr ''response''), (''created_at'', num (rp_createdAt p)),
      (''status'', JStr status), (''model'', JStr (cp_model (rp_base p))), (''output'', JArr items), (''error'', JNull),
      (''usage'', if status = ''in_progress'' then JNull else JObj (responsesUsage env (rp_base p)))]"

definition responsesNonStream :: "projectionEnv \<Rightarrow> responsesProjection \<Rightarrow> string res" where
  "responsesNonStream env p = pj_marshal env (JObj (responsesEnvelope env ''completed'' (responsesOutputJSON p) p))"

section \<open>Opening and closing items\<close>

definition responsesStart :: "projectionEnv \<Rightarrow> int \<Rightarrow> respond" where
  "responsesStart env now p = (if rp_started p then ([], p)
     else let p1 = p\<lparr>rp_started := True, rp_createdAt := now\<rparr>;
              response = [(''response'', JObj (responsesEnvelope env ''in_progress'' [] p1))]
          in stepsR [nextResponsesSeq ''response.created'' (\<lambda>_. response), nextResponsesSeq ''response.in_progress'' (\<lambda>_. response)] p1)"

text \<open>The members that name an item and its position.\<close>

definition at :: "nat \<Rightarrow> string \<Rightarrow> object" where
  "at i ident = [(''item_id'', JStr ident), (''output_index'', num (int i))]"

definition addedItem :: "nat \<Rightarrow> object \<Rightarrow> object" where
  "addedItem i item = [(''output_index'', num (int i)), (''item'', JObj item)]"

text \<open>\<open>nextResponsesOutput\<close> followed by \<open>respSpan++\<close>, and the identifier of the new item.\<close>

definition spanID :: "string \<Rightarrow> responsesProjection \<Rightarrow> string" where
  "spanID prefix p = prefix @ cp_messageID (rp_base p) @ ''_'' @ natDecimal (rp_span p + 1)"

definition responsesEnsureReasoning :: respond where
  "responsesEnsureReasoning p = (if rp_reasoningOpen p then ([], p)
     else let i = rp_out p; ident = spanID ''rs_'' p in
       stepsR [changing (\<lambda>p. p\<lparr>rp_reasoningOpen := True, rp_reasoningIndex := i, rp_out := Suc i, rp_span := rp_span p + 1, rp_reasoningID := ident\<rparr>),
         nextResponsesSeq ''response.output_item.added'' (\<lambda>_. addedItem i [(''id'', JStr ident), (''type'', JStr ''reasoning''),
           (''status'', JStr ''in_progress''), (''summary'', JArr [])]),
         nextResponsesSeq ''response.reasoning_summary_part.added'' (\<lambda>_. at i ident @ [(''summary_index'', num 0),
           (''part'', JObj [(''type'', JStr ''summary_text''), (''text'', JStr [])])])] p)"

definition responsesCloseReasoning :: respond where
  "responsesCloseReasoning p = (if \<not> rp_reasoningOpen p then ([], p)
     else let i = rp_reasoningIndex p; ident = rp_reasoningID p; t = rp_reasoning p;
              item = (newItem i ident ''reasoning'')\<lparr>ri_Text := t\<rparr> in
       stepsR [changing (\<lambda>p. p\<lparr>rp_reasoningOpen := False, rp_reasoning := []\<rparr>), storeResponsesItem item,
         nextResponsesSeq ''response.reasoning_summary_text.done'' (\<lambda>_. at i ident @ [(''summary_index'', num 0), (''text'', JStr t)]),
         nextResponsesSeq ''response.reasoning_summary_part.done'' (\<lambda>_. at i ident @ [(''summary_index'', num 0),
           (''part'', JObj [(''type'', JStr ''summary_text''), (''text'', JStr t)])]),
         nextResponsesSeq ''response.output_item.done'' (\<lambda>_. [(''output_index'', num (int i)), (''item'', responsesItemJSON item)])] p)"

definition responsesEnsureMessage :: respond where
  "responsesEnsureMessage p = (if rp_messageOpen p then ([], p)
     else let i = rp_out p; ident = spanID ''msg_'' p in
       stepsR [changing (\<lambda>p. p\<lparr>rp_messageOpen := True, rp_messageIndex := i, rp_out := Suc i, rp_span := rp_span p + 1, rp_messageID := ident\<rparr>),
         nextResponsesSeq ''response.output_item.added'' (\<lambda>_. addedItem i [(''id'', JStr ident), (''type'', JStr ''message''),
           (''status'', JStr ''in_progress''), (''role'', JStr ''assistant''), (''content'', JArr [])]),
         nextResponsesSeq ''response.content_part.added'' (\<lambda>_. at i ident @ [(''content_index'', num 0),
           (''part'', JObj [(''type'', JStr ''output_text''), (''text'', JStr []), (''annotations'', JArr [])])])] p)"

definition responsesCloseMessage :: "projectionEnv \<Rightarrow> respond" where
  "responsesCloseMessage env p = (if \<not> rp_messageOpen p then ([], p)
     else let i = rp_messageIndex p; ident = rp_messageID p; t = rp_text p;
              annotations = responsesTextAnnotations (pj_links env) (rp_base p);
              item = (newItem i ident ''message'')\<lparr>ri_Text := t, ri_Annotations := annotations\<rparr> in
       stepsR [changing (\<lambda>p. p\<lparr>rp_messageOpen := False, rp_text := []\<rparr>), storeResponsesItem item,
         nextResponsesSeq ''response.output_text.done'' (\<lambda>_. at i ident @ [(''content_index'', num 0), (''text'', JStr t)]),
         nextResponsesSeq ''response.content_part.done'' (\<lambda>_. at i ident @ [(''content_index'', num 0),
           (''part'', JObj [(''type'', JStr ''output_text''), (''text'', JStr t), (''annotations'', JArr annotations)])]),
         nextResponsesSeq ''response.output_item.done'' (\<lambda>_. [(''output_index'', num (int i)), (''item'', responsesItemJSON item)])] p)"

section \<open>Searches and calls\<close>

definition searchItemID :: "HostedSearch \<Rightarrow> string" where
  "searchItemID search = ''ws_'' @ hostedSearchToolID search"

definition responsesSearchStarted :: "projectionEnv \<Rightarrow> int \<Rightarrow> HostedSearch option \<Rightarrow> respond" where
  "responsesSearchStarted env now s p = (case s of None \<Rightarrow> ([], p) | Some search \<Rightarrow>
     (let ident = searchItemID search in
      if map_of (rp_searchIndex p) ident \<noteq> None then ([], p)
      else stepsR [responsesStart env now, responsesCloseReasoning, responsesCloseMessage env,
        (\<lambda>p. let i = rp_out p in
          stepsR [changing (\<lambda>p. p\<lparr>rp_out := Suc i, rp_searchIndex := AList.update ident i (rp_searchIndex p)\<rparr>),
            nextResponsesSeq ''response.output_item.added'' (\<lambda>_. addedItem i [(''id'', JStr ident), (''type'', JStr ''web_search_call''),
              (''status'', JStr ''in_progress''), (''action'', JObj (hostedSearchResponsesAction (pj_links env) search))]),
            nextResponsesSeq ''response.web_search_call.in_progress'' (\<lambda>_. at i ident),
            nextResponsesSeq ''response.web_search_call.searching'' (\<lambda>_. at i ident)] p)] p))"

definition responsesSearchCompleted :: "projectionEnv \<Rightarrow> int \<Rightarrow> HostedSearch option \<Rightarrow> respond" where
  "responsesSearchCompleted env now s = stepsR [responsesSearchStarted env now s, (\<lambda>p. case s of None \<Rightarrow> ([], p) | Some search \<Rightarrow>
     (let ident = searchItemID search; i = (case map_of (rp_searchIndex p) ident of Some i \<Rightarrow> i | None \<Rightarrow> 0);
          item = (newItem i ident ''web_search_call'')\<lparr>ri_Action := hostedSearchResponsesAction (pj_links env) search\<rparr> in
      stepsR [storeResponsesItem item,
        changing (\<lambda>p. p\<lparr>rp_base := (rp_base p)\<lparr>cp_citations := cp_citations (rp_base p) @ hostedSearchCitations (pj_links env) search\<rparr>\<rparr>),
        nextResponsesSeq ''response.web_search_call.completed'' (\<lambda>_. at i ident),
        nextResponsesSeq ''response.output_item.done'' (\<lambda>_. [(''output_index'', num (int i)), (''item'', responsesItemJSON item)])] p))]"

definition responsesFunctionCall :: "ToolCall \<Rightarrow> respond" where
  "responsesFunctionCall call p =
     (let i = rp_out p; arguments = (if tc_Arguments call = [] then ''{}'' else tc_Arguments call); ident = ''fc_'' @ tc_ToolCallID call;
          item = (newItem i ident ''function_call'')\<lparr>ri_CallID := tc_ToolCallID call, ri_Name := tc_Name call, ri_Arguments := arguments\<rparr> in
      stepsR [changing (\<lambda>p. p\<lparr>rp_out := Suc i\<rparr>), storeResponsesItem item,
        nextResponsesSeq ''response.output_item.added'' (\<lambda>_. addedItem i [(''id'', JStr ident), (''type'', JStr ''function_call''),
          (''status'', JStr ''in_progress''), (''call_id'', JStr (tc_ToolCallID call)), (''name'', JStr (tc_Name call)), (''arguments'', JStr [])]),
        nextResponsesSeq ''response.function_call_arguments.delta'' (\<lambda>_. at i ident @ [(''delta'', JStr arguments)]),
        nextResponsesSeq ''response.function_call_arguments.done'' (\<lambda>_. at i ident @ [(''arguments'', JStr arguments)]),
        nextResponsesSeq ''response.output_item.done'' (\<lambda>_. [(''output_index'', num (int i)), (''item'', responsesItemJSON item)])] p)"

text \<open>\<open>responsesFinish\<close> with the status \<open>completed\<close>, the only one it is called with.\<close>

definition responsesFinish :: "projectionEnv \<Rightarrow> respond" where
  "responsesFinish env = nextResponsesSeq ''response.completed'' (\<lambda>p. [(''response'', JObj (responsesEnvelope env ''completed'' (responsesOutputJSON p) p))])"

section \<open>Events\<close>

definition semanticR :: respond where
  "semanticR = changing (\<lambda>p. p\<lparr>rp_base := (rp_base p)\<lparr>cp_semantic := True\<rparr>\<rparr>)"

definition responsesText :: "projectionEnv \<Rightarrow> int \<Rightarrow> string \<Rightarrow> respond" where
  "responsesText env now t = stepsR [semanticR, changing (\<lambda>p. p\<lparr>rp_text := rp_text p @ t\<rparr>), responsesStart env now, responsesCloseReasoning,
     responsesEnsureMessage,
     nextResponsesSeq ''response.output_text.delta'' (\<lambda>p. at (rp_messageIndex p) (rp_messageID p) @ [(''content_index'', num 0), (''delta'', JStr t)])]"

definition responsesThinking :: "projectionEnv \<Rightarrow> int \<Rightarrow> string \<Rightarrow> respond" where
  "responsesThinking env now t = (if t = [] then stepsR [] else
     stepsR [semanticR, changing (\<lambda>p. p\<lparr>rp_reasoning := rp_reasoning p @ t\<rparr>), responsesStart env now, responsesCloseMessage env,
       responsesEnsureReasoning,
       nextResponsesSeq ''response.reasoning_summary_text.delta'' (\<lambda>p. at (rp_reasoningIndex p) (rp_reasoningID p) @ [(''summary_index'', num 0), (''delta'', JStr t)])])"

definition responsesClosing :: "projectionEnv \<Rightarrow> int \<Rightarrow> respond" where
  "responsesClosing env now = stepsR [responsesStart env now, responsesCloseReasoning, responsesCloseMessage env]"

text \<open>\<open>handle\<close> for the Responses API with \<open>handleResponses\<close>: the events, whether the answer is complete and whether the session is parked.\<close>

definition handleResponses :: "projectionEnv \<Rightarrow> int \<Rightarrow> Event \<Rightarrow> responsesProjection
    \<Rightarrow> (responsesEvent list \<times> bool \<times> bool) res \<times> responsesProjection" where
  "handleResponses env now event p0 =
     (let p = p0\<lparr>rp_base := (rp_base p0)\<lparr>cp_facts := observe (cp_facts (rp_base p0)) event\<rparr>\<rparr>;
          going = (\<lambda>m. case m p of (out, q) \<Rightarrow> (Inr (out, False, False), q)) in
      case ev_Type event of
        EventHostedSearchStarted \<Rightarrow> going (stepsR [semanticR, responsesSearchStarted env now (ev_HostedSearch event)])
      | EventHostedSearchCompleted \<Rightarrow> going (stepsR [semanticR, responsesSearchCompleted env now (ev_HostedSearch event)])
      | EventToolCall \<Rightarrow> (case ev_ToolCall event of None \<Rightarrow> (Inr ([], False, False), p)
          | Some call \<Rightarrow> (Inr ([], False, False), p\<lparr>rp_base := (rp_base p)\<lparr>cp_semantic := True, cp_toolCalls := cp_toolCalls (rp_base p) @ [call]\<rparr>\<rparr>))
      | EventText \<Rightarrow> going (responsesText env now (ev_Text event))
      | EventThinking \<Rightarrow> going (responsesThinking env now (ev_Text event))
      | EventThinkingCompleted \<Rightarrow> going responsesCloseReasoning
      | EventTurnEnded \<Rightarrow>
          (if cp_toolCalls (rp_base p) = []
           then (Inl (RequestError 502 ''Cursor Agent v1 turnEnded carried no pending tool batch''), p)
           else case stepsR ([responsesClosing env now] @ map responsesFunctionCall (cp_toolCalls (rp_base p)) @ [responsesFinish env]) p of
             (out, q) \<Rightarrow> (Inr (out, True, True), q))
      | EventDone \<Rightarrow> (case stepsR [responsesClosing env now, responsesFinish env] p of (out, q) \<Rightarrow> (Inr (out, True, False), q))
      | _ \<Rightarrow> (Inr ([], False, False), p))"

text \<open>The loop of the executor over the events of a run: the events of the stream and how it ended.\<close>

fun responsesRun :: "projectionEnv \<Rightarrow> int \<Rightarrow> Event list \<Rightarrow> responsesProjection \<Rightarrow> (bool \<times> bool) res \<times> responsesEvent list \<times> responsesProjection" where
  "responsesRun env now [] p = (Inr (False, False), [], p)"
| "responsesRun env now (e # es) p = (case handleResponses env now e p of
     (Inl err, q) \<Rightarrow> (Inl err, [], q)
   | (Inr (out, terminal, park), q) \<Rightarrow>
       if terminal then (Inr (terminal, park), out, q)
       else (case responsesRun env now es q of (r, rest, q') \<Rightarrow> (r, out @ rest, q')))"

end
