(* ===== verification/ResponsesStream.thy ===== *)
theory ResponsesStream
  imports Responses
begin

text \<open>
  What a client reads from a Responses stream: an automaton that follows the sequence numbers, the items that are
  open with the text received for them and the items that are finished, and the proof that a run's stream can be
  followed to its end and that the final response lists exactly the finished items, as the answer that is not
  streamed does.
\<close>

section \<open>A client of the stream\<close>

record responsesClient =
  rc_seq :: int
  rc_count :: nat
  rc_open :: "nat \<Rightarrow> (string \<times> string) option"
  rc_finished :: "nat \<Rightarrow> json option"
  rc_answer :: "json list option"

definition newClient :: responsesClient where
  "newClient = \<lparr>rc_seq = 0, rc_count = 0, rc_open = (\<lambda>_. None), rc_finished = (\<lambda>_. None), rc_answer = None\<rparr>"

definition memberNat :: "string \<Rightarrow> object \<Rightarrow> nat option" where
  "memberNat key m = (case map_of m key of Some (JNum (GoInt n)) \<Rightarrow> if n \<ge> 0 then Some (nat n) else None | _ \<Rightarrow> None)"

definition memberStr :: "string \<Rightarrow> object \<Rightarrow> string option" where
  "memberStr key m = (case map_of m key of Some (JStr s) \<Rightarrow> Some s | _ \<Rightarrow> None)"

definition itemID :: "object \<Rightarrow> string option" where
  "itemID m = (case map_of m ''item'' of Some (JObj item) \<Rightarrow> memberStr ''id'' item | _ \<Rightarrow> None)"

text \<open>The open item an event names by its position, if the event names the item too.\<close>

definition named :: "object \<Rightarrow> responsesClient \<Rightarrow> (nat \<times> string) option" where
  "named m c = (case memberNat ''output_index'' m of None \<Rightarrow> None | Some i \<Rightarrow>
     (case rc_open c i of None \<Rightarrow> None | Some (ident, t) \<Rightarrow>
       if memberStr ''item_id'' m = Some ident then Some (i, t) else None))"

definition addText :: "object \<Rightarrow> responsesClient \<Rightarrow> responsesClient option" where
  "addText m c = (case (named m c, memberStr ''delta'' m, memberStr ''item_id'' m) of
     (Some (i, t), Some s, Some ident) \<Rightarrow> Some (c\<lparr>rc_open := (rc_open c)(i \<mapsto> (ident, t @ s))\<rparr>) | _ \<Rightarrow> None)"

definition endText :: "string \<Rightarrow> object \<Rightarrow> responsesClient \<Rightarrow> responsesClient option" where
  "endText key m c = (case named m c of Some (i, t) \<Rightarrow> if memberStr key m = Some t then Some c else None | None \<Rightarrow> None)"

definition readMembers :: "string \<Rightarrow> object \<Rightarrow> responsesClient \<Rightarrow> responsesClient option" where
  "readMembers kind m c =
     (if kind = ''response.output_item.added'' then
        (case (memberNat ''output_index'' m, itemID m) of
           (Some i, Some ident) \<Rightarrow> if i = rc_count c then Some (c\<lparr>rc_count := Suc i, rc_open := (rc_open c)(i \<mapsto> (ident, []))\<rparr>) else None
         | _ \<Rightarrow> None)
      else if kind = ''response.output_item.done'' then
        (case (memberNat ''output_index'' m, itemID m) of
           (Some i, Some ident) \<Rightarrow> (case rc_open c i of
               Some (ident', t) \<Rightarrow> if ident' = ident
                 then Some (c\<lparr>rc_open := (rc_open c)(i := None), rc_finished := (rc_finished c)(i := map_of m ''item'')\<rparr>) else None
             | None \<Rightarrow> None)
         | _ \<Rightarrow> None)
      else if kind \<in> {''response.output_text.delta'', ''response.reasoning_summary_text.delta'', ''response.function_call_arguments.delta''}
      then addText m c
      else if kind \<in> {''response.output_text.done'', ''response.reasoning_summary_text.done''} then endText ''text'' m c
      else if kind = ''response.function_call_arguments.done'' then endText ''arguments'' m c
      else if kind = ''response.completed'' then
        (case map_of m ''response'' of
           Some (JObj response) \<Rightarrow>
             if map_of response ''output'' = Some (JArr (List.map_filter (rc_finished c) [0..<rc_count c]))
             then Some (c\<lparr>rc_answer := Some (List.map_filter (rc_finished c) [0..<rc_count c])\<rparr>) else None
         | _ \<Rightarrow> None)
      else if kind \<in> {''response.created'', ''response.in_progress''} then if rc_count c = 0 then Some c else None
      else if named m c \<noteq> None then Some c else None)"

definition readResponse :: "responsesEvent \<Rightarrow> responsesClient \<Rightarrow> responsesClient option" where
  "readResponse e c = (case e of (kind, JObj m) \<Rightarrow>
       if map_of m ''type'' = Some (JStr kind) \<and> map_of m ''sequence_number'' = Some (num (rc_seq c + 1)) \<and> rc_answer c = None
       then readMembers kind m (c\<lparr>rc_seq := rc_seq c + 1\<rparr>) else None
     | _ \<Rightarrow> None)"

fun readsR :: "responsesEvent list \<Rightarrow> responsesClient \<Rightarrow> responsesClient option" where
  "readsR [] c = Some c"
| "readsR (e # es) c = Option.bind (readResponse e c) (readsR es)"

lemma readsR_append [simp]: "readsR (es @ fs) c = Option.bind (readsR es c) (readsR fs)"
  by (induction es arbitrary: c) (auto split: bind_splits)

section \<open>The client of a projection\<close>

definition openSearch :: "responsesProjection \<Rightarrow> nat \<Rightarrow> string option" where
  "openSearch p i = (if map_of (rp_byIndex p) i \<noteq> None then None
     else map_option fst (find (\<lambda>(ident, j). j = i) (rp_searchIndex p)))"

definition openItems :: "responsesProjection \<Rightarrow> nat \<Rightarrow> (string \<times> string) option" where
  "openItems p i =
     (if rp_messageOpen p \<and> i = rp_messageIndex p then Some (rp_messageID p, rp_text p)
      else if rp_reasoningOpen p \<and> i = rp_reasoningIndex p then Some (rp_reasoningID p, rp_reasoning p)
      else map_option (\<lambda>ident. (ident, [])) (openSearch p i))"

definition clientOfR :: "responsesProjection \<Rightarrow> responsesClient" where
  "clientOfR p = \<lparr>rc_seq = cp_responsesSeq (rp_base p), rc_count = rp_out p, rc_open = openItems p,
     rc_finished = (\<lambda>i. map_option responsesItemJSON (map_of (rp_byIndex p) i)), rc_answer = None\<rparr>"

definition shapeR :: "responsesProjection \<Rightarrow> bool" where
  "shapeR p \<longleftrightarrow> \<not> (rp_messageOpen p \<and> rp_reasoningOpen p)
     \<and> (\<not> rp_started p \<longrightarrow> rp_out p = 0)
     \<and> (rp_messageOpen p \<longrightarrow> rp_messageIndex p < rp_out p \<and> rp_messageIndex p \<notin> snd ` set (rp_searchIndex p)
          \<and> map_of (rp_byIndex p) (rp_messageIndex p) = None)
     \<and> (rp_reasoningOpen p \<longrightarrow> rp_reasoningIndex p < rp_out p \<and> rp_reasoningIndex p \<notin> snd ` set (rp_searchIndex p)
          \<and> map_of (rp_byIndex p) (rp_reasoningIndex p) = None)
     \<and> (\<not> rp_messageOpen p \<longrightarrow> rp_text p = []) \<and> (\<not> rp_reasoningOpen p \<longrightarrow> rp_reasoning p = [])
     \<and> (\<forall>i\<in>snd ` set (rp_searchIndex p). i < rp_out p) \<and> (\<forall>i. map_of (rp_byIndex p) i \<noteq> None \<longrightarrow> i < rp_out p)
     \<and> distinct (map fst (rp_searchIndex p)) \<and> distinct (map snd (rp_searchIndex p))"

definition followedR :: "responsesEvent list \<Rightarrow> responsesProjection \<Rightarrow> bool" where
  "followedR es p \<longleftrightarrow> shapeR p \<and> readsR es newClient = Some (clientOfR p)"

text \<open>A step from \<open>p\<close> whose events take the client of \<open>p\<close> to the client of its result.\<close>

definition leads :: "respond \<Rightarrow> responsesProjection \<Rightarrow> bool" where
  "leads m p \<longleftrightarrow> shapeR (snd (m p)) \<and> readsR (fst (m p)) (clientOfR p) = Some (clientOfR (snd (m p)))"

lemma leads_followed: "followedR es p \<Longrightarrow> leads m p \<Longrightarrow> followedR (es @ fst (m p)) (snd (m p))"
  by (simp add: followedR_def leads_def)

lemma leads_steps:
  "leads m p \<Longrightarrow> (shapeR (snd (m p)) \<Longrightarrow> leads (stepsR ms) (snd (m p))) \<Longrightarrow> leads (stepsR (m # ms)) p"
  by (auto simp: leads_def split: prod.splits)

lemma leads_Nil [simp]: "leads (stepsR []) p = shapeR p"
  by (simp add: leads_def)

text \<open>One numbered event.\<close>

lemma read_numbered:
  assumes "rc_seq c = cp_responsesSeq (rp_base p)" and "rc_answer c = None" and "map_of (members p) ''type'' = None" and "map_of (members p) ''sequence_number'' = None"
  shows "readsR (fst (nextResponsesSeq kind members p)) c
    = readMembers kind ((''type'', JStr kind) # (''sequence_number'', num (rc_seq c + 1)) # members p) (c\<lparr>rc_seq := rc_seq c + 1\<rparr>)"
  using assms by (simp add: nextResponsesSeq_def readResponse_def Let_def split: bind_split)


lemma snd_numbered: "snd (nextResponsesSeq kind members p) = p\<lparr>rp_base := (rp_base p)\<lparr>cp_responsesSeq := cp_responsesSeq (rp_base p) + 1\<rparr>\<rparr>"
  by (simp add: nextResponsesSeq_def Let_def)

lemma memberNat_num [simp]: "memberNat key ((key, num (int i)) # m) = Some i"
  by (simp add: memberNat_def num_def)

lemma memberNat_other [simp]: "k \<noteq> key \<Longrightarrow> memberNat key ((k, v) # m) = memberNat key m"
  by (simp add: memberNat_def)

lemma memberStr_same [simp]: "memberStr key ((key, JStr s) # m) = Some s"
  by (simp add: memberStr_def)

lemma memberStr_other [simp]: "k \<noteq> key \<Longrightarrow> memberStr key ((k, v) # m) = memberStr key m"
  by (simp add: memberStr_def)

lemma itemID_same [simp]: "itemID ((''item'', JObj item) # m) = memberStr ''id'' item"
  by (simp add: itemID_def)

lemma itemID_other [simp]: "k \<noteq> ''item'' \<Longrightarrow> itemID ((k, v) # m) = itemID m"
  by (simp add: itemID_def)

lemma item_id [simp]: "itemID [(''item'', responsesItemJSON item)] = Some (ri_ID item)"
  by (simp add: itemID_def responsesItemJSON_def)

lemma openItems_frame [simp]:
  "openItems (p\<lparr>rp_base := b\<rparr>) = openItems p" "openItems (p\<lparr>rp_started := x\<rparr>) = openItems p"
  "openItems (p\<lparr>rp_createdAt := n\<rparr>) = openItems p" "openItems (p\<lparr>rp_out := k\<rparr>) = openItems p" "openItems (p\<lparr>rp_span := k\<rparr>) = openItems p"
  by (simp_all add: fun_eq_iff openItems_def openSearch_def)

lemmas run_steps = nextResponsesSeq_def readResponse_def readMembers_def changing_def storeResponsesItem_def at_def addedItem_def
  endText_def addText_def named_def newItem_def Let_def

lemma leads_start:
  assumes "shapeR p"
  shows "leads (responsesStart env now) p"
proof (cases "rp_started p")
  case True
  with assms show ?thesis by (simp add: leads_def responsesStart_def)
next
  case False
  then have "rp_out p = 0" "\<not> rp_messageOpen p" "\<not> rp_reasoningOpen p" using assms by (auto simp: shapeR_def)
  with False assms show ?thesis
    by (simp add: leads_def responsesStart_def run_steps clientOfR_def shapeR_def)
qed

lemma find_index_none [simp]: "i \<notin> snd ` set xs \<Longrightarrow> find (\<lambda>(ident, j). j = i) xs = None"
  by (force simp: find_None_iff)

lemma openSearch_none: "i \<notin> snd ` set (rp_searchIndex p) \<Longrightarrow> openSearch p i = None"
  by (simp add: openSearch_def)

text \<open>Closing an item: it is finished under its position.\<close>

lemma openItems_store:
  assumes "i \<notin> snd ` set (rp_searchIndex p)" and "rp_messageOpen p \<Longrightarrow> i \<noteq> rp_messageIndex p" and "rp_reasoningOpen p \<Longrightarrow> i \<noteq> rp_reasoningIndex p"
  shows "openItems (p\<lparr>rp_byIndex := AList.update i item (rp_byIndex p)\<rparr>) = openItems p" "openItems p i = None"
  using assms by (auto simp: fun_eq_iff openItems_def openSearch_none openSearch_def)

lemma leads_closeReasoning:
  assumes "shapeR p"
  shows "leads responsesCloseReasoning p"
proof (cases "rp_reasoningOpen p")
  case False
  with assms show ?thesis by (simp add: leads_def responsesCloseReasoning_def)
next
  case True
  let ?i = "rp_reasoningIndex p"
  define p' where "p' = p\<lparr>rp_reasoningOpen := False, rp_reasoning := []\<rparr>"
  have shape: "\<not> rp_messageOpen p" "?i < rp_out p" "?i \<notin> snd ` set (rp_searchIndex p)" "map_of (rp_byIndex p) ?i = None"
    using True assms by (auto simp: shapeR_def)
  have here: "openItems p ?i = Some (rp_reasoningID p, rp_reasoning p)"
    using True shape by (simp add: openItems_def)
  have closed: "openItems p' = (openItems p)(?i := None)"
    using True shape by (auto simp: fun_eq_iff openItems_def p'_def openSearch_def openSearch_none)
  have stored: "openItems (p'\<lparr>rp_byIndex := AList.update ?i item (rp_byIndex p')\<rparr>) = (openItems p)(?i := None)" for item
    using openItems_store(1) [of ?i p'] shape closed by (simp add: p'_def)
  then have upd: "openItems (p\<lparr>rp_reasoningOpen := False, rp_reasoning := [], rp_byIndex := AList.update ?i item (rp_byIndex p)\<rparr>) = (openItems p)(?i := None)" for item
    by (simp add: p'_def)
  show ?thesis
    using True here assms upd shape
    by (simp add: leads_def responsesCloseReasoning_def run_steps clientOfR_def shapeR_def fun_eq_iff)
qed


lemma leads_closeMessage:
  assumes "shapeR p"
  shows "leads (responsesCloseMessage env) p"
proof (cases "rp_messageOpen p")
  case False
  with assms show ?thesis by (simp add: leads_def responsesCloseMessage_def)
next
  case True
  let ?i = "rp_messageIndex p"
  define p' where "p' = p\<lparr>rp_messageOpen := False, rp_text := []\<rparr>"
  have shape: "\<not> rp_reasoningOpen p" "?i < rp_out p" "?i \<notin> snd ` set (rp_searchIndex p)" "map_of (rp_byIndex p) ?i = None"
    using True assms by (auto simp: shapeR_def)
  have here: "openItems p ?i = Some (rp_messageID p, rp_text p)"
    using True by (simp add: openItems_def)
  have closed: "openItems p' = (openItems p)(?i := None)"
    using True shape by (auto simp: fun_eq_iff openItems_def p'_def openSearch_def openSearch_none)
  have stored: "openItems (p'\<lparr>rp_byIndex := AList.update ?i item (rp_byIndex p')\<rparr>) = (openItems p)(?i := None)" for item
    using openItems_store(1) [of ?i p'] shape closed by (simp add: p'_def)
  then have upd: "openItems (p\<lparr>rp_messageOpen := False, rp_text := [], rp_byIndex := AList.update ?i item (rp_byIndex p)\<rparr>) = (openItems p)(?i := None)" for item
    by (simp add: p'_def)
  show ?thesis
    using True here assms upd shape
    by (simp add: leads_def responsesCloseMessage_def run_steps clientOfR_def shapeR_def fun_eq_iff)
qed

text \<open>Opening an item at the next position.\<close>

lemma fresh_position:
  assumes "shapeR p"
  shows "rp_out p \<notin> snd ` set (rp_searchIndex p)" "map_of (rp_byIndex p) (rp_out p) = None"
    "rp_messageOpen p \<Longrightarrow> rp_messageIndex p \<noteq> rp_out p" "rp_reasoningOpen p \<Longrightarrow> rp_reasoningIndex p \<noteq> rp_out p"
  using assms unfolding shapeR_def by (fastforce, metis less_irrefl, auto)

lemma leads_ensureMessage:
  assumes "shapeR p" and "\<not> rp_reasoningOpen p" and "rp_started p"
  shows "leads responsesEnsureMessage p" "rp_messageOpen (snd (responsesEnsureMessage p))"
proof -
  have "leads responsesEnsureMessage p \<and> rp_messageOpen (snd (responsesEnsureMessage p))"
  proof (cases "rp_messageOpen p")
    case True
    with assms show ?thesis by (simp add: leads_def responsesEnsureMessage_def)
  next
    case False
    note fresh = fresh_position [OF assms(1)]
    have "rp_text p = []" using False assms(1) by (simp add: shapeR_def)
    then have opened: "openItems (p\<lparr>rp_messageOpen := True, rp_messageIndex := rp_out p, rp_out := Suc (rp_out p), rp_span := n, rp_messageID := ident\<rparr>)
        = (openItems p)(rp_out p \<mapsto> (ident, []))" for n ident
      using False assms(2) by (auto simp: fun_eq_iff openItems_def openSearch_def)
    show ?thesis
      using False fresh(1,2) assms opened
      by (simp add: leads_def responsesEnsureMessage_def run_steps clientOfR_def shapeR_def less_Suc_eq)
  qed
  then show "leads responsesEnsureMessage p" "rp_messageOpen (snd (responsesEnsureMessage p))" by simp_all
qed

lemma leads_ensureReasoning:
  assumes "shapeR p" and "\<not> rp_messageOpen p" and "rp_started p"
  shows "leads responsesEnsureReasoning p" "rp_reasoningOpen (snd (responsesEnsureReasoning p))"
proof -
  have "leads responsesEnsureReasoning p \<and> rp_reasoningOpen (snd (responsesEnsureReasoning p))"
  proof (cases "rp_reasoningOpen p")
    case True
    with assms show ?thesis by (simp add: leads_def responsesEnsureReasoning_def)
  next
    case False
    note fresh = fresh_position [OF assms(1)]
    have "rp_reasoning p = []" using False assms(1) by (simp add: shapeR_def)
    then have opened: "openItems (p\<lparr>rp_reasoningOpen := True, rp_reasoningIndex := rp_out p, rp_out := Suc (rp_out p), rp_span := n, rp_reasoningID := ident\<rparr>)
        = (openItems p)(rp_out p \<mapsto> (ident, []))" for n ident
      using False assms(2) by (auto simp: fun_eq_iff openItems_def openSearch_def)
    show ?thesis
      using False fresh(1,2) assms opened
      by (simp add: leads_def responsesEnsureReasoning_def run_steps clientOfR_def shapeR_def less_Suc_eq)
  qed
  then show "leads responsesEnsureReasoning p" "rp_reasoningOpen (snd (responsesEnsureReasoning p))" by simp_all
qed

text \<open>Text that is received early only changes the text.\<close>

lemma early_text:
  "responsesStart env now (p\<lparr>rp_text := t\<rparr>) = (fst (responsesStart env now p), (snd (responsesStart env now p))\<lparr>rp_text := t\<rparr>)"
  "responsesCloseReasoning (p\<lparr>rp_text := t\<rparr>) = (fst (responsesCloseReasoning p), (snd (responsesCloseReasoning p))\<lparr>rp_text := t\<rparr>)"
  "responsesEnsureMessage (p\<lparr>rp_text := t\<rparr>) = (fst (responsesEnsureMessage p), (snd (responsesEnsureMessage p))\<lparr>rp_text := t\<rparr>)"
  by (simp_all add: responsesStart_def responsesCloseReasoning_def responsesEnsureMessage_def run_steps responsesEnvelope_def spanID_def)

lemma early_thinking:
  "responsesStart env now (p\<lparr>rp_reasoning := t\<rparr>) = (fst (responsesStart env now p), (snd (responsesStart env now p))\<lparr>rp_reasoning := t\<rparr>)"
  "responsesCloseMessage env (p\<lparr>rp_reasoning := t\<rparr>) = (fst (responsesCloseMessage env p), (snd (responsesCloseMessage env p))\<lparr>rp_reasoning := t\<rparr>)"
  "responsesEnsureReasoning (p\<lparr>rp_reasoning := t\<rparr>) = (fst (responsesEnsureReasoning p), (snd (responsesEnsureReasoning p))\<lparr>rp_reasoning := t\<rparr>)"
  by (simp_all add: responsesStart_def responsesCloseMessage_def responsesEnsureReasoning_def run_steps responsesEnvelope_def spanID_def)


lemma keeps_text:
  "rp_text (snd (responsesStart env now p)) = rp_text p" "rp_started (snd (responsesStart env now p))"
  "rp_text (snd (responsesCloseReasoning p)) = rp_text p" "rp_started (snd (responsesCloseReasoning p)) = rp_started p"
  "rp_text (snd (responsesEnsureMessage p)) = rp_text p"
  "\<not> rp_reasoningOpen (snd (responsesCloseReasoning p))" "\<not> rp_messageOpen (snd (responsesCloseMessage env p))"
  "rp_reasoning (snd (responsesStart env now p)) = rp_reasoning p"
  "rp_reasoning (snd (responsesCloseMessage env p)) = rp_reasoning p" "rp_started (snd (responsesCloseMessage env p)) = rp_started p"
  "rp_reasoning (snd (responsesEnsureReasoning p)) = rp_reasoning p"
  by (simp_all add: responsesStart_def responsesCloseReasoning_def responsesCloseMessage_def responsesEnsureMessage_def responsesEnsureReasoning_def run_steps)

lemma ensures_open: "rp_messageOpen (snd (responsesEnsureMessage p))" "rp_reasoningOpen (snd (responsesEnsureReasoning p))"
  by (simp_all add: responsesEnsureMessage_def responsesEnsureReasoning_def run_steps)

lemma leads_textDelta:
  assumes "shapeR p" and "rp_messageOpen p"
  shows "leads (stepsR [changing (\<lambda>p. p\<lparr>rp_text := rp_text p @ t\<rparr>),
    nextResponsesSeq ''response.output_text.delta'' (\<lambda>p. at (rp_messageIndex p) (rp_messageID p) @ [(''content_index'', num 0), (''delta'', JStr t)])]) p"
proof -
  have here: "openItems p (rp_messageIndex p) = Some (rp_messageID p, rp_text p)"
    using assms(2) by (simp add: openItems_def)
  have opens: "openItems (p\<lparr>rp_text := u\<rparr>) = (openItems p)(rp_messageIndex p \<mapsto> (rp_messageID p, u))" for u
    using assms(2) by (auto simp: fun_eq_iff openItems_def openSearch_def)
  show ?thesis
    using assms here opens by (simp add: leads_def run_steps clientOfR_def shapeR_def)
qed

lemma leads_thinkingDelta:
  assumes "shapeR p" and "rp_reasoningOpen p"
  shows "leads (stepsR [changing (\<lambda>p. p\<lparr>rp_reasoning := rp_reasoning p @ t\<rparr>),
    nextResponsesSeq ''response.reasoning_summary_text.delta'' (\<lambda>p. at (rp_reasoningIndex p) (rp_reasoningID p) @ [(''summary_index'', num 0), (''delta'', JStr t)])]) p"
proof -
  have shut: "\<not> rp_messageOpen p" using assms by (auto simp: shapeR_def)
  then have here: "openItems p (rp_reasoningIndex p) = Some (rp_reasoningID p, rp_reasoning p)"
    using assms(2) by (simp add: openItems_def)
  have opens: "openItems (p\<lparr>rp_reasoning := u\<rparr>) = (openItems p)(rp_reasoningIndex p \<mapsto> (rp_reasoningID p, u))" for u
    using assms(2) shut by (auto simp: fun_eq_iff openItems_def openSearch_def)
  show ?thesis
    using assms here opens by (simp add: leads_def run_steps clientOfR_def shapeR_def)
qed

lemma leads_semantic: "shapeR p \<Longrightarrow> leads semanticR p"
  by (simp add: leads_def semanticR_def changing_def clientOfR_def shapeR_def)

lemma stepsR_append: "stepsR (ms @ ns) p = (case stepsR ms p of (a, p1) \<Rightarrow> case stepsR ns p1 of (b, p2) \<Rightarrow> (a @ b, p2))"
  by (induction ms arbitrary: p) (simp_all split: prod.split)

text \<open>The early text may as well come last.\<close>

lemma text_last:
  "responsesText env now t p = stepsR ([semanticR, responsesStart env now, responsesCloseReasoning, responsesEnsureMessage]
     @ [changing (\<lambda>p. p\<lparr>rp_text := rp_text p @ t\<rparr>),
        nextResponsesSeq ''response.output_text.delta'' (\<lambda>p. at (rp_messageIndex p) (rp_messageID p) @ [(''content_index'', num 0), (''delta'', JStr t)])]) p"
  by (simp add: responsesText_def semanticR_def changing_def early_text keeps_text case_prod_beta)

lemma thinking_last:
  "t \<noteq> [] \<Longrightarrow> responsesThinking env now t p = stepsR ([semanticR, responsesStart env now, responsesCloseMessage env, responsesEnsureReasoning]
     @ [changing (\<lambda>p. p\<lparr>rp_reasoning := rp_reasoning p @ t\<rparr>),
        nextResponsesSeq ''response.reasoning_summary_text.delta'' (\<lambda>p. at (rp_reasoningIndex p) (rp_reasoningID p) @ [(''summary_index'', num 0), (''delta'', JStr t)])]) p"
  by (simp add: responsesThinking_def semanticR_def changing_def early_thinking keeps_text case_prod_beta)

lemma leads_append: "leads (stepsR ms) p \<Longrightarrow> (shapeR (snd (stepsR ms p)) \<Longrightarrow> leads (stepsR ns) (snd (stepsR ms p))) \<Longrightarrow> leads (stepsR (ms @ ns)) p"
  by (auto simp: leads_def stepsR_append split: prod.splits)

lemma snd_steps: "snd (stepsR (m # ms) p) = snd (stepsR ms (snd (m p)))" "snd (stepsR [] p) = p"
  by (simp_all add: case_prod_beta)

lemma leads_text:
  assumes "shapeR p"
  shows "leads (responsesText env now t) p"
proof -
  let ?ms = "[semanticR, responsesStart env now, responsesCloseReasoning, responsesEnsureMessage]"
  have first: "leads (stepsR ?ms) p"
    by (intro leads_steps leads_semantic leads_start leads_closeReasoning leads_ensureMessage assms; (assumption)?;
      simp add: snd_steps keeps_text del: stepsR.simps)
  have "rp_messageOpen (snd (stepsR ?ms p))"
    by (simp add: snd_steps ensures_open del: stepsR.simps)
  with first have "leads (stepsR (?ms @ [changing (\<lambda>p. p\<lparr>rp_text := rp_text p @ t\<rparr>),
        nextResponsesSeq ''response.output_text.delta'' (\<lambda>p. at (rp_messageIndex p) (rp_messageID p) @ [(''content_index'', num 0), (''delta'', JStr t)])])) p"
    by (intro leads_append leads_textDelta) (simp_all del: stepsR.simps)
  then show ?thesis by (simp add: leads_def text_last)
qed

lemma leads_thinking:
  assumes "shapeR p"
  shows "leads (responsesThinking env now t) p"
proof (cases "t = []")
  case True
  with assms show ?thesis by (simp add: responsesThinking_def)
next
  case False
  let ?ms = "[semanticR, responsesStart env now, responsesCloseMessage env, responsesEnsureReasoning]"
  have first: "leads (stepsR ?ms) p"
    by (intro leads_steps leads_semantic leads_start leads_closeMessage leads_ensureReasoning assms; (assumption)?;
      simp add: snd_steps keeps_text del: stepsR.simps)
  have "rp_reasoningOpen (snd (stepsR ?ms p))"
    by (simp add: snd_steps ensures_open del: stepsR.simps)
  with first have "leads (stepsR (?ms @ [changing (\<lambda>p. p\<lparr>rp_reasoning := rp_reasoning p @ t\<rparr>),
        nextResponsesSeq ''response.reasoning_summary_text.delta'' (\<lambda>p. at (rp_reasoningIndex p) (rp_reasoningID p) @ [(''summary_index'', num 0), (''delta'', JStr t)])])) p"
    by (intro leads_append leads_thinkingDelta) (simp_all del: stepsR.simps)
  then show ?thesis using False by (simp add: leads_def thinking_last)
qed

section \<open>Searches and calls\<close>

lemma find_index:
  "distinct (map snd xs) \<Longrightarrow> (ident, i) \<in> set xs \<Longrightarrow> find (\<lambda>(ident, j). j = i) xs = Some (ident, i)"
  by (induction xs) (auto simp: image_iff)

lemma find_index_snoc:
  "i \<notin> snd ` set xs \<Longrightarrow> find (\<lambda>(ident, j). j = k) (xs @ [(ident, i)]) = (if k = i then Some (ident, i) else find (\<lambda>(ident, j). j = k) xs)"
  by (induction xs) auto

lemma map_of_absent: "map_of m k = None \<Longrightarrow> AList.update k v m = m @ [(k, v)]"
  by (induction m) auto

lemma leads_openSearch:
  assumes "shapeR p" and "rp_started p" and "map_of (rp_searchIndex p) ident = None"
    and "\<not> rp_messageOpen p" and "\<not> rp_reasoningOpen p"
  shows "leads (stepsR [changing (\<lambda>q. q\<lparr>rp_out := Suc (rp_out p), rp_searchIndex := AList.update ident (rp_out p) (rp_searchIndex q)\<rparr>),
    nextResponsesSeq ''response.output_item.added'' (\<lambda>_. addedItem (rp_out p) [(''id'', JStr ident), (''type'', JStr ''web_search_call''),
      (''status'', JStr ''in_progress''), (''action'', JObj action)]),
    nextResponsesSeq ''response.web_search_call.in_progress'' (\<lambda>_. at (rp_out p) ident),
    nextResponsesSeq ''response.web_search_call.searching'' (\<lambda>_. at (rp_out p) ident)]) p"
proof -
  note fresh = fresh_position [OF assms(1)]
  have opened: "openItems (p\<lparr>rp_out := Suc (rp_out p), rp_searchIndex := rp_searchIndex p @ [(ident, rp_out p)]\<rparr>) = (openItems p)(rp_out p \<mapsto> (ident, []))"
    using assms(4,5) fresh(1,2) by (auto simp: fun_eq_iff openItems_def openSearch_def find_index_snoc)
  have new: "ident \<notin> fst ` set (rp_searchIndex p)" using assms(3) by (simp add: map_of_eq_None_iff)
  show ?thesis
    using fresh(1,2) assms opened new map_of_absent [OF assms(3), of "rp_out p"]
    by (simp add: leads_def run_steps clientOfR_def shapeR_def less_Suc_eq)
qed


text \<open>The searches that are finished have been announced as such.\<close>

definition finishedSearches :: "string list \<Rightarrow> responsesProjection \<Rightarrow> bool" where
  "finishedSearches searches p \<longleftrightarrow> (\<forall>ident i. (ident, i) \<in> set (rp_searchIndex p) \<longrightarrow> map_of (rp_byIndex p) i \<noteq> None \<longrightarrow> ident \<in> set searches)"

lemma quiet_steps:
  "rp_searchIndex (snd (responsesStart env now p)) = rp_searchIndex p" "rp_byIndex (snd (responsesStart env now p)) = rp_byIndex p"
  "rp_searchIndex (snd (responsesCloseReasoning p)) = rp_searchIndex p" "rp_searchIndex (snd (responsesCloseMessage env p)) = rp_searchIndex p"
  "rp_searchIndex (snd (responsesEnsureMessage p)) = rp_searchIndex p" "rp_searchIndex (snd (responsesEnsureReasoning p)) = rp_searchIndex p"
  "rp_byIndex (snd (responsesEnsureMessage p)) = rp_byIndex p" "rp_byIndex (snd (responsesEnsureReasoning p)) = rp_byIndex p"
  "rp_searchIndex (snd (semanticR p)) = rp_searchIndex p" "rp_byIndex (snd (semanticR p)) = rp_byIndex p"
  by (simp_all add: responsesStart_def responsesCloseReasoning_def responsesCloseMessage_def responsesEnsureMessage_def
    responsesEnsureReasoning_def semanticR_def run_steps)

lemma finished_close:
  assumes "shapeR p" and "finishedSearches searches p"
  shows "finishedSearches searches (snd (responsesCloseReasoning p))" "finishedSearches searches (snd (responsesCloseMessage env p))"
  using assms by (force simp: finishedSearches_def shapeR_def responsesCloseReasoning_def responsesCloseMessage_def run_steps image_iff)+

lemma closing_shuts:
  "\<not> rp_reasoningOpen (snd (responsesCloseMessage env p)) \<longleftrightarrow> \<not> rp_reasoningOpen p"
  by (simp add: responsesCloseMessage_def run_steps)

lemma leads_searchStarted:
  assumes "shapeR p" and "finishedSearches searches p"
  shows "leads (responsesSearchStarted env now s) p"
    "finishedSearches searches (snd (responsesSearchStarted env now s p))"
    "s = Some search \<Longrightarrow> \<exists>i. map_of (rp_searchIndex (snd (responsesSearchStarted env now s p))) (searchItemID search) = Some i"
proof -
  consider (none) "s = None" | (old) search where "s = Some search" "map_of (rp_searchIndex p) (searchItemID search) \<noteq> None"
    | (first) search where "s = Some search" "map_of (rp_searchIndex p) (searchItemID search) = None"
    by (cases s) auto
  then have "leads (responsesSearchStarted env now s) p \<and> finishedSearches searches (snd (responsesSearchStarted env now s p))
    \<and> (\<forall>search. s = Some search \<longrightarrow> (\<exists>i. map_of (rp_searchIndex (snd (responsesSearchStarted env now s p))) (searchItemID search) = Some i))"
  proof cases
    case first
    let ?ident = "searchItemID search"
    let ?ms = "[responsesStart env now, responsesCloseReasoning, responsesCloseMessage env]"
    let ?q = "snd (stepsR ?ms p)"
    let ?new = "\<lambda>p. stepsR [changing (\<lambda>q. q\<lparr>rp_out := Suc (rp_out p), rp_searchIndex := AList.update ?ident (rp_out p) (rp_searchIndex q)\<rparr>),
            nextResponsesSeq ''response.output_item.added'' (\<lambda>_. addedItem (rp_out p) [(''id'', JStr ?ident), (''type'', JStr ''web_search_call''),
              (''status'', JStr ''in_progress''), (''action'', JObj (hostedSearchResponsesAction (pj_links env) search))]),
            nextResponsesSeq ''response.web_search_call.in_progress'' (\<lambda>_. at (rp_out p) ?ident),
            nextResponsesSeq ''response.web_search_call.searching'' (\<lambda>_. at (rp_out p) ?ident)] p"
    have run: "responsesSearchStarted env now s p = stepsR (?ms @ [?new]) p"
      using first by (simp add: responsesSearchStarted_def Let_def)
    have closed3: "leads (stepsR ?ms) p"
      by (intro leads_steps leads_start leads_closeReasoning leads_closeMessage assms; (assumption)?; simp)
    have q: "shapeR ?q" "rp_started ?q" "\<not> rp_messageOpen ?q" "\<not> rp_reasoningOpen ?q" "rp_searchIndex ?q = rp_searchIndex p"
      using closed3 by (simp_all add: leads_def snd_steps keeps_text quiet_steps closing_shuts del: stepsR.simps)
    have start: "shapeR (snd (responsesStart env now p))" using leads_start [OF assms(1)] by (simp add: leads_def)
    then have close: "shapeR (snd (responsesCloseReasoning (snd (responsesStart env now p))))" using leads_closeReasoning by (simp add: leads_def)
    have fin: "finishedSearches searches ?q"
    proof -
      have "finishedSearches searches (snd (responsesStart env now p))"
        using assms(2) by (simp add: finishedSearches_def quiet_steps)
      from finished_close(2) [OF close finished_close(1) [OF start this], of env] show ?thesis
        by (simp add: snd_steps del: stepsR.simps)
    qed
    have new: "leads ?new ?q"
      using leads_openSearch [OF q(1,2) _ q(3,4), of ?ident] first(2) q(5) by (simp add: leads_def)
    have state: "snd (?new ?q) = ?q\<lparr>rp_out := Suc (rp_out ?q), rp_searchIndex := rp_searchIndex ?q @ [(?ident, rp_out ?q)],
        rp_base := (rp_base ?q)\<lparr>cp_responsesSeq := cp_responsesSeq (rp_base ?q) + 3\<rparr>\<rparr>"
      using first(2) q(5) by (simp add: run_steps map_of_absent)
    have fin': "finishedSearches searches (snd (?new ?q))"
      using fin fresh_position(2) [OF q(1)] unfolding state by (auto simp: finishedSearches_def)
    have end_state: "snd (responsesSearchStarted env now s p) = snd (?new ?q)"
      unfolding run by (simp add: stepsR_append case_prod_beta del: stepsR.simps(2)) (simp add: case_prod_beta)
    have lead: "leads (stepsR (?ms @ [?new])) p"
      by (rule leads_append [OF closed3], rule leads_steps [OF new], simp)
    have "leads (responsesSearchStarted env now s) p" using lead unfolding leads_def run .
    moreover have "finishedSearches searches (snd (responsesSearchStarted env now s p))" using fin' unfolding end_state .
    moreover have "map_of (rp_searchIndex (snd (responsesSearchStarted env now s p))) ?ident = Some (rp_out ?q)"
      unfolding end_state state using first(2) q(5) by (simp add: map_add_def del: stepsR.simps)
    ultimately show ?thesis using first(1) by auto
  qed (use assms in \<open>auto simp: responsesSearchStarted_def leads_def\<close>)
  then show "leads (responsesSearchStarted env now s) p"
    "finishedSearches searches (snd (responsesSearchStarted env now s p))"
    "s = Some search \<Longrightarrow> \<exists>i. map_of (rp_searchIndex (snd (responsesSearchStarted env now s p))) (searchItemID search) = Some i"
    by auto
qed


lemma openSearch_some:
  assumes "shapeR p" and "map_of (rp_searchIndex p) ident = Some i" and "map_of (rp_byIndex p) i = None"
  shows "openItems p i = Some (ident, [])"
proof -
  have mem: "(ident, i) \<in> set (rp_searchIndex p)" using assms(2) by (rule map_of_SomeD)
  then have "find (\<lambda>(ident, j). j = i) (rp_searchIndex p) = Some (ident, i)"
    using assms(1) by (intro find_index) (simp_all add: shapeR_def)
  moreover have "i \<in> snd ` set (rp_searchIndex p)" using mem by force
  ultimately show ?thesis
    using assms(1,3) by (auto simp: openItems_def openSearch_def shapeR_def)
qed

lemma leads_finishSearch:
  assumes "shapeR p" and "map_of (rp_searchIndex p) ident = Some i" and "map_of (rp_byIndex p) i = None"
    and "ri_ID item = ident" and "ri_Index item = i"
  shows "leads (stepsR [storeResponsesItem item, changing (\<lambda>p. p\<lparr>rp_base := (rp_base p)\<lparr>cp_citations := f (rp_base p)\<rparr>\<rparr>),
    nextResponsesSeq ''response.web_search_call.completed'' (\<lambda>_. at i ident),
    nextResponsesSeq ''response.output_item.done'' (\<lambda>_. [(''output_index'', num (int i)), (''item'', responsesItemJSON item)])]) p"
proof -
  note here = openSearch_some [OF assms(1-3)]
  have i: "i \<in> snd ` set (rp_searchIndex p)" using map_of_SomeD [OF assms(2)] by force
  have ne: "rp_messageOpen p \<longrightarrow> rp_messageIndex p \<noteq> i" "rp_reasoningOpen p \<longrightarrow> rp_reasoningIndex p \<noteq> i"
    using i assms(1) unfolding shapeR_def by metis+
  have stored: "openItems (p\<lparr>rp_byIndex := AList.update i item (rp_byIndex p)\<rparr>) = (openItems p)(i := None)"
  proof
    fix k
    show "openItems (p\<lparr>rp_byIndex := AList.update i item (rp_byIndex p)\<rparr>) k = ((openItems p)(i := None)) k"
      using ne by (cases "k = i") (auto simp: openItems_def openSearch_def)
  qed
  have "i < rp_out p" using i assms(1) unfolding shapeR_def by metis
  with ne assms(1) have shape: "shapeR (p\<lparr>rp_byIndex := AList.update i item (rp_byIndex p), rp_base := b\<rparr>)" for b
    by (simp add: shapeR_def)
  define b where "b = (rp_base p)\<lparr>cp_citations := f (rp_base p), cp_responsesSeq := cp_responsesSeq (rp_base p) + 2\<rparr>"
  let ?m = "stepsR [storeResponsesItem item, changing (\<lambda>p. p\<lparr>rp_base := (rp_base p)\<lparr>cp_citations := f (rp_base p)\<rparr>\<rparr>),
    nextResponsesSeq ''response.web_search_call.completed'' (\<lambda>_. at i ident),
    nextResponsesSeq ''response.output_item.done'' (\<lambda>_. [(''output_index'', num (int i)), (''item'', responsesItemJSON item)])]"
  let ?n = "cp_responsesSeq (rp_base p)"
  have run: "?m p = ([(''response.web_search_call.completed'', JObj ((''type'', JStr ''response.web_search_call.completed'') # (''sequence_number'', num (?n + 1)) # at i ident)),
      (''response.output_item.done'', JObj [(''type'', JStr ''response.output_item.done''), (''sequence_number'', num (?n + 2)),
        (''output_index'', num (int i)), (''item'', responsesItemJSON item)])],
      p\<lparr>rp_byIndex := AList.update i item (rp_byIndex p), rp_base := b\<rparr>)"
    using assms(5) by (simp add: storeResponsesItem_def changing_def nextResponsesSeq_def b_def Let_def num_def)
  have client: "clientOfR (p\<lparr>rp_byIndex := AList.update i item (rp_byIndex p), rp_base := b\<rparr>)
      = (clientOfR p)\<lparr>rc_seq := ?n + 2, rc_open := (openItems p)(i := None),
          rc_finished := (rc_finished (clientOfR p))(i \<mapsto> responsesItemJSON item)\<rparr>"
    using stored by (simp add: clientOfR_def b_def fun_eq_iff)
  show ?thesis
    unfolding leads_def run fst_conv snd_conv client
    using shape [of b] here assms(4) by (simp add: readResponse_def readMembers_def named_def at_def clientOfR_def add.commute)
qed

lemma leads_searchCompleted:
  assumes "shapeR p" and "finishedSearches searches p"
    and "case s of None \<Rightarrow> True | Some search \<Rightarrow> searchItemID search \<notin> set searches"
  shows "leads (responsesSearchCompleted env now s) p"
    "finishedSearches (case s of None \<Rightarrow> searches | Some search \<Rightarrow> searchItemID search # searches) (snd (responsesSearchCompleted env now s p))"
proof -
  note started = leads_searchStarted [OF assms(1,2), where env = env and now = now and s = s]
  have "leads (responsesSearchCompleted env now s) p
    \<and> finishedSearches (case s of None \<Rightarrow> searches | Some search \<Rightarrow> searchItemID search # searches) (snd (responsesSearchCompleted env now s p))"
  proof (cases s)
    case None
    with assms show ?thesis by (simp add: responsesSearchCompleted_def responsesSearchStarted_def leads_def)
  next
    case (Some search)
    let ?q = "snd (responsesSearchStarted env now s p)" and ?ident = "searchItemID search"
    obtain i where i: "map_of (rp_searchIndex ?q) ?ident = Some i" using started(3) [OF Some] by blast
    have q: "shapeR ?q" using started(1) by (simp add: leads_def)
    have new: "map_of (rp_byIndex ?q) i = None"
    proof (rule ccontr)
      assume "map_of (rp_byIndex ?q) i \<noteq> None"
      then have "?ident \<in> set searches"
        using started(2) map_of_SomeD [OF i] unfolding finishedSearches_def by blast
      with assms(3) Some show False by simp
    qed
    define item where "item = (newItem i ?ident ''web_search_call'')\<lparr>ri_Action := hostedSearchResponsesAction (pj_links env) search\<rparr>"
    let ?m = "stepsR [storeResponsesItem item,
        changing (\<lambda>p. p\<lparr>rp_base := (rp_base p)\<lparr>cp_citations := cp_citations (rp_base p) @ hostedSearchCitations (pj_links env) search\<rparr>\<rparr>),
        nextResponsesSeq ''response.web_search_call.completed'' (\<lambda>_. at i ?ident),
        nextResponsesSeq ''response.output_item.done'' (\<lambda>_. [(''output_index'', num (int i)), (''item'', responsesItemJSON item)])]"
    have item: "ri_ID item = ?ident" "ri_Index item = i" by (simp_all add: item_def newItem_def)
    have second: "leads ?m ?q" by (rule leads_finishSearch [OF q i new item])
    have run: "responsesSearchCompleted env now s p = stepsR [responsesSearchStarted env now s, ?m] p"
      using i by (simp add: responsesSearchCompleted_def Some item_def Let_def case_prod_beta)
    have "leads (stepsR [responsesSearchStarted env now s, ?m]) p"
      by (rule leads_steps [OF started(1)], rule leads_steps [OF second], simp)
    then have "leads (responsesSearchCompleted env now s) p" unfolding leads_def run .
    moreover have "finishedSearches (?ident # searches) (snd (responsesSearchCompleted env now s p))"
    proof -
      have fields: "rp_searchIndex (snd (?m r)) = rp_searchIndex r" "rp_byIndex (snd (?m r)) = AList.update i item (rp_byIndex r)" for r
        by (simp_all add: run_steps item_def)
      have "distinct (map snd (rp_searchIndex ?q))" using q by (simp add: shapeR_def)
      then have only: "(ident', i) \<in> set (rp_searchIndex ?q) \<Longrightarrow> ident' = ?ident" for ident'
        using map_of_SomeD [OF i] by (metis eq_key_imp_eq_value find_index option.inject prod.inject)
      have "snd (responsesSearchCompleted env now s p) = snd (?m ?q)"
        unfolding run by (simp only: snd_steps)
      then show ?thesis
        using started(2) only by (auto simp: finishedSearches_def fields simp del: stepsR.simps)
    qed
    ultimately show ?thesis unfolding Some option.case by blast
  qed
  then show "leads (responsesSearchCompleted env now s) p"
    "finishedSearches (case s of None \<Rightarrow> searches | Some search \<Rightarrow> searchItemID search # searches) (snd (responsesSearchCompleted env now s p))"
    by auto
qed


lemma leads_functionCall:
  assumes "shapeR p" and "rp_started p"
  shows "leads (responsesFunctionCall call) p" "rp_started (snd (responsesFunctionCall call p))"
    "finishedSearches searches p \<Longrightarrow> finishedSearches searches (snd (responsesFunctionCall call p))"
proof -
  note fresh = fresh_position [OF assms(1)]
  have same: "openItems (p\<lparr>rp_out := n, rp_byIndex := AList.update (rp_out p) item (rp_byIndex p)\<rparr>) = openItems p" for n item
  proof
    fix k
    show "openItems (p\<lparr>rp_out := n, rp_byIndex := AList.update (rp_out p) item (rp_byIndex p)\<rparr>) k = openItems p k"
      using fresh by (cases "k = rp_out p") (auto simp: openItems_def openSearch_def)
  qed
  have none: "openItems p (rp_out p) = None"
    using fresh by (auto simp: openItems_def openSearch_def)
  show "leads (responsesFunctionCall call) p"
    using assms same none fresh by (auto simp: leads_def responsesFunctionCall_def run_steps clientOfR_def shapeR_def fun_eq_iff less_Suc_eq)
  show "rp_started (snd (responsesFunctionCall call p))"
    using assms(2) by (simp add: responsesFunctionCall_def run_steps)
  show "finishedSearches searches p \<Longrightarrow> finishedSearches searches (snd (responsesFunctionCall call p))"
    using fresh(1) by (force simp: finishedSearches_def responsesFunctionCall_def run_steps)
qed


section \<open>A whole run\<close>

lemma leads_calls:
  assumes "shapeR p" and "rp_started p"
  shows "leads (stepsR (map responsesFunctionCall calls)) p" "rp_started (snd (stepsR (map responsesFunctionCall calls) p))"
proof -
  have "leads (stepsR (map responsesFunctionCall calls)) p \<and> rp_started (snd (stepsR (map responsesFunctionCall calls) p))"
    using assms
  proof (induction calls arbitrary: p)
    case (Cons call calls)
    note one = leads_functionCall(1,2) [OF Cons.prems, of call]
    have "shapeR (snd (responsesFunctionCall call p))" using one(1) by (simp add: leads_def)
    note rest = Cons.IH [OF this one(2)]
    have "leads (stepsR (responsesFunctionCall call # map responsesFunctionCall calls)) p"
      by (rule leads_steps [OF one(1)]) (use rest in blast)
    with rest show ?case by (simp add: snd_steps del: stepsR.simps)
  qed simp
  then show "leads (stepsR (map responsesFunctionCall calls)) p" "rp_started (snd (stepsR (map responsesFunctionCall calls) p))" by simp_all
qed

lemma leads_closing:
  assumes "shapeR p"
  shows "leads (responsesClosing env now) p" "rp_started (snd (responsesClosing env now p))"
proof -
  show "leads (responsesClosing env now) p"
    unfolding responsesClosing_def
    by (intro leads_steps leads_start leads_closeReasoning leads_closeMessage assms; (assumption)?; simp)
  show "rp_started (snd (responsesClosing env now p))"
    unfolding responsesClosing_def by (simp add: snd_steps keeps_text del: stepsR.simps)
qed

text \<open>The numbering does not enter the response.\<close>

lemma tokens_seq: "outputTokens env (b\<lparr>cp_responsesSeq := n\<rparr>) = outputTokens env b"
  by (simp add: outputTokens_def Let_def cong: option.case_cong)

lemma private_seq: "attachPrivateUsage (b\<lparr>cp_responsesSeq := n\<rparr>) u = attachPrivateUsage b u"
  by (simp add: attachPrivateUsage_def privateUsageFields_def Let_def)

lemma envelope_seq: "responsesEnvelope env status items (p\<lparr>rp_base := (rp_base p)\<lparr>cp_responsesSeq := n\<rparr>\<rparr>) = responsesEnvelope env status items p"
  by (simp add: responsesEnvelope_def responsesUsage_def tokens_seq private_seq Let_def)

definition answered :: "projectionEnv \<Rightarrow> responsesEvent list \<Rightarrow> responsesProjection \<Rightarrow> bool" where
  "answered env out q \<longleftrightarrow> out \<noteq> [] \<and> fst (last out) = ''response.completed''
     \<and> (\<exists>m. snd (last out) = JObj m \<and> map_of m ''response'' = Some (JObj (responsesEnvelope env ''completed'' (responsesOutputJSON q) q)))"

lemma finish_answers:
  "readsR (fst (responsesFinish env p)) (clientOfR p)
     = Some ((clientOfR p)\<lparr>rc_seq := cp_responsesSeq (rp_base p) + 1, rc_answer := Some (responsesOutputJSON p)\<rparr>)"
  "answered env (fst (responsesFinish env p)) (snd (responsesFinish env p))"
  "responsesOutputJSON (snd (responsesFinish env p)) = responsesOutputJSON p"
proof -
  have out: "map_of (responsesEnvelope env ''completed'' items p) ''output'' = Some (JArr items)" for items
    by (simp add: responsesEnvelope_def)
  show "readsR (fst (responsesFinish env p)) (clientOfR p)
     = Some ((clientOfR p)\<lparr>rc_seq := cp_responsesSeq (rp_base p) + 1, rc_answer := Some (responsesOutputJSON p)\<rparr>)"
    by (simp add: responsesFinish_def nextResponsesSeq_def readResponse_def readMembers_def out clientOfR_def responsesOutputJSON_def Let_def)
  show same: "responsesOutputJSON (snd (responsesFinish env p)) = responsesOutputJSON p"
    by (simp add: responsesFinish_def nextResponsesSeq_def responsesOutputJSON_def Let_def)
  show "answered env (fst (responsesFinish env p)) (snd (responsesFinish env p))"
    using same by (simp add: answered_def responsesFinish_def nextResponsesSeq_def Let_def envelope_seq)
qed

lemma answered_append: "answered env out q \<Longrightarrow> answered env (es @ out) q"
  by (simp add: answered_def)

definition finalR :: "projectionEnv \<Rightarrow> responsesEvent list \<Rightarrow> responsesClient \<Rightarrow> responsesProjection \<Rightarrow> bool" where
  "finalR env out c q \<longleftrightarrow> answered env out q \<and> (\<exists>c'. readsR out c = Some c' \<and> rc_answer c' = Some (responsesOutputJSON q))"

lemma finish_final:
  assumes "leads (stepsR ms) p"
  shows "finalR env (fst (stepsR (ms @ [responsesFinish env]) p)) (clientOfR p) (snd (stepsR (ms @ [responsesFinish env]) p))"
proof -
  obtain a p1 where a: "stepsR ms p = (a, p1)" by (cases "stepsR ms p") auto
  obtain b p2 where b: "responsesFinish env p1 = (b, p2)" by (cases "responsesFinish env p1") auto
  from finish_answers [of env p1] assms a b show ?thesis
    by (auto simp: finalR_def leads_def stepsR_append intro: answered_append)
qed

text \<open>No search is completed twice.\<close>

fun searchesOnce :: "string list \<Rightarrow> Event list \<Rightarrow> bool" where
  "searchesOnce searches [] = True"
| "searchesOnce searches (e # es) = (case (ev_Type e, ev_HostedSearch e) of
     (EventHostedSearchCompleted, Some s) \<Rightarrow> searchItemID s \<notin> set searches \<and> searchesOnce (searchItemID s # searches) es
   | _ \<Rightarrow> searchesOnce searches es)"

definition goingR :: "string list \<Rightarrow> responsesProjection \<Rightarrow> bool" where
  "goingR searches p \<longleftrightarrow> shapeR p \<and> finishedSearches searches p"

definition eventR :: "projectionEnv \<Rightarrow> Event list \<Rightarrow> responsesProjection \<Rightarrow> (responsesEvent list \<times> bool \<times> bool) res \<times> responsesProjection \<Rightarrow> bool" where
  "eventR env es p result \<longleftrightarrow> (case result of
     (Inl e, q) \<Rightarrow> True
   | (Inr (out, terminal, park), q) \<Rightarrow> if terminal then finalR env out (clientOfR p) q
       else \<not> park \<and> readsR out (clientOfR p) = Some (clientOfR q) \<and> (\<exists>searches. goingR searches q \<and> searchesOnce searches es))"

lemma finished_frame:
  "finishedSearches searches (snd (responsesText env now t p)) = finishedSearches searches (snd (stepsR [semanticR, responsesStart env now, responsesCloseReasoning, responsesEnsureMessage] p))"
  "t \<noteq> [] \<Longrightarrow> finishedSearches searches (snd (responsesThinking env now t p)) = finishedSearches searches (snd (stepsR [semanticR, responsesStart env now, responsesCloseMessage env, responsesEnsureReasoning] p))"
proof -
  have tail: "finishedSearches searches (snd (stepsR (ms @ [changing f, nextResponsesSeq kind g]) p)) = finishedSearches searches (snd (stepsR ms p))"
    if "\<And>p. rp_searchIndex (f p) = rp_searchIndex p" "\<And>p. rp_byIndex (f p) = rp_byIndex p" for ms f kind g
    using that by (simp add: stepsR_append case_prod_beta finishedSearches_def changing_def nextResponsesSeq_def Let_def)
  show "finishedSearches searches (snd (responsesText env now t p)) = finishedSearches searches (snd (stepsR [semanticR, responsesStart env now, responsesCloseReasoning, responsesEnsureMessage] p))"
    unfolding text_last by (rule tail) simp_all
  show "t \<noteq> [] \<Longrightarrow> finishedSearches searches (snd (responsesThinking env now t p)) = finishedSearches searches (snd (stepsR [semanticR, responsesStart env now, responsesCloseMessage env, responsesEnsureReasoning] p))"
    by (subst thinking_last, assumption) (rule tail; simp)
qed

lemma finished_text:
  assumes "goingR searches p"
  shows "finishedSearches searches (snd (responsesText env now t p))" "finishedSearches searches (snd (responsesThinking env now t p))"
proof -
  let ?p1 = "snd (responsesStart env now (snd (semanticR p)))"
  have p1: "shapeR ?p1" "finishedSearches searches ?p1"
    using leads_start [of "snd (semanticR p)" env now] leads_semantic [of p] assms
    by (auto simp: leads_def goingR_def finishedSearches_def quiet_steps)
  have same: "finishedSearches searches (snd (responsesEnsureMessage q)) = finishedSearches searches q"
    "finishedSearches searches (snd (responsesEnsureReasoning q)) = finishedSearches searches q" for q
    by (simp_all add: finishedSearches_def quiet_steps)
  show "finishedSearches searches (snd (responsesText env now t p))"
    unfolding finished_frame snd_steps same by (rule finished_close(1) [OF p1])
  show "finishedSearches searches (snd (responsesThinking env now t p))"
  proof (cases "t = []")
    case True
    with assms show ?thesis by (simp add: responsesThinking_def goingR_def)
  next
    case False
    show ?thesis
      unfolding finished_frame(2) [OF False] snd_steps same by (rule finished_close(2) [OF p1])
  qed
qed


lemma eventR_going:
  assumes "leads m p" and "finishedSearches searches (snd (m p))" and "searchesOnce searches es"
  shows "eventR env es p (case m p of (out, q) \<Rightarrow> (Inr (out, False, False), q))"
  using assms by (auto simp: eventR_def leads_def goingR_def split: prod.splits)

lemma handleResponses_follows:
  assumes "goingR searches p" and "searchesOnce searches (e # es)"
  shows "eventR env es p (handleResponses env now e p)"
proof -
  define p' where "p' = p\<lparr>rp_base := (rp_base p)\<lparr>cp_facts := observe (cp_facts (rp_base p)) e\<rparr>\<rparr>"
  have same: "shapeR (p\<lparr>rp_base := b\<rparr>) = shapeR p" "finishedSearches s (p\<lparr>rp_base := b\<rparr>) = finishedSearches s p"
    "cp_responsesSeq b = cp_responsesSeq (rp_base p) \<Longrightarrow> clientOfR (p\<lparr>rp_base := b\<rparr>) = clientOfR p" for p b s
    by (simp_all add: shapeR_def finishedSearches_def clientOfR_def)
  have p': "goingR searches p'" "shapeR p'" "finishedSearches searches p'"
    using assms(1) by (simp_all add: p'_def goingR_def same)
  have client: "clientOfR p' = clientOfR p" by (simp add: p'_def same)
  have eventR': "eventR env es p r = eventR env es p' r" for r
    unfolding eventR_def client by (rule refl)
  have plain: "searchesOnce searches es" if "ev_Type e \<noteq> EventHostedSearchCompleted"
    using assms(2) that by (auto split: EventType.splits option.splits)
  have idle: "eventR env es p (Inr ([], False, False), p'\<lparr>rp_base := b\<rparr>)"
    if "ev_Type e \<noteq> EventHostedSearchCompleted" "cp_responsesSeq b = cp_responsesSeq (rp_base p')" for b
    using p' plain [OF that(1)] that(2) by (auto simp: eventR' eventR_def goingR_def same client)
  have semantic: "leads semanticR p'" "shapeR (snd (semanticR p'))" "finishedSearches searches (snd (semanticR p'))"
    using leads_semantic [OF p'(2)] p'(3) by (simp_all add: leads_def finishedSearches_def quiet_steps)
  note closed = leads_closing [OF p'(2), of env now]
  have shape: "shapeR (snd (responsesClosing env now p'))" using closed(1) by (simp add: leads_def)
  show ?thesis
  proof (cases "ev_Type e")
    case EventHostedSearchStarted
    let ?m = "stepsR [semanticR, responsesSearchStarted env now (ev_HostedSearch e)]"
    note started = leads_searchStarted [OF semantic(2,3), where env = env and now = now and s = "ev_HostedSearch e"]
    have "eventR env es p' (case ?m p' of (out, q) \<Rightarrow> (Inr (out, False, False), q))"
    proof (rule eventR_going)
      show "leads ?m p'" by (rule leads_steps [OF semantic(1)], rule leads_steps [OF started(1)], simp)
      show "finishedSearches searches (snd (?m p'))" unfolding snd_steps by (rule started(2))
      show "searchesOnce searches es" by (rule plain) (simp add: EventHostedSearchStarted)
    qed
    then show ?thesis by (simp add: eventR' handleResponses_def Let_def EventHostedSearchStarted p'_def [symmetric] del: stepsR.simps)
  next
    case EventHostedSearchCompleted
    let ?m = "stepsR [semanticR, responsesSearchCompleted env now (ev_HostedSearch e)]"
    let ?s = "case ev_HostedSearch e of None \<Rightarrow> searches | Some search \<Rightarrow> searchItemID search # searches"
    have new: "case ev_HostedSearch e of None \<Rightarrow> True | Some search \<Rightarrow> searchItemID search \<notin> set searches"
      and rest: "searchesOnce ?s es"
      using assms(2) by (auto simp: EventHostedSearchCompleted split: option.splits)
    note completed = leads_searchCompleted [OF semantic(2,3) new, where env = env and now = now]
    have "eventR env es p' (case ?m p' of (out, q) \<Rightarrow> (Inr (out, False, False), q))"
    proof (rule eventR_going)
      show "leads ?m p'" by (rule leads_steps [OF semantic(1)], rule leads_steps [OF completed(1)], simp)
      show "finishedSearches ?s (snd (?m p'))" unfolding snd_steps by (rule completed(2))
    qed (rule rest)
    then show ?thesis by (simp add: eventR' handleResponses_def Let_def EventHostedSearchCompleted p'_def [symmetric] del: stepsR.simps)
  next
    case EventText
    have "eventR env es p' (case responsesText env now (ev_Text e) p' of (out, q) \<Rightarrow> (Inr (out, False, False), q))"
      by (rule eventR_going [OF leads_text [OF p'(2)] finished_text(1) [OF p'(1)]], rule plain) (simp add: EventText)
    then show ?thesis by (simp add: eventR' handleResponses_def Let_def EventText p'_def [symmetric])
  next
    case EventThinking
    have "eventR env es p' (case responsesThinking env now (ev_Text e) p' of (out, q) \<Rightarrow> (Inr (out, False, False), q))"
      by (rule eventR_going [OF leads_thinking [OF p'(2)] finished_text(2) [OF p'(1)]], rule plain) (simp add: EventThinking)
    then show ?thesis by (simp add: eventR' handleResponses_def Let_def EventThinking p'_def [symmetric])
  next
    case EventThinkingCompleted
    have "eventR env es p' (case responsesCloseReasoning p' of (out, q) \<Rightarrow> (Inr (out, False, False), q))"
      by (rule eventR_going [OF leads_closeReasoning [OF p'(2)] finished_close(1) [OF p'(2,3)]], rule plain) (simp add: EventThinkingCompleted)
    then show ?thesis by (simp add: eventR' handleResponses_def Let_def EventThinkingCompleted p'_def [symmetric])
  next
    case EventTurnEnded
    let ?ms = "[responsesClosing env now] @ map responsesFunctionCall (cp_toolCalls (rp_base p'))"
    have "leads (stepsR [responsesClosing env now]) p'" by (rule leads_steps [OF closed(1)], simp)
    then have "leads (stepsR ?ms) p'"
      by (rule leads_append) (simp only: snd_steps, rule leads_calls(1) [OF shape closed(2)])
    from finish_final [OF this, of env] show ?thesis
      by (auto simp: eventR' eventR_def handleResponses_def Let_def EventTurnEnded client p'_def [symmetric] case_prod_beta)
  next
    case EventDone
    have "leads (stepsR [responsesClosing env now]) p'" by (rule leads_steps [OF closed(1)], simp)
    from finish_final [OF this, of env] show ?thesis
      by (auto simp: eventR' eventR_def handleResponses_def Let_def EventDone client p'_def [symmetric] case_prod_beta)
  next
    case EventToolCall
    show ?thesis
      using idle [of "rp_base p'"] idle [of "(rp_base p')\<lparr>cp_semantic := True, cp_toolCalls := cs\<rparr>" for cs]
      by (cases "ev_ToolCall e") (simp_all add: handleResponses_def Let_def EventToolCall p'_def [symmetric])
  qed (use idle [of "rp_base p'"] in \<open>simp_all add: handleResponses_def Let_def p'_def [symmetric]\<close>)
qed

lemma responsesRun_follows:
  assumes "goingR searches p" and "searchesOnce searches es" and "responsesRun env now es p = (r, out, q)"
  shows "case r of
      Inr (True, park) \<Rightarrow> finalR env out (clientOfR p) q
    | _ \<Rightarrow> readsR out (clientOfR p) \<noteq> None"
  using assms
proof (induction es arbitrary: searches p r out q)
  case (Cons e es)
  note event = handleResponses_follows [OF Cons.prems(1,2), of env now]
  obtain h p1 where h: "handleResponses env now e p = (h, p1)" by (cases "handleResponses env now e p") auto
  show ?case
  proof (cases h)
    case (Inl err)
    with h Cons.prems(3) show ?thesis by auto
  next
    case (Inr x)
    obtain o1 terminal park where x: "x = (o1, terminal, park)" by (cases x) auto
    show ?thesis
    proof (cases terminal)
      case True
      with h Inr x Cons.prems(3) event show ?thesis by (auto simp: eventR_def)
    next
      case False
      with event h Inr x obtain s where s: "readsR o1 (clientOfR p) = Some (clientOfR p1)" "goingR s p1" "searchesOnce s es"
        by (auto simp: eventR_def)
      obtain r2 o2 q2 where rest: "responsesRun env now es p1 = (r2, o2, q2)" by (cases "responsesRun env now es p1") auto
      with h Inr x False Cons.prems(3) have eq: "r = r2" "out = o1 @ o2" "q = q2" by auto
      show ?thesis
        using Cons.IH [OF s(2,3) rest] s(1) eq
        by (auto simp: finalR_def answered_append split: sum.splits prod.splits bool.splits)
    qed
  qed
qed auto

lemma newResponses_going: "goingR [] (newResponsesProjection p)"
  by (simp add: goingR_def shapeR_def finishedSearches_def newResponsesProjection_def)

lemma newResponses_client: "clientOfR (newResponsesProjection (newClaudeProjection env turn)) = newClient"
  by (simp add: clientOfR_def newClient_def newResponsesProjection_def newClaudeProjection_def openItems_def openSearch_def fun_eq_iff Let_def)

text \<open>
  C26: A Responses stream can be followed, and ends with the answer that is not streamed.  Whatever the events of a run
  are, as long as no search completes twice, a client can follow what is sent: sequence numbers count up from one,
  items are added at consecutive positions, text is only added to an item that is open and its end repeats the
  text received, and an item is finished once under its own identifier.  When the run is answered, the last event is
  the completed response, whose output is exactly the finished items in the order of their positions, and the
  request that does not stream gets the same response object.
\<close>

theorem responses_stream_completes:
  assumes "searchesOnce [] events"
    and "responsesRun env now events (newResponsesProjection (newClaudeProjection env turn)) = (r, out, q)"
  shows "case r of
      Inr (True, park) \<Rightarrow>
        (\<exists>m response. out \<noteq> [] \<and> last out = (''response.completed'', JObj m) \<and> map_of m ''response'' = Some response
           \<and> responsesNonStream env q = pj_marshal env response)
        \<and> (\<exists>c. readsR out newClient = Some c \<and> rc_answer c = Some (responsesOutputJSON q))
    | _ \<Rightarrow> readsR out newClient \<noteq> None"
proof -
  note run = responsesRun_follows [OF newResponses_going assms, unfolded newResponses_client]
  have "\<exists>m response. out \<noteq> [] \<and> last out = (''response.completed'', JObj m) \<and> map_of m ''response'' = Some response
      \<and> responsesNonStream env q = pj_marshal env response" if "answered env out q"
    using that unfolding answered_def responsesNonStream_def by (metis prod.collapse)
  with run show ?thesis
    by (auto simp: finalR_def split: sum.splits prod.splits bool.splits)
qed


section \<open>An example\<close>

definition exampleResponses :: projectionEnv where
  "exampleResponses = \<lparr>pj_links = \<lparr>ln_lower = id, ln_parseURL = (\<lambda>_. None), ln_parseIP = (\<lambda>_. False), ln_match = (\<lambda>_. None)\<rparr>,
     pj_sha = id, pj_uuid = ''u'', pj_marshal = (\<lambda>_. Inr ''{}''), pj_unmarshal = (\<lambda>_. Some (JObj [])), pj_toInt = (\<lambda>_. 0),
     pj_translate = (\<lambda>_ _ line param. ([line], param)), pj_translateNonStream = (\<lambda>_ _ sse _. sse),
     pj_countTokens = (\<lambda>_ _. None), pj_countInput = None\<rparr>"

definition exampleQuestion :: projectedTurn where
  "exampleQuestion = \<lparr>pt_managed = \<lparr>mr_TurnMetering = False, mr_RequestSegmentID = [], mr_SessionID = ''s'', mr_BillingRunID = ''b'',
     mr_CredentialScope = ''scope'', mr_AccountKey = ''key'', mr_ToolCatalogDigest = [], mr_FollowUpText = [],
     mr_ActiveResults = [], mr_CarryUsage = [], mr_RequireExisting = False, mr_ReuseBillingRun = False,
     mr_Context = None, mr_Run = newRunRequest, mr_DisableCallerTools = False\<rparr>, pt_responseFormat = FormatOpenAIResponse, pt_publicModel = ''m''\<rparr>"

definition exampleHit :: HostedSearch where
  "exampleHit = \<lparr>hs_CallID = ''c'', hs_Kind = HostedSearchKindWebSearch, hs_Query = ''q'', hs_URL = [], hs_ArgsJSON = [],
     hs_References = [], hs_Content = [], hs_Error = []\<rparr>"

definition exampleTurnEvents :: "Event list" where
  "exampleTurnEvents = [(newEvent EventText)\<lparr>ev_Text := ''b''\<rparr>,
     (newEvent EventToolCall)\<lparr>ev_ToolCall := Some \<lparr>tc_MessageID = 1, tc_ExecID = ''e'', tc_ToolCallID = ''t'', tc_Name = ''n'', tc_Arguments = []\<rparr>\<rparr>,
     newEvent EventTurnEnded]"

abbreviation exampleAnswer5 :: "(bool \<times> bool) res \<times> responsesEvent list \<times> responsesProjection" where
  "exampleAnswer5 \<equiv> responsesRun exampleResponses 7 exampleTurnEvents (newResponsesProjection (newClaudeProjection exampleResponses exampleQuestion))"


lemmas exampleSimps = exampleTurnEvents_def exampleQuestion_def newEvent_def newResponsesProjection_def newClaudeProjection_def
  handleResponses_def responsesText_def responsesClosing_def semanticR_def changing_def responsesStart_def responsesCloseReasoning_def
  responsesEnsureMessage_def responsesCloseMessage_def responsesFunctionCall_def responsesFinish_def nextResponsesSeq_def storeResponsesItem_def newItem_def Let_def

lemma example_answers: "fst exampleAnswer5 = Inr (True, True)"
  by (simp add: exampleSimps)

lemma example_length: "length (fst (snd exampleAnswer5)) = 13"
  by (simp add: exampleSimps)

theorem responses_stream_completes_witness:
  "length (fst (snd exampleAnswer5)) = 13
    \<and> (\<exists>m response. last (fst (snd exampleAnswer5)) = (''response.completed'', JObj m) \<and> map_of m ''response'' = Some response
        \<and> responsesNonStream exampleResponses (snd (snd exampleAnswer5)) = pj_marshal exampleResponses response)
    \<and> (\<exists>c. readsR (fst (snd exampleAnswer5)) newClient = Some c \<and> rc_answer c = Some (responsesOutputJSON (snd (snd exampleAnswer5))))"
proof -
  obtain r out q where run: "exampleAnswer5 = (r, out, q)" by (metis prod.collapse)
  have r: "r = Inr (True, True)" using run example_answers by simp
  have "searchesOnce [] exampleTurnEvents" by code_simp
  from responses_stream_completes [OF this run] r have main:
    "\<exists>m response. last out = (''response.completed'', JObj m) \<and> map_of m ''response'' = Some response
        \<and> responsesNonStream exampleResponses q = pj_marshal exampleResponses response"
    "\<exists>c. readsR out newClient = Some c \<and> rc_answer c = Some (responsesOutputJSON q)" by auto
  with run example_length show ?thesis by simp
qed

end
