(* ===== verification/Protocol.thy ===== *)
theory Protocol
  imports Wire Links
begin

text \<open>
  How the client reads a message of the server (\<open>protocol.go\<close>, \<open>protocol_feedback.go\<close>): the fields of the
  envelope, and the typed messages in them.  The generated messages are records and datatypes with the variants of
  their schema; \<open>proto.Unmarshal\<close> for each of them is a parameter, as are \<open>structpb\<close>, the JSON encoder and
  \<open>utf8.Valid\<close>.  What \<open>protowire.ParseError\<close> says is not modelled.
\<close>

section \<open>The generated messages\<close>

record McpArgs =
  ma_Name :: string
  ma_Args :: "(string \<times> bytes) list"
  ma_ToolCallID :: string
  ma_ToolName :: string

record SearchArgs =
  sa_Term :: string
  sa_ToolCallID :: string

record FetchArgs =
  fa_Url :: string
  fa_ToolCallID :: string

record ExaFetchArgs =
  xa_Ids :: "string list"
  xa_ToolCallID :: string

record ExaContent =
  xc_Title :: string
  xc_Url :: string
  xc_Text :: string

text \<open>A variant without a payload stands for a result message whose \<open>oneof\<close> is not set.\<close>

datatype WebSearchResult = WebSearchSuccess "HostedSearchReference list" | WebSearchError string | WebSearchRejected string | NoWebSearchResult
datatype ExaSearchResult = ExaSearchSuccess "ExaContent list" | ExaSearchError string | ExaSearchRejected string | NoExaSearchResult
datatype ExaFetchResult = ExaFetchSuccess "ExaContent list" | ExaFetchError string | ExaFetchRejected string | NoExaFetchResult
datatype FetchResult = FetchSuccess string string | FetchResultError string string | NoFetchResult

record FetchToolCall =
  ft_Args :: "FetchArgs option"
  ft_Result :: "FetchResult option"

datatype toolVariant =
    ToolCall_WebSearchToolCall "SearchArgs option" "WebSearchResult option"
  | ToolCall_WebFetchToolCall FetchToolCall
  | ToolCall_FetchToolCall FetchToolCall
  | ToolCall_ExaSearchToolCall "SearchArgs option" "ExaSearchResult option"
  | ToolCall_ExaFetchToolCall "ExaFetchArgs option" "ExaFetchResult option"
  | ToolCall_McpToolCall "McpArgs option"
  | ToolCall_Other nat

record toolCallMessage =
  tm_Tool :: "toolVariant option"
  tm_ToolCallID :: string
  tm_Unknown :: bytes

datatype updateVariant =
    InteractionUpdate_TextDelta string
  | InteractionUpdate_ThinkingDelta string
  | InteractionUpdate_ThinkingCompleted
  | InteractionUpdate_TokenDelta TokenDeltaUpdate
  | InteractionUpdate_TurnEnded TurnEndedUpdate
  | InteractionUpdate_ToolCallStarted string "toolCallMessage option"
  | InteractionUpdate_ToolCallCompleted string "toolCallMessage option"
  | InteractionUpdate_ToolCallDelta string
  | InteractionUpdate_PartialToolCall string "toolCallMessage option"
  | InteractionUpdate_Heartbeat | InteractionUpdate_Summary | InteractionUpdate_SummaryStarted
  | InteractionUpdate_SummaryCompleted | InteractionUpdate_UserMessageAppended
  | InteractionUpdate_ShellOutputDelta | InteractionUpdate_StepStarted | InteractionUpdate_StepCompleted

record interactionUpdate =
  iu_Message :: "updateVariant option"
  iu_Unknown :: bytes

datatype execVariant =
    ExecServerMessage_ShellArgs | ExecServerMessage_ShellStreamArgs | ExecServerMessage_BackgroundShellSpawnArgs
  | ExecServerMessage_WriteArgs | ExecServerMessage_DeleteArgs | ExecServerMessage_GrepArgs
  | ExecServerMessage_ReadArgs | ExecServerMessage_RedactedReadArgs | ExecServerMessage_LsArgs
  | ExecServerMessage_DiagnosticsArgs | ExecServerMessage_RequestContextArgs | ExecServerMessage_McpArgs McpArgs
  | ExecServerMessage_FetchArgs | ExecServerMessage_ShellAllowlistPrecheckArgs
  | ExecServerMessage_McpAllowlistPrecheckArgs | ExecServerMessage_WebFetchAllowlistPrecheckArgs
  | ExecServerMessage_Other string nat

record execServerMessage =
  es_Id :: "32 word"
  es_ExecId :: string
  es_SpanContext :: bool
  es_Message :: "execVariant option"
  es_AcceptHook :: bool
  es_Unknown :: bytes

datatype kvVariant = KvServerMessage_GetBlobArgs bytes | KvServerMessage_SetBlobArgs bytes bytes

record kvServerMessage =
  ks_Id :: "32 word"
  ks_Message :: "kvVariant option"
  ks_Unknown :: bytes

datatype queryVariant =
    InteractionQuery_WebSearchRequestQuery "SearchArgs option"
  | InteractionQuery_AskQuestionInteractionQuery
  | InteractionQuery_SwitchModeRequestQuery
  | InteractionQuery_ExaSearchRequestQuery "SearchArgs option"
  | InteractionQuery_ExaFetchRequestQuery "ExaFetchArgs option"
  | InteractionQuery_CreatePlanRequestQuery
  | InteractionQuery_SetupVmEnvironmentArgs
  | InteractionQuery_WebFetchRequestQuery "FetchArgs option"

record interactionQuery =
  iq_Id :: "32 word"
  iq_Query :: "queryVariant option"
  iq_Unknown :: bytes

record execServerControl =
  ec_Abort :: "32 word option"
  ec_Unknown :: bytes

record serverCodec =
  sc_pw :: protowire
  sc_links :: linkEnv
  sc_update :: "bytes \<Rightarrow> interactionUpdate res"
  sc_exec :: "bytes \<Rightarrow> execServerMessage res"
  sc_kv :: "bytes \<Rightarrow> kvServerMessage res"
  sc_query :: "bytes \<Rightarrow> interactionQuery res"
  sc_control :: "bytes \<Rightarrow> execServerControl res"
  sc_value :: "bytes \<Rightarrow> json option"
  sc_validUTF8 :: "bytes \<Rightarrow> bool"
  sc_rawURL :: "bytes \<Rightarrow> string"
  sc_marshal :: "json \<Rightarrow> string res"

section \<open>Unknown fields\<close>

definition numbersText :: "nat list \<Rightarrow> string" where
  "numbersText numbers = ''['' @ join '' '' (map natDecimal numbers) @ '']''"

definition protocolDriftError :: "string \<Rightarrow> nat list \<Rightarrow> err" where
  "protocolDriftError surface numbers =
     (if numbers = [] then Errorf ''Cursor Agent v1 protocol drift in %s'' [S surface]
      else Errorf ''Cursor Agent v1 protocol drift in %s: unknown field(s) %v'' [S surface, S (numbersText numbers)])"

definition unknownFieldNumbers :: "protowire \<Rightarrow> bytes \<Rightarrow> nat list" where
  "unknownFieldNumbers pw unknown = scan pw id (\<lambda>numbers number wireType rest.
     skipValue pw number wireType rest numbers (if number \<in> set numbers then numbers else numbers @ [number]))
     id (length unknown) [] unknown"

definition filterToolCallUnknown :: "nat list \<Rightarrow> nat list" where
  "filterToolCallUnknown numbers = filter (\<lambda>n. n \<notin> {54, 57, 59, 60}) numbers"

text \<open>
  \<open>oneofFieldNumber\<close>, over the fields of a message in the order of its descriptor: number, member of a
  \<open>oneof\<close> (which an optional field is, too), set.
\<close>

definition oneofFieldNumber :: "(nat \<times> bool \<times> bool) list \<Rightarrow> nat" where
  "oneofFieldNumber descriptor = (case filter (\<lambda>(number, oneof, has). oneof \<and> has) descriptor of
     [] \<Rightarrow> 0 | (number, _) # _ \<Rightarrow> number)"

definition rejectOverflowID :: "protowire \<Rightarrow> bytes \<Rightarrow> string \<Rightarrow> unit res" where
  "rejectOverflowID pw data what = scan pw (\<lambda>_. Inl (Errorf ''decode Cursor Agent v1 %s tag: %v'' [S what])) (\<lambda>_ number wireType rest.
     if wireType = VarintType \<and> number = 1
     then (case pw_ConsumeVarint pw rest of
         None \<Rightarrow> Inl (Inl (Errorf ''decode Cursor Agent v1 %s varint 1: %v'' [S what]))
       | Some (v, n) \<Rightarrow> if unat v > 2 ^ 32 - 1
           then Inl (Inl (Errorf ''Cursor Agent v1 %s id exceeds uint32: %d'' [S what, N (uint v)])) else Inr (n, ()))
     else skipValue pw number wireType rest (Inl (Errorf ''decode Cursor Agent v1 %s field %d: %v'' [S what, N (int number)])) ())
     (\<lambda>_. Inr ()) (length data) () data"

section \<open>Feedback requests\<close>

definition interactionFeedbackRequestField :: nat where "interactionFeedbackRequestField = 21"

definition feedbackTagError :: err where
  "feedbackTagError = Errorf ''decode Cursor Agent v1 feedback request: %v'' []"

definition feedbackFieldError :: "nat \<Rightarrow> err" where
  "feedbackFieldError number = Errorf ''decode Cursor Agent v1 feedback request field %d: %v'' [N (int number)]"

text \<open>\<open>validateFeedbackCategory\<close>; the recursion is at most one level deep.\<close>

definition categoryFields :: "protowire \<Rightarrow> (bytes \<Rightarrow> unit res) option \<Rightarrow> bytes \<Rightarrow> unit res" where
  "categoryFields pw grouped data = scan pw (\<lambda>_. Inl feedbackTagError) (\<lambda>_ number wireType rest.
     if number = 1 \<or> number = 2 \<or> (grouped \<noteq> None \<and> number = 3)
     then (if wireType \<noteq> BytesType
           then Inl (Inl (Errorf ''Cursor Agent v1 feedback category field %d must be length-delimited'' [N (int number)]))
           else case pw_ConsumeBytes pw rest of None \<Rightarrow> Inl (Inl (feedbackFieldError number))
             | Some (v, n) \<Rightarrow> (case (if number = 3 then (case grouped of Some inner \<Rightarrow> inner v | None \<Rightarrow> Inr ()) else Inr ()) of
                 Inl e \<Rightarrow> Inl (Inl e) | Inr () \<Rightarrow> Inr (n, ())))
     else skipValue pw number wireType rest (Inl (feedbackFieldError number)) ())
     (\<lambda>_. Inr ()) (length data) () data"

definition validateFeedbackCategory :: "protowire \<Rightarrow> bytes \<Rightarrow> bool \<Rightarrow> unit res" where
  "validateFeedbackCategory pw data grouped =
     (if grouped then categoryFields pw (Some (categoryFields pw None)) data else categoryFields pw None data)"

definition validateFeedbackRequestUpdate :: "protowire \<Rightarrow> bytes \<Rightarrow> unit res" where
  "validateFeedbackRequestUpdate pw data = scan pw (\<lambda>_. Inl feedbackTagError) (\<lambda>_ number wireType rest.
     if number \<in> {1, 2, 6, 7, 8, 3, 4}
     then (if wireType \<noteq> BytesType
           then Inl (Inl (Errorf ''Cursor Agent v1 feedback request field %d must be length-delimited'' [N (int number)]))
           else case pw_ConsumeBytes pw rest of None \<Rightarrow> Inl (Inl (feedbackFieldError number))
             | Some (v, n) \<Rightarrow> (case (if number \<in> {3, 4} then validateFeedbackCategory pw v (number = 4) else Inr ()) of
                 Inl e \<Rightarrow> Inl (Inl e) | Inr () \<Rightarrow> Inr (n, ())))
     else if number = 5
     then (if wireType \<noteq> VarintType
           then Inl (Inl (Errorf ''Cursor Agent v1 feedback request field %d must be varint'' [N (int number)]))
           else case pw_ConsumeVarint pw rest of None \<Rightarrow> Inl (Inl (feedbackFieldError number)) | Some (v, n) \<Rightarrow> Inr (n, ()))
     else skipValue pw number wireType rest (Inl (feedbackFieldError number)) ())
     (\<lambda>_. Inr ()) (length data) () data"

definition remainingInteractionUnknown :: "protowire \<Rightarrow> bytes \<Rightarrow> nat list res" where
  "remainingInteractionUnknown pw unknown = scan pw (\<lambda>_. Inl (Errorf ''decode Cursor Agent v1 interaction update: %v'' []))
     (\<lambda>(remaining, feedbackSeen) number wireType rest.
       if number = interactionFeedbackRequestField
       then (if wireType \<noteq> BytesType then Inl (Inl (Errorf ''Cursor Agent v1 feedback request must be length-delimited'' []))
             else case pw_ConsumeBytes pw rest of
               None \<Rightarrow> Inl (Inl (Errorf ''decode Cursor Agent v1 feedback request: %v'' []))
             | Some (v, n) \<Rightarrow> (case validateFeedbackRequestUpdate pw v of
                 Inl e \<Rightarrow> Inl (Inl e) | Inr () \<Rightarrow> Inr (n, (remaining, True))))
       else skipValue pw number wireType rest
         (Inl (Errorf ''decode Cursor Agent v1 interaction update field %d: %v'' [N (int number)]))
         (if number \<in> set remaining then remaining else remaining @ [number], feedbackSeen))
     (\<lambda>(remaining, feedbackSeen). if feedbackSeen \<and> remaining \<noteq> []
        then Inl (protocolDriftError ''interaction update'' remaining) else Inr remaining)
     (length unknown) ([], False) unknown"

section \<open>Tool calls\<close>

definition marshalSearchArgs :: "serverCodec \<Rightarrow> object \<Rightarrow> string" where
  "marshalSearchArgs codec m = (case sc_marshal codec (JObj m) of Inl _ \<Rightarrow> ''{}'' | Inr encoded \<Rightarrow> encoded)"

definition emptySearch :: "string \<Rightarrow> HostedSearch" where
  "emptySearch kind = \<lparr>hs_CallID = [], hs_Kind = kind, hs_Query = [], hs_URL = [], hs_ArgsJSON = [], hs_References = [],
     hs_Content = [], hs_Error = []\<rparr>"

definition envelopeID :: "string \<Rightarrow> HostedSearch \<Rightarrow> HostedSearch" where
  "envelopeID ident search = (let i = trimSpace ident in
     if i \<noteq> [] \<and> hs_CallID search = [] then search\<lparr>hs_CallID := i\<rparr> else search)"

definition applyWebSearchResult :: "linkEnv \<Rightarrow> WebSearchResult option \<Rightarrow> HostedSearch \<Rightarrow> HostedSearch" where
  "applyWebSearchResult links result search = (case result of
     Some (WebSearchSuccess refs) \<Rightarrow> search\<lparr>hs_References := expandHostedSearchLinkList links (hs_References search @ refs)\<rparr>
   | Some (WebSearchError e) \<Rightarrow> search\<lparr>hs_Error := e\<rparr>
   | Some (WebSearchRejected reason) \<Rightarrow> search\<lparr>hs_Error := reason\<rparr>
   | _ \<Rightarrow> search)"

definition exaReference :: "ExaContent \<Rightarrow> HostedSearchReference" where
  "exaReference c = \<lparr>hr_Title = xc_Title c, hr_URL = xc_Url c, hr_Chunk = xc_Text c\<rparr>"

definition applyExaSearchResult :: "ExaSearchResult option \<Rightarrow> HostedSearch \<Rightarrow> HostedSearch" where
  "applyExaSearchResult result search = (case result of
     Some (ExaSearchSuccess refs) \<Rightarrow> search\<lparr>hs_References := hs_References search @ map exaReference refs\<rparr>
   | Some (ExaSearchError e) \<Rightarrow> search\<lparr>hs_Error := e\<rparr>
   | Some (ExaSearchRejected reason) \<Rightarrow> search\<lparr>hs_Error := reason\<rparr>
   | _ \<Rightarrow> search)"

definition applyExaFetchResult :: "ExaFetchResult option \<Rightarrow> HostedSearch \<Rightarrow> HostedSearch" where
  "applyExaFetchResult result search = (case result of
     Some (ExaFetchSuccess contents) \<Rightarrow> search\<lparr>
       hs_References := hs_References search @ map exaReference contents,
       hs_URL := foldl (\<lambda>url c. if url = [] then xc_Url c else url) (hs_URL search) contents,
       hs_Content := join [CHR 0x0A, CHR 0x0A] (filter (\<lambda>t. t \<noteq> []) (map (trimSpace \<circ> xc_Text) contents))\<rparr>
   | Some (ExaFetchError e) \<Rightarrow> search\<lparr>hs_Error := e\<rparr>
   | Some (ExaFetchRejected reason) \<Rightarrow> search\<lparr>hs_Error := reason\<rparr>
   | _ \<Rightarrow> search)"

definition applyFetchResult :: "FetchResult option \<Rightarrow> HostedSearch \<Rightarrow> HostedSearch" where
  "applyFetchResult result search = (case result of
     Some (FetchSuccess url content) \<Rightarrow>
       (let url' = (if hs_URL search = [] then url else hs_URL search) in
        search\<lparr>hs_URL := url', hs_Content := content,
          hs_References := (if url' \<noteq> [] then hs_References search @ [\<lparr>hr_Title = [], hr_URL = url', hr_Chunk = content\<rparr>]
            else hs_References search)\<rparr>)
   | Some (FetchResultError url e) \<Rightarrow>
       search\<lparr>hs_Error := e, hs_URL := (if hs_URL search = [] then url else hs_URL search)\<rparr>
   | _ \<Rightarrow> search)"

definition hostedFetchSearch :: "serverCodec \<Rightarrow> FetchToolCall \<Rightarrow> string \<Rightarrow> HostedSearch" where
  "hostedFetchSearch codec call ident =
     (let s0 = emptySearch HostedSearchKindWebFetch;
          s1 = (case ft_Args call of None \<Rightarrow> s0
            | Some args \<Rightarrow> s0\<lparr>hs_CallID := trimSpace (fa_ToolCallID args), hs_URL := fa_Url args, hs_Query := fa_Url args,
                hs_ArgsJSON := marshalSearchArgs codec [(''url'', JStr (fa_Url args))]\<rparr>)
      in envelopeID ident (applyFetchResult (ft_Result call) s1))"

definition searchOf :: "serverCodec \<Rightarrow> string \<Rightarrow> SearchArgs option \<Rightarrow> HostedSearch" where
  "searchOf codec kind args = (case args of None \<Rightarrow> emptySearch kind
     | Some a \<Rightarrow> (emptySearch kind)\<lparr>hs_CallID := trimSpace (sa_ToolCallID a), hs_Query := sa_Term a,
         hs_ArgsJSON := marshalSearchArgs codec [(''query'', JStr (sa_Term a))]\<rparr>)"

definition exaFetchOf :: "serverCodec \<Rightarrow> ExaFetchArgs option \<Rightarrow> HostedSearch" where
  "exaFetchOf codec args = (case args of None \<Rightarrow> emptySearch HostedSearchKindExaFetch
     | Some a \<Rightarrow> (emptySearch HostedSearchKindExaFetch)\<lparr>hs_CallID := trimSpace (xa_ToolCallID a),
         hs_URL := (case xa_Ids a of [] \<Rightarrow> [] | i # _ \<Rightarrow> i),
         hs_ArgsJSON := marshalSearchArgs codec [(''ids'', JArr (map JStr (xa_Ids a)))]\<rparr>)"

datatype toolClass = toolClassIgnored | toolClassMCP | toolClassHostedSearch | toolClassUnknown

definition classifyToolCall :: "serverCodec \<Rightarrow> toolCallMessage option \<Rightarrow> (toolClass \<times> HostedSearch option) res" where
  "classifyToolCall codec call = (case call of None \<Rightarrow> Inr (toolClassIgnored, None)
   | Some tool \<Rightarrow>
       (let hosted = (\<lambda>search. Inr (toolClassHostedSearch, Some search)); ident = tm_ToolCallID tool in
        case tm_Tool tool of
          Some (ToolCall_WebSearchToolCall args result) \<Rightarrow>
            hosted (envelopeID ident (applyWebSearchResult (sc_links codec) result (searchOf codec HostedSearchKindWebSearch args)))
        | Some (ToolCall_WebFetchToolCall fetch) \<Rightarrow> hosted (hostedFetchSearch codec fetch ident)
        | Some (ToolCall_FetchToolCall fetch) \<Rightarrow> hosted (hostedFetchSearch codec fetch ident)
        | Some (ToolCall_ExaSearchToolCall args result) \<Rightarrow>
            hosted (envelopeID ident (applyExaSearchResult result (searchOf codec HostedSearchKindExaSearch args)))
        | Some (ToolCall_ExaFetchToolCall args result) \<Rightarrow>
            hosted (envelopeID ident (applyExaFetchResult result (exaFetchOf codec args)))
        | Some (ToolCall_McpToolCall args) \<Rightarrow> Inr (toolClassMCP, None)
        | None \<Rightarrow> (let unknown = filterToolCallUnknown (unknownFieldNumbers (sc_pw codec) (tm_Unknown tool)) in
            if unknown \<noteq> [] then Inl (protocolDriftError ''tool call'' unknown) else Inr (toolClassIgnored, None))
        | Some (ToolCall_Other number) \<Rightarrow> Inr (toolClassIgnored, None)))"

definition decodeProtoValue :: "serverCodec \<Rightarrow> bytes \<Rightarrow> json" where
  "decodeProtoValue codec data = (if data = [] then JNull
     else case sc_value codec data of Some v \<Rightarrow> v
       | None \<Rightarrow> if sc_validUTF8 codec data then JStr (stringOf data) else JStr (sc_rawURL codec data))"

definition decodeTypedMCPArgs :: "serverCodec \<Rightarrow> McpArgs option \<Rightarrow> decodedWireMessage \<Rightarrow> decodedWireMessage" where
  "decodeTypedMCPArgs codec args message = (case args of None \<Rightarrow> message
   | Some a \<Rightarrow>
       (let name = trimSpace (ma_ToolName a);
            m = message\<lparr>dm_ToolCallID := trimSpace (ma_ToolCallID a),
                  dm_ToolName := (if name = [] then trimSpace (ma_Name a) else name)\<rparr>
        in case sc_marshal codec (JObj (map (\<lambda>(key, raw). (key, decodeProtoValue codec raw)) (ma_Args a))) of
             Inl _ \<Rightarrow> m | Inr encoded \<Rightarrow> m\<lparr>dm_ToolArguments := encoded\<rparr>))"

text \<open>
  \<open>applyToolCallUpdate\<close>; the class \<open>toolClassUnknown\<close> comes with an error only, so that the last case of the
  code is not reached.
\<close>

definition mcpArgsOf :: "toolCallMessage option \<Rightarrow> McpArgs option" where
  "mcpArgsOf call = (case call of None \<Rightarrow> None
     | Some tool \<Rightarrow> (case tm_Tool tool of Some (ToolCall_McpToolCall args) \<Rightarrow> args | _ \<Rightarrow> None))"

definition applyToolCallUpdate ::
  "serverCodec \<Rightarrow> wireMessageType \<Rightarrow> string \<Rightarrow> toolCallMessage option \<Rightarrow> decodedWireMessage \<Rightarrow> decodedWireMessage res" where
  "applyToolCallUpdate codec kind callID tool message0 = (case classifyToolCall codec tool of
     Inl e \<Rightarrow> Inl e
   | Inr (cls, search0) \<Rightarrow>
       (let callID1 = trimSpace callID;
            search = map_option (\<lambda>h. if hs_CallID h = [] then h\<lparr>hs_CallID := callID1\<rparr> else h) search0;
            message = message0\<lparr>dm_CallID := (case search of Some h \<Rightarrow> if callID1 = [] then hs_CallID h else callID1 | None \<Rightarrow> callID1)\<rparr>
        in case cls of
             toolClassHostedSearch \<Rightarrow> Inr (message\<lparr>dm_Type := kind, dm_HostedSearch := search\<rparr>)
           | toolClassMCP \<Rightarrow>
               (if kind = wireToolCallCompleted then Inr (message\<lparr>dm_Type := wireIgnored\<rparr>)
                else let m = decodeTypedMCPArgs codec (mcpArgsOf tool) (message\<lparr>dm_Type := wireStreamMCP\<rparr>) in
                  Inr (if trimSpace (dm_ToolCallID m) = [] then m\<lparr>dm_ToolCallID := dm_CallID m\<rparr> else m))
           | toolClassIgnored \<Rightarrow> Inr (message\<lparr>dm_Type := wireIgnored\<rparr>)
           | toolClassUnknown \<Rightarrow> (case tool of None \<Rightarrow> Inr (message\<lparr>dm_Type := wireIgnored\<rparr>)
               | Some t \<Rightarrow> (let unknown = filterToolCallUnknown (unknownFieldNumbers (sc_pw codec) (tm_Unknown t)) in
                   if unknown \<noteq> [] then Inl (protocolDriftError ''tool call'' unknown)
                   else Inr (message\<lparr>dm_Type := wireIgnored\<rparr>)))))"

section \<open>The messages of the server\<close>

definition malformedFields :: "serverCodec \<Rightarrow> bytes \<Rightarrow> nat list" where
  "malformedFields codec = malformedVarintFields (pw_ConsumeTag (sc_pw codec)) (pw_ConsumeFieldValue (sc_pw codec))"

definition decodeTypedInteractionUpdate :: "serverCodec \<Rightarrow> bytes \<Rightarrow> decodedWireMessage \<Rightarrow> decodedWireMessage res" where
  "decodeTypedInteractionUpdate codec data message = (case sc_update codec data of
     Inl e \<Rightarrow> Inl (Wrap ''decode Cursor Agent v1 interaction update: %w'' e)
   | Inr update \<Rightarrow> (case remainingInteractionUnknown (sc_pw codec) (iu_Unknown update) of
       Inl e \<Rightarrow> Inl e
     | Inr remaining \<Rightarrow> (case iu_Message update of
         Some (InteractionUpdate_TextDelta t) \<Rightarrow> Inr (message\<lparr>dm_Type := wireTextDelta, dm_Text := t\<rparr>)
       | Some (InteractionUpdate_ThinkingDelta t) \<Rightarrow> Inr (message\<lparr>dm_Type := wireThinkingDelta, dm_Text := t\<rparr>)
       | Some InteractionUpdate_ThinkingCompleted \<Rightarrow> Inr (message\<lparr>dm_Type := wireThinkingCompleted\<rparr>)
       | Some (InteractionUpdate_TokenDelta u) \<Rightarrow>
           (let usage = observeTokenDeltaUpdate (malformedFields codec) (Some u) in
            Inr (message\<lparr>dm_Type := wireTokenDelta, dm_Usage := Some usage, dm_TokenDelta := oc_Value (uo_TokenDelta usage)\<rparr>))
       | Some (InteractionUpdate_TurnEnded u) \<Rightarrow>
           Inr (message\<lparr>dm_Type := wireTurnEnded, dm_Usage := Some (observeTurnEndedUpdate (malformedFields codec) (Some u))\<rparr>)
       | Some (InteractionUpdate_ToolCallStarted i tool) \<Rightarrow> applyToolCallUpdate codec wireToolCallStarted i tool message
       | Some (InteractionUpdate_ToolCallCompleted i tool) \<Rightarrow> applyToolCallUpdate codec wireToolCallCompleted i tool message
       | Some (InteractionUpdate_ToolCallDelta i) \<Rightarrow> applyToolCallUpdate codec wireToolCallDelta i None message
       | Some (InteractionUpdate_PartialToolCall i tool) \<Rightarrow> applyToolCallUpdate codec wireToolCallDelta i tool message
       | None \<Rightarrow> if remaining \<noteq> [] then Inl (protocolDriftError ''interaction update'' remaining) else Inr message
       | _ \<Rightarrow> Inr message)))"

definition execFields :: "execServerMessage \<Rightarrow> nat \<Rightarrow> (nat \<times> bool \<times> bool) list" where
  "execFields exec number = [(1, False, es_Id exec \<noteq> 0), (15, False, es_ExecId exec \<noteq> []), (19, True, es_SpanContext exec),
     (number, True, True), (55, True, es_AcceptHook exec)]"

definition decodeTypedExecMessage :: "serverCodec \<Rightarrow> bytes \<Rightarrow> decodedWireMessage \<Rightarrow> decodedWireMessage res" where
  "decodeTypedExecMessage codec data message0 = (case rejectOverflowID (sc_pw codec) data ''exec'' of
     Inl e \<Rightarrow> Inl e
   | Inr () \<Rightarrow> (case sc_exec codec data of
       Inl e \<Rightarrow> Inl (Wrap ''decode Cursor Agent v1 exec: %w'' e)
     | Inr exec \<Rightarrow>
         (let message = message0\<lparr>dm_ID := es_Id exec, dm_ExecID := es_ExecId exec\<rparr>;
              typed = (\<lambda>t. Inr (message\<lparr>dm_Type := t\<rparr>));
              precheck = (\<lambda>kind. Inr (message\<lparr>dm_Type := wireAllowlistPrecheck, dm_AllowlistKind := kind\<rparr>))
          in case es_Message exec of
            Some ExecServerMessage_ShellArgs \<Rightarrow> typed wireShell
          | Some ExecServerMessage_ShellStreamArgs \<Rightarrow> typed wireShellStream
          | Some ExecServerMessage_BackgroundShellSpawnArgs \<Rightarrow> typed wireBackgroundShell
          | Some ExecServerMessage_WriteArgs \<Rightarrow> typed wireWrite
          | Some ExecServerMessage_DeleteArgs \<Rightarrow> typed wireDelete
          | Some ExecServerMessage_GrepArgs \<Rightarrow> typed wireGrep
          | Some ExecServerMessage_ReadArgs \<Rightarrow> typed wireRead
          | Some ExecServerMessage_RedactedReadArgs \<Rightarrow> typed wireRead
          | Some ExecServerMessage_LsArgs \<Rightarrow> typed wireList
          | Some ExecServerMessage_DiagnosticsArgs \<Rightarrow> typed wireDiagnostics
          | Some ExecServerMessage_RequestContextArgs \<Rightarrow> typed wireRequestContext
          | Some (ExecServerMessage_McpArgs args) \<Rightarrow> Inr (decodeTypedMCPArgs codec (Some args) (message\<lparr>dm_Type := wireMCP\<rparr>))
          | Some ExecServerMessage_FetchArgs \<Rightarrow> typed wireFetch
          | Some ExecServerMessage_ShellAllowlistPrecheckArgs \<Rightarrow> precheck ''shell''
          | Some ExecServerMessage_McpAllowlistPrecheckArgs \<Rightarrow> precheck ''mcp''
          | Some ExecServerMessage_WebFetchAllowlistPrecheckArgs \<Rightarrow> precheck ''web_fetch''
          | None \<Rightarrow> (let unknown = unknownFieldNumbers (sc_pw codec) (es_Unknown exec) in
              if unknown \<noteq> [] then Inl (protocolDriftError ''exec'' unknown)
              else Inr (message\<lparr>dm_Type := wireUnsupportedExec, dm_Text := ''empty exec payload''\<rparr>))
          | Some (ExecServerMessage_Other name number) \<Rightarrow>
              Inr (message\<lparr>dm_Type := wireUnsupportedExec,
                dm_Text := name @ '' field '' @ natDecimal (oneofFieldNumber (execFields exec number))\<rparr>))))"

definition decodeTypedKVMessage :: "serverCodec \<Rightarrow> bytes \<Rightarrow> decodedWireMessage \<Rightarrow> decodedWireMessage res" where
  "decodeTypedKVMessage codec data message0 = (case rejectOverflowID (sc_pw codec) data ''KV'' of
     Inl e \<Rightarrow> Inl e
   | Inr () \<Rightarrow> (case sc_kv codec data of
       Inl e \<Rightarrow> Inl (Wrap ''decode Cursor Agent v1 KV: %w'' e)
     | Inr kv \<Rightarrow>
         (let message = message0\<lparr>dm_ID := ks_Id kv\<rparr> in case ks_Message kv of
            Some (KvServerMessage_GetBlobArgs i) \<Rightarrow> Inr (message\<lparr>dm_Type := wireKVGet, dm_BlobID := i\<rparr>)
          | Some (KvServerMessage_SetBlobArgs i d) \<Rightarrow> Inr (message\<lparr>dm_Type := wireKVSet, dm_BlobID := i, dm_BlobData := d\<rparr>)
          | None \<Rightarrow> (let unknown = unknownFieldNumbers (sc_pw codec) (ks_Unknown kv) in
              if unknown \<noteq> [] then Inl (protocolDriftError ''KV'' unknown) else Inr message))))"

definition decodeTypedInteractionQuery :: "serverCodec \<Rightarrow> bytes \<Rightarrow> decodedWireMessage \<Rightarrow> decodedWireMessage res" where
  "decodeTypedInteractionQuery codec data message0 = (case rejectOverflowID (sc_pw codec) data ''interaction query'' of
     Inl e \<Rightarrow> Inl e
   | Inr () \<Rightarrow> (case sc_query codec data of
       Inl e \<Rightarrow> Inl (Wrap ''decode Cursor Agent v1 interaction query: %w'' e)
     | Inr query \<Rightarrow>
         (let message = message0\<lparr>dm_Type := wireInteractionQuery, dm_ID := iq_Id query\<rparr>;
              kind = (\<lambda>k ident. Inr (case ident of None \<Rightarrow> message\<lparr>dm_InteractionKind := k\<rparr>
                | Some i \<Rightarrow> message\<lparr>dm_InteractionKind := k, dm_ToolCallID := trimSpace i\<rparr>))
          in case iq_Query query of
            Some (InteractionQuery_WebSearchRequestQuery args) \<Rightarrow> kind 2 (map_option sa_ToolCallID args)
          | Some InteractionQuery_AskQuestionInteractionQuery \<Rightarrow> kind 3 None
          | Some InteractionQuery_SwitchModeRequestQuery \<Rightarrow> kind 4 None
          | Some (InteractionQuery_ExaSearchRequestQuery args) \<Rightarrow> kind 5 (map_option sa_ToolCallID args)
          | Some (InteractionQuery_ExaFetchRequestQuery args) \<Rightarrow> kind 6 (map_option xa_ToolCallID args)
          | Some InteractionQuery_CreatePlanRequestQuery \<Rightarrow> kind 7 None
          | Some InteractionQuery_SetupVmEnvironmentArgs \<Rightarrow> kind 8 None
          | Some (InteractionQuery_WebFetchRequestQuery args) \<Rightarrow> kind 9 (map_option fa_ToolCallID args)
          | None \<Rightarrow> (let unknown = unknownFieldNumbers (sc_pw codec) (iq_Unknown query) in
              Inl (if unknown = [] then Errorf ''unsupported Cursor Agent v1 interaction query kind 0'' []
                else protocolDriftError ''interaction query'' unknown)))))"

definition decodeTypedExecControl :: "serverCodec \<Rightarrow> bytes \<Rightarrow> decodedWireMessage \<Rightarrow> decodedWireMessage res" where
  "decodeTypedExecControl codec data message = (case sc_control codec data of
     Inl e \<Rightarrow> Inl (Wrap ''decode Cursor Agent v1 exec control: %w'' e)
   | Inr control \<Rightarrow> (case ec_Abort control of
       Some i \<Rightarrow> Inr (message\<lparr>dm_Type := wireExecAbort, dm_ID := i\<rparr>)
     | None \<Rightarrow> Inl (protocolDriftError ''exec control'' (unknownFieldNumbers (sc_pw codec) (ec_Unknown control)))))"

definition agentServerInteractionUpdate :: nat where "agentServerInteractionUpdate = 1"
definition agentServerExecMessage :: nat where "agentServerExecMessage = 2"
definition agentServerCheckpoint :: nat where "agentServerCheckpoint = 3"
definition agentServerKVMessage :: nat where "agentServerKVMessage = 4"
definition agentServerInteractionQuery :: nat where "agentServerInteractionQuery = 7"

lemmas serverEnvelope = agentServerInteractionUpdate_def agentServerExecMessage_def agentServerCheckpoint_def
  agentServerKVMessage_def agentServerInteractionQuery_def

definition applyServerBytesField :: "serverCodec \<Rightarrow> nat \<Rightarrow> bytes \<Rightarrow> decodedWireMessage \<Rightarrow> decodedWireMessage res" where
  "applyServerBytesField codec number v message =
     (if number = agentServerInteractionUpdate
      then (if wireReplyRequired (dm_Type message) then Inr message else decodeTypedInteractionUpdate codec v message)
      else if number = agentServerExecMessage then decodeTypedExecMessage codec v message
      else if number = agentServerCheckpoint
      then (if wireReplyRequired (dm_Type message) then Inr message
            else Inr (message\<lparr>dm_Type := wireCheckpoint, dm_Checkpoint := v\<rparr>))
      else if number = agentServerKVMessage then decodeTypedKVMessage codec v message
      else if number = 5 then decodeTypedExecControl codec v message
      else if number = agentServerInteractionQuery then decodeTypedInteractionQuery codec v message
      else Inr message)"

definition decodeServerMessage :: "serverCodec \<Rightarrow> bytes \<Rightarrow> decodedWireMessage res" where
  "decodeServerMessage codec data = (let pw = sc_pw codec in
     scan pw (\<lambda>_. Inl (Errorf ''decode Cursor Agent v1 server tag: %v'' [])) (\<lambda>message number wireType rest.
       if wireType \<noteq> BytesType
       then skipValue pw number wireType rest (Inl (Errorf ''decode Cursor Agent v1 server field %d: %v'' [N (int number)])) message
       else case pw_ConsumeBytes pw rest of
           None \<Rightarrow> Inl (Inl (Errorf ''decode Cursor Agent v1 server bytes %d: %v'' [N (int number)]))
         | Some (v, n) \<Rightarrow> (case applyServerBytesField codec number v message of
             Inl e \<Rightarrow> Inl (Inl e) | Inr m \<Rightarrow> Inr (n, m)))
     Inr (length data) (newMessage wireUnknown) data)"

section \<open>The answer to a precheck\<close>

datatype execClientResult =
    ExecClientMessage_ShellAllowlistPrecheckResult bool
  | ExecClientMessage_McpAllowlistPrecheckResult bool
  | ExecClientMessage_WebFetchAllowlistPrecheckResult bool

definition encodeAllowlistPrecheck ::
  "(32 word \<Rightarrow> string \<Rightarrow> execClientResult \<Rightarrow> bytes res) \<Rightarrow> 32 word \<Rightarrow> string \<Rightarrow> string \<Rightarrow> bool \<Rightarrow> bytes res" where
  "encodeAllowlistPrecheck marshal i execID kind allowlisted =
     (if kind = ''shell'' then marshal i execID (ExecClientMessage_ShellAllowlistPrecheckResult allowlisted)
      else if kind = ''mcp'' then marshal i execID (ExecClientMessage_McpAllowlistPrecheckResult allowlisted)
      else if kind = ''web_fetch'' then marshal i execID (ExecClientMessage_WebFetchAllowlistPrecheckResult allowlisted)
      else Inl (Errorf ''unsupported Cursor Agent v1 allowlist precheck %q'' [S kind]))"

end
