(* ===== verification/ProtocolSafety.thy ===== *)
theory ProtocolSafety
  imports Protocol
begin

text \<open>
  What the client recognises in a message of the server: which envelopes are requests, whose identifier the answer
  carries, and that nothing unknown is passed over in silence.
\<close>

section \<open>Envelopes as fields\<close>

text \<open>The loop of \<open>decodeServerMessage\<close> over the fields of an envelope.\<close>

definition envelopeStep :: "serverCodec \<Rightarrow> decodedWireMessage \<Rightarrow> field \<Rightarrow> decodedWireMessage res + decodedWireMessage" where
  "envelopeStep codec m f = (case f of VarintField n v \<Rightarrow> Inr m
     | BytesField n v \<Rightarrow> (case applyServerBytesField codec n v m of Inl e \<Rightarrow> Inl (Inl e) | Inr m' \<Rightarrow> Inr m'))"

definition envelope :: "serverCodec \<Rightarrow> decodedWireMessage \<Rightarrow> field list \<Rightarrow> decodedWireMessage res" where
  "envelope codec = walk (envelopeStep codec) Inr"

lemma envelope_simps [simp]:
  "envelope codec m [] = Inr m"
  "envelope codec m (VarintField n v # fs) = envelope codec m fs"
  "envelope codec m (BytesField n b # fs) = (case applyServerBytesField codec n b m of Inl e \<Rightarrow> Inl e | Inr m' \<Rightarrow> envelope codec m' fs)"
  by (simp_all add: envelope_def envelopeStep_def split: sum.split)

lemma envelope_append:
  "envelope codec m (fs @ gs) = (case envelope codec m fs of Inl e \<Rightarrow> Inl e | Inr m' \<Rightarrow> envelope codec m' gs)"
proof (induction fs arbitrary: m)
  case (Cons f fs)
  then show ?case by (cases f) (auto split: sum.split)
qed simp

text \<open>The last varint of a field.\<close>

definition lastVarint :: "nat \<Rightarrow> field list \<Rightarrow> 64 word" where
  "lastVarint k fs = foldl (\<lambda>acc f. case f of VarintField n v \<Rightarrow> if n = k then v else acc | _ \<Rightarrow> acc) 0 fs"

definition lastVarintOf :: "protowire \<Rightarrow> nat \<Rightarrow> bytes \<Rightarrow> 64 word" where
  "lastVarintOf pw k data = scan pw (\<lambda>_. 0) (\<lambda>acc number wireType rest.
     if wireType = VarintType then (case pw_ConsumeVarint pw rest of None \<Rightarrow> Inl 0
       | Some (v, n) \<Rightarrow> Inr (n, if number = k then v else acc))
     else skipValue pw number wireType rest 0 acc) (\<lambda>acc. acc) (length data) 0 data"

context wire_format
begin

lemma decodeServerMessage_fields:
  assumes "sc_pw codec = pw" "numbered fs"
  shows "decodeServerMessage codec (putFields pw fs) = envelope codec (newMessage wireUnknown) fs"
  unfolding decodeServerMessage_def envelope_def Let_def assms(1) using assms(2)
  by (intro scan_fields)
     (auto simp: envelopeStep_def skipValue_def bytes_read value_skipped VarintType_def BytesType_def split: field.split sum.split)

lemma rejectOverflowID_fields:
  assumes "numbered fs"
  shows "rejectOverflowID pw (putFields pw fs) what = Inr () \<longleftrightarrow> (\<forall>v. VarintField 1 v \<in> set fs \<longrightarrow> unat v < 2 ^ 32)"
proof -
  let ?step = "\<lambda>_ f. case f of VarintField n v \<Rightarrow> if n = 1 \<and> unat v > 2 ^ 32 - 1
      then Inl (Inl (Errorf ''Cursor Agent v1 %s id exceeds uint32: %d'' [S what, N (uint v)])) else Inr () | _ \<Rightarrow> Inr ()"
  have "rejectOverflowID pw (putFields pw fs) what = walk ?step (\<lambda>_. Inr ()) () fs"
    unfolding rejectOverflowID_def using assms
    by (intro scan_fields) (auto simp: skipValue_def varint_read value_skipped VarintType_def BytesType_def split: field.split)
  moreover have "walk ?step (\<lambda>_. Inr ()) () fs = Inr () \<longleftrightarrow> (\<forall>v. VarintField 1 v \<in> set fs \<longrightarrow> unat v < 2 ^ 32)"
    by (induction fs) (auto split: field.split)
  ultimately show ?thesis by simp
qed

lemma lastVarintOf_fields:
  assumes "numbered fs"
  shows "lastVarintOf pw k (putFields pw fs) = lastVarint k fs"
proof -
  let ?f = "\<lambda>acc f. case f of VarintField n v \<Rightarrow> if n = k then v else acc | _ \<Rightarrow> acc"
  have "lastVarintOf pw k (putFields pw fs) = walk (\<lambda>acc f. Inr (?f acc f)) (\<lambda>acc. acc) 0 fs"
    unfolding lastVarintOf_def using assms
    by (intro scan_fields) (auto simp: skipValue_def varint_read value_skipped VarintType_def BytesType_def split: field.split)
  moreover have "walk (\<lambda>acc f. Inr (?f acc f)) (\<lambda>acc. acc) acc fs = foldl ?f acc fs" for acc
    by (induction fs arbitrary: acc) auto
  ultimately show ?thesis by (simp add: lastVarint_def)
qed

text \<open>The numbers of unknown fields, each once.\<close>

lemma unknownFieldNumbers_fields:
  assumes "numbered fs"
  shows "set (unknownFieldNumbers pw (putFields pw fs)) = fieldNumber ` set fs"
proof -
  let ?f = "\<lambda>acc f. if fieldNumber f \<in> set acc then acc else acc @ [fieldNumber f]"
  have "unknownFieldNumbers pw (putFields pw fs) = walk (\<lambda>acc f. Inr (?f acc f)) id [] fs"
    unfolding unknownFieldNumbers_def
  proof (rule scan_fields [OF assms order_refl])
    fix s f r
    show "skipValue pw (fieldNumber f) (fieldType f) (fieldPayload pw f @ r) s
        (if fieldNumber f \<in> set s then s else s @ [fieldNumber f])
      = (case Inr (?f s f) of Inl x \<Rightarrow> Inl x | Inr s' \<Rightarrow> Inr (length (fieldPayload pw f), s'))"
      by (cases f) (simp_all add: skipValue_def varint_skipped bytes_skipped)
  qed
  moreover have "set (walk (\<lambda>acc f. Inr (?f acc f)) id acc fs) = set acc \<union> fieldNumber ` set fs" for acc
    by (induction fs arbitrary: acc) auto
  ultimately show ?thesis by simp
qed

end

lemma lastVarint_below:
  assumes "\<forall>v. VarintField k v \<in> set fs \<longrightarrow> unat v < 2 ^ 32"
  shows "unat (lastVarint k fs) < 2 ^ 32"
proof -
  have "unat (foldl (\<lambda>acc f. case f of VarintField n v \<Rightarrow> if n = k then v else acc | _ \<Rightarrow> acc) acc fs) < 2 ^ 32"
    if "unat acc < 2 ^ 32" for acc
    using assms that by (induction fs arbitrary: acc) (auto split: field.split)
  then show ?thesis by (simp add: lastVarint_def)
qed

section \<open>Requests\<close>

lemma case_Inr: "(case x of Inl e \<Rightarrow> Inl (f e) | Inr y \<Rightarrow> g y) = Inr z \<Longrightarrow> \<exists>y. x = Inr y \<and> g y = Inr z"
  by (cases x) auto

lemma case_unit: "(case x of Inl e \<Rightarrow> Inl (f e) | Inr () \<Rightarrow> g) = Inr z \<Longrightarrow> x = Inr () \<and> g = Inr z"
  by (simp split: sum.splits unit.splits)

definition isRequest :: "serverCodec \<Rightarrow> field \<Rightarrow> bool" where
  "isRequest codec f = (case f of VarintField n v \<Rightarrow> False
     | BytesField n b \<Rightarrow> n \<in> {agentServerExecMessage, 5, agentServerInteractionQuery}
         \<or> n = agentServerKVMessage \<and> (case sc_kv codec b of Inr kv \<Rightarrow> ks_Message kv \<noteq> None | Inl _ \<Rightarrow> False))"

text \<open>A field that neither is a request nor changes the identifier of one.\<close>

definition isNotice :: "field \<Rightarrow> bool" where
  "isNotice f = (case f of VarintField n v \<Rightarrow> True
     | BytesField n b \<Rightarrow> n \<notin> {agentServerExecMessage, agentServerKVMessage, 5, agentServerInteractionQuery})"

lemma reply_types [simp]:
  "wireReplyRequired wireKVGet" "wireReplyRequired wireKVSet" "wireReplyRequired wireExecAbort" "wireReplyRequired wireInteractionQuery"
  "wireReplyRequired wireUnsupportedExec" "wireReplyRequired wireAllowlistPrecheck" "wireReplyRequired wireMCP"
  "wireReplyRequired wireShell" "wireReplyRequired wireShellStream" "wireReplyRequired wireBackgroundShell" "wireReplyRequired wireRead"
  "wireReplyRequired wireWrite" "wireReplyRequired wireDelete" "wireReplyRequired wireGrep" "wireReplyRequired wireList"
  "wireReplyRequired wireFetch" "wireReplyRequired wireDiagnostics" "wireReplyRequired wireRequestContext"
  "\<not> wireReplyRequired wireUnknown" "\<not> wireReplyRequired wireTextDelta" "\<not> wireReplyRequired wireThinkingDelta"
  "\<not> wireReplyRequired wireTokenDelta" "\<not> wireReplyRequired wireTurnEnded" "\<not> wireReplyRequired wireCheckpoint"
  "\<not> wireReplyRequired wireIgnored" "\<not> wireReplyRequired wireStreamMCP" "\<not> wireReplyRequired wireToolCallStarted"
  "\<not> wireReplyRequired wireToolCallDelta" "\<not> wireReplyRequired wireToolCallCompleted" "\<not> wireReplyRequired wireThinkingCompleted"
  by (simp_all add: wireReplyRequired_def)

lemma mcpArgs_type [simp]: "dm_Type (decodeTypedMCPArgs codec args m) = dm_Type m"
  by (simp add: decodeTypedMCPArgs_def Let_def split: option.split sum.split)

lemma mcpArgs_ID [simp]: "dm_ID (decodeTypedMCPArgs codec args m) = dm_ID m"
  by (simp add: decodeTypedMCPArgs_def Let_def split: option.split sum.split)

lemma toolCallUpdate_type:
  assumes "applyToolCallUpdate codec kind i tool m = Inr m'" "\<not> wireReplyRequired kind"
  shows "\<not> wireReplyRequired (dm_Type m')"
proof -
  obtain c where "classifyToolCall codec tool = Inr c"
    using case_Inr [OF assms(1) [unfolded applyToolCallUpdate_def]] by (elim exE conjE)
  then obtain cls search where c: "classifyToolCall codec tool = Inr (cls, search)" by (cases c) simp
  show ?thesis
    using assms(1) [unfolded applyToolCallUpdate_def Let_def c sum.case prod.case] assms(2)
    by (cases cls) (auto split: if_splits option.splits)
qed

lemma update_type:
  assumes "decodeTypedInteractionUpdate codec data m = Inr m'" "\<not> wireReplyRequired (dm_Type m)"
  shows "\<not> wireReplyRequired (dm_Type m')"
proof -
  obtain u where u: "sc_update codec data = Inr u"
    using case_Inr [OF assms(1) [unfolded decodeTypedInteractionUpdate_def]] by (elim exE conjE)
  obtain r where r: "remainingInteractionUnknown (sc_pw codec) (iu_Unknown u) = Inr r"
    using case_Inr [OF assms(1) [unfolded decodeTypedInteractionUpdate_def u sum.case]] by (elim exE conjE)
  note u = u r
  note run = assms(1) [unfolded decodeTypedInteractionUpdate_def Let_def u sum.case]
  show ?thesis
  proof (cases "iu_Message u")
    case None
    then show ?thesis using run assms(2) by (simp split: if_splits)
  next
    case (Some v)
    note tool = toolCallUpdate_type [of codec _ _ _ m m']
    show ?thesis using run assms(2) Some
      by (cases v) (auto dest: tool)
  qed
qed

lemma exec_type:
  assumes "decodeTypedExecMessage codec data m = Inr m'"
  shows "wireReplyRequired (dm_Type m') \<and> (\<exists>exec. sc_exec codec data = Inr exec \<and> dm_ID m' = es_Id exec)
    \<and> rejectOverflowID (sc_pw codec) data ''exec'' = Inr ()"
proof -
  note split = case_unit [OF assms [unfolded decodeTypedExecMessage_def]]
  obtain e where e: "sc_exec codec data = Inr e"
    using case_Inr [OF split [THEN conjunct2]] by (elim exE conjE)
  note e = split [THEN conjunct1] e
  note run = assms [unfolded decodeTypedExecMessage_def Let_def e sum.case unit.case]
  show ?thesis
  proof (cases "es_Message e")
    case None
    then show ?thesis using run e by (auto split: if_splits)
  next
    case (Some v)
    then show ?thesis using run e by (cases v; clarsimp)
  qed
qed

lemma kv_type:
  assumes "decodeTypedKVMessage codec data m = Inr m'"
  shows "\<exists>kv. sc_kv codec data = Inr kv \<and> (if ks_Message kv = None then dm_Type m' = dm_Type m else wireReplyRequired (dm_Type m'))"
proof -
  note split = case_unit [OF assms [unfolded decodeTypedKVMessage_def]]
  obtain kv where kv: "sc_kv codec data = Inr kv"
    using case_Inr [OF split [THEN conjunct2]] by (elim exE conjE)
  note kv = split [THEN conjunct1] kv
  note run = assms [unfolded decodeTypedKVMessage_def Let_def kv sum.case unit.case]
  show ?thesis
  proof (cases "ks_Message kv")
    case None
    then show ?thesis using run kv by (auto split: if_splits)
  next
    case (Some v)
    then show ?thesis using run kv by (cases v; clarsimp)
  qed
qed

lemma query_type:
  assumes "decodeTypedInteractionQuery codec data m = Inr m'"
  shows "wireReplyRequired (dm_Type m')"
proof -
  note split = case_unit [OF assms [unfolded decodeTypedInteractionQuery_def]]
  obtain q where q: "sc_query codec data = Inr q"
    using case_Inr [OF split [THEN conjunct2]] by (elim exE conjE)
  note q = split [THEN conjunct1] q
  note run = assms [unfolded decodeTypedInteractionQuery_def Let_def q sum.case unit.case]
  show ?thesis
  proof (cases "iq_Query q")
    case None
    then show ?thesis using run by simp
  next
    case (Some v)
    then show ?thesis using run by (cases v) (auto split: option.splits)
  qed
qed

lemma control_type: "decodeTypedExecControl codec data m = Inr m' \<Longrightarrow> wireReplyRequired (dm_Type m')"
  by (auto simp: decodeTypedExecControl_def split: sum.splits option.splits)

lemma field_type:
  assumes "applyServerBytesField codec n b m = Inr m'"
  shows "wireReplyRequired (dm_Type m') \<longleftrightarrow> wireReplyRequired (dm_Type m) \<or> isRequest codec (BytesField n b)"
  using assms update_type [of codec b m m'] exec_type [of codec b m m'] kv_type [of codec b m m'] query_type [of codec b m m']
    control_type [of codec b m m']
  by (auto simp: applyServerBytesField_def isRequest_def serverEnvelope split: if_splits)

lemma envelope_type:
  assumes "envelope codec m fs = Inr m'"
  shows "wireReplyRequired (dm_Type m') \<longleftrightarrow> wireReplyRequired (dm_Type m) \<or> (\<exists>f \<in> set fs. isRequest codec f)"
  using assms
proof (induction fs arbitrary: m)
  case (Cons f fs)
  show ?case
  proof (cases f)
    case (VarintField n v)
    then show ?thesis using Cons by (simp add: isRequest_def)
  next
    case (BytesField n b)
    then obtain m1 where m1: "applyServerBytesField codec n b m = Inr m1" "envelope codec m1 fs = Inr m'"
      using Cons.prems by (auto split: sum.splits)
    then show ?thesis using Cons.IH field_type [OF m1(1)] BytesField by auto
  qed
qed simp

lemma notices_kept:
  assumes "wireReplyRequired (dm_Type m)" "\<forall>f \<in> set fs. isNotice f"
  shows "envelope codec m fs = Inr m"
  using assms
proof (induction fs)
  case (Cons f fs)
  then show ?case
    by (cases f) (auto simp: isNotice_def applyServerBytesField_def serverEnvelope split: if_splits)
qed simp

section \<open>Unknown fields\<close>

text \<open>The step of \<open>remainingInteractionUnknown\<close> on one field.\<close>

definition unknownStep :: "protowire \<Rightarrow> nat list \<times> bool \<Rightarrow> field \<Rightarrow> nat list res + nat list \<times> bool" where
  "unknownStep pw s f = (if fieldNumber f = interactionFeedbackRequestField
     then (case f of VarintField n v \<Rightarrow> Inl (Inl (Errorf ''Cursor Agent v1 feedback request must be length-delimited'' []))
       | BytesField n b \<Rightarrow> (case validateFeedbackRequestUpdate pw b of Inl e \<Rightarrow> Inl (Inl e) | Inr () \<Rightarrow> Inr (fst s, True)))
     else Inr (if fieldNumber f \<in> set (fst s) then fst s else fst s @ [fieldNumber f], snd s))"

definition unknownEnd :: "nat list \<times> bool \<Rightarrow> nat list res" where
  "unknownEnd s = (if snd s \<and> fst s \<noteq> [] then Inl (protocolDriftError ''interaction update'' (fst s)) else Inr (fst s))"

lemma unknownStep_fails: "unknownStep pw s f = Inl x \<Longrightarrow> \<exists>e. x = Inl e"
  by (auto simp: unknownStep_def split: if_splits field.splits sum.splits unit.splits)

context wire_format
begin

lemma remainingInteractionUnknown_fields:
  assumes "numbered fs"
  shows "remainingInteractionUnknown pw (putFields pw fs) = walk (unknownStep pw) unknownEnd ([], False) fs"
  unfolding remainingInteractionUnknown_def unknownEnd_def case_prod_beta
proof (rule scan_fields [OF assms order_refl])
  fix s f r
  show "(if fieldNumber f = interactionFeedbackRequestField
      then if fieldType f \<noteq> BytesType then Inl (Inl (Errorf ''Cursor Agent v1 feedback request must be length-delimited'' []))
        else case pw_ConsumeBytes pw (fieldPayload pw f @ r) of
            None \<Rightarrow> Inl (Inl (Errorf ''decode Cursor Agent v1 feedback request: %v'' []))
          | Some p \<Rightarrow> (case validateFeedbackRequestUpdate pw (fst p) of
              Inl e \<Rightarrow> Inl (Inl e) | Inr () \<Rightarrow> Inr (snd p, (fst s, True)))
      else skipValue pw (fieldNumber f) (fieldType f) (fieldPayload pw f @ r)
        (Inl (Errorf ''decode Cursor Agent v1 interaction update field %d: %v'' [N (int (fieldNumber f))]))
        (if fieldNumber f \<in> set (fst s) then fst s else fst s @ [fieldNumber f], snd s))
    = (case unknownStep pw s f of Inl x \<Rightarrow> Inl x | Inr s' \<Rightarrow> Inr (length (fieldPayload pw f), s'))"
    by (cases f) (simp_all add: unknownStep_def skipValue_def bytes_read value_skipped VarintType_def BytesType_def
        split: sum.split unit.split)
qed

lemma unknown_walk:
  assumes "walk (unknownStep pw) unknownEnd s fs = Inr remaining"
  shows "set remaining = set (fst s) \<union> (fieldNumber ` set fs - {interactionFeedbackRequestField})"
  using assms
proof (induction fs arbitrary: s)
  case Nil
  then show ?case by (simp add: unknownEnd_def split: if_splits)
next
  case (Cons f fs)
  obtain s' where s': "unknownStep pw s f = Inr s'" "walk (unknownStep pw) unknownEnd s' fs = Inr remaining"
    using Cons.prems unknownStep_fails [of pw s f] by (cases "unknownStep pw s f") auto
  have "set (fst s') = set (fst s) \<union> ({fieldNumber f} - {interactionFeedbackRequestField})"
    using s'(1) by (auto simp: unknownStep_def split: if_splits field.splits sum.splits unit.splits)
  then show ?case using Cons.IH [OF s'(2)] by auto
qed

lemma survey_unknown:
  assumes "numbered fs" "remainingInteractionUnknown pw (putFields pw fs) = Inr []"
  shows "\<forall>f \<in> set fs. fieldNumber f = interactionFeedbackRequestField"
  using unknown_walk [OF assms(2) [unfolded remainingInteractionUnknown_fields [OF assms(1)]]] by auto

end

text \<open>
  An update the schema does not know passes only when it is a survey, and then changes nothing; any other one is reported.
\<close>

lemma unknown_update_reported:
  assumes "wire_format (sc_pw codec)" and "numbered fs"
    and "sc_update codec data = Inr \<lparr>iu_Message = None, iu_Unknown = putFields (sc_pw codec) fs\<rparr>"
    and "decodeTypedInteractionUpdate codec data m = Inr m'"
  shows "m' = m \<and> (\<forall>f \<in> set fs. fieldNumber f = interactionFeedbackRequestField)"
proof -
  obtain r where r: "remainingInteractionUnknown (sc_pw codec) (putFields (sc_pw codec) fs) = Inr r"
    using case_Inr [OF assms(4) [unfolded decodeTypedInteractionUpdate_def assms(3) sum.case interactionUpdate.simps]] by (elim exE conjE)
  have "r = []" "m' = m" using assms(4) by (auto simp: decodeTypedInteractionUpdate_def assms(3) r split: if_splits)
  then show ?thesis using wire_format.survey_unknown [OF assms(1,2)] r by simp
qed

text \<open>An exec message the client does not support is reported with the field of its span context when it has one.\<close>

lemma span_context_hides_field:
  "oneofFieldNumber (execFields exec number) = (if es_SpanContext exec then 19 else number)"
  by (simp add: oneofFieldNumber_def execFields_def)

text \<open>Of two requests in one envelope the later one replaces the earlier one, which is never answered.\<close>

lemma later_request_wins:
  assumes "envelope codec m (fs @ [BytesField agentServerExecMessage a, BytesField agentServerExecMessage b]) = Inr m'"
  shows "\<exists>exec. sc_exec codec b = Inr exec \<and> dm_ID m' = es_Id exec"
  using assms exec_type [of codec b] by (auto simp: envelope_append applyServerBytesField_def serverEnvelope split: sum.splits)

text \<open>A blob operation that asks for nothing is no request, but the request before it in its envelope gets its identifier.\<close>

lemma empty_kv_overwrites:
  assumes "sc_kv codec b = Inr kv" "ks_Message kv = None"
    and "envelope codec m (fs @ [BytesField agentServerKVMessage b]) = Inr m'"
  shows "dm_ID m' = ks_Id kv"
proof -
  obtain m1 where "decodeTypedKVMessage codec b m1 = Inr m'"
    using assms(3) by (auto simp: envelope_append applyServerBytesField_def serverEnvelope split: sum.splits)
  then have "(let m2 = m1\<lparr>dm_ID := ks_Id kv\<rparr>; u = unknownFieldNumbers (sc_pw codec) (ks_Unknown kv) in
      if u \<noteq> [] then Inl (protocolDriftError ''KV'' u) else Inr m2) = Inr m'"
    unfolding decodeTypedKVMessage_def assms(1) assms(2) sum.case option.case Let_def
    by (rule case_unit [THEN conjunct2])
  then show ?thesis by (auto simp: Let_def simp del: protocolDriftError_def split: if_splits)
qed

section \<open>Examples\<close>

definition exampleServer :: serverCodec where
  "exampleServer = \<lparr>sc_pw = standardWire,
     sc_links = \<lparr>ln_lower = id, ln_parseURL = (\<lambda>_. None), ln_parseIP = (\<lambda>_. False), ln_match = (\<lambda>_. None)\<rparr>,
     sc_update = (\<lambda>data. Inr \<lparr>iu_Message = Some (InteractionUpdate_TextDelta (stringOf data)), iu_Unknown = []\<rparr>),
     sc_exec = (\<lambda>data. Inr \<lparr>es_Id = ucast (lastVarintOf standardWire 1 data), es_ExecId = [], es_SpanContext = False,
       es_Message = Some ExecServerMessage_ShellArgs, es_AcceptHook = False, es_Unknown = []\<rparr>),
     sc_kv = (\<lambda>_. Inl ErrNotExist), sc_query = (\<lambda>_. Inl ErrNotExist), sc_control = (\<lambda>_. Inl ErrNotExist),
     sc_value = (\<lambda>_. None), sc_validUTF8 = (\<lambda>_. True), sc_rawURL = stringOf, sc_marshal = (\<lambda>_. Inr [])\<rparr>"

definition exampleRequest :: "field list" where
  "exampleRequest = [BytesField 1 [104], BytesField agentServerExecMessage (putFields standardWire [VarintField 1 7])]"

section \<open>Properties\<close>

text \<open>
  C19: An envelope of the server is a request exactly when one of its fields is: an exec message, a control message, an
  interaction query or a blob operation.  No update, checkpoint or extension in the same envelope hides the request,
  and none of them is ever taken for one; updates, checkpoints, extensions and fields that are not bytes do not
  change what is decoded when they follow the request.  (The claim leaves out a blob operation that follows:
  one that asks for nothing is not a request, yet overwrites the identifier, see \<open>empty_kv_overwrites\<close>.)
\<close>

theorem requests_are_recognised:
  assumes "wire_format (sc_pw codec)" and "numbered (fs @ gs)"
    and "decodeServerMessage codec (putFields (sc_pw codec) fs) = Inr m"
  shows "(wireReplyRequired (dm_Type m) \<longleftrightarrow> (\<exists>f \<in> set fs. isRequest codec f))
    \<and> ((\<exists>f \<in> set fs. isRequest codec f) \<longrightarrow> (\<forall>g \<in> set gs. isNotice g)
        \<longrightarrow> decodeServerMessage codec (putFields (sc_pw codec) (fs @ gs)) = Inr m)"
proof -
  note fields = wire_format.decodeServerMessage_fields [OF assms(1) refl]
  have m: "envelope codec (newMessage wireUnknown) fs = Inr m" using assms(2,3) by (simp add: fields)
  have "wireReplyRequired (dm_Type m) \<longleftrightarrow> (\<exists>f \<in> set fs. isRequest codec f)"
    using envelope_type [OF m] by (simp add: newMessage_def)
  moreover have "envelope codec m gs = Inr m" if "wireReplyRequired (dm_Type m)" "\<forall>g \<in> set gs. isNotice g"
    using notices_kept that by blast
  ultimately show ?thesis using m assms(2) fields [of "fs @ gs"] by (auto simp: envelope_append)
qed

lemma requests_are_recognised_witness:
  "\<exists>m. decodeServerMessage exampleServer (putFields standardWire exampleRequest) = Inr m \<and> wireReplyRequired (dm_Type m)
    \<and> decodeServerMessage exampleServer (putFields standardWire (exampleRequest @ [BytesField 1 [105]])) = Inr m"
proof -
  have w: "wire_format (sc_pw exampleServer)" by (simp add: exampleServer_def std.wire_format_axioms)
  have n: "numbered (exampleRequest @ [BytesField 1 [105]])" by (simp add: exampleRequest_def serverEnvelope)
  have "\<not> isl (decodeServerMessage exampleServer (putFields (sc_pw exampleServer) exampleRequest))" by code_simp
  then obtain m where m: "decodeServerMessage exampleServer (putFields (sc_pw exampleServer) exampleRequest) = Inr m"
    by (cases "decodeServerMessage exampleServer (putFields (sc_pw exampleServer) exampleRequest)") auto
  have r: "\<exists>f \<in> set exampleRequest. isRequest exampleServer f" by (simp add: exampleRequest_def isRequest_def)
  have g: "\<forall>g \<in> set [BytesField 1 [105]]. isNotice g" by (simp add: isNotice_def serverEnvelope)
  show ?thesis
    using requests_are_recognised [OF w n m] r g m by (simp add: exampleServer_def)
qed

text \<open>
  C20: The answer to an exec message carries the identifier the server gave it, at its full width: an identifier that does
  not fit 32 bits is refused when it is read, so that no two requests are taken for each other, when the exec
  message is the last request of its envelope: anything may precede it, and only updates, checkpoints, extensions
  and fields that are not bytes follow (a later request replaces it, see \<open>later_request_wins\<close>).  That a
  \<open>uint32\<close> is the last varint of its field cut to 32 bits is the documented behaviour of the generated decoder.
\<close>

theorem reply_reaches_request:
  assumes "wire_format (we_pw env)" and "sc_pw codec = we_pw env"
    and decoder: "\<And>inner exec. numbered inner \<Longrightarrow> sc_exec codec (putFields (we_pw env) inner) = Inr exec
      \<Longrightarrow> es_Id exec = ucast (lastVarint 1 inner)"
    and "numbered (fs @ BytesField agentServerExecMessage (putFields (we_pw env) inner) # gs)" and "numbered inner"
    and "\<forall>g \<in> set gs. isNotice g"
    and "decodeServerMessage codec (putFields (we_pw env)
      (fs @ BytesField agentServerExecMessage (putFields (we_pw env) inner) # gs)) = Inr m"
    and "encodeMessage env reply = Inr data" and "addressee reply = Some (agentClientExecMessage, dm_ID m, execID)"
    and "fieldsInRange reply"
  shows "decodeVarint (we_pw env) (decodeBytes (we_pw env) data agentClientExecMessage) 1 = lastVarint 1 inner"
proof -
  let ?pw = "we_pw env"
  obtain m0 m1 where m1: "applyServerBytesField codec agentServerExecMessage (putFields ?pw inner) m0 = Inr m1"
    and rest: "envelope codec m1 gs = Inr m"
    using assms(7) wire_format.decodeServerMessage_fields [OF assms(1,2,4)]
    by (auto simp: envelope_append split: sum.splits)
  then have exec: "decodeTypedExecMessage codec (putFields ?pw inner) m0 = Inr m1"
    by (simp add: applyServerBytesField_def serverEnvelope)
  have m: "m = m1" using notices_kept [OF _ assms(6)] exec_type [OF exec] rest by simp
  obtain e where e: "sc_exec codec (putFields ?pw inner) = Inr e" "dm_ID m = es_Id e"
    using exec_type [OF exec] m by blast
  have "unat (lastVarint 1 inner) < 2 ^ 32"
    using exec_type [OF exec] wire_format.rejectOverflowID_fields [OF assms(1,5)] assms(2)
    by (intro lastVarint_below) metis
  then have "ucast (dm_ID m) = lastVarint 1 inner"
    using decoder [OF assms(5) e(1)] e(2) by (simp add: word_unat_eq_iff unsigned_ucast_eq take_bit_nat_eq_self unsigned_of_nat)
  with wire_format.addressed [OF assms(1) refl assms(8-10)] show ?thesis by simp
qed


lemma reply_reaches_request_witness:
  "\<exists>m data. decodeServerMessage exampleServer (putFields standardWire exampleRequest) = Inr m
    \<and> encodeMessage plainEnv (ExecError (dm_ID m) ''x'' 5 ''no'') = Inr data
    \<and> decodeVarint standardWire (decodeBytes standardWire data agentClientExecMessage) 1 = 7"
proof -
  have pw: "we_pw plainEnv = standardWire" "sc_pw exampleServer = standardWire" by (simp_all add: plainEnv_def exampleServer_def)
  have w: "wire_format (we_pw plainEnv)" by (simp add: pw std.wire_format_axioms)
  have e: "exampleRequest = [BytesField 1 [104]] @ BytesField agentServerExecMessage (putFields (we_pw plainEnv) [VarintField 1 7]) # []"
    by (simp add: exampleRequest_def pw)
  have "\<not> isl (decodeServerMessage exampleServer (putFields standardWire exampleRequest))" by code_simp
  then obtain m where m: "decodeServerMessage exampleServer (putFields standardWire exampleRequest) = Inr m"
    by (cases "decodeServerMessage exampleServer (putFields standardWire exampleRequest)") auto
  obtain data where data: "encodeMessage plainEnv (ExecError (dm_ID m) ''x'' 5 ''no'') = Inr data" by simp
  have law: "numbered inner \<Longrightarrow> sc_exec exampleServer (putFields (we_pw plainEnv) inner) = Inr exec
      \<Longrightarrow> es_Id exec = ucast (lastVarint 1 inner)" for inner exec
    using std.lastVarintOf_fields by (auto simp: exampleServer_def pw)
  have "decodeVarint (we_pw plainEnv) (decodeBytes (we_pw plainEnv) data agentClientExecMessage) 1 = lastVarint 1 [VarintField 1 7]"
    by (rule reply_reaches_request [where codec = exampleServer and fs = "[BytesField 1 [104]]" and gs = "[]" and m = m
          and execID = "Some ''x''", OF w _ law _ _ _ _ data])
       (use m in \<open>simp_all add: pw exampleRequest_def resultField_def serverEnvelope\<close>)
  with m data show ?thesis by (auto simp: pw lastVarint_def)
qed

end
