(* ===== verification/History.thy ===== *)
theory History
  imports Media "HOL-Library.List_Lexorder"
begin

text \<open>
  The history a run is started with (\<open>full_history.go\<close>): the caller's messages become messages of text, media,
  reasoning, tool calls and tool results, and every tool call is answered.  Parameters: lower case and the JSON encoder.
\<close>

section \<open>State\<close>

record history =
  hy_out :: "bytes list"
  hy_names :: "(string \<times> string) list"
  hy_server :: "string list"
  hy_resolved :: "string list"

definition newHistory :: history where
  "newHistory = \<lparr>hy_out = [], hy_names = [], hy_server = [], hy_resolved = []\<rparr>"

definition invalidHistory :: "string \<Rightarrow> err" where
  "invalidHistory detail = RequestError 422 (''Cursor Agent v1 cannot rebuild history: '' @ detail)"

definition anthropicServerToolResultTypes :: "string list" where
  "anthropicServerToolResultTypes = [''web_search_tool_result'', ''web_fetch_tool_result'', ''code_execution_tool_result'',
     ''bash_code_execution_tool_result'', ''text_editor_code_execution_tool_result'', ''tool_search_tool_result'',
     ''advisor_tool_result'', ''mcp_tool_result'', ''computer_tool_result'', ''browser_tool_result'', ''memory_tool_result'',
     ''programmatic_tool_call_tool_result'', ''container_upload_tool_result'', ''web_search_tool_result_error'',
     ''code_execution_tool_result_error'', ''bash_code_execution_tool_result_error'', ''text_editor_code_execution_result_error'']"

definition orphanToolResultText :: string where
  "orphanToolResultText = ''[No result was returned for this tool call.]''"

definition appendMessage :: "(json \<Rightarrow> bytes res) \<Rightarrow> string \<Rightarrow> json list \<Rightarrow> string \<Rightarrow> history \<Rightarrow> history res" where
  "appendMessage marshal role parts ident h = (if parts = [] then Inr h
     else case marshal (JObj ([(''role'', JStr role), (''content'', JArr parts)] @ (if ident \<noteq> [] then [(''id'', JStr ident)] else []))) of
       Inl e \<Rightarrow> Inl e | Inr encoded \<Rightarrow> Inr (h\<lparr>hy_out := hy_out h @ [encoded]\<rparr>))"

section \<open>Tool results\<close>

definition toolResultIDs :: "json option \<Rightarrow> string list" where
  "toolResultIDs content = (case content of Some (JArr blocks) \<Rightarrow>
       concat (map (\<lambda>raw. case raw of
         JObj block \<Rightarrow> (let i = stringValue (map_of block ''tool_use_id'') in if i \<noteq> [] then [i] else []) | _ \<Rightarrow> []) blocks)
     | _ \<Rightarrow> [])"

definition toolResultPart :: "string \<Rightarrow> string \<Rightarrow> json list \<Rightarrow> json \<Rightarrow> json" where
  "toolResultPart ident name media result = JObj ([(''type'', JStr ''tool-result''), (''toolCallId'', JStr ident), (''toolName'', JStr name)]
     @ (if media \<noteq> [] then [(''experimental_content'', JArr media)] else []) @ [(''result'', result)])"

definition flushCall :: "(json \<Rightarrow> bytes res) \<Rightarrow> string list \<Rightarrow> string \<Rightarrow> history \<Rightarrow> history res" where
  "flushCall marshal answeredNow ident h =
     (if ident \<in> set (hy_resolved h) \<or> ident \<in> set (hy_server h) \<or> ident \<in> set answeredNow then Inr h
      else case appendMessage marshal ''tool'' [toolResultPart ident (the (map_of (hy_names h) ident)) []
          (JObj [(''is_error'', JBool True), (''content'', JStr orphanToolResultText)])] ident h of
        Inl e \<Rightarrow> Inl e | Inr h' \<Rightarrow> Inr (h'\<lparr>hy_resolved := ident # hy_resolved h'\<rparr>))"

fun flushCalls :: "(json \<Rightarrow> bytes res) \<Rightarrow> string list \<Rightarrow> string list \<Rightarrow> history \<Rightarrow> history res" where
  "flushCalls marshal answeredNow [] h = Inr h"
| "flushCalls marshal answeredNow (i # ids) h = (case flushCall marshal answeredNow i h of
     Inl e \<Rightarrow> Inl e | Inr h' \<Rightarrow> flushCalls marshal answeredNow ids h')"

definition sortedKeys :: "(string \<times> string) list \<Rightarrow> string list" where
  "sortedKeys m = sort (map fst m)"

definition flushUnansweredCallerCalls :: "(json \<Rightarrow> bytes res) \<Rightarrow> string list \<Rightarrow> history \<Rightarrow> history res" where
  "flushUnansweredCallerCalls marshal answeredNow h = flushCalls marshal answeredNow (sortedKeys (hy_names h)) h"

fun resultParts :: "(string \<Rightarrow> string) \<Rightarrow> json list \<Rightarrow> ContentPart list res" where
  "resultParts lower [] = Inr []"
| "resultParts lower (JObj block # blocks) = (case parseAnthropicContentBlock lower block of
     Inl e \<Rightarrow> Inl e
   | Inr (converted, known) \<Rightarrow>
       if \<not> known then Inl (RequestError 422 ''Cursor Agent v1 historical tool_result content contains an unsupported block'')
       else (case resultParts lower blocks of Inl e \<Rightarrow> Inl e | Inr rest \<Rightarrow> Inr (converted @ rest)))"
| "resultParts lower (v # blocks) = Inl (RequestError 422 ''Cursor Agent v1 historical tool_result content block must be an object'')"

text \<open>The text of a result and, when it has attachments, all of its parts.\<close>

definition normalizedHistoryToolResultParts :: "(string \<Rightarrow> string) \<Rightarrow> json option \<Rightarrow> (json \<times> json list) res" where
  "normalizedHistoryToolResultParts lower content = (case content of
     None \<Rightarrow> Inr (JStr [], []) | Some JNull \<Rightarrow> Inr (JStr [], [])
   | Some (JStr text) \<Rightarrow> Inr (JStr text, [])
   | Some (JArr blocks) \<Rightarrow> (case resultParts lower blocks of
       Inl e \<Rightarrow> Inl e
     | Inr allParts \<Rightarrow>
         (let texts = JArr (map (\<lambda>p. JObj [(''type'', JStr ''text''), (''text'', JStr (cn_Text p))]) (filter (\<lambda>p. cn_Media p = None) allParts))
          in Inr (texts, if list_ex (\<lambda>p. cn_Media p \<noteq> None) allParts then historyContentParts allParts else [])))
   | _ \<Rightarrow> Inl (RequestError 422 ''Cursor Agent v1 historical tool_result content must be text''))"

definition ciphertextKey :: "string \<Rightarrow> bool" where
  "ciphertextKey k = (k = ''encrypted_content'' \<or> k = ''encrypted_index'')"

fun withoutProviderCiphertext :: "json \<Rightarrow> json" where
  "withoutProviderCiphertext (JObj m) =
     (let out = map (\<lambda>(k, v). (k, withoutProviderCiphertext v)) (filter (\<lambda>(k, v). \<not> ciphertextKey k) m) in
      JObj (if list_ex (\<lambda>(k, v). ciphertextKey k) m
        then AList.update ''beefapi_note'' (JStr ''encrypted provider content omitted: it is only readable by the channel that produced it'') out
        else out))"
| "withoutProviderCiphertext (JArr vs) = JArr (map withoutProviderCiphertext vs)"
| "withoutProviderCiphertext v = v"

section \<open>Blocks\<close>

definition textBlockParts :: "(json \<Rightarrow> bytes res) \<Rightarrow> object \<Rightarrow> string \<Rightarrow> json list res" where
  "textBlockParts marshal block text =
     (let part = JObj [(''type'', JStr ''text''), (''text'', JStr text)] in
      case map_of block ''citations'' of
        Some (JArr citations) \<Rightarrow> (if citations = [] then Inr [part] else case marshal (JArr citations) of
            Inl e \<Rightarrow> Inl e
          | Inr encoded \<Rightarrow> Inr [part, JObj [(''type'', JStr ''text''),
              (''text'', JStr (''Source citations for the preceding text: '' @ map (\<lambda>b. char_of (unat b)) encoded))]])
      | _ \<Rightarrow> Inr [part])"

definition reasoningPart :: "object \<Rightarrow> json" where
  "reasoningPart block = (let signature = stringValue (map_of block ''signature'') in
     JObj ([(''type'', JStr ''reasoning''), (''text'', JStr (stringMember block ''thinking''))]
       @ (if signature \<noteq> [] then [(''signature'', JStr signature)] else [])))"

text \<open>\<open>block["input"]\<close>; an absent or null input is an empty object.\<close>

definition toolInput :: "object \<Rightarrow> object option" where
  "toolInput block = (case map_of block ''input'' of
     None \<Rightarrow> Some [] | Some JNull \<Rightarrow> Some [] | Some (JObj input) \<Rightarrow> Some input | _ \<Rightarrow> None)"

definition toolCallBlock :: "string \<Rightarrow> string \<Rightarrow> object \<Rightarrow> history \<Rightarrow> (history \<times> json) res" where
  "toolCallBlock role t block h =
     (let ident = stringValue (map_of block ''id''); name = stringValue (map_of block ''name'') in
      if role \<noteq> ''assistant'' \<or> ident = [] \<or> name = [] \<or> map_of (hy_names h) ident \<noteq> None
      then Inl (invalidHistory ''tool call identity is invalid or duplicated'')
      else case toolInput block of
        None \<Rightarrow> Inl (invalidHistory ''tool arguments must be an object'')
      | Some input \<Rightarrow> Inr (h\<lparr>hy_names := AList.update ident name (hy_names h),
            hy_server := (if t \<noteq> ''tool_use'' then ident # hy_server h else hy_server h)\<rparr>,
          JObj [(''type'', JStr ''tool-call''), (''toolCallId'', JStr ident), (''toolName'', JStr name), (''args'', JObj input)]))"

definition callerResult :: "(string \<Rightarrow> string) \<Rightarrow> object \<Rightarrow> (json \<times> json list) res" where
  "callerResult lower block = (case normalizedHistoryToolResultParts lower (map_of block ''content'') of
     Inl e \<Rightarrow> Inl e
   | Inr (result, media) \<Rightarrow> (case map_of block ''is_error'' of
       None \<Rightarrow> Inr (result, media)
     | Some (JBool isError) \<Rightarrow>
         Inr (if isError then JObj [(''is_error'', JBool True), (''content'', result)] else result, media)
     | _ \<Rightarrow> Inl (invalidHistory ''tool result error flag must be boolean'')))"

definition serverResult :: "object \<Rightarrow> json" where
  "serverResult block = withoutProviderCiphertext (case map_of block ''content'' of None \<Rightarrow> JStr [] | Some JNull \<Rightarrow> JStr [] | Some v \<Rightarrow> v)"

definition toolResultBlock ::
  "(string \<Rightarrow> string) \<Rightarrow> (json \<Rightarrow> bytes res) \<Rightarrow> string \<Rightarrow> string \<Rightarrow> object \<Rightarrow> json list \<Rightarrow> history \<Rightarrow> history res" where
  "toolResultBlock lower marshal role t block parts h =
     (let ident = stringValue (map_of block ''tool_use_id'') in
      case (if ident = [] then None else map_of (hy_names h) ident) of
        None \<Rightarrow> Inl (invalidHistory ''tool result has no unique matching call'')
      | Some name \<Rightarrow>
          if ident \<in> set (hy_resolved h) then Inl (invalidHistory ''tool result has no unique matching call'')
          else if t = ''tool_result'' \<and> ident \<in> set (hy_server h)
          then Inl (invalidHistory ''tool_result cannot answer a server_tool_use'')
          else if t \<noteq> ''tool_result'' \<and> ident \<notin> set (hy_server h)
          then Inl (invalidHistory (t @ '' must answer a server_tool_use''))
          else case appendMessage marshal role parts [] h of
            Inl e \<Rightarrow> Inl e
          | Inr h1 \<Rightarrow> (case (if t = ''tool_result'' then callerResult lower block else Inr (serverResult block, [])) of
              Inl e \<Rightarrow> Inl e
            | Inr (result, media) \<Rightarrow> (case appendMessage marshal ''tool'' [toolResultPart ident name media result] ident h1 of
                Inl e \<Rightarrow> Inl e
              | Inr h2 \<Rightarrow> Inr (h2\<lparr>hy_resolved := ident # hy_resolved h2\<rparr>))))"

text \<open>A compaction drops everything before it; the conversation continues from its summary.\<close>

definition compactionBlock :: "(json \<Rightarrow> bytes res) \<Rightarrow> string \<Rightarrow> object \<Rightarrow> history res" where
  "compactionBlock marshal role block =
     (if role \<noteq> ''assistant'' then Inl (invalidHistory ''compaction block must belong to assistant'')
      else if trimSpace (stringMember block ''content'') = []
      then Inl (invalidHistory ''compaction block must carry a plaintext summary'')
      else appendMessage marshal ''user'' [JObj [(''type'', JStr ''text''),
        (''text'', JStr (''[Compacted conversation summary from the previous provider]'' @ newline @ stringMember block ''content''))]] [] newHistory)"

definition historyBlock ::
  "(string \<Rightarrow> string) \<Rightarrow> (json \<Rightarrow> bytes res) \<Rightarrow> string \<Rightarrow> bool \<Rightarrow> json \<Rightarrow> history \<times> json list \<Rightarrow> (history \<times> json list) res" where
  "historyBlock lower marshal role omitText raw s = (case s of (h, parts) \<Rightarrow> (case raw of
     JObj block \<Rightarrow>
       (let t = stringValue (map_of block ''type''); keep = (\<lambda>new. Inr (h, parts @ new)) in
        if t = ''text'' then (case map_of block ''text'' of
            Some (JStr text) \<Rightarrow> (if omitText then keep [] else case textBlockParts marshal block text of Inl e \<Rightarrow> Inl e | Inr new \<Rightarrow> keep new)
          | _ \<Rightarrow> Inl (invalidHistory ''text block has no text''))
        else if t = ''image'' \<or> t = ''document'' \<or> t = ''search_result'' then
          (if omitText then keep [] else case parseAnthropicContentBlock lower block of
             Inl e \<Rightarrow> Inl e | Inr (converted, _) \<Rightarrow> keep (historyContentParts converted))
        else if t = ''thinking'' then
          (if role \<noteq> ''assistant'' then Inl (invalidHistory ''thinking block must belong to assistant'') else keep [reasoningPart block])
        else if t = ''redacted_thinking'' then
          (if role \<noteq> ''assistant'' then Inl (invalidHistory ''redacted_thinking block must belong to assistant'')
           else keep [JObj [(''type'', JStr ''redacted-reasoning''), (''data'', JStr (stringValue (map_of block ''data'')))]])
        else if t = ''compaction'' then
          (case compactionBlock marshal role block of Inl e \<Rightarrow> Inl e | Inr h' \<Rightarrow> Inr (h', []))
        else if t = ''container_upload'' then
          Inl (invalidHistory ''container_upload references an Anthropic Files API container and cannot be replayed on Cursor'')
        else if t = ''tool_use'' \<or> t = ''server_tool_use'' \<or> t = ''mcp_tool_use'' then
          (case toolCallBlock role t block h of Inl e \<Rightarrow> Inl e | Inr (h', part) \<Rightarrow> Inr (h', parts @ [part]))
        else if t = ''tool_result'' \<or> t \<in> set anthropicServerToolResultTypes then
          (case toolResultBlock lower marshal role t block parts h of Inl e \<Rightarrow> Inl e | Inr h' \<Rightarrow> Inr (h', []))
        else Inl (invalidHistory (''unsupported content block '' @ t)))
   | _ \<Rightarrow> Inl (invalidHistory ''content block must be an object'')))"

fun historyBlocks ::
  "(string \<Rightarrow> string) \<Rightarrow> (json \<Rightarrow> bytes res) \<Rightarrow> string \<Rightarrow> bool \<Rightarrow> json list \<Rightarrow> history \<times> json list \<Rightarrow> (history \<times> json list) res" where
  "historyBlocks lower marshal role omitText [] s = Inr s"
| "historyBlocks lower marshal role omitText (b # blocks) s = (case historyBlock lower marshal role omitText b s of
     Inl e \<Rightarrow> Inl e | Inr s' \<Rightarrow> historyBlocks lower marshal role omitText blocks s')"

section \<open>Messages\<close>

definition historyContent ::
  "(string \<Rightarrow> string) \<Rightarrow> (json \<Rightarrow> bytes res) \<Rightarrow> string \<Rightarrow> bool \<Rightarrow> json option \<Rightarrow> history \<Rightarrow> history res" where
  "historyContent lower marshal role omitText content h = (case content of
     Some (JStr text) \<Rightarrow> (if omitText then Inr h
       else appendMessage marshal role [JObj [(''type'', JStr ''text''), (''text'', JStr text)]] [] h)
   | Some (JArr blocks) \<Rightarrow> (case historyBlocks lower marshal role omitText blocks (h, []) of
       Inl e \<Rightarrow> Inl e | Inr (h', parts) \<Rightarrow> appendMessage marshal role parts [] h')
   | _ \<Rightarrow> Inl (invalidHistory ''content must be text or content blocks''))"

definition historyMessage :: "(string \<Rightarrow> string) \<Rightarrow> (json \<Rightarrow> bytes res) \<Rightarrow> bool \<Rightarrow> json \<Rightarrow> history \<Rightarrow> history res" where
  "historyMessage lower marshal omitText raw h = (case raw of
     JObj message \<Rightarrow>
       (let role = stringValue (map_of message ''role''); content = map_of message ''content'' in
        case (if role = ''user'' then flushUnansweredCallerCalls marshal (toolResultIDs content) h else Inr h) of
          Inl e \<Rightarrow> Inl e | Inr h' \<Rightarrow> historyContent lower marshal role omitText content h')
   | _ \<Rightarrow> Inl (invalidHistory ''message must be an object''))"

fun historyMessages :: "(string \<Rightarrow> string) \<Rightarrow> (json \<Rightarrow> bytes res) \<Rightarrow> bool \<Rightarrow> json list \<Rightarrow> history \<Rightarrow> history res" where
  "historyMessages lower marshal omitLastText [] h = Inr h"
| "historyMessages lower marshal omitLastText (m # ms) h =
     (case historyMessage lower marshal (omitLastText \<and> ms = []) m h of
        Inl e \<Rightarrow> Inl e | Inr h' \<Rightarrow> historyMessages lower marshal omitLastText ms h')"

definition structuredHistory :: "(string \<Rightarrow> string) \<Rightarrow> (json \<Rightarrow> bytes res) \<Rightarrow> json list \<Rightarrow> bool \<Rightarrow> bytes list res" where
  "structuredHistory lower marshal messages omitLastText =
     (case historyMessages lower marshal omitLastText messages newHistory of
        Inl e \<Rightarrow> Inl e
      | Inr h \<Rightarrow>
          if list_ex (\<lambda>(i, name). i \<notin> set (hy_resolved h) \<and> i \<in> set (hy_server h)) (hy_names h)
          then Inl (RequestError 409 ''Cursor Agent v1 cannot continue an unfinished Anthropic server tool loop (pause_turn); resume this conversation on its original channel'')
          else (case flushUnansweredCallerCalls marshal [] h of Inl e \<Rightarrow> Inl e | Inr h' \<Rightarrow> Inr (hy_out h')))"

end
