(* ===== verification/HistorySafety.thy ===== *)
theory HistorySafety
  imports History
begin

text \<open>
  What a rebuilt history says of tool calls: every call is answered exactly once and after it was made, and no ciphertext of
  another provider is in an answer.
\<close>

section \<open>Tool calls and results of a history\<close>

definition idsOf :: "string \<Rightarrow> json \<Rightarrow> string list" where
  "idsOf kind v = (case v of JObj part \<Rightarrow>
     if map_of part ''type'' = Some (JStr kind) then [stringMember part ''toolCallId''] else [] | _ \<Rightarrow> [])"

definition idsIn :: "string \<Rightarrow> json list \<Rightarrow> string list" where
  "idsIn kind parts = concat (map (idsOf kind) parts)"

definition messageParts :: "json \<Rightarrow> json list" where
  "messageParts v = (case v of JObj m \<Rightarrow> (case map_of m ''content'' of Some (JArr parts) \<Rightarrow> parts | _ \<Rightarrow> []) | _ \<Rightarrow> [])"

definition callIDs :: "json list \<Rightarrow> string list" where
  "callIDs msgs = concat (map (idsIn ''tool-call'' \<circ> messageParts) msgs)"

definition resultIDs :: "json list \<Rightarrow> string list" where
  "resultIDs msgs = concat (map (idsIn ''tool-result'' \<circ> messageParts) msgs)"

text \<open>No result comes before its call.\<close>

definition inOrder :: "json list \<Rightarrow> bool" where
  "inOrder msgs = (\<forall>n \<le> length msgs. set (resultIDs (take n msgs)) \<subseteq> set (callIDs (take n msgs)))"

lemma ids_simps [simp]:
  "idsIn kind [] = []"
  "idsIn kind (ps @ qs) = idsIn kind ps @ idsIn kind qs"
  "idsIn kind [p] = idsOf kind p"
  "callIDs [] = []" "callIDs (ms @ ns) = callIDs ms @ callIDs ns" "callIDs [m] = idsIn ''tool-call'' (messageParts m)"
  "resultIDs [] = []" "resultIDs (ms @ ns) = resultIDs ms @ resultIDs ns" "resultIDs [m] = idsIn ''tool-result'' (messageParts m)"
  by (simp_all add: idsIn_def callIDs_def resultIDs_def)

lemma inOrder_nil [simp]: "inOrder []"
  by (simp add: inOrder_def)

lemma inOrder_snoc: "inOrder (ms @ [m]) \<longleftrightarrow> inOrder ms \<and> set (resultIDs (ms @ [m])) \<subseteq> set (callIDs (ms @ [m]))"
  by (auto simp: inOrder_def le_Suc_eq simp del: ids_simps)

lemma inOrder_all: "inOrder ms \<Longrightarrow> set (resultIDs ms) \<subseteq> set (callIDs ms)"
  unfolding inOrder_def by (drule spec [of _ "length ms"]) simp

section \<open>Where an answer comes from\<close>

text \<open>The content blocks of the caller's messages.\<close>

definition blocksOf :: "json list \<Rightarrow> object set" where
  "blocksOf messages = {block. \<exists>m blocks. JObj m \<in> set messages \<and> map_of m ''content'' = Some (JArr blocks) \<and> JObj block \<in> set blocks}"

definition blockType :: "object \<Rightarrow> string" where
  "blockType block = stringValue (map_of block ''type'')"

definition calledIn :: "object set \<Rightarrow> string set \<Rightarrow> string \<Rightarrow> string \<Rightarrow> bool" where
  "calledIn B kinds i name = (\<exists>call \<in> B. blockType call \<in> kinds \<and> stringValue (map_of call ''id'') = i
     \<and> stringValue (map_of call ''name'') = name)"

text \<open>The answer \<open>i\<close> gets when there is none: an error with a fixed text.\<close>

definition noResult :: "string \<Rightarrow> string \<Rightarrow> json" where
  "noResult i name = JObj [(''type'', JStr ''tool-result''), (''toolCallId'', JStr i), (''toolName'', JStr name),
     (''result'', JObj [(''is_error'', JBool True), (''content'', JStr ''[No result was returned for this tool call.]'')])]"

text \<open>
  The call of a former provider's server is answered by that provider's result among the blocks; the call of the caller
  by the caller's result, or with \<open>noResult\<close>.
\<close>

definition answeredFrom :: "(string \<Rightarrow> string) \<Rightarrow> object set \<Rightarrow> json \<Rightarrow> bool" where
  "answeredFrom lower B part = (\<exists>i name.
     calledIn B {''server_tool_use'', ''mcp_tool_use''} i name
       \<and> (\<exists>b \<in> B. stringValue (map_of b ''tool_use_id'') = i \<and> blockType b \<in> set anthropicServerToolResultTypes
            \<and> part = toolResultPart i name [] (serverResult b))
   \<or> calledIn B {''tool_use''} i name
       \<and> (part = noResult i name \<or> (\<exists>b \<in> B. stringValue (map_of b ''tool_use_id'') = i \<and> blockType b = ''tool_result''
            \<and> (\<exists>result media. callerResult lower b = Inr (result, media) \<and> part = toolResultPart i name media result))))"

lemma answeredFrom_server:
  "calledIn B {''server_tool_use'', ''mcp_tool_use''} i name \<Longrightarrow> b \<in> B \<Longrightarrow> stringValue (map_of b ''tool_use_id'') = i \<Longrightarrow>
     blockType b \<in> set anthropicServerToolResultTypes \<Longrightarrow> answeredFrom lower B (toolResultPart i name [] (serverResult b))"
  unfolding answeredFrom_def by blast

lemma answeredFrom_caller:
  "calledIn B {''tool_use''} i name \<Longrightarrow> b \<in> B \<Longrightarrow> stringValue (map_of b ''tool_use_id'') = i \<Longrightarrow>
     blockType b = ''tool_result'' \<Longrightarrow> callerResult lower b = Inr (result, media) \<Longrightarrow>
     answeredFrom lower B (toolResultPart i name media result)"
  unfolding answeredFrom_def by blast

definition answersIn :: "json list \<Rightarrow> json list" where
  "answersIn msgs = filter (\<lambda>p. idsOf ''tool-result'' p \<noteq> []) (concat (map messageParts msgs))"

lemma answersIn_simps [simp]: "answersIn [] = []"
  "answersIn (ms @ [m]) = answersIn ms @ filter (\<lambda>p. idsOf ''tool-result'' p \<noteq> []) (messageParts m)"
  by (simp_all add: answersIn_def)

lemma no_answers: "idsIn kind parts = [] \<Longrightarrow> filter (\<lambda>p. idsOf kind p \<noteq> []) parts = []"
  by (auto simp: idsIn_def filter_empty_conv)

section \<open>The invariant\<close>

definition recorded :: "(string \<Rightarrow> string) \<Rightarrow> (json \<Rightarrow> bytes res) \<Rightarrow> object set \<Rightarrow> json list \<Rightarrow> json list \<Rightarrow> history \<Rightarrow> bool" where
  "recorded lower marshal B msgs parts h \<longleftrightarrow>
     map marshal msgs = map Inr (hy_out h) \<and> inOrder msgs
   \<and> distinct (callIDs msgs @ idsIn ''tool-call'' parts)
   \<and> set (callIDs msgs @ idsIn ''tool-call'' parts) = fst ` set (hy_names h)
   \<and> distinct (resultIDs msgs) \<and> set (resultIDs msgs) = set (hy_resolved h)
   \<and> idsIn ''tool-result'' parts = []
   \<and> set (hy_server h) \<subseteq> fst ` set (hy_names h)
   \<and> (\<forall>(i, name) \<in> set (hy_names h).
        calledIn B (if i \<in> set (hy_server h) then {''server_tool_use'', ''mcp_tool_use''} else {''tool_use''}) i name)
   \<and> (\<forall>p \<in> set (answersIn msgs). answeredFrom lower B p)"

definition historyOk :: "(string \<Rightarrow> string) \<Rightarrow> (json \<Rightarrow> bytes res) \<Rightarrow> object set \<Rightarrow> history \<Rightarrow> json list \<Rightarrow> bool" where
  "historyOk lower marshal B h parts \<longleftrightarrow> (\<exists>msgs. recorded lower marshal B msgs parts h)"

lemma newHistory_ok: "historyOk lower marshal B newHistory []"
  unfolding historyOk_def by (rule exI [of _ "[]"]) (simp add: recorded_def newHistory_def)

lemma message_parts [simp]: "messageParts (JObj ((''role'', r) # (''content'', JArr parts) # rest)) = parts"
  by (simp add: messageParts_def)

lemma appendMessage_out:
  assumes "appendMessage marshal role parts ident h = Inr h'" "parts \<noteq> []"
  shows "\<exists>m encoded. messageParts m = parts \<and> marshal m = Inr encoded \<and> h' = h\<lparr>hy_out := hy_out h @ [encoded]\<rparr>"
proof -
  let ?m = "JObj ((''role'', JStr role) # (''content'', JArr parts) # (if ident \<noteq> [] then [(''id'', JStr ident)] else []))"
  have "messageParts ?m = parts" by simp
  moreover have "\<exists>encoded. marshal ?m = Inr encoded \<and> h' = h\<lparr>hy_out := hy_out h @ [encoded]\<rparr>"
    using assms by (auto simp: appendMessage_def split: sum.splits)
  ultimately show ?thesis by blast
qed

lemma append_parts:
  assumes "historyOk lower marshal B h parts" "appendMessage marshal role parts [] h = Inr h'"
  shows "historyOk lower marshal B h' [] \<and> hy_names h' = hy_names h \<and> hy_resolved h' = hy_resolved h \<and> hy_server h' = hy_server h"
proof (cases "parts = []")
  case True
  then show ?thesis using assms by (simp add: appendMessage_def)
next
  case False
  obtain msgs where msgs: "recorded lower marshal B msgs parts h" using assms(1) by (auto simp: historyOk_def)
  obtain m encoded where m: "messageParts m = parts" "marshal m = Inr encoded" "h' = h\<lparr>hy_out := hy_out h @ [encoded]\<rparr>"
    using appendMessage_out [OF assms(2) False] by blast
  have "recorded lower marshal B (msgs @ [m]) [] h'"
    using msgs m inOrder_all [of msgs] by (auto simp: recorded_def inOrder_snoc no_answers)
  then show ?thesis using m(3) by (auto simp: historyOk_def)
qed

lemma names_called:
  "historyOk lower marshal B h parts \<Longrightarrow> map_of (hy_names h) i = Some name \<Longrightarrow>
     calledIn B (if i \<in> set (hy_server h) then {''server_tool_use'', ''mcp_tool_use''} else {''tool_use''}) i name"
  by (auto simp: historyOk_def recorded_def dest!: map_of_SomeD)

lemma result_ids [simp]:
  "idsOf ''tool-result'' (toolResultPart i name media v) = [i]" "idsOf ''tool-call'' (toolResultPart i name media v) = []"
  by (simp_all add: idsOf_def toolResultPart_def stringMember_def)

lemma append_result:
  assumes "historyOk lower marshal B h []" "i \<in> fst ` set (hy_names h)" "i \<notin> set (hy_resolved h)"
    and "appendMessage marshal role [toolResultPart i name media v] ident h = Inr h'"
    and "answeredFrom lower B (toolResultPart i name media v)"
  shows "historyOk lower marshal B (h'\<lparr>hy_resolved := i # hy_resolved h'\<rparr>) [] \<and> hy_names h' = hy_names h \<and> hy_resolved h' = hy_resolved h
    \<and> hy_server h' = hy_server h"
proof -
  obtain msgs where msgs: "recorded lower marshal B msgs [] h" using assms(1) by (auto simp: historyOk_def)
  obtain m encoded where m: "messageParts m = [toolResultPart i name media v]" "marshal m = Inr encoded"
      "h' = h\<lparr>hy_out := hy_out h @ [encoded]\<rparr>"
    using appendMessage_out [OF assms(4)] by blast
  have "recorded lower marshal B (msgs @ [m]) [] (h'\<lparr>hy_resolved := i # hy_resolved h'\<rparr>)"
    using msgs m assms(2,3,5) inOrder_all [of msgs] by (auto simp: recorded_def inOrder_snoc)
  then show ?thesis using m(3) by (auto simp: historyOk_def)
qed

text \<open>Unanswered calls are closed.\<close>

lemma flushCall_ok:
  assumes "historyOk lower marshal B h []" "i \<in> fst ` set (hy_names h)" "flushCall marshal answered i h = Inr h'"
  shows "historyOk lower marshal B h' [] \<and> hy_names h' = hy_names h \<and> hy_server h' = hy_server h \<and> set (hy_resolved h) \<subseteq> set (hy_resolved h')
    \<and> (i \<in> set (hy_resolved h') \<or> i \<in> set (hy_server h) \<or> i \<in> set answered)"
proof (cases "i \<in> set (hy_resolved h) \<or> i \<in> set (hy_server h) \<or> i \<in> set answered")
  case True
  then show ?thesis using assms by (auto simp: flushCall_def)
next
  case False
  let ?part = "toolResultPart i (the (map_of (hy_names h) i)) [] (JObj [(''is_error'', JBool True), (''content'', JStr orphanToolResultText)])"
  obtain h1 where h1: "appendMessage marshal ''tool'' [?part] i h = Inr h1" "h' = h1\<lparr>hy_resolved := i # hy_resolved h1\<rparr>"
    using assms(3) False unfolding flushCall_def by (auto split: sum.splits)
  obtain name where name: "map_of (hy_names h) i = Some name"
    using assms(2) by (cases "map_of (hy_names h) i") (auto simp: map_of_eq_None_iff)
  have "answeredFrom lower B ?part"
    using names_called [OF assms(1) name] False name
    by (auto simp: answeredFrom_def noResult_def toolResultPart_def orphanToolResultText_def)
  then show ?thesis using append_result [OF assms(1,2) _ h1(1)] False h1(2) by auto
qed

lemma flushCalls_ok:
  assumes "historyOk lower marshal B h []" "set ids \<subseteq> fst ` set (hy_names h)" "flushCalls marshal answered ids h = Inr h'"
  shows "historyOk lower marshal B h' [] \<and> hy_names h' = hy_names h \<and> hy_server h' = hy_server h \<and> set (hy_resolved h) \<subseteq> set (hy_resolved h')
    \<and> (\<forall>i \<in> set ids. i \<in> set (hy_resolved h') \<or> i \<in> set (hy_server h) \<or> i \<in> set answered)"
  using assms
proof (induction ids arbitrary: h)
  case (Cons i ids)
  obtain h1 where h1: "flushCall marshal answered i h = Inr h1" "flushCalls marshal answered ids h1 = Inr h'"
    using Cons.prems(3) by (auto split: sum.splits)
  have i: "i \<in> fst ` set (hy_names h)" using Cons.prems(2) by simp
  note one = flushCall_ok [OF Cons.prems(1) i h1(1)]
  have "set ids \<subseteq> fst ` set (hy_names h1)" using one Cons.prems(2) by auto
  from Cons.IH [OF _ this h1(2)] one show ?case by auto
qed auto

lemma flush_ok:
  assumes "historyOk lower marshal B h []" "flushUnansweredCallerCalls marshal answered h = Inr h'"
  shows "historyOk lower marshal B h' [] \<and> hy_names h' = hy_names h
    \<and> (\<forall>i \<in> fst ` set (hy_names h). i \<in> set (hy_resolved h') \<or> i \<in> set (hy_server h) \<or> i \<in> set answered)
    \<and> set (hy_resolved h) \<subseteq> set (hy_resolved h')"
  using flushCalls_ok [OF assms(1) _ assms(2) [unfolded flushUnansweredCallerCalls_def]]
  by (simp add: sortedKeys_def)

section \<open>Blocks\<close>

lemma historyContentParts_ids [simp]:
  "idsIn ''tool-call'' (historyContentParts ps) = []" "idsIn ''tool-result'' (historyContentParts ps) = []"
  by (induction ps) (auto simp: historyContentParts_def idsIn_def idsOf_def historyMediaPart_def split: option.split)

lemma keep_parts:
  "historyOk lower marshal B h parts \<Longrightarrow> idsIn ''tool-call'' new = [] \<Longrightarrow> idsIn ''tool-result'' new = [] \<Longrightarrow> historyOk lower marshal B h (parts @ new)"
  by (simp add: historyOk_def recorded_def)

lemma textBlockParts_ids:
  "textBlockParts marshal block t = Inr new \<Longrightarrow> idsIn ''tool-call'' new = [] \<and> idsIn ''tool-result'' new = []"
  by (auto simp: textBlockParts_def Let_def idsIn_def idsOf_def split: option.splits json.splits if_splits sum.splits)

lemma reasoning_ids [simp]: "idsOf ''tool-call'' (reasoningPart block) = []" "idsOf ''tool-result'' (reasoningPart block) = []"
  by (simp_all add: idsOf_def reasoningPart_def Let_def)

lemma update_entry: "x \<in> set (AList.update k v m) \<Longrightarrow> x = (k, v) \<or> x \<in> set m"
  by (induction m) (auto split: if_splits)

lemma toolCallBlock_ok:
  assumes "historyOk lower marshal B h parts" "toolCallBlock role t block h = Inr (h', part)"
    and "block \<in> B" "t = blockType block" "t \<in> {''tool_use'', ''server_tool_use'', ''mcp_tool_use''}"
  shows "historyOk lower marshal B h' (parts @ [part])"
proof -
  obtain msgs where msgs: "recorded lower marshal B msgs parts h" using assms(1) by (auto simp: historyOk_def)
  let ?i = "stringValue (map_of block ''id'')" and ?n = "stringValue (map_of block ''name'')"
  have new: "map_of (hy_names h) ?i = None" and part: "idsOf ''tool-call'' part = [?i]" "idsOf ''tool-result'' part = []"
    and h': "hy_names h' = AList.update ?i ?n (hy_names h)" "hy_out h' = hy_out h" "hy_resolved h' = hy_resolved h"
      "set (hy_server h') = (if t \<noteq> ''tool_use'' then insert ?i (set (hy_server h)) else set (hy_server h))"
    using assms(2) by (auto simp: toolCallBlock_def Let_def idsOf_def stringMember_def split: if_splits option.splits)
  have "?i \<notin> fst ` set (hy_names h)" using new by (simp add: map_of_eq_None_iff)
  moreover have "fst ` set (hy_names h') = insert ?i (fst ` set (hy_names h))"
    using dom_update [of ?i ?n "hy_names h"] unfolding h'(1) dom_map_of_conv_image_fst by simp
  moreover have called: "calledIn B (if j \<in> set (hy_server h') then {''server_tool_use'', ''mcp_tool_use''} else {''tool_use''}) j name"
    if "(j, name) \<in> set (hy_names h')" for j name
  proof (cases "(j, name) \<in> set (hy_names h)")
    case True
    moreover have "j \<noteq> ?i" using True new by (force simp: map_of_eq_None_iff)
    ultimately show ?thesis using msgs h'(4) by (auto simp: recorded_def)
  next
    case False
    then have "j = ?i" "name = ?n" using update_entry [of _ ?i ?n "hy_names h"] that h'(1) by auto
    moreover have "?i \<notin> set (hy_server h)" using msgs new by (auto simp: recorded_def map_of_eq_None_iff)
    ultimately show ?thesis using assms(3-5) h'(4) by (auto simp: calledIn_def)
  qed
  moreover have "set (hy_server h) \<subseteq> fst ` set (hy_names h)" using msgs by (simp add: recorded_def)
  then have "set (hy_server h') \<subseteq> fst ` set (hy_names h')" using h'(4) calculation(2) by (simp split: if_splits) blast+
  moreover have "\<forall>(j, name) \<in> set (hy_names h').
      calledIn B (if j \<in> set (hy_server h') then {''server_tool_use'', ''mcp_tool_use''} else {''tool_use''}) j name"
    using called by blast
  ultimately have names: "?i \<notin> fst ` set (hy_names h)" "fst ` set (hy_names h') = insert ?i (fst ` set (hy_names h))"
    and sourced: "set (hy_server h') \<subseteq> fst ` set (hy_names h')" "\<forall>(j, name) \<in> set (hy_names h').
      calledIn B (if j \<in> set (hy_server h') then {''server_tool_use'', ''mcp_tool_use''} else {''tool_use''}) j name"
    by blast+
  have "distinct (callIDs msgs @ idsIn ''tool-call'' (parts @ [part]))"
    "set (callIDs msgs @ idsIn ''tool-call'' (parts @ [part])) = fst ` set (hy_names h')"
    using msgs part names by (auto simp: recorded_def)
  then have "recorded lower marshal B msgs (parts @ [part]) h'"
    using msgs part h'(2,3) sourced unfolding recorded_def by simp
  then show ?thesis by (auto simp: historyOk_def)
qed

lemma toolResultBlock_ok:
  assumes "historyOk lower marshal B h parts" "toolResultBlock lower marshal role t block parts h = Inr h'"
    and "block \<in> B" "t = blockType block" "t = ''tool_result'' \<or> t \<in> set anthropicServerToolResultTypes"
  shows "historyOk lower marshal B h' []"
proof -
  let ?i = "stringValue (map_of block ''tool_use_id'')"
  obtain name h1 result media h2 where i: "map_of (hy_names h) ?i = Some name" "?i \<notin> set (hy_resolved h)"
    and h1: "appendMessage marshal role parts [] h = Inr h1"
    and h2: "appendMessage marshal ''tool'' [toolResultPart ?i name media result] ?i h1 = Inr h2"
      "h' = h2\<lparr>hy_resolved := ?i # hy_resolved h2\<rparr>"
    and kind: "if t = ''tool_result'' then ?i \<notin> set (hy_server h) \<and> callerResult lower block = Inr (result, media)
      else ?i \<in> set (hy_server h) \<and> result = serverResult block \<and> media = []"
    using assms(2) by (auto simp: toolResultBlock_def Let_def split: if_splits option.splits sum.splits prod.splits)
  note one = append_parts [OF assms(1) h1]
  have "?i \<in> fst ` set (hy_names h1)" using i(1) one by (metis map_of_eq_None_iff option.distinct(1))
  moreover have "answeredFrom lower B (toolResultPart ?i name media result)"
  proof (cases "t = ''tool_result''")
    case True
    then show ?thesis
      using names_called [OF assms(1) i(1)] kind assms(4) by (intro answeredFrom_caller [OF _ assms(3)]) simp_all
  next
    case False
    then show ?thesis
      using names_called [OF assms(1) i(1)] kind assms(4,5) answeredFrom_server [OF _ assms(3) refl] by simp
  qed
  ultimately show ?thesis using append_result [OF _ _ _ h2(1)] one i(2) h2(2) by metis
qed

lemma compactionBlock_ok:
  assumes "compactionBlock marshal role block = Inr h'"
  shows "historyOk lower marshal B h' []"
proof -
  let ?part = "JObj [(''type'', JStr ''text''),
    (''text'', JStr (''[Compacted conversation summary from the previous provider]'' @ newline @ stringMember block ''content''))]"
  have a: "appendMessage marshal ''user'' [?part] [] newHistory = Inr h'"
    using assms by (simp add: compactionBlock_def split: if_splits)
  have "historyOk lower marshal B newHistory [?part]"
    using keep_parts [OF newHistory_ok, of "[?part]"] by (simp add: idsOf_def)
  from append_parts [OF this a] show ?thesis by blast
qed

lemma historyBlock_ok:
  assumes "historyOk lower marshal B h parts" "historyBlock lower marshal role omitText raw (h, parts) = Inr (h', parts')"
    and B: "\<And>block. raw = JObj block \<Longrightarrow> block \<in> B"
  shows "historyOk lower marshal B h' parts'"
proof (cases raw)
  case (JObj block)
  let ?t = "stringValue (map_of block ''type'')"
  note run = assms(2) [unfolded historyBlock_def JObj prod.case json.case Let_def]
  consider "?t = ''text''" | "?t \<in> {''image'', ''document'', ''search_result''}" | "?t = ''thinking''" | "?t = ''redacted_thinking''"
    | "?t = ''compaction''" | "?t = ''container_upload''" | "?t \<in> {''tool_use'', ''server_tool_use'', ''mcp_tool_use''}"
    | "?t \<notin> {''text'', ''image'', ''document'', ''search_result'', ''thinking'', ''redacted_thinking'', ''compaction'',
        ''container_upload'', ''tool_use'', ''server_tool_use'', ''mcp_tool_use''}" by blast
  then show ?thesis
  proof cases
    case 1
    then show ?thesis using run assms(1) keep_parts [OF assms(1)] textBlockParts_ids
      by (auto split: option.splits json.splits if_splits sum.splits)
  next
    case 2
    then show ?thesis using run assms(1) keep_parts [OF assms(1)]
      by (auto split: if_splits sum.splits)
  next
    case 3
    then show ?thesis using run keep_parts [OF assms(1)] by (auto split: if_splits)
  next
    case 4
    then show ?thesis using run keep_parts [OF assms(1), of "[JObj [(''type'', JStr ''redacted-reasoning''), (''data'', JStr (stringValue (map_of block ''data'')))]]"]
      by (auto simp: idsOf_def split: if_splits)
  next
    case 5
    then show ?thesis using run compactionBlock_ok by (auto split: sum.splits)
  next
    case 6
    then show ?thesis using run by simp
  next
    case 7
    have "(case toolCallBlock role ?t block h of Inl e \<Rightarrow> Inl e | Inr (h', part) \<Rightarrow> Inr (h', parts @ [part])) = Inr (h', parts')"
      using run 7 by (elim insertE emptyE) simp_all
    then obtain part where part: "toolCallBlock role ?t block h = Inr (h', part)" "parts' = parts @ [part]"
      by (auto split: sum.splits)
    show ?thesis
      unfolding part(2) by (rule toolCallBlock_ok [OF assms(1) part(1) B [OF JObj] _ 7]) (simp only: blockType_def)
  next
    case 8
    then have t: "?t = ''tool_result'' \<or> ?t \<in> set anthropicServerToolResultTypes"
      and h': "toolResultBlock lower marshal role ?t block parts h = Inr h'" "parts' = []"
      using run by (simp_all split: sum.splits if_splits)
    show ?thesis
      unfolding h'(2) by (rule toolResultBlock_ok [OF assms(1) h'(1) B [OF JObj] _ t]) (simp only: blockType_def)
  qed
qed (use assms(2) in \<open>simp_all add: historyBlock_def\<close>)

lemma historyBlocks_ok:
  assumes "historyOk lower marshal B h parts" "historyBlocks lower marshal role omitText blocks (h, parts) = Inr (h', parts')"
    and "\<And>block. JObj block \<in> set blocks \<Longrightarrow> block \<in> B"
  shows "historyOk lower marshal B h' parts'"
  using assms
proof (induction blocks arbitrary: h parts)
  case (Cons b blocks)
  then obtain h1 parts1 where "historyBlock lower marshal role omitText b (h, parts) = Inr (h1, parts1)"
    "historyBlocks lower marshal role omitText blocks (h1, parts1) = Inr (h', parts')" by (auto split: sum.splits)
  then show ?case using Cons.IH historyBlock_ok [OF Cons.prems(1)] Cons.prems(3) by (metis list.set_intros)
qed simp

lemma historyContent_ok:
  assumes "historyOk lower marshal B h []" "historyContent lower marshal role omitText content h = Inr h'"
    and "\<And>blocks block. content = Some (JArr blocks) \<Longrightarrow> JObj block \<in> set blocks \<Longrightarrow> block \<in> B"
  shows "historyOk lower marshal B h' []"
proof -
  have plain: "historyOk lower marshal B h [JObj [(''type'', JStr ''text''), (''text'', JStr t)]]" for t
    using keep_parts [OF assms(1), of "[JObj [(''type'', JStr ''text''), (''text'', JStr t)]]"] by (simp add: idsOf_def)
  show ?thesis
    using assms append_parts [OF plain] append_parts [OF historyBlocks_ok [OF assms(1)]]
    by (auto simp: historyContent_def split: option.splits json.splits if_splits sum.splits)
qed

lemma historyMessages_ok:
  assumes "historyOk lower marshal B h []" "historyMessages lower marshal omitLastText messages h = Inr h'"
    and "blocksOf messages \<subseteq> B"
  shows "historyOk lower marshal B h' []"
  using assms
proof (induction messages arbitrary: h)
  case (Cons m ms)
  obtain h1 where h1: "historyMessage lower marshal (omitLastText \<and> ms = []) m h = Inr h1"
    "historyMessages lower marshal omitLastText ms h1 = Inr h'" using Cons.prems(2) by (auto split: sum.splits)
  have blocks: "block \<in> B" if "m = JObj fields" "map_of fields ''content'' = Some (JArr blocks)" "JObj block \<in> set blocks"
    for block fields blocks
    using Cons.prems(3) that by (auto simp: blocksOf_def)
  have "historyOk lower marshal B h1 []"
    using h1(1) Cons.prems(1) flush_ok [OF Cons.prems(1)] blocks
    unfolding historyMessage_def Let_def by (auto split: json.splits sum.splits if_splits elim!: historyContent_ok [rotated])
  moreover have "blocksOf ms \<subseteq> B" using Cons.prems(3) by (auto simp: blocksOf_def)
  ultimately show ?case using Cons.IH h1(2) by blast
qed simp

section \<open>Properties\<close>

text \<open>
  C28: A rebuilt history is a well-formed conversation about tools: no call is made twice, every call (of the caller or of the
  former provider's server) is answered exactly once, after it was made, and nothing is answered that was not
  called.  The answer to a call of the former provider's server is that provider's own result among the messages, never a
  made-up one, so that a server tool loop that was left unfinished is refused; the answer to a call of the caller is the
  caller's result, or an error saying that there is none.
\<close>

theorem history_answers_every_call:
  assumes "structuredHistory lower marshal messages omitLastText = Inr out"
  shows "\<exists>msgs. map marshal msgs = map Inr out \<and> distinct (callIDs msgs) \<and> distinct (resultIDs msgs)
    \<and> set (resultIDs msgs) = set (callIDs msgs) \<and> inOrder msgs
    \<and> (\<forall>p \<in> set (answersIn msgs). answeredFrom lower (blocksOf messages) p)"
proof -
  obtain h h' where h: "historyMessages lower marshal omitLastText messages newHistory = Inr h"
    and open_calls: "\<not> list_ex (\<lambda>(i, name). i \<notin> set (hy_resolved h) \<and> i \<in> set (hy_server h)) (hy_names h)"
    and h': "flushUnansweredCallerCalls marshal [] h = Inr h'" "out = hy_out h'"
    using assms unfolding structuredHistory_def by (auto split: sum.splits if_splits)
  note flushed = flush_ok [OF historyMessages_ok [OF newHistory_ok h order_refl] h'(1)]
  have "fst ` set (hy_names h) \<subseteq> set (hy_resolved h')"
    using flushed open_calls by (fastforce simp: list_ex_iff)
  moreover obtain msgs where msgs: "recorded lower marshal (blocksOf messages) msgs [] h'" using flushed by (auto simp: historyOk_def)
  ultimately have "set (resultIDs msgs) = set (callIDs msgs)"
    using inOrder_all [of msgs] flushed by (auto simp: recorded_def)
  then show ?thesis using msgs h'(2) by (auto simp: recorded_def)
qed

definition exampleTalk :: "json list" where
  "exampleTalk =
     [JObj [(''role'', JStr ''user''), (''content'', JStr ''weather?'')],
      JObj [(''role'', JStr ''assistant''), (''content'', JArr
        [JObj [(''type'', JStr ''tool_use''), (''id'', JStr ''a''), (''name'', JStr ''wind'')],
         JObj [(''type'', JStr ''tool_use''), (''id'', JStr ''b''), (''name'', JStr ''rain'')]])],
      JObj [(''role'', JStr ''user''), (''content'', JArr
        [JObj [(''type'', JStr ''tool_result''), (''tool_use_id'', JStr ''b''), (''content'', JStr ''no'')]])]]"

lemma history_answers_every_call_witness:
  "\<exists>out msgs. structuredHistory id (\<lambda>v. Inr []) exampleTalk False = Inr out \<and> length out = 4
    \<and> length msgs = 4 \<and> set (resultIDs msgs) = set (callIDs msgs)"
proof -
  have "map_sum (\<lambda>_. ()) length (structuredHistory id (\<lambda>v. Inr []) exampleTalk False) = Inr 4" by code_simp
  then obtain out where out: "structuredHistory id (\<lambda>v. Inr []) exampleTalk False = Inr out" "length out = 4"
    by (cases "structuredHistory id (\<lambda>v. Inr []) exampleTalk False") auto
  from history_answers_every_call [OF out(1)] obtain msgs :: "json list" where
    "map (\<lambda>v. Inr [] :: bytes res) msgs = map Inr out" "set (resultIDs msgs) = set (callIDs msgs)" by blast
  then show ?thesis using out by (metis length_map)
qed

section \<open>Ciphertext\<close>

text \<open>The members of all objects inside a value.\<close>

fun memberKeys :: "json \<Rightarrow> string set" where
  "memberKeys (JObj m) = fst ` set m \<union> (\<Union>p \<in> set m. memberKeys (snd p))"
| "memberKeys (JArr vs) = (\<Union>v \<in> set vs. memberKeys v)"
| "memberKeys v = {}"

lemma update_keys:
  "memberKeys (JObj (AList.update k (JStr s) m)) \<subseteq> insert k (memberKeys (JObj m))"
proof -
  have "set (AList.update k (JStr s) m) \<subseteq> insert (k, JStr s) (set m)" by (induction m) auto
  then show ?thesis by force
qed

text \<open>
  The answer of a former provider's server tool is replayed without its ciphertext, however deep it is in the answer.
\<close>

lemma no_ciphertext_is_replayed:
  "ciphertextKey k \<Longrightarrow> k \<notin> memberKeys (serverResult block)"
proof -
  have "k \<notin> memberKeys (withoutProviderCiphertext v)" if "ciphertextKey k" for v
  proof (induction v rule: withoutProviderCiphertext.induct)
    case (1 m)
    let ?out = "map (\<lambda>(k, v). (k, withoutProviderCiphertext v)) (filter (\<lambda>(k, v). \<not> ciphertextKey k) m)"
    have "k \<notin> memberKeys (JObj ?out)" using 1 that by auto
    moreover have "k \<noteq> ''beefapi_note''" using that by (auto simp: ciphertextKey_def)
    ultimately show ?case using update_keys by (auto simp: Let_def simp del: memberKeys.simps)
  qed auto
  then show "ciphertextKey k \<Longrightarrow> k \<notin> memberKeys (serverResult block)" by (simp add: serverResult_def)
qed

end
