(* ===== verification/Spec2Isabelle.thy ===== *)
theory Spec2Isabelle
  imports RunnerSafety RunnerReplies Inference Web StorePending ManagerSystem ManagerCalls SandSafety Delivery ResponsesStream ProtocolSafety HistorySafety
begin

text \<open>
  This library verifies \<open>cursoragentv1\<close>, the package of \<open>cursor-agent2api\<close> that answers Claude and Responses
  API requests by running an agent at the upstream service.  All source files named here without a directory are
  under \<open>src/cursoragentv1/\<close>.

  The program.  A caller's request reaches the executor (\<open>executor.go\<close>), which checks the credential, translates the
  request and asks the session manager (\<open>manager.go\<close>) to start a run or to resume one with the results of tools.  A
  run talks to the upstream service in one of two protocols: \<open>Runner.Run\<close> (\<open>runner.go\<close>, framed by
  \<open>connect.go\<close>, messages in \<open>wire.go\<close> and \<open>protocol.go\<close>) or the Sand runtime
  (\<open>inference_runner.go\<close> and the other \<open>inference_*.go\<close>).  The run emits events; the session of the manager
  passes them to the output of the request, and the projection (\<open>project_claude.go\<close>,
  \<open>project_responses.go\<close>) turns them into the stream or the answer of the caller's API.  When the model calls a
  tool of the caller, the answer ends, the batch of calls is parked, and a later request brings the results.  What must
  survive a restart (checkpoints, the blobs of a conversation, pending batches, completed answers) is in the file state store
  (\<open>state.go\<close>, \<open>completed_state.go\<close>, \<open>completed_request.go\<close>), whose leases let
  several processes share one directory.

  Conventions.  Definitions have the names of the Go functions, types and methods they translate; record fields carry a prefix of
  their record.  A pointer is an option, an error a value of \<open>goerror\<close> on the left of a sum, a map an
  association list that is updated and deleted by key, a byte string a list of characters; counters of the protocol are
  words or integers with the bound written out.  What is not in the repository is an argument: the digest, random
  identifiers, the clock, JSON and protobuf codecs of generated messages, URL and number parsers, the image decoder, the
  tokenizers, the translator of the SDK, HTTP, the operating system (a record of oracles for faults and contention).
  A theorem that relies on the behaviour of one of them names it as a hypothesis and has a witness at a concrete function.

  Theories.
  \<^item> \<open>Prelude\<close>: errors, byte strings, the functions of \<open>strings\<close>, \<open>sort\<close> and
    \<open>slices\<close>, and the monad \<open>io\<close> of operations that change a state and may fail, with its two judgements:
    \<open>sat\<close> (what holds after every run, successful or not) and \<open>wp\<close> (what a successful run ensures).
  \<^item> \<open>Procs\<close>: concurrent processes whose atomic steps are the critical sections of the code; \<open>oks\<close>
    judges a process under arbitrary interference that keeps an invariant and a relation of what never changes back.
  \<^item> \<open>Connect\<close> and \<open>Frames\<close>: frames of the Connect protocol (\<open>connect.go\<close>) and the receive loop
    both runners share, with the fact that the cutting of the stream into chunks cannot be seen.
  \<^item> \<open>Events\<close>, \<open>Usage\<close>, \<open>Snapshot\<close>, \<open>Batches\<close>, \<open>Blobs\<close>: the
    event vocabulary; the arithmetic of metered usage (\<open>usage_observation.go\<close>); the bounded snapshot of an answer
    (\<open>completed_events.go\<close>) and its replay; the identities of batches and segments (\<open>segment.go\<close>); the
    content-addressed blobs of a run.
  \<^item> \<open>Hosted\<close>, \<open>Interaction\<close>, \<open>Web\<close>: the policy of hosted web tools
    (\<open>hosted_policy.go\<close>), how a run decides on a hosted request, and the web tools the Sand runtime runs itself
    (\<open>inference_web.go\<close>).
  \<^item> \<open>Media\<close> and \<open>Wire\<close>: attachments (\<open>media.go\<close>) and the messages the client writes
    (\<open>wire.go\<close>), with their bytes, and the field readers that the round trips use.
  \<^item> \<open>Protocol\<close> and \<open>ProtocolSafety\<close>: the decoding of the server's envelope and of its typed
    messages (\<open>protocol.go\<close>): which messages are recognised as requests and under which identifier they are answered.
  \<^item> \<open>History\<close> and \<open>HistorySafety\<close>: the structured history of a request (\<open>full_history.go\<close>),
    with its pairing of tool calls and results: every call of the history is answered exactly once, from the request or by the
    fixed text of an unanswered call, or the request is refused.
  \<^item> \<open>Runner\<close>, \<open>RunnerSafety\<close>, \<open>RunnerReplies\<close>: \<open>Runner.Run\<close> as a step function over
    an explicit sequence of inputs; the invariant of a run, when it returns, and that every message of the server that
    wants a reply gets one.
  \<^item> \<open>Inference\<close>, \<open>SandWire\<close>, \<open>Sand\<close>, \<open>SandCheckpoint\<close>, \<open>SandSafety\<close>: the Sand runtime:
    models, parameters and reasoning signatures; its requests and checkpoints; the loop of segments; order and end of what it shows.
  \<^item> \<open>StoreBase\<close>, \<open>PendingIndex\<close>, \<open>Completed\<close>, \<open>StateStore\<close>: the file state store,
    over a world of files with faults: leases, atomic replacement, the pending index, completed snapshots and every method
    of the interface.  \<open>StoreUpdates\<close>, \<open>StoreClaims\<close>, \<open>StoreLookups\<close>, \<open>StoreReplay\<close>
    and \<open>StorePending\<close> hold what they guarantee: atomic writes by the owner only, claims that exclude each other,
    leases given back on every path, expiry that spares what is in use, lookups that answer the same request only, an
    index that agrees with the states.
  \<^item> \<open>Manager\<close>: the session manager, every method a process.  \<open>ManagerSteps\<close> proves the invariant of its
    critical sections, \<open>ManagerSafety\<close> that of every method under interleaving, \<open>ManagerSystem\<close> that of the
    whole system of requests, sessions, runners and readers, and \<open>ManagerCalls\<close> what the methods do: the end of a run
    reaches everyone who waits, identifiers of tool calls are translated back, results are queued.
  \<^item> \<open>Links\<close>, \<open>Projection\<close>, \<open>Assembly\<close>, \<open>Delivery\<close>: the Claude projection, a reader of its
    stream, and the loops of the executor: the stream can be read, and gives the blocks of the answer that is not streamed.
    \<open>Responses\<close> and \<open>ResponsesStream\<close> do the same for the Responses API.

  Specifications.  What a theorem asserts is said by predicates that do not go through the code's own guards:
  \<open>ownsState\<close>, \<open>atomicWrite\<close> and \<open>waitsFor\<close> of the store, \<open>sentAs\<close> and
  \<open>sentItem\<close> of the wire, \<open>showsReference\<close>, \<open>showsDocument\<close> and \<open>cutTo\<close> of the web
  tools, \<open>usedUp\<close> of the budget, \<open>finalError\<close> of the end of a run, \<open>answeredFrom\<close> of the history,
  \<open>restores\<close> of a replay.

  Bounds and fuel.  Lease acquisition is retried \<open>leaseAttempts\<close> = 20 times as in the code.  The choices of the
  scheduler (how often a select polls, whether the context is seen first) are parameters, and the theorems hold for all of
  them.  The readers of protobuf fields run with the number of bytes as fuel: every field uses at least one byte.
  \<open>sandRun\<close> runs with 16 rounds more than it has results, the bound the code has on hosted steps; it is proved never to run out.
  The loops that poll until the caller's context ends (the retry of \<open>StartHistory\<close>, \<open>waitFollowUpSnapshot\<close>)
  take the number of polls before the context ends as a parameter, and are claimed nothing about when it is reached; that a
  caller's request is not blocked for ever by a lock or a full channel is not claimed either: a step of \<open>Procs\<close> that
  cannot go on is simply not taken.

  Not modelled.  The writes of other processes enter the store as contention for leases and as faults, not as arbitrary
  changes of files between two operations, and the death of a process in the middle of an operation is not modelled.  Timers fire when
  a parameter says so; the heartbeats of a run are among its inputs, and its stream of bytes is a finite list of chunks.  A JSON encoding
  of a record is the identity on the record, so that the order of members and the text of numbers do not appear; the byte accounting of
  snapshots takes the sizes from two functions.  Counters of events that Go keeps in an \<open>int\<close> are unbounded in
  \<open>usageFacts\<close>.  A status error of the HTTP transport is one of the errors of a request (\<open>RequestError\<close>).
  Outside the model are the HTTP/2 transport (\<open>stream.go\<close>: network I/O), the discovery of endpoints
  (\<open>server_config.go\<close>), the host's plugin interface (\<open>internal/plugin\<close>,
  \<open>cmd/cursor-agent2api\<close>: registration and C marshalling), the token estimators (\<open>internal/helps\<close>) and the
  generated messages (\<open>gen/agent.pb.go\<close>).  Of \<open>translate.go\<close> only the helpers the other parts use are
  modelled, of \<open>executor.go\<close> neither the preparation of a request by gjson nor the refresh of tokens, and of
  \<open>protocol.go\<close> everything but \<open>proto.Unmarshal\<close> of the generated messages.
\<close>

end
